(* ===== verification/Prelude.thy ===== *)
theory Prelude
  imports Main "HOL-Library.Word"
begin

text \<open>
  The shared vocabulary of the development.

  \<^item> C++ integers are words of their width; \<open>sint\<close> reads a signed one, \<open>uint\<close>/\<open>unat\<close> an unsigned
    one.  A \<open>std::string\<close> or \<open>std::string_view\<close> is a list of bytes.
  \<^item> Code that mutates an object and returns an \<open>int\<close> error code is a \<open>prog\<close>: it maps the object's
    state to \<open>Ok\<close> (return code 0, with the values the out-parameters get), \<open>Err\<close> (a non-zero return
    code, with the state the call leaves behind) or \<open>Abort\<close> (a failed \<open>assert\<close>, an escaping exception
    or an access out of bounds, after which the C++ program has no defined behaviour).
  \<^item> \<open>write_at\<close> is the effect of \<open>memcpy\<close> into a buffer, \<open>slice\<close> the bytes a read sees.
  \<^item> \<open>byte_at\<close> is the \<open>static_cast<uint8_t>((in >> k) & 0xFF)\<close> of the writers.
\<close>

unbundle bit_operations_syntax

type_synonym byte = "8 word"
type_synonym bytes = "byte list"
type_synonym int8 = "8 word"
type_synonym int16 = "16 word"
type_synonym int32 = "32 word"
type_synonym int64 = "64 word"
type_synonym uint64 = "64 word"

named_theorems emits_rules \<open>what an encoder routine appends to the packet\<close>
named_theorems prog_eval \<open>unfolding a program at a given state\<close>
named_theorems reads_rules \<open>what a decoder routine reads back from the packet\<close>

section \<open>Programs with a return code\<close>

datatype ('s, 'a) outcome = Ok 'a 's | Err int 's | Abort

type_synonym ('s, 'a) prog = "'s \<Rightarrow> ('s, 'a) outcome"

definition ret :: "'a \<Rightarrow> ('s, 'a) prog" where
  "ret x = (\<lambda>s. Ok x s)"

definition raise :: "int \<Rightarrow> ('s, 'a) prog" where
  "raise e = (\<lambda>s. Err e s)"

text \<open>\<open>err = m(x); if (err != 0) return err; k(x)\<close>\<close>

definition bind_p :: "('s, 'a) prog \<Rightarrow> ('a \<Rightarrow> ('s, 'b) prog) \<Rightarrow> ('s, 'b) prog" where
  "bind_p m k = (\<lambda>s. case m s of Ok x s' \<Rightarrow> k x s' | Err e s' \<Rightarrow> Err e s' | Abort \<Rightarrow> Abort)"

definition then_p :: "('s, 'a) prog \<Rightarrow> ('s, 'b) prog \<Rightarrow> ('s, 'b) prog" where
  "then_p m k = bind_p m (\<lambda>_. k)"

text \<open>\<open>if (m(x) != 0) return e;\<close>: a failing call is reported with the caller's own code.\<close>

definition err_as :: "int \<Rightarrow> ('s, 'a) prog \<Rightarrow> ('s, 'a) prog" where
  "err_as e m = (\<lambda>s. case m s of Ok x s' \<Rightarrow> Ok x s' | Err _ s' \<Rightarrow> Err e s' | Abort \<Rightarrow> Abort)"

text \<open>\<open>m(x);\<close> with the return code dropped.\<close>

definition ignore_err :: "('s, unit) prog \<Rightarrow> ('s, unit) prog" where
  "ignore_err m = (\<lambda>s. case m s of Ok x s' \<Rightarrow> Ok () s' | Err _ s' \<Rightarrow> Ok () s' | Abort \<Rightarrow> Abort)"

definition when_p :: "bool \<Rightarrow> ('s, unit) prog \<Rightarrow> ('s, unit) prog" where
  "when_p b m = (if b then m else ret ())"

primrec for_each :: "('a \<Rightarrow> ('s, unit) prog) \<Rightarrow> 'a list \<Rightarrow> ('s, unit) prog" where
  "for_each f [] = ret ()"
| "for_each f (x # xs) = then_p (f x) (for_each f xs)"

text \<open>\<open>for (i = 0; i < n; ++i) { m(x); acc = f(acc, x); }\<close>\<close>

primrec loop_p :: "nat \<Rightarrow> ('a \<Rightarrow> 'b \<Rightarrow> 'b) \<Rightarrow> ('s, 'a) prog \<Rightarrow> 'b \<Rightarrow> ('s, 'b) prog" where
  "loop_p 0 f m acc = ret acc"
| "loop_p (Suc n) f m acc = bind_p m (\<lambda>x. loop_p n f m (f x acc))"

lemma ret_apply [prog_eval]: "ret x s = Ok x s"
  by (simp add: ret_def)

lemma raise_apply [prog_eval]: "raise e s = Err e s"
  by (simp add: raise_def)

lemma bind_p_Ok [simp]: "m s = Ok x s' \<Longrightarrow> bind_p m k s = k x s'"
  by (simp add: bind_p_def)

lemma bind_p_Err [simp]: "m s = Err e s' \<Longrightarrow> bind_p m k s = Err e s'"
  by (simp add: bind_p_def)

lemma bind_p_Abort [simp]: "m s = Abort \<Longrightarrow> bind_p m k s = Abort"
  by (simp add: bind_p_def)

lemma then_p_Ok [simp]: "m s = Ok x s' \<Longrightarrow> then_p m k s = k s'"
  by (simp add: then_p_def)

lemma then_p_Err [simp]: "m s = Err e s' \<Longrightarrow> then_p m k s = Err e s'"
  by (simp add: then_p_def)

lemma then_p_Abort [simp]: "m s = Abort \<Longrightarrow> then_p m k s = Abort"
  by (simp add: then_p_def)

lemma err_as_Ok [simp]: "m s = Ok x s' \<Longrightarrow> err_as e m s = Ok x s'"
  by (simp add: err_as_def)

lemma ignore_err_Ok [simp]: "m s = Ok x s' \<Longrightarrow> ignore_err m s = Ok () s'"
  by (simp add: ignore_err_def)

lemma bind_p_eq_Ok:
  "bind_p m k s = Ok y t \<longleftrightarrow> (\<exists>x s'. m s = Ok x s' \<and> k x s' = Ok y t)"
  by (auto simp: bind_p_def split: outcome.splits)

lemma then_p_eq_Ok:
  "then_p m k s = Ok y t \<longleftrightarrow> (\<exists>x s'. m s = Ok x s' \<and> k s' = Ok y t)"
  by (auto simp: then_p_def bind_p_eq_Ok)

lemma bind_p_assoc: "bind_p (bind_p m f) g = bind_p m (\<lambda>x. bind_p (f x) g)"
  by (rule ext) (simp add: bind_p_def split: outcome.split)

lemma bind_p_ret [simp]: "bind_p (ret x) k = k x"
  by (rule ext) (simp add: ret_apply)

lemma then_p_ret [simp]: "then_p (ret x) k = k"
  by (simp add: then_p_def)

lemma then_p_assoc: "then_p (then_p m f) g = then_p m (then_p f g)"
  by (rule ext) (simp add: then_p_def bind_p_def split: outcome.split)

lemma bind_p_ret_right [simp]: "bind_p m ret = m"
  by (rule ext) (simp add: bind_p_def ret_apply split: outcome.split)

section \<open>Buffers\<close>

definition write_at :: "nat \<Rightarrow> 'a list \<Rightarrow> 'a list \<Rightarrow> 'a list" where
  "write_at off bs raw = take off raw @ bs @ drop (off + length bs) raw"

definition slice :: "nat \<Rightarrow> nat \<Rightarrow> 'a list \<Rightarrow> 'a list" where
  "slice off n raw = take n (drop off raw)"

lemma length_write_at [simp]:
  "off + length bs \<le> length raw \<Longrightarrow> length (write_at off bs raw) = length raw"
  by (simp add: write_at_def)

lemma write_at_Nil [simp]: "write_at off [] raw = raw"
  by (simp add: write_at_def)

lemma write_at_write_at:
  "off + length bs + length cs \<le> length raw \<Longrightarrow>
   write_at (off + length bs) cs (write_at off bs raw) = write_at off (bs @ cs) raw"
  by (simp add: write_at_def drop_drop add.commute add.left_commute)

lemma list_update_write_at:
  "off < length raw \<Longrightarrow> raw[off := b] = write_at off [b] raw"
  by (simp add: write_at_def upd_conv_take_nth_drop)

lemma length_slice [simp]: "off + n \<le> length raw \<Longrightarrow> length (slice off n raw) = n"
  by (simp add: slice_def)

lemma slice_append_left:
  "slice off (length (bs @ cs)) raw = bs @ cs \<Longrightarrow> slice off (length bs) raw = bs"
  by (metis append_eq_conv_conj le_add1 length_append min.absorb1 slice_def take_take)

lemma slice_append_right:
  assumes "slice off (length (bs @ cs)) raw = bs @ cs"
  shows "slice (off + length bs) (length cs) raw = cs"
proof -
  have "slice (off + length bs) (length cs) raw = drop (length bs) (slice off (length bs + length cs) raw)"
    by (simp add: slice_def drop_take add.commute)
  with assms show ?thesis by simp
qed

lemma slice_nth:
  assumes "slice off n raw = bs" and "k < n" and "off + n \<le> length raw"
  shows "raw ! (off + k) = bs ! k"
  using assms by (auto simp: slice_def)

lemma slice_write_at:
  assumes "off + length bs \<le> length raw"
  shows "slice off (length bs) (write_at off bs raw) = bs"
  using assms by (simp add: slice_def write_at_def)

section \<open>Bytes of a word\<close>

definition byte_at :: "nat \<Rightarrow> 'a::len word \<Rightarrow> byte" where
  "byte_at k w = ucast (signed_drop_bit k w AND 0xFF)"

lemma bit_ucast_byte: "bit (ucast (b::byte) :: 'a::len word) n \<longleftrightarrow> n < LENGTH('a) \<and> n < 8 \<and> bit b n"
  by (auto simp: bit_simps dest: bit_imp_le_length)

lemma mask8: "(0xFF :: 'a::len word) = mask 8"
  by (simp add: mask_eq_exp_minus_1)

lemma bit_byte_at:
  assumes "k + 8 \<le> LENGTH('a::len)"
  shows "bit (byte_at k (w :: 'a word)) n \<longleftrightarrow> n < 8 \<and> bit w (k + n)"
proof (cases "n < 8")
  case True
  with assms have "\<not> LENGTH('a) \<le> k + n" "\<not> LENGTH('a) - k \<le> n" "n < LENGTH('a)" by auto
  with True show ?thesis
    by (simp add: byte_at_def mask8 bit_simps add.commute)
next
  case False
  then show ?thesis
    by (auto simp: byte_at_def dest: bit_imp_le_length)
qed

text \<open>The four network-order layouts the codec writes.\<close>

definition be8 :: "int8 \<Rightarrow> bytes" where
  "be8 w = [w]"

definition be16 :: "int16 \<Rightarrow> bytes" where
  "be16 w = [byte_at 8 w, byte_at 0 w]"

definition be32 :: "int32 \<Rightarrow> bytes" where
  "be32 w = [byte_at 24 w, byte_at 16 w, byte_at 8 w, byte_at 0 w]"

definition be64 :: "int64 \<Rightarrow> bytes" where
  "be64 w = [byte_at 56 w, byte_at 48 w, byte_at 40 w, byte_at 32 w,
             byte_at 24 w, byte_at 16 w, byte_at 8 w, byte_at 0 w]"

lemma length_be [simp]:
  "length (be8 a) = 1" "length (be16 b) = 2" "length (be32 c) = 4" "length (be64 d) = 8"
  by (simp_all add: be8_def be16_def be32_def be64_def)

text \<open>Assembling an integer from its bytes, as the readers do.\<close>

definition from_be16 :: "byte \<Rightarrow> byte \<Rightarrow> int16" where
  "from_be16 b0 b1 = push_bit 8 (ucast b0) OR ucast b1"

definition from_be32 :: "byte \<Rightarrow> byte \<Rightarrow> byte \<Rightarrow> byte \<Rightarrow> int32" where
  "from_be32 b0 b1 b2 b3 =
     push_bit 24 (ucast b0) OR push_bit 16 (ucast b1) OR push_bit 8 (ucast b2) OR ucast b3"

definition from_be64 ::
    "byte \<Rightarrow> byte \<Rightarrow> byte \<Rightarrow> byte \<Rightarrow> byte \<Rightarrow> byte \<Rightarrow> byte \<Rightarrow> byte \<Rightarrow> int64" where
  "from_be64 b0 b1 b2 b3 b4 b5 b6 b7 =
     push_bit 56 (ucast b0) OR push_bit 48 (ucast b1) OR push_bit 40 (ucast b2) OR
     push_bit 32 (ucast b3) OR push_bit 24 (ucast b4) OR push_bit 16 (ucast b5) OR
     push_bit 8 (ucast b6) OR ucast b7"

lemma bit_shifted_byte:
  assumes "k + 8 \<le> LENGTH('a::len)" and "n < LENGTH('a)"
  shows "bit (push_bit k (ucast (byte_at k (w :: 'a word))) :: 'a word) n \<longleftrightarrow> k \<le> n \<and> n < k + 8 \<and> bit w n"
  using assms by (auto simp: bit_push_bit_iff bit_ucast_byte bit_byte_at)

lemma bit_low_byte:
  assumes "8 \<le> LENGTH('a::len)" and "n < LENGTH('a)"
  shows "bit (ucast (byte_at 0 (w :: 'a word)) :: 'a word) n \<longleftrightarrow> n < 8 \<and> bit w n"
  using assms by (auto simp: bit_ucast_byte bit_byte_at)

lemma from_be16_be16 [simp]: "from_be16 (byte_at 8 w) (byte_at 0 w) = w"
  by (rule bit_word_eqI) (auto simp: from_be16_def bit_or_iff bit_shifted_byte bit_low_byte)

lemma from_be32_be32 [simp]:
  "from_be32 (byte_at 24 w) (byte_at 16 w) (byte_at 8 w) (byte_at 0 w) = w"
  by (rule bit_word_eqI) (auto simp: from_be32_def bit_or_iff bit_shifted_byte bit_low_byte)

lemma from_be64_be64 [simp]:
  "from_be64 (byte_at 56 w) (byte_at 48 w) (byte_at 40 w) (byte_at 32 w)
     (byte_at 24 w) (byte_at 16 w) (byte_at 8 w) (byte_at 0 w) = w"
  by (rule bit_word_eqI) (auto simp: from_be64_def bit_or_iff bit_shifted_byte bit_low_byte)

section \<open>Conversions between sizes and fixed-width integers\<close>

text \<open>\<open>static_cast<int32_t>(v.size())\<close> and its kin keep the low bits of the size.\<close>

abbreviation size16 :: "nat \<Rightarrow> int16" where "size16 n \<equiv> of_nat n"
abbreviation size32 :: "nat \<Rightarrow> int32" where "size32 n \<equiv> of_nat n"
abbreviation size64 :: "nat \<Rightarrow> uint64" where "size64 n \<equiv> of_nat n"

lemma sint_size16: "n < 2 ^ 15 \<Longrightarrow> sint (size16 n) = int n"
  by (simp add: signed_of_nat signed_take_bit_int_eq_self)

lemma sint_size32: "n < 2 ^ 31 \<Longrightarrow> sint (size32 n) = int n"
  by (simp add: signed_of_nat signed_take_bit_int_eq_self)

lemma unat_size64: "n < 2 ^ 64 \<Longrightarrow> unat (size64 n) = n"
  by (simp add: unat_of_nat take_bit_nat_eq_self)

end
