(* ===== verification/Flexible_Type.thy ===== *)
theory Flexible_Type
  imports Prelude
begin

text \<open>
  The base class \<^verbatim>\<open>flexible_type\<close> (\<^verbatim>\<open>flexible_type.h\<close>, \<^verbatim>\<open>flexible_type.cpp\<close>) that \<^verbatim>\<open>packet_encoder\<close>,
  \<^verbatim>\<open>packet_decoder\<close>, \<^verbatim>\<open>prep_encoder\<close> and \<^verbatim>\<open>real_encoder\<close> inherit: a nesting counter that selects the
  fixed (0) or the flexible (compact) wire format.  The C++ inheritance is a record extension, so one
  definition serves all four classes.  The error codes of \<^verbatim>\<open>errors.h\<close> that the codec returns are here
  too.
\<close>

record flexible_type =
  m_flexible :: "16 word"

definition is_fixed :: "'a flexible_type_scheme \<Rightarrow> bool" where
  "is_fixed s \<longleftrightarrow> m_flexible s = 0"

definition is_flexible :: "'a flexible_type_scheme \<Rightarrow> bool" where
  "is_flexible s \<longleftrightarrow> m_flexible s > 0"

definition push_flexible :: "'a flexible_type_scheme \<Rightarrow> 'a flexible_type_scheme" where
  "push_flexible s = s\<lparr>m_flexible := m_flexible s + 1\<rparr>"

definition pop_flexible :: "('a flexible_type_scheme, unit) prog" where
  "pop_flexible s = (if m_flexible s > 0 then Ok () (s\<lparr>m_flexible := m_flexible s - 1\<rparr>) else Abort)"

text \<open>
  \<open>__push_flexible(); finally(__pop_flexible()); return body(...);\<close>: the \<^verbatim>\<open>Finally\<close> object restores the
  counter on the success path and on the error path alike.
\<close>

definition with_flexible ::
    "('a flexible_type_scheme, 'b) prog \<Rightarrow> ('a flexible_type_scheme, 'b) prog" where
  "with_flexible body s =
     (case body (push_flexible s) of
        Ok x s' \<Rightarrow> (case pop_flexible s' of Ok _ s'' \<Rightarrow> Ok x s'' | _ \<Rightarrow> Abort)
      | Err e s' \<Rightarrow> (case pop_flexible s' of Ok _ s'' \<Rightarrow> Err e s'' | _ \<Rightarrow> Abort)
      | Abort \<Rightarrow> Abort)"

text \<open>
  \<open>if (__is_fixed()) ... else if (__is_flexible()) ... return 0;\<close>
\<close>

definition by_flex :: "'b \<Rightarrow> ('a flexible_type_scheme, 'b) prog \<Rightarrow> ('a flexible_type_scheme, 'b) prog \<Rightarrow>
    ('a flexible_type_scheme, 'b) prog" where
  "by_flex d fixed flex s =
     (if is_fixed s then fixed s else if is_flexible s then flex s else Ok d s)"

lemma is_flexible_iff [simp]: "is_flexible s \<longleftrightarrow> \<not> is_fixed s"
  by (simp add: is_flexible_def is_fixed_def word_gt_0)

lemma by_flex_fixed [simp]: "m_flexible s = 0 \<Longrightarrow> by_flex d p q s = p s"
  by (simp add: by_flex_def is_fixed_def)

lemma by_flex_flexible [simp]: "m_flexible s \<noteq> 0 \<Longrightarrow> by_flex d p q s = q s"
  by (simp add: by_flex_def is_fixed_def word_gt_0)

lemma m_flexible_push [simp]: "m_flexible (push_flexible s) = m_flexible s + 1"
  by (simp add: push_flexible_def)

text \<open>The counter is balanced: a body that keeps it is run one level deeper and leaves it as it was.\<close>

lemma with_flexible_Ok:
  assumes "body (push_flexible s) = Ok x s'" and "m_flexible s' = m_flexible s + 1"
    and "m_flexible s + 1 \<noteq> 0"
  shows "with_flexible body s = Ok x (s'\<lparr>m_flexible := m_flexible s\<rparr>)"
  using assms by (simp add: with_flexible_def pop_flexible_def word_gt_0)

section \<open>Error codes\<close>

definition ErrNoError :: int where "ErrNoError = 0"
definition ErrInsufficientData :: int where "ErrInsufficientData = 1010"
definition ErrVariantOverflow :: int where "ErrVariantOverflow = 1032"
definition ErrTaggedFieldsInNonFlexibleContext :: int where
  "ErrTaggedFieldsInNonFlexibleContext = 1033"
definition ErrInvalidStringLength :: int where "ErrInvalidStringLength = 1034"
definition ErrUVariantOverflow :: int where "ErrUVariantOverflow = 1035"
definition ErrInvalidArrayLength :: int where "ErrInvalidArrayLength = 1036"
definition ErrInvalidBool :: int where "ErrInvalidBool = 1037"
definition ErrValidByteSliceLength :: int where "ErrValidByteSliceLength = 1038"
definition ErrPacketDecodingError :: int where "ErrPacketDecodingError = 1041"
definition ErrEncodeError :: int where "ErrEncodeError = 1043"
definition ErrDecodeError :: int where "ErrDecodeError = 1044"
definition ErrCRCMismatch :: int where "ErrCRCMismatch = 1058"

lemmas kerror_defs = ErrNoError_def ErrInsufficientData_def ErrVariantOverflow_def
  ErrTaggedFieldsInNonFlexibleContext_def ErrInvalidStringLength_def ErrUVariantOverflow_def
  ErrInvalidArrayLength_def ErrInvalidBool_def ErrValidByteSliceLength_def
  ErrPacketDecodingError_def ErrEncodeError_def ErrDecodeError_def ErrCRCMismatch_def

definition MaxRequestSize :: int where "MaxRequestSize = 100 * 1024 * 1024"
definition MaxResponseSize :: int where "MaxResponseSize = 100 * 1024 * 1024"

end
