(* ===== verification/Varint.thy ===== *)
theory Varint
  imports Prelude
begin

text \<open>
  The variable-length integers of the codec: \<^verbatim>\<open>zigzagEncode\<close>, \<^verbatim>\<open>encodeUVariant\<close>, \<^verbatim>\<open>encodeVariant\<close>,
  \<^verbatim>\<open>varintLen\<close> and \<^verbatim>\<open>uvarintLen\<close> of \<^verbatim>\<open>packet_encoder.cpp\<close> (with the private copies of \<^verbatim>\<open>real_encoder.cpp\<close>
  and \<^verbatim>\<open>prep_encoder.cpp\<close>, which are the same text), \<^verbatim>\<open>zigzagDecode\<close> of \<^verbatim>\<open>packet_decoder.cpp\<close> and
  \<^verbatim>\<open>variantSize\<close> of \<^verbatim>\<open>variant_length_field.cpp\<close>.  The lemmas compare the length a sizing pass counts
  with the bytes the writing pass emits.
\<close>

definition zigzagEncode :: "int64 \<Rightarrow> uint64" where
  "zigzagEncode x = push_bit 1 x XOR (if sint x < 0 then - 1 else 0)"

definition zigzagDecode :: "uint64 \<Rightarrow> int64" where
  "zigzagDecode x = drop_bit 1 x XOR - (x AND 1)"

lemma unat_drop_bit7: "unat (drop_bit 7 (x :: uint64)) = unat x div 128"
  by (simp add: drop_bit_eq_div unat_div_distrib)

function encodeUVariant :: "uint64 \<Rightarrow> bytes" where
  "encodeUVariant x =
     (if x \<ge> 0x80 then (ucast x OR 0x80) # encodeUVariant (drop_bit 7 x) else [ucast x])"
  by pat_completeness auto
termination
  by (relation "measure unat") (auto simp: unat_drop_bit7 word_le_nat_alt)

definition encodeVariant :: "int64 \<Rightarrow> bytes" where
  "encodeVariant x = encodeUVariant (zigzagEncode x)"

text \<open>\<open>x >>= 7\<close> on a signed integer is an arithmetic shift.\<close>

function varintLen_loop :: "int \<Rightarrow> nat" where
  "varintLen_loop x = (if x \<ge> 0x80 \<or> x < - 0x40 then Suc (varintLen_loop (drop_bit 7 x)) else 0)"
  by pat_completeness auto
termination
  by (relation "measure (\<lambda>x. nat \<bar>x\<bar>)") (auto simp: drop_bit_eq_div)

definition varintLen :: "int64 \<Rightarrow> nat" where
  "varintLen x = varintLen_loop (sint x) + 1"

function uvarintLen_loop :: "uint64 \<Rightarrow> nat" where
  "uvarintLen_loop x = (if x \<ge> 0x80 then Suc (uvarintLen_loop (drop_bit 7 x)) else 0)"
  by pat_completeness auto
termination
  by (relation "measure unat") (auto simp: unat_drop_bit7 word_le_nat_alt)

definition uvarintLen :: "uint64 \<Rightarrow> nat" where
  "uvarintLen x = (if x = 0 then 1 else uvarintLen_loop x + 1)"

text \<open>
  \<^verbatim>\<open>variantSize\<close> shifts until the value is 0.  A negative value shifts to \<open>-1\<close> and stays there, so the
  loop has no result on it: \<open>None\<close>.
\<close>

partial_function (option) variantSize_loop :: "int \<Rightarrow> nat \<Rightarrow> nat option" where
  "variantSize_loop v n =
     (if drop_bit 7 v \<noteq> 0 then variantSize_loop (drop_bit 7 v) (Suc n) else Some (Suc n))"

definition variantSize :: "int64 \<Rightarrow> nat option" where
  "variantSize v = variantSize_loop (sint v) 0"

declare encodeUVariant.simps [simp del] varintLen_loop.simps [simp del] uvarintLen_loop.simps [simp del]

section \<open>Zig-zag\<close>

lemma bit_neg_and_1: "bit (- (x AND 1) :: uint64) n \<longleftrightarrow> n < 64 \<and> bit x 0"
proof (cases "bit x 0")
  case True
  then have "x AND 1 = 1" by (simp add: and_one_eq bit_0 odd_iff_mod_2_eq_one)
  with True show ?thesis by (simp add: bit_minus_1_iff)
next
  case False
  then have "x AND 1 = 0" by (simp add: and_one_eq bit_0 even_iff_mod_2_eq_zero)
  with False show ?thesis by simp
qed

lemma sint_neg_iff_bit63: "sint (x :: int64) < 0 \<longleftrightarrow> bit x 63"
  using bit_last_iff [of x] by simp

lemma bit_zigzagEncode:
  "bit (zigzagEncode x) n \<longleftrightarrow> n < 64 \<and> ((1 \<le> n \<and> bit x (n - 1)) \<noteq> bit x 63)"
  unfolding zigzagEncode_def bit_xor_iff bit_push_bit_iff sint_neg_iff_bit63
  by (auto simp: bit_minus_1_iff dest: bit_imp_le_length)

lemma bit_zigzagDecode:
  "bit (zigzagDecode x) n \<longleftrightarrow> n < 64 \<and> ((n < 63 \<and> bit x (Suc n)) \<noteq> bit x 0)"
  unfolding zigzagDecode_def bit_xor_iff bit_drop_bit_eq bit_neg_and_1
  by (auto dest: bit_imp_le_length)

lemma zigzag_roundtrip [simp]: "zigzagDecode (zigzagEncode x) = x"
proof (rule bit_word_eqI)
  fix n assume "n < LENGTH(64)"
  then have n: "n < 64" by simp
  then have "n < 63 \<or> n = 63" by auto
  with n show "bit (zigzagDecode (zigzagEncode x)) n = bit x n"
    by (auto simp: bit_zigzagDecode bit_zigzagEncode)
qed

section \<open>Lengths\<close>

text \<open>The number of base-128 digits of a natural number, the common yardstick.\<close>

fun digits7 :: "nat \<Rightarrow> nat" where
  "digits7 n = (if n < 128 then 1 else Suc (digits7 (n div 128)))"

declare digits7.simps [simp del]

lemma digits7_bounds: "n < 128 ^ digits7 n \<and> (128 \<le> n \<longrightarrow> 128 ^ (digits7 n - 1) \<le> n) \<and> 1 \<le> digits7 n"
proof (induction n rule: digits7.induct)
  case (1 n)
  show ?case
  proof (cases "n < 128")
    case False
    let ?d = "digits7 (n div 128)"
    have d: "digits7 n = Suc ?d" using False by (simp add: digits7.simps [of n])
    from "1.IH" [OF False] have ub: "n div 128 < 128 ^ ?d" and pos: "1 \<le> ?d"
      and lb: "128 \<le> n div 128 \<longrightarrow> 128 ^ (?d - 1) \<le> n div 128" by auto
    have "n < 128 ^ Suc ?d" using ub by (simp add: div_less_iff_less_mult mult.commute)
    moreover have "128 ^ ?d \<le> n"
    proof (cases "128 \<le> n div 128")
      case True
      with lb have "128 * 128 ^ (?d - 1) \<le> n" by (simp add: less_eq_div_iff_mult_less_eq mult.commute)
      with pos show ?thesis by (metis power_eq_if not_one_le_zero)
    next
      case small: False
      then have "?d = 1" by (simp add: digits7.simps [of "n div 128"])
      with False show ?thesis by simp
    qed
    ultimately show ?thesis using d pos by simp
  qed (simp add: digits7.simps [of n])
qed

lemma digits7_unique:
  assumes "n < 128 ^ Suc k" and "k = 0 \<or> 128 ^ k \<le> n"
  shows "digits7 n = Suc k"
proof (cases "n < 128")
  case True
  have "k = 0"
  proof (rule ccontr)
    assume "k \<noteq> 0"
    with assms have "128 ^ k \<le> n" by simp
    moreover from \<open>k \<noteq> 0\<close> have "(128::nat) ^ 1 \<le> 128 ^ k" by (intro power_increasing) auto
    ultimately show False using True by simp
  qed
  with True show ?thesis by (simp add: digits7.simps [of n])
next
  case False
  let ?d = "digits7 n"
  from False digits7_bounds [of n] have b: "n < 128 ^ ?d" "128 ^ (?d - 1) \<le> n" "1 \<le> ?d" by auto
  have k: "128 ^ k \<le> n" using assms(2) False by auto
  have "128 ^ (?d - 1) < (128::nat) ^ Suc k" using b(2) assms(1) by (rule le_less_trans)
  then have "?d - 1 < Suc k" by (rule power_less_imp_less_exp [rotated]) simp
  moreover have "(128::nat) ^ k < 128 ^ ?d" using k b(1) by (rule le_less_trans)
  then have "k < ?d" by (rule power_less_imp_less_exp [rotated]) simp
  ultimately show ?thesis by simp
qed

lemma length_encodeUVariant: "length (encodeUVariant x) = digits7 (unat x)"
proof (induction x rule: encodeUVariant.induct)
  case (1 x)
  then show ?case
    by (cases "0x80 \<le> x")
      (auto simp: encodeUVariant.simps [of x] digits7.simps [of "unat x"] unat_drop_bit7 word_le_nat_alt)
qed

lemma uvarintLen_loop_digits7: "uvarintLen_loop x + 1 = digits7 (unat x)"
proof (induction x rule: uvarintLen_loop.induct)
  case (1 x)
  then show ?case
    by (cases "0x80 \<le> x")
      (auto simp: uvarintLen_loop.simps [of x] digits7.simps [of "unat x"] unat_drop_bit7 word_le_nat_alt)
qed

lemma uvarintLen_eq [simp]: "uvarintLen x = length (encodeUVariant x)"
  using uvarintLen_loop_digits7 [of x]
  by (auto simp: uvarintLen_def length_encodeUVariant digits7.simps [of 0])

lemma uint_zigzagEncode:
  "uint (zigzagEncode x) = (if sint x < 0 then - 2 * sint x - 1 else 2 * sint x)"
proof -
  have lo: "- (2 ^ 63) \<le> sint x" and hi: "sint x < 2 ^ 63"
    using sint_range_size [of x] by (auto simp: word_size)
  have x: "word_of_int (sint x) = x" by (simp flip: scast_eq)
  have "push_bit 1 x = 2 * x" by (simp add: push_bit_eq_mult mult.commute)
  also have "\<dots> = word_of_int (2 * sint x)" by (simp add: x flip: wi_homs(3))
  finally have x2: "push_bit 1 x = word_of_int (2 * sint x)" .
  have "zigzagEncode x = word_of_int (if sint x < 0 then - 2 * sint x - 1 else 2 * sint x)"
    unfolding zigzagEncode_def x2 by (simp add: not_eq_complement wi_homs)
  then show ?thesis using lo hi by (simp add: uint_word_of_int take_bit_int_eq_self)
qed

lemma varintLen_loop_neg_bounds:
  "x < 0 \<Longrightarrow> - 64 * 128 ^ varintLen_loop x \<le> x \<and>
     (0 < varintLen_loop x \<longrightarrow> x < - 64 * 128 ^ (varintLen_loop x - 1))"
proof (induction x rule: varintLen_loop.induct)
  case (1 x)
  show ?case
  proof (cases "x < - 64")
    case True
    let ?y = "x div 128" and ?k = "varintLen_loop (x div 128)"
    have y: "128 * ?y \<le> x" "x < 128 * (?y + 1)" "?y < 0" using True by auto
    have k: "varintLen_loop x = Suc ?k"
      using True by (simp add: varintLen_loop.simps [of x] drop_bit_eq_div)
    from "1.IH" True y(3) have lo: "- 64 * 128 ^ ?k \<le> ?y"
      and hi: "0 < ?k \<longrightarrow> ?y < - 64 * 128 ^ (?k - 1)" by (auto simp: drop_bit_eq_div)
    have "- 64 * 128 ^ Suc ?k \<le> x" using lo y(1) by simp
    moreover have "x < - 64 * 128 ^ ?k"
    proof (cases ?k)
      case 0 with True show ?thesis by simp
    next
      case (Suc j)
      with hi have "?y + 1 \<le> - 64 * 128 ^ j" by simp
      with y(2) Suc show ?thesis by simp
    qed
    ultimately show ?thesis using k by simp
  next
    case False
    with 1 show ?thesis by (simp add: varintLen_loop.simps [of x])
  qed
qed

lemma varintLen_loop_neg:
  assumes "x < 0" shows "varintLen_loop x + 1 = digits7 (nat (- 2 * x - 1))"
proof -
  let ?k = "varintLen_loop x"
  from varintLen_loop_neg_bounds [OF assms]
  have lo: "- 64 * 128 ^ ?k \<le> x" and hi: "0 < ?k \<longrightarrow> x < - 64 * 128 ^ (?k - 1)" by auto
  have "digits7 (nat (- 2 * x - 1)) = Suc ?k"
  proof (rule digits7_unique)
    have "int (nat (- 2 * x - 1)) < int (128 ^ Suc ?k)" using lo assms by simp
    then show "nat (- 2 * x - 1) < 128 ^ Suc ?k" by (simp only: of_nat_less_iff)
    show "?k = 0 \<or> 128 ^ ?k \<le> nat (- 2 * x - 1)"
    proof (cases ?k)
      case (Suc j)
      with hi have "int (128 ^ ?k) \<le> int (nat (- 2 * x - 1))" by simp
      then show ?thesis by (simp only: of_nat_le_iff) simp
    qed simp
  qed
  then show ?thesis by simp
qed

lemma varintLen_loop_nonneg: "0 \<le> x \<Longrightarrow> varintLen_loop x + 1 = digits7 (nat x)"
proof (induction x rule: varintLen_loop.induct)
  case (1 x)
  show ?case
  proof (cases "128 \<le> x")
    case True
    with 1 have "varintLen_loop (drop_bit 7 x) + 1 = digits7 (nat x div 128)"
      by (simp add: drop_bit_eq_div nat_div_distrib)
    moreover have "\<not> nat x < 128" using True by simp
    ultimately show ?thesis using True
      by (simp add: varintLen_loop.simps [of x] digits7.simps [of "nat x"])
  next
    case False
    with 1 have "nat x < 128" by simp
    with 1 False show ?thesis
      by (simp add: varintLen_loop.simps [of x] digits7.simps [of "nat x"])
  qed
qed

lemma varintLen_negative: 
  assumes "sint x < 0" shows "varintLen x = length (encodeVariant x)"
proof -
  have "unat (zigzagEncode x) = nat (- 2 * sint x - 1)"
    using assms uint_zigzagEncode [of x] by (simp flip: nat_uint_eq)
  then show ?thesis using varintLen_loop_neg [OF assms]
    by (simp add: varintLen_def encodeVariant_def length_encodeUVariant)
qed

text \<open>
  On a non-negative value the sizing pass measures \<open>x\<close> itself, the writer its zig-zag image \<open>2x\<close>.
\<close>

lemma varintLen_nonneg: 
  assumes "0 \<le> sint x"
  shows "varintLen x = digits7 (nat (sint x))"
    and "length (encodeVariant x) = digits7 (2 * nat (sint x))"
proof -
  show "varintLen x = digits7 (nat (sint x))"
    using varintLen_loop_nonneg [OF assms] by (simp add: varintLen_def)
  have "unat (zigzagEncode x) = 2 * nat (sint x)"
    using assms uint_zigzagEncode [of x] by (simp add: nat_mult_distrib flip: nat_uint_eq)
  then show "length (encodeVariant x) = digits7 (2 * nat (sint x))"
    by (simp add: encodeVariant_def length_encodeUVariant)
qed

lemma varintLen_short:
  assumes "128 ^ Suc k \<le> 2 * sint x" and "sint x < 128 ^ Suc k"
  shows "length (encodeVariant x) = varintLen x + 1"
proof -
  have pos: "0 \<le> sint x" using assms(1) by (smt (verit) zero_less_power)
  have n: "int (nat (sint x)) = sint x" using pos by simp
  have "digits7 (nat (sint x)) = Suc k"
  proof (rule digits7_unique)
    show "nat (sint x) < 128 ^ Suc k" using assms(2) pos by (simp add: nat_less_iff)
    show "k = 0 \<or> 128 ^ k \<le> nat (sint x)"
    proof -
      have "(128::int) ^ k \<le> 64 * 128 ^ k" by simp
      also have "\<dots> \<le> sint x" using assms(1) by simp
      finally show ?thesis using pos by (simp add: le_nat_iff)
    qed
  qed
  moreover have "digits7 (2 * nat (sint x)) = Suc (Suc k)"
  proof (rule digits7_unique)
    have "2 * sint x < 128 ^ Suc (Suc k)" using assms(2) pos by simp
    then show "2 * nat (sint x) < 128 ^ Suc (Suc k)" using pos
      by (simp add: nat_less_iff nat_mult_distrib flip: of_nat_less_iff [where 'a=int])
    show "Suc k = 0 \<or> 128 ^ Suc k \<le> 2 * nat (sint x)"
      using assms(1) pos by (simp flip: of_nat_le_iff [where 'a=int])
  qed
  ultimately show ?thesis using varintLen_nonneg [OF pos] by simp
qed


lemma variantSize_loop_nonneg: "0 \<le> v \<Longrightarrow> variantSize_loop v n = Some (n + digits7 (nat v))"
proof (induction "nat v" arbitrary: v n rule: less_induct)
  case less
  show ?case
  proof (cases "v < 128")
    case True
    with less.prems have "drop_bit 7 v = 0" "nat v < 128" by (auto simp: drop_bit_eq_div)
    then show ?thesis by (simp add: variantSize_loop.simps [of v] digits7.simps [of "nat v"])
  next
    case False
    then have "drop_bit 7 v \<noteq> 0" "\<not> nat v < 128" and d: "nat (drop_bit 7 v) = nat v div 128"
      by (auto simp: drop_bit_eq_div nat_div_distrib)
    moreover from False have "variantSize_loop (drop_bit 7 v) (Suc n) = Some (Suc n + digits7 (nat v div 128))"
      using less.hyps [of "drop_bit 7 v" "Suc n"] d by (simp add: drop_bit_eq_div)
    ultimately show ?thesis by (simp add: variantSize_loop.simps [of v] digits7.simps [of "nat v"])
  qed
qed

lemma variantSize_loop_returns:
  assumes "variantSize_loop v n = Some r" shows "0 \<le> v"
proof (rule variantSize_loop.raw_induct [where P = "\<lambda>v n r. 0 \<le> v", OF _ assms])
  fix f and v :: int and n r :: nat
  assume IH: "\<And>v n r. f v n = Some r \<Longrightarrow> 0 \<le> v"
    and eq: "(if drop_bit 7 v \<noteq> 0 then f (drop_bit 7 v) (Suc n) else Some (Suc n)) = Some r"
  have "0 \<le> drop_bit 7 v"
    using eq IH [of "drop_bit 7 v" "Suc n" r] by (cases "drop_bit 7 v = 0") auto
  then show "0 \<le> v" by simp
qed

lemma variantSize_nonneg: "0 \<le> sint v \<Longrightarrow> variantSize v = Some (digits7 (nat (sint v)))"
  by (simp add: variantSize_def variantSize_loop_nonneg)

lemma variantSize_negative: "sint v < 0 \<Longrightarrow> variantSize v = None"
  using variantSize_loop_returns [of "sint v" 0]
  by (cases "variantSize_loop (sint v) 0") (auto simp: variantSize_def)

end
