(* ===== verification/Crc32.thy ===== *)
theory Crc32
  imports Prelude
begin

text \<open>
  The two CRC-32 computations of the repository: \<^verbatim>\<open>Crc32Field::crc\<close> (\<^verbatim>\<open>crc32_field.cpp\<close>), table driven for
  the Castagnoli polynomial and bit by bit for the IEEE one, and \<^verbatim>\<open>SimpleMakeHandle\<close>, \<^verbatim>\<open>SimpleUpdate\<close>,
  \<^verbatim>\<open>Checksum\<close> of \<^verbatim>\<open>utils/hash/crc32.cpp\<close>.  The table-driven step is proved equal to the bitwise one, from
  the linearity of the shift register.
\<close>

datatype CrcPolynomial = CrcIEEE | CrcCastagnoli

text \<open>\<open>if (crc & 1) crc = (crc >> 1) ^ poly; else crc >>= 1;\<close>\<close>

definition crc_bit :: "32 word \<Rightarrow> 32 word \<Rightarrow> 32 word" where
  "crc_bit poly crc = (if crc AND 1 \<noteq> 0 then drop_bit 1 crc XOR poly else drop_bit 1 crc)"

text \<open>The inner loop \<open>for (int j = 0; j < 8; ++j)\<close>.\<close>

definition crc_bits8 :: "32 word \<Rightarrow> 32 word \<Rightarrow> 32 word" where
  "crc_bits8 poly crc = (crc_bit poly ^^ 8) crc"

definition SimpleMakeHandle :: "32 word \<Rightarrow> 32 word list" where
  "SimpleMakeHandle poly = map (\<lambda>i. crc_bits8 poly (of_nat i)) [0..<256]"

definition castagnoliTable :: "32 word list" where
  "castagnoliTable = SimpleMakeHandle 0x82F63B78"

text \<open>\<open>table[i]\<close>; the index is masked to eight bits by every caller.\<close>

definition table_at :: "32 word list \<Rightarrow> 32 word \<Rightarrow> 32 word" where
  "table_at tab i = tab ! unat i"

primrec crc_castagnoli :: "32 word \<Rightarrow> bytes \<Rightarrow> 32 word" where
  "crc_castagnoli crc [] = crc"
| "crc_castagnoli crc (b # bs) =
     crc_castagnoli (drop_bit 8 crc XOR table_at castagnoliTable ((crc AND 0xFF) XOR ucast b)) bs"

primrec crc_ieee :: "32 word \<Rightarrow> bytes \<Rightarrow> 32 word" where
  "crc_ieee crc [] = crc"
| "crc_ieee crc (b # bs) = crc_ieee (crc_bits8 0xEDB88320 (crc XOR ucast b)) bs"

text \<open>
  \<^verbatim>\<open>Crc32Field::crc\<close> over the bytes \<open>buf[m_start_offset + 4 .. cur_offset)\<close>, which the caller slices.
\<close>

definition Crc32Field_crc :: "CrcPolynomial \<Rightarrow> bytes \<Rightarrow> 32 word" where
  "Crc32Field_crc poly bs =
     (if poly = CrcCastagnoli then crc_castagnoli 0xFFFFFFFF bs else crc_ieee 0xFFFFFFFF bs)
     XOR 0xFFFFFFFF"

text \<open>
  \<^verbatim>\<open>SimpleUpdate\<close>: \<open>data[i]\<close> is a \<open>char\<close>, sign-extended before the \<open>^\<close> and then masked to eight bits.
\<close>

primrec SimpleUpdate_loop :: "32 word \<Rightarrow> bytes \<Rightarrow> 32 word list \<Rightarrow> 32 word" where
  "SimpleUpdate_loop crc [] tab = crc"
| "SimpleUpdate_loop crc (b # bs) tab =
     SimpleUpdate_loop (table_at tab ((crc XOR scast b) AND 0xFF) XOR drop_bit 8 crc) bs tab"

definition SimpleUpdate :: "32 word \<Rightarrow> bytes \<Rightarrow> 32 word list \<Rightarrow> 32 word" where
  "SimpleUpdate crc data tab = NOT (SimpleUpdate_loop (NOT crc) data tab)"

definition Checksum :: "bytes \<Rightarrow> 32 word list \<Rightarrow> 32 word" where
  "Checksum data tab = SimpleUpdate 0 data tab"

definition ChecksumIEEE :: "bytes \<Rightarrow> 32 word" where
  "ChecksumIEEE data = Checksum data (SimpleMakeHandle 0xEDB88320)"

section \<open>Table-driven and bitwise steps agree\<close>

lemma and_1_ne_0_iff: "(x AND 1 :: 32 word) \<noteq> 0 \<longleftrightarrow> bit x 0"
  by (simp add: and_one_eq bit_0 odd_iff_mod_2_eq_one even_iff_mod_2_eq_zero)

lemma drop_bit_xor: "drop_bit n (x XOR y :: 32 word) = drop_bit n x XOR drop_bit n y"
  by (rule bit_word_eqI) (simp add: bit_simps)

lemma crc_bit_linear: "crc_bit p (x XOR y) = crc_bit p x XOR crc_bit p y"
  by (simp add: crc_bit_def and_1_ne_0_iff bit_xor_iff drop_bit_xor xor.left_commute xor.commute
      xor.assoc)

lemma crc_bits8_linear: "crc_bits8 p (x XOR y) = crc_bits8 p x XOR crc_bits8 p y"
proof -
  have "(crc_bit p ^^ n) (x XOR y) = (crc_bit p ^^ n) x XOR (crc_bit p ^^ n) y" for n
    by (induction n) (simp_all add: crc_bit_linear)
  then show ?thesis by (simp add: crc_bits8_def)
qed

text \<open>With the low byte clear the register is only shifted.\<close>

lemma crc_bits8_high: "take_bit 8 (x :: 32 word) = 0 \<Longrightarrow> crc_bits8 p x = drop_bit 8 x"
proof -
  assume low: "take_bit 8 x = 0"
  have bits: "\<not> bit x n" if "n < 8" for n
    using low that by (metis bit_0_eq bit_take_bit_iff bot_apply bot_bool_def)
  have "n \<le> 8 \<Longrightarrow> (crc_bit p ^^ n) x = drop_bit n x" for n
  proof (induction n)
    case (Suc n)
    then have "\<not> bit (drop_bit n x) 0" by (simp add: bit_drop_bit_eq bits)
    with Suc show ?case by (simp add: crc_bit_def and_1_ne_0_iff drop_bit_drop_bit)
  qed simp
  then show ?thesis by (simp add: crc_bits8_def)
qed

lemma table_at_SimpleMakeHandle:
  assumes "i < 256" shows "table_at (SimpleMakeHandle p) i = crc_bits8 p i"
proof -
  have "unat i < 256" using assms by (simp add: word_less_nat_alt)
  then show ?thesis by (simp add: table_at_def SimpleMakeHandle_def)
qed

lemma table_step:
  assumes "low < 256" and "\<And>n. bit low n \<longleftrightarrow> n < 8 \<and> bit (crc XOR c) n"
    and "\<And>n. 8 \<le> n \<Longrightarrow> \<not> bit c n"
  shows "drop_bit 8 crc XOR table_at (SimpleMakeHandle p) low = crc_bits8 p (crc XOR c)"
proof -
  let ?hi = "crc AND NOT (mask 8)"
  have split: "crc XOR c = ?hi XOR low"
    by (rule bit_word_eqI) (use assms(2,3) in \<open>auto simp: bit_simps bit_mask_iff\<close>)
  have "take_bit 8 ?hi = 0"
    by (rule bit_word_eqI) (simp add: bit_simps bit_mask_iff)
  then have "crc_bits8 p ?hi = drop_bit 8 ?hi" by (rule crc_bits8_high)
  moreover have "drop_bit 8 ?hi = drop_bit 8 crc"
    by (rule bit_word_eqI) (auto simp: bit_simps bit_mask_iff dest: bit_imp_le_length)
  ultimately show ?thesis
    unfolding split crc_bits8_linear by (simp add: table_at_SimpleMakeHandle [OF assms(1)])
qed

lemma word_lt_256: "(\<And>n. bit (w :: 32 word) n \<Longrightarrow> n < 8) \<Longrightarrow> w < 256"
proof -
  assume "\<And>n. bit w n \<Longrightarrow> n < 8"
  then have "take_bit 8 w = w" by (intro bit_word_eqI) (auto simp: bit_take_bit_iff)
  then have "uint w < 2 ^ 8" by (metis take_bit_int_less_exp unsigned_take_bit_eq)
  then show ?thesis by (simp add: word_less_def)
qed

definition crc_reference :: "32 word \<Rightarrow> 32 word \<Rightarrow> bytes \<Rightarrow> 32 word" where
  "crc_reference poly = foldl (\<lambda>crc b. crc_bits8 poly (crc XOR ucast b))"

lemma castagnoli_step:
  "drop_bit 8 crc XOR table_at (SimpleMakeHandle p) ((crc AND 0xFF) XOR ucast b) =
   crc_bits8 p (crc XOR ucast (b :: byte))"
proof (rule table_step)
  have bits: "bit ((crc AND 0xFF) XOR ucast b) n \<longleftrightarrow> n < 8 \<and> bit (crc XOR ucast b) n" for n
    by (auto simp: mask8 bit_simps bit_mask_iff dest: bit_imp_le_length)
  then show "bit ((crc AND 0xFF) XOR ucast b) n \<longleftrightarrow> n < 8 \<and> bit (crc XOR ucast b) n" for n .
  from bits show "(crc AND 0xFF) XOR ucast b < 256" by (intro word_lt_256) simp
  show "\<not> bit (ucast b :: 32 word) n" if "8 \<le> n" for n
    using that by (simp add: bit_ucast_byte)
qed

lemma simple_step:
  "table_at (SimpleMakeHandle p) ((crc XOR scast b) AND 0xFF) XOR drop_bit 8 crc =
   crc_bits8 p (crc XOR ucast (b :: byte))"
proof -
  have sc: "bit (scast b :: 32 word) n \<longleftrightarrow> bit b n" if "n < 8" for n
    using that by (cases "n = 7") (auto simp: bit_simps min_def)
  have bits: "bit ((crc XOR scast b) AND 0xFF) n \<longleftrightarrow> n < 8 \<and> bit (crc XOR ucast b) n" for n
    by (cases "n < 8") (auto simp: mask8 bit_and_iff bit_xor_iff bit_mask_iff bit_ucast_byte sc)
  have "drop_bit 8 crc XOR table_at (SimpleMakeHandle p) ((crc XOR scast b) AND 0xFF) =
      crc_bits8 p (crc XOR ucast b)"
    by (rule table_step) (use bits in \<open>auto intro: word_lt_256 simp: bit_ucast_byte\<close>)
  then show ?thesis by (simp add: xor.commute)
qed

lemma crc_castagnoli_reference: "crc_castagnoli crc bs = crc_reference 0x82F63B78 crc bs"
  by (induction bs arbitrary: crc)
    (simp_all add: crc_reference_def castagnoliTable_def castagnoli_step)

lemma crc_ieee_reference: "crc_ieee crc bs = crc_reference 0xEDB88320 crc bs"
  by (induction bs arbitrary: crc) (simp_all add: crc_reference_def)

lemma SimpleUpdate_loop_reference:
  "SimpleUpdate_loop crc bs (SimpleMakeHandle p) = crc_reference p crc bs"
  by (induction bs arbitrary: crc) (simp_all add: crc_reference_def simple_step)

lemma xor_ones: "x XOR 0xFFFFFFFF = NOT (x :: 32 word)"
proof -
  have "(0xFFFFFFFF :: 32 word) = - 1" by simp
  then show ?thesis by (simp only: bit.xor_one_right)
qed

lemma SimpleUpdate_append:
  "SimpleUpdate crc (xs @ ys) tab = SimpleUpdate (SimpleUpdate crc xs tab) ys tab"
proof -
  have "SimpleUpdate_loop c (xs @ ys) tab = SimpleUpdate_loop (SimpleUpdate_loop c xs tab) ys tab" for c
    by (induction xs arbitrary: c) simp_all
  then show ?thesis by (simp add: SimpleUpdate_def)
qed

lemma Checksum_agrees_Crc32Field:
  "Checksum data (SimpleMakeHandle (if poly = CrcCastagnoli then 0x82F63B78 else 0xEDB88320)) =
   Crc32Field_crc poly data"
proof -
  have "NOT (0 :: 32 word) = 0xFFFFFFFF" by simp
  then show ?thesis
    by (simp only: Checksum_def SimpleUpdate_def SimpleUpdate_loop_reference Crc32Field_crc_def
        crc_castagnoli_reference crc_ieee_reference xor_ones split: if_split) simp
qed

end
