(* ===== verification/Packet_Encoder.thy ===== *)
theory Packet_Encoder
  imports Flexible_Type Varint Crc32
begin

text \<open>
  \<^verbatim>\<open>packet_encoder\<close> (\<^verbatim>\<open>packet_encoder.h\<close>, \<^verbatim>\<open>packet_encoder.cpp\<close>): one class that runs the same \<^verbatim>\<open>encode\<close>
  method twice, first as \<open>PREP\<close> to count the bytes of a message and then as \<open>REAL\<close> to write them into a
  buffer of that size; with the push fields of \<^verbatim>\<open>length_field.cpp\<close>, \<^verbatim>\<open>crc32_field.cpp\<close> and
  \<^verbatim>\<open>variant_length_field.cpp\<close>.

  State: \<open>pe_offset\<close> is the union of \<open>m_offset\<close> and \<open>m_length\<close>, \<open>pe_raw\<close> is \<open>m_raw\<close>, \<open>pe_stack\<close> is
  \<open>m_stack\<close> with the back of the vector at the head of the list.  A push field is an object the caller
  owns and the stack points to; the model moves it onto the stack at \<open>push\<close> and hands it back at
  \<open>pop\<close>.  Both classes of size are exact: \<open>m_length\<close> is a 64-bit \<open>size_t\<close> and wraps, a
  \<open>static_cast<int>\<close> keeps 32 bits, and an overflowing \<open>int\<close> product is undefined (\<open>Abort\<close>).
\<close>

section \<open>Push fields\<close>

datatype push_field =
    LengthField int32 int32 \<comment> \<open>\<open>m_start_offset\<close>, \<open>m_length\<close>\<close>
  | Crc32Field int32 CrcPolynomial \<comment> \<open>\<open>m_start_offset\<close>, \<open>m_polynomial\<close>\<close>
  | VariantLengthField int32 int64 \<comment> \<open>\<open>m_start_offset\<close>, \<open>m_length\<close>\<close>

fun save_offset :: "int32 \<Rightarrow> push_field \<Rightarrow> push_field" where
  "save_offset off (LengthField _ l) = LengthField off l"
| "save_offset off (Crc32Field _ p) = Crc32Field off p"
| "save_offset off (VariantLengthField _ l) = VariantLengthField off l"

fun reserve_length :: "push_field \<Rightarrow> nat option" where
  "reserve_length (LengthField _ _) = Some 4"
| "reserve_length (Crc32Field _ _) = Some 4"
| "reserve_length (VariantLengthField _ l) = variantSize l"

text \<open>\<^verbatim>\<open>run\<close>: patches the reserved bytes of the buffer; a patch outside the buffer is undefined.\<close>

definition patch :: "int32 \<Rightarrow> bytes \<Rightarrow> bytes \<Rightarrow> bytes option" where
  "patch start bs raw =
     (if 0 \<le> sint start \<and> nat (sint start) + length bs \<le> length raw
      then Some (write_at (nat (sint start)) bs raw) else None)"

fun run_field :: "int32 \<Rightarrow> bytes \<Rightarrow> push_field \<Rightarrow> bytes option" where
  "run_field cur raw (LengthField start _) = patch start (be32 (cur - start - 4)) raw"
| "run_field cur raw (Crc32Field start poly) =
     (if 0 \<le> sint start \<and> sint cur \<le> int (length raw)
      then patch start (be32 (Crc32Field_crc poly
             (slice (nat (sint start) + 4) (nat (sint cur - (sint start + 4))) raw))) raw
      else None)"
| "run_field cur raw (VariantLengthField start l) = patch start (encodeVariant l) raw"

text \<open>
  \<^verbatim>\<open>adjust_length\<close> of the dynamic field: the new field and the change in the reserved size.
\<close>

fun adjust_length :: "int32 \<Rightarrow> push_field \<Rightarrow> (push_field \<times> int) option" where
  "adjust_length cur (VariantLengthField start l) =
     (case variantSize l of
        None \<Rightarrow> None
      | Some oldSize \<Rightarrow>
          (let l' = scast (cur - start - of_nat oldSize)
           in case variantSize l' of
                None \<Rightarrow> None
              | Some newSize \<Rightarrow> Some (VariantLengthField start l', int newSize - int oldSize)))"
| "adjust_length cur f = Some (f, 0)"

section \<open>The encoder\<close>

datatype enc_type = NONE | PREP | REAL

record packet_encoder = flexible_type +
  pe_type :: enc_type
  pe_offset :: nat
  pe_stack :: "push_field list"
  pe_raw :: bytes

type_synonym 'a enc = "(packet_encoder, 'a) prog"

definition by_mode :: "'a enc \<Rightarrow> 'a enc \<Rightarrow> 'a enc" where
  "by_mode prep real pe = (case pe_type pe of PREP \<Rightarrow> prep pe | REAL \<Rightarrow> real pe | NONE \<Rightarrow> Abort)"

text \<open>\<open>m_length += n\<close> with \<open>n\<close> an \<open>int\<close> converted to \<open>size_t\<close>.\<close>

definition count :: "int \<Rightarrow> unit enc" where
  "count n pe = Ok () (pe\<lparr>pe_offset := nat ((int (pe_offset pe) + n) mod 2 ^ 64)\<rparr>)"

text \<open>\<open>m_length += k * static_cast<int>(n)\<close>\<close>

definition count_elems :: "int \<Rightarrow> nat \<Rightarrow> unit enc" where
  "count_elems k n pe =
     (let v = k * sint (size32 n) in if - (2 ^ 31) \<le> v \<and> v < 2 ^ 31 then count v pe else Abort)"

text \<open>\<open>assert(m_offset + n <= m_raw.size())\<close>, the stores, \<open>m_offset += n\<close>.\<close>

definition emit :: "bytes \<Rightarrow> unit enc" where
  "emit bs pe =
     (if pe_offset pe + length bs \<le> length (pe_raw pe)
      then Ok () (pe\<lparr>pe_offset := pe_offset pe + length bs,
                     pe_raw := write_at (pe_offset pe) bs (pe_raw pe)\<rparr>)
      else Abort)"

definition putInt8 :: "int8 \<Rightarrow> unit enc" where
  "putInt8 x = by_mode (count 1) (emit (be8 x))"

definition putInt16 :: "int16 \<Rightarrow> unit enc" where
  "putInt16 x = by_mode (count 2) (emit (be16 x))"

definition putInt32 :: "int32 \<Rightarrow> unit enc" where
  "putInt32 x = by_mode (count 4) (emit (be32 x))"

definition putInt64 :: "int64 \<Rightarrow> unit enc" where
  "putInt64 x = by_mode (count 8) (emit (be64 x))"

definition putVariant :: "int64 \<Rightarrow> unit enc" where
  "putVariant x = by_mode (count (int (varintLen x))) (emit (encodeVariant x))"

definition putUVarint :: "uint64 \<Rightarrow> unit enc" where
  "putUVarint x = by_mode (count (int (uvarintLen x))) (emit (encodeUVariant x))"

text \<open>A \<open>double\<close> is its 64-bit pattern.\<close>

definition putFloat64 :: "int64 \<Rightarrow> unit enc" where
  "putFloat64 bits = by_mode (count 8) (putInt64 bits)"

text \<open>\<open>putUVarint(static_cast<uint64_t>(in + 1))\<close>: \<open>in + 1\<close> is an \<open>int\<close> sum.\<close>

definition putCompactLength :: "int32 \<Rightarrow> unit enc" where
  "putCompactLength n = (if sint n = 2 ^ 31 - 1 then (\<lambda>_. Abort) else putUVarint (scast (n + 1)))"

definition putArrayLength :: "int32 \<Rightarrow> unit enc" where
  "putArrayLength n = by_mode
     (by_flex () (if sint n > 2 ^ 31 - 1 then raise (- 1) else count 4) (putCompactLength n))
     (by_flex () (putInt32 n) (putCompactLength n))"

definition putBool :: "bool \<Rightarrow> unit enc" where
  "putBool b = by_mode (count 1) (putInt8 (if b then 1 else 0))"

definition putKError :: "int16 \<Rightarrow> unit enc" where
  "putKError e = by_mode (count 2) (putInt16 e)"

text \<open>\<open>std::chrono::milliseconds\<close> is its 64-bit count, written as \<open>static_cast<int32_t>\<close>.\<close>

definition putDurationMs :: "int64 \<Rightarrow> unit enc" where
  "putDurationMs ms = by_mode (count 4) (putInt32 (ucast ms))"

definition putRawBytes :: "bytes \<Rightarrow> unit enc" where
  "putRawBytes s = by_mode
     (if length s > 2 ^ 31 - 1 then raise (- 1) else count (int (length s)))
     (emit s)"

definition putBytes :: "bytes \<Rightarrow> unit enc" where
  "putBytes s = by_mode
     (by_flex ()
       (then_p (count 4)
         (if s = [] then ret () else if length s > 2 ^ 31 - 1 then raise (- 1) else putRawBytes s))
       (then_p (putUVarint (size64 (length s) + 1)) (putRawBytes s)))
     (by_flex ()
       (if s = [] then putInt32 (- 1)
        else then_p (putInt32 (size32 (length s))) (ignore_err (putRawBytes s)))
       (then_p (putUVarint (size64 (length s) + 1)) (putRawBytes s)))"

definition putVariantBytes :: "bytes \<Rightarrow> unit enc" where
  "putVariantBytes s = by_mode
     (if s = [] then putVariant (- 1)
      else then_p (putVariant (size64 (length s))) (putRawBytes s))
     (if s = [] then putVariant (- 1)
      else then_p (putVariant (size64 (length s))) (ignore_err (putRawBytes s)))"

definition putString :: "bytes \<Rightarrow> unit enc" where
  "putString s = by_mode
     (by_flex ()
       (if length s > 2 ^ 15 - 1 then raise (- 1)
        else then_p (count 2) (count (int (length s))))
       (then_p (putArrayLength (size32 (length s))) (putRawBytes s)))
     (by_flex ()
       (then_p (putInt16 (size16 (length s))) (emit s))
       (then_p (ignore_err (putArrayLength (size32 (length s)))) (ignore_err (putRawBytes s))))"

definition putNullableString :: "bytes \<Rightarrow> unit enc" where
  "putNullableString s = by_mode
     (by_flex ()
       (if s = [] then count 2 else putString s)
       (if s = [] then putUVarint 0 else putString s))
     (by_flex ()
       (if s = [] then putInt16 (- 1) else ignore_err (putString s))
       (if s = [] then putUVarint 0 else putString s))"

definition putStringArray :: "bytes list \<Rightarrow> unit enc" where
  "putStringArray ss = by_mode
     (by_flex ()
       (then_p (putArrayLength (size32 (length ss))) (for_each putString ss))
       (then_p (putArrayLength (size32 (length ss))) (count_elems 4 (length ss))))
     (then_p (ignore_err (putArrayLength (size32 (length ss))))
             (for_each (\<lambda>s. ignore_err (putString s)) ss))"

definition putInt32Array :: "int32 list \<Rightarrow> unit enc" where
  "putInt32Array xs = by_mode
     (by_flex ()
       (then_p (count 4) (count_elems 4 (length xs)))
       (then_p (putUVarint (size64 (length xs) + 1)) (count_elems 4 (length xs))))
     (by_flex ()
       (then_p (ignore_err (putArrayLength (size32 (length xs)))) (for_each putInt32 xs))
       (then_p (putUVarint (size64 (length xs) + 1)) (for_each putInt32 xs)))"

definition putInt64Array :: "int64 list \<Rightarrow> unit enc" where
  "putInt64Array xs = by_mode
     (then_p (putArrayLength (size32 (length xs))) (count_elems 8 (length xs)))
     (then_p (ignore_err (putArrayLength (size32 (length xs)))) (for_each putInt64 xs))"

definition putNullableInt32Array :: "int32 list \<Rightarrow> unit enc" where
  "putNullableInt32Array xs = by_mode
     (by_flex ()
       (if xs = [] then count 4
        else then_p (putArrayLength (size32 (length xs))) (count_elems 4 (length xs)))
       (if xs = [] then putUVarint 0
        else then_p (putUVarint (size64 (length xs) + 1)) (count_elems 4 (length xs))))
     (by_flex ()
       (if xs = [] then putInt32 (- 1)
        else then_p (ignore_err (putArrayLength (size32 (length xs)))) (for_each putInt32 xs))
       (if xs = [] then putUVarint 0
        else then_p (putUVarint (size64 (length xs) + 1)) (for_each putInt32 xs)))"

definition putEmptyTaggedFieldArray :: "unit enc" where
  "putEmptyTaggedFieldArray = by_mode
     (\<lambda>pe. if is_flexible pe then putUVarint 0 pe else Ok () pe)
     (\<lambda>pe. if is_flexible pe then putUVarint 0 pe else Ok () pe)"

definition offset_pe :: "packet_encoder \<Rightarrow> int option" where
  "offset_pe pe = (if pe_type pe = NONE then None else Some (sint (size32 (pe_offset pe))))"

definition push_pe :: "push_field \<Rightarrow> unit enc" where
  "push_pe f = by_mode
     (\<lambda>pe. let f' = save_offset (size32 (pe_offset pe)) f
           in case reserve_length f' of
                None \<Rightarrow> Abort
              | Some n \<Rightarrow> then_p (count (int n)) (\<lambda>pe. Ok () (pe\<lparr>pe_stack := f' # pe_stack pe\<rparr>)) pe)
     (\<lambda>pe. let f' = save_offset (size32 (pe_offset pe)) f
           in case reserve_length f' of
                None \<Rightarrow> Abort
              | Some n \<Rightarrow>
                  (if pe_offset pe + n \<le> length (pe_raw pe)
                   then Ok () (pe\<lparr>pe_offset := pe_offset pe + n, pe_stack := f' # pe_stack pe\<rparr>)
                   else Abort))"

definition pop_pe :: "push_field option enc" where
  "pop_pe = by_mode
     (\<lambda>pe. case pe_stack pe of
             [] \<Rightarrow> Err (- 1) pe
           | f # fs \<Rightarrow>
               (case adjust_length (size32 (pe_offset pe)) f of
                  None \<Rightarrow> Abort
                | Some (f', d) \<Rightarrow> then_p (count d) (\<lambda>pe. Ok (Some f') (pe\<lparr>pe_stack := fs\<rparr>)) pe))
     (\<lambda>pe. case pe_stack pe of
             [] \<Rightarrow> Ok None pe
           | f # fs \<Rightarrow>
               (case run_field (size32 (pe_offset pe)) (pe_raw pe) f of
                  None \<Rightarrow> Abort
                | Some raw' \<Rightarrow> Ok (Some f) (pe\<lparr>pe_stack := fs, pe_raw := raw'\<rparr>)))"

end
