(* ===== verification/Packet_Decoder.thy ===== *)
theory Packet_Decoder
  imports Packet_Encoder
begin

text \<open>
  \<^verbatim>\<open>packet_decoder\<close> (\<^verbatim>\<open>packet_decoder.h\<close>, \<^verbatim>\<open>packet_decoder.cpp\<close>), the cursor that reads a packet, and the
  decoding half of the push fields.

  State: \<open>pd_offset\<close> is \<open>m_offset\<close>, \<open>pd_raw\<close> is \<open>m_raw\<close>, \<open>pd_stack\<close> is \<open>m_stack\<close> (back of the vector
  first).  \<open>m_offset\<close> is an \<open>int\<close>: the model is for packets below \<open>2 ^ 31\<close> bytes (the client refuses a
  response above \<^const>\<open>MaxResponseSize\<close>).  An element access outside \<open>m_raw\<close> and a \<open>resize\<close> to a negative
  length are \<open>Abort\<close>.  \<open>char\<close> is signed, as on the x86-64 ABI.
\<close>

record packet_decoder = flexible_type +
  pd_offset :: nat
  pd_raw :: bytes
  pd_stack :: "push_field list"

type_synonym 'a dec = "(packet_decoder, 'a) prog"

definition new_decoder :: "bytes \<Rightarrow> packet_decoder" where
  "new_decoder buf = \<lparr>m_flexible = 0, pd_offset = 0, pd_raw = buf, pd_stack = []\<rparr>"

definition remaining :: "packet_decoder \<Rightarrow> int" where
  "remaining pd = int (length (pd_raw pd)) - int (pd_offset pd)"

text \<open>\<open>m_offset = m_raw.size(); return e;\<close>\<close>

definition fail_at_end :: "int \<Rightarrow> 'a dec" where
  "fail_at_end e pd = Err e (pd\<lparr>pd_offset := length (pd_raw pd)\<rparr>)"

text \<open>\<open>m_raw[m_offset + k]\<close>\<close>

definition at_off :: "packet_decoder \<Rightarrow> nat \<Rightarrow> byte" where
  "at_off pd k = pd_raw pd ! (pd_offset pd + k)"

definition advance :: "nat \<Rightarrow> packet_decoder \<Rightarrow> packet_decoder" where
  "advance n pd = pd\<lparr>pd_offset := pd_offset pd + n\<rparr>"

definition getInt8 :: "int8 dec" where
  "getInt8 pd =
     (if remaining pd < 1 then fail_at_end ErrInsufficientData pd
      else Ok (at_off pd 0) (advance 1 pd))"

definition getInt16 :: "int16 dec" where
  "getInt16 pd =
     (if remaining pd < 2 then fail_at_end ErrInsufficientData pd
      else Ok (from_be16 (at_off pd 0) (at_off pd 1)) (advance 2 pd))"

definition getInt32 :: "int32 dec" where
  "getInt32 pd =
     (if remaining pd < 4 then fail_at_end ErrInsufficientData pd
      else Ok (from_be32 (at_off pd 0) (at_off pd 1) (at_off pd 2) (at_off pd 3)) (advance 4 pd))"

definition read_be64 :: "packet_decoder \<Rightarrow> int64" where
  "read_be64 pd = from_be64 (at_off pd 0) (at_off pd 1) (at_off pd 2) (at_off pd 3)
                            (at_off pd 4) (at_off pd 5) (at_off pd 6) (at_off pd 7)"

definition getInt64 :: "int64 dec" where
  "getInt64 pd =
     (if remaining pd < 8 then fail_at_end ErrInsufficientData pd
      else Ok (read_be64 pd) (advance 8 pd))"

text \<open>
  The loop \<open>for (int i = 0; i < 10; i++)\<close> of \<^verbatim>\<open>getVariant\<close>, with \<open>k\<close> the rounds left: \<open>i = 10 - k\<close>,
  \<open>shift = 7 * i\<close>.
\<close>

primrec getVariant_loop :: "nat \<Rightarrow> uint64 \<Rightarrow> int64 dec" where
  "getVariant_loop 0 ux pd = Err ErrVariantOverflow (pd\<lparr>pd_offset := pd_offset pd - 10\<rparr>)"
| "getVariant_loop (Suc k) ux pd =
     (let i = 10 - Suc k in
      if pd_offset pd \<ge> length (pd_raw pd) then fail_at_end ErrInsufficientData pd
      else
        (let b = at_off pd 0; pd' = advance 1 pd;
             ux' = ux OR push_bit (7 * i) (ucast (b AND 0x7F))
         in if b AND 0x80 = 0
            then if i = 9 \<and> (ux' AND 0xFE00000000000000 \<noteq> 0 \<or> b AND 0x7F > 1)
                 then Err ErrVariantOverflow (pd'\<lparr>pd_offset := pd_offset pd' - (i + 1)\<rparr>)
                 else Ok (zigzagDecode ux') pd'
            else getVariant_loop k ux' pd'))"

definition getVariant :: "int64 dec" where
  "getVariant = getVariant_loop 10 0"

primrec getUVariant_loop :: "nat \<Rightarrow> uint64 \<Rightarrow> uint64 dec" where
  "getUVariant_loop 0 r pd = Err ErrUVariantOverflow (pd\<lparr>pd_offset := pd_offset pd - 10\<rparr>)"
| "getUVariant_loop (Suc k) r pd =
     (let i = 10 - Suc k in
      if pd_offset pd \<ge> length (pd_raw pd) then fail_at_end ErrInsufficientData pd
      else
        (let b = at_off pd 0; pd' = advance 1 pd;
             r' = r OR push_bit (7 * i) (ucast (b AND 0x7F))
         in if b AND 0x80 = 0
            then if i = 9 \<and> drop_bit 63 r' \<noteq> 0
                 then Err ErrUVariantOverflow (pd'\<lparr>pd_offset := pd_offset pd' - (i + 1)\<rparr>)
                 else Ok r' pd'
            else getUVariant_loop k r' pd'))"

definition getUVariant :: "uint64 dec" where
  "getUVariant = getUVariant_loop 10 0"

definition getFloat64 :: "int64 dec" where
  "getFloat64 pd =
     (if remaining pd < 8 then fail_at_end ErrInsufficientData pd
      else Ok (read_be64 pd) (advance 8 pd))"

text \<open>
  \<^verbatim>\<open>getArrayLength\<close>, fixed form: the four \<open>char\<close>s are not cast to \<open>uint8_t\<close>, so each is sign-extended
  to \<open>int\<close> before it is shifted and or-ed in.
\<close>

definition signed_be32 :: "byte \<Rightarrow> byte \<Rightarrow> byte \<Rightarrow> byte \<Rightarrow> int32" where
  "signed_be32 b0 b1 b2 b3 =
     push_bit 24 (scast b0) OR push_bit 16 (scast b1) OR push_bit 8 (scast b2) OR scast b3"

definition getArrayLength :: "int32 dec" where
  "getArrayLength = by_flex 0
     (\<lambda>pd. if remaining pd < 4 then fail_at_end ErrInsufficientData pd
           else (let r = signed_be32 (at_off pd 0) (at_off pd 1) (at_off pd 2) (at_off pd 3);
                     pd' = advance 4 pd
                 in if sint r > MaxResponseSize then Err ErrInvalidArrayLength pd' else Ok r pd'))
     (bind_p getUVariant (\<lambda>n. ret (if n = 0 then 0 else ucast (n - 1))))"

definition getBool :: "bool dec" where
  "getBool = bind_p getInt8
     (\<lambda>b. if b = 0 then ret False else if b \<noteq> 1 then raise ErrInvalidBool else ret True)"

definition getKError :: "int16 dec" where
  "getKError = getInt16"

definition getDurationMs :: "int64 dec" where
  "getDurationMs = bind_p getInt32 (\<lambda>t. ret (scast t))"

definition getRawBytes :: "int32 \<Rightarrow> bytes dec" where
  "getRawBytes n pd =
     (if sint n < 0 then Err ErrValidByteSliceLength pd
      else if sint n > remaining pd then fail_at_end ErrInsufficientData pd
      else Ok (slice (pd_offset pd) (nat (sint n)) (pd_raw pd)) (advance (nat (sint n)) pd))"

definition getSubset :: "int32 \<Rightarrow> bytes dec" where
  "getSubset n = getRawBytes n"

text \<open>One round of the tag loop; the raw bytes of the tag are read and dropped.\<close>

definition skipTaggedField :: "uint64 dec" where
  "skipTaggedField =
     bind_p getUVariant (\<lambda>tag_id. bind_p getUVariant (\<lambda>len.
       bind_p (getRawBytes (ucast len)) (\<lambda>_. ret tag_id)))"

text \<open>
  The tag loops \<open>for (uint64_t i = 0; i < tag_count; i++)\<close>; the recursion is on the rounds left.
\<close>

primrec skipTags :: "nat \<Rightarrow> unit dec" where
  "skipTags 0 = ret ()"
| "skipTags (Suc n) = bind_p skipTaggedField (\<lambda>_. skipTags n)"

definition getEmptyTaggedFieldArray :: "unit dec" where
  "getEmptyTaggedFieldArray = by_flex () (ret ()) (bind_p getUVariant (\<lambda>n. skipTags (unat n)))"

text \<open>
  \<^verbatim>\<open>getTaggedFieldArray\<close>: \<open>decoders\<close> is an association list from tags to decoders.  The decoder of a known
  tag runs on the cursor as it stands, behind the raw bytes of the tag.
\<close>

primrec tagLoop :: "nat \<Rightarrow> (uint64 \<times> unit dec) list \<Rightarrow> unit dec" where
  "tagLoop 0 decoders = ret ()"
| "tagLoop (Suc n) decoders =
     bind_p skipTaggedField (\<lambda>tag_id.
       (case map_of decoders tag_id of
          None \<Rightarrow> tagLoop n decoders
        | Some d \<Rightarrow> then_p (with_flexible d) (tagLoop n decoders)))"

definition getTaggedFieldArray :: "(uint64 \<times> unit dec) list \<Rightarrow> unit dec" where
  "getTaggedFieldArray decoders = by_flex ()
     (raise ErrTaggedFieldsInNonFlexibleContext)
     (if decoders = [] then getEmptyTaggedFieldArray
      else bind_p getUVariant (\<lambda>n. tagLoop (unat n) decoders))"

definition getBytes :: "bytes dec" where
  "getBytes = by_flex []
     (bind_p getInt32 (\<lambda>tmp. if tmp = - 1 then ret [] else getRawBytes tmp))
     (bind_p getUVariant (\<lambda>n. getRawBytes (ucast (n - 1))))"

definition getVariantBytes :: "bytes dec" where
  "getVariantBytes =
     bind_p getVariant (\<lambda>tmp. if tmp = - 1 then ret [] else getRawBytes (ucast tmp))"

definition checkStringLength :: "int32 \<Rightarrow> int32 dec" where
  "checkStringLength n pd =
     (if sint n < - 1 then Err ErrInvalidStringLength pd
      else if sint n > remaining pd then fail_at_end ErrInsufficientData pd
      else Ok n pd)"

definition getStringLength :: "int32 dec" where
  "getStringLength = by_flex 0
     (bind_p getInt16 (\<lambda>len. checkStringLength (scast len)))
     (bind_p getUVariant (\<lambda>len. checkStringLength (if len = 0 then - 1 else ucast (len - 1))))"

text \<open>\<open>result = string_view(m_raw.data() + m_offset, length); m_offset += length;\<close>\<close>

definition takeBytes :: "nat \<Rightarrow> bytes dec" where
  "takeBytes n pd = Ok (slice (pd_offset pd) n (pd_raw pd)) (advance n pd)"

definition getString :: "bytes dec" where
  "getString = by_flex []
     (bind_p getStringLength (\<lambda>n. if n = - 1 then ret [] else takeBytes (nat (sint n))))
     (bind_p getStringLength (\<lambda>n. if n = - 1 then ret [] else takeBytes (nat (sint n))))"

definition getNullableString :: "bytes dec" where
  "getNullableString = by_flex []
     (bind_p getStringLength (\<lambda>n. if n = - 1 then ret [] else takeBytes (nat (sint n))))
     (bind_p getStringLength (\<lambda>n. if n = - 1 then ret [] else takeBytes (nat (sint n))))"

text \<open>The element loops of the integer arrays: no check inside the loop, so a read can run off the end.\<close>

primrec readInt32s :: "nat \<Rightarrow> int32 list dec" where
  "readInt32s 0 = ret []"
| "readInt32s (Suc n) =
     bind_p (\<lambda>pd. if pd_offset pd + 4 \<le> length (pd_raw pd)
                  then Ok (from_be32 (at_off pd 0) (at_off pd 1) (at_off pd 2) (at_off pd 3)) (advance 4 pd)
                  else Abort)
       (\<lambda>x. bind_p (readInt32s n) (\<lambda>xs. ret (x # xs)))"

primrec readInt64s :: "nat \<Rightarrow> int64 list dec" where
  "readInt64s 0 = ret []"
| "readInt64s (Suc n) =
     bind_p (\<lambda>pd. if pd_offset pd + 8 \<le> length (pd_raw pd) then Ok (read_be64 pd) (advance 8 pd) else Abort)
       (\<lambda>x. bind_p (readInt64s n) (\<lambda>xs. ret (x # xs)))"

text \<open>\<open>if (remaining() < k * n)\<close>: an \<open>int\<close> product, undefined on overflow.\<close>

definition needElems :: "int \<Rightarrow> int32 \<Rightarrow> 'a dec \<Rightarrow> 'a dec" where
  "needElems k n body pd =
     (if k * sint n \<ge> 2 ^ 31 then Abort
      else if remaining pd < k * sint n then fail_at_end ErrInsufficientData pd
      else body pd)"

definition getInt32Array :: "int32 list dec" where
  "getInt32Array = by_flex []
     (bind_p getArrayLength (\<lambda>n. if sint n \<le> 0 then ret [] else needElems 4 n (readInt32s (nat (sint n)))))
     (bind_p getUVariant (\<lambda>n. if n = 0 then ret []
        else (let len = sint (ucast (n - 1) :: int32)
              in if len < 0 then (\<lambda>_. Abort) else readInt32s (nat len))))"

definition getInt64Array :: "int64 list dec" where
  "getInt64Array =
     bind_p getArrayLength (\<lambda>n. if sint n \<le> 0 then ret [] else needElems 8 n (readInt64s (nat (sint n))))"

primrec readStrings :: "nat \<Rightarrow> bytes list dec" where
  "readStrings 0 = ret []"
| "readStrings (Suc n) = bind_p getString (\<lambda>s. bind_p (readStrings n) (\<lambda>ss. ret (s # ss)))"

definition getStringArray :: "bytes list dec" where
  "getStringArray = by_flex []
     (bind_p getArrayLength (\<lambda>n. if sint n \<le> 0 then ret [] else readStrings (nat (sint n))))
     (bind_p getArrayLength (\<lambda>n. if sint n \<le> 0 then ret [] else readStrings (nat (sint n))))"

definition peek :: "int \<Rightarrow> int \<Rightarrow> bytes dec" where
  "peek offset len pd =
     (if remaining pd < offset + len then Err ErrInsufficientData pd
      else if 0 \<le> int (pd_offset pd) + offset \<and> 0 \<le> len
      then Ok (slice (nat (int (pd_offset pd) + offset)) (nat len) (pd_raw pd)) pd
      else Abort)"

definition peekInt8 :: "nat \<Rightarrow> int8 dec" where
  "peekInt8 offset pd =
     (if pd_offset pd + offset \<ge> length (pd_raw pd) then Err ErrInsufficientData pd
      else Ok (pd_raw pd ! (pd_offset pd + offset)) pd)"

section \<open>Push fields on the reading side\<close>

text \<open>
  \<^verbatim>\<open>push\<close>: only \<^verbatim>\<open>VariantLengthField\<close> is a \<^verbatim>\<open>dynamicPushDecoder\<close>; its \<^verbatim>\<open>decode\<close> reads the length with
  \<^verbatim>\<open>getVariant\<close>.  The others reserve their four bytes.
\<close>

definition push_pd :: "push_field \<Rightarrow> unit dec" where
  "push_pd f pd =
     (case save_offset (size32 (pd_offset pd)) f of
        VariantLengthField start _ \<Rightarrow>
          bind_p getVariant
            (\<lambda>val pd. Ok () (pd\<lparr>pd_stack := VariantLengthField start val # pd_stack pd\<rparr>)) pd
      | f' \<Rightarrow>
          (if remaining pd < 4 then fail_at_end ErrInsufficientData pd
           else Ok () (pd\<lparr>pd_stack := f' # pd_stack pd, pd_offset := pd_offset pd + 4\<rparr>)))"

text \<open>\<^verbatim>\<open>check\<close>: \<open>Some e\<close> is the returned code, \<open>None\<close> a computation without a result.\<close>

fun check_field :: "int32 \<Rightarrow> bytes \<Rightarrow> push_field \<Rightarrow> int option" where
  "check_field cur raw (LengthField start l) =
     Some (if cur - start - 4 \<noteq> l then ErrPacketDecodingError else 0)"
| "check_field cur raw (Crc32Field start poly) =
     (if 0 \<le> sint start \<and> sint start + 4 \<le> int (length raw) \<and> sint cur \<le> int (length raw)
      then (let s = nat (sint start);
                crc = Crc32Field_crc poly (slice (s + 4) (nat (sint cur - (sint start + 4))) raw);
                expected = from_be32 (raw ! s) (raw ! (s + 1)) (raw ! (s + 2)) (raw ! (s + 3))
            in Some (if crc \<noteq> expected then ErrCRCMismatch else ErrNoError))
      else None)"
| "check_field cur raw (VariantLengthField start l) =
     (case variantSize l of
        None \<Rightarrow> None
      | Some n \<Rightarrow> Some (if scast (cur - start - of_nat n) \<noteq> l then - 1 else 0))"

definition pop_pd :: "unit dec" where
  "pop_pd pd =
     (case pd_stack pd of
        [] \<Rightarrow> Abort
      | f # fs \<Rightarrow>
          (let pd' = pd\<lparr>pd_stack := fs\<rparr>
           in case check_field (size32 (pd_offset pd)) (pd_raw pd) f of
                None \<Rightarrow> Abort
              | Some e \<Rightarrow> if e = 0 then Ok () pd' else Err e pd'))"

end
