(* ===== verification/Codec.thy ===== *)
theory Codec
  imports Packet_Decoder
begin

text \<open>
  The contracts of the codec.  \<open>emits fl p bs\<close> says what an encoder routine promises in the wire format
  \<open>fl\<close> (\<open>True\<close> is flexible): the sizing pass counts exactly \<open>length bs\<close> and the writing pass, given the
  room, stores exactly \<open>bs\<close>.  \<open>reads fl d bs v\<close> says what a decoder routine promises: in front of \<open>bs\<close> it
  returns \<open>v\<close> and stands behind \<open>bs\<close>.  Both compose over the control structures of the source, so a
  message's layout is checked field by field; \<open>wString\<close>, \<open>wBytes\<close> and their kin are the layouts of the
  Kafka protocol the two sides have to agree on.
\<close>

definition emits :: "bool \<Rightarrow> unit enc \<Rightarrow> bytes \<Rightarrow> bool" where
  "emits fl p bs \<longleftrightarrow>
     (\<forall>pe. (m_flexible pe \<noteq> 0) = fl \<and> pe_type pe = PREP \<and> pe_offset pe < 2 ^ 64 \<longrightarrow>
        p pe = Ok () (pe\<lparr>pe_offset := (pe_offset pe + length bs) mod 2 ^ 64\<rparr>)) \<and>
     (\<forall>pe. (m_flexible pe \<noteq> 0) = fl \<and> pe_type pe = REAL \<and> length (pe_raw pe) < 2 ^ 31 \<and>
        pe_offset pe + length bs \<le> length (pe_raw pe) \<longrightarrow>
        p pe = Ok () (pe\<lparr>pe_offset := pe_offset pe + length bs,
                         pe_raw := write_at (pe_offset pe) bs (pe_raw pe)\<rparr>))"

definition reads :: "bool \<Rightarrow> 'a dec \<Rightarrow> bytes \<Rightarrow> 'a \<Rightarrow> bool" where
  "reads fl d bs v \<longleftrightarrow>
     (\<forall>pd. (m_flexible pd \<noteq> 0) = fl \<and> length (pd_raw pd) < 2 ^ 31 \<and>
        pd_offset pd + length bs \<le> length (pd_raw pd) \<and>
        slice (pd_offset pd) (length bs) (pd_raw pd) = bs \<longrightarrow>
        d pd = Ok v (advance (length bs) pd))"

lemma emitsI:
  assumes "\<And>pe. (m_flexible pe \<noteq> 0) = fl \<Longrightarrow> pe_type pe = PREP \<Longrightarrow> pe_offset pe < 2 ^ 64 \<Longrightarrow>
      p pe = Ok () (pe\<lparr>pe_offset := (pe_offset pe + length bs) mod 2 ^ 64\<rparr>)"
    and "\<And>pe. (m_flexible pe \<noteq> 0) = fl \<Longrightarrow> pe_type pe = REAL \<Longrightarrow> length (pe_raw pe) < 2 ^ 31 \<Longrightarrow>
      pe_offset pe + length bs \<le> length (pe_raw pe) \<Longrightarrow>
      p pe = Ok () (pe\<lparr>pe_offset := pe_offset pe + length bs,
                       pe_raw := write_at (pe_offset pe) bs (pe_raw pe)\<rparr>)"
  shows "emits fl p bs"
  using assms by (simp add: emits_def)

lemma emits_prep:
  "emits fl p bs \<Longrightarrow> (m_flexible pe \<noteq> 0) = fl \<Longrightarrow> pe_type pe = PREP \<Longrightarrow> pe_offset pe < 2 ^ 64 \<Longrightarrow>
   p pe = Ok () (pe\<lparr>pe_offset := (pe_offset pe + length bs) mod 2 ^ 64\<rparr>)"
  by (simp add: emits_def)

lemma emits_real:
  "emits fl p bs \<Longrightarrow> (m_flexible pe \<noteq> 0) = fl \<Longrightarrow> pe_type pe = REAL \<Longrightarrow> length (pe_raw pe) < 2 ^ 31 \<Longrightarrow>
   pe_offset pe + length bs \<le> length (pe_raw pe) \<Longrightarrow>
   p pe = Ok () (pe\<lparr>pe_offset := pe_offset pe + length bs,
                    pe_raw := write_at (pe_offset pe) bs (pe_raw pe)\<rparr>)"
  by (simp add: emits_def)

lemma readsI:
  assumes "\<And>pd. (m_flexible pd \<noteq> 0) = fl \<Longrightarrow> length (pd_raw pd) < 2 ^ 31 \<Longrightarrow>
      pd_offset pd + length bs \<le> length (pd_raw pd) \<Longrightarrow>
      slice (pd_offset pd) (length bs) (pd_raw pd) = bs \<Longrightarrow> d pd = Ok v (advance (length bs) pd)"
  shows "reads fl d bs v"
  using assms by (simp add: reads_def)

lemma readsD:
  "reads fl d bs v \<Longrightarrow> (m_flexible pd \<noteq> 0) = fl \<Longrightarrow> length (pd_raw pd) < 2 ^ 31 \<Longrightarrow>
   pd_offset pd + length bs \<le> length (pd_raw pd) \<Longrightarrow>
   slice (pd_offset pd) (length bs) (pd_raw pd) = bs \<Longrightarrow> d pd = Ok v (advance (length bs) pd)"
  by (simp add: reads_def)

lemma advance_simps [simp]:
  "pd_offset (advance n pd) = pd_offset pd + n" "pd_raw (advance n pd) = pd_raw pd"
  "m_flexible (advance n pd) = m_flexible pd" "pd_stack (advance n pd) = pd_stack pd"
  by (simp_all add: advance_def)

lemma advance_advance [simp]: "advance n (advance m pd) = advance (m + n) pd"
  by (simp add: advance_def add.assoc)

lemma advance_0 [simp]: "advance 0 pd = pd"
  by (simp add: advance_def)

section \<open>Composition of writers\<close>

lemma emits_ret [emits_rules]: "emits fl (ret ()) []"
  by (rule emitsI) (simp_all add: ret_apply)

lemma emits_then [emits_rules]:
  assumes p: "emits fl p bs" and q: "emits fl q cs"
  shows "emits fl (then_p p q) (bs @ cs)"
proof (rule emitsI)
  fix pe :: packet_encoder
  assume pe: "(m_flexible pe \<noteq> 0) = fl" "pe_type pe = PREP" "pe_offset pe < 2 ^ 64"
  show "then_p p q pe = Ok () (pe\<lparr>pe_offset := (pe_offset pe + length (bs @ cs)) mod 2 ^ 64\<rparr>)"
    using pe by (simp add: emits_prep [OF p] emits_prep [OF q] mod_add_left_eq add.assoc)
next
  fix pe :: packet_encoder
  assume pe: "(m_flexible pe \<noteq> 0) = fl" "pe_type pe = REAL" "length (pe_raw pe) < 2 ^ 31"
    "pe_offset pe + length (bs @ cs) \<le> length (pe_raw pe)"
  then have "then_p p q pe =
      q (pe\<lparr>pe_offset := pe_offset pe + length bs, pe_raw := write_at (pe_offset pe) bs (pe_raw pe)\<rparr>)"
    by (simp add: emits_real [OF p])
  also have "\<dots> = Ok () (pe\<lparr>pe_offset := pe_offset pe + length (bs @ cs),
      pe_raw := write_at (pe_offset pe) (bs @ cs) (pe_raw pe)\<rparr>)"
    using pe by (simp add: emits_real [OF q] write_at_write_at add.assoc)
  finally show "then_p p q pe = Ok () (pe\<lparr>pe_offset := pe_offset pe + length (bs @ cs),
      pe_raw := write_at (pe_offset pe) (bs @ cs) (pe_raw pe)\<rparr>)" .
qed

lemma emits_if [emits_rules]:
  "(b \<Longrightarrow> emits fl p bs) \<Longrightarrow> (\<not> b \<Longrightarrow> emits fl q cs) \<Longrightarrow>
   emits fl (if b then p else q) (if b then bs else cs)"
  by simp

lemma emits_when [emits_rules]:
  "(b \<Longrightarrow> emits fl p bs) \<Longrightarrow> emits fl (when_p b p) (if b then bs else [])"
  by (simp add: when_p_def emits_ret)

lemma emits_for_each [emits_rules]:
  "(\<And>x. x \<in> set xs \<Longrightarrow> emits fl (f x) (w x)) \<Longrightarrow> emits fl (for_each f xs) (concat (map w xs))"
  by (induction xs) (auto intro: emits_ret emits_then)

lemma emits_err_as [emits_rules]: "emits fl p bs \<Longrightarrow> emits fl (err_as e p) bs"
  by (simp add: emits_def)

lemma emits_ignore_err [emits_rules]: "emits fl p bs \<Longrightarrow> emits fl (ignore_err p) bs"
  by (simp add: emits_def)

text \<open>The two passes and the two formats of a routine, put together.\<close>

lemma count_apply: "count (int n) pe = Ok () (pe\<lparr>pe_offset := (pe_offset pe + n) mod 2 ^ 64\<rparr>)"
  by (simp add: count_def nat_mod_distrib nat_add_distrib)

lemma emit_apply:
  "pe_offset pe + length bs \<le> length (pe_raw pe) \<Longrightarrow>
   emit bs pe = Ok () (pe\<lparr>pe_offset := pe_offset pe + length bs,
                          pe_raw := write_at (pe_offset pe) bs (pe_raw pe)\<rparr>)"
  by (simp add: emit_def)

lemma emits_modeI:
  "n = length bs \<Longrightarrow> emits fl (by_mode (count (int n)) (emit bs)) bs"
  by (rule emitsI) (simp_all add: by_mode_def count_apply emit_apply)

lemma by_mode_apply:
  "pe_type pe = PREP \<Longrightarrow> by_mode p q pe = p pe" "pe_type pe = REAL \<Longrightarrow> by_mode p q pe = q pe"
  by (simp_all add: by_mode_def)

text \<open>
  A routine that dispatches on the mode: the sizing branch is known to count \<open>n\<close> bytes, the writing
  branch to emit \<open>bs\<close>.
\<close>

definition counts :: "bool \<Rightarrow> unit enc \<Rightarrow> nat \<Rightarrow> bool" where
  "counts fl p n \<longleftrightarrow>
     (\<forall>pe. (m_flexible pe \<noteq> 0) = fl \<and> pe_type pe = PREP \<and> pe_offset pe < 2 ^ 64 \<longrightarrow>
        p pe = Ok () (pe\<lparr>pe_offset := (pe_offset pe + n) mod 2 ^ 64\<rparr>))"

definition stores :: "bool \<Rightarrow> unit enc \<Rightarrow> bytes \<Rightarrow> bool" where
  "stores fl p bs \<longleftrightarrow>
     (\<forall>pe. (m_flexible pe \<noteq> 0) = fl \<and> pe_type pe = REAL \<and> length (pe_raw pe) < 2 ^ 31 \<and>
        pe_offset pe + length bs \<le> length (pe_raw pe) \<longrightarrow>
        p pe = Ok () (pe\<lparr>pe_offset := pe_offset pe + length bs,
                         pe_raw := write_at (pe_offset pe) bs (pe_raw pe)\<rparr>))"

lemma emits_iff: "emits fl p bs \<longleftrightarrow> counts fl p (length bs) \<and> stores fl p bs"
  by (simp add: emits_def counts_def stores_def)

lemma counts_by_mode: "counts fl p n \<Longrightarrow> counts fl (by_mode p q) n"
  by (simp add: counts_def by_mode_apply)

lemma stores_by_mode: "stores fl q bs \<Longrightarrow> stores fl (by_mode p q) bs"
  by (simp add: stores_def by_mode_apply)

lemma counts_by_flex:
  "(fl \<Longrightarrow> counts True q n) \<Longrightarrow> (\<not> fl \<Longrightarrow> counts False p n) \<Longrightarrow> counts fl (by_flex () p q) n"
  by (cases fl) (simp_all add: counts_def)

lemma stores_by_flex:
  "(fl \<Longrightarrow> stores True q bs) \<Longrightarrow> (\<not> fl \<Longrightarrow> stores False p bs) \<Longrightarrow> stores fl (by_flex () p q) bs"
  by (cases fl) (simp_all add: stores_def)

lemma counts_count: "counts fl (count (int n)) n"
  by (simp add: counts_def count_apply)

lemma counts_then: "counts fl p m \<Longrightarrow> counts fl q n \<Longrightarrow> counts fl (then_p p q) (m + n)"
  by (simp add: counts_def mod_add_left_eq add.assoc)

lemma stores_emit: "stores fl (emit bs) bs"
  by (simp add: stores_def emit_apply)

lemma stores_then: "stores fl p bs \<Longrightarrow> stores fl q cs \<Longrightarrow> stores fl (then_p p q) (bs @ cs)"
  by (simp add: stores_def write_at_write_at add.assoc)

lemma stores_ignore_err: "stores fl p bs \<Longrightarrow> stores fl (ignore_err p) bs"
  by (simp add: stores_def)

lemma stores_for_each:
  "(\<And>x. x \<in> set xs \<Longrightarrow> stores fl (f x) (w x)) \<Longrightarrow> stores fl (for_each f xs) (concat (map w xs))"
proof (induction xs)
  case Nil
  show ?case by (simp add: stores_def ret_apply)
next
  case (Cons x xs)
  then show ?case by (simp add: stores_then)
qed

lemma counts_for_each:
  "(\<And>x. x \<in> set xs \<Longrightarrow> counts fl (f x) (length (w x))) \<Longrightarrow>
   counts fl (for_each f xs) (length (concat (map w xs)))"
proof (induction xs)
  case Nil
  show ?case by (simp add: counts_def ret_apply)
next
  case (Cons x xs)
  then have "counts fl (then_p (f x) (for_each f xs)) (length (w x) + length (concat (map w xs)))"
    by (intro counts_then) auto
  then show ?case by simp
qed

lemma counts_elems:
  assumes "k * n < 2 ^ 31" and "n < 2 ^ 31"
  shows "counts fl (count_elems (int k) n) (k * n)"
proof -
  have "int k * int n < 2 ^ 31" using assms(1) by (metis of_nat_less_iff of_nat_mult of_nat_numeral of_nat_power)
  moreover have "- (2 ^ 31) \<le> int k * int n" by (rule order_trans [of _ 0]) simp_all
  ultimately have "count_elems (int k) n pe = count (int (k * n)) pe" for pe
    using sint_size32 [OF assms(2)] by (simp add: count_elems_def Let_def)
  then show ?thesis using counts_count [of fl "k * n"] by (simp add: counts_def)
qed

lemma emits_by_mode: "counts fl p (length bs) \<Longrightarrow> stores fl q bs \<Longrightarrow> emits fl (by_mode p q) bs"
  by (simp add: emits_iff counts_by_mode stores_by_mode)

lemma emits_counts: "emits fl p bs \<Longrightarrow> counts fl p (length bs)"
  by (simp add: emits_iff)

lemma emits_stores: "emits fl p bs \<Longrightarrow> stores fl p bs"
  by (simp add: emits_iff)

section \<open>Composition of readers\<close>

lemma reads_ret [reads_rules]: "reads fl (ret v) [] v"
  by (rule readsI) (simp add: ret_apply)

lemma reads_bind [reads_rules]:
  assumes m: "reads fl m bs x" and k: "reads fl (k x) cs y"
  shows "reads fl (bind_p m k) (bs @ cs) y"
proof (rule readsI)
  fix pd :: packet_decoder
  assume pd: "(m_flexible pd \<noteq> 0) = fl" "length (pd_raw pd) < 2 ^ 31"
    "pd_offset pd + length (bs @ cs) \<le> length (pd_raw pd)"
    "slice (pd_offset pd) (length (bs @ cs)) (pd_raw pd) = bs @ cs"
  have "m pd = Ok x (advance (length bs) pd)"
    using pd slice_append_left [OF pd(4)] by (intro readsD [OF m]) auto
  moreover have "k x (advance (length bs) pd) = Ok y (advance (length cs) (advance (length bs) pd))"
    using pd slice_append_right [OF pd(4)] by (intro readsD [OF k]) auto
  ultimately show "bind_p m k pd = Ok y (advance (length (bs @ cs)) pd)" by simp
qed

text \<open>A last step that consumes nothing, such as building the result.\<close>

lemma reads_bind_ret: "reads fl m bs x \<Longrightarrow> k x = ret y \<Longrightarrow> reads fl (bind_p m k) bs y"
  using reads_bind [of fl m bs x k "[]" y] by (simp add: reads_ret)

lemma reads_then: "reads fl m bs x \<Longrightarrow> reads fl k cs y \<Longrightarrow> reads fl (then_p m k) (bs @ cs) y"
  by (simp add: then_p_def reads_bind)

lemma reads_if [reads_rules]:
  "(b \<Longrightarrow> reads fl p bs v) \<Longrightarrow> (\<not> b \<Longrightarrow> reads fl q cs w) \<Longrightarrow>
   reads fl (if b then p else q) (if b then bs else cs) (if b then v else w)"
  by simp

lemma reads_err_as [reads_rules]: "reads fl m bs v \<Longrightarrow> reads fl (err_as e m) bs v"
  by (simp add: reads_def)

lemma reads_by_flex:
  "(fl \<Longrightarrow> reads True q bs v) \<Longrightarrow> (\<not> fl \<Longrightarrow> reads False p bs v) \<Longrightarrow> reads fl (by_flex d p q) bs v"
  by (cases fl) (simp_all add: reads_def)

lemma reads_loop:
  assumes "\<And>x. x \<in> set xs \<Longrightarrow> reads fl m (w x) x"
  shows "reads fl (loop_p (length xs) f m acc) (concat (map w xs)) (fold f xs acc)"
  using assms
proof (induction xs arbitrary: acc)
  case Nil
  show ?case by (simp add: reads_ret)
next
  case (Cons x xs)
  then show ?case by (auto intro!: reads_bind)
qed

text \<open>What a reader sees in front of \<open>bs\<close>.\<close>

lemma slice_remaining:
  "pd_offset pd + n \<le> length (pd_raw pd) \<Longrightarrow> int n \<le> remaining pd"
  by (simp add: remaining_def)

lemma slice_at_off:
  "slice (pd_offset pd) (length bs) (pd_raw pd) = bs \<Longrightarrow> k < length bs \<Longrightarrow>
   pd_offset pd + length bs \<le> length (pd_raw pd) \<Longrightarrow> at_off pd k = bs ! k"
  unfolding at_off_def by (rule slice_nth)

lemma reads_getInt8 [reads_rules]: "reads fl getInt8 (be8 x) x"
proof (rule readsI)
  fix pd :: packet_decoder
  assume "pd_offset pd + length (be8 x) \<le> length (pd_raw pd)"
    and "slice (pd_offset pd) (length (be8 x)) (pd_raw pd) = be8 x"
  then show "getInt8 pd = Ok x (advance (length (be8 x)) pd)"
    using slice_at_off [of pd "be8 x" 0] slice_remaining [of pd 1] by (simp add: getInt8_def be8_def)
qed

lemma reads_getInt16 [reads_rules]: "reads fl getInt16 (be16 x) x"
proof (rule readsI)
  fix pd :: packet_decoder
  assume pd: "pd_offset pd + length (be16 x) \<le> length (pd_raw pd)"
    "slice (pd_offset pd) (length (be16 x)) (pd_raw pd) = be16 x"
  then have "at_off pd 0 = byte_at 8 x" "at_off pd 1 = byte_at 0 x"
    using slice_at_off [of pd "be16 x"] by (auto simp: be16_def)
  then show "getInt16 pd = Ok x (advance (length (be16 x)) pd)"
    using pd slice_remaining [of pd 2] by (simp add: getInt16_def)
qed

lemma be32_at_off:
  assumes "pd_offset pd + 4 \<le> length (pd_raw pd)" "slice (pd_offset pd) 4 (pd_raw pd) = be32 x"
  shows "at_off pd 0 = byte_at 24 x" "at_off pd 1 = byte_at 16 x" "at_off pd 2 = byte_at 8 x"
    "at_off pd 3 = byte_at 0 x"
proof -
  have "at_off pd k = be32 x ! k" if "k < 4" for k
    using assms slice_at_off [of pd "be32 x" k] that by simp
  then show "at_off pd 0 = byte_at 24 x" "at_off pd 1 = byte_at 16 x" "at_off pd 2 = byte_at 8 x"
    "at_off pd 3 = byte_at 0 x"
    by (simp_all add: be32_def)
qed

lemma reads_getInt32 [reads_rules]: "reads fl getInt32 (be32 x) x"
proof (rule readsI)
  fix pd :: packet_decoder
  assume pd: "pd_offset pd + length (be32 x) \<le> length (pd_raw pd)"
    "slice (pd_offset pd) (length (be32 x)) (pd_raw pd) = be32 x"
  then show "getInt32 pd = Ok x (advance (length (be32 x)) pd)"
    using be32_at_off [of pd x] slice_remaining [of pd 4] by (simp add: getInt32_def)
qed

lemma read_be64_slice:
  assumes "pd_offset pd + 8 \<le> length (pd_raw pd)" "slice (pd_offset pd) 8 (pd_raw pd) = be64 x"
  shows "read_be64 pd = x"
proof -
  have "at_off pd k = be64 x ! k" if "k < 8" for k
    using assms slice_at_off [of pd "be64 x" k] that by simp
  then show ?thesis by (simp add: read_be64_def be64_def)
qed

lemma reads_getInt64 [reads_rules]: "reads fl getInt64 (be64 x) x"
proof (rule readsI)
  fix pd :: packet_decoder
  assume pd: "pd_offset pd + length (be64 x) \<le> length (pd_raw pd)"
    "slice (pd_offset pd) (length (be64 x)) (pd_raw pd) = be64 x"
  then show "getInt64 pd = Ok x (advance (length (be64 x)) pd)"
    using read_be64_slice [of pd x] slice_remaining [of pd 8] by (simp add: getInt64_def)
qed

lemma reads_getFloat64 [reads_rules]: "reads fl getFloat64 (be64 x) x"
  using reads_getInt64 [of fl x] by (simp add: reads_def getInt64_def getFloat64_def)

section \<open>Variable-length integers\<close>

lemma reads_byte:
  assumes "slice (pd_offset pd) (length (b # bs)) (pd_raw pd) = b # bs"
    and "pd_offset pd + length (b # bs) \<le> length (pd_raw pd)"
  shows "at_off pd 0 = b" and "\<not> length (pd_raw pd) \<le> pd_offset pd"
    and "slice (pd_offset (advance 1 pd)) (length bs) (pd_raw pd) = bs"
  using slice_at_off [OF assms(1), of 0] assms(2) slice_append_right [of "pd_offset pd" "[b]" bs "pd_raw pd"]
    assms(1) by auto

text \<open>The continuation bit and the payload of an encoded byte.\<close>

lemma bit_0x80: "bit (0x80 :: byte) n \<longleftrightarrow> n = 7"
proof -
  have "(0x80 :: byte) = 2 ^ 7" by simp
  then show ?thesis by (simp only: bit_exp_iff) (auto simp: possible_bit_word)
qed

lemma bit_0x7F: "bit (0x7F :: byte) n \<longleftrightarrow> n < 7"
proof -
  have "(0x7F :: byte) = mask 7" by (simp add: mask_eq_exp_minus_1)
  then show ?thesis by (simp only: bit_mask_iff) (auto simp: possible_bit_word)
qed

lemma varint_last_byte:
  assumes "(y :: uint64) < 0x80"
  shows "(ucast y :: byte) AND 0x80 = 0" and "ucast ((ucast y :: byte) AND 0x7F) = y"
proof -
  have "uint y < 2 ^ 7" using assms by (simp add: word_less_def)
  then have "uint (take_bit 7 y) = uint y" by (simp only: unsigned_take_bit_eq) (simp add: take_bit_int_eq_self)
  then have "take_bit 7 y = y" by (simp only: word_uint_eq_iff)
  then have hi: "bit y n \<Longrightarrow> n < 7" for n by (metis bit_take_bit_iff)
  show "(ucast y :: byte) AND 0x80 = 0"
    by (rule bit_word_eqI, simp only: bit_and_iff bit_0x80 bit_unsigned_iff) (auto dest: hi)
  show "ucast ((ucast y :: byte) AND 0x7F) = y"
    by (rule bit_word_eqI, simp only: bit_and_iff bit_0x7F bit_unsigned_iff) (auto dest: hi)
qed

lemma varint_more_byte:
  fixes y :: uint64
  shows "(ucast y OR 0x80 :: byte) AND 0x80 \<noteq> 0"
    and "ucast ((ucast y OR 0x80 :: byte) AND 0x7F) = take_bit 7 y"
proof -
  have "bit ((ucast y OR 0x80 :: byte) AND 0x80) 7"
    by (simp only: bit_and_iff bit_or_iff bit_0x80) simp
  then show "(ucast y OR 0x80 :: byte) AND 0x80 \<noteq> 0" by (metis bit_0_eq bot_apply bot_bool_def)
  show "ucast ((ucast y OR 0x80 :: byte) AND 0x7F) = take_bit 7 y"
  proof (rule bit_word_eqI)
    fix n
    show "bit (ucast ((ucast y OR 0x80 :: byte) AND 0x7F) :: uint64) n = bit (take_bit 7 y) n"
      by (simp only: bit_unsigned_iff bit_and_iff bit_or_iff bit_0x80 bit_0x7F bit_take_bit_iff)
        (auto dest: bit_imp_le_length)
  qed
qed

lemma varint_step:
  "(r OR push_bit (7 * i) (take_bit 7 (y :: uint64))) OR push_bit (7 * Suc i) (drop_bit 7 y) =
   r OR push_bit (7 * i) y"
proof (rule bit_word_eqI)
  fix n assume "n < LENGTH(64)"
  show "bit ((r OR push_bit (7 * i) (take_bit 7 y)) OR push_bit (7 * Suc i) (drop_bit 7 y)) n =
        bit (r OR push_bit (7 * i) y) n"
    using \<open>n < LENGTH(64)\<close>
    by (cases "n < 7 * Suc i")
      (auto simp: bit_or_iff bit_push_bit_iff bit_take_bit_iff bit_drop_bit_eq)
qed

lemma varint_bound_step:
  assumes "unat (y :: uint64) * 2 ^ (7 * i) < 2 ^ 63" and "0x80 \<le> y"
  shows "Suc i \<le> 8" and "unat (drop_bit 7 y) * 2 ^ (7 * Suc i) < 2 ^ 63"
proof -
  have "128 \<le> unat y" using assms(2) by (simp add: word_le_nat_alt)
  then have "(2::nat) ^ (7 * i + 7) \<le> unat y * 2 ^ (7 * i)" by (simp add: power_add mult.commute)
  with assms(1) have "(2::nat) ^ (7 * i + 7) < 2 ^ 63" by (rule le_less_trans [rotated])
  then have "7 * i + 7 < 63" by (rule power_less_imp_less_exp [rotated]) simp
  then show "Suc i \<le> 8" by simp
  have "unat (drop_bit 7 y) * 2 ^ (7 * Suc i) = (unat y div 128 * 128) * 2 ^ (7 * i)"
    by (simp add: unat_drop_bit7 power_add)
  also have "\<dots> \<le> unat y * 2 ^ (7 * i)" by (intro mult_right_mono) auto
  finally show "unat (drop_bit 7 y) * 2 ^ (7 * Suc i) < 2 ^ 63" using assms(1) by simp
qed

lemma variant_loops_read:
  assumes "i \<le> 8" and "unat y * 2 ^ (7 * i) < 2 ^ 63"
    and "slice (pd_offset pd) (length (encodeUVariant y)) (pd_raw pd) = encodeUVariant y"
    and "pd_offset pd + length (encodeUVariant y) \<le> length (pd_raw pd)"
  shows "getUVariant_loop (10 - i) r pd =
      Ok (r OR push_bit (7 * i) y) (advance (length (encodeUVariant y)) pd) \<and>
    getVariant_loop (10 - i) r pd =
      Ok (zigzagDecode (r OR push_bit (7 * i) y)) (advance (length (encodeUVariant y)) pd)"
  using assms
proof (induction y arbitrary: i r pd rule: encodeUVariant.induct)
  case (1 y)
  from 1(2) obtain k where k: "10 - i = Suc k" "10 - Suc i = k" "9 - k = i" "i \<noteq> 9"
    by (cases "10 - i") auto
  show ?case
  proof (cases "0x80 \<le> y")
    case True
    let ?bs = "encodeUVariant (drop_bit 7 y)" and ?r = "r OR push_bit (7 * i) (take_bit 7 y)"
    have e: "encodeUVariant y = (ucast y OR 0x80) # ?bs" using True by (simp add: encodeUVariant.simps [of y])
    note b = reads_byte [OF "1.prems"(3)[unfolded e] "1.prems"(4)[unfolded e]]
    have "getUVariant_loop k ?r (advance 1 pd) =
        Ok (r OR push_bit (7 * i) y) (advance (length ?bs) (advance 1 pd)) \<and>
      getVariant_loop k ?r (advance 1 pd) =
        Ok (zigzagDecode (r OR push_bit (7 * i) y)) (advance (length ?bs) (advance 1 pd))"
      unfolding varint_step [of r i y, symmetric] k(2) [symmetric]
      using varint_bound_step [OF "1.prems"(2) True] b(3) "1.prems"(4) True
      by (intro "1.IH") (auto simp: e)
    then show ?thesis using b(1,2) k by (simp add: e varint_more_byte Let_def)
  next
    case False
    then have e: "encodeUVariant y = [ucast y]" by (simp add: encodeUVariant.simps [of y])
    note b = reads_byte [OF "1.prems"(3)[unfolded e] "1.prems"(4)[unfolded e]]
    show ?thesis using b(1,2) k False by (simp add: e varint_last_byte Let_def)
  qed
qed

lemma reads_getUVariant:
  assumes "unat x < 2 ^ 63"
  shows "reads fl getUVariant (encodeUVariant x) x"
proof (rule readsI)
  fix pd :: packet_decoder
  assume "pd_offset pd + length (encodeUVariant x) \<le> length (pd_raw pd)"
    and "slice (pd_offset pd) (length (encodeUVariant x)) (pd_raw pd) = encodeUVariant x"
  with variant_loops_read [of 0 x pd 0] assms
  show "getUVariant pd = Ok x (advance (length (encodeUVariant x)) pd)"
    by (simp add: getUVariant_def)
qed

lemma reads_getVariant:
  assumes "- (2 ^ 62) \<le> sint x" and "sint x < 2 ^ 62"
  shows "reads fl getVariant (encodeVariant x) x"
proof (rule readsI)
  fix pd :: packet_decoder
  assume "pd_offset pd + length (encodeVariant x) \<le> length (pd_raw pd)"
    and "slice (pd_offset pd) (length (encodeVariant x)) (pd_raw pd) = encodeVariant x"
  moreover have "unat (zigzagEncode x) < 2 ^ 63"
    using uint_zigzagEncode [of x] assms by (simp add: unat_eq_nat_uint nat_less_iff)
  ultimately show "getVariant pd = Ok x (advance (length (encodeVariant x)) pd)"
    using variant_loops_read [of 0 "zigzagEncode x" pd 0]
    by (simp add: getVariant_def encodeVariant_def)
qed

text \<open>
  A value with bit 63 set takes ten bytes, and the tenth is refused: the decoders accept only values
  below \<open>2 ^ 63\<close> (for the signed form, in \<open>[- 2 ^ 62, 2 ^ 62)\<close>).
\<close>

lemma drop_bit_63: "bit (x :: uint64) 63 \<Longrightarrow> drop_bit 63 x = 1"
  by (rule bit_word_eqI) (auto simp: bit_drop_bit_eq bit_1_iff dest: bit_imp_le_length)

lemma unat_drop_bit_div: "unat (drop_bit n (x :: uint64)) = unat x div 2 ^ n"
  by (subst unat_drop_bit_eq) (simp add: drop_bit_eq_div)

lemma drop_bit_big:
  assumes "bit (x :: uint64) 63" and "i < 9"
  shows "0x80 \<le> drop_bit (7 * i) x"
proof -
  have "unat (drop_bit 63 x) = 1" using drop_bit_63 [OF assms(1)] by simp
  then have "unat x div 2 ^ 63 = 1" by (simp only: unat_drop_bit_div)
  then have "2 ^ 63 \<le> unat x" by (metis div_less linorder_not_less zero_neq_one)
  then have "2 ^ 63 div 2 ^ (7 * i) \<le> unat x div 2 ^ (7 * i)" by (rule div_le_mono)
  moreover have "(2::nat) ^ 63 div 2 ^ (7 * i) = 2 ^ (63 - 7 * i)"
    using assms(2) by (intro power_diff [symmetric]) auto
  moreover have "(2::nat) ^ 7 \<le> 2 ^ (63 - 7 * i)" using assms(2) by (intro power_increasing) auto
  ultimately have "2 ^ 7 \<le> unat x div 2 ^ (7 * i)" by linarith
  then have "128 \<le> unat (drop_bit (7 * i) x)" by (simp only: unat_drop_bit_div) simp
  then show ?thesis by (simp add: word_le_nat_alt)
qed

lemma variant_loops_overflow:
  assumes "bit x 63" and "i \<le> 9"
    and "slice (pd_offset pd) (length (encodeUVariant (drop_bit (7 * i) x))) (pd_raw pd) =
         encodeUVariant (drop_bit (7 * i) x)"
    and "pd_offset pd + length (encodeUVariant (drop_bit (7 * i) x)) \<le> length (pd_raw pd)"
    and "i \<le> pd_offset pd"
  shows "getUVariant_loop (10 - i) r pd =
      Err ErrUVariantOverflow (pd\<lparr>pd_offset := pd_offset pd - i\<rparr>) \<and>
    getVariant_loop (10 - i) r pd =
      Err ErrVariantOverflow (pd\<lparr>pd_offset := pd_offset pd - i\<rparr>)"
  using assms
proof (induction "9 - i" arbitrary: i r pd)
  case 0
  then have i: "i = 9" by simp
  with 0 have d: "drop_bit (7 * i) x = 1" by (simp add: drop_bit_63)
  have e: "encodeUVariant 1 = [1]" by (simp add: encodeUVariant.simps word_le_nat_alt)
  note b = reads_byte [OF "0.prems"(3)[unfolded d e] "0.prems"(4)[unfolded d e]]
  let ?r = "r OR push_bit 63 1 :: uint64"
  have r: "bit ?r 63" by (simp add: bit_or_iff bit_push_bit_iff)
  have "bit (drop_bit 63 ?r) 0" using r unfolding bit_drop_bit_eq by simp
  then have "drop_bit 63 ?r \<noteq> 0" by (metis bit_0_eq bot_apply bot_bool_def)
  moreover have "bit (0xFE00000000000000 :: uint64) 63" by simp
  then have "bit (?r AND 0xFE00000000000000) 63" using r by (simp only: bit_and_iff)
  then have "?r AND 0xFE00000000000000 \<noteq> 0" by (metis bit_0_eq bot_apply bot_bool_def)
  ultimately show ?case using b i by (simp add: Let_def advance_def)
next
  case (Suc m)
  have i: "i < 9" using Suc.hyps by simp
  let ?y = "drop_bit (7 * i) x"
  have big: "0x80 \<le> ?y" using Suc.prems(1) i by (rule drop_bit_big)
  have y7: "drop_bit 7 ?y = drop_bit (7 * Suc i) x" by (simp add: add.commute)
  have e: "encodeUVariant ?y = (ucast ?y OR 0x80) # encodeUVariant (drop_bit (7 * Suc i) x)"
    using big y7 by (simp add: encodeUVariant.simps [of ?y])
  note b = reads_byte [OF Suc.prems(3)[unfolded e] Suc.prems(4)[unfolded e]]
  from i obtain k where k: "10 - i = Suc k" "10 - Suc i = k" "9 - k = i" by (cases "10 - i") auto
  have "getUVariant_loop (10 - Suc i) (r OR push_bit (7 * i) (take_bit 7 ?y)) (advance 1 pd) =
      Err ErrUVariantOverflow ((advance 1 pd)\<lparr>pd_offset := pd_offset (advance 1 pd) - Suc i\<rparr>) \<and>
    getVariant_loop (10 - Suc i) (r OR push_bit (7 * i) (take_bit 7 ?y)) (advance 1 pd) =
      Err ErrVariantOverflow ((advance 1 pd)\<lparr>pd_offset := pd_offset (advance 1 pd) - Suc i\<rparr>)"
    using Suc.prems Suc.hyps(2) i b(3) by (intro Suc.hyps(1)) (auto simp: e)
  with b(1,2) k show ?case by (simp add: varint_more_byte Let_def advance_def)
qed


lemma getUVariant_overflow:
  assumes "2 ^ 63 \<le> unat x" and "length (encodeUVariant x) \<le> length raw"
    and "slice 0 (length (encodeUVariant x)) raw = encodeUVariant x"
  shows "getUVariant \<lparr>m_flexible = fl, pd_offset = 0, pd_raw = raw, pd_stack = st\<rparr> =
    Err ErrUVariantOverflow \<lparr>m_flexible = fl, pd_offset = 0, pd_raw = raw, pd_stack = st\<rparr>"
proof -
  have "unat x div 2 ^ 63 = 1" using assms(1) unsigned_less [of x, where 'a=nat] by simp
  then have "bit (unat x) 63" by (simp only: bit_iff_odd) simp
  then have "bit x 63" by (simp add: bit_unsigned_iff)
  from variant_loops_overflow [OF this, of 0 "\<lparr>m_flexible = fl, pd_offset = 0, pd_raw = raw, pd_stack = st\<rparr>" 0] assms(2,3)
  show ?thesis by (simp add: getUVariant_def)
qed

section \<open>Wire layouts\<close>

text \<open>
  The layouts of the Kafka protocol, per format.  The side conditions say for which values both passes
  of the writer and the reader agree on them: \<open>string_ok\<close> and \<open>bytes_ok\<close> bound the length fields;
  \<open>len_ok\<close>, for an array count in the fixed format, also asks every byte of the count to be below
  \<open>0x80\<close>, since the reader sign-extends them.
\<close>

definition wCompact :: "nat \<Rightarrow> bytes" where
  "wCompact n = encodeUVariant (size64 (n + 1))"

definition wLen :: "bool \<Rightarrow> nat \<Rightarrow> bytes" where
  "wLen fl n = (if fl then wCompact n else be32 (size32 n))"

definition wString :: "bool \<Rightarrow> bytes \<Rightarrow> bytes" where
  "wString fl s = (if fl then wCompact (length s) else be16 (size16 (length s))) @ s"

definition wNullableString :: "bool \<Rightarrow> bytes \<Rightarrow> bytes" where
  "wNullableString fl s =
     (if s = [] then if fl then [0] else be16 (- 1) else wString fl s)"

definition wBytes :: "bool \<Rightarrow> bytes \<Rightarrow> bytes" where
  "wBytes fl s =
     (if fl then wCompact (length s) @ s
      else if s = [] then be32 (- 1) else be32 (size32 (length s)) @ s)"

definition wVariantBytes :: "bytes \<Rightarrow> bytes" where
  "wVariantBytes s = (if s = [] then encodeVariant (- 1) else encodeVariant (size64 (length s)) @ s)"

definition wBool :: "bool \<Rightarrow> bytes" where
  "wBool b = be8 (if b then 1 else 0)"

definition wDurationMs :: "int64 \<Rightarrow> bytes" where
  "wDurationMs ms = be32 (ucast ms)"

definition wTags :: "bool \<Rightarrow> bytes" where
  "wTags fl = (if fl then [0] else [])"

definition wInt32Array :: "bool \<Rightarrow> int32 list \<Rightarrow> bytes" where
  "wInt32Array fl xs = wLen fl (length xs) @ concat (map be32 xs)"

definition wInt64Array :: "bool \<Rightarrow> int64 list \<Rightarrow> bytes" where
  "wInt64Array fl xs = wLen fl (length xs) @ concat (map be64 xs)"

definition wNullableInt32Array :: "bool \<Rightarrow> int32 list \<Rightarrow> bytes" where
  "wNullableInt32Array fl xs =
     (if xs = [] then if fl then [0] else be32 (- 1) else wInt32Array fl xs)"

definition wStringArray :: "bool \<Rightarrow> bytes list \<Rightarrow> bytes" where
  "wStringArray fl ss = wLen fl (length ss) @ concat (map (wString fl) ss)"

definition string_ok :: "bool \<Rightarrow> bytes \<Rightarrow> bool" where
  "string_ok fl s \<longleftrightarrow> length s < (if fl then 2 ^ 31 - 1 else 2 ^ 15)"

definition bytes_ok :: "bytes \<Rightarrow> bool" where
  "bytes_ok s \<longleftrightarrow> length s < 2 ^ 31 - 1"

definition len_ok :: "bool \<Rightarrow> nat \<Rightarrow> bool" where
  "len_ok fl n \<longleftrightarrow>
     (if fl then n < 2 ^ 29
      else int n \<le> MaxResponseSize \<and> list_all (\<lambda>b. b < 0x80) (be32 (size32 n)))"

definition duration_ok :: "int64 \<Rightarrow> bool" where
  "duration_ok ms \<longleftrightarrow> - (2 ^ 31) \<le> sint ms \<and> sint ms < 2 ^ 31"

lemma len_ok_bound: "len_ok fl n \<Longrightarrow> n < 2 ^ 29"
  by (auto simp: len_ok_def MaxResponseSize_def split: if_splits)

lemma encodeUVariant_0: "encodeUVariant 0 = [0]"
  by (simp add: encodeUVariant.simps word_le_nat_alt)

subsection \<open>What the writers emit\<close>

lemma emits_putInt8 [emits_rules]: "emits fl (putInt8 x) (be8 x)"
  using emits_modeI [of 1 "be8 x"] by (simp add: putInt8_def)

lemma emits_putInt16 [emits_rules]: "emits fl (putInt16 x) (be16 x)"
  using emits_modeI [of 2 "be16 x"] by (simp add: putInt16_def)

lemma emits_putInt32 [emits_rules]: "emits fl (putInt32 x) (be32 x)"
  using emits_modeI [of 4 "be32 x"] by (simp add: putInt32_def)

lemma emits_putInt64 [emits_rules]: "emits fl (putInt64 x) (be64 x)"
  using emits_modeI [of 8 "be64 x"] by (simp add: putInt64_def)

lemma emits_putUVarint: "emits fl (putUVarint x) (encodeUVariant x)"
  unfolding putUVarint_def by (rule emits_modeI) simp

lemma emits_putVariant:
  "varintLen x = length (encodeVariant x) \<Longrightarrow> emits fl (putVariant x) (encodeVariant x)"
  unfolding putVariant_def by (rule emits_modeI) simp

lemma emits_mode_sub:
  "emits fl q bs \<Longrightarrow> n = length bs \<Longrightarrow> emits fl (by_mode (count (int n)) q) bs"
  using counts_count [of fl n] by (simp add: emits_by_mode emits_stores)

lemma emits_putFloat64 [emits_rules]: "emits fl (putFloat64 x) (be64 x)"
  using emits_mode_sub [OF emits_putInt64, of 8 x fl] by (simp add: putFloat64_def)

lemma emits_putBool [emits_rules]: "emits fl (putBool b) (wBool b)"
  using emits_mode_sub [OF emits_putInt8, of 1 "if b then 1 else 0" fl] by (simp add: putBool_def wBool_def)

lemma emits_putKError [emits_rules]: "emits fl (putKError e) (be16 e)"
  using emits_mode_sub [OF emits_putInt16, of 2 e fl] by (simp add: putKError_def)

lemma emits_putDurationMs [emits_rules]: "emits fl (putDurationMs ms) (wDurationMs ms)"
  using emits_mode_sub [OF emits_putInt32, of 4 "ucast ms" fl] by (simp add: putDurationMs_def wDurationMs_def)

lemma emits_putRawBytes:
  "length s < 2 ^ 31 \<Longrightarrow> emits fl (putRawBytes s) s"
  using emits_modeI [of "length s" s fl] by (simp add: putRawBytes_def)

lemma scast_size32_Suc:
  assumes "n < 2 ^ 31 - 1" shows "(scast (size32 n + 1) :: uint64) = size64 (n + 1)"
proof -
  have "sint (size32 (n + 1)) = int (n + 1)" using assms by (intro sint_size32) simp
  then have "(scast (size32 (n + 1)) :: uint64) = word_of_int (int (n + 1))" by (simp only: scast_eq)
  then show ?thesis by (simp add: add.commute)
qed

lemma emits_putCompactLength: "n < 2 ^ 31 - 1 \<Longrightarrow> emits fl (putCompactLength (size32 n)) (wCompact n)"
  using emits_putUVarint [of fl "size64 (n + 1)"] sint_size32 [of n]
  by (simp add: putCompactLength_def scast_size32_Suc wCompact_def)

lemma emits_putArrayLength:
  assumes "n < 2 ^ 31 - 1" shows "emits fl (putArrayLength (size32 n)) (wLen fl n)"
proof -
  have c: "emits True (putCompactLength (size32 n)) (wCompact n)"
    using assms by (rule emits_putCompactLength)
  have "counts False (if sint (size32 n) > 2 ^ 31 - 1 then raise (- 1) else count 4) 4"
    using counts_count [of False 4] assms sint_size32 [of n] by simp
  then have "counts fl (by_flex () (if sint (size32 n) > 2 ^ 31 - 1 then raise (- 1) else count 4)
      (putCompactLength (size32 n))) (length (wLen fl n))"
    using c by (intro counts_by_flex) (auto simp: wLen_def emits_iff)
  moreover have "stores fl (by_flex () (putInt32 (size32 n)) (putCompactLength (size32 n))) (wLen fl n)"
    using c emits_putInt32 [of False "size32 n"] by (intro stores_by_flex) (auto simp: wLen_def emits_iff)
  ultimately show ?thesis unfolding putArrayLength_def by (rule emits_by_mode)
qed

lemma emits_putArrayLength_ok [emits_rules]:
  "len_ok fl n \<Longrightarrow> emits fl (putArrayLength (size32 n)) (wLen fl n)"
  by (rule emits_putArrayLength) (use len_ok_bound [of fl n] in simp)

lemma emits_putString [emits_rules]:
  assumes ok: "string_ok fl s" shows "emits fl (putString s) (wString fl s)"
proof (cases fl)
  case True
  have n: "length s < 2 ^ 31 - 1" using ok True by (simp add: string_ok_def)
  have "emits True (then_p (putArrayLength (size32 (length s))) (putRawBytes s)) (wString True s)"
    using n emits_then [OF emits_putArrayLength emits_putRawBytes, of "length s" s True]
    by (simp add: wString_def wLen_def)
  moreover have "stores True (then_p (ignore_err (putArrayLength (size32 (length s))))
      (ignore_err (putRawBytes s))) (wString True s)"
    using n stores_then [OF stores_ignore_err [OF emits_stores [OF emits_putArrayLength]]
        stores_ignore_err [OF emits_stores [OF emits_putRawBytes]], of "length s" s True]
    by (simp add: wString_def wLen_def)
  ultimately show ?thesis unfolding putString_def using True
    by (intro emits_by_mode counts_by_flex stores_by_flex) (auto simp: emits_iff)
next
  case False
  have n: "length s < 2 ^ 15" using ok False by (simp add: string_ok_def)
  have "counts False (then_p (count 2) (count (int (length s)))) (length (wString False s))"
    using counts_then [OF counts_count [of False 2] counts_count [of False "length s"]]
    by (simp add: wString_def)
  moreover have "stores False (then_p (putInt16 (size16 (length s))) (emit s)) (wString False s)"
    using stores_then [OF emits_stores [OF emits_putInt16] stores_emit, of False "size16 (length s)" s]
    by (simp add: wString_def)
  ultimately show ?thesis unfolding putString_def using False n
    by (intro emits_by_mode counts_by_flex stores_by_flex) auto
qed

lemma emits_putEmptyTaggedFieldArray [emits_rules]:
  "emits fl putEmptyTaggedFieldArray (wTags fl)"
proof (rule emitsI)
  fix pe :: packet_encoder
  assume pe: "(m_flexible pe \<noteq> 0) = fl" "pe_type pe = PREP" "pe_offset pe < 2 ^ 64"
  then show "putEmptyTaggedFieldArray pe = Ok () (pe\<lparr>pe_offset := (pe_offset pe + length (wTags fl)) mod 2 ^ 64\<rparr>)"
    using emits_prep [OF emits_putUVarint [of fl 0] pe]
    by (auto simp: putEmptyTaggedFieldArray_def by_mode_apply wTags_def encodeUVariant_0 is_fixed_def)
next
  fix pe :: packet_encoder
  assume pe: "(m_flexible pe \<noteq> 0) = fl" "pe_type pe = REAL" "length (pe_raw pe) < 2 ^ 31"
    "pe_offset pe + length (wTags fl) \<le> length (pe_raw pe)"
  then show "putEmptyTaggedFieldArray pe = Ok () (pe\<lparr>pe_offset := pe_offset pe + length (wTags fl),
      pe_raw := write_at (pe_offset pe) (wTags fl) (pe_raw pe)\<rparr>)"
    using emits_real [OF emits_putUVarint [of fl 0] pe(1,2)]
    by (auto simp: putEmptyTaggedFieldArray_def by_mode_apply wTags_def encodeUVariant_0 is_fixed_def)
qed

lemma emits_putNullableString [emits_rules]:
  assumes "string_ok fl s" shows "emits fl (putNullableString s) (wNullableString fl s)"
proof -
  note s = emits_putString [OF assms]
  have c: "counts False (if s = [] then count 2 else putString s) (length (wNullableString False s))"
    if "\<not> fl" using counts_count [of False 2] s that by (simp add: wNullableString_def emits_iff)
  have f: "emits True (if s = [] then putUVarint 0 else putString s) (wNullableString True s)"
    if "fl" using emits_putUVarint [of True 0] s that by (simp add: wNullableString_def encodeUVariant_0)
  have r: "stores False (if s = [] then putInt16 (- 1) else ignore_err (putString s)) (wNullableString False s)"
    if "\<not> fl" using emits_putInt16 [of False "- 1"] s that
    by (simp add: wNullableString_def emits_iff stores_ignore_err)
  show ?thesis unfolding putNullableString_def
    using c f r by (intro emits_by_mode counts_by_flex stores_by_flex) (auto simp: emits_iff)
qed

lemma emits_putBytes [emits_rules]:
  assumes "bytes_ok s" shows "emits fl (putBytes s) (wBytes fl s)"
proof -
  have n: "length s < 2 ^ 31 - 1" using assms by (simp add: bytes_ok_def)
  have raw: "emits fl (putRawBytes s) s" for fl using n by (intro emits_putRawBytes) simp
  have sz: "size64 (length s) + 1 = size64 (length s + 1)" by simp
  have f: "emits True (then_p (putUVarint (size64 (length s) + 1)) (putRawBytes s)) (wBytes True s)"
    unfolding sz using emits_then [OF emits_putUVarint [of True "size64 (length s + 1)"] raw]
    by (simp add: wBytes_def wCompact_def)
  have c: "counts False (then_p (count 4) (if s = [] then ret () else if length s > 2 ^ 31 - 1
      then raise (- 1) else putRawBytes s)) (length (wBytes False s))"
  proof (cases "s = []")
    case True
    then show ?thesis using counts_then [OF counts_count [of False 4] emits_counts [OF emits_ret [of False]]]
      by (simp add: wBytes_def)
  next
    case False
    then show ?thesis using n counts_then [OF counts_count [of False 4] emits_counts [OF raw]]
      by (simp add: wBytes_def)
  qed
  have r: "stores False (if s = [] then putInt32 (- 1)
      else then_p (putInt32 (size32 (length s))) (ignore_err (putRawBytes s))) (wBytes False s)"
    using emits_putInt32 [of False "- 1"]
      stores_then [OF emits_stores [OF emits_putInt32] stores_ignore_err [OF emits_stores [OF raw]]]
    by (simp add: wBytes_def emits_iff)
  show ?thesis unfolding putBytes_def
    using c f r by (intro emits_by_mode counts_by_flex stores_by_flex) (auto simp: emits_iff)
qed

lemma concat_be_length:
  "length (concat (map be32 xs)) = 4 * length xs" "length (concat (map be64 ys)) = 8 * length ys"
  by (induction xs, simp_all) (induction ys, simp_all)

lemma emits_putInt32Array [emits_rules]:
  assumes "len_ok fl (length xs)" shows "emits fl (putInt32Array xs) (wInt32Array fl xs)"
proof -
  have n: "length xs < 2 ^ 29" using assms by (rule len_ok_bound)
  have e: "counts fl (count_elems 4 (length xs)) (4 * length xs)" for fl
    using counts_elems [of 4 "length xs"] n by simp
  have l: "stores fl (for_each putInt32 xs) (concat (map be32 xs))" for fl
    using stores_for_each [of xs fl putInt32 be32] emits_putInt32 by (simp add: emits_iff)
  have a: "stores False (ignore_err (putArrayLength (size32 (length xs)))) (wLen False (length xs))"
    using n by (intro stores_ignore_err emits_stores emits_putArrayLength) simp
  have sz: "size64 (length xs) + 1 = size64 (length xs + 1)" by simp
  have u: "emits True (putUVarint (size64 (length xs) + 1)) (wLen True (length xs))"
    unfolding sz using emits_putUVarint [of True "size64 (length xs + 1)"] by (simp add: wLen_def wCompact_def)
  show ?thesis unfolding putInt32Array_def
    using counts_then [OF counts_count [of False 4] e] counts_then [OF emits_counts [OF u] e]
      stores_then [OF a l] stores_then [OF emits_stores [OF u] l]
    by (intro emits_by_mode counts_by_flex stores_by_flex)
      (auto simp: wInt32Array_def concat_be_length wLen_def)
qed

lemma emits_putInt64Array [emits_rules]:
  assumes "len_ok fl (length xs)" and "length xs < 2 ^ 28"
  shows "emits fl (putInt64Array xs) (wInt64Array fl xs)"
proof -
  have e: "counts fl (count_elems 8 (length xs)) (8 * length xs)"
    using counts_elems [of 8 "length xs"] assms(2) by simp
  have l: "stores fl (for_each putInt64 xs) (concat (map be64 xs))"
    using stores_for_each [of xs fl putInt64 be64] emits_putInt64 by (simp add: emits_iff)
  have a: "emits fl (putArrayLength (size32 (length xs))) (wLen fl (length xs))"
    using assms(2) by (intro emits_putArrayLength) simp
  show ?thesis unfolding putInt64Array_def
    using counts_then [OF emits_counts [OF a] e] stores_then [OF stores_ignore_err [OF emits_stores [OF a]] l]
    by (intro emits_by_mode) (auto simp: wInt64Array_def concat_be_length)
qed

lemma emits_putNullableInt32Array [emits_rules]:
  assumes "len_ok fl (length xs)"
  shows "emits fl (putNullableInt32Array xs) (wNullableInt32Array fl xs)"
proof (cases "xs = []")
  case True
  then show ?thesis unfolding putNullableInt32Array_def
    using counts_count [of False 4] emits_putUVarint [of True 0] emits_putInt32 [of False "- 1"]
    by (intro emits_by_mode counts_by_flex stores_by_flex)
      (auto simp: wNullableInt32Array_def encodeUVariant_0 emits_iff)
next
  case False
  have n: "length xs < 2 ^ 29" using assms by (rule len_ok_bound)
  have e: "counts fl (count_elems 4 (length xs)) (4 * length xs)" for fl
    using counts_elems [of 4 "length xs"] n by simp
  have l: "stores fl (for_each putInt32 xs) (concat (map be32 xs))" for fl
    using stores_for_each [of xs fl putInt32 be32] emits_putInt32 by (simp add: emits_iff)
  have a: "emits False (putArrayLength (size32 (length xs))) (wLen False (length xs))"
    using n by (intro emits_putArrayLength) simp
  have sz: "size64 (length xs) + 1 = size64 (length xs + 1)" by simp
  have u: "emits True (putUVarint (size64 (length xs) + 1)) (wLen True (length xs))"
    unfolding sz using emits_putUVarint [of True "size64 (length xs + 1)"] by (simp add: wLen_def wCompact_def)
  show ?thesis unfolding putNullableInt32Array_def
    using False counts_then [OF emits_counts [OF a] e] counts_then [OF emits_counts [OF u] e]
      stores_then [OF stores_ignore_err [OF emits_stores [OF a]] l] stores_then [OF emits_stores [OF u] l]
    by (intro emits_by_mode counts_by_flex stores_by_flex)
      (auto simp: wNullableInt32Array_def wInt32Array_def concat_be_length)
qed

text \<open>
  \<^verbatim>\<open>putStringArray\<close>: in the fixed format both passes agree.  In the flexible one the sizing pass counts
  four bytes per element whatever its length, so the contract needs that coincidence as a premise.
\<close>

lemma emits_putStringArray:
  assumes "len_ok fl (length ss)" and "\<And>s. s \<in> set ss \<Longrightarrow> string_ok fl s"
    and "fl \<Longrightarrow> length (concat (map (wString True) ss)) = 4 * length ss"
  shows "emits fl (putStringArray ss) (wStringArray fl ss)"
proof -
  have n: "length ss < 2 ^ 29" using assms(1) by (rule len_ok_bound)
  have a: "emits fl (putArrayLength (size32 (length ss))) (wLen fl (length ss))" for fl
    using n by (intro emits_putArrayLength) simp
  have e: "counts True (count_elems 4 (length ss)) (4 * length ss)"
    using counts_elems [of 4 "length ss"] n by simp
  have s: "emits fl (for_each putString ss) (concat (map (wString fl) ss))"
    using assms(2) by (intro emits_for_each emits_putString)
  have l: "stores fl (for_each (\<lambda>s. ignore_err (putString s)) ss) (concat (map (wString fl) ss))"
    using assms(2) by (intro stores_for_each stores_ignore_err emits_stores emits_putString)
  have c: "counts fl (by_flex ()
       (then_p (putArrayLength (size32 (length ss))) (for_each putString ss))
       (then_p (putArrayLength (size32 (length ss))) (count_elems 4 (length ss)))) (length (wStringArray fl ss))"
  proof (rule counts_by_flex)
    assume "fl"
    then show "counts True (then_p (putArrayLength (size32 (length ss))) (count_elems 4 (length ss)))
        (length (wStringArray fl ss))"
      using counts_then [OF emits_counts [OF a [of True]] e] assms(3) by (simp add: wStringArray_def)
  next
    assume "\<not> fl"
    then show "counts False (then_p (putArrayLength (size32 (length ss))) (for_each putString ss))
        (length (wStringArray fl ss))"
      using counts_then [OF emits_counts [OF a [of fl]] emits_counts [OF s]] by (simp add: wStringArray_def)
  qed
  show ?thesis unfolding putStringArray_def
    using c stores_then [OF stores_ignore_err [OF emits_stores [OF a]] l]
    by (intro emits_by_mode) (auto simp: wStringArray_def)
qed

lemma emits_putStringArray_fixed [emits_rules]:
  "len_ok False (length ss) \<Longrightarrow> (\<And>s. s \<in> set ss \<Longrightarrow> string_ok False s) \<Longrightarrow>
   emits False (putStringArray ss) (wStringArray False ss)"
  by (rule emits_putStringArray) auto

lemma emits_putVariantBytes:
  assumes "length s < 64" shows "emits fl (putVariantBytes s) (wVariantBytes s)"
proof -
  have raw: "emits fl (putRawBytes s) s" using assms by (intro emits_putRawBytes) simp
  have sz: "sint (size64 (length s)) = int (length s)"
    using assms by (simp add: signed_of_nat signed_take_bit_int_eq_self)
  have "digits7 (length s) = 1" "digits7 (2 * length s) = 1" using assms by (simp_all add: digits7.simps)
  then have "varintLen (size64 (length s)) = length (encodeVariant (size64 (length s)))"
    using varintLen_nonneg [of "size64 (length s)"] sz by simp
  then have v: "emits fl (putVariant (size64 (length s))) (encodeVariant (size64 (length s)))"
    by (rule emits_putVariant)
  have m: "emits fl (putVariant (- 1)) (encodeVariant (- 1))"
    by (intro emits_putVariant varintLen_negative) simp
  show ?thesis unfolding putVariantBytes_def
    using emits_then [OF v raw] stores_then [OF emits_stores [OF v] stores_ignore_err [OF emits_stores [OF raw]]] m
    by (intro emits_by_mode) (auto simp: wVariantBytes_def emits_iff)
qed

subsection \<open>What the readers return\<close>

lemma scast_small_byte:
  assumes "(b :: byte) < 0x80" shows "(scast b :: int32) = ucast b"
proof -
  have "uint b < 2 ^ 7" using assms by (simp add: word_less_def)
  moreover have "- (2 ^ 7) \<le> uint b" by (rule order_trans [of _ 0]) simp_all
  ultimately have "sint b = uint b" by (simp add: sint_uint signed_take_bit_int_eq_self)
  then show ?thesis by (simp only: scast_eq ucast_eq)
qed

lemma reads_bind_same:
  "reads fl m bs x \<Longrightarrow> reads fl (k x) [] y \<Longrightarrow> reads fl (bind_p m k) bs y"
  using reads_bind [of fl m bs x k "[]" y] by simp

lemma reads_getBool [reads_rules]: "reads fl getBool (wBool b) b"
  unfolding getBool_def wBool_def
  by (rule reads_bind_same [OF reads_getInt8]) (auto intro: reads_ret)

lemma reads_getKError [reads_rules]: "reads fl getKError (be16 e) e"
  unfolding getKError_def by (rule reads_getInt16)

lemma ucast32_wi: "(ucast (word_of_int k :: int64) :: int32) = word_of_int k"
  by (rule ucast_down_wi) (simp add: is_down)

lemma scast_ucast_duration: "duration_ok ms \<Longrightarrow> (scast (ucast ms :: int32) :: int64) = ms"
proof -
  assume ok: "duration_ok ms"
  have ms: "word_of_int (sint ms) = ms" by (simp flip: scast_eq)
  have "(ucast ms :: int32) = word_of_int (sint ms)" using ucast32_wi [of "sint ms"] unfolding ms .
  then have "sint (ucast ms :: int32) = signed_take_bit 31 (sint ms)"
    by (simp only: sint_sbintrunc' len_bit0 len_num1 One_nat_def) simp
  also have "\<dots> = sint ms" using ok by (simp add: duration_ok_def signed_take_bit_int_eq_self)
  finally have "sint (ucast ms :: int32) = sint ms" .
  then show ?thesis using ms by (simp only: scast_eq)
qed

lemma reads_getDurationMs [reads_rules]:
  "duration_ok ms \<Longrightarrow> reads fl getDurationMs (wDurationMs ms) ms"
  unfolding getDurationMs_def wDurationMs_def
  by (rule reads_bind_same [OF reads_getInt32]) (simp add: scast_ucast_duration reads_ret)

lemma reads_getRawBytes:
  assumes "length s < 2 ^ 31" shows "reads fl (getRawBytes (size32 (length s))) s s"
proof (rule readsI)
  fix pd :: packet_decoder
  assume "pd_offset pd + length s \<le> length (pd_raw pd)" "slice (pd_offset pd) (length s) (pd_raw pd) = s"
  then show "getRawBytes (size32 (length s)) pd = Ok s (advance (length s) pd)"
    using sint_size32 [OF assms] slice_remaining [of pd "length s"] by (simp add: getRawBytes_def)
qed

lemma unat_size64_Suc: "n < 2 ^ 31 \<Longrightarrow> unat (size64 (n + 1)) = n + 1"
  by (intro unat_size64) simp

lemma size64_Suc_nonzero: "n < 2 ^ 31 \<Longrightarrow> size64 (n + 1) \<noteq> 0"
  using unat_size64_Suc [of n] by (metis add_is_0 unat_0 zero_neq_one)

lemma reads_compact: "n < 2 ^ 31 \<Longrightarrow> reads fl getUVariant (wCompact n) (size64 (n + 1))"
  unfolding wCompact_def by (intro reads_getUVariant) (subst unat_size64_Suc, auto)

lemma ucast_size64: "(ucast (size64 (n + 1) - 1) :: int32) = size32 n"
proof -
  have "size64 (n + 1) - 1 = word_of_int (int n)" by simp
  then show ?thesis using ucast32_wi [of "int n"] by (simp only:) simp
qed

lemma reads_getArrayLength [reads_rules]:
  assumes "len_ok fl n" shows "reads fl getArrayLength (wLen fl n) (size32 n)"
  unfolding getArrayLength_def
proof (rule reads_by_flex)
  assume fl
  then have n: "n < 2 ^ 31" using len_ok_bound [OF assms] by simp
  then show "reads True (bind_p getUVariant (\<lambda>n. ret (if n = 0 then 0 else ucast (n - 1)))) (wLen fl n) (size32 n)"
    using \<open>fl\<close> size64_Suc_nonzero [OF n] ucast_size64 [of n]
    by (auto simp: wLen_def intro!: reads_bind_same [OF reads_compact] intro: reads_ret)
next
  assume "\<not> fl"
  with assms have small: "\<forall>b \<in> set (be32 (size32 n)). b < 0x80" and max: "int n \<le> MaxResponseSize"
    by (auto simp: len_ok_def list_all_iff)
  show "reads False (\<lambda>pd. if remaining pd < 4 then fail_at_end ErrInsufficientData pd
           else let r = signed_be32 (at_off pd 0) (at_off pd 1) (at_off pd 2) (at_off pd 3); pd' = advance 4 pd
                 in if sint r > MaxResponseSize then Err ErrInvalidArrayLength pd' else Ok r pd') (wLen fl n) (size32 n)"
  proof (rule readsI)
    fix pd :: packet_decoder
    assume pd: "pd_offset pd + length (wLen fl n) \<le> length (pd_raw pd)"
      "slice (pd_offset pd) (length (wLen fl n)) (pd_raw pd) = wLen fl n"
    then have at: "at_off pd 0 = byte_at 24 (size32 n)" "at_off pd 1 = byte_at 16 (size32 n)"
        "at_off pd 2 = byte_at 8 (size32 n)" "at_off pd 3 = byte_at 0 (size32 n)"
      using be32_at_off [of pd "size32 n"] \<open>\<not> fl\<close> by (auto simp: wLen_def)
    have "signed_be32 (at_off pd 0) (at_off pd 1) (at_off pd 2) (at_off pd 3) =
        from_be32 (at_off pd 0) (at_off pd 1) (at_off pd 2) (at_off pd 3)"
      unfolding at signed_be32_def from_be32_def using small by (simp add: be32_def scast_small_byte)
    also have "\<dots> = size32 n" unfolding at by (rule from_be32_be32)
    finally have v: "signed_be32 (at_off pd 0) (at_off pd 1) (at_off pd 2) (at_off pd 3) = size32 n" .
    have "sint (size32 n) = int n" using len_ok_bound [OF assms] by (intro sint_size32) simp
    with v max pd \<open>\<not> fl\<close> slice_remaining [of pd 4]
    show "(if remaining pd < 4 then fail_at_end ErrInsufficientData pd
           else let r = signed_be32 (at_off pd 0) (at_off pd 1) (at_off pd 2) (at_off pd 3); pd' = advance 4 pd
                 in if sint r > MaxResponseSize then Err ErrInvalidArrayLength pd' else Ok r pd') =
        Ok (size32 n) (advance (length (wLen fl n)) pd)"
      by (simp add: wLen_def Let_def)
  qed
qed

text \<open>
  A string is its length and its bytes; the length check looks ahead to the bytes, so the two are read
  together.
\<close>

lemma reads_string_body:
  assumes len: "\<And>pd. (m_flexible pd \<noteq> 0) = fl \<Longrightarrow> length (pd_raw pd) < 2 ^ 31 \<Longrightarrow>
      pd_offset pd + length pre \<le> length (pd_raw pd) \<Longrightarrow>
      slice (pd_offset pd) (length pre) (pd_raw pd) = pre \<Longrightarrow>
      getStringLength pd = checkStringLength (size32 (length s)) (advance (length pre) pd)"
    and n: "length s < 2 ^ 31 - 1"
  shows "reads fl (bind_p getStringLength (\<lambda>n. if n = - 1 then ret [] else takeBytes (nat (sint n)))) (pre @ s) s"
proof (rule readsI)
  fix pd :: packet_decoder
  assume pd: "(m_flexible pd \<noteq> 0) = fl" "length (pd_raw pd) < 2 ^ 31"
    "pd_offset pd + length (pre @ s) \<le> length (pd_raw pd)"
    "slice (pd_offset pd) (length (pre @ s)) (pd_raw pd) = pre @ s"
  have sz: "sint (size32 (length s)) = int (length s)" using n by (intro sint_size32) simp
  moreover have "sint (- 1 :: int32) = - 1" by simp
  ultimately have ne: "size32 (length s) \<noteq> - 1" by force
  have "getStringLength pd = checkStringLength (size32 (length s)) (advance (length pre) pd)"
    using pd slice_append_left [OF pd(4)] by (intro len) auto
  moreover have "checkStringLength (size32 (length s)) (advance (length pre) pd) =
      Ok (size32 (length s)) (advance (length pre) pd)"
    using pd sz by (simp add: checkStringLength_def remaining_def)
  ultimately show "bind_p getStringLength (\<lambda>n. if n = - 1 then ret [] else takeBytes (nat (sint n))) pd =
      Ok s (advance (length (pre @ s)) pd)"
    using sz ne slice_append_right [OF pd(4)] by (simp add: takeBytes_def)
qed


text \<open>The length prefix of a string, in the two formats.\<close>

lemma getStringLength_fixed:
  assumes "reads fl getInt16 pre len" "(m_flexible pd \<noteq> 0) = fl" "\<not> fl" "length (pd_raw pd) < 2 ^ 31"
    "pd_offset pd + length pre \<le> length (pd_raw pd)" "slice (pd_offset pd) (length pre) (pd_raw pd) = pre"
  shows "getStringLength pd = checkStringLength (scast len) (advance (length pre) pd)"
  using readsD [OF assms(1) assms(2) assms(4-6)] assms(2,3) by (simp add: getStringLength_def)

lemma getStringLength_flexible:
  assumes "reads fl getUVariant pre len" "(m_flexible pd \<noteq> 0) = fl" "fl" "length (pd_raw pd) < 2 ^ 31"
    "pd_offset pd + length pre \<le> length (pd_raw pd)" "slice (pd_offset pd) (length pre) (pd_raw pd) = pre"
  shows "getStringLength pd =
    checkStringLength (if len = 0 then - 1 else ucast (len - 1)) (advance (length pre) pd)"
  using readsD [OF assms(1) assms(2) assms(4-6)] assms(2,3) by (simp add: getStringLength_def)

lemma scast_size16: "n < 2 ^ 15 \<Longrightarrow> (scast (size16 n) :: int32) = size32 n"
  using sint_size16 [of n] by (simp only: scast_eq) simp

abbreviation getStringBody :: "bytes dec" where
  "getStringBody \<equiv> bind_p getStringLength (\<lambda>n. if n = - 1 then ret [] else takeBytes (nat (sint n)))"

lemma reads_body_wString:
  assumes "string_ok fl s" shows "reads fl getStringBody (wString fl s) s"
proof (cases fl)
  case True
  then have n: "length s < 2 ^ 31 - 1" using assms by (simp add: string_ok_def)
  then have n': "length s < 2 ^ 31" by simp
  show ?thesis
    unfolding wString_def using True size64_Suc_nonzero [OF n'] ucast_size64 [of "length s"]
    by (intro reads_string_body n) (simp add: getStringLength_flexible [OF reads_compact [OF n']])
next
  case False
  then have n: "length s < 2 ^ 15" using assms by (simp add: string_ok_def)
  show ?thesis
    unfolding wString_def using False n scast_size16 [OF n]
    by (intro reads_string_body) (simp_all add: getStringLength_fixed [OF reads_getInt16])
qed

lemma reads_null_body:
  assumes "\<And>pd. (m_flexible pd \<noteq> 0) = fl \<Longrightarrow> length (pd_raw pd) < 2 ^ 31 \<Longrightarrow>
      pd_offset pd + length pre \<le> length (pd_raw pd) \<Longrightarrow>
      slice (pd_offset pd) (length pre) (pd_raw pd) = pre \<Longrightarrow>
      getStringLength pd = checkStringLength (- 1) (advance (length pre) pd)"
  shows "reads fl getStringBody pre []"
proof (rule readsI)
  fix pd :: packet_decoder
  assume pd: "(m_flexible pd \<noteq> 0) = fl" "length (pd_raw pd) < 2 ^ 31"
    "pd_offset pd + length pre \<le> length (pd_raw pd)" "slice (pd_offset pd) (length pre) (pd_raw pd) = pre"
  then have "checkStringLength (- 1) (advance (length pre) pd) = Ok (- 1) (advance (length pre) pd)"
    by (simp add: checkStringLength_def remaining_def)
  with assms [OF pd] show "getStringBody pd = Ok [] (advance (length pre) pd)" by (simp add: ret_apply)
qed

lemma reads_uvariant_zero: "reads fl getUVariant [0] 0"
proof -
  have "encodeUVariant 0 = [0]" by (subst encodeUVariant.simps) simp
  then show ?thesis using reads_getUVariant [of 0 fl] by simp
qed

lemma reads_body_wNullableString:
  assumes "string_ok fl s" shows "reads fl getStringBody (wNullableString fl s) s"
proof (cases "s = []")
  case True
  have "reads True getStringBody [0] []"
    by (rule reads_null_body) (simp add: getStringLength_flexible [OF reads_uvariant_zero])
  moreover have "reads False getStringBody (be16 (- 1)) []"
    by (rule reads_null_body, subst getStringLength_fixed [OF reads_getInt16 [of False "- 1"]]) simp_all
  ultimately show ?thesis using True by (auto simp: wNullableString_def)
qed (simp add: wNullableString_def reads_body_wString [OF assms])

lemma reads_getString [reads_rules]: "string_ok fl s \<Longrightarrow> reads fl getString (wString fl s) s"
  unfolding getString_def using reads_body_wString [of fl s] by (intro reads_by_flex) simp_all

lemma reads_getNullableString [reads_rules]:
  "string_ok fl s \<Longrightarrow> reads fl getNullableString (wNullableString fl s) s"
  unfolding getNullableString_def
  using reads_body_wNullableString [of fl s] by (intro reads_by_flex) simp_all

lemma reads_getEmptyTaggedFieldArray [reads_rules]: "reads fl getEmptyTaggedFieldArray (wTags fl) ()"
  unfolding getEmptyTaggedFieldArray_def wTags_def
  by (rule reads_by_flex) (auto intro!: reads_bind_same [OF reads_uvariant_zero] reads_ret)

lemma reads_getBytes [reads_rules]:
  assumes "bytes_ok s" shows "reads fl getBytes (wBytes fl s) s"
proof -
  have n: "length s < 2 ^ 31" using assms by (simp add: bytes_ok_def)
  have raw: "reads fl (getRawBytes (size32 (length s))) s s" for fl by (rule reads_getRawBytes [OF n])
  have "sint (size32 (length s)) = int (length s)" by (rule sint_size32) (use n in simp)
  moreover have "sint (- 1 :: int32) = - 1" by simp
  ultimately have ne: "size32 (length s) \<noteq> - 1" by force
  have "reads True (bind_p getUVariant (\<lambda>n. getRawBytes (ucast (n - 1)))) (wBytes True s) s"
    unfolding wBytes_def using ucast_size64 [of "length s"] raw
    by (simp, intro reads_bind [OF reads_compact [OF n]]) simp
  moreover have "reads False (bind_p getInt32 (\<lambda>tmp. if tmp = - 1 then ret [] else getRawBytes tmp))
      (wBytes False s) s"
  proof (cases "s = []")
    case True
    then show ?thesis by (auto simp: wBytes_def intro!: reads_bind_same [OF reads_getInt32] intro: reads_ret)
  next
    case False
    then show ?thesis using ne raw by (auto simp: wBytes_def intro!: reads_bind [OF reads_getInt32])
  qed
  ultimately show ?thesis unfolding getBytes_def by (intro reads_by_flex) auto
qed


lemma reads_cons:
  assumes "reads fl m bs x" "reads fl ms cs xs"
  shows "reads fl (bind_p m (\<lambda>x. bind_p ms (\<lambda>xs. ret (x # xs)))) (bs @ cs) (x # xs)"
  by (rule reads_bind [OF assms(1)], rule reads_bind_same [OF assms(2)], rule reads_ret)

lemma reads_readInt32s: "reads fl (readInt32s (length xs)) (concat (map be32 xs)) xs"
proof (induction xs)
  case (Cons x xs)
  have "reads fl (\<lambda>pd. if pd_offset pd + 4 \<le> length (pd_raw pd)
      then Ok (from_be32 (at_off pd 0) (at_off pd 1) (at_off pd 2) (at_off pd 3)) (advance 4 pd)
      else Abort) (be32 x) x" (is "reads fl ?one _ _")
    by (rule readsI) (auto simp: be32_at_off [of _ x] from_be32_be32 simp del: One_nat_def)
  from reads_cons [OF this Cons] show ?case by simp
qed (simp add: reads_ret)

lemma reads_readInt64s: "reads fl (readInt64s (length xs)) (concat (map be64 xs)) xs"
proof (induction xs)
  case (Cons x xs)
  have "reads fl (\<lambda>pd. if pd_offset pd + 8 \<le> length (pd_raw pd)
      then Ok (read_be64 pd) (advance 8 pd) else Abort) (be64 x) x" (is "reads fl ?one _ _")
    by (rule readsI) (simp add: read_be64_slice)
  from reads_cons [OF this Cons] show ?case by simp
qed (simp add: reads_ret)

lemma reads_readStrings:
  "(\<And>s. s \<in> set ss \<Longrightarrow> string_ok fl s) \<Longrightarrow>
   reads fl (readStrings (length ss)) (concat (map (wString fl) ss)) ss"
proof (induction ss)
  case (Cons s ss)
  then have "reads fl (readStrings (length ss)) (concat (map (wString fl) ss)) ss" by simp
  from reads_cons [OF reads_getString this, of s] show ?case using Cons.prems by simp
qed (simp add: reads_ret)

text \<open>\<open>remaining() < k * n\<close> holds no reader up when the bytes are there.\<close>

lemma reads_needElems:
  assumes "k * sint n < 2 ^ 31" "k * sint n \<le> int (length bs)" and "reads fl body bs v"
  shows "reads fl (needElems k n body) bs v"
proof (rule readsI)
  fix pd :: packet_decoder
  assume pd: "(m_flexible pd \<noteq> 0) = fl" "length (pd_raw pd) < 2 ^ 31"
    "pd_offset pd + length bs \<le> length (pd_raw pd)" "slice (pd_offset pd) (length bs) (pd_raw pd) = bs"
  then show "needElems k n body pd = Ok v (advance (length bs) pd)"
    using readsD [OF assms(3) pd] assms(1,2) by (simp add: needElems_def remaining_def)
qed

lemma reads_counted:
  assumes "len_ok fl (length xs)" and "xs \<noteq> [] \<Longrightarrow> reads fl (body (size32 (length xs))) bs xs" and "xs = [] \<Longrightarrow> bs = []"
  shows "reads fl (bind_p getArrayLength (\<lambda>n. if sint n \<le> 0 then ret [] else body n)) (wLen fl (length xs) @ bs) xs"
proof (rule reads_bind [OF reads_getArrayLength [OF assms(1)]])
  have "sint (size32 (length xs)) = int (length xs)"
    using len_ok_bound [OF assms(1)] by (intro sint_size32) simp
  then show "reads fl (if sint (size32 (length xs)) \<le> 0 then ret [] else body (size32 (length xs))) bs xs"
    using assms(2,3) by (cases "xs = []") (simp_all add: reads_ret)
qed

lemma length_concat_const: "(\<And>x. x \<in> set xs \<Longrightarrow> length (f x) = k) \<Longrightarrow> length (concat (map f xs)) = length xs * k"
  by (induction xs) auto

lemma reads_getInt64Array [reads_rules]:
  assumes "len_ok fl (length xs)" "length xs < 2 ^ 28"
  shows "reads fl getInt64Array (wInt64Array fl xs) xs"
proof -
  have sz: "sint (size32 (length xs)) = int (length xs)" using assms(2) by (intro sint_size32) simp
  show ?thesis unfolding getInt64Array_def wInt64Array_def
    using assms sz reads_readInt64s [of fl xs] length_concat_const [of xs be64 8]
    by (intro reads_counted) (auto intro!: reads_needElems)
qed

lemma reads_getInt32Array [reads_rules]:
  assumes "len_ok fl (length xs)" shows "reads fl getInt32Array (wInt32Array fl xs) xs"
proof -
  have n: "length xs < 2 ^ 29" by (rule len_ok_bound [OF assms])
  then have n': "length xs < 2 ^ 31" by simp
  have sz: "sint (size32 (length xs)) = int (length xs)" using n by (intro sint_size32) simp
  have "reads False (bind_p getArrayLength (\<lambda>n. if sint n \<le> 0 then ret [] else needElems 4 n (readInt32s (nat (sint n)))))
      (wInt32Array False xs) xs" if "\<not> fl"
    unfolding wInt32Array_def
    using assms that sz n reads_readInt32s [of False xs] length_concat_const [of xs be32 4]
    by (intro reads_counted) (auto intro!: reads_needElems)
  moreover have "reads True (bind_p getUVariant (\<lambda>n. if n = 0 then ret []
        else (let len = sint (ucast (n - 1) :: int32)
              in if len < 0 then (\<lambda>_. Abort) else readInt32s (nat len)))) (wInt32Array True xs) xs"
    using sz size64_Suc_nonzero [OF n'] ucast_size64 [of "length xs"]
      reads_bind [OF reads_compact [OF n'] reads_readInt32s [of True xs]]
    unfolding wInt32Array_def wLen_def if_True
    by (intro reads_bind [OF reads_compact [OF n']]) (simp add: reads_readInt32s)
  ultimately show ?thesis unfolding getInt32Array_def by (intro reads_by_flex) auto
qed

lemma reads_getStringArray [reads_rules]:
  assumes "len_ok fl (length ss)" "\<And>s. s \<in> set ss \<Longrightarrow> string_ok fl s"
  shows "reads fl getStringArray (wStringArray fl ss) ss"
proof -
  have "length ss < 2 ^ 31" using len_ok_bound [OF assms(1)] by simp
  from sint_size32 [OF this]
  have "reads fl (bind_p getArrayLength (\<lambda>n. if sint n \<le> 0 then ret [] else readStrings (nat (sint n))))
      (wStringArray fl ss) ss"
    unfolding wStringArray_def using assms reads_readStrings [of ss fl] by (intro reads_counted) auto
  then show ?thesis unfolding getStringArray_def by (intro reads_by_flex) simp_all
qed

text \<open>A reader on a packet, with other bytes before and behind.\<close>

lemma reads_at:
  assumes "reads fl d bs v" "(f \<noteq> 0) = fl" "length (pre @ bs @ rest) < 2 ^ 31"
  shows "d \<lparr>m_flexible = f, pd_offset = length pre, pd_raw = pre @ bs @ rest, pd_stack = st\<rparr> =
    Ok v \<lparr>m_flexible = f, pd_offset = length pre + length bs, pd_raw = pre @ bs @ rest, pd_stack = st\<rparr>"
  using readsD [OF assms(1), of "\<lparr>m_flexible = f, pd_offset = length pre, pd_raw = pre @ bs @ rest, pd_stack = st\<rparr>"] assms(2,3)
  by (simp add: slice_def advance_def)

lemma reads_new_decoder:
  assumes "reads False d bs v" "length (bs @ rest) < 2 ^ 31"
  shows "d (new_decoder (bs @ rest)) = Ok v (advance (length bs) (new_decoder (bs @ rest)))"
  using reads_at [OF assms(1) _ , of 0 "[]" rest "[]"] assms(2) by (simp add: new_decoder_def advance_def)

end
