(* ===== verification/Push_Field.thy ===== *)
theory Push_Field
  imports Codec
begin

text \<open>
  What the push fields promise: a body between \<open>push\<close> and \<open>pop\<close> is written behind its field, and the
  field is patched to the body's length (\<^verbatim>\<open>length_field.cpp\<close>) or checksum (\<^verbatim>\<open>crc32_field.cpp\<close>).  The
  two fields of fixed width share one contract, the locale \<open>fixed_push_field\<close>.  On the reading side
  \<open>pop\<close> accepts exactly the packets whose checksum matches.
\<close>

definition pop_done :: "unit enc" where
  "pop_done = then_p pop_pe (ret ())"

lemma write_at_front:
  "off + k + length bs \<le> length raw \<Longrightarrow> length front = k \<Longrightarrow>
   write_at off front (write_at (off + k) bs raw) = write_at off (front @ bs) raw"
  by (simp add: write_at_def min_def add.assoc add.left_commute drop_drop)

lemma slice_write_at_same:
  "off + length bs \<le> length raw \<Longrightarrow> slice off (length bs) (write_at off bs raw) = bs"
  by (simp add: slice_def write_at_def)

lemma patch_size32:
  assumes "off + length bs \<le> length raw" "length raw < 2 ^ 31"
  shows "patch (size32 off) bs raw = Some (write_at off bs raw)"
proof -
  have "sint (size32 off) = int off" using assms by (intro sint_size32) simp
  then show ?thesis using assms by (simp add: patch_def)
qed

text \<open>
  \<open>pushed f\<close> is the field as it stands on the stack when \<open>off\<close> bytes were written before it; \<open>value\<close> is
  what \<open>run\<close> stores for a body.
\<close>

locale fixed_push_field =
  fixes f :: push_field and "value" :: "bytes \<Rightarrow> int32"
  assumes reserves: "reserve_length (save_offset cur f) = Some 4"
    and static: "adjust_length cur (save_offset start f) = Some (save_offset start f, 0)"
    and runs: "off + 4 + length bs \<le> length raw \<Longrightarrow> length raw < 2 ^ 31 \<Longrightarrow>
      slice (off + 4) (length bs) raw = bs \<Longrightarrow>
      run_field (size32 (off + 4 + length bs)) raw (save_offset (size32 off) f) =
        Some (write_at off (be32 (value bs)) raw)"
begin

lemma push_prep:
  assumes "pe_type pe = PREP" "pe_offset pe < 2 ^ 64"
  shows "push_pe f pe = Ok () (pe\<lparr>pe_offset := (pe_offset pe + 4) mod 2 ^ 64,
      pe_stack := save_offset (size32 (pe_offset pe)) f # pe_stack pe\<rparr>)"
  using assms count_apply [of 4 pe] reserves by (simp add: push_pe_def by_mode_apply Let_def)

lemma push_real:
  assumes "pe_type pe = REAL" "pe_offset pe + 4 \<le> length (pe_raw pe)"
  shows "push_pe f pe = Ok () (pe\<lparr>pe_offset := pe_offset pe + 4,
      pe_stack := save_offset (size32 (pe_offset pe)) f # pe_stack pe\<rparr>)"
  using assms reserves by (simp add: push_pe_def by_mode_apply Let_def)

lemma pop_prep:
  assumes "pe_type pe = PREP" "pe_offset pe < 2 ^ 64" "pe_stack pe = save_offset off f # st"
  shows "pop_done pe = Ok () (pe\<lparr>pe_stack := st\<rparr>)"
  using assms count_apply [of 0 pe] static [of "size32 (pe_offset pe)" off]
  by (simp add: pop_done_def pop_pe_def by_mode_apply ret_apply)

lemma pop_real:
  assumes "pe_type pe = REAL" "pe_stack pe = save_offset (size32 off) f # st"
    and "pe_offset pe = off + 4 + length bs" "pe_offset pe \<le> length (pe_raw pe)"
    and "length (pe_raw pe) < 2 ^ 31" "slice (off + 4) (length bs) (pe_raw pe) = bs"
  shows "pop_done pe = Ok () (pe\<lparr>pe_stack := st, pe_raw := write_at off (be32 (value bs)) (pe_raw pe)\<rparr>)"
  using assms runs [of off bs "pe_raw pe"] by (simp add: pop_done_def pop_pe_def by_mode_apply ret_apply)

text \<open>The body may leave the field's scope in its own way, as long as that runs \<open>pop\<close> after a success.\<close>

theorem emits_framed_by:
  assumes p: "emits fl p bs"
    and body: "\<And>s t u. p s = Ok () t \<Longrightarrow> pop_done t = Ok () u \<Longrightarrow> body s = Ok () u"
  shows "emits fl (then_p (push_pe f) body) (be32 (value bs) @ bs)"
proof (rule emitsI)
  fix pe :: packet_encoder
  assume pe: "(m_flexible pe \<noteq> 0) = fl" "pe_type pe = PREP" "pe_offset pe < 2 ^ 64"
  let ?pe = "pe\<lparr>pe_offset := (pe_offset pe + 4) mod 2 ^ 64,
      pe_stack := save_offset (size32 (pe_offset pe)) f # pe_stack pe\<rparr>"
  have "p ?pe = Ok () (?pe\<lparr>pe_offset := (pe_offset ?pe + length bs) mod 2 ^ 64\<rparr>)"
    using pe by (intro emits_prep [OF p]) simp_all
  from body [OF this pop_prep] pe
  show "then_p (push_pe f) body pe =
      Ok () (pe\<lparr>pe_offset := (pe_offset pe + length (be32 (value bs) @ bs)) mod 2 ^ 64\<rparr>)"
    by (simp add: push_prep mod_add_left_eq add.assoc)
next
  fix pe :: packet_encoder
  assume pe: "(m_flexible pe \<noteq> 0) = fl" "pe_type pe = REAL" "length (pe_raw pe) < 2 ^ 31"
    "pe_offset pe + length (be32 (value bs) @ bs) \<le> length (pe_raw pe)"
  let ?o = "pe_offset pe"
  let ?raw = "write_at (?o + 4) bs (pe_raw pe)"
  let ?p0 = "pe\<lparr>pe_offset := ?o + 4, pe_stack := save_offset (size32 ?o) f # pe_stack pe\<rparr>"
  let ?pe = "?p0\<lparr>pe_offset := ?o + 4 + length bs, pe_raw := ?raw\<rparr>"
  have "p ?p0 = Ok () ?pe" using pe emits_real [OF p, of ?p0] by simp
  moreover have "pop_done ?pe = Ok () (?pe\<lparr>pe_stack := pe_stack pe, pe_raw := write_at ?o (be32 (value bs)) ?raw\<rparr>)"
    using pe slice_write_at_same [of "?o + 4" bs "pe_raw pe"] pop_real [of ?pe ?o "pe_stack pe" bs] by simp
  ultimately have "body ?p0 = Ok () (?pe\<lparr>pe_stack := pe_stack pe, pe_raw := write_at ?o (be32 (value bs)) ?raw\<rparr>)"
    by (rule body)
  then show "then_p (push_pe f) body pe =
      Ok () (pe\<lparr>pe_offset := ?o + length (be32 (value bs) @ bs),
                pe_raw := write_at ?o (be32 (value bs) @ bs) (pe_raw pe)\<rparr>)"
    using pe by (simp add: push_real write_at_front add.assoc)
qed

theorem emits_framed:
  "emits fl p bs \<Longrightarrow> emits fl (then_p (push_pe f) (then_p p pop_done)) (be32 (value bs) @ bs)"
  by (rule emits_framed_by, assumption, simp)

theorem emits_framed_ignoring:
  "emits fl p bs \<Longrightarrow> emits fl (then_p (push_pe f) (then_p p (ignore_err pop_done))) (be32 (value bs) @ bs)"
  by (rule emits_framed_by, assumption, simp)

end

interpretation lenf: fixed_push_field "LengthField s l" "\<lambda>bs. size32 (length bs)" for s l
proof
  fix off :: nat and bs raw :: bytes
  assume "off + 4 + length bs \<le> length raw" "length raw < 2 ^ 31"
  then have "patch (size32 off) (be32 (size32 (length bs))) raw = Some (write_at off (be32 (size32 (length bs))) raw)"
    by (intro patch_size32) simp_all
  moreover have "size32 (off + 4 + length bs) - size32 off - 4 = size32 (length bs)" by simp
  ultimately show "run_field (size32 (off + 4 + length bs)) raw (save_offset (size32 off) (LengthField s l)) =
      Some (write_at off (be32 (size32 (length bs))) raw)" by (simp only: run_field.simps save_offset.simps)
qed simp_all

interpretation crcf: fixed_push_field "Crc32Field s poly" "Crc32Field_crc poly" for s poly
proof
  fix off :: nat and bs raw :: bytes
  assume a: "off + 4 + length bs \<le> length raw" "length raw < 2 ^ 31" "slice (off + 4) (length bs) raw = bs"
  have "sint (size32 off) = int off" "sint (size32 (off + 4 + length bs)) = int (off + 4 + length bs)"
    by (rule sint_size32, use a in simp)+
  then show "run_field (size32 (off + 4 + length bs)) raw (save_offset (size32 off) (Crc32Field s poly)) =
      Some (write_at off (be32 (Crc32Field_crc poly bs)) raw)"
    using a(3) patch_size32 [of off "be32 (Crc32Field_crc poly bs)" raw] a(1,2)
    unfolding run_field.simps save_offset.simps by (simp add: nat_diff_distrib nat_add_distrib)
qed simp_all

lemmas emits_length_framed = lenf.emits_framed
lemmas emits_crc_framed = crcf.emits_framed

section \<open>The flexible scope\<close>

lemma emits_with_flexible [emits_rules]:
  assumes "emits True p bs" shows "emits False (with_flexible p) bs"
proof (rule emitsI)
  fix pe :: packet_encoder
  assume pe: "(m_flexible pe \<noteq> 0) = False" "pe_type pe = PREP" "pe_offset pe < 2 ^ 64"
  then have "p (push_flexible pe) =
      Ok () ((push_flexible pe)\<lparr>pe_offset := (pe_offset pe + length bs) mod 2 ^ 64\<rparr>)"
    using emits_prep [OF assms, of "push_flexible pe"] by (simp add: push_flexible_def)
  from with_flexible_Ok [of p pe, OF this] pe
  show "with_flexible p pe = Ok () (pe\<lparr>pe_offset := (pe_offset pe + length bs) mod 2 ^ 64\<rparr>)"
    by (simp add: push_flexible_def)
next
  fix pe :: packet_encoder
  assume pe: "(m_flexible pe \<noteq> 0) = False" "pe_type pe = REAL" "length (pe_raw pe) < 2 ^ 31"
    "pe_offset pe + length bs \<le> length (pe_raw pe)"
  then have "p (push_flexible pe) = Ok () ((push_flexible pe)\<lparr>pe_offset := pe_offset pe + length bs,
      pe_raw := write_at (pe_offset pe) bs (pe_raw pe)\<rparr>)"
    using emits_real [OF assms, of "push_flexible pe"] by (simp add: push_flexible_def)
  from with_flexible_Ok [of p pe, OF this] pe
  show "with_flexible p pe = Ok () (pe\<lparr>pe_offset := pe_offset pe + length bs,
      pe_raw := write_at (pe_offset pe) bs (pe_raw pe)\<rparr>)"
    by (simp add: push_flexible_def)
qed

lemma reads_with_flexible [reads_rules]:
  assumes "reads True d bs v" shows "reads False (with_flexible d) bs v"
proof (rule readsI)
  fix pd :: packet_decoder
  assume pd: "(m_flexible pd \<noteq> 0) = False" "length (pd_raw pd) < 2 ^ 31"
    "pd_offset pd + length bs \<le> length (pd_raw pd)" "slice (pd_offset pd) (length bs) (pd_raw pd) = bs"
  then have "d (push_flexible pd) = Ok v (advance (length bs) (push_flexible pd))"
    using readsD [OF assms, of "push_flexible pd"] by (simp add: push_flexible_def)
  from with_flexible_Ok [of d pd, OF this] pd show "with_flexible d pd = Ok v (advance (length bs) pd)"
    by (simp add: push_flexible_def advance_def)
qed

section \<open>Checksums on the reading side\<close>

text \<open>
  A body between \<open>push\<close> and \<open>pop\<close> of a checksum field, in front of the stored checksum \<open>c\<close> and the body's
  bytes: the packet is accepted exactly when \<open>c\<close> is the checksum of those bytes.
\<close>

definition crc_guarded :: "CrcPolynomial \<Rightarrow> 'a dec \<Rightarrow> 'a dec" where
  "crc_guarded poly d = then_p (push_pd (Crc32Field 0 poly)) (bind_p d (\<lambda>x. then_p pop_pd (ret x)))"

lemma crc_steps:
  assumes d: "reads fl d bs v"
    and pd: "(m_flexible pd \<noteq> 0) = fl" "length (pd_raw pd) < 2 ^ 31"
      "pd_offset pd + 4 + length bs \<le> length (pd_raw pd)"
      "slice (pd_offset pd) (4 + length bs) (pd_raw pd) = be32 c @ bs"
  shows "\<exists>pd1 pd2. push_pd (Crc32Field 0 poly) pd = Ok () pd1 \<and> d pd1 = Ok v pd2 \<and>
    pop_pd pd2 = (if c = Crc32Field_crc poly bs then Ok () (advance (4 + length bs) pd)
      else Err ErrCRCMismatch (advance (4 + length bs) pd))"
proof -
  let ?o = "pd_offset pd"
  let ?f = "Crc32Field (size32 ?o) poly"
  let ?pd = "pd\<lparr>pd_stack := ?f # pd_stack pd, pd_offset := ?o + 4\<rparr>"
  let ?stop = "advance (length bs) ?pd"
  have field: "slice ?o 4 (pd_raw pd) = be32 c" and body: "slice (?o + 4) (length bs) (pd_raw pd) = bs"
    using slice_append_left [of ?o "be32 c" bs] slice_append_right [of ?o "be32 c" bs] pd(4) by simp_all
  have push: "push_pd (Crc32Field 0 poly) pd = Ok () ?pd"
    using pd(3) by (simp add: push_pd_def remaining_def)
  have read: "d ?pd = Ok v ?stop" using pd body by (intro readsD [OF d]) simp_all
  have "sint (size32 ?o) = int ?o" "sint (size32 (?o + 4 + length bs)) = int (?o + 4 + length bs)"
    by (rule sint_size32, use pd in simp)+
  moreover have "from_be32 (pd_raw pd ! ?o) (pd_raw pd ! (?o + 1)) (pd_raw pd ! (?o + 2)) (pd_raw pd ! (?o + 3)) = c"
    using be32_at_off [OF _ field] pd(3) from_be32_be32 [of c] by (simp add: at_off_def)
  ultimately have "check_field (size32 (?o + 4 + length bs)) (pd_raw pd) ?f =
      Some (if Crc32Field_crc poly bs \<noteq> c then ErrCRCMismatch else ErrNoError)"
    using pd(3) body unfolding check_field.simps by (simp add: nat_add_distrib Let_def)
  then have "pop_pd ?stop = (if c = Crc32Field_crc poly bs then Ok () (advance (4 + length bs) pd)
      else Err ErrCRCMismatch (advance (4 + length bs) pd))"
    by (auto simp: pop_pd_def advance_def kerror_defs add.assoc)
  then show ?thesis using push read by blast
qed

lemma crc_guarded_apply:
  assumes "reads fl d bs v" "(m_flexible pd \<noteq> 0) = fl" "length (pd_raw pd) < 2 ^ 31"
    "pd_offset pd + 4 + length bs \<le> length (pd_raw pd)" "slice (pd_offset pd) (4 + length bs) (pd_raw pd) = be32 c @ bs"
  shows "crc_guarded poly d pd =
    (if c = Crc32Field_crc poly bs then Ok v (advance (4 + length bs) pd)
     else Err ErrCRCMismatch (advance (4 + length bs) pd))"
  using crc_steps [OF assms, of poly] by (auto simp: crc_guarded_def ret_apply split: if_splits)

text \<open>Where the return code of \<open>pop\<close> is dropped, so is the verdict on the checksum.\<close>

lemma reads_crc_dropped:
  assumes d: "reads fl d bs v" and k: "reads fl (k v) [] y"
  shows "reads fl (then_p (ignore_err (push_pd (Crc32Field 0 poly))) (bind_p d (\<lambda>x. then_p (ignore_err pop_pd) (k x))))
    (be32 c @ bs) y"
proof (rule readsI)
  fix pd :: packet_decoder
  let ?t = "advance (4 + length bs) pd"
  assume pd: "(m_flexible pd \<noteq> 0) = fl" "length (pd_raw pd) < 2 ^ 31"
    "pd_offset pd + length (be32 c @ bs) \<le> length (pd_raw pd)"
    "slice (pd_offset pd) (length (be32 c @ bs)) (pd_raw pd) = be32 c @ bs"
  then obtain pd1 pd2 where steps: "push_pd (Crc32Field 0 poly) pd = Ok () pd1" "d pd1 = Ok v pd2"
    "pop_pd pd2 = (if c = Crc32Field_crc poly bs then Ok () ?t else Err ErrCRCMismatch ?t)"
    using crc_steps [OF d, of pd c poly] by (auto simp: add.assoc)
  have "k v ?t = Ok y ?t" using readsD [OF k, of ?t] pd by (simp add: slice_def)
  moreover have "ignore_err pop_pd pd2 = Ok () ?t" using steps(3) by (simp add: ignore_err_def)
  ultimately show "then_p (ignore_err (push_pd (Crc32Field 0 poly))) (bind_p d (\<lambda>x. then_p (ignore_err pop_pd) (k x))) pd =
      Ok y (advance (length (be32 c @ bs)) pd)"
    using steps(1,2) by simp
qed

lemma reads_crc_guarded:
  assumes "reads fl d bs v"
  shows "reads fl (crc_guarded poly d) (be32 (Crc32Field_crc poly bs) @ bs) v"
  by (rule readsI) (simp add: crc_guarded_apply [OF assms, of _ "Crc32Field_crc poly bs"] add.assoc)

end
