(* ===== verification/Kafka_Version.thy ===== *)
theory Kafka_Version
  imports Prelude
begin

text \<open>
  Broker versions (\<^verbatim>\<open>version.h\<close>, \<^verbatim>\<open>version.cpp\<close>): \<^verbatim>\<open>KafkaVersion\<close> is an array of four \<open>uint\<close>s.
  \<^verbatim>\<open>IsAtLeast\<close> is shown to be the lexicographic order, a \<open>linorder\<close> on the type; \<^verbatim>\<open>operator>=\<close> is not
  that order.
\<close>

type_synonym uint32 = "32 word"

datatype KafkaVersion = KafkaVersion uint32 uint32 uint32 uint32

primrec version_parts :: "KafkaVersion \<Rightarrow> uint32 list" where
  "version_parts (KafkaVersion a b c d) = [a, b, c, d]"

definition V0_8_2_0 where "V0_8_2_0 = KafkaVersion 0 8 2 0"
definition V0_9_0_0 where "V0_9_0_0 = KafkaVersion 0 9 0 0"
definition V0_10_0_0 where "V0_10_0_0 = KafkaVersion 0 10 0 0"
definition V0_10_1_0 where "V0_10_1_0 = KafkaVersion 0 10 1 0"
definition V0_10_2_0 where "V0_10_2_0 = KafkaVersion 0 10 2 0"
definition V0_11_0_0 where "V0_11_0_0 = KafkaVersion 0 11 0 0"
definition V1_0_0_0 where "V1_0_0_0 = KafkaVersion 1 0 0 0"
definition V1_1_0_0 where "V1_1_0_0 = KafkaVersion 1 1 0 0"
definition V2_0_0_0 where "V2_0_0_0 = KafkaVersion 2 0 0 0"
definition V2_1_0_0 where "V2_1_0_0 = KafkaVersion 2 1 0 0"
definition V2_2_0_0 where "V2_2_0_0 = KafkaVersion 2 2 0 0"
definition V2_3_0_0 where "V2_3_0_0 = KafkaVersion 2 3 0 0"
definition V2_4_0_0 where "V2_4_0_0 = KafkaVersion 2 4 0 0"
definition V2_5_0_0 where "V2_5_0_0 = KafkaVersion 2 5 0 0"
definition V2_6_0_0 where "V2_6_0_0 = KafkaVersion 2 6 0 0"
definition V2_7_0_0 where "V2_7_0_0 = KafkaVersion 2 7 0 0"
definition V2_8_0_0 where "V2_8_0_0 = KafkaVersion 2 8 0 0"
definition V3_0_0_0 where "V3_0_0_0 = KafkaVersion 3 0 0 0"
definition V3_2_0_0 where "V3_2_0_0 = KafkaVersion 3 2 0 0"
definition V3_3_0_0 where "V3_3_0_0 = KafkaVersion 3 3 0 0"
definition V3_8_0_0 where "V3_8_0_0 = KafkaVersion 3 8 0 0"
definition MinVersion where "MinVersion = KafkaVersion 0 8 2 0"
definition MaxVersion where "MaxVersion = KafkaVersion 4 1 0 0"
definition DefaultVersion where "DefaultVersion = KafkaVersion 2 1 0 0"

lemmas kafka_version_defs = V0_8_2_0_def V0_9_0_0_def V0_10_0_0_def V0_10_1_0_def V0_10_2_0_def
  V0_11_0_0_def V1_0_0_0_def V1_1_0_0_def V2_0_0_0_def V2_1_0_0_def V2_2_0_0_def V2_3_0_0_def
  V2_4_0_0_def V2_5_0_0_def V2_6_0_0_def V2_7_0_0_def V2_8_0_0_def
  V3_0_0_0_def V3_2_0_0_def V3_3_0_0_def V3_8_0_0_def

section \<open>Comparison\<close>

text \<open>The loop \<open>for (i = 0; i < 4; ++i)\<close>, on the components still to be compared.\<close>

fun IsAtLeast_loop :: "uint32 list \<Rightarrow> uint32 list \<Rightarrow> bool" where
  "IsAtLeast_loop (x # xs) (y # ys) =
     (if x > y then True else if x < y then False else IsAtLeast_loop xs ys)"
| "IsAtLeast_loop _ _ = True"

definition IsAtLeast :: "KafkaVersion \<Rightarrow> KafkaVersion \<Rightarrow> bool" where
  "IsAtLeast v other = IsAtLeast_loop (version_parts v) (version_parts other)"

definition version_eq :: "KafkaVersion \<Rightarrow> KafkaVersion \<Rightarrow> bool" where
  "version_eq v other = list_all2 (=) (version_parts v) (version_parts other)"

definition version_ne :: "KafkaVersion \<Rightarrow> KafkaVersion \<Rightarrow> bool" where
  "version_ne v other = (\<not> version_eq v other)"

fun version_ge :: "KafkaVersion \<Rightarrow> KafkaVersion \<Rightarrow> bool" where
  "version_ge (KafkaVersion a b c d) (KafkaVersion a' b' c' d') =
     (a \<ge> a' \<or> (a = a' \<and> b \<ge> b') \<or> (b = b' \<and> c \<ge> c') \<or> (c = c' \<and> d \<ge> d'))"

text \<open>The order the versions are meant to have.\<close>

lemma IsAtLeast_iff:
  "IsAtLeast (KafkaVersion a b c d) (KafkaVersion a' b' c' d') \<longleftrightarrow>
     a > a' \<or> a = a' \<and> (b > b' \<or> b = b' \<and> (c > c' \<or> c = c' \<and> d \<ge> d'))"
  by (auto simp: IsAtLeast_def)

lemma version_eq_iff [simp]: "version_eq v w \<longleftrightarrow> v = w"
  by (cases v, cases w) (simp add: version_eq_def)

instantiation KafkaVersion :: linorder
begin

definition less_eq_KafkaVersion :: "KafkaVersion \<Rightarrow> KafkaVersion \<Rightarrow> bool" where
  "v \<le> w \<longleftrightarrow> IsAtLeast w v"

definition less_KafkaVersion :: "KafkaVersion \<Rightarrow> KafkaVersion \<Rightarrow> bool" where
  "v < w \<longleftrightarrow> IsAtLeast w v \<and> \<not> IsAtLeast v w"

instance
proof
  fix u v w :: KafkaVersion
  show "u \<le> u" by (cases u) (simp add: less_eq_KafkaVersion_def IsAtLeast_iff)
  show "(u < v) = (u \<le> v \<and> \<not> v \<le> u)" by (simp add: less_eq_KafkaVersion_def less_KafkaVersion_def)
  show "u \<le> v \<Longrightarrow> v \<le> w \<Longrightarrow> u \<le> w"
    by (cases u; cases v; cases w) (auto simp: less_eq_KafkaVersion_def IsAtLeast_iff)
  show "u \<le> v \<Longrightarrow> v \<le> u \<Longrightarrow> u = v"
    by (cases u; cases v) (auto simp: less_eq_KafkaVersion_def IsAtLeast_iff)
  show "u \<le> v \<or> v \<le> u"
    by (cases u; cases v) (auto simp: less_eq_KafkaVersion_def IsAtLeast_iff)
qed

end

lemma KafkaVersion_le_iff:
  "KafkaVersion a' b' c' d' \<le> KafkaVersion a b c d \<longleftrightarrow>
     a > a' \<or> a = a' \<and> (b > b' \<or> b = b' \<and> (c > c' \<or> c = c' \<and> d \<ge> d'))"
  by (simp add: less_eq_KafkaVersion_def IsAtLeast_iff)

lemma IsAtLeast_le [simp]: "IsAtLeast v w \<longleftrightarrow> w \<le> v"
  by (simp add: less_eq_KafkaVersion_def)

text \<open>The operator agrees with the order as long as it says no, and may say yes to an older broker.\<close>

lemma version_ge_weaker: "w \<le> v \<Longrightarrow> version_ge v w"
  by (cases v; cases w) (auto simp: KafkaVersion_le_iff)

lemma version_ge_major: "a' \<le> a \<Longrightarrow> version_ge (KafkaVersion a b c d) (KafkaVersion a' b' c' d')"
  by simp

section \<open>Text form\<close>

text \<open>\<open>oss << n\<close> for a \<open>uint\<close>: decimal digits, most significant first.\<close>

fun decimal :: "nat \<Rightarrow> string" where
  "decimal n = (if n < 10 then [char_of (48 + n)] else decimal (n div 10) @ [char_of (48 + n mod 10)])"

definition version_String :: "KafkaVersion \<Rightarrow> string" where
  "version_String v =
     (case map (\<lambda>w. decimal (unat w)) (version_parts v) of
        [a, b, c, d] \<Rightarrow>
          (if version_parts v ! 0 = 0 then ''0.'' @ b @ ''.'' @ c @ ''.'' @ d
           else a @ ''.'' @ b @ ''.'' @ c))"

definition is_digit :: "char \<Rightarrow> bool" where
  "is_digit c \<longleftrightarrow> 48 \<le> (of_char c :: nat) \<and> (of_char c :: nat) \<le> 57"

text \<open>The fields of a dotted text; \<open>\d+\<close> matches a field that is a non-empty run of digits.\<close>

primrec dot_fields :: "string \<Rightarrow> string list" where
  "dot_fields [] = [[]]"
| "dot_fields (c # s) =
     (if c = CHR ''.'' then [] # dot_fields s
      else case dot_fields s of f # fs \<Rightarrow> (c # f) # fs | [] \<Rightarrow> [[c]])"

definition is_number :: "string \<Rightarrow> bool" where
  "is_number f \<longleftrightarrow> f \<noteq> [] \<and> list_all is_digit f"

text \<open>
  \<open>%u\<close> of \<^verbatim>\<open>sscanf\<close>: \<open>strtoul\<close> (saturating at \<open>ULONG_MAX\<close>) stored into an \<open>unsigned\<close>.
\<close>

definition scan_u :: "string \<Rightarrow> uint32" where
  "scan_u f = word_of_nat (min (foldl (\<lambda>n c. 10 * n + (of_char c - 48)) 0 f) (2 ^ 64 - 1))"

definition ParseKafkaVersion :: "string \<Rightarrow> KafkaVersion" where
  "ParseKafkaVersion s =
     (if length s < 5 then DefaultVersion
      else if s ! 0 = CHR ''0'' then
        (case dot_fields s of
           [z, b, c, d] \<Rightarrow>
             if z = ''0'' \<and> is_number b \<and> is_number c \<and> is_number d
             then KafkaVersion 0 (scan_u b) (scan_u c) (scan_u d) else DefaultVersion
         | _ \<Rightarrow> DefaultVersion)
      else
        (case dot_fields s of
           [a, b, c] \<Rightarrow>
             if is_number a \<and> is_number b \<and> is_number c
             then KafkaVersion (scan_u a) (scan_u b) (scan_u c) 0 else DefaultVersion
         | _ \<Rightarrow> DefaultVersion))"

declare decimal.simps [simp del]

lemma of_char_digit: "k < 10 \<Longrightarrow> (of_char (char_of (48 + k) :: char) :: nat) = 48 + k"
  by simp

lemma decimal_digits: "is_number (decimal n)"
proof (induction n rule: decimal.induct)
  case (1 n)
  have "is_digit (char_of (48 + k))" if "k < 10" for k :: nat using that by (simp add: is_digit_def)
  then show ?case using 1 by (subst decimal.simps) (auto simp: is_number_def decimal.simps)
qed

lemma foldl_decimal: "foldl (\<lambda>n c. 10 * n + (of_char c - 48)) 0 (decimal n) = n"
proof (induction n rule: decimal.induct)
  case (1 n)
  then show ?case by (subst decimal.simps) auto
qed

lemma scan_u_decimal [simp]: "scan_u (decimal (unat w)) = w"
proof -
  have "unat w < 2 ^ 32" using unsigned_less [of w, where ?'a = nat] by simp
  then show ?thesis by (simp add: scan_u_def foldl_decimal min_def)
qed

lemma number_no_dot: "is_number f \<Longrightarrow> CHR ''.'' \<notin> set f"
  by (auto simp: is_number_def list_all_iff is_digit_def)

lemma dot_fields_cons: "CHR ''.'' \<notin> set f \<Longrightarrow> dot_fields (f @ CHR ''.'' # s) = f # dot_fields s"
  by (induction f) auto

lemma dot_fields_last: "CHR ''.'' \<notin> set f \<Longrightarrow> dot_fields f = [f]"
  by (induction f) auto

lemma length_decimal: "length (decimal n) \<ge> 1"
  using decimal_digits [of n] by (simp add: is_number_def Suc_le_eq)

lemma decimal_head: "0 < n \<Longrightarrow> decimal n ! 0 \<noteq> CHR ''0''"
proof (induction n rule: decimal.induct)
  case (1 n)
  show ?case
  proof (cases "n < 10")
    case True
    have "(of_char (char_of (48 + n) :: char) :: nat) \<noteq> of_char (CHR ''0'')" using True 1(2) by simp
    then have "(char_of (48 + n) :: char) \<noteq> CHR ''0''" by metis
    then show ?thesis using True by (subst decimal.simps) simp
  next
    case False
    then show ?thesis using 1 length_decimal [of "n div 10"] by (subst decimal.simps) (auto simp: nth_append)
  qed
qed

text \<open>Printing and parsing: exact for the four-part form of 0.x and the three-part form from 1.0 on.\<close>

lemma ParseKafkaVersion_String:
  assumes "a \<noteq> 0 \<Longrightarrow> d = 0"
  shows "ParseKafkaVersion (version_String (KafkaVersion a b c d)) = KafkaVersion a b c d"
proof (cases "a = 0")
  case True
  have "version_String (KafkaVersion a b c d) =
      ''0'' @ CHR ''.'' # decimal (unat b) @ CHR ''.'' # decimal (unat c) @ CHR ''.'' # decimal (unat d)"
    using True by (simp add: version_String_def)
  moreover have "dot_fields \<dots> = [''0'', decimal (unat b), decimal (unat c), decimal (unat d)]"
    using dot_fields_cons [of "''0''"] by (simp add: dot_fields_cons dot_fields_last number_no_dot decimal_digits)
  ultimately show ?thesis
    using True length_decimal [of "unat b"] length_decimal [of "unat c"] length_decimal [of "unat d"]
    by (auto simp: ParseKafkaVersion_def decimal_digits)
next
  case False
  have "version_String (KafkaVersion a b c d) =
      decimal (unat a) @ CHR ''.'' # decimal (unat b) @ CHR ''.'' # decimal (unat c)" (is "_ = ?s")
    using False by (simp add: version_String_def)
  moreover have "dot_fields ?s = [decimal (unat a), decimal (unat b), decimal (unat c)]"
    by (simp add: dot_fields_cons dot_fields_last number_no_dot decimal_digits)
  moreover have "?s ! 0 \<noteq> CHR ''0''"
    using False decimal_head [of "unat a"] length_decimal [of "unat a"] by (simp add: nth_append unat_gt_0)
  ultimately show ?thesis
    using False assms length_decimal [of "unat a"] length_decimal [of "unat b"] length_decimal [of "unat c"]
    by (auto simp: ParseKafkaVersion_def decimal_digits)
qed

lemma old_versions_le:
  assumes "V1_0_0_0 \<le> v" shows "V0_11_0_0 \<le> v" "V0_10_0_0 \<le> v" "V0_8_2_0 \<le> v"
proof -
  have "V0_11_0_0 \<le> V1_0_0_0" "V0_10_0_0 \<le> V1_0_0_0" "V0_8_2_0 \<le> V1_0_0_0"
    by (simp_all add: kafka_version_defs KafkaVersion_le_iff)
  then show "V0_11_0_0 \<le> v" "V0_10_0_0 \<le> v" "V0_8_2_0 \<le> v" using assms by (blast intro: order_trans)+
qed

end
