(* ===== verification/Encoder_Decoder.thy ===== *)
theory Encoder_Decoder
  imports Push_Field Kafka_Version
begin

text \<open>
  The entry points of the codec (\<^verbatim>\<open>encoder_decoder.cpp\<close>), the request frame (\<^verbatim>\<open>request.cpp\<close>) and the
  response header (\<^verbatim>\<open>response_header.cpp\<close>).

  An object behind an \<^verbatim>\<open>IEncoder\<close> or \<^verbatim>\<open>VDecoder\<close> reference is the record of the virtual methods the
  entry points call.  The outcome of the \<^verbatim>\<open>dynamic_cast\<close> to \<^verbatim>\<open>protocol_body\<close> is an option: \<open>None\<close> for a
  class that is not one.  \<open>encode\<close> runs on the caller's \<open>out\<close> string; the decoders return the decoded
  object, whose contents after an error are not modelled.
\<close>

section \<open>Entry points\<close>

record IEncoder =
  ie_is_flexible :: "bool option"
  ie_encode :: "unit enc"

record 'a VDecoder =
  vd_is_flexible_version :: "(int16 \<Rightarrow> bool) option"
  vd_decode :: "int16 \<Rightarrow> 'a dec"
  vd_this :: 'a

definition new_encoder :: "enc_type \<Rightarrow> nat \<Rightarrow> packet_encoder" where
  "new_encoder t n = \<lparr>m_flexible = 0, pe_type = t, pe_offset = 0, pe_stack = [], pe_raw = replicate n 0\<rparr>"

definition prepare_flexible_encoder :: "IEncoder \<Rightarrow> unit enc" where
  "prepare_flexible_encoder req =
     (case ie_is_flexible req of
        Some True \<Rightarrow> with_flexible (ie_encode req)
      | _ \<Rightarrow> ie_encode req)"

definition prepare_flexible_decoder :: "'a VDecoder \<Rightarrow> int16 \<Rightarrow> 'a dec" where
  "prepare_flexible_decoder req version =
     (case vd_is_flexible_version req of
        Some f \<Rightarrow> if f version then with_flexible (vd_decode req version) else vd_decode req version
      | None \<Rightarrow> vd_decode req version)"

text \<open>\<open>enc.m_length < 0\<close> compares a \<open>size_t\<close> and is never true.\<close>

definition encode :: "IEncoder \<Rightarrow> (bytes, unit) prog" where
  "encode e out =
     (case prepare_flexible_encoder e (new_encoder PREP 0) of
        Abort \<Rightarrow> Abort
      | Err _ _ \<Rightarrow> Err ErrEncodeError out
      | Ok _ enc \<Rightarrow>
          (if int (pe_offset enc) > MaxRequestSize then Err ErrEncodeError out
           else
             (case prepare_flexible_encoder e (new_encoder REAL (pe_offset enc)) of
                Abort \<Rightarrow> Abort
              | Err _ _ \<Rightarrow> Err ErrEncodeError out
              | Ok _ real_enc \<Rightarrow>
                  (if out = [] then Ok () (pe_raw real_enc) else Ok () (out @ pe_raw real_enc)))))"

text \<open>\<^verbatim>\<open>decode\<close> throws \<^verbatim>\<open>PacketError\<close> when bytes are left over.\<close>

definition decode :: "bytes \<Rightarrow> 'a \<Rightarrow> 'a dec \<Rightarrow> (unit, 'a) outcome" where
  "decode buf this dec =
     (if buf = [] then Ok this ()
      else case dec (new_decoder buf) of
        Abort \<Rightarrow> Abort
      | Err _ _ \<Rightarrow> Err ErrDecodeError ()
      | Ok x helper \<Rightarrow> if pd_offset helper \<noteq> length buf then Abort else Ok x ())"

definition decode_version :: "bytes \<Rightarrow> 'a VDecoder \<Rightarrow> int16 \<Rightarrow> (unit, 'a) outcome" where
  "decode_version buf vd version =
     (if buf = [] then Ok (vd_this vd) ()
      else case prepare_flexible_decoder vd version (new_decoder buf) of
        Abort \<Rightarrow> Abort
      | Err e _ \<Rightarrow> Err e ()
      | Ok x helper \<Rightarrow> if remaining helper \<noteq> 0 then Err ErrDecodeError () else Ok x ())"

definition magic_offset :: nat where "magic_offset = 16"

definition magic_value :: "int8 dec" where
  "magic_value = peekInt8 magic_offset"

section \<open>What the entry points do with a message that keeps its contract\<close>

lemma write_at_all: "length bs = length raw \<Longrightarrow> write_at 0 bs raw = bs"
  by (simp add: write_at_def)

text \<open>Both passes run from the empty encoder: the buffer is exactly the message.\<close>

lemma encode_emits:
  assumes p: "emits False (prepare_flexible_encoder e) bs" and n: "int (length bs) \<le> MaxRequestSize"
  shows "encode e out = Ok () (out @ bs)"
proof -
  have small: "length bs < 2 ^ 31" using n by (simp add: MaxRequestSize_def)
  then have "prepare_flexible_encoder e (new_encoder PREP 0) = Ok () ((new_encoder PREP 0)\<lparr>pe_offset := length bs\<rparr>)"
    using emits_prep [OF p, of "new_encoder PREP 0"] by (simp add: new_encoder_def)
  moreover have "prepare_flexible_encoder e (new_encoder REAL (length bs)) =
      Ok () ((new_encoder REAL (length bs))\<lparr>pe_offset := length bs, pe_raw := bs\<rparr>)"
    using emits_real [OF p, of "new_encoder REAL (length bs)"] small
    by (simp add: new_encoder_def write_at_all)
  ultimately show ?thesis using n by (simp add: encode_def)
qed

lemma encode_too_long:
  assumes p: "emits False (prepare_flexible_encoder e) bs"
    and n: "int (length bs) > MaxRequestSize" "length bs < 2 ^ 64"
  shows "encode e out = Err ErrEncodeError out"
proof -
  have "prepare_flexible_encoder e (new_encoder PREP 0) = Ok () ((new_encoder PREP 0)\<lparr>pe_offset := length bs\<rparr>)"
    using emits_prep [OF p, of "new_encoder PREP 0"] n(2) by (simp add: new_encoder_def)
  then show ?thesis using n by (simp add: encode_def)
qed

lemma decode_reads:
  assumes "reads False (prepare_flexible_decoder vd version) bs v" "bs \<noteq> []" "length bs < 2 ^ 31"
  shows "decode_version bs vd version = Ok v ()"
    and "rest \<noteq> [] \<Longrightarrow> length (bs @ rest) < 2 ^ 31 \<Longrightarrow>
      decode_version (bs @ rest) vd version = Err ErrDecodeError ()"
proof -
  have "prepare_flexible_decoder vd version (new_decoder (bs @ rest)) =
      Ok v (advance (length bs) (new_decoder (bs @ rest)))" if "length (bs @ rest) < 2 ^ 31" for rest
    using that by (intro readsD [OF assms(1)]) (simp_all add: new_decoder_def slice_def)
  from this [of "[]"] this [of rest] assms(2,3)
  show "decode_version bs vd version = Ok v ()"
    "rest \<noteq> [] \<Longrightarrow> length (bs @ rest) < 2 ^ 31 \<Longrightarrow>
      decode_version (bs @ rest) vd version = Err ErrDecodeError ()"
    by (simp_all add: decode_version_def remaining_def new_decoder_def)
qed

section \<open>The request frame\<close>

text \<open>
  The virtual methods of a \<^verbatim>\<open>protocol_body\<close> at a given object: every message class fills in this
  record.  A class that does not override \<^verbatim>\<open>is_flexible\<close> and \<^verbatim>\<open>is_flexible_version\<close> has the defaults,
  which say no.
\<close>

record protocol_body =
  pb_key :: int16
  pb_version :: int16
  pb_header_version :: int16
  pb_is_valid_version :: bool
  pb_is_flexible :: bool
  pb_is_flexible_version :: "int16 \<Rightarrow> bool"
  pb_required_version :: KafkaVersion
  pb_encode :: "unit enc"

record Request =
  rq_correlation_id :: int32
  rq_client_id :: bytes
  rq_body :: protocol_body

definition Request_encode :: "Request \<Rightarrow> unit enc" where
  "Request_encode r =
     (let b = rq_body r;
          is_flexible = pb_is_flexible_version b (pb_version b) in
      then_p (push_pe (LengthField 0 0))
     (then_p (putInt16 (pb_key b))
     (then_p (putInt16 (pb_version b))
     (then_p (putInt32 (rq_correlation_id r))
     (then_p (when_p (sint (pb_header_version b) \<ge> 1)
               (then_p (putInt16 (size16 (length (rq_client_id r))))
                       (ignore_err (putRawBytes (rq_client_id r)))))
     (then_p (when_p (sint (pb_header_version b) \<ge> 2) (putUVarint 0))
       (if is_flexible then with_flexible (then_p (pb_encode b) pop_done)
        else then_p (pb_encode b) pop_done)))))))"

text \<open>\<^verbatim>\<open>Request\<close> is an \<^verbatim>\<open>IEncoder\<close> but not a \<^verbatim>\<open>protocol_body\<close>: \<^verbatim>\<open>encode\<close> leaves the format to it.\<close>

definition Request_IEncoder :: "Request \<Rightarrow> IEncoder" where
  "Request_IEncoder r = \<lparr>ie_is_flexible = None, ie_encode = Request_encode r\<rparr>"

text \<open>The request header of the protocol, in front of the body's bytes.\<close>

definition wRequestHeader :: "Request \<Rightarrow> bytes" where
  "wRequestHeader r =
     (let b = rq_body r in
      be16 (pb_key b) @ be16 (pb_version b) @ be32 (rq_correlation_id r) @
      (if sint (pb_header_version b) \<ge> 1
       then be16 (size16 (length (rq_client_id r))) @ rq_client_id r else []) @
      (if sint (pb_header_version b) \<ge> 2 then [0] else []))"

definition wRequest :: "Request \<Rightarrow> bytes \<Rightarrow> bytes" where
  "wRequest r body =
     be32 (size32 (length (wRequestHeader r @ body))) @ wRequestHeader r @ body"

text \<open>\<open>pop\<close> does not look at the format, so it commutes with leaving the flexible scope.\<close>

lemma pop_done_m_flexible:
  "pop_done (s\<lparr>m_flexible := k\<rparr>) =
     (case pop_done s of Ok x t \<Rightarrow> Ok x (t\<lparr>m_flexible := k\<rparr>) | Err e t \<Rightarrow> Err e (t\<lparr>m_flexible := k\<rparr>) | Abort \<Rightarrow> Abort)"
  by (auto simp: pop_done_def pop_pe_def by_mode_def then_p_def bind_p_def ret_apply count_def
      split: enc_type.splits list.splits option.splits)

lemma pop_done_keeps_flexible:
  "pop_done s = Ok x t \<Longrightarrow> m_flexible t = m_flexible s" "pop_done s = Err e t \<Longrightarrow> m_flexible t = m_flexible s"
  by (auto simp: pop_done_def pop_pe_def by_mode_def then_p_def bind_p_def ret_apply count_def
      split: enc_type.splits list.splits option.splits)

lemma with_flexible_pop:
  "with_flexible (then_p p pop_done) = then_p (with_flexible p) pop_done"
proof (rule ext)
  fix s :: packet_encoder
  show "with_flexible (then_p p pop_done) s = then_p (with_flexible p) pop_done s"
  proof (cases "p (push_flexible s)")
    case (Ok x t)
    then show ?thesis
      by (cases "pop_done t") (auto simp: with_flexible_def pop_flexible_def then_p_def bind_p_def
          pop_done_m_flexible dest: pop_done_keeps_flexible)
  qed (auto simp: with_flexible_def pop_flexible_def then_p_def bind_p_def)
qed

lemma emits_Request_encode:
  assumes body: "emits (pb_is_flexible_version (rq_body r) (pb_version (rq_body r))) (pb_encode (rq_body r)) bs"
    and cid: "length (rq_client_id r) < 2 ^ 31"
  shows "emits False (Request_encode r) (wRequest r bs)"
proof -
  let ?b = "rq_body r"
  let ?enc = "if pb_is_flexible_version ?b (pb_version ?b) then with_flexible (pb_encode ?b) else pb_encode ?b"
  let ?hdr = "then_p (putInt16 (pb_key ?b)) (then_p (putInt16 (pb_version ?b)) (then_p (putInt32 (rq_correlation_id r))
     (then_p (when_p (sint (pb_header_version ?b) \<ge> 1)
               (then_p (putInt16 (size16 (length (rq_client_id r)))) (ignore_err (putRawBytes (rq_client_id r)))))
       (when_p (sint (pb_header_version ?b) \<ge> 2) (putUVarint 0)))))"
  have shape: "Request_encode r = then_p (push_pe (LengthField 0 0)) (then_p (then_p ?hdr ?enc) pop_done)"
    by (simp add: Request_encode_def with_flexible_pop then_p_assoc Let_def)
  have zero: "emits False (putUVarint 0) [0]"
    using emits_putUVarint [of False 0] by (subst (asm) encodeUVariant.simps) simp
  have "emits False ?hdr (wRequestHeader r)"
    unfolding wRequestHeader_def Let_def using cid
    by (intro emits_then emits_when emits_ignore_err emits_putInt16 emits_putInt32 emits_putRawBytes zero) simp
  moreover have "emits False ?enc bs" using body by (auto intro: emits_with_flexible)
  ultimately show ?thesis
    unfolding shape wRequest_def by (intro emits_length_framed emits_then)
qed

section \<open>The response header\<close>

record ResponseHeader =
  rh_length :: int32
  rh_correlation_id :: int32

definition decode_header :: "ResponseHeader dec" where
  "decode_header =
     bind_p getInt32 (\<lambda>len.
       if sint len \<le> 4 \<or> sint len > MaxResponseSize then raise (- 1)
       else bind_p getInt32 (\<lambda>cid.
         bind_p getEmptyTaggedFieldArray (\<lambda>_. ret \<lparr>rh_length = len, rh_correlation_id = cid\<rparr>)))"

definition ResponseHeader_decode :: "int16 \<Rightarrow> ResponseHeader dec" where
  "ResponseHeader_decode version = (if sint version \<ge> 1 then with_flexible decode_header else decode_header)"

definition wResponseHeader :: "int16 \<Rightarrow> ResponseHeader \<Rightarrow> bytes" where
  "wResponseHeader version h =
     be32 (rh_length h) @ be32 (rh_correlation_id h) @ wTags (sint version \<ge> 1)"

lemma reads_decode_header:
  assumes "4 < sint (rh_length h)" "sint (rh_length h) \<le> MaxResponseSize"
  shows "reads fl decode_header (be32 (rh_length h) @ be32 (rh_correlation_id h) @ wTags fl) h"
  unfolding decode_header_def using assms
  by (intro reads_bind [OF reads_getInt32], simp, intro reads_bind [OF reads_getInt32]
      reads_bind_same [OF reads_getEmptyTaggedFieldArray]) (cases h, simp add: reads_ret)

lemma reads_ResponseHeader_decode:
  assumes "4 < sint (rh_length h)" "sint (rh_length h) \<le> MaxResponseSize"
  shows "reads False (ResponseHeader_decode version) (wResponseHeader version h) h"
  using reads_decode_header [OF assms, of False] reads_with_flexible [OF reads_decode_header [OF assms]]
  by (auto simp: ResponseHeader_decode_def wResponseHeader_def)

lemma response_header_ok:
  assumes "4 < sint (rh_length h)" "sint (rh_length h) \<le> MaxResponseSize" "length (wResponseHeader version h @ rest) < 2 ^ 31"
  shows "ResponseHeader_decode version (new_decoder (wResponseHeader version h @ rest)) =
    Ok h (advance (length (wResponseHeader version h)) (new_decoder (wResponseHeader version h @ rest)))"
  by (rule reads_new_decoder [OF reads_ResponseHeader_decode [OF assms(1,2)] assms(3)])

lemma with_flexible_Err:
  assumes "body (push_flexible s) = Err e s'" "m_flexible s' = m_flexible s + 1" "m_flexible s + 1 \<noteq> 0"
  shows "with_flexible body s = Err e (s'\<lparr>m_flexible := m_flexible s\<rparr>)"
  using assms by (simp add: with_flexible_def pop_flexible_def word_gt_0)

lemma response_header_bad:
  assumes bad: "\<not> (4 < sint (rh_length h) \<and> sint (rh_length h) \<le> MaxResponseSize)"
    and "length (wResponseHeader version h @ rest) < 2 ^ 31"
  shows "ResponseHeader_decode version (new_decoder (wResponseHeader version h @ rest)) =
    Err (- 1) (advance 4 (new_decoder (wResponseHeader version h @ rest)))"
proof -
  let ?raw = "wResponseHeader version h @ rest"
  obtain cs where raw: "?raw = [] @ be32 (rh_length h) @ cs" by (simp add: wResponseHeader_def)
  have "getInt32 \<lparr>m_flexible = f, pd_offset = 0, pd_raw = ?raw, pd_stack = []\<rparr> =
      Ok (rh_length h) \<lparr>m_flexible = f, pd_offset = 4, pd_raw = ?raw, pd_stack = []\<rparr>" for f
    unfolding raw using reads_at [OF reads_getInt32 refl, of "[]" "rh_length h" cs f "[]"] assms(2) raw by simp
  then have d: "decode_header \<lparr>m_flexible = f, pd_offset = 0, pd_raw = ?raw, pd_stack = []\<rparr> =
      Err (- 1) \<lparr>m_flexible = f, pd_offset = 4, pd_raw = ?raw, pd_stack = []\<rparr>" for f
    using bad by (auto simp: decode_header_def raise_apply)
  let ?pd = "\<lparr>m_flexible = 0, pd_offset = 0, pd_raw = ?raw, pd_stack = []\<rparr>"
  have "decode_header (push_flexible ?pd) = Err (- 1) \<lparr>m_flexible = 1, pd_offset = 4, pd_raw = ?raw, pd_stack = []\<rparr>"
    using d [of 1] by (simp add: push_flexible_def)
  from with_flexible_Err [of decode_header ?pd, OF this]
  have "with_flexible decode_header ?pd = Err (- 1) \<lparr>m_flexible = 0, pd_offset = 4, pd_raw = ?raw, pd_stack = []\<rparr>" by simp
  then show ?thesis using d [of 0] by (simp add: ResponseHeader_decode_def new_decoder_def advance_def)
qed

text \<open>One routine as a whole message.\<close>

lemma codec_through_entry:
  assumes "emits fl p bs" "reads fl d bs v" "int (length bs) \<le> MaxRequestSize" "bs \<noteq> []"
  shows "encode \<lparr>ie_is_flexible = Some fl, ie_encode = p\<rparr> [] = Ok () bs \<and>
    decode_version bs \<lparr>vd_is_flexible_version = Some (\<lambda>_. fl), vd_decode = (\<lambda>_. d), vd_this = t\<rparr> version = Ok v ()"
proof -
  have "emits False (prepare_flexible_encoder \<lparr>ie_is_flexible = Some fl, ie_encode = p\<rparr>) bs"
    using assms(1) by (auto simp: prepare_flexible_encoder_def intro: emits_with_flexible split: bool.split)
  from encode_emits [OF this assms(3), of "[]"]
  have 1: "encode \<lparr>ie_is_flexible = Some fl, ie_encode = p\<rparr> [] = Ok () bs" by simp
  have "reads False (prepare_flexible_decoder \<lparr>vd_is_flexible_version = Some (\<lambda>_. fl), vd_decode = (\<lambda>_. d), vd_this = t\<rparr> version) bs v"
    using assms(2) by (auto simp: prepare_flexible_decoder_def intro: reads_with_flexible)
  from decode_reads(1) [OF this assms(4)] assms(3) 1 show ?thesis by (simp add: MaxRequestSize_def)
qed

end
