(* ===== verification/Protocol.thy ===== *)
theory Protocol
  imports Encoder_Decoder "HOL-Library.List_Lexorder" "HOL-Library.AList"
begin

text \<open>
  The contract of a message class (\<^verbatim>\<open>protocol_body.h\<close>) and what follows from it for every class alike.

  \<^item> \<open>vtable m\<close> is the record of the virtual methods of the object \<open>m\<close>, \<open>dec this v\<close> the class's \<^verbatim>\<open>decode\<close>
    running on the object \<open>this\<close>.
  \<^item> \<open>wire m\<close> is the message's layout in the Kafka protocol, \<open>ok m\<close> says that its fields fit the layout.
  \<^item> \<open>seen this m\<close> is \<open>this\<close> after decoding \<open>m\<close>: a field that the version at hand does not carry keeps the
    value it had in \<open>this\<close>.

  The locale \<open>protocol_message\<close> asks that \<^verbatim>\<open>encode\<close> writes that layout and \<^verbatim>\<open>decode\<close> reads it; the round
  trip through \<^verbatim>\<open>encode\<close> and \<^verbatim>\<open>decode_version\<close>, the rejection of trailing bytes, the size limit and the
  request frame are proved once inside it, and every message theory interprets it.
\<close>

definition body_IEncoder :: "protocol_body \<Rightarrow> IEncoder" where
  "body_IEncoder b = \<lparr>ie_is_flexible = Some (pb_is_flexible b), ie_encode = pb_encode b\<rparr>"

definition body_VDecoder :: "protocol_body \<Rightarrow> (int16 \<Rightarrow> 'm dec) \<Rightarrow> 'm \<Rightarrow> 'm VDecoder" where
  "body_VDecoder b d this =
     \<lparr>vd_is_flexible_version = Some (pb_is_flexible_version b), vd_decode = d, vd_this = this\<rparr>"

locale protocol_message =
  fixes vtable :: "'m \<Rightarrow> protocol_body"
    and dec :: "'m \<Rightarrow> int16 \<Rightarrow> 'm dec"
    and wire :: "'m \<Rightarrow> bytes"
    and ok :: "'m \<Rightarrow> bool"
    and seen :: "'m \<Rightarrow> 'm \<Rightarrow> 'm"
  assumes flexible: "pb_is_flexible (vtable m) = pb_is_flexible_version (vtable m) (pb_version (vtable m))"
    and flexible_class: "pb_is_flexible_version (vtable m) = pb_is_flexible_version (vtable m')"
    and writes: "ok m \<Longrightarrow> emits (pb_is_flexible (vtable m)) (pb_encode (vtable m)) (wire m)"
    and parses: "ok m \<Longrightarrow>
      reads (pb_is_flexible (vtable m)) (dec this (pb_version (vtable m))) (wire m) (seen this m)"
    and nonempty: "ok m \<Longrightarrow> wire m \<noteq> []"
begin

lemma emits_prepared: "ok m \<Longrightarrow> emits False (prepare_flexible_encoder (body_IEncoder (vtable m))) (wire m)"
  using writes [of m] by (auto simp: prepare_flexible_encoder_def body_IEncoder_def
      intro: emits_with_flexible split: bool.split)

lemma reads_prepared:
  "ok m \<Longrightarrow> reads False (prepare_flexible_decoder (body_VDecoder (vtable this) (dec this) this)
     (pb_version (vtable m))) (wire m) (seen this m)"
  using parses [of m this] flexible [of m] flexible_class [of m this]
  by (auto simp: prepare_flexible_decoder_def body_VDecoder_def intro: reads_with_flexible)

theorem encode_message:
  "ok m \<Longrightarrow> int (length (wire m)) \<le> MaxRequestSize \<Longrightarrow>
   encode (body_IEncoder (vtable m)) out = Ok () (out @ wire m)"
  by (rule encode_emits [OF emits_prepared])

theorem encode_oversized:
  "ok m \<Longrightarrow> int (length (wire m)) > MaxRequestSize \<Longrightarrow> length (wire m) < 2 ^ 64 \<Longrightarrow>
   encode (body_IEncoder (vtable m)) out = Err ErrEncodeError out"
  by (rule encode_too_long [OF emits_prepared])

theorem decode_message:
  assumes "ok m" "length (wire m) < 2 ^ 31"
  shows "decode_version (wire m) (body_VDecoder (vtable this) (dec this) this) (pb_version (vtable m)) =
    Ok (seen this m) ()"
  using assms nonempty by (intro decode_reads(1) [OF reads_prepared])

theorem decode_trailing:
  assumes "ok m" "rest \<noteq> []" "length (wire m @ rest) < 2 ^ 31"
  shows "decode_version (wire m @ rest) (body_VDecoder (vtable this) (dec this) this) (pb_version (vtable m)) =
    Err ErrDecodeError ()"
  using assms nonempty by (intro decode_reads(2) [OF reads_prepared]) auto

text \<open>Encoding a message into an empty string gives its layout, and decoding that gives the message back.\<close>

theorem transfer:
  assumes "ok m" "int (length (wire m)) \<le> MaxRequestSize"
  shows "encode (body_IEncoder (vtable m)) [] = Ok () (wire m) \<and>
    decode_version (wire m) (body_VDecoder (vtable this) (dec this) this) (pb_version (vtable m)) = Ok (seen this m) ()"
proof -
  have "length (wire m) < 2 ^ 31" using assms(2) by (simp add: MaxRequestSize_def)
  then show ?thesis using encode_message [OF assms, of "[]"] decode_message [OF assms(1)] by simp
qed

text \<open>The message as the body of a request.\<close>

theorem encode_request:
  assumes "ok m" "length (rq_client_id r) < 2 ^ 31" "rq_body r = vtable m"
    and "int (length (wRequest r (wire m))) \<le> MaxRequestSize"
  shows "encode (Request_IEncoder r) out = Ok () (out @ wRequest r (wire m))"
proof -
  have "emits False (Request_encode r) (wRequest r (wire m))"
    using assms(1-3) writes [of m] flexible [of m] by (intro emits_Request_encode) simp_all
  then show ?thesis
    using assms(4) by (intro encode_emits) (simp_all add: prepare_flexible_encoder_def Request_IEncoder_def)
qed

end

section \<open>Fields and arrays of a message\<close>

text \<open>\<open>if (version >= k) { err = get(field); ... }\<close>: the field keeps \<open>old\<close> in the other versions.\<close>

definition field_if :: "bool \<Rightarrow> ('s, 'a) prog \<Rightarrow> 'a \<Rightarrow> ('s, 'a) prog" where
  "field_if b m old = (if b then m else ret old)"

text \<open>\<open>v.resize(n); for (i = 0; i < n; ++i) get(v[i]);\<close>\<close>

primrec replicate_p :: "nat \<Rightarrow> ('s, 'a) prog \<Rightarrow> ('s, 'a list) prog" where
  "replicate_p 0 m = ret []"
| "replicate_p (Suc n) m = bind_p m (\<lambda>x. bind_p (replicate_p n m) (\<lambda>xs. ret (x # xs)))"

text \<open>\<open>resize\<close> to a negative length throws \<^verbatim>\<open>std::length_error\<close>.\<close>

definition resize_read :: "int32 \<Rightarrow> ('s, 'a) prog \<Rightarrow> ('s, 'a list) prog" where
  "resize_read n m = (if sint n < 0 then (\<lambda>_. Abort) else replicate_p (nat (sint n)) m)"

text \<open>\<open>if (n > 0) { v.resize(n); for (...) get(v[i]); }\<close>\<close>

definition read_n :: "int32 \<Rightarrow> ('s, 'a) prog \<Rightarrow> ('s, 'a list) prog" where
  "read_n n m = replicate_p (nat (sint n)) m"

text \<open>\<open>return pd.getEmptyTaggedFieldArray(_);\<close> with the object built so far.\<close>

definition tags_then :: "'a \<Rightarrow> 'a dec" where
  "tags_then x = bind_p getEmptyTaggedFieldArray (\<lambda>_. ret x)"

definition wArray :: "bool \<Rightarrow> ('a \<Rightarrow> bytes) \<Rightarrow> 'a list \<Rightarrow> bytes" where
  "wArray fl w xs = wLen fl (length xs) @ concat (map w xs)"

lemma reads_field_if [reads_rules]:
  "(b \<Longrightarrow> reads fl m bs v) \<Longrightarrow> reads fl (field_if b m old) (if b then bs else []) (if b then v else old)"
  by (simp add: field_if_def reads_ret)

lemma reads_replicate:
  "(\<And>x. x \<in> set xs \<Longrightarrow> reads fl m (w x) (g x)) \<Longrightarrow>
   reads fl (replicate_p (length xs) m) (concat (map w xs)) (map g xs)"
  by (induction xs) (auto intro: reads_ret reads_cons)

lemma sint_len: "len_ok fl n \<Longrightarrow> sint (size32 n) = int n"
  using len_ok_bound [of fl n] by (intro sint_size32) simp

lemma reads_resize [reads_rules]:
  assumes "len_ok fl (length xs)" "\<And>x. x \<in> set xs \<Longrightarrow> reads fl m (w x) (g x)"
  shows "reads fl (resize_read (size32 (length xs)) m) (concat (map w xs)) (map g xs)"
  using reads_replicate [of xs fl m w g] assms by (simp add: resize_read_def sint_len)

lemma reads_read_n [reads_rules]:
  assumes "len_ok fl (length xs)" "\<And>x. x \<in> set xs \<Longrightarrow> reads fl m (w x) (g x)"
  shows "reads fl (read_n (size32 (length xs)) m) (concat (map w xs)) (map g xs)"
  using reads_replicate [of xs fl m w g] assms by (simp add: read_n_def sint_len)

lemma reads_tags_then [reads_rules]: "reads fl (tags_then x) (wTags fl) x"
  unfolding tags_then_def by (rule reads_bind_same [OF reads_getEmptyTaggedFieldArray reads_ret])

lemma emits_wArray [emits_rules]:
  assumes "len_ok fl (length xs)" "\<And>x. x \<in> set xs \<Longrightarrow> emits fl (f x) (w x)"
  shows "emits fl (then_p (putArrayLength (size32 (length xs))) (for_each f xs)) (wArray fl w xs)"
  unfolding wArray_def using len_ok_bound [OF assms(1)]
  by (intro emits_then emits_putArrayLength emits_for_each assms(2)) simp_all

section \<open>Decoding in place\<close>

text \<open>\<open>v.resize(n)\<close> keeps the elements that \<open>v\<close> has and adds value-initialised ones.\<close>

definition resize_to :: "nat \<Rightarrow> 'a \<Rightarrow> 'a list \<Rightarrow> 'a list" where
  "resize_to n d xs = take n xs @ replicate (n - length xs) d"

text \<open>\<open>v.resize(n); for (auto &e : v) e.decode(...);\<close> where \<open>decode\<close> may leave a field of \<open>e\<close> as it was.\<close>

primrec decode_each :: "('a \<Rightarrow> ('s, 'a) prog) \<Rightarrow> 'a list \<Rightarrow> ('s, 'a list) prog" where
  "decode_each f [] = ret []"
| "decode_each f (old # olds) = bind_p (f old) (\<lambda>x. bind_p (decode_each f olds) (\<lambda>xs. ret (x # xs)))"

definition resize_into :: "int32 \<Rightarrow> 'a \<Rightarrow> 'a list \<Rightarrow> ('a \<Rightarrow> ('s, 'a) prog) \<Rightarrow> ('s, 'a list) prog" where
  "resize_into n d old f =
     (if sint n < 0 then (\<lambda>_. Abort) else decode_each f (resize_to (nat (sint n)) d old))"

text \<open>\<open>get(field);\<close> with the return code dropped: after an error the field holds \<open>v\<close>.\<close>

definition get_or :: "('s, 'a) prog \<Rightarrow> 'a \<Rightarrow> ('s, 'a) prog" where
  "get_or m v = (\<lambda>s. case m s of Ok x s' \<Rightarrow> Ok x s' | Err _ s' \<Rightarrow> Ok v s' | Abort \<Rightarrow> Abort)"

lemma length_resize_to [simp]: "length (resize_to n d xs) = n"
  by (simp add: resize_to_def)

lemma resize_to_Nil [simp]: "resize_to n d [] = replicate n d"
  by (simp add: resize_to_def)

lemma reads_decode_each:
  assumes "length olds = length xs" "\<And>old x. x \<in> set xs \<Longrightarrow> reads fl (f old) (w x) (g old x)"
  shows "reads fl (decode_each f olds) (concat (map w xs)) (map2 g olds xs)"
  using assms by (induction olds xs rule: list_induct2) (auto intro: reads_ret reads_cons)

lemma reads_resize_into [reads_rules]:
  assumes "len_ok fl (length xs)" "\<And>e x. x \<in> set xs \<Longrightarrow> reads fl (f e) (w x) (g e x)"
  shows "reads fl (resize_into (size32 (length xs)) d old f) (concat (map w xs))
    (map2 g (resize_to (length xs) d old) xs)"
  using assms reads_decode_each [of "resize_to (length xs) d old" xs fl f w g]
  by (simp add: resize_into_def sint_len)

lemma reads_get_or [reads_rules]: "reads fl m bs v \<Longrightarrow> reads fl (get_or m d) bs v"
  by (simp add: reads_def get_or_def)

text \<open>An array whose length is written with the caller's own error code, or with the code dropped.\<close>

lemma emits_wArray_err [emits_rules]:
  assumes "len_ok fl (length xs)" "\<And>x. x \<in> set xs \<Longrightarrow> emits fl (f x) (w x)"
  shows "emits fl (then_p (err_as e (putArrayLength (size32 (length xs)))) (for_each f xs)) (wArray fl w xs)"
    "emits fl (then_p (ignore_err (putArrayLength (size32 (length xs)))) (for_each f xs)) (wArray fl w xs)"
  unfolding wArray_def using len_ok_bound [OF assms(1)]
  by (intro emits_then emits_err_as emits_ignore_err emits_putArrayLength emits_for_each assms(2); simp)+

text \<open>In the fixed format tagged fields take no bytes, so that a decoder may read them where no encoder wrote them.\<close>

lemma reads_fixed_tags:
  assumes "reads False (f ()) bs v"
  shows "reads False (bind_p getEmptyTaggedFieldArray f) bs v"
    "reads False (bind_p (err_as e getEmptyTaggedFieldArray) f) bs v"
    "reads False (bind_p (field_if b getEmptyTaggedFieldArray ()) f) bs v"
    "reads False (bind_p (field_if b (err_as e getEmptyTaggedFieldArray) ()) f) bs v"
proof -
  have tags: "reads False getEmptyTaggedFieldArray [] ()"
    using reads_getEmptyTaggedFieldArray [of False] by (simp add: wTags_def)
  have steps: "reads False (bind_p m f) bs v" if "reads False m [] ()" for m
    using reads_bind [of False m "[]" "()" f bs v] that assms by simp
  show "reads False (bind_p getEmptyTaggedFieldArray f) bs v"
    "reads False (bind_p (err_as e getEmptyTaggedFieldArray) f) bs v"
    by (rule steps, rule tags reads_err_as [OF tags])+
  show "reads False (bind_p (field_if b getEmptyTaggedFieldArray ()) f) bs v"
    "reads False (bind_p (field_if b (err_as e getEmptyTaggedFieldArray) ()) f) bs v"
    by (rule steps; cases b; simp add: field_if_def tags reads_err_as reads_ret)+
qed

lemma reads_last_fixed_tags:
  assumes "reads False m bs x"
  shows "reads False (bind_p m (\<lambda>x. bind_p getEmptyTaggedFieldArray (\<lambda>_. ret (f x)))) bs (f x)"
    "reads False (bind_p m (\<lambda>x. bind_p (err_as e getEmptyTaggedFieldArray) (\<lambda>_. ret (f x)))) bs (f x)"
    "reads False (bind_p m (\<lambda>x. bind_p (field_if b getEmptyTaggedFieldArray ()) (\<lambda>_. ret (f x)))) bs (f x)"
    "reads False (bind_p m (\<lambda>x. bind_p (field_if b (err_as e getEmptyTaggedFieldArray) ()) (\<lambda>_. ret (f x)))) bs (f x)"
  by (rule reads_bind_same [OF assms]; rule reads_fixed_tags; rule reads_ret)+

text \<open>An array of the message, read with one of the three loops.\<close>

lemma reads_array [reads_rules]:
  assumes "len_ok fl (length xs)" "\<And>x. x \<in> set xs \<Longrightarrow> reads fl m (w x) (g x)"
  shows "reads fl (bind_p getArrayLength (\<lambda>n. resize_read n m)) (wArray fl w xs) (map g xs)"
    "reads fl (bind_p (err_as e getArrayLength) (\<lambda>n. resize_read n m)) (wArray fl w xs) (map g xs)"
    "reads fl (bind_p getArrayLength (\<lambda>n. read_n n m)) (wArray fl w xs) (map g xs)"
    "reads fl (bind_p (err_as e getArrayLength) (\<lambda>n. read_n n m)) (wArray fl w xs) (map g xs)"
  unfolding wArray_def
  by (rule reads_bind reads_err_as reads_getArrayLength reads_resize reads_read_n assms | assumption)+

lemma reads_array_into [reads_rules]:
  assumes "len_ok fl (length xs)" "\<And>e x. x \<in> set xs \<Longrightarrow> reads fl (f e) (w x) (g e x)"
  shows "reads fl (bind_p getArrayLength (\<lambda>n. resize_into n d old f)) (wArray fl w xs)
      (map2 g (resize_to (length xs) d old) xs)"
    "reads fl (bind_p (err_as e getArrayLength) (\<lambda>n. resize_into n d old f)) (wArray fl w xs)
      (map2 g (resize_to (length xs) d old) xs)"
  unfolding wArray_def
  by (rule reads_bind reads_err_as reads_getArrayLength reads_resize_into assms | assumption)+

section \<open>No layout is empty\<close>

lemma be_nonempty [simp]: "be8 a \<noteq> []" "be16 b \<noteq> []" "be32 c \<noteq> []" "be64 d \<noteq> []"
  by (simp_all add: be8_def be16_def be32_def be64_def)

lemma encodeUVariant_nonempty [simp]: "encodeUVariant x \<noteq> []"
  by (subst encodeUVariant.simps) simp

lemma layouts_nonempty [simp]:
  "wCompact n \<noteq> []" "wLen fl n \<noteq> []" "wString fl s \<noteq> []" "wNullableString fl s \<noteq> []" "wBytes fl s \<noteq> []"
  "wDurationMs ms \<noteq> []" "wBool b \<noteq> []" "wArray fl w xs \<noteq> []"
  by (simp_all add: wCompact_def wLen_def wString_def wNullableString_def wBytes_def wDurationMs_def wBool_def
      wArray_def)

section \<open>Maps of a message\<close>

text \<open>
  A \<^verbatim>\<open>std::map\<close> is its entries in key order, \<open>m[k] = v\<close> an ordered insertion.  Keys that are strings
  compare as byte sequences.  A \<^verbatim>\<open>std::unordered_map\<close> is its entries in some iteration order, a new key
  at the end.
\<close>

fun smap_put :: "'k::linorder \<Rightarrow> 'v \<Rightarrow> ('k \<times> 'v) list \<Rightarrow> ('k \<times> 'v) list" where
  "smap_put k v [] = [(k, v)]"
| "smap_put k v ((k', v') # m) =
     (if k < k' then (k, v) # (k', v') # m
      else if k = k' then (k, v) # m
      else (k', v') # smap_put k v m)"

definition smap :: "('k::linorder \<times> 'v) list \<Rightarrow> bool" where
  "smap m \<longleftrightarrow> sorted_wrt (<) (map fst m)"

lemma smap_Nil [simp]: "smap []"
  by (simp add: smap_def)

lemma map_of_smap_put [simp]: "map_of (smap_put k v m) = (map_of m)(k \<mapsto> v)"
  by (induction k v m rule: smap_put.induct) auto

lemma set_smap_put: "fst ` set (smap_put k v m) = insert k (fst ` set m)"
  by (induction k v m rule: smap_put.induct) auto

lemma smap_smap_put: "smap m \<Longrightarrow> smap (smap_put k v m)"
  unfolding smap_def
proof (induction k v m rule: smap_put.induct)
  case (2 k v k' v' m)
  have "set (map fst (smap_put k v m)) = insert k (set (map fst m))" using set_smap_put [of k v m] by simp
  then show ?case using 2 by (auto simp: not_less)
qed simp

lemma smap_put_last: "(\<forall>k' \<in> fst ` set m. k' < k) \<Longrightarrow> smap_put k v m = m @ [(k, v)]"
  by (induction k v m rule: smap_put.induct) auto

text \<open>Inserting the entries of a map one by one, in its own order, rebuilds it.\<close>

lemma smap_rebuild: "smap (m @ xs) \<Longrightarrow> fold (\<lambda>(k, v). smap_put k v) xs m = m @ xs"
proof (induction xs arbitrary: m)
  case (Cons x xs)
  obtain k v where x: "x = (k, v)" by (cases x)
  have "\<forall>k' \<in> fst ` set m. k' < k" using Cons.prems by (auto simp: smap_def x sorted_wrt_append)
  then have "smap_put k v m = m @ [(k, v)]" by (rule smap_put_last)
  then show ?case using Cons.IH [of "m @ [(k, v)]"] Cons.prems by (simp add: x)
qed simp

lemma alist_rebuild:
  "distinct (map fst (m @ xs)) \<Longrightarrow> fold (\<lambda>(k, v). AList.update k v) xs m = m @ xs"
proof (induction xs arbitrary: m)
  case (Cons x xs)
  obtain k v where x: "x = (k, v)" by (cases x)
  have "k \<notin> fst ` set m" using Cons.prems by (auto simp: x)
  then have "AList.update k v m = m @ [(k, v)]" by (induction m) auto
  then show ?case using Cons.IH [of "m @ [(k, v)]"] Cons.prems by (simp add: x)
qed simp

text \<open>\<open>for (i = 0; i < n; ++i) { get(k, v); m[k] = v; }\<close>: a negative count runs no round.\<close>

definition put_all :: "('k \<times> 'v \<Rightarrow> ('k \<times> 'v) list \<Rightarrow> ('k \<times> 'v) list) \<Rightarrow> int32 \<Rightarrow>
    ('s, 'k \<times> 'v) prog \<Rightarrow> ('k \<times> 'v) list \<Rightarrow> ('s, ('k \<times> 'v) list) prog" where
  "put_all ins n m = loop_p (nat (sint n)) ins m"

text \<open>\<open>m[k]\<close> of a map of vectors, and appending to it.\<close>

definition entry_of :: "'k \<Rightarrow> ('k \<times> 'v list) list \<Rightarrow> 'v list" where
  "entry_of k m = (case map_of m k of Some vs \<Rightarrow> vs | None \<Rightarrow> [])"

definition smap_push :: "'k::linorder \<Rightarrow> 'v list \<Rightarrow> ('k \<times> 'v list) list \<Rightarrow> ('k \<times> 'v list) list" where
  "smap_push k vs m = smap_put k (entry_of k m @ vs) m"

lemma entry_of_Nil [simp]: "entry_of k [] = []"
  by (simp add: entry_of_def)

lemma entry_of_smap_put: "entry_of k (smap_put k' vs m) = (if k = k' then vs else entry_of k m)"
  by (simp add: entry_of_def)

lemma entry_of_smap_push [simp]: "entry_of k (smap_push k' vs m) = entry_of k m @ (if k = k' then vs else [])"
  by (simp add: smap_push_def entry_of_smap_put)

lemma smap_smap_push: "smap m \<Longrightarrow> smap (smap_push k vs m)"
  by (simp add: smap_push_def smap_smap_put)

lemma dom_smap_push: "fst ` set (smap_push k vs m) = insert k (fst ` set m)"
  by (simp add: smap_push_def set_smap_put)

lemma smap_distinct: "smap m \<Longrightarrow> distinct (map fst m)"
  unfolding smap_def by (induction m) fastforce+

lemma reads_conv: "reads fl d bs v \<Longrightarrow> v = v' \<Longrightarrow> reads fl d bs v'"
  by simp

text \<open>A last field, with the object built from it.\<close>

lemma reads_last [reads_rules]: "reads fl m bs x \<Longrightarrow> reads fl (bind_p m (\<lambda>x. ret (f x))) bs (f x)"
  by (rule reads_bind_same [OF _ reads_ret])

lemma reads_put_all_smap:
  assumes "len_ok fl (length xs)" "\<And>x. x \<in> set xs \<Longrightarrow> reads fl m (w x) x" "smap xs"
  shows "reads fl (put_all (\<lambda>(k, v). smap_put k v) (size32 (length xs)) m []) (concat (map w xs)) xs"
  using reads_loop [of xs fl m w "\<lambda>(k, v). smap_put k v" "[]"] smap_rebuild [of "[]" xs] assms
  by (simp add: put_all_def sint_len)

lemma reads_put_all_alist:
  assumes "len_ok fl (length xs)" "\<And>x. x \<in> set xs \<Longrightarrow> reads fl m (w x) x" "distinct (map fst xs)"
  shows "reads fl (put_all (\<lambda>(k, v). AList.update k v) (size32 (length xs)) m []) (concat (map w xs)) xs"
  using reads_loop [of xs fl m w "\<lambda>(k, v). AList.update k v" "[]"] alist_rebuild [of "[]" xs] assms
  by (simp add: put_all_def sint_len)

text \<open>
  The map of a message: \<open>get_entry\<close> reads a key and its value, \<open>g\<close> is what it sees of an entry (fields that
  the version does not carry have their defaults).
\<close>

lemma reads_loop_seen:
  "(\<And>x. x \<in> set xs \<Longrightarrow> reads fl m (w x) (g x)) \<Longrightarrow>
   reads fl (loop_p (length xs) f m acc) (concat (map w xs)) (fold f (map g xs) acc)"
  by (induction xs arbitrary: acc) (auto intro!: reads_ret reads_bind)

lemma reads_map:
  assumes "len_ok fl (length xs)" "\<And>x. x \<in> set xs \<Longrightarrow> reads fl m (w x) (g x)"
  shows "reads fl (bind_p getArrayLength (\<lambda>n. put_all ins n m init)) (wArray fl w xs) (fold ins (map g xs) init)"
    "reads fl (bind_p (err_as e getArrayLength) (\<lambda>n. put_all ins n m init)) (wArray fl w xs)
      (fold ins (map g xs) init)"
proof -
  have loop: "reads fl (put_all ins (size32 (length xs)) m init) (concat (map w xs)) (fold ins (map g xs) init)"
    unfolding put_all_def using assms by (simp add: sint_len reads_loop_seen)
  note len = reads_getArrayLength [OF assms(1)]
  show "reads fl (bind_p getArrayLength (\<lambda>n. put_all ins n m init)) (wArray fl w xs) (fold ins (map g xs) init)"
    "reads fl (bind_p (err_as e getArrayLength) (\<lambda>n. put_all ins n m init)) (wArray fl w xs)
      (fold ins (map g xs) init)"
    unfolding wArray_def by (rule reads_bind, rule len reads_err_as [OF len], rule loop)+
qed

lemma map_fst_seen: "(\<And>x. x \<in> set xs \<Longrightarrow> fst (g x) = fst x) \<Longrightarrow> map fst (map g xs) = map fst xs"
  by (induction xs) auto

lemma reads_map_smap [reads_rules]:
  assumes "len_ok fl (length xs)" "\<And>x. x \<in> set xs \<Longrightarrow> reads fl m (w x) (g x)" "smap xs"
    and "\<And>x. x \<in> set xs \<Longrightarrow> fst (g x) = fst x"
  shows "reads fl (bind_p getArrayLength (\<lambda>n. put_all (\<lambda>(k, v). smap_put k v) n m [])) (wArray fl w xs) (map g xs)"
    "reads fl (bind_p (err_as e getArrayLength) (\<lambda>n. put_all (\<lambda>(k, v). smap_put k v) n m [])) (wArray fl w xs)
      (map g xs)"
proof -
  have keys: "map fst (map g xs) = map fst xs" using assms(4) by (intro map_fst_seen) simp
  have "smap ([] @ map g xs)" using assms(3) unfolding smap_def append_Nil keys .
  note rebuilt = smap_rebuild [OF this]
  show "reads fl (bind_p getArrayLength (\<lambda>n. put_all (\<lambda>(k, v). smap_put k v) n m [])) (wArray fl w xs) (map g xs)"
    "reads fl (bind_p (err_as e getArrayLength) (\<lambda>n. put_all (\<lambda>(k, v). smap_put k v) n m [])) (wArray fl w xs)
      (map g xs)"
    using reads_map(1) [of fl xs m w g "\<lambda>(k, v). smap_put k v" "[]", OF assms(1,2)]
      reads_map(2) [of fl xs m w g e "\<lambda>(k, v). smap_put k v" "[]", OF assms(1,2)] rebuilt by simp_all
qed

lemma reads_map_alist [reads_rules]:
  assumes "len_ok fl (length xs)" "\<And>x. x \<in> set xs \<Longrightarrow> reads fl m (w x) (g x)" "distinct (map fst xs)"
    and "\<And>x. x \<in> set xs \<Longrightarrow> fst (g x) = fst x"
  shows "reads fl (bind_p getArrayLength (\<lambda>n. put_all (\<lambda>(k, v). AList.update k v) n m [])) (wArray fl w xs) (map g xs)"
    "reads fl (bind_p (err_as e getArrayLength) (\<lambda>n. put_all (\<lambda>(k, v). AList.update k v) n m [])) (wArray fl w xs)
      (map g xs)"
proof -
  have keys: "map fst (map g xs) = map fst xs" using assms(4) by (intro map_fst_seen) simp
  have "distinct (map fst ([] @ map g xs))" using assms(3) unfolding append_Nil keys .
  note rebuilt = alist_rebuild [OF this]
  show "reads fl (bind_p getArrayLength (\<lambda>n. put_all (\<lambda>(k, v). AList.update k v) n m [])) (wArray fl w xs) (map g xs)"
    "reads fl (bind_p (err_as e getArrayLength) (\<lambda>n. put_all (\<lambda>(k, v). AList.update k v) n m [])) (wArray fl w xs)
      (map g xs)"
    using reads_map(1) [of fl xs m w g "\<lambda>(k, v). AList.update k v" "[]", OF assms(1,2)]
      reads_map(2) [of fl xs m w g e "\<lambda>(k, v). AList.update k v" "[]", OF assms(1,2)] rebuilt by simp_all
qed

text \<open>
  \<open>m[topic][partition] = v\<close> for each entry read: a topic that comes twice collects the entries of both.  The
  inner map is the one read for the topic, in the order of its keys.
\<close>

definition smap_merge :: "'k::linorder \<Rightarrow> ('l::linorder \<times> 'v) list \<Rightarrow> ('k \<times> ('l \<times> 'v) list) list \<Rightarrow>
    ('k \<times> ('l \<times> 'v) list) list" where
  "smap_merge k vs m = smap_put k (fold (\<lambda>(l, v). smap_put l v) vs (entry_of k m)) m"

lemma smap_merge_fresh:
  "k \<notin> fst ` set m \<Longrightarrow> smap vs \<Longrightarrow> smap_merge k vs m = smap_put k vs m"
  using smap_rebuild [of "[]" vs] by (auto simp: smap_merge_def entry_of_def map_of_eq_None_iff [THEN iffD2])

lemma smap_merge_rebuild:
  "smap (m @ xs) \<Longrightarrow> \<forall>x \<in> set xs. smap (snd x) \<Longrightarrow> fold (\<lambda>(k, vs). smap_merge k vs) xs m = m @ xs"
proof (induction xs arbitrary: m)
  case (Cons x xs)
  obtain k vs where x: "x = (k, vs)" by (cases x)
  have less: "\<forall>k' \<in> fst ` set m. k' < k" using Cons.prems by (auto simp: smap_def x sorted_wrt_append)
  then have "smap_merge k vs m = m @ [(k, vs)]"
    using Cons.prems by (subst smap_merge_fresh) (auto simp: x intro: smap_put_last)
  then show ?case using Cons.IH [of "m @ [(k, vs)]"] Cons.prems by (simp add: x)
qed simp

lemma reads_map_merge [reads_rules]:
  assumes "len_ok fl (length xs)" "\<And>x. x \<in> set xs \<Longrightarrow> reads fl m (w x) (g x)" "smap xs"
    and "\<And>x. x \<in> set xs \<Longrightarrow> fst (g x) = fst x \<and> smap (snd (g x))"
  shows "reads fl (bind_p getArrayLength (\<lambda>n. put_all (\<lambda>(k, vs). smap_merge k vs) n m [])) (wArray fl w xs) (map g xs)"
    "reads fl (bind_p (err_as e getArrayLength) (\<lambda>n. put_all (\<lambda>(k, vs). smap_merge k vs) n m [])) (wArray fl w xs)
      (map g xs)"
proof -
  have keys: "map fst (map g xs) = map fst xs" using assms(4) by (intro map_fst_seen) simp
  have "smap ([] @ map g xs)" using assms(3) unfolding smap_def append_Nil keys .
  from smap_merge_rebuild [OF this] have rebuilt: "fold (\<lambda>(k, vs). smap_merge k vs) (map g xs) [] = map g xs"
    using assms(4) by simp
  show "reads fl (bind_p getArrayLength (\<lambda>n. put_all (\<lambda>(k, vs). smap_merge k vs) n m [])) (wArray fl w xs) (map g xs)"
    "reads fl (bind_p (err_as e getArrayLength) (\<lambda>n. put_all (\<lambda>(k, vs). smap_merge k vs) n m [])) (wArray fl w xs)
      (map g xs)"
    using reads_map(1) [of fl xs m w g "\<lambda>(k, vs). smap_merge k vs" "[]", OF assms(1,2)]
      reads_map(2) [of fl xs m w g e "\<lambda>(k, vs). smap_merge k vs" "[]", OF assms(1,2)] rebuilt by simp_all
qed

definition alist_merge :: "('l \<Rightarrow> 'v \<Rightarrow> ('l \<times> 'v) list \<Rightarrow> ('l \<times> 'v) list) \<Rightarrow> 'k \<Rightarrow> ('l \<times> 'v) list \<Rightarrow>
    ('k \<times> ('l \<times> 'v) list) list \<Rightarrow> ('k \<times> ('l \<times> 'v) list) list" where
  "alist_merge inner k vs m = AList.update k (fold (\<lambda>(l, v). inner l v) vs (entry_of k m)) m"

lemma entry_of_fresh: "k \<notin> fst ` set m \<Longrightarrow> entry_of k m = []"
  by (simp add: entry_of_def map_of_eq_None_iff [THEN iffD2])

lemma AList_update_fresh: "k \<notin> fst ` set m \<Longrightarrow> AList.update k v m = m @ [(k, v)]"
  by (induction m) auto

lemma alist_merge_rebuild:
  "distinct (map fst (m @ xs)) \<Longrightarrow> \<forall>x \<in> set xs. fold (\<lambda>(l, v). inner l v) (snd x) [] = snd x \<Longrightarrow>
   fold (\<lambda>(k, vs). alist_merge inner k vs) xs m = m @ xs"
proof (induction xs arbitrary: m)
  case (Cons x xs)
  obtain k vs where x: "x = (k, vs)" by (cases x)
  have "k \<notin> fst ` set m" using Cons.prems by (auto simp: x)
  then have "alist_merge inner k vs m = m @ [(k, vs)]"
    using Cons.prems by (simp add: alist_merge_def entry_of_fresh AList_update_fresh x)
  then show ?case using Cons.IH [of "m @ [(k, vs)]"] Cons.prems by (simp add: x)
qed simp

lemma reads_map_alist_merge:
  assumes "len_ok fl (length xs)" "\<And>x. x \<in> set xs \<Longrightarrow> reads fl m (w x) (g x)" "distinct (map fst xs)"
    and "\<And>x. x \<in> set xs \<Longrightarrow> fst (g x) = fst x \<and> fold (\<lambda>(l, v). inner l v) (snd (g x)) [] = snd (g x)"
  shows "reads fl (bind_p getArrayLength (\<lambda>n. put_all (\<lambda>(k, vs). alist_merge inner k vs) n m [])) (wArray fl w xs)
      (map g xs)"
    "reads fl (bind_p (err_as e getArrayLength) (\<lambda>n. put_all (\<lambda>(k, vs). alist_merge inner k vs) n m []))
      (wArray fl w xs) (map g xs)"
proof -
  have keys: "map fst (map g xs) = map fst xs" using assms(4) by (intro map_fst_seen) simp
  have "distinct (map fst ([] @ map g xs))" using assms(3) unfolding append_Nil keys .
  from alist_merge_rebuild [OF this, of inner]
  have rebuilt: "fold (\<lambda>(k, vs). alist_merge inner k vs) (map g xs) [] = map g xs" using assms(4) by simp
  show "reads fl (bind_p getArrayLength (\<lambda>n. put_all (\<lambda>(k, vs). alist_merge inner k vs) n m [])) (wArray fl w xs)
      (map g xs)"
    "reads fl (bind_p (err_as e getArrayLength) (\<lambda>n. put_all (\<lambda>(k, vs). alist_merge inner k vs) n m []))
      (wArray fl w xs) (map g xs)"
    using reads_map(1) [of fl xs m w g "\<lambda>(k, vs). alist_merge inner k vs" "[]", OF assms(1,2)]
      reads_map(2) [of fl xs m w g e "\<lambda>(k, vs). alist_merge inner k vs" "[]", OF assms(1,2)] rebuilt by simp_all
qed

lemma reads_map_alist_smap [reads_rules]:
  assumes "len_ok fl (length xs)" "\<And>x. x \<in> set xs \<Longrightarrow> reads fl m (w x) (g x)" "distinct (map fst xs)"
    and "\<And>x. x \<in> set xs \<Longrightarrow> fst (g x) = fst x \<and> smap (snd (g x))"
  shows "reads fl (bind_p getArrayLength (\<lambda>n. put_all (\<lambda>(k, vs). alist_merge smap_put k vs) n m [])) (wArray fl w xs)
      (map g xs)"
    "reads fl (bind_p (err_as e getArrayLength) (\<lambda>n. put_all (\<lambda>(k, vs). alist_merge smap_put k vs) n m []))
      (wArray fl w xs) (map g xs)"
proof -
  have "fst (g x) = fst x \<and> fold (\<lambda>(l, v). smap_put l v) (snd (g x)) [] = snd (g x)" if "x \<in> set xs" for x
    using assms(4) [OF that] smap_rebuild [of "[]" "snd (g x)"] by simp
  note merge = reads_map_alist_merge [OF assms(1-3) this]
  show "reads fl (bind_p getArrayLength (\<lambda>n. put_all (\<lambda>(k, vs). alist_merge smap_put k vs) n m [])) (wArray fl w xs)
      (map g xs)"
    "reads fl (bind_p (err_as e getArrayLength) (\<lambda>n. put_all (\<lambda>(k, vs). alist_merge smap_put k vs) n m []))
      (wArray fl w xs) (map g xs)"
    by (rule merge; assumption)+
qed

lemma reads_map_alist_alist [reads_rules]:
  assumes "len_ok fl (length xs)" "\<And>x. x \<in> set xs \<Longrightarrow> reads fl m (w x) (g x)" "distinct (map fst xs)"
    and "\<And>x. x \<in> set xs \<Longrightarrow> fst (g x) = fst x \<and> distinct (map fst (snd (g x)))"
  shows "reads fl (bind_p getArrayLength (\<lambda>n. put_all (\<lambda>(k, vs). alist_merge AList.update k vs) n m []))
      (wArray fl w xs) (map g xs)"
    "reads fl (bind_p (err_as e getArrayLength) (\<lambda>n. put_all (\<lambda>(k, vs). alist_merge AList.update k vs) n m []))
      (wArray fl w xs) (map g xs)"
proof -
  have "fst (g x) = fst x \<and> fold (\<lambda>(l, v). AList.update l v) (snd (g x)) [] = snd (g x)" if "x \<in> set xs" for x
    using assms(4) [OF that] alist_rebuild [of "[]" "snd (g x)"] by simp
  note merge = reads_map_alist_merge [OF assms(1-3) this]
  show "reads fl (bind_p getArrayLength (\<lambda>n. put_all (\<lambda>(k, vs). alist_merge AList.update k vs) n m []))
      (wArray fl w xs) (map g xs)"
    "reads fl (bind_p (err_as e getArrayLength) (\<lambda>n. put_all (\<lambda>(k, vs). alist_merge AList.update k vs) n m []))
      (wArray fl w xs) (map g xs)"
    by (rule merge; assumption)+
qed

text \<open>\<open>if (n > 0) { m.clear(); ... }\<close>: without elements the old contents stay.\<close>

lemma reads_bind_cong:
  assumes "reads fl m bs x" "k x = k' x" "reads fl (bind_p m k) (bs @ cs) v"
  shows "reads fl (bind_p m k') (bs @ cs) v"
proof (rule readsI)
  fix pd :: packet_decoder
  assume pd: "(m_flexible pd \<noteq> 0) = fl" "length (pd_raw pd) < 2 ^ 31"
    "pd_offset pd + length (bs @ cs) \<le> length (pd_raw pd)"
    "slice (pd_offset pd) (length (bs @ cs)) (pd_raw pd) = bs @ cs"
  have "m pd = Ok x (advance (length bs) pd)"
    using pd slice_append_left [OF pd(4)] by (intro readsD [OF assms(1)]) auto
  then have "bind_p m k' pd = bind_p m k pd" by (simp add: assms(2))
  then show "bind_p m k' pd = Ok v (advance (length (bs @ cs)) pd)" using readsD [OF assms(3) pd] by simp
qed

lemma reads_when_positive:
  assumes len: "reads fl m (wLen fl (length xs)) n" and n: "0 < sint n \<longleftrightarrow> xs \<noteq> []"
    and body: "xs \<noteq> [] \<Longrightarrow> reads fl (bind_p m P) (wArray fl w xs) v"
  shows "reads fl (bind_p m (\<lambda>n. if 0 < sint n then P n else ret old)) (wArray fl w xs) (if xs = [] then old else v)"
proof (cases "xs = []")
  case True
  then have "reads fl (if 0 < sint n then P n else ret old) [] old" using n by (simp add: reads_ret)
  with len have "reads fl (bind_p m (\<lambda>n. if 0 < sint n then P n else ret old)) (wLen fl (length xs)) old"
    by (rule reads_bind_same)
  then show ?thesis using True by (simp add: wArray_def)
next
  case False
  then have "P n = (if 0 < sint n then P n else ret old)" using n by simp
  with len show ?thesis using body [OF False] False unfolding wArray_def
    by (simp only: if_False) (rule reads_bind_cong)
qed

lemma reads_array_n [reads_rules]:
  assumes "len_ok fl (length xs)"
  shows "(xs \<noteq> [] \<Longrightarrow> reads fl (bind_p getArrayLength P) (wArray fl w xs) v) \<Longrightarrow>
      reads fl (bind_p getArrayLength (\<lambda>n. if 0 < sint n then P n else ret old)) (wArray fl w xs)
        (if xs = [] then old else v)"
    "(xs \<noteq> [] \<Longrightarrow> reads fl (bind_p (err_as e getArrayLength) P) (wArray fl w xs) v) \<Longrightarrow>
      reads fl (bind_p (err_as e getArrayLength) (\<lambda>n. if 0 < sint n then P n else ret old)) (wArray fl w xs)
        (if xs = [] then old else v)"
proof -
  note len = reads_getArrayLength [OF assms]
  have n: "0 < sint (size32 (length xs)) \<longleftrightarrow> xs \<noteq> []" using sint_len [OF assms] by simp
  note steps = reads_when_positive [OF len n] reads_when_positive [OF reads_err_as [OF len] n]
  show "(xs \<noteq> [] \<Longrightarrow> reads fl (bind_p getArrayLength P) (wArray fl w xs) v) \<Longrightarrow>
      reads fl (bind_p getArrayLength (\<lambda>n. if 0 < sint n then P n else ret old)) (wArray fl w xs)
        (if xs = [] then old else v)"
    by (rule steps)
  show "(xs \<noteq> [] \<Longrightarrow> reads fl (bind_p (err_as e getArrayLength) P) (wArray fl w xs) v) \<Longrightarrow>
      reads fl (bind_p (err_as e getArrayLength) (\<lambda>n. if 0 < sint n then P n else ret old)) (wArray fl w xs)
        (if xs = [] then old else v)"
    by (rule steps)
qed

section \<open>Objects that stay half filled\<close>

text \<open>
  A part whose \<^verbatim>\<open>decode\<close> may fail while its owner goes on: the object as it stands when \<^verbatim>\<open>decode\<close> returns, and
  whether it returned \<open>ErrNoError\<close>.  \<open>fail\<close> is what a failing \<open>get\<close> does to the field: integers become \<open>-1\<close>,
  strings and byte arrays stay.
\<close>

definition get_into :: "('s, 'a) prog \<Rightarrow> ('a \<Rightarrow> 'o \<Rightarrow> 'o) \<Rightarrow> ('o \<Rightarrow> 'o) \<Rightarrow> ('o \<Rightarrow> ('s, 'o \<times> bool) prog) \<Rightarrow>
    'o \<Rightarrow> ('s, 'o \<times> bool) prog" where
  "get_into m upd fail k this = (\<lambda>s.
     case m s of Ok x s' \<Rightarrow> k (upd x this) s' | Err _ s' \<Rightarrow> Ok (fail this, False) s' | Abort \<Rightarrow> Abort)"

definition get_into_if :: "bool \<Rightarrow> ('s, 'a) prog \<Rightarrow> ('a \<Rightarrow> 'o \<Rightarrow> 'o) \<Rightarrow> ('o \<Rightarrow> 'o) \<Rightarrow> ('o \<Rightarrow> ('s, 'o \<times> bool) prog) \<Rightarrow>
    'o \<Rightarrow> ('s, 'o \<times> bool) prog" where
  "get_into_if b m upd fail k this = (if b then get_into m upd fail k this else k this)"

definition got :: "'o \<Rightarrow> ('s, 'o \<times> bool) prog" where
  "got this = ret (this, True)"

lemma reads_get_into:
  assumes "reads fl m bs v" "reads fl (k (upd v this)) cs y" shows "reads fl (get_into m upd fail k this) (bs @ cs) y"
proof -
  have "get_into m upd fail k this s = bind_p m (\<lambda>v. k (upd v this)) s" if "\<exists>s'. m s = Ok v s'" for s
    using that by (auto simp: get_into_def bind_p_def)
  moreover have "reads fl (bind_p m (\<lambda>v. k (upd v this))) (bs @ cs) y" by (rule reads_bind, fact assms(1), fact assms(2))
  moreover have "\<exists>s'. m pd = Ok v s'" if "(m_flexible pd \<noteq> 0) = fl" "length (pd_raw pd) < 2 ^ 31"
    "pd_offset pd + length (bs @ cs) \<le> length (pd_raw pd)"
    "slice (pd_offset pd) (length (bs @ cs)) (pd_raw pd) = bs @ cs" for pd
    using readsD [OF assms(1), of pd] that slice_append_left [OF that(4)] by auto
  ultimately show ?thesis unfolding reads_def by metis
qed

lemma reads_get_into_last:
  "reads fl m bs v \<Longrightarrow> reads fl (get_into m upd fail got this) bs (upd v this, True)"
  using reads_get_into [of fl m bs v got upd this "[]"] by (simp add: got_def reads_ret)

lemma reads_get_into_if:
  "(b \<Longrightarrow> reads fl m bs v) \<Longrightarrow> reads fl (k (if b then upd v this else this)) cs y \<Longrightarrow>
   reads fl (get_into_if b m upd fail k this) ((if b then bs else []) @ cs) y"
  using reads_get_into [of fl m bs v k upd this cs y] by (cases b) (simp_all add: get_into_if_def)

lemmas into_rules = reads_get_into_last reads_get_into_if reads_get_into

section \<open>Arrays of strings\<close>

text \<open>
  In the flexible format the sizing pass of \<^verbatim>\<open>putStringArray\<close> counts four bytes a string; a message with such an
  array keeps its contract only if that is its size.
\<close>

definition strings_ok :: "bool \<Rightarrow> bytes list \<Rightarrow> bool" where
  "strings_ok fl ss \<longleftrightarrow> len_ok fl (length ss) \<and> (\<forall>s \<in> set ss. string_ok fl s) \<and>
     (fl \<longrightarrow> length (concat (map (wString True) ss)) = 4 * length ss)"

lemma emits_strings [emits_rules]: "strings_ok fl ss \<Longrightarrow> emits fl (putStringArray ss) (wStringArray fl ss)"
  by (rule emits_putStringArray) (auto simp: strings_ok_def)

lemma reads_strings [reads_rules]: "strings_ok fl ss \<Longrightarrow> reads fl getStringArray (wStringArray fl ss) ss"
  by (rule reads_getStringArray) (auto simp: strings_ok_def)

lemma wStringArray_nonempty [simp]: "wStringArray fl ss \<noteq> []"
  by (simp add: wStringArray_def wLen_def be32_def wCompact_def)

section \<open>Refusals\<close>

text \<open>\<open>d\<close> gives up with error \<open>e\<close> on a packet in which \<open>bs\<close> comes next.\<close>

definition refuses :: "bool \<Rightarrow> 'a dec \<Rightarrow> bytes \<Rightarrow> int \<Rightarrow> bool" where
  "refuses fl d bs e \<longleftrightarrow>
     (\<forall>pd. (m_flexible pd \<noteq> 0) = fl \<and> length (pd_raw pd) < 2 ^ 31 \<and>
        pd_offset pd + length bs \<le> length (pd_raw pd) \<and>
        slice (pd_offset pd) (length bs) (pd_raw pd) = bs \<longrightarrow> (\<exists>pd'. d pd = Err e pd' \<and> m_flexible pd' = m_flexible pd))"

lemma refusesD:
  "refuses fl d bs e \<Longrightarrow> (m_flexible pd \<noteq> 0) = fl \<Longrightarrow> length (pd_raw pd) < 2 ^ 31 \<Longrightarrow>
   pd_offset pd + length bs \<le> length (pd_raw pd) \<Longrightarrow> slice (pd_offset pd) (length bs) (pd_raw pd) = bs \<Longrightarrow>
   \<exists>pd'. d pd = Err e pd' \<and> m_flexible pd' = m_flexible pd"
  by (simp add: refuses_def)

lemma refuses_raise: "refuses fl (raise e) bs e"
  by (simp add: refuses_def raise_def)

lemma refuses_after:
  assumes m: "reads fl m bs x" and k: "refuses fl (k x) cs e"
  shows "refuses fl (bind_p m k) (bs @ cs) e"
  unfolding refuses_def
proof (intro allI impI)
  fix pd :: packet_decoder
  assume pd: "(m_flexible pd \<noteq> 0) = fl \<and> length (pd_raw pd) < 2 ^ 31 \<and>
    pd_offset pd + length (bs @ cs) \<le> length (pd_raw pd) \<and>
    slice (pd_offset pd) (length (bs @ cs)) (pd_raw pd) = bs @ cs"
  then have sl: "slice (pd_offset pd) (length (bs @ cs)) (pd_raw pd) = bs @ cs" by blast
  have "m pd = Ok x (advance (length bs) pd)"
    using pd slice_append_left [OF sl] by (intro readsD [OF m]) auto
  moreover have "\<exists>pd'. k x (advance (length bs) pd) = Err e pd' \<and> m_flexible pd' = m_flexible pd"
    using refusesD [OF k, of "advance (length bs) pd"] pd slice_append_right [OF sl] by (auto simp: advance_def)
  ultimately show "\<exists>pd'. bind_p m k pd = Err e pd' \<and> m_flexible pd' = m_flexible pd" by simp
qed

lemma refuses_after_last:
  "reads fl m bs x \<Longrightarrow> refuses fl (k x) [] e \<Longrightarrow> refuses fl (bind_p m k) bs e"
  using refuses_after [of fl m bs x k "[]" e] by simp

lemma refuses_more:
  assumes m: "refuses fl m bs e" shows "refuses fl m (bs @ cs) e"
  unfolding refuses_def
proof (intro allI impI)
  fix pd :: packet_decoder
  assume pd: "(m_flexible pd \<noteq> 0) = fl \<and> length (pd_raw pd) < 2 ^ 31 \<and>
    pd_offset pd + length (bs @ cs) \<le> length (pd_raw pd) \<and>
    slice (pd_offset pd) (length (bs @ cs)) (pd_raw pd) = bs @ cs"
  then have sl: "slice (pd_offset pd) (length (bs @ cs)) (pd_raw pd) = bs @ cs" by blast
  show "\<exists>pd'. m pd = Err e pd' \<and> m_flexible pd' = m_flexible pd" using pd m slice_append_left [OF sl] unfolding refuses_def by auto
qed

lemma refuses_bind: "refuses fl m bs e \<Longrightarrow> refuses fl (bind_p m k) bs e"
  by (fastforce simp: refuses_def bind_p_def)

lemma refuses_err_as: "refuses fl m bs e' \<Longrightarrow> refuses fl (err_as e m) bs e"
  by (fastforce simp: refuses_def err_as_def)

text \<open>One refused element ends the array.\<close>

lemma refuses_replicate:
  assumes "\<And>x. x \<in> set xs \<Longrightarrow> reads fl m (w x) (g x)" "refuses fl m (w y) e"
  shows "refuses fl (replicate_p (Suc (length xs + n)) m) (concat (map w xs) @ w y @ rest) e"
  using assms(1)
proof (induction xs)
  case Nil
  then show ?case by (simp add: refuses_bind refuses_more assms(2))
next
  case (Cons x xs)
  then have "refuses fl (replicate_p (Suc (length xs + n)) m) (concat (map w xs) @ w y @ rest) e" by simp
  with refuses_after [OF Cons.prems [of x] refuses_bind] show ?case by simp
qed

lemma decode_refuses:
  assumes "refuses False (prepare_flexible_decoder vd version) bs e" "bs \<noteq> []" "length bs < 2 ^ 31"
  shows "decode_version bs vd version = Err e ()"
proof -
  have "slice (pd_offset (new_decoder bs)) (length bs) (pd_raw (new_decoder bs)) = bs"
    "m_flexible (new_decoder bs) = 0" "length (pd_raw (new_decoder bs)) = length bs" "pd_offset (new_decoder bs) = 0"
    by (simp_all add: new_decoder_def slice_def)
  then obtain pd' where "prepare_flexible_decoder vd version (new_decoder bs) = Err e pd'"
    using assms(1,3) unfolding refuses_def by force
  then show ?thesis using assms(2) by (simp add: decode_version_def)
qed

lemma refuses_with_flexible: "refuses True d bs e \<Longrightarrow> refuses False (with_flexible d) bs e"
  unfolding refuses_def
proof (intro allI impI)
  fix pd :: packet_decoder
  assume d: "\<forall>pd. (m_flexible pd \<noteq> 0) = True \<and> length (pd_raw pd) < 2 ^ 31 \<and>
      pd_offset pd + length bs \<le> length (pd_raw pd) \<and> slice (pd_offset pd) (length bs) (pd_raw pd) = bs \<longrightarrow>
      (\<exists>pd'. d pd = Err e pd' \<and> m_flexible pd' = m_flexible pd)"
    and pd: "(m_flexible pd \<noteq> 0) = False \<and> length (pd_raw pd) < 2 ^ 31 \<and>
      pd_offset pd + length bs \<le> length (pd_raw pd) \<and> slice (pd_offset pd) (length bs) (pd_raw pd) = bs"
  then obtain pd' where "d (push_flexible pd) = Err e pd'" "m_flexible pd' = m_flexible (push_flexible pd)"
    using d [rule_format, of "push_flexible pd"] by (auto simp: push_flexible_def)
  then show "\<exists>pd'. with_flexible d pd = Err e pd' \<and> m_flexible pd' = m_flexible pd"
    using pd by (simp add: with_flexible_def pop_flexible_def push_flexible_def)
qed

section \<open>Version negotiation\<close>

text \<open>
  \<^verbatim>\<open>RestrictApiVersion\<close> (\<^verbatim>\<open>api_versions.h\<close>): the version a body is set to, given the ranges the broker
  advertised by API key.  \<open>std_min\<close> and \<open>std_max\<close> compare as \<open>int16_t\<close>.
\<close>

definition std_min :: "int16 \<Rightarrow> int16 \<Rightarrow> int16" where
  "std_min a b = (if sint b < sint a then b else a)"

definition std_max :: "int16 \<Rightarrow> int16 \<Rightarrow> int16" where
  "std_max a b = (if sint a < sint b then b else a)"

definition RestrictApiVersion :: "protocol_body \<Rightarrow> (int16 \<times> int16 \<times> int16) list \<Rightarrow> int16" where
  "RestrictApiVersion pb brokerVersions =
     (case map_of brokerVersions (pb_key pb) of
        None \<Rightarrow> pb_version pb
      | Some (m_min, m_max) \<Rightarrow> std_min (pb_version pb) (std_max m_min (std_min (pb_version pb) m_max)))"

lemma RestrictApiVersion_range:
  assumes "map_of ranges (pb_key pb) = Some (lo, hi)" "sint lo \<le> sint hi" "sint lo \<le> sint (pb_version pb)"
  shows "sint lo \<le> sint (RestrictApiVersion pb ranges)" "sint (RestrictApiVersion pb ranges) \<le> sint hi"
    "sint (RestrictApiVersion pb ranges) \<le> sint (pb_version pb)"
    "sint v \<le> sint hi \<Longrightarrow> sint v \<le> sint (pb_version pb) \<Longrightarrow> sint v \<le> sint (RestrictApiVersion pb ranges)"
  using assms by (auto simp: RestrictApiVersion_def std_min_def std_max_def)

lemma RestrictApiVersion_too_old:
  "map_of ranges (pb_key pb) = Some (lo, hi) \<Longrightarrow> sint (pb_version pb) < sint lo \<Longrightarrow>
   RestrictApiVersion pb ranges = pb_version pb"
  by (auto simp: RestrictApiVersion_def std_min_def std_max_def)

end
