(* ===== verification/Group_Messages.thy ===== *)
theory Group_Messages
  imports Protocol
begin

text \<open>
  The messages of the group membership protocol: \<^verbatim>\<open>heartbeat_*.cpp\<close>, \<^verbatim>\<open>leave_group_*.cpp\<close>,
  \<^verbatim>\<open>sync_group_*.cpp\<close>, \<^verbatim>\<open>join_group_*.cpp\<close>.

  A class is a record with its fields (the prefix names the class), \<open>_encode\<close> and \<open>_decode\<close> are its two
  methods, \<open>_body\<close> fills in the virtual methods.  \<open>w...\<close> is the layout of the Kafka protocol, \<open>_ok\<close> says
  which objects fit it, \<open>_seen\<close> what a decoding object holds afterwards.  The numbers of the API keys are
  those of \<^verbatim>\<open>api_versions.h\<close>.  A \<open>std::chrono::milliseconds\<close> is its 64-bit count.  Decoding the metadata and
  assignments that a member carries as bytes (\<^verbatim>\<open>get_members\<close>, \<^verbatim>\<open>GetMemberAssignment\<close>) is not modelled here.
\<close>

section \<open>Heartbeat\<close>

record HeartbeatRequest =
  hbq_version :: int16
  hbq_group_id :: bytes
  hbq_generation_id :: int32
  hbq_member_id :: bytes
  hbq_group_instance_id :: bytes

definition HeartbeatRequest_set_version :: "int16 \<Rightarrow> HeartbeatRequest \<Rightarrow> HeartbeatRequest" where
  "HeartbeatRequest_set_version v m = m\<lparr>hbq_version := v\<rparr>"

definition HeartbeatRequest_encode :: "HeartbeatRequest \<Rightarrow> unit enc" where
  "HeartbeatRequest_encode m =
     then_p (putString (hbq_group_id m))
    (then_p (putInt32 (hbq_generation_id m))
    (then_p (putString (hbq_member_id m))
    (then_p (when_p (sint (hbq_version m) \<ge> 3) (putNullableString (hbq_group_instance_id m)))
       putEmptyTaggedFieldArray)))"

definition HeartbeatRequest_decode :: "HeartbeatRequest \<Rightarrow> int16 \<Rightarrow> HeartbeatRequest dec" where
  "HeartbeatRequest_decode this version =
     bind_p getString (\<lambda>group_id.
     bind_p getInt32 (\<lambda>generation_id.
     bind_p getString (\<lambda>member_id.
     bind_p (field_if (sint version \<ge> 3) getNullableString (hbq_group_instance_id this)) (\<lambda>instance_id.
       tags_then \<lparr>hbq_version = version, hbq_group_id = group_id, hbq_generation_id = generation_id,
         hbq_member_id = member_id, hbq_group_instance_id = instance_id\<rparr>))))"

definition HeartbeatRequest_is_flexible_version :: "int16 \<Rightarrow> bool" where
  "HeartbeatRequest_is_flexible_version ver \<longleftrightarrow> sint ver \<ge> 4"

definition HeartbeatRequest_required_version :: "int16 \<Rightarrow> KafkaVersion" where
  "HeartbeatRequest_required_version v =
     (if v = 4 then V2_4_0_0 else if v = 3 then V2_3_0_0 else if v = 2 then V2_0_0_0 else
      if v = 1 then V0_11_0_0 else if v = 0 then V0_8_2_0 else V2_3_0_0)"

definition HeartbeatRequest_body :: "HeartbeatRequest \<Rightarrow> protocol_body" where
  "HeartbeatRequest_body m =
     \<lparr>pb_key = 12, pb_version = hbq_version m,
      pb_header_version = (if sint (hbq_version m) \<ge> 4 then 2 else 1),
      pb_is_valid_version = (sint (hbq_version m) \<ge> 0 \<and> sint (hbq_version m) \<le> 4),
      pb_is_flexible = HeartbeatRequest_is_flexible_version (hbq_version m),
      pb_is_flexible_version = HeartbeatRequest_is_flexible_version,
      pb_required_version = HeartbeatRequest_required_version (hbq_version m),
      pb_encode = HeartbeatRequest_encode m\<rparr>"

definition wHeartbeatRequest :: "HeartbeatRequest \<Rightarrow> bytes" where
  "wHeartbeatRequest m =
     (let fl = HeartbeatRequest_is_flexible_version (hbq_version m) in
      wString fl (hbq_group_id m) @ be32 (hbq_generation_id m) @ wString fl (hbq_member_id m) @
      (if sint (hbq_version m) \<ge> 3 then wNullableString fl (hbq_group_instance_id m) else []) @ wTags fl)"

definition HeartbeatRequest_ok :: "HeartbeatRequest \<Rightarrow> bool" where
  "HeartbeatRequest_ok m \<longleftrightarrow>
     (let fl = HeartbeatRequest_is_flexible_version (hbq_version m) in
      string_ok fl (hbq_group_id m) \<and> string_ok fl (hbq_member_id m) \<and> string_ok fl (hbq_group_instance_id m))"

definition HeartbeatRequest_seen :: "HeartbeatRequest \<Rightarrow> HeartbeatRequest \<Rightarrow> HeartbeatRequest" where
  "HeartbeatRequest_seen this m =
     (if sint (hbq_version m) \<ge> 3 then m else m\<lparr>hbq_group_instance_id := hbq_group_instance_id this\<rparr>)"

interpretation hbq: protocol_message HeartbeatRequest_body HeartbeatRequest_decode wHeartbeatRequest HeartbeatRequest_ok HeartbeatRequest_seen
proof
  fix m this :: HeartbeatRequest
  assume ok: "HeartbeatRequest_ok m"
  show "emits (pb_is_flexible (HeartbeatRequest_body m)) (pb_encode (HeartbeatRequest_body m)) (wHeartbeatRequest m)"
    unfolding HeartbeatRequest_body_def HeartbeatRequest_encode_def wHeartbeatRequest_def Let_def protocol_body.simps 
    by (intro emits_rules; use ok in \<open>auto simp: HeartbeatRequest_ok_def Let_def \<close>)
  show "reads (pb_is_flexible (HeartbeatRequest_body m)) (HeartbeatRequest_decode this (pb_version (HeartbeatRequest_body m)))
      (wHeartbeatRequest m) (HeartbeatRequest_seen this m)"
    unfolding HeartbeatRequest_body_def HeartbeatRequest_decode_def wHeartbeatRequest_def Let_def protocol_body.simps wArray_def 
    by (rule reads_conv, (rule reads_rules | (use ok in \<open>auto simp: HeartbeatRequest_ok_def Let_def 
      HeartbeatRequest_seen_def ; fail\<close>))+)
qed (simp_all add: HeartbeatRequest_body_def wHeartbeatRequest_def Let_def)

record HeartbeatResponse =
  hbr_version :: int16
  hbr_throttle_time :: int64
  hbr_err :: int16

definition HeartbeatResponse_set_version :: "int16 \<Rightarrow> HeartbeatResponse \<Rightarrow> HeartbeatResponse" where
  "HeartbeatResponse_set_version v m = m\<lparr>hbr_version := v\<rparr>"

definition HeartbeatResponse_encode :: "HeartbeatResponse \<Rightarrow> unit enc" where
  "HeartbeatResponse_encode m =
     then_p (when_p (sint (hbr_version m) \<ge> 1) (putDurationMs (hbr_throttle_time m)))
    (then_p (putKError (hbr_err m))
       putEmptyTaggedFieldArray)"

definition HeartbeatResponse_decode :: "HeartbeatResponse \<Rightarrow> int16 \<Rightarrow> HeartbeatResponse dec" where
  "HeartbeatResponse_decode this version =
     bind_p (field_if (sint version \<ge> 1) getDurationMs (hbr_throttle_time this)) (\<lambda>throttle.
     bind_p getKError (\<lambda>err.
       tags_then \<lparr>hbr_version = version, hbr_throttle_time = throttle, hbr_err = err\<rparr>))"

definition HeartbeatResponse_is_flexible_version :: "int16 \<Rightarrow> bool" where
  "HeartbeatResponse_is_flexible_version ver \<longleftrightarrow> sint ver \<ge> 4"

definition HeartbeatResponse_required_version :: "int16 \<Rightarrow> KafkaVersion" where
  "HeartbeatResponse_required_version v =
     (if v = 4 then V2_4_0_0 else if v = 3 then V2_3_0_0 else if v = 2 then V2_0_0_0 else
      if v = 1 then V0_11_0_0 else if v = 0 then V0_8_2_0 else V2_3_0_0)"

definition HeartbeatResponse_body :: "HeartbeatResponse \<Rightarrow> protocol_body" where
  "HeartbeatResponse_body m =
     \<lparr>pb_key = 12, pb_version = hbr_version m,
      pb_header_version = (if sint (hbr_version m) \<ge> 4 then 1 else 0),
      pb_is_valid_version = (sint (hbr_version m) \<ge> 0 \<and> sint (hbr_version m) \<le> 4),
      pb_is_flexible = HeartbeatResponse_is_flexible_version (hbr_version m),
      pb_is_flexible_version = HeartbeatResponse_is_flexible_version,
      pb_required_version = HeartbeatResponse_required_version (hbr_version m),
      pb_encode = HeartbeatResponse_encode m\<rparr>"

definition wHeartbeatResponse :: "HeartbeatResponse \<Rightarrow> bytes" where
  "wHeartbeatResponse m =
     (let fl = HeartbeatResponse_is_flexible_version (hbr_version m) in
      (if sint (hbr_version m) \<ge> 1 then wDurationMs (hbr_throttle_time m) else []) @
      be16 (hbr_err m) @ wTags fl)"

definition HeartbeatResponse_ok :: "HeartbeatResponse \<Rightarrow> bool" where
  "HeartbeatResponse_ok m \<longleftrightarrow>
     duration_ok (hbr_throttle_time m)"

definition HeartbeatResponse_seen :: "HeartbeatResponse \<Rightarrow> HeartbeatResponse \<Rightarrow> HeartbeatResponse" where
  "HeartbeatResponse_seen this m =
     (if sint (hbr_version m) \<ge> 1 then m else m\<lparr>hbr_throttle_time := hbr_throttle_time this\<rparr>)"

interpretation hbr: protocol_message HeartbeatResponse_body HeartbeatResponse_decode wHeartbeatResponse HeartbeatResponse_ok HeartbeatResponse_seen
proof
  fix m this :: HeartbeatResponse
  assume ok: "HeartbeatResponse_ok m"
  show "emits (pb_is_flexible (HeartbeatResponse_body m)) (pb_encode (HeartbeatResponse_body m)) (wHeartbeatResponse m)"
    unfolding HeartbeatResponse_body_def HeartbeatResponse_encode_def wHeartbeatResponse_def Let_def protocol_body.simps 
    by (intro emits_rules; use ok in \<open>auto simp: HeartbeatResponse_ok_def Let_def \<close>)
  show "reads (pb_is_flexible (HeartbeatResponse_body m)) (HeartbeatResponse_decode this (pb_version (HeartbeatResponse_body m)))
      (wHeartbeatResponse m) (HeartbeatResponse_seen this m)"
    unfolding HeartbeatResponse_body_def HeartbeatResponse_decode_def wHeartbeatResponse_def Let_def protocol_body.simps wArray_def 
    by (rule reads_conv, (rule reads_rules | (use ok in \<open>auto simp: HeartbeatResponse_ok_def Let_def 
      HeartbeatResponse_seen_def ; fail\<close>))+)
qed (simp_all add: HeartbeatResponse_body_def wHeartbeatResponse_def Let_def)

section \<open>Leaving\<close>

record MemberIdentity =
  mi_member_id :: bytes
  mi_group_instance_id :: bytes

definition MemberIdentity_encode :: "MemberIdentity \<Rightarrow> unit enc" where
  "MemberIdentity_encode x =
     then_p (putString (mi_member_id x))
    (then_p (putNullableString (mi_group_instance_id x))
       putEmptyTaggedFieldArray)"

definition MemberIdentity_decode :: "MemberIdentity dec" where
  "MemberIdentity_decode =
     bind_p getString (\<lambda>member_id.
     bind_p getNullableString (\<lambda>instance_id.
       tags_then \<lparr>mi_member_id = member_id, mi_group_instance_id = instance_id\<rparr>))"

definition wMemberIdentity :: "bool \<Rightarrow> MemberIdentity \<Rightarrow> bytes" where
  "wMemberIdentity fl x = wString fl (mi_member_id x) @ wNullableString fl (mi_group_instance_id x) @ wTags fl"

definition MemberIdentity_ok :: "bool \<Rightarrow> MemberIdentity \<Rightarrow> bool" where
  "MemberIdentity_ok fl x \<longleftrightarrow> string_ok fl (mi_member_id x) \<and> string_ok fl (mi_group_instance_id x)"

lemma emits_MemberIdentity [emits_rules]: "MemberIdentity_ok fl x \<Longrightarrow> emits fl (MemberIdentity_encode x) (wMemberIdentity fl x)"
  unfolding MemberIdentity_encode_def wMemberIdentity_def MemberIdentity_ok_def by (intro emits_rules) simp_all

lemma reads_MemberIdentity [reads_rules]:
  assumes "MemberIdentity_ok fl x" shows "reads fl MemberIdentity_decode (wMemberIdentity fl x) x"
  unfolding MemberIdentity_decode_def wMemberIdentity_def
  by (rule reads_conv, (rule reads_rules | (use assms in \<open>simp add: MemberIdentity_ok_def; fail\<close>))+)

record LeaveGroupRequest =
  lgq_version :: int16
  lgq_group_id :: bytes
  lgq_member_id :: bytes
  lgq_members :: "MemberIdentity list"

definition LeaveGroupRequest_set_version :: "int16 \<Rightarrow> LeaveGroupRequest \<Rightarrow> LeaveGroupRequest" where
  "LeaveGroupRequest_set_version v m = m\<lparr>lgq_version := v\<rparr>"

definition LeaveGroupRequest_encode :: "LeaveGroupRequest \<Rightarrow> unit enc" where
  "LeaveGroupRequest_encode m =
     then_p (putString (lgq_group_id m))
    (then_p (when_p (sint (lgq_version m) < 3) (putString (lgq_member_id m)))
    (then_p (when_p (sint (lgq_version m) \<ge> 3)
              (then_p (putArrayLength (size32 (length (lgq_members m)))) (for_each MemberIdentity_encode (lgq_members m))))
       putEmptyTaggedFieldArray))"

definition LeaveGroupRequest_decode :: "LeaveGroupRequest \<Rightarrow> int16 \<Rightarrow> LeaveGroupRequest dec" where
  "LeaveGroupRequest_decode this version =
     bind_p getString (\<lambda>group_id.
     bind_p (field_if (sint version < 3) getString (lgq_member_id this)) (\<lambda>member_id.
     bind_p (field_if (sint version \<ge> 3)
              (bind_p getArrayLength (\<lambda>n. resize_read n MemberIdentity_decode)) (lgq_members this)) (\<lambda>members.
       tags_then \<lparr>lgq_version = version, lgq_group_id = group_id, lgq_member_id = member_id,
         lgq_members = members\<rparr>)))"

definition LeaveGroupRequest_is_flexible_version :: "int16 \<Rightarrow> bool" where
  "LeaveGroupRequest_is_flexible_version ver \<longleftrightarrow> sint ver \<ge> 4"

definition LeaveGroupRequest_required_version :: "int16 \<Rightarrow> KafkaVersion" where
  "LeaveGroupRequest_required_version v =
     (if v = 4 then V2_4_0_0 else if v = 3 then V2_4_0_0 else if v = 2 then V2_0_0_0 else
      if v = 1 then V0_11_0_0 else if v = 0 then V0_9_0_0 else V2_4_0_0)"

definition LeaveGroupRequest_body :: "LeaveGroupRequest \<Rightarrow> protocol_body" where
  "LeaveGroupRequest_body m =
     \<lparr>pb_key = 13, pb_version = lgq_version m,
      pb_header_version = (if sint (lgq_version m) \<ge> 4 then 2 else 1),
      pb_is_valid_version = (sint (lgq_version m) \<ge> 0 \<and> sint (lgq_version m) \<le> 4),
      pb_is_flexible = LeaveGroupRequest_is_flexible_version (lgq_version m),
      pb_is_flexible_version = LeaveGroupRequest_is_flexible_version,
      pb_required_version = LeaveGroupRequest_required_version (lgq_version m),
      pb_encode = LeaveGroupRequest_encode m\<rparr>"

definition wLeaveGroupRequest :: "LeaveGroupRequest \<Rightarrow> bytes" where
  "wLeaveGroupRequest m =
     (let fl = LeaveGroupRequest_is_flexible_version (lgq_version m) in
      wString fl (lgq_group_id m) @ (if sint (lgq_version m) < 3 then wString fl (lgq_member_id m) else []) @
      (if sint (lgq_version m) \<ge> 3 then wArray fl (wMemberIdentity fl) (lgq_members m) else []) @ wTags fl)"

definition LeaveGroupRequest_ok :: "LeaveGroupRequest \<Rightarrow> bool" where
  "LeaveGroupRequest_ok m \<longleftrightarrow>
     (let fl = LeaveGroupRequest_is_flexible_version (lgq_version m) in
      string_ok fl (lgq_group_id m) \<and> string_ok fl (lgq_member_id m) \<and> len_ok fl (length (lgq_members m)) \<and>
      (\<forall>x \<in> set (lgq_members m). MemberIdentity_ok fl x))"

definition LeaveGroupRequest_seen :: "LeaveGroupRequest \<Rightarrow> LeaveGroupRequest \<Rightarrow> LeaveGroupRequest" where
  "LeaveGroupRequest_seen this m =
     (if sint (lgq_version m) \<ge> 3 then m\<lparr>lgq_member_id := lgq_member_id this\<rparr>
      else m\<lparr>lgq_members := lgq_members this\<rparr>)"

interpretation lgq: protocol_message LeaveGroupRequest_body LeaveGroupRequest_decode wLeaveGroupRequest LeaveGroupRequest_ok LeaveGroupRequest_seen
proof
  fix m this :: LeaveGroupRequest
  assume ok: "LeaveGroupRequest_ok m"
  show "emits (pb_is_flexible (LeaveGroupRequest_body m)) (pb_encode (LeaveGroupRequest_body m)) (wLeaveGroupRequest m)"
    unfolding LeaveGroupRequest_body_def LeaveGroupRequest_encode_def wLeaveGroupRequest_def Let_def protocol_body.simps 
    by (intro emits_rules; use ok in \<open>auto simp: LeaveGroupRequest_ok_def Let_def \<close>)
  show "reads (pb_is_flexible (LeaveGroupRequest_body m)) (LeaveGroupRequest_decode this (pb_version (LeaveGroupRequest_body m)))
      (wLeaveGroupRequest m) (LeaveGroupRequest_seen this m)"
    unfolding LeaveGroupRequest_body_def LeaveGroupRequest_decode_def wLeaveGroupRequest_def Let_def protocol_body.simps wArray_def 
    by (rule reads_conv, (rule reads_rules | (use ok in \<open>auto simp: LeaveGroupRequest_ok_def Let_def 
      LeaveGroupRequest_seen_def ; fail\<close>))+)
qed (simp_all add: LeaveGroupRequest_body_def wLeaveGroupRequest_def Let_def)

record MemberResponse =
  mr_member_id :: bytes
  mr_group_instance_id :: bytes
  mr_err :: int16

definition MemberResponse_encode :: "MemberResponse \<Rightarrow> unit enc" where
  "MemberResponse_encode x =
     then_p (putString (mr_member_id x))
    (then_p (putNullableString (mr_group_instance_id x))
    (then_p (putKError (mr_err x))
       putEmptyTaggedFieldArray))"

definition MemberResponse_decode :: "MemberResponse dec" where
  "MemberResponse_decode =
     bind_p getString (\<lambda>member_id.
     bind_p getNullableString (\<lambda>instance_id.
     bind_p getKError (\<lambda>err.
       tags_then \<lparr>mr_member_id = member_id, mr_group_instance_id = instance_id, mr_err = err\<rparr>)))"

definition wMemberResponse :: "bool \<Rightarrow> MemberResponse \<Rightarrow> bytes" where
  "wMemberResponse fl x = wString fl (mr_member_id x) @ wNullableString fl (mr_group_instance_id x) @ be16 (mr_err x) @ wTags fl"

definition MemberResponse_ok :: "bool \<Rightarrow> MemberResponse \<Rightarrow> bool" where
  "MemberResponse_ok fl x \<longleftrightarrow> string_ok fl (mr_member_id x) \<and> string_ok fl (mr_group_instance_id x)"

lemma emits_MemberResponse [emits_rules]: "MemberResponse_ok fl x \<Longrightarrow> emits fl (MemberResponse_encode x) (wMemberResponse fl x)"
  unfolding MemberResponse_encode_def wMemberResponse_def MemberResponse_ok_def by (intro emits_rules) simp_all

lemma reads_MemberResponse [reads_rules]:
  assumes "MemberResponse_ok fl x" shows "reads fl MemberResponse_decode (wMemberResponse fl x) x"
  unfolding MemberResponse_decode_def wMemberResponse_def
  by (rule reads_conv, (rule reads_rules | (use assms in \<open>simp add: MemberResponse_ok_def; fail\<close>))+)

record LeaveGroupResponse =
  lgr_version :: int16
  lgr_throttle_time :: int64
  lgr_err :: int16
  lgr_member_responses :: "MemberResponse list"

definition LeaveGroupResponse_set_version :: "int16 \<Rightarrow> LeaveGroupResponse \<Rightarrow> LeaveGroupResponse" where
  "LeaveGroupResponse_set_version v m = m\<lparr>lgr_version := v\<rparr>"

definition LeaveGroupResponse_encode :: "LeaveGroupResponse \<Rightarrow> unit enc" where
  "LeaveGroupResponse_encode m =
     then_p (when_p (sint (lgr_version m) \<ge> 1) (putDurationMs (lgr_throttle_time m)))
    (then_p (putKError (lgr_err m))
    (then_p (when_p (sint (lgr_version m) \<ge> 3)
              (then_p (putArrayLength (size32 (length (lgr_member_responses m))))
                      (for_each MemberResponse_encode (lgr_member_responses m))))
       putEmptyTaggedFieldArray))"

definition LeaveGroupResponse_decode :: "LeaveGroupResponse \<Rightarrow> int16 \<Rightarrow> LeaveGroupResponse dec" where
  "LeaveGroupResponse_decode this version =
     bind_p (field_if (sint version \<ge> 1) getDurationMs (lgr_throttle_time this)) (\<lambda>throttle.
     bind_p getKError (\<lambda>err.
     bind_p (field_if (sint version \<ge> 3)
              (bind_p getArrayLength (\<lambda>n. resize_read n MemberResponse_decode)) (lgr_member_responses this)) (\<lambda>members.
       tags_then \<lparr>lgr_version = version, lgr_throttle_time = throttle, lgr_err = err,
         lgr_member_responses = members\<rparr>)))"

definition LeaveGroupResponse_is_flexible_version :: "int16 \<Rightarrow> bool" where
  "LeaveGroupResponse_is_flexible_version ver \<longleftrightarrow> sint ver \<ge> 4"

definition LeaveGroupResponse_required_version :: "int16 \<Rightarrow> KafkaVersion" where
  "LeaveGroupResponse_required_version v =
     (if v = 4 then V2_4_0_0 else if v = 3 then V2_4_0_0 else if v = 2 then V2_0_0_0 else
      if v = 1 then V0_11_0_0 else if v = 0 then V0_9_0_0 else V2_4_0_0)"

definition LeaveGroupResponse_body :: "LeaveGroupResponse \<Rightarrow> protocol_body" where
  "LeaveGroupResponse_body m =
     \<lparr>pb_key = 13, pb_version = lgr_version m,
      pb_header_version = (if sint (lgr_version m) \<ge> 4 then 1 else 0),
      pb_is_valid_version = (sint (lgr_version m) \<ge> 0 \<and> sint (lgr_version m) \<le> 4),
      pb_is_flexible = LeaveGroupResponse_is_flexible_version (lgr_version m),
      pb_is_flexible_version = LeaveGroupResponse_is_flexible_version,
      pb_required_version = LeaveGroupResponse_required_version (lgr_version m),
      pb_encode = LeaveGroupResponse_encode m\<rparr>"

definition wLeaveGroupResponse :: "LeaveGroupResponse \<Rightarrow> bytes" where
  "wLeaveGroupResponse m =
     (let fl = LeaveGroupResponse_is_flexible_version (lgr_version m) in
      (if sint (lgr_version m) \<ge> 1 then wDurationMs (lgr_throttle_time m) else []) @ be16 (lgr_err m) @
      (if sint (lgr_version m) \<ge> 3 then wArray fl (wMemberResponse fl) (lgr_member_responses m) else []) @ wTags fl)"

definition LeaveGroupResponse_ok :: "LeaveGroupResponse \<Rightarrow> bool" where
  "LeaveGroupResponse_ok m \<longleftrightarrow>
     (let fl = LeaveGroupResponse_is_flexible_version (lgr_version m) in
      duration_ok (lgr_throttle_time m) \<and> len_ok fl (length (lgr_member_responses m)) \<and>
      (\<forall>x \<in> set (lgr_member_responses m). MemberResponse_ok fl x))"

definition LeaveGroupResponse_seen :: "LeaveGroupResponse \<Rightarrow> LeaveGroupResponse \<Rightarrow> LeaveGroupResponse" where
  "LeaveGroupResponse_seen this m =
     m\<lparr>lgr_throttle_time := (if sint (lgr_version m) \<ge> 1 then lgr_throttle_time m else lgr_throttle_time this),
       lgr_member_responses :=
         (if sint (lgr_version m) \<ge> 3 then lgr_member_responses m else lgr_member_responses this)\<rparr>"

interpretation lgr: protocol_message LeaveGroupResponse_body LeaveGroupResponse_decode wLeaveGroupResponse LeaveGroupResponse_ok LeaveGroupResponse_seen
proof
  fix m this :: LeaveGroupResponse
  assume ok: "LeaveGroupResponse_ok m"
  show "emits (pb_is_flexible (LeaveGroupResponse_body m)) (pb_encode (LeaveGroupResponse_body m)) (wLeaveGroupResponse m)"
    unfolding LeaveGroupResponse_body_def LeaveGroupResponse_encode_def wLeaveGroupResponse_def Let_def protocol_body.simps 
    by (intro emits_rules; use ok in \<open>auto simp: LeaveGroupResponse_ok_def Let_def \<close>)
  show "reads (pb_is_flexible (LeaveGroupResponse_body m)) (LeaveGroupResponse_decode this (pb_version (LeaveGroupResponse_body m)))
      (wLeaveGroupResponse m) (LeaveGroupResponse_seen this m)"
    unfolding LeaveGroupResponse_body_def LeaveGroupResponse_decode_def wLeaveGroupResponse_def Let_def protocol_body.simps wArray_def 
    by (rule reads_conv, (rule reads_rules | (use ok in \<open>auto simp: LeaveGroupResponse_ok_def Let_def 
      LeaveGroupResponse_seen_def ; fail\<close>))+)
qed (simp_all add: LeaveGroupResponse_body_def wLeaveGroupResponse_def Let_def)

section \<open>Synchronising\<close>

record SyncGroupRequestAssignment =
  sga_member_id :: bytes
  sga_assignment :: bytes

definition SyncGroupRequestAssignment_encode :: "SyncGroupRequestAssignment \<Rightarrow> unit enc" where
  "SyncGroupRequestAssignment_encode x =
     then_p (putString (sga_member_id x))
    (then_p (putBytes (sga_assignment x))
       putEmptyTaggedFieldArray)"

definition SyncGroupRequestAssignment_decode :: "SyncGroupRequestAssignment dec" where
  "SyncGroupRequestAssignment_decode =
     bind_p getString (\<lambda>member_id.
     bind_p getBytes (\<lambda>assignment.
       tags_then \<lparr>sga_member_id = member_id, sga_assignment = assignment\<rparr>))"

definition wSyncGroupRequestAssignment :: "bool \<Rightarrow> SyncGroupRequestAssignment \<Rightarrow> bytes" where
  "wSyncGroupRequestAssignment fl x = wString fl (sga_member_id x) @ wBytes fl (sga_assignment x) @ wTags fl"

definition SyncGroupRequestAssignment_ok :: "bool \<Rightarrow> SyncGroupRequestAssignment \<Rightarrow> bool" where
  "SyncGroupRequestAssignment_ok fl x \<longleftrightarrow> string_ok fl (sga_member_id x) \<and> bytes_ok (sga_assignment x)"

lemma emits_SyncGroupRequestAssignment [emits_rules]: "SyncGroupRequestAssignment_ok fl x \<Longrightarrow> emits fl (SyncGroupRequestAssignment_encode x) (wSyncGroupRequestAssignment fl x)"
  unfolding SyncGroupRequestAssignment_encode_def wSyncGroupRequestAssignment_def SyncGroupRequestAssignment_ok_def by (intro emits_rules) simp_all

lemma reads_SyncGroupRequestAssignment [reads_rules]:
  assumes "SyncGroupRequestAssignment_ok fl x" shows "reads fl SyncGroupRequestAssignment_decode (wSyncGroupRequestAssignment fl x) x"
  unfolding SyncGroupRequestAssignment_decode_def wSyncGroupRequestAssignment_def
  by (rule reads_conv, (rule reads_rules | (use assms in \<open>simp add: SyncGroupRequestAssignment_ok_def; fail\<close>))+)

record SyncGroupRequest =
  sgq_version :: int16
  sgq_group_id :: bytes
  sgq_generation_id :: int32
  sgq_member_id :: bytes
  sgq_group_instance_id :: bytes
  sgq_group_assignments :: "SyncGroupRequestAssignment list"

definition SyncGroupRequest_set_version :: "int16 \<Rightarrow> SyncGroupRequest \<Rightarrow> SyncGroupRequest" where
  "SyncGroupRequest_set_version v m = m\<lparr>sgq_version := v\<rparr>"

definition SyncGroupRequest_encode :: "SyncGroupRequest \<Rightarrow> unit enc" where
  "SyncGroupRequest_encode m =
     then_p (putString (sgq_group_id m))
    (then_p (putInt32 (sgq_generation_id m))
    (then_p (putString (sgq_member_id m))
    (then_p (when_p (sint (sgq_version m) \<ge> 3) (putNullableString (sgq_group_instance_id m)))
    (then_p (then_p (putArrayLength (size32 (length (sgq_group_assignments m))))
            (for_each SyncGroupRequestAssignment_encode (sgq_group_assignments m)))
       putEmptyTaggedFieldArray))))"

definition SyncGroupRequest_decode :: "SyncGroupRequest \<Rightarrow> int16 \<Rightarrow> SyncGroupRequest dec" where
  "SyncGroupRequest_decode this version =
     bind_p getString (\<lambda>group_id.
     bind_p getInt32 (\<lambda>generation_id.
     bind_p getString (\<lambda>member_id.
     bind_p (field_if (sint version \<ge> 3) getNullableString (sgq_group_instance_id this)) (\<lambda>instance_id.
     bind_p (bind_p getArrayLength (\<lambda>n. read_n n SyncGroupRequestAssignment_decode)) (\<lambda>assignments.
       tags_then \<lparr>sgq_version = version, sgq_group_id = group_id, sgq_generation_id = generation_id,
         sgq_member_id = member_id, sgq_group_instance_id = instance_id, sgq_group_assignments = assignments\<rparr>)))))"

definition SyncGroupRequest_is_flexible_version :: "int16 \<Rightarrow> bool" where
  "SyncGroupRequest_is_flexible_version ver \<longleftrightarrow> sint ver \<ge> 4"

definition SyncGroupRequest_required_version :: "int16 \<Rightarrow> KafkaVersion" where
  "SyncGroupRequest_required_version v =
     (if v = 4 then V2_4_0_0 else if v = 3 then V2_3_0_0 else if v = 2 then V2_0_0_0 else
      if v = 1 then V0_11_0_0 else if v = 0 then V0_9_0_0 else V2_3_0_0)"

definition SyncGroupRequest_body :: "SyncGroupRequest \<Rightarrow> protocol_body" where
  "SyncGroupRequest_body m =
     \<lparr>pb_key = 14, pb_version = sgq_version m,
      pb_header_version = (if sint (sgq_version m) \<ge> 4 then 2 else 1),
      pb_is_valid_version = (sint (sgq_version m) \<ge> 0 \<and> sint (sgq_version m) \<le> 5),
      pb_is_flexible = SyncGroupRequest_is_flexible_version (sgq_version m),
      pb_is_flexible_version = SyncGroupRequest_is_flexible_version,
      pb_required_version = SyncGroupRequest_required_version (sgq_version m),
      pb_encode = SyncGroupRequest_encode m\<rparr>"

definition wSyncGroupRequest :: "SyncGroupRequest \<Rightarrow> bytes" where
  "wSyncGroupRequest m =
     (let fl = SyncGroupRequest_is_flexible_version (sgq_version m) in
      wString fl (sgq_group_id m) @ be32 (sgq_generation_id m) @ wString fl (sgq_member_id m) @
      (if sint (sgq_version m) \<ge> 3 then wNullableString fl (sgq_group_instance_id m) else []) @
      wArray fl (wSyncGroupRequestAssignment fl) (sgq_group_assignments m) @ wTags fl)"

definition SyncGroupRequest_ok :: "SyncGroupRequest \<Rightarrow> bool" where
  "SyncGroupRequest_ok m \<longleftrightarrow>
     (let fl = SyncGroupRequest_is_flexible_version (sgq_version m) in
      string_ok fl (sgq_group_id m) \<and> string_ok fl (sgq_member_id m) \<and> string_ok fl (sgq_group_instance_id m) \<and>
      len_ok fl (length (sgq_group_assignments m)) \<and>
      (\<forall>x \<in> set (sgq_group_assignments m). SyncGroupRequestAssignment_ok fl x))"

definition SyncGroupRequest_seen :: "SyncGroupRequest \<Rightarrow> SyncGroupRequest \<Rightarrow> SyncGroupRequest" where
  "SyncGroupRequest_seen this m =
     (if sint (sgq_version m) \<ge> 3 then m else m\<lparr>sgq_group_instance_id := sgq_group_instance_id this\<rparr>)"

interpretation sgq: protocol_message SyncGroupRequest_body SyncGroupRequest_decode wSyncGroupRequest SyncGroupRequest_ok SyncGroupRequest_seen
proof
  fix m this :: SyncGroupRequest
  assume ok: "SyncGroupRequest_ok m"
  show "emits (pb_is_flexible (SyncGroupRequest_body m)) (pb_encode (SyncGroupRequest_body m)) (wSyncGroupRequest m)"
    unfolding SyncGroupRequest_body_def SyncGroupRequest_encode_def wSyncGroupRequest_def Let_def protocol_body.simps 
    by (intro emits_rules; use ok in \<open>auto simp: SyncGroupRequest_ok_def Let_def \<close>)
  show "reads (pb_is_flexible (SyncGroupRequest_body m)) (SyncGroupRequest_decode this (pb_version (SyncGroupRequest_body m)))
      (wSyncGroupRequest m) (SyncGroupRequest_seen this m)"
    unfolding SyncGroupRequest_body_def SyncGroupRequest_decode_def wSyncGroupRequest_def Let_def protocol_body.simps wArray_def 
    by (rule reads_conv, (rule reads_rules | (use ok in \<open>auto simp: SyncGroupRequest_ok_def Let_def 
      SyncGroupRequest_seen_def ; fail\<close>))+)
qed (simp_all add: SyncGroupRequest_body_def wSyncGroupRequest_def Let_def)

definition SyncGroupRequest_add_group_assignment :: "bytes \<Rightarrow> bytes \<Rightarrow> SyncGroupRequest \<Rightarrow> SyncGroupRequest" where
  "SyncGroupRequest_add_group_assignment memberId memberAssignment m =
     m\<lparr>sgq_group_assignments := sgq_group_assignments m @
        [\<lparr>sga_member_id = memberId, sga_assignment = memberAssignment\<rparr>]\<rparr>"

record SyncGroupResponse =
  sgr_version :: int16
  sgr_throttle_time :: int64
  sgr_err :: int16
  sgr_member_assignment :: bytes

definition SyncGroupResponse_set_version :: "int16 \<Rightarrow> SyncGroupResponse \<Rightarrow> SyncGroupResponse" where
  "SyncGroupResponse_set_version v m = m\<lparr>sgr_version := v\<rparr>"

definition SyncGroupResponse_encode :: "SyncGroupResponse \<Rightarrow> unit enc" where
  "SyncGroupResponse_encode m =
     then_p (when_p (sint (sgr_version m) \<ge> 1) (putDurationMs (sgr_throttle_time m)))
    (then_p (putKError (sgr_err m))
    (then_p (putBytes (sgr_member_assignment m))
       putEmptyTaggedFieldArray))"

definition SyncGroupResponse_decode :: "SyncGroupResponse \<Rightarrow> int16 \<Rightarrow> SyncGroupResponse dec" where
  "SyncGroupResponse_decode this version =
     bind_p (field_if (sint version \<ge> 1) getDurationMs (sgr_throttle_time this)) (\<lambda>throttle.
     bind_p getKError (\<lambda>err.
     bind_p getBytes (\<lambda>assignment.
       tags_then \<lparr>sgr_version = version, sgr_throttle_time = throttle, sgr_err = err,
         sgr_member_assignment = assignment\<rparr>)))"

definition SyncGroupResponse_is_flexible_version :: "int16 \<Rightarrow> bool" where
  "SyncGroupResponse_is_flexible_version ver \<longleftrightarrow> sint ver \<ge> 4"

definition SyncGroupResponse_required_version :: "int16 \<Rightarrow> KafkaVersion" where
  "SyncGroupResponse_required_version v =
     (if v = 4 then V2_4_0_0 else if v = 3 then V2_3_0_0 else if v = 2 then V2_0_0_0 else
      if v = 1 then V0_11_0_0 else if v = 0 then V0_9_0_0 else V2_3_0_0)"

definition SyncGroupResponse_body :: "SyncGroupResponse \<Rightarrow> protocol_body" where
  "SyncGroupResponse_body m =
     \<lparr>pb_key = 14, pb_version = sgr_version m,
      pb_header_version = (if sint (sgr_version m) \<ge> 4 then 1 else 0),
      pb_is_valid_version = (sint (sgr_version m) \<ge> 0 \<and> sint (sgr_version m) \<le> 5),
      pb_is_flexible = SyncGroupResponse_is_flexible_version (sgr_version m),
      pb_is_flexible_version = SyncGroupResponse_is_flexible_version,
      pb_required_version = SyncGroupResponse_required_version (sgr_version m),
      pb_encode = SyncGroupResponse_encode m\<rparr>"

definition wSyncGroupResponse :: "SyncGroupResponse \<Rightarrow> bytes" where
  "wSyncGroupResponse m =
     (let fl = SyncGroupResponse_is_flexible_version (sgr_version m) in
      (if sint (sgr_version m) \<ge> 1 then wDurationMs (sgr_throttle_time m) else []) @ be16 (sgr_err m) @
      wBytes fl (sgr_member_assignment m) @ wTags fl)"

definition SyncGroupResponse_ok :: "SyncGroupResponse \<Rightarrow> bool" where
  "SyncGroupResponse_ok m \<longleftrightarrow>
      duration_ok (sgr_throttle_time m) \<and> bytes_ok (sgr_member_assignment m)"

definition SyncGroupResponse_seen :: "SyncGroupResponse \<Rightarrow> SyncGroupResponse \<Rightarrow> SyncGroupResponse" where
  "SyncGroupResponse_seen this m =
     (if sint (sgr_version m) \<ge> 1 then m else m\<lparr>sgr_throttle_time := sgr_throttle_time this\<rparr>)"

interpretation sgr: protocol_message SyncGroupResponse_body SyncGroupResponse_decode wSyncGroupResponse SyncGroupResponse_ok SyncGroupResponse_seen
proof
  fix m this :: SyncGroupResponse
  assume ok: "SyncGroupResponse_ok m"
  show "emits (pb_is_flexible (SyncGroupResponse_body m)) (pb_encode (SyncGroupResponse_body m)) (wSyncGroupResponse m)"
    unfolding SyncGroupResponse_body_def SyncGroupResponse_encode_def wSyncGroupResponse_def Let_def protocol_body.simps 
    by (intro emits_rules; use ok in \<open>auto simp: SyncGroupResponse_ok_def Let_def \<close>)
  show "reads (pb_is_flexible (SyncGroupResponse_body m)) (SyncGroupResponse_decode this (pb_version (SyncGroupResponse_body m)))
      (wSyncGroupResponse m) (SyncGroupResponse_seen this m)"
    unfolding SyncGroupResponse_body_def SyncGroupResponse_decode_def wSyncGroupResponse_def Let_def protocol_body.simps wArray_def 
    by (rule reads_conv, (rule reads_rules | (use ok in \<open>auto simp: SyncGroupResponse_ok_def Let_def 
      SyncGroupResponse_seen_def ; fail\<close>))+)
qed (simp_all add: SyncGroupResponse_body_def wSyncGroupResponse_def Let_def)

section \<open>Joining\<close>

record GroupProtocol =
  gp_name :: bytes
  gp_metadata :: bytes

definition GroupProtocol_encode :: "GroupProtocol \<Rightarrow> unit enc" where
  "GroupProtocol_encode x =
     then_p (putString (gp_name x))
    (then_p (putBytes (gp_metadata x))
       putEmptyTaggedFieldArray)"

definition GroupProtocol_decode :: "GroupProtocol dec" where
  "GroupProtocol_decode =
     bind_p getString (\<lambda>name.
     bind_p getBytes (\<lambda>metadata.
       tags_then \<lparr>gp_name = name, gp_metadata = metadata\<rparr>))"

definition wGroupProtocol :: "bool \<Rightarrow> GroupProtocol \<Rightarrow> bytes" where
  "wGroupProtocol fl x = wString fl (gp_name x) @ wBytes fl (gp_metadata x) @ wTags fl"

definition GroupProtocol_ok :: "bool \<Rightarrow> GroupProtocol \<Rightarrow> bool" where
  "GroupProtocol_ok fl x \<longleftrightarrow> string_ok fl (gp_name x) \<and> bytes_ok (gp_metadata x)"

lemma emits_GroupProtocol [emits_rules]: "GroupProtocol_ok fl x \<Longrightarrow> emits fl (GroupProtocol_encode x) (wGroupProtocol fl x)"
  unfolding GroupProtocol_encode_def wGroupProtocol_def GroupProtocol_ok_def by (intro emits_rules) simp_all

lemma reads_GroupProtocol [reads_rules]:
  assumes "GroupProtocol_ok fl x" shows "reads fl GroupProtocol_decode (wGroupProtocol fl x) x"
  unfolding GroupProtocol_decode_def wGroupProtocol_def
  by (rule reads_conv, (rule reads_rules | (use assms in \<open>simp add: GroupProtocol_ok_def; fail\<close>))+)

record JoinGroupRequest =
  jgq_version :: int16
  jgq_group_id :: bytes
  jgq_session_timeout :: int32
  jgq_rebalance_timeout :: int32
  jgq_member_id :: bytes
  jgq_group_instance_id :: bytes
  jgq_protocol_type :: bytes
  jgq_group_protocols :: "(bytes \<times> bytes) list"
  jgq_ordered_group_protocols :: "GroupProtocol list"

definition JoinGroupRequest_set_version :: "int16 \<Rightarrow> JoinGroupRequest \<Rightarrow> JoinGroupRequest" where
  "JoinGroupRequest_set_version v m = m\<lparr>jgq_version := v\<rparr>"

text \<open>
  The protocols that go on the wire: the map's entries, or the ordered ones when the map is empty; an
  object with both is refused.
\<close>

definition JoinGroupRequest_protocols :: "JoinGroupRequest \<Rightarrow> GroupProtocol list" where
  "JoinGroupRequest_protocols m =
     (if jgq_group_protocols m \<noteq> []
      then map (\<lambda>(name, metadata). \<lparr>gp_name = name, gp_metadata = metadata\<rparr>) (jgq_group_protocols m)
      else jgq_ordered_group_protocols m)"

definition JoinGroupRequest_put_protocols :: "JoinGroupRequest \<Rightarrow> unit enc" where
  "JoinGroupRequest_put_protocols m =
     (if jgq_group_protocols m \<noteq> []
      then if jgq_ordered_group_protocols m \<noteq> [] then raise (- 1)
           else then_p (putArrayLength (size32 (length (jgq_group_protocols m))))
                  (for_each (\<lambda>(name, metadata).
                     then_p (putString name) (then_p (putBytes metadata) putEmptyTaggedFieldArray))
                   (jgq_group_protocols m))
      else then_p (putArrayLength (size32 (length (jgq_ordered_group_protocols m))))
             (for_each GroupProtocol_encode (jgq_ordered_group_protocols m)))"

definition JoinGroupRequest_put_both :: "GroupProtocol list \<Rightarrow> JoinGroupRequest \<Rightarrow> JoinGroupRequest" where
  "JoinGroupRequest_put_both ps m =
     m\<lparr>jgq_group_protocols := fold (\<lambda>p. smap_put (gp_name p) (gp_metadata p)) ps [],
       jgq_ordered_group_protocols := ps\<rparr>"

text \<open>The tail of \<^verbatim>\<open>decode\<close>: an empty array ends it at once, before the tagged fields.\<close>

definition JoinGroupRequest_get_protocols :: "JoinGroupRequest \<Rightarrow> JoinGroupRequest dec" where
  "JoinGroupRequest_get_protocols m =
     bind_p getArrayLength (\<lambda>n.
       if n = 0 then ret m
       else bind_p (read_n n GroupProtocol_decode) (\<lambda>ps. tags_then (JoinGroupRequest_put_both ps m)))"

lemma for_each_map: "for_each f (map g xs) = for_each (\<lambda>x. f (g x)) xs"
  by (induction xs) auto

lemma emits_JoinGroupRequest_protocols [emits_rules]:
  assumes "len_ok fl (length (JoinGroupRequest_protocols m))" "\<forall>x \<in> set (JoinGroupRequest_protocols m). GroupProtocol_ok fl x"
    "jgq_group_protocols m = [] \<or> jgq_ordered_group_protocols m = []"
  shows "emits fl (JoinGroupRequest_put_protocols m) (wArray fl (wGroupProtocol fl) (JoinGroupRequest_protocols m))"
proof -
  have map_entry: "for_each (\<lambda>(name, metadata). then_p (putString name) (then_p (putBytes metadata) putEmptyTaggedFieldArray)) xs
      = for_each GroupProtocol_encode (map (\<lambda>(name, metadata). \<lparr>gp_name = name, gp_metadata = metadata\<rparr>) xs)" for xs
    unfolding for_each_map by (rule arg_cong [where f = "\<lambda>f. for_each f xs"]) (auto simp: GroupProtocol_encode_def)
  have "JoinGroupRequest_put_protocols m =
      then_p (putArrayLength (size32 (length (JoinGroupRequest_protocols m))))
        (for_each GroupProtocol_encode (JoinGroupRequest_protocols m))"
    using assms(3) by (auto simp: JoinGroupRequest_put_protocols_def JoinGroupRequest_protocols_def map_entry)
  then show ?thesis using assms by (simp add: emits_wArray emits_GroupProtocol)
qed

lemma reads_JoinGroupRequest_protocols [reads_rules]:
  assumes "len_ok fl (length ps)" "\<And>x. x \<in> set ps \<Longrightarrow> GroupProtocol_ok fl x" "fl \<Longrightarrow> ps \<noteq> []"
  shows "reads fl (JoinGroupRequest_get_protocols m) ((wLen fl (length ps) @ concat (map (wGroupProtocol fl) ps)) @ wTags fl)
    (if ps = [] then m else JoinGroupRequest_put_both ps m)"
proof (cases "ps = []")
  case True
  have "reads fl (JoinGroupRequest_get_protocols m) (wLen fl 0) m"
    unfolding JoinGroupRequest_get_protocols_def
    by (rule reads_bind_same [OF reads_getArrayLength]) (use True assms(1) in \<open>simp_all add: reads_ret\<close>)
  then show ?thesis using True assms(3) by (auto simp: wTags_def)
next
  case False
  have "size32 (length ps) \<noteq> 0" using False sint_len [OF assms(1)] by force
  then have "reads fl (if size32 (length ps) = 0 then ret m
      else bind_p (read_n (size32 (length ps)) GroupProtocol_decode) (\<lambda>ps. tags_then (JoinGroupRequest_put_both ps m)))
      (concat (map (wGroupProtocol fl) ps) @ wTags fl) (JoinGroupRequest_put_both ps m)"
    using assms reads_bind [OF reads_read_n [of fl ps GroupProtocol_decode "wGroupProtocol fl" "\<lambda>x. x"] reads_tags_then]
    by (simp add: reads_GroupProtocol)
  then show ?thesis
    unfolding JoinGroupRequest_get_protocols_def append_assoc using False
    by (auto intro: reads_bind [OF reads_getArrayLength [OF assms(1)]])
qed

definition JoinGroupRequest_encode :: "JoinGroupRequest \<Rightarrow> unit enc" where
  "JoinGroupRequest_encode m =
     then_p (putString (jgq_group_id m))
    (then_p (putInt32 (jgq_session_timeout m))
    (then_p (when_p (sint (jgq_version m) \<ge> 1) (putInt32 (jgq_rebalance_timeout m)))
    (then_p (putString (jgq_member_id m))
    (then_p (when_p (sint (jgq_version m) \<ge> 5) (putNullableString (jgq_group_instance_id m)))
    (then_p (putString (jgq_protocol_type m))
    (then_p (JoinGroupRequest_put_protocols m)
       putEmptyTaggedFieldArray))))))"

definition JoinGroupRequest_decode :: "JoinGroupRequest \<Rightarrow> int16 \<Rightarrow> JoinGroupRequest dec" where
  "JoinGroupRequest_decode this version =
     bind_p getString (\<lambda>group_id.
     bind_p getInt32 (\<lambda>session_timeout.
     bind_p (field_if (sint version \<ge> 1) getInt32 (jgq_rebalance_timeout this)) (\<lambda>rebalance_timeout.
     bind_p getString (\<lambda>member_id.
     bind_p (field_if (sint version \<ge> 5) getNullableString (jgq_group_instance_id this)) (\<lambda>instance_id.
     bind_p getString (\<lambda>protocol_type.
       JoinGroupRequest_get_protocols (this\<lparr>jgq_version := version, jgq_group_id := group_id,
         jgq_session_timeout := session_timeout, jgq_rebalance_timeout := rebalance_timeout,
         jgq_member_id := member_id, jgq_group_instance_id := instance_id, jgq_protocol_type := protocol_type\<rparr>)))))))"

definition JoinGroupRequest_is_flexible_version :: "int16 \<Rightarrow> bool" where
  "JoinGroupRequest_is_flexible_version ver \<longleftrightarrow> sint ver \<ge> 6"

definition JoinGroupRequest_required_version :: "int16 \<Rightarrow> KafkaVersion" where
  "JoinGroupRequest_required_version v =
     (if v = 6 then V2_4_0_0 else if v = 5 then V2_3_0_0 else if v = 4 then V2_2_0_0 else
      if v = 3 then V2_0_0_0 else if v = 2 then V0_11_0_0 else if v = 1 then V0_10_1_0 else
      if v = 0 then V0_10_0_0 else V2_3_0_0)"

definition JoinGroupRequest_body :: "JoinGroupRequest \<Rightarrow> protocol_body" where
  "JoinGroupRequest_body m =
     \<lparr>pb_key = 11, pb_version = jgq_version m,
      pb_header_version = (if sint (jgq_version m) \<ge> 6 then 2 else 1),
      pb_is_valid_version = (sint (jgq_version m) \<ge> 0 \<and> sint (jgq_version m) \<le> 6),
      pb_is_flexible = JoinGroupRequest_is_flexible_version (jgq_version m),
      pb_is_flexible_version = JoinGroupRequest_is_flexible_version,
      pb_required_version = JoinGroupRequest_required_version (jgq_version m),
      pb_encode = JoinGroupRequest_encode m\<rparr>"

definition wJoinGroupRequest :: "JoinGroupRequest \<Rightarrow> bytes" where
  "wJoinGroupRequest m =
     (let fl = JoinGroupRequest_is_flexible_version (jgq_version m) in
      wString fl (jgq_group_id m) @ be32 (jgq_session_timeout m) @
      (if sint (jgq_version m) \<ge> 1 then be32 (jgq_rebalance_timeout m) else []) @ wString fl (jgq_member_id m) @
      (if sint (jgq_version m) \<ge> 5 then wNullableString fl (jgq_group_instance_id m) else []) @
      wString fl (jgq_protocol_type m) @ wArray fl (wGroupProtocol fl) (JoinGroupRequest_protocols m) @ wTags fl)"

definition JoinGroupRequest_ok :: "JoinGroupRequest \<Rightarrow> bool" where
  "JoinGroupRequest_ok m \<longleftrightarrow>
     (let fl = JoinGroupRequest_is_flexible_version (jgq_version m) in
      string_ok fl (jgq_group_id m) \<and> string_ok fl (jgq_member_id m) \<and> string_ok fl (jgq_group_instance_id m) \<and>
      string_ok fl (jgq_protocol_type m) \<and> len_ok fl (length (JoinGroupRequest_protocols m)) \<and>
      (\<forall>x \<in> set (JoinGroupRequest_protocols m). GroupProtocol_ok fl x) \<and>
      (jgq_group_protocols m = [] \<or> jgq_ordered_group_protocols m = []) \<and>
      (fl \<longrightarrow> JoinGroupRequest_protocols m \<noteq> []))"

definition JoinGroupRequest_seen :: "JoinGroupRequest \<Rightarrow> JoinGroupRequest \<Rightarrow> JoinGroupRequest" where
  "JoinGroupRequest_seen this m =
     (let ps = JoinGroupRequest_protocols m;
          m' = m\<lparr>jgq_rebalance_timeout :=
                   (if sint (jgq_version m) \<ge> 1 then jgq_rebalance_timeout m else jgq_rebalance_timeout this),
                 jgq_group_instance_id :=
                   (if sint (jgq_version m) \<ge> 5 then jgq_group_instance_id m else jgq_group_instance_id this)\<rparr> in
      if ps = [] then m'\<lparr>jgq_group_protocols := jgq_group_protocols this,
                       jgq_ordered_group_protocols := jgq_ordered_group_protocols this\<rparr>
      else m'\<lparr>jgq_group_protocols := fold (\<lambda>p. smap_put (gp_name p) (gp_metadata p)) ps [],
              jgq_ordered_group_protocols := ps\<rparr>)"

interpretation jgq: protocol_message JoinGroupRequest_body JoinGroupRequest_decode wJoinGroupRequest JoinGroupRequest_ok JoinGroupRequest_seen
proof
  fix m this :: JoinGroupRequest
  assume ok: "JoinGroupRequest_ok m"
  show "emits (pb_is_flexible (JoinGroupRequest_body m)) (pb_encode (JoinGroupRequest_body m)) (wJoinGroupRequest m)"
    unfolding JoinGroupRequest_body_def JoinGroupRequest_encode_def wJoinGroupRequest_def Let_def protocol_body.simps 
    by (intro emits_rules; use ok in \<open>auto simp: JoinGroupRequest_ok_def Let_def \<close>)
  show "reads (pb_is_flexible (JoinGroupRequest_body m)) (JoinGroupRequest_decode this (pb_version (JoinGroupRequest_body m)))
      (wJoinGroupRequest m) (JoinGroupRequest_seen this m)"
    unfolding JoinGroupRequest_body_def JoinGroupRequest_decode_def wJoinGroupRequest_def Let_def protocol_body.simps wArray_def 
    by (rule reads_conv, (rule reads_rules | (use ok in \<open>auto simp: JoinGroupRequest_ok_def Let_def 
      JoinGroupRequest_seen_def JoinGroupRequest_put_both_def; fail\<close>))+)
qed (simp_all add: JoinGroupRequest_body_def wJoinGroupRequest_def Let_def)

definition JoinGroupRequest_add_group_protocol :: "bytes \<Rightarrow> bytes \<Rightarrow> JoinGroupRequest \<Rightarrow> JoinGroupRequest" where
  "JoinGroupRequest_add_group_protocol name metadata m =
     m\<lparr>jgq_ordered_group_protocols := jgq_ordered_group_protocols m @ [\<lparr>gp_name = name, gp_metadata = metadata\<rparr>]\<rparr>"

record GroupMember =
  gm_member_id :: bytes
  gm_group_instance_id :: bytes
  gm_metadata :: bytes

definition GroupMember_encode :: "int16 \<Rightarrow> GroupMember \<Rightarrow> unit enc" where
  "GroupMember_encode version x =
     then_p (putString (gm_member_id x))
    (then_p (when_p (sint version \<ge> 5) (putNullableString (gm_group_instance_id x)))
    (then_p (putBytes (gm_metadata x)) putEmptyTaggedFieldArray))"

definition GroupMember_decode :: "int16 \<Rightarrow> GroupMember dec" where
  "GroupMember_decode version =
     bind_p getString (\<lambda>memberId.
     bind_p (field_if (sint version \<ge> 5) getNullableString []) (\<lambda>groupInstanceId.
     bind_p getBytes (\<lambda>metadata.
       tags_then \<lparr>gm_member_id = memberId, gm_group_instance_id = groupInstanceId, gm_metadata = metadata\<rparr>)))"

definition wGroupMember :: "int16 \<Rightarrow> bool \<Rightarrow> GroupMember \<Rightarrow> bytes" where
  "wGroupMember version fl x =
     wString fl (gm_member_id x) @ (if sint version \<ge> 5 then wNullableString fl (gm_group_instance_id x) else []) @
     wBytes fl (gm_metadata x) @ wTags fl"

definition GroupMember_ok :: "bool \<Rightarrow> GroupMember \<Rightarrow> bool" where
  "GroupMember_ok fl x \<longleftrightarrow>
     string_ok fl (gm_member_id x) \<and> string_ok fl (gm_group_instance_id x) \<and> bytes_ok (gm_metadata x)"

definition GroupMember_seen :: "int16 \<Rightarrow> GroupMember \<Rightarrow> GroupMember" where
  "GroupMember_seen version x = (if sint version \<ge> 5 then x else x\<lparr>gm_group_instance_id := []\<rparr>)"

lemma emits_GroupMember [emits_rules]:
  "GroupMember_ok fl x \<Longrightarrow> emits fl (GroupMember_encode version x) (wGroupMember version fl x)"
  unfolding GroupMember_encode_def wGroupMember_def GroupMember_ok_def by (intro emits_rules) simp_all

lemma reads_GroupMember [reads_rules]:
  assumes "GroupMember_ok fl x"
  shows "reads fl (GroupMember_decode version) (wGroupMember version fl x) (GroupMember_seen version x)"
  unfolding GroupMember_decode_def wGroupMember_def
  by (rule reads_conv, (rule reads_rules |
      (use assms in \<open>simp add: GroupMember_ok_def GroupMember_seen_def; fail\<close>))+)

text \<open>
  \<open>if (n == 0) return pd.getEmptyTaggedFieldArray(_); m_members.resize(n); ...\<close>: without members the old
  ones stay.
\<close>

definition JoinGroupResponse_read_members :: "int16 \<Rightarrow> GroupMember list \<Rightarrow> GroupMember list dec" where
  "JoinGroupResponse_read_members version old =
     bind_p getArrayLength (\<lambda>n. if n = 0 then ret old else resize_read n (GroupMember_decode version))"

lemma reads_JoinGroupResponse_members [reads_rules]:
  assumes "len_ok fl (length ms)" "\<And>x. x \<in> set ms \<Longrightarrow> GroupMember_ok fl x"
  shows "reads fl (JoinGroupResponse_read_members version old) (wArray fl (wGroupMember version fl) ms)
    (if ms = [] then old else map (GroupMember_seen version) ms)"
proof (cases "ms = []")
  case True
  show ?thesis
    unfolding JoinGroupResponse_read_members_def wArray_def
    by (rule reads_bind [OF reads_getArrayLength]) (use True assms(1) in \<open>simp_all add: reads_ret\<close>)
next
  case False
  then have "size32 (length ms) \<noteq> 0" using sint_len [OF assms(1)] by force
  then show ?thesis
    unfolding JoinGroupResponse_read_members_def wArray_def using False
    by (auto intro!: reads_bind [OF reads_getArrayLength [OF assms(1)]] reads_resize assms reads_GroupMember)
qed

record JoinGroupResponse =
  jgr_version :: int16
  jgr_throttle_time :: int64
  jgr_err :: int16
  jgr_generation_id :: int32
  jgr_group_protocol :: bytes
  jgr_leader_id :: bytes
  jgr_member_id :: bytes
  jgr_members :: "GroupMember list"

definition JoinGroupResponse_set_version :: "int16 \<Rightarrow> JoinGroupResponse \<Rightarrow> JoinGroupResponse" where
  "JoinGroupResponse_set_version v m = m\<lparr>jgr_version := v\<rparr>"

definition JoinGroupResponse_encode :: "JoinGroupResponse \<Rightarrow> unit enc" where
  "JoinGroupResponse_encode m =
     then_p (when_p (sint (jgr_version m) \<ge> 2) (putDurationMs (jgr_throttle_time m)))
    (then_p (putKError (jgr_err m))
    (then_p (putInt32 (jgr_generation_id m))
    (then_p (putString (jgr_group_protocol m))
    (then_p (putString (jgr_leader_id m))
    (then_p (putString (jgr_member_id m))
    (then_p (then_p (putArrayLength (size32 (length (jgr_members m))))
            (for_each (GroupMember_encode (jgr_version m)) (jgr_members m)))
       putEmptyTaggedFieldArray))))))"

definition JoinGroupResponse_decode :: "JoinGroupResponse \<Rightarrow> int16 \<Rightarrow> JoinGroupResponse dec" where
  "JoinGroupResponse_decode this version =
     bind_p (field_if (sint version \<ge> 2) getDurationMs (jgr_throttle_time this)) (\<lambda>throttle.
     bind_p getKError (\<lambda>err.
     bind_p getInt32 (\<lambda>generation_id.
     bind_p getString (\<lambda>group_protocol.
     bind_p getString (\<lambda>leader_id.
     bind_p getString (\<lambda>member_id.
     bind_p (JoinGroupResponse_read_members version (jgr_members this)) (\<lambda>members.
       tags_then \<lparr>jgr_version = version, jgr_throttle_time = throttle, jgr_err = err, jgr_generation_id = generation_id,
         jgr_group_protocol = group_protocol, jgr_leader_id = leader_id, jgr_member_id = member_id, jgr_members = members\<rparr>)))))))"

definition JoinGroupResponse_is_flexible_version :: "int16 \<Rightarrow> bool" where
  "JoinGroupResponse_is_flexible_version ver \<longleftrightarrow> sint ver \<ge> 6"

definition JoinGroupResponse_required_version :: "int16 \<Rightarrow> KafkaVersion" where
  "JoinGroupResponse_required_version v =
     (if v = 6 then V2_4_0_0 else if v = 5 then V2_3_0_0 else if v = 4 then V2_2_0_0 else
      if v = 3 then V2_0_0_0 else if v = 2 then V0_11_0_0 else if v = 1 then V0_10_1_0 else
      if v = 0 then V0_10_0_0 else V2_3_0_0)"

definition JoinGroupResponse_body :: "JoinGroupResponse \<Rightarrow> protocol_body" where
  "JoinGroupResponse_body m =
     \<lparr>pb_key = 11, pb_version = jgr_version m,
      pb_header_version = (if sint (jgr_version m) \<ge> 6 then 1 else 0),
      pb_is_valid_version = (sint (jgr_version m) \<ge> 0 \<and> sint (jgr_version m) \<le> 6),
      pb_is_flexible = JoinGroupResponse_is_flexible_version (jgr_version m),
      pb_is_flexible_version = JoinGroupResponse_is_flexible_version,
      pb_required_version = JoinGroupResponse_required_version (jgr_version m),
      pb_encode = JoinGroupResponse_encode m\<rparr>"

definition wJoinGroupResponse :: "JoinGroupResponse \<Rightarrow> bytes" where
  "wJoinGroupResponse m =
     (let fl = JoinGroupResponse_is_flexible_version (jgr_version m) in
      (if sint (jgr_version m) \<ge> 2 then wDurationMs (jgr_throttle_time m) else []) @ be16 (jgr_err m) @
      be32 (jgr_generation_id m) @ wString fl (jgr_group_protocol m) @ wString fl (jgr_leader_id m) @
      wString fl (jgr_member_id m) @ wArray fl (wGroupMember (jgr_version m) fl) (jgr_members m) @ wTags fl)"

definition JoinGroupResponse_ok :: "JoinGroupResponse \<Rightarrow> bool" where
  "JoinGroupResponse_ok m \<longleftrightarrow>
     (let fl = JoinGroupResponse_is_flexible_version (jgr_version m) in
      duration_ok (jgr_throttle_time m) \<and> string_ok fl (jgr_group_protocol m) \<and> string_ok fl (jgr_leader_id m) \<and>
      string_ok fl (jgr_member_id m) \<and> len_ok fl (length (jgr_members m)) \<and>
      (\<forall>x \<in> set (jgr_members m). GroupMember_ok fl x))"

definition JoinGroupResponse_seen :: "JoinGroupResponse \<Rightarrow> JoinGroupResponse \<Rightarrow> JoinGroupResponse" where
  "JoinGroupResponse_seen this m =
     m\<lparr>jgr_throttle_time := (if sint (jgr_version m) \<ge> 2 then jgr_throttle_time m else jgr_throttle_time this),
       jgr_members := (if jgr_members m = [] then jgr_members this
                       else map (GroupMember_seen (jgr_version m)) (jgr_members m))\<rparr>"

interpretation jgr: protocol_message JoinGroupResponse_body JoinGroupResponse_decode wJoinGroupResponse JoinGroupResponse_ok JoinGroupResponse_seen
proof
  fix m this :: JoinGroupResponse
  assume ok: "JoinGroupResponse_ok m"
  show "emits (pb_is_flexible (JoinGroupResponse_body m)) (pb_encode (JoinGroupResponse_body m)) (wJoinGroupResponse m)"
    unfolding JoinGroupResponse_body_def JoinGroupResponse_encode_def wJoinGroupResponse_def Let_def protocol_body.simps 
    by (intro emits_rules; use ok in \<open>auto simp: JoinGroupResponse_ok_def Let_def \<close>)
  show "reads (pb_is_flexible (JoinGroupResponse_body m)) (JoinGroupResponse_decode this (pb_version (JoinGroupResponse_body m)))
      (wJoinGroupResponse m) (JoinGroupResponse_seen this m)"
    unfolding JoinGroupResponse_body_def JoinGroupResponse_decode_def wJoinGroupResponse_def Let_def protocol_body.simps 
    by (rule reads_conv, (rule reads_rules | (use ok in \<open>auto simp: JoinGroupResponse_ok_def Let_def 
      JoinGroupResponse_seen_def ; fail\<close>))+)
qed (simp_all add: JoinGroupResponse_body_def wJoinGroupResponse_def Let_def)

section \<open>A join request without protocols\<close>

text \<open>
  In a flexible version \<^verbatim>\<open>encode\<close> ends with the tagged fields, but \<^verbatim>\<open>decode\<close> returns as soon as it sees an
  empty array and leaves their byte unread.
\<close>

definition no_protocols :: "JoinGroupRequest \<Rightarrow> bool" where
  "no_protocols m \<longleftrightarrow> jgq_version m = 6 \<and> jgq_group_protocols m = [] \<and> jgq_ordered_group_protocols m = [] \<and>
     string_ok True (jgq_group_id m) \<and> string_ok True (jgq_member_id m) \<and> string_ok True (jgq_group_instance_id m) \<and>
     string_ok True (jgq_protocol_type m)"

lemma len_ok_0 [simp]: "len_ok fl 0"
  by (simp add: len_ok_def be32_def byte_at_def MaxResponseSize_def)

lemma no_protocols_encode:
  assumes "no_protocols m" "int (length (wJoinGroupRequest m)) \<le> MaxRequestSize"
  shows "encode (body_IEncoder (JoinGroupRequest_body m)) out = Ok () (out @ wJoinGroupRequest m)"
proof (rule encode_emits [OF _ assms(2)])
  have fl: "JoinGroupRequest_is_flexible_version (jgq_version m) = True"
    using assms(1) by (simp add: no_protocols_def JoinGroupRequest_is_flexible_version_def)
  have "emits True (JoinGroupRequest_encode m) (wJoinGroupRequest m)"
    unfolding JoinGroupRequest_encode_def wJoinGroupRequest_def Let_def fl
    by (intro emits_rules; use assms(1) in \<open>simp add: no_protocols_def JoinGroupRequest_protocols_def\<close>)
  then show "emits False (prepare_flexible_encoder (body_IEncoder (JoinGroupRequest_body m))) (wJoinGroupRequest m)"
    using assms(1) by (auto simp: prepare_flexible_encoder_def body_IEncoder_def JoinGroupRequest_body_def no_protocols_def
        JoinGroupRequest_is_flexible_version_def intro!: emits_with_flexible)
qed

lemma no_protocols_decode:
  assumes "no_protocols m" "length (wJoinGroupRequest m) < 2 ^ 31"
  shows "decode_version (wJoinGroupRequest m)
    (body_VDecoder (JoinGroupRequest_body this) (JoinGroupRequest_decode this) this) 6 = Err ErrDecodeError ()"
proof -
  let ?pre = "wString True (jgq_group_id m) @ be32 (jgq_session_timeout m) @
      (if sint (6 :: int16) \<ge> 1 then be32 (jgq_rebalance_timeout m) else []) @ wString True (jgq_member_id m) @
      (if sint (6 :: int16) \<ge> 5 then wNullableString True (jgq_group_instance_id m) else []) @
      wString True (jgq_protocol_type m) @ wLen True 0"
  have empty: "reads True (JoinGroupRequest_get_protocols obj) (wLen True 0) obj" for obj
    unfolding JoinGroupRequest_get_protocols_def
    by (rule reads_bind_same [OF reads_getArrayLength]) (simp_all add: reads_ret)
  have "\<exists>obj. reads True (JoinGroupRequest_decode this 6) ?pre obj"
    unfolding JoinGroupRequest_decode_def
    by (rule exI, (rule reads_rules empty | (use assms(1) in \<open>simp add: no_protocols_def; fail\<close>))+)
  then obtain obj where "reads True (JoinGroupRequest_decode this 6) ?pre obj" by blast
  then have "reads False (prepare_flexible_decoder (body_VDecoder (JoinGroupRequest_body this) (JoinGroupRequest_decode this) this) 6) ?pre obj"
    by (auto simp: prepare_flexible_decoder_def body_VDecoder_def JoinGroupRequest_body_def
        JoinGroupRequest_is_flexible_version_def intro!: reads_with_flexible)
  moreover have "wJoinGroupRequest m = ?pre @ [0]"
    using assms(1) by (simp add: wJoinGroupRequest_def no_protocols_def Let_def JoinGroupRequest_is_flexible_version_def
        JoinGroupRequest_protocols_def wArray_def wTags_def)
  ultimately show ?thesis using assms(2) decode_reads(2) [of _ 6 ?pre obj "[0]"] by simp
qed

end
