(* ===== verification/Session_Messages.thy ===== *)
theory Session_Messages
  imports Protocol
begin

text \<open>
  The messages that open a session: \<^verbatim>\<open>find_coordinator_request.cpp\<close>, \<^verbatim>\<open>sasl_handshake_*.cpp\<close> and
  \<^verbatim>\<open>sasl_authenticate_*.cpp\<close>.
\<close>


section \<open>Finding the coordinator\<close>

definition FindCoordinatorRequest_new :: "KafkaVersion \<Rightarrow> int16" where
  "FindCoordinatorRequest_new conf_Version = (if IsAtLeast conf_Version V0_11_0_0 then 1 else 0)"

record FindCoordinatorRequest =
  fcq_version :: int16
  fcq_coordinator_key :: bytes
  fcq_coordinator_type :: int8

definition FindCoordinatorRequest_set_version :: "int16 \<Rightarrow> FindCoordinatorRequest \<Rightarrow> FindCoordinatorRequest" where
  "FindCoordinatorRequest_set_version v m = m\<lparr>fcq_version := v\<rparr>"

definition FindCoordinatorRequest_encode :: "FindCoordinatorRequest \<Rightarrow> unit enc" where
  "FindCoordinatorRequest_encode m =
     then_p (putString (fcq_coordinator_key m))
       (when_p (sint (fcq_version m) \<ge> 1) (putInt8 (fcq_coordinator_type m)))"

definition FindCoordinatorRequest_decode :: "FindCoordinatorRequest \<Rightarrow> int16 \<Rightarrow> FindCoordinatorRequest dec" where
  "FindCoordinatorRequest_decode this version =
     bind_p getString (\<lambda>key.
     bind_p (field_if (sint version \<ge> 1) getInt8 (fcq_coordinator_type this)) (\<lambda>type.
       ret \<lparr>fcq_version = (if sint version \<ge> 1 then version else fcq_version this),
         fcq_coordinator_key = key, fcq_coordinator_type = type\<rparr>))"

definition FindCoordinatorRequest_required_version :: "int16 \<Rightarrow> KafkaVersion" where
  "FindCoordinatorRequest_required_version v =
     (if v = 2 then V2_0_0_0 else if v = 1 then V0_11_0_0 else V0_8_2_0)"

definition FindCoordinatorRequest_body :: "FindCoordinatorRequest \<Rightarrow> protocol_body" where
  "FindCoordinatorRequest_body m =
     \<lparr>pb_key = 10, pb_version = fcq_version m,
      pb_header_version = 1,
      pb_is_valid_version = (sint (fcq_version m) \<ge> 0 \<and> sint (fcq_version m) \<le> 3),
      pb_is_flexible = False,
      pb_is_flexible_version = (\<lambda>_. False),
      pb_required_version = FindCoordinatorRequest_required_version (fcq_version m),
      pb_encode = FindCoordinatorRequest_encode m\<rparr>"

definition wFindCoordinatorRequest :: "FindCoordinatorRequest \<Rightarrow> bytes" where
  "wFindCoordinatorRequest m =
     wString False (fcq_coordinator_key m) @ (if sint (fcq_version m) \<ge> 1 then be8 (fcq_coordinator_type m) else [])"

definition FindCoordinatorRequest_ok :: "FindCoordinatorRequest \<Rightarrow> bool" where
  "FindCoordinatorRequest_ok m \<longleftrightarrow>
     string_ok False (fcq_coordinator_key m)"

definition FindCoordinatorRequest_seen :: "FindCoordinatorRequest \<Rightarrow> FindCoordinatorRequest \<Rightarrow> FindCoordinatorRequest" where
  "FindCoordinatorRequest_seen this m =
     (if sint (fcq_version m) \<ge> 1 then m
      else m\<lparr>fcq_version := fcq_version this, fcq_coordinator_type := fcq_coordinator_type this\<rparr>)"

interpretation fcq: protocol_message FindCoordinatorRequest_body FindCoordinatorRequest_decode wFindCoordinatorRequest FindCoordinatorRequest_ok FindCoordinatorRequest_seen
proof
  fix m this :: FindCoordinatorRequest
  assume ok: "FindCoordinatorRequest_ok m"
  show "emits (pb_is_flexible (FindCoordinatorRequest_body m)) (pb_encode (FindCoordinatorRequest_body m)) (wFindCoordinatorRequest m)"
    unfolding FindCoordinatorRequest_body_def FindCoordinatorRequest_encode_def wFindCoordinatorRequest_def Let_def protocol_body.simps 
    by (intro emits_rules; use ok in \<open>auto simp: FindCoordinatorRequest_ok_def Let_def \<close>)
  show "reads (pb_is_flexible (FindCoordinatorRequest_body m)) (FindCoordinatorRequest_decode this (pb_version (FindCoordinatorRequest_body m)))
      (wFindCoordinatorRequest m) (FindCoordinatorRequest_seen this m)"
    unfolding FindCoordinatorRequest_body_def FindCoordinatorRequest_decode_def wFindCoordinatorRequest_def Let_def protocol_body.simps wArray_def 
    by (rule reads_conv, (rule reads_rules | (use ok in \<open>auto simp: FindCoordinatorRequest_ok_def Let_def 
      FindCoordinatorRequest_seen_def ; fail\<close>))+)
qed (simp_all add: FindCoordinatorRequest_body_def wFindCoordinatorRequest_def Let_def)

section \<open>SASL\<close>

record SaslHandshakeRequest =
  shq_mechanism :: bytes
  shq_version :: int16

definition SaslHandshakeRequest_set_version :: "int16 \<Rightarrow> SaslHandshakeRequest \<Rightarrow> SaslHandshakeRequest" where
  "SaslHandshakeRequest_set_version v m = m\<lparr>shq_version := v\<rparr>"

definition SaslHandshakeRequest_encode :: "SaslHandshakeRequest \<Rightarrow> unit enc" where
  "SaslHandshakeRequest_encode m =
     putString (shq_mechanism m)"

definition SaslHandshakeRequest_decode :: "SaslHandshakeRequest \<Rightarrow> int16 \<Rightarrow> SaslHandshakeRequest dec" where
  "SaslHandshakeRequest_decode this version =
     bind_p getString (\<lambda>mechanism.
       ret \<lparr>shq_mechanism = mechanism, shq_version = version\<rparr>)"

definition SaslHandshakeRequest_required_version :: "int16 \<Rightarrow> KafkaVersion" where
  "SaslHandshakeRequest_required_version v =
     (if v = 1 then V1_0_0_0 else V0_10_0_0)"

definition SaslHandshakeRequest_body :: "SaslHandshakeRequest \<Rightarrow> protocol_body" where
  "SaslHandshakeRequest_body m =
     \<lparr>pb_key = 17, pb_version = shq_version m,
      pb_header_version = 1,
      pb_is_valid_version = (sint (shq_version m) \<ge> 0 \<and> sint (shq_version m) \<le> 1),
      pb_is_flexible = False,
      pb_is_flexible_version = (\<lambda>_. False),
      pb_required_version = SaslHandshakeRequest_required_version (shq_version m),
      pb_encode = SaslHandshakeRequest_encode m\<rparr>"

definition wSaslHandshakeRequest :: "SaslHandshakeRequest \<Rightarrow> bytes" where
  "wSaslHandshakeRequest m =
     wString False (shq_mechanism m)"

definition SaslHandshakeRequest_ok :: "SaslHandshakeRequest \<Rightarrow> bool" where
  "SaslHandshakeRequest_ok m \<longleftrightarrow>
     string_ok False (shq_mechanism m)"

definition SaslHandshakeRequest_seen :: "SaslHandshakeRequest \<Rightarrow> SaslHandshakeRequest \<Rightarrow> SaslHandshakeRequest" where
  "SaslHandshakeRequest_seen this m =
     m"

interpretation shq: protocol_message SaslHandshakeRequest_body SaslHandshakeRequest_decode wSaslHandshakeRequest SaslHandshakeRequest_ok SaslHandshakeRequest_seen
proof
  fix m this :: SaslHandshakeRequest
  assume ok: "SaslHandshakeRequest_ok m"
  show "emits (pb_is_flexible (SaslHandshakeRequest_body m)) (pb_encode (SaslHandshakeRequest_body m)) (wSaslHandshakeRequest m)"
    unfolding SaslHandshakeRequest_body_def SaslHandshakeRequest_encode_def wSaslHandshakeRequest_def Let_def protocol_body.simps 
    by (intro emits_rules; use ok in \<open>auto simp: SaslHandshakeRequest_ok_def Let_def \<close>)
  show "reads (pb_is_flexible (SaslHandshakeRequest_body m)) (SaslHandshakeRequest_decode this (pb_version (SaslHandshakeRequest_body m)))
      (wSaslHandshakeRequest m) (SaslHandshakeRequest_seen this m)"
    unfolding SaslHandshakeRequest_body_def SaslHandshakeRequest_decode_def wSaslHandshakeRequest_def Let_def protocol_body.simps wArray_def 
    by (rule reads_conv, (rule reads_rules | (use ok in \<open>auto simp: SaslHandshakeRequest_ok_def Let_def 
      SaslHandshakeRequest_seen_def ; fail\<close>))+)
qed (simp_all add: SaslHandshakeRequest_body_def wSaslHandshakeRequest_def Let_def)

record SaslHandshakeResponse =
  shr_version :: int16
  shr_err :: int16
  shr_enabled_mechanisms :: "bytes list"

definition SaslHandshakeResponse_set_version :: "int16 \<Rightarrow> SaslHandshakeResponse \<Rightarrow> SaslHandshakeResponse" where
  "SaslHandshakeResponse_set_version v m = m\<lparr>shr_version := v\<rparr>"

definition SaslHandshakeResponse_encode :: "SaslHandshakeResponse \<Rightarrow> unit enc" where
  "SaslHandshakeResponse_encode m =
     then_p (putKError (shr_err m))
       (putStringArray (shr_enabled_mechanisms m))"

definition SaslHandshakeResponse_decode :: "SaslHandshakeResponse \<Rightarrow> int16 \<Rightarrow> SaslHandshakeResponse dec" where
  "SaslHandshakeResponse_decode this version =
     bind_p getKError (\<lambda>err.
     bind_p getStringArray (\<lambda>mechanisms.
       ret \<lparr>shr_version = version, shr_err = err, shr_enabled_mechanisms = mechanisms\<rparr>))"

definition SaslHandshakeResponse_required_version :: "int16 \<Rightarrow> KafkaVersion" where
  "SaslHandshakeResponse_required_version v =
     (if v = 1 then V1_0_0_0 else V0_10_0_0)"

definition SaslHandshakeResponse_body :: "SaslHandshakeResponse \<Rightarrow> protocol_body" where
  "SaslHandshakeResponse_body m =
     \<lparr>pb_key = 17, pb_version = shr_version m,
      pb_header_version = 0,
      pb_is_valid_version = (sint (shr_version m) \<ge> 0 \<and> sint (shr_version m) \<le> 1),
      pb_is_flexible = False,
      pb_is_flexible_version = (\<lambda>_. False),
      pb_required_version = SaslHandshakeResponse_required_version (shr_version m),
      pb_encode = SaslHandshakeResponse_encode m\<rparr>"

definition wSaslHandshakeResponse :: "SaslHandshakeResponse \<Rightarrow> bytes" where
  "wSaslHandshakeResponse m =
     be16 (shr_err m) @ wStringArray False (shr_enabled_mechanisms m)"

definition SaslHandshakeResponse_ok :: "SaslHandshakeResponse \<Rightarrow> bool" where
  "SaslHandshakeResponse_ok m \<longleftrightarrow>
     len_ok False (length (shr_enabled_mechanisms m)) \<and> (\<forall>s \<in> set (shr_enabled_mechanisms m). string_ok False s)"

definition SaslHandshakeResponse_seen :: "SaslHandshakeResponse \<Rightarrow> SaslHandshakeResponse \<Rightarrow> SaslHandshakeResponse" where
  "SaslHandshakeResponse_seen this m =
     m"

interpretation shr: protocol_message SaslHandshakeResponse_body SaslHandshakeResponse_decode wSaslHandshakeResponse SaslHandshakeResponse_ok SaslHandshakeResponse_seen
proof
  fix m this :: SaslHandshakeResponse
  assume ok: "SaslHandshakeResponse_ok m"
  show "emits (pb_is_flexible (SaslHandshakeResponse_body m)) (pb_encode (SaslHandshakeResponse_body m)) (wSaslHandshakeResponse m)"
    unfolding SaslHandshakeResponse_body_def SaslHandshakeResponse_encode_def wSaslHandshakeResponse_def Let_def protocol_body.simps 
    by (intro emits_rules; use ok in \<open>auto simp: SaslHandshakeResponse_ok_def Let_def \<close>)
  show "reads (pb_is_flexible (SaslHandshakeResponse_body m)) (SaslHandshakeResponse_decode this (pb_version (SaslHandshakeResponse_body m)))
      (wSaslHandshakeResponse m) (SaslHandshakeResponse_seen this m)"
    unfolding SaslHandshakeResponse_body_def SaslHandshakeResponse_decode_def wSaslHandshakeResponse_def Let_def protocol_body.simps wArray_def 
    by (rule reads_conv, (rule reads_rules | (use ok in \<open>auto simp: SaslHandshakeResponse_ok_def Let_def 
      SaslHandshakeResponse_seen_def ; fail\<close>))+)
qed (simp_all add: SaslHandshakeResponse_body_def wSaslHandshakeResponse_def Let_def)

definition SaslAuthenticateRequest_new :: "KafkaVersion \<Rightarrow> int16" where
  "SaslAuthenticateRequest_new conf_Version = (if IsAtLeast conf_Version V2_2_0_0 then 1 else 0)"

record SaslAuthenticateRequest =
  saq_version :: int16
  saq_sasl_auth_bytes :: bytes

definition SaslAuthenticateRequest_set_version :: "int16 \<Rightarrow> SaslAuthenticateRequest \<Rightarrow> SaslAuthenticateRequest" where
  "SaslAuthenticateRequest_set_version v m = m\<lparr>saq_version := v\<rparr>"

definition SaslAuthenticateRequest_encode :: "SaslAuthenticateRequest \<Rightarrow> unit enc" where
  "SaslAuthenticateRequest_encode m =
     putBytes (saq_sasl_auth_bytes m)"

definition SaslAuthenticateRequest_decode :: "SaslAuthenticateRequest \<Rightarrow> int16 \<Rightarrow> SaslAuthenticateRequest dec" where
  "SaslAuthenticateRequest_decode this version =
     bind_p getBytes (\<lambda>bs.
       ret \<lparr>saq_version = version, saq_sasl_auth_bytes = bs\<rparr>)"

definition SaslAuthenticateRequest_required_version :: "int16 \<Rightarrow> KafkaVersion" where
  "SaslAuthenticateRequest_required_version v =
     (if v = 1 then V2_2_0_0 else V1_0_0_0)"

definition SaslAuthenticateRequest_body :: "SaslAuthenticateRequest \<Rightarrow> protocol_body" where
  "SaslAuthenticateRequest_body m =
     \<lparr>pb_key = 36, pb_version = saq_version m,
      pb_header_version = 1,
      pb_is_valid_version = (sint (saq_version m) \<ge> 0 \<and> sint (saq_version m) \<le> 1),
      pb_is_flexible = False,
      pb_is_flexible_version = (\<lambda>_. False),
      pb_required_version = SaslAuthenticateRequest_required_version (saq_version m),
      pb_encode = SaslAuthenticateRequest_encode m\<rparr>"

definition wSaslAuthenticateRequest :: "SaslAuthenticateRequest \<Rightarrow> bytes" where
  "wSaslAuthenticateRequest m =
     wBytes False (saq_sasl_auth_bytes m)"

definition SaslAuthenticateRequest_ok :: "SaslAuthenticateRequest \<Rightarrow> bool" where
  "SaslAuthenticateRequest_ok m \<longleftrightarrow>
     bytes_ok (saq_sasl_auth_bytes m)"

definition SaslAuthenticateRequest_seen :: "SaslAuthenticateRequest \<Rightarrow> SaslAuthenticateRequest \<Rightarrow> SaslAuthenticateRequest" where
  "SaslAuthenticateRequest_seen this m =
     m"

interpretation saq: protocol_message SaslAuthenticateRequest_body SaslAuthenticateRequest_decode wSaslAuthenticateRequest SaslAuthenticateRequest_ok SaslAuthenticateRequest_seen
proof
  fix m this :: SaslAuthenticateRequest
  assume ok: "SaslAuthenticateRequest_ok m"
  show "emits (pb_is_flexible (SaslAuthenticateRequest_body m)) (pb_encode (SaslAuthenticateRequest_body m)) (wSaslAuthenticateRequest m)"
    unfolding SaslAuthenticateRequest_body_def SaslAuthenticateRequest_encode_def wSaslAuthenticateRequest_def Let_def protocol_body.simps 
    by (intro emits_rules; use ok in \<open>auto simp: SaslAuthenticateRequest_ok_def Let_def \<close>)
  show "reads (pb_is_flexible (SaslAuthenticateRequest_body m)) (SaslAuthenticateRequest_decode this (pb_version (SaslAuthenticateRequest_body m)))
      (wSaslAuthenticateRequest m) (SaslAuthenticateRequest_seen this m)"
    unfolding SaslAuthenticateRequest_body_def SaslAuthenticateRequest_decode_def wSaslAuthenticateRequest_def Let_def protocol_body.simps wArray_def 
    by (rule reads_conv, (rule reads_rules | (use ok in \<open>auto simp: SaslAuthenticateRequest_ok_def Let_def 
      SaslAuthenticateRequest_seen_def ; fail\<close>))+)
qed (simp_all add: SaslAuthenticateRequest_body_def wSaslAuthenticateRequest_def Let_def)

text \<open>\<^verbatim>\<open>decode\<close> reads the message into a local variable: \<open>m_message\<close> keeps its old value.\<close>

record SaslAuthenticateResponse =
  sar_version :: int16
  sar_err :: int16
  sar_message :: bytes
  sar_sasl_auth_bytes :: bytes
  sar_session_lifetime_ms :: int64

definition SaslAuthenticateResponse_set_version :: "int16 \<Rightarrow> SaslAuthenticateResponse \<Rightarrow> SaslAuthenticateResponse" where
  "SaslAuthenticateResponse_set_version v m = m\<lparr>sar_version := v\<rparr>"

definition SaslAuthenticateResponse_encode :: "SaslAuthenticateResponse \<Rightarrow> unit enc" where
  "SaslAuthenticateResponse_encode m =
     then_p (putKError (sar_err m))
    (then_p (putNullableString (sar_message m))
    (then_p (putBytes (sar_sasl_auth_bytes m))
       (when_p (sint (sar_version m) > 0) (putInt64 (sar_session_lifetime_ms m)))))"

definition SaslAuthenticateResponse_decode :: "SaslAuthenticateResponse \<Rightarrow> int16 \<Rightarrow> SaslAuthenticateResponse dec" where
  "SaslAuthenticateResponse_decode this version =
     bind_p getKError (\<lambda>err.
     bind_p getNullableString (\<lambda>msg.
     bind_p getBytes (\<lambda>bs.
     bind_p (field_if (sint version > 0) getInt64 (sar_session_lifetime_ms this)) (\<lambda>lifetime.
       ret \<lparr>sar_version = version, sar_err = err, sar_message = sar_message this, sar_sasl_auth_bytes = bs,
         sar_session_lifetime_ms = lifetime\<rparr>))))"

definition SaslAuthenticateResponse_required_version :: "int16 \<Rightarrow> KafkaVersion" where
  "SaslAuthenticateResponse_required_version v =
     (if v = 1 then V2_2_0_0 else V1_0_0_0)"

definition SaslAuthenticateResponse_body :: "SaslAuthenticateResponse \<Rightarrow> protocol_body" where
  "SaslAuthenticateResponse_body m =
     \<lparr>pb_key = 36, pb_version = sar_version m,
      pb_header_version = 0,
      pb_is_valid_version = (sint (sar_version m) \<ge> 0 \<and> sint (sar_version m) \<le> 1),
      pb_is_flexible = False,
      pb_is_flexible_version = (\<lambda>_. False),
      pb_required_version = SaslAuthenticateResponse_required_version (sar_version m),
      pb_encode = SaslAuthenticateResponse_encode m\<rparr>"

definition wSaslAuthenticateResponse :: "SaslAuthenticateResponse \<Rightarrow> bytes" where
  "wSaslAuthenticateResponse m =
     be16 (sar_err m) @ wNullableString False (sar_message m) @ wBytes False (sar_sasl_auth_bytes m) @
     (if sint (sar_version m) > 0 then be64 (sar_session_lifetime_ms m) else [])"

definition SaslAuthenticateResponse_ok :: "SaslAuthenticateResponse \<Rightarrow> bool" where
  "SaslAuthenticateResponse_ok m \<longleftrightarrow>
     string_ok False (sar_message m) \<and> bytes_ok (sar_sasl_auth_bytes m)"

definition SaslAuthenticateResponse_seen :: "SaslAuthenticateResponse \<Rightarrow> SaslAuthenticateResponse \<Rightarrow> SaslAuthenticateResponse" where
  "SaslAuthenticateResponse_seen this m =
     m\<lparr>sar_message := sar_message this,
       sar_session_lifetime_ms :=
         (if sint (sar_version m) > 0 then sar_session_lifetime_ms m else sar_session_lifetime_ms this)\<rparr>"

interpretation sar: protocol_message SaslAuthenticateResponse_body SaslAuthenticateResponse_decode wSaslAuthenticateResponse SaslAuthenticateResponse_ok SaslAuthenticateResponse_seen
proof
  fix m this :: SaslAuthenticateResponse
  assume ok: "SaslAuthenticateResponse_ok m"
  show "emits (pb_is_flexible (SaslAuthenticateResponse_body m)) (pb_encode (SaslAuthenticateResponse_body m)) (wSaslAuthenticateResponse m)"
    unfolding SaslAuthenticateResponse_body_def SaslAuthenticateResponse_encode_def wSaslAuthenticateResponse_def Let_def protocol_body.simps 
    by (intro emits_rules; use ok in \<open>auto simp: SaslAuthenticateResponse_ok_def Let_def \<close>)
  show "reads (pb_is_flexible (SaslAuthenticateResponse_body m)) (SaslAuthenticateResponse_decode this (pb_version (SaslAuthenticateResponse_body m)))
      (wSaslAuthenticateResponse m) (SaslAuthenticateResponse_seen this m)"
    unfolding SaslAuthenticateResponse_body_def SaslAuthenticateResponse_decode_def wSaslAuthenticateResponse_def Let_def protocol_body.simps wArray_def 
    by (rule reads_conv, (rule reads_rules | (use ok in \<open>auto simp: SaslAuthenticateResponse_ok_def Let_def 
      SaslAuthenticateResponse_seen_def ; fail\<close>))+)
qed (simp_all add: SaslAuthenticateResponse_body_def wSaslAuthenticateResponse_def Let_def)

end
