(* ===== verification/Intrusive_Queue.thy ===== *)
theory Intrusive_Queue
  imports Main
begin

text \<open>
  The intrusive queue (\<^verbatim>\<open>queue.h\<close>, \<^verbatim>\<open>queue.cpp\<close>): a circular doubly linked list of nodes that are their own
  list cells, with the queue object as the sentinel.

  The heap is the two link fields as functions of the node's address; a failing \<^verbatim>\<open>assert\<close> is \<open>None\<close>.
  \<open>ring h q xs\<close> is the abstraction: from the queue object \<open>q\<close> the nodes \<open>xs\<close> are linked in this order, both
  ways round.  Every operation is shown to do on \<open>xs\<close> what its name says and to leave every other node
  alone, so the queues of one heap do not disturb each other.
\<close>

section \<open>The code\<close>

type_synonym node = nat

record qheap =
  m_prev :: "node \<Rightarrow> node"
  m_next :: "node \<Rightarrow> node"

definition new_node :: "node \<Rightarrow> qheap \<Rightarrow> qheap" where
  "new_node a h = h\<lparr>m_prev := (m_prev h)(a := a), m_next := (m_next h)(a := a)\<rparr>"

definition list_add :: "node \<Rightarrow> node \<Rightarrow> node \<Rightarrow> qheap \<Rightarrow> qheap option" where
  "list_add new prev next h =
     (if m_next h prev = new \<or> m_prev h next = new then None
      else Some (h\<lparr>m_prev := ((m_prev h)(next := new))(new := prev),
                   m_next := ((m_next h)(prev := new))(new := next)\<rparr>))"

definition list_del :: "node \<Rightarrow> node \<Rightarrow> qheap \<Rightarrow> qheap" where
  "list_del prev next h = h\<lparr>m_prev := (m_prev h)(next := prev), m_next := (m_next h)(prev := next)\<rparr>"

definition list_clear :: "node \<Rightarrow> qheap \<Rightarrow> qheap" where
  "list_clear a h = h\<lparr>m_prev := (m_prev h)(a := a), m_next := (m_next h)(a := a)\<rparr>"

definition q_empty :: "node \<Rightarrow> qheap \<Rightarrow> bool" where
  "q_empty q h \<longleftrightarrow> m_prev h q = q \<and> m_next h q = q"

definition list_move :: "node \<Rightarrow> node \<Rightarrow> node \<Rightarrow> qheap \<Rightarrow> qheap option" where
  "list_move this prev next h =
     (if \<not> q_empty this h then None
      else Some (h\<lparr>m_prev := ((m_prev h)(next := this))(this := prev),
                   m_next := ((m_next h)(prev := this))(this := next)\<rparr>))"

definition q_front :: "node \<Rightarrow> qheap \<Rightarrow> node" where
  "q_front q h = m_next h q"

definition q_back :: "node \<Rightarrow> qheap \<Rightarrow> node" where
  "q_back q h = m_prev h q"

definition push_front :: "node \<Rightarrow> node \<Rightarrow> qheap \<Rightarrow> qheap option" where
  "push_front q new h = list_add new q (m_next h q) h"

definition push_back :: "node \<Rightarrow> node \<Rightarrow> qheap \<Rightarrow> qheap option" where
  "push_back q new h = list_add new (m_prev h q) q h"

definition q_erase :: "node \<Rightarrow> qheap \<Rightarrow> qheap" where
  "q_erase old h = list_clear old (list_del (m_prev h old) (m_next h old) h)"

definition pop_front :: "node \<Rightarrow> qheap \<Rightarrow> node option \<times> qheap" where
  "pop_front q h = (if \<not> q_empty q h then (Some (q_front q h), q_erase (q_front q h) h) else (None, h))"

definition pop_back :: "node \<Rightarrow> qheap \<Rightarrow> node option \<times> qheap" where
  "pop_back q h = (if \<not> q_empty q h then (Some (q_back q h), q_erase (q_back q h) h) else (None, h))"

definition move_to :: "node \<Rightarrow> node \<Rightarrow> qheap \<Rightarrow> (bool \<times> qheap) option" where
  "move_to q new h =
     (if q_empty q h then Some (False, h)
      else if \<not> q_empty new h then Some (False, h)
      else (case list_move new (m_prev h q) (m_next h q) h of
              None \<Rightarrow> None
            | Some h' \<Rightarrow> Some (True, list_clear q h')))"

section \<open>The abstraction\<close>

fun path :: "(node \<Rightarrow> node) \<Rightarrow> node list \<Rightarrow> bool" where
  "path f (a # b # r) \<longleftrightarrow> f a = b \<and> path f (b # r)"
| "path f _ \<longleftrightarrow> True"

definition ring :: "qheap \<Rightarrow> node \<Rightarrow> node list \<Rightarrow> bool" where
  "ring h q xs \<longleftrightarrow> distinct (q # xs) \<and> path (m_next h) (q # xs @ [q]) \<and> path (m_prev h) (q # rev xs @ [q])"

text \<open>The links of the nodes outside \<open>N\<close> are the same in both heaps.\<close>

definition same_outside :: "node set \<Rightarrow> qheap \<Rightarrow> qheap \<Rightarrow> bool" where
  "same_outside N h h' \<longleftrightarrow> (\<forall>a. a \<notin> N \<longrightarrow> m_prev h' a = m_prev h a \<and> m_next h' a = m_next h a)"

lemma path_cong: "(\<And>a. a \<in> set (butlast xs) \<Longrightarrow> f a = g a) \<Longrightarrow> path f xs = path g xs"
  by (induction f xs rule: path.induct) auto

lemma path_upd: "a \<notin> set (butlast xs) \<Longrightarrow> path (f(a := v)) xs = path f xs"
  by (rule path_cong) auto

lemma path_append: "path f (us @ a # vs) \<longleftrightarrow> path f (us @ [a]) \<and> path f (a # vs)"
  by (induction us rule: induct_list012) (auto split: list.splits)

lemma path_step: "path f (us @ a # b # vs) \<Longrightarrow> f a = b"
  using path_append [of f us a "b # vs"] by simp

text \<open>A node spliced in between two neighbours, and taken out again.\<close>

lemma path_insert:
  assumes "path f (us @ a # b # vs)" "distinct (butlast (us @ a # b # vs))" "n \<notin> set (us @ a # b # vs)"
  shows "path (f(a := n, n := b)) (us @ a # n # b # vs)"
proof -
  have a: "a \<notin> set us" "a \<notin> set (butlast (b # vs))" using assms(2) by (auto simp: butlast_append)
  have n: "n \<notin> set us" "n \<notin> set (butlast (b # vs))" "n \<noteq> a"
    using assms(3) by (auto dest: in_set_butlastD)
  have "path f (us @ [a])" "path f (b # vs)"
    using assms(1) by (simp_all add: path_append [of f us a "b # vs"])
  then have "path (f(a := n, n := b)) (us @ [a])" "path (f(a := n, n := b)) (b # vs)"
    using a n by (simp_all only: path_upd butlast_snoc not_False_eq_True)
  then show ?thesis unfolding path_append [of _ us a "n # b # vs"] using n by simp
qed

lemma path_delete:
  assumes "path f (us @ a # n # b # vs)" "distinct (butlast (us @ a # n # b # vs))"
    "n \<notin> set (us @ a # butlast (b # vs))"
  shows "path (f(a := b, n := k)) (us @ a # b # vs)"
proof -
  have a: "a \<notin> set us" "a \<notin> set (butlast (b # vs))" "a \<noteq> n" using assms(2) by (auto simp: butlast_append)
  have "path f (us @ [a])" "path f (b # vs)"
    using assms(1) by (simp_all add: path_append [of f us a "n # b # vs"])
  then show ?thesis
    unfolding path_append [of _ us a "b # vs"] using a assms(3)
    by (auto simp: path_upd butlast_append)
qed

lemma ring_Nil: "ring h q [] \<longleftrightarrow> q_empty q h"
  by (auto simp: ring_def q_empty_def)

lemma ring_front: "ring h q (x # xs) \<Longrightarrow> m_next h q = x"
  by (simp add: ring_def)

lemma ring_back: "ring h q (xs @ [x]) \<Longrightarrow> m_prev h q = x"
  by (simp add: ring_def)

lemma ring_empty: "ring h q xs \<Longrightarrow> q_empty q h \<longleftrightarrow> xs = []"
  by (cases xs) (auto simp: ring_Nil ring_def q_empty_def)

lemma ring_frame:
  assumes "ring h q xs" "same_outside N h h'" "N \<inter> set (q # xs) = {}"
  shows "ring h' q xs"
proof -
  have "m_next h' a = m_next h a" "m_prev h' a = m_prev h a" if "a \<in> set (q # xs)" for a
    using assms(2,3) that by (auto simp: same_outside_def)
  then have "path (m_next h') (q # xs @ [q]) = path (m_next h) (q # xs @ [q])"
    "path (m_prev h') (q # rev xs @ [q]) = path (m_prev h) (q # rev xs @ [q])"
    by (auto intro!: path_cong simp: butlast_append)
  then show ?thesis using assms(1) by (simp add: ring_def)
qed

section \<open>What the operations do\<close>

text \<open>The ring \<open>us @ zs @ vs\<close> cut open at \<open>zs\<close>, with the neighbours \<open>p\<close> and \<open>x\<close>, forwards and backwards.\<close>

lemma ring_cut:
  assumes us: "q # us = us' @ [p]" and vs: "vs @ [q] = x # vs'"
  shows "(q # us @ zs @ vs) @ [q] = us' @ p # zs @ x # vs'"
    and "(q # rev (us @ zs @ vs)) @ [q] = rev vs' @ x # rev zs @ p # rev us'"
    and "p \<in> set (q # us @ vs)" "x \<in> set (q # us @ vs)"
proof -
  have "(q # us @ zs @ vs) @ [q] = (q # us) @ zs @ (vs @ [q])" by simp
  then show *: "(q # us @ zs @ vs) @ [q] = us' @ p # zs @ x # vs'" unfolding us vs by simp
  show "(q # rev (us @ zs @ vs)) @ [q] = rev vs' @ x # rev zs @ p # rev us'"
    using arg_cong [OF *, of rev] by simp
  have "p \<in> set (q # us)" unfolding us by simp
  then show "p \<in> set (q # us @ vs)" by auto
  have "x \<in> set (vs @ [q])" unfolding vs by simp
  then show "x \<in> set (q # us @ vs)" by auto
qed

lemma ring_paths:
  assumes "ring h q (us @ zs @ vs)" "q # us = us' @ [p]" "vs @ [q] = x # vs'"
  shows "path (m_next h) (us' @ p # zs @ x # vs')" "path (m_prev h) (rev vs' @ x # rev zs @ p # rev us')"
    and "distinct (butlast (us' @ p # zs @ x # vs'))" "distinct (butlast (rev vs' @ x # rev zs @ p # rev us'))"
proof -
  note cut = ring_cut(1,2) [OF assms(2,3), of zs]
  have r: "distinct (q # us @ zs @ vs)" "path (m_next h) ((q # us @ zs @ vs) @ [q])"
    "path (m_prev h) ((q # rev (us @ zs @ vs)) @ [q])" using assms(1) by (simp_all add: ring_def)
  show "path (m_next h) (us' @ p # zs @ x # vs')" "path (m_prev h) (rev vs' @ x # rev zs @ p # rev us')"
    using r(2,3) unfolding cut .
  show "distinct (butlast (us' @ p # zs @ x # vs'))" "distinct (butlast (rev vs' @ x # rev zs @ p # rev us'))"
    unfolding cut(1,2) [symmetric] butlast_snoc using r(1) by auto
qed

lemma ringI:
  assumes "distinct (q # us @ zs @ vs)" "q # us = us' @ [p]" "vs @ [q] = x # vs'"
    "path (m_next h) (us' @ p # zs @ x # vs')" "path (m_prev h) (rev vs' @ x # rev zs @ p # rev us')"
  shows "ring h q (us @ zs @ vs)"
  using assms(1,4,5) unfolding ring_def ring_cut(1,2) [OF assms(2,3), symmetric] by simp

lemma ring_insert:
  assumes r: "ring h q (us @ vs)" and n: "n \<notin> set (q # us @ vs)"
    and us: "q # us = us' @ [p]" and vs: "vs @ [q] = x # vs'"
  shows "\<exists>h'. list_add n p x h = Some h' \<and> ring h' q (us @ n # vs) \<and> same_outside (set (q # n # us @ vs)) h h'"
proof -
  note pth = ring_paths [of h q us "[]" vs, OF _ us vs, simplified, OF r] and mem = ring_cut(3,4) [OF us vs]
  have nx: "m_next h p = x" and pv: "m_prev h x = p" using pth(1,2) by (simp_all add: path_step)
  have "set (us' @ p # x # vs') = set ((q # us @ vs) @ [q])" using ring_cut(1) [OF us vs, of "[]"] by simp
  then have n': "n \<notin> set (us' @ p # x # vs')" "n \<notin> set (rev vs' @ x # p # rev us')" using n by auto
  define h' where "h' = h\<lparr>m_prev := ((m_prev h)(x := n))(n := p), m_next := ((m_next h)(p := n))(n := x)\<rparr>"
  have "list_add n p x h = Some h'" using nx pv n mem by (auto simp: list_add_def h'_def)
  moreover have "ring h' q (us @ [n] @ vs)"
  proof (rule ringI [OF _ us vs])
    show "distinct (q # us @ [n] @ vs)" using r n by (auto simp: ring_def)
    show "path (m_next h') (us' @ p # [n] @ x # vs')" "path (m_prev h') (rev vs' @ x # rev [n] @ p # rev us')"
      using path_insert [OF pth(1,3) n'(1)] path_insert [OF pth(2,4) n'(2)] by (simp_all add: h'_def)
  qed
  moreover have "same_outside (set (q # n # us @ vs)) h h'" using mem by (auto simp: same_outside_def h'_def)
  ultimately show ?thesis by auto
qed

lemma push_back_ring:
  assumes "ring h q xs" "n \<notin> set (q # xs)"
  shows "\<exists>h'. push_back q n h = Some h' \<and> ring h' q (xs @ [n]) \<and> same_outside (set (q # n # xs)) h h'"
proof -
  have last: "q # xs = butlast (q # xs) @ [last (q # xs)]" by (metis append_butlast_last_id list.distinct(1))
  have "m_prev h q = last (q # xs)" using assms(1) by (cases xs rule: rev_cases) (auto simp: ring_def)
  then show ?thesis
    using ring_insert [of h q xs "[]", OF _ _ last] assms by (simp add: push_back_def)
qed

lemma push_front_ring:
  assumes "ring h q xs" "n \<notin> set (q # xs)"
  shows "\<exists>h'. push_front q n h = Some h' \<and> ring h' q (n # xs) \<and> same_outside (set (q # n # xs)) h h'"
proof -
  have "m_next h q = hd (xs @ [q])" using assms(1) by (cases xs) (auto simp: ring_def)
  then show ?thesis
    using ring_insert [of h q "[]" xs n "[]" q "hd (xs @ [q])" "tl (xs @ [q])"] assms by (simp add: push_front_def)
qed

text \<open>Erasing a node, wherever it stands: it leaves the ring and is a ring of its own again.\<close>

lemma q_erase_ring:
  assumes r: "ring h q (us @ n # vs)"
  shows "ring (q_erase n h) q (us @ vs)" "q_empty n (q_erase n h)"
    "same_outside (set (q # us @ n # vs)) h (q_erase n h)"
proof -
  obtain us' p where us: "q # us = us' @ [p]" by (metis append_butlast_last_id list.distinct(1))
  obtain x vs' where vs: "vs @ [q] = x # vs'" by (cases vs) auto
  note pth = ring_paths [of h q us "[n]" vs, OF _ us vs, simplified, OF r] and mem = ring_cut(3,4) [OF us vs]
  have np: "m_next h n = x" "m_prev h n = p"
    using path_step [of _ "us' @ [p]" n x] path_step [of _ "rev vs' @ [x]" n p] pth(1,2) by simp_all
  have n: "n \<notin> set (q # us @ vs)" using r by (auto simp: ring_def)
  have "set (us' @ p # x # vs') = set ((q # us @ vs) @ [q])" using ring_cut(1) [OF us vs, of "[]"] by simp
  then have n': "n \<notin> set (us' @ p # x # vs')" using n by auto
  have e: "m_next (q_erase n h) = (m_next h)(p := x, n := n)" "m_prev (q_erase n h) = (m_prev h)(x := p, n := n)"
    using np by (simp_all add: q_erase_def list_clear_def list_del_def)
  have "n \<notin> set (us' @ p # butlast (x # vs'))" "n \<notin> set (rev vs' @ x # butlast (p # rev us'))"
    using n' by (auto dest: in_set_butlastD list.set_sel(2) [rotated])
  then have "path (m_next (q_erase n h)) (us' @ p # [] @ x # vs')" "path (m_prev (q_erase n h)) (rev vs' @ x # rev [] @ p # rev us')"
    unfolding e using path_delete [OF pth(1,3)] path_delete [OF pth(2,4)] by simp_all
  then have "ring (q_erase n h) q (us @ [] @ vs)" using r by (intro ringI [OF _ us vs]) (auto simp: ring_def)
  then show "ring (q_erase n h) q (us @ vs)" by simp
  show "q_empty n (q_erase n h)" by (simp add: q_empty_def e)
  show "same_outside (set (q # us @ n # vs)) h (q_erase n h)" using mem by (auto simp: same_outside_def e)
qed

lemma pop_front_ring:
  assumes "ring h q xs"
  shows "case xs of
      [] \<Rightarrow> pop_front q h = (None, h)
    | x # xs' \<Rightarrow> \<exists>h'. pop_front q h = (Some x, h') \<and> ring h' q xs' \<and> q_empty x h' \<and> same_outside (set (q # xs)) h h'"
proof (cases xs)
  case (Cons x xs')
  then show ?thesis
    using assms q_erase_ring [of h q "[]" x xs'] ring_front [of h q x xs'] ring_empty [OF assms]
    by (simp add: pop_front_def q_front_def)
qed (use ring_empty [OF assms] in \<open>simp add: pop_front_def\<close>)

lemma pop_back_ring:
  assumes "ring h q xs"
  shows "if xs = [] then pop_back q h = (None, h)
    else \<exists>h'. pop_back q h = (Some (last xs), h') \<and> ring h' q (butlast xs) \<and> q_empty (last xs) h' \<and>
      same_outside (set (q # xs)) h h'"
proof (cases xs rule: rev_cases)
  case (snoc ys x)
  then show ?thesis
    using assms q_erase_ring [of h q ys x "[]"] ring_back [of h q ys x] ring_empty [OF assms]
    by (simp add: pop_back_def q_back_def)
qed (use ring_empty [OF assms] in \<open>simp add: pop_back_def\<close>)

lemma path_move:
  assumes "path f (q # xs @ [q])" "xs \<noteq> []" "distinct (q # xs)" "p \<notin> set (q # xs)"
  shows "path (f(last xs := p, p := hd xs, q := q)) (p # xs @ [p])"
proof -
  obtain ys l where xs: "xs = ys @ [l]" using assms(2) by (metis append_butlast_last_id)
  let ?f = "f(l := p, p := hd xs, q := q)"
  have "path f (ys @ [l])"
    using assms(1) path_append [of f "[q]"] path_append [of f ys l "[q]"] unfolding xs
    by (cases ys) auto
  then have "path ?f (ys @ [l])"
    using assms(3,4) unfolding xs by (auto simp: path_upd)
  then have "path ?f (ys @ l # [p])"
    using assms(3,4) unfolding xs path_append [of _ ys l "[p]"] by auto
  moreover have "?f p = hd xs" using assms(4) xs by auto
  ultimately show ?thesis unfolding xs by (cases ys) (auto simp: fun_upd_twist)
qed

lemma ring_ends: "ring h q xs \<Longrightarrow> xs \<noteq> [] \<Longrightarrow> m_next h q = hd xs \<and> m_prev h q = last xs"
  using ring_front [of h q "hd xs" "tl xs"] ring_back [of h q "butlast xs" "last xs"] by simp

lemma move_to_ring:
  assumes r: "ring h q xs" "q_empty p h" "p \<notin> set (q # xs)"
  shows "if xs = [] then move_to q p h = Some (False, h)
    else \<exists>h'. move_to q p h = Some (True, h') \<and> ring h' p xs \<and> q_empty q h' \<and> same_outside (set (p # q # xs)) h h'"
proof (cases "xs = []")
  case False
  note ends = ring_ends [OF r(1) False]
  define h' where "h' = h\<lparr>m_prev := (m_prev h)(hd xs := p, p := last xs, q := q),
      m_next := (m_next h)(last xs := p, p := hd xs, q := q)\<rparr>"
  have mv: "move_to q p h = Some (True, h')"
    using False r(2) ends ring_empty [OF r(1)] by (simp add: move_to_def list_move_def list_clear_def h'_def)
  have "path (m_next h') (p # xs @ [p])"
    using r(1,3) False path_move [of "m_next h" q xs p] by (simp add: ring_def h'_def)
  moreover have "path (m_prev h') (p # rev xs @ [p])"
    using r(1,3) False path_move [of "m_prev h" q "rev xs" p] by (simp add: ring_def h'_def last_rev hd_rev)
  ultimately have "ring h' p xs" using r by (simp add: ring_def)
  moreover have "q_empty q h'" by (simp add: q_empty_def h'_def)
  moreover have "same_outside (set (p # q # xs)) h h'"
    using False by (auto simp: same_outside_def h'_def)
  ultimately show ?thesis using mv False by simp
qed (use ring_empty [OF r(1)] in \<open>simp add: move_to_def\<close>)

lemma new_node_ring: "q_empty a (new_node a h)" "same_outside {a} h (new_node a h)"
  by (simp_all add: q_empty_def new_node_def same_outside_def)

section \<open>The interface the coroutine primitives use\<close>

text \<open>A run of pushes and a run of pops, with the operation as a parameter.\<close>

fun push_list :: "('q \<Rightarrow> 'n \<Rightarrow> 'h \<Rightarrow> 'h option) \<Rightarrow> 'q \<Rightarrow> 'n list \<Rightarrow> 'h \<Rightarrow> 'h option" where
  "push_list push q [] h = Some h"
| "push_list push q (n # ns) h = (case push q n h of None \<Rightarrow> None | Some h' \<Rightarrow> push_list push q ns h')"

fun pop_list :: "('q \<Rightarrow> 'h \<Rightarrow> 'n option \<times> 'h) \<Rightarrow> 'q \<Rightarrow> nat \<Rightarrow> 'h \<Rightarrow> 'n option list \<times> 'h" where
  "pop_list pop q 0 h = ([], h)"
| "pop_list pop q (Suc k) h =
     (case pop q h of (x, h') \<Rightarrow> (case pop_list pop q k h' of (xs, h'') \<Rightarrow> (x # xs, h'')))"

text \<open>
  A queue of waiting nodes: \<open>holds h q xs\<close> says that \<open>q\<close> holds \<open>xs\<close>.  The locale states the two operations
  \<^verbatim>\<open>co_async\<close> works with, \<open>push_back\<close> and \<open>pop_front\<close>, and shows once that a queue used through them is first
  in, first out.
\<close>

locale fifo_queue =
  fixes holds :: "'h \<Rightarrow> 'q \<Rightarrow> 'n list \<Rightarrow> bool"
    and push :: "'q \<Rightarrow> 'n \<Rightarrow> 'h \<Rightarrow> 'h option"
    and pop :: "'q \<Rightarrow> 'h \<Rightarrow> 'n option \<times> 'h"
    and fresh :: "'q \<Rightarrow> 'n \<Rightarrow> bool"
  assumes push_law: "holds h q xs \<Longrightarrow> fresh q n \<Longrightarrow> n \<notin> set xs \<Longrightarrow> \<exists>h'. push q n h = Some h' \<and> holds h' q (xs @ [n])"
    and pop_law: "holds h q (x # xs) \<Longrightarrow> \<exists>h'. pop q h = (Some x, h') \<and> holds h' q xs"
    and pop_empty: "holds h q [] \<Longrightarrow> pop q h = (None, h)"
begin

lemma push_list_holds:
  "holds h q xs \<Longrightarrow> distinct (xs @ ns) \<Longrightarrow> list_all (fresh q) ns \<Longrightarrow>
   \<exists>h'. push_list push q ns h = Some h' \<and> holds h' q (xs @ ns)"
proof (induction ns arbitrary: h xs)
  case (Cons n ns)
  then obtain h' where h': "push q n h = Some h'" "holds h' q (xs @ [n])"
    using push_law [of h q xs n] by auto
  then show ?case using Cons.IH [of h' "xs @ [n]"] Cons.prems by auto
qed simp

lemma pop_list_holds:
  "holds h q xs \<Longrightarrow> \<exists>h'. pop_list pop q (length xs) h = (map Some xs, h') \<and> holds h' q []"
proof (induction xs arbitrary: h)
  case (Cons x xs)
  then obtain h' where "pop q h = (Some x, h')" "holds h' q xs" using pop_law by blast
  then show ?case using Cons.IH [of h'] by auto
qed simp

theorem fifo:
  assumes "holds h q []" "distinct ns" "list_all (fresh q) ns"
  shows "\<exists>h'. push_list push q ns h = Some h' \<and>
    (\<exists>h''. pop_list pop q (length ns) h' = (map Some ns, h'') \<and> pop q h'' = (None, h''))"
proof -
  obtain h' where h': "push_list push q ns h = Some h'" "holds h' q ns"
    using push_list_holds [OF assms(1), of ns] assms(2,3) by auto
  moreover obtain h'' where "pop_list pop q (length ns) h' = (map Some ns, h'')" "holds h'' q []"
    using pop_list_holds [OF h'(2)] by blast
  ultimately show ?thesis using pop_empty by blast
qed

end

interpretation iq: fifo_queue ring push_back pop_front "\<lambda>q n. n \<noteq> q"
proof
  show "\<exists>h'. push_back q n h = Some h' \<and> ring h' q (xs @ [n])" if "ring h q xs" "n \<noteq> q" "n \<notin> set xs" for h q xs n
    using push_back_ring [OF that(1), of n] that(2,3) by auto
  show "\<exists>h'. pop_front q h = (Some x, h') \<and> ring h' q xs" if "ring h q (x # xs)" for h q x xs
    using pop_front_ring [OF that] by auto
  show "pop_front q h = (None, h)" if "ring h q []" for h q
    using pop_front_ring [OF that] by simp
qed

end
