(* ===== verification/Co_Event.thy ===== *)
theory Co_Event
  imports Prelude
begin

text \<open>
  \<^verbatim>\<open>co_event\<close> (\<^verbatim>\<open>co_event.h\<close>, \<^verbatim>\<open>co_event.cpp\<close>): one coroutine awaits the event, one other party resumes it, on
  the same thread or on two.

  The methods are given as the sequences of atomic accesses they are: \<open>await_step\<close> and \<open>resume_step\<close> are the
  two threads, \<open>event_step\<close> their interleaving.  The status word is accessed only by load and
  compare-and-exchange; interleaving is sequentially consistent.  \<open>ev_continued\<close> counts how often the awaiting
  coroutine went on, \<open>ev_failed\<close> records a failed \<^verbatim>\<open>assert\<close>.
\<close>

section \<open>The object\<close>

text \<open>\<^verbatim>\<open>details::status\<close> of \<^verbatim>\<open>promise.h\<close>\<close>

datatype coro_status = CORO_INIT | CORO_SUSPEND | CORO_RUNNING | CORO_RESUMED | CORO_FINISHED

record co_event =
  ev_caller :: "nat option"
  ev_status :: coro_status
  ev_tid :: uint64
  ev_reserved :: int64

definition set_reserved :: "int64 \<Rightarrow> co_event \<Rightarrow> co_event" where
  "set_reserved x ev = ev\<lparr>ev_reserved := x\<rparr>"

definition await_resume :: "co_event \<Rightarrow> int64" where
  "await_resume ev = ev_reserved ev"

definition await_ready :: "co_event \<Rightarrow> bool" where
  "await_ready ev \<longleftrightarrow> ev_status ev \<noteq> CORO_INIT"

definition cas :: "coro_status \<Rightarrow> coro_status \<Rightarrow> co_event \<Rightarrow> bool \<times> co_event" where
  "cas expected desired ev =
     (if ev_status ev = expected then (True, ev\<lparr>ev_status := desired\<rparr>) else (False, ev))"

text \<open>\<^verbatim>\<open>__resume\<close>: the handle to continue, taken out of the event; \<open>None\<close> is the failed assertion.\<close>

definition do_resume :: "co_event \<Rightarrow> (nat \<times> co_event) option" where
  "do_resume ev =
     (case ev_caller ev of Some c \<Rightarrow> Some (c, ev\<lparr>ev_caller := None\<rparr>) | None \<Rightarrow> None)"

section \<open>The methods run to their end\<close>

text \<open>
  \<open>Ran (Some c)\<close>: the call continued coroutine \<open>c\<close>; \<open>Ran None\<close>: it returned without doing so; \<open>Failed\<close>: an
  assertion failed.
\<close>

datatype 'a ran = Ran 'a co_event | Failed

definition co_event_resume :: "int64 \<Rightarrow> co_event \<Rightarrow> nat option ran" where
  "co_event_resume x ev =
     (let ev = set_reserved x ev in
      case cas CORO_INIT CORO_RESUMED ev of
        (True, ev') \<Rightarrow> Ran None ev'
      | (False, _) \<Rightarrow>
          (case cas CORO_SUSPEND CORO_FINISHED ev of
             (True, ev') \<Rightarrow> (case do_resume ev' of Some (c, ev'') \<Rightarrow> Ran (Some c) ev'' | None \<Rightarrow> Failed)
           | (False, _) \<Rightarrow> Failed))"

definition co_event_await_suspend :: "nat \<Rightarrow> co_event \<Rightarrow> nat option ran" where
  "co_event_await_suspend caller ev =
     (let ev = ev\<lparr>ev_caller := Some caller\<rparr> in
      case cas CORO_INIT CORO_SUSPEND ev of
        (True, ev') \<Rightarrow> Ran None ev'
      | (False, _) \<Rightarrow>
          (case cas CORO_RESUMED CORO_FINISHED ev of
             (True, ev') \<Rightarrow> (case do_resume ev' of Some (c, ev'') \<Rightarrow> Ran (Some c) ev'' | None \<Rightarrow> Failed)
           | (False, _) \<Rightarrow> Failed))"

text \<open>In either order on one thread the coroutine goes on exactly once, and sees the value.\<close>

lemma resume_after_suspend:
  assumes "ev_status ev = CORO_INIT"
  obtains ev' ev'' where "co_event_await_suspend c ev = Ran None ev'"
    "co_event_resume x ev' = Ran (Some c) ev''" "await_resume ev'' = x" "ev_caller ev'' = None"
  using assms by (simp add: co_event_await_suspend_def co_event_resume_def cas_def do_resume_def
      set_reserved_def await_resume_def Let_def)

lemma suspend_after_resume:
  assumes "ev_status ev = CORO_INIT"
  obtains ev' ev'' where "co_event_resume x ev = Ran None ev'" "await_ready ev'"
    "co_event_await_suspend c ev' = Ran (Some c) ev''" "await_resume ev'' = x"
  using assms by (simp add: co_event_await_suspend_def co_event_resume_def cas_def do_resume_def
      set_reserved_def await_resume_def await_ready_def Let_def)

lemma resume_twice:
  assumes "co_event_resume x ev = Ran r ev'" shows "co_event_resume y ev' = Failed"
  using assms by (auto simp: co_event_resume_def cas_def do_resume_def set_reserved_def Let_def
      split: if_splits option.splits)

section \<open>Two threads\<close>

datatype await_pc = A_ready | A_store | A_cas1 | A_cas2 | A_resume | A_suspended | A_run | A_done int64

datatype resume_pc = R_set | R_cas1 | R_cas2 | R_resume | R_done

record event_sys =
  es_event :: co_event
  es_await :: await_pc
  es_resume :: resume_pc
  es_continued :: nat
  es_failed :: bool

text \<open>\<open>await_step c\<close>: \<^verbatim>\<open>co_await ev\<close> in the coroutine \<open>c\<close>.\<close>

inductive await_step :: "nat \<Rightarrow> event_sys \<Rightarrow> event_sys \<Rightarrow> bool" for c where
  ready_yes: "es_await s = A_ready \<Longrightarrow> await_ready (es_event s) \<Longrightarrow>
    await_step c s (s\<lparr>es_await := A_run, es_continued := es_continued s + 1\<rparr>)"
| ready_no: "es_await s = A_ready \<Longrightarrow> \<not> await_ready (es_event s) \<Longrightarrow> await_step c s (s\<lparr>es_await := A_store\<rparr>)"
| store_caller: "es_await s = A_store \<Longrightarrow>
    await_step c s (s\<lparr>es_await := A_cas1, es_event := (es_event s)\<lparr>ev_caller := Some c\<rparr>\<rparr>)"
| suspend_cas1: "es_await s = A_cas1 \<Longrightarrow> cas CORO_INIT CORO_SUSPEND (es_event s) = (b, ev) \<Longrightarrow>
    await_step c s (s\<lparr>es_await := (if b then A_suspended else A_cas2), es_event := ev\<rparr>)"
| suspend_cas2: "es_await s = A_cas2 \<Longrightarrow> cas CORO_RESUMED CORO_FINISHED (es_event s) = (b, ev) \<Longrightarrow>
    await_step c s (s\<lparr>es_await := (if b then A_resume else A_cas2), es_event := ev, es_failed := (es_failed s \<or> \<not> b)\<rparr>)"
| await_continue: "es_await s = A_resume \<Longrightarrow> do_resume (es_event s) = Some (c', ev) \<Longrightarrow>
    await_step c s (s\<lparr>es_await := A_run, es_event := ev, es_continued := es_continued s + 1\<rparr>)"
| await_no_caller: "es_await s = A_resume \<Longrightarrow> do_resume (es_event s) = None \<Longrightarrow> await_step c s (s\<lparr>es_failed := True\<rparr>)"
| run: "es_await s = A_run \<Longrightarrow> await_step c s (s\<lparr>es_await := A_done (await_resume (es_event s))\<rparr>)"

text \<open>\<open>resume_step x\<close>: \<open>ev.resume(x)\<close>; continuing the coroutine puts the awaiting side into \<open>A_run\<close>.\<close>

inductive resume_step :: "int64 \<Rightarrow> event_sys \<Rightarrow> event_sys \<Rightarrow> bool" for x where
  set_value: "es_resume s = R_set \<Longrightarrow> resume_step x s (s\<lparr>es_resume := R_cas1, es_event := set_reserved x (es_event s)\<rparr>)"
| resume_cas1: "es_resume s = R_cas1 \<Longrightarrow> cas CORO_INIT CORO_RESUMED (es_event s) = (b, ev) \<Longrightarrow>
    resume_step x s (s\<lparr>es_resume := (if b then R_done else R_cas2), es_event := ev\<rparr>)"
| resume_cas2: "es_resume s = R_cas2 \<Longrightarrow> cas CORO_SUSPEND CORO_FINISHED (es_event s) = (b, ev) \<Longrightarrow>
    resume_step x s (s\<lparr>es_resume := (if b then R_resume else R_cas2), es_event := ev, es_failed := (es_failed s \<or> \<not> b)\<rparr>)"
| resume_continue: "es_resume s = R_resume \<Longrightarrow> do_resume (es_event s) = Some (c, ev) \<Longrightarrow>
    resume_step x s (s\<lparr>es_resume := R_done, es_await := A_run, es_event := ev, es_continued := es_continued s + 1\<rparr>)"
| resume_no_caller: "es_resume s = R_resume \<Longrightarrow> do_resume (es_event s) = None \<Longrightarrow> resume_step x s (s\<lparr>es_failed := True\<rparr>)"

definition event_step :: "nat \<Rightarrow> int64 \<Rightarrow> event_sys \<Rightarrow> event_sys \<Rightarrow> bool" where
  "event_step c x s s' \<longleftrightarrow> await_step c s s' \<or> resume_step x s s'"

definition event_start :: "co_event \<Rightarrow> event_sys" where
  "event_start ev = \<lparr>es_event = ev\<lparr>ev_status := CORO_INIT, ev_caller := None\<rparr>, es_await = A_ready, es_resume = R_set,
     es_continued = 0, es_failed = False\<rparr>"

text \<open>What holds at each point of the two programs, by the status word.\<close>

definition event_inv :: "nat \<Rightarrow> int64 \<Rightarrow> event_sys \<Rightarrow> bool" where
  "event_inv c x s \<longleftrightarrow>
     (let ev = es_event s; a = es_await s; r = es_resume s in
      \<not> es_failed s \<and> (r \<noteq> R_set \<longrightarrow> ev_reserved ev = x) \<and>
      (case ev_status ev of
         CORO_INIT \<Rightarrow> a \<in> {A_ready, A_store, A_cas1} \<and> r \<in> {R_set, R_cas1} \<and> es_continued s = 0 \<and>
           (a = A_cas1 \<longrightarrow> ev_caller ev = Some c)
       | CORO_SUSPEND \<Rightarrow> a = A_suspended \<and> r \<in> {R_set, R_cas1, R_cas2} \<and> es_continued s = 0 \<and> ev_caller ev = Some c
       | CORO_RUNNING \<Rightarrow> False
       | CORO_RESUMED \<Rightarrow> r = R_done \<and>
           (a \<in> {A_ready, A_store} \<and> es_continued s = 0 \<or>
            a \<in> {A_cas1, A_cas2} \<and> es_continued s = 0 \<and> ev_caller ev = Some c \<or>
            a \<in> {A_run, A_done x} \<and> es_continued s = 1)
       | CORO_FINISHED \<Rightarrow>
            a = A_resume \<and> r = R_done \<and> es_continued s = 0 \<and> ev_caller ev = Some c \<or>
            a = A_suspended \<and> r = R_resume \<and> es_continued s = 0 \<and> ev_caller ev = Some c \<or>
            a \<in> {A_run, A_done x} \<and> r = R_done \<and> es_continued s = 1))"

lemma event_inv_start: "event_inv c x (event_start ev)"
  by (simp add: event_inv_def event_start_def)

lemmas event_step_simps = event_inv_def Let_def cas_def do_resume_def set_reserved_def await_ready_def await_resume_def

lemma event_inv_await: "await_step c s s' \<Longrightarrow> event_inv c x s \<Longrightarrow> event_inv c x s'"
  by (induction rule: await_step.induct)
    (auto simp: event_step_simps split: coro_status.splits if_splits)

lemma event_inv_resume: "resume_step x s s' \<Longrightarrow> event_inv c x s \<Longrightarrow> event_inv c x s'"
  by (induction rule: resume_step.induct)
    (auto simp: event_step_simps split: coro_status.splits if_splits)

lemma event_inv_reachable:
  "(event_step c x)\<^sup>*\<^sup>* (event_start ev) s \<Longrightarrow> event_inv c x s"
  by (induction rule: rtranclp_induct)
    (auto simp: event_step_def event_inv_start intro: event_inv_await event_inv_resume)

section \<open>Progress\<close>

fun await_left :: "await_pc \<Rightarrow> nat" where
  "await_left A_ready = 6" | "await_left A_store = 5" | "await_left A_cas1 = 4" | "await_left A_cas2 = 3"
| "await_left A_resume = 2" | "await_left A_suspended = 2" | "await_left A_run = 1" | "await_left (A_done _) = 0"

fun resume_left :: "resume_pc \<Rightarrow> nat" where
  "resume_left R_set = 4" | "resume_left R_cas1 = 3" | "resume_left R_cas2 = 2" | "resume_left R_resume = 1"
| "resume_left R_done = 0"

definition event_left :: "event_sys \<Rightarrow> nat" where
  "event_left s = await_left (es_await s) + resume_left (es_resume s)"

text \<open>Every step of a run uses up one of the at most ten accesses.\<close>

lemma await_step_left: "await_step c s s' \<Longrightarrow> event_inv c x s \<Longrightarrow> event_left s' < event_left s"
  by (induction rule: await_step.induct)
    (auto simp: event_left_def event_step_simps split: coro_status.splits if_splits)

lemma resume_step_left: "resume_step x s s' \<Longrightarrow> event_inv c x s \<Longrightarrow> event_left s' < event_left s"
  by (induction rule: resume_step.induct)
    (auto simp: event_left_def event_step_simps split: coro_status.splits if_splits)

lemma event_step_left: "event_step c x s s' \<Longrightarrow> event_inv c x s \<Longrightarrow> event_left s' < event_left s"
  by (auto simp: event_step_def intro: await_step_left resume_step_left)

lemma event_run_bound:
  "(event_step c x ^^ n) (event_start ev) s \<Longrightarrow> n + event_left s \<le> 10"
proof (induction n arbitrary: s)
  case 0
  then show ?case by (auto simp: event_left_def event_start_def)
next
  case (Suc n)
  then obtain t where t: "(event_step c x ^^ n) (event_start ev) t" "event_step c x t s" by auto
  then have "event_inv c x t" using relpowp_imp_rtranclp event_inv_reachable by metis
  then show ?case using Suc.IH [OF t(1)] event_step_left [OF t(2)] by fastforce
qed

lemma await_can_step:
  assumes "es_await s \<noteq> A_suspended" "\<And>v. es_await s \<noteq> A_done v" shows "\<exists>s'. await_step c s s'"
proof (cases "es_await s")
  case A_ready
  then show ?thesis by (metis ready_yes ready_no)
next
  case A_cas1
  then show ?thesis by (metis suspend_cas1 surj_pair)
next
  case A_cas2
  then show ?thesis by (metis suspend_cas2 surj_pair)
next
  case A_resume
  then show ?thesis by (metis await_continue await_no_caller not_Some_eq surj_pair)
qed (use assms in \<open>auto intro: await_step.intros\<close>)

lemma resume_can_step:
  assumes "es_resume s \<noteq> R_done" shows "\<exists>s'. resume_step x s s'"
proof (cases "es_resume s")
  case R_cas1
  then show ?thesis by (metis resume_cas1 surj_pair)
next
  case R_cas2
  then show ?thesis by (metis resume_cas2 surj_pair)
next
  case R_resume
  then show ?thesis by (metis resume_continue resume_no_caller not_Some_eq surj_pair)
qed (use assms in \<open>auto intro: resume_step.intros\<close>)

lemma event_stuck:
  assumes "event_inv c x s" "\<And>s'. \<not> event_step c x s s'"
  shows "es_await s = A_done x \<and> es_resume s = R_done \<and> es_continued s = 1 \<and> \<not> es_failed s"
proof -
  have "es_resume s = R_done" using resume_can_step [of s x] assms(2) by (auto simp: event_step_def)
  moreover have "es_await s = A_suspended \<or> (\<exists>v. es_await s = A_done v)"
    using await_can_step [of s c] assms(2) by (auto simp: event_step_def)
  ultimately show ?thesis using assms(1) by (auto simp: event_inv_def Let_def split: coro_status.splits)
qed

lemma event_inv_once:
  "event_inv c x s \<Longrightarrow>
   \<not> es_failed s \<and> es_continued s \<le> 1 \<and> (\<forall>v. es_await s = A_done v \<longrightarrow> v = x \<and> es_continued s = 1)"
  by (auto simp: event_inv_def Let_def split: coro_status.splits)

end
