(* ===== verification/Co_Async.thy ===== *)
theory Co_Async
  imports Intrusive_Queue Co_Event
begin

text \<open>
  \<^verbatim>\<open>co_async\<close> and \<^verbatim>\<open>guard::co_async\<close> (\<^verbatim>\<open>co_async.h\<close>, \<^verbatim>\<open>co_async.cpp\<close>), with \<^verbatim>\<open>local_resume.cpp\<close>: queues of the
  \<^verbatim>\<open>co_event\<close>s that coroutines wait on.

  The world is the heap of links, the events by address (an event is the queue node it derives from) and
  whatever else the program has (\<open>w_rest\<close>).  The code a continued coroutine runs until it next suspends is a
  parameter \<open>k\<close>: given the coroutine's handle, the value its \<^verbatim>\<open>co_await\<close> returns and the world, it gives the
  world it leaves.  \<open>None\<close> is a failed assertion, or a loop that never ends.
\<close>

section \<open>co_async\<close>

record 'r world =
  w_heap :: qheap
  w_events :: "node \<Rightarrow> co_event"
  w_rest :: 'r

type_synonym 'r code = "nat \<Rightarrow> int64 \<Rightarrow> 'r world \<Rightarrow> 'r world option"

definition put_event :: "node \<Rightarrow> co_event \<Rightarrow> 'r world \<Rightarrow> 'r world" where
  "put_event e ev w = w\<lparr>w_events := (w_events w)(e := ev)\<rparr>"

text \<open>\<open>co_event(this)\<close>: a fresh event at address \<open>e\<close>, queued at \<open>q\<close>; then the coroutine \<open>c\<close> awaits it.\<close>

definition co_async_suspend :: "node \<Rightarrow> node \<Rightarrow> nat \<Rightarrow> uint64 \<Rightarrow> int64 \<Rightarrow> 'r world \<Rightarrow> 'r world option" where
  "co_async_suspend q e c tid junk w =
     (case push_back q e (new_node e (w_heap w)) of
        None \<Rightarrow> None
      | Some h \<Rightarrow>
          (case co_event_await_suspend c \<lparr>ev_caller = None, ev_status = CORO_INIT, ev_tid = tid, ev_reserved = junk\<rparr> of
             Ran None ev \<Rightarrow> Some (put_event e ev (w\<lparr>w_heap := h\<rparr>))
           | _ \<Rightarrow> None))"

text \<open>\<open>c->resume(x)\<close> of the event at \<open>e\<close>, with the coroutine it continues.\<close>

definition resume_event :: "'r code \<Rightarrow> node \<Rightarrow> int64 \<Rightarrow> 'r world \<Rightarrow> 'r world option" where
  "resume_event k e x w =
     (case co_event_resume x (w_events w e) of
        Failed \<Rightarrow> None
      | Ran None ev \<Rightarrow> Some (put_event e ev w)
      | Ran (Some c) ev \<Rightarrow> k c (await_resume ev) (put_event e ev w))"

text \<open>\<open>c->__set_reserved(value); c->resume();\<close>: the default argument of \<^verbatim>\<open>resume\<close> is 0.\<close>

definition co_async_resume :: "'r code \<Rightarrow> node \<Rightarrow> int64 \<Rightarrow> 'r world \<Rightarrow> (bool \<times> 'r world) option" where
  "co_async_resume k q value w =
     (case pop_front q (w_heap w) of
        (None, h) \<Rightarrow> Some (False, w\<lparr>w_heap := h\<rparr>)
      | (Some c, h) \<Rightarrow>
          (let w' = w\<lparr>w_heap := h\<rparr>; w'' = put_event c (set_reserved value (w_events w' c)) w'
           in map_option (Pair True) (resume_event k c 0 w'')))"

definition co_async_resume_next_loop :: "node \<Rightarrow> node \<Rightarrow> 'r world \<Rightarrow> (bool \<times> 'r world) option" where
  "co_async_resume_next_loop local q w =
     (case pop_front q (w_heap w) of
        (None, h) \<Rightarrow> Some (False, w\<lparr>w_heap := h\<rparr>)
      | (Some c, h) \<Rightarrow> map_option (\<lambda>h'. (True, w\<lparr>w_heap := h'\<rparr>)) (push_back local c h))"

partial_function (option) co_async_resume_all ::
    "'r code \<Rightarrow> node \<Rightarrow> int64 \<Rightarrow> nat \<Rightarrow> 'r world \<Rightarrow> (nat \<times> 'r world) option" where
  "co_async_resume_all k q e count w =
     (case co_async_resume k q e w of
        None \<Rightarrow> None
      | Some (b, w') \<Rightarrow> if b then co_async_resume_all k q e (count + 1) w' else Some (count, w'))"

text \<open>\<^verbatim>\<open>local_resume\<close>: rounds of \<^verbatim>\<open>resume_all\<close> on the thread's own queue until a round finds it empty.\<close>

partial_function (option) local_resume :: "'r code \<Rightarrow> node \<Rightarrow> bool \<Rightarrow> 'r world \<Rightarrow> (bool \<times> 'r world) option" where
  "local_resume k local ok w =
     (case co_async_resume_all k local 0 0 w of
        None \<Rightarrow> None
      | Some (n, w') \<Rightarrow> if n > 0 then local_resume k local True w' else Some (ok, w'))"

section \<open>What the waiting coroutines get\<close>

text \<open>\<open>waiting w q cs\<close>: the queue \<open>q\<close> holds the events at \<open>map fst cs\<close>, each with its suspended coroutine.\<close>

definition waiting :: "'r world \<Rightarrow> node \<Rightarrow> (node \<times> nat) list \<Rightarrow> bool" where
  "waiting w q cs \<longleftrightarrow> ring (w_heap w) q (map fst cs) \<and>
     (\<forall>(e, c) \<in> set cs. ev_status (w_events w e) = CORO_SUSPEND \<and> ev_caller (w_events w e) = Some c)"

lemma ring_new_node: "ring h q xs \<Longrightarrow> e \<notin> set (q # xs) \<Longrightarrow> ring (new_node e h) q xs"
  using ring_frame [OF _ new_node_ring(2)] by auto

lemma suspend_waits:
  assumes "waiting w q cs" "e \<notin> set (q # map fst cs)"
  shows "\<exists>w'. co_async_suspend q e c tid junk w = Some w' \<and> waiting w' q (cs @ [(e, c)]) \<and> w_rest w' = w_rest w"
proof -
  have r: "ring (w_heap w) q (map fst cs)" using assms(1) by (simp add: waiting_def)
  obtain h where h: "push_back q e (new_node e (w_heap w)) = Some h" "ring h q (map fst cs @ [e])"
    using push_back_ring [OF ring_new_node [OF r assms(2)] assms(2)] by blast
  have "waiting (put_event e \<lparr>ev_caller = Some c, ev_status = CORO_SUSPEND, ev_tid = tid, ev_reserved = junk\<rparr>
      (w\<lparr>w_heap := h\<rparr>)) q (cs @ [(e, c)])"
    using assms h(2) by (auto simp: waiting_def put_event_def image_iff split: prod.splits)
  then show ?thesis
    using h(1) by (simp add: co_async_suspend_def co_event_await_suspend_def cas_def put_event_def Let_def)
qed

text \<open>
  The head of the queue goes on; whatever value the caller passed, its \<^verbatim>\<open>co_await\<close> returns 0.
\<close>

lemma resume_head:
  assumes "waiting w q ((e, c) # cs)"
  obtains w' where "co_async_resume k q value w = map_option (Pair True) (k c 0 w')" "waiting w' q cs"
    "w_rest w' = w_rest w"
proof -
  let ?ev = "w_events w e"
  have r: "ring (w_heap w) q (e # map fst cs)" and s: "ev_status ?ev = CORO_SUSPEND" "ev_caller ?ev = Some c"
    using assms by (auto simp: waiting_def)
  obtain h where h: "pop_front q (w_heap w) = (Some e, h)" "ring h q (map fst cs)"
    using pop_front_ring [OF r] by auto
  define w' where "w' = (w\<lparr>w_heap := h\<rparr>)\<lparr>w_events := (w_events w)(e := ?ev\<lparr>ev_reserved := 0, ev_status := CORO_FINISHED, ev_caller := None\<rparr>)\<rparr>"
  have "co_async_resume k q value w = map_option (Pair True) (k c 0 w')"
    using s by (simp add: co_async_resume_def h(1) Let_def resume_event_def co_event_resume_def cas_def do_resume_def
        set_reserved_def put_event_def await_resume_def w'_def)
  moreover have "e \<notin> set (map fst cs)" using r by (simp add: ring_def)
  then have "waiting w' q cs" using assms h(2) by (auto simp: waiting_def w'_def image_iff split: prod.splits)
  ultimately show ?thesis using that by (simp add: w'_def)
qed

lemma resume_none: "waiting w q [] \<Longrightarrow> co_async_resume k q value w = Some (False, w)"
  using pop_front_ring [of "w_heap w" q "[]"] by (simp add: waiting_def co_async_resume_def)

text \<open>
  \<^verbatim>\<open>resume_all\<close> ends when the continued coroutines leave the queue alone: each waiting coroutine goes on once,
  in the order they came.  \<open>f\<close> is what a coroutine does to the rest of the world.
\<close>

lemma resume_all_runs:
  assumes keeps: "\<And>c w cs. waiting w q cs \<Longrightarrow> \<exists>w'. k c 0 w = Some w' \<and> waiting w' q cs \<and> w_rest w' = f c (w_rest w)"
  shows "waiting w q cs \<Longrightarrow> \<exists>w'. co_async_resume_all k q v n w = Some (n + length cs, w') \<and> waiting w' q [] \<and>
    w_rest w' = fold f (map snd cs) (w_rest w)"
proof (induction cs arbitrary: w n)
  case Nil
  then show ?case by (subst co_async_resume_all.simps) (simp add: resume_none)
next
  case (Cons ec cs)
  obtain e c where ec: "ec = (e, c)" by (cases ec)
  obtain w' where w': "co_async_resume k q v w = map_option (Pair True) (k c 0 w')" "waiting w' q cs" "w_rest w' = w_rest w"
    using resume_head [of w q e c cs k v] Cons.prems unfolding ec by blast
  obtain w2 where w2: "k c 0 w' = Some w2" "waiting w2 q cs" "w_rest w2 = f c (w_rest w')"
    using keeps [OF w'(2), of c] by blast
  show ?case
    using Cons.IH [OF w2(2), of "n + 1"] w' w2(1,3) ec by (subst co_async_resume_all.simps) auto
qed

text \<open>Coroutines that only write down what they saw.\<close>

lemma waiting_rest [simp]: "waiting (w\<lparr>w_rest := r\<rparr>) q cs = waiting w q cs"
  by (simp add: waiting_def)

lemma resume_head_observed:
  assumes "waiting w q ((e, c) # cs)"
  shows "\<exists>w'. co_async_resume (\<lambda>c v w. Some (w\<lparr>w_rest := (c, v)\<rparr>)) q value w = Some (True, w') \<and>
    w_rest w' = (c, 0) \<and> waiting w' q cs"
proof -
  let ?k = "\<lambda>c v w. Some (w\<lparr>w_rest := (c, v)\<rparr>)"
  obtain w' where "co_async_resume ?k q value w = map_option (Pair True) (?k c 0 w')" "waiting w' q cs"
    using resume_head [OF assms, of ?k "value"] by blast
  then show ?thesis by simp
qed

lemma resume_all_logged:
  assumes "waiting w q cs"
  shows "\<exists>w'. co_async_resume_all (\<lambda>c v w. Some (w\<lparr>w_rest := w_rest w @ [c]\<rparr>)) q v 0 w = Some (length cs, w') \<and>
    waiting w' q [] \<and> w_rest w' = w_rest w @ map snd cs"
proof -
  let ?k = "\<lambda>c v w. Some (w\<lparr>w_rest := w_rest w @ [c]\<rparr>)"
  have "fold (\<lambda>c log. log @ [c]) xs log = log @ xs" for xs log :: "nat list"
    by (induction xs arbitrary: log) auto
  then show ?thesis
    using resume_all_runs [of q ?k "\<lambda>c log. log @ [c]", OF _ assms, of v 0] by simp
qed

end
