(* ===== verification/Co_Sync.thy ===== *)
theory Co_Sync
  imports Main
begin

text \<open>
  The primitives coroutines synchronise with: the critical sections of \<^verbatim>\<open>guard::co_async\<close> (\<^verbatim>\<open>co_async.cpp\<close>) and,
  on top of them, \<^verbatim>\<open>guard::co_mutex\<close> (\<^verbatim>\<open>co_mutex.cpp\<close>), \<^verbatim>\<open>guard::co_channel\<close> (\<^verbatim>\<open>co_channel.h\<close>) and
  \<^verbatim>\<open>co_waitgroup\<close> (\<^verbatim>\<open>co_waitgroup.cpp\<close>); and the unguarded \<^verbatim>\<open>co_channel\<close>.

  What runs between \<open>m_mutex.lock()\<close> and \<open>unlock()\<close> is one step.  The queue of events is the list of the
  waiting tasks (the refinement of the linked list is shown with the queue); a task whose event was popped
  goes on exactly once (shown with the event), so popping counts as continuing it.  A task identifier stands
  for one call of the awaiting method.
\<close>

section \<open>Inductive invariants\<close>

text \<open>An invariant that holds at the start and survives every step holds in every reachable state.\<close>

locale inductive_invariant =
  fixes step :: "'s \<Rightarrow> 's \<Rightarrow> bool" and init :: 's and inv :: "'s \<Rightarrow> bool"
  assumes inv_init: "inv init" and inv_step: "step s s' \<Longrightarrow> inv s \<Longrightarrow> inv s'"
begin

lemma reachable: "step\<^sup>*\<^sup>* init s \<Longrightarrow> inv s"
  by (induction rule: rtranclp_induct) (auto intro: inv_init inv_step)

end

section \<open>The critical sections of guard::co_async\<close>

type_synonym task = nat

text \<open>\<^verbatim>\<open>suspend(_suspend, _get)\<close> up to the unlock: \<open>True\<close> if the task waits.\<close>

definition guard_suspend :: "('s \<Rightarrow> bool) \<Rightarrow> ('s \<Rightarrow> 's) \<Rightarrow> task \<Rightarrow> 's \<times> task list \<Rightarrow> bool \<times> 's \<times> task list" where
  "guard_suspend susp get t x =
     (if susp (fst x) then (True, fst x, snd x @ [t]) else (False, get (fst x), snd x))"

text \<open>
  \<^verbatim>\<open>__ev(_set)\<close>: run \<open>_set\<close>, pop the first waiting event, run its getter; shared by \<^verbatim>\<open>deliver\<close> and
  \<^verbatim>\<open>resume\<close>, which then continue the popped task, if any.
\<close>

definition guard_ev :: "('s \<Rightarrow> 's) \<Rightarrow> (task \<Rightarrow> 's \<Rightarrow> 's) \<Rightarrow> 's \<times> task list \<Rightarrow> task option \<times> 's \<times> task list" where
  "guard_ev setter getter x =
     (case snd x of
        [] \<Rightarrow> (None, setter (fst x), [])
      | t # ts \<Rightarrow> (Some t, getter t (setter (fst x)), ts))"

section \<open>guard::co_mutex\<close>

record mutex =
  mx_flag :: bool \<comment> \<open>\<open>m_flag == on\<close>\<close>
  mx_waiter :: "task list"
  mx_holders :: "task set" \<comment> \<open>the tasks whose \<open>lock()\<close> or \<open>try_lock()\<close> succeeded and that did not unlock yet\<close>

definition mutex_lock :: "task \<Rightarrow> mutex \<Rightarrow> mutex" where
  "mutex_lock t m =
     (case guard_suspend (\<lambda>flag. flag) (\<lambda>_. True) t (mx_flag m, mx_waiter m) of
        (waits, flag, ws) \<Rightarrow>
          m\<lparr>mx_flag := flag, mx_waiter := ws, mx_holders := (if waits then mx_holders m else insert t (mx_holders m))\<rparr>)"

definition mutex_unlock :: "task \<Rightarrow> mutex \<Rightarrow> mutex" where
  "mutex_unlock t m =
     (case guard_ev (\<lambda>_. False) (\<lambda>_ _. True) (mx_flag m, mx_waiter m) of
        (next, flag, ws) \<Rightarrow>
          m\<lparr>mx_flag := flag, mx_waiter := ws, mx_holders := (mx_holders m - {t}) \<union> set_option next\<rparr>)"

definition mutex_try_lock :: "task \<Rightarrow> mutex \<Rightarrow> bool \<times> mutex" where
  "mutex_try_lock t m =
     (if mx_flag m then (False, m) else (True, m\<lparr>mx_flag := True, mx_holders := insert t (mx_holders m)\<rparr>))"

text \<open>Any interleaving of tasks that unlock only what they hold.\<close>

inductive mutex_step :: "mutex \<Rightarrow> mutex \<Rightarrow> bool" where
  lock: "t \<notin> mx_holders m \<Longrightarrow> t \<notin> set (mx_waiter m) \<Longrightarrow> mutex_step m (mutex_lock t m)"
| unlock: "t \<in> mx_holders m \<Longrightarrow> mutex_step m (mutex_unlock t m)"
| try_lock: "t \<notin> mx_holders m \<Longrightarrow> t \<notin> set (mx_waiter m) \<Longrightarrow> mutex_step m (snd (mutex_try_lock t m))"

definition mutex_init :: mutex where
  "mutex_init = \<lparr>mx_flag = False, mx_waiter = [], mx_holders = {}\<rparr>"

definition mutex_inv :: "mutex \<Rightarrow> bool" where
  "mutex_inv m \<longleftrightarrow>
     (if mx_flag m then \<exists>t. mx_holders m = {t} \<and> t \<notin> set (mx_waiter m)
      else mx_holders m = {} \<and> mx_waiter m = []) \<and> distinct (mx_waiter m)"

lemmas mutex_defs = mutex_inv_def mutex_lock_def mutex_unlock_def mutex_try_lock_def guard_suspend_def guard_ev_def

lemma mutex_inv_step: "mutex_step m m' \<Longrightarrow> mutex_inv m \<Longrightarrow> mutex_inv m'"
  by (induction rule: mutex_step.induct) (auto simp: mutex_defs split: list.splits if_splits)

interpretation mxinv: inductive_invariant mutex_step mutex_init mutex_inv
  by (unfold_locales, simp add: mutex_init_def mutex_inv_def) (rule mutex_inv_step)


text \<open>Unlocking hands the mutex to the task that has waited longest, or frees it.\<close>

lemma mutex_unlock_handoff:
  assumes "mutex_inv m" "t \<in> mx_holders m"
  shows "mx_holders (mutex_unlock t m) = (case mx_waiter m of [] \<Rightarrow> {} | u # _ \<Rightarrow> {u})"
    "mx_waiter (mutex_unlock t m) = tl (mx_waiter m)" "mx_flag (mutex_unlock t m) \<longleftrightarrow> mx_waiter m \<noteq> []"
  using assms by (auto simp: mutex_defs split: list.splits if_splits)

section \<open>guard::co_channel\<close>

text \<open>
  \<open>ch_data\<close> is \<open>m_data\<close>; \<open>ch_got\<close> records which task got which value, in order, \<open>ch_sent\<close> the values passed to
  \<^verbatim>\<open>set\<close>; \<open>ch_bad\<close> that \<^verbatim>\<open>__pop_front\<close> ran on an empty \<^verbatim>\<open>std::queue\<close>, which is undefined.
\<close>

record 'a chan =
  ch_data :: "'a list"
  ch_waiter :: "task list"
  ch_got :: "(task \<times> 'a) list"
  ch_sent :: "'a list"
  ch_bad :: bool

definition chan_pop :: "task \<Rightarrow> 'a chan \<Rightarrow> 'a chan" where
  "chan_pop t c =
     (case ch_data c of
        [] \<Rightarrow> c\<lparr>ch_bad := True\<rparr>
      | x # xs \<Rightarrow> c\<lparr>ch_data := xs, ch_got := ch_got c @ [(t, x)]\<rparr>)"

definition chan_set :: "'a \<Rightarrow> 'a chan \<Rightarrow> 'a chan" where
  "chan_set x c =
     (case guard_ev (\<lambda>c. c\<lparr>ch_data := ch_data c @ [x], ch_sent := ch_sent c @ [x]\<rparr>) chan_pop (c, ch_waiter c) of
        (_, c', ws) \<Rightarrow> c'\<lparr>ch_waiter := ws\<rparr>)"

definition chan_get :: "task \<Rightarrow> 'a chan \<Rightarrow> 'a chan" where
  "chan_get t c =
     (case guard_suspend (\<lambda>c. ch_data c = []) (chan_pop t) t (c, ch_waiter c) of
        (_, c', ws) \<Rightarrow> c'\<lparr>ch_waiter := ws\<rparr>)"

definition chan_try_get :: "task \<Rightarrow> 'a chan \<Rightarrow> bool \<times> 'a chan" where
  "chan_try_get t c = (if ch_data c \<noteq> [] then (True, chan_pop t c) else (False, c))"

inductive chan_step :: "'a chan \<Rightarrow> 'a chan \<Rightarrow> bool" where
  put: "chan_step c (chan_set x c)"
| get: "chan_step c (chan_get t c)"
| try_get: "chan_step c (snd (chan_try_get t c))"

definition chan_init :: "'a chan" where
  "chan_init = \<lparr>ch_data = [], ch_waiter = [], ch_got = [], ch_sent = [], ch_bad = False\<rparr>"

definition chan_inv :: "'a chan \<Rightarrow> bool" where
  "chan_inv c \<longleftrightarrow> \<not> ch_bad c \<and> (ch_waiter c \<noteq> [] \<longrightarrow> ch_data c = []) \<and> ch_sent c = map snd (ch_got c) @ ch_data c"

lemmas chan_defs = chan_inv_def chan_set_def chan_get_def chan_try_get_def chan_pop_def guard_suspend_def guard_ev_def

lemma chan_inv_step: "chan_step c c' \<Longrightarrow> chan_inv c \<Longrightarrow> chan_inv c'"
  by (induction rule: chan_step.induct) (auto simp: chan_defs split: list.splits if_splits)

interpretation chinv: inductive_invariant chan_step chan_init chan_inv
  by (unfold_locales, simp add: chan_init_def chan_inv_def) (rule chan_inv_step)


section \<open>co_waitgroup\<close>

text \<open>
  \<open>wg_draining\<close> counts the calls of \<^verbatim>\<open>done\<close> that are inside their loop \<open>while (m_waiter.deliver(0))\<close>; each round of
  a loop is a step of its own.  \<open>m_count\<close> is an \<open>int\<close>.
\<close>

record waitgroup =
  wg_count :: int
  wg_waiter :: "task list"
  wg_released :: "task set"
  wg_draining :: nat

definition wg_add :: "int \<Rightarrow> waitgroup \<Rightarrow> waitgroup" where
  "wg_add n g = g\<lparr>wg_count := wg_count g + n\<rparr>"

definition wg_wait :: "task \<Rightarrow> waitgroup \<Rightarrow> waitgroup" where
  "wg_wait t g =
     (case guard_suspend (\<lambda>count. count > 0) (\<lambda>count. count) t (wg_count g, wg_waiter g) of
        (waits, _, ws) \<Rightarrow>
          g\<lparr>wg_waiter := ws, wg_released := (if waits then wg_released g else insert t (wg_released g))\<rparr>)"

definition wg_done :: "waitgroup \<Rightarrow> waitgroup" where
  "wg_done g =
     (let g' = g\<lparr>wg_count := wg_count g - 1\<rparr>
      in if wg_count g' > 0 then g' else g'\<lparr>wg_draining := wg_draining g' + 1\<rparr>)"

text \<open>One round of the loop: \<^verbatim>\<open>deliver(0)\<close> with its empty \<open>_set\<close>.\<close>

definition wg_drain :: "waitgroup \<Rightarrow> waitgroup" where
  "wg_drain g =
     (case guard_ev (\<lambda>count. count) (\<lambda>_ count. count) (wg_count g, wg_waiter g) of
        (Some t, _, ws) \<Rightarrow> g\<lparr>wg_waiter := ws, wg_released := insert t (wg_released g)\<rparr>
      | (None, _, ws) \<Rightarrow> g\<lparr>wg_waiter := ws, wg_draining := wg_draining g - 1\<rparr>)"

inductive wg_step :: "waitgroup \<Rightarrow> waitgroup \<Rightarrow> bool" where
  add: "0 \<le> n \<Longrightarrow> wg_count g + n < 2 ^ 31 \<Longrightarrow> wg_step g (wg_add n g)"
| wait: "wg_step g (wg_wait t g)"
| finish: "- (2 ^ 31) < wg_count g \<Longrightarrow> wg_step g (wg_done g)"
| drain: "wg_draining g > 0 \<Longrightarrow> wg_step g (wg_drain g)"

definition wg_init :: waitgroup where
  "wg_init = \<lparr>wg_count = 0, wg_waiter = [], wg_released = {}, wg_draining = 0\<rparr>"

definition wg_inv :: "waitgroup \<Rightarrow> bool" where
  "wg_inv g \<longleftrightarrow> (wg_waiter g \<noteq> [] \<longrightarrow> wg_count g > 0 \<or> wg_draining g > 0)"

lemmas wg_defs = wg_inv_def wg_add_def wg_wait_def wg_done_def wg_drain_def guard_suspend_def guard_ev_def Let_def

lemma wg_inv_step: "wg_step g g' \<Longrightarrow> wg_inv g \<Longrightarrow> wg_inv g'"
  by (induction rule: wg_step.induct) (auto simp: wg_defs split: list.splits if_splits)

interpretation wginv: inductive_invariant wg_step wg_init wg_inv
  by (unfold_locales, simp add: wg_init_def wg_inv_def) (rule wg_inv_step)


text \<open>The loop of \<^verbatim>\<open>done\<close> releases every task that waits when it starts, in at most one round each.\<close>

lemma wg_drain_all:
  "(wg_drain ^^ length (wg_waiter g)) g =
     g\<lparr>wg_waiter := [], wg_released := wg_released g \<union> set (wg_waiter g)\<rparr>"
proof (induction "wg_waiter g" arbitrary: g)
  case (Cons t ts)
  let ?g = "g\<lparr>wg_waiter := ts, wg_released := insert t (wg_released g)\<rparr>"
  have "wg_drain g = ?g" using Cons.hyps(2) by (simp add: wg_defs flip: Cons.hyps(2))
  then show ?case using Cons.hyps(1) [of ?g] Cons.hyps(2) by (simp add: funpow_Suc_right flip: Cons.hyps(2) del: funpow.simps)
qed simp

section \<open>co_channel\<close>

text \<open>
  The unguarded channel of one thread: \<^verbatim>\<open>set\<close> appends the value and moves the first waiting event to the
  thread's own queue (\<open>lc_next\<close>), to be continued in the next round of the loop; the continued \<^verbatim>\<open>get\<close> pops
  without looking whether the value is still there.
\<close>

record 'a lchan =
  lc_chan :: "'a chan"
  lc_next :: "task list"

definition lchan_set :: "'a \<Rightarrow> 'a lchan \<Rightarrow> 'a lchan" where
  "lchan_set x l =
     (let c = (lc_chan l)\<lparr>ch_data := ch_data (lc_chan l) @ [x], ch_sent := ch_sent (lc_chan l) @ [x]\<rparr>
      in case ch_waiter c of
           [] \<Rightarrow> l\<lparr>lc_chan := c\<rparr>
         | t # ts \<Rightarrow> l\<lparr>lc_chan := c\<lparr>ch_waiter := ts\<rparr>, lc_next := lc_next l @ [t]\<rparr>)"

definition lchan_get :: "task \<Rightarrow> 'a lchan \<Rightarrow> 'a lchan" where
  "lchan_get t l =
     (let c = lc_chan l
      in l\<lparr>lc_chan := (if ch_data c = [] then c\<lparr>ch_waiter := ch_waiter c @ [t]\<rparr> else chan_pop t c)\<rparr>)"

definition lchan_try_get :: "task \<Rightarrow> 'a lchan \<Rightarrow> bool \<times> 'a lchan" where
  "lchan_try_get t l =
     (if ch_data (lc_chan l) = [] then (False, l) else (True, l\<lparr>lc_chan := chan_pop t (lc_chan l)\<rparr>))"

definition lchan_continue :: "'a lchan \<Rightarrow> 'a lchan" where
  "lchan_continue l =
     (case lc_next l of [] \<Rightarrow> l | t # ts \<Rightarrow> l\<lparr>lc_next := ts, lc_chan := chan_pop t (lc_chan l)\<rparr>)"

definition lchan_init :: "'a lchan" where
  "lchan_init = \<lparr>lc_chan = chan_init, lc_next = []\<rparr>"

text \<open>
  \<open>lchan_step True\<close> allows every call at every time; \<open>lchan_step False\<close> leaves the values alone while a woken
  task is still to run.
\<close>

inductive lchan_step :: "bool \<Rightarrow> 'a lchan \<Rightarrow> 'a lchan \<Rightarrow> bool" for steal where
  lput: "lchan_step steal l (lchan_set x l)"
| lget: "steal \<or> lc_next l = [] \<Longrightarrow> lchan_step steal l (lchan_get t l)"
| ltry: "steal \<or> lc_next l = [] \<Longrightarrow> lchan_step steal l (snd (lchan_try_get t l))"
| lcontinue: "lchan_step steal l (lchan_continue l)"

definition lchan_inv :: "'a lchan \<Rightarrow> bool" where
  "lchan_inv l \<longleftrightarrow> \<not> ch_bad (lc_chan l) \<and> length (lc_next l) \<le> length (ch_data (lc_chan l)) \<and>
     ch_sent (lc_chan l) = map snd (ch_got (lc_chan l)) @ ch_data (lc_chan l)"

lemmas lchan_defs = lchan_inv_def lchan_set_def lchan_get_def lchan_try_get_def lchan_continue_def chan_pop_def Let_def

lemma lchan_inv_step: "lchan_step False l l' \<Longrightarrow> lchan_inv l \<Longrightarrow> lchan_inv l'"
  by (induction rule: lchan_step.induct) (auto simp: lchan_defs split: list.splits if_splits)

interpretation lcinv: inductive_invariant "lchan_step False" lchan_init lchan_inv
  by (unfold_locales, simp add: lchan_init_def lchan_inv_def chan_init_def) (rule lchan_inv_step)

text \<open>A task waits, a value is sent, another task takes it, and the woken task finds nothing.\<close>

definition stolen_run :: "int lchan" where
  "stolen_run = lchan_continue (snd (lchan_try_get 2 (lchan_set 5 (lchan_get 1 lchan_init))))"

lemma stolen_run_reachable: "(lchan_step True)\<^sup>*\<^sup>* lchan_init stolen_run"
proof -
  have "lchan_step True lchan_init (lchan_get 1 lchan_init)" by (simp add: lget)
  moreover have "lchan_step True l (snd (lchan_try_get 2 l))" "lchan_step True l (lchan_continue l)"
    "lchan_step True l (lchan_set 5 l)" for l :: "int lchan"
    by (simp_all add: ltry lcontinue lput)
  ultimately show ?thesis unfolding stolen_run_def by (meson rtranclp.rtrancl_into_rtrancl rtranclp.rtrancl_refl)
qed

lemma stolen_run_bad: "ch_bad (lc_chan stolen_run)"
  by (simp add: stolen_run_def lchan_defs lchan_init_def chan_init_def)

end
