(* ===== verification/Co_Task.thy ===== *)
theory Co_Task
  imports Co_Async "HOL-Library.AList"
begin

text \<open>
  \<^verbatim>\<open>co_task\<close> (\<^verbatim>\<open>co_task.h\<close>, \<^verbatim>\<open>co_task.cpp\<close>): the table of running coroutines and their identifiers, on top of the
  queue of the coroutines that wait for one of them to end.

  \<open>m_promises\<close> is an association list from promise addresses to identifiers, \<open>m_waiter\<close> the queue node \<open>q\<close>.  The
  world's rest holds the table, the promises by address and the thread's \<^verbatim>\<open>is_destroying\<close> counter.  The code of
  other coroutines is a parameter: \<open>k\<close> for a coroutine continued by an event, \<open>run\<close> for the coroutine of a
  promise, \<open>kill\<close> for the destruction of its frame.  The loop of \<^verbatim>\<open>__increase\<close> has no bound of its own: it is a
  \<open>partial_function\<close>, where \<open>None\<close> is a loop that never ends, and it is shown to return.  The identifier is an
  \<open>int64_t\<close> that stays far below its limits.
\<close>

section \<open>Identifiers\<close>

definition TASK_ID_MAX :: int where
  "TASK_ID_MAX = 1000000000000000000"

partial_function (option) increase_loop :: "int \<Rightarrow> int set \<Rightarrow> int option" where
  "increase_loop k ids =
     (let k1 = k + 1; k2 = (if k1 > TASK_ID_MAX then 0 else k1)
      in if k2 \<notin> ids then Some k2 else increase_loop k2 ids)"

text \<open>\<^verbatim>\<open>__increase\<close>: the new identifier, which is also the new \<open>m_id\<close>, and the new \<open>m_ids\<close>.\<close>

definition increase :: "int \<Rightarrow> int set \<Rightarrow> (int \<times> int set) option" where
  "increase k ids =
     (if int (card ids) < TASK_ID_MAX div 2
      then map_option (\<lambda>i. (i, insert i ids)) (increase_loop k ids) else None)"

text \<open>The rounds until the free identifier \<open>f\<close> is tried.\<close>

lemma increase_loop_finds:
  assumes "0 \<le> f" "f \<le> TASK_ID_MAX" "f \<notin> ids"
  shows "0 \<le> k \<Longrightarrow> k \<le> TASK_ID_MAX \<Longrightarrow> nat ((f - k - 1) mod (TASK_ID_MAX + 1)) = n \<Longrightarrow>
    \<exists>i. increase_loop k ids = Some i \<and> i \<notin> ids \<and> 0 \<le> i \<and> i \<le> TASK_ID_MAX"
proof (induction n arbitrary: k)
  case 0
  have m: "(f - k - 1) mod (TASK_ID_MAX + 1) = 0"
    using 0(3) pos_mod_sign [of "TASK_ID_MAX + 1" "f - k - 1"] by (simp add: TASK_ID_MAX_def)
  have "f = k + 1 \<or> f - k - 1 = - (TASK_ID_MAX + 1)"
  proof (cases "k + 1 \<le> f")
    case True
    then have "(f - k - 1) mod (TASK_ID_MAX + 1) = f - k - 1"
      using assms 0(1) by (intro mod_pos_pos_trivial) auto
    then show ?thesis using m by simp
  next
    case False
    then have "(f - k - 1 + (TASK_ID_MAX + 1)) mod (TASK_ID_MAX + 1) = f - k - 1 + (TASK_ID_MAX + 1)"
      using assms 0(2) by (intro mod_pos_pos_trivial) auto
    then have "f - k - 1 + (TASK_ID_MAX + 1) = 0" unfolding mod_add_self2 m by simp
    then show ?thesis by simp
  qed
  then have "(if k + 1 > TASK_ID_MAX then 0 else k + 1) = f" using assms 0(1,2) by auto
  then show ?case using assms by (subst increase_loop.simps) (simp add: Let_def)
next
  case (Suc n)
  define k1 where "k1 = (if k + 1 > TASK_ID_MAX then 0 else k + 1)"
  have b: "0 \<le> k1" "k1 \<le> TASK_ID_MAX" using Suc.prems by (auto simp: k1_def TASK_ID_MAX_def)
  have "(f - k - 1) mod (TASK_ID_MAX + 1) = int (Suc n)"
    using Suc.prems(3) pos_mod_sign [of "TASK_ID_MAX + 1" "f - k - 1"] by (simp add: TASK_ID_MAX_def)
  moreover have "(f - k1 - 1) mod (TASK_ID_MAX + 1) = (f - k - 1 - 1) mod (TASK_ID_MAX + 1)"
  proof (cases "k + 1 > TASK_ID_MAX")
    case True
    then have "k = TASK_ID_MAX" using Suc.prems by simp
    then have "f - k - 1 - 1 = f - k1 - 1 + (- 1) * (TASK_ID_MAX + 1)" using True by (simp add: k1_def)
    then show ?thesis by (metis mod_mult_self1)
  qed (simp add: k1_def)
  moreover have "((f - k - 1) - 1) mod (TASK_ID_MAX + 1) = ((f - k - 1) mod (TASK_ID_MAX + 1) - 1) mod (TASK_ID_MAX + 1)"
    by (simp add: mod_diff_left_eq)
  moreover have "int n mod (TASK_ID_MAX + 1) = int n"
    using calculation(1) pos_mod_bound [of "TASK_ID_MAX + 1" "f - k - 1"] by (intro mod_pos_pos_trivial) (auto simp: TASK_ID_MAX_def)
  ultimately have "nat ((f - k1 - 1) mod (TASK_ID_MAX + 1)) = n" by simp
  have "increase_loop k ids = (if k1 \<notin> ids then Some k1 else increase_loop k1 ids)"
    by (subst increase_loop.simps) (simp only: Let_def flip: k1_def)
  then show ?case using Suc.IH [OF b \<open>nat ((f - k1 - 1) mod (TASK_ID_MAX + 1)) = n\<close>] b by auto
qed

lemma increase_returns:
  assumes "finite ids" "int (card ids) < TASK_ID_MAX div 2" "0 \<le> k" "k \<le> TASK_ID_MAX"
  shows "\<exists>i. increase k ids = Some (i, insert i ids) \<and> i \<notin> ids \<and> 0 \<le> i \<and> i \<le> TASK_ID_MAX"
proof -
  have "\<not> {0..TASK_ID_MAX} \<subseteq> ids"
  proof
    assume "{0..TASK_ID_MAX} \<subseteq> ids"
    then have "card {0..TASK_ID_MAX} \<le> card ids" by (rule card_mono [OF assms(1)])
    then show False using assms(2) by (simp add: TASK_ID_MAX_def)
  qed
  then obtain f where "f \<in> {0..TASK_ID_MAX}" "f \<notin> ids" by blast
  then have "0 \<le> f" "f \<le> TASK_ID_MAX" "f \<notin> ids" by simp_all
  from increase_loop_finds [OF this assms(3,4) refl] show ?thesis using assms(2) by (auto simp: increase_def)
qed

section \<open>Promises and the table\<close>

text \<open>\<^verbatim>\<open>details::type\<close> and \<^verbatim>\<open>promise\<close> of \<^verbatim>\<open>promise.h\<close>; \<open>pr_link\<close> is the union of \<open>m_caller\<close> and \<open>m_task\<close>.\<close>

datatype coro_type = CORO_NONE | CORO_TASK | CORO_GUARD_TASK | CORO_COROUTINE_HANDLE

record promise =
  pr_link :: "nat option"
  pr_tid :: uint64
  pr_status :: coro_status
  pr_type :: coro_type

record co_task =
  tk_promises :: "(nat \<times> int) list"
  tk_ids :: "int set"
  tk_id :: int

record task_rest =
  tr_task :: co_task
  tr_promise :: "nat \<Rightarrow> promise"
  tr_destroying :: int

type_synonym task_world = "task_rest world"

definition set_task :: "co_task \<Rightarrow> task_world \<Rightarrow> task_world" where
  "set_task t w = w\<lparr>w_rest := (w_rest w)\<lparr>tr_task := t\<rparr>\<rparr>"

definition set_promise :: "nat \<Rightarrow> promise \<Rightarrow> task_world \<Rightarrow> task_world" where
  "set_promise p pr w = w\<lparr>w_rest := (w_rest w)\<lparr>tr_promise := (tr_promise (w_rest w))(p := pr)\<rparr>\<rparr>"

definition int_of_id :: "int \<Rightarrow> int" where
  "int_of_id k = (k + 2 ^ 31) mod 2 ^ 32 - 2 ^ 31"

text \<open>\<^verbatim>\<open>__finally\<close>: a coroutine that was suspended at its start is continued.\<close>

definition task_finally :: "(nat \<Rightarrow> task_world \<Rightarrow> task_world option) \<Rightarrow> nat \<Rightarrow> task_world \<Rightarrow> task_world option" where
  "task_finally run p w =
     (let pr = tr_promise (w_rest w) p
      in if pr_status pr = CORO_SUSPEND then run p (set_promise p (pr\<lparr>pr_status := CORO_RUNNING\<rparr>) w) else Some w)"

text \<open>
  The lambda \<open>__insert\<close> of \<^verbatim>\<open>load\<close>: its assertions, the link from the promise to the table at address \<open>self\<close>, the
  new identifier; \<^verbatim>\<open>emplace\<close> keeps an entry that is there.
\<close>

definition task_insert :: "nat \<Rightarrow> uint64 \<Rightarrow> nat \<Rightarrow> task_world \<Rightarrow> (int \<times> task_world) option" where
  "task_insert self tid p w =
     (let pr = tr_promise (w_rest w) p; t = tr_task (w_rest w)
      in if pr_tid pr \<noteq> tid \<or> pr_link pr \<noteq> None then None
         else case increase (tk_id t) (tk_ids t) of
                None \<Rightarrow> None
              | Some (k, ids) \<Rightarrow>
                  Some (k, set_task
                    (t\<lparr>tk_id := k, tk_ids := ids,
                       tk_promises := (if map_of (tk_promises t) p = None then (p, k) # tk_promises t else tk_promises t)\<rparr>)
                    (set_promise p (pr\<lparr>pr_link := Some self, pr_type := CORO_TASK\<rparr>) w)))"

text \<open>\<^verbatim>\<open>load\<close> returns the identifier as an \<open>int\<close>.\<close>

definition load :: "(nat \<Rightarrow> task_world \<Rightarrow> task_world option) \<Rightarrow> nat \<Rightarrow> uint64 \<Rightarrow> nat \<Rightarrow> task_world \<Rightarrow>
    (int \<times> task_world) option" where
  "load run self tid p w =
     (case task_insert self tid p w of
        None \<Rightarrow> None
      | Some (k, w') \<Rightarrow> map_option (Pair (int_of_id k)) (task_finally run p w'))"

text \<open>\<^verbatim>\<open>unload\<close>: the entry and the identifier go, and the coroutine that waits longest is resumed with the identifier.\<close>

definition unload :: "task_rest code \<Rightarrow> node \<Rightarrow> nat \<Rightarrow> task_world \<Rightarrow> (int \<times> task_world) option" where
  "unload k q p w =
     (let t = tr_task (w_rest w)
      in case map_of (tk_promises t) p of
           None \<Rightarrow> Some (0, w)
         | Some i \<Rightarrow>
             map_option (\<lambda>(_, w'). (int_of_id i, w'))
               (co_async_resume k q (word_of_int i)
                 (set_task (t\<lparr>tk_promises := AList.delete p (tk_promises t), tk_ids := tk_ids t - {i}\<rparr>) w)))"

text \<open>\<^verbatim>\<open>__destroy\<close>, inside the scope of the \<^verbatim>\<open>lock_guard<is_destroying>\<close> that every caller has around it.\<close>

definition destroy_promise :: "(nat \<Rightarrow> task_world \<Rightarrow> task_world option) \<Rightarrow> nat \<Rightarrow> task_world \<Rightarrow> task_world option" where
  "destroy_promise kill p w =
     (let w1 = w\<lparr>w_rest := (w_rest w)\<lparr>tr_destroying := tr_destroying (w_rest w) + 1\<rparr>\<rparr>;
          w2 = set_promise p ((tr_promise (w_rest w) p)\<lparr>pr_link := None, pr_type := CORO_NONE\<rparr>) w1
      in map_option (\<lambda>w. w\<lparr>w_rest := (w_rest w)\<lparr>tr_destroying := tr_destroying (w_rest w) - 1\<rparr>\<rparr>) (kill p w2))"

text \<open>\<^verbatim>\<open>destroy(id)\<close>: the entry goes, \<open>m_ids\<close> is left alone.  The map is walked in the order of the addresses; an
  identifier occurs once.\<close>

definition destroy :: "(nat \<Rightarrow> task_world \<Rightarrow> task_world option) \<Rightarrow> int \<Rightarrow> task_world \<Rightarrow> task_world option" where
  "destroy kill i w =
     (let t = tr_task (w_rest w)
      in case filter (\<lambda>e. snd e = i) (tk_promises t) of
           [] \<Rightarrow> Some w
         | (p, _) # _ \<Rightarrow> destroy_promise kill p (set_task (t\<lparr>tk_promises := AList.delete p (tk_promises t)\<rparr>) w))"

text \<open>\<^verbatim>\<open>destroy()\<close>: the table is emptied first, then every promise is destroyed, in the order of the addresses.\<close>

primrec destroy_list :: "(nat \<Rightarrow> task_world \<Rightarrow> task_world option) \<Rightarrow> nat list \<Rightarrow> task_world \<Rightarrow> task_world option" where
  "destroy_list kill [] w = Some w"
| "destroy_list kill (p # ps) w = Option.bind (destroy_promise kill p w) (destroy_list kill ps)"

definition destroy_all :: "(nat \<Rightarrow> task_world \<Rightarrow> task_world option) \<Rightarrow> task_world \<Rightarrow> task_world option" where
  "destroy_all kill w =
     (let t = tr_task (w_rest w)
      in destroy_list kill (sort (map fst (tk_promises t))) (set_task (t\<lparr>tk_promises := []\<rparr>) w))"

text \<open>\<^verbatim>\<open>wait\<close>, and one round of the loop of \<^verbatim>\<open>wait_all\<close>: \<open>True\<close> if coroutine \<open>c\<close> is suspended, on the event \<open>e\<close>.\<close>

definition task_wait :: "node \<Rightarrow> node \<Rightarrow> nat \<Rightarrow> uint64 \<Rightarrow> int64 \<Rightarrow> task_world \<Rightarrow> (bool \<times> task_world) option" where
  "task_wait q e c tid junk w =
     (if tk_promises (tr_task (w_rest w)) \<noteq> [] then map_option (Pair True) (co_async_suspend q e c tid junk w)
      else Some (False, w))"

section \<open>The table stays well formed\<close>

definition task_inv :: "co_task \<Rightarrow> bool" where
  "task_inv t \<longleftrightarrow> finite (tk_ids t) \<and> 0 \<le> tk_id t \<and> tk_id t \<le> TASK_ID_MAX \<and> distinct (map fst (tk_promises t)) \<and>
     distinct (map snd (tk_promises t)) \<and> snd ` set (tk_promises t) \<subseteq> tk_ids t"

lemma set_task_simps [simp]:
  "tr_task (w_rest (set_task t w)) = t" "tr_promise (w_rest (set_task t w)) = tr_promise (w_rest w)"
  "w_heap (set_task t w) = w_heap w" "w_events (set_task t w) = w_events w"
  "waiting (set_task t w) q cs = waiting w q cs"
  by (simp_all add: set_task_def)

lemma set_promise_simps [simp]:
  "tr_task (w_rest (set_promise p pr w)) = tr_task (w_rest w)" "waiting (set_promise p pr w) q cs = waiting w q cs"
  "tr_promise (w_rest (set_promise p pr w)) p' = (if p' = p then pr else tr_promise (w_rest w) p')"
  by (simp_all add: set_promise_def)

lemma task_insert_fresh:
  assumes "task_inv (tr_task (w_rest w))" "int (card (tk_ids (tr_task (w_rest w)))) < TASK_ID_MAX div 2"
    "p \<notin> fst ` set (tk_promises (tr_task (w_rest w)))"
    "pr_tid (tr_promise (w_rest w) p) = tid" "pr_link (tr_promise (w_rest w) p) = None"
  obtains k w' where "task_insert self tid p w = Some (k, w')" "task_inv (tr_task (w_rest w'))"
    "k \<notin> snd ` set (tk_promises (tr_task (w_rest w)))"
    "map_of (tk_promises (tr_task (w_rest w'))) = (map_of (tk_promises (tr_task (w_rest w))))(p \<mapsto> k)"
    "\<And>q cs. waiting w' q cs = waiting w q cs"
proof -
  let ?t = "tr_task (w_rest w)"
  obtain i where i: "increase (tk_id ?t) (tk_ids ?t) = Some (i, insert i (tk_ids ?t))" "i \<notin> tk_ids ?t" "0 \<le> i" "i \<le> TASK_ID_MAX"
    using increase_returns [of "tk_ids ?t" "tk_id ?t"] assms by (auto simp: task_inv_def)
  have none: "map_of (tk_promises ?t) p = None" using assms(3) by (simp add: map_of_eq_None_iff)
  show ?thesis
    by (rule that [of i "set_task (?t\<lparr>tk_id := i, tk_ids := insert i (tk_ids ?t), tk_promises := (p, i) # tk_promises ?t\<rparr>)
        (set_promise p ((tr_promise (w_rest w) p)\<lparr>pr_link := Some self, pr_type := CORO_TASK\<rparr>) w)"])
      (use assms i none in \<open>auto simp: task_insert_def task_inv_def Let_def\<close>)
qed

lemma distinct_map_delete: "distinct (map f xs) \<Longrightarrow> distinct (map f (AList.delete p xs))"
  by (simp add: AList.delete_eq distinct_map_filter)

lemma task_inv_delete:
  assumes "task_inv t" "map_of (tk_promises t) p = Some i"
  shows "task_inv (t\<lparr>tk_promises := AList.delete p (tk_promises t), tk_ids := tk_ids t - {i}\<rparr>)"
proof -
  have "snd e \<noteq> i" if "e \<in> set (AList.delete p (tk_promises t))" for e
  proof -
    have e: "e \<in> set (tk_promises t)" "fst e \<noteq> p" using that by (auto simp: AList.delete_eq)
    have "inj_on snd (set (tk_promises t))" using assms(1) by (simp add: task_inv_def distinct_map)
    from inj_onD [OF this _ e(1) map_of_SomeD [OF assms(2)]] show ?thesis using e(2) by (metis fst_conv snd_conv)
  qed
  moreover have "set (AList.delete p (tk_promises t)) \<subseteq> set (tk_promises t)" by (auto simp: AList.delete_eq)
  ultimately show ?thesis using assms(1) by (fastforce simp: task_inv_def intro!: distinct_map_delete)
qed

text \<open>
  \<^verbatim>\<open>unload\<close> wakes the coroutine that has waited longest, in a world whose table no longer has the promise; what its
  \<^verbatim>\<open>co_await\<close> returns is 0, not the identifier.
\<close>

lemma unload_wakes:
  assumes "task_inv (tr_task (w_rest w))" "map_of (tk_promises (tr_task (w_rest w))) p = Some i"
    and "waiting w q ((e, c) # cs)"
  shows "\<exists>w'. unload k q p w = map_option (Pair (int_of_id i)) (k c 0 w') \<and> waiting w' q cs \<and>
    task_inv (tr_task (w_rest w')) \<and>
    map_of (tk_promises (tr_task (w_rest w'))) = (map_of (tk_promises (tr_task (w_rest w))))(p := None)"
proof -
  let ?t = "tr_task (w_rest w)"
  define w1 where "w1 = set_task (?t\<lparr>tk_promises := AList.delete p (tk_promises ?t), tk_ids := tk_ids ?t - {i}\<rparr>) w"
  have "waiting w1 q ((e, c) # cs)" using assms(3) by (simp add: w1_def)
  from resume_head [OF this, of k "word_of_int i"]
  obtain w' where w': "co_async_resume k q (word_of_int i) w1 = map_option (Pair True) (k c 0 w')" "waiting w' q cs"
    "w_rest w' = w_rest w1" by blast
  have "unload k q p w = map_option (Pair (int_of_id i)) (k c 0 w')"
    using assms(2) w'(1) by (cases "k c 0 w'") (simp_all add: unload_def w1_def Let_def)
  moreover have "task_inv (tr_task (w_rest w'))" using task_inv_delete [OF assms(1,2)] w'(3) by (simp add: w1_def)
  moreover have "map_of (tk_promises (tr_task (w_rest w'))) = (map_of (tk_promises ?t))(p := None)"
    using w'(3) by (simp add: w1_def delete_conv')
  ultimately show ?thesis using w'(2) by blast
qed

lemma unload_nobody_waits:
  assumes "task_inv (tr_task (w_rest w))" "map_of (tk_promises (tr_task (w_rest w))) p = Some i" "waiting w q []"
  shows "\<exists>w'. unload k q p w = Some (int_of_id i, w') \<and> task_inv (tr_task (w_rest w')) \<and> waiting w' q []"
  using assms task_inv_delete [OF assms(1,2)] resume_none [of "set_task _ w" q k] by (simp add: unload_def Let_def)

end
