(* ===== verification/Txn_Status.thy ===== *)
theory Txn_Status
  imports Prelude
begin

text \<open>
  The status of a transactional producer: the flags of \<^verbatim>\<open>transaction_manager.h\<close>, the transition table
  and \<^verbatim>\<open>is_transition_valid\<close> of \<^verbatim>\<open>transaction_manager.cpp\<close>.  A status is a bit set and the table is read by
  overlap of bits.  The states that the program really uses are eight combinations of flags, and on
  these the table is the state machine \<open>txn_edge\<close>.
\<close>

definition ProducerTxnFlagUninitialized :: "16 word" where "ProducerTxnFlagUninitialized = 1"
definition ProducerTxnFlagInitializing :: "16 word" where "ProducerTxnFlagInitializing = 2"
definition ProducerTxnFlagReady :: "16 word" where "ProducerTxnFlagReady = 4"
definition ProducerTxnFlagInTransaction :: "16 word" where "ProducerTxnFlagInTransaction = 8"
definition ProducerTxnFlagEndTransaction :: "16 word" where "ProducerTxnFlagEndTransaction = 16"
definition ProducerTxnFlagInError :: "16 word" where "ProducerTxnFlagInError = 32"
definition ProducerTxnFlagCommittingTransaction :: "16 word" where "ProducerTxnFlagCommittingTransaction = 64"
definition ProducerTxnFlagAbortingTransaction :: "16 word" where "ProducerTxnFlagAbortingTransaction = 128"
definition ProducerTxnFlagAbortableError :: "16 word" where "ProducerTxnFlagAbortableError = 256"
definition ProducerTxnFlagFatalError :: "16 word" where "ProducerTxnFlagFatalError = 512"

lemmas txn_flag_defs = ProducerTxnFlagUninitialized_def ProducerTxnFlagInitializing_def
  ProducerTxnFlagReady_def ProducerTxnFlagInTransaction_def ProducerTxnFlagEndTransaction_def
  ProducerTxnFlagInError_def ProducerTxnFlagCommittingTransaction_def ProducerTxnFlagAbortingTransaction_def
  ProducerTxnFlagAbortableError_def ProducerTxnFlagFatalError_def

text \<open>The \<^verbatim>\<open>unordered_map\<close> of allowed transitions; the order of its rows does not matter below.\<close>

definition producerTxnTransitions :: "(16 word \<times> 16 word list) list" where
  "producerTxnTransitions =
    [(ProducerTxnFlagUninitialized, [ProducerTxnFlagReady, ProducerTxnFlagInError]),
     (ProducerTxnFlagInitializing, [ProducerTxnFlagInitializing, ProducerTxnFlagReady, ProducerTxnFlagInError]),
     (ProducerTxnFlagReady, [ProducerTxnFlagInTransaction]),
     (ProducerTxnFlagInTransaction, [ProducerTxnFlagEndTransaction, ProducerTxnFlagInError]),
     (ProducerTxnFlagEndTransaction, [ProducerTxnFlagInitializing, ProducerTxnFlagReady, ProducerTxnFlagInError]),
     (ProducerTxnFlagAbortableError, [ProducerTxnFlagAbortingTransaction, ProducerTxnFlagInError]),
     (ProducerTxnFlagFatalError, [ProducerTxnFlagFatalError])]"

definition is_transition_valid :: "16 word \<Rightarrow> 16 word \<Rightarrow> bool" where
  "is_transition_valid m_status target =
     list_ex (\<lambda>(status, allowedTransitions).
        m_status AND status \<noteq> 0 \<and> list_ex (\<lambda>allowed. target AND allowed \<noteq> 0) allowedTransitions)
       producerTxnTransitions"

text \<open>\<^verbatim>\<open>to_string(ProducerTxnStatusFlag)\<close>: the names of the flags that are set, joined by \<^verbatim>\<open>|\<close>.\<close>

definition txn_status_names :: "(16 word \<times> string) list" where
  "txn_status_names =
    [(ProducerTxnFlagUninitialized, ''ProducerTxnStateUninitialized''),
     (ProducerTxnFlagInitializing, ''ProducerTxnStateInitializing''),
     (ProducerTxnFlagReady, ''ProducerTxnStateReady''),
     (ProducerTxnFlagInTransaction, ''ProducerTxnStateInTransaction''),
     (ProducerTxnFlagEndTransaction, ''ProducerTxnStateEndTransaction''),
     (ProducerTxnFlagInError, ''ProducerTxnStateInError''),
     (ProducerTxnFlagCommittingTransaction, ''ProducerTxnStateCommittingTransaction''),
     (ProducerTxnFlagAbortingTransaction, ''ProducerTxnStateAbortingTransaction''),
     (ProducerTxnFlagAbortableError, ''ProducerTxnStateAbortableError''),
     (ProducerTxnFlagFatalError, ''ProducerTxnStateFatalError'')]"

fun join_bar :: "string list \<Rightarrow> string" where
  "join_bar [] = []"
| "join_bar [x] = x"
| "join_bar (x # y # xs) = x @ ''|'' @ join_bar (y # xs)"

definition txn_status_to_string :: "16 word \<Rightarrow> string" where
  "txn_status_to_string s = join_bar (map snd (filter (\<lambda>(f, _). s AND f \<noteq> 0) txn_status_names))"

section \<open>The abstract state machine\<close>

text \<open>
  A transactional producer is created, made ready by obtaining a producer id, and then runs transactions
  one after the other.  An error inside a transaction can be left by aborting it, a fatal error never.
\<close>

datatype txn_state =
    Uninitialized | Initializing | Ready | InTransaction | Committing | Aborting | AbortableError | FatalError

fun txn_edge :: "txn_state \<Rightarrow> txn_state \<Rightarrow> bool" where
  "txn_edge Uninitialized t \<longleftrightarrow> t \<in> {Ready, AbortableError, FatalError}"
| "txn_edge Initializing t \<longleftrightarrow> t \<in> {Initializing, Ready, AbortableError, FatalError}"
| "txn_edge Ready t \<longleftrightarrow> t = InTransaction"
| "txn_edge InTransaction t \<longleftrightarrow> t \<in> {Committing, Aborting, AbortableError, FatalError}"
| "txn_edge Committing t \<longleftrightarrow> t \<in> {Initializing, Ready, AbortableError, FatalError}"
| "txn_edge Aborting t \<longleftrightarrow> t \<in> {Initializing, Ready, AbortableError, FatalError}"
| "txn_edge AbortableError t \<longleftrightarrow> t \<in> {Aborting, AbortableError, FatalError}"
| "txn_edge FatalError t \<longleftrightarrow> t = FatalError"

fun txn_flags :: "txn_state \<Rightarrow> 16 word" where
  "txn_flags Uninitialized = ProducerTxnFlagUninitialized"
| "txn_flags Initializing = ProducerTxnFlagInitializing"
| "txn_flags Ready = ProducerTxnFlagReady"
| "txn_flags InTransaction = ProducerTxnFlagInTransaction"
| "txn_flags Committing = ProducerTxnFlagEndTransaction OR ProducerTxnFlagCommittingTransaction"
| "txn_flags Aborting = ProducerTxnFlagEndTransaction OR ProducerTxnFlagAbortingTransaction"
| "txn_flags AbortableError = ProducerTxnFlagInError OR ProducerTxnFlagAbortableError"
| "txn_flags FatalError = ProducerTxnFlagInError OR ProducerTxnFlagFatalError"

definition in_error :: "txn_state \<Rightarrow> bool" where
  "in_error t \<longleftrightarrow> t = AbortableError \<or> t = FatalError"

lemma is_transition_valid_edge: "is_transition_valid (txn_flags s) (txn_flags t) \<longleftrightarrow> txn_edge s t"
  by (cases s; cases t) (simp_all add: is_transition_valid_def producerTxnTransitions_def txn_flag_defs)

lemma txn_flags_inject [simp]: "txn_flags s = txn_flags t \<longleftrightarrow> s = t"
  by (cases s; cases t) (simp_all add: txn_flag_defs)

lemma txn_flags_InError [simp]: "txn_flags s AND ProducerTxnFlagInError \<noteq> 0 \<longleftrightarrow> in_error s"
  "txn_flags s AND ProducerTxnFlagInError = 0 \<longleftrightarrow> \<not> in_error s"
  by (cases s; simp add: txn_flag_defs in_error_def)+

lemma txn_flags_FatalError [simp]: "txn_flags s AND ProducerTxnFlagFatalError = 0 \<longleftrightarrow> s \<noteq> FatalError"
  by (cases s) (simp_all add: txn_flag_defs)

lemma txn_flags_InTransaction [simp]: "txn_flags s AND ProducerTxnFlagInTransaction = 0 \<longleftrightarrow> s \<noteq> InTransaction"
  by (cases s) (simp_all add: txn_flag_defs)

lemma txn_flags_EndTransaction [simp]:
  "txn_flags s AND ProducerTxnFlagEndTransaction = 0 \<longleftrightarrow> s \<noteq> Committing \<and> s \<noteq> Aborting"
  by (cases s) (simp_all add: txn_flag_defs)

text \<open>The arguments that the program passes to \<^verbatim>\<open>transition_to\<close>.\<close>

lemma txn_flags_targets:
  "ProducerTxnFlagInError OR ProducerTxnFlagAbortableError = txn_flags AbortableError"
  "ProducerTxnFlagInError OR ProducerTxnFlagFatalError = txn_flags FatalError"
  "ProducerTxnFlagEndTransaction OR ProducerTxnFlagCommittingTransaction = txn_flags Committing"
  "ProducerTxnFlagEndTransaction OR ProducerTxnFlagAbortingTransaction = txn_flags Aborting"
  "ProducerTxnFlagReady = txn_flags Ready"
  "ProducerTxnFlagInitializing = txn_flags Initializing"
  by simp_all

declare txn_flags.simps [simp del]

lemma fatal_absorbing: "txn_edge\<^sup>*\<^sup>* FatalError t \<Longrightarrow> t = FatalError"
  by (induction rule: rtranclp_induct) auto

text \<open>An abortable error is left only by aborting or by a fatal error.\<close>

lemma abortable_exit: "txn_edge AbortableError t \<Longrightarrow> t \<noteq> Ready \<and> t \<noteq> InTransaction \<and> t \<noteq> Committing"
  by auto

end
