(* ===== verification/Decimal.thy ===== *)
theory Decimal
  imports Prelude
begin

text \<open>
  \<^verbatim>\<open>std::to_string\<close> of an integer, as bytes, and the lemma that a decimal number joined to a name by a dash
  determines both.  Transactions, partitioners and sticky assignments use such keys.
\<close>

definition digit :: "nat \<Rightarrow> byte" where
  "digit n = 48 + of_nat n"

fun dec_nat :: "nat \<Rightarrow> bytes" where
  "dec_nat n = (if n < 10 then [digit n] else dec_nat (n div 10) @ [digit (n mod 10)])"

declare dec_nat.simps [simp del]

definition to_string_int :: "int \<Rightarrow> bytes" where
  "to_string_int i = (if i < 0 then 45 # dec_nat (nat (- i)) else dec_nat (nat i))"

definition dec_value :: "bytes \<Rightarrow> nat" where
  "dec_value bs = foldl (\<lambda>n b. 10 * n + unat (b - 48)) 0 bs"

lemma digit_value: "n < 10 \<Longrightarrow> unat (digit n - 48) = n"
  by (simp add: digit_def unat_of_nat)

lemma digit_not_dash: "n < 10 \<Longrightarrow> digit n \<noteq> 45"
proof
  assume n: "n < 10" and "digit n = 45"
  then have "unat (digit n - 48) = unat (45 - 48 :: byte)" by simp
  with digit_value [OF n] n show False by simp
qed

lemma dec_value_dec_nat: "dec_value (dec_nat n) = n"
proof (induction n rule: dec_nat.induct)
  case (1 n)
  then show ?case
    by (cases "n < 10") (subst dec_nat.simps; simp add: dec_value_def digit_value)+
qed

lemma dec_nat_no_dash: "45 \<notin> set (dec_nat n)"
proof (induction n rule: dec_nat.induct)
  case (1 n)
  then show ?case
    using digit_not_dash [of n] digit_not_dash [of "n mod 10"]
    by (cases "n < 10") (subst dec_nat.simps; force)+
qed

lemma dec_nat_inject [simp]: "dec_nat a = dec_nat b \<longleftrightarrow> a = b"
  by (metis dec_value_dec_nat)

lemma dec_nat_nonempty [simp]: "dec_nat n \<noteq> []"
  by (subst dec_nat.simps) simp

lemma to_string_int_inject: "to_string_int a = to_string_int b \<longleftrightarrow> a = b"
proof
  assume eq: "to_string_int a = to_string_int b"
  show "a = b"
    using eq dec_nat_no_dash [of "nat a"] dec_nat_no_dash [of "nat b"]
    by (auto simp: to_string_int_def split: if_splits) (metis list.set_intros(1))+
qed simp

lemma split_at_last:
  fixes c :: 'a
  assumes "a @ c # xs = b @ c # ys" "c \<notin> set xs" "c \<notin> set ys"
  shows "a = b \<and> xs = ys"
proof -
  have last: "takeWhile (\<lambda>x. x \<noteq> c) (rev (a @ c # xs)) = rev xs" if "c \<notin> set xs" for a xs :: "'a list"
    using that by (simp, subst takeWhile_append2) auto
  from last [OF assms(2), of a] last [OF assms(3), of b] assms(1) have "xs = ys" by simp
  with assms(1) show ?thesis by simp
qed

text \<open>\<open>name + "-" + std::to_string(n)\<close> for numbers that are not negative.\<close>

lemma dash_key_inject:
  assumes "0 \<le> i" "0 \<le> j"
  shows "a @ 45 # to_string_int i = b @ 45 # to_string_int j \<longleftrightarrow> a = b \<and> i = j"
  using assms split_at_last [of a 45 "dec_nat (nat i)" b "dec_nat (nat j)"] dec_nat_no_dash
  by (auto simp: to_string_int_def)

end
