(* ===== verification/Txn_Messages.thy ===== *)
theory Txn_Messages
  imports Protocol
begin

text \<open>
  The messages of transactional producers: \<^verbatim>\<open>add_offsets_to_txn_*.cpp\<close>, \<^verbatim>\<open>end_txn_*.cpp\<close>,
  \<^verbatim>\<open>add_partitions_to_txn_*.cpp\<close> (with \<^verbatim>\<open>partition_error.cpp\<close>) and \<^verbatim>\<open>init_producer_id_*.cpp\<close>; the conventions are
  those of the group messages.  \<open>_new\<close> is the version a constructor picks for the configured broker.
\<close>


section \<open>Offsets\<close>

record AddOffsetsToTxnRequest =
  aoq_version :: int16
  aoq_transactional_id :: bytes
  aoq_producer_id :: int64
  aoq_producer_epoch :: int16
  aoq_group_id :: bytes

definition AddOffsetsToTxnRequest_set_version :: "int16 \<Rightarrow> AddOffsetsToTxnRequest \<Rightarrow> AddOffsetsToTxnRequest" where
  "AddOffsetsToTxnRequest_set_version v m = m\<lparr>aoq_version := v\<rparr>"

definition AddOffsetsToTxnRequest_encode :: "AddOffsetsToTxnRequest \<Rightarrow> unit enc" where
  "AddOffsetsToTxnRequest_encode m =
     then_p (err_as (- 1) (putString (aoq_transactional_id m)))
    (then_p (putInt64 (aoq_producer_id m))
    (then_p (putInt16 (aoq_producer_epoch m))
       (err_as (- 1) (putString (aoq_group_id m)))))"

definition AddOffsetsToTxnRequest_decode :: "AddOffsetsToTxnRequest \<Rightarrow> int16 \<Rightarrow> AddOffsetsToTxnRequest dec" where
  "AddOffsetsToTxnRequest_decode this version =
     bind_p getString (\<lambda>transactional_id.
     bind_p getInt64 (\<lambda>producer_id.
     bind_p getInt16 (\<lambda>producer_epoch.
     bind_p getString (\<lambda>group_id.
       ret (this\<lparr>aoq_transactional_id := transactional_id, aoq_producer_id := producer_id,
         aoq_producer_epoch := producer_epoch, aoq_group_id := group_id\<rparr>)))))"

definition AddOffsetsToTxnRequest_required_version :: "int16 \<Rightarrow> KafkaVersion" where
  "AddOffsetsToTxnRequest_required_version v =
     (if v = 2 then V2_7_0_0 else if v = 1 then V2_0_0_0 else if v = 0 then V0_11_0_0 else
      V2_7_0_0)"

definition AddOffsetsToTxnRequest_body :: "AddOffsetsToTxnRequest \<Rightarrow> protocol_body" where
  "AddOffsetsToTxnRequest_body m =
     \<lparr>pb_key = 25, pb_version = aoq_version m,
      pb_header_version = 1,
      pb_is_valid_version = (sint (aoq_version m) \<ge> 0 \<and> sint (aoq_version m) \<le> 2),
      pb_is_flexible = False,
      pb_is_flexible_version = (\<lambda>_. False),
      pb_required_version = AddOffsetsToTxnRequest_required_version (aoq_version m),
      pb_encode = AddOffsetsToTxnRequest_encode m\<rparr>"

definition wAddOffsetsToTxnRequest :: "AddOffsetsToTxnRequest \<Rightarrow> bytes" where
  "wAddOffsetsToTxnRequest m =
     wString False (aoq_transactional_id m) @ be64 (aoq_producer_id m) @ be16 (aoq_producer_epoch m) @
     wString False (aoq_group_id m)"

definition AddOffsetsToTxnRequest_ok :: "AddOffsetsToTxnRequest \<Rightarrow> bool" where
  "AddOffsetsToTxnRequest_ok m \<longleftrightarrow>
     string_ok False (aoq_transactional_id m) \<and> string_ok False (aoq_group_id m)"

definition AddOffsetsToTxnRequest_seen :: "AddOffsetsToTxnRequest \<Rightarrow> AddOffsetsToTxnRequest \<Rightarrow> AddOffsetsToTxnRequest" where
  "AddOffsetsToTxnRequest_seen this m =
     m\<lparr>aoq_version := aoq_version this\<rparr>"

interpretation aoq: protocol_message AddOffsetsToTxnRequest_body AddOffsetsToTxnRequest_decode wAddOffsetsToTxnRequest AddOffsetsToTxnRequest_ok AddOffsetsToTxnRequest_seen
proof
  fix m this :: AddOffsetsToTxnRequest
  assume ok: "AddOffsetsToTxnRequest_ok m"
  show "emits (pb_is_flexible (AddOffsetsToTxnRequest_body m)) (pb_encode (AddOffsetsToTxnRequest_body m)) (wAddOffsetsToTxnRequest m)"
    unfolding AddOffsetsToTxnRequest_body_def AddOffsetsToTxnRequest_encode_def wAddOffsetsToTxnRequest_def Let_def protocol_body.simps 
    by (intro emits_rules; use ok in \<open>auto simp: AddOffsetsToTxnRequest_ok_def Let_def \<close>)
  show "reads (pb_is_flexible (AddOffsetsToTxnRequest_body m)) (AddOffsetsToTxnRequest_decode this (pb_version (AddOffsetsToTxnRequest_body m)))
      (wAddOffsetsToTxnRequest m) (AddOffsetsToTxnRequest_seen this m)"
    unfolding AddOffsetsToTxnRequest_body_def AddOffsetsToTxnRequest_decode_def wAddOffsetsToTxnRequest_def Let_def protocol_body.simps wArray_def 
    by (rule reads_conv, (rule reads_rules | (use ok in \<open>auto simp: AddOffsetsToTxnRequest_ok_def Let_def 
      AddOffsetsToTxnRequest_seen_def ; fail\<close>))+)
qed (simp_all add: AddOffsetsToTxnRequest_body_def wAddOffsetsToTxnRequest_def Let_def)

record AddOffsetsToTxnResponse =
  aor_version :: int16
  aor_throttle_time :: int64
  aor_err :: int16

definition AddOffsetsToTxnResponse_set_version :: "int16 \<Rightarrow> AddOffsetsToTxnResponse \<Rightarrow> AddOffsetsToTxnResponse" where
  "AddOffsetsToTxnResponse_set_version v m = m\<lparr>aor_version := v\<rparr>"

definition AddOffsetsToTxnResponse_encode :: "AddOffsetsToTxnResponse \<Rightarrow> unit enc" where
  "AddOffsetsToTxnResponse_encode m =
     then_p (putDurationMs (aor_throttle_time m))
       (putKError (aor_err m))"

definition AddOffsetsToTxnResponse_decode :: "AddOffsetsToTxnResponse \<Rightarrow> int16 \<Rightarrow> AddOffsetsToTxnResponse dec" where
  "AddOffsetsToTxnResponse_decode this version =
     bind_p getDurationMs (\<lambda>throttle.
     bind_p getKError (\<lambda>err.
       ret (this\<lparr>aor_throttle_time := throttle, aor_err := err\<rparr>)))"

definition AddOffsetsToTxnResponse_required_version :: "int16 \<Rightarrow> KafkaVersion" where
  "AddOffsetsToTxnResponse_required_version v =
     (if v = 2 then V2_7_0_0 else if v = 1 then V2_0_0_0 else if v = 0 then V0_11_0_0 else
      V2_7_0_0)"

definition AddOffsetsToTxnResponse_body :: "AddOffsetsToTxnResponse \<Rightarrow> protocol_body" where
  "AddOffsetsToTxnResponse_body m =
     \<lparr>pb_key = 25, pb_version = aor_version m,
      pb_header_version = 0,
      pb_is_valid_version = (sint (aor_version m) \<ge> 0 \<and> sint (aor_version m) \<le> 2),
      pb_is_flexible = False,
      pb_is_flexible_version = (\<lambda>_. False),
      pb_required_version = AddOffsetsToTxnResponse_required_version (aor_version m),
      pb_encode = AddOffsetsToTxnResponse_encode m\<rparr>"

definition wAddOffsetsToTxnResponse :: "AddOffsetsToTxnResponse \<Rightarrow> bytes" where
  "wAddOffsetsToTxnResponse m =
     wDurationMs (aor_throttle_time m) @ be16 (aor_err m)"

definition AddOffsetsToTxnResponse_ok :: "AddOffsetsToTxnResponse \<Rightarrow> bool" where
  "AddOffsetsToTxnResponse_ok m \<longleftrightarrow>
     duration_ok (aor_throttle_time m)"

definition AddOffsetsToTxnResponse_seen :: "AddOffsetsToTxnResponse \<Rightarrow> AddOffsetsToTxnResponse \<Rightarrow> AddOffsetsToTxnResponse" where
  "AddOffsetsToTxnResponse_seen this m =
     m\<lparr>aor_version := aor_version this\<rparr>"

interpretation aor: protocol_message AddOffsetsToTxnResponse_body AddOffsetsToTxnResponse_decode wAddOffsetsToTxnResponse AddOffsetsToTxnResponse_ok AddOffsetsToTxnResponse_seen
proof
  fix m this :: AddOffsetsToTxnResponse
  assume ok: "AddOffsetsToTxnResponse_ok m"
  show "emits (pb_is_flexible (AddOffsetsToTxnResponse_body m)) (pb_encode (AddOffsetsToTxnResponse_body m)) (wAddOffsetsToTxnResponse m)"
    unfolding AddOffsetsToTxnResponse_body_def AddOffsetsToTxnResponse_encode_def wAddOffsetsToTxnResponse_def Let_def protocol_body.simps 
    by (intro emits_rules; use ok in \<open>auto simp: AddOffsetsToTxnResponse_ok_def Let_def \<close>)
  show "reads (pb_is_flexible (AddOffsetsToTxnResponse_body m)) (AddOffsetsToTxnResponse_decode this (pb_version (AddOffsetsToTxnResponse_body m)))
      (wAddOffsetsToTxnResponse m) (AddOffsetsToTxnResponse_seen this m)"
    unfolding AddOffsetsToTxnResponse_body_def AddOffsetsToTxnResponse_decode_def wAddOffsetsToTxnResponse_def Let_def protocol_body.simps wArray_def 
    by (rule reads_conv, (rule reads_rules | (use ok in \<open>auto simp: AddOffsetsToTxnResponse_ok_def Let_def 
      AddOffsetsToTxnResponse_seen_def ; fail\<close>))+)
qed (simp_all add: AddOffsetsToTxnResponse_body_def wAddOffsetsToTxnResponse_def Let_def)

section \<open>Ending a transaction\<close>

record EndTxnRequest =
  etq_version :: int16
  etq_transactional_id :: bytes
  etq_producer_id :: int64
  etq_producer_epoch :: int16
  etq_transaction_result :: bool

definition EndTxnRequest_set_version :: "int16 \<Rightarrow> EndTxnRequest \<Rightarrow> EndTxnRequest" where
  "EndTxnRequest_set_version v m = m\<lparr>etq_version := v\<rparr>"

definition EndTxnRequest_encode :: "EndTxnRequest \<Rightarrow> unit enc" where
  "EndTxnRequest_encode m =
     then_p (err_as ErrEncodeError (putString (etq_transactional_id m)))
    (then_p (putInt64 (etq_producer_id m))
    (then_p (putInt16 (etq_producer_epoch m))
       (putBool (etq_transaction_result m))))"

definition EndTxnRequest_decode :: "EndTxnRequest \<Rightarrow> int16 \<Rightarrow> EndTxnRequest dec" where
  "EndTxnRequest_decode this version =
     bind_p (err_as ErrDecodeError getString) (\<lambda>transactional_id.
     bind_p (err_as ErrDecodeError getInt64) (\<lambda>producer_id.
     bind_p (err_as ErrDecodeError getInt16) (\<lambda>producer_epoch.
     bind_p (err_as ErrDecodeError getBool) (\<lambda>result.
       ret (this\<lparr>etq_transactional_id := transactional_id, etq_producer_id := producer_id,
         etq_producer_epoch := producer_epoch, etq_transaction_result := result\<rparr>)))))"

definition EndTxnRequest_required_version :: "int16 \<Rightarrow> KafkaVersion" where
  "EndTxnRequest_required_version v =
     (if v = 2 then V2_7_0_0 else if v = 1 then V2_0_0_0 else V0_11_0_0)"

definition EndTxnRequest_body :: "EndTxnRequest \<Rightarrow> protocol_body" where
  "EndTxnRequest_body m =
     \<lparr>pb_key = 26, pb_version = etq_version m,
      pb_header_version = 1,
      pb_is_valid_version = (sint (etq_version m) \<ge> 0 \<and> sint (etq_version m) \<le> 2),
      pb_is_flexible = False,
      pb_is_flexible_version = (\<lambda>_. False),
      pb_required_version = EndTxnRequest_required_version (etq_version m),
      pb_encode = EndTxnRequest_encode m\<rparr>"

definition wEndTxnRequest :: "EndTxnRequest \<Rightarrow> bytes" where
  "wEndTxnRequest m =
     wString False (etq_transactional_id m) @ be64 (etq_producer_id m) @ be16 (etq_producer_epoch m) @
     wBool (etq_transaction_result m)"

definition EndTxnRequest_ok :: "EndTxnRequest \<Rightarrow> bool" where
  "EndTxnRequest_ok m \<longleftrightarrow>
     string_ok False (etq_transactional_id m)"

definition EndTxnRequest_seen :: "EndTxnRequest \<Rightarrow> EndTxnRequest \<Rightarrow> EndTxnRequest" where
  "EndTxnRequest_seen this m =
     m\<lparr>etq_version := etq_version this\<rparr>"

interpretation etq: protocol_message EndTxnRequest_body EndTxnRequest_decode wEndTxnRequest EndTxnRequest_ok EndTxnRequest_seen
proof
  fix m this :: EndTxnRequest
  assume ok: "EndTxnRequest_ok m"
  show "emits (pb_is_flexible (EndTxnRequest_body m)) (pb_encode (EndTxnRequest_body m)) (wEndTxnRequest m)"
    unfolding EndTxnRequest_body_def EndTxnRequest_encode_def wEndTxnRequest_def Let_def protocol_body.simps 
    by (intro emits_rules; use ok in \<open>auto simp: EndTxnRequest_ok_def Let_def \<close>)
  show "reads (pb_is_flexible (EndTxnRequest_body m)) (EndTxnRequest_decode this (pb_version (EndTxnRequest_body m)))
      (wEndTxnRequest m) (EndTxnRequest_seen this m)"
    unfolding EndTxnRequest_body_def EndTxnRequest_decode_def wEndTxnRequest_def Let_def protocol_body.simps wArray_def 
    by (rule reads_conv, (rule reads_rules | (use ok in \<open>auto simp: EndTxnRequest_ok_def Let_def 
      EndTxnRequest_seen_def ; fail\<close>))+)
qed (simp_all add: EndTxnRequest_body_def wEndTxnRequest_def Let_def)

record EndTxnResponse =
  etr_version :: int16
  etr_throttle_time :: int64
  etr_err :: int16

definition EndTxnResponse_set_version :: "int16 \<Rightarrow> EndTxnResponse \<Rightarrow> EndTxnResponse" where
  "EndTxnResponse_set_version v m = m\<lparr>etr_version := v\<rparr>"

definition EndTxnResponse_encode :: "EndTxnResponse \<Rightarrow> unit enc" where
  "EndTxnResponse_encode m =
     then_p (putDurationMs (etr_throttle_time m))
       (putKError (etr_err m))"

definition EndTxnResponse_decode :: "EndTxnResponse \<Rightarrow> int16 \<Rightarrow> EndTxnResponse dec" where
  "EndTxnResponse_decode this version =
     bind_p (err_as ErrDecodeError getDurationMs) (\<lambda>throttle.
     bind_p (err_as ErrDecodeError getKError) (\<lambda>err.
       ret (this\<lparr>etr_throttle_time := throttle, etr_err := err\<rparr>)))"

definition EndTxnResponse_required_version :: "int16 \<Rightarrow> KafkaVersion" where
  "EndTxnResponse_required_version v =
     (if v = 2 then V2_7_0_0 else if v = 1 then V2_0_0_0 else V0_11_0_0)"

definition EndTxnResponse_body :: "EndTxnResponse \<Rightarrow> protocol_body" where
  "EndTxnResponse_body m =
     \<lparr>pb_key = 26, pb_version = etr_version m,
      pb_header_version = 0,
      pb_is_valid_version = (sint (etr_version m) \<ge> 0 \<and> sint (etr_version m) \<le> 2),
      pb_is_flexible = False,
      pb_is_flexible_version = (\<lambda>_. False),
      pb_required_version = EndTxnResponse_required_version (etr_version m),
      pb_encode = EndTxnResponse_encode m\<rparr>"

definition wEndTxnResponse :: "EndTxnResponse \<Rightarrow> bytes" where
  "wEndTxnResponse m =
     wDurationMs (etr_throttle_time m) @ be16 (etr_err m)"

definition EndTxnResponse_ok :: "EndTxnResponse \<Rightarrow> bool" where
  "EndTxnResponse_ok m \<longleftrightarrow>
     duration_ok (etr_throttle_time m)"

definition EndTxnResponse_seen :: "EndTxnResponse \<Rightarrow> EndTxnResponse \<Rightarrow> EndTxnResponse" where
  "EndTxnResponse_seen this m =
     m\<lparr>etr_version := etr_version this\<rparr>"

interpretation etr: protocol_message EndTxnResponse_body EndTxnResponse_decode wEndTxnResponse EndTxnResponse_ok EndTxnResponse_seen
proof
  fix m this :: EndTxnResponse
  assume ok: "EndTxnResponse_ok m"
  show "emits (pb_is_flexible (EndTxnResponse_body m)) (pb_encode (EndTxnResponse_body m)) (wEndTxnResponse m)"
    unfolding EndTxnResponse_body_def EndTxnResponse_encode_def wEndTxnResponse_def Let_def protocol_body.simps 
    by (intro emits_rules; use ok in \<open>auto simp: EndTxnResponse_ok_def Let_def \<close>)
  show "reads (pb_is_flexible (EndTxnResponse_body m)) (EndTxnResponse_decode this (pb_version (EndTxnResponse_body m)))
      (wEndTxnResponse m) (EndTxnResponse_seen this m)"
    unfolding EndTxnResponse_body_def EndTxnResponse_decode_def wEndTxnResponse_def Let_def protocol_body.simps wArray_def 
    by (rule reads_conv, (rule reads_rules | (use ok in \<open>auto simp: EndTxnResponse_ok_def Let_def 
      EndTxnResponse_seen_def ; fail\<close>))+)
qed (simp_all add: EndTxnResponse_body_def wEndTxnResponse_def Let_def)

section \<open>Partitions\<close>

record PartitionError =
  pte_partition :: int32
  pte_err :: int16

definition PartitionError_encode :: "PartitionError \<Rightarrow> unit enc" where
  "PartitionError_encode x = then_p (putInt32 (pte_partition x)) (putKError (pte_err x))"

definition PartitionError_decode :: "PartitionError dec" where
  "PartitionError_decode =
     bind_p getInt32 (\<lambda>partition. bind_p getKError (\<lambda>err. ret \<lparr>pte_partition = partition, pte_err = err\<rparr>))"

definition wPartitionError :: "PartitionError \<Rightarrow> bytes" where
  "wPartitionError x = be32 (pte_partition x) @ be16 (pte_err x)"

lemma emits_PartitionError [emits_rules]: "emits fl (PartitionError_encode x) (wPartitionError x)"
  unfolding PartitionError_encode_def wPartitionError_def by (intro emits_rules)

lemma reads_PartitionError [reads_rules]: "reads fl PartitionError_decode (wPartitionError x) x"
  unfolding PartitionError_decode_def wPartitionError_def by (rule reads_conv, (rule reads_rules)+) simp

record AddPartitionsToTxnRequest =
  apq_version :: int16
  apq_transactional_id :: bytes
  apq_producer_id :: int64
  apq_producer_epoch :: int16
  apq_topic_partitions :: "(bytes \<times> int32 list) list"

definition AddPartitionsToTxnRequest_set_version :: "int16 \<Rightarrow> AddPartitionsToTxnRequest \<Rightarrow> AddPartitionsToTxnRequest" where
  "AddPartitionsToTxnRequest_set_version v m = m\<lparr>apq_version := v\<rparr>"

definition AddPartitions_put_topic :: "bytes \<times> int32 list \<Rightarrow> unit enc" where
  "AddPartitions_put_topic kv =
     then_p (err_as (- 1) (putString (fst kv))) (err_as (- 1) (putInt32Array (snd kv)))"

definition AddPartitions_get_topic :: "(bytes \<times> int32 list) dec" where
  "AddPartitions_get_topic =
     bind_p getString (\<lambda>topic. bind_p getInt32Array (\<lambda>partitions. ret (topic, partitions)))"

lemma emits_AddPartitions_topic [emits_rules]:
  "string_ok fl (fst kv) \<Longrightarrow> len_ok fl (length (snd kv)) \<Longrightarrow>
   emits fl (AddPartitions_put_topic kv) (case kv of (topic, ps) \<Rightarrow> wString fl topic @ wInt32Array fl ps)"
  unfolding AddPartitions_put_topic_def by (cases kv) (auto intro!: emits_then emits_err_as emits_putString emits_putInt32Array)

lemma reads_AddPartitions_topic [reads_rules]:
  assumes "string_ok fl (fst kv)" "len_ok fl (length (snd kv))"
  shows "reads fl AddPartitions_get_topic (case kv of (topic, ps) \<Rightarrow> wString fl topic @ wInt32Array fl ps) kv"
  unfolding AddPartitions_get_topic_def case_prod_beta
  by (rule reads_conv, (rule reads_rules assms)+) simp

definition AddPartitionsToTxnRequest_encode :: "AddPartitionsToTxnRequest \<Rightarrow> unit enc" where
  "AddPartitionsToTxnRequest_encode m =
     then_p (err_as (- 1) (putString (apq_transactional_id m)))
    (then_p (putInt64 (apq_producer_id m))
    (then_p (putInt16 (apq_producer_epoch m))
    (then_p (err_as (- 1) (putArrayLength (size32 (length (apq_topic_partitions m)))))
       (for_each AddPartitions_put_topic (apq_topic_partitions m)))))"

definition AddPartitionsToTxnRequest_decode :: "AddPartitionsToTxnRequest \<Rightarrow> int16 \<Rightarrow> AddPartitionsToTxnRequest dec" where
  "AddPartitionsToTxnRequest_decode this version =
     bind_p getString (\<lambda>transactional_id.
     bind_p getInt64 (\<lambda>producer_id.
     bind_p getInt16 (\<lambda>producer_epoch.
     bind_p getArrayLength (\<lambda>n.
     bind_p (put_all (\<lambda>(k, v). AList.update k v) n AddPartitions_get_topic []) (\<lambda>topics.
       ret (this\<lparr>apq_transactional_id := transactional_id, apq_producer_id := producer_id,
         apq_producer_epoch := producer_epoch, apq_topic_partitions := topics\<rparr>))))))"

definition AddPartitionsToTxnRequest_required_version :: "int16 \<Rightarrow> KafkaVersion" where
  "AddPartitionsToTxnRequest_required_version v =
     (if v = 2 then V2_7_0_0 else if v = 1 then V2_0_0_0 else V0_11_0_0)"

definition AddPartitionsToTxnRequest_body :: "AddPartitionsToTxnRequest \<Rightarrow> protocol_body" where
  "AddPartitionsToTxnRequest_body m =
     \<lparr>pb_key = 24, pb_version = apq_version m,
      pb_header_version = 1,
      pb_is_valid_version = (sint (apq_version m) \<ge> 0 \<and> sint (apq_version m) \<le> 2),
      pb_is_flexible = False,
      pb_is_flexible_version = (\<lambda>_. False),
      pb_required_version = AddPartitionsToTxnRequest_required_version (apq_version m),
      pb_encode = AddPartitionsToTxnRequest_encode m\<rparr>"

definition wAddPartitionsToTxnRequest :: "AddPartitionsToTxnRequest \<Rightarrow> bytes" where
  "wAddPartitionsToTxnRequest m =
     wString False (apq_transactional_id m) @ be64 (apq_producer_id m) @ be16 (apq_producer_epoch m) @
     wLen False (length (apq_topic_partitions m)) @
     concat (map (\<lambda>(topic, ps). wString False topic @ wInt32Array False ps) (apq_topic_partitions m))"

definition AddPartitionsToTxnRequest_ok :: "AddPartitionsToTxnRequest \<Rightarrow> bool" where
  "AddPartitionsToTxnRequest_ok m \<longleftrightarrow>
     string_ok False (apq_transactional_id m) \<and> len_ok False (length (apq_topic_partitions m)) \<and>
     distinct (map fst (apq_topic_partitions m)) \<and>
     (\<forall>(topic, ps) \<in> set (apq_topic_partitions m). string_ok False topic \<and> len_ok False (length ps))"

definition AddPartitionsToTxnRequest_seen :: "AddPartitionsToTxnRequest \<Rightarrow> AddPartitionsToTxnRequest \<Rightarrow> AddPartitionsToTxnRequest" where
  "AddPartitionsToTxnRequest_seen this m =
     m\<lparr>apq_version := apq_version this\<rparr>"

interpretation apq: protocol_message AddPartitionsToTxnRequest_body AddPartitionsToTxnRequest_decode wAddPartitionsToTxnRequest AddPartitionsToTxnRequest_ok AddPartitionsToTxnRequest_seen
proof
  fix m this :: AddPartitionsToTxnRequest
  assume ok: "AddPartitionsToTxnRequest_ok m"
  show "emits (pb_is_flexible (AddPartitionsToTxnRequest_body m)) (pb_encode (AddPartitionsToTxnRequest_body m)) (wAddPartitionsToTxnRequest m)"
    unfolding AddPartitionsToTxnRequest_body_def AddPartitionsToTxnRequest_encode_def wAddPartitionsToTxnRequest_def Let_def protocol_body.simps 
    by (intro emits_rules; use ok in \<open>auto simp: AddPartitionsToTxnRequest_ok_def Let_def \<close>)
  show "reads (pb_is_flexible (AddPartitionsToTxnRequest_body m)) (AddPartitionsToTxnRequest_decode this (pb_version (AddPartitionsToTxnRequest_body m)))
      (wAddPartitionsToTxnRequest m) (AddPartitionsToTxnRequest_seen this m)"
    unfolding AddPartitionsToTxnRequest_body_def AddPartitionsToTxnRequest_decode_def wAddPartitionsToTxnRequest_def Let_def protocol_body.simps wArray_def 
    by (rule reads_conv, (rule reads_rules reads_put_all_alist | (use ok in \<open>auto simp: AddPartitionsToTxnRequest_ok_def Let_def 
      AddPartitionsToTxnRequest_seen_def ; fail\<close>))+)
qed (simp_all add: AddPartitionsToTxnRequest_body_def wAddPartitionsToTxnRequest_def Let_def)

definition AddPartitionsToTxnRequest_new :: "KafkaVersion \<Rightarrow> int16" where
  "AddPartitionsToTxnRequest_new conf_Version =
     (if IsAtLeast conf_Version V2_7_0_0 then 2 else if IsAtLeast conf_Version V2_0_0_0 then 1 else 0)"

definition AddPartitions_put_errors :: "bytes \<times> PartitionError list \<Rightarrow> unit enc" where
  "AddPartitions_put_errors kv =
     then_p (err_as (- 1) (putString (fst kv)))
    (then_p (err_as (- 1) (putArrayLength (size32 (length (snd kv)))))
            (for_each (\<lambda>e. err_as (- 1) (PartitionError_encode e)) (snd kv)))"

definition AddPartitions_get_errors :: "(bytes \<times> PartitionError list) dec" where
  "AddPartitions_get_errors =
     bind_p getString (\<lambda>topic.
     bind_p getArrayLength (\<lambda>n.
     bind_p (resize_read n PartitionError_decode) (\<lambda>errors. ret (topic, errors))))"

definition wTopicErrors :: "bool \<Rightarrow> bytes \<times> PartitionError list \<Rightarrow> bytes" where
  "wTopicErrors fl kv = wString fl (fst kv) @ wLen fl (length (snd kv)) @ concat (map wPartitionError (snd kv))"

lemma emits_AddPartitions_errors [emits_rules]:
  "string_ok fl (fst kv) \<Longrightarrow> len_ok fl (length (snd kv)) \<Longrightarrow> emits fl (AddPartitions_put_errors kv) (wTopicErrors fl kv)"
  unfolding AddPartitions_put_errors_def wTopicErrors_def by (intro emits_rules)

lemma reads_AddPartitions_errors [reads_rules]:
  assumes "string_ok fl (fst kv)" "len_ok fl (length (snd kv))"
  shows "reads fl AddPartitions_get_errors (wTopicErrors fl kv) kv"
  unfolding AddPartitions_get_errors_def wTopicErrors_def
  by (rule reads_conv, (rule reads_rules assms)+) simp

record AddPartitionsToTxnResponse =
  apr_version :: int16
  apr_throttle_time :: int64
  apr_errors :: "(bytes \<times> PartitionError list) list"

definition AddPartitionsToTxnResponse_set_version :: "int16 \<Rightarrow> AddPartitionsToTxnResponse \<Rightarrow> AddPartitionsToTxnResponse" where
  "AddPartitionsToTxnResponse_set_version v m = m\<lparr>apr_version := v\<rparr>"

definition AddPartitionsToTxnResponse_encode :: "AddPartitionsToTxnResponse \<Rightarrow> unit enc" where
  "AddPartitionsToTxnResponse_encode m =
     then_p (putDurationMs (apr_throttle_time m))
    (then_p (err_as (- 1) (putArrayLength (size32 (length (apr_errors m)))))
       (for_each AddPartitions_put_errors (apr_errors m)))"

definition AddPartitionsToTxnResponse_decode :: "AddPartitionsToTxnResponse \<Rightarrow> int16 \<Rightarrow> AddPartitionsToTxnResponse dec" where
  "AddPartitionsToTxnResponse_decode this version =
     bind_p getDurationMs (\<lambda>throttle.
     bind_p getArrayLength (\<lambda>n.
     bind_p (put_all (\<lambda>(k, v). smap_put k v) n AddPartitions_get_errors []) (\<lambda>errors.
       ret \<lparr>apr_version = version, apr_throttle_time = throttle, apr_errors = errors\<rparr>)))"

definition AddPartitionsToTxnResponse_required_version :: "int16 \<Rightarrow> KafkaVersion" where
  "AddPartitionsToTxnResponse_required_version v =
     (if v = 2 then V2_7_0_0 else if v = 1 then V2_0_0_0 else V0_11_0_0)"

definition AddPartitionsToTxnResponse_body :: "AddPartitionsToTxnResponse \<Rightarrow> protocol_body" where
  "AddPartitionsToTxnResponse_body m =
     \<lparr>pb_key = 24, pb_version = apr_version m,
      pb_header_version = 0,
      pb_is_valid_version = (sint (apr_version m) \<ge> 0 \<and> sint (apr_version m) \<le> 2),
      pb_is_flexible = False,
      pb_is_flexible_version = (\<lambda>_. False),
      pb_required_version = AddPartitionsToTxnResponse_required_version (apr_version m),
      pb_encode = AddPartitionsToTxnResponse_encode m\<rparr>"

definition wAddPartitionsToTxnResponse :: "AddPartitionsToTxnResponse \<Rightarrow> bytes" where
  "wAddPartitionsToTxnResponse m =
     wDurationMs (apr_throttle_time m) @ wLen False (length (apr_errors m)) @
     concat (map (wTopicErrors False) (apr_errors m))"

definition AddPartitionsToTxnResponse_ok :: "AddPartitionsToTxnResponse \<Rightarrow> bool" where
  "AddPartitionsToTxnResponse_ok m \<longleftrightarrow>
     duration_ok (apr_throttle_time m) \<and> len_ok False (length (apr_errors m)) \<and> smap (apr_errors m) \<and>
     (\<forall>kv \<in> set (apr_errors m). string_ok False (fst kv) \<and> len_ok False (length (snd kv)))"

definition AddPartitionsToTxnResponse_seen :: "AddPartitionsToTxnResponse \<Rightarrow> AddPartitionsToTxnResponse \<Rightarrow> AddPartitionsToTxnResponse" where
  "AddPartitionsToTxnResponse_seen this m =
     m"

interpretation apr: protocol_message AddPartitionsToTxnResponse_body AddPartitionsToTxnResponse_decode wAddPartitionsToTxnResponse AddPartitionsToTxnResponse_ok AddPartitionsToTxnResponse_seen
proof
  fix m this :: AddPartitionsToTxnResponse
  assume ok: "AddPartitionsToTxnResponse_ok m"
  show "emits (pb_is_flexible (AddPartitionsToTxnResponse_body m)) (pb_encode (AddPartitionsToTxnResponse_body m)) (wAddPartitionsToTxnResponse m)"
    unfolding AddPartitionsToTxnResponse_body_def AddPartitionsToTxnResponse_encode_def wAddPartitionsToTxnResponse_def Let_def protocol_body.simps 
    by (intro emits_rules; use ok in \<open>auto simp: AddPartitionsToTxnResponse_ok_def Let_def \<close>)
  show "reads (pb_is_flexible (AddPartitionsToTxnResponse_body m)) (AddPartitionsToTxnResponse_decode this (pb_version (AddPartitionsToTxnResponse_body m)))
      (wAddPartitionsToTxnResponse m) (AddPartitionsToTxnResponse_seen this m)"
    unfolding AddPartitionsToTxnResponse_body_def AddPartitionsToTxnResponse_decode_def wAddPartitionsToTxnResponse_def Let_def protocol_body.simps wArray_def 
    by (rule reads_conv, (rule reads_rules reads_put_all_smap | (use ok in \<open>auto simp: AddPartitionsToTxnResponse_ok_def Let_def 
      AddPartitionsToTxnResponse_seen_def ; fail\<close>))+)
qed (simp_all add: AddPartitionsToTxnResponse_body_def wAddPartitionsToTxnResponse_def Let_def)

section \<open>Producer ids\<close>

definition InitProducerIDRequest_new :: "KafkaVersion \<Rightarrow> int16" where
  "InitProducerIDRequest_new conf_Version =
     (if IsAtLeast conf_Version V2_7_0_0 then 4 else if IsAtLeast conf_Version V2_5_0_0 then 3
      else if IsAtLeast conf_Version V2_4_0_0 then 2 else if IsAtLeast conf_Version V2_0_0_0 then 1 else 0)"

record InitProducerIDRequest =
  ipq_version :: int16
  ipq_transactional_id :: bytes
  ipq_transaction_timeout :: int64
  ipq_producer_id :: int64
  ipq_producer_epoch :: int16

definition InitProducerIDRequest_set_version :: "int16 \<Rightarrow> InitProducerIDRequest \<Rightarrow> InitProducerIDRequest" where
  "InitProducerIDRequest_set_version v m = m\<lparr>ipq_version := v\<rparr>"

definition InitProducerIDRequest_encode :: "InitProducerIDRequest \<Rightarrow> unit enc" where
  "InitProducerIDRequest_encode m =
     then_p (putNullableString (ipq_transactional_id m))
    (then_p (putInt32 (ucast (ipq_transaction_timeout m)))
    (then_p (when_p (sint (ipq_version m) \<ge> 3) (then_p (putInt64 (ipq_producer_id m)) (putInt16 (ipq_producer_epoch m))))
       putEmptyTaggedFieldArray))"

definition InitProducerIDRequest_decode :: "InitProducerIDRequest \<Rightarrow> int16 \<Rightarrow> InitProducerIDRequest dec" where
  "InitProducerIDRequest_decode this version =
     bind_p getNullableString (\<lambda>transactional_id.
     bind_p getInt32 (\<lambda>timeout.
     bind_p (field_if (sint version \<ge> 3)
              (bind_p getInt64 (\<lambda>pid. bind_p getInt16 (\<lambda>epoch. ret (pid, epoch))))
              (ipq_producer_id this, ipq_producer_epoch this)) (\<lambda>producer.
       tags_then \<lparr>ipq_version = version, ipq_transactional_id = transactional_id, ipq_transaction_timeout = scast timeout,
         ipq_producer_id = fst producer, ipq_producer_epoch = snd producer\<rparr>)))"

definition InitProducerIDRequest_is_flexible_version :: "int16 \<Rightarrow> bool" where
  "InitProducerIDRequest_is_flexible_version ver \<longleftrightarrow> sint ver \<ge> 2"

definition InitProducerIDRequest_required_version :: "int16 \<Rightarrow> KafkaVersion" where
  "InitProducerIDRequest_required_version v =
     (if v = 4 then V2_7_0_0 else if v = 3 then V2_5_0_0 else if v = 2 then V2_4_0_0 else
      if v = 1 then V2_0_0_0 else if v = 0 then V0_11_0_0 else V2_7_0_0)"

definition InitProducerIDRequest_body :: "InitProducerIDRequest \<Rightarrow> protocol_body" where
  "InitProducerIDRequest_body m =
     \<lparr>pb_key = 22, pb_version = ipq_version m,
      pb_header_version = (if sint (ipq_version m) \<ge> 2 then 2 else 1),
      pb_is_valid_version = (sint (ipq_version m) \<ge> 0 \<and> sint (ipq_version m) \<le> 4),
      pb_is_flexible = InitProducerIDRequest_is_flexible_version (ipq_version m),
      pb_is_flexible_version = InitProducerIDRequest_is_flexible_version,
      pb_required_version = InitProducerIDRequest_required_version (ipq_version m),
      pb_encode = InitProducerIDRequest_encode m\<rparr>"

definition wInitProducerIDRequest :: "InitProducerIDRequest \<Rightarrow> bytes" where
  "wInitProducerIDRequest m =
     (let fl = InitProducerIDRequest_is_flexible_version (ipq_version m) in
      wNullableString fl (ipq_transactional_id m) @ be32 (ucast (ipq_transaction_timeout m)) @
      (if sint (ipq_version m) \<ge> 3 then be64 (ipq_producer_id m) @ be16 (ipq_producer_epoch m) else []) @ wTags fl)"

definition InitProducerIDRequest_ok :: "InitProducerIDRequest \<Rightarrow> bool" where
  "InitProducerIDRequest_ok m \<longleftrightarrow>
     (let fl = InitProducerIDRequest_is_flexible_version (ipq_version m) in
      string_ok fl (ipq_transactional_id m) \<and> duration_ok (ipq_transaction_timeout m))"

definition InitProducerIDRequest_seen :: "InitProducerIDRequest \<Rightarrow> InitProducerIDRequest \<Rightarrow> InitProducerIDRequest" where
  "InitProducerIDRequest_seen this m =
     (if sint (ipq_version m) \<ge> 3 then m
      else m\<lparr>ipq_producer_id := ipq_producer_id this, ipq_producer_epoch := ipq_producer_epoch this\<rparr>)"

interpretation ipq: protocol_message InitProducerIDRequest_body InitProducerIDRequest_decode wInitProducerIDRequest InitProducerIDRequest_ok InitProducerIDRequest_seen
proof
  fix m this :: InitProducerIDRequest
  assume ok: "InitProducerIDRequest_ok m"
  show "emits (pb_is_flexible (InitProducerIDRequest_body m)) (pb_encode (InitProducerIDRequest_body m)) (wInitProducerIDRequest m)"
    unfolding InitProducerIDRequest_body_def InitProducerIDRequest_encode_def wInitProducerIDRequest_def Let_def protocol_body.simps 
    by (intro emits_rules; use ok in \<open>auto simp: InitProducerIDRequest_ok_def Let_def \<close>)
  show "reads (pb_is_flexible (InitProducerIDRequest_body m)) (InitProducerIDRequest_decode this (pb_version (InitProducerIDRequest_body m)))
      (wInitProducerIDRequest m) (InitProducerIDRequest_seen this m)"
    unfolding InitProducerIDRequest_body_def InitProducerIDRequest_decode_def wInitProducerIDRequest_def Let_def protocol_body.simps wArray_def 
    by (rule reads_conv, (rule reads_rules | (use ok in \<open>auto simp: InitProducerIDRequest_ok_def Let_def 
      InitProducerIDRequest_seen_def scast_ucast_duration; fail\<close>))+)
qed (simp_all add: InitProducerIDRequest_body_def wInitProducerIDRequest_def Let_def)

record InitProducerIDResponse =
  ipr_throttle_time :: int64
  ipr_err :: int16
  ipr_version :: int16
  ipr_producer_id :: int64
  ipr_producer_epoch :: int16

definition InitProducerIDResponse_set_version :: "int16 \<Rightarrow> InitProducerIDResponse \<Rightarrow> InitProducerIDResponse" where
  "InitProducerIDResponse_set_version v m = m\<lparr>ipr_version := v\<rparr>"

definition InitProducerIDResponse_encode :: "InitProducerIDResponse \<Rightarrow> unit enc" where
  "InitProducerIDResponse_encode m =
     then_p (putDurationMs (ipr_throttle_time m))
    (then_p (putKError (ipr_err m))
    (then_p (putInt64 (ipr_producer_id m))
    (then_p (putInt16 (ipr_producer_epoch m))
       putEmptyTaggedFieldArray)))"

definition InitProducerIDResponse_decode :: "InitProducerIDResponse \<Rightarrow> int16 \<Rightarrow> InitProducerIDResponse dec" where
  "InitProducerIDResponse_decode this version =
     bind_p getDurationMs (\<lambda>throttle.
     bind_p getKError (\<lambda>err.
     bind_p getInt64 (\<lambda>producer_id.
     bind_p getInt16 (\<lambda>producer_epoch.
       tags_then \<lparr>ipr_throttle_time = throttle, ipr_err = err, ipr_version = version,
         ipr_producer_id = producer_id, ipr_producer_epoch = producer_epoch\<rparr>))))"

definition InitProducerIDResponse_is_flexible_version :: "int16 \<Rightarrow> bool" where
  "InitProducerIDResponse_is_flexible_version ver \<longleftrightarrow> sint ver \<ge> 2"

definition InitProducerIDResponse_required_version :: "int16 \<Rightarrow> KafkaVersion" where
  "InitProducerIDResponse_required_version v =
     (if v = 4 then V2_7_0_0 else if v = 3 then V2_5_0_0 else if v = 2 then V2_4_0_0 else
      if v = 1 then V2_0_0_0 else V0_11_0_0)"

definition InitProducerIDResponse_body :: "InitProducerIDResponse \<Rightarrow> protocol_body" where
  "InitProducerIDResponse_body m =
     \<lparr>pb_key = 22, pb_version = ipr_version m,
      pb_header_version = (if sint (ipr_version m) \<ge> 2 then 1 else 0),
      pb_is_valid_version = (sint (ipr_version m) \<ge> 0 \<and> sint (ipr_version m) \<le> 4),
      pb_is_flexible = InitProducerIDResponse_is_flexible_version (ipr_version m),
      pb_is_flexible_version = InitProducerIDResponse_is_flexible_version,
      pb_required_version = InitProducerIDResponse_required_version (ipr_version m),
      pb_encode = InitProducerIDResponse_encode m\<rparr>"

definition wInitProducerIDResponse :: "InitProducerIDResponse \<Rightarrow> bytes" where
  "wInitProducerIDResponse m =
     (let fl = InitProducerIDResponse_is_flexible_version (ipr_version m) in
      wDurationMs (ipr_throttle_time m) @ be16 (ipr_err m) @ be64 (ipr_producer_id m) @ be16 (ipr_producer_epoch m) @ wTags fl)"

definition InitProducerIDResponse_ok :: "InitProducerIDResponse \<Rightarrow> bool" where
  "InitProducerIDResponse_ok m \<longleftrightarrow>
      duration_ok (ipr_throttle_time m)"

definition InitProducerIDResponse_seen :: "InitProducerIDResponse \<Rightarrow> InitProducerIDResponse \<Rightarrow> InitProducerIDResponse" where
  "InitProducerIDResponse_seen this m =
     m"

interpretation ipr: protocol_message InitProducerIDResponse_body InitProducerIDResponse_decode wInitProducerIDResponse InitProducerIDResponse_ok InitProducerIDResponse_seen
proof
  fix m this :: InitProducerIDResponse
  assume ok: "InitProducerIDResponse_ok m"
  show "emits (pb_is_flexible (InitProducerIDResponse_body m)) (pb_encode (InitProducerIDResponse_body m)) (wInitProducerIDResponse m)"
    unfolding InitProducerIDResponse_body_def InitProducerIDResponse_encode_def wInitProducerIDResponse_def Let_def protocol_body.simps 
    by (intro emits_rules; use ok in \<open>auto simp: InitProducerIDResponse_ok_def Let_def \<close>)
  show "reads (pb_is_flexible (InitProducerIDResponse_body m)) (InitProducerIDResponse_decode this (pb_version (InitProducerIDResponse_body m)))
      (wInitProducerIDResponse m) (InitProducerIDResponse_seen this m)"
    unfolding InitProducerIDResponse_body_def InitProducerIDResponse_decode_def wInitProducerIDResponse_def Let_def protocol_body.simps wArray_def 
    by (rule reads_conv, (rule reads_rules | (use ok in \<open>auto simp: InitProducerIDResponse_ok_def Let_def 
      InitProducerIDResponse_seen_def ; fail\<close>))+)
qed (simp_all add: InitProducerIDResponse_body_def wInitProducerIDResponse_def Let_def)

end
