(* ===== verification/Txn_Offset_Messages.thy ===== *)
theory Txn_Offset_Messages
  imports Txn_Messages
begin

text \<open>
  The offset commit of a transaction: \<^verbatim>\<open>partition_offset_metadata.cpp\<close>, \<^verbatim>\<open>txn_offset_commit_request.cpp\<close>
  and \<^verbatim>\<open>txn_offset_commit_response.cpp\<close>.  Most return codes are dropped in these classes: a failing
  \<^verbatim>\<open>get\<close> leaves \<open>-1\<close> in an integer and the old value in a string, and decoding goes on.  The response's
  \<^verbatim>\<open>decode\<close> indexes a vector it has only reserved, which is undefined as soon as a topic has a partition.
\<close>

section \<open>Partition offsets\<close>

record PartitionOffsetMetadata =
  pom_partition :: int32
  pom_offset :: int64
  pom_leader_epoch :: int32
  pom_metadata :: bytes

definition PartitionOffsetMetadata_default :: PartitionOffsetMetadata where
  "PartitionOffsetMetadata_default =
     \<lparr>pom_partition = 0, pom_offset = 0, pom_leader_epoch = 0, pom_metadata = []\<rparr>"

definition PartitionOffsetMetadata_encode :: "PartitionOffsetMetadata \<Rightarrow> unit enc" where
  "PartitionOffsetMetadata_encode x =
     then_p (putInt32 (pom_partition x))
    (then_p (putInt64 (pom_offset x))
    (then_p (ignore_err (putString (pom_metadata x)))
       (putInt32 (pom_leader_epoch x))))"

definition PartitionOffsetMetadata_decode :: "PartitionOffsetMetadata \<Rightarrow> PartitionOffsetMetadata dec" where
  "PartitionOffsetMetadata_decode this =
     bind_p (get_or getInt32 (- 1)) (\<lambda>partition.
     bind_p (get_or getInt64 (- 1)) (\<lambda>offset.
     bind_p (get_or getString (pom_metadata this)) (\<lambda>metadata.
     bind_p (get_or getInt32 (- 1)) (\<lambda>leader_epoch.
       ret \<lparr>pom_partition = partition, pom_offset = offset, pom_leader_epoch = leader_epoch,
            pom_metadata = metadata\<rparr>))))"

definition wPartitionOffsetMetadata :: "bool \<Rightarrow> PartitionOffsetMetadata \<Rightarrow> bytes" where
  "wPartitionOffsetMetadata fl x =
     be32 (pom_partition x) @ be64 (pom_offset x) @ wString fl (pom_metadata x) @ be32 (pom_leader_epoch x)"

lemma emits_PartitionOffsetMetadata [emits_rules]:
  "string_ok fl (pom_metadata x) \<Longrightarrow>
   emits fl (PartitionOffsetMetadata_encode x) (wPartitionOffsetMetadata fl x)"
  unfolding PartitionOffsetMetadata_encode_def wPartitionOffsetMetadata_def by (intro emits_rules) auto

lemma reads_PartitionOffsetMetadata [reads_rules]:
  assumes "string_ok fl (pom_metadata x)"
  shows "reads fl (PartitionOffsetMetadata_decode this) (wPartitionOffsetMetadata fl x) x"
  unfolding PartitionOffsetMetadata_decode_def wPartitionOffsetMetadata_def
  by (rule reads_conv, (rule reads_rules assms)+) simp

section \<open>TxnOffsetCommitRequest\<close>

record TxnOffsetCommitRequest =
  toq_version :: int16
  toq_transactional_id :: bytes
  toq_group_id :: bytes
  toq_producer_id :: int64
  toq_producer_epoch :: int16
  toq_topics :: "(bytes \<times> PartitionOffsetMetadata list) list"

definition TxnOffsetCommitRequest_set_version :: "int16 \<Rightarrow> TxnOffsetCommitRequest \<Rightarrow> TxnOffsetCommitRequest" where
  "TxnOffsetCommitRequest_set_version v m = m\<lparr>toq_version := v\<rparr>"

definition TxnOffsetCommit_put_topic :: "bytes \<times> PartitionOffsetMetadata list \<Rightarrow> unit enc" where
  "TxnOffsetCommit_put_topic kv =
     then_p (ignore_err (putString (fst kv)))
    (then_p (ignore_err (putArrayLength (size32 (length (snd kv)))))
       (for_each (\<lambda>p. ignore_err (PartitionOffsetMetadata_encode p)) (snd kv)))"

definition TxnOffsetCommitRequest_encode :: "TxnOffsetCommitRequest \<Rightarrow> unit enc" where
  "TxnOffsetCommitRequest_encode m =
     then_p (ignore_err (putString (toq_transactional_id m)))
    (then_p (ignore_err (putString (toq_group_id m)))
    (then_p (putInt64 (toq_producer_id m))
    (then_p (putInt16 (toq_producer_epoch m))
    (then_p (ignore_err (putArrayLength (size32 (length (toq_topics m)))))
       (for_each TxnOffsetCommit_put_topic (toq_topics m))))))"

text \<open>One round of the topic loop; a topic seen before is decoded into its old entries.\<close>

definition TxnOffsetCommit_get_topic ::
    "(bytes \<times> PartitionOffsetMetadata list) list \<Rightarrow> (bytes \<times> PartitionOffsetMetadata list) list dec" where
  "TxnOffsetCommit_get_topic topics =
     bind_p getString (\<lambda>topic.
     bind_p getArrayLength (\<lambda>n.
     bind_p (resize_into n PartitionOffsetMetadata_default
              (case map_of topics topic of Some old \<Rightarrow> old | None \<Rightarrow> []) PartitionOffsetMetadata_decode) (\<lambda>ps.
       ret (smap_put topic ps topics))))"

primrec TxnOffsetCommit_get_topics :: "nat \<Rightarrow> (bytes \<times> PartitionOffsetMetadata list) list \<Rightarrow>
    (bytes \<times> PartitionOffsetMetadata list) list dec" where
  "TxnOffsetCommit_get_topics 0 topics = ret topics"
| "TxnOffsetCommit_get_topics (Suc n) topics =
     bind_p (TxnOffsetCommit_get_topic topics) (TxnOffsetCommit_get_topics n)"

definition TxnOffsetCommitRequest_decode :: "TxnOffsetCommitRequest \<Rightarrow> int16 \<Rightarrow> TxnOffsetCommitRequest dec" where
  "TxnOffsetCommitRequest_decode this version =
     bind_p (get_or getString (toq_transactional_id this)) (\<lambda>transactional_id.
     bind_p (get_or getString (toq_group_id this)) (\<lambda>group_id.
     bind_p (get_or getInt64 (- 1)) (\<lambda>producer_id.
     bind_p (get_or getInt16 (- 1)) (\<lambda>producer_epoch.
     bind_p (get_or getArrayLength (- 1)) (\<lambda>n.
     bind_p (TxnOffsetCommit_get_topics (nat (sint n)) []) (\<lambda>topics.
       ret \<lparr>toq_version = version, toq_transactional_id = transactional_id, toq_group_id = group_id,
            toq_producer_id = producer_id, toq_producer_epoch = producer_epoch, toq_topics = topics\<rparr>))))))"

definition TxnOffsetCommitRequest_required_version :: "int16 \<Rightarrow> KafkaVersion" where
  "TxnOffsetCommitRequest_required_version v =
     (if v = 2 then V2_1_0_0 else if v = 1 then V2_0_0_0 else if v = 0 then V0_11_0_0 else V2_1_0_0)"

definition TxnOffsetCommitRequest_body :: "TxnOffsetCommitRequest \<Rightarrow> protocol_body" where
  "TxnOffsetCommitRequest_body m =
     \<lparr>pb_key = 28, pb_version = toq_version m, pb_header_version = 1,
      pb_is_valid_version = (sint (toq_version m) \<ge> 0 \<and> sint (toq_version m) \<le> 2),
      pb_is_flexible = False, pb_is_flexible_version = (\<lambda>_. False),
      pb_required_version = TxnOffsetCommitRequest_required_version (toq_version m),
      pb_encode = TxnOffsetCommitRequest_encode m\<rparr>"

definition wTxnOffsetTopic :: "bytes \<times> PartitionOffsetMetadata list \<Rightarrow> bytes" where
  "wTxnOffsetTopic kv = wString False (fst kv) @ wArray False (wPartitionOffsetMetadata False) (snd kv)"

definition wTxnOffsetCommitRequest :: "TxnOffsetCommitRequest \<Rightarrow> bytes" where
  "wTxnOffsetCommitRequest m =
     wString False (toq_transactional_id m) @ wString False (toq_group_id m) @ be64 (toq_producer_id m) @
     be16 (toq_producer_epoch m) @ wArray False wTxnOffsetTopic (toq_topics m)"

definition TxnOffsetTopic_ok :: "bytes \<times> PartitionOffsetMetadata list \<Rightarrow> bool" where
  "TxnOffsetTopic_ok kv \<longleftrightarrow> string_ok False (fst kv) \<and> len_ok False (length (snd kv)) \<and>
     (\<forall>p \<in> set (snd kv). string_ok False (pom_metadata p))"

definition TxnOffsetCommitRequest_ok :: "TxnOffsetCommitRequest \<Rightarrow> bool" where
  "TxnOffsetCommitRequest_ok m \<longleftrightarrow>
     string_ok False (toq_transactional_id m) \<and> string_ok False (toq_group_id m) \<and>
     len_ok False (length (toq_topics m)) \<and> smap (toq_topics m) \<and> (\<forall>kv \<in> set (toq_topics m). TxnOffsetTopic_ok kv)"

lemma emits_TxnOffset_topic [emits_rules]:
  "TxnOffsetTopic_ok kv \<Longrightarrow> emits False (TxnOffsetCommit_put_topic kv) (wTxnOffsetTopic kv)"
  unfolding TxnOffsetCommit_put_topic_def wTxnOffsetTopic_def TxnOffsetTopic_ok_def
  by (intro emits_rules) auto

lemma map2_snd: "length xs = length ys \<Longrightarrow> map2 (\<lambda>_ y. y) xs ys = ys"
  by (induction xs ys rule: list_induct2) auto

lemma reads_TxnOffset_topic:
  assumes "TxnOffsetTopic_ok kv"
  shows "reads False (TxnOffsetCommit_get_topic topics) (wTxnOffsetTopic kv) (smap_put (fst kv) (snd kv) topics)"
  unfolding TxnOffsetCommit_get_topic_def wTxnOffsetTopic_def wArray_def
  by (rule reads_conv, (rule reads_rules | (use assms in \<open>auto simp: TxnOffsetTopic_ok_def map2_snd; fail\<close>))+)

lemma reads_TxnOffset_topics:
  "\<forall>kv \<in> set xs. TxnOffsetTopic_ok kv \<Longrightarrow>
   reads False (TxnOffsetCommit_get_topics (length xs) topics) (concat (map wTxnOffsetTopic xs))
     (fold (\<lambda>(k, v). smap_put k v) xs topics)"
proof (induction xs arbitrary: topics)
  case (Cons kv xs)
  then show ?case
    using reads_TxnOffset_topic [of kv topics] by (cases kv) (auto intro: reads_bind)
qed (simp add: reads_ret)

lemma reads_TxnOffset_all [reads_rules]:
  assumes "len_ok False (length xs)" "smap xs" "\<forall>kv \<in> set xs. TxnOffsetTopic_ok kv"
  shows "reads False (TxnOffsetCommit_get_topics (nat (sint (size32 (length xs)))) [])
    (concat (map wTxnOffsetTopic xs)) xs"
  using reads_TxnOffset_topics [OF assms(3), of "[]"] smap_rebuild [of "[]" xs] assms by (simp add: sint_len)

interpretation toq: protocol_message TxnOffsetCommitRequest_body TxnOffsetCommitRequest_decode
  wTxnOffsetCommitRequest TxnOffsetCommitRequest_ok "\<lambda>_ m. m"
proof
  fix m this :: TxnOffsetCommitRequest
  assume ok: "TxnOffsetCommitRequest_ok m"
  show "emits (pb_is_flexible (TxnOffsetCommitRequest_body m)) (pb_encode (TxnOffsetCommitRequest_body m))
      (wTxnOffsetCommitRequest m)"
    unfolding TxnOffsetCommitRequest_body_def TxnOffsetCommitRequest_encode_def wTxnOffsetCommitRequest_def
      protocol_body.simps
    by (intro emits_rules; use ok in \<open>auto simp: TxnOffsetCommitRequest_ok_def\<close>)
  show "reads (pb_is_flexible (TxnOffsetCommitRequest_body m))
      (TxnOffsetCommitRequest_decode this (pb_version (TxnOffsetCommitRequest_body m))) (wTxnOffsetCommitRequest m) m"
    unfolding TxnOffsetCommitRequest_body_def TxnOffsetCommitRequest_decode_def wTxnOffsetCommitRequest_def
      protocol_body.simps wArray_def
    by (rule reads_conv, (rule reads_rules | (use ok in \<open>auto simp: TxnOffsetCommitRequest_ok_def; fail\<close>))+)
qed (simp_all add: TxnOffsetCommitRequest_body_def wTxnOffsetCommitRequest_def)

section \<open>TxnOffsetCommitResponse\<close>

record TxnOffsetCommitResponse =
  tor_version :: int16
  tor_throttle_time :: int64
  tor_topics :: "(bytes \<times> PartitionError list) list"

definition TxnOffsetCommitResponse_set_version :: "int16 \<Rightarrow> TxnOffsetCommitResponse \<Rightarrow> TxnOffsetCommitResponse" where
  "TxnOffsetCommitResponse_set_version v m = m\<lparr>tor_version := v\<rparr>"

definition TxnOffsetCommitResponse_throttle_time :: "TxnOffsetCommitResponse \<Rightarrow> int64" where
  "TxnOffsetCommitResponse_throttle_time m = tor_throttle_time m"

definition TxnOffsetCommit_put_errors :: "bytes \<times> PartitionError list \<Rightarrow> unit enc" where
  "TxnOffsetCommit_put_errors kv =
     then_p (ignore_err (putString (fst kv)))
    (then_p (ignore_err (putArrayLength (size32 (length (snd kv)))))
       (for_each (\<lambda>p. ignore_err (PartitionError_encode p)) (snd kv)))"

definition TxnOffsetCommitResponse_encode :: "TxnOffsetCommitResponse \<Rightarrow> unit enc" where
  "TxnOffsetCommitResponse_encode m =
     then_p (putDurationMs (tor_throttle_time m))
    (then_p (ignore_err (putArrayLength (size32 (length (tor_topics m)))))
       (for_each TxnOffsetCommit_put_errors (tor_topics m)))"

text \<open>
  \<open>errors.reserve(m); for (j = 0; j < m; ++j) errors[j].decode(pd, version);\<close>: \<^verbatim>\<open>reserve\<close> leaves the size
  alone (and throws for a negative \<open>m\<close>), so \<open>errors[j]\<close> exists only for the entries that an earlier topic
  of the same name left, which never happens: it left none.
\<close>

definition TxnOffsetCommit_get_errors :: "(bytes \<times> PartitionError list) dec" where
  "TxnOffsetCommit_get_errors =
     bind_p (get_or getString []) (\<lambda>topic.
     bind_p (get_or getArrayLength (- 1)) (\<lambda>m.
       if m = 0 then ret (topic, []) else (\<lambda>_. Abort)))"

definition TxnOffsetCommitResponse_decode ::
    "TxnOffsetCommitResponse \<Rightarrow> int16 \<Rightarrow> TxnOffsetCommitResponse dec" where
  "TxnOffsetCommitResponse_decode this version =
     bind_p getDurationMs (\<lambda>throttle_time.
     bind_p (get_or getArrayLength (- 1)) (\<lambda>n.
     bind_p (put_all (\<lambda>(k, v). smap_put k v) n TxnOffsetCommit_get_errors []) (\<lambda>topics.
       ret \<lparr>tor_version = version, tor_throttle_time = throttle_time, tor_topics = topics\<rparr>)))"

definition TxnOffsetCommitResponse_required_version :: "int16 \<Rightarrow> KafkaVersion" where
  "TxnOffsetCommitResponse_required_version v =
     (if v = 2 then V2_1_0_0 else if v = 1 then V2_0_0_0 else if v = 0 then V0_11_0_0 else V2_1_0_0)"

definition TxnOffsetCommitResponse_body :: "TxnOffsetCommitResponse \<Rightarrow> protocol_body" where
  "TxnOffsetCommitResponse_body m =
     \<lparr>pb_key = 28, pb_version = tor_version m, pb_header_version = 0,
      pb_is_valid_version = (sint (tor_version m) \<ge> 0 \<and> sint (tor_version m) \<le> 2),
      pb_is_flexible = False, pb_is_flexible_version = (\<lambda>_. False),
      pb_required_version = TxnOffsetCommitResponse_required_version (tor_version m),
      pb_encode = TxnOffsetCommitResponse_encode m\<rparr>"

definition wTxnOffsetErrors :: "bytes \<times> PartitionError list \<Rightarrow> bytes" where
  "wTxnOffsetErrors kv = wString False (fst kv) @ wArray False wPartitionError (snd kv)"

definition wTxnOffsetCommitResponse :: "TxnOffsetCommitResponse \<Rightarrow> bytes" where
  "wTxnOffsetCommitResponse m =
     wDurationMs (tor_throttle_time m) @ wArray False wTxnOffsetErrors (tor_topics m)"

text \<open>The layout is the one a Kafka broker sends, and \<^verbatim>\<open>encode\<close> writes it for every response.\<close>

lemma emits_TxnOffset_errors [emits_rules]:
  "string_ok False (fst kv) \<Longrightarrow> len_ok False (length (snd kv)) \<Longrightarrow>
   emits False (TxnOffsetCommit_put_errors kv) (wTxnOffsetErrors kv)"
  unfolding TxnOffsetCommit_put_errors_def wTxnOffsetErrors_def by (intro emits_rules)

lemma emits_TxnOffsetCommitResponse:
  assumes "duration_ok (tor_throttle_time m)" "len_ok False (length (tor_topics m))"
    "\<forall>kv \<in> set (tor_topics m). string_ok False (fst kv) \<and> len_ok False (length (snd kv))"
  shows "emits False (TxnOffsetCommitResponse_encode m) (wTxnOffsetCommitResponse m)"
  unfolding TxnOffsetCommitResponse_encode_def wTxnOffsetCommitResponse_def
  by (intro emits_rules; use assms in auto)

text \<open>Reading such a response back aborts as soon as its first topic has a partition.\<close>

definition aborts :: "bool \<Rightarrow> 'a dec \<Rightarrow> bytes \<Rightarrow> bool" where
  "aborts fl d bs \<longleftrightarrow>
     (\<forall>pd. (m_flexible pd \<noteq> 0) = fl \<and> length (pd_raw pd) < 2 ^ 31 \<and>
        pd_offset pd + length bs \<le> length (pd_raw pd) \<and>
        slice (pd_offset pd) (length bs) (pd_raw pd) = bs \<longrightarrow> d pd = Abort)"

lemma aborts_bind: "aborts fl m bs \<Longrightarrow> aborts fl (bind_p m k) bs"
  by (simp add: aborts_def)

lemma aborts_now: "aborts fl (\<lambda>_. Abort) bs"
  by (simp add: aborts_def)

lemma aborts_after:
  assumes m: "reads fl m bs x" and k: "aborts fl (k x) cs"
  shows "aborts fl (bind_p m k) (bs @ cs)"
  unfolding aborts_def
proof (intro allI impI, elim conjE)
  fix pd :: packet_decoder
  assume pd: "(m_flexible pd \<noteq> 0) = fl" "length (pd_raw pd) < 2 ^ 31"
    "pd_offset pd + length (bs @ cs) \<le> length (pd_raw pd)"
    "slice (pd_offset pd) (length (bs @ cs)) (pd_raw pd) = bs @ cs"
  have "m pd = Ok x (advance (length bs) pd)"
    using m pd slice_append_left [OF pd(4)] by (auto simp: reads_def)
  moreover have "k x (advance (length bs) pd) = Abort"
    using k pd slice_append_right [OF pd(4)] by (simp add: aborts_def advance_def add.assoc)
  ultimately show "bind_p m k pd = Abort" by simp
qed

lemma aborts_more: "aborts fl m bs \<Longrightarrow> aborts fl m (bs @ cs)"
  unfolding aborts_def using slice_append_left by fastforce

lemma aborts_loop:
  assumes "\<And>x. x \<in> set xs \<Longrightarrow> bad x \<Longrightarrow> aborts fl m (w x)"
    "\<And>x. x \<in> set xs \<Longrightarrow> \<not> bad x \<Longrightarrow> reads fl m (w x) x" "\<exists>x \<in> set xs. bad x"
  shows "aborts fl (loop_p (length xs) f m acc) (concat (map w xs))"
  using assms
proof (induction xs arbitrary: acc)
  case (Cons x xs)
  show ?case
  proof (cases "bad x")
    case True
    then have "aborts fl m (w x @ concat (map w xs))" using Cons.prems by (auto intro: aborts_more)
    then show ?thesis by (simp add: aborts_bind)
  next
    case False
    then show ?thesis using Cons by (auto intro!: aborts_after)
  qed
qed simp

lemma TxnOffset_errors:
  assumes "string_ok False (fst kv)" "len_ok False (length (snd kv))"
  shows "snd kv \<noteq> [] \<Longrightarrow> aborts False TxnOffsetCommit_get_errors (wTxnOffsetErrors kv)"
    and "snd kv = [] \<Longrightarrow> reads False TxnOffsetCommit_get_errors (wTxnOffsetErrors kv) kv"
proof -
  note len = reads_get_or [OF reads_getArrayLength [OF assms(2)]]
  show "aborts False TxnOffsetCommit_get_errors (wTxnOffsetErrors kv)" if "snd kv \<noteq> []"
  proof -
    have "size32 (length (snd kv)) \<noteq> 0" using that assms(2) sint_len [of False "length (snd kv)"] by auto
    then show ?thesis
      unfolding TxnOffsetCommit_get_errors_def wTxnOffsetErrors_def wArray_def
      by (intro aborts_after [OF reads_get_or [OF reads_getString [OF assms(1)]]] aborts_after [OF len])
        (simp add: aborts_now)
  qed
  show "reads False TxnOffsetCommit_get_errors (wTxnOffsetErrors kv) kv" if "snd kv = []"
    unfolding TxnOffsetCommit_get_errors_def wTxnOffsetErrors_def wArray_def
    by (intro reads_bind [OF reads_get_or [OF reads_getString [OF assms(1)]]] reads_bind [OF len])
      (use that in \<open>cases kv, auto intro: reads_ret\<close>)
qed

lemma aborts_TxnOffsetCommitResponse:
  assumes "duration_ok (tor_throttle_time m)" "len_ok False (length (tor_topics m))"
    "\<forall>kv \<in> set (tor_topics m). string_ok False (fst kv) \<and> len_ok False (length (snd kv))"
    "\<exists>kv \<in> set (tor_topics m). snd kv \<noteq> []"
  shows "aborts False (TxnOffsetCommitResponse_decode this version) (wTxnOffsetCommitResponse m)"
proof -
  have "aborts False (put_all (\<lambda>(k, v). smap_put k v) (size32 (length (tor_topics m))) TxnOffsetCommit_get_errors [])
      (concat (map wTxnOffsetErrors (tor_topics m)))"
    unfolding put_all_def sint_len [OF assms(2)] nat_int
    using assms(3,4) TxnOffset_errors by (intro aborts_loop [of _ "\<lambda>kv. snd kv \<noteq> []"]) auto
  then show ?thesis
    unfolding TxnOffsetCommitResponse_decode_def wTxnOffsetCommitResponse_def wArray_def
    by (intro aborts_after [OF reads_getDurationMs [OF assms(1)]]
        aborts_after [OF reads_get_or [OF reads_getArrayLength [OF assms(2)]]] aborts_bind)
qed

lemma decode_version_aborts:
  assumes "aborts False (d version) bs" "bs \<noteq> []" "length bs < 2 ^ 31" "\<not> pb_is_flexible_version b version"
  shows "decode_version bs (body_VDecoder b d this) version = Abort"
  using assms by (simp add: decode_version_def prepare_flexible_decoder_def body_VDecoder_def aborts_def
      new_decoder_def slice_def)

end
