(* ===== verification/Transaction_Manager.thy ===== *)
theory Transaction_Manager
  imports Txn_Status Decimal Txn_Offset_Messages
begin

text \<open>
  The transaction manager of a producer (\<^verbatim>\<open>transaction_manager.h\<close>, \<^verbatim>\<open>transaction_manager.cpp\<close>) and the
  transitions that \<^verbatim>\<open>AsyncProducer\<close> (\<^verbatim>\<open>async_producer.cpp\<close>) drives it with.

  \<^item> The manager is the record \<open>TransactionManager\<close>; a method without \<^verbatim>\<open>co_await\<close> is a function on it.
  \<^item> A coroutine is a \<open>prog\<close> on the manager and the world \<open>'w\<close> outside the process.  What the cluster
    answers is not in the program: the record \<open>Client\<close> has one function of the world per call that goes
    to the network, with the request as its argument, and every theorem holds for all of them.
  \<^item> Reference arguments that a coroutine changes are returned beside its result.
  \<^item> \<open>Abort\<close> is the use of a null pointer, or \<^verbatim>\<open>std::out_of_range\<close> escaping from \<^verbatim>\<open>at\<close>.

  The manager is taken to be used by one coroutine at a time: no other call changes it while one of its
  coroutines waits for the network.
\<close>

section \<open>Error codes\<close>

definition ErrUnknownTopicOrPartition :: int where "ErrUnknownTopicOrPartition = 3"
definition ErrRequestTimedOut :: int where "ErrRequestTimedOut = 7"
definition ErrOffsetsLoadInProgress :: int where "ErrOffsetsLoadInProgress = 14"
definition ErrConsumerCoordinatorNotAvailable :: int where "ErrConsumerCoordinatorNotAvailable = 15"
definition ErrNotCoordinatorForConsumer :: int where "ErrNotCoordinatorForConsumer = 16"
definition ErrIllegalGeneration :: int where "ErrIllegalGeneration = 22"
definition ErrUnknownMemberId :: int where "ErrUnknownMemberId = 25"
definition ErrTopicAuthorizationFailed :: int where "ErrTopicAuthorizationFailed = 29"
definition ErrGroupAuthorizationFailed :: int where "ErrGroupAuthorizationFailed = 30"
definition ErrClusterAuthorizationFailed :: int where "ErrClusterAuthorizationFailed = 31"
definition ErrUnsupportedVersion :: int where "ErrUnsupportedVersion = 35"
definition ErrInvalidProducerIDMapping :: int where "ErrInvalidProducerIDMapping = 49"
definition ErrConcurrentTransactions :: int where "ErrConcurrentTransactions = 51"
definition ErrTransactionalIDAuthorizationFailed :: int where "ErrTransactionalIDAuthorizationFailed = 53"
definition ErrOperationNotAttempted :: int where "ErrOperationNotAttempted = 55"
definition ErrUnknownProducerID :: int where "ErrUnknownProducerID = 59"
definition ErrFencedInstancedId :: int where "ErrFencedInstancedId = 82"
definition ErrProducerFenced :: int where "ErrProducerFenced = 90"
definition ErrTxnOffsetCommit :: int where "ErrTxnOffsetCommit = 1022"
definition ErrTransactionNotReady :: int where "ErrTransactionNotReady = 1023"
definition ErrTransitionNotAllowed :: int where "ErrTransitionNotAllowed = 1025"
definition ErrCannotTransitionNilError :: int where "ErrCannotTransitionNilError = 1026"

section \<open>State\<close>

type_synonym TopicPartition = "bytes \<times> int32"
type_synonym TopicPartitionSet = "TopicPartition list"
type_synonym TopicPartitionOffsets = "(TopicPartition \<times> PartitionOffsetMetadata) list"

definition noProducerID :: int64 where "noProducerID = - 1"
definition noProducerEpoch :: int16 where "noProducerEpoch = - 1"

record TransactionManager =
  m_status :: "16 word"
  m_producer_id :: int64
  m_producer_epoch :: int16
  m_sequence_numbers :: "(bytes \<times> int32) list"
  m_transactional_id :: bytes
  m_transaction_timeout :: int64
  m_coordinator_supports_bumping_epoch :: bool
  m_epoch_bump_required :: bool
  m_last_error :: int
  m_pending_partitions_in_current_txn :: TopicPartitionSet
  m_partitions_in_current_txn :: TopicPartitionSet
  m_offsets_in_current_txn :: "(bytes \<times> TopicPartitionOffsets) list"

text \<open>The entries of the configuration that the manager reads.\<close>

record Txn_Config =
  cf_Version :: KafkaVersion
  cf_Idempotent :: bool
  cf_Transaction_ID :: bytes
  cf_Transaction_Timeout :: int64
  cf_Retry_Max :: int
  cf_Retry_Backoff :: int64
  cf_Retry_BackoffFunc :: "(int \<Rightarrow> int \<Rightarrow> int64) option"

text \<open>
  The calls that leave the process.  A broker is a handle, \<open>None\<close> the null pointer; a call to a broker
  gives the return code and what the promise's \<^verbatim>\<open>m_response\<close> holds afterwards.
\<close>

record 'w Client =
  cl_conf :: Txn_Config
  cl_TransactionCoordinator :: "bytes \<Rightarrow> 'w \<Rightarrow> (int \<times> nat option) \<times> 'w"
  cl_RefreshTransactionCoordinator :: "bytes \<Rightarrow> 'w \<Rightarrow> int \<times> 'w"
  cl_GetCoordinator :: "bytes \<Rightarrow> 'w \<Rightarrow> (int \<times> nat option) \<times> 'w"
  cl_RefreshCoordinator :: "bytes \<Rightarrow> 'w \<Rightarrow> unit \<times> 'w"
  cl_LeastLoadedBroker :: "'w \<Rightarrow> (int \<times> nat option) \<times> 'w"
  cl_Close :: "nat \<Rightarrow> 'w \<Rightarrow> unit \<times> 'w"
  cl_AddOffsetsToTxn :: "nat \<Rightarrow> AddOffsetsToTxnRequest \<Rightarrow> 'w \<Rightarrow> (int \<times> AddOffsetsToTxnResponse) \<times> 'w"
  cl_TxnOffsetCommit :: "nat \<Rightarrow> TxnOffsetCommitRequest \<Rightarrow> 'w \<Rightarrow> (int \<times> TxnOffsetCommitResponse) \<times> 'w"
  cl_AddPartitionsToTxn ::
    "nat \<Rightarrow> AddPartitionsToTxnRequest \<Rightarrow> 'w \<Rightarrow> (int \<times> AddPartitionsToTxnResponse option) \<times> 'w"
  cl_InitProducerID :: "nat \<Rightarrow> InitProducerIDRequest option \<Rightarrow> 'w \<Rightarrow> (int \<times> InitProducerIDResponse) \<times> 'w"
  cl_sleep_for :: "int64 \<Rightarrow> 'w \<Rightarrow> unit \<times> 'w"

type_synonym ('w, 'a) txn = "(TransactionManager \<times> 'w, 'a) prog"

definition mgr :: "(TransactionManager \<Rightarrow> 'a \<times> TransactionManager) \<Rightarrow> ('w, 'a) txn" where
  "mgr f = (\<lambda>(t, w). case f t of (x, t') \<Rightarrow> Ok x (t', w))"

definition await :: "('w \<Rightarrow> 'a \<times> 'w) \<Rightarrow> ('w, 'a) txn" where
  "await f = (\<lambda>(t, w). case f w of (x, w') \<Rightarrow> Ok x (t, w'))"

definition this_mgr :: "('w, TransactionManager) txn" where
  "this_mgr = (\<lambda>(t, w). Ok t (t, w))"

definition null_pointer :: "('w, 'a) txn" where
  "null_pointer = (\<lambda>_. Abort)"

definition deref :: "nat option \<Rightarrow> ('w, nat) txn" where
  "deref p = (case p of Some b \<Rightarrow> ret b | None \<Rightarrow> null_pointer)"

section \<open>Methods without a wait\<close>

definition MapToRequest_partitions :: "TopicPartitionSet \<Rightarrow> (bytes \<times> int32 list) list" where
  "MapToRequest_partitions s =
     fold (\<lambda>(topic, partition) result. smap_push topic [partition] result) s []"

definition MapToRequest_offsets :: "TopicPartitionOffsets \<Rightarrow> (bytes \<times> PartitionOffsetMetadata list) list" where
  "MapToRequest_offsets offsets =
     fold (\<lambda>((topic, _), pfm) result. smap_push topic [pfm] result) offsets []"

definition TransactionManager_new :: "Txn_Config \<Rightarrow> TransactionManager" where
  "TransactionManager_new conf =
     \<lparr>m_status = ProducerTxnFlagUninitialized, m_producer_id = noProducerID, m_producer_epoch = noProducerEpoch,
      m_sequence_numbers = [],
      m_transactional_id = (if cf_Idempotent conf then cf_Transaction_ID conf else []),
      m_transaction_timeout = (if cf_Idempotent conf then cf_Transaction_Timeout conf else 0),
      m_coordinator_supports_bumping_epoch = False, m_epoch_bump_required = False, m_last_error = 0,
      m_pending_partitions_in_current_txn = [], m_partitions_in_current_txn = [], m_offsets_in_current_txn = []\<rparr>"

definition current_txn_status :: "TransactionManager \<Rightarrow> 16 word" where
  "current_txn_status t = m_status t"

definition transition_to :: "16 word \<Rightarrow> int \<Rightarrow> TransactionManager \<Rightarrow> int \<times> TransactionManager" where
  "transition_to target err t =
     (if \<not> is_transition_valid (m_status t) target then (ErrTransitionNotAllowed, t)
      else if target AND ProducerTxnFlagInError \<noteq> 0 then
        (if err = 0 then (ErrCannotTransitionNilError, t)
         else (err, t\<lparr>m_last_error := err, m_status := target\<rparr>))
      else (err, t\<lparr>m_last_error := 0, m_status := target\<rparr>))"

definition sequence_key :: "bytes \<Rightarrow> int32 \<Rightarrow> bytes" where
  "sequence_key topic part = topic @ 45 # to_string_int (sint part)"

text \<open>\<open>m[key]\<close> creates a zero; \<open>sequence + 1\<close> is undefined for the largest \<^verbatim>\<open>int32_t\<close>.\<close>

definition get_and_increment_sequence_number :: "bytes \<Rightarrow> int32 \<Rightarrow> (TransactionManager, int32 \<times> int16) prog" where
  "get_and_increment_sequence_number topic part t =
     (let key = sequence_key topic part;
          sequence = (case map_of (m_sequence_numbers t) key of Some n \<Rightarrow> n | None \<Rightarrow> 0)
      in if sequence = 2147483647 then Abort
         else Ok (sequence, m_producer_epoch t)
                (t\<lparr>m_sequence_numbers := smap_put key (sequence + 1) (m_sequence_numbers t)\<rparr>))"

definition bump_epoch :: "TransactionManager \<Rightarrow> TransactionManager" where
  "bump_epoch t = t\<lparr>m_producer_epoch := m_producer_epoch t + 1,
     m_sequence_numbers := map (\<lambda>(k, _). (k, 0)) (m_sequence_numbers t)\<rparr>"

definition get_producer_id :: "TransactionManager \<Rightarrow> int64 \<times> int16" where
  "get_producer_id t = (m_producer_id t, m_producer_epoch t)"

definition compute_backoff :: "Txn_Config \<Rightarrow> int \<Rightarrow> int64" where
  "compute_backoff config attempts_remaining =
     (case cf_Retry_BackoffFunc config of
        Some f \<Rightarrow> f (cf_Retry_Max config - attempts_remaining) (cf_Retry_Max config)
      | None \<Rightarrow> cf_Retry_Backoff config)"

definition is_transactional :: "TransactionManager \<Rightarrow> bool" where
  "is_transactional t \<longleftrightarrow> m_transactional_id t \<noteq> []"

text \<open>The two nested loops of \<^verbatim>\<open>add_offsets_to_txn\<close>.\<close>

definition put_offsets ::
    "(bytes \<times> PartitionOffsetMetadata list) list \<Rightarrow> TopicPartitionOffsets \<Rightarrow> TopicPartitionOffsets" where
  "put_offsets offsets old =
     fold (\<lambda>(topic, topic_offsets). fold (\<lambda>offset. AList.update (topic, pom_partition offset) offset) topic_offsets)
       offsets old"

definition add_offsets_to_txn :: "(bytes \<times> PartitionOffsetMetadata list) list \<Rightarrow> bytes \<Rightarrow>
    TransactionManager \<Rightarrow> int \<times> TransactionManager" where
  "add_offsets_to_txn offsets group_id t =
     (if current_txn_status t AND ProducerTxnFlagInTransaction = 0 then (ErrTransactionNotReady, t)
      else if current_txn_status t AND ProducerTxnFlagFatalError \<noteq> 0 then (m_last_error t, t)
      else (0, t\<lparr>m_offsets_in_current_txn :=
             smap_put group_id
               (put_offsets offsets
                  (case map_of (m_offsets_in_current_txn t) group_id of Some g \<Rightarrow> g | None \<Rightarrow> []))
               (m_offsets_in_current_txn t)\<rparr>))"

definition abortable_error_if_possible :: "int \<Rightarrow> TransactionManager \<Rightarrow> int \<times> TransactionManager" where
  "abortable_error_if_possible err t =
     (if m_coordinator_supports_bumping_epoch t then
        transition_to (ProducerTxnFlagInError OR ProducerTxnFlagAbortableError) err (t\<lparr>m_epoch_bump_required := True\<rparr>)
      else transition_to (ProducerTxnFlagInError OR ProducerTxnFlagFatalError) err t)"

definition complete_transaction :: "TransactionManager \<Rightarrow> int \<times> TransactionManager" where
  "complete_transaction t =
     (case transition_to (if m_epoch_bump_required t then ProducerTxnFlagInitializing else ProducerTxnFlagReady) 0 t of
        (err, t') \<Rightarrow>
          if err \<noteq> 0 then (err, t')
          else (0, t'\<lparr>m_last_error := 0, m_epoch_bump_required := False, m_partitions_in_current_txn := [],
                     m_pending_partitions_in_current_txn := [], m_offsets_in_current_txn := []\<rparr>))"

definition maybe_add_partition_to_current_txn ::
    "bytes \<Rightarrow> int32 \<Rightarrow> TransactionManager \<Rightarrow> unit \<times> TransactionManager" where
  "maybe_add_partition_to_current_txn topic part t =
     (if current_txn_status t AND ProducerTxnFlagInError \<noteq> 0 then ((), t)
      else if (topic, part) \<in> set (m_partitions_in_current_txn t) then ((), t)
      else ((), t\<lparr>m_pending_partitions_in_current_txn :=
              (let p = m_pending_partitions_in_current_txn t
               in if (topic, part) \<in> set p then p else p @ [(topic, part)])\<rparr>))"

section \<open>Retries\<close>

datatype Result = Result (res_Retry: bool) (res_Error: int)

text \<open>
  \<^verbatim>\<open>Retry\<close> calls \<open>func\<close> at most \<open>attempts_remaining + 1\<close> times; \<open>args\<close> are the reference arguments that the
  calls share.  When every attempt asks for another one, the result is the initial \<open>err = 0\<close>.
\<close>

function Retry :: "'w Client \<Rightarrow> int \<Rightarrow> ('v \<Rightarrow> ('w, Result \<times> 'v) txn) \<Rightarrow> 'v \<Rightarrow> ('w, int \<times> 'v) txn" where
  "Retry c attempts_remaining func args =
     (if attempts_remaining < 0 then ret (0, args)
      else bind_p (func args) (\<lambda>(r, args').
        if \<not> res_Retry r then ret (res_Error r, args')
        else then_p (await (cl_sleep_for c (compute_backoff (cl_conf c) attempts_remaining)))
               (Retry c (attempts_remaining - 1) func args')))"
  by pat_completeness auto
termination
  by (relation "measure (\<lambda>(_, n, _). nat (n + 1))") auto

declare Retry.simps [simp del]

section \<open>Coroutines\<close>

definition AddOffsetsToTxnRequest_at :: "Txn_Config \<Rightarrow> bytes \<Rightarrow> TransactionManager \<Rightarrow> AddOffsetsToTxnRequest" where
  "AddOffsetsToTxnRequest_at conf group_id t =
     \<lparr>aoq_version = (if IsAtLeast (cf_Version conf) V2_7_0_0 then 2
                     else if IsAtLeast (cf_Version conf) V2_0_0_0 then 1 else 0),
      aoq_transactional_id = m_transactional_id t, aoq_producer_id = m_producer_id t,
      aoq_producer_epoch = m_producer_epoch t, aoq_group_id = group_id\<rparr>"

text \<open>The \<^verbatim>\<open>switch\<close> on the error that the coordinator sends.\<close>

definition add_offset_error :: "'w Client \<Rightarrow> nat \<Rightarrow> bytes \<Rightarrow> int \<Rightarrow> ('w, Result) txn" where
  "add_offset_error c coordinator tid e =
     (if e = ErrConsumerCoordinatorNotAvailable \<or> e = ErrNotCoordinatorForConsumer then
        then_p (await (cl_Close c coordinator))
       (then_p (await (cl_RefreshTransactionCoordinator c tid)) (ret (Result True e)))
      else if e = ErrOffsetsLoadInProgress \<or> e = ErrConcurrentTransactions then ret (Result True e)
      else if e = ErrUnknownProducerID \<or> e = ErrInvalidProducerIDMapping then
        bind_p (mgr (abortable_error_if_possible e)) (\<lambda>r. ret (Result False r))
      else if e = ErrGroupAuthorizationFailed then
        bind_p (mgr (transition_to (ProducerTxnFlagInError OR ProducerTxnFlagAbortableError) e))
          (\<lambda>r. ret (Result False r))
      else
        bind_p (mgr (transition_to (ProducerTxnFlagInError OR ProducerTxnFlagFatalError) e))
          (\<lambda>r. ret (Result False r)))"

text \<open>
  A failed \<^verbatim>\<open>AddOffsetsToTxn\<close> call whose coordinator can be refreshed overwrites \<open>err\<close> with 0 and goes on
  to read the response.
\<close>

definition publish_offsets_to_txn_add_offset :: "'w Client \<Rightarrow> bytes \<Rightarrow> ('w, Result) txn" where
  "publish_offsets_to_txn_add_offset c group_id =
     bind_p this_mgr (\<lambda>t.
     bind_p (await (cl_TransactionCoordinator c (m_transactional_id t))) (\<lambda>(err, p).
       if err \<noteq> ErrNoError then ret (Result True err)
       else bind_p (deref p) (\<lambda>coordinator.
            bind_p (await (cl_AddOffsetsToTxn c coordinator (AddOffsetsToTxnRequest_at (cl_conf c) group_id t)))
              (\<lambda>(err, response).
            bind_p (if err \<noteq> ErrNoError
                    then then_p (await (cl_Close c coordinator))
                           (await (cl_RefreshTransactionCoordinator c (m_transactional_id t)))
                    else ret err) (\<lambda>err.
              if err \<noteq> ErrNoError then ret (Result True err)
              else if sint (aor_err response) = ErrNoError then ret (Result False ErrNoError)
              else add_offset_error c coordinator (m_transactional_id t) (sint (aor_err response)))))))"

definition TxnOffsetCommitRequest_at ::
    "Txn_Config \<Rightarrow> bytes \<Rightarrow> TopicPartitionOffsets \<Rightarrow> TransactionManager \<Rightarrow> TxnOffsetCommitRequest" where
  "TxnOffsetCommitRequest_at conf group_id offsets t =
     \<lparr>toq_version = (if IsAtLeast (cf_Version conf) V2_1_0_0 then 2
                     else if IsAtLeast (cf_Version conf) V2_0_0_0 then 1 else 0),
      toq_transactional_id = m_transactional_id t, toq_group_id = group_id, toq_producer_id = m_producer_id t,
      toq_producer_epoch = m_producer_epoch t, toq_topics = MapToRequest_offsets offsets\<rparr>"

text \<open>One partition of the response: \<open>Inl\<close> the early return, \<open>Inr\<close> the failed offsets so far.\<close>

definition commit_partition :: "'w Client \<Rightarrow> nat \<Rightarrow> bytes \<Rightarrow> TopicPartitionOffsets \<Rightarrow> bytes \<Rightarrow> PartitionError \<Rightarrow>
    TopicPartitionOffsets \<Rightarrow> ('w, Result + TopicPartitionOffsets) txn" where
  "commit_partition c coordinator group_id offsets topic pe failed =
     (let e = sint (pte_err pe); tp = (topic, pte_partition pe);
          fail_one = (case map_of offsets tp of
                        Some pom \<Rightarrow> ret (Inr (AList.update tp pom failed)) | None \<Rightarrow> (\<lambda>_. Abort))
      in if e = ErrNoError then ret (Inr failed)
         else if e = ErrRequestTimedOut \<or> e = ErrConsumerCoordinatorNotAvailable \<or> e = ErrNotCoordinatorForConsumer
         then then_p (await (cl_Close c coordinator)) (then_p (await (cl_RefreshCoordinator c group_id)) fail_one)
         else if e = ErrUnknownTopicOrPartition \<or> e = ErrOffsetsLoadInProgress then fail_one
         else if e = ErrIllegalGeneration \<or> e = ErrUnknownMemberId \<or> e = ErrFencedInstancedId \<or>
                 e = ErrGroupAuthorizationFailed
         then bind_p (mgr (transition_to (ProducerTxnFlagInError OR ProducerTxnFlagAbortableError) e))
                (\<lambda>r. ret (Inl (Result False r)))
         else bind_p (mgr (transition_to (ProducerTxnFlagInError OR ProducerTxnFlagFatalError) e))
                (\<lambda>r. ret (Inl (Result False r))))"

text \<open>\<open>for (auto &it : topics) for (auto &e : it.second) ...\<close> with a \<^verbatim>\<open>co_return\<close> inside.\<close>

primrec each_until :: "('a \<Rightarrow> 'b \<Rightarrow> ('w, Result + 'b) txn) \<Rightarrow> 'a list \<Rightarrow> 'b \<Rightarrow> ('w, Result + 'b) txn" where
  "each_until f [] acc = ret (Inr acc)"
| "each_until f (x # xs) acc =
     bind_p (f x acc) (\<lambda>r. case r of Inl result \<Rightarrow> ret (Inl result) | Inr acc' \<Rightarrow> each_until f xs acc')"

definition topic_errors :: "(bytes \<times> PartitionError list) list \<Rightarrow> (bytes \<times> PartitionError) list" where
  "topic_errors topics = concat (map (\<lambda>(topic, es). map (\<lambda>e. (topic, e)) es) topics)"

definition publish_offsets_to_txn_commit :: "'w Client \<Rightarrow> TopicPartitionOffsets \<Rightarrow> bytes \<Rightarrow>
    TopicPartitionOffsets \<Rightarrow> ('w, Result \<times> TopicPartitionOffsets) txn" where
  "publish_offsets_to_txn_commit c offsets group_id out =
     bind_p (await (cl_GetCoordinator c group_id)) (\<lambda>(err, p).
       if err \<noteq> ErrNoError then ret (Result True err, out)
       else bind_p (deref p) (\<lambda>coordinator.
            bind_p this_mgr (\<lambda>t.
            bind_p (await (cl_TxnOffsetCommit c coordinator
                            (TxnOffsetCommitRequest_at (cl_conf c) group_id offsets t))) (\<lambda>(err, responses).
              if err \<noteq> ErrNoError
              then then_p (await (cl_Close c coordinator))
                  (then_p (await (cl_RefreshCoordinator c group_id)) (ret (Result True err, out)))
              else bind_p (each_until (\<lambda>(topic, pe). commit_partition c coordinator group_id offsets topic pe)
                            (topic_errors (tor_topics responses)) []) (\<lambda>r.
                case r of
                  Inl result \<Rightarrow> ret (result, out)
                | Inr failed_txn \<Rightarrow>
                    ret (if failed_txn = [] then Result False ErrNoError else Result True ErrTxnOffsetCommit,
                         failed_txn))))))"

definition publish_offsets_to_txn ::
    "'w Client \<Rightarrow> TopicPartitionOffsets \<Rightarrow> bytes \<Rightarrow> ('w, int \<times> TopicPartitionOffsets) txn" where
  "publish_offsets_to_txn c offsets group_id =
     bind_p (Retry c (cf_Retry_Max (cl_conf c))
               (\<lambda>_. bind_p (publish_offsets_to_txn_add_offset c group_id) (\<lambda>r. ret (r, ()))) ()) (\<lambda>(err, _).
       if err \<noteq> ErrNoError then ret (err, offsets)
       else bind_p (Retry c (cf_Retry_Max (cl_conf c)) (publish_offsets_to_txn_commit c offsets group_id) [])
         (\<lambda>(err, final_offsets). ret (err, if err \<noteq> ErrNoError then offsets else [])))"

text \<open>
  \<^verbatim>\<open>init_producer_id(int64_t &, int16_t &)\<close> is called on the manager's own members and on locals of its
  caller.
\<close>

datatype id_ref = Members | Locals int64 int16

definition write_ids :: "int64 \<Rightarrow> int16 \<Rightarrow> id_ref \<Rightarrow> ('w, id_ref) txn" where
  "write_ids pid ep ids =
     (case ids of
        Members \<Rightarrow> mgr (\<lambda>t. (Members, t\<lparr>m_producer_id := pid, m_producer_epoch := ep\<rparr>))
      | Locals _ _ \<Rightarrow> ret (Locals pid ep))"

definition init_producer_failed :: "Result \<Rightarrow> id_ref \<Rightarrow> ('w, Result \<times> id_ref) txn" where
  "init_producer_failed r ids = bind_p (write_ids noProducerID noProducerEpoch ids) (\<lambda>ids'. ret (r, ids'))"

definition init_producer_refresh :: "'w Client \<Rightarrow> nat \<Rightarrow> ('w, unit) txn" where
  "init_producer_refresh c coordinator =
     bind_p this_mgr (\<lambda>t. when_p (is_transactional t)
       (then_p (await (cl_Close c coordinator))
       (then_p (await (cl_RefreshTransactionCoordinator c (m_transactional_id t))) (ret ()))))"

definition init_producer_reply ::
    "'w Client \<Rightarrow> bool \<Rightarrow> nat \<Rightarrow> InitProducerIDResponse \<Rightarrow> id_ref \<Rightarrow> ('w, Result \<times> id_ref) txn" where
  "init_producer_reply c is_epoch_bump coordinator response ids =
     (let e = sint (ipr_err response) in
      if e = ErrNoError then
        then_p (when_p is_epoch_bump (mgr (\<lambda>t. ((), t\<lparr>m_sequence_numbers := []\<rparr>))))
       (bind_p (mgr (transition_to ProducerTxnFlagReady ErrNoError)) (\<lambda>err.
          if err \<noteq> ErrNoError then init_producer_failed (Result True err) ids
          else bind_p (write_ids (ipr_producer_id response) (ipr_producer_epoch response) ids)
                 (\<lambda>ids'. ret (Result False ErrNoError, ids'))))
      else if e = ErrConsumerCoordinatorNotAvailable \<or> e = ErrNotCoordinatorForConsumer \<or>
              e = ErrOffsetsLoadInProgress then
        then_p (init_producer_refresh c coordinator) (init_producer_failed (Result True e) ids)
      else
        then_p (mgr (transition_to (ProducerTxnFlagInError OR ProducerTxnFlagFatalError) e))
          (init_producer_failed (Result False e) ids))"

definition init_producer_attempt :: "'w Client \<Rightarrow> bool \<Rightarrow> InitProducerIDRequest option \<Rightarrow> id_ref \<Rightarrow>
    ('w, Result \<times> id_ref) txn" where
  "init_producer_attempt c is_epoch_bump request ids =
     bind_p this_mgr (\<lambda>t.
     bind_p (if is_transactional t
             then bind_p (await (cl_TransactionCoordinator c (m_transactional_id t))) (\<lambda>(_, p). ret p)
             else bind_p (await (cl_LeastLoadedBroker c)) (\<lambda>(err, p).
                    if err \<noteq> 0 then ret None else bind_p (deref p) (\<lambda>b. ret (Some b)))) (\<lambda>p.
       case p of
         None \<Rightarrow> init_producer_failed (Result True (- 1)) ids
       | Some coordinator \<Rightarrow>
           bind_p (await (cl_InitProducerID c coordinator request)) (\<lambda>(err, response).
             if err \<noteq> ErrNoError
             then then_p (init_producer_refresh c coordinator) (init_producer_failed (Result True err) ids)
             else init_producer_reply c is_epoch_bump coordinator response ids)))"

text \<open>
  \<open>std::shared_ptr<InitProducerIDRequest> request;\<close> is never made to point to a request, and every branch
  but the last writes through it.
\<close>

definition init_producer_id :: "'w Client \<Rightarrow> id_ref \<Rightarrow> ('w, int \<times> id_ref) txn" where
  "init_producer_id c ids =
     bind_p this_mgr (\<lambda>t.
       if is_transactional t then null_pointer
       else if IsAtLeast (cf_Version (cl_conf c)) V2_5_0_0 then null_pointer
       else if IsAtLeast (cf_Version (cl_conf c)) V2_4_0_0 then null_pointer
       else if IsAtLeast (cf_Version (cl_conf c)) V2_0_0_0 then null_pointer
       else Retry c (cf_Retry_Max (cl_conf c)) (init_producer_attempt c False None) ids)"

definition initialize_transactions :: "'w Client \<Rightarrow> ('w, int) txn" where
  "initialize_transactions c = bind_p (init_producer_id c Members) (\<lambda>(err, _). ret err)"

text \<open>\<^verbatim>\<open>_end_txn\<close> looks the coordinator up and returns; no \<^verbatim>\<open>EndTxnRequest\<close> is built.\<close>

definition end_txn_attempt :: "'w Client \<Rightarrow> bool \<Rightarrow> ('w, Result \<times> unit) txn" where
  "end_txn_attempt c commit =
     bind_p this_mgr (\<lambda>t.
     bind_p (await (cl_TransactionCoordinator c (m_transactional_id t))) (\<lambda>(err, _).
       ret (if err \<noteq> ErrNoError then Result True (- 1) else Result False 0, ())))"

definition end_txn :: "'w Client \<Rightarrow> bool \<Rightarrow> ('w, int) txn" where
  "end_txn c commit =
     bind_p (Retry c (cf_Retry_Max (cl_conf c)) (\<lambda>_. end_txn_attempt c commit) ()) (\<lambda>(err, _). ret err)"

text \<open>
  The loop over the groups with offsets.  Publishing does not touch \<^verbatim>\<open>m_offsets_in_current_txn\<close>, so the
  iterator walks the entries that were there at the start.
\<close>

primrec finish_offsets :: "'w Client \<Rightarrow> (bytes \<times> TopicPartitionOffsets) list \<Rightarrow> ('w, int) txn" where
  "finish_offsets c [] = ret 0"
| "finish_offsets c (g # gs) =
     bind_p (publish_offsets_to_txn c (snd g) (fst g)) (\<lambda>(err, new_offsets).
       if err \<noteq> 0 then
         mgr (\<lambda>t. (err, t\<lparr>m_offsets_in_current_txn := smap_put (fst g) new_offsets (m_offsets_in_current_txn t)\<rparr>))
       else then_p (mgr (\<lambda>t. ((), t\<lparr>m_offsets_in_current_txn := AList.delete (fst g) (m_offsets_in_current_txn t)\<rparr>)))
              (finish_offsets c gs))"

definition finish_transaction :: "'w Client \<Rightarrow> bool \<Rightarrow> ('w, int) txn" where
  "finish_transaction c commit =
     bind_p this_mgr (\<lambda>t.
       if commit \<and> current_txn_status t AND ProducerTxnFlagInError \<noteq> 0 then ret (m_last_error t)
       else if \<not> commit \<and> current_txn_status t AND ProducerTxnFlagFatalError \<noteq> 0 then ret (m_last_error t)
       else if m_partitions_in_current_txn t = [] then mgr complete_transaction
       else bind_p (if commit \<and> m_offsets_in_current_txn t \<noteq> []
                    then finish_offsets c (m_offsets_in_current_txn t) else ret 0) (\<lambda>err.
         if err \<noteq> 0 then ret err
         else bind_p this_mgr (\<lambda>t'.
           if current_txn_status t' AND ProducerTxnFlagFatalError \<noteq> 0 then ret (m_last_error t')
           else if m_last_error t' \<noteq> ErrInvalidProducerIDMapping then
             bind_p (end_txn c commit) (\<lambda>err.
               if err \<noteq> 0 then ret err
               else if \<not> m_epoch_bump_required t then ret 0
               else initialize_transactions c)
           else initialize_transactions c)))"

definition AddPartitionsToTxnRequest_at :: "Txn_Config \<Rightarrow> TransactionManager \<Rightarrow> AddPartitionsToTxnRequest" where
  "AddPartitionsToTxnRequest_at conf t =
     \<lparr>apq_version = AddPartitionsToTxnRequest_new (cf_Version conf), apq_transactional_id = m_transactional_id t,
      apq_producer_id = m_producer_id t, apq_producer_epoch = m_producer_epoch t,
      apq_topic_partitions =
        fold (\<lambda>(topic, part) m. AList.update topic (entry_of topic m @ [part]) m)
          (m_pending_partitions_in_current_txn t) []\<rparr>"

definition clear_pending :: "('w, unit) txn" where
  "clear_pending = mgr (\<lambda>t. ((), t\<lparr>m_pending_partitions_in_current_txn := []\<rparr>))"

definition add_partition_reply ::
    "'w Client \<Rightarrow> nat \<Rightarrow> bytes \<times> PartitionError \<Rightarrow> unit \<Rightarrow> ('w, Result + unit) txn" where
  "add_partition_reply c coordinator x _ =
     (let tp = (fst x, pte_partition (snd x)); e = sint (pte_err (snd x)) in
      if e = ErrNoError then
        mgr (\<lambda>t. (Inr (), t\<lparr>m_partitions_in_current_txn := List.insert tp (m_partitions_in_current_txn t),
                            m_pending_partitions_in_current_txn := removeAll tp (m_pending_partitions_in_current_txn t)\<rparr>))
      else if e = ErrConsumerCoordinatorNotAvailable \<or> e = ErrNotCoordinatorForConsumer then
        bind_p this_mgr (\<lambda>t.
          then_p (await (cl_Close c coordinator))
         (then_p (await (cl_RefreshTransactionCoordinator c (m_transactional_id t))) (ret (Inr ()))))
      else if e = ErrUnknownTopicOrPartition \<or> e = ErrOffsetsLoadInProgress then ret (Inr ())
      else if e = ErrConcurrentTransactions then ret (Inr ())
      else if e = ErrOperationNotAttempted \<or> e = ErrTopicAuthorizationFailed then
        then_p clear_pending
       (then_p (mgr (transition_to (ProducerTxnFlagInError OR ProducerTxnFlagAbortableError) e))
          (ret (Inl (Result False e))))
      else if e = ErrUnknownProducerID \<or> e = ErrInvalidProducerIDMapping then
        then_p clear_pending (then_p (mgr (abortable_error_if_possible e)) (ret (Inl (Result False e))))
      else
        then_p clear_pending
       (then_p (mgr (transition_to (ProducerTxnFlagInError OR ProducerTxnFlagFatalError) e))
          (ret (Inl (Result False e)))))"

definition publish_txn_partitions_attempt :: "'w Client \<Rightarrow> unit \<Rightarrow> ('w, Result \<times> unit) txn" where
  "publish_txn_partitions_attempt c u =
     bind_p this_mgr (\<lambda>t.
       if current_txn_status t AND ProducerTxnFlagInError \<noteq> 0 then ret (Result False (m_last_error t), ())
       else if m_pending_partitions_in_current_txn t = [] then ret (Result False 0, ())
       else bind_p (await (cl_TransactionCoordinator c (m_transactional_id t))) (\<lambda>(err, p).
         if err \<noteq> ErrNoError then ret (Result True err, ())
         else bind_p (deref p) (\<lambda>coordinator.
              bind_p (await (cl_AddPartitionsToTxn c coordinator (AddPartitionsToTxnRequest_at (cl_conf c) t)))
                (\<lambda>(err, response).
                if err \<noteq> ErrNoError then
                  then_p (await (cl_Close c coordinator))
                 (then_p (await (cl_RefreshTransactionCoordinator c (m_transactional_id t)))
                    (ret (Result True err, ())))
                else case response of
                  None \<Rightarrow> ret (Result True (- 1), ())
                | Some r \<Rightarrow>
                    bind_p (each_until (add_partition_reply c coordinator) (topic_errors (apr_errors r)) ())
                      (\<lambda>x. case x of
                         Inl result \<Rightarrow> ret (result, ())
                       | Inr _ \<Rightarrow> bind_p this_mgr (\<lambda>t'.
                           ret (if m_pending_partitions_in_current_txn t' = [] then Result False 0
                                else Result True (- 1), ())))))))"

definition publish_txn_partitions :: "'w Client \<Rightarrow> ('w, int) txn" where
  "publish_txn_partitions c =
     bind_p this_mgr (\<lambda>t.
       if current_txn_status t AND ProducerTxnFlagInError \<noteq> 0 then ret (m_last_error t)
       else if m_pending_partitions_in_current_txn t = [] then ret 0
       else bind_p (Retry c (cf_Retry_Max (cl_conf c)) (publish_txn_partitions_attempt c) ())
              (\<lambda>(err, _). ret err))"

section \<open>The producer's transitions\<close>

definition begin_txn :: "TransactionManager \<Rightarrow> int \<times> TransactionManager" where
  "begin_txn t =
     (if \<not> is_transactional t then (- 1, t) else transition_to ProducerTxnFlagInTransaction ErrNoError t)"

text \<open>What the dispatcher does with a message flagged \<^verbatim>\<open>Endtxn\<close>; the return code is only logged.\<close>

definition dispatch_endtxn :: "bool \<Rightarrow> TransactionManager \<Rightarrow> TransactionManager" where
  "dispatch_endtxn commit t =
     snd (transition_to (if commit then ProducerTxnFlagEndTransaction OR ProducerTxnFlagCommittingTransaction
                         else ProducerTxnFlagEndTransaction OR ProducerTxnFlagAbortingTransaction) 0 t)"

text \<open>
  \<^verbatim>\<open>AsyncProducer::finish_transaction\<close> queues that message, waits until nothing is in flight, and then
  finishes; \<^verbatim>\<open>commit_txn\<close> and \<^verbatim>\<open>abort_txn\<close> are this with the guard.
\<close>

definition AsyncProducer_finish_transaction :: "'w Client \<Rightarrow> bool \<Rightarrow> ('w, int) txn" where
  "AsyncProducer_finish_transaction c commit =
     then_p (mgr (\<lambda>t. ((), dispatch_endtxn commit t))) (finish_transaction c commit)"

definition end_producer_txn :: "'w Client \<Rightarrow> bool \<Rightarrow> ('w, int) txn" where
  "end_producer_txn c commit =
     bind_p this_mgr (\<lambda>t. if \<not> is_transactional t then ret (- 1) else AsyncProducer_finish_transaction c commit)"

definition producer_add_offsets_to_txn :: "(bytes \<times> PartitionOffsetMetadata list) list \<Rightarrow> bytes \<Rightarrow>
    TransactionManager \<Rightarrow> int \<times> TransactionManager" where
  "producer_add_offsets_to_txn offsets group_id t =
     (if \<not> is_transactional t then (- 1, t) else add_offsets_to_txn offsets group_id t)"

definition add_message_to_txn ::
    "bytes \<Rightarrow> int32 \<Rightarrow> int64 \<Rightarrow> bytes \<Rightarrow> bytes \<Rightarrow> TransactionManager \<Rightarrow> int \<times> TransactionManager" where
  "add_message_to_txn topic part offset metadata group_id =
     producer_add_offsets_to_txn
       [(topic, [\<lparr>pom_partition = part, pom_offset = offset + 1, pom_leader_epoch = 0, pom_metadata = metadata\<rparr>])]
       group_id"

definition maybe_transition_to_error_state :: "int \<Rightarrow> TransactionManager \<Rightarrow> int \<times> TransactionManager" where
  "maybe_transition_to_error_state err t =
     (if err = ErrClusterAuthorizationFailed \<or> err = ErrProducerFenced \<or> err = ErrUnsupportedVersion \<or>
         err = ErrTransactionalIDAuthorizationFailed
      then transition_to (ProducerTxnFlagInError OR ProducerTxnFlagFatalError) err t
      else if m_coordinator_supports_bumping_epoch t \<and> current_txn_status t AND ProducerTxnFlagEndTransaction = 0
      then transition_to (ProducerTxnFlagInError OR ProducerTxnFlagAbortableError) err
             (t\<lparr>m_epoch_bump_required := True\<rparr>)
      else transition_to (ProducerTxnFlagInError OR ProducerTxnFlagAbortableError) err t)"

end
