(* ===== verification/Transaction_Safety.thy ===== *)
theory Transaction_Safety
  imports Transaction_Manager
begin

text \<open>
  What the coroutines of the transaction manager do to its state, whatever the cluster answers.  A
  property of this kind is a preorder on manager states that the elementary assignments respect; the
  locale \<open>txn_relation\<close> carries it through every coroutine.  It is interpreted on the refinement of the
  state machine \<open>txn_edge\<close> and on the fields that no operation may change.
\<close>

section \<open>Relations that every wait and assignment respects\<close>

definition within :: "(TransactionManager \<Rightarrow> TransactionManager \<Rightarrow> bool) \<Rightarrow> ('w, 'a) txn \<Rightarrow> bool" where
  "within R m \<longleftrightarrow> (\<forall>t w. case m (t, w) of
     Ok _ s \<Rightarrow> R t (fst s) | Err _ s \<Rightarrow> R t (fst s) | Abort \<Rightarrow> True)"

lemma within_Ok: "within R m \<Longrightarrow> m (t, w) = Ok x (t', w') \<Longrightarrow> R t t'"
  by (force simp: within_def split: outcome.splits)

locale txn_preorder =
  fixes R :: "TransactionManager \<Rightarrow> TransactionManager \<Rightarrow> bool"
  assumes refl: "R t t"
    and trans: "R t u \<Longrightarrow> R u v \<Longrightarrow> R t v"
begin

lemma within_ret [simp]: "within R (ret x)"
  by (simp add: within_def ret_apply refl)

lemma within_bind: "within R m \<Longrightarrow> (\<And>x. within R (k x)) \<Longrightarrow> within R (bind_p m k)"
  unfolding within_def bind_p_def by (fastforce split: outcome.splits intro: trans)

lemma within_then: "within R m \<Longrightarrow> within R k \<Longrightarrow> within R (then_p m k)"
  by (simp add: then_p_def within_bind)

lemma within_await [simp]: "within R (await f)"
  by (simp add: within_def await_def refl split: prod.split)

lemma within_this [simp]: "within R this_mgr"
  by (simp add: within_def this_mgr_def refl)

lemma within_null [simp]: "within R null_pointer" "within R (\<lambda>_. Abort)"
  by (simp_all add: within_def null_pointer_def)

lemma within_deref [simp]: "within R (deref p)"
  by (simp add: deref_def split: option.split)

lemma within_mgr: "(\<And>t. R t (snd (f t))) \<Longrightarrow> within R (mgr f)"
  by (simp add: within_def mgr_def split: prod.split) (metis snd_conv)

lemma within_when: "within R m \<Longrightarrow> within R (when_p b m)"
  by (simp add: when_p_def)

lemma within_if: "(b \<Longrightarrow> within R m) \<Longrightarrow> (\<not> b \<Longrightarrow> within R k) \<Longrightarrow> within R (if b then m else k)"
  by simp

lemma within_prod: "(\<And>a b. within R (f a b)) \<Longrightarrow> within R (case p of (a, b) \<Rightarrow> f a b)"
  by (simp split: prod.split)

lemma within_prod_fun: "(\<And>a b. within R (f a b u)) \<Longrightarrow> within R ((case p of (a, b) \<Rightarrow> f a b) u)"
  by (simp split: prod.split)

lemma within_option: "within R m \<Longrightarrow> (\<And>x. within R (f x)) \<Longrightarrow> within R (case p of None \<Rightarrow> m | Some x \<Rightarrow> f x)"
  by (simp split: option.split)

lemma within_sum:
  "(\<And>x. within R (f x)) \<Longrightarrow> (\<And>y. within R (g y)) \<Longrightarrow> within R (case p of Inl x \<Rightarrow> f x | Inr y \<Rightarrow> g y)"
  by (simp split: sum.split)

lemmas within_intros = within_bind within_then within_if within_prod within_prod_fun within_option within_sum within_when
  within_ret within_await within_this within_null within_deref

lemma within_Retry:
  assumes "\<And>v. within R (f v)" shows "within R (Retry c n f v)"
  using assms
proof (induction c n f v rule: Retry.induct)
  case (1 c n f v)
  show ?case
    by (subst Retry.simps) (intro within_intros within_bind [OF "1.prems"] "1.IH" "1.prems"; simp)
qed

lemma within_each_until: "(\<And>x acc. within R (f x acc)) \<Longrightarrow> within R (each_until f xs acc)"
  by (induction xs arbitrary: acc) (auto intro!: within_bind split: sum.split)

lemma within_end_txn: "within R (end_txn c commit)"
  unfolding end_txn_def end_txn_attempt_def by (intro within_intros within_Retry)

end

locale txn_relation = txn_preorder +
  assumes transition: "R t (snd (transition_to (txn_flags st) err t))"
    and require_bump: "R t (t\<lparr>m_epoch_bump_required := b\<rparr>)"
    and forget: "R t (snd (complete_transaction t))"
    and ids: "R t (t\<lparr>m_producer_id := pid, m_producer_epoch := ep\<rparr>)"
    and sequences: "R t (t\<lparr>m_sequence_numbers := []\<rparr>)"
    and pending: "R t (t\<lparr>m_pending_partitions_in_current_txn := []\<rparr>)"
    and accept: "R t (t\<lparr>m_partitions_in_current_txn := List.insert tp (m_partitions_in_current_txn t),
      m_pending_partitions_in_current_txn := removeAll tp (m_pending_partitions_in_current_txn t)\<rparr>)"
    and put_group: "R t (t\<lparr>m_offsets_in_current_txn := smap_put g offs (m_offsets_in_current_txn t)\<rparr>)"
    and drop_group: "R t (t\<lparr>m_offsets_in_current_txn := AList.delete g (m_offsets_in_current_txn t)\<rparr>)"
begin

lemma within_transition: "within R (mgr (transition_to (txn_flags st) err))"
  by (intro within_mgr transition)

lemma within_abortable: "within R (mgr (abortable_error_if_possible e))"
proof (rule within_mgr)
  fix t
  show "R t (snd (abortable_error_if_possible e t))"
    unfolding abortable_error_if_possible_def txn_flags_targets
    by (simp add: transition trans [OF require_bump transition])
qed

lemmas within_steps = within_intros within_transition within_abortable within_Retry within_each_until

lemma within_add_offset: "within R (publish_offsets_to_txn_add_offset c g)"
  unfolding publish_offsets_to_txn_add_offset_def add_offset_error_def txn_flags_targets
  by (intro within_steps)

lemma within_commit_partition: "within R (commit_partition c b g offs topic pe failed)"
  unfolding commit_partition_def Let_def txn_flags_targets by (intro within_steps)

lemma within_commit: "within R (publish_offsets_to_txn_commit c offs g out)"
  unfolding publish_offsets_to_txn_commit_def by (intro within_steps within_commit_partition)

lemma within_publish_offsets: "within R (publish_offsets_to_txn c offs g)"
  unfolding publish_offsets_to_txn_def by (intro within_steps within_add_offset within_commit)

lemma within_write_ids: "within R (write_ids pid ep r)"
  by (cases r) (auto simp: write_ids_def intro!: within_mgr ids)

lemma within_init_failed: "within R (init_producer_failed r i)"
  unfolding init_producer_failed_def by (intro within_steps within_write_ids)

lemma within_init_reply: "within R (init_producer_reply c b n r i)"
  unfolding init_producer_reply_def init_producer_refresh_def Let_def txn_flags_targets
  by (intro within_steps within_write_ids within_init_failed within_mgr) (simp add: sequences)

lemma within_init_attempt: "within R (init_producer_attempt c b r i)"
  unfolding init_producer_attempt_def init_producer_refresh_def
  by (intro within_steps within_init_failed within_init_reply)

lemma within_init_producer_id: "within R (init_producer_id c i)"
  unfolding init_producer_id_def by (intro within_steps within_init_attempt)

lemma within_initialize: "within R (initialize_transactions c)"
  unfolding initialize_transactions_def by (intro within_steps within_init_producer_id)

lemma within_finish_offsets: "within R (finish_offsets c gs)"
proof (induction gs)
  case (Cons g gs)
  show ?case
    unfolding finish_offsets.simps
    by (intro within_steps within_publish_offsets within_mgr Cons) (simp_all add: put_group drop_group)
qed simp

lemma within_finish_transaction: "within R (finish_transaction c commit)"
  unfolding finish_transaction_def
  by (intro within_steps within_mgr forget within_finish_offsets within_end_txn within_initialize)

lemma within_add_partition_reply: "within R (add_partition_reply c b x u)"
  unfolding add_partition_reply_def clear_pending_def Let_def txn_flags_targets
  by (intro within_steps within_mgr) (simp_all add: accept pending)

lemma within_publish_partitions: "within R (publish_txn_partitions c)"
  unfolding publish_txn_partitions_def publish_txn_partitions_attempt_def
  by (intro within_steps within_add_partition_reply)

lemma dispatch: "R t (dispatch_endtxn commit t)"
  by (simp add: dispatch_endtxn_def txn_flags_targets transition)

lemma within_end_producer_txn: "within R (end_producer_txn c commit)"
  unfolding end_producer_txn_def AsyncProducer_finish_transaction_def
  by (intro within_steps within_finish_transaction within_mgr) (simp add: dispatch)

lemma begins: "R t (snd (begin_txn t))"
  using transition [of t InTransaction] by (simp add: begin_txn_def refl txn_flags.simps)

lemma fails: "R t (snd (maybe_transition_to_error_state err t))"
  by (simp add: maybe_transition_to_error_state_def txn_flags_targets transition
      trans [OF require_bump transition])

end

section \<open>Refinement of the state machine\<close>

text \<open>
  \<open>inv_at st t\<close>: the manager \<open>t\<close> is in the abstract state \<open>st\<close>, an error is recorded exactly in the error
  states, and a partition is pending or part of the transaction but not both.
\<close>

definition inv_at :: "txn_state \<Rightarrow> TransactionManager \<Rightarrow> bool" where
  "inv_at st t \<longleftrightarrow> m_status t = txn_flags st \<and> (in_error st \<longleftrightarrow> m_last_error t \<noteq> 0) \<and>
     distinct (m_pending_partitions_in_current_txn t) \<and> distinct (m_partitions_in_current_txn t) \<and>
     set (m_pending_partitions_in_current_txn t) \<inter> set (m_partitions_in_current_txn t) = {}"

definition refines_txn :: "TransactionManager \<Rightarrow> TransactionManager \<Rightarrow> bool" where
  "refines_txn t t' \<longleftrightarrow> (\<forall>st. inv_at st t \<longrightarrow> (\<exists>st'. inv_at st' t' \<and> txn_edge\<^sup>*\<^sup>* st st'))"

lemma refines_txn_same: "(\<And>st. inv_at st t \<Longrightarrow> inv_at st t') \<Longrightarrow> refines_txn t t'"
  by (auto simp: refines_txn_def)

lemma transition_to_cases:
  assumes "m_status t = txn_flags s"
  shows "transition_to (txn_flags st) err t =
    (if \<not> txn_edge s st then (ErrTransitionNotAllowed, t)
     else if in_error st \<and> err = 0 then (ErrCannotTransitionNilError, t)
     else (err, t\<lparr>m_last_error := (if in_error st then err else 0), m_status := txn_flags st\<rparr>))"
  using assms by (simp add: transition_to_def is_transition_valid_edge)

lemma refines_transition: "refines_txn t (snd (transition_to (txn_flags st) err t))"
  unfolding refines_txn_def
proof (intro allI impI)
  fix s assume inv: "inv_at s t"
  then have "m_status t = txn_flags s" by (simp add: inv_at_def)
  note eq = transition_to_cases [OF this, of st err]
  show "\<exists>s'. inv_at s' (snd (transition_to (txn_flags st) err t)) \<and> txn_edge\<^sup>*\<^sup>* s s'"
  proof (cases "txn_edge s st \<and> \<not> (in_error st \<and> err = 0)")
    case True
    then have "inv_at st (snd (transition_to (txn_flags st) err t))"
      using inv unfolding eq by (auto simp: inv_at_def)
    then show ?thesis using True by blast
  next
    case False
    then have "snd (transition_to (txn_flags st) err t) = t" unfolding eq by auto
    then show ?thesis using inv by auto
  qed
qed

lemma refines_trans: "refines_txn t u \<Longrightarrow> refines_txn u v \<Longrightarrow> refines_txn t v"
  unfolding refines_txn_def by (meson rtranclp_trans)

lemma refines_complete: "refines_txn t (snd (complete_transaction t))"
proof -
  let ?st = "if m_epoch_bump_required t then Initializing else Ready"
  have tgt: "(if m_epoch_bump_required t then ProducerTxnFlagInitializing else ProducerTxnFlagReady) = txn_flags ?st"
    by (simp add: txn_flags.simps)
  obtain err t' where tr: "transition_to (txn_flags ?st) 0 t = (err, t')" by fastforce
  have r: "refines_txn t t'" using refines_transition [of t ?st 0] by (simp add: tr)
  have "refines_txn t' (t'\<lparr>m_last_error := 0, m_epoch_bump_required := False, m_partitions_in_current_txn := [],
      m_pending_partitions_in_current_txn := [], m_offsets_in_current_txn := []\<rparr>)" if "err = 0"
  proof (rule refines_txn_same)
    fix s assume "inv_at s t'"
    moreover have "m_last_error t' = 0"
      using tr \<open>err = 0\<close> by (auto simp: transition_to_def ErrTransitionNotAllowed_def
          ErrCannotTransitionNilError_def split: if_splits)
    ultimately show "inv_at s (t'\<lparr>m_last_error := 0, m_epoch_bump_required := False, m_partitions_in_current_txn := [],
      m_pending_partitions_in_current_txn := [], m_offsets_in_current_txn := []\<rparr>)"
      by (simp add: inv_at_def)
  qed
  with r show ?thesis
    unfolding complete_transaction_def tgt tr by (auto intro: refines_trans)
qed

interpretation txn: txn_relation refines_txn
proof
  fix t u v :: TransactionManager and tp :: TopicPartition
  show "refines_txn t t" by (auto simp: refines_txn_def)
  show "refines_txn t u \<Longrightarrow> refines_txn u v \<Longrightarrow> refines_txn t v" by (rule refines_trans)
  show "refines_txn t (snd (transition_to (txn_flags st) err t))" for st err by (rule refines_transition)
  show "refines_txn t (snd (complete_transaction t))" by (rule refines_complete)
qed (rule refines_txn_same, auto simp: inv_at_def distinct_removeAll)+

section \<open>What no operation changes\<close>

definition same_identity :: "TransactionManager \<Rightarrow> TransactionManager \<Rightarrow> bool" where
  "same_identity t t' \<longleftrightarrow> m_transactional_id t' = m_transactional_id t \<and>
     m_transaction_timeout t' = m_transaction_timeout t \<and>
     m_coordinator_supports_bumping_epoch t' = m_coordinator_supports_bumping_epoch t"

lemma same_identity_transition: "same_identity t (snd (transition_to target err t))"
  by (simp add: same_identity_def transition_to_def)

interpretation ident: txn_relation same_identity
proof
  fix t
  show "same_identity t (snd (complete_transaction t))"
    using same_identity_transition [of t _ 0]
    by (auto simp: complete_transaction_def same_identity_def split: prod.split) (metis snd_conv)+
qed (auto simp: same_identity_def transition_to_def)

section \<open>Runs of a producer\<close>

text \<open>One call on the manager, by the application or by the producer's own coroutines.\<close>

inductive txn_step :: "'w Client \<Rightarrow> TransactionManager \<times> 'w \<Rightarrow> TransactionManager \<times> 'w \<Rightarrow> bool" for c where
  step_begin: "txn_step c (t, w) (snd (begin_txn t), w)"
| step_offsets: "txn_step c (t, w) (snd (producer_add_offsets_to_txn offs g t), w)"
| step_partition: "txn_step c (t, w) (snd (maybe_add_partition_to_current_txn topic part t), w)"
| step_sequence: "get_and_increment_sequence_number topic part t = Ok x t' \<Longrightarrow> txn_step c (t, w) (t', w)"
| step_bump: "txn_step c (t, w) (bump_epoch t, w)"
| step_error: "txn_step c (t, w) (snd (maybe_transition_to_error_state err t), w)"
| step_publish: "publish_txn_partitions c (t, w) = Ok err s \<Longrightarrow> txn_step c (t, w) s"
| step_init: "init_producer_id c ids (t, w) = Ok x s \<Longrightarrow> txn_step c (t, w) s"
| step_finish: "end_producer_txn c commit (t, w) = Ok err s \<Longrightarrow> txn_step c (t, w) s"

inductive_cases txn_stepE: "txn_step c s s'"

lemma inv_at_frame:
  "inv_at st t \<Longrightarrow> m_status t' = m_status t \<Longrightarrow> m_last_error t' = m_last_error t \<Longrightarrow>
   m_pending_partitions_in_current_txn t' = m_pending_partitions_in_current_txn t \<Longrightarrow>
   m_partitions_in_current_txn t' = m_partitions_in_current_txn t \<Longrightarrow> inv_at st t'"
  by (simp add: inv_at_def)

lemma sequence_frame:
  "get_and_increment_sequence_number topic part t = Ok x t' \<Longrightarrow> \<exists>ns. t' = t\<lparr>m_sequence_numbers := ns\<rparr>"
  by (auto simp: get_and_increment_sequence_number_def Let_def split: if_splits)

lemma refines_maybe_add: "refines_txn t (snd (maybe_add_partition_to_current_txn topic part t))"
  by (rule refines_txn_same) (auto simp: inv_at_def maybe_add_partition_to_current_txn_def Let_def)

lemma txn_step_refines: "txn_step c s s' \<Longrightarrow> refines_txn (fst s) (fst s')"
proof (induction rule: txn_step.induct)
  case (step_begin t w)
  show ?case by (simp add: txn.begins)
next
  case (step_offsets t w offs g)
  show ?case
    by (rule refines_txn_same, erule inv_at_frame)
      (auto simp: producer_add_offsets_to_txn_def add_offsets_to_txn_def)
next
  case (step_partition t w topic part)
  show ?case by (simp add: refines_maybe_add)
next
  case (step_sequence topic part t x t' w)
  then obtain ns where "t' = t\<lparr>m_sequence_numbers := ns\<rparr>" using sequence_frame by blast
  then show ?case by (auto intro!: refines_txn_same elim!: inv_at_frame)
next
  case (step_bump t w)
  show ?case by (rule refines_txn_same, erule inv_at_frame) (auto simp: bump_epoch_def)
next
  case (step_error t w err)
  show ?case by (simp add: txn.fails)
next
  case (step_publish t w err s)
  then show ?case using within_Ok [OF txn.within_publish_partitions] by (cases s) auto
next
  case (step_init ids t w x s)
  then show ?case by (cases s) (auto dest: within_Ok [OF txn.within_init_producer_id])
next
  case (step_finish commit t w err s)
  then show ?case using within_Ok [OF txn.within_end_producer_txn] by (cases s) auto
qed

lemma txn_run_refines: "(txn_step c)\<^sup>*\<^sup>* s s' \<Longrightarrow> refines_txn (fst s) (fst s')"
proof (induction rule: rtranclp_induct)
  case base
  show ?case by (rule txn.refl)
next
  case (step y z)
  then show ?case using txn_step_refines refines_trans by blast
qed

lemma inv_at_new: "inv_at Uninitialized (TransactionManager_new conf)"
  by (simp add: inv_at_def TransactionManager_new_def txn_flags.simps in_error_def)

section \<open>Sequence numbers\<close>

primrec draw_sequences :: "TopicPartition list \<Rightarrow> (TransactionManager, int32 list) prog" where
  "draw_sequences [] = ret []"
| "draw_sequences (tp # tps) =
     bind_p (get_and_increment_sequence_number (fst tp) (snd tp)) (\<lambda>(n, _).
     bind_p (draw_sequences tps) (\<lambda>ns. ret (n # ns)))"

definition seq_at :: "TransactionManager \<Rightarrow> TopicPartition \<Rightarrow> int32" where
  "seq_at t tp = (case map_of (m_sequence_numbers t) (sequence_key (fst tp) (snd tp)) of Some n \<Rightarrow> n | None \<Rightarrow> 0)"

lemma sequence_key_inject:
  assumes "0 \<le> sint (snd a)" "0 \<le> sint (snd b)"
  shows "sequence_key (fst a) (snd a) = sequence_key (fst b) (snd b) \<longleftrightarrow> a = b"
  using dash_key_inject [OF assms, of "fst a" "fst b"]
  by (auto simp: sequence_key_def prod_eq_iff signed_word_eqI)

lemma seq_next:
  assumes "seq_at t tp = of_nat n" "n < 2 ^ 31 - 1"
  shows "\<exists>t'. get_and_increment_sequence_number (fst tp) (snd tp) t = Ok (of_nat n, m_producer_epoch t) t' \<and>
    seq_at t' tp = of_nat (Suc n) \<and>
    (\<forall>u. 0 \<le> sint (snd tp) \<and> 0 \<le> sint (snd u) \<and> u \<noteq> tp \<longrightarrow> seq_at t' u = seq_at t u)"
proof -
  have "of_nat n \<noteq> (2147483647 :: int32)"
  proof
    assume "of_nat n = (2147483647 :: int32)"
    then have "unat (of_nat n :: int32) = 2147483647" by simp
    then show False using assms(2) by (simp add: unat_of_nat)
  qed
  then show ?thesis
    using assms(1) sequence_key_inject [of _ tp]
    by (auto simp: get_and_increment_sequence_number_def Let_def seq_at_def add.commute)
qed

lemma draw_sequences_from:
  assumes "\<forall>tp \<in> set tps. 0 \<le> sint (snd tp) \<and> seq_at t tp = of_nat (base tp) \<and> base tp + length tps < 2 ^ 31"
  shows "\<exists>t'. draw_sequences tps t =
    Ok (map (\<lambda>i. of_nat (base (tps ! i) + count_list (take i tps) (tps ! i))) [0..<length tps]) t'"
  using assms
proof (induction tps arbitrary: t base)
  case (Cons tp tps)
  from Cons.prems obtain t1 where step:
    "get_and_increment_sequence_number (fst tp) (snd tp) t = Ok (of_nat (base tp), m_producer_epoch t) t1"
    "seq_at t1 tp = of_nat (Suc (base tp))"
    "\<forall>u. 0 \<le> sint (snd tp) \<and> 0 \<le> sint (snd u) \<and> u \<noteq> tp \<longrightarrow> seq_at t1 u = seq_at t u"
    using seq_next [of t tp "base tp"] by auto
  let ?base = "base(tp := Suc (base tp))"
  have "\<forall>u \<in> set tps. 0 \<le> sint (snd u) \<and> seq_at t1 u = of_nat (?base u) \<and> ?base u + length tps < 2 ^ 31"
    using Cons.prems step(2,3) by auto
  from Cons.IH [OF this] obtain t' where rest: "draw_sequences tps t1 =
      Ok (map (\<lambda>i. of_nat (?base (tps ! i) + count_list (take i tps) (tps ! i))) [0..<length tps]) t'" by blast
  have "map (\<lambda>i. of_nat (base ((tp # tps) ! i) + count_list (take i (tp # tps)) ((tp # tps) ! i)) :: int32)
      [0..<length (tp # tps)] =
    of_nat (base tp) # map (\<lambda>i. of_nat (?base (tps ! i) + count_list (take i tps) (tps ! i))) [0..<length tps]"
    by (simp add: upt_conv_Cons map_Suc_upt [symmetric] comp_def del: upt_Suc)
  then show ?case using step(1) rest by (auto simp: ret_apply)
qed (simp add: ret_apply)

section \<open>Publishing the partitions of a transaction\<close>

text \<open>Every partition of the reply is accepted.\<close>

lemma each_until_accepts:
  assumes "\<forall>x \<in> set xs. sint (pte_err (snd x)) = ErrNoError"
  shows "\<exists>t'. each_until (add_partition_reply c b) xs () (t, w) = Ok (Inr ()) (t', w) \<and>
    m_status t' = m_status t \<and>
    set (m_pending_partitions_in_current_txn t') =
      set (m_pending_partitions_in_current_txn t) - (\<lambda>(tp, e). (tp, pte_partition e)) ` set xs \<and>
    set (m_partitions_in_current_txn t') =
      set (m_partitions_in_current_txn t) \<union> (\<lambda>(tp, e). (tp, pte_partition e)) ` set xs"
  using assms
proof (induction xs arbitrary: t)
  case (Cons x xs)
  let ?tp = "(fst x, pte_partition (snd x))"
  let ?t = "t\<lparr>m_partitions_in_current_txn := List.insert ?tp (m_partitions_in_current_txn t),
    m_pending_partitions_in_current_txn := removeAll ?tp (m_pending_partitions_in_current_txn t)\<rparr>"
  have "add_partition_reply c b x () (t, w) = Ok (Inr ()) (?t, w)"
    using Cons.prems by (simp add: add_partition_reply_def mgr_def Let_def)
  moreover have "\<forall>x \<in> set xs. sint (pte_err (snd x)) = ErrNoError" using Cons.prems by simp
  ultimately show ?case using Cons.IH [of ?t] by (cases x) (auto simp: bind_p_def)
qed (auto simp: ret_apply)

lemma publish_accepted:
  assumes "\<not> in_error st" "inv_at st t" "m_pending_partitions_in_current_txn t \<noteq> []" "0 \<le> cf_Retry_Max (cl_conf c)"
    "cl_TransactionCoordinator c (m_transactional_id t) w = ((0, Some b), w1)"
    "cl_AddPartitionsToTxn c b (AddPartitionsToTxnRequest_at (cl_conf c) t) w1 = ((0, Some r), w2)"
    "\<forall>x \<in> set (topic_errors (apr_errors r)). sint (pte_err (snd x)) = ErrNoError"
    "set (m_pending_partitions_in_current_txn t) = (\<lambda>(tp, e). (tp, pte_partition e)) ` set (topic_errors (apr_errors r))"
  shows "\<exists>t'. publish_txn_partitions c (t, w) = Ok 0 (t', w2) \<and> inv_at st t' \<and>
    m_pending_partitions_in_current_txn t' = [] \<and>
    set (m_partitions_in_current_txn t') =
      set (m_partitions_in_current_txn t) \<union> set (m_pending_partitions_in_current_txn t)"
proof -
  obtain t' where t': "each_until (add_partition_reply c b) (topic_errors (apr_errors r)) () (t, w2) = Ok (Inr ()) (t', w2)"
    "m_status t' = m_status t" "set (m_pending_partitions_in_current_txn t') = {}"
    "set (m_partitions_in_current_txn t') =
      set (m_partitions_in_current_txn t) \<union> set (m_pending_partitions_in_current_txn t)"
    using each_until_accepts [OF assms(7), of c b t w2] assms(8) by auto
  have st: "current_txn_status t AND ProducerTxnFlagInError = 0"
    using assms(1,2) by (simp add: current_txn_status_def inv_at_def)
  have att: "publish_txn_partitions_attempt c () (t, w) = Ok (Result False 0, ()) (t', w2)"
    using assms(3,5,6) st t'(1,3)
    by (simp add: publish_txn_partitions_attempt_def bind_p_def this_mgr_def await_def deref_def ret_apply ErrNoError_def)
  have "publish_txn_partitions c (t, w) = Ok 0 (t', w2)"
    using assms(3,4) st att
    by (simp add: publish_txn_partitions_def bind_p_def this_mgr_def ret_apply Retry.simps [of c "cf_Retry_Max (cl_conf c)"])
  moreover from this have "refines_txn t t'" by (rule within_Ok [OF txn.within_publish_partitions])
  with assms(2) t'(2) have "inv_at st t'" by (auto simp: refines_txn_def inv_at_def)
  ultimately show ?thesis using t'(3,4) by auto
qed

section \<open>Ending a transaction\<close>

interpretation still: txn_preorder "(=)"
  by unfold_locales auto

lemma end_txn_same: "end_txn c commit (t, w) = Ok err (t', w') \<Longrightarrow> t' = t"
  by (drule within_Ok [OF still.within_end_txn]) simp

lemma dispatch_endtxn_at:
  assumes "inv_at st t" "st = InTransaction \<or> st = AbortableError \<and> \<not> commit"
  shows "inv_at (if commit then Committing else Aborting) (dispatch_endtxn commit t)"
    "\<exists>e. dispatch_endtxn commit t = t\<lparr>m_last_error := 0, m_status := e\<rparr>"
proof -
  have st: "m_status t = txn_flags st" using assms(1) by (simp add: inv_at_def)
  let ?to = "if commit then Committing else Aborting"
  have "txn_edge st ?to" "\<not> in_error ?to" using assms(2) by (auto simp: in_error_def)
  then have "dispatch_endtxn commit t = t\<lparr>m_last_error := 0, m_status := txn_flags ?to\<rparr>"
    using transition_to_cases [OF st, of ?to 0]
    by (cases commit) (simp_all add: dispatch_endtxn_def txn_flags.simps)
  moreover from this have "inv_at ?to (dispatch_endtxn commit t)"
    using assms(1) \<open>\<not> in_error ?to\<close> by (simp add: inv_at_def)
  ultimately show "inv_at ?to (dispatch_endtxn commit t)"
    "\<exists>e. dispatch_endtxn commit t = t\<lparr>m_last_error := 0, m_status := e\<rparr>" by blast+
qed

text \<open>Without partitions the transaction is completed on the spot.\<close>

lemma complete_transaction_at:
  assumes "inv_at st t" "st = Committing \<or> st = Aborting"
  shows "\<exists>t'. complete_transaction t = (0, t') \<and> inv_at (if m_epoch_bump_required t then Initializing else Ready) t' \<and>
    m_partitions_in_current_txn t' = [] \<and> m_pending_partitions_in_current_txn t' = [] \<and>
    m_offsets_in_current_txn t' = []"
proof -
  let ?to = "if m_epoch_bump_required t then Initializing else Ready"
  have st: "m_status t = txn_flags st" using assms(1) by (simp add: inv_at_def)
  have "txn_edge st ?to" "\<not> in_error ?to" using assms(2) by (auto simp: in_error_def)
  then have "transition_to (txn_flags ?to) 0 t = (0, t\<lparr>m_last_error := 0, m_status := txn_flags ?to\<rparr>)"
    using transition_to_cases [OF st, of ?to 0] by simp
  then show ?thesis
    using \<open>\<not> in_error ?to\<close> by (cases "m_epoch_bump_required t") (simp_all add: complete_transaction_def txn_flags.simps inv_at_def)
qed

lemma end_empty_transaction:
  assumes "inv_at st t" "st = InTransaction \<or> st = AbortableError \<and> \<not> commit" "is_transactional t"
    "m_partitions_in_current_txn t = []"
  shows "\<exists>t'. end_producer_txn c commit (t, w) = Ok 0 (t', w) \<and>
    inv_at (if m_epoch_bump_required t then Initializing else Ready) t' \<and>
    m_pending_partitions_in_current_txn t' = [] \<and> m_offsets_in_current_txn t' = []"
proof -
  let ?d = "dispatch_endtxn commit t" and ?to = "if commit then Committing else Aborting"
  obtain e where d: "?d = t\<lparr>m_last_error := 0, m_status := e\<rparr>" using dispatch_endtxn_at(2) [OF assms(1,2)] by blast
  have at: "inv_at ?to ?d" by (rule dispatch_endtxn_at(1) [OF assms(1,2)])
  then have flags: "m_status ?d = txn_flags ?to" by (simp add: inv_at_def)
  have bump: "m_epoch_bump_required ?d = m_epoch_bump_required t" by (simp add: d)
  obtain t' where "complete_transaction ?d = (0, t')"
    "inv_at (if m_epoch_bump_required t then Initializing else Ready) t'"
    "m_pending_partitions_in_current_txn t' = []" "m_offsets_in_current_txn t' = []"
    using complete_transaction_at [OF at] bump by (cases commit) auto
  moreover have "finish_transaction c commit (?d, w) = mgr complete_transaction (?d, w)"
    using assms(4) flags
    by (simp add: finish_transaction_def bind_p_def this_mgr_def current_txn_status_def d in_error_def)
  ultimately show ?thesis
    using assms(3) by (auto simp: end_producer_txn_def AsyncProducer_finish_transaction_def bind_p_def this_mgr_def
        then_p_def mgr_def)
qed

text \<open>With partitions nothing completes it: the status stays at the end of the transaction.\<close>

lemma end_nonempty_transaction:
  assumes "inv_at st t" "st = InTransaction \<or> st = AbortableError \<and> \<not> commit" "is_transactional t"
    "m_partitions_in_current_txn t \<noteq> []" "\<not> m_epoch_bump_required t" "commit \<longrightarrow> m_offsets_in_current_txn t = []"
    "end_producer_txn c commit (t, w) = Ok err (t', w')"
  shows "t' = dispatch_endtxn commit t"
proof -
  let ?d = "dispatch_endtxn commit t" and ?to = "if commit then Committing else Aborting"
  obtain e where d: "?d = t\<lparr>m_last_error := 0, m_status := e\<rparr>" using dispatch_endtxn_at(2) [OF assms(1,2)] by blast
  have at: "inv_at ?to ?d" by (rule dispatch_endtxn_at(1) [OF assms(1,2)])
  then have flags: "m_status ?d = txn_flags ?to" by (simp add: inv_at_def)
  have "finish_transaction c commit (?d, w) = bind_p (end_txn c commit) (\<lambda>err. if err \<noteq> 0 then ret err else ret 0) (?d, w)"
    using assms(4,5,6) flags
    by (simp add: finish_transaction_def bind_p_def this_mgr_def current_txn_status_def d in_error_def ret_apply
        ErrInvalidProducerIDMapping_def split: outcome.splits)
  then show ?thesis
    using assms(3,7) by (auto simp: end_producer_txn_def AsyncProducer_finish_transaction_def bind_p_eq_Ok this_mgr_def
        then_p_eq_Ok mgr_def ret_apply dest!: end_txn_same split: if_splits)
qed

lemma begin_refused:
  assumes "inv_at st t" "st \<noteq> Ready" "is_transactional t"
  shows "begin_txn t = (ErrTransitionNotAllowed, t)"
  using assms transition_to_cases [of t st InTransaction ErrNoError]
  by (cases st) (auto simp: begin_txn_def inv_at_def txn_flags.simps)

lemma begin_accepted:
  assumes "inv_at Ready t" "is_transactional t"
  shows "fst (begin_txn t) = 0 \<and> inv_at InTransaction (snd (begin_txn t))"
  using assms transition_to_cases [of t Ready InTransaction ErrNoError]
  by (auto simp: begin_txn_def inv_at_def txn_flags.simps in_error_def ErrNoError_def)

text \<open>When the coordinator cannot be found, the retries run out and the result is 0.\<close>

lemma Retry_exhausted:
  assumes "\<And>v w. \<exists>e v' w'. f v (t, w) = Ok (Result True e, v') (t, w')"
  shows "\<exists>v' w'. Retry c n f v (t, w) = Ok (0, v') (t, w')"
proof (induction "nat (n + 1)" arbitrary: n v w)
  case 0
  then show ?case by (subst Retry.simps) (simp add: ret_apply)
next
  case (Suc k)
  obtain e v1 w1 where f: "f v (t, w) = Ok (Result True e, v1) (t, w1)" using assms by blast
  obtain u w2 where sl: "cl_sleep_for c (compute_backoff (cl_conf c) n) w1 = (u, w2)" by (rule prod.exhaust)
  have "\<exists>v' w'. Retry c (n - 1) f v1 (t, w2) = Ok (0, v') (t, w')" using Suc by simp
  then show ?case using Suc(2) f sl by (subst Retry.simps) (auto simp: await_def)
qed

lemma end_txn_unreachable:
  assumes "\<And>w. fst (fst (cl_TransactionCoordinator c (m_transactional_id t) w)) \<noteq> 0"
  shows "\<exists>w'. end_txn c commit (t, w) = Ok 0 (t, w')"
proof -
  have "\<exists>e v' w'. end_txn_attempt c commit (t, w) = Ok (Result True e, v') (t, w')" for w
    using assms [of w]
    by (auto simp: end_txn_attempt_def bind_p_def this_mgr_def await_def ret_apply ErrNoError_def split: prod.splits)
  then show ?thesis
    using Retry_exhausted [of "\<lambda>_. end_txn_attempt c commit" t c "cf_Retry_Max (cl_conf c)" "()" w]
    by (auto simp: end_txn_def bind_p_eq_Ok ret_apply)
qed

lemma init_producer_id_null:
  assumes "is_transactional t \<or> IsAtLeast (cf_Version (cl_conf c)) V2_0_0_0"
  shows "init_producer_id c ids (t, w) = Abort"
  using assms by (auto simp: init_producer_id_def bind_p_def this_mgr_def null_pointer_def)

text \<open>A call that failed is taken for a success when the refresh of the coordinator works.\<close>

lemma add_offset_failed_call:
  assumes "cl_TransactionCoordinator c (m_transactional_id t) w = ((0, Some b), w1)"
    "cl_AddOffsetsToTxn c b (AddOffsetsToTxnRequest_at (cl_conf c) g t) w1 = ((err, r), w2)" "err \<noteq> 0" "aor_err r = 0"
    "cl_Close c b w2 = (u, w3)" "cl_RefreshTransactionCoordinator c (m_transactional_id t) w3 = (0, w4)"
  shows "publish_offsets_to_txn_add_offset c g (t, w) = Ok (Result False 0) (t, w4)"
  using assms by (simp add: publish_offsets_to_txn_add_offset_def bind_p_def then_p_def this_mgr_def await_def
      deref_def ret_apply ErrNoError_def)

section \<open>Sample values\<close>

text \<open>A cluster whose coordinator lookup and \<^verbatim>\<open>AddOffsetsToTxn\<close> return the given codes, and a manager.\<close>

definition sample_client :: "int \<Rightarrow> int \<Rightarrow> unit Client" where
  "sample_client lookup add_offsets =
     \<lparr>cl_conf = \<lparr>cf_Version = V2_0_0_0, cf_Idempotent = True, cf_Transaction_ID = [116], cf_Transaction_Timeout = 0,
        cf_Retry_Max = 1, cf_Retry_Backoff = 0, cf_Retry_BackoffFunc = None\<rparr>,
      cl_TransactionCoordinator = (\<lambda>_ w. ((lookup, Some 1), w)),
      cl_RefreshTransactionCoordinator = (\<lambda>_ w. (0, w)),
      cl_GetCoordinator = (\<lambda>_ w. ((0, Some 1), w)), cl_RefreshCoordinator = (\<lambda>_ w. ((), w)),
      cl_LeastLoadedBroker = (\<lambda>w. ((0, Some 1), w)), cl_Close = (\<lambda>_ w. ((), w)),
      cl_AddOffsetsToTxn = (\<lambda>_ _ w. ((add_offsets, \<lparr>aor_version = 0, aor_throttle_time = 0, aor_err = 0\<rparr>), w)),
      cl_TxnOffsetCommit = (\<lambda>_ _ w. ((0, \<lparr>tor_version = 0, tor_throttle_time = 0, tor_topics = []\<rparr>), w)),
      cl_AddPartitionsToTxn = (\<lambda>_ _ w. ((0, Some \<lparr>apr_version = 0, apr_throttle_time = 0,
        apr_errors = [([97], [\<lparr>pte_partition = 0, pte_err = 0\<rparr>])]\<rparr>), w)),
      cl_InitProducerID = (\<lambda>_ _ w. ((0, \<lparr>ipr_throttle_time = 0, ipr_err = 0, ipr_version = 0, ipr_producer_id = 0,
        ipr_producer_epoch = 0\<rparr>), w)),
      cl_sleep_for = (\<lambda>_ w. ((), w))\<rparr>"

definition sample_txn :: "txn_state \<Rightarrow> int \<Rightarrow> TopicPartitionSet \<Rightarrow> TopicPartitionSet \<Rightarrow> TransactionManager" where
  "sample_txn st err pending current =
     \<lparr>m_status = txn_flags st, m_producer_id = 7, m_producer_epoch = 1, m_sequence_numbers = [],
      m_transactional_id = [116], m_transaction_timeout = 0, m_coordinator_supports_bumping_epoch = False,
      m_epoch_bump_required = False, m_last_error = err, m_pending_partitions_in_current_txn = pending,
      m_partitions_in_current_txn = current, m_offsets_in_current_txn = []\<rparr>"

end
