(* ===== verification/Hashes.thy ===== *)
theory Hashes
  imports Crc32
begin

text \<open>
  The hash objects of \<^verbatim>\<open>utils/hash\<close>: \<^verbatim>\<open>FNV32\<close>, \<^verbatim>\<open>FNV32a\<close>, \<^verbatim>\<open>FNV64\<close>, \<^verbatim>\<open>FNV64a\<close>, \<^verbatim>\<open>FNV128\<close>,
  \<^verbatim>\<open>FNV128a\<close> (\<^verbatim>\<open>fnv.h\<close>, \<^verbatim>\<open>fnv.cpp\<close>) and \<^verbatim>\<open>CRC32\<close> (\<^verbatim>\<open>crc32.cpp\<close>).  An object is its \<^verbatim>\<open>m_hash\<close>; a
  \<^verbatim>\<open>CRC32\<close> is its \<^verbatim>\<open>m_digest.crc\<close>, with the table that it was built with as a parameter.  The interface
  (\<^verbatim>\<open>hash.h\<close>) is the locale \<open>hasher\<close>, interpreted on all seven classes.
\<close>

section \<open>The interface\<close>

locale hasher =
  fixes Reset :: "'h \<Rightarrow> 'h"
    and Update :: "bytes \<Rightarrow> 'h \<Rightarrow> 'h"
    and Final :: "'h \<Rightarrow> 'd"
    and MarshalBinary :: "'h \<Rightarrow> bytes"
    and UnmarshalBinary :: "bytes \<Rightarrow> 'h \<Rightarrow> bool \<times> 'h"
  assumes reset: "Reset h = Reset h'"
    and update_append: "Update (xs @ ys) h = Update ys (Update xs h)"
    and unmarshal: "UnmarshalBinary (MarshalBinary h) h' = (True, h)"
begin

definition digest :: "bytes \<Rightarrow> 'd" where
  "digest xs = Final (Update xs (Reset undefined))"

text \<open>The digest of a message does not depend on what the object hashed before.\<close>

lemma digest_any: "Final (Update xs (Reset h)) = digest xs"
  unfolding digest_def by (subst reset [of h undefined]) simp

text \<open>A hash that is saved in the middle of a message and restored into another object goes on as if it
  had never been saved.\<close>

lemma resume:
  "UnmarshalBinary (MarshalBinary (Update xs (Reset h))) h' = (ok, r) \<Longrightarrow> ok \<and> Final (Update ys r) = digest (xs @ ys)"
  using digest_any [of "xs @ ys" h] by (simp add: unmarshal update_append)

end

section \<open>FNV with 32 and 64 bits\<close>

definition offset32 :: "32 word" where "offset32 = 2166136261"
definition offset64 :: "64 word" where "offset64 = 14695981039346656037"
definition prime32 :: "32 word" where "prime32 = 16777619"
definition prime64 :: "64 word" where "prime64 = 1099511628211"

definition magic32 :: bytes where "magic32 = [0x66, 0x6E, 0x76, 1]"
definition magic32a :: bytes where "magic32a = [0x66, 0x6E, 0x76, 2]"
definition magic64 :: bytes where "magic64 = [0x66, 0x6E, 0x76, 3]"
definition magic64a :: bytes where "magic64a = [0x66, 0x6E, 0x76, 4]"
definition magic128 :: bytes where "magic128 = [0x66, 0x6E, 0x76, 5]"
definition magic128a :: bytes where "magic128a = [0x66, 0x6E, 0x76, 6]"

lemmas magic_defs = magic32_def magic32a_def magic64_def magic64a_def magic128_def magic128a_def

definition BEAppendUint32 :: "bytes \<Rightarrow> 32 word \<Rightarrow> bytes" where
  "BEAppendUint32 str v = str @ be32 v"

definition BEAppendUint64 :: "bytes \<Rightarrow> 64 word \<Rightarrow> bytes" where
  "BEAppendUint64 str v = str @ be64 v"

definition BEUint32 :: "bytes \<Rightarrow> nat \<Rightarrow> 32 word" where
  "BEUint32 str off = from_be32 (str ! off) (str ! (off + 1)) (str ! (off + 2)) (str ! (off + 3))"

definition BEUint64 :: "bytes \<Rightarrow> nat \<Rightarrow> 64 word" where
  "BEUint64 str off = from_be64 (str ! off) (str ! (off + 1)) (str ! (off + 2)) (str ! (off + 3))
     (str ! (off + 4)) (str ! (off + 5)) (str ! (off + 6)) (str ! (off + 7))"

text \<open>\<open>b.size() < 4 || memcmp(b.data(), magic, 4) != 0\<close>, then the size, then the value.\<close>

definition unmarshal_with :: "bytes \<Rightarrow> nat \<Rightarrow> (bytes \<Rightarrow> 'h) \<Rightarrow> bytes \<Rightarrow> 'h \<Rightarrow> bool \<times> 'h" where
  "unmarshal_with magic n rd b h =
     (if length b < 4 \<or> take 4 b \<noteq> magic then (False, h)
      else if length b \<noteq> n then (False, h)
      else (True, rd b))"

definition FNV32_Reset :: "32 word \<Rightarrow> 32 word" where "FNV32_Reset h = offset32"
definition FNV32_Update :: "bytes \<Rightarrow> 32 word \<Rightarrow> 32 word" where
  "FNV32_Update data h = fold (\<lambda>b h. (h * prime32) XOR ucast b) data h"
definition FNV32_Final :: "32 word \<Rightarrow> 32 word" where "FNV32_Final h = h"
definition FNV32_Sum :: "bytes \<Rightarrow> 32 word \<Rightarrow> bytes" where "FNV32_Sum i h = BEAppendUint32 i h"
definition FNV32_MarshalBinary :: "32 word \<Rightarrow> bytes" where "FNV32_MarshalBinary h = BEAppendUint32 magic32 h"
definition FNV32_UnmarshalBinary :: "bytes \<Rightarrow> 32 word \<Rightarrow> bool \<times> 32 word" where
  "FNV32_UnmarshalBinary = unmarshal_with magic32 8 (\<lambda>b. BEUint32 b 4)"

definition FNV32a_Reset :: "32 word \<Rightarrow> 32 word" where "FNV32a_Reset h = offset32"
definition FNV32a_Update :: "bytes \<Rightarrow> 32 word \<Rightarrow> 32 word" where
  "FNV32a_Update data h = fold (\<lambda>b h. (h XOR ucast b) * prime32) data h"
definition FNV32a_Final :: "32 word \<Rightarrow> 32 word" where "FNV32a_Final h = h"
definition FNV32a_Sum :: "bytes \<Rightarrow> 32 word \<Rightarrow> bytes" where "FNV32a_Sum i h = BEAppendUint32 i h"
definition FNV32a_MarshalBinary :: "32 word \<Rightarrow> bytes" where "FNV32a_MarshalBinary h = BEAppendUint32 magic32a h"
definition FNV32a_UnmarshalBinary :: "bytes \<Rightarrow> 32 word \<Rightarrow> bool \<times> 32 word" where
  "FNV32a_UnmarshalBinary = unmarshal_with magic32a 8 (\<lambda>b. BEUint32 b 4)"

definition FNV64_Reset :: "64 word \<Rightarrow> 64 word" where "FNV64_Reset h = offset64"
definition FNV64_Update :: "bytes \<Rightarrow> 64 word \<Rightarrow> 64 word" where
  "FNV64_Update data h = fold (\<lambda>b h. (h * prime64) XOR ucast b) data h"
definition FNV64_Final :: "64 word \<Rightarrow> 64 word" where "FNV64_Final h = h"
definition FNV64_Sum :: "bytes \<Rightarrow> 64 word \<Rightarrow> bytes" where "FNV64_Sum i h = BEAppendUint64 i h"
definition FNV64_MarshalBinary :: "64 word \<Rightarrow> bytes" where "FNV64_MarshalBinary h = BEAppendUint64 magic64 h"
definition FNV64_UnmarshalBinary :: "bytes \<Rightarrow> 64 word \<Rightarrow> bool \<times> 64 word" where
  "FNV64_UnmarshalBinary = unmarshal_with magic64 12 (\<lambda>b. BEUint64 b 4)"

definition FNV64a_Reset :: "64 word \<Rightarrow> 64 word" where "FNV64a_Reset h = offset64"
definition FNV64a_Update :: "bytes \<Rightarrow> 64 word \<Rightarrow> 64 word" where
  "FNV64a_Update data h = fold (\<lambda>b h. (h XOR ucast b) * prime64) data h"
definition FNV64a_Final :: "64 word \<Rightarrow> 64 word" where "FNV64a_Final h = h"
definition FNV64a_Sum :: "bytes \<Rightarrow> 64 word \<Rightarrow> bytes" where "FNV64a_Sum i h = BEAppendUint64 i h"
definition FNV64a_MarshalBinary :: "64 word \<Rightarrow> bytes" where "FNV64a_MarshalBinary h = BEAppendUint64 magic64a h"
definition FNV64a_UnmarshalBinary :: "bytes \<Rightarrow> 64 word \<Rightarrow> bool \<times> 64 word" where
  "FNV64a_UnmarshalBinary = unmarshal_with magic64a 12 (\<lambda>b. BEUint64 b 4)"

section \<open>FNV with 128 bits\<close>

type_synonym hash128 = "64 word \<times> 64 word"

definition offset128Higher :: "64 word" where "offset128Higher = 0x6c62272e07bb0142"
definition offset128Lower :: "64 word" where "offset128Lower = 0x62b821756295c58d"
definition prime128Lower :: "64 word" where "prime128Lower = 0x13b"
definition prime128Shift :: nat where "prime128Shift = 24"

definition multiply128 :: "64 word \<Rightarrow> nat \<Rightarrow> hash128 \<Rightarrow> hash128" where
  "multiply128 primeLower primeShift = (\<lambda>(higher, lower).
     let s0 = lower * primeLower;
         s1 = drop_bit 32 lower * primeLower;
         s1 = s1 + drop_bit 32 s0;
         shift_part = push_bit primeShift lower;
         s0 = s0 + shift_part;
         s1 = s1 + drop_bit 32 shift_part;
         s0 = s0 + higher * primeLower;
         s1 = s1 + drop_bit 32 (higher * primeLower)
     in (s1, s0))"

definition FNV128_Reset :: "hash128 \<Rightarrow> hash128" where "FNV128_Reset h = (offset128Higher, offset128Lower)"
definition FNV128_Update :: "bytes \<Rightarrow> hash128 \<Rightarrow> hash128" where
  "FNV128_Update data h =
     fold (\<lambda>b h. apsnd (\<lambda>l. l XOR ucast b) (multiply128 prime128Lower prime128Shift h)) data h"
definition FNV128_Final :: "hash128 \<Rightarrow> hash128" where "FNV128_Final h = h"
definition FNV128_Sum :: "bytes \<Rightarrow> hash128 \<Rightarrow> bytes" where
  "FNV128_Sum i h = BEAppendUint64 (BEAppendUint64 i (fst h)) (snd h)"
definition FNV128_MarshalBinary :: "hash128 \<Rightarrow> bytes" where
  "FNV128_MarshalBinary h = BEAppendUint64 (BEAppendUint64 magic128 (fst h)) (snd h)"
definition FNV128_UnmarshalBinary :: "bytes \<Rightarrow> hash128 \<Rightarrow> bool \<times> hash128" where
  "FNV128_UnmarshalBinary = unmarshal_with magic128 20 (\<lambda>b. (BEUint64 b 4, BEUint64 b 12))"

definition FNV128a_Reset :: "hash128 \<Rightarrow> hash128" where "FNV128a_Reset h = (offset128Higher, offset128Lower)"
definition FNV128a_Update :: "bytes \<Rightarrow> hash128 \<Rightarrow> hash128" where
  "FNV128a_Update data h =
     fold (\<lambda>b h. multiply128 prime128Lower prime128Shift (apsnd (\<lambda>l. l XOR ucast b) h)) data h"
definition FNV128a_Final :: "hash128 \<Rightarrow> hash128" where "FNV128a_Final h = h"
definition FNV128a_Sum :: "bytes \<Rightarrow> hash128 \<Rightarrow> bytes" where
  "FNV128a_Sum i h = BEAppendUint64 (BEAppendUint64 i (fst h)) (snd h)"
definition FNV128a_MarshalBinary :: "hash128 \<Rightarrow> bytes" where
  "FNV128a_MarshalBinary h = BEAppendUint64 (BEAppendUint64 magic128a (fst h)) (snd h)"
definition FNV128a_UnmarshalBinary :: "bytes \<Rightarrow> hash128 \<Rightarrow> bool \<times> hash128" where
  "FNV128a_UnmarshalBinary = unmarshal_with magic128a 20 (\<lambda>b. (BEUint64 b 4, BEUint64 b 12))"

section \<open>CRC32 objects\<close>

definition crc_magic :: bytes where "crc_magic = [0x63, 0x72, 0x63, 1]"

definition CRC32_Reset :: "32 word \<Rightarrow> 32 word" where "CRC32_Reset crc = 0"
definition CRC32_Update :: "32 word list \<Rightarrow> bytes \<Rightarrow> 32 word \<Rightarrow> 32 word" where
  "CRC32_Update hdl data crc = SimpleUpdate crc data hdl"
definition CRC32_Final :: "32 word \<Rightarrow> 32 word" where "CRC32_Final crc = crc"
definition CRC32_Sum :: "bytes \<Rightarrow> 32 word \<Rightarrow> bytes" where "CRC32_Sum i crc = BEAppendUint32 i (CRC32_Final crc)"

text \<open>
  The checksum of the table that both directions compare.  \<open>sizeof(Handle)\<close> is the size of a pointer, so
  only the first eight bytes of the table enter it: its first two entries in little-endian memory.
\<close>

definition table_sum :: "32 word list \<Rightarrow> 32 word" where
  "table_sum hdl = ChecksumIEEE (rev (be32 (hdl ! 0)) @ rev (be32 (hdl ! 1)))"

definition CRC32_MarshalBinary :: "32 word list \<Rightarrow> 32 word \<Rightarrow> bytes" where
  "CRC32_MarshalBinary hdl crc = BEAppendUint32 (BEAppendUint32 crc_magic (table_sum hdl)) crc"

definition CRC32_UnmarshalBinary :: "32 word list \<Rightarrow> bytes \<Rightarrow> 32 word \<Rightarrow> bool \<times> 32 word" where
  "CRC32_UnmarshalBinary hdl b crc =
     (if length b < 4 \<or> take 4 b \<noteq> crc_magic then (False, crc)
      else if length b \<noteq> 12 then (False, crc)
      else if table_sum hdl \<noteq> BEUint32 b 4 then (False, crc)
      else (True, BEUint32 b 8))"

section \<open>Lemmas\<close>

lemma BEUint32_at: "length pre = n \<Longrightarrow> BEUint32 (pre @ be32 v @ post) n = v"
  by (auto simp: BEUint32_def be32_def nth_append)

lemma BEUint64_at: "length pre = n \<Longrightarrow> BEUint64 (pre @ be64 v @ post) n = v"
  by (auto simp: BEUint64_def be64_def nth_append)

lemma unmarshal_with_append:
  "length magic = 4 \<Longrightarrow> length (magic @ rest) = n \<Longrightarrow>
   unmarshal_with magic n rd (magic @ rest) h = (True, rd (magic @ rest))"
  by (simp add: unmarshal_with_def)

text \<open>An object refuses the state of an object of another class, and keeps its own.\<close>

lemma unmarshal_with_other:
  "length magic = 4 \<Longrightarrow> length magic' = 4 \<Longrightarrow> magic \<noteq> magic' \<Longrightarrow>
   unmarshal_with magic n rd (magic' @ rest) h = (False, h)"
  by (simp add: unmarshal_with_def)

lemma length_magic [simp]:
  "length magic32 = 4" "length magic32a = 4" "length magic64 = 4" "length magic64a = 4" "length magic128 = 4"
  "length magic128a = 4"
  by (simp_all add: magic_defs)

lemmas marshal_simps = unmarshal_with_append BEAppendUint32_def BEAppendUint64_def
  BEUint32_at [of _ _ _ "[]", simplified] BEUint64_at [of _ _ _ "[]", simplified]

interpretation fnv32: hasher FNV32_Reset FNV32_Update FNV32_Final FNV32_MarshalBinary FNV32_UnmarshalBinary
  by unfold_locales (simp_all add: FNV32_Reset_def FNV32_Update_def FNV32_MarshalBinary_def
      FNV32_UnmarshalBinary_def marshal_simps)

interpretation fnv32a: hasher FNV32a_Reset FNV32a_Update FNV32a_Final FNV32a_MarshalBinary FNV32a_UnmarshalBinary
  by unfold_locales (simp_all add: FNV32a_Reset_def FNV32a_Update_def FNV32a_MarshalBinary_def
      FNV32a_UnmarshalBinary_def marshal_simps)

interpretation fnv64: hasher FNV64_Reset FNV64_Update FNV64_Final FNV64_MarshalBinary FNV64_UnmarshalBinary
  by unfold_locales (simp_all add: FNV64_Reset_def FNV64_Update_def FNV64_MarshalBinary_def
      FNV64_UnmarshalBinary_def marshal_simps)

interpretation fnv64a: hasher FNV64a_Reset FNV64a_Update FNV64a_Final FNV64a_MarshalBinary FNV64a_UnmarshalBinary
  by unfold_locales (simp_all add: FNV64a_Reset_def FNV64a_Update_def FNV64a_MarshalBinary_def
      FNV64a_UnmarshalBinary_def marshal_simps)

lemma unmarshal128:
  "length magic = 4 \<Longrightarrow> unmarshal_with magic 20 (\<lambda>b. (BEUint64 b 4, BEUint64 b 12)) (magic @ be64 x @ be64 y) h =
   (True, x, y)"
  using BEUint64_at [of magic 4 x "be64 y"] BEUint64_at [of "magic @ be64 x" 12 y "[]"]
  by (simp add: unmarshal_with_append)

interpretation fnv128: hasher FNV128_Reset FNV128_Update FNV128_Final FNV128_MarshalBinary FNV128_UnmarshalBinary
  by unfold_locales (simp_all add: FNV128_Reset_def FNV128_Update_def FNV128_MarshalBinary_def
      FNV128_UnmarshalBinary_def BEAppendUint64_def unmarshal128)

interpretation fnv128a: hasher FNV128a_Reset FNV128a_Update FNV128a_Final FNV128a_MarshalBinary FNV128a_UnmarshalBinary
  by unfold_locales (simp_all add: FNV128a_Reset_def FNV128a_Update_def FNV128a_MarshalBinary_def
      FNV128a_UnmarshalBinary_def BEAppendUint64_def unmarshal128)

lemma CRC32_unmarshal: "CRC32_UnmarshalBinary hdl (CRC32_MarshalBinary hdl crc) crc' = (True, crc)"
  using BEUint32_at [of crc_magic 4 "table_sum hdl" "be32 crc"]
    BEUint32_at [of "crc_magic @ be32 (table_sum hdl)" 8 crc "[]"]
  by (simp add: CRC32_UnmarshalBinary_def CRC32_MarshalBinary_def BEAppendUint32_def crc_magic_def)

interpretation crc32: hasher CRC32_Reset "CRC32_Update hdl" CRC32_Final "CRC32_MarshalBinary hdl"
  "CRC32_UnmarshalBinary hdl" for hdl
  by unfold_locales (simp_all add: CRC32_Reset_def CRC32_Update_def SimpleUpdate_append CRC32_unmarshal)

text \<open>
  The product that FNV-128 asks for, modulo \<open>2 ^ 128\<close>, is with the prime \<open>2 ^ 88 + 0x13b\<close>.
\<close>

definition fnv128_product :: "hash128 \<Rightarrow> 128 word" where
  "fnv128_product h = (push_bit 64 (ucast (fst h)) + ucast (snd h)) * (push_bit 88 1 + 0x13b)"

definition word128 :: "hash128 \<Rightarrow> 128 word" where
  "word128 h = push_bit 64 (ucast (fst h)) + ucast (snd h)"

text \<open>\<^verbatim>\<open>multiply128\<close> adds the shifted part to the lower half.\<close>

lemma multiply128_one:
  "multiply128 prime128Lower prime128Shift (0, 1) = (0, 0x100013b)"
  "fnv128_product (0, 1) = push_bit 88 1 + 0x13b"
  by (simp_all add: multiply128_def prime128Lower_def prime128Shift_def fnv128_product_def)

end
