(* ===== verification/Partitioner.thy ===== *)
theory Partitioner
  imports Hashes "HOL-Library.Signed_Division"
begin

text \<open>
  The partitioners of a producer (\<^verbatim>\<open>partitioner.h\<close>, \<^verbatim>\<open>partitioner.cpp\<close>).  A partitioner is a value of the
  datatype \<open>Partitioner\<close>, one constructor per class, and \<^verbatim>\<open>partition\<close> a \<open>prog\<close> on it: the object that the
  call leaves behind is the state.

  \<^item> \<open>'h\<close> is the state of the hasher behind \<^verbatim>\<open>std::shared_ptr<Hash32>\<close> and \<open>Hash32\<close> its virtual methods,
    so that a custom hash function is covered as well as those of \<^verbatim>\<open>utils/hash\<close>.
  \<^item> \<open>dist\<close> is \<^verbatim>\<open>std::uniform_int_distribution<int32_t>\<close> on the generator \<open>'g\<close>: the standard fixes the range
    of its results, not the results.  A range that is empty is undefined behaviour.
\<close>

record 'h Hash32 =
  h_Reset :: "'h \<Rightarrow> 'h"
  h_Update :: "bytes \<Rightarrow> 'h \<Rightarrow> 'h"
  h_Final :: "'h \<Rightarrow> 32 word"

text \<open>The fields of \<^verbatim>\<open>ProducerMessage\<close> that are read here; \<^verbatim>\<open>m_key\<close> is a \<^verbatim>\<open>StringEncoder\<close> on these bytes.\<close>

record ProducerMessage =
  pm_partition :: int32
  pm_key :: bytes

datatype ('g, 'h) Partitioner =
    ManualPartitioner
  | RandomPartitioner 'g
  | RoundRobinPartitioner int32
  | HashPartitioner (m_random_partitioner: "('g, 'h) Partitioner") (hash_ops: "'h Hash32") (m_hasher: 'h)
      (m_reference_abs: bool) (m_hash_unsigned: bool)

definition StringEncoder_Empty :: "bytes \<Rightarrow> bool" where
  "StringEncoder_Empty m_data \<longleftrightarrow> m_data = []"

definition StringEncoder_Encode :: "bytes \<Rightarrow> int \<times> bytes" where
  "StringEncoder_Encode m_data = (0, m_data)"

text \<open>The partition of a hash: \<open>%\<close> truncates, and a zero divisor is undefined.\<close>

definition hash_partition :: "bool \<Rightarrow> bool \<Rightarrow> 32 word \<Rightarrow> int32 \<Rightarrow> int32 option" where
  "hash_partition reference_abs hash_unsigned hash_value num_partitions =
     (if num_partitions = 0 then None
      else if reference_abs then
        Some (word_of_int (sint (hash_value AND 0x7fffffff) smod sint num_partitions))
      else if hash_unsigned then Some (word_of_int (uint hash_value mod uint num_partitions))
      else if sint hash_value = - (2 ^ 31) \<and> num_partitions = - 1 then None
      else let result = word_of_int (sint hash_value smod sint num_partitions) :: int32
           in Some (if sint result < 0 then - result else result))"

definition ManualPartitioner_partition :: "ProducerMessage \<Rightarrow> int32" where
  "ManualPartitioner_partition message = pm_partition message"

definition RandomPartitioner_partition ::
    "(int32 \<Rightarrow> int32 \<Rightarrow> 'g \<Rightarrow> int32 \<times> 'g) \<Rightarrow> int32 \<Rightarrow> 'g \<Rightarrow> (int32 \<times> 'g) option" where
  "RandomPartitioner_partition dist num_partitions m_generator =
     (if sint num_partitions \<le> 0 then None else Some (dist 0 (num_partitions - 1) m_generator))"

definition RoundRobinPartitioner_partition :: "int32 \<Rightarrow> int32 \<Rightarrow> (int32 \<times> int32) option" where
  "RoundRobinPartitioner_partition num_partitions m_partition =
     (let m_partition = (if sint m_partition \<ge> sint num_partitions then 0 else m_partition)
      in if sint m_partition = 2 ^ 31 - 1 then None else Some (m_partition, m_partition + 1))"

primrec partition_msg :: "(int32 \<Rightarrow> int32 \<Rightarrow> 'g \<Rightarrow> int32 \<times> 'g) \<Rightarrow> ProducerMessage \<Rightarrow> int32 \<Rightarrow>
    ('g, 'h) Partitioner \<Rightarrow> (('g, 'h) Partitioner, int32) outcome" where
  "partition_msg dist message num_partitions ManualPartitioner =
     Ok (ManualPartitioner_partition message) ManualPartitioner"
| "partition_msg dist message num_partitions (RandomPartitioner g) =
     (case RandomPartitioner_partition dist num_partitions g of
        Some (result, g') \<Rightarrow> Ok result (RandomPartitioner g') | None \<Rightarrow> Abort)"
| "partition_msg dist message num_partitions (RoundRobinPartitioner p) =
     (case RoundRobinPartitioner_partition num_partitions p of
        Some (result, p') \<Rightarrow> Ok result (RoundRobinPartitioner p') | None \<Rightarrow> Abort)"
| "partition_msg dist message num_partitions (HashPartitioner fallback ops hs ra hu) =
     (if StringEncoder_Empty (pm_key message) then
        (case partition_msg dist message num_partitions fallback of
           Ok result fallback' \<Rightarrow> Ok result (HashPartitioner fallback' ops hs ra hu)
         | Err e fallback' \<Rightarrow> Err e (HashPartitioner fallback' ops hs ra hu)
         | Abort \<Rightarrow> Abort)
      else
        (case StringEncoder_Encode (pm_key message) of (err, bytes) \<Rightarrow>
           if err \<noteq> 0 then Err (- 1) (HashPartitioner fallback ops hs ra hu)
           else let hs' = h_Update ops bytes (h_Reset ops hs) in
             case hash_partition ra hu (h_Final ops hs') num_partitions of
               Some result \<Rightarrow> Ok result (HashPartitioner fallback ops hs' ra hu)
             | None \<Rightarrow> Abort))"

fun requires_consistency :: "('g, 'h) Partitioner \<Rightarrow> bool" where
  "requires_consistency ManualPartitioner = True"
| "requires_consistency (RandomPartitioner _) = False"
| "requires_consistency (RoundRobinPartitioner _) = False"
| "requires_consistency (HashPartitioner _ _ _ _ _) = True"

definition message_requires_consistency :: "ProducerMessage \<Rightarrow> bool" where
  "message_requires_consistency message \<longleftrightarrow> \<not> StringEncoder_Empty (pm_key message)"

section \<open>Constructors\<close>

definition NewRandomPartitioner :: "'g \<Rightarrow> ('g, 'h) Partitioner" where
  "NewRandomPartitioner seed = RandomPartitioner seed"

definition NewRoundRobinPartitioner :: "('g, 'h) Partitioner" where
  "NewRoundRobinPartitioner = RoundRobinPartitioner 0"

definition fnv32a_ops :: "32 word Hash32" where
  "fnv32a_ops = \<lparr>h_Reset = FNV32a_Reset, h_Update = FNV32a_Update, h_Final = FNV32a_Final\<rparr>"

definition ieee_ops :: "32 word Hash32" where
  "ieee_ops = \<lparr>h_Reset = CRC32_Reset, h_Update = CRC32_Update (SimpleMakeHandle 0xEDB88320), h_Final = CRC32_Final\<rparr>"

definition NewHashPartitioner :: "'g \<Rightarrow> ('g, 32 word) Partitioner" where
  "NewHashPartitioner seed = HashPartitioner (NewRandomPartitioner seed) fnv32a_ops offset32 False False"

definition NewReferenceHashPartitioner :: "'g \<Rightarrow> ('g, 32 word) Partitioner" where
  "NewReferenceHashPartitioner seed = HashPartitioner (NewRandomPartitioner seed) fnv32a_ops offset32 True False"

definition NewConsistentCRCHashPartitioner :: "'g \<Rightarrow> ('g, 32 word) Partitioner" where
  "NewConsistentCRCHashPartitioner seed = HashPartitioner (NewRandomPartitioner seed) ieee_ops 0 False True"

definition NewCustomHashPartitioner :: "'h Hash32 \<times> 'h \<Rightarrow> 'g \<Rightarrow> ('g, 'h) Partitioner" where
  "NewCustomHashPartitioner hf seed =
     HashPartitioner (NewRandomPartitioner seed) (fst hf) (snd hf) False False"

text \<open>The options of \<^verbatim>\<open>NewCustomPartitioner\<close>, applied in order.\<close>

datatype ('g, 'h) HashPartitionerOption =
    WithAbsFirstOption
  | WithHashUnsignedOption
  | WithCustomHashFunctionOption "'h Hash32" 'h
  | WithCustomFallbackPartitionerOption "('g, 'h) Partitioner"

fun apply_option :: "('g, 'h) HashPartitionerOption \<Rightarrow> ('g, 'h) Partitioner \<Rightarrow> ('g, 'h) Partitioner" where
  "apply_option WithAbsFirstOption (HashPartitioner f ops h ra hu) = HashPartitioner f ops h True hu"
| "apply_option WithHashUnsignedOption (HashPartitioner f ops h ra hu) = HashPartitioner f ops h ra True"
| "apply_option (WithCustomHashFunctionOption ops' h') (HashPartitioner f ops h ra hu) = HashPartitioner f ops' h' ra hu"
| "apply_option (WithCustomFallbackPartitionerOption r) (HashPartitioner f ops h ra hu) = HashPartitioner r ops h ra hu"
| "apply_option opt p = p"

definition NewCustomPartitioner :: "('g, 32 word) HashPartitionerOption list \<Rightarrow> 'g \<Rightarrow> ('g, 32 word) Partitioner" where
  "NewCustomPartitioner options seed =
     fold apply_option options (HashPartitioner (NewRandomPartitioner seed) fnv32a_ops offset32 False False)"

section \<open>The range of a partition\<close>

definition in_range :: "int32 \<Rightarrow> int32 \<Rightarrow> bool" where
  "in_range num_partitions r \<longleftrightarrow> 0 \<le> sint r \<and> sint r < sint num_partitions"

lemma sint_range32: "- (2 ^ 31) \<le> sint (w :: int32)" "sint (w :: int32) < 2 ^ 31"
  using sint_range_size [of w] by (simp_all add: word_size)

lemma sint_word_of_int32: "- (2 ^ 31) \<le> i \<Longrightarrow> i < 2 ^ 31 \<Longrightarrow> sint (word_of_int i :: int32) = i"
  by (simp add: signed_of_int signed_take_bit_int_eq_self)

lemma smod_bounds:
  assumes "0 < n" shows "- n < a smod n \<and> a smod n < (n :: int)" "0 \<le> a \<Longrightarrow> 0 \<le> a smod n"
  using assms pos_mod_bound [of n "\<bar>a\<bar>"] pos_mod_sign [of n "\<bar>a\<bar>"]
  by (auto simp: signed_modulo_int_def signed_divide_int_def minus_div_mult_eq_mod [symmetric] sgn_if
      algebra_simps)

lemma uint_of_pos: "0 \<le> sint (w :: int32) \<Longrightarrow> uint w = sint w"
  using sint_range32 [of w] by (simp add: uint_sint take_bit_int_eq_self)

lemma sint_masked: "0 \<le> sint (h AND 0x7fffffff :: int32)"
proof -
  have "uint h AND 0x7fffffff \<le> 0x7fffffff" by (rule AND_upper2) simp
  then have "uint (h AND 0x7fffffff) \<le> 0x7fffffff" by (simp add: uint_and)
  then have "sint (h AND 0x7fffffff) = uint (h AND 0x7fffffff)"
    by (simp add: sint_uint) (rule signed_take_bit_int_eq_self; simp add: order.trans [of "- 2147483648" 0])
  then show ?thesis by simp
qed

text \<open>\<open>hash & 0x7fffffff\<close> and \<open>hash % n\<close> unsigned and \<open>|hash % n|\<close> signed all fall below \<open>n\<close>.\<close>

lemma hash_partition_in_range:
  assumes n: "0 < sint num_partitions"
  shows "\<exists>r. hash_partition ra hu h num_partitions = Some r \<and> in_range num_partitions r"
proof -
  have nz: "num_partitions \<noteq> 0" "num_partitions \<noteq> - 1" using n by auto
  have un: "uint num_partitions = sint num_partitions" using n by (intro uint_of_pos) simp
  note b = sint_range32 [of num_partitions]
  show ?thesis
  proof (cases "ra \<or> hu")
    case True
    have m: "0 \<le> uint h mod sint num_partitions" "uint h mod sint num_partitions < sint num_partitions"
      using n by simp_all
    then have "sint (word_of_int (uint h mod sint num_partitions) :: int32) = uint h mod sint num_partitions"
      using b by (intro sint_word_of_int32) linarith+
    with True m show ?thesis
      using nz n b smod_bounds [OF n, of "sint (h AND 0x7fffffff)"] sint_masked [of h]
      by (cases ra) (auto simp: hash_partition_def in_range_def un sint_word_of_int32)
  next
    case False
    let ?r = "sint h smod sint num_partitions"
    have r: "- sint num_partitions < ?r" "?r < sint num_partitions" using smod_bounds [OF n] by auto
    then have "sint (word_of_int ?r :: int32) = ?r" using b by (intro sint_word_of_int32) auto
    moreover have "sint (- word_of_int ?r :: int32) = - ?r" if "?r < 0"
      using r b that sint_word_of_int32 [of "- ?r"] by (simp flip: wi_hom_neg)
    ultimately show ?thesis using False nz r by (auto simp: hash_partition_def in_range_def Let_def)
  qed
qed

text \<open>What the standard says of the distribution.\<close>

definition dist_in_range :: "(int32 \<Rightarrow> int32 \<Rightarrow> 'g \<Rightarrow> int32 \<times> 'g) \<Rightarrow> bool" where
  "dist_in_range dist \<longleftrightarrow>
     (\<forall>a b g. sint a \<le> sint b \<longrightarrow> sint a \<le> sint (fst (dist a b g)) \<and> sint (fst (dist a b g)) \<le> sint b)"

text \<open>No manual partitioner stands in for a message without a key, and the counter has not run off.\<close>

primrec chooses :: "('g, 'h) Partitioner \<Rightarrow> bool" where
  "chooses ManualPartitioner = False"
| "chooses (RandomPartitioner _) = True"
| "chooses (RoundRobinPartitioner p) = (0 \<le> sint p)"
| "chooses (HashPartitioner f _ _ _ _) = chooses f"

lemma sint_minus_one: "0 < sint (n :: int32) \<Longrightarrow> sint (n - 1) = sint n - 1"
  using sint_range32 [of n] sint_word_of_int32 [of "sint n - 1"] by (simp add: wi_hom_sub [symmetric])

lemma sint_plus_one: "sint (n :: int32) < 2 ^ 31 - 1 \<Longrightarrow> sint (n + 1) = sint n + 1"
  using sint_range32 [of n] sint_word_of_int32 [of "sint n + 1"] by (simp add: wi_hom_add [symmetric])

lemma partition_msg_in_range:
  assumes "dist_in_range dist" "0 < sint n" "chooses p"
  shows "\<exists>r p'. partition_msg dist msg n p = Ok r p' \<and> in_range n r \<and> chooses p'"
  using assms(3)
proof (induction p)
  case (RandomPartitioner g)
  obtain r g' where d: "dist 0 (n - 1) g = (r, g')" by (rule prod.exhaust)
  have "sint (0 :: int32) \<le> sint (n - 1)" using assms(2) by (simp add: sint_minus_one)
  with assms(1) have "sint (0 :: int32) \<le> sint r \<and> sint r \<le> sint (n - 1)" unfolding dist_in_range_def by (metis d fst_conv)
  then show ?case using assms(2) d by (simp add: RandomPartitioner_partition_def in_range_def sint_minus_one)
next
  case (RoundRobinPartitioner q)
  then show ?case
    using assms(2) sint_range32 [of n] sint_plus_one [of q] by (auto simp: RoundRobinPartitioner_partition_def in_range_def Let_def)
next
  case (HashPartitioner f ops hs ra hu)
  then obtain r f' where f: "partition_msg dist msg n f = Ok r f'" "in_range n r" "chooses f'" by auto
  obtain r' where "hash_partition ra hu (h_Final ops (h_Update ops (pm_key msg) (h_Reset ops hs))) n = Some r'"
    "in_range n r'" using hash_partition_in_range [OF assms(2)] by blast
  then show ?case using f HashPartitioner.prems by (simp add: StringEncoder_Encode_def Let_def)
qed simp

section \<open>Consistency\<close>

text \<open>
  Equal keys go to equal partitions: whatever messages the partitioner has seen, the partition is a
  function of the key, the number of partitions and the way the partitioner was built.
\<close>

definition resets :: "'h Hash32 \<Rightarrow> bool" where
  "resets ops \<longleftrightarrow> (\<forall>h h'. h_Reset ops h = h_Reset ops h')"

lemma resets_ops: "resets fnv32a_ops" "resets ieee_ops"
  using fnv32a.reset crc32.reset by (auto simp: resets_def fnv32a_ops_def ieee_ops_def)

primrec send_all :: "(int32 \<Rightarrow> int32 \<Rightarrow> 'g \<Rightarrow> int32 \<times> 'g) \<Rightarrow> (ProducerMessage \<times> int32) list \<Rightarrow>
    ('g, 'h) Partitioner \<Rightarrow> (('g, 'h) Partitioner, int32 list) outcome" where
  "send_all dist [] p = Ok [] p"
| "send_all dist (m # ms) p = bind_p (partition_msg dist (fst m) (snd m)) (\<lambda>r. bind_p (send_all dist ms) (\<lambda>rs. ret (r # rs))) p"

lemma partition_msg_kind:
  "partition_msg dist m n (HashPartitioner f ops hs ra hu) = Ok r p' \<Longrightarrow>
   \<exists>f' hs'. p' = HashPartitioner f' ops hs' ra hu"
  by (auto simp: Let_def StringEncoder_Encode_def split: if_splits outcome.splits option.splits)

lemma send_all_kind:
  "send_all dist ms (HashPartitioner f ops hs ra hu) = Ok rs p' \<Longrightarrow> \<exists>f' hs'. p' = HashPartitioner f' ops hs' ra hu"
proof (induction ms arbitrary: f hs rs)
  case (Cons m ms)
  from Cons.prems obtain r p1 rs' where step: "partition_msg dist (fst m) (snd m) (HashPartitioner f ops hs ra hu) = Ok r p1"
    "send_all dist ms p1 = Ok rs' p'"
    unfolding send_all.simps bind_p_eq_Ok ret_apply by blast
  then obtain f1 hs1 where "p1 = HashPartitioner f1 ops hs1 ra hu" using partition_msg_kind [OF step(1)] by blast
  with step(2) show ?case by (metis Cons.IH)
qed auto

lemma keyed_partition:
  assumes "resets ops" "pm_key m \<noteq> []" "pm_key m' = pm_key m"
    "partition_msg dist m n (HashPartitioner f ops hs ra hu) = Ok r p"
    "partition_msg dist' m' n (HashPartitioner f' ops hs' ra hu) = Ok r' p'"
  shows "r = r'"
proof -
  have "h_Reset ops hs = h_Reset ops hs'" using assms(1) by (auto simp: resets_def)
  then show ?thesis
    using assms(2-) by (auto simp: StringEncoder_Empty_def StringEncoder_Encode_def Let_def split: option.splits)
qed

section \<open>Round robin\<close>

lemma round_robin_from:
  fixes dist :: "int32 \<Rightarrow> int32 \<Rightarrow> 'g \<Rightarrow> int32 \<times> 'g"
  assumes "0 < sint n" "0 \<le> sint p" "sint p \<le> sint n"
  shows "\<exists>p'. send_all dist (map (\<lambda>m. (m, n)) ms) (RoundRobinPartitioner p :: ('g, 'h) Partitioner) =
    Ok (map (\<lambda>i. word_of_int ((sint p + int i) mod sint n)) [0..<length ms]) p'"
  using assms(2,3)
proof (induction ms arbitrary: p)
  case (Cons m ms)
  let ?q = "if sint p \<ge> sint n then 0 else p"
  have q: "0 \<le> sint ?q" "sint ?q < sint n" "sint ?q = sint p mod sint n" using Cons.prems assms(1) by auto
  then have q1: "sint (?q + 1) = sint ?q + 1" using sint_range32 [of n] by (intro sint_plus_one) simp
  have step: "partition_msg dist m n (RoundRobinPartitioner p :: ('g, 'h) Partitioner) = Ok ?q (RoundRobinPartitioner (?q + 1))"
    using q sint_range32 [of n] by (simp add: RoundRobinPartitioner_partition_def Let_def)
  have bounds: "0 \<le> sint (?q + 1)" "sint (?q + 1) \<le> sint n" using q(1,2) unfolding q1 by linarith+
  let ?rs = "map (\<lambda>i. word_of_int ((sint (?q + 1) + int i) mod sint n)) [0..<length ms]"
  have "\<exists>p'. send_all dist (map (\<lambda>m. (m, n)) ms) (RoundRobinPartitioner (?q + 1) :: ('g, 'h) Partitioner) = Ok ?rs p'"
    by (rule Cons.IH [OF bounds])
  then obtain p' where rest:
    "send_all dist (map (\<lambda>m. (m, n)) ms) (RoundRobinPartitioner (?q + 1) :: ('g, 'h) Partitioner) = Ok ?rs p'" ..
  have "word_of_int (sint p mod sint n) = ?q" unfolding q(3) [symmetric] by simp
  moreover have "(sint (?q + 1) + int i) mod sint n = (sint p + int (Suc i)) mod sint n" for i
    unfolding q1 q(3) using mod_add_left_eq [of "sint p" "sint n" "1 + int i"] by (simp add: add.assoc)
  ultimately show ?case
    using step rest by (simp add: bind_p_def ret_apply upt_conv_Cons map_Suc_upt [symmetric] comp_def del: upt_Suc)
qed simp

end
