(* ===== verification/Balance_Strategy.thy ===== *)
theory Balance_Strategy
  imports Protocol Decimal
begin

text \<open>
  The range and the round robin strategy that assign the partitions of a consumer group
  (\<^verbatim>\<open>balance_strategy.h\<close>, \<^verbatim>\<open>balance_strategy.cpp\<close>).  A \<^verbatim>\<open>BalanceStrategyPlan\<close> is a map from members to
  maps from topics to partitions; of a member's metadata only its subscription \<^verbatim>\<open>m_topics\<close> is read.
  Sizes are natural numbers: the code casts them to \<^verbatim>\<open>int\<close>, which is exact for vectors below \<open>2 ^ 31\<close>.
\<close>

type_synonym BalanceStrategyPlan = "(bytes \<times> (bytes \<times> int32 list) list) list"
type_synonym members = "(bytes \<times> bytes list) list"
type_synonym topics = "(bytes \<times> int32 list) list"

definition RangeBalanceStrategyName :: string where "RangeBalanceStrategyName = ''range''"
definition RoundRobinBalanceStrategyName :: string where "RoundRobinBalanceStrategyName = ''roundrobin''"

definition AddToPlan :: "BalanceStrategyPlan \<Rightarrow> bytes \<Rightarrow> bytes \<Rightarrow> int32 list \<Rightarrow> BalanceStrategyPlan" where
  "AddToPlan p memberID topic partitions =
     (if partitions = [] then p
      else smap_put memberID (smap_push topic partitions (entry_of memberID p)) p)"

definition plan_at :: "BalanceStrategyPlan \<Rightarrow> bytes \<Rightarrow> bytes \<Rightarrow> int32 list" where
  "plan_at p memberID topic = entry_of topic (entry_of memberID p)"

lemma plan_at_Nil [simp]: "plan_at [] m t = []"
  by (simp add: plan_at_def)

lemma plan_at_AddToPlan [simp]:
  "plan_at (AddToPlan p m t ps) m' t' = plan_at p m' t' @ (if m' = m \<and> t' = t then ps else [])"
  by (auto simp: AddToPlan_def plan_at_def entry_of_smap_put)

section \<open>The common frame\<close>

text \<open>The members that ask for each topic, in the order of the map of members.\<close>

definition members_by_topic :: "members \<Rightarrow> (bytes \<times> bytes list) list" where
  "members_by_topic members =
     fold (\<lambda>(memberId, m_topics). fold (\<lambda>topic. smap_push topic [memberId]) m_topics) members []"

definition uniq :: "bytes list \<Rightarrow> bytes list" where
  "uniq ss = (if length ss < 2 then ss else remdups_adj (sort ss))"

definition balanceStrategy_Plan ::
    "(BalanceStrategyPlan \<Rightarrow> bytes list \<Rightarrow> bytes \<Rightarrow> int32 list \<Rightarrow> BalanceStrategyPlan) \<Rightarrow>
     members \<Rightarrow> topics \<Rightarrow> int \<times> BalanceStrategyPlan" where
  "balanceStrategy_Plan coreFn members topics =
     (0, fold (\<lambda>(topic, member_ids) plan.
            case map_of topics topic of
              None \<Rightarrow> plan
            | Some partitions \<Rightarrow> coreFn plan (uniq member_ids) topic partitions)
          (members_by_topic members) [])"

definition balanceStrategy_AssignmentData :: "bytes \<Rightarrow> topics \<Rightarrow> int32 \<Rightarrow> int \<times> bytes" where
  "balanceStrategy_AssignmentData memberID topics generationID = (0, [])"

section \<open>Range\<close>

definition range_min :: "nat \<Rightarrow> nat \<Rightarrow> nat \<Rightarrow> nat" where
  "range_min partitionsPerConsumer consumersWithExtraPartition i =
     i * partitionsPerConsumer + min consumersWithExtraPartition i"

definition range_slice :: "int32 list \<Rightarrow> nat \<Rightarrow> nat \<Rightarrow> int32 list" where
  "range_slice partitions n i =
     (let partitionsPerConsumer = length partitions div n;
          consumersWithExtraPartition = length partitions mod n;
          mn = range_min partitionsPerConsumer consumersWithExtraPartition i;
          extra = (if i < consumersWithExtraPartition then 1 else 0);
          mx = mn + partitionsPerConsumer + extra
      in take (mx - mn) (drop mn partitions))"

definition range_core :: "BalanceStrategyPlan \<Rightarrow> bytes list \<Rightarrow> bytes \<Rightarrow> int32 list \<Rightarrow> BalanceStrategyPlan" where
  "range_core plan member_ids topic partitions =
     (let ids = sort member_ids
      in fold (\<lambda>i plan. AddToPlan plan (ids ! i) topic (range_slice partitions (length member_ids) i))
           [0..<length member_ids] plan)"

definition range_Plan :: "members \<Rightarrow> topics \<Rightarrow> int \<times> BalanceStrategyPlan" where
  "range_Plan = balanceStrategy_Plan range_core"

section \<open>Round robin\<close>

definition comparedValue :: "bytes \<times> int32 \<Rightarrow> bytes" where
  "comparedValue tp = fst tp @ 45 # to_string_int (sint (snd tp))"

definition topic_partitions :: "topics \<Rightarrow> (bytes \<times> int32) list" where
  "topic_partitions topics =
     sort_key comparedValue (concat (map (\<lambda>(topic, partitions). map (\<lambda>p. (topic, p)) partitions) topics))"

text \<open>
  The search for a member with the topic.  \<open>auto &m = members[i % n]\<close> is a reference, so \<open>m = members[i % n]\<close>
  in the loop overwrites the entry \<open>j\<close> of the vector that the search started from.  \<open>k\<close> is the number of
  attempts left.
\<close>

primrec rr_search :: "bytes \<Rightarrow> nat \<Rightarrow> nat \<Rightarrow> members \<Rightarrow> nat \<Rightarrow> members \<times> nat" where
  "rr_search topic j 0 ms i = (ms, i)"
| "rr_search topic j (Suc k) ms i =
     (if topic \<in> set (snd (ms ! j)) then (ms, i)
      else rr_search topic j k (ms[j := ms ! (Suc i mod length ms)]) (Suc i))"

primrec rr_assign :: "(bytes \<times> int32) list \<Rightarrow> members \<Rightarrow> nat \<Rightarrow> BalanceStrategyPlan \<Rightarrow> BalanceStrategyPlan" where
  "rr_assign [] ms i plan = plan"
| "rr_assign (tp # tps) ms i plan =
     (let j = i mod length ms;
          (ms', i') = rr_search (fst tp) j (length ms) ms i;
          m = ms' ! j;
          plan' = (if fst tp \<in> set (snd m) then AddToPlan plan (fst m) (fst tp) [snd tp] else plan)
      in rr_assign tps ms' (Suc i') plan')"

definition RoundRobinBalancer_Plan ::
    "members \<Rightarrow> topics \<Rightarrow> BalanceStrategyPlan \<Rightarrow> int \<times> BalanceStrategyPlan" where
  "RoundRobinBalancer_Plan memberAndMetadata topics plan =
     (if memberAndMetadata = [] then (- 1, plan)
      else if topics = [] then (0, [])
      else (0, rr_assign (topic_partitions topics) (sort_key fst memberAndMetadata) 0 []))"

section \<open>Lemmas on the range strategy\<close>

lemma distinct_remdups_adj: "sorted xs \<Longrightarrow> distinct (remdups_adj xs)"
proof (induction xs rule: remdups_adj.induct)
  case (3 x y xs)
  then show ?case by (auto simp: order.antisym)
qed auto

lemma uniq_sorted: "uniq ss = sorted_list_of_set (set ss)"
proof (cases "length ss < 2")
  case True
  then have "ss = [] \<or> (\<exists>x. ss = [x])" by (cases ss; cases "tl ss") auto
  then show ?thesis by (auto simp: uniq_def)
next
  case False
  have "sorted_list_of_set (set (remdups_adj (sort ss))) = remdups_adj (sort ss)"
    by (intro sorted_list_of_set.idem_if_sorted_distinct sorted_remdups_adj distinct_remdups_adj) simp_all
  with False show ?thesis by (simp add: uniq_def)
qed

lemma range_min_step: "range_min q r (Suc i) = range_min q r i + q + (if i < r then 1 else 0)"
  by (auto simp: range_min_def min_def)

lemma range_slice_alt:
  "range_slice ps n i =
    take (range_min (length ps div n) (length ps mod n) (Suc i) - range_min (length ps div n) (length ps mod n) i)
      (drop (range_min (length ps div n) (length ps mod n) i) ps)"
  by (simp add: range_slice_def range_min_step Let_def)

lemma concat_slices:
  assumes "mono b" "b 0 = (0 :: nat)"
  shows "concat (map (\<lambda>i. take (b (Suc i) - b i) (drop (b i) xs)) [0..<n]) = take (b n) xs"
proof (induction n)
  case (Suc n)
  have "b n \<le> b (Suc n)" using assms(1) by (simp add: mono_def)
  then have "take (b (Suc n)) xs = take (b n) xs @ take (b (Suc n) - b n) (drop (b n) xs)"
    by (metis le_add_diff_inverse take_add)
  with Suc show ?case by simp
qed (simp add: assms)

lemma mono_range_min: "mono (range_min q r)"
  unfolding mono_def range_min_def by (auto intro!: add_mono mult_le_mono1 min.mono)

lemma range_min_last: "0 < n \<Longrightarrow> range_min (len div n) (len mod n) n = len"
  by (simp add: range_min_def min_def less_imp_le)

lemma concat_range_slices: "0 < n \<Longrightarrow> concat (map (range_slice ps n) [0..<n]) = ps"
  using concat_slices [OF mono_range_min, of "length ps div n" "length ps mod n" ps n]
    range_min_last [of n "length ps"]
  by (simp add: range_slice_alt cong: map_cong) (simp add: range_min_def)

lemma length_range_slice:
  assumes "i < n"
  shows "length (range_slice ps n i) = length ps div n + (if i < length ps mod n then 1 else 0)"
proof -
  let ?b = "range_min (length ps div n) (length ps mod n)"
  have "?b (Suc i) \<le> ?b n" using assms mono_range_min by (simp add: mono_def)
  then have "?b (Suc i) \<le> length ps" using assms range_min_last [of n "length ps"] by simp
  then show ?thesis
    using range_min_step [of "length ps div n" "length ps mod n" i] by (auto simp: range_slice_alt)
qed

lemma plan_at_fold_AddToPlan:
  "plan_at (fold (\<lambda>i plan. AddToPlan plan (f i) topic (g i)) is plan) m t =
   plan_at plan m t @ (if t = topic then concat (map (\<lambda>i. if f i = m then g i else []) is) else [])"
  by (induction "is" arbitrary: plan) auto

lemma concat_single:
  "distinct xs \<Longrightarrow> i < length xs \<Longrightarrow>
   concat (map (\<lambda>j. if xs ! j = xs ! i then g j else []) [0..<length xs]) = g i"
proof -
  assume d: "distinct xs" "i < length xs"
  have "concat (map (\<lambda>j. if xs ! j = xs ! i then g j else []) [0..<length xs]) =
    concat (map (\<lambda>j. if j = i then g j else []) [0..<length xs])"
    using d by (intro arg_cong [where f = concat] map_cong) (auto simp: nth_eq_iff_index_eq)
  also have "\<dots> = g i"
  proof -
    have "[0..<length xs] = [0..<i] @ i # [Suc i..<length xs]" using d(2) upt_add_eq_append [of 0 i "length xs - i"]
      by (simp add: upt_conv_Cons)
    then show ?thesis by (simp add: concat_eq_Nil_conv [THEN iffD2])
  qed
  finally show ?thesis .
qed

lemma plan_at_range_core:
  assumes "sorted ids" "distinct ids"
  shows "i < length ids \<Longrightarrow> plan_at (range_core plan ids topic ps) (ids ! i) topic =
      plan_at plan (ids ! i) topic @ range_slice ps (length ids) i"
    and "m \<notin> set ids \<or> t \<noteq> topic \<Longrightarrow> plan_at (range_core plan ids topic ps) m t = plan_at plan m t"
proof -
  have eq: "range_core plan ids topic ps = fold (\<lambda>i plan. AddToPlan plan (ids ! i) topic (range_slice ps (length ids) i))
      [0..<length ids] plan"
    using assms(1) by (simp add: range_core_def sorted_sort_id)
  show "plan_at (range_core plan ids topic ps) (ids ! i) topic =
      plan_at plan (ids ! i) topic @ range_slice ps (length ids) i" if "i < length ids"
    using that assms(2) by (simp add: eq plan_at_fold_AddToPlan concat_single)
  show "plan_at (range_core plan ids topic ps) m t = plan_at plan m t" if "m \<notin> set ids \<or> t \<noteq> topic"
  proof -
    have "concat (map (\<lambda>i. if ids ! i = m then range_slice ps (length ids) i else []) [0..<length ids]) = []"
      if "m \<notin> set ids" using that by (auto simp: concat_eq_Nil_conv)
    with that show ?thesis unfolding eq plan_at_fold_AddToPlan by auto
  qed
qed

text \<open>The members that ask for a topic.\<close>

definition subscribers :: "members \<Rightarrow> bytes \<Rightarrow> bytes set" where
  "subscribers ms t = {m. \<exists>ts. (m, ts) \<in> set ms \<and> t \<in> set ts}"

lemma fold_push_topics:
  "set (entry_of t (fold (\<lambda>topic. smap_push topic [m]) ts acc)) = set (entry_of t acc) \<union> (if t \<in> set ts then {m} else {})"
  "smap acc \<Longrightarrow> smap (fold (\<lambda>topic. smap_push topic [m]) ts acc)"
  by (induction ts arbitrary: acc) (auto simp: smap_smap_push)

lemma members_by_topic:
  "set (entry_of t (members_by_topic ms)) = subscribers ms t"
  "smap (members_by_topic ms)"
proof -
  have "set (entry_of t (fold (\<lambda>(m, ts). fold (\<lambda>topic. smap_push topic [m]) ts) ms acc)) =
      set (entry_of t acc) \<union> subscribers ms t" for acc
    by (induction ms arbitrary: acc) (auto simp: fold_push_topics subscribers_def split: if_splits)
  moreover have "smap acc \<Longrightarrow> smap (fold (\<lambda>(m, ts). fold (\<lambda>topic. smap_push topic [m]) ts) ms acc)" for acc
    by (induction ms arbitrary: acc) (auto simp: fold_push_topics)
  ultimately show "set (entry_of t (members_by_topic ms)) = subscribers ms t"
    "smap (members_by_topic ms)"
    by (simp_all add: members_by_topic_def)
qed

lemma subscribers_finite: "finite (subscribers ms t)"
  by (metis List.finite_set members_by_topic(1))

text \<open>The topics are planned one after the other, and each round touches only its own topic.\<close>

definition plan_topic :: "topics \<Rightarrow> bytes \<times> bytes list \<Rightarrow> BalanceStrategyPlan \<Rightarrow> BalanceStrategyPlan" where
  "plan_topic topics e plan = (case map_of topics (fst e) of
     None \<Rightarrow> plan | Some ps \<Rightarrow> range_core plan (uniq (snd e)) (fst e) ps)"

lemma range_Plan_alt: "range_Plan ms topics = (0, fold (plan_topic topics) (members_by_topic ms) [])"
  by (simp add: range_Plan_def balanceStrategy_Plan_def plan_topic_def [abs_def] case_prod_beta')

lemma plan_topic_other: "fst e \<noteq> t \<Longrightarrow> plan_at (plan_topic topics e plan) m t = plan_at plan m t"
  by (auto simp: plan_topic_def plan_at_range_core uniq_sorted split: option.split)

lemma plan_topics_other: "t \<notin> fst ` set es \<Longrightarrow> plan_at (fold (plan_topic topics) es plan) m t = plan_at plan m t"
  by (induction es arbitrary: plan) (auto simp: plan_topic_other)

lemma range_Plan_topic:
  "plan_at (snd (range_Plan ms topics)) m t =
   plan_at (plan_topic topics (t, entry_of t (members_by_topic ms)) []) m t"
proof (cases "t \<in> fst ` set (members_by_topic ms)")
  case True
  let ?mbt = "members_by_topic ms"
  have d: "distinct (map fst ?mbt)" using members_by_topic(2) by (rule smap_distinct)
  obtain ids where t: "(t, ids) \<in> set ?mbt" using True by auto
  then have e: "entry_of t ?mbt = ids" using d by (simp add: entry_of_def)
  from t obtain xs ys where mbt: "?mbt = xs @ (t, ids) # ys" by (auto simp: in_set_conv_decomp)
  with d have no: "t \<notin> fst ` set xs" "t \<notin> fst ` set ys" by auto
  have "plan_at (fold (plan_topic topics) ?mbt []) m t = plan_at (plan_topic topics (t, ids) (fold (plan_topic topics) xs [])) m t"
    using no by (simp add: mbt plan_topics_other)
  also have "\<dots> = plan_at (plan_topic topics (t, ids) []) m t"
  proof (cases "map_of topics t")
    case (Some ps)
    have "plan_at (fold (plan_topic topics) xs []) m t = []" for m using no by (simp add: plan_topics_other)
    then show ?thesis
    proof (cases "m \<in> set (uniq ids)")
      case True
      then obtain i where "i < length (uniq ids)" "m = uniq ids ! i" by (auto simp: in_set_conv_nth)
      with \<open>\<And>m. plan_at (fold (plan_topic topics) xs []) m t = []\<close> show ?thesis
        using plan_at_range_core(1) [of "uniq ids" i _ t ps] by (simp add: plan_topic_def Some uniq_sorted)
    next
      case False
      with \<open>\<And>m. plan_at (fold (plan_topic topics) xs []) m t = []\<close> show ?thesis
        using plan_at_range_core(2) [of "uniq ids" m t t _ ps] by (simp add: plan_topic_def Some uniq_sorted)
    qed
  qed (simp add: plan_topic_def plan_topics_other no)
  finally show ?thesis by (simp add: range_Plan_alt e)
next
  case False
  then have "entry_of t (members_by_topic ms) = []"
    by (auto simp: entry_of_def map_of_eq_None_iff image_iff split: option.split dest!: map_of_SomeD)
  with False show ?thesis
    by (simp add: range_Plan_alt plan_topics_other plan_topic_def uniq_def range_core_def split: option.split)
qed

text \<open>
  Every member that asks for a topic gets a contiguous slice of its partitions, in the order of the
  member ids; the slices cover the partitions exactly and their lengths differ by at most one.
\<close>

lemma range_Plan_slices:
  assumes "map_of topics t = Some ps" "subscribers ms t \<noteq> {}"
  defines "ids \<equiv> sorted_list_of_set (subscribers ms t)"
  shows "map (\<lambda>m. plan_at (snd (range_Plan ms topics)) m t) ids = map (range_slice ps (length ids)) [0..<length ids]"
    "0 < length ids"
    "m \<notin> subscribers ms t \<Longrightarrow> plan_at (snd (range_Plan ms topics)) m t = []"
proof -
  have u: "uniq (entry_of t (members_by_topic ms)) = ids" by (simp add: uniq_sorted members_by_topic ids_def)
  have set: "set ids = subscribers ms t" by (simp add: ids_def subscribers_finite)
  have props: "sorted ids" "distinct ids" by (simp_all add: ids_def)
  show "map (\<lambda>m. plan_at (snd (range_Plan ms topics)) m t) ids = map (range_slice ps (length ids)) [0..<length ids]"
    using plan_at_range_core(1) [OF props, of _ "[]" t ps]
    by (intro nth_equalityI) (simp_all add: range_Plan_topic plan_topic_def assms(1) u)
  show "0 < length ids" using assms(2) set by auto
  show "plan_at (snd (range_Plan ms topics)) m t = []" if "m \<notin> subscribers ms t"
    using plan_at_range_core(2) [OF props, of m t t "[]" ps] that set
    by (simp add: range_Plan_topic plan_topic_def assms(1) u)
qed

section \<open>Lemmas on the round robin strategy\<close>

text \<open>Every entry of the vector is one of the members, whatever the search overwrites.\<close>

lemma rr_search_members:
  "j < length ms \<Longrightarrow> set (fst (rr_search t j k ms i)) \<subseteq> set ms \<and> length (fst (rr_search t j k ms i)) = length ms"
proof (induction k arbitrary: ms i)
  case (Suc k)
  let ?ms = "ms[j := ms ! (Suc i mod length ms)]"
  have "ms ! (Suc i mod length ms) \<in> set ms" using Suc.prems by (intro nth_mem mod_less_divisor) auto
  then have "set ?ms \<subseteq> set ms" using set_update_subset_insert [of ms j "ms ! (Suc i mod length ms)"] by auto
  moreover have "set (fst (rr_search t j k ?ms (Suc i))) \<subseteq> set ?ms \<and>
      length (fst (rr_search t j k ?ms (Suc i))) = length ms"
    using Suc.IH [of ?ms "Suc i"] Suc.prems by simp
  ultimately show ?case by auto
qed simp

text \<open>The partitions of the plan: each assigned partition is one of \<open>tps\<close>, and its member asked for its topic.\<close>

lemma rr_assign_sound:
  assumes "p \<in> set (plan_at (rr_assign tps ms i plan) m t)" "p \<notin> set (plan_at plan m t)" "ms \<noteq> []" "set ms \<subseteq> M"
  shows "(t, p) \<in> set tps \<and> (\<exists>ts. (m, ts) \<in> M \<and> t \<in> set ts)"
  using assms
proof (induction tps arbitrary: ms i plan)
  case (Cons tp tps)
  let ?j = "i mod length ms"
  obtain ms' i' where s: "rr_search (fst tp) ?j (length ms) ms i = (ms', i')" by (rule prod.exhaust)
  have j: "?j < length ms" using Cons.prems(3) by simp
  then have ms': "set ms' \<subseteq> M" "ms' \<noteq> []" "?j < length ms'"
    using rr_search_members [OF j, of "fst tp" "length ms" i] Cons.prems(3,4) s by auto
  let ?plan = "if fst tp \<in> set (snd (ms' ! ?j)) then AddToPlan plan (fst (ms' ! ?j)) (fst tp) [snd tp] else plan"
  have in': "p \<in> set (plan_at (rr_assign tps ms' (Suc i') ?plan) m t)" using Cons.prems(1) by (simp add: s Let_def)
  show ?case
  proof (cases "p \<in> set (plan_at ?plan m t)")
    case True
    then have "tp = (t, p)" "m = fst (ms' ! ?j)" "fst tp \<in> set (snd (ms' ! ?j))"
      using Cons.prems(2) by (auto split: if_splits simp: prod_eq_iff)
    moreover have "ms' ! ?j \<in> M" using ms' by (meson nth_mem subsetD)
    ultimately show ?thesis by (metis fst_conv list.set_intros(1) prod.collapse)
  next
    case False
    then show ?thesis using Cons.IH [OF in' False ms'(2,1)] by auto
  qed
qed simp

text \<open>No partition is handed out twice.\<close>

lemma sum_single: "finite A \<Longrightarrow> (\<Sum>m \<in> A. if m = x then c else (0::nat)) \<le> c"
  by (simp add: sum.delta)

lemma rr_assign_count:
  assumes "finite A" "ms \<noteq> []"
  shows "(\<Sum>m \<in> A. count_list (plan_at (rr_assign tps ms i plan) m t) p) \<le>
    (\<Sum>m \<in> A. count_list (plan_at plan m t) p) + count_list tps (t, p)"
  using assms(2)
proof (induction tps arbitrary: ms i plan)
  case (Cons tp tps)
  let ?j = "i mod length ms"
  obtain ms' i' where s: "rr_search (fst tp) ?j (length ms) ms i = (ms', i')" by (rule prod.exhaust)
  have "ms' \<noteq> []" using rr_search_members [of ?j ms "fst tp" "length ms" i] Cons.prems s by auto
  let ?m = "fst (ms' ! ?j)"
  let ?plan = "if fst tp \<in> set (snd (ms' ! ?j)) then AddToPlan plan ?m (fst tp) [snd tp] else plan"
  have "(\<Sum>m \<in> A. count_list (plan_at ?plan m t) p) \<le>
      (\<Sum>m \<in> A. count_list (plan_at plan m t) p) + (if tp = (t, p) then 1 else 0)"
  proof -
    have "count_list (plan_at ?plan m t) p \<le>
        count_list (plan_at plan m t) p + (if m = ?m then (if tp = (t, p) then 1 else 0) else 0)" for m
      by (cases tp) auto
    then have "(\<Sum>m \<in> A. count_list (plan_at ?plan m t) p) \<le>
        (\<Sum>m \<in> A. count_list (plan_at plan m t) p + (if m = ?m then (if tp = (t, p) then 1 else 0) else 0))"
      by (rule sum_mono)
    then show ?thesis using sum_single [OF assms(1), of ?m "if tp = (t, p) then 1 else 0"]
      by (simp add: sum.distrib)
  qed
  moreover have "(\<Sum>m \<in> A. count_list (plan_at (rr_assign tps ms' (Suc i') ?plan) m t) p) \<le>
      (\<Sum>m \<in> A. count_list (plan_at ?plan m t) p) + count_list tps (t, p)"
    using Cons.IH \<open>ms' \<noteq> []\<close> by blast
  ultimately show ?case by (auto simp: s Let_def)
qed simp

text \<open>When every member asks for every topic, the partitions go round in order.\<close>

lemma rr_search_hit: "t \<in> set (snd (ms ! j)) \<Longrightarrow> rr_search t j k ms i = (ms, i)"
  by (cases k) auto

lemma rr_assign_uniform:
  assumes "\<forall>e \<in> set ms. \<forall>tp \<in> set tps. fst tp \<in> set (snd e)" "ms \<noteq> []"
  shows "plan_at (rr_assign tps ms i plan) m t = plan_at plan m t @
    concat (map (\<lambda>k. if fst (ms ! ((i + k) mod length ms)) = m \<and> fst (tps ! k) = t then [snd (tps ! k)] else [])
      [0..<length tps])"
  using assms
proof (induction tps arbitrary: i plan)
  case (Cons tp tps)
  let ?m = "ms ! (i mod length ms)"
  have "?m \<in> set ms" using Cons.prems(2) by simp
  with Cons.prems(1) have hit: "fst tp \<in> set (snd ?m)" by simp
  have "plan_at (rr_assign (tp # tps) ms i plan) m t =
      plan_at (rr_assign tps ms (Suc i) (AddToPlan plan (fst ?m) (fst tp) [snd tp])) m t"
    by (simp add: rr_search_hit [OF hit] hit Let_def)
  also have "\<dots> = plan_at (AddToPlan plan (fst ?m) (fst tp) [snd tp]) m t @
      concat (map (\<lambda>k. if fst (ms ! ((Suc i + k) mod length ms)) = m \<and> fst (tps ! k) = t then [snd (tps ! k)] else [])
        [0..<length tps])"
    using Cons.prems by (intro Cons.IH) auto
  also have "\<dots> = plan_at plan m t @
      concat (map (\<lambda>k. if fst (ms ! ((i + k) mod length ms)) = m \<and> fst ((tp # tps) ! k) = t
        then [snd ((tp # tps) ! k)] else []) [0..<length (tp # tps)])"
    by (simp add: upt_conv_Cons map_Suc_upt [symmetric] comp_def del: upt_Suc cong: if_cong)
  finally show ?case .
qed simp

definition plan_size :: "BalanceStrategyPlan \<Rightarrow> bytes \<Rightarrow> nat" where
  "plan_size p m = sum_list (map (\<lambda>(_, ps). length ps) (entry_of m p))"

lemma entry_of_notin: "k \<notin> fst ` set m \<Longrightarrow> entry_of k m = []"
  by (simp add: entry_of_def flip: map_of_eq_None_iff)

lemma sum_smap_push:
  "sum_list (map (\<lambda>(_, ps). length ps) (smap_push t [x] m)) = Suc (sum_list (map (\<lambda>(_, ps). length ps) m))"
  if "smap m"
proof -
  have "sum_list (map (\<lambda>(_, ps). length ps) (smap_put t vs m)) + length (entry_of t m) =
      sum_list (map (\<lambda>(_, ps). length ps) m) + length vs" for vs
    using that unfolding smap_def
  proof (induction t vs m rule: smap_put.induct)
    case (2 k v k' v' m)
    show ?case
    proof (cases "k < k'")
      case True
      then have "k \<notin> fst ` set ((k', v') # m)" using 2(2) by auto
      then have "entry_of k ((k', v') # m) = []"
        by (rule entry_of_notin)
      with True show ?thesis by simp
    next
      case False
      then show ?thesis using 2 by (auto simp: entry_of_def)
    qed
  qed simp
  from this [of "entry_of t m @ [x]"] show ?thesis by (simp add: smap_push_def)
qed

definition plan_ok :: "BalanceStrategyPlan \<Rightarrow> bool" where
  "plan_ok p \<longleftrightarrow> (\<forall>m. smap (entry_of m p))"

lemma plan_ok_AddToPlan: "plan_ok p \<Longrightarrow> plan_ok (AddToPlan p m t ps)"
  by (auto simp: plan_ok_def AddToPlan_def entry_of_smap_put smap_smap_push)

lemma plan_size_AddToPlan:
  "plan_ok p \<Longrightarrow> plan_size (AddToPlan p m t [x]) m' = plan_size p m' + (if m' = m then 1 else 0)"
  by (simp add: plan_ok_def AddToPlan_def plan_size_def entry_of_smap_put sum_smap_push)

lemma card_residues: "0 < n \<Longrightarrow> j < n \<Longrightarrow> card {k. k < len \<and> k mod n = j} = len div n + (if j < len mod n then 1 else 0)"
proof (induction len)
  case (Suc len)
  have "{k. k < Suc len \<and> k mod n = j} = {k. k < len \<and> k mod n = j} \<union> (if len mod n = j then {len} else {})"
    by (auto simp: less_Suc_eq)
  moreover have "finite {k. k < len \<and> k mod n = j}" by simp
  ultimately have "card {k. k < Suc len \<and> k mod n = j} = card {k. k < len \<and> k mod n = j} + (if len mod n = j then 1 else 0)"
    by auto
  with Suc show ?case by (auto simp: div_Suc mod_Suc)
qed simp

lemma rr_assign_uniform_size:
  assumes "\<forall>e \<in> set ms. \<forall>tp \<in> set tps. fst tp \<in> set (snd e)" "ms \<noteq> []" "distinct (map fst ms)" "j < length ms"
    "plan_ok plan"
  shows "plan_size (rr_assign tps ms i plan) (fst (ms ! j)) =
    plan_size plan (fst (ms ! j)) + length (filter (\<lambda>k. (i + k) mod length ms = j) [0..<length tps])"
  using assms
proof (induction tps arbitrary: i plan)
  case (Cons tp tps)
  let ?m = "ms ! (i mod length ms)"
  have "?m \<in> set ms" using Cons.prems(2) by simp
  with Cons.prems(1) have hit: "fst tp \<in> set (snd ?m)" by simp
  have eq: "fst (ms ! j) = fst ?m \<longleftrightarrow> i mod length ms = j"
    using Cons.prems(2-4) nth_eq_iff_index_eq [of "map fst ms" j "i mod length ms"] by auto
  have "plan_size (rr_assign tps ms (Suc i) (AddToPlan plan (fst ?m) (fst tp) [snd tp])) (fst (ms ! j)) =
      plan_size (AddToPlan plan (fst ?m) (fst tp) [snd tp]) (fst (ms ! j)) +
      length (filter (\<lambda>k. (Suc i + k) mod length ms = j) [0..<length tps])"
    using Cons.prems by (intro Cons.IH) (auto simp: plan_ok_AddToPlan)
  then show ?case
    using Cons.prems(5)
    by (simp add: rr_search_hit [OF hit] hit Let_def plan_size_AddToPlan eq upt_conv_Cons map_Suc_upt [symmetric]
        filter_map comp_def del: upt_Suc)
qed simp

lemma set_topic_partitions:
  "set (topic_partitions topics) = {(t, p). \<exists>ps. (t, ps) \<in> set topics \<and> p \<in> set ps}"
  by (auto simp: topic_partitions_def)

lemma length_topic_partitions: "length (topic_partitions topics) = sum_list (map (\<lambda>(_, ps). length ps) topics)"
  by (simp add: topic_partitions_def length_concat comp_def case_prod_beta')

lemma RoundRobin_sound:
  assumes "p \<in> set (plan_at (snd (RoundRobinBalancer_Plan ms topics [])) m t)"
  shows "(\<exists>ps. (t, ps) \<in> set topics \<and> p \<in> set ps) \<and> m \<in> subscribers ms t"
proof -
  have "ms \<noteq> []" "topics \<noteq> []" using assms by (auto simp: RoundRobinBalancer_Plan_def split: if_splits)
  moreover have "sort_key fst ms \<noteq> []" using \<open>ms \<noteq> []\<close> by (metis length_0_conv length_sort)
  ultimately show ?thesis
    using assms rr_assign_sound [of p "topic_partitions topics" "sort_key fst ms" 0 "[]" m t "set ms"]
    by (auto simp: RoundRobinBalancer_Plan_def set_topic_partitions subscribers_def)
qed

lemma RoundRobin_once:
  assumes "finite A"
  shows "(\<Sum>m \<in> A. count_list (plan_at (snd (RoundRobinBalancer_Plan ms topics [])) m t) p) \<le>
    count_list (topic_partitions topics) (t, p)"
proof (cases "ms = [] \<or> topics = []")
  case False
  then have "sort_key fst ms \<noteq> []" by (metis length_0_conv length_sort)
  then show ?thesis
    using False rr_assign_count [OF assms, of "sort_key fst ms" "topic_partitions topics" 0 "[]" t p]
    by (simp add: RoundRobinBalancer_Plan_def)
qed (auto simp: RoundRobinBalancer_Plan_def)

lemma RoundRobin_uniform:
  assumes "ms \<noteq> []" "topics \<noteq> []" "smap ms" "\<forall>e \<in> set ms. fst ` set topics \<subseteq> set (snd e)"
  shows "j < length ms \<Longrightarrow> plan_at (snd (RoundRobinBalancer_Plan ms topics [])) (fst (ms ! j)) t =
      [snd (topic_partitions topics ! k). k \<leftarrow> [0..<length (topic_partitions topics)],
          k mod length ms = j \<and> fst (topic_partitions topics ! k) = t]"
    and "j < length ms \<Longrightarrow> plan_size (snd (RoundRobinBalancer_Plan ms topics [])) (fst (ms ! j)) =
      length (topic_partitions topics) div length ms + (if j < length (topic_partitions topics) mod length ms then 1 else 0)"
proof -
  let ?tps = "topic_partitions topics"
  have d: "distinct (map fst ms)" using assms(3) by (rule smap_distinct)
  have "sorted (map fst ms)" using assms(3) unfolding smap_def by (rule strict_sorted_imp_sorted)
  then have s: "sort_key fst ms = ms" by (rule sort_key_id_if_sorted)
  have all: "\<forall>e \<in> set ms. \<forall>tp \<in> set ?tps. fst tp \<in> set (snd e)"
    using assms(4) by (force simp: set_topic_partitions)
  have plan: "snd (RoundRobinBalancer_Plan ms topics []) = rr_assign ?tps ms 0 []"
    using assms(1,2) by (simp add: RoundRobinBalancer_Plan_def s)
  show "plan_at (snd (RoundRobinBalancer_Plan ms topics [])) (fst (ms ! j)) t =
      [snd (?tps ! k). k \<leftarrow> [0..<length ?tps], k mod length ms = j \<and> fst (?tps ! k) = t]" if "j < length ms"
  proof -
    have "fst (ms ! (k mod length ms)) = fst (ms ! j) \<longleftrightarrow> k mod length ms = j" for k
      using d that nth_eq_iff_index_eq [of "map fst ms" "k mod length ms" j] by (auto simp: assms(1))
    then show ?thesis
      unfolding plan rr_assign_uniform [OF all assms(1)]
      by simp
  qed
  show "plan_size (snd (RoundRobinBalancer_Plan ms topics [])) (fst (ms ! j)) =
      length ?tps div length ms + (if j < length ?tps mod length ms then 1 else 0)" if "j < length ms"
  proof -
    have "plan_ok []" by (simp add: plan_ok_def)
    moreover have "length (filter (\<lambda>k. k mod length ms = j) [0..<length ?tps]) = card {k. k < length ?tps \<and> k mod length ms = j}"
      by (simp add: length_filter_conv_card) (rule arg_cong [where f = card], auto)
    ultimately show ?thesis
      using rr_assign_uniform_size [OF all assms(1) d that, of "[]" 0] card_residues [of "length ms" j "length ?tps"] that
      by (simp add: plan plan_size_def assms(1))
  qed
qed

end
