(* ===== verification/Acl_Types.thy ===== *)
theory Acl_Types
  imports Prelude
begin

text \<open>
  The enumerations of access control lists and their texts: \<^verbatim>\<open>acl_types.h\<close> and
      \<^verbatim>\<open>acl_types.cpp\<close>.  An
  enumeration is a C++ \<open>int\<close>, so that values without a name exist; a function with an output
      parameter
  returns it, \<open>error\<close> with the value it had before.  \<^verbatim>\<open>std::tolower\<close> is
      that of the C locale.
\<close>

definition tolower :: "char \<Rightarrow> char" where
  "tolower c = (if 65 \<le> (of_char c :: nat) \<and> (of_char c :: nat) \<le> 90 then char_of (of_char c + 32
      :: nat) else c)"

definition toLower :: "string \<Rightarrow> string" where
  "toLower s = map tolower s"

text \<open>\<open>switch (v) { case k: return name; ... default: return "Unknown"; }\<close>\<close>

fun name_of :: "(int32 \<times> string) list \<Rightarrow> int32 \<Rightarrow> string" where
  "name_of [] v = ''Unknown''"
| "name_of ((k, s) # cases) v = (if v = k then s else name_of cases v)"

text \<open>The common body of the four overloads of \<^verbatim>\<open>unmarshalText\<close>.\<close>

definition unmarshal_by :: "(string \<times> int32) list \<Rightarrow> int32 \<Rightarrow> string \<Rightarrow>
    string \<Rightarrow> string \<Rightarrow> bool \<times> int32 \<times> string" where
  "unmarshal_by mapping unknown prefix text error =
     (let normalized = toLower text
      in case map_of mapping normalized of
           Some v \<Rightarrow> (True, v, error)
         | None \<Rightarrow> (False, unknown, prefix @ normalized))"

lemma tolower_idem [simp]: "tolower (tolower c) = tolower c"
  by (auto simp: tolower_def)

lemma toLower_idem [simp]: "toLower (toLower s) = toLower s"
  by (simp add: toLower_def)

text \<open>Only the letters count, not their case.\<close>

lemma unmarshal_by_toLower: "unmarshal_by mapping u p (toLower text) error = unmarshal_by mapping u p text
    error"
  by (simp add: unmarshal_by_def)

text \<open>A mapping that inverts the table of names up to case reads back what was printed.\<close>

lemma name_of_in:
  "v \<in> fst ` set cases \<Longrightarrow> list_all (\<lambda>(k, s). map_of mapping (toLower s) = Some k)
      cases \<Longrightarrow>
   map_of mapping (toLower (name_of cases v)) = Some v"
  by (induction cases) (auto, metis fst_conv image_eqI)

lemma known_value:
  assumes "map fst cases = map of_nat [0..<n]" "0 \<le> sint v" "sint v < int n"
  shows "v \<in> fst ` set cases"
proof -
  have "v = of_nat (nat (sint v))" using assms(2) by simp
  moreover have "nat (sint v) \<in> set [0..<n]" using assms by auto
  ultimately have "v \<in> set (map of_nat [0..<n])" by (metis image_eqI set_map)
  then show ?thesis by (simp flip: assms(1))
qed

lemma unmarshal_by_name:
  assumes "map fst cases = map of_nat [0..<n]" "0 \<le> sint v" "sint v < int n"
    and "list_all (\<lambda>(k, s). map_of mapping (toLower s) = Some k) cases"
  shows "unmarshal_by mapping u p (name_of cases v) error = (True, v, error)"
  using name_of_in [OF known_value assms(4)] assms by (simp add: unmarshal_by_def)

lemma unmarshal_by_unknown:
  assumes "toLower text \<notin> fst ` set mapping"
  shows "unmarshal_by mapping u p text error = (False, u, p @ toLower text)"
proof -
  have "map_of mapping (toLower text) = None" using assms by (simp add: map_of_eq_None_iff)
  then show ?thesis by (simp add: unmarshal_by_def)
qed

section \<open>AclOperation\<close>

definition AclOperationUnknown :: int32 where "AclOperationUnknown = 0"
definition AclOperationAny :: int32 where "AclOperationAny = 1"
definition AclOperationAll :: int32 where "AclOperationAll = 2"
definition AclOperationRead :: int32 where "AclOperationRead = 3"
definition AclOperationWrite :: int32 where "AclOperationWrite = 4"
definition AclOperationCreate :: int32 where "AclOperationCreate = 5"
definition AclOperationDelete :: int32 where "AclOperationDelete = 6"
definition AclOperationAlter :: int32 where "AclOperationAlter = 7"
definition AclOperationDescribe :: int32 where "AclOperationDescribe = 8"
definition AclOperationClusterAction :: int32 where "AclOperationClusterAction = 9"
definition AclOperationDescribeConfigs :: int32 where "AclOperationDescribeConfigs = 10"
definition AclOperationAlterConfigs :: int32 where "AclOperationAlterConfigs = 11"
definition AclOperationIdempotentWrite :: int32 where "AclOperationIdempotentWrite = 12"

lemmas AclOperation_defs = AclOperationUnknown_def AclOperationAny_def AclOperationAll_def AclOperationRead_def
    AclOperationWrite_def AclOperationCreate_def AclOperationDelete_def AclOperationAlter_def
    AclOperationDescribe_def AclOperationClusterAction_def AclOperationDescribeConfigs_def
    AclOperationAlterConfigs_def AclOperationIdempotentWrite_def

definition AclOperation_names :: "(int32 \<times> string) list" where
  "AclOperation_names =
    [(AclOperationUnknown, ''Unknown''),
     (AclOperationAny, ''Any''),
     (AclOperationAll, ''All''),
     (AclOperationRead, ''Read''),
     (AclOperationWrite, ''Write''),
     (AclOperationCreate, ''Create''),
     (AclOperationDelete, ''Delete''),
     (AclOperationAlter, ''Alter''),
     (AclOperationDescribe, ''Describe''),
     (AclOperationClusterAction, ''ClusterAction''),
     (AclOperationDescribeConfigs, ''DescribeConfigs''),
     (AclOperationAlterConfigs, ''AlterConfigs''),
     (AclOperationIdempotentWrite, ''IdempotentWrite'')]"

definition AclOperation_mapping :: "(string \<times> int32) list" where
  "AclOperation_mapping =
    [(''unknown'', AclOperationUnknown),
     (''any'', AclOperationAny),
     (''all'', AclOperationAll),
     (''read'', AclOperationRead),
     (''write'', AclOperationWrite),
     (''create'', AclOperationCreate),
     (''delete'', AclOperationDelete),
     (''alter'', AclOperationAlter),
     (''describe'', AclOperationDescribe),
     (''clusteraction'', AclOperationClusterAction),
     (''describeconfigs'', AclOperationDescribeConfigs),
     (''alterconfigs'', AclOperationAlterConfigs),
     (''idempotentwrite'', AclOperationIdempotentWrite)]"

definition toString_AclOperation :: "int32 \<Rightarrow> string" where
  "toString_AclOperation v = name_of AclOperation_names v"

definition marshalText_AclOperation :: "int32 \<Rightarrow> string" where
  "marshalText_AclOperation v = toString_AclOperation v"

definition unmarshalText_AclOperation :: "string \<Rightarrow> string \<Rightarrow> bool \<times> int32
    \<times> string" where
  "unmarshalText_AclOperation text error =
     unmarshal_by AclOperation_mapping AclOperationUnknown ''no acl operation with name '' text error"

lemma AclOperation_roundtrip:
  assumes "0 \<le> sint v" "sint v \<le> 12"
  shows "unmarshalText_AclOperation (marshalText_AclOperation v) error = (True, v, error)"
  unfolding unmarshalText_AclOperation_def marshalText_AclOperation_def toString_AclOperation_def
proof (rule unmarshal_by_name [where n = 13])
  show "map fst AclOperation_names = map of_nat [0..<13]" by code_simp
  show "list_all (\<lambda>(k, s). map_of AclOperation_mapping (toLower s) = Some k) AclOperation_names" by
      code_simp
qed (use assms in simp_all)

section \<open>AclPermissionType\<close>

definition AclPermissionTypeUnknown :: int32 where "AclPermissionTypeUnknown = 0"
definition AclPermissionTypeAny :: int32 where "AclPermissionTypeAny = 1"
definition AclPermissionTypeDeny :: int32 where "AclPermissionTypeDeny = 2"
definition AclPermissionTypeAllow :: int32 where "AclPermissionTypeAllow = 3"

lemmas AclPermissionType_defs = AclPermissionTypeUnknown_def AclPermissionTypeAny_def AclPermissionTypeDeny_def
    AclPermissionTypeAllow_def

definition AclPermissionType_names :: "(int32 \<times> string) list" where
  "AclPermissionType_names =
    [(AclPermissionTypeUnknown, ''Unknown''),
     (AclPermissionTypeAny, ''Any''),
     (AclPermissionTypeDeny, ''Deny''),
     (AclPermissionTypeAllow, ''Allow'')]"

definition AclPermissionType_mapping :: "(string \<times> int32) list" where
  "AclPermissionType_mapping =
    [(''unknown'', AclPermissionTypeUnknown),
     (''any'', AclPermissionTypeAny),
     (''deny'', AclPermissionTypeDeny),
     (''allow'', AclPermissionTypeAllow)]"

definition toString_AclPermissionType :: "int32 \<Rightarrow> string" where
  "toString_AclPermissionType v = name_of AclPermissionType_names v"

definition marshalText_AclPermissionType :: "int32 \<Rightarrow> string" where
  "marshalText_AclPermissionType v = toString_AclPermissionType v"

definition unmarshalText_AclPermissionType :: "string \<Rightarrow> string \<Rightarrow> bool \<times> int32
    \<times> string" where
  "unmarshalText_AclPermissionType text error =
     unmarshal_by AclPermissionType_mapping AclPermissionTypeUnknown ''no acl permission with name '' text
         error"

lemma AclPermissionType_roundtrip:
  assumes "0 \<le> sint v" "sint v \<le> 3"
  shows "unmarshalText_AclPermissionType (marshalText_AclPermissionType v) error = (True, v, error)"
  unfolding unmarshalText_AclPermissionType_def marshalText_AclPermissionType_def toString_AclPermissionType_def
proof (rule unmarshal_by_name [where n = 4])
  show "map fst AclPermissionType_names = map of_nat [0..<4]" by code_simp
  show "list_all (\<lambda>(k, s). map_of AclPermissionType_mapping (toLower s) = Some k)
      AclPermissionType_names" by code_simp
qed (use assms in simp_all)

section \<open>AclResourceType\<close>

definition AclResourceTypeUnknown :: int32 where "AclResourceTypeUnknown = 0"
definition AclResourceTypeAny :: int32 where "AclResourceTypeAny = 1"
definition AclResourceTypeTopic :: int32 where "AclResourceTypeTopic = 2"
definition AclResourceTypeGroup :: int32 where "AclResourceTypeGroup = 3"
definition AclResourceTypeCluster :: int32 where "AclResourceTypeCluster = 4"
definition AclResourceTypeTransactionalID :: int32 where "AclResourceTypeTransactionalID = 5"
definition AclResourceTypeDelegationToken :: int32 where "AclResourceTypeDelegationToken = 6"

lemmas AclResourceType_defs = AclResourceTypeUnknown_def AclResourceTypeAny_def AclResourceTypeTopic_def
    AclResourceTypeGroup_def AclResourceTypeCluster_def AclResourceTypeTransactionalID_def
    AclResourceTypeDelegationToken_def

definition AclResourceType_names :: "(int32 \<times> string) list" where
  "AclResourceType_names =
    [(AclResourceTypeUnknown, ''Unknown''),
     (AclResourceTypeAny, ''Any''),
     (AclResourceTypeTopic, ''Topic''),
     (AclResourceTypeGroup, ''Group''),
     (AclResourceTypeCluster, ''Cluster''),
     (AclResourceTypeTransactionalID, ''TransactionalID''),
     (AclResourceTypeDelegationToken, ''DelegationToken'')]"

definition AclResourceType_mapping :: "(string \<times> int32) list" where
  "AclResourceType_mapping =
    [(''unknown'', AclResourceTypeUnknown),
     (''any'', AclResourceTypeAny),
     (''topic'', AclResourceTypeTopic),
     (''group'', AclResourceTypeGroup),
     (''cluster'', AclResourceTypeCluster),
     (''transactionalid'', AclResourceTypeTransactionalID),
     (''delegationtoken'', AclResourceTypeDelegationToken)]"

definition toString_AclResourceType :: "int32 \<Rightarrow> string" where
  "toString_AclResourceType v = name_of AclResourceType_names v"

definition marshalText_AclResourceType :: "int32 \<Rightarrow> string" where
  "marshalText_AclResourceType v = toString_AclResourceType v"

definition unmarshalText_AclResourceType :: "string \<Rightarrow> string \<Rightarrow> bool \<times> int32
    \<times> string" where
  "unmarshalText_AclResourceType text error =
     unmarshal_by AclResourceType_mapping AclResourceTypeUnknown ''no acl resource with name '' text error"

lemma AclResourceType_roundtrip:
  assumes "0 \<le> sint v" "sint v \<le> 6"
  shows "unmarshalText_AclResourceType (marshalText_AclResourceType v) error = (True, v, error)"
  unfolding unmarshalText_AclResourceType_def marshalText_AclResourceType_def toString_AclResourceType_def
proof (rule unmarshal_by_name [where n = 7])
  show "map fst AclResourceType_names = map of_nat [0..<7]" by code_simp
  show "list_all (\<lambda>(k, s). map_of AclResourceType_mapping (toLower s) = Some k) AclResourceType_names"
      by code_simp
qed (use assms in simp_all)

section \<open>AclResourcePatternType\<close>

definition AclResourcePatternTypeUnknown :: int32 where "AclResourcePatternTypeUnknown = 0"
definition AclResourcePatternTypeAny :: int32 where "AclResourcePatternTypeAny = 1"
definition AclResourcePatternTypeMatch :: int32 where "AclResourcePatternTypeMatch = 2"
definition AclResourcePatternTypeLiteral :: int32 where "AclResourcePatternTypeLiteral = 3"
definition AclResourcePatternTypePrefixed :: int32 where "AclResourcePatternTypePrefixed = 4"

lemmas AclResourcePatternType_defs = AclResourcePatternTypeUnknown_def AclResourcePatternTypeAny_def
    AclResourcePatternTypeMatch_def AclResourcePatternTypeLiteral_def AclResourcePatternTypePrefixed_def

definition AclResourcePatternType_names :: "(int32 \<times> string) list" where
  "AclResourcePatternType_names =
    [(AclResourcePatternTypeUnknown, ''Unknown''),
     (AclResourcePatternTypeAny, ''Any''),
     (AclResourcePatternTypeMatch, ''Match''),
     (AclResourcePatternTypeLiteral, ''Literal''),
     (AclResourcePatternTypePrefixed, ''Prefixed'')]"

definition AclResourcePatternType_mapping :: "(string \<times> int32) list" where
  "AclResourcePatternType_mapping =
    [(''unknown'', AclResourcePatternTypeUnknown),
     (''any'', AclResourcePatternTypeAny),
     (''match'', AclResourcePatternTypeMatch),
     (''literal'', AclResourcePatternTypeLiteral),
     (''prefixed'', AclResourcePatternTypePrefixed)]"

definition toString_AclResourcePatternType :: "int32 \<Rightarrow> string" where
  "toString_AclResourcePatternType v = name_of AclResourcePatternType_names v"

definition marshalText_AclResourcePatternType :: "int32 \<Rightarrow> string" where
  "marshalText_AclResourcePatternType v = toString_AclResourcePatternType v"

definition unmarshalText_AclResourcePatternType :: "string \<Rightarrow> string \<Rightarrow> bool \<times>
    int32 \<times> string" where
  "unmarshalText_AclResourcePatternType text error =
     unmarshal_by AclResourcePatternType_mapping AclResourcePatternTypeUnknown ''no acl resource pattern with
         name '' text error"

lemma AclResourcePatternType_roundtrip:
  assumes "0 \<le> sint v" "sint v \<le> 4"
  shows "unmarshalText_AclResourcePatternType (marshalText_AclResourcePatternType v) error = (True, v, error)"
  unfolding unmarshalText_AclResourcePatternType_def marshalText_AclResourcePatternType_def
      toString_AclResourcePatternType_def
proof (rule unmarshal_by_name [where n = 5])
  show "map fst AclResourcePatternType_names = map of_nat [0..<5]" by code_simp
  show "list_all (\<lambda>(k, s). map_of AclResourcePatternType_mapping (toLower s) = Some k)
      AclResourcePatternType_names" by code_simp
qed (use assms in simp_all)

end
