(* ===== verification/Acl_Messages.thy ===== *)
theory Acl_Messages
  imports Protocol Acl_Types
begin

text \<open>
  Access control lists on the wire: \<^verbatim>\<open>acl_bindings.cpp\<close>,
      \<^verbatim>\<open>acl_filter.cpp\<close> and the request and response
  classes DescribeAcls, CreateAcls and DeleteAcls.  The enumerations are \<open>int\<close> in C++ and one byte
      on the
  wire.  \<open>m_version\<close> is not set by \<open>decode\<close> of the responses.
\<close>

section \<open>Bindings\<close>

definition pattern_byte :: "int32 \<Rightarrow> int8" where
  "pattern_byte p = (if p = - 1 then ucast AclResourcePatternTypeUnknown else ucast p)"

lemma pattern_byte_read:
  "scast (ucast p :: int8) = p \<Longrightarrow> scast (pattern_byte p) = (if p = - 1 then
      AclResourcePatternTypeUnknown else p)"
  by (simp add: pattern_byte_def AclResourcePatternTypeUnknown_def)

text \<open>An unknown pattern type is written as \<open>Unknown\<close>; \<^verbatim>\<open>encode\<close>
    also stores that in the (mutable) field, which changes nothing that is written later.\<close>

record Resource =
  rs_resource_type :: int32
  rs_resource_name :: bytes
  rs_resource_pattern_type :: int32

definition Resource_default :: Resource where
  "Resource_default = \<lparr>rs_resource_type = AclResourceTypeUnknown, rs_resource_name = [],
      rs_resource_pattern_type = AclResourcePatternTypeLiteral\<rparr>"

definition Resource_encode :: "int16 \<Rightarrow> Resource \<Rightarrow> unit enc" where
  "Resource_encode version x =
     then_p (putInt8 (ucast (rs_resource_type x)))
    (then_p (err_as (- 1) (putString (rs_resource_name x)))
       (when_p (version = 1) (putInt8 (pattern_byte (rs_resource_pattern_type x)))))"

definition Resource_decode :: "int16 \<Rightarrow> Resource \<Rightarrow> Resource dec" where
  "Resource_decode version this =
     bind_p (err_as (- 1) (bind_p getInt8 (\<lambda>b. ret (scast b)))) (\<lambda>resource_type.
     bind_p (err_as (- 1) getString) (\<lambda>resource_name.
     bind_p (field_if (version = 1) (err_as (- 1) (bind_p getInt8 (\<lambda>b. ret (scast b))))
         (rs_resource_pattern_type this)) (\<lambda>pattern.
       ret \<lparr>rs_resource_type = resource_type, rs_resource_name = resource_name, rs_resource_pattern_type
           = pattern\<rparr>)))"

definition wResource :: "int16 \<Rightarrow> bool \<Rightarrow> Resource \<Rightarrow> bytes" where
  "wResource version fl x =
     be8 (ucast (rs_resource_type x)) @ wString fl (rs_resource_name x) @
     (if version = 1 then be8 (pattern_byte (rs_resource_pattern_type x)) else [])"

definition Resource_ok :: "bool \<Rightarrow> Resource \<Rightarrow> bool" where
  "Resource_ok fl x \<longleftrightarrow>
     scast (ucast (rs_resource_type x) :: int8) = (rs_resource_type x) \<and>
     string_ok fl (rs_resource_name x) \<and>
     scast (ucast (rs_resource_pattern_type x) :: int8) = (rs_resource_pattern_type x)"

definition Resource_seen :: "int16 \<Rightarrow> Resource \<Rightarrow> Resource \<Rightarrow> Resource" where
  "Resource_seen version this x =
     x\<lparr>rs_resource_pattern_type := (if version = 1 then (if (rs_resource_pattern_type x) = - 1 then
         AclResourcePatternTypeUnknown else (rs_resource_pattern_type x)) else (rs_resource_pattern_type
         this))\<rparr>"

lemma emits_Resource [emits_rules]:
  "Resource_ok fl x \<Longrightarrow> emits fl (Resource_encode version x) (wResource version fl x)"
  unfolding Resource_encode_def wResource_def Resource_ok_def by (intro emits_rules; auto)

lemma reads_Resource [reads_rules]:
  assumes "Resource_ok fl x"
  shows "reads fl (Resource_decode version this) (wResource version fl x) (Resource_seen version this x)"
  unfolding Resource_decode_def wResource_def
  by (rule reads_conv, (rule reads_rules | (use assms in \<open>auto simp: Resource_ok_def Resource_seen_def
      pattern_byte_read; fail\<close>))+)

record Acl =
  ac_principal :: bytes
  ac_host :: bytes
  ac_operation :: int32
  ac_permission_type :: int32

definition Acl_default :: Acl where
  "Acl_default = \<lparr>ac_principal = [], ac_host = [], ac_operation = AclOperationUnknown,
      ac_permission_type = 0\<rparr>"

definition Acl_encode :: "Acl \<Rightarrow> unit enc" where
  "Acl_encode x =
     then_p (err_as (- 1) (putString (ac_principal x)))
    (then_p (err_as (- 1) (putString (ac_host x)))
    (then_p (putInt8 (ucast (ac_operation x)))
       (putInt8 (ucast (ac_permission_type x)))))"

definition Acl_decode :: "Acl dec" where
  "Acl_decode =
     bind_p (err_as (- 1) getString) (\<lambda>principal.
     bind_p (err_as (- 1) getString) (\<lambda>host.
     bind_p (err_as (- 1) (bind_p getInt8 (\<lambda>b. ret (scast b)))) (\<lambda>operation.
     bind_p (err_as (- 1) (bind_p getInt8 (\<lambda>b. ret (scast b)))) (\<lambda>permission_type.
       ret \<lparr>ac_principal = principal, ac_host = host, ac_operation = operation, ac_permission_type =
           permission_type\<rparr>))))"

definition wAcl :: "bool \<Rightarrow> Acl \<Rightarrow> bytes" where
  "wAcl fl x =
     wString fl (ac_principal x) @ wString fl (ac_host x) @ be8 (ucast (ac_operation x)) @
     be8 (ucast (ac_permission_type x))"

definition Acl_ok :: "bool \<Rightarrow> Acl \<Rightarrow> bool" where
  "Acl_ok fl x \<longleftrightarrow>
     string_ok fl (ac_principal x) \<and> string_ok fl (ac_host x) \<and>
     scast (ucast (ac_operation x) :: int8) = (ac_operation x) \<and>
     scast (ucast (ac_permission_type x) :: int8) = (ac_permission_type x)"

lemma emits_Acl [emits_rules]:
  "Acl_ok fl x \<Longrightarrow> emits fl (Acl_encode x) (wAcl fl x)"
  unfolding Acl_encode_def wAcl_def Acl_ok_def by (intro emits_rules; auto)

lemma reads_Acl [reads_rules]:
  assumes "Acl_ok fl x"
  shows "reads fl (Acl_decode) (wAcl fl x) x"
  unfolding Acl_decode_def wAcl_def
  by (rule reads_conv, (rule reads_rules | (use assms in \<open>auto simp: Acl_ok_def; fail\<close>))+)

record ResourceAcls =
  ra_resource :: Resource
  ra_acls :: "Acl list"

definition ResourceAcls_default :: ResourceAcls where
  "ResourceAcls_default = \<lparr>ra_resource = Resource_default, ra_acls = []\<rparr>"

definition ResourceAcls_encode :: "int16 \<Rightarrow> ResourceAcls \<Rightarrow> unit enc" where
  "ResourceAcls_encode version x =
     then_p (err_as (- 1) (Resource_encode version (ra_resource x)))
       (then_p (err_as (- 1) (putArrayLength (size32 (length (ra_acls x)))))
            (for_each (\<lambda>e. (err_as (- 1) (Acl_encode e))) (ra_acls x)))"

definition ResourceAcls_decode :: "int16 \<Rightarrow> ResourceAcls \<Rightarrow> ResourceAcls dec" where
  "ResourceAcls_decode version this =
     bind_p (err_as (- 1) (Resource_decode version (ra_resource this))) (\<lambda>resource.
     bind_p (bind_p (err_as (- 1) getArrayLength) (\<lambda>n. resize_read n (err_as (- 1) Acl_decode)))
         (\<lambda>acls.
       ret \<lparr>ra_resource = resource, ra_acls = acls\<rparr>))"

definition wResourceAcls :: "int16 \<Rightarrow> bool \<Rightarrow> ResourceAcls \<Rightarrow> bytes" where
  "wResourceAcls version fl x =
     wResource version fl (ra_resource x) @ wArray fl (wAcl fl) (ra_acls x)"

definition ResourceAcls_ok :: "bool \<Rightarrow> ResourceAcls \<Rightarrow> bool" where
  "ResourceAcls_ok fl x \<longleftrightarrow>
     Resource_ok fl (ra_resource x) \<and> len_ok fl (length (ra_acls x)) \<and>
     (\<forall>e \<in> set (ra_acls x). Acl_ok fl e)"

definition ResourceAcls_seen :: "int16 \<Rightarrow> ResourceAcls \<Rightarrow> ResourceAcls \<Rightarrow>
    ResourceAcls" where
  "ResourceAcls_seen version this x =
     x\<lparr>ra_resource := (Resource_seen version (ra_resource this) (ra_resource x))\<rparr>"

lemma emits_ResourceAcls [emits_rules]:
  "ResourceAcls_ok fl x \<Longrightarrow> emits fl (ResourceAcls_encode version x) (wResourceAcls version fl x)"
  unfolding ResourceAcls_encode_def wResourceAcls_def ResourceAcls_ok_def by (intro emits_rules; auto)

lemma reads_ResourceAcls [reads_rules]:
  assumes "ResourceAcls_ok fl x"
  shows "reads fl (ResourceAcls_decode version this) (wResourceAcls version fl x) (ResourceAcls_seen version
      this x)"
  unfolding ResourceAcls_decode_def wResourceAcls_def
  by (rule reads_conv, (rule reads_rules | (use assms in \<open>auto simp: ResourceAcls_ok_def
      ResourceAcls_seen_def; fail\<close>))+)

text \<open>A filter carries the version it is encoded with; \<^verbatim>\<open>decode\<close> goes by its
    parameter and leaves that field alone.\<close>

record AclFilter =
  af_version :: int16
  af_resource_type :: int32
  af_resource_name :: bytes
  af_resource_pattern_type_filter :: int32
  af_principal :: bytes
  af_host :: bytes
  af_operation :: int32
  af_permission_type :: int32

definition AclFilter_default :: AclFilter where
  "AclFilter_default = \<lparr>af_version = 0, af_resource_type = AclResourceTypeAny, af_resource_name = [],
      af_resource_pattern_type_filter = AclResourcePatternTypeLiteral, af_principal = [], af_host = [],
      af_operation = AclOperationAny, af_permission_type = AclPermissionTypeAny\<rparr>"

definition AclFilter_encode :: "AclFilter \<Rightarrow> unit enc" where
  "AclFilter_encode x =
     then_p (putInt8 (ucast (af_resource_type x)))
    (then_p (err_as (- 1) (putNullableString (af_resource_name x)))
    (then_p (when_p ((af_version x) = 1) (putInt8 (ucast (af_resource_pattern_type_filter x))))
    (then_p (err_as (- 1) (putNullableString (af_principal x)))
    (then_p (err_as (- 1) (putNullableString (af_host x)))
    (then_p (putInt8 (ucast (af_operation x)))
       (putInt8 (ucast (af_permission_type x))))))))"

definition AclFilter_decode :: "int16 \<Rightarrow> AclFilter \<Rightarrow> AclFilter dec" where
  "AclFilter_decode version this =
     bind_p (err_as (- 1) (bind_p getInt8 (\<lambda>b. ret (scast b)))) (\<lambda>resource_type.
     bind_p (err_as (- 1) getNullableString) (\<lambda>resource_name.
     bind_p (field_if (version = 1) (err_as (- 1) (bind_p getInt8 (\<lambda>b. ret (scast b))))
         (af_resource_pattern_type_filter this)) (\<lambda>pattern.
     bind_p (err_as (- 1) getNullableString) (\<lambda>principal.
     bind_p (err_as (- 1) getNullableString) (\<lambda>host.
     bind_p (err_as (- 1) (bind_p getInt8 (\<lambda>b. ret (scast b)))) (\<lambda>operation.
     bind_p (err_as (- 1) (bind_p getInt8 (\<lambda>b. ret (scast b)))) (\<lambda>permission_type.
       ret \<lparr>af_version = af_version this, af_resource_type = resource_type, af_resource_name =
           resource_name, af_resource_pattern_type_filter = pattern, af_principal = principal, af_host = host,
           af_operation = operation, af_permission_type = permission_type\<rparr>)))))))"

definition wAclFilter :: "bool \<Rightarrow> AclFilter \<Rightarrow> bytes" where
  "wAclFilter fl x =
     be8 (ucast (af_resource_type x)) @ wNullableString fl (af_resource_name x) @
     (if (af_version x) = 1 then be8 (ucast (af_resource_pattern_type_filter x)) else []) @
     wNullableString fl (af_principal x) @ wNullableString fl (af_host x) @ be8 (ucast (af_operation x)) @
     be8 (ucast (af_permission_type x))"

definition AclFilter_ok :: "bool \<Rightarrow> AclFilter \<Rightarrow> bool" where
  "AclFilter_ok fl x \<longleftrightarrow>
     scast (ucast (af_resource_type x) :: int8) = (af_resource_type x) \<and>
     string_ok fl (af_resource_name x) \<and>
     scast (ucast (af_resource_pattern_type_filter x) :: int8) = (af_resource_pattern_type_filter x) \<and>
     string_ok fl (af_principal x) \<and> string_ok fl (af_host x) \<and>
     scast (ucast (af_operation x) :: int8) = (af_operation x) \<and>
     scast (ucast (af_permission_type x) :: int8) = (af_permission_type x)"

definition AclFilter_seen :: "AclFilter \<Rightarrow> AclFilter \<Rightarrow> AclFilter" where
  "AclFilter_seen this x =
     x\<lparr>af_version := af_version this, af_resource_pattern_type_filter := (if (af_version x) = 1 then
         (af_resource_pattern_type_filter x) else (af_resource_pattern_type_filter this))\<rparr>"

lemma emits_AclFilter [emits_rules]:
  "AclFilter_ok fl x \<Longrightarrow> emits fl (AclFilter_encode x) (wAclFilter fl x)"
  unfolding AclFilter_encode_def wAclFilter_def AclFilter_ok_def by (intro emits_rules; auto)

lemma reads_AclFilter [reads_rules]:
  assumes "AclFilter_ok fl x" "version = af_version x"
  shows "reads fl (AclFilter_decode version this) (wAclFilter fl x) (AclFilter_seen this x)"
  unfolding AclFilter_decode_def wAclFilter_def assms(2)
  by (rule reads_conv, (rule reads_rules | (use assms in \<open>auto simp: AclFilter_ok_def AclFilter_seen_def;
      fail\<close>))+)

lemma wAclFilter_nonempty [simp]: "wAclFilter fl f \<noteq> []"
  by (simp add: wAclFilter_def)

section \<open>DescribeAcls\<close>

text \<open>The version of the class is an \<open>int\<close>, set from and returned as an
    \<open>int16_t\<close>.\<close>

record DescribeAclsRequest =
  daq_version :: int16
  daq_filter :: AclFilter

definition DescribeAclsRequest_set_version :: "int16 \<Rightarrow> DescribeAclsRequest \<Rightarrow>
    DescribeAclsRequest" where
  "DescribeAclsRequest_set_version v m = m\<lparr>daq_version := v, daq_filter := (daq_filter
      m)\<lparr>af_version := v\<rparr>\<rparr>"

definition DescribeAclsRequest_encode :: "DescribeAclsRequest \<Rightarrow> unit enc" where
  "DescribeAclsRequest_encode m =
     (AclFilter_encode (daq_filter m))"

definition DescribeAclsRequest_decode :: "DescribeAclsRequest \<Rightarrow> int16 \<Rightarrow>
    DescribeAclsRequest dec" where
  "DescribeAclsRequest_decode this version =
     bind_p (AclFilter_decode version ((daq_filter this)\<lparr>af_version := version\<rparr>))
         (\<lambda>filter'.
       ret \<lparr>daq_version = version, daq_filter = filter'\<rparr>)"

definition DescribeAclsRequest_required_version :: "int16 \<Rightarrow> KafkaVersion" where
  "DescribeAclsRequest_required_version v =
     (if v = 1 then V2_0_0_0 else V0_11_0_0)"

definition DescribeAclsRequest_body :: "DescribeAclsRequest \<Rightarrow> protocol_body" where
  "DescribeAclsRequest_body m =
     \<lparr>pb_key = 29, pb_version = daq_version m,
      pb_header_version = 1,
      pb_is_valid_version = (sint (daq_version m) \<ge> 0 \<and> sint (daq_version m) \<le> 1),
      pb_is_flexible = False,
      pb_is_flexible_version = (\<lambda>_. False),
      pb_required_version = DescribeAclsRequest_required_version (daq_version m),
      pb_encode = DescribeAclsRequest_encode m\<rparr>"

definition wDescribeAclsRequest :: "DescribeAclsRequest \<Rightarrow> bytes" where
  "wDescribeAclsRequest m =
     (let fl = False in
     wAclFilter fl (daq_filter m))"

definition DescribeAclsRequest_ok :: "DescribeAclsRequest \<Rightarrow> bool" where
  "DescribeAclsRequest_ok m \<longleftrightarrow>
     (let fl = False in
     AclFilter_ok fl (daq_filter m) \<and> af_version (daq_filter m) = (daq_version m))"

definition DescribeAclsRequest_seen :: "DescribeAclsRequest \<Rightarrow> DescribeAclsRequest \<Rightarrow>
    DescribeAclsRequest" where
  "DescribeAclsRequest_seen this m =
     m\<lparr>daq_filter := AclFilter_seen ((daq_filter this)\<lparr>af_version := (daq_version m)\<rparr>)
       (daq_filter m)\<rparr>"

interpretation daq: protocol_message DescribeAclsRequest_body DescribeAclsRequest_decode wDescribeAclsRequest
  DescribeAclsRequest_ok DescribeAclsRequest_seen
proof
  fix m this :: DescribeAclsRequest
  assume ok: "DescribeAclsRequest_ok m"
  show "emits (pb_is_flexible (DescribeAclsRequest_body m)) (pb_encode (DescribeAclsRequest_body m))
      (wDescribeAclsRequest m)"
    unfolding DescribeAclsRequest_body_def DescribeAclsRequest_encode_def wDescribeAclsRequest_def Let_def
        protocol_body.simps
    by (intro emits_rules; use ok in \<open>auto simp: DescribeAclsRequest_ok_def Let_def \<close>)
  show "reads (pb_is_flexible (DescribeAclsRequest_body m)) (DescribeAclsRequest_decode this (pb_version
      (DescribeAclsRequest_body m)))
      (wDescribeAclsRequest m) (DescribeAclsRequest_seen this m)"
    unfolding DescribeAclsRequest_body_def DescribeAclsRequest_decode_def wDescribeAclsRequest_def Let_def
        protocol_body.simps
    by (rule reads_conv, (rule reads_rules | (use ok in \<open>auto simp: DescribeAclsRequest_ok_def Let_def 
      DescribeAclsRequest_seen_def; fail\<close>))+)
qed (simp_all add: DescribeAclsRequest_body_def wDescribeAclsRequest_def Let_def)

record DescribeAclsResponse =
  dsr_version :: int16
  dsr_throttle_time :: int64
  dsr_err :: int16
  dsr_err_msg :: bytes
  dsr_resource_acls :: "ResourceAcls list"

definition DescribeAclsResponse_set_version :: "int16 \<Rightarrow> DescribeAclsResponse \<Rightarrow>
    DescribeAclsResponse" where
  "DescribeAclsResponse_set_version v m = m\<lparr>dsr_version := v\<rparr>"

definition DescribeAclsResponse_encode :: "DescribeAclsResponse \<Rightarrow> unit enc" where
  "DescribeAclsResponse_encode m =
     then_p (putDurationMs (dsr_throttle_time m))
    (then_p (putKError (dsr_err m))
    (then_p (err_as (- 1) (putNullableString (dsr_err_msg m)))
       (then_p (err_as (- 1) (putArrayLength (size32 (length (dsr_resource_acls m)))))
            (for_each (\<lambda>e. (err_as (- 1) (ResourceAcls_encode (dsr_version m) e))) (dsr_resource_acls
                m)))))"

definition DescribeAclsResponse_decode :: "DescribeAclsResponse \<Rightarrow> int16 \<Rightarrow>
    DescribeAclsResponse dec" where
  "DescribeAclsResponse_decode this version =
     bind_p (err_as (- 1) getDurationMs) (\<lambda>throttle_time.
     bind_p (err_as (- 1) getKError) (\<lambda>err.
     bind_p (bind_p (err_as (- 1) getNullableString) (\<lambda>s. ret (if s = [] then (dsr_err_msg this) else
         s))) (\<lambda>err_msg.
     bind_p (bind_p (err_as (- 1) getArrayLength) (\<lambda>n. resize_into n ResourceAcls_default
         (dsr_resource_acls this) (\<lambda>old. (err_as (- 1) (ResourceAcls_decode version old)))))
         (\<lambda>resource_acls.
     bind_p (field_if (sint version \<ge> 1) (err_as (- 1) getEmptyTaggedFieldArray) ()) (\<lambda>_.
       ret (this\<lparr>dsr_throttle_time := throttle_time, dsr_err := err, dsr_err_msg := err_msg,
         dsr_resource_acls := resource_acls\<rparr>))))))"

definition DescribeAclsResponse_required_version :: "int16 \<Rightarrow> KafkaVersion" where
  "DescribeAclsResponse_required_version v =
     (if v = 1 then V2_0_0_0 else V0_11_0_0)"

definition DescribeAclsResponse_body :: "DescribeAclsResponse \<Rightarrow> protocol_body" where
  "DescribeAclsResponse_body m =
     \<lparr>pb_key = 29, pb_version = dsr_version m,
      pb_header_version = (if sint (dsr_version m) \<ge> 1 then 1 else 0),
      pb_is_valid_version = (sint (dsr_version m) \<ge> 0 \<and> sint (dsr_version m) \<le> 1),
      pb_is_flexible = False,
      pb_is_flexible_version = (\<lambda>_. False),
      pb_required_version = DescribeAclsResponse_required_version (dsr_version m),
      pb_encode = DescribeAclsResponse_encode m\<rparr>"

definition wDescribeAclsResponse :: "DescribeAclsResponse \<Rightarrow> bytes" where
  "wDescribeAclsResponse m =
     (let fl = False in
     wDurationMs (dsr_throttle_time m) @ be16 (dsr_err m) @ wNullableString fl (dsr_err_msg m) @
     wArray fl (wResourceAcls (dsr_version m) fl) (dsr_resource_acls m))"

definition DescribeAclsResponse_ok :: "DescribeAclsResponse \<Rightarrow> bool" where
  "DescribeAclsResponse_ok m \<longleftrightarrow>
     (let fl = False in
     duration_ok (dsr_throttle_time m) \<and> string_ok fl (dsr_err_msg m) \<and>
     len_ok fl (length (dsr_resource_acls m)) \<and>
     (\<forall>e \<in> set (dsr_resource_acls m). ResourceAcls_ok fl e))"

definition DescribeAclsResponse_seen :: "DescribeAclsResponse \<Rightarrow> DescribeAclsResponse \<Rightarrow>
    DescribeAclsResponse" where
  "DescribeAclsResponse_seen this m =
     m\<lparr>dsr_version := dsr_version this, dsr_err_msg := (if (dsr_err_msg m) = [] then (dsr_err_msg this)
       else (dsr_err_msg m)), dsr_resource_acls := map2 (ResourceAcls_seen (dsr_version m)) (resize_to (length
       (dsr_resource_acls m)) ResourceAcls_default (dsr_resource_acls this)) (dsr_resource_acls m)\<rparr>"

interpretation dsr: protocol_message DescribeAclsResponse_body DescribeAclsResponse_decode wDescribeAclsResponse
  DescribeAclsResponse_ok DescribeAclsResponse_seen
proof
  fix m this :: DescribeAclsResponse
  assume ok: "DescribeAclsResponse_ok m"
  show "emits (pb_is_flexible (DescribeAclsResponse_body m)) (pb_encode (DescribeAclsResponse_body m))
      (wDescribeAclsResponse m)"
    unfolding DescribeAclsResponse_body_def DescribeAclsResponse_encode_def wDescribeAclsResponse_def Let_def
        protocol_body.simps
    by (intro emits_rules; use ok in \<open>auto simp: DescribeAclsResponse_ok_def Let_def \<close>)
  show "reads (pb_is_flexible (DescribeAclsResponse_body m)) (DescribeAclsResponse_decode this (pb_version
      (DescribeAclsResponse_body m)))
      (wDescribeAclsResponse m) (DescribeAclsResponse_seen this m)"
    unfolding DescribeAclsResponse_body_def DescribeAclsResponse_decode_def wDescribeAclsResponse_def Let_def
        protocol_body.simps
    by (rule reads_conv, (rule reads_last_fixed_tags reads_fixed_tags | rule reads_rules | (use ok in
        \<open>auto simp: DescribeAclsResponse_ok_def Let_def 
      DescribeAclsResponse_seen_def; fail\<close>))+)
qed (simp_all add: DescribeAclsResponse_body_def wDescribeAclsResponse_def Let_def)

definition DescribeAclsResponse_throttle_time :: "DescribeAclsResponse \<Rightarrow> int64" where
  "DescribeAclsResponse_throttle_time m = dsr_throttle_time m"

section \<open>CreateAcls\<close>

record AclCreation =
  acr_resource :: Resource
  acr_acl :: Acl

definition AclCreation_default :: AclCreation where
  "AclCreation_default = \<lparr>acr_resource = Resource_default, acr_acl = Acl_default\<rparr>"

definition AclCreation_encode :: "int16 \<Rightarrow> AclCreation \<Rightarrow> unit enc" where
  "AclCreation_encode version x =
     then_p (err_as (- 1) (Resource_encode version (acr_resource x)))
       (err_as (- 1) (Acl_encode (acr_acl x)))"

definition AclCreation_decode :: "int16 \<Rightarrow> AclCreation \<Rightarrow> AclCreation dec" where
  "AclCreation_decode version this =
     bind_p (err_as (- 1) (Resource_decode version (acr_resource this))) (\<lambda>resource.
     bind_p (err_as (- 1) Acl_decode) (\<lambda>acl.
       ret \<lparr>acr_resource = resource, acr_acl = acl\<rparr>))"

definition wAclCreation :: "int16 \<Rightarrow> bool \<Rightarrow> AclCreation \<Rightarrow> bytes" where
  "wAclCreation version fl x =
     wResource version fl (acr_resource x) @ wAcl fl (acr_acl x)"

definition AclCreation_ok :: "bool \<Rightarrow> AclCreation \<Rightarrow> bool" where
  "AclCreation_ok fl x \<longleftrightarrow>
     Resource_ok fl (acr_resource x) \<and> Acl_ok fl (acr_acl x)"

definition AclCreation_seen :: "int16 \<Rightarrow> AclCreation \<Rightarrow> AclCreation \<Rightarrow>
    AclCreation" where
  "AclCreation_seen version this x =
     x\<lparr>acr_resource := (Resource_seen version (acr_resource this) (acr_resource x))\<rparr>"

lemma emits_AclCreation [emits_rules]:
  "AclCreation_ok fl x \<Longrightarrow> emits fl (AclCreation_encode version x) (wAclCreation version fl x)"
  unfolding AclCreation_encode_def wAclCreation_def AclCreation_ok_def by (intro emits_rules; auto)

lemma reads_AclCreation [reads_rules]:
  assumes "AclCreation_ok fl x"
  shows "reads fl (AclCreation_decode version this) (wAclCreation version fl x) (AclCreation_seen version this
      x)"
  unfolding AclCreation_decode_def wAclCreation_def
  by (rule reads_conv, (rule reads_rules | (use assms in \<open>auto simp: AclCreation_ok_def
      AclCreation_seen_def; fail\<close>))+)

record CreateAclsRequest =
  caq_version :: int16
  caq_acl_creations :: "AclCreation list"

definition CreateAclsRequest_set_version :: "int16 \<Rightarrow> CreateAclsRequest \<Rightarrow>
    CreateAclsRequest" where
  "CreateAclsRequest_set_version v m = m\<lparr>caq_version := v\<rparr>"

definition CreateAclsRequest_encode :: "CreateAclsRequest \<Rightarrow> unit enc" where
  "CreateAclsRequest_encode m =
     (then_p (err_as (- 1) (putArrayLength (size32 (length (caq_acl_creations m)))))
            (for_each (\<lambda>e. (err_as (- 1) (AclCreation_encode (caq_version m) e))) (caq_acl_creations
                m)))"

definition CreateAclsRequest_decode :: "CreateAclsRequest \<Rightarrow> int16 \<Rightarrow> CreateAclsRequest
    dec" where
  "CreateAclsRequest_decode this version =
     bind_p (bind_p (err_as (- 1) getArrayLength) (\<lambda>n. resize_into n AclCreation_default
         (caq_acl_creations this) (\<lambda>old. (err_as (- 1) (AclCreation_decode version old)))))
         (\<lambda>acl_creations.
       ret \<lparr>caq_version = version, caq_acl_creations = acl_creations\<rparr>)"

definition CreateAclsRequest_required_version :: "int16 \<Rightarrow> KafkaVersion" where
  "CreateAclsRequest_required_version v =
     (if v = 1 then V2_0_0_0 else V0_11_0_0)"

definition CreateAclsRequest_body :: "CreateAclsRequest \<Rightarrow> protocol_body" where
  "CreateAclsRequest_body m =
     \<lparr>pb_key = 30, pb_version = caq_version m,
      pb_header_version = 1,
      pb_is_valid_version = (sint (caq_version m) \<ge> 0 \<and> sint (caq_version m) \<le> 1),
      pb_is_flexible = False,
      pb_is_flexible_version = (\<lambda>_. False),
      pb_required_version = CreateAclsRequest_required_version (caq_version m),
      pb_encode = CreateAclsRequest_encode m\<rparr>"

definition wCreateAclsRequest :: "CreateAclsRequest \<Rightarrow> bytes" where
  "wCreateAclsRequest m =
     (let fl = False in
     wArray fl (wAclCreation (caq_version m) fl) (caq_acl_creations m))"

definition CreateAclsRequest_ok :: "CreateAclsRequest \<Rightarrow> bool" where
  "CreateAclsRequest_ok m \<longleftrightarrow>
     (let fl = False in
     len_ok fl (length (caq_acl_creations m)) \<and>
     (\<forall>e \<in> set (caq_acl_creations m). AclCreation_ok fl e))"

definition CreateAclsRequest_seen :: "CreateAclsRequest \<Rightarrow> CreateAclsRequest \<Rightarrow>
    CreateAclsRequest" where
  "CreateAclsRequest_seen this m =
     m\<lparr>caq_acl_creations := map2 (AclCreation_seen (caq_version m)) (resize_to (length
       (caq_acl_creations m)) AclCreation_default (caq_acl_creations this)) (caq_acl_creations m)\<rparr>"

interpretation caq: protocol_message CreateAclsRequest_body CreateAclsRequest_decode wCreateAclsRequest
  CreateAclsRequest_ok CreateAclsRequest_seen
proof
  fix m this :: CreateAclsRequest
  assume ok: "CreateAclsRequest_ok m"
  show "emits (pb_is_flexible (CreateAclsRequest_body m)) (pb_encode (CreateAclsRequest_body m))
      (wCreateAclsRequest m)"
    unfolding CreateAclsRequest_body_def CreateAclsRequest_encode_def wCreateAclsRequest_def Let_def
        protocol_body.simps
    by (intro emits_rules; use ok in \<open>auto simp: CreateAclsRequest_ok_def Let_def \<close>)
  show "reads (pb_is_flexible (CreateAclsRequest_body m)) (CreateAclsRequest_decode this (pb_version
      (CreateAclsRequest_body m)))
      (wCreateAclsRequest m) (CreateAclsRequest_seen this m)"
    unfolding CreateAclsRequest_body_def CreateAclsRequest_decode_def wCreateAclsRequest_def Let_def
        protocol_body.simps
    by (rule reads_conv, (rule reads_rules | (use ok in \<open>auto simp: CreateAclsRequest_ok_def Let_def 
      CreateAclsRequest_seen_def; fail\<close>))+)
qed (simp_all add: CreateAclsRequest_body_def wCreateAclsRequest_def Let_def)

record AclCreationResponse =
  acs_err :: int16
  acs_err_msg :: bytes

definition AclCreationResponse_encode :: "AclCreationResponse \<Rightarrow> unit enc" where
  "AclCreationResponse_encode x =
     then_p (putKError (acs_err x))
       (err_as (- 1) (putNullableString (acs_err_msg x)))"

definition AclCreationResponse_decode :: "AclCreationResponse dec" where
  "AclCreationResponse_decode =
     bind_p (err_as (- 1) getKError) (\<lambda>err.
     bind_p (err_as (- 1) getNullableString) (\<lambda>err_msg.
       ret \<lparr>acs_err = err, acs_err_msg = err_msg\<rparr>))"

definition wAclCreationResponse :: "bool \<Rightarrow> AclCreationResponse \<Rightarrow> bytes" where
  "wAclCreationResponse fl x =
     be16 (acs_err x) @ wNullableString fl (acs_err_msg x)"

definition AclCreationResponse_ok :: "bool \<Rightarrow> AclCreationResponse \<Rightarrow> bool" where
  "AclCreationResponse_ok fl x \<longleftrightarrow>
     string_ok fl (acs_err_msg x)"

lemma emits_AclCreationResponse [emits_rules]:
  "AclCreationResponse_ok fl x \<Longrightarrow> emits fl (AclCreationResponse_encode x) (wAclCreationResponse
      fl x)"
  unfolding AclCreationResponse_encode_def wAclCreationResponse_def AclCreationResponse_ok_def by (intro
      emits_rules; auto)

lemma reads_AclCreationResponse [reads_rules]:
  assumes "AclCreationResponse_ok fl x"
  shows "reads fl (AclCreationResponse_decode) (wAclCreationResponse fl x) x"
  unfolding AclCreationResponse_decode_def wAclCreationResponse_def
  by (rule reads_conv, (rule reads_rules | (use assms in \<open>auto simp: AclCreationResponse_ok_def;
      fail\<close>))+)

record CreateAclsResponse =
  cas_version :: int16
  cas_throttle_time :: int64
  cas_acl_creation_responses :: "AclCreationResponse list"

definition CreateAclsResponse_set_version :: "int16 \<Rightarrow> CreateAclsResponse \<Rightarrow>
    CreateAclsResponse" where
  "CreateAclsResponse_set_version v m = m\<lparr>cas_version := v\<rparr>"

definition CreateAclsResponse_encode :: "CreateAclsResponse \<Rightarrow> unit enc" where
  "CreateAclsResponse_encode m =
     then_p (putDurationMs (cas_throttle_time m))
       (then_p (err_as (- 1) (putArrayLength (size32 (length (cas_acl_creation_responses m)))))
            (for_each (\<lambda>e. (err_as (- 1) (AclCreationResponse_encode e))) (cas_acl_creation_responses
                m)))"

definition CreateAclsResponse_decode :: "CreateAclsResponse \<Rightarrow> int16 \<Rightarrow>
    CreateAclsResponse dec" where
  "CreateAclsResponse_decode this version =
     bind_p (err_as (- 1) getDurationMs) (\<lambda>throttle_time.
     bind_p (bind_p (err_as (- 1) getArrayLength) (\<lambda>n. resize_read n (err_as (- 1)
         AclCreationResponse_decode))) (\<lambda>acl_creation_responses.
       ret (this\<lparr>cas_throttle_time := throttle_time, cas_acl_creation_responses :=
         acl_creation_responses\<rparr>)))"

definition CreateAclsResponse_required_version :: "int16 \<Rightarrow> KafkaVersion" where
  "CreateAclsResponse_required_version v =
     (if v = 1 then V2_0_0_0 else V0_11_0_0)"

definition CreateAclsResponse_body :: "CreateAclsResponse \<Rightarrow> protocol_body" where
  "CreateAclsResponse_body m =
     \<lparr>pb_key = 30, pb_version = cas_version m,
      pb_header_version = 0,
      pb_is_valid_version = (sint (cas_version m) \<ge> 0 \<and> sint (cas_version m) \<le> 1),
      pb_is_flexible = False,
      pb_is_flexible_version = (\<lambda>_. False),
      pb_required_version = CreateAclsResponse_required_version (cas_version m),
      pb_encode = CreateAclsResponse_encode m\<rparr>"

definition wCreateAclsResponse :: "CreateAclsResponse \<Rightarrow> bytes" where
  "wCreateAclsResponse m =
     (let fl = False in
     wDurationMs (cas_throttle_time m) @ wArray fl (wAclCreationResponse fl) (cas_acl_creation_responses m))"

definition CreateAclsResponse_ok :: "CreateAclsResponse \<Rightarrow> bool" where
  "CreateAclsResponse_ok m \<longleftrightarrow>
     (let fl = False in
     duration_ok (cas_throttle_time m) \<and> len_ok fl (length (cas_acl_creation_responses m)) \<and>
     (\<forall>e \<in> set (cas_acl_creation_responses m). AclCreationResponse_ok fl e))"

definition CreateAclsResponse_seen :: "CreateAclsResponse \<Rightarrow> CreateAclsResponse \<Rightarrow>
    CreateAclsResponse" where
  "CreateAclsResponse_seen this m =
     m\<lparr>cas_version := cas_version this\<rparr>"

interpretation cas: protocol_message CreateAclsResponse_body CreateAclsResponse_decode wCreateAclsResponse
  CreateAclsResponse_ok CreateAclsResponse_seen
proof
  fix m this :: CreateAclsResponse
  assume ok: "CreateAclsResponse_ok m"
  show "emits (pb_is_flexible (CreateAclsResponse_body m)) (pb_encode (CreateAclsResponse_body m))
      (wCreateAclsResponse m)"
    unfolding CreateAclsResponse_body_def CreateAclsResponse_encode_def wCreateAclsResponse_def Let_def
        protocol_body.simps
    by (intro emits_rules; use ok in \<open>auto simp: CreateAclsResponse_ok_def Let_def \<close>)
  show "reads (pb_is_flexible (CreateAclsResponse_body m)) (CreateAclsResponse_decode this (pb_version
      (CreateAclsResponse_body m)))
      (wCreateAclsResponse m) (CreateAclsResponse_seen this m)"
    unfolding CreateAclsResponse_body_def CreateAclsResponse_decode_def wCreateAclsResponse_def Let_def
        protocol_body.simps
    by (rule reads_conv, (rule reads_rules | (use ok in \<open>auto simp: CreateAclsResponse_ok_def Let_def 
      CreateAclsResponse_seen_def; fail\<close>))+)
qed (simp_all add: CreateAclsResponse_body_def wCreateAclsResponse_def Let_def)

definition CreateAclsResponse_throttle_time :: "CreateAclsResponse \<Rightarrow> int64" where
  "CreateAclsResponse_throttle_time m = cas_throttle_time m"

section \<open>DeleteAcls\<close>

text \<open>The filters are \<open>mutable\<close>: \<^verbatim>\<open>encode\<close> stores the version of the
    request in each of them.\<close>

record DeleteAclsRequest =
  dlq_version :: int16
  dlq_filters :: "AclFilter list"

definition DeleteAclsRequest_set_version :: "int16 \<Rightarrow> DeleteAclsRequest \<Rightarrow>
    DeleteAclsRequest" where
  "DeleteAclsRequest_set_version v m = m\<lparr>dlq_version := v\<rparr>"

definition DeleteAclsRequest_encode :: "DeleteAclsRequest \<Rightarrow> unit enc" where
  "DeleteAclsRequest_encode m =
     (then_p (err_as (- 1) (putArrayLength (size32 (length (dlq_filters m))))) (for_each (\<lambda>f. err_as (-
         1) (AclFilter_encode (f\<lparr>af_version := (dlq_version m)\<rparr>))) (dlq_filters m)))"

definition DeleteAclsRequest_decode :: "DeleteAclsRequest \<Rightarrow> int16 \<Rightarrow> DeleteAclsRequest
    dec" where
  "DeleteAclsRequest_decode this version =
     bind_p (bind_p (err_as (- 1) getArrayLength) (\<lambda>n. resize_into n AclFilter_default (dlq_filters
         this) (\<lambda>old. err_as (- 1) (AclFilter_decode version (old\<lparr>af_version :=
         version\<rparr>))))) (\<lambda>filters.
       ret \<lparr>dlq_version = version, dlq_filters = filters\<rparr>)"

definition DeleteAclsRequest_required_version :: "int16 \<Rightarrow> KafkaVersion" where
  "DeleteAclsRequest_required_version v =
     (if v = 1 then V2_0_0_0 else V0_11_0_0)"

definition DeleteAclsRequest_body :: "DeleteAclsRequest \<Rightarrow> protocol_body" where
  "DeleteAclsRequest_body m =
     \<lparr>pb_key = 31, pb_version = dlq_version m,
      pb_header_version = 1,
      pb_is_valid_version = (sint (dlq_version m) \<ge> 0 \<and> sint (dlq_version m) \<le> 1),
      pb_is_flexible = False,
      pb_is_flexible_version = (\<lambda>_. False),
      pb_required_version = DeleteAclsRequest_required_version (dlq_version m),
      pb_encode = DeleteAclsRequest_encode m\<rparr>"

definition wDeleteAclsRequest :: "DeleteAclsRequest \<Rightarrow> bytes" where
  "wDeleteAclsRequest m =
     (let fl = False in
     wArray fl (\<lambda>f. wAclFilter fl (f\<lparr>af_version := (dlq_version m)\<rparr>)) (dlq_filters m))"

definition DeleteAclsRequest_ok :: "DeleteAclsRequest \<Rightarrow> bool" where
  "DeleteAclsRequest_ok m \<longleftrightarrow>
     (let fl = False in
     len_ok fl (length (dlq_filters m)) \<and> (\<forall>f \<in> set (dlq_filters m). AclFilter_ok fl f))"

definition DeleteAclsRequest_seen :: "DeleteAclsRequest \<Rightarrow> DeleteAclsRequest \<Rightarrow>
    DeleteAclsRequest" where
  "DeleteAclsRequest_seen this m =
     m\<lparr>dlq_filters := map2 (\<lambda>old f. AclFilter_seen (old\<lparr>af_version := (dlq_version
       m)\<rparr>) (f\<lparr>af_version := (dlq_version m)\<rparr>)) (resize_to (length (dlq_filters m))
       AclFilter_default (dlq_filters this)) (dlq_filters m)\<rparr>"

interpretation dlq: protocol_message DeleteAclsRequest_body DeleteAclsRequest_decode wDeleteAclsRequest
  DeleteAclsRequest_ok DeleteAclsRequest_seen
proof
  fix m this :: DeleteAclsRequest
  assume ok: "DeleteAclsRequest_ok m"
  show "emits (pb_is_flexible (DeleteAclsRequest_body m)) (pb_encode (DeleteAclsRequest_body m))
      (wDeleteAclsRequest m)"
    unfolding DeleteAclsRequest_body_def DeleteAclsRequest_encode_def wDeleteAclsRequest_def Let_def
        protocol_body.simps
    by (intro emits_rules; use ok in \<open>auto simp: DeleteAclsRequest_ok_def Let_def
        AclFilter_ok_def\<close>)
  show "reads (pb_is_flexible (DeleteAclsRequest_body m)) (DeleteAclsRequest_decode this (pb_version
      (DeleteAclsRequest_body m)))
      (wDeleteAclsRequest m) (DeleteAclsRequest_seen this m)"
    unfolding DeleteAclsRequest_body_def DeleteAclsRequest_decode_def wDeleteAclsRequest_def Let_def
        protocol_body.simps
    by (rule reads_conv, (rule reads_rules | (use ok in \<open>auto simp: DeleteAclsRequest_ok_def Let_def
        AclFilter_ok_def
      DeleteAclsRequest_seen_def; fail\<close>))+)
qed (simp_all add: DeleteAclsRequest_body_def wDeleteAclsRequest_def Let_def)

record MatchingAcl =
  ma_err :: int16
  ma_err_msg :: bytes
  ma_resource :: Resource
  ma_acl :: Acl

definition MatchingAcl_default :: MatchingAcl where
  "MatchingAcl_default = \<lparr>ma_err = 0, ma_err_msg = [], ma_resource = Resource_default, ma_acl =
      Acl_default\<rparr>"

definition MatchingAcl_encode :: "int16 \<Rightarrow> MatchingAcl \<Rightarrow> unit enc" where
  "MatchingAcl_encode version x =
     then_p (putKError (ma_err x))
    (then_p (err_as (- 1) (putNullableString (ma_err_msg x)))
    (then_p (err_as (- 1) (Resource_encode version (ma_resource x)))
       (err_as (- 1) (Acl_encode (ma_acl x)))))"

definition MatchingAcl_decode :: "int16 \<Rightarrow> MatchingAcl \<Rightarrow> MatchingAcl dec" where
  "MatchingAcl_decode version this =
     bind_p (err_as (- 1) getKError) (\<lambda>err.
     bind_p (err_as (- 1) getNullableString) (\<lambda>err_msg.
     bind_p (err_as (- 1) (Resource_decode version (ma_resource this))) (\<lambda>resource.
     bind_p (err_as (- 1) Acl_decode) (\<lambda>acl.
       ret \<lparr>ma_err = err, ma_err_msg = err_msg, ma_resource = resource, ma_acl = acl\<rparr>))))"

definition wMatchingAcl :: "int16 \<Rightarrow> bool \<Rightarrow> MatchingAcl \<Rightarrow> bytes" where
  "wMatchingAcl version fl x =
     be16 (ma_err x) @ wNullableString fl (ma_err_msg x) @ wResource version fl (ma_resource x) @
     wAcl fl (ma_acl x)"

definition MatchingAcl_ok :: "bool \<Rightarrow> MatchingAcl \<Rightarrow> bool" where
  "MatchingAcl_ok fl x \<longleftrightarrow>
     string_ok fl (ma_err_msg x) \<and> Resource_ok fl (ma_resource x) \<and> Acl_ok fl (ma_acl x)"

definition MatchingAcl_seen :: "int16 \<Rightarrow> MatchingAcl \<Rightarrow> MatchingAcl \<Rightarrow>
    MatchingAcl" where
  "MatchingAcl_seen version this x =
     x\<lparr>ma_resource := (Resource_seen version (ma_resource this) (ma_resource x))\<rparr>"

lemma emits_MatchingAcl [emits_rules]:
  "MatchingAcl_ok fl x \<Longrightarrow> emits fl (MatchingAcl_encode version x) (wMatchingAcl version fl x)"
  unfolding MatchingAcl_encode_def wMatchingAcl_def MatchingAcl_ok_def by (intro emits_rules; auto)

lemma reads_MatchingAcl [reads_rules]:
  assumes "MatchingAcl_ok fl x"
  shows "reads fl (MatchingAcl_decode version this) (wMatchingAcl version fl x) (MatchingAcl_seen version this
      x)"
  unfolding MatchingAcl_decode_def wMatchingAcl_def
  by (rule reads_conv, (rule reads_rules | (use assms in \<open>auto simp: MatchingAcl_ok_def
      MatchingAcl_seen_def; fail\<close>))+)

record FilterResponse =
  fr_err :: int16
  fr_err_msg :: bytes
  fr_matching_acls :: "MatchingAcl list"

definition FilterResponse_default :: FilterResponse where
  "FilterResponse_default = \<lparr>fr_err = 0, fr_err_msg = [], fr_matching_acls = []\<rparr>"

definition FilterResponse_encode :: "int16 \<Rightarrow> FilterResponse \<Rightarrow> unit enc" where
  "FilterResponse_encode version x =
     then_p (putKError (fr_err x))
    (then_p (err_as (- 1) (putNullableString (fr_err_msg x)))
       (then_p (err_as (- 1) (putArrayLength (size32 (length (fr_matching_acls x)))))
            (for_each (\<lambda>e. (err_as (- 1) (MatchingAcl_encode version e))) (fr_matching_acls x))))"

definition FilterResponse_decode :: "int16 \<Rightarrow> FilterResponse \<Rightarrow> FilterResponse dec" where
  "FilterResponse_decode version this =
     bind_p (err_as (- 1) getKError) (\<lambda>err.
     bind_p (err_as (- 1) getNullableString) (\<lambda>err_msg.
     bind_p (bind_p (err_as (- 1) getArrayLength) (\<lambda>n. resize_into n MatchingAcl_default
         (fr_matching_acls this) (\<lambda>old. (err_as (- 1) (MatchingAcl_decode version old)))))
         (\<lambda>matching_acls.
       ret \<lparr>fr_err = err, fr_err_msg = err_msg, fr_matching_acls = matching_acls\<rparr>)))"

definition wFilterResponse :: "int16 \<Rightarrow> bool \<Rightarrow> FilterResponse \<Rightarrow> bytes" where
  "wFilterResponse version fl x =
     be16 (fr_err x) @ wNullableString fl (fr_err_msg x) @
     wArray fl (wMatchingAcl version fl) (fr_matching_acls x)"

definition FilterResponse_ok :: "bool \<Rightarrow> FilterResponse \<Rightarrow> bool" where
  "FilterResponse_ok fl x \<longleftrightarrow>
     string_ok fl (fr_err_msg x) \<and> len_ok fl (length (fr_matching_acls x)) \<and>
     (\<forall>e \<in> set (fr_matching_acls x). MatchingAcl_ok fl e)"

definition FilterResponse_seen :: "int16 \<Rightarrow> FilterResponse \<Rightarrow> FilterResponse
    \<Rightarrow> FilterResponse" where
  "FilterResponse_seen version this x =
     x\<lparr>fr_matching_acls := map2 (MatchingAcl_seen version) (resize_to (length (fr_matching_acls x))
         MatchingAcl_default (fr_matching_acls this)) (fr_matching_acls x)\<rparr>"

lemma emits_FilterResponse [emits_rules]:
  "FilterResponse_ok fl x \<Longrightarrow> emits fl (FilterResponse_encode version x) (wFilterResponse version
      fl x)"
  unfolding FilterResponse_encode_def wFilterResponse_def FilterResponse_ok_def by (intro emits_rules; auto)

lemma reads_FilterResponse [reads_rules]:
  assumes "FilterResponse_ok fl x"
  shows "reads fl (FilterResponse_decode version this) (wFilterResponse version fl x) (FilterResponse_seen
      version this x)"
  unfolding FilterResponse_decode_def wFilterResponse_def
  by (rule reads_conv, (rule reads_rules | (use assms in \<open>auto simp: FilterResponse_ok_def
      FilterResponse_seen_def; fail\<close>))+)

record DeleteAclsResponse =
  dls_version :: int16
  dls_throttle_time :: int64
  dls_filter_responses :: "FilterResponse list"

definition DeleteAclsResponse_set_version :: "int16 \<Rightarrow> DeleteAclsResponse \<Rightarrow>
    DeleteAclsResponse" where
  "DeleteAclsResponse_set_version v m = m\<lparr>dls_version := v\<rparr>"

definition DeleteAclsResponse_encode :: "DeleteAclsResponse \<Rightarrow> unit enc" where
  "DeleteAclsResponse_encode m =
     then_p (putDurationMs (dls_throttle_time m))
       (then_p (err_as (- 1) (putArrayLength (size32 (length (dls_filter_responses m)))))
            (for_each (\<lambda>e. (err_as (- 1) (FilterResponse_encode (dls_version m) e)))
                (dls_filter_responses m)))"

definition DeleteAclsResponse_decode :: "DeleteAclsResponse \<Rightarrow> int16 \<Rightarrow>
    DeleteAclsResponse dec" where
  "DeleteAclsResponse_decode this version =
     bind_p (err_as (- 1) getDurationMs) (\<lambda>throttle_time.
     bind_p (bind_p (err_as (- 1) getArrayLength) (\<lambda>n. resize_into n FilterResponse_default
         (dls_filter_responses this) (\<lambda>old. (err_as (- 1) (FilterResponse_decode version old)))))
         (\<lambda>filter_responses.
       ret (this\<lparr>dls_throttle_time := throttle_time, dls_filter_responses :=
         filter_responses\<rparr>)))"

definition DeleteAclsResponse_required_version :: "int16 \<Rightarrow> KafkaVersion" where
  "DeleteAclsResponse_required_version v =
     (if v = 1 then V2_0_0_0 else V0_11_0_0)"

definition DeleteAclsResponse_body :: "DeleteAclsResponse \<Rightarrow> protocol_body" where
  "DeleteAclsResponse_body m =
     \<lparr>pb_key = 31, pb_version = dls_version m,
      pb_header_version = 0,
      pb_is_valid_version = (sint (dls_version m) \<ge> 0 \<and> sint (dls_version m) \<le> 1),
      pb_is_flexible = False,
      pb_is_flexible_version = (\<lambda>_. False),
      pb_required_version = DeleteAclsResponse_required_version (dls_version m),
      pb_encode = DeleteAclsResponse_encode m\<rparr>"

definition wDeleteAclsResponse :: "DeleteAclsResponse \<Rightarrow> bytes" where
  "wDeleteAclsResponse m =
     (let fl = False in
     wDurationMs (dls_throttle_time m) @
     wArray fl (wFilterResponse (dls_version m) fl) (dls_filter_responses m))"

definition DeleteAclsResponse_ok :: "DeleteAclsResponse \<Rightarrow> bool" where
  "DeleteAclsResponse_ok m \<longleftrightarrow>
     (let fl = False in
     duration_ok (dls_throttle_time m) \<and> len_ok fl (length (dls_filter_responses m)) \<and>
     (\<forall>e \<in> set (dls_filter_responses m). FilterResponse_ok fl e))"

definition DeleteAclsResponse_seen :: "DeleteAclsResponse \<Rightarrow> DeleteAclsResponse \<Rightarrow>
    DeleteAclsResponse" where
  "DeleteAclsResponse_seen this m =
     m\<lparr>dls_version := dls_version this, dls_filter_responses := map2 (FilterResponse_seen (dls_version
       m)) (resize_to (length (dls_filter_responses m)) FilterResponse_default (dls_filter_responses this))
       (dls_filter_responses m)\<rparr>"

interpretation dls: protocol_message DeleteAclsResponse_body DeleteAclsResponse_decode wDeleteAclsResponse
  DeleteAclsResponse_ok DeleteAclsResponse_seen
proof
  fix m this :: DeleteAclsResponse
  assume ok: "DeleteAclsResponse_ok m"
  show "emits (pb_is_flexible (DeleteAclsResponse_body m)) (pb_encode (DeleteAclsResponse_body m))
      (wDeleteAclsResponse m)"
    unfolding DeleteAclsResponse_body_def DeleteAclsResponse_encode_def wDeleteAclsResponse_def Let_def
        protocol_body.simps
    by (intro emits_rules; use ok in \<open>auto simp: DeleteAclsResponse_ok_def Let_def \<close>)
  show "reads (pb_is_flexible (DeleteAclsResponse_body m)) (DeleteAclsResponse_decode this (pb_version
      (DeleteAclsResponse_body m)))
      (wDeleteAclsResponse m) (DeleteAclsResponse_seen this m)"
    unfolding DeleteAclsResponse_body_def DeleteAclsResponse_decode_def wDeleteAclsResponse_def Let_def
        protocol_body.simps
    by (rule reads_conv, (rule reads_rules | (use ok in \<open>auto simp: DeleteAclsResponse_ok_def Let_def 
      DeleteAclsResponse_seen_def; fail\<close>))+)
qed (simp_all add: DeleteAclsResponse_body_def wDeleteAclsResponse_def Let_def)

definition DeleteAclsResponse_throttle_time :: "DeleteAclsResponse \<Rightarrow> int64" where
  "DeleteAclsResponse_throttle_time m = dls_throttle_time m"

end
