(* ===== verification/Broker_Address.thy ===== *)
theory Broker_Address
  imports Protocol Decimal
begin

text \<open>
  The address of a broker on the wire: \<^verbatim>\<open>net::JoinHostPort\<close> and \<^verbatim>\<open>net::SplitHostPort\<close> (\<^verbatim>\<open>undefined.h\<close>) and
  \<^verbatim>\<open>Broker::encode\<close> and \<^verbatim>\<open>Broker::decode\<close> (\<^verbatim>\<open>broker.cpp\<close>), which find_coordinator and metadata share.  The
  record holds the three fields that travel; the connection of a broker is not modelled.
\<close>

section \<open>Host and port\<close>

definition colon :: byte where "colon = 58"

definition JoinHostPort :: "bytes \<Rightarrow> int32 \<Rightarrow> bytes" where
  "JoinHostPort host port = host @ colon # to_string_int (sint port)"

text \<open>
  \<^verbatim>\<open>std::stoi\<close>: white space, a sign, digits; what follows the digits is ignored.  Without a digit, or with a
  number that is not an \<^verbatim>\<open>int\<close>, it throws (\<open>None\<close>).
\<close>

definition is_space :: "byte \<Rightarrow> bool" where
  "is_space b \<longleftrightarrow> b = 32 \<or> 9 \<le> b \<and> b \<le> 13"

definition is_dec_digit :: "byte \<Rightarrow> bool" where
  "is_dec_digit b \<longleftrightarrow> 48 \<le> b \<and> b \<le> 57"

definition int_of_digits :: "int \<Rightarrow> bytes \<Rightarrow> int32 option" where
  "int_of_digits sign s =
     (let ds = takeWhile is_dec_digit s; i = sign * int (dec_value ds)
      in if ds = [] \<or> i < - (2 ^ 31) \<or> i \<ge> 2 ^ 31 then None else Some (word_of_int i))"

definition stoi :: "bytes \<Rightarrow> int32 option" where
  "stoi s =
     (case dropWhile is_space s of
        [] \<Rightarrow> None
      | c # cs \<Rightarrow>
          if c = 45 then int_of_digits (- 1) cs else if c = 43 then int_of_digits 1 cs
          else int_of_digits 1 (c # cs))"

definition SplitHostPort :: "bytes \<Rightarrow> (bytes \<times> int32) option" where
  "SplitHostPort addr =
     (case dropWhile (\<lambda>b. b \<noteq> colon) addr of
        [] \<Rightarrow> Some (addr, 0)
      | _ # rest \<Rightarrow> map_option (Pair (takeWhile (\<lambda>b. b \<noteq> colon) addr)) (stoi rest))"

lemma split_first:
  "colon \<notin> set host \<Longrightarrow> dropWhile (\<lambda>b. b \<noteq> colon) (host @ colon # rest) = colon # rest"
  "colon \<notin> set host \<Longrightarrow> takeWhile (\<lambda>b. b \<noteq> colon) (host @ colon # rest) = host"
  by (induction host) auto

lemma no_colon: "colon \<notin> set addr \<Longrightarrow> dropWhile (\<lambda>b. b \<noteq> colon) addr = []"
  by (induction addr) auto

lemma is_dec_digit_digit: "n < 10 \<Longrightarrow> is_dec_digit (digit n)"
  by (auto simp: is_dec_digit_def digit_def word_le_nat_alt unat_of_nat unat_word_ariths)

lemma dec_nat_digits: "b \<in> set (dec_nat n) \<Longrightarrow> is_dec_digit b"
proof (induction n rule: dec_nat.induct)
  case (1 n)
  then show ?case by (subst (asm) (2) dec_nat.simps) (auto simp: is_dec_digit_digit split: if_splits)
qed

lemma digit_not_special:
  assumes "is_dec_digit b" shows "\<not> is_space b" "b \<noteq> 45" "b \<noteq> 43" "b \<noteq> colon"
  using assms by (auto simp: is_dec_digit_def is_space_def colon_def word_le_nat_alt)

lemma int_of_digits_dec_nat:
  assumes "- (2 ^ 31) \<le> sign * int n" "sign * int n < 2 ^ 31"
  shows "int_of_digits sign (dec_nat n) = Some (word_of_int (sign * int n))"
proof -
  have tw: "takeWhile is_dec_digit (dec_nat n) = dec_nat n" by (simp add: takeWhile_eq_all_conv dec_nat_digits)
  show ?thesis using assms unfolding int_of_digits_def Let_def tw by (simp add: dec_value_dec_nat)
qed

lemma stoi_to_string: "stoi (to_string_int (sint p)) = Some (p :: int32)"
proof (cases "sint p < 0")
  case True
  have "- (2 ^ 31) \<le> sint p" using sint_ge [of p] by simp
  then show ?thesis using True int_of_digits_dec_nat [of "- 1" "nat (- sint p)"]
    by (simp add: stoi_def to_string_int_def is_space_def)
next
  case False
  obtain c cs where d: "dec_nat (nat (sint p)) = c # cs" by (cases "dec_nat (nat (sint p))") auto
  then have "is_dec_digit c" using dec_nat_digits [of c "nat (sint p)"] by simp
  moreover have "sint p < 2 ^ 31" using sint_less [of p] by simp
  ultimately show ?thesis using False digit_not_special [of c] int_of_digits_dec_nat [of 1 "nat (sint p)"] d
    by (simp add: stoi_def to_string_int_def)
qed

text \<open>A host without a colon is found again.\<close>

lemma Split_Join: "colon \<notin> set host \<Longrightarrow> SplitHostPort (JoinHostPort host port) = Some (host, port)"
  by (simp add: SplitHostPort_def JoinHostPort_def stoi_to_string split_first)

lemma Split_no_colon: "colon \<notin> set addr \<Longrightarrow> SplitHostPort addr = Some (addr, 0)"
  by (simp add: SplitHostPort_def no_colon)

section \<open>Brokers\<close>

record Broker =
  br_id :: int32
  br_addr :: bytes
  br_rack :: bytes

definition Broker_default :: Broker where
  "Broker_default = \<lparr>br_id = 0, br_addr = [], br_rack = []\<rparr>"

definition localhost :: bytes where "localhost = [108, 111, 99, 97, 108, 104, 111, 115, 116]"
definition loopback :: bytes where "loopback = [49, 50, 55, 46, 48, 46, 48, 46, 49]"

definition Broker_host :: "bytes \<Rightarrow> bytes" where
  "Broker_host host = (if host = localhost then loopback else host)"

text \<open>The tagged fields are written in every version and read from version 5 on.\<close>

definition Broker_encode :: "int16 \<Rightarrow> Broker \<Rightarrow> unit enc" where
  "Broker_encode version x =
     (case SplitHostPort (br_addr x) of
        None \<Rightarrow> (\<lambda>_. Abort)
      | Some (host, port) \<Rightarrow>
          if host = [] then raise 1
          else then_p (putInt32 (br_id x))
              (then_p (putString host)
              (then_p (putInt32 port)
              (then_p (when_p (sint version \<ge> 1) (putNullableString (br_rack x)))
                 putEmptyTaggedFieldArray))))"

definition Broker_decode :: "int16 \<Rightarrow> Broker \<Rightarrow> Broker dec" where
  "Broker_decode version this =
     bind_p getInt32 (\<lambda>b_id.
     bind_p getString (\<lambda>host.
     bind_p getInt32 (\<lambda>port.
     bind_p (field_if (sint version \<ge> 1) getNullableString (br_rack this)) (\<lambda>rack.
     bind_p (field_if (sint version \<ge> 5) getEmptyTaggedFieldArray ()) (\<lambda>_.
       ret \<lparr>br_id = b_id, br_addr = JoinHostPort (Broker_host host) port, br_rack = rack\<rparr>)))))"

definition wBroker :: "int16 \<Rightarrow> bool \<Rightarrow> Broker \<Rightarrow> bytes" where
  "wBroker version fl x =
     (case SplitHostPort (br_addr x) of
        None \<Rightarrow> []
      | Some (host, port) \<Rightarrow>
          be32 (br_id x) @ wString fl host @ be32 port @
          (if sint version \<ge> 1 then wNullableString fl (br_rack x) else []) @
          (if sint version \<ge> 5 then wTags fl else []))"

definition Broker_ok :: "bool \<Rightarrow> Broker \<Rightarrow> bool" where
  "Broker_ok fl x \<longleftrightarrow> string_ok fl (br_rack x) \<and>
     (case SplitHostPort (br_addr x) of
        None \<Rightarrow> False
      | Some (host, port) \<Rightarrow> host \<noteq> [] \<and> string_ok fl host \<and> br_addr x = JoinHostPort host port)"

definition Broker_seen :: "int16 \<Rightarrow> Broker \<Rightarrow> Broker \<Rightarrow> Broker" where
  "Broker_seen version this x =
     (case SplitHostPort (br_addr x) of
        None \<Rightarrow> x
      | Some (host, port) \<Rightarrow>
          x\<lparr>br_addr := JoinHostPort (Broker_host host) port,
            br_rack := (if sint version \<ge> 1 then br_rack x else br_rack this)\<rparr>)"

lemma Broker_okE:
  assumes "Broker_ok fl x"
  obtains host port where "SplitHostPort (br_addr x) = Some (host, port)" "host \<noteq> []" "string_ok fl host"
    "br_addr x = JoinHostPort host port" "string_ok fl (br_rack x)"
  using assms by (auto simp: Broker_ok_def split: option.splits)

text \<open>Only \<^verbatim>\<open>localhost\<close> is read back as something else.\<close>

lemma Broker_seen_same:
  assumes "Broker_ok fl x" "fst (the (SplitHostPort (br_addr x))) \<noteq> localhost" "sint version \<ge> 1"
  shows "Broker_seen version this x = x"
  using assms by (auto simp: Broker_seen_def Broker_host_def elim!: Broker_okE)

lemma emits_no_tags: "emits False putEmptyTaggedFieldArray []"
  using emits_putEmptyTaggedFieldArray [of False] by (simp add: wTags_def)

lemma emits_Broker [emits_rules]:
  assumes "Broker_ok fl x" "fl \<Longrightarrow> sint version \<ge> 5"
  shows "emits fl (Broker_encode version x) (wBroker version fl x)"
proof -
  obtain host port where split: "SplitHostPort (br_addr x) = Some (host, port)"
    and ok: "host \<noteq> []" "string_ok fl host" "string_ok fl (br_rack x)"
    using assms(1) by (auto elim: Broker_okE)
  have tags: "emits fl putEmptyTaggedFieldArray (if sint version \<ge> 5 then wTags fl else [])"
    using assms(2) emits_putEmptyTaggedFieldArray [of fl] emits_no_tags by (cases fl) (auto simp: wTags_def)
  show ?thesis unfolding Broker_encode_def wBroker_def split option.case prod.case if_not_P [OF ok(1)]
    by (intro emits_rules tags ok)
qed

lemma reads_Broker [reads_rules]:
  assumes "Broker_ok fl x"
  shows "reads fl (Broker_decode version this) (wBroker version fl x) (Broker_seen version this x)"
proof -
  obtain host port where split: "SplitHostPort (br_addr x) = Some (host, port)"
    and ok: "string_ok fl host" "string_ok fl (br_rack x)"
    using assms(1) by (auto elim: Broker_okE)
  show ?thesis unfolding Broker_decode_def wBroker_def split option.case prod.case
    by (rule reads_conv, (rule reads_rules ok)+) (simp add: Broker_seen_def split)
qed

text \<open>A broker without a host is refused with error 1, an address that ends in a colon throws.\<close>

lemma Broker_encode_no_host: "br_addr x = [] \<Longrightarrow> Broker_encode version x pe = Err 1 pe"
  by (simp add: Broker_encode_def SplitHostPort_def raise_def)

lemma Broker_encode_no_port:
  "br_addr x = host @ [colon] \<Longrightarrow> colon \<notin> set host \<Longrightarrow> Broker_encode version x pe = Abort"
  by (simp add: Broker_encode_def SplitHostPort_def split_first stoi_def)

end
