(* ===== verification/Group_Admin_Messages.thy ===== *)
theory Group_Admin_Messages
  imports Protocol
begin

text \<open>
  Listing, describing and deleting consumer groups and their offsets: the request and response classes
  DeleteGroups, DescribeGroups, ListGroups and DeleteOffsets.  The version that
      \<^verbatim>\<open>encode\<close> and \<^verbatim>\<open>decode\<close> store
  in the parts of a message is read by nothing else and left out.

  \<^verbatim>\<open>GroupDescription::decode\<close> takes the success of a member for a failure: a group with
      members is refused.
\<close>

section \<open>DeleteGroups\<close>

record DeleteGroupsRequest =
  dgq_version :: int16
  dgq_groups :: "bytes list"

definition DeleteGroupsRequest_set_version :: "int16 \<Rightarrow> DeleteGroupsRequest \<Rightarrow>
    DeleteGroupsRequest" where
  "DeleteGroupsRequest_set_version v m = m\<lparr>dgq_version := v\<rparr>"

definition DeleteGroupsRequest_encode :: "DeleteGroupsRequest \<Rightarrow> unit enc" where
  "DeleteGroupsRequest_encode m =
     then_p (err_as ErrEncodeError (putStringArray (dgq_groups m)))
       putEmptyTaggedFieldArray"

definition DeleteGroupsRequest_decode :: "DeleteGroupsRequest \<Rightarrow> int16 \<Rightarrow>
    DeleteGroupsRequest dec" where
  "DeleteGroupsRequest_decode this version =
     bind_p (err_as ErrDecodeError getStringArray) (\<lambda>groups.
     bind_p getEmptyTaggedFieldArray (\<lambda>_.
       ret \<lparr>dgq_version = version, dgq_groups = groups\<rparr>))"

definition DeleteGroupsRequest_is_flexible_version :: "int16 \<Rightarrow> bool" where
  "DeleteGroupsRequest_is_flexible_version ver \<longleftrightarrow> sint ver \<ge> 2"

definition DeleteGroupsRequest_required_version :: "int16 \<Rightarrow> KafkaVersion" where
  "DeleteGroupsRequest_required_version v =
     (if v = 2 then V2_4_0_0 else if v = 1 then V2_0_0_0 else if v = 0 then V1_1_0_0 else V2_0_0_0)"

definition DeleteGroupsRequest_body :: "DeleteGroupsRequest \<Rightarrow> protocol_body" where
  "DeleteGroupsRequest_body m =
     \<lparr>pb_key = 42, pb_version = dgq_version m,
      pb_header_version = (if sint (dgq_version m) \<ge> 2 then 2 else 1),
      pb_is_valid_version = (sint (dgq_version m) \<ge> 0 \<and> sint (dgq_version m) \<le> 2),
      pb_is_flexible = DeleteGroupsRequest_is_flexible_version (dgq_version m),
      pb_is_flexible_version = DeleteGroupsRequest_is_flexible_version,
      pb_required_version = DeleteGroupsRequest_required_version (dgq_version m),
      pb_encode = DeleteGroupsRequest_encode m\<rparr>"

definition wDeleteGroupsRequest :: "DeleteGroupsRequest \<Rightarrow> bytes" where
  "wDeleteGroupsRequest m =
     (let fl = DeleteGroupsRequest_is_flexible_version (dgq_version m) in
     wStringArray fl (dgq_groups m) @ wTags fl)"

definition DeleteGroupsRequest_ok :: "DeleteGroupsRequest \<Rightarrow> bool" where
  "DeleteGroupsRequest_ok m \<longleftrightarrow>
     (let fl = DeleteGroupsRequest_is_flexible_version (dgq_version m) in
     strings_ok fl (dgq_groups m))"

definition DeleteGroupsRequest_seen :: "DeleteGroupsRequest \<Rightarrow> DeleteGroupsRequest \<Rightarrow>
    DeleteGroupsRequest" where
  "DeleteGroupsRequest_seen this m =
     m"

interpretation dgq: protocol_message DeleteGroupsRequest_body DeleteGroupsRequest_decode wDeleteGroupsRequest
  DeleteGroupsRequest_ok DeleteGroupsRequest_seen
proof
  fix m this :: DeleteGroupsRequest
  assume ok: "DeleteGroupsRequest_ok m"
  show "emits (pb_is_flexible (DeleteGroupsRequest_body m)) (pb_encode (DeleteGroupsRequest_body m))
      (wDeleteGroupsRequest m)"
    unfolding DeleteGroupsRequest_body_def DeleteGroupsRequest_encode_def wDeleteGroupsRequest_def Let_def
        protocol_body.simps
    by (intro emits_rules; use ok in \<open>auto simp: DeleteGroupsRequest_ok_def Let_def \<close>)
  show "reads (pb_is_flexible (DeleteGroupsRequest_body m)) (DeleteGroupsRequest_decode this (pb_version
      (DeleteGroupsRequest_body m)))
      (wDeleteGroupsRequest m) (DeleteGroupsRequest_seen this m)"
    unfolding DeleteGroupsRequest_body_def DeleteGroupsRequest_decode_def wDeleteGroupsRequest_def Let_def
        protocol_body.simps
    by (rule reads_conv, (rule reads_rules | (use ok in \<open>auto simp: DeleteGroupsRequest_ok_def Let_def 
      DeleteGroupsRequest_seen_def; fail\<close>))+)
qed (simp_all add: DeleteGroupsRequest_body_def wDeleteGroupsRequest_def Let_def)

definition DeleteGroupsRequest_add_group :: "bytes \<Rightarrow> DeleteGroupsRequest \<Rightarrow>
    DeleteGroupsRequest" where
  "DeleteGroupsRequest_add_group g m = m\<lparr>dgq_groups := dgq_groups m @ [g]\<rparr>"

definition GroupError_put_entry :: "bytes \<times> int16 \<Rightarrow> unit enc" where
  "GroupError_put_entry kv =
     then_p (err_as ErrEncodeError (putString (fst kv)))
    (then_p (putInt16 (snd kv))
       putEmptyTaggedFieldArray)"

definition GroupError_get_entry :: "(bytes \<times> int16) dec" where
  "GroupError_get_entry =
     bind_p (err_as ErrDecodeError getString) (\<lambda>k.
     bind_p (err_as ErrDecodeError getInt16) (\<lambda>v.
     bind_p (err_as ErrDecodeError getEmptyTaggedFieldArray) (\<lambda>_.
       ret (k, v))))"

definition wGroupError_entry :: "bool \<Rightarrow> bytes \<times> int16 \<Rightarrow> bytes" where
  "wGroupError_entry fl kv =
     wString fl (fst kv) @ be16 (snd kv) @ wTags fl"

definition GroupError_entry_ok :: "bool \<Rightarrow> bytes \<times> int16 \<Rightarrow> bool" where
  "GroupError_entry_ok fl kv \<longleftrightarrow>
     string_ok fl (fst kv)"

lemma emits_GroupError_entry [emits_rules]:
  "GroupError_entry_ok fl kv \<Longrightarrow> emits fl (GroupError_put_entry kv) (wGroupError_entry fl kv)"
  unfolding GroupError_put_entry_def wGroupError_entry_def GroupError_entry_ok_def by (intro emits_rules; auto)

lemma reads_GroupError_entry [reads_rules]:
  assumes "GroupError_entry_ok fl kv"
  shows "reads fl (GroupError_get_entry) (wGroupError_entry fl kv) kv"
  unfolding GroupError_get_entry_def wGroupError_entry_def
  by (rule reads_conv, (rule reads_rules | (use assms in \<open>auto simp: GroupError_entry_ok_def;
      fail\<close>))+)

record DeleteGroupsResponse =
  dgr_version :: int16
  dgr_throttle_time :: int64
  dgr_group_error_codes :: "(bytes \<times> int16) list"

definition DeleteGroupsResponse_set_version :: "int16 \<Rightarrow> DeleteGroupsResponse \<Rightarrow>
    DeleteGroupsResponse" where
  "DeleteGroupsResponse_set_version v m = m\<lparr>dgr_version := v\<rparr>"

definition DeleteGroupsResponse_encode :: "DeleteGroupsResponse \<Rightarrow> unit enc" where
  "DeleteGroupsResponse_encode m =
     then_p (putDurationMs (dgr_throttle_time m))
    (then_p (then_p (err_as ErrEncodeError (putArrayLength (size32 (length (dgr_group_error_codes m)))))
            (for_each GroupError_put_entry (dgr_group_error_codes m)))
       putEmptyTaggedFieldArray)"

definition DeleteGroupsResponse_decode :: "DeleteGroupsResponse \<Rightarrow> int16 \<Rightarrow>
    DeleteGroupsResponse dec" where
  "DeleteGroupsResponse_decode this version =
     bind_p (err_as ErrDecodeError getDurationMs) (\<lambda>throttle_time.
     bind_p (bind_p (err_as ErrDecodeError getArrayLength) (\<lambda>n. put_all (\<lambda>(k, v). smap_put k v)
         n GroupError_get_entry [])) (\<lambda>group_error_codes.
     bind_p getEmptyTaggedFieldArray (\<lambda>_.
       ret \<lparr>dgr_version = version, dgr_throttle_time = throttle_time, dgr_group_error_codes =
         group_error_codes\<rparr>)))"

definition DeleteGroupsResponse_is_flexible_version :: "int16 \<Rightarrow> bool" where
  "DeleteGroupsResponse_is_flexible_version ver \<longleftrightarrow> sint ver \<ge> 2"

definition DeleteGroupsResponse_required_version :: "int16 \<Rightarrow> KafkaVersion" where
  "DeleteGroupsResponse_required_version v =
     (if v = 2 then V2_4_0_0 else if v = 1 then V2_0_0_0 else if v = 0 then V1_1_0_0 else V2_0_0_0)"

definition DeleteGroupsResponse_body :: "DeleteGroupsResponse \<Rightarrow> protocol_body" where
  "DeleteGroupsResponse_body m =
     \<lparr>pb_key = 42, pb_version = dgr_version m,
      pb_header_version = (if sint (dgr_version m) \<ge> 2 then 1 else 0),
      pb_is_valid_version = (sint (dgr_version m) \<ge> 0 \<and> sint (dgr_version m) \<le> 2),
      pb_is_flexible = DeleteGroupsResponse_is_flexible_version (dgr_version m),
      pb_is_flexible_version = DeleteGroupsResponse_is_flexible_version,
      pb_required_version = DeleteGroupsResponse_required_version (dgr_version m),
      pb_encode = DeleteGroupsResponse_encode m\<rparr>"

definition wDeleteGroupsResponse :: "DeleteGroupsResponse \<Rightarrow> bytes" where
  "wDeleteGroupsResponse m =
     (let fl = DeleteGroupsResponse_is_flexible_version (dgr_version m) in
     wDurationMs (dgr_throttle_time m) @ wArray fl (wGroupError_entry fl) (dgr_group_error_codes m) @ wTags fl)"

definition DeleteGroupsResponse_ok :: "DeleteGroupsResponse \<Rightarrow> bool" where
  "DeleteGroupsResponse_ok m \<longleftrightarrow>
     (let fl = DeleteGroupsResponse_is_flexible_version (dgr_version m) in
     duration_ok (dgr_throttle_time m) \<and> len_ok fl (length (dgr_group_error_codes m)) \<and>
     (\<forall>kv \<in> set (dgr_group_error_codes m). GroupError_entry_ok fl kv) \<and>
     smap (dgr_group_error_codes m))"

definition DeleteGroupsResponse_seen :: "DeleteGroupsResponse \<Rightarrow> DeleteGroupsResponse \<Rightarrow>
    DeleteGroupsResponse" where
  "DeleteGroupsResponse_seen this m =
     m"

interpretation dgr: protocol_message DeleteGroupsResponse_body DeleteGroupsResponse_decode wDeleteGroupsResponse
  DeleteGroupsResponse_ok DeleteGroupsResponse_seen
proof
  fix m this :: DeleteGroupsResponse
  assume ok: "DeleteGroupsResponse_ok m"
  show "emits (pb_is_flexible (DeleteGroupsResponse_body m)) (pb_encode (DeleteGroupsResponse_body m))
      (wDeleteGroupsResponse m)"
    unfolding DeleteGroupsResponse_body_def DeleteGroupsResponse_encode_def wDeleteGroupsResponse_def Let_def
        protocol_body.simps
    by (intro emits_rules; use ok in \<open>auto simp: DeleteGroupsResponse_ok_def Let_def \<close>)
  show "reads (pb_is_flexible (DeleteGroupsResponse_body m)) (DeleteGroupsResponse_decode this (pb_version
      (DeleteGroupsResponse_body m)))
      (wDeleteGroupsResponse m) (DeleteGroupsResponse_seen this m)"
    unfolding DeleteGroupsResponse_body_def DeleteGroupsResponse_decode_def wDeleteGroupsResponse_def Let_def
        protocol_body.simps
    by (rule reads_conv, (rule reads_rules | (use ok in \<open>auto simp: DeleteGroupsResponse_ok_def Let_def 
      DeleteGroupsResponse_seen_def; fail\<close>))+)
qed (simp_all add: DeleteGroupsResponse_body_def wDeleteGroupsResponse_def Let_def)

definition DeleteGroupsResponse_throttle_time :: "DeleteGroupsResponse \<Rightarrow> int64" where
  "DeleteGroupsResponse_throttle_time m = dgr_throttle_time m"

section \<open>DescribeGroups\<close>

record DescribeGroupsRequest =
  dcq_version :: int16
  dcq_groups :: "bytes list"
  dcq_include_authorized_operations :: bool

definition DescribeGroupsRequest_set_version :: "int16 \<Rightarrow> DescribeGroupsRequest \<Rightarrow>
    DescribeGroupsRequest" where
  "DescribeGroupsRequest_set_version v m = m\<lparr>dcq_version := v\<rparr>"

definition DescribeGroupsRequest_encode :: "DescribeGroupsRequest \<Rightarrow> unit enc" where
  "DescribeGroupsRequest_encode m =
     then_p (err_as ErrEncodeError (putStringArray (dcq_groups m)))
    (then_p (when_p (sint (dcq_version m) \<ge> 3) (putBool (dcq_include_authorized_operations m)))
       putEmptyTaggedFieldArray)"

definition DescribeGroupsRequest_decode :: "DescribeGroupsRequest \<Rightarrow> int16 \<Rightarrow>
    DescribeGroupsRequest dec" where
  "DescribeGroupsRequest_decode this version =
     bind_p (err_as ErrDecodeError getStringArray) (\<lambda>groups.
     bind_p (field_if (sint version \<ge> 3) (err_as ErrDecodeError getBool) (dcq_include_authorized_operations
         this)) (\<lambda>val.
     bind_p (err_as ErrDecodeError getEmptyTaggedFieldArray) (\<lambda>_.
       ret \<lparr>dcq_version = version, dcq_groups = groups, dcq_include_authorized_operations =
         val\<rparr>)))"

definition DescribeGroupsRequest_is_flexible_version :: "int16 \<Rightarrow> bool" where
  "DescribeGroupsRequest_is_flexible_version ver \<longleftrightarrow> sint ver \<ge> 5"

definition DescribeGroupsRequest_required_version :: "int16 \<Rightarrow> KafkaVersion" where
  "DescribeGroupsRequest_required_version v =
     (if v = 5 then V2_4_0_0 else if v = 4 then V2_4_0_0 else if v = 3 then V2_3_0_0 else if v = 2
      then V2_0_0_0 else if v = 1 then V0_11_0_0 else if v = 0 then V0_9_0_0 else V2_4_0_0)"

definition DescribeGroupsRequest_body :: "DescribeGroupsRequest \<Rightarrow> protocol_body" where
  "DescribeGroupsRequest_body m =
     \<lparr>pb_key = 15, pb_version = dcq_version m,
      pb_header_version = (if sint (dcq_version m) \<ge> 5 then 2 else 1),
      pb_is_valid_version = (sint (dcq_version m) \<ge> 0 \<and> sint (dcq_version m) \<le> 5),
      pb_is_flexible = DescribeGroupsRequest_is_flexible_version (dcq_version m),
      pb_is_flexible_version = DescribeGroupsRequest_is_flexible_version,
      pb_required_version = DescribeGroupsRequest_required_version (dcq_version m),
      pb_encode = DescribeGroupsRequest_encode m\<rparr>"

definition wDescribeGroupsRequest :: "DescribeGroupsRequest \<Rightarrow> bytes" where
  "wDescribeGroupsRequest m =
     (let fl = DescribeGroupsRequest_is_flexible_version (dcq_version m) in
     wStringArray fl (dcq_groups m) @
     (if sint (dcq_version m) \<ge> 3 then wBool (dcq_include_authorized_operations m) else []) @ wTags fl)"

definition DescribeGroupsRequest_ok :: "DescribeGroupsRequest \<Rightarrow> bool" where
  "DescribeGroupsRequest_ok m \<longleftrightarrow>
     (let fl = DescribeGroupsRequest_is_flexible_version (dcq_version m) in
     strings_ok fl (dcq_groups m))"

definition DescribeGroupsRequest_seen :: "DescribeGroupsRequest \<Rightarrow> DescribeGroupsRequest
    \<Rightarrow> DescribeGroupsRequest" where
  "DescribeGroupsRequest_seen this m =
     m\<lparr>dcq_include_authorized_operations := (if sint (dcq_version m) \<ge> 3 then
       (dcq_include_authorized_operations m) else (dcq_include_authorized_operations this))\<rparr>"

interpretation dcq: protocol_message DescribeGroupsRequest_body DescribeGroupsRequest_decode
    wDescribeGroupsRequest
  DescribeGroupsRequest_ok DescribeGroupsRequest_seen
proof
  fix m this :: DescribeGroupsRequest
  assume ok: "DescribeGroupsRequest_ok m"
  show "emits (pb_is_flexible (DescribeGroupsRequest_body m)) (pb_encode (DescribeGroupsRequest_body m))
      (wDescribeGroupsRequest m)"
    unfolding DescribeGroupsRequest_body_def DescribeGroupsRequest_encode_def wDescribeGroupsRequest_def
        Let_def protocol_body.simps
    by (intro emits_rules; use ok in \<open>auto simp: DescribeGroupsRequest_ok_def Let_def \<close>)
  show "reads (pb_is_flexible (DescribeGroupsRequest_body m)) (DescribeGroupsRequest_decode this (pb_version
      (DescribeGroupsRequest_body m)))
      (wDescribeGroupsRequest m) (DescribeGroupsRequest_seen this m)"
    unfolding DescribeGroupsRequest_body_def DescribeGroupsRequest_decode_def wDescribeGroupsRequest_def
        Let_def protocol_body.simps
    by (rule reads_conv, (rule reads_rules | (use ok in \<open>auto simp: DescribeGroupsRequest_ok_def Let_def 
      DescribeGroupsRequest_seen_def; fail\<close>))+)
qed (simp_all add: DescribeGroupsRequest_body_def wDescribeGroupsRequest_def Let_def)

definition DescribeGroupsRequest_add_group :: "bytes \<Rightarrow> DescribeGroupsRequest \<Rightarrow>
    DescribeGroupsRequest" where
  "DescribeGroupsRequest_add_group g m = m\<lparr>dcq_groups := dcq_groups m @ [g]\<rparr>"

record GroupMemberDescription =
  gmd_member_id :: bytes
  gmd_group_instance_id :: bytes
  gmd_client_id :: bytes
  gmd_client_host :: bytes
  gmd_member_metadata :: bytes
  gmd_member_assignment :: bytes

definition GroupMemberDescription_default :: GroupMemberDescription where
  "GroupMemberDescription_default = \<lparr>gmd_member_id = [], gmd_group_instance_id = [], gmd_client_id = [],
      gmd_client_host = [], gmd_member_metadata = [], gmd_member_assignment = []\<rparr>"

definition GroupMemberDescription_encode :: "int16 \<Rightarrow> GroupMemberDescription \<Rightarrow> unit enc"
    where
  "GroupMemberDescription_encode version x =
     then_p (err_as ErrEncodeError (putString (gmd_member_id x)))
    (then_p (when_p (sint version \<ge> 4) (err_as ErrEncodeError (putNullableString (gmd_group_instance_id
        x))))
    (then_p (err_as ErrEncodeError (putString (gmd_client_id x)))
    (then_p (err_as ErrEncodeError (putString (gmd_client_host x)))
    (then_p (err_as ErrEncodeError (putBytes (gmd_member_metadata x)))
    (then_p (err_as ErrEncodeError (putBytes (gmd_member_assignment x)))
       putEmptyTaggedFieldArray)))))"

definition GroupMemberDescription_decode :: "int16 \<Rightarrow> GroupMemberDescription \<Rightarrow>
    (GroupMemberDescription \<times> bool) dec" where
  "GroupMemberDescription_decode version =
     get_into getString (\<lambda>v x. x\<lparr>gmd_member_id := v\<rparr>) (\<lambda>x. x)
    (get_into_if (sint version \<ge> 4) getNullableString (\<lambda>v x. x\<lparr>gmd_group_instance_id :=
        v\<rparr>) (\<lambda>x. x)
    (get_into getString (\<lambda>v x. x\<lparr>gmd_client_id := v\<rparr>) (\<lambda>x. x)
    (get_into getString (\<lambda>v x. x\<lparr>gmd_client_host := v\<rparr>) (\<lambda>x. x)
    (get_into getBytes (\<lambda>v x. x\<lparr>gmd_member_metadata := v\<rparr>) (\<lambda>x. x)
    (get_into getBytes (\<lambda>v x. x\<lparr>gmd_member_assignment := v\<rparr>) (\<lambda>x. x)
    (get_into getEmptyTaggedFieldArray (\<lambda>_ x. x) (\<lambda>x. x) got))))))"

definition wGroupMemberDescription :: "int16 \<Rightarrow> bool \<Rightarrow> GroupMemberDescription
    \<Rightarrow> bytes" where
  "wGroupMemberDescription version fl x =
     wString fl (gmd_member_id x) @
     (if sint version \<ge> 4 then wNullableString fl (gmd_group_instance_id x) else []) @
     wString fl (gmd_client_id x) @ wString fl (gmd_client_host x) @ wBytes fl (gmd_member_metadata x) @
     wBytes fl (gmd_member_assignment x) @ wTags fl"

definition GroupMemberDescription_ok :: "bool \<Rightarrow> GroupMemberDescription \<Rightarrow> bool" where
  "GroupMemberDescription_ok fl x \<longleftrightarrow>
     string_ok fl (gmd_member_id x) \<and> string_ok fl (gmd_group_instance_id x) \<and>
     string_ok fl (gmd_client_id x) \<and> string_ok fl (gmd_client_host x) \<and>
     bytes_ok (gmd_member_metadata x) \<and> bytes_ok (gmd_member_assignment x)"

definition GroupMemberDescription_seen :: "int16 \<Rightarrow> GroupMemberDescription \<Rightarrow>
    GroupMemberDescription \<Rightarrow> GroupMemberDescription" where
  "GroupMemberDescription_seen version this x =
     x\<lparr>gmd_group_instance_id := (if sint version \<ge> 4 then (gmd_group_instance_id x) else
         (gmd_group_instance_id this))\<rparr>"

lemma emits_GroupMemberDescription [emits_rules]:
  "GroupMemberDescription_ok fl x \<Longrightarrow> emits fl (GroupMemberDescription_encode version x)
      (wGroupMemberDescription version fl x)"
  unfolding GroupMemberDescription_encode_def wGroupMemberDescription_def GroupMemberDescription_ok_def by
      (intro emits_rules; auto)

lemma reads_GroupMemberDescription [reads_rules]:
  assumes "GroupMemberDescription_ok fl x"
  shows "reads fl (GroupMemberDescription_decode version this) (wGroupMemberDescription version fl x)
      (GroupMemberDescription_seen version this x, True)"
  unfolding GroupMemberDescription_decode_def wGroupMemberDescription_def
  by (rule reads_conv, (rule into_rules reads_rules | (use assms in \<open>auto simp:
      GroupMemberDescription_ok_def GroupMemberDescription_seen_def; fail\<close>))+)

text \<open>\<open>if (!block->decode(pd, m_version)) return ErrDecodeError; m_members[block->m_member_id] =
    block;\<close>\<close>

definition GroupDescription_get_member :: "int16 \<Rightarrow> (bytes \<times> GroupMemberDescription) dec"
    where
  "GroupDescription_get_member version =
     bind_p (GroupMemberDescription_decode version GroupMemberDescription_default) (\<lambda>(block, ok).
       if ok then raise ErrDecodeError else ret (gmd_member_id block, block))"

record GroupDescription =
  gd_code :: int16
  gd_group_id :: bytes
  gd_state :: bytes
  gd_protocol_type :: bytes
  gd_protocol :: bytes
  gd_members :: "(bytes \<times> GroupMemberDescription) list"
  gd_authorized_operations :: int32

definition GroupDescription_default :: GroupDescription where
  "GroupDescription_default = \<lparr>gd_code = 0, gd_group_id = [], gd_state = [], gd_protocol_type = [],
      gd_protocol = [],
     gd_members = [], gd_authorized_operations = 0\<rparr>"

definition GroupDescription_encode :: "int16 \<Rightarrow> GroupDescription \<Rightarrow> unit enc" where
  "GroupDescription_encode version x =
     then_p (putInt16 (gd_code x))
    (then_p (err_as ErrEncodeError (putString (gd_group_id x)))
    (then_p (err_as ErrEncodeError (putString (gd_state x)))
    (then_p (err_as ErrEncodeError (putString (gd_protocol_type x)))
    (then_p (err_as ErrEncodeError (putString (gd_protocol x)))
    (then_p (then_p (err_as ErrEncodeError (putArrayLength (size32 (length (gd_members x)))))
       (for_each (\<lambda>kv. err_as ErrEncodeError (GroupMemberDescription_encode version (snd kv)))
           (gd_members x)))
    (then_p (when_p (sint version \<ge> 3) (putInt32 (gd_authorized_operations x)))
       putEmptyTaggedFieldArray))))))"

definition GroupDescription_get_members :: "int16 \<Rightarrow> (bytes \<times> GroupMemberDescription) list
    dec" where
  "GroupDescription_get_members version =
     bind_p (err_as ErrDecodeError getArrayLength) (\<lambda>n.
       put_all (\<lambda>(k, v). smap_put k v) n (GroupDescription_get_member version) [])"

definition GroupDescription_decode :: "int16 \<Rightarrow> GroupDescription \<Rightarrow> GroupDescription dec"
    where
  "GroupDescription_decode version this =
     bind_p (err_as ErrDecodeError getInt16) (\<lambda>code.
     bind_p (err_as ErrDecodeError getString) (\<lambda>group_id.
     bind_p (err_as ErrDecodeError getString) (\<lambda>state.
     bind_p (err_as ErrDecodeError getString) (\<lambda>protocol_type.
     bind_p (err_as ErrEncodeError getString) (\<lambda>protocol.
     bind_p (GroupDescription_get_members version) (\<lambda>members.
     bind_p (field_if (sint version \<ge> 3) (err_as ErrDecodeError getInt32) (gd_authorized_operations this))
         (\<lambda>ops.
     bind_p (err_as ErrDecodeError getEmptyTaggedFieldArray) (\<lambda>_.
       ret \<lparr>gd_code = code, gd_group_id = group_id, gd_state = state, gd_protocol_type = protocol_type,
            gd_protocol = protocol, gd_members = members, gd_authorized_operations = ops\<rparr>))))))))"

definition wGroupDescription_head :: "bool \<Rightarrow> GroupDescription \<Rightarrow> bytes" where
  "wGroupDescription_head fl x =
     be16 (gd_code x) @ wString fl (gd_group_id x) @ wString fl (gd_state x) @ wString fl (gd_protocol_type x) @
     wString fl (gd_protocol x)"

definition wGroupDescription :: "int16 \<Rightarrow> bool \<Rightarrow> GroupDescription \<Rightarrow> bytes"
    where
  "wGroupDescription version fl x =
     be16 (gd_code x) @ wString fl (gd_group_id x) @ wString fl (gd_state x) @ wString fl (gd_protocol_type x) @
     wString fl (gd_protocol x) @
     wArray fl (\<lambda>kv. wGroupMemberDescription version fl (snd kv)) (gd_members x) @
     (if sint version \<ge> 3 then be32 (gd_authorized_operations x) else []) @ wTags fl"

text \<open>What fits the layout, and what can also be read back.\<close>

definition GroupDescription_fits :: "bool \<Rightarrow> GroupDescription \<Rightarrow> bool" where
  "GroupDescription_fits fl x \<longleftrightarrow>
     string_ok fl (gd_group_id x) \<and> string_ok fl (gd_state x) \<and> string_ok fl (gd_protocol_type x)
         \<and>
     string_ok fl (gd_protocol x) \<and> len_ok fl (length (gd_members x)) \<and>
     (\<forall>kv \<in> set (gd_members x). GroupMemberDescription_ok fl (snd kv))"

definition GroupDescription_ok :: "bool \<Rightarrow> GroupDescription \<Rightarrow> bool" where
  "GroupDescription_ok fl x \<longleftrightarrow> GroupDescription_fits fl x \<and> gd_members x = []"

definition GroupDescription_seen :: "int16 \<Rightarrow> GroupDescription \<Rightarrow> GroupDescription
    \<Rightarrow> GroupDescription" where
  "GroupDescription_seen version this x =
     (if sint version \<ge> 3 then x else x\<lparr>gd_authorized_operations := gd_authorized_operations
         this\<rparr>)"

lemma emits_GroupDescription_fits:
  "GroupDescription_fits fl x \<Longrightarrow> emits fl (GroupDescription_encode version x) (wGroupDescription
      version fl x)"
  unfolding GroupDescription_encode_def wGroupDescription_def GroupDescription_fits_def by (intro emits_rules)
      auto

lemma emits_GroupDescription [emits_rules]:
  "GroupDescription_ok fl x \<Longrightarrow> emits fl (GroupDescription_encode version x) (wGroupDescription
      version fl x)"
  by (intro emits_GroupDescription_fits) (simp add: GroupDescription_ok_def)

lemma reads_no_members:
  assumes "len_ok fl 0" shows "reads fl (GroupDescription_get_members version) (wArray fl w []) []"
  using reads_err_as [OF reads_getArrayLength [OF assms], of ErrDecodeError] unfolding
      GroupDescription_get_members_def wArray_def
  by (intro reads_conv [OF reads_bind_same]) (auto simp: put_all_def reads_ret)

lemma reads_GroupDescription [reads_rules]:
  assumes "GroupDescription_ok fl x"
  shows "reads fl (GroupDescription_decode version this) (wGroupDescription version fl x)
      (GroupDescription_seen version this x)"
proof -
  have "gd_members x = []" "len_ok fl 0" using assms by (auto simp: GroupDescription_ok_def
      GroupDescription_fits_def)
  note members = reads_no_members [OF this(2)]
  show ?thesis
    unfolding GroupDescription_decode_def wGroupDescription_def \<open>gd_members x = []\<close>
    by (rule reads_conv, (rule members reads_rules | (use assms in \<open>auto simp: GroupDescription_ok_def
      GroupDescription_fits_def GroupDescription_seen_def; fail\<close>))+)
qed

text \<open>A group with members is refused.\<close>

lemma refuses_members:
  assumes "GroupMemberDescription_ok fl (snd kv)" "len_ok fl (length (kv # kvs))"
  shows "refuses fl (GroupDescription_get_members version)
    (wArray fl (\<lambda>kv. wGroupMemberDescription version fl (snd kv)) (kv # kvs)) ErrDecodeError"
proof -
  let ?w = "\<lambda>kv. wGroupMemberDescription version fl (snd kv)"
  have member: "refuses fl (GroupDescription_get_member version) (?w kv) ErrDecodeError"
    unfolding GroupDescription_get_member_def
    using refuses_after [where cs = "[]" and e = ErrDecodeError and
        k = "\<lambda>(block, ok). if ok then raise ErrDecodeError else ret (gmd_member_id block, block)",
        OF reads_GroupMemberDescription [OF assms(1), of version GroupMemberDescription_default]]
    by (simp add: refuses_raise)
  have n: "nat (sint (size32 (length (kv # kvs)))) = Suc (length kvs)" using sint_len [OF assms(2)] by simp
  have "refuses fl (put_all (\<lambda>(k, v). smap_put k v) (size32 (length (kv # kvs)))
      (GroupDescription_get_member version) [])
      (?w kv @ concat (map ?w kvs)) ErrDecodeError"
    unfolding put_all_def n by (simp add: refuses_bind refuses_more member)
  then show ?thesis unfolding GroupDescription_get_members_def wArray_def
    by (intro refuses_after [OF reads_err_as [OF reads_getArrayLength [OF assms(2)]]]) simp
qed

lemma refuses_GroupDescription:
  assumes "GroupDescription_fits fl x" "gd_members x \<noteq> []"
  shows "refuses fl (GroupDescription_decode version this) (wGroupDescription version fl x) ErrDecodeError"
proof -
  obtain kv kvs where ms: "gd_members x = kv # kvs" using assms(2) by (cases "gd_members x") auto
  note ok = assms(1) [unfolded GroupDescription_fits_def ms]
  have "refuses fl (GroupDescription_get_members version)
      (wArray fl (\<lambda>kv. wGroupMemberDescription version fl (snd kv)) (kv # kvs)) ErrDecodeError"
    using ok by (intro refuses_members) auto
  then show ?thesis
    unfolding GroupDescription_decode_def wGroupDescription_def ms
    by (intro refuses_after [OF reads_err_as [OF reads_getInt16]] refuses_after [OF reads_err_as [OF
        reads_getString]]
        refuses_bind refuses_more; use ok in simp)
qed

record DescribeGroupsResponse =
  dcr_version :: int16
  dcr_throttle_time :: int64
  dcr_groups :: "GroupDescription list"

definition DescribeGroupsResponse_set_version :: "int16 \<Rightarrow> DescribeGroupsResponse \<Rightarrow>
    DescribeGroupsResponse" where
  "DescribeGroupsResponse_set_version v m = m\<lparr>dcr_version := v\<rparr>"

definition DescribeGroupsResponse_encode :: "DescribeGroupsResponse \<Rightarrow> unit enc" where
  "DescribeGroupsResponse_encode m =
     then_p (when_p (sint (dcr_version m) \<ge> 1) (putDurationMs (dcr_throttle_time m)))
    (then_p (then_p (err_as ErrEncodeError (putArrayLength (size32 (length (dcr_groups m)))))
            (for_each (\<lambda>e. (err_as ErrEncodeError (GroupDescription_encode (dcr_version m) e)))
                (dcr_groups m)))
       putEmptyTaggedFieldArray)"

definition DescribeGroupsResponse_decode :: "DescribeGroupsResponse \<Rightarrow> int16 \<Rightarrow>
    DescribeGroupsResponse dec" where
  "DescribeGroupsResponse_decode this version =
     bind_p (field_if (sint version \<ge> 1) (err_as ErrEncodeError getDurationMs) (dcr_throttle_time this))
         (\<lambda>throttle_time.
     bind_p (bind_p (err_as ErrEncodeError getArrayLength) (\<lambda>n. read_n n (err_as ErrEncodeError
         (GroupDescription_decode version GroupDescription_default)))) (\<lambda>groups.
     bind_p (err_as ErrEncodeError getEmptyTaggedFieldArray) (\<lambda>_.
       ret \<lparr>dcr_version = version, dcr_throttle_time = throttle_time, dcr_groups = groups\<rparr>)))"

definition DescribeGroupsResponse_is_flexible_version :: "int16 \<Rightarrow> bool" where
  "DescribeGroupsResponse_is_flexible_version ver \<longleftrightarrow> sint ver \<ge> 5"

definition DescribeGroupsResponse_required_version :: "int16 \<Rightarrow> KafkaVersion" where
  "DescribeGroupsResponse_required_version v =
     (if v = 5 then V2_4_0_0 else if v = 4 then V2_4_0_0 else if v = 3 then V2_3_0_0 else if v = 2
      then V2_0_0_0 else if v = 1 then V0_11_0_0 else if v = 0 then V0_9_0_0 else V2_4_0_0)"

definition DescribeGroupsResponse_body :: "DescribeGroupsResponse \<Rightarrow> protocol_body" where
  "DescribeGroupsResponse_body m =
     \<lparr>pb_key = 15, pb_version = dcr_version m,
      pb_header_version = (if sint (dcr_version m) \<ge> 5 then 1 else 0),
      pb_is_valid_version = (sint (dcr_version m) \<ge> 0 \<and> sint (dcr_version m) \<le> 5),
      pb_is_flexible = DescribeGroupsResponse_is_flexible_version (dcr_version m),
      pb_is_flexible_version = DescribeGroupsResponse_is_flexible_version,
      pb_required_version = DescribeGroupsResponse_required_version (dcr_version m),
      pb_encode = DescribeGroupsResponse_encode m\<rparr>"

definition wDescribeGroupsResponse :: "DescribeGroupsResponse \<Rightarrow> bytes" where
  "wDescribeGroupsResponse m =
     (let fl = DescribeGroupsResponse_is_flexible_version (dcr_version m) in
     (if sint (dcr_version m) \<ge> 1 then wDurationMs (dcr_throttle_time m) else []) @
     wArray fl (wGroupDescription (dcr_version m) fl) (dcr_groups m) @ wTags fl)"

definition DescribeGroupsResponse_ok :: "DescribeGroupsResponse \<Rightarrow> bool" where
  "DescribeGroupsResponse_ok m \<longleftrightarrow>
     (let fl = DescribeGroupsResponse_is_flexible_version (dcr_version m) in
     duration_ok (dcr_throttle_time m) \<and> len_ok fl (length (dcr_groups m)) \<and>
     (\<forall>e \<in> set (dcr_groups m). GroupDescription_ok fl e))"

definition DescribeGroupsResponse_seen :: "DescribeGroupsResponse \<Rightarrow> DescribeGroupsResponse
    \<Rightarrow> DescribeGroupsResponse" where
  "DescribeGroupsResponse_seen this m =
     m\<lparr>dcr_throttle_time := (if sint (dcr_version m) \<ge> 1 then (dcr_throttle_time m) else
       (dcr_throttle_time this)), dcr_groups := map (GroupDescription_seen (dcr_version m)
       GroupDescription_default) (dcr_groups m)\<rparr>"

interpretation dcr: protocol_message DescribeGroupsResponse_body DescribeGroupsResponse_decode
    wDescribeGroupsResponse
  DescribeGroupsResponse_ok DescribeGroupsResponse_seen
proof
  fix m this :: DescribeGroupsResponse
  assume ok: "DescribeGroupsResponse_ok m"
  show "emits (pb_is_flexible (DescribeGroupsResponse_body m)) (pb_encode (DescribeGroupsResponse_body m))
      (wDescribeGroupsResponse m)"
    unfolding DescribeGroupsResponse_body_def DescribeGroupsResponse_encode_def wDescribeGroupsResponse_def
        Let_def protocol_body.simps
    by (intro emits_rules; use ok in \<open>auto simp: DescribeGroupsResponse_ok_def Let_def \<close>)
  show "reads (pb_is_flexible (DescribeGroupsResponse_body m)) (DescribeGroupsResponse_decode this (pb_version
      (DescribeGroupsResponse_body m)))
      (wDescribeGroupsResponse m) (DescribeGroupsResponse_seen this m)"
    unfolding DescribeGroupsResponse_body_def DescribeGroupsResponse_decode_def wDescribeGroupsResponse_def
        Let_def protocol_body.simps
    by (rule reads_conv, (rule reads_rules | (use ok in \<open>auto simp: DescribeGroupsResponse_ok_def Let_def 
      DescribeGroupsResponse_seen_def; fail\<close>))+)
qed (simp_all add: DescribeGroupsResponse_body_def wDescribeGroupsResponse_def Let_def)

definition DescribeGroupsResponse_throttle_time :: "DescribeGroupsResponse \<Rightarrow> int64" where
  "DescribeGroupsResponse_throttle_time m = dcr_throttle_time m"

text \<open>A response in which some group has members is written, and refused when it is read.\<close>

definition DescribeGroupsResponse_fits :: "DescribeGroupsResponse \<Rightarrow> bool" where
  "DescribeGroupsResponse_fits m \<longleftrightarrow>
     (let fl = DescribeGroupsResponse_is_flexible_version (dcr_version m) in
     duration_ok (dcr_throttle_time m) \<and> len_ok fl (length (dcr_groups m)) \<and>
     (\<forall>g \<in> set (dcr_groups m). GroupDescription_fits fl g))"

lemma describe_groups_writes:
  assumes "DescribeGroupsResponse_fits m"
  shows "emits (pb_is_flexible (DescribeGroupsResponse_body m)) (pb_encode (DescribeGroupsResponse_body m))
    (wDescribeGroupsResponse m)"
  unfolding DescribeGroupsResponse_body_def DescribeGroupsResponse_encode_def wDescribeGroupsResponse_def
      Let_def
    protocol_body.simps
  by (intro emits_rules emits_GroupDescription_fits; use assms in \<open>auto simp:
      DescribeGroupsResponse_fits_def Let_def\<close>)

lemma describe_groups_refused:
  assumes fits: "DescribeGroupsResponse_fits m" and some: "\<exists>g \<in> set (dcr_groups m). gd_members g
      \<noteq> []"
    and small: "length (wDescribeGroupsResponse m) < 2 ^ 31"
  shows "decode_version (wDescribeGroupsResponse m)
    (body_VDecoder (DescribeGroupsResponse_body this) (DescribeGroupsResponse_decode this) this) (dcr_version
        m) =
    Err ErrEncodeError ()"
proof (rule decode_refuses [OF _ _ small])
  let ?v = "dcr_version m" and ?fl = "DescribeGroupsResponse_is_flexible_version (dcr_version m)"
  obtain gs g gs' where groups: "dcr_groups m = gs @ g # gs'" and g: "gd_members g \<noteq> []"
    and gs: "\<forall>x \<in> set gs. gd_members x = []"
    using split_list_first_prop [OF some] by blast
  note ok = fits [unfolded DescribeGroupsResponse_fits_def Let_def groups]
  let ?m = "err_as ErrEncodeError (GroupDescription_decode ?v GroupDescription_default)"
  have "nat (sint (size32 (length (dcr_groups m)))) = Suc (length gs + length gs')"
    using ok sint_len [of ?fl "length (dcr_groups m)"] by (simp add: groups)
  moreover have "refuses ?fl (replicate_p (Suc (length gs + length gs')) ?m)
      (concat (map (wGroupDescription ?v ?fl) gs) @ wGroupDescription ?v ?fl g @
        concat (map (wGroupDescription ?v ?fl) gs')) ErrEncodeError"
    by (rule refuses_replicate [where g = "GroupDescription_seen ?v GroupDescription_default"])
      (use ok g gs in \<open>auto simp: GroupDescription_ok_def intro!: reads_err_as reads_GroupDescription
        refuses_err_as [OF refuses_GroupDescription]\<close>)
  ultimately have "refuses ?fl (read_n (size32 (length (dcr_groups m))) ?m)
      (concat (map (wGroupDescription ?v ?fl) (dcr_groups m))) ErrEncodeError"
    by (simp add: read_n_def groups)
  then have array: "refuses ?fl (bind_p (err_as ErrEncodeError getArrayLength) (\<lambda>n. read_n n ?m))
      (wArray ?fl (wGroupDescription ?v ?fl) (dcr_groups m)) ErrEncodeError"
    unfolding wArray_def using ok groups
    by (intro refuses_after [OF reads_err_as [OF reads_getArrayLength]]) simp_all
  have "refuses ?fl (DescribeGroupsResponse_decode this ?v) (wDescribeGroupsResponse m) ErrEncodeError"
    unfolding DescribeGroupsResponse_decode_def wDescribeGroupsResponse_def Let_def
    by (intro refuses_after [OF reads_field_if [OF reads_err_as [OF reads_getDurationMs]]] refuses_bind
        refuses_more array)
      (use ok in simp)
  then show "refuses False (prepare_flexible_decoder (body_VDecoder (DescribeGroupsResponse_body this)
      (DescribeGroupsResponse_decode this) this) ?v) (wDescribeGroupsResponse m) ErrEncodeError"
    by (cases ?fl) (auto simp: prepare_flexible_decoder_def body_VDecoder_def DescribeGroupsResponse_body_def
        intro: refuses_with_flexible)
  show "wDescribeGroupsResponse m \<noteq> []" by (simp add: wDescribeGroupsResponse_def Let_def)
qed

section \<open>ListGroups\<close>

text \<open>Below version 3 the request is empty, and decoding an empty packet changes nothing.\<close>

lemma wTags_nonempty: "wTags True \<noteq> []"
  by (simp add: wTags_def)

lemma reads_strings_array [reads_rules]:
  assumes "len_ok fl (length ss)" "\<And>s. s \<in> set ss \<Longrightarrow> string_ok fl s"
  shows "reads fl getStringArray (wArray fl (wString fl) ss) ss"
  using reads_getStringArray [OF assms] by (simp add: wArray_def wStringArray_def)

record ListGroupsRequest =
  lsq_version :: int16
  lsq_states_filter :: "bytes list"
  lsq_types_filter :: "bytes list"

definition ListGroupsRequest_set_version :: "int16 \<Rightarrow> ListGroupsRequest \<Rightarrow>
    ListGroupsRequest" where
  "ListGroupsRequest_set_version v m = m\<lparr>lsq_version := v\<rparr>"

definition ListGroupsRequest_encode :: "ListGroupsRequest \<Rightarrow> unit enc" where
  "ListGroupsRequest_encode m =
     then_p (when_p (sint (lsq_version m) \<ge> 4) (then_p (putArrayLength (size32 (length (lsq_states_filter
         m)))) (for_each putString (lsq_states_filter m))))
    (then_p (when_p (sint (lsq_version m) \<ge> 5) (then_p (putArrayLength (size32 (length (lsq_types_filter
        m)))) (for_each putString (lsq_types_filter m))))
       putEmptyTaggedFieldArray)"

definition ListGroupsRequest_decode :: "ListGroupsRequest \<Rightarrow> int16 \<Rightarrow> ListGroupsRequest
    dec" where
  "ListGroupsRequest_decode this version =
     bind_p (field_if (sint version \<ge> 4) getStringArray (lsq_states_filter this)) (\<lambda>states_filter.
     bind_p (field_if (sint version \<ge> 5) getStringArray (lsq_types_filter this)) (\<lambda>types_filter.
     bind_p getEmptyTaggedFieldArray (\<lambda>_.
       ret \<lparr>lsq_version = version, lsq_states_filter = states_filter, lsq_types_filter =
         types_filter\<rparr>)))"

definition ListGroupsRequest_is_flexible_version :: "int16 \<Rightarrow> bool" where
  "ListGroupsRequest_is_flexible_version ver \<longleftrightarrow> sint ver \<ge> 3"

definition ListGroupsRequest_required_version :: "int16 \<Rightarrow> KafkaVersion" where
  "ListGroupsRequest_required_version v =
     (if v = 5 then V3_8_0_0 else if v = 4 then V2_6_0_0 else if v = 3 then V2_4_0_0 else if v = 2
      then V2_0_0_0 else if v = 1 then V0_11_0_0 else if v = 0 then V0_9_0_0 else V2_6_0_0)"

definition ListGroupsRequest_body :: "ListGroupsRequest \<Rightarrow> protocol_body" where
  "ListGroupsRequest_body m =
     \<lparr>pb_key = 16, pb_version = lsq_version m,
      pb_header_version = (if sint (lsq_version m) \<ge> 3 then 2 else 1),
      pb_is_valid_version = (sint (lsq_version m) \<ge> 0 \<and> sint (lsq_version m) \<le> 5),
      pb_is_flexible = ListGroupsRequest_is_flexible_version (lsq_version m),
      pb_is_flexible_version = ListGroupsRequest_is_flexible_version,
      pb_required_version = ListGroupsRequest_required_version (lsq_version m),
      pb_encode = ListGroupsRequest_encode m\<rparr>"

definition wListGroupsRequest :: "ListGroupsRequest \<Rightarrow> bytes" where
  "wListGroupsRequest m =
     (let fl = ListGroupsRequest_is_flexible_version (lsq_version m) in
     (if sint (lsq_version m) \<ge> 4 then wArray fl (wString fl) (lsq_states_filter m) else []) @
     (if sint (lsq_version m) \<ge> 5 then wArray fl (wString fl) (lsq_types_filter m) else []) @ wTags fl)"

definition ListGroupsRequest_ok :: "ListGroupsRequest \<Rightarrow> bool" where
  "ListGroupsRequest_ok m \<longleftrightarrow>
     (let fl = ListGroupsRequest_is_flexible_version (lsq_version m) in
     len_ok fl (length (lsq_states_filter m)) \<and> (\<forall>s \<in> set (lsq_states_filter m). string_ok fl
         s) \<and>
     len_ok fl (length (lsq_types_filter m)) \<and> (\<forall>s \<in> set (lsq_types_filter m). string_ok fl s)
         \<and>
     3 \<le> sint (lsq_version m))"

definition ListGroupsRequest_seen :: "ListGroupsRequest \<Rightarrow> ListGroupsRequest \<Rightarrow>
    ListGroupsRequest" where
  "ListGroupsRequest_seen this m =
     m\<lparr>lsq_states_filter := (if sint (lsq_version m) \<ge> 4 then (lsq_states_filter m) else
       (lsq_states_filter this)), lsq_types_filter := (if sint (lsq_version m) \<ge> 5 then (lsq_types_filter m)
       else (lsq_types_filter this))\<rparr>"

interpretation lsq: protocol_message ListGroupsRequest_body ListGroupsRequest_decode wListGroupsRequest
  ListGroupsRequest_ok ListGroupsRequest_seen
proof
  fix m this :: ListGroupsRequest
  assume ok: "ListGroupsRequest_ok m"
  show "emits (pb_is_flexible (ListGroupsRequest_body m)) (pb_encode (ListGroupsRequest_body m))
      (wListGroupsRequest m)"
    unfolding ListGroupsRequest_body_def ListGroupsRequest_encode_def wListGroupsRequest_def Let_def
        protocol_body.simps
    by (intro emits_rules; use ok in \<open>auto simp: ListGroupsRequest_ok_def Let_def \<close>)
  show "reads (pb_is_flexible (ListGroupsRequest_body m)) (ListGroupsRequest_decode this (pb_version
      (ListGroupsRequest_body m)))
      (wListGroupsRequest m) (ListGroupsRequest_seen this m)"
    unfolding ListGroupsRequest_body_def ListGroupsRequest_decode_def wListGroupsRequest_def Let_def
        protocol_body.simps
    by (rule reads_conv, (rule reads_rules | (use ok in \<open>auto simp: ListGroupsRequest_ok_def Let_def 
      ListGroupsRequest_seen_def; fail\<close>))+)
qed (simp_all add: ListGroupsRequest_body_def wListGroupsRequest_def Let_def wTags_nonempty
    ListGroupsRequest_ok_def ListGroupsRequest_is_flexible_version_def)

record GroupData =
  gdt_group_state :: bytes
  gdt_group_type :: bytes

record ListGroupsResponse =
  lsr_version :: int16
  lsr_throttle_time :: int64
  lsr_err :: int16
  lsr_groups :: "(bytes \<times> bytes) list"
  lsr_groups_data :: "(bytes \<times> GroupData) list"

definition ListGroupsResponse_set_version :: "int16 \<Rightarrow> ListGroupsResponse \<Rightarrow>
    ListGroupsResponse" where
  "ListGroupsResponse_set_version v m = m\<lparr>lsr_version := v\<rparr>"

text \<open>\<^verbatim>\<open>m_groups_data.at(groupId)\<close> throws for a group without data.\<close>

definition at_map :: "('k \<times> 'v) list \<Rightarrow> 'k \<Rightarrow> ('v \<Rightarrow> ('s, 'a) prog)
    \<Rightarrow> ('s, 'a) prog" where
  "at_map m k f = (case map_of m k of None \<Rightarrow> (\<lambda>_. Abort) | Some v \<Rightarrow> f v)"

definition ListGroups_put_group :: "int16 \<Rightarrow> (bytes \<times> GroupData) list \<Rightarrow> bytes
    \<times> bytes \<Rightarrow> unit enc" where
  "ListGroups_put_group version data kv =
     then_p (putString (fst kv))
    (then_p (putString (snd kv))
    (then_p (when_p (sint version \<ge> 4) (at_map data (fst kv) (\<lambda>gd. putString (gdt_group_state gd))))
    (then_p (when_p (sint version \<ge> 5) (at_map data (fst kv) (\<lambda>gd. putString (gdt_group_type gd))))
       putEmptyTaggedFieldArray)))"

definition ListGroupsResponse_encode :: "ListGroupsResponse \<Rightarrow> unit enc" where
  "ListGroupsResponse_encode m =
     then_p (when_p (sint (lsr_version m) \<ge> 1) (putDurationMs (lsr_throttle_time m)))
    (then_p (putKError (lsr_err m))
    (then_p (then_p (putArrayLength (size32 (length (lsr_groups m))))
       (for_each (ListGroups_put_group (lsr_version m) (lsr_groups_data m)) (lsr_groups m)))
       putEmptyTaggedFieldArray))"

text \<open>One round of the loop: a group, its protocol and (from version 4 on) its data.\<close>

definition ListGroups_get_group :: "int16 \<Rightarrow> (bytes \<times> bytes \<times> GroupData option) dec"
    where
  "ListGroups_get_group version =
     bind_p getString (\<lambda>groupId.
     bind_p getString (\<lambda>protocolType.
     bind_p (field_if (sint version \<ge> 4)
       (bind_p getString (\<lambda>group_state.
        bind_p (field_if (sint version \<ge> 5) getString []) (\<lambda>group_type.
          ret (Some \<lparr>gdt_group_state = group_state, gdt_group_type = group_type\<rparr>)))) None)
              (\<lambda>gd.
     bind_p getEmptyTaggedFieldArray (\<lambda>_.
       ret (groupId, protocolType, gd)))))"

fun ListGroups_insert :: "bytes \<times> bytes \<times> GroupData option \<Rightarrow> (bytes \<times> bytes)
    list \<times> (bytes \<times> GroupData) list \<Rightarrow>
    (bytes \<times> bytes) list \<times> (bytes \<times> GroupData) list" where
  "ListGroups_insert (k, p, gd) (groups, data) =
     (AList.update k p groups, case gd of None \<Rightarrow> data | Some d \<Rightarrow> AList.update k d data)"

definition ListGroups_cleared :: "int16 \<Rightarrow> int32 \<Rightarrow> ListGroupsResponse \<Rightarrow>
    (bytes \<times> bytes) list \<times> (bytes \<times> GroupData) list" where
  "ListGroups_cleared version n this =
     (if sint n > 0 then ([], if sint version \<ge> 4 then [] else lsr_groups_data this)
      else (lsr_groups this, lsr_groups_data this))"

definition ListGroupsResponse_decode :: "ListGroupsResponse \<Rightarrow> int16 \<Rightarrow>
    ListGroupsResponse dec" where
  "ListGroupsResponse_decode this version =
     bind_p (field_if (sint version \<ge> 1) getDurationMs (lsr_throttle_time this)) (\<lambda>throttle_time.
     bind_p getKError (\<lambda>err.
     bind_p (bind_p getArrayLength (\<lambda>n.
       loop_p (nat (sint n)) ListGroups_insert (ListGroups_get_group version)
         (ListGroups_cleared version n this))) (\<lambda>gd.
     bind_p getEmptyTaggedFieldArray (\<lambda>_.
       ret \<lparr>lsr_version = version, lsr_throttle_time = throttle_time, lsr_err = err, lsr_groups = fst gd,
            lsr_groups_data = snd gd\<rparr>))))"

definition ListGroupsResponse_is_flexible_version :: "int16 \<Rightarrow> bool" where
  "ListGroupsResponse_is_flexible_version ver \<longleftrightarrow> sint ver \<ge> 3"

definition ListGroupsResponse_required_version :: "int16 \<Rightarrow> KafkaVersion" where
  "ListGroupsResponse_required_version v =
     (if v = 5 then V3_8_0_0 else if v = 4 then V2_6_0_0 else if v = 3 then V2_4_0_0 else if v = 2 then V2_0_0_0
      else if v = 1 then V0_11_0_0 else if v = 0 then V0_9_0_0 else V2_6_0_0)"

definition ListGroupsResponse_body :: "ListGroupsResponse \<Rightarrow> protocol_body" where
  "ListGroupsResponse_body m =
     \<lparr>pb_key = 16, pb_version = lsr_version m,
      pb_header_version = (if sint (lsr_version m) \<ge> 3 then 1 else 0),
      pb_is_valid_version = (sint (lsr_version m) \<ge> 0 \<and> sint (lsr_version m) \<le> 5),
      pb_is_flexible = ListGroupsResponse_is_flexible_version (lsr_version m),
      pb_is_flexible_version = ListGroupsResponse_is_flexible_version,
      pb_required_version = ListGroupsResponse_required_version (lsr_version m),
      pb_encode = ListGroupsResponse_encode m\<rparr>"

text \<open>A group with its data: what one round of the loop writes.\<close>

definition wListGroup :: "int16 \<Rightarrow> bool \<Rightarrow> (bytes \<times> GroupData) list \<Rightarrow>
    bytes \<times> bytes \<Rightarrow> bytes" where
  "wListGroup version fl data kv =
     wString fl (fst kv) @ wString fl (snd kv) @
     (if sint version \<ge> 4
      then wString fl (gdt_group_state (the (map_of data (fst kv)))) @
        (if sint version \<ge> 5 then wString fl (gdt_group_type (the (map_of data (fst kv)))) else [])
      else []) @ wTags fl"

definition wListGroupsResponse :: "ListGroupsResponse \<Rightarrow> bytes" where
  "wListGroupsResponse m =
     (let fl = ListGroupsResponse_is_flexible_version (lsr_version m) in
     (if sint (lsr_version m) \<ge> 1 then wDurationMs (lsr_throttle_time m) else []) @ be16 (lsr_err m) @
     wArray fl (wListGroup (lsr_version m) fl (lsr_groups_data m)) (lsr_groups m) @ wTags fl)"

text \<open>From version 4 on every group has its data.\<close>

definition ListGroup_ok :: "int16 \<Rightarrow> bool \<Rightarrow> (bytes \<times> GroupData) list
    \<Rightarrow> bytes \<times> bytes \<Rightarrow> bool" where
  "ListGroup_ok version fl data kv \<longleftrightarrow>
     string_ok fl (fst kv) \<and> string_ok fl (snd kv) \<and>
     (sint version \<ge> 4 \<longrightarrow> (case map_of data (fst kv) of None \<Rightarrow> False
        | Some gd \<Rightarrow> string_ok fl (gdt_group_state gd) \<and> string_ok fl (gdt_group_type gd)))"

definition ListGroupsResponse_ok :: "ListGroupsResponse \<Rightarrow> bool" where
  "ListGroupsResponse_ok m \<longleftrightarrow>
     (let fl = ListGroupsResponse_is_flexible_version (lsr_version m) in
     duration_ok (lsr_throttle_time m) \<and> len_ok fl (length (lsr_groups m)) \<and>
     distinct (map fst (lsr_groups m)) \<and>
     (\<forall>kv \<in> set (lsr_groups m). ListGroup_ok (lsr_version m) fl (lsr_groups_data m) kv))"

definition ListGroup_data :: "int16 \<Rightarrow> (bytes \<times> GroupData) list \<Rightarrow> bytes
    \<Rightarrow> GroupData" where
  "ListGroup_data version data k =
     (let gd = the (map_of data k) in if sint version \<ge> 5 then gd else gd\<lparr>gdt_group_type :=
         []\<rparr>)"

definition ListGroup_entry :: "int16 \<Rightarrow> (bytes \<times> GroupData) list \<Rightarrow> bytes \<times>
    bytes \<Rightarrow>
    bytes \<times> bytes \<times> GroupData option" where
  "ListGroup_entry version data kv =
     (fst kv, snd kv, if sint version \<ge> 4 then Some (ListGroup_data version data (fst kv)) else None)"

text \<open>The data read back follow the order of the groups; without groups the old maps stay.\<close>

definition ListGroupsResponse_seen :: "ListGroupsResponse \<Rightarrow> ListGroupsResponse \<Rightarrow>
    ListGroupsResponse" where
  "ListGroupsResponse_seen this m =
     (let v = lsr_version m; gs = lsr_groups m in
      m\<lparr>lsr_throttle_time := (if sint v \<ge> 1 then lsr_throttle_time m else lsr_throttle_time this),
        lsr_groups := (if gs = [] then lsr_groups this else gs),
        lsr_groups_data := (if gs = [] \<or> \<not> sint v \<ge> 4 then lsr_groups_data this
          else map (\<lambda>kv. (fst kv, ListGroup_data v (lsr_groups_data m) (fst kv))) gs)\<rparr>)"

lemma emits_at_map [emits_rules]:
  "map_of m k = Some v \<Longrightarrow> emits fl (f v) bs \<Longrightarrow> emits fl (at_map m k f) bs"
  by (simp add: at_map_def)

lemma emits_ListGroup [emits_rules]:
  assumes "ListGroup_ok version fl data kv"
  shows "emits fl (ListGroups_put_group version data kv) (wListGroup version fl data kv)"
proof (cases "sint version \<ge> 4")
  case True
  then obtain gd where gd: "map_of data (fst kv) = Some gd" "string_ok fl (gdt_group_state gd)" "string_ok fl
      (gdt_group_type gd)"
    using assms by (auto simp: ListGroup_ok_def split: option.splits)
  have "emits fl (ListGroups_put_group version data kv)
      (wString fl (fst kv) @ wString fl (snd kv) @ (if sint version \<ge> 4 then wString fl (gdt_group_state
          gd) else []) @
       (if sint version \<ge> 5 then wString fl (gdt_group_type gd) else []) @ wTags fl)"
    unfolding ListGroups_put_group_def
    by (intro emits_rules emits_at_map [OF gd(1)] gd; use assms in \<open>simp add: ListGroup_ok_def\<close>)
  then show ?thesis using True gd(1) by (cases "sint version \<ge> 5") (simp_all add: wListGroup_def)
next
  case False
  have "emits fl (then_p (putString (fst kv)) (then_p (putString (snd kv)) putEmptyTaggedFieldArray))
      (wString fl (fst kv) @ wString fl (snd kv) @ wTags fl)"
    by (intro emits_rules; use assms in \<open>simp add: ListGroup_ok_def\<close>)
  then show ?thesis
    using False by (simp add: ListGroups_put_group_def wListGroup_def when_p_def then_p_def bind_p_def ret_def)
qed

lemma reads_ListGroup [reads_rules]:
  assumes "ListGroup_ok version fl data kv"
  shows "reads fl (ListGroups_get_group version) (wListGroup version fl data kv) (ListGroup_entry version data
      kv)"
  unfolding ListGroups_get_group_def wListGroup_def
  by (rule reads_conv, (rule reads_rules | (use assms in \<open>auto simp: ListGroup_ok_def ListGroup_entry_def
      ListGroup_data_def Let_def split: option.splits; fail\<close>))+)

lemma AList_update_new: "k \<notin> fst ` set m \<Longrightarrow> AList.update k v m = m @ [(k, v)]"
  by (induction m) auto

lemma ListGroups_insert_groups:
  "distinct (map fst (g @ xs)) \<Longrightarrow> \<not> sint version \<ge> 4 \<Longrightarrow>
   fold ListGroups_insert (map (ListGroup_entry version data) xs) (g, d) = (g @ xs, d)"
proof (induction xs arbitrary: g)
  case (Cons x xs)
  then have "AList.update (fst x) (snd x) g = g @ [x]" by (subst AList_update_new) auto
  then show ?case using Cons.IH [of "g @ [x]"] Cons.prems by (simp add: ListGroup_entry_def)
qed simp

lemma ListGroups_insert_both:
  assumes "distinct (map fst (g @ xs))" "sint version \<ge> 4" "map fst d = map fst g"
  shows "fold ListGroups_insert (map (ListGroup_entry version data) xs) (g, d) =
    (g @ xs, d @ map (\<lambda>kv. (fst kv, ListGroup_data version data (fst kv))) xs)"
  using assms
proof (induction xs arbitrary: g d)
  case (Cons x xs)
  let ?d = "ListGroup_data version data (fst x)"
  have "fst x \<notin> set (map fst g)" using Cons.prems by auto
  then have "fst x \<notin> fst ` set g" "fst x \<notin> fst ` set d" using Cons.prems(3) by (simp, metis
      set_map)
  note new = AList_update_new [OF this(1), of "snd x"] AList_update_new [OF this(2), of ?d]
  show ?case using Cons.IH [of "g @ [x]" "d @ [(fst x, ?d)]"] Cons.prems new by (simp add: ListGroup_entry_def)
qed simp

lemma ListGroups_fold:
  assumes "distinct (map fst xs)" "len_ok fl (length xs)"
  shows "fold ListGroups_insert (map (ListGroup_entry version data) xs)
      (ListGroups_cleared version (size32 (length xs)) this) =
    (if xs = [] then lsr_groups this else xs,
     if xs = [] \<or> \<not> sint version \<ge> 4 then lsr_groups_data this
     else map (\<lambda>kv. (fst kv, ListGroup_data version data (fst kv))) xs)"
proof (cases "xs = []")
  case False
  then have "sint (size32 (length xs)) > 0" using sint_len [OF assms(2)] by simp
  then show ?thesis
    using False assms(1) ListGroups_insert_groups [of "[]" xs version data "lsr_groups_data this"]
      ListGroups_insert_both [of "[]" xs version "[]" data]
    by (cases "sint version \<ge> 4") (simp_all add: ListGroups_cleared_def)
qed (simp add: ListGroups_cleared_def)

lemma reads_ListGroups [reads_rules]:
  assumes "len_ok fl (length xs)" "\<And>x. x \<in> set xs \<Longrightarrow> ListGroup_ok version fl data x"
  shows "reads fl (bind_p getArrayLength (\<lambda>n. loop_p (nat (sint n)) ListGroups_insert
      (ListGroups_get_group version)
      (ListGroups_cleared version n this))) (wArray fl (wListGroup version fl data) xs)
    (fold ListGroups_insert (map (ListGroup_entry version data) xs) (ListGroups_cleared version (size32 (length
        xs)) this))"
  unfolding wArray_def
proof (rule reads_bind, rule reads_getArrayLength [OF assms(1)])
  show "reads fl (loop_p (nat (sint (size32 (length xs)))) ListGroups_insert (ListGroups_get_group version)
      (ListGroups_cleared version (size32 (length xs)) this)) (concat (map (wListGroup version fl data) xs))
    (fold ListGroups_insert (map (ListGroup_entry version data) xs) (ListGroups_cleared version (size32 (length
        xs)) this))"
    using assms by (simp add: sint_len reads_loop_seen reads_ListGroup)
qed

interpretation lsr: protocol_message ListGroupsResponse_body ListGroupsResponse_decode wListGroupsResponse
  ListGroupsResponse_ok ListGroupsResponse_seen
proof
  fix m this :: ListGroupsResponse
  assume ok: "ListGroupsResponse_ok m"
  show "emits (pb_is_flexible (ListGroupsResponse_body m)) (pb_encode (ListGroupsResponse_body m))
      (wListGroupsResponse m)"
    unfolding ListGroupsResponse_body_def ListGroupsResponse_encode_def wListGroupsResponse_def Let_def
        protocol_body.simps
    by (intro emits_rules; use ok in \<open>auto simp: ListGroupsResponse_ok_def Let_def\<close>)
  have fold: "fold ListGroups_insert (map (ListGroup_entry (lsr_version m) (lsr_groups_data m)) (lsr_groups m))
      (ListGroups_cleared (lsr_version m) (size32 (length (lsr_groups m))) this) =
    (lsr_groups (ListGroupsResponse_seen this m), lsr_groups_data (ListGroupsResponse_seen this m))"
    using ok ListGroups_fold [of "lsr_groups m"] by (auto simp: ListGroupsResponse_ok_def Let_def
        ListGroupsResponse_seen_def)
  show "reads (pb_is_flexible (ListGroupsResponse_body m)) (ListGroupsResponse_decode this (pb_version
      (ListGroupsResponse_body m)))
      (wListGroupsResponse m) (ListGroupsResponse_seen this m)"
    unfolding ListGroupsResponse_body_def ListGroupsResponse_decode_def wListGroupsResponse_def Let_def
        protocol_body.simps
    by (rule reads_conv, (rule reads_rules | (use ok in \<open>auto simp: ListGroupsResponse_ok_def Let_def fold
      ListGroupsResponse_seen_def; fail\<close>))+)
qed (simp_all add: ListGroupsResponse_body_def wListGroupsResponse_def Let_def)

section \<open>DeleteOffsets\<close>

definition DeleteOffsetsPartitions_put_entry :: "bytes \<times> int32 list \<Rightarrow> unit enc" where
  "DeleteOffsetsPartitions_put_entry kv =
     then_p (err_as ErrEncodeError (putString (fst kv)))
       (err_as ErrEncodeError (putInt32Array (snd kv)))"

definition DeleteOffsetsPartitions_get_entry :: "(bytes \<times> int32 list) dec" where
  "DeleteOffsetsPartitions_get_entry =
     bind_p (err_as ErrDecodeError getString) (\<lambda>k.
     bind_p (err_as ErrDecodeError getInt32Array) (\<lambda>v.
       ret (k, v)))"

definition wDeleteOffsetsPartitions_entry :: "bool \<Rightarrow> bytes \<times> int32 list \<Rightarrow> bytes"
    where
  "wDeleteOffsetsPartitions_entry fl kv =
     wString fl (fst kv) @ wInt32Array fl (snd kv)"

definition DeleteOffsetsPartitions_entry_ok :: "bool \<Rightarrow> bytes \<times> int32 list \<Rightarrow>
    bool" where
  "DeleteOffsetsPartitions_entry_ok fl kv \<longleftrightarrow>
     string_ok fl (fst kv) \<and> len_ok fl (length (snd kv))"

lemma emits_DeleteOffsetsPartitions_entry [emits_rules]:
  "DeleteOffsetsPartitions_entry_ok fl kv \<Longrightarrow> emits fl (DeleteOffsetsPartitions_put_entry kv)
      (wDeleteOffsetsPartitions_entry fl kv)"
  unfolding DeleteOffsetsPartitions_put_entry_def wDeleteOffsetsPartitions_entry_def
      DeleteOffsetsPartitions_entry_ok_def by (intro emits_rules; auto)

lemma reads_DeleteOffsetsPartitions_entry [reads_rules]:
  assumes "DeleteOffsetsPartitions_entry_ok fl kv"
  shows "reads fl (DeleteOffsetsPartitions_get_entry) (wDeleteOffsetsPartitions_entry fl kv) kv"
  unfolding DeleteOffsetsPartitions_get_entry_def wDeleteOffsetsPartitions_entry_def
  by (rule reads_conv, (rule reads_rules | (use assms in \<open>auto simp:
      DeleteOffsetsPartitions_entry_ok_def; fail\<close>))+)

text \<open>An empty map is written as a plain zero, which is the same in the fixed format.\<close>

definition DeleteOffsets_put_partitions :: "(bytes \<times> int32 list) list \<Rightarrow> unit enc" where
  "DeleteOffsets_put_partitions ps =
     (if ps = [] then putInt32 0
      else then_p (err_as ErrEncodeError (putArrayLength (size32 (length ps))))
             (for_each DeleteOffsetsPartitions_put_entry ps))"

definition DeleteOffsets_get_partitions :: "int16 \<Rightarrow> (bytes \<times> int32 list) list dec" where
  "DeleteOffsets_get_partitions version =
     bind_p (err_as ErrDecodeError getArrayLength) (\<lambda>n.
       if (n = 0 \<and> sint version < 2) \<or> sint n \<le> 0 then ret []
       else put_all (\<lambda>(k, v). AList.update k v) n DeleteOffsetsPartitions_get_entry [])"

lemma emits_DeleteOffsets_partitions [emits_rules]:
  assumes "len_ok False (length ps)" "\<And>kv. kv \<in> set ps \<Longrightarrow>
      DeleteOffsetsPartitions_entry_ok False kv"
  shows "emits False (DeleteOffsets_put_partitions ps) (wArray False (wDeleteOffsetsPartitions_entry False) ps)"
proof (cases "ps = []")
  case True
  then show ?thesis using emits_putInt32 [of False 0] by (simp add: DeleteOffsets_put_partitions_def wArray_def
      wLen_def)
next
  case False
  then show ?thesis unfolding DeleteOffsets_put_partitions_def using assms by (simp, intro emits_rules) auto
qed

lemma DeleteOffsets_get_partitions_eq:
  "DeleteOffsets_get_partitions version = bind_p (err_as ErrDecodeError getArrayLength) (\<lambda>n.
     put_all (\<lambda>(k, v). AList.update k v) n DeleteOffsetsPartitions_get_entry [])"
  unfolding DeleteOffsets_get_partitions_def by (intro arg_cong [where f = "bind_p _"] ext) (auto simp:
      put_all_def)

record DeleteOffsetsRequest =
  doq_version :: int16
  doq_group :: bytes
  doq_partitions :: "(bytes \<times> int32 list) list"

definition DeleteOffsetsRequest_set_version :: "int16 \<Rightarrow> DeleteOffsetsRequest \<Rightarrow>
    DeleteOffsetsRequest" where
  "DeleteOffsetsRequest_set_version v m = m\<lparr>doq_version := v\<rparr>"

definition DeleteOffsetsRequest_encode :: "DeleteOffsetsRequest \<Rightarrow> unit enc" where
  "DeleteOffsetsRequest_encode m =
     then_p (err_as ErrEncodeError (putString (doq_group m)))
       (DeleteOffsets_put_partitions (doq_partitions m))"

definition DeleteOffsetsRequest_decode :: "DeleteOffsetsRequest \<Rightarrow> int16 \<Rightarrow>
    DeleteOffsetsRequest dec" where
  "DeleteOffsetsRequest_decode this version =
     bind_p (err_as ErrDecodeError getString) (\<lambda>grp.
     bind_p (DeleteOffsets_get_partitions version) (\<lambda>partitions.
       ret \<lparr>doq_version = version, doq_group = grp, doq_partitions = partitions\<rparr>))"

definition DeleteOffsetsRequest_required_version :: "int16 \<Rightarrow> KafkaVersion" where
  "DeleteOffsetsRequest_required_version v =
     (V2_4_0_0)"

definition DeleteOffsetsRequest_body :: "DeleteOffsetsRequest \<Rightarrow> protocol_body" where
  "DeleteOffsetsRequest_body m =
     \<lparr>pb_key = 47, pb_version = doq_version m,
      pb_header_version = 1,
      pb_is_valid_version = (sint (doq_version m) \<ge> 0 \<and> sint (doq_version m) \<le> 2),
      pb_is_flexible = False,
      pb_is_flexible_version = (\<lambda>_. False),
      pb_required_version = DeleteOffsetsRequest_required_version (doq_version m),
      pb_encode = DeleteOffsetsRequest_encode m\<rparr>"

definition wDeleteOffsetsRequest :: "DeleteOffsetsRequest \<Rightarrow> bytes" where
  "wDeleteOffsetsRequest m =
     (let fl = False in
     wString fl (doq_group m) @ wArray fl (wDeleteOffsetsPartitions_entry fl) (doq_partitions m))"

definition DeleteOffsetsRequest_ok :: "DeleteOffsetsRequest \<Rightarrow> bool" where
  "DeleteOffsetsRequest_ok m \<longleftrightarrow>
     (let fl = False in
     string_ok fl (doq_group m) \<and>
     len_ok fl (length (doq_partitions m)) \<and> (\<forall>kv \<in> set (doq_partitions m).
         DeleteOffsetsPartitions_entry_ok fl kv) \<and> distinct (map fst (doq_partitions m)))"

definition DeleteOffsetsRequest_seen :: "DeleteOffsetsRequest \<Rightarrow> DeleteOffsetsRequest \<Rightarrow>
    DeleteOffsetsRequest" where
  "DeleteOffsetsRequest_seen this m =
     m"

interpretation doq: protocol_message DeleteOffsetsRequest_body DeleteOffsetsRequest_decode wDeleteOffsetsRequest
  DeleteOffsetsRequest_ok DeleteOffsetsRequest_seen
proof
  fix m this :: DeleteOffsetsRequest
  assume ok: "DeleteOffsetsRequest_ok m"
  show "emits (pb_is_flexible (DeleteOffsetsRequest_body m)) (pb_encode (DeleteOffsetsRequest_body m))
      (wDeleteOffsetsRequest m)"
    unfolding DeleteOffsetsRequest_body_def DeleteOffsetsRequest_encode_def wDeleteOffsetsRequest_def Let_def
        protocol_body.simps
    by (intro emits_rules; use ok in \<open>auto simp: DeleteOffsetsRequest_ok_def Let_def \<close>)
  show "reads (pb_is_flexible (DeleteOffsetsRequest_body m)) (DeleteOffsetsRequest_decode this (pb_version
      (DeleteOffsetsRequest_body m)))
      (wDeleteOffsetsRequest m) (DeleteOffsetsRequest_seen this m)"
    unfolding DeleteOffsetsRequest_body_def DeleteOffsetsRequest_decode_def DeleteOffsets_get_partitions_eq
        wDeleteOffsetsRequest_def Let_def protocol_body.simps
    by (rule reads_conv, (rule reads_rules | (use ok in \<open>auto simp: DeleteOffsetsRequest_ok_def Let_def 
      DeleteOffsetsRequest_seen_def; fail\<close>))+)
qed (simp_all add: DeleteOffsetsRequest_body_def wDeleteOffsetsRequest_def Let_def)

definition DeleteOffsetsRequest_add_partition :: "bytes \<Rightarrow> int32 \<Rightarrow> DeleteOffsetsRequest
    \<Rightarrow> DeleteOffsetsRequest" where
  "DeleteOffsetsRequest_add_partition topic p m =
     m\<lparr>doq_partitions := AList.update topic (entry_of topic (doq_partitions m) @ [p]) (doq_partitions
         m)\<rparr>"

definition PartitionErrorCode_put_entry :: "int \<times> int16 \<Rightarrow> unit enc" where
  "PartitionErrorCode_put_entry kv =
     then_p (putInt32 (word_of_int (fst kv)))
       (putInt16 (snd kv))"

definition PartitionErrorCode_get_entry :: "(int \<times> int16) dec" where
  "PartitionErrorCode_get_entry =
     bind_p (err_as ErrDecodeError (bind_p getInt32 (\<lambda>p. ret (sint p)))) (\<lambda>k.
     bind_p (err_as ErrDecodeError getInt16) (\<lambda>v.
       ret (k, v)))"

definition wPartitionErrorCode_entry :: "bool \<Rightarrow> int \<times> int16 \<Rightarrow> bytes" where
  "wPartitionErrorCode_entry fl kv =
     be32 (word_of_int (fst kv)) @ be16 (snd kv)"

definition PartitionErrorCode_entry_ok :: "bool \<Rightarrow> int \<times> int16 \<Rightarrow> bool" where
  "PartitionErrorCode_entry_ok fl kv \<longleftrightarrow>
     sint (word_of_int (fst kv) :: int32) = (fst kv)"

lemma emits_PartitionErrorCode_entry [emits_rules]:
  "PartitionErrorCode_entry_ok fl kv \<Longrightarrow> emits fl (PartitionErrorCode_put_entry kv)
      (wPartitionErrorCode_entry fl kv)"
  unfolding PartitionErrorCode_put_entry_def wPartitionErrorCode_entry_def PartitionErrorCode_entry_ok_def by
      (intro emits_rules; auto)

lemma reads_PartitionErrorCode_entry [reads_rules]:
  assumes "PartitionErrorCode_entry_ok fl kv"
  shows "reads fl (PartitionErrorCode_get_entry) (wPartitionErrorCode_entry fl kv) kv"
  unfolding PartitionErrorCode_get_entry_def wPartitionErrorCode_entry_def
  by (rule reads_conv, (rule reads_rules | (use assms in \<open>auto simp: PartitionErrorCode_entry_ok_def;
      fail\<close>))+)

definition TopicErrorCodes_put_entry :: "bytes \<times> (int \<times> int16) list \<Rightarrow> unit enc" where
  "TopicErrorCodes_put_entry kv =
     then_p (err_as ErrEncodeError (putString (fst kv)))
       (then_p (err_as ErrEncodeError (putArrayLength (size32 (length (snd kv)))))
            (for_each PartitionErrorCode_put_entry (snd kv)))"

definition TopicErrorCodes_get_entry :: "(bytes \<times> (int \<times> int16) list) dec" where
  "TopicErrorCodes_get_entry =
     bind_p (err_as ErrDecodeError getString) (\<lambda>k.
     bind_p (bind_p (err_as ErrDecodeError getArrayLength) (\<lambda>n. put_all (\<lambda>(k, v). smap_put k v)
         n PartitionErrorCode_get_entry [])) (\<lambda>v.
       ret (k, v)))"

definition wTopicErrorCodes_entry :: "bool \<Rightarrow> bytes \<times> (int \<times> int16) list \<Rightarrow>
    bytes" where
  "wTopicErrorCodes_entry fl kv =
     wString fl (fst kv) @ wArray fl (wPartitionErrorCode_entry fl) (snd kv)"

definition TopicErrorCodes_entry_ok :: "bool \<Rightarrow> bytes \<times> (int \<times> int16) list
    \<Rightarrow> bool" where
  "TopicErrorCodes_entry_ok fl kv \<longleftrightarrow>
     string_ok fl (fst kv) \<and> len_ok fl (length (snd kv)) \<and>
     (\<forall>kv \<in> set (snd kv). PartitionErrorCode_entry_ok fl kv) \<and> smap (snd kv)"

lemma TopicErrorCodes_entry_ok_smap [dest]: "TopicErrorCodes_entry_ok fl kv \<Longrightarrow> smap (snd kv)"
  by (simp add: TopicErrorCodes_entry_ok_def)

lemma emits_TopicErrorCodes_entry [emits_rules]:
  "TopicErrorCodes_entry_ok fl kv \<Longrightarrow> emits fl (TopicErrorCodes_put_entry kv)
      (wTopicErrorCodes_entry fl kv)"
  unfolding TopicErrorCodes_put_entry_def wTopicErrorCodes_entry_def TopicErrorCodes_entry_ok_def by (intro
      emits_rules; auto)

lemma reads_TopicErrorCodes_entry [reads_rules]:
  assumes "TopicErrorCodes_entry_ok fl kv"
  shows "reads fl (TopicErrorCodes_get_entry) (wTopicErrorCodes_entry fl kv) kv"
  unfolding TopicErrorCodes_get_entry_def wTopicErrorCodes_entry_def
  by (rule reads_conv, (rule reads_rules | (use assms in \<open>auto simp: TopicErrorCodes_entry_ok_def;
      fail\<close>))+)

record DeleteOffsetsResponse =
  dor_version :: int16
  dor_code :: int16
  dor_throttle_time :: int64
  dor_errors :: "(bytes \<times> (int \<times> int16) list) list"

definition DeleteOffsetsResponse_set_version :: "int16 \<Rightarrow> DeleteOffsetsResponse \<Rightarrow>
    DeleteOffsetsResponse" where
  "DeleteOffsetsResponse_set_version v m = m\<lparr>dor_version := v\<rparr>"

definition DeleteOffsetsResponse_encode :: "DeleteOffsetsResponse \<Rightarrow> unit enc" where
  "DeleteOffsetsResponse_encode m =
     then_p (putInt16 (dor_code m))
    (then_p (putDurationMs (dor_throttle_time m))
       (then_p (err_as ErrEncodeError (putArrayLength (size32 (length (dor_errors m)))))
            (for_each TopicErrorCodes_put_entry (dor_errors m))))"

definition DeleteOffsetsResponse_decode :: "DeleteOffsetsResponse \<Rightarrow> int16 \<Rightarrow>
    DeleteOffsetsResponse dec" where
  "DeleteOffsetsResponse_decode this version =
     bind_p (err_as ErrDecodeError getInt16) (\<lambda>code.
     bind_p (err_as ErrDecodeError getDurationMs) (\<lambda>throttle_time.
     bind_p (bind_p (err_as ErrDecodeError getArrayLength) (\<lambda>n. put_all (\<lambda>(k, v). smap_put k v)
         n TopicErrorCodes_get_entry [])) (\<lambda>errors.
       ret \<lparr>dor_version = version, dor_code = code, dor_throttle_time = throttle_time, dor_errors =
         errors\<rparr>)))"

definition DeleteOffsetsResponse_required_version :: "int16 \<Rightarrow> KafkaVersion" where
  "DeleteOffsetsResponse_required_version v =
     (V2_4_0_0)"

definition DeleteOffsetsResponse_body :: "DeleteOffsetsResponse \<Rightarrow> protocol_body" where
  "DeleteOffsetsResponse_body m =
     \<lparr>pb_key = 47, pb_version = dor_version m,
      pb_header_version = 0,
      pb_is_valid_version = (sint (dor_version m) \<ge> 0 \<and> sint (dor_version m) \<le> 2),
      pb_is_flexible = False,
      pb_is_flexible_version = (\<lambda>_. False),
      pb_required_version = DeleteOffsetsResponse_required_version (dor_version m),
      pb_encode = DeleteOffsetsResponse_encode m\<rparr>"

definition wDeleteOffsetsResponse :: "DeleteOffsetsResponse \<Rightarrow> bytes" where
  "wDeleteOffsetsResponse m =
     (let fl = False in
     be16 (dor_code m) @ wDurationMs (dor_throttle_time m) @
     wArray fl (wTopicErrorCodes_entry fl) (dor_errors m))"

definition DeleteOffsetsResponse_ok :: "DeleteOffsetsResponse \<Rightarrow> bool" where
  "DeleteOffsetsResponse_ok m \<longleftrightarrow>
     (let fl = False in
     duration_ok (dor_throttle_time m) \<and> len_ok fl (length (dor_errors m)) \<and>
     (\<forall>kv \<in> set (dor_errors m). TopicErrorCodes_entry_ok fl kv) \<and> smap (dor_errors m))"

definition DeleteOffsetsResponse_seen :: "DeleteOffsetsResponse \<Rightarrow> DeleteOffsetsResponse
    \<Rightarrow> DeleteOffsetsResponse" where
  "DeleteOffsetsResponse_seen this m =
     m"

interpretation dor: protocol_message DeleteOffsetsResponse_body DeleteOffsetsResponse_decode
    wDeleteOffsetsResponse
  DeleteOffsetsResponse_ok DeleteOffsetsResponse_seen
proof
  fix m this :: DeleteOffsetsResponse
  assume ok: "DeleteOffsetsResponse_ok m"
  show "emits (pb_is_flexible (DeleteOffsetsResponse_body m)) (pb_encode (DeleteOffsetsResponse_body m))
      (wDeleteOffsetsResponse m)"
    unfolding DeleteOffsetsResponse_body_def DeleteOffsetsResponse_encode_def wDeleteOffsetsResponse_def
        Let_def protocol_body.simps
    by (intro emits_rules; use ok in \<open>auto simp: DeleteOffsetsResponse_ok_def Let_def \<close>)
  show "reads (pb_is_flexible (DeleteOffsetsResponse_body m)) (DeleteOffsetsResponse_decode this (pb_version
      (DeleteOffsetsResponse_body m)))
      (wDeleteOffsetsResponse m) (DeleteOffsetsResponse_seen this m)"
    unfolding DeleteOffsetsResponse_body_def DeleteOffsetsResponse_decode_def wDeleteOffsetsResponse_def
        Let_def protocol_body.simps
    by (rule reads_conv, (rule reads_rules | (use ok in \<open>auto simp: DeleteOffsetsResponse_ok_def Let_def 
      DeleteOffsetsResponse_seen_def; fail\<close>))+)
qed (simp_all add: DeleteOffsetsResponse_body_def wDeleteOffsetsResponse_def Let_def)

definition DeleteOffsetsResponse_AddError :: "bytes \<Rightarrow> int \<Rightarrow> int16 \<Rightarrow>
    DeleteOffsetsResponse \<Rightarrow> DeleteOffsetsResponse" where
  "DeleteOffsetsResponse_AddError topic p e m =
     m\<lparr>dor_errors := smap_put topic (smap_put p e (entry_of topic (dor_errors m))) (dor_errors
         m)\<rparr>"

definition DeleteOffsetsResponse_throttle_time :: "DeleteOffsetsResponse \<Rightarrow> int64" where
  "DeleteOffsetsResponse_throttle_time m = dor_throttle_time m"

end
