(* ===== verification/Offset_Messages.thy ===== *)
theory Offset_Messages
  imports Protocol
begin

text \<open>
  The offsets of consumers and partitions: the request and response classes OffsetCommit, OffsetFetch and
  ListOffsets (\<^verbatim>\<open>offset_request.cpp\<close>, \<^verbatim>\<open>offset_response.cpp\<close>).
      A map from topics to partitions is a list of
  topics, each with its list of partitions; the keys of a \<^verbatim>\<open>std::map<int32_t, ...>\<close> are
      their signed values.

  Many return codes are dropped in these classes.  \<^verbatim>\<open>OffsetCommitRequest::decode\<close> ends
      at a topic without
  partitions, and \<^verbatim>\<open>OffsetFetchRequest::decode\<close> refuses the request for all partitions
      that \<^verbatim>\<open>encode\<close> writes.
\<close>

definition ErrInvalidPartitions :: int where "ErrInvalidPartitions = 37"
definition ErrConsumerOffsetNotAdvanced :: int where "ErrConsumerOffsetNotAdvanced = 1013"

section \<open>OffsetCommit\<close>

record OffsetCommitRequestBlock =
  ocb_offset :: int64
  ocb_timestamp :: int64
  ocb_committed_leader_epoch :: int32
  ocb_metadata :: bytes

definition OffsetCommitRequestBlock_default :: OffsetCommitRequestBlock where
  "OffsetCommitRequestBlock_default = \<lparr>ocb_offset = 0, ocb_timestamp = 0, ocb_committed_leader_epoch =
      0, ocb_metadata = []\<rparr>"

definition OffsetCommitRequestBlock_encode :: "int16 \<Rightarrow> OffsetCommitRequestBlock \<Rightarrow> unit
    enc" where
  "OffsetCommitRequestBlock_encode version x =
     then_p (putInt64 (ocb_offset x))
    (then_p (when_p (version = 1) (putInt64 (ocb_timestamp x)))
    (then_p (when_p (sint version \<ge> 6) (putInt32 (ocb_committed_leader_epoch x)))
       (putString (ocb_metadata x))))"

definition OffsetCommitRequestBlock_decode :: "int16 \<Rightarrow> OffsetCommitRequestBlock \<Rightarrow>
    (OffsetCommitRequestBlock \<times> bool) dec" where
  "OffsetCommitRequestBlock_decode version =
     get_into getInt64 (\<lambda>v x. x\<lparr>ocb_offset := v\<rparr>) (\<lambda>x. x\<lparr>ocb_offset := -
         1\<rparr>)
    (get_into_if (version = 1) getInt64 (\<lambda>v x. x\<lparr>ocb_timestamp := v\<rparr>) (\<lambda>x.
        x\<lparr>ocb_timestamp := - 1\<rparr>)
    (get_into_if (sint version \<ge> 6) getInt32 (\<lambda>v x. x\<lparr>ocb_committed_leader_epoch :=
        v\<rparr>) (\<lambda>x. x\<lparr>ocb_committed_leader_epoch := - 1\<rparr>)
    (get_into getString (\<lambda>v x. x\<lparr>ocb_metadata := v\<rparr>) (\<lambda>x. x) got)))"

definition wOffsetCommitRequestBlock :: "int16 \<Rightarrow> bool \<Rightarrow> OffsetCommitRequestBlock
    \<Rightarrow> bytes" where
  "wOffsetCommitRequestBlock version fl x =
     be64 (ocb_offset x) @ (if version = 1 then be64 (ocb_timestamp x) else []) @
     (if sint version \<ge> 6 then be32 (ocb_committed_leader_epoch x) else []) @ wString fl (ocb_metadata x)"

definition OffsetCommitRequestBlock_ok :: "bool \<Rightarrow> OffsetCommitRequestBlock \<Rightarrow> bool" where
  "OffsetCommitRequestBlock_ok fl x \<longleftrightarrow>
     string_ok fl (ocb_metadata x)"

definition OffsetCommitRequestBlock_seen :: "int16 \<Rightarrow> OffsetCommitRequestBlock \<Rightarrow>
    OffsetCommitRequestBlock \<Rightarrow> OffsetCommitRequestBlock" where
  "OffsetCommitRequestBlock_seen version this x =
     x\<lparr>ocb_timestamp := (if version = 1 then (ocb_timestamp x) else (ocb_timestamp this)),
         ocb_committed_leader_epoch := (if sint version \<ge> 6 then (ocb_committed_leader_epoch x) else
         (ocb_committed_leader_epoch this))\<rparr>"

lemma emits_OffsetCommitRequestBlock [emits_rules]:
  "OffsetCommitRequestBlock_ok fl x \<Longrightarrow> emits fl (OffsetCommitRequestBlock_encode version x)
      (wOffsetCommitRequestBlock version fl x)"
  unfolding OffsetCommitRequestBlock_encode_def wOffsetCommitRequestBlock_def OffsetCommitRequestBlock_ok_def
      by (intro emits_rules; auto)

lemma reads_OffsetCommitRequestBlock [reads_rules]:
  assumes "OffsetCommitRequestBlock_ok fl x"
  shows "reads fl (OffsetCommitRequestBlock_decode version this) (wOffsetCommitRequestBlock version fl x)
      (OffsetCommitRequestBlock_seen version this x, True)"
  unfolding OffsetCommitRequestBlock_decode_def wOffsetCommitRequestBlock_def
  by (rule reads_conv, (rule into_rules reads_rules | (use assms in \<open>auto simp:
      OffsetCommitRequestBlock_ok_def OffsetCommitRequestBlock_seen_def; fail\<close>))+)

record OffsetCommitRequest =
  ocq_version :: int16
  ocq_consumer_group :: bytes
  ocq_consumer_group_generation :: int32
  ocq_consumer_id :: bytes
  ocq_group_instance_id :: bytes
  ocq_retention_time :: int64
  ocq_blocks :: "(bytes \<times> (int \<times> OffsetCommitRequestBlock) list) list"

definition OffsetCommitRequest_set_version :: "int16 \<Rightarrow> OffsetCommitRequest \<Rightarrow>
    OffsetCommitRequest" where
  "OffsetCommitRequest_set_version v m = m\<lparr>ocq_version := v\<rparr>"

definition OffsetCommit_put_partition :: "int16 \<Rightarrow> int \<times> OffsetCommitRequestBlock
    \<Rightarrow> unit enc" where
  "OffsetCommit_put_partition version kv =
     then_p (putInt32 (word_of_int (fst kv))) (ignore_err (OffsetCommitRequestBlock_encode version (snd kv)))"

definition OffsetCommit_put_topic :: "int16 \<Rightarrow> bytes \<times> (int \<times>
    OffsetCommitRequestBlock) list \<Rightarrow> unit enc" where
  "OffsetCommit_put_topic version kv =
     then_p (ignore_err (putString (fst kv)))
    (then_p (ignore_err (putArrayLength (size32 (length (snd kv)))))
       (for_each (OffsetCommit_put_partition version) (snd kv)))"

definition OffsetCommitRequest_encode :: "OffsetCommitRequest \<Rightarrow> unit enc" where
  "OffsetCommitRequest_encode m =
     (if sint (ocq_version m) < 0 \<or> sint (ocq_version m) > 7 then raise ErrConsumerOffsetNotAdvanced
      else
        then_p (ignore_err (putString (ocq_consumer_group m)))
       (then_p (when_p (sint (ocq_version m) \<ge> 1) (putInt32 (ocq_consumer_group_generation m)))
       (then_p (when_p (sint (ocq_version m) \<ge> 1) (ignore_err (putString (ocq_consumer_id m))))
       (then_p (when_p (sint (ocq_version m) \<ge> 2 \<and> sint (ocq_version m) \<le> 4) (putInt64
           (ocq_retention_time m)))
       (then_p (when_p (sint (ocq_version m) \<ge> 7) (ignore_err (putNullableString (ocq_group_instance_id
           m))))
       (then_p (ignore_err (putArrayLength (size32 (length (ocq_blocks m)))))
          (for_each (OffsetCommit_put_topic (ocq_version m)) (ocq_blocks m))))))))"

text \<open>
  The loops of \<^verbatim>\<open>decode\<close>.  A topic without partitions ends it with the error code of
      the last call, which is
  0; an unreadable count is \<open>-1\<close> and runs no round.
\<close>

primrec OffsetCommit_get_partitions :: "nat \<Rightarrow> int16 \<Rightarrow> (int \<times>
    OffsetCommitRequestBlock) list \<Rightarrow>
    (int \<times> OffsetCommitRequestBlock) list dec" where
  "OffsetCommit_get_partitions 0 version ps = ret ps"
| "OffsetCommit_get_partitions (Suc n) version ps =
     bind_p getInt32 (\<lambda>part.
     bind_p (OffsetCommitRequestBlock_decode version
       (case map_of ps (sint part) of Some old \<Rightarrow> old | None \<Rightarrow>
           OffsetCommitRequestBlock_default)) (\<lambda>r.
       OffsetCommit_get_partitions n version (smap_put (sint part) (fst r) ps)))"

primrec OffsetCommit_get_topics :: "nat \<Rightarrow> int16 \<Rightarrow> (bytes \<times> (int \<times>
    OffsetCommitRequestBlock) list) list \<Rightarrow>
    (bytes \<times> (int \<times> OffsetCommitRequestBlock) list) list dec" where
  "OffsetCommit_get_topics 0 version blocks = ret blocks"
| "OffsetCommit_get_topics (Suc n) version blocks =
     bind_p getString (\<lambda>topic.
     bind_p (get_or getArrayLength (- 1)) (\<lambda>partitionCount.
       if partitionCount = 0 then ret blocks
       else bind_p (OffsetCommit_get_partitions (nat (sint partitionCount)) version (entry_of topic blocks))
           (\<lambda>ps.
         OffsetCommit_get_topics n version (AList.update topic ps blocks))))"

definition OffsetCommitRequest_decode :: "OffsetCommitRequest \<Rightarrow> int16 \<Rightarrow>
    OffsetCommitRequest dec" where
  "OffsetCommitRequest_decode this version =
     bind_p getString (\<lambda>consumer_group.
     bind_p (field_if (sint version \<ge> 1) (get_or getInt32 (- 1)) (ocq_consumer_group_generation this))
         (\<lambda>generation.
     bind_p (field_if (sint version \<ge> 1) (get_or getString (ocq_consumer_id this)) (ocq_consumer_id this))
         (\<lambda>consumer_id.
     bind_p (field_if (sint version \<ge> 2 \<and> sint version \<le> 4) (get_or getInt64 (- 1))
         (ocq_retention_time this)) (\<lambda>retention_time.
     bind_p (field_if (sint version \<ge> 7) (get_or getNullableString (ocq_group_instance_id this))
       (ocq_group_instance_id this)) (\<lambda>group_instance_id.
     bind_p (bind_p (get_or getArrayLength (- 1)) (\<lambda>topicCount.
       if topicCount = 0 then ret (ocq_blocks this)
       else OffsetCommit_get_topics (nat (sint topicCount)) version [])) (\<lambda>blocks.
       ret \<lparr>ocq_version = version, ocq_consumer_group = consumer_group, ocq_consumer_group_generation =
           generation,
         ocq_consumer_id = consumer_id, ocq_group_instance_id = group_instance_id, ocq_retention_time =
             retention_time,
         ocq_blocks = blocks\<rparr>))))))"

definition OffsetCommitRequest_required_version :: "int16 \<Rightarrow> KafkaVersion" where
  "OffsetCommitRequest_required_version v =
     (if v = 7 then V2_3_0_0 else if v = 5 \<or> v = 6 then V2_1_0_0 else if v = 4 then V2_0_0_0
      else if v = 3 then V0_11_0_0 else if v = 2 then V0_9_0_0 else if v = 0 \<or> v = 1 then V0_8_2_0 else
          V2_4_0_0)"

definition OffsetCommitRequest_body :: "OffsetCommitRequest \<Rightarrow> protocol_body" where
  "OffsetCommitRequest_body m =
     \<lparr>pb_key = 8, pb_version = ocq_version m, pb_header_version = 1,
      pb_is_valid_version = (sint (ocq_version m) \<ge> 0 \<and> sint (ocq_version m) \<le> 7),
      pb_is_flexible = False, pb_is_flexible_version = (\<lambda>_. False),
      pb_required_version = OffsetCommitRequest_required_version (ocq_version m),
      pb_encode = OffsetCommitRequest_encode m\<rparr>"

definition OffsetCommitRequest_add_block_with_leader_epoch ::
    "bytes \<Rightarrow> int \<Rightarrow> int64 \<Rightarrow> int32 \<Rightarrow> int64 \<Rightarrow> bytes
        \<Rightarrow> OffsetCommitRequest \<Rightarrow> OffsetCommitRequest" where
  "OffsetCommitRequest_add_block_with_leader_epoch topic p offset leaderEpoch timestamp metadata m =
     (let ps = entry_of topic (ocq_blocks m);
          b = \<lparr>ocb_offset = offset, ocb_timestamp = timestamp, ocb_committed_leader_epoch = leaderEpoch,
               ocb_metadata = metadata\<rparr>
      in m\<lparr>ocq_blocks := AList.update topic (if map_of ps p = None then smap_put p b ps else ps)
          (ocq_blocks m)\<rparr>)"

definition OffsetCommitRequest_add_block ::
    "bytes \<Rightarrow> int \<Rightarrow> int64 \<Rightarrow> int64 \<Rightarrow> bytes \<Rightarrow>
        OffsetCommitRequest \<Rightarrow> OffsetCommitRequest" where
  "OffsetCommitRequest_add_block topic p offset timestamp metadata m =
     OffsetCommitRequest_add_block_with_leader_epoch topic p offset 0 timestamp metadata m"

text \<open>\<^verbatim>\<open>offset\<close> throws \<^verbatim>\<open>no such offset\<close>
    (\<open>None\<close>).\<close>

definition OffsetCommitRequest_offset :: "OffsetCommitRequest \<Rightarrow> bytes \<Rightarrow> int
    \<Rightarrow> (int64 \<times> bytes) option" where
  "OffsetCommitRequest_offset m topic p =
     (case map_of (ocq_blocks m) topic of
        None \<Rightarrow> None
      | Some ps \<Rightarrow> (case map_of ps p of None \<Rightarrow> None | Some b \<Rightarrow> Some
          (ocb_offset b, ocb_metadata b)))"

definition wOffsetCommit_partition :: "int16 \<Rightarrow> int \<times> OffsetCommitRequestBlock \<Rightarrow>
    bytes" where
  "wOffsetCommit_partition version kv =
     be32 (word_of_int (fst kv)) @ wOffsetCommitRequestBlock version False (snd kv)"

definition wOffsetCommit_topic :: "int16 \<Rightarrow> bytes \<times> (int \<times> OffsetCommitRequestBlock)
    list \<Rightarrow> bytes" where
  "wOffsetCommit_topic version kv = wString False (fst kv) @ wArray False (wOffsetCommit_partition version)
      (snd kv)"

definition wOffsetCommit_head :: "OffsetCommitRequest \<Rightarrow> bytes" where
  "wOffsetCommit_head m =
     wString False (ocq_consumer_group m) @
     (if sint (ocq_version m) \<ge> 1 then be32 (ocq_consumer_group_generation m) else []) @
     (if sint (ocq_version m) \<ge> 1 then wString False (ocq_consumer_id m) else []) @
     (if sint (ocq_version m) \<ge> 2 \<and> sint (ocq_version m) \<le> 4 then be64 (ocq_retention_time m) else
         []) @
     (if sint (ocq_version m) \<ge> 7 then wNullableString False (ocq_group_instance_id m) else [])"

definition wOffsetCommitRequest :: "OffsetCommitRequest \<Rightarrow> bytes" where
  "wOffsetCommitRequest m =
     wString False (ocq_consumer_group m) @
     (if sint (ocq_version m) \<ge> 1 then be32 (ocq_consumer_group_generation m) else []) @
     (if sint (ocq_version m) \<ge> 1 then wString False (ocq_consumer_id m) else []) @
     (if sint (ocq_version m) \<ge> 2 \<and> sint (ocq_version m) \<le> 4 then be64 (ocq_retention_time m) else
         []) @
     (if sint (ocq_version m) \<ge> 7 then wNullableString False (ocq_group_instance_id m) else []) @
     wArray False (wOffsetCommit_topic (ocq_version m)) (ocq_blocks m)"

definition OffsetCommit_topic_fits :: "bytes \<times> (int \<times> OffsetCommitRequestBlock) list
    \<Rightarrow> bool" where
  "OffsetCommit_topic_fits kv \<longleftrightarrow> string_ok False (fst kv) \<and> len_ok False (length (snd
      kv)) \<and> smap (snd kv) \<and>
     (\<forall>p \<in> set (snd kv). sint (word_of_int (fst p) :: int32) = fst p \<and>
         OffsetCommitRequestBlock_ok False (snd p))"

definition OffsetCommitRequest_fits :: "OffsetCommitRequest \<Rightarrow> bool" where
  "OffsetCommitRequest_fits m \<longleftrightarrow> sint (ocq_version m) \<ge> 0 \<and> sint (ocq_version m)
      \<le> 7 \<and>
     string_ok False (ocq_consumer_group m) \<and> string_ok False (ocq_consumer_id m) \<and>
     string_ok False (ocq_group_instance_id m) \<and> len_ok False (length (ocq_blocks m)) \<and>
     distinct (map fst (ocq_blocks m)) \<and> (\<forall>kv \<in> set (ocq_blocks m). OffsetCommit_topic_fits
         kv)"

text \<open>Every topic must have a partition, else \<^verbatim>\<open>decode\<close> ends early.\<close>

definition OffsetCommitRequest_ok :: "OffsetCommitRequest \<Rightarrow> bool" where
  "OffsetCommitRequest_ok m \<longleftrightarrow> OffsetCommitRequest_fits m \<and> (\<forall>kv \<in> set
      (ocq_blocks m). snd kv \<noteq> [])"

definition OffsetCommit_seen_partitions :: "int16 \<Rightarrow> (int \<times> OffsetCommitRequestBlock) list
    \<Rightarrow>
    (int \<times> OffsetCommitRequestBlock) list" where
  "OffsetCommit_seen_partitions version ps =
     map (\<lambda>kv. (fst kv, OffsetCommitRequestBlock_seen version OffsetCommitRequestBlock_default (snd
         kv))) ps"

definition OffsetCommitRequest_seen :: "OffsetCommitRequest \<Rightarrow> OffsetCommitRequest \<Rightarrow>
    OffsetCommitRequest" where
  "OffsetCommitRequest_seen this m =
     (let v = ocq_version m in
      m\<lparr>ocq_consumer_group_generation :=
          (if sint v \<ge> 1 then ocq_consumer_group_generation m else ocq_consumer_group_generation this),
        ocq_consumer_id := (if sint v \<ge> 1 then ocq_consumer_id m else ocq_consumer_id this),
        ocq_retention_time := (if sint v \<ge> 2 \<and> sint v \<le> 4 then ocq_retention_time m else
            ocq_retention_time this),
        ocq_group_instance_id := (if sint v \<ge> 7 then ocq_group_instance_id m else ocq_group_instance_id
            this),
        ocq_blocks := (if ocq_blocks m = [] then ocq_blocks this
          else map (\<lambda>kv. (fst kv, OffsetCommit_seen_partitions v (snd kv))) (ocq_blocks m))\<rparr>)"

lemma emits_OffsetCommit_topic [emits_rules]:
  assumes "OffsetCommit_topic_fits kv"
  shows "emits False (OffsetCommit_put_topic version kv) (wOffsetCommit_topic version kv)"
  unfolding OffsetCommit_put_topic_def wOffsetCommit_topic_def OffsetCommit_put_partition_def
      wOffsetCommit_partition_def
  by (intro emits_rules; use assms in \<open>auto simp: OffsetCommit_topic_fits_def\<close>)

lemma emits_OffsetCommitRequest:
  assumes "OffsetCommitRequest_fits m"
  shows "emits False (OffsetCommitRequest_encode m) (wOffsetCommitRequest m)"
proof -
  have valid: "\<not> (sint (ocq_version m) < 0 \<or> sint (ocq_version m) > 7)"
    using assms by (auto simp: OffsetCommitRequest_fits_def)
  show ?thesis unfolding OffsetCommitRequest_encode_def wOffsetCommitRequest_def if_not_P [OF valid]
    by (intro emits_rules; use assms in \<open>auto simp: OffsetCommitRequest_fits_def\<close>)
qed

lemma reads_OffsetCommit_partitions:
  assumes "\<forall>kv \<in> set xs. sint (word_of_int (fst kv) :: int32) = fst kv \<and>
      OffsetCommitRequestBlock_ok False (snd kv)"
    and "smap (ps @ xs)"
  shows "reads False (OffsetCommit_get_partitions (length xs) version ps)
    (concat (map (wOffsetCommit_partition version) xs)) (ps @ OffsetCommit_seen_partitions version xs)"
  using assms
proof (induction xs arbitrary: ps)
  case (Cons kv xs)
  let ?b = "OffsetCommitRequestBlock_seen version OffsetCommitRequestBlock_default (snd kv)"
  have less: "\<forall>k \<in> fst ` set ps. k < fst kv" using Cons.prems(2) by (auto simp: smap_def
      sorted_wrt_append)
  then have "fst kv \<notin> fst ` set ps" by auto
  then have new: "map_of ps (fst kv) = None" by (simp add: map_of_eq_None_iff)
  have "smap ((ps @ [(fst kv, ?b)]) @ xs)" using Cons.prems(2) by (simp add: smap_def)
  from Cons.IH [OF _ this] Cons.prems(1)
  have rest: "reads False (OffsetCommit_get_partitions (length xs) version (smap_put (fst kv) ?b ps))
      (concat (map (wOffsetCommit_partition version) xs)) (ps @ OffsetCommit_seen_partitions version (kv # xs))"
    by (simp add: smap_put_last [OF less] OffsetCommit_seen_partitions_def)
  have key: "sint (word_of_int (fst kv) :: int32) = fst kv" "OffsetCommitRequestBlock_ok False (snd kv)"
    using Cons.prems(1) by auto
  show ?case unfolding wOffsetCommit_partition_def [of version kv] list.size OffsetCommit_get_partitions.simps
      list.map concat.simps
      add_0_right add_Suc_right append_assoc
    by (rule reads_bind [OF reads_getInt32], simp only: key(1) new option.case,
      rule reads_bind [OF reads_OffsetCommitRequestBlock [OF key(2)]])
      (use rest in simp)
qed (simp add: reads_ret OffsetCommit_seen_partitions_def)

lemma size32_zero: "len_ok fl n \<Longrightarrow> size32 n = (0 :: int32) \<longleftrightarrow> n = 0"
  using sint_len [of fl n] by auto

text \<open>One round of the topic loop.\<close>

lemma reads_OffsetCommit_step:
  assumes "OffsetCommit_topic_fits kv" "snd kv \<noteq> []" "fst kv \<notin> fst ` set bs"
    and "reads False (OffsetCommit_get_topics n version (bs @ [(fst kv, OffsetCommit_seen_partitions version
        (snd kv))])) rest y"
  shows "reads False (OffsetCommit_get_topics (Suc n) version bs) (wOffsetCommit_topic version kv @ rest) y"
proof -
  note ok = assms(1,2) [unfolded OffsetCommit_topic_fits_def]
  have parts: "reads False (OffsetCommit_get_partitions (nat (sint (size32 (length (snd kv)) :: int32))) version
      (entry_of (fst kv) bs)) (concat (map (wOffsetCommit_partition version) (snd kv)))
      (OffsetCommit_seen_partitions version (snd kv))"
    using reads_OffsetCommit_partitions [of "snd kv" "[]" version] ok
    by (simp add: sint_len [of False] entry_of_fresh [OF assms(3)])
  have nz: "size32 (length (snd kv)) \<noteq> (0 :: int32)" using ok size32_zero [of False "length (snd kv)"]
      by simp
  have count: "reads False (get_or getArrayLength (- 1)) (wLen False (length (snd kv))) (size32 (length (snd
      kv)))"
    using ok by (intro reads_get_or reads_getArrayLength) simp
  show ?thesis unfolding OffsetCommit_get_topics.simps wOffsetCommit_topic_def wArray_def append_assoc
    by (rule reads_bind [OF reads_getString], use ok in simp, rule reads_bind [OF count], subst if_not_P [OF
        nz],
      rule reads_bind [OF parts]) (use assms(4) in \<open>simp add: AList_update_fresh [OF assms(3)]\<close>)
qed

lemma reads_OffsetCommit_topics:
  assumes "\<forall>kv \<in> set xs. OffsetCommit_topic_fits kv \<and> snd kv \<noteq> []" "distinct (map fst
      (bs @ xs))"
    and "reads False (OffsetCommit_get_topics n version
      (bs @ map (\<lambda>kv. (fst kv, OffsetCommit_seen_partitions version (snd kv))) xs)) rest y"
  shows "reads False (OffsetCommit_get_topics (length xs + n) version bs)
    (concat (map (wOffsetCommit_topic version) xs) @ rest) y"
  using assms
proof (induction xs arbitrary: bs)
  case (Cons kv xs)
  let ?e = "(fst kv, OffsetCommit_seen_partitions version (snd kv))"
  have "fst kv \<notin> set (map fst bs)" using Cons.prems(2) by auto
  then have new: "fst kv \<notin> fst ` set bs" by simp
  have "distinct (map fst ((bs @ [?e]) @ xs))" using Cons.prems(2) by simp
  from Cons.IH [OF _ this] Cons.prems(1,3)
  have rest: "reads False (OffsetCommit_get_topics (length xs + n) version (bs @ [?e]))
      (concat (map (wOffsetCommit_topic version) xs) @ rest) y" by simp
  have fits: "OffsetCommit_topic_fits kv" "snd kv \<noteq> []" using Cons.prems(1) by auto
  from reads_OffsetCommit_step [OF fits new rest] show ?case by simp
qed simp

text \<open>A topic without partitions ends the loop.\<close>

lemma reads_OffsetCommit_stop:
  assumes "string_ok False t" "len_ok False 0"
  shows "reads False (OffsetCommit_get_topics (Suc n) version bs) (wOffsetCommit_topic version (t, [])) bs"
  unfolding OffsetCommit_get_topics.simps wOffsetCommit_topic_def wArray_def
  by (simp, rule reads_bind [OF reads_getString [OF assms(1)]],
    rule reads_bind_same [OF reads_get_or [OF reads_getArrayLength [OF assms(2)]]]) (simp add: reads_ret)

lemma reads_OffsetCommit_blocks:
  assumes "len_ok False (length xs)" "\<forall>kv \<in> set xs. OffsetCommit_topic_fits kv \<and> snd kv
      \<noteq> []" "distinct (map fst xs)"
  shows "reads False (bind_p (get_or getArrayLength (- 1)) (\<lambda>topicCount. if topicCount = 0 then ret old
      else OffsetCommit_get_topics (nat (sint topicCount)) version [])) (wArray False (wOffsetCommit_topic
          version) xs)
    (if xs = [] then old else map (\<lambda>kv. (fst kv, OffsetCommit_seen_partitions version (snd kv))) xs)"
  unfolding wArray_def
  by (rule reads_bind [OF reads_get_or [OF reads_getArrayLength [OF assms(1)]]])
    (use assms size32_zero [OF assms(1)] reads_OffsetCommit_topics [of xs "[]" 0 version "[]"] in
      \<open>auto simp: sint_len [OF assms(1)] reads_ret\<close>)

interpretation ocq: protocol_message OffsetCommitRequest_body OffsetCommitRequest_decode wOffsetCommitRequest
  OffsetCommitRequest_ok OffsetCommitRequest_seen
proof
  fix m this :: OffsetCommitRequest
  assume ok: "OffsetCommitRequest_ok m"
  show "emits (pb_is_flexible (OffsetCommitRequest_body m)) (pb_encode (OffsetCommitRequest_body m))
      (wOffsetCommitRequest m)"
    using emits_OffsetCommitRequest [of m] ok by (simp add: OffsetCommitRequest_body_def
        OffsetCommitRequest_ok_def)
  show "reads (pb_is_flexible (OffsetCommitRequest_body m))
      (OffsetCommitRequest_decode this (pb_version (OffsetCommitRequest_body m))) (wOffsetCommitRequest m)
      (OffsetCommitRequest_seen this m)"
    unfolding OffsetCommitRequest_body_def OffsetCommitRequest_decode_def wOffsetCommitRequest_def
        protocol_body.simps
    by (rule reads_conv, (rule reads_OffsetCommit_blocks reads_rules | (use ok in \<open>auto simp:
        OffsetCommitRequest_ok_def
      OffsetCommitRequest_fits_def OffsetCommitRequest_seen_def Let_def; fail\<close>))+)
qed (simp_all add: OffsetCommitRequest_body_def wOffsetCommitRequest_def)

text \<open>
  What comes behind a topic without partitions is not read: if there is anything, the message is refused.
\<close>

lemma offset_commit_empty_topic_refused:
  assumes "OffsetCommitRequest_fits m" "ocq_blocks m = xs @ (t, []) # ys" "\<forall>kv \<in> set xs. snd kv
      \<noteq> []" "ys \<noteq> []"
    and "length (wOffsetCommitRequest m) < 2 ^ 31"
  shows "decode_version (wOffsetCommitRequest m)
    (body_VDecoder (OffsetCommitRequest_body this) (OffsetCommitRequest_decode this) this) (ocq_version m) =
    Err ErrDecodeError ()"
proof -
  let ?v = "ocq_version m" and ?n = "length (ocq_blocks m)"
  note fits = assms(1) [unfolded OffsetCommitRequest_fits_def]
  define bytes where "bytes = wLen False ?n @ concat (map (wOffsetCommit_topic ?v) xs) @ wOffsetCommit_topic ?v
      (t, [])"
  define rest where "rest = concat (map (wOffsetCommit_topic ?v) ys)"
  have ne: "rest \<noteq> []" using assms(4) by (cases ys) (auto simp: rest_def wOffsetCommit_topic_def)
  have nz: "size32 ?n \<noteq> (0 :: int32)" using size32_zero [of False ?n] fits assms(2) by simp
  have stop: "reads False (OffsetCommit_get_topics (Suc (length ys)) ?v
      (map (\<lambda>kv. (fst kv, OffsetCommit_seen_partitions ?v (snd kv))) xs)) (wOffsetCommit_topic ?v (t,
          []))
      (map (\<lambda>kv. (fst kv, OffsetCommit_seen_partitions ?v (snd kv))) xs)"
    using fits assms(2) by (intro reads_OffsetCommit_stop) (auto simp: OffsetCommit_topic_fits_def)
  have loop: "reads False (OffsetCommit_get_topics (nat (sint (size32 ?n :: int32))) ?v [])
      (concat (map (wOffsetCommit_topic ?v) xs) @ wOffsetCommit_topic ?v (t, []))
      (map (\<lambda>kv. (fst kv, OffsetCommit_seen_partitions ?v (snd kv))) xs)"
  proof -
    have "nat (sint (size32 ?n :: int32)) = ?n" using sint_len [of False ?n] fits by simp
    also have "?n = length xs + Suc (length ys)" using assms(2) by simp
    finally show ?thesis using fits assms(2,3) stop
        reads_OffsetCommit_topics [of xs "[]" "Suc (length ys)" ?v]
      by (simp del: OffsetCommit_get_topics.simps)
  qed
  have blocks: "reads False (bind_p (get_or getArrayLength (- 1)) (\<lambda>topicCount. if topicCount = 0 then
      ret (ocq_blocks this)
      else OffsetCommit_get_topics (nat (sint topicCount)) ?v [])) bytes
      (map (\<lambda>kv. (fst kv, OffsetCommit_seen_partitions ?v (snd kv))) xs)"
    unfolding bytes_def
    by (rule reads_bind [OF reads_get_or [OF reads_getArrayLength]], use fits in simp, subst if_not_P [OF nz])
        (rule loop)
  have "\<exists>r. reads False (OffsetCommitRequest_decode this ?v) (wOffsetCommit_head m @ bytes) r"
    unfolding OffsetCommitRequest_decode_def wOffsetCommit_head_def append_assoc
    by (rule exI, (rule blocks reads_last [OF blocks] reads_rules | (use fits in \<open>auto; fail\<close>))+)
  then obtain r where "reads False (OffsetCommitRequest_decode this ?v) (wOffsetCommit_head m @ bytes) r" by
      blast
  then have "reads False (prepare_flexible_decoder (body_VDecoder (OffsetCommitRequest_body this)
      (OffsetCommitRequest_decode this) this) ?v) (wOffsetCommit_head m @ bytes) r"
    by (simp add: prepare_flexible_decoder_def body_VDecoder_def OffsetCommitRequest_body_def)
  moreover have wire: "wOffsetCommitRequest m = (wOffsetCommit_head m @ bytes) @ rest"
    by (simp add: wOffsetCommitRequest_def wOffsetCommit_head_def bytes_def rest_def wArray_def assms(2))
  ultimately show ?thesis
    using decode_reads(2) [of _ ?v "wOffsetCommit_head m @ bytes" r rest] ne assms(5)
    by (simp add: wOffsetCommit_head_def)
qed


definition CommitError_put_entry :: "int \<times> int16 \<Rightarrow> unit enc" where
  "CommitError_put_entry kv =
     then_p (putInt32 (word_of_int (fst kv)))
       (putKError (snd kv))"

definition CommitError_get_entry :: "(int \<times> int16) dec" where
  "CommitError_get_entry =
     bind_p (bind_p getInt32 (\<lambda>p. ret (sint p))) (\<lambda>k.
     bind_p getKError (\<lambda>v.
       ret (k, v)))"

definition wCommitError_entry :: "bool \<Rightarrow> int \<times> int16 \<Rightarrow> bytes" where
  "wCommitError_entry fl kv =
     be32 (word_of_int (fst kv)) @ be16 (snd kv)"

definition CommitError_entry_ok :: "bool \<Rightarrow> int \<times> int16 \<Rightarrow> bool" where
  "CommitError_entry_ok fl kv \<longleftrightarrow>
     sint (word_of_int (fst kv) :: int32) = (fst kv)"

lemma emits_CommitError_entry [emits_rules]:
  "CommitError_entry_ok fl kv \<Longrightarrow> emits fl (CommitError_put_entry kv) (wCommitError_entry fl kv)"
  unfolding CommitError_put_entry_def wCommitError_entry_def CommitError_entry_ok_def by (intro emits_rules;
      auto)

lemma reads_CommitError_entry [reads_rules]:
  assumes "CommitError_entry_ok fl kv"
  shows "reads fl (CommitError_get_entry) (wCommitError_entry fl kv) kv"
  unfolding CommitError_get_entry_def wCommitError_entry_def
  by (rule reads_conv, (rule reads_rules | (use assms in \<open>auto simp: CommitError_entry_ok_def;
      fail\<close>))+)

definition CommitErrors_put_entry :: "bytes \<times> (int \<times> int16) list \<Rightarrow> unit enc" where
  "CommitErrors_put_entry kv =
     then_p (ignore_err (putString (fst kv)))
       (then_p (ignore_err (putArrayLength (size32 (length (snd kv)))))
            (for_each CommitError_put_entry (snd kv)))"

definition CommitErrors_get_entry :: "(bytes \<times> (int \<times> int16) list) dec" where
  "CommitErrors_get_entry =
     bind_p getString (\<lambda>k.
     bind_p (bind_p getArrayLength (\<lambda>n. put_all (\<lambda>(k, v). smap_put k v) n CommitError_get_entry
         [])) (\<lambda>v.
       ret (k, v)))"

definition wCommitErrors_entry :: "bool \<Rightarrow> bytes \<times> (int \<times> int16) list \<Rightarrow>
    bytes" where
  "wCommitErrors_entry fl kv =
     wString fl (fst kv) @ wArray fl (wCommitError_entry fl) (snd kv)"

definition CommitErrors_entry_ok :: "bool \<Rightarrow> bytes \<times> (int \<times> int16) list \<Rightarrow>
    bool" where
  "CommitErrors_entry_ok fl kv \<longleftrightarrow>
     string_ok fl (fst kv) \<and> len_ok fl (length (snd kv)) \<and>
     (\<forall>kv \<in> set (snd kv). CommitError_entry_ok fl kv) \<and> smap (snd kv)"

lemma CommitErrors_entry_ok_smap [dest]: "CommitErrors_entry_ok fl kv \<Longrightarrow> smap (snd kv)"
  by (simp add: CommitErrors_entry_ok_def)

lemma emits_CommitErrors_entry [emits_rules]:
  "CommitErrors_entry_ok fl kv \<Longrightarrow> emits fl (CommitErrors_put_entry kv) (wCommitErrors_entry fl
      kv)"
  unfolding CommitErrors_put_entry_def wCommitErrors_entry_def CommitErrors_entry_ok_def by (intro emits_rules;
      auto)

lemma reads_CommitErrors_entry [reads_rules]:
  assumes "CommitErrors_entry_ok fl kv"
  shows "reads fl (CommitErrors_get_entry) (wCommitErrors_entry fl kv) kv"
  unfolding CommitErrors_get_entry_def wCommitErrors_entry_def
  by (rule reads_conv, (rule reads_rules | (use assms in \<open>auto simp: CommitErrors_entry_ok_def;
      fail\<close>))+)

record OffsetCommitResponse =
  ocr_version :: int16
  ocr_throttle_time :: int64
  ocr_errors :: "(bytes \<times> (int \<times> int16) list) list"

definition OffsetCommitResponse_set_version :: "int16 \<Rightarrow> OffsetCommitResponse \<Rightarrow>
    OffsetCommitResponse" where
  "OffsetCommitResponse_set_version v m = m\<lparr>ocr_version := v\<rparr>"

definition OffsetCommitResponse_encode :: "OffsetCommitResponse \<Rightarrow> unit enc" where
  "OffsetCommitResponse_encode m =
     then_p (when_p (sint (ocr_version m) \<ge> 3) (putDurationMs (ocr_throttle_time m)))
       (then_p (ignore_err (putArrayLength (size32 (length (ocr_errors m)))))
            (for_each CommitErrors_put_entry (ocr_errors m)))"

definition OffsetCommitResponse_decode :: "OffsetCommitResponse \<Rightarrow> int16 \<Rightarrow>
    OffsetCommitResponse dec" where
  "OffsetCommitResponse_decode this version =
     bind_p (field_if (sint version \<ge> 3) getDurationMs (ocr_throttle_time this)) (\<lambda>throttle_time.
     bind_p (bind_p getArrayLength (\<lambda>n. if 0 < sint n then put_all (\<lambda>(k, vs). alist_merge
         smap_put k vs) n CommitErrors_get_entry [] else ret (ocr_errors this))) (\<lambda>errors.
       ret \<lparr>ocr_version = version, ocr_throttle_time = throttle_time, ocr_errors = errors\<rparr>))"

definition OffsetCommitResponse_required_version :: "int16 \<Rightarrow> KafkaVersion" where
  "OffsetCommitResponse_required_version v =
     (if v = 7 then V2_3_0_0 else if v = 6 then V2_1_0_0 else if v = 5 then V2_1_0_0 else if v = 4
      then V2_0_0_0 else if v = 3 then V0_11_0_0 else if v = 2 then V0_9_0_0 else if v = 1 then
      V0_8_2_0 else if v = 0 then V0_8_2_0 else V2_4_0_0)"

definition OffsetCommitResponse_body :: "OffsetCommitResponse \<Rightarrow> protocol_body" where
  "OffsetCommitResponse_body m =
     \<lparr>pb_key = 8, pb_version = ocr_version m,
      pb_header_version = 0,
      pb_is_valid_version = (sint (ocr_version m) \<ge> 0 \<and> sint (ocr_version m) \<le> 7),
      pb_is_flexible = False,
      pb_is_flexible_version = (\<lambda>_. False),
      pb_required_version = OffsetCommitResponse_required_version (ocr_version m),
      pb_encode = OffsetCommitResponse_encode m\<rparr>"

definition wOffsetCommitResponse :: "OffsetCommitResponse \<Rightarrow> bytes" where
  "wOffsetCommitResponse m =
     (let fl = False in
     (if sint (ocr_version m) \<ge> 3 then wDurationMs (ocr_throttle_time m) else []) @
     wArray fl (wCommitErrors_entry fl) (ocr_errors m))"

definition OffsetCommitResponse_ok :: "OffsetCommitResponse \<Rightarrow> bool" where
  "OffsetCommitResponse_ok m \<longleftrightarrow>
     (let fl = False in
     duration_ok (ocr_throttle_time m) \<and> len_ok fl (length (ocr_errors m)) \<and>
     (\<forall>kv \<in> set (ocr_errors m). CommitErrors_entry_ok fl kv) \<and>
     distinct (map fst (ocr_errors m)))"

definition OffsetCommitResponse_seen :: "OffsetCommitResponse \<Rightarrow> OffsetCommitResponse \<Rightarrow>
    OffsetCommitResponse" where
  "OffsetCommitResponse_seen this m =
     m\<lparr>ocr_throttle_time := (if sint (ocr_version m) \<ge> 3 then (ocr_throttle_time m) else
       (ocr_throttle_time this)), ocr_errors := (if (ocr_errors m) = [] then (ocr_errors this) else (ocr_errors
       m))\<rparr>"

interpretation ocr: protocol_message OffsetCommitResponse_body OffsetCommitResponse_decode wOffsetCommitResponse
  OffsetCommitResponse_ok OffsetCommitResponse_seen
proof
  fix m this :: OffsetCommitResponse
  assume ok: "OffsetCommitResponse_ok m"
  show "emits (pb_is_flexible (OffsetCommitResponse_body m)) (pb_encode (OffsetCommitResponse_body m))
      (wOffsetCommitResponse m)"
    unfolding OffsetCommitResponse_body_def OffsetCommitResponse_encode_def wOffsetCommitResponse_def Let_def
        protocol_body.simps
    by (intro emits_rules; use ok in \<open>auto simp: OffsetCommitResponse_ok_def Let_def \<close>)
  show "reads (pb_is_flexible (OffsetCommitResponse_body m)) (OffsetCommitResponse_decode this (pb_version
      (OffsetCommitResponse_body m)))
      (wOffsetCommitResponse m) (OffsetCommitResponse_seen this m)"
    unfolding OffsetCommitResponse_body_def OffsetCommitResponse_decode_def wOffsetCommitResponse_def Let_def
        protocol_body.simps
    by (rule reads_conv, (rule reads_rules | (use ok in \<open>auto simp: OffsetCommitResponse_ok_def Let_def 
      OffsetCommitResponse_seen_def; fail\<close>))+)
qed (simp_all add: OffsetCommitResponse_body_def wOffsetCommitResponse_def Let_def)

definition OffsetCommitResponse_throttle_time :: "OffsetCommitResponse \<Rightarrow> int64" where
  "OffsetCommitResponse_throttle_time m = ocr_throttle_time m"

definition OffsetCommitResponse_add_error :: "bytes \<Rightarrow> int \<Rightarrow> int16 \<Rightarrow>
    OffsetCommitResponse \<Rightarrow> OffsetCommitResponse" where
  "OffsetCommitResponse_add_error topic p e m =
     m\<lparr>ocr_errors := AList.update topic (smap_put p e (entry_of topic (ocr_errors m))) (ocr_errors
         m)\<rparr>"

section \<open>OffsetFetch\<close>

text \<open>The constructor's choice of a version.\<close>

definition OffsetFetchRequest_new :: "KafkaVersion \<Rightarrow> int16" where
  "OffsetFetchRequest_new v =
     (if IsAtLeast v V2_5_0_0 then 7 else if IsAtLeast v V2_4_0_0 then 6 else if IsAtLeast v V2_1_0_0 then 5
      else if IsAtLeast v V2_0_0_0 then 4 else if IsAtLeast v V0_11_0_0 then 3 else if IsAtLeast v V0_10_2_0
          then 2
      else if IsAtLeast v V0_8_2_0 then 1 else 0)"

text \<open>An array length of \<open>-1\<close>: all partitions.\<close>

definition wNoArray :: "bool \<Rightarrow> bytes" where
  "wNoArray fl = (if fl then encodeUVariant 0 else be32 (- 1))"

lemma emits_no_array: "emits fl (putArrayLength (- 1)) (wNoArray fl)"
proof -
  have c: "emits True (putCompactLength (- 1)) (encodeUVariant 0)"
    using emits_putUVarint [of True 0] by (simp add: putCompactLength_def)
  have "counts False (count 4) 4" using counts_count [of False 4] by simp
  then have "counts fl (by_flex () (if sint (- 1 :: int32) > 2 ^ 31 - 1 then raise (- 1) else count 4)
      (putCompactLength (- 1))) (length (wNoArray fl))"
    using emits_counts [OF c] by (intro counts_by_flex) (simp_all add: wNoArray_def)
  moreover have "stores fl (by_flex () (putInt32 (- 1)) (putCompactLength (- 1))) (wNoArray fl)"
    using emits_stores [OF c] emits_stores [OF emits_putInt32] by (intro stores_by_flex) (simp_all add:
        wNoArray_def)
  ultimately show ?thesis unfolding putArrayLength_def by (rule emits_by_mode)
qed

definition FetchPartitions_put_entry :: "bytes \<times> int32 list \<Rightarrow> unit enc" where
  "FetchPartitions_put_entry kv =
     then_p (ignore_err (putString (fst kv)))
    (then_p (ignore_err (putInt32Array (snd kv)))
       putEmptyTaggedFieldArray)"

definition FetchPartitions_get_entry :: "(bytes \<times> int32 list) dec" where
  "FetchPartitions_get_entry =
     bind_p getString (\<lambda>k.
     bind_p getInt32Array (\<lambda>v.
     bind_p getEmptyTaggedFieldArray (\<lambda>_.
       ret (k, v))))"

definition wFetchPartitions_entry :: "bool \<Rightarrow> bytes \<times> int32 list \<Rightarrow> bytes" where
  "wFetchPartitions_entry fl kv =
     wString fl (fst kv) @ wInt32Array fl (snd kv) @ wTags fl"

definition FetchPartitions_entry_ok :: "bool \<Rightarrow> bytes \<times> int32 list \<Rightarrow> bool" where
  "FetchPartitions_entry_ok fl kv \<longleftrightarrow>
     string_ok fl (fst kv) \<and> len_ok fl (length (snd kv))"

lemma emits_FetchPartitions_entry [emits_rules]:
  "FetchPartitions_entry_ok fl kv \<Longrightarrow> emits fl (FetchPartitions_put_entry kv)
      (wFetchPartitions_entry fl kv)"
  unfolding FetchPartitions_put_entry_def wFetchPartitions_entry_def FetchPartitions_entry_ok_def by (intro
      emits_rules; auto)

lemma reads_FetchPartitions_entry [reads_rules]:
  assumes "FetchPartitions_entry_ok fl kv"
  shows "reads fl (FetchPartitions_get_entry) (wFetchPartitions_entry fl kv) kv"
  unfolding FetchPartitions_get_entry_def wFetchPartitions_entry_def
  by (rule reads_conv, (rule reads_rules | (use assms in \<open>auto simp: FetchPartitions_entry_ok_def;
      fail\<close>))+)

text \<open>A version outside 0 to 7, and a stable fetch below version 7, are exceptions.\<close>

definition OffsetFetch_put_partitions :: "int16 \<Rightarrow> (bytes \<times> int32 list) list \<Rightarrow>
    unit enc" where
  "OffsetFetch_put_partitions version ps =
     then_p (ignore_err (putArrayLength (if ps = [] \<and> sint version \<ge> 2 then - 1 else size32 (length
         ps))))
       (for_each FetchPartitions_put_entry ps)"

definition OffsetFetch_get_partitions :: "int16 \<Rightarrow> (bytes \<times> int32 list) list dec" where
  "OffsetFetch_get_partitions version =
     bind_p getArrayLength (\<lambda>n.
       if (n = 0 \<and> sint version < 2) \<or> sint n < 0 then raise ErrInvalidPartitions
       else put_all (\<lambda>(k, v). smap_put k v) n FetchPartitions_get_entry [])"

record OffsetFetchRequest =
  ofq_version :: int16
  ofq_consumer_group :: bytes
  ofq_require_stable :: bool
  ofq_partitions :: "(bytes \<times> int32 list) list"

definition OffsetFetchRequest_set_version :: "int16 \<Rightarrow> OffsetFetchRequest \<Rightarrow>
    OffsetFetchRequest" where
  "OffsetFetchRequest_set_version v m = m\<lparr>ofq_version := v\<rparr>"

definition OffsetFetchRequest_is_flexible_version :: "int16 \<Rightarrow> bool" where
  "OffsetFetchRequest_is_flexible_version ver \<longleftrightarrow> sint ver \<ge> 6"

definition OffsetFetchRequest_encode :: "OffsetFetchRequest \<Rightarrow> unit enc" where
  "OffsetFetchRequest_encode m =
     (if sint (ofq_version m) < 0 \<or> sint (ofq_version m) > 7 then (\<lambda>_. Abort)
      else
        then_p (ignore_err (putString (ofq_consumer_group m)))
       (then_p (OffsetFetch_put_partitions (ofq_version m) (ofq_partitions m))
       (if ofq_require_stable m \<and> sint (ofq_version m) < 7 then (\<lambda>_. Abort)
        else
          then_p (when_p (sint (ofq_version m) \<ge> 7) (putBool (ofq_require_stable m)))
            (when_p (OffsetFetchRequest_is_flexible_version (ofq_version m)) putEmptyTaggedFieldArray))))"

definition OffsetFetchRequest_decode :: "OffsetFetchRequest \<Rightarrow> int16 \<Rightarrow>
    OffsetFetchRequest dec" where
  "OffsetFetchRequest_decode this version =
     bind_p getString (\<lambda>consumer_group.
     bind_p (OffsetFetch_get_partitions version) (\<lambda>ps.
     bind_p (field_if (sint version \<ge> 7) (get_or getBool False) (ofq_require_stable this))
         (\<lambda>require_stable.
     bind_p getEmptyTaggedFieldArray (\<lambda>_.
       ret \<lparr>ofq_version = version, ofq_consumer_group = consumer_group, ofq_require_stable =
           require_stable,
            ofq_partitions = ps\<rparr>))))"

definition OffsetFetchRequest_required_version :: "int16 \<Rightarrow> KafkaVersion" where
  "OffsetFetchRequest_required_version v =
     (if v = 7 then V2_5_0_0 else if v = 6 then V2_4_0_0 else if v = 5 then V2_1_0_0 else if v = 4 then V2_0_0_0
      else if v = 3 then V0_11_0_0 else if v = 2 then V0_10_2_0 else if v = 1 \<or> v = 0 then V0_8_2_0 else
          V2_5_0_0)"

definition OffsetFetchRequest_body :: "OffsetFetchRequest \<Rightarrow> protocol_body" where
  "OffsetFetchRequest_body m =
     \<lparr>pb_key = 9, pb_version = ofq_version m,
      pb_header_version = (if sint (ofq_version m) \<ge> 6 then 2 else 1),
      pb_is_valid_version = (sint (ofq_version m) \<ge> 0 \<and> sint (ofq_version m) \<le> 7),
      pb_is_flexible = OffsetFetchRequest_is_flexible_version (ofq_version m),
      pb_is_flexible_version = OffsetFetchRequest_is_flexible_version,
      pb_required_version = OffsetFetchRequest_required_version (ofq_version m),
      pb_encode = OffsetFetchRequest_encode m\<rparr>"

definition OffsetFetchRequest_add_partition :: "bytes \<Rightarrow> int32 \<Rightarrow> OffsetFetchRequest
    \<Rightarrow> OffsetFetchRequest" where
  "OffsetFetchRequest_add_partition topic p m =
     m\<lparr>ofq_partitions := smap_push topic [p] (ofq_partitions m)\<rparr>"

definition OffsetFetchRequest_zero_partitions :: "OffsetFetchRequest \<Rightarrow> OffsetFetchRequest" where
  "OffsetFetchRequest_zero_partitions m =
     (if ofq_partitions m = [] \<and> sint (ofq_version m) \<ge> 2 then m\<lparr>ofq_partitions := []\<rparr>
         else m)"

definition wOffsetFetch_partitions :: "int16 \<Rightarrow> bool \<Rightarrow> (bytes \<times> int32 list) list
    \<Rightarrow> bytes" where
  "wOffsetFetch_partitions version fl ps =
     (if ps = [] \<and> sint version \<ge> 2 then wNoArray fl else wArray fl (wFetchPartitions_entry fl) ps)"

definition wOffsetFetchRequest :: "OffsetFetchRequest \<Rightarrow> bytes" where
  "wOffsetFetchRequest m =
     (let fl = OffsetFetchRequest_is_flexible_version (ofq_version m) in
     wString fl (ofq_consumer_group m) @ wOffsetFetch_partitions (ofq_version m) fl (ofq_partitions m) @
     (if sint (ofq_version m) \<ge> 7 then wBool (ofq_require_stable m) else []) @ wTags fl)"

definition OffsetFetchRequest_fits :: "OffsetFetchRequest \<Rightarrow> bool" where
  "OffsetFetchRequest_fits m \<longleftrightarrow>
     (let fl = OffsetFetchRequest_is_flexible_version (ofq_version m) in
     sint (ofq_version m) \<ge> 0 \<and> sint (ofq_version m) \<le> 7 \<and> (ofq_require_stable m
         \<longrightarrow> sint (ofq_version m) \<ge> 7) \<and>
     string_ok fl (ofq_consumer_group m) \<and> len_ok fl (length (ofq_partitions m)) \<and> smap
         (ofq_partitions m) \<and>
     (\<forall>kv \<in> set (ofq_partitions m). FetchPartitions_entry_ok fl kv))"

text \<open>The request for all partitions is read back from version 6 on only.\<close>

definition OffsetFetchRequest_ok :: "OffsetFetchRequest \<Rightarrow> bool" where
  "OffsetFetchRequest_ok m \<longleftrightarrow> OffsetFetchRequest_fits m \<and> (ofq_partitions m = []
      \<longrightarrow> sint (ofq_version m) \<ge> 6)"

definition OffsetFetchRequest_seen :: "OffsetFetchRequest \<Rightarrow> OffsetFetchRequest \<Rightarrow>
    OffsetFetchRequest" where
  "OffsetFetchRequest_seen this m =
     m\<lparr>ofq_require_stable := (if sint (ofq_version m) \<ge> 7 then ofq_require_stable m else
         ofq_require_stable this)\<rparr>"

lemma emits_OffsetFetch_partitions [emits_rules]:
  assumes "len_ok fl (length ps)" "\<And>kv. kv \<in> set ps \<Longrightarrow> FetchPartitions_entry_ok fl kv"
  shows "emits fl (OffsetFetch_put_partitions version ps) (wOffsetFetch_partitions version fl ps)"
proof (cases "ps = [] \<and> sint version \<ge> 2")
  case True
  then show ?thesis
    using emits_then [OF emits_ignore_err [OF emits_no_array [of fl]], of "for_each FetchPartitions_put_entry
        []" "[]"]
      emits_for_each [of "[]" fl FetchPartitions_put_entry "\<lambda>_. []"]
    by (simp add: OffsetFetch_put_partitions_def wOffsetFetch_partitions_def)
next
  case False
  then show ?thesis unfolding OffsetFetch_put_partitions_def wOffsetFetch_partitions_def if_not_P [OF False]
    using assms by (intro emits_rules)
qed

lemma emits_OffsetFetchRequest:
  assumes "OffsetFetchRequest_fits m"
  shows "emits (OffsetFetchRequest_is_flexible_version (ofq_version m)) (OffsetFetchRequest_encode m)
    (wOffsetFetchRequest m)"
proof -
  let ?fl = "OffsetFetchRequest_is_flexible_version (ofq_version m)"
  have valid: "\<not> (sint (ofq_version m) < 0 \<or> sint (ofq_version m) > 7)"
    "\<not> (ofq_require_stable m \<and> sint (ofq_version m) < 7)"
    using assms by (auto simp: OffsetFetchRequest_fits_def Let_def)
  have tags: "emits ?fl (when_p ?fl putEmptyTaggedFieldArray) (if ?fl then wTags ?fl else [])" by (intro
      emits_rules)
  have "(if ?fl then wTags ?fl else []) = wTags ?fl" by (simp add: wTags_def)
  with tags have tags: "emits ?fl (when_p ?fl putEmptyTaggedFieldArray) (wTags ?fl)" by simp
  show ?thesis unfolding OffsetFetchRequest_encode_def wOffsetFetchRequest_def Let_def if_not_P [OF valid(1)]
      if_not_P [OF valid(2)]
    by (intro emits_rules tags; use assms in \<open>auto simp: OffsetFetchRequest_fits_def Let_def\<close>)
qed

lemma reads_OffsetFetch_some:
  assumes "len_ok fl (length ps)" "\<And>kv. kv \<in> set ps \<Longrightarrow> FetchPartitions_entry_ok fl kv"
      "smap ps" "ps \<noteq> []"
  shows "reads fl (OffsetFetch_get_partitions version) (wArray fl (wFetchPartitions_entry fl) ps) ps"
proof -
  have n: "sint (size32 (length ps) :: int32) = int (length ps)" by (rule sint_len [OF assms(1)])
  then have some: "\<not> ((size32 (length ps) = (0 :: int32) \<and> sint version < 2) \<or> sint (size32
      (length ps) :: int32) < 0)"
    using assms(4) by fastforce
  show ?thesis unfolding OffsetFetch_get_partitions_def wArray_def
    by (rule reads_bind [OF reads_getArrayLength [OF assms(1)]], subst if_not_P [OF some])
      (rule reads_put_all_smap, use assms in \<open>simp_all add: reads_FetchPartitions_entry\<close>)
qed

lemma reads_OffsetFetch_all: "sint version \<ge> 2 \<Longrightarrow> reads True (OffsetFetch_get_partitions
    version) (wNoArray True) []"
proof -
  assume v: "sint version \<ge> 2"
  have "reads True getArrayLength (wNoArray True) 0"
    unfolding getArrayLength_def wNoArray_def
    by (rule reads_by_flex; simp) (rule reads_bind_ret [OF reads_getUVariant]; simp)
  then show ?thesis unfolding OffsetFetch_get_partitions_def using v
    by (intro reads_bind_same) (auto simp: put_all_def reads_ret)
qed

lemma reads_OffsetFetch_partitions:
  assumes "len_ok fl (length ps)" "\<And>kv. kv \<in> set ps \<Longrightarrow> FetchPartitions_entry_ok fl kv"
      "smap ps"
    and "ps = [] \<Longrightarrow> fl \<and> sint version \<ge> 2"
  shows "reads fl (OffsetFetch_get_partitions version) (wOffsetFetch_partitions version fl ps) ps"
  using assms reads_OffsetFetch_some reads_OffsetFetch_all unfolding wOffsetFetch_partitions_def
  by (cases "ps = []") auto

interpretation ofq: protocol_message OffsetFetchRequest_body OffsetFetchRequest_decode wOffsetFetchRequest
  OffsetFetchRequest_ok OffsetFetchRequest_seen
proof
  fix m this :: OffsetFetchRequest
  assume ok: "OffsetFetchRequest_ok m"
  show "emits (pb_is_flexible (OffsetFetchRequest_body m)) (pb_encode (OffsetFetchRequest_body m))
      (wOffsetFetchRequest m)"
    using ok emits_OffsetFetchRequest by (simp add: OffsetFetchRequest_body_def OffsetFetchRequest_ok_def)
  show "reads (pb_is_flexible (OffsetFetchRequest_body m)) (OffsetFetchRequest_decode this (pb_version
      (OffsetFetchRequest_body m)))
      (wOffsetFetchRequest m) (OffsetFetchRequest_seen this m)"
    unfolding OffsetFetchRequest_body_def OffsetFetchRequest_decode_def wOffsetFetchRequest_def Let_def
        protocol_body.simps
    by (rule reads_conv, (rule reads_OffsetFetch_partitions reads_rules | (use ok in \<open>auto simp:
        OffsetFetchRequest_ok_def
      OffsetFetchRequest_fits_def OffsetFetchRequest_seen_def OffsetFetchRequest_is_flexible_version_def
          Let_def; fail\<close>))+)
qed (simp_all add: OffsetFetchRequest_body_def wOffsetFetchRequest_def Let_def)

lemma reads_getArrayLength_minus_one: "reads False getArrayLength (be32 (- 1)) (- 1)"
  unfolding getArrayLength_def
proof (rule reads_by_flex)
  show "reads False (\<lambda>pd. if remaining pd < 4 then fail_at_end ErrInsufficientData pd
           else let r = signed_be32 (at_off pd 0) (at_off pd 1) (at_off pd 2) (at_off pd 3); pd' = advance 4 pd
                 in if sint r > MaxResponseSize then Err ErrInvalidArrayLength pd' else Ok r pd') (be32 (- 1))
                     (- 1)"
  proof (rule readsI)
    fix pd :: packet_decoder
    assume pd: "pd_offset pd + length (be32 (- 1)) \<le> length (pd_raw pd)"
      "slice (pd_offset pd) (length (be32 (- 1))) (pd_raw pd) = be32 (- 1)"
    have "byte_at k (- 1 :: int32) = - 1" if "k \<in> {0, 8, 16, 24}" for k
      using that by (auto simp: byte_at_def)
    then have "at_off pd 0 = - 1" "at_off pd 1 = - 1" "at_off pd 2 = - 1" "at_off pd 3 = - 1"
      using pd be32_at_off [of pd "- 1"] by auto
    moreover have "signed_be32 (- 1) (- 1) (- 1) (- 1) = - 1" by (simp add: signed_be32_def)
    ultimately show "(if remaining pd < 4 then fail_at_end ErrInsufficientData pd
           else let r = signed_be32 (at_off pd 0) (at_off pd 1) (at_off pd 2) (at_off pd 3); pd' = advance 4 pd
                 in if sint r > MaxResponseSize then Err ErrInvalidArrayLength pd' else Ok r pd') =
        Ok (- 1) (advance (length (be32 (- 1))) pd)"
      using pd slice_remaining [of pd 4] by (simp add: MaxResponseSize_def)
  qed
qed simp

text \<open>Below version 6 the request for all partitions is written and then refused.\<close>

lemma offset_fetch_all_refused:
  assumes "OffsetFetchRequest_fits m" "ofq_partitions m = []" "sint (ofq_version m) < 6"
    and "length (wOffsetFetchRequest m) < 2 ^ 31"
  shows "decode_version (wOffsetFetchRequest m)
    (body_VDecoder (OffsetFetchRequest_body this) (OffsetFetchRequest_decode this) this) (ofq_version m) =
    Err ErrInvalidPartitions ()"
proof (rule decode_refuses [OF _ _ assms(4)])
  let ?v = "ofq_version m"
  have fl: "OffsetFetchRequest_is_flexible_version ?v = False" using assms(3) by (simp add:
      OffsetFetchRequest_is_flexible_version_def)
  note fits = assms(1) [unfolded OffsetFetchRequest_fits_def Let_def] fl
  have parts: "refuses False (OffsetFetch_get_partitions ?v) (wOffsetFetch_partitions ?v False [])
      ErrInvalidPartitions"
  proof (cases "sint ?v \<ge> 2")
    case True
    then show ?thesis
      unfolding OffsetFetch_get_partitions_def wOffsetFetch_partitions_def wNoArray_def
      by (simp, intro refuses_after_last [OF reads_getArrayLength_minus_one]) (simp add: refuses_raise)
  next
    case False
    have "len_ok False 0" using fits assms(2) by simp
    then show ?thesis
      using False unfolding OffsetFetch_get_partitions_def wOffsetFetch_partitions_def wArray_def
      by (simp, intro refuses_after_last [OF reads_getArrayLength [of False 0, simplified]]) (simp_all add:
          refuses_raise)
  qed
  have "refuses False (OffsetFetchRequest_decode this ?v) (wOffsetFetchRequest m) ErrInvalidPartitions"
    unfolding OffsetFetchRequest_decode_def wOffsetFetchRequest_def Let_def assms(2) fl
    by (rule refuses_after [OF reads_getString], use fits in simp, rule refuses_bind, rule refuses_more, rule
        parts)
  then show "refuses False (prepare_flexible_decoder (body_VDecoder (OffsetFetchRequest_body this)
      (OffsetFetchRequest_decode this) this) ?v) (wOffsetFetchRequest m) ErrInvalidPartitions"
    using fl by (simp add: prepare_flexible_decoder_def body_VDecoder_def OffsetFetchRequest_body_def)
  show "wOffsetFetchRequest m \<noteq> []" by (simp add: wOffsetFetchRequest_def Let_def)
qed

record OffsetFetchResponseBlock =
  ofb_offset :: int64
  ofb_leader_epoch :: int32
  ofb_metadata :: bytes
  ofb_err :: int16

definition OffsetFetchResponseBlock_encode :: "int16 \<Rightarrow> OffsetFetchResponseBlock \<Rightarrow> unit
    enc" where
  "OffsetFetchResponseBlock_encode version x =
     then_p (putInt64 (ofb_offset x))
    (then_p (when_p (sint version \<ge> 5) (putInt32 (ofb_leader_epoch x)))
    (then_p (ignore_err (putString (ofb_metadata x)))
    (then_p (putKError (ofb_err x))
       putEmptyTaggedFieldArray)))"

definition OffsetFetchResponseBlock_decode :: "int16 \<Rightarrow> OffsetFetchResponseBlock dec" where
  "OffsetFetchResponseBlock_decode version =
     bind_p getInt64 (\<lambda>offset.
     bind_p (field_if (sint version \<ge> 5) getInt32 (- 1)) (\<lambda>leader_epoch.
     bind_p getString (\<lambda>metadata.
     bind_p getKError (\<lambda>err.
     bind_p (get_or getEmptyTaggedFieldArray ()) (\<lambda>_.
       ret \<lparr>ofb_offset = offset, ofb_leader_epoch = leader_epoch, ofb_metadata = metadata, ofb_err =
           err\<rparr>)))))"

definition wOffsetFetchResponseBlock :: "int16 \<Rightarrow> bool \<Rightarrow> OffsetFetchResponseBlock
    \<Rightarrow> bytes" where
  "wOffsetFetchResponseBlock version fl x =
     be64 (ofb_offset x) @ (if sint version \<ge> 5 then be32 (ofb_leader_epoch x) else []) @
     wString fl (ofb_metadata x) @ be16 (ofb_err x) @ wTags fl"

definition OffsetFetchResponseBlock_ok :: "bool \<Rightarrow> OffsetFetchResponseBlock \<Rightarrow> bool" where
  "OffsetFetchResponseBlock_ok fl x \<longleftrightarrow>
     string_ok fl (ofb_metadata x)"

definition OffsetFetchResponseBlock_seen :: "int16 \<Rightarrow> OffsetFetchResponseBlock \<Rightarrow>
    OffsetFetchResponseBlock" where
  "OffsetFetchResponseBlock_seen version x =
     x\<lparr>ofb_leader_epoch := (if sint version \<ge> 5 then (ofb_leader_epoch x) else (- 1))\<rparr>"

lemma emits_OffsetFetchResponseBlock [emits_rules]:
  "OffsetFetchResponseBlock_ok fl x \<Longrightarrow> emits fl (OffsetFetchResponseBlock_encode version x)
      (wOffsetFetchResponseBlock version fl x)"
  unfolding OffsetFetchResponseBlock_encode_def wOffsetFetchResponseBlock_def OffsetFetchResponseBlock_ok_def
      by (intro emits_rules; auto)

lemma reads_OffsetFetchResponseBlock [reads_rules]:
  assumes "OffsetFetchResponseBlock_ok fl x"
  shows "reads fl (OffsetFetchResponseBlock_decode version) (wOffsetFetchResponseBlock version fl x)
      (OffsetFetchResponseBlock_seen version x)"
  unfolding OffsetFetchResponseBlock_decode_def wOffsetFetchResponseBlock_def
  by (rule reads_conv, (rule reads_rules | (use assms in \<open>auto simp: OffsetFetchResponseBlock_ok_def
      OffsetFetchResponseBlock_seen_def; fail\<close>))+)

definition FetchedPartition_put_entry :: "int16 \<Rightarrow> int \<times> OffsetFetchResponseBlock
    \<Rightarrow> unit enc" where
  "FetchedPartition_put_entry version kv =
     then_p (putInt32 (word_of_int (fst kv)))
       (ignore_err (OffsetFetchResponseBlock_encode version (snd kv)))"

definition FetchedPartition_get_entry :: "int16 \<Rightarrow> (int \<times> OffsetFetchResponseBlock) dec" where
  "FetchedPartition_get_entry version =
     bind_p (bind_p getInt32 (\<lambda>p. ret (sint p))) (\<lambda>k.
     bind_p (OffsetFetchResponseBlock_decode version) (\<lambda>v.
       ret (k, v)))"

definition wFetchedPartition_entry :: "int16 \<Rightarrow> bool \<Rightarrow> int \<times>
    OffsetFetchResponseBlock \<Rightarrow> bytes" where
  "wFetchedPartition_entry version fl kv =
     be32 (word_of_int (fst kv)) @ wOffsetFetchResponseBlock version fl (snd kv)"

definition FetchedPartition_entry_ok :: "bool \<Rightarrow> int \<times> OffsetFetchResponseBlock \<Rightarrow>
    bool" where
  "FetchedPartition_entry_ok fl kv \<longleftrightarrow>
     sint (word_of_int (fst kv) :: int32) = (fst kv) \<and> OffsetFetchResponseBlock_ok fl (snd kv)"

definition FetchedPartition_entry_seen :: "int16 \<Rightarrow> int \<times> OffsetFetchResponseBlock
    \<Rightarrow> int \<times> OffsetFetchResponseBlock" where
  "FetchedPartition_entry_seen version kv = (fst kv, (OffsetFetchResponseBlock_seen version (snd kv)))"

lemma fst_FetchedPartition_entry_seen [simp]: "fst (FetchedPartition_entry_seen version kv) = fst kv"
  by (simp add: FetchedPartition_entry_seen_def)

lemma emits_FetchedPartition_entry [emits_rules]:
  "FetchedPartition_entry_ok fl kv \<Longrightarrow> emits fl (FetchedPartition_put_entry version kv)
      (wFetchedPartition_entry version fl kv)"
  unfolding FetchedPartition_put_entry_def wFetchedPartition_entry_def FetchedPartition_entry_ok_def by (intro
      emits_rules; auto)

lemma reads_FetchedPartition_entry [reads_rules]:
  assumes "FetchedPartition_entry_ok fl kv"
  shows "reads fl (FetchedPartition_get_entry version) (wFetchedPartition_entry version fl kv)
      (FetchedPartition_entry_seen version kv)"
  unfolding FetchedPartition_get_entry_def wFetchedPartition_entry_def
  by (rule reads_conv, (rule reads_rules | (use assms in \<open>auto simp: FetchedPartition_entry_ok_def
      FetchedPartition_entry_seen_def; fail\<close>))+)

definition FetchedTopic_put_entry :: "int16 \<Rightarrow> bytes \<times> (int \<times>
    OffsetFetchResponseBlock) list \<Rightarrow> unit enc" where
  "FetchedTopic_put_entry version kv =
     then_p (ignore_err (putString (fst kv)))
    (then_p (then_p (ignore_err (putArrayLength (size32 (length (snd kv)))))
            (for_each (FetchedPartition_put_entry version) (snd kv)))
       putEmptyTaggedFieldArray)"

definition FetchedTopic_get_entry :: "int16 \<Rightarrow> (bytes \<times> (int \<times>
    OffsetFetchResponseBlock) list) dec" where
  "FetchedTopic_get_entry version =
     bind_p getString (\<lambda>k.
     bind_p (bind_p getArrayLength (\<lambda>n. put_all (\<lambda>(k, v). smap_put k v) n
         (FetchedPartition_get_entry version) [])) (\<lambda>v.
     bind_p (get_or getEmptyTaggedFieldArray ()) (\<lambda>_.
       ret (k, v))))"

definition wFetchedTopic_entry :: "int16 \<Rightarrow> bool \<Rightarrow> bytes \<times> (int \<times>
    OffsetFetchResponseBlock) list \<Rightarrow> bytes" where
  "wFetchedTopic_entry version fl kv =
     wString fl (fst kv) @ wArray fl (wFetchedPartition_entry version fl) (snd kv) @ wTags fl"

definition FetchedTopic_entry_ok :: "bool \<Rightarrow> bytes \<times> (int \<times> OffsetFetchResponseBlock)
    list \<Rightarrow> bool" where
  "FetchedTopic_entry_ok fl kv \<longleftrightarrow>
     string_ok fl (fst kv) \<and> len_ok fl (length (snd kv)) \<and>
     (\<forall>kv \<in> set (snd kv). FetchedPartition_entry_ok fl kv) \<and> smap (snd kv)"

definition FetchedTopic_entry_seen :: "int16 \<Rightarrow> bytes \<times> (int \<times>
    OffsetFetchResponseBlock) list \<Rightarrow> bytes \<times> (int \<times> OffsetFetchResponseBlock) list"
    where
  "FetchedTopic_entry_seen version kv = (fst kv, (map (FetchedPartition_entry_seen version) (snd kv)))"

lemma fst_FetchedTopic_entry_seen [simp]: "fst (FetchedTopic_entry_seen version kv) = fst kv"
  by (simp add: FetchedTopic_entry_seen_def)

lemma smap_FetchedTopic_entry_seen [simp]: "smap (snd (FetchedTopic_entry_seen version kv)) = smap (snd kv)"
  by (simp add: FetchedTopic_entry_seen_def smap_def o_def)

lemma FetchedTopic_entry_ok_smap [dest]: "FetchedTopic_entry_ok fl kv \<Longrightarrow> smap (snd kv)"
  by (simp add: FetchedTopic_entry_ok_def)

lemma emits_FetchedTopic_entry [emits_rules]:
  "FetchedTopic_entry_ok fl kv \<Longrightarrow> emits fl (FetchedTopic_put_entry version kv)
      (wFetchedTopic_entry version fl kv)"
  unfolding FetchedTopic_put_entry_def wFetchedTopic_entry_def FetchedTopic_entry_ok_def by (intro emits_rules;
      auto)

lemma reads_FetchedTopic_entry [reads_rules]:
  assumes "FetchedTopic_entry_ok fl kv"
  shows "reads fl (FetchedTopic_get_entry version) (wFetchedTopic_entry version fl kv) (FetchedTopic_entry_seen
      version kv)"
  unfolding FetchedTopic_get_entry_def wFetchedTopic_entry_def
  by (rule reads_conv, (rule reads_rules | (use assms in \<open>auto simp: FetchedTopic_entry_ok_def
      FetchedTopic_entry_seen_def; fail\<close>))+)

record OffsetFetchResponse =
  ofr_version :: int16
  ofr_throttle_time :: int64
  ofr_blocks :: "(bytes \<times> (int \<times> OffsetFetchResponseBlock) list) list"
  ofr_err :: int16

definition OffsetFetchResponse_set_version :: "int16 \<Rightarrow> OffsetFetchResponse \<Rightarrow>
    OffsetFetchResponse" where
  "OffsetFetchResponse_set_version v m = m\<lparr>ofr_version := v\<rparr>"

definition OffsetFetchResponse_encode :: "OffsetFetchResponse \<Rightarrow> unit enc" where
  "OffsetFetchResponse_encode m =
     then_p (when_p (sint (ofr_version m) \<ge> 3) (putDurationMs (ofr_throttle_time m)))
    (then_p (then_p (ignore_err (putArrayLength (size32 (length (ofr_blocks m)))))
            (for_each (FetchedTopic_put_entry (ofr_version m)) (ofr_blocks m)))
    (then_p (when_p (sint (ofr_version m) \<ge> 2) (putKError (ofr_err m)))
       putEmptyTaggedFieldArray))"

definition OffsetFetchResponse_decode :: "OffsetFetchResponse \<Rightarrow> int16 \<Rightarrow>
    OffsetFetchResponse dec" where
  "OffsetFetchResponse_decode this version =
     bind_p (field_if (sint version \<ge> 3) getDurationMs (ofr_throttle_time this)) (\<lambda>throttle_time.
     bind_p (bind_p getArrayLength (\<lambda>n. if 0 < sint n then put_all (\<lambda>(k, vs). smap_merge k vs)
         n (FetchedTopic_get_entry version) [] else ret (ofr_blocks this))) (\<lambda>blocks.
     bind_p (field_if (sint version \<ge> 2) getKError (ofr_err this)) (\<lambda>err.
     bind_p getEmptyTaggedFieldArray (\<lambda>_.
       ret \<lparr>ofr_version = version, ofr_throttle_time = throttle_time, ofr_blocks = blocks, ofr_err =
         err\<rparr>))))"

definition OffsetFetchResponse_is_flexible_version :: "int16 \<Rightarrow> bool" where
  "OffsetFetchResponse_is_flexible_version ver \<longleftrightarrow> sint ver \<ge> 6"

definition OffsetFetchResponse_required_version :: "int16 \<Rightarrow> KafkaVersion" where
  "OffsetFetchResponse_required_version v =
     (if v = 7 then V2_5_0_0 else if v = 6 then V2_4_0_0 else if v = 5 then V2_1_0_0 else if v = 4
      then V2_0_0_0 else if v = 3 then V0_11_0_0 else if v = 2 then V0_10_2_0 else if v = 1 then
      V0_8_2_0 else if v = 0 then V0_8_2_0 else V2_5_0_0)"

definition OffsetFetchResponse_body :: "OffsetFetchResponse \<Rightarrow> protocol_body" where
  "OffsetFetchResponse_body m =
     \<lparr>pb_key = 9, pb_version = ofr_version m,
      pb_header_version = (if sint (ofr_version m) \<ge> 6 then 1 else 0),
      pb_is_valid_version = (sint (ofr_version m) \<ge> 0 \<and> sint (ofr_version m) \<le> 7),
      pb_is_flexible = OffsetFetchResponse_is_flexible_version (ofr_version m),
      pb_is_flexible_version = OffsetFetchResponse_is_flexible_version,
      pb_required_version = OffsetFetchResponse_required_version (ofr_version m),
      pb_encode = OffsetFetchResponse_encode m\<rparr>"

definition wOffsetFetchResponse :: "OffsetFetchResponse \<Rightarrow> bytes" where
  "wOffsetFetchResponse m =
     (let fl = OffsetFetchResponse_is_flexible_version (ofr_version m) in
     (if sint (ofr_version m) \<ge> 3 then wDurationMs (ofr_throttle_time m) else []) @
     wArray fl (wFetchedTopic_entry (ofr_version m) fl) (ofr_blocks m) @
     (if sint (ofr_version m) \<ge> 2 then be16 (ofr_err m) else []) @ wTags fl)"

definition OffsetFetchResponse_ok :: "OffsetFetchResponse \<Rightarrow> bool" where
  "OffsetFetchResponse_ok m \<longleftrightarrow>
     (let fl = OffsetFetchResponse_is_flexible_version (ofr_version m) in
     duration_ok (ofr_throttle_time m) \<and> len_ok fl (length (ofr_blocks m)) \<and>
     (\<forall>kv \<in> set (ofr_blocks m). FetchedTopic_entry_ok fl kv) \<and> smap (ofr_blocks m))"

definition OffsetFetchResponse_seen :: "OffsetFetchResponse \<Rightarrow> OffsetFetchResponse \<Rightarrow>
    OffsetFetchResponse" where
  "OffsetFetchResponse_seen this m =
     m\<lparr>ofr_throttle_time := (if sint (ofr_version m) \<ge> 3 then (ofr_throttle_time m) else
       (ofr_throttle_time this)), ofr_blocks := (if (ofr_blocks m) = [] then (ofr_blocks this) else (map
       (FetchedTopic_entry_seen (ofr_version m)) (ofr_blocks m))), ofr_err := (if sint (ofr_version m) \<ge> 2
       then (ofr_err m) else (ofr_err this))\<rparr>"

interpretation ofr: protocol_message OffsetFetchResponse_body OffsetFetchResponse_decode wOffsetFetchResponse
  OffsetFetchResponse_ok OffsetFetchResponse_seen
proof
  fix m this :: OffsetFetchResponse
  assume ok: "OffsetFetchResponse_ok m"
  show "emits (pb_is_flexible (OffsetFetchResponse_body m)) (pb_encode (OffsetFetchResponse_body m))
      (wOffsetFetchResponse m)"
    unfolding OffsetFetchResponse_body_def OffsetFetchResponse_encode_def wOffsetFetchResponse_def Let_def
        protocol_body.simps
    by (intro emits_rules; use ok in \<open>auto simp: OffsetFetchResponse_ok_def Let_def \<close>)
  show "reads (pb_is_flexible (OffsetFetchResponse_body m)) (OffsetFetchResponse_decode this (pb_version
      (OffsetFetchResponse_body m)))
      (wOffsetFetchResponse m) (OffsetFetchResponse_seen this m)"
    unfolding OffsetFetchResponse_body_def OffsetFetchResponse_decode_def wOffsetFetchResponse_def Let_def
        protocol_body.simps
    by (rule reads_conv, (rule reads_rules | (use ok in \<open>auto simp: OffsetFetchResponse_ok_def Let_def 
      OffsetFetchResponse_seen_def; fail\<close>))+)
qed (simp_all add: OffsetFetchResponse_body_def wOffsetFetchResponse_def Let_def)

definition OffsetFetchResponse_throttle_time :: "OffsetFetchResponse \<Rightarrow> int64" where
  "OffsetFetchResponse_throttle_time m = ofr_throttle_time m"

definition OffsetFetchResponse_get_block :: "OffsetFetchResponse \<Rightarrow> bytes \<Rightarrow> int
    \<Rightarrow> OffsetFetchResponseBlock option" where
  "OffsetFetchResponse_get_block m topic p =
     (case map_of (ofr_blocks m) topic of None \<Rightarrow> None | Some ps \<Rightarrow> map_of ps p)"

definition OffsetFetchResponse_add_block :: "bytes \<Rightarrow> int \<Rightarrow> OffsetFetchResponseBlock
    \<Rightarrow> OffsetFetchResponse \<Rightarrow>
    OffsetFetchResponse" where
  "OffsetFetchResponse_add_block topic p b m =
     m\<lparr>ofr_blocks := smap_put topic (smap_put p b (entry_of topic (ofr_blocks m))) (ofr_blocks
         m)\<rparr>"

lemma get_add_block:
  "OffsetFetchResponse_get_block (OffsetFetchResponse_add_block t p b m) t' p' =
     (if t = t' \<and> p = p' then Some b else OffsetFetchResponse_get_block m t' p')"
  by (auto simp: OffsetFetchResponse_get_block_def OffsetFetchResponse_add_block_def entry_of_def split:
      option.splits)

section \<open>ListOffsets\<close>

definition ReadUncommitted :: int32 where "ReadUncommitted = 0"
definition ReadCommitted :: int32 where "ReadCommitted = 1"

text \<open>The constructors' choice of a version; the one that takes a \<open>KafkaVersion\<close> leaves it
    unset (\<open>None\<close>) below 2.0.\<close>

definition OffsetRequest_new_version :: "KafkaVersion \<Rightarrow> int16 option" where
  "OffsetRequest_new_version v =
     (if IsAtLeast v V2_2_0_0 then Some 5 else if IsAtLeast v V2_1_0_0 then Some 4
      else if IsAtLeast v V2_0_0_0 then Some 3 else None)"

definition OffsetRequest_new_config :: "KafkaVersion \<Rightarrow> int16" where
  "OffsetRequest_new_config v =
     (if IsAtLeast v V2_2_0_0 then 5 else if IsAtLeast v V2_1_0_0 then 4 else if IsAtLeast v V2_0_0_0 then 3
      else if IsAtLeast v V0_11_0_0 then 2 else if IsAtLeast v V0_10_1_0 then 1 else 0)"

record OffsetRequestBlock =
  orb_leader_epoch :: int32
  orb_timestamp :: int64
  orb_max_num_offsets :: int32

definition OffsetRequestBlock_default :: OffsetRequestBlock where
  "OffsetRequestBlock_default = \<lparr>orb_leader_epoch = (- 1), orb_timestamp = 0, orb_max_num_offsets =
      0\<rparr>"

definition OffsetRequestBlock_encode :: "int16 \<Rightarrow> OffsetRequestBlock \<Rightarrow> unit enc" where
  "OffsetRequestBlock_encode version x =
     then_p (when_p (sint version \<ge> 4) (putInt32 (orb_leader_epoch x)))
    (then_p (putInt64 (orb_timestamp x))
       (when_p (version = 0) (putInt32 (orb_max_num_offsets x))))"

definition OffsetRequestBlock_decode :: "int16 \<Rightarrow> OffsetRequestBlock \<Rightarrow>
    OffsetRequestBlock dec" where
  "OffsetRequestBlock_decode version this =
     bind_p (field_if (sint version \<ge> 4) getInt32 (- 1)) (\<lambda>leader_epoch.
     bind_p getInt64 (\<lambda>timestamp.
     bind_p (field_if (version = 0) getInt32 (orb_max_num_offsets this)) (\<lambda>max_num_offsets.
       ret \<lparr>orb_leader_epoch = leader_epoch, orb_timestamp = timestamp, orb_max_num_offsets =
           max_num_offsets\<rparr>)))"

definition wOffsetRequestBlock :: "int16 \<Rightarrow> bool \<Rightarrow> OffsetRequestBlock \<Rightarrow>
    bytes" where
  "wOffsetRequestBlock version fl x =
     (if sint version \<ge> 4 then be32 (orb_leader_epoch x) else []) @ be64 (orb_timestamp x) @
     (if version = 0 then be32 (orb_max_num_offsets x) else [])"

definition OffsetRequestBlock_ok :: "bool \<Rightarrow> OffsetRequestBlock \<Rightarrow> bool" where
  "OffsetRequestBlock_ok fl x \<longleftrightarrow>
     True"

definition OffsetRequestBlock_seen :: "int16 \<Rightarrow> OffsetRequestBlock \<Rightarrow> OffsetRequestBlock
    \<Rightarrow> OffsetRequestBlock" where
  "OffsetRequestBlock_seen version this x =
     x\<lparr>orb_leader_epoch := (if sint version \<ge> 4 then (orb_leader_epoch x) else (- 1)),
         orb_max_num_offsets := (if version = 0 then (orb_max_num_offsets x) else (orb_max_num_offsets
         this))\<rparr>"

lemma emits_OffsetRequestBlock [emits_rules]:
  "OffsetRequestBlock_ok fl x \<Longrightarrow> emits fl (OffsetRequestBlock_encode version x)
      (wOffsetRequestBlock version fl x)"
  unfolding OffsetRequestBlock_encode_def wOffsetRequestBlock_def OffsetRequestBlock_ok_def by (intro
      emits_rules; auto)

lemma reads_OffsetRequestBlock [reads_rules]:
  assumes "OffsetRequestBlock_ok fl x"
  shows "reads fl (OffsetRequestBlock_decode version this) (wOffsetRequestBlock version fl x)
      (OffsetRequestBlock_seen version this x)"
  unfolding OffsetRequestBlock_decode_def wOffsetRequestBlock_def
  by (rule reads_conv, (rule reads_rules | (use assms in \<open>auto simp: OffsetRequestBlock_ok_def
      OffsetRequestBlock_seen_def; fail\<close>))+)

definition OffsetPartition_put_entry :: "int16 \<Rightarrow> int \<times> OffsetRequestBlock \<Rightarrow> unit
    enc" where
  "OffsetPartition_put_entry version kv =
     then_p (putInt32 (word_of_int (fst kv)))
       (OffsetRequestBlock_encode version (snd kv))"

definition OffsetPartition_get_entry :: "int16 \<Rightarrow> (int \<times> OffsetRequestBlock) dec" where
  "OffsetPartition_get_entry version =
     bind_p (bind_p getInt32 (\<lambda>p. ret (sint p))) (\<lambda>k.
     bind_p (OffsetRequestBlock_decode version OffsetRequestBlock_default) (\<lambda>v.
       ret (k, v)))"

definition wOffsetPartition_entry :: "int16 \<Rightarrow> bool \<Rightarrow> int \<times> OffsetRequestBlock
    \<Rightarrow> bytes" where
  "wOffsetPartition_entry version fl kv =
     be32 (word_of_int (fst kv)) @ wOffsetRequestBlock version fl (snd kv)"

definition OffsetPartition_entry_ok :: "bool \<Rightarrow> int \<times> OffsetRequestBlock \<Rightarrow> bool"
    where
  "OffsetPartition_entry_ok fl kv \<longleftrightarrow>
     sint (word_of_int (fst kv) :: int32) = (fst kv) \<and> OffsetRequestBlock_ok fl (snd kv)"

definition OffsetPartition_entry_seen :: "int16 \<Rightarrow> int \<times> OffsetRequestBlock \<Rightarrow> int
    \<times> OffsetRequestBlock" where
  "OffsetPartition_entry_seen version kv = (fst kv, (OffsetRequestBlock_seen version OffsetRequestBlock_default
      (snd kv)))"

lemma fst_OffsetPartition_entry_seen [simp]: "fst (OffsetPartition_entry_seen version kv) = fst kv"
  by (simp add: OffsetPartition_entry_seen_def)

lemma emits_OffsetPartition_entry [emits_rules]:
  "OffsetPartition_entry_ok fl kv \<Longrightarrow> emits fl (OffsetPartition_put_entry version kv)
      (wOffsetPartition_entry version fl kv)"
  unfolding OffsetPartition_put_entry_def wOffsetPartition_entry_def OffsetPartition_entry_ok_def by (intro
      emits_rules; auto)

lemma reads_OffsetPartition_entry [reads_rules]:
  assumes "OffsetPartition_entry_ok fl kv"
  shows "reads fl (OffsetPartition_get_entry version) (wOffsetPartition_entry version fl kv)
      (OffsetPartition_entry_seen version kv)"
  unfolding OffsetPartition_get_entry_def wOffsetPartition_entry_def
  by (rule reads_conv, (rule reads_rules | (use assms in \<open>auto simp: OffsetPartition_entry_ok_def
      OffsetPartition_entry_seen_def; fail\<close>))+)

definition OffsetTopic_put_entry :: "int16 \<Rightarrow> bytes \<times> (int \<times> OffsetRequestBlock) list
    \<Rightarrow> unit enc" where
  "OffsetTopic_put_entry version kv =
     then_p (putString (fst kv))
       (then_p (putArrayLength (size32 (length (snd kv))))
            (for_each (OffsetPartition_put_entry version) (snd kv)))"

definition OffsetTopic_get_entry :: "int16 \<Rightarrow> (bytes \<times> (int \<times> OffsetRequestBlock)
    list) dec" where
  "OffsetTopic_get_entry version =
     bind_p getString (\<lambda>k.
     bind_p (bind_p getArrayLength (\<lambda>n. put_all (\<lambda>(k, v). smap_put k v) n
         (OffsetPartition_get_entry version) [])) (\<lambda>v.
       ret (k, v)))"

definition wOffsetTopic_entry :: "int16 \<Rightarrow> bool \<Rightarrow> bytes \<times> (int \<times>
    OffsetRequestBlock) list \<Rightarrow> bytes" where
  "wOffsetTopic_entry version fl kv =
     wString fl (fst kv) @ wArray fl (wOffsetPartition_entry version fl) (snd kv)"

definition OffsetTopic_entry_ok :: "bool \<Rightarrow> bytes \<times> (int \<times> OffsetRequestBlock) list
    \<Rightarrow> bool" where
  "OffsetTopic_entry_ok fl kv \<longleftrightarrow>
     string_ok fl (fst kv) \<and> len_ok fl (length (snd kv)) \<and>
     (\<forall>kv \<in> set (snd kv). OffsetPartition_entry_ok fl kv) \<and> smap (snd kv)"

definition OffsetTopic_entry_seen :: "int16 \<Rightarrow> bytes \<times> (int \<times> OffsetRequestBlock) list
    \<Rightarrow> bytes \<times> (int \<times> OffsetRequestBlock) list" where
  "OffsetTopic_entry_seen version kv = (fst kv, (map (OffsetPartition_entry_seen version) (snd kv)))"

lemma fst_OffsetTopic_entry_seen [simp]: "fst (OffsetTopic_entry_seen version kv) = fst kv"
  by (simp add: OffsetTopic_entry_seen_def)

lemma smap_OffsetTopic_entry_seen [simp]: "smap (snd (OffsetTopic_entry_seen version kv)) = smap (snd kv)"
  by (simp add: OffsetTopic_entry_seen_def smap_def o_def)

lemma OffsetTopic_entry_ok_smap [dest]: "OffsetTopic_entry_ok fl kv \<Longrightarrow> smap (snd kv)"
  by (simp add: OffsetTopic_entry_ok_def)

lemma emits_OffsetTopic_entry [emits_rules]:
  "OffsetTopic_entry_ok fl kv \<Longrightarrow> emits fl (OffsetTopic_put_entry version kv) (wOffsetTopic_entry
      version fl kv)"
  unfolding OffsetTopic_put_entry_def wOffsetTopic_entry_def OffsetTopic_entry_ok_def by (intro emits_rules;
      auto)

lemma reads_OffsetTopic_entry [reads_rules]:
  assumes "OffsetTopic_entry_ok fl kv"
  shows "reads fl (OffsetTopic_get_entry version) (wOffsetTopic_entry version fl kv) (OffsetTopic_entry_seen
      version kv)"
  unfolding OffsetTopic_get_entry_def wOffsetTopic_entry_def
  by (rule reads_conv, (rule reads_rules | (use assms in \<open>auto simp: OffsetTopic_entry_ok_def
      OffsetTopic_entry_seen_def; fail\<close>))+)

text \<open>\<^verbatim>\<open>m_replica_id\<close> counts only while
    \<^verbatim>\<open>m_is_replica_id_set\<close>: one optional field.\<close>

definition replica_id :: "int32 option \<Rightarrow> int32" where
  "replica_id r = (case r of Some i \<Rightarrow> i | None \<Rightarrow> - 1)"

lemma reads_when_nonzero:
  assumes len: "len_ok fl (length xs)" and body: "xs \<noteq> [] \<Longrightarrow> reads fl (bind_p
      getArrayLength P) (wArray fl w xs) v"
  shows "reads fl (bind_p getArrayLength (\<lambda>n. if n = 0 then ret old else P n)) (wArray fl w xs) (if xs
      = [] then old else v)"
proof (cases "xs = []")
  case True
  then have "size32 (length xs) = (0 :: int32)" by simp
  then have "reads fl (if size32 (length xs) = (0 :: int32) then ret old else P (size32 (length xs))) [] old"
    by (simp add: reads_ret)
  from reads_bind_same [OF reads_getArrayLength [OF len], of "\<lambda>n. if n = 0 then ret old else P n", OF
      this]
  show ?thesis using True by (simp add: wArray_def)
next
  case False
  then have "P (size32 (length xs)) = (if size32 (length xs) = (0 :: int32) then ret old else P (size32 (length
      xs)))"
    using size32_zero [OF len] by simp
  with reads_getArrayLength [OF len] show ?thesis using body [OF False] False unfolding wArray_def
    by (simp only: if_False) (rule reads_bind_cong)
qed

record OffsetRequest =
  lor_version :: int16
  lor_replica :: "int32 option"
  lor_level :: int32
  lor_blocks :: "(bytes \<times> (int \<times> OffsetRequestBlock) list) list"

definition OffsetRequest_set_version :: "int16 \<Rightarrow> OffsetRequest \<Rightarrow> OffsetRequest" where
  "OffsetRequest_set_version v m = m\<lparr>lor_version := v\<rparr>"

definition OffsetRequest_encode :: "OffsetRequest \<Rightarrow> unit enc" where
  "OffsetRequest_encode m =
     then_p (putInt32 (replica_id (lor_replica m)))
    (then_p (when_p (sint (lor_version m) \<ge> 2) (putBool ((lor_level m) = ReadCommitted)))
       (then_p (putArrayLength (size32 (length (lor_blocks m)))) (for_each (OffsetTopic_put_entry (lor_version
           m)) (lor_blocks m))))"

definition OffsetRequest_decode :: "OffsetRequest \<Rightarrow> int16 \<Rightarrow> OffsetRequest dec" where
  "OffsetRequest_decode this version =
     bind_p (bind_p getInt32 (\<lambda>v. ret (if sint v \<ge> 0 then Some v else (lor_replica this))))
         (\<lambda>replica.
     bind_p (field_if (sint version \<ge> 2) (bind_p getBool (\<lambda>b. ret (if b then ReadCommitted else
         ReadUncommitted))) (lor_level this)) (\<lambda>level.
     bind_p (bind_p getArrayLength (\<lambda>n. if n = 0 then ret (lor_blocks this) else put_all (\<lambda>(k,
         vs). alist_merge smap_put k vs) n (OffsetTopic_get_entry version) [])) (\<lambda>blocks.
       ret \<lparr>lor_version = version, lor_replica = replica, lor_level = level, lor_blocks =
         blocks\<rparr>)))"

definition OffsetRequest_required_version :: "int16 \<Rightarrow> KafkaVersion" where
  "OffsetRequest_required_version v =
     (if v = 5 then V2_2_0_0 else if v = 4 then V2_1_0_0 else if v = 3 then V2_0_0_0 else if v = 2
      then V0_11_0_0 else if v = 1 then V0_10_1_0 else if v = 0 then V0_8_2_0 else V2_0_0_0)"

definition OffsetRequest_body :: "OffsetRequest \<Rightarrow> protocol_body" where
  "OffsetRequest_body m =
     \<lparr>pb_key = 2, pb_version = lor_version m,
      pb_header_version = 1,
      pb_is_valid_version = (sint (lor_version m) \<ge> 0 \<and> sint (lor_version m) \<le> 5),
      pb_is_flexible = False,
      pb_is_flexible_version = (\<lambda>_. False),
      pb_required_version = OffsetRequest_required_version (lor_version m),
      pb_encode = OffsetRequest_encode m\<rparr>"

definition wOffsetRequest :: "OffsetRequest \<Rightarrow> bytes" where
  "wOffsetRequest m =
     (let fl = False in
     be32 (replica_id (lor_replica m)) @
     (if sint (lor_version m) \<ge> 2 then wBool ((lor_level m) = ReadCommitted) else []) @
     wArray fl (wOffsetTopic_entry (lor_version m) fl) (lor_blocks m))"

definition OffsetRequest_ok :: "OffsetRequest \<Rightarrow> bool" where
  "OffsetRequest_ok m \<longleftrightarrow>
     (let fl = False in
     (lor_level m) \<in> {ReadUncommitted, ReadCommitted} \<and>
     len_ok fl (length (lor_blocks m)) \<and> (\<forall>kv \<in> set (lor_blocks m). OffsetTopic_entry_ok fl
         kv) \<and> distinct (map fst (lor_blocks m)))"

definition OffsetRequest_seen :: "OffsetRequest \<Rightarrow> OffsetRequest \<Rightarrow> OffsetRequest" where
  "OffsetRequest_seen this m =
     m\<lparr>lor_replica := (if sint (replica_id (lor_replica m)) \<ge> 0 then Some (replica_id (lor_replica
       m)) else (lor_replica this)), lor_level := (if sint (lor_version m) \<ge> 2 then (lor_level m) else
       (lor_level this)), lor_blocks := (if (lor_blocks m) = [] then (lor_blocks this) else map
       (OffsetTopic_entry_seen (lor_version m)) (lor_blocks m))\<rparr>"

interpretation lor: protocol_message OffsetRequest_body OffsetRequest_decode wOffsetRequest
  OffsetRequest_ok OffsetRequest_seen
proof
  fix m this :: OffsetRequest
  assume ok: "OffsetRequest_ok m"
  show "emits (pb_is_flexible (OffsetRequest_body m)) (pb_encode (OffsetRequest_body m)) (wOffsetRequest m)"
    unfolding OffsetRequest_body_def OffsetRequest_encode_def wOffsetRequest_def Let_def protocol_body.simps
    by (intro emits_rules; use ok in \<open>auto simp: OffsetRequest_ok_def Let_def ReadCommitted_def
        ReadUncommitted_def\<close>)
  show "reads (pb_is_flexible (OffsetRequest_body m)) (OffsetRequest_decode this (pb_version
      (OffsetRequest_body m)))
      (wOffsetRequest m) (OffsetRequest_seen this m)"
    unfolding OffsetRequest_body_def OffsetRequest_decode_def wOffsetRequest_def Let_def protocol_body.simps
    by (rule reads_conv, (rule reads_rules reads_when_nonzero | (use ok in \<open>auto simp:
        OffsetRequest_ok_def Let_def ReadCommitted_def ReadUncommitted_def
      OffsetRequest_seen_def; fail\<close>))+)
qed (simp_all add: OffsetRequest_body_def wOffsetRequest_def Let_def)

definition OffsetRequest_set_replica_id :: "int32 \<Rightarrow> OffsetRequest \<Rightarrow> OffsetRequest" where
  "OffsetRequest_set_replica_id i m = m\<lparr>lor_replica := Some i\<rparr>"

definition OffsetRequest_replica_id :: "OffsetRequest \<Rightarrow> int32" where
  "OffsetRequest_replica_id m = replica_id (lor_replica m)"

definition OffsetRequest_add_block :: "bytes \<Rightarrow> int \<Rightarrow> int64 \<Rightarrow> int32
    \<Rightarrow> OffsetRequest \<Rightarrow> OffsetRequest" where
  "OffsetRequest_add_block topic p timestamp max_offsets m =
     (let ps = entry_of topic (lor_blocks m);
          old = (case map_of ps p of Some b \<Rightarrow> b | None \<Rightarrow> OffsetRequestBlock_default);
          b = old\<lparr>orb_leader_epoch := - 1, orb_timestamp := timestamp,
                orb_max_num_offsets := (if lor_version m = 0 then max_offsets else orb_max_num_offsets
                    old)\<rparr>
      in m\<lparr>lor_blocks := AList.update topic (smap_put p b ps) (lor_blocks m)\<rparr>)"

text \<open>From version 1 on the one offset becomes the list of offsets.\<close>

record OffsetResponseBlock =
  osb_err :: int16
  osb_offsets :: "int64 list"
  osb_timestamp :: int64
  osb_offset :: int64
  osb_leader_epoch :: int32

definition OffsetResponseBlock_default :: OffsetResponseBlock where
  "OffsetResponseBlock_default = \<lparr>osb_err = 0, osb_offsets = [], osb_timestamp = 0, osb_offset = 0,
      osb_leader_epoch = (- 1)\<rparr>"

definition OffsetResponseBlock_encode :: "int16 \<Rightarrow> OffsetResponseBlock \<Rightarrow> unit enc" where
  "OffsetResponseBlock_encode version x =
     then_p (putKError (osb_err x))
    (then_p (when_p (version = 0) (putInt64Array (osb_offsets x)))
    (then_p (when_p (sint version \<ge> 1) (putInt64 (osb_timestamp x)))
    (then_p (when_p (sint version \<ge> 1) (putInt64 (osb_offset x)))
       (when_p (sint version \<ge> 4) (putInt32 (osb_leader_epoch x))))))"

definition OffsetResponseBlock_decode :: "int16 \<Rightarrow> OffsetResponseBlock \<Rightarrow>
    OffsetResponseBlock dec" where
  "OffsetResponseBlock_decode version this =
     bind_p getKError (\<lambda>err.
     bind_p (field_if (version = 0) getInt64Array (osb_offsets this)) (\<lambda>offsets.
     bind_p (field_if (sint version \<ge> 1) getInt64 (osb_timestamp this)) (\<lambda>timestamp.
     bind_p (field_if (sint version \<ge> 1) getInt64 (osb_offset this)) (\<lambda>offset.
     bind_p (field_if (sint version \<ge> 4) getInt32 (osb_leader_epoch this)) (\<lambda>leader_epoch.
       ret \<lparr>osb_err = err, osb_offsets = (if sint version \<ge> 1 then [offset] else offsets),
           osb_timestamp = timestamp, osb_offset = offset, osb_leader_epoch = leader_epoch\<rparr>)))))"

definition wOffsetResponseBlock :: "int16 \<Rightarrow> bool \<Rightarrow> OffsetResponseBlock \<Rightarrow>
    bytes" where
  "wOffsetResponseBlock version fl x =
     be16 (osb_err x) @ (if version = 0 then wInt64Array fl (osb_offsets x) else []) @
     (if sint version \<ge> 1 then be64 (osb_timestamp x) else []) @
     (if sint version \<ge> 1 then be64 (osb_offset x) else []) @
     (if sint version \<ge> 4 then be32 (osb_leader_epoch x) else [])"

definition OffsetResponseBlock_ok :: "bool \<Rightarrow> OffsetResponseBlock \<Rightarrow> bool" where
  "OffsetResponseBlock_ok fl x \<longleftrightarrow>
     len_ok fl (length (osb_offsets x)) \<and> length (osb_offsets x) < 2 ^ 28"

definition OffsetResponseBlock_seen :: "int16 \<Rightarrow> OffsetResponseBlock \<Rightarrow>
    OffsetResponseBlock \<Rightarrow> OffsetResponseBlock" where
  "OffsetResponseBlock_seen version this x =
     x\<lparr>osb_offsets := (if version = 0 then osb_offsets x else if sint version \<ge> 1 then [osb_offset
         x] else osb_offsets this), osb_timestamp := (if sint version \<ge> 1 then (osb_timestamp x) else
         (osb_timestamp this)), osb_offset := (if sint version \<ge> 1 then (osb_offset x) else (osb_offset
         this)), osb_leader_epoch := (if sint version \<ge> 4 then (osb_leader_epoch x) else (osb_leader_epoch
         this))\<rparr>"

lemma emits_OffsetResponseBlock [emits_rules]:
  "OffsetResponseBlock_ok fl x \<Longrightarrow> emits fl (OffsetResponseBlock_encode version x)
      (wOffsetResponseBlock version fl x)"
  unfolding OffsetResponseBlock_encode_def wOffsetResponseBlock_def OffsetResponseBlock_ok_def by (intro
      emits_rules; auto)

lemma reads_OffsetResponseBlock [reads_rules]:
  assumes "OffsetResponseBlock_ok fl x"
  shows "reads fl (OffsetResponseBlock_decode version this) (wOffsetResponseBlock version fl x)
      (OffsetResponseBlock_seen version this x)"
  unfolding OffsetResponseBlock_decode_def wOffsetResponseBlock_def
  by (rule reads_conv, (rule reads_rules | (use assms in \<open>auto simp: OffsetResponseBlock_ok_def
      OffsetResponseBlock_seen_def; fail\<close>))+)

definition OffsetAnswer_put_entry :: "int16 \<Rightarrow> int32 \<times> OffsetResponseBlock \<Rightarrow> unit
    enc" where
  "OffsetAnswer_put_entry version kv =
     then_p (putInt32 (fst kv))
       (OffsetResponseBlock_encode version (snd kv))"

definition OffsetAnswer_get_entry :: "int16 \<Rightarrow> (int32 \<times> OffsetResponseBlock) dec" where
  "OffsetAnswer_get_entry version =
     bind_p getInt32 (\<lambda>k.
     bind_p (OffsetResponseBlock_decode version OffsetResponseBlock_default) (\<lambda>v.
       ret (k, v)))"

definition wOffsetAnswer_entry :: "int16 \<Rightarrow> bool \<Rightarrow> int32 \<times> OffsetResponseBlock
    \<Rightarrow> bytes" where
  "wOffsetAnswer_entry version fl kv =
     be32 (fst kv) @ wOffsetResponseBlock version fl (snd kv)"

definition OffsetAnswer_entry_ok :: "bool \<Rightarrow> int32 \<times> OffsetResponseBlock \<Rightarrow> bool"
    where
  "OffsetAnswer_entry_ok fl kv \<longleftrightarrow>
     OffsetResponseBlock_ok fl (snd kv)"

definition OffsetAnswer_entry_seen :: "int16 \<Rightarrow> int32 \<times> OffsetResponseBlock \<Rightarrow>
    int32 \<times> OffsetResponseBlock" where
  "OffsetAnswer_entry_seen version kv = (fst kv, (OffsetResponseBlock_seen version OffsetResponseBlock_default
      (snd kv)))"

lemma fst_OffsetAnswer_entry_seen [simp]: "fst (OffsetAnswer_entry_seen version kv) = fst kv"
  by (simp add: OffsetAnswer_entry_seen_def)

lemma emits_OffsetAnswer_entry [emits_rules]:
  "OffsetAnswer_entry_ok fl kv \<Longrightarrow> emits fl (OffsetAnswer_put_entry version kv)
      (wOffsetAnswer_entry version fl kv)"
  unfolding OffsetAnswer_put_entry_def wOffsetAnswer_entry_def OffsetAnswer_entry_ok_def by (intro emits_rules;
      auto)

lemma reads_OffsetAnswer_entry [reads_rules]:
  assumes "OffsetAnswer_entry_ok fl kv"
  shows "reads fl (OffsetAnswer_get_entry version) (wOffsetAnswer_entry version fl kv) (OffsetAnswer_entry_seen
      version kv)"
  unfolding OffsetAnswer_get_entry_def wOffsetAnswer_entry_def
  by (rule reads_conv, (rule reads_rules | (use assms in \<open>auto simp: OffsetAnswer_entry_ok_def
      OffsetAnswer_entry_seen_def; fail\<close>))+)

definition OffsetAnswers_put_entry :: "int16 \<Rightarrow> bytes \<times> (int32 \<times> OffsetResponseBlock)
    list \<Rightarrow> unit enc" where
  "OffsetAnswers_put_entry version kv =
     then_p (putString (fst kv))
       (then_p (putArrayLength (size32 (length (snd kv))))
            (for_each (OffsetAnswer_put_entry version) (snd kv)))"

definition OffsetAnswers_get_entry :: "int16 \<Rightarrow> (bytes \<times> (int32 \<times> OffsetResponseBlock)
    list) dec" where
  "OffsetAnswers_get_entry version =
     bind_p getString (\<lambda>k.
     bind_p (bind_p getArrayLength (\<lambda>n. put_all (\<lambda>(k, v). AList.update k v) n
         (OffsetAnswer_get_entry version) [])) (\<lambda>v.
       ret (k, v)))"

definition wOffsetAnswers_entry :: "int16 \<Rightarrow> bool \<Rightarrow> bytes \<times> (int32 \<times>
    OffsetResponseBlock) list \<Rightarrow> bytes" where
  "wOffsetAnswers_entry version fl kv =
     wString fl (fst kv) @ wArray fl (wOffsetAnswer_entry version fl) (snd kv)"

definition OffsetAnswers_entry_ok :: "bool \<Rightarrow> bytes \<times> (int32 \<times> OffsetResponseBlock)
    list \<Rightarrow> bool" where
  "OffsetAnswers_entry_ok fl kv \<longleftrightarrow>
     string_ok fl (fst kv) \<and> len_ok fl (length (snd kv)) \<and>
     (\<forall>kv \<in> set (snd kv). OffsetAnswer_entry_ok fl kv) \<and> distinct (map fst (snd kv))"

definition OffsetAnswers_entry_seen :: "int16 \<Rightarrow> bytes \<times> (int32 \<times> OffsetResponseBlock)
    list \<Rightarrow> bytes \<times> (int32 \<times> OffsetResponseBlock) list" where
  "OffsetAnswers_entry_seen version kv = (fst kv, (map (OffsetAnswer_entry_seen version) (snd kv)))"

lemma fst_OffsetAnswers_entry_seen [simp]: "fst (OffsetAnswers_entry_seen version kv) = fst kv"
  by (simp add: OffsetAnswers_entry_seen_def)

lemma keys_OffsetAnswers_entry_seen [simp]: "map fst (snd (OffsetAnswers_entry_seen version kv)) = map fst (snd
    kv)"
  by (simp add: OffsetAnswers_entry_seen_def o_def)

lemma OffsetAnswers_entry_ok_distinct [dest]: "OffsetAnswers_entry_ok fl kv \<Longrightarrow> distinct (map fst
    (snd kv))"
  by (simp add: OffsetAnswers_entry_ok_def)

lemma emits_OffsetAnswers_entry [emits_rules]:
  "OffsetAnswers_entry_ok fl kv \<Longrightarrow> emits fl (OffsetAnswers_put_entry version kv)
      (wOffsetAnswers_entry version fl kv)"
  unfolding OffsetAnswers_put_entry_def wOffsetAnswers_entry_def OffsetAnswers_entry_ok_def by (intro
      emits_rules; auto)

lemma reads_OffsetAnswers_entry [reads_rules]:
  assumes "OffsetAnswers_entry_ok fl kv"
  shows "reads fl (OffsetAnswers_get_entry version) (wOffsetAnswers_entry version fl kv)
      (OffsetAnswers_entry_seen version kv)"
  unfolding OffsetAnswers_get_entry_def wOffsetAnswers_entry_def
  by (rule reads_conv, (rule reads_rules | (use assms in \<open>auto simp: OffsetAnswers_entry_ok_def
      OffsetAnswers_entry_seen_def; fail\<close>))+)

record OffsetResponse =
  los_version :: int16
  los_throttle_time :: int64
  los_blocks :: "(bytes \<times> (int32 \<times> OffsetResponseBlock) list) list"

definition OffsetResponse_set_version :: "int16 \<Rightarrow> OffsetResponse \<Rightarrow> OffsetResponse" where
  "OffsetResponse_set_version v m = m\<lparr>los_version := v\<rparr>"

definition OffsetResponse_encode :: "OffsetResponse \<Rightarrow> unit enc" where
  "OffsetResponse_encode m =
     then_p (when_p (sint (los_version m) \<ge> 2) (putDurationMs (los_throttle_time m)))
       (then_p (putArrayLength (size32 (length (los_blocks m))))
            (for_each (OffsetAnswers_put_entry (los_version m)) (los_blocks m)))"

definition OffsetResponse_decode :: "OffsetResponse \<Rightarrow> int16 \<Rightarrow> OffsetResponse dec" where
  "OffsetResponse_decode this version =
     bind_p (field_if (sint version \<ge> 2) getDurationMs (los_throttle_time this)) (\<lambda>throttle_time.
     bind_p (bind_p getArrayLength (\<lambda>n. put_all (\<lambda>(k, vs). alist_merge AList.update k vs) n
         (OffsetAnswers_get_entry version) [])) (\<lambda>blocks.
       ret (this\<lparr>los_throttle_time := throttle_time, los_blocks := blocks\<rparr>)))"

definition OffsetResponse_required_version :: "int16 \<Rightarrow> KafkaVersion" where
  "OffsetResponse_required_version v =
     (if v = 5 then V2_2_0_0 else if v = 4 then V2_1_0_0 else if v = 3 then V2_0_0_0 else if v = 2
      then V0_11_0_0 else if v = 1 then V0_10_1_0 else if v = 0 then V0_8_2_0 else V2_0_0_0)"

definition OffsetResponse_body :: "OffsetResponse \<Rightarrow> protocol_body" where
  "OffsetResponse_body m =
     \<lparr>pb_key = 2, pb_version = los_version m,
      pb_header_version = 0,
      pb_is_valid_version = (sint (los_version m) \<ge> 0 \<and> sint (los_version m) \<le> 5),
      pb_is_flexible = False,
      pb_is_flexible_version = (\<lambda>_. False),
      pb_required_version = OffsetResponse_required_version (los_version m),
      pb_encode = OffsetResponse_encode m\<rparr>"

definition wOffsetResponse :: "OffsetResponse \<Rightarrow> bytes" where
  "wOffsetResponse m =
     (let fl = False in
     (if sint (los_version m) \<ge> 2 then wDurationMs (los_throttle_time m) else []) @
     wArray fl (wOffsetAnswers_entry (los_version m) fl) (los_blocks m))"

definition OffsetResponse_ok :: "OffsetResponse \<Rightarrow> bool" where
  "OffsetResponse_ok m \<longleftrightarrow>
     (let fl = False in
     duration_ok (los_throttle_time m) \<and> len_ok fl (length (los_blocks m)) \<and>
     (\<forall>kv \<in> set (los_blocks m). OffsetAnswers_entry_ok fl kv) \<and>
     distinct (map fst (los_blocks m)))"

definition OffsetResponse_seen :: "OffsetResponse \<Rightarrow> OffsetResponse \<Rightarrow> OffsetResponse"
    where
  "OffsetResponse_seen this m =
     m\<lparr>los_version := los_version this, los_throttle_time := (if sint (los_version m) \<ge> 2 then
       (los_throttle_time m) else (los_throttle_time this)), los_blocks := (map (OffsetAnswers_entry_seen
       (los_version m)) (los_blocks m))\<rparr>"

interpretation los: protocol_message OffsetResponse_body OffsetResponse_decode wOffsetResponse
  OffsetResponse_ok OffsetResponse_seen
proof
  fix m this :: OffsetResponse
  assume ok: "OffsetResponse_ok m"
  show "emits (pb_is_flexible (OffsetResponse_body m)) (pb_encode (OffsetResponse_body m)) (wOffsetResponse m)"
    unfolding OffsetResponse_body_def OffsetResponse_encode_def wOffsetResponse_def Let_def protocol_body.simps
    by (intro emits_rules; use ok in \<open>auto simp: OffsetResponse_ok_def Let_def \<close>)
  show "reads (pb_is_flexible (OffsetResponse_body m)) (OffsetResponse_decode this (pb_version
      (OffsetResponse_body m)))
      (wOffsetResponse m) (OffsetResponse_seen this m)"
    unfolding OffsetResponse_body_def OffsetResponse_decode_def wOffsetResponse_def Let_def protocol_body.simps
    by (rule reads_conv, (rule reads_rules | (use ok in \<open>auto simp: OffsetResponse_ok_def Let_def 
      OffsetResponse_seen_def; fail\<close>))+)
qed (simp_all add: OffsetResponse_body_def wOffsetResponse_def Let_def)

definition OffsetResponse_throttle_time :: "OffsetResponse \<Rightarrow> int64" where
  "OffsetResponse_throttle_time m = los_throttle_time m"

text \<open>\<^verbatim>\<open>get_block\<close> of an absent block gives a shared static object; here its
    value when nothing wrote to it.\<close>

definition OffsetResponse_has_block :: "OffsetResponse \<Rightarrow> bytes \<Rightarrow> int32 \<Rightarrow>
    bool" where
  "OffsetResponse_has_block m topic p =
     (case map_of (los_blocks m) topic of None \<Rightarrow> False | Some ps \<Rightarrow> map_of ps p \<noteq>
         None)"

definition OffsetResponse_get_block :: "OffsetResponse \<Rightarrow> bytes \<Rightarrow> int32 \<Rightarrow>
    OffsetResponseBlock" where
  "OffsetResponse_get_block m topic p =
     (case map_of (los_blocks m) topic of
        None \<Rightarrow> OffsetResponseBlock_default
      | Some ps \<Rightarrow> (case map_of ps p of Some b \<Rightarrow> b | None \<Rightarrow>
          OffsetResponseBlock_default))"

definition OffsetResponse_add_topic_partition :: "bytes \<Rightarrow> int32 \<Rightarrow> int64 \<Rightarrow>
    OffsetResponse \<Rightarrow> OffsetResponse" where
  "OffsetResponse_add_topic_partition topic p offset m =
     m\<lparr>los_blocks := AList.update topic (AList.update p
        ((OffsetResponse_get_block m topic p)\<lparr>osb_offsets := [offset], osb_offset := offset\<rparr>)
        (entry_of topic (los_blocks m))) (los_blocks m)\<rparr>"

lemma OffsetResponse_added_block:
  "OffsetResponse_has_block (OffsetResponse_add_topic_partition t p x m) t p"
  "osb_offset (OffsetResponse_get_block (OffsetResponse_add_topic_partition t p x m) t p) = x"
  by (simp_all add: OffsetResponse_has_block_def OffsetResponse_get_block_def
      OffsetResponse_add_topic_partition_def
      update_conv')

end
