(* ===== verification/Kafka_Record.thy ===== *)
theory Kafka_Record
  imports Protocol
begin

text \<open>
  Records (\<^verbatim>\<open>record.h\<close>, \<^verbatim>\<open>record_header.h\<close>, \<^verbatim>\<open>record.cpp\<close>): a record is framed by its length as a
  variable-length integer, which \<^verbatim>\<open>VariantLengthField\<close> reserves, adjusts and patches.

  The field is a mutable member of the record (its start offset is set at every \<open>push\<close> before it is read,
  so the record keeps the length only): the sizing pass leaves the length of the body in it, with
  which the writing pass reserves its bytes.  \<open>Record_encode\<close> therefore returns the record with the field
  as the pass leaves it, and \<open>encode_object\<close> is \<^verbatim>\<open>encode\<close> of \<^verbatim>\<open>encoder_decoder.cpp\<close> on an object that
  changes between the passes.

  \<^verbatim>\<open>variantSize\<close> counts the bytes of the plain value while \<^verbatim>\<open>run\<close> writes its zig-zag image.  The two
  agree on \<open>sized n\<close>; for the other lengths, from 64 to 127 first of all, the theorems show what happens.
\<close>

section \<open>Objects that change between the passes\<close>

definition encode_object :: "('m \<Rightarrow> 'm enc) \<Rightarrow> 'm \<Rightarrow> (bytes, 'm) prog" where
  "encode_object f x out =
     (case f x (new_encoder PREP 0) of
        Abort \<Rightarrow> Abort
      | Err _ _ \<Rightarrow> Err ErrEncodeError out
      | Ok x' enc \<Rightarrow>
          (if int (pe_offset enc) > MaxRequestSize then Err ErrEncodeError out
           else
             (case f x' (new_encoder REAL (pe_offset enc)) of
                Abort \<Rightarrow> Abort
              | Err _ _ \<Rightarrow> Err ErrEncodeError out
              | Ok x'' real_enc \<Rightarrow>
                  (if out = [] then Ok x'' (pe_raw real_enc) else Ok x'' (out @ pe_raw real_enc)))))"

section \<open>Records\<close>

record RecordHeader =
  rh_key :: bytes
  rh_value :: bytes

definition RecordHeader_default :: RecordHeader where
  "RecordHeader_default = \<lparr>rh_key = [], rh_value = []\<rparr>"

record Record =
  rcd_headers :: "RecordHeader list"
  rcd_attributes :: int8
  rcd_timestamp_delta :: int64
  rcd_offset_delta :: int64
  rcd_key :: bytes
  rcd_value :: bytes
  rcd_length :: int64

definition Record_default :: Record where
  "Record_default = \<lparr>rcd_headers = [], rcd_attributes = 0, rcd_timestamp_delta = 0, rcd_offset_delta = 0,
     rcd_key = [], rcd_value = [], rcd_length = 0\<rparr>"

definition Record_new :: "bytes \<Rightarrow> bytes \<Rightarrow> int64 \<Rightarrow> int64 \<Rightarrow> Record" where
  "Record_new key value offset_delta timestamp_delta = Record_default
     \<lparr>rcd_key := key, rcd_value := value, rcd_offset_delta := offset_delta, rcd_timestamp_delta := timestamp_delta\<rparr>"

definition RecordHeader_encode :: "RecordHeader \<Rightarrow> unit enc" where
  "RecordHeader_encode h =
     then_p (err_as (- 1) (putVariantBytes (rh_key h))) (err_as (- 1) (putVariantBytes (rh_value h)))"

fun stored_field :: "push_field option \<Rightarrow> Record \<Rightarrow> Record" where
  "stored_field (Some (VariantLengthField _ l)) r = r\<lparr>rcd_length := l\<rparr>"
| "stored_field _ r = r"

definition Record_put_body :: "Record \<Rightarrow> unit enc" where
  "Record_put_body r =
     then_p (putInt8 (rcd_attributes r))
    (then_p (putVariant (rcd_timestamp_delta r))
    (then_p (putVariant (rcd_offset_delta r))
    (then_p (err_as (- 1) (putVariantBytes (rcd_key r)))
    (then_p (err_as (- 1) (putVariantBytes (rcd_value r)))
    (then_p (putVariant (size64 (length (rcd_headers r))))
       (for_each (\<lambda>h. err_as (- 1) (RecordHeader_encode h)) (rcd_headers r)))))))"

definition Record_encode :: "Record \<Rightarrow> Record enc" where
  "Record_encode r =
     then_p (push_pe (VariantLengthField 0 (rcd_length r)))
       (then_p (Record_put_body r) (bind_p pop_pe (\<lambda>f. ret (stored_field f r))))"

text \<open>
  \<^verbatim>\<open>decode\<close> of a header and of a record, on an object: the object as it stands on return, and whether it
  returned 0.
\<close>

definition RecordHeader_decode :: "RecordHeader \<Rightarrow> (packet_decoder, RecordHeader \<times> bool) prog" where
  "RecordHeader_decode this =
     get_into getVariantBytes (\<lambda>x h. h\<lparr>rh_key := x\<rparr>) id
    (get_into getVariantBytes (\<lambda>x h. h\<lparr>rh_value := x\<rparr>) id got) this"

primrec decode_into :: "('o \<Rightarrow> ('s, 'o \<times> bool) prog) \<Rightarrow> 'o list \<Rightarrow> ('s, 'o list \<times> bool) prog" where
  "decode_into f [] = ret ([], True)"
| "decode_into f (x # xs) = bind_p (f x) (\<lambda>(y, ok).
     if ok then bind_p (decode_into f xs) (\<lambda>(ys, ok'). ret (y # ys, ok')) else ret (y # xs, False))"

definition Record_get_headers :: "Record \<Rightarrow> (packet_decoder, Record \<times> bool) prog" where
  "Record_get_headers this =
     bind_p (get_or (bind_p getVariant (\<lambda>n. ret (Some n))) None) (\<lambda>n.
       case n of
         None \<Rightarrow> ret (this, False)
       | Some numHeaders \<Rightarrow>
           (if sint numHeaders \<ge> 0
            then bind_p (decode_into RecordHeader_decode
                   (resize_to (nat (sint numHeaders)) RecordHeader_default (rcd_headers this)))
                   (\<lambda>(hs, ok). ret (this\<lparr>rcd_headers := hs\<rparr>, ok))
            else got this))"

definition Record_get_body :: "Record \<Rightarrow> (packet_decoder, Record \<times> bool) prog" where
  "Record_get_body =
     get_into getInt8 (\<lambda>x r. r\<lparr>rcd_attributes := x\<rparr>) (\<lambda>r. r\<lparr>rcd_attributes := - 1\<rparr>)
    (get_into getVariant (\<lambda>x r. r\<lparr>rcd_timestamp_delta := x\<rparr>) id
    (get_into getVariant (\<lambda>x r. r\<lparr>rcd_offset_delta := x\<rparr>) (\<lambda>r. r\<lparr>rcd_offset_delta := - 1\<rparr>)
    (get_into getVariantBytes (\<lambda>x r. r\<lparr>rcd_key := x\<rparr>) id
    (get_into getVariantBytes (\<lambda>x r. r\<lparr>rcd_value := x\<rparr>) id
       Record_get_headers))))"

definition Record_decode :: "Record \<Rightarrow> (packet_decoder, Record \<times> bool) prog" where
  "Record_decode this pd =
     (case push_pd (VariantLengthField 0 (rcd_length this)) pd of
        Abort \<Rightarrow> Abort
      | Err _ pd' \<Rightarrow> Ok (this, False) pd'
      | Ok _ pd' \<Rightarrow>
          bind_p (Record_get_body (stored_field (Some (hd (pd_stack pd'))) this)) (\<lambda>(r, ok) pd.
            if \<not> ok then Ok (r, False) pd
            else case pop_pd pd of
                   Ok _ pd \<Rightarrow> Ok (r, True) pd
                 | Err _ pd \<Rightarrow> Ok (r, False) pd
                 | Abort \<Rightarrow> Abort) pd')"

text \<open>
  The two overloads in \<^verbatim>\<open>record_batch.cpp\<close> that decode the records of a batch: bytes left over throw a
  \<^verbatim>\<open>PacketError\<close>.
\<close>

definition decode_records :: "bytes \<Rightarrow> Record list \<Rightarrow> (Record list, int) outcome" where
  "decode_records buf inputs =
     (if buf = [] then Ok ErrNoError inputs
      else case decode_into Record_decode inputs (new_decoder buf) of
        Abort \<Rightarrow> Abort
      | Err e _ \<Rightarrow> Abort
      | Ok (rs, ok) helper \<Rightarrow>
          if \<not> ok then Ok ErrDecodeError rs
          else if pd_offset helper \<noteq> length buf then Abort
          else Ok ErrNoError rs)"

primrec encode_records :: "Record list \<Rightarrow> (bytes, Record list) prog" where
  "encode_records [] = ret []"
| "encode_records (r # rs) =
     bind_p (get_or (encode_object Record_encode r) r) (\<lambda>r'.
     bind_p (encode_records rs) (\<lambda>rs'. ret (r' # rs')))"

section \<open>Layout\<close>

text \<open>The sizes for which \<^verbatim>\<open>varintLen\<close> and \<^verbatim>\<open>variantSize\<close> count what is written.\<close>

definition sized :: "nat \<Rightarrow> bool" where
  "sized n \<longleftrightarrow> n < 2 ^ 31 \<and> digits7 n = digits7 (2 * n)"

definition varint_ok :: "int64 \<Rightarrow> bool" where
  "varint_ok x \<longleftrightarrow> - (2 ^ 62) \<le> sint x \<and> sint x < 2 ^ 62 \<and> varintLen x = length (encodeVariant x)"

definition wRecordHeader :: "RecordHeader \<Rightarrow> bytes" where
  "wRecordHeader h = wVariantBytes (rh_key h) @ wVariantBytes (rh_value h)"

definition wRecordBody :: "Record \<Rightarrow> bytes" where
  "wRecordBody r =
     be8 (rcd_attributes r) @ encodeVariant (rcd_timestamp_delta r) @ encodeVariant (rcd_offset_delta r) @
     wVariantBytes (rcd_key r) @ wVariantBytes (rcd_value r) @
     encodeVariant (size64 (length (rcd_headers r))) @ concat (map wRecordHeader (rcd_headers r))"

definition wRecord :: "Record \<Rightarrow> bytes" where
  "wRecord r = encodeVariant (size64 (length (wRecordBody r))) @ wRecordBody r"

definition RecordHeader_ok :: "RecordHeader \<Rightarrow> bool" where
  "RecordHeader_ok h \<longleftrightarrow> sized (length (rh_key h)) \<and> sized (length (rh_value h))"

definition Record_fits :: "Record \<Rightarrow> bool" where
  "Record_fits r \<longleftrightarrow> varint_ok (rcd_timestamp_delta r) \<and> varint_ok (rcd_offset_delta r) \<and>
     sized (length (rcd_key r)) \<and> sized (length (rcd_value r)) \<and> sized (length (rcd_headers r)) \<and>
     (\<forall>h \<in> set (rcd_headers r). RecordHeader_ok h) \<and> 0 \<le> sint (rcd_length r)"

lemma small_sized: "n < 64 \<Longrightarrow> sized n"
  by (simp add: sized_def digits7.simps)

lemma sint_size64: "n < 2 ^ 63 \<Longrightarrow> sint (size64 n) = int n"
  by (simp add: signed_of_nat signed_take_bit_int_eq_self)

lemma sized_varint: "sized n \<Longrightarrow> varint_ok (size64 n)"
  using varintLen_nonneg [of "size64 n"] sint_size64 [of n] by (simp add: sized_def varint_ok_def)

lemma emits_varint [emits_rules]: "varint_ok x \<Longrightarrow> emits fl (putVariant x) (encodeVariant x)"
  by (rule emits_putVariant) (simp add: varint_ok_def)

lemma reads_varint [reads_rules]: "varint_ok x \<Longrightarrow> reads fl getVariant (encodeVariant x) x"
  by (rule reads_getVariant) (simp_all add: varint_ok_def)

lemma emits_variant_bytes [emits_rules]:
  assumes "sized (length s)" shows "emits fl (putVariantBytes s) (wVariantBytes s)"
proof -
  have raw: "emits fl (putRawBytes s) s" using assms by (intro emits_putRawBytes) (simp add: sized_def)
  have v: "emits fl (putVariant (size64 (length s))) (encodeVariant (size64 (length s)))"
    by (rule emits_varint [OF sized_varint [OF assms]])
  have m: "emits fl (putVariant (- 1)) (encodeVariant (- 1))"
    by (intro emits_putVariant varintLen_negative) simp
  show ?thesis unfolding putVariantBytes_def
    using emits_then [OF v raw] stores_then [OF emits_stores [OF v] stores_ignore_err [OF emits_stores [OF raw]]] m
    by (intro emits_by_mode) (auto simp: wVariantBytes_def emits_iff)
qed

lemma reads_variant_bytes [reads_rules]:
  assumes "length s < 2 ^ 31" shows "reads fl getVariantBytes (wVariantBytes s) s"
proof (cases "s = []")
  case True
  have "reads fl getVariant (encodeVariant (- 1)) (- 1)" by (rule reads_getVariant) simp_all
  then show ?thesis unfolding getVariantBytes_def True
    by (simp add: wVariantBytes_def) (rule reads_bind_same, assumption, simp add: reads_ret)
next
  case False
  have s: "sint (size64 (length s)) = int (length s)" using assms by (intro sint_size64) simp
  then have v: "reads fl getVariant (encodeVariant (size64 (length s))) (size64 (length s))"
    using assms by (intro reads_getVariant) simp_all
  have "size64 (length s) \<noteq> - 1" using s by (metis sint_n1 of_nat_0_le_iff neg_0_le_iff_le not_one_le_zero)
  moreover have "(ucast (size64 (length s)) :: int32) = size32 (length s)"
    using ucast32_wi [of "int (length s)"] by simp
  ultimately have "reads fl (if size64 (length s) = - 1 then ret [] else getRawBytes (ucast (size64 (length s)))) s s"
    using reads_getRawBytes [OF assms] by simp
  then show ?thesis unfolding getVariantBytes_def using False v
    by (simp add: wVariantBytes_def) (rule reads_bind)
qed


section \<open>Writing a record\<close>

lemma emits_RecordHeader: "RecordHeader_ok h \<Longrightarrow> emits fl (RecordHeader_encode h) (wRecordHeader h)"
  unfolding RecordHeader_encode_def wRecordHeader_def RecordHeader_ok_def
  by (intro emits_then emits_err_as emits_variant_bytes) simp_all

lemma emits_Record_body: "Record_fits r \<Longrightarrow> emits fl (Record_put_body r) (wRecordBody r)"
  unfolding Record_put_body_def wRecordBody_def Record_fits_def
  by (intro emits_then emits_putInt8 emits_err_as emits_variant_bytes emits_varint emits_for_each
      emits_RecordHeader sized_varint) simp_all

lemma digits7_le: "digits7 n \<le> n + 1"
proof (induction n rule: digits7.induct)
  case (1 n)
  then show ?case by (cases "n < 128") (simp_all add: digits7.simps [of n])
qed

lemma digits7_double: "digits7 (2 * n) \<le> digits7 n + 1"
proof (cases "2 * n < 128")
  case True
  then have "digits7 (2 * n) = 1" by (simp add: digits7.simps)
  then show ?thesis by simp
next
  case False
  let ?d = "digits7 n" and ?e = "digits7 (2 * n)"
  have "128 ^ (?e - 1) \<le> 2 * n" using digits7_bounds [of "2 * n"] False by auto
  also have "\<dots> < 2 * 128 ^ ?d" using digits7_bounds [of n] by simp
  also have "\<dots> \<le> 128 ^ Suc ?d" by simp
  finally have "?e - 1 < Suc ?d" by (rule power_less_imp_less_exp [rotated]) simp
  then show ?thesis by simp
qed

text \<open>
  The two passes of a record with a body of \<open>n\<close> bytes: \<open>digits7 n\<close> bytes are reserved in front of the body,
  and the length is written over them, whatever it takes.  What the length field held before is of no
  account.
\<close>

lemma record_prep_pass:
  assumes body: "emits False (Record_put_body r) bs" and l: "0 \<le> sint (rcd_length r)"
    and n: "length bs < 2 ^ 31"
  shows "Record_encode r (new_encoder PREP 0) =
    Ok (r\<lparr>rcd_length := size64 (length bs)\<rparr>)
       ((new_encoder PREP 0)\<lparr>pe_offset := digits7 (length bs) + length bs\<rparr>)"
proof -
  let ?n = "length bs" and ?l = "rcd_length r"
  let ?d = "digits7 (nat (sint ?l))"
  let ?f = "VariantLengthField 0 ?l"
  let ?p1 = "(new_encoder PREP 0)\<lparr>pe_offset := ?d, pe_stack := [?f]\<rparr>"
  let ?p2 = "?p1\<lparr>pe_offset := ?d + ?n\<rparr>"
  have "sint ?l < 2 ^ 63" using sint_less [of ?l] by simp
  then have "nat (sint ?l) < 2 ^ 63" using l by (simp add: nat_less_iff)
  with digits7_le [of "nat (sint ?l)"] have d: "?d < 2 ^ 63 + 2" by simp
  have v: "variantSize ?l = Some ?d" by (rule variantSize_nonneg [OF l])
  have vn: "variantSize (size64 ?n) = Some (digits7 ?n)"
    using variantSize_nonneg [of "size64 ?n"] sint_size64 [of ?n] n by simp
  have dn: "digits7 ?n \<le> ?n + 1" by (rule digits7_le)
  have push: "push_pe (VariantLengthField 0 ?l) (new_encoder PREP 0) = Ok () ?p1"
    using d v by (simp add: push_pe_def by_mode_def new_encoder_def Let_def then_p_def bind_p_def count_def)
  have "Record_put_body r ?p1 = Ok () ?p2"
    using emits_prep [OF body, of ?p1] d n by (simp add: new_encoder_def)
  moreover have "pop_pe ?p2 = Ok (Some (VariantLengthField 0 (size64 ?n)))
      ((new_encoder PREP 0)\<lparr>pe_offset := digits7 ?n + ?n\<rparr>)"
  proof -
    have "sint (size32 ?n) = int ?n" using n by (rule sint_size32)
    then have "(scast (size32 ?n) :: int64) = size64 ?n" by (simp add: scast_eq)
    moreover have "(int (?d + ?n) + (int (digits7 ?n) - int ?d)) mod 2 ^ 64 = int (digits7 ?n + ?n)"
      using n dn by (subst mod_pos_pos_trivial) auto
    ultimately show ?thesis using v vn n
      by (simp add: pop_pe_def by_mode_def new_encoder_def then_p_def bind_p_def count_def Let_def)
  qed
  ultimately show ?thesis unfolding Record_encode_def using push by (simp add: ret_apply)
qed

lemma record_real_pass:
  assumes body: "emits False (Record_put_body r) bs" and n: "digits7 (length bs) + length bs < 2 ^ 31" "bs \<noteq> []"
    and l: "rcd_length r = size64 (length bs)"
  shows "\<exists>enc. Record_encode r (new_encoder REAL (digits7 (length bs) + length bs)) =
      Ok r enc \<and>
    pe_raw enc = write_at 0 (encodeVariant (size64 (length bs))) (replicate (digits7 (length bs)) 0 @ bs)"
proof -
  let ?n = "length bs" let ?d = "digits7 ?n" and ?raw = "replicate (digits7 (length bs)) 0 @ bs"
  let ?f = "VariantLengthField 0 (size64 ?n)"
  let ?p1 = "(new_encoder REAL (?d + ?n))\<lparr>pe_offset := ?d, pe_stack := [?f]\<rparr>"
  let ?p2 = "?p1\<lparr>pe_offset := ?d + ?n, pe_raw := ?raw\<rparr>"
  have s: "sint (size64 ?n) = int ?n" using n by (intro sint_size64) simp
  have v: "variantSize (size64 ?n) = Some ?d" using variantSize_nonneg [of "size64 ?n"] s by simp
  have e: "length (encodeVariant (size64 ?n)) \<le> ?d + ?n"
  proof -
    have "1 \<le> ?n" using n(2) by (cases bs) auto
    then show ?thesis using varintLen_nonneg(2) [of "size64 ?n"] s digits7_double [of ?n] by simp
  qed
  have push: "push_pe (VariantLengthField 0 (rcd_length r)) (new_encoder REAL (?d + ?n)) = Ok () ?p1"
    using v l by (simp add: push_pe_def by_mode_def new_encoder_def Let_def)
  moreover have "Record_put_body r ?p1 = Ok () ?p2"
    using emits_real [OF body, of ?p1] n by (simp add: new_encoder_def write_at_def replicate_add)
  moreover have "pop_pe ?p2 = Ok (Some ?f) (?p2\<lparr>pe_stack := [],
      pe_raw := write_at 0 (encodeVariant (size64 ?n)) ?raw\<rparr>)"
    using e by (simp add: pop_pe_def by_mode_def patch_def new_encoder_def)
  ultimately show ?thesis unfolding Record_encode_def using l by (simp add: ret_apply)
qed

theorem encode_record_bytes:
  assumes body: "emits False (Record_put_body r) bs" and l: "0 \<le> sint (rcd_length r)" and bs: "bs \<noteq> []"
    and n: "int (digits7 (length bs) + length bs) \<le> MaxRequestSize"
  shows "encode_object Record_encode r out =
    Ok (r\<lparr>rcd_length := size64 (length bs)\<rparr>)
       (out @ write_at 0 (encodeVariant (size64 (length bs))) (replicate (digits7 (length bs)) 0 @ bs))"
proof -
  let ?r = "r\<lparr>rcd_length := size64 (length bs)\<rparr>"
  have small: "digits7 (length bs) + length bs < 2 ^ 31" using n by (simp add: MaxRequestSize_def)
  have body': "emits False (Record_put_body ?r) bs" using body by (simp add: Record_put_body_def)
  obtain enc where "Record_encode ?r (new_encoder REAL (digits7 (length bs) + length bs)) = Ok ?r enc"
    "pe_raw enc = write_at 0 (encodeVariant (size64 (length bs))) (replicate (digits7 (length bs)) 0 @ bs)"
    using record_real_pass [OF body' small bs] by auto
  then show ?thesis using record_prep_pass [OF body l] small n
    by (auto simp: encode_object_def)
qed

text \<open>A body of a \<open>sized\<close> length gets the layout of the protocol.\<close>

lemma wRecordBody_nonempty [simp]: "wRecordBody r \<noteq> []"
  by (simp add: wRecordBody_def)

lemma wRecord_nonempty [simp]: "wRecord r \<noteq> []"
  by (simp add: wRecord_def)

lemma length_encodeVariant_sized: "sized n \<Longrightarrow> length (encodeVariant (size64 n)) = digits7 n"
  using varintLen_nonneg(2) [of "size64 n"] sint_size64 [of n] by (simp add: sized_def)

theorem encode_record:
  assumes "Record_fits r" "sized (length (wRecordBody r))" "int (length (wRecord r)) \<le> MaxRequestSize"
  shows "encode_object Record_encode r out =
    Ok (r\<lparr>rcd_length := size64 (length (wRecordBody r))\<rparr>) (out @ wRecord r)"
  using encode_record_bytes [OF emits_Record_body [OF assms(1)], of out] assms length_encodeVariant_sized [OF assms(2)]
  by (simp add: wRecord_def Record_fits_def write_at_def)

text \<open>
  With 64 to 127 bytes the length takes two bytes where one is reserved: the second one overwrites the first
  byte of the body, which holds the attributes.
\<close>

lemma digits7_64_127:
  assumes "64 \<le> n" "n < 128" shows "digits7 n = 1 \<and> digits7 (2 * n) = 2"
proof -
  have "n div 64 < 128" using assms by simp
  then have "digits7 (n div 64) = 1" by (simp add: digits7.simps [of "n div 64"])
  then show ?thesis using assms by (simp add: digits7.simps [of n] digits7.simps [of "2 * n"])
qed

theorem encode_record_overwrites:
  assumes "Record_fits r" "64 \<le> length (wRecordBody r)" "length (wRecordBody r) < 128"
  shows "encode_object Record_encode r out =
    Ok (r\<lparr>rcd_length := size64 (length (wRecordBody r))\<rparr>)
       (out @ encodeVariant (size64 (length (wRecordBody r))) @ tl (wRecordBody r))"
proof -
  let ?n = "length (wRecordBody r)"
  have "sint (size64 ?n) = int ?n" using assms(3) by (intro sint_size64) simp
  then have e: "length (encodeVariant (size64 ?n)) = 2"
    using varintLen_nonneg(2) [of "size64 ?n"] digits7_64_127 [OF assms(2,3)] by simp
  then show ?thesis
    using encode_record_bytes [OF emits_Record_body [OF assms(1)], of out] assms digits7_64_127 [OF assms(2,3)]
    by (simp add: Record_fits_def write_at_def MaxRequestSize_def drop_Suc)
qed

section \<open>Reading a record\<close>

lemma reads_decode_into:
  assumes "length olds = length xs" "\<And>old x. x \<in> set xs \<Longrightarrow> reads fl (f old) (w x) (g x, True)"
  shows "reads fl (decode_into f olds) (concat (map w xs)) (map g xs, True)"
  using assms
proof (induction olds xs rule: list_induct2)
  case (Cons old olds x xs)
  have "reads fl (decode_into f olds) (concat (map w xs)) (map g xs, True)" using Cons by simp
  then have "reads fl (bind_p (decode_into f olds) (\<lambda>(ys, ok'). ret (g x # ys, ok'))) (concat (map w xs))
      (g x # map g xs, True)"
    by (rule reads_bind_same) (simp add: reads_ret)
  with Cons.prems [of x old] show ?case by (auto intro: reads_bind)
qed (simp add: reads_ret)

lemma reads_RecordHeader: "RecordHeader_ok h \<Longrightarrow> reads fl (RecordHeader_decode this) (wRecordHeader h) (h, True)"
  unfolding RecordHeader_decode_def wRecordHeader_def RecordHeader_ok_def sized_def
  by (rule reads_conv, rule reads_get_into, rule reads_variant_bytes, simp, rule reads_get_into_last,
      rule reads_variant_bytes, simp, simp)

lemma reads_Record_headers:
  assumes "sized (length (rcd_headers r))" "\<forall>h \<in> set (rcd_headers r). RecordHeader_ok h"
  shows "reads fl (Record_get_headers this)
    (encodeVariant (size64 (length (rcd_headers r))) @ concat (map wRecordHeader (rcd_headers r)))
    (this\<lparr>rcd_headers := rcd_headers r\<rparr>, True)"
proof -
  let ?hs = "rcd_headers r"
  have n: "sint (size64 (length ?hs)) = int (length ?hs)"
    using assms(1) by (intro sint_size64) (simp add: sized_def)
  have count: "reads fl (get_or (bind_p getVariant (\<lambda>n. ret (Some n))) None)
      (encodeVariant (size64 (length ?hs))) (Some (size64 (length ?hs)))"
    by (intro reads_get_or reads_last reads_varint sized_varint assms)
  have "reads fl (decode_into RecordHeader_decode (resize_to (length ?hs) RecordHeader_default (rcd_headers this)))
      (concat (map wRecordHeader ?hs)) (map id ?hs, True)"
    using assms(2) by (intro reads_decode_into) (simp_all add: reads_RecordHeader)
  then have "reads fl (decode_into RecordHeader_decode (resize_to (length ?hs) RecordHeader_default (rcd_headers this)))
      (concat (map wRecordHeader ?hs)) (?hs, True)" by simp
  then have "reads fl (bind_p (decode_into RecordHeader_decode
        (resize_to (length ?hs) RecordHeader_default (rcd_headers this)))
      (\<lambda>(hs, ok). ret (this\<lparr>rcd_headers := hs\<rparr>, ok))) (concat (map wRecordHeader ?hs))
      (this\<lparr>rcd_headers := ?hs\<rparr>, True)"
    by (rule reads_bind_same) (simp add: reads_ret)
  then show ?thesis unfolding Record_get_headers_def by (intro reads_bind [OF count]) (simp add: n)
qed

lemma reads_Record_body:
  assumes "Record_fits r"
  shows "reads fl (Record_get_body this) (wRecordBody r) (r\<lparr>rcd_length := rcd_length this\<rparr>, True)"
  using assms unfolding Record_get_body_def wRecordBody_def Record_fits_def
  apply -
  apply (rule reads_conv)
  apply (rule reads_get_into, rule reads_getInt8)
  apply (rule reads_get_into, rule reads_varint, simp)
  apply (rule reads_get_into, rule reads_varint, simp)
  apply (rule reads_get_into, rule reads_variant_bytes, simp add: sized_def)
  apply (rule reads_get_into, rule reads_variant_bytes, simp add: sized_def)
  apply (rule reads_Record_headers, simp, simp)
  apply simp
  done

lemma digits7_double_ge: "digits7 n \<le> digits7 (2 * n)"
proof (cases "n < 128")
  case True
  then show ?thesis using digits7_bounds [of "2 * n"] by (simp add: digits7.simps [of n])
next
  case False
  then have "128 ^ (digits7 n - 1) \<le> n" using digits7_bounds [of n] by simp
  also have "n < 128 ^ digits7 (2 * n)" using digits7_bounds [of "2 * n"] by linarith
  finally have "digits7 n - 1 < digits7 (2 * n)" by (rule power_less_imp_less_exp [rotated]) simp
  then show ?thesis by simp
qed

lemma length_field_check:
  assumes "n < 2 ^ 31 - 1"
  shows "((scast (size32 (off + (digits7 (2 * n) + n)) - size32 off - of_nat (digits7 n)) :: int64) = size64 n) =
    (digits7 (2 * n) = digits7 n)"
proof -
  have scast: "(scast (size32 k) :: int64) = size64 k" if "k < 2 ^ 31" for k
    using sint_size32 [OF that] by (simp add: scast_eq)
  have "digits7 (2 * n) = digits7 n \<or> digits7 (2 * n) = digits7 n + 1"
    using digits7_double [of n] digits7_double_ge [of n] by linarith
  then show ?thesis
  proof
    assume eq: "digits7 (2 * n) = digits7 n"
    have "size32 (off + (digits7 (2 * n) + n)) - size32 off - of_nat (digits7 n) = size32 n" by (simp add: eq)
    then show ?thesis using scast [of n] assms eq by simp
  next
    assume eq: "digits7 (2 * n) = digits7 n + 1"
    have "size32 (off + (digits7 (2 * n) + n)) - size32 off - of_nat (digits7 n) = size32 (n + 1)" by (simp add: eq)
    moreover have "size64 (n + 1) \<noteq> size64 n" by simp
    ultimately show ?thesis using scast [of "n + 1"] assms eq by simp
  qed
qed

text \<open>
  A record with its length in front: the body is read, and \<open>pop\<close> accepts it when the length takes as many
  bytes as \<^verbatim>\<open>variantSize\<close> says.
\<close>

lemma reads_Record:
  assumes fits: "Record_fits r" and n: "length (wRecordBody r) < 2 ^ 31 - 1"
  shows "reads fl (Record_decode this) (wRecord r)
    (r\<lparr>rcd_length := size64 (length (wRecordBody r))\<rparr>,
     digits7 (2 * length (wRecordBody r)) = digits7 (length (wRecordBody r)))"
proof (rule readsI)
  fix pd :: packet_decoder
  let ?bs = "wRecordBody r" let ?n = "length ?bs" let ?e = "encodeVariant (size64 ?n)"
  let ?r = "r\<lparr>rcd_length := size64 ?n\<rparr>" and ?o = "pd_offset pd"
  let ?f = "VariantLengthField (size32 ?o) (size64 ?n)"
  let ?pd = "(advance (length ?e) pd)\<lparr>pd_stack := ?f # pd_stack pd\<rparr>"
  assume pd: "(m_flexible pd \<noteq> 0) = fl" "length (pd_raw pd) < 2 ^ 31" "?o + length (wRecord r) \<le> length (pd_raw pd)"
    and sl: "slice ?o (length (wRecord r)) (pd_raw pd) = wRecord r"
  have s: "sint (size64 ?n) = int ?n" using n by (intro sint_size64) simp
  have e: "length ?e = digits7 (2 * ?n)" using varintLen_nonneg(2) [of "size64 ?n"] s by simp
  have parts: "slice ?o (length ?e) (pd_raw pd) = ?e" "slice (?o + length ?e) ?n (pd_raw pd) = ?bs"
    using sl slice_append_left [of ?o ?e ?bs] slice_append_right [of ?o ?e ?bs] by (simp_all add: wRecord_def)
  have "getVariant pd = Ok (size64 ?n) (advance (length ?e) pd)"
    using s n pd parts by (intro readsD [OF reads_getVariant]) (simp_all add: wRecord_def)
  then have push: "push_pd (VariantLengthField 0 (rcd_length this)) pd = Ok () ?pd"
    by (simp add: push_pd_def advance_def)
  have body: "Record_get_body (this\<lparr>rcd_length := size64 ?n\<rparr>) ?pd = Ok (?r, True) (advance ?n ?pd)"
    using readsD [OF reads_Record_body [OF fits, of fl "this\<lparr>rcd_length := size64 ?n\<rparr>"], of ?pd] pd parts
    by (simp add: wRecord_def)
  have v: "variantSize (size64 ?n) = Some (digits7 ?n)" using variantSize_nonneg [of "size64 ?n"] s by simp
  have "check_field (size32 (?o + (length ?e + ?n))) (pd_raw pd) ?f =
      Some (if digits7 (2 * ?n) = digits7 ?n then 0 else - 1)"
    using length_field_check [OF n, of ?o] v e by simp
  then have "pop_pd (advance ?n ?pd) = (if digits7 (2 * ?n) = digits7 ?n then Ok () (advance (length (wRecord r)) pd)
      else Err (- 1) (advance (length (wRecord r)) pd))"
    by (simp add: pop_pd_def advance_def wRecord_def add.assoc)
  then show "Record_decode this pd =
      Ok (?r, digits7 (2 * ?n) = digits7 ?n) (advance (length (wRecord r)) pd)"
    using push body by (simp add: Record_decode_def)
qed

section \<open>The records of a batch\<close>

text \<open>A record with the length that either direction leaves in it.\<close>

definition Record_stored :: "Record \<Rightarrow> Record" where
  "Record_stored r = r\<lparr>rcd_length := size64 (length (wRecordBody r))\<rparr>"

definition Record_ok :: "Record \<Rightarrow> bool" where
  "Record_ok r \<longleftrightarrow> Record_fits r \<and> sized (length (wRecordBody r)) \<and> int (length (wRecord r)) \<le> MaxRequestSize"

lemma wRecordBody_stored [simp]: "wRecordBody (r\<lparr>rcd_length := l\<rparr>) = wRecordBody r" "wRecordBody (Record_stored r) = wRecordBody r"
  by (simp_all add: wRecordBody_def Record_stored_def)

lemma wRecord_stored [simp]: "wRecord (Record_stored r) = wRecord r"
  by (simp add: wRecord_def)

lemma Record_ok_stored: "Record_ok r \<Longrightarrow> Record_ok (Record_stored r)"
  using sint_size64 [of "length (wRecordBody r)"]
  by (simp add: Record_ok_def Record_fits_def Record_stored_def wRecord_def sized_def)

lemma Record_stored_idem [simp]: "Record_stored (Record_stored r) = Record_stored r"
  by (simp add: Record_stored_def)

theorem encode_records_layout:
  "\<forall>r \<in> set rs. Record_ok r \<Longrightarrow>
   encode_records rs raw = Ok (map Record_stored rs) (raw @ concat (map wRecord rs))"
proof (induction rs arbitrary: raw)
  case (Cons r rs)
  have "get_or (encode_object Record_encode r) r raw = Ok (Record_stored r) (raw @ wRecord r)"
    using encode_record [of r raw] Cons.prems by (simp add: get_or_def Record_ok_def Record_stored_def)
  then show ?case using Cons by (simp add: ret_apply)
qed (simp add: ret_apply)

lemma reads_Record_ok:
  "Record_ok r \<Longrightarrow> reads fl (Record_decode this) (wRecord r) (Record_stored r, True)"
  using reads_Record [of r fl this]
  by (simp add: Record_ok_def sized_def Record_stored_def MaxRequestSize_def wRecord_def)

theorem decode_records_layout:
  assumes "\<forall>r \<in> set rs. Record_ok r" "length olds = length rs" "length (concat (map wRecord rs)) < 2 ^ 31" "rs \<noteq> []"
  shows "decode_records (concat (map wRecord rs)) olds = Ok ErrNoError (map Record_stored rs)"
proof -
  let ?bs = "concat (map wRecord rs)"
  have "?bs \<noteq> []" using assms(4) by (cases rs) simp_all
  have "reads False (decode_into Record_decode olds) ?bs (map Record_stored rs, True)"
    using assms(1,2) by (intro reads_decode_into reads_Record_ok) auto
  from reads_new_decoder [OF this, of "[]"] assms(3) \<open>?bs \<noteq> []\<close> show ?thesis
    by (simp add: decode_records_def new_decoder_def advance_def del: concat_eq_Nil_conv)
qed

text \<open>A record that the protocol allows and \<^verbatim>\<open>pop\<close> does not.\<close>

theorem decode_records_refused:
  assumes "\<forall>r \<in> set rs. Record_ok r" "length olds = length rs" and bad: "Record_fits r"
    "64 \<le> length (wRecordBody r)" "length (wRecordBody r) < 128"
    and small: "length (concat (map wRecord rs) @ wRecord r @ rest) < 2 ^ 31"
  shows "decode_records (concat (map wRecord rs) @ wRecord r @ rest) (olds @ old # olds2) =
    Ok ErrDecodeError (map Record_stored rs @ Record_stored r # olds2)"
proof -
  let ?bs = "concat (map wRecord rs) @ wRecord r" and ?e = "map Record_stored rs @ Record_stored r # olds2"
  have bad: "reads False (Record_decode old) (wRecord r) (Record_stored r, False)"
    using reads_Record [OF bad(1), of False old] digits7_64_127 [OF bad(2,3)] bad(3) by (simp add: Record_stored_def)
  have "reads False (decode_into Record_decode (olds @ old # olds2)) ?bs (?e, False)"
    using assms(2,1)
  proof (induction olds rs rule: list_induct2)
    case Nil
    show ?case by (simp, rule reads_bind_same [OF bad]) (simp add: reads_ret)
  next
    case (Cons o' olds x xs)
    have IH: "reads False (decode_into Record_decode (olds @ old # olds2)) (concat (map wRecord xs) @ wRecord r)
        (map Record_stored xs @ Record_stored r # olds2, False)" using Cons by simp
    have "reads False (bind_p (decode_into Record_decode (olds @ old # olds2)) (\<lambda>(ys, ok'). ret (Record_stored x # ys, ok')))
        (concat (map wRecord xs) @ wRecord r) (Record_stored x # map Record_stored xs @ Record_stored r # olds2, False)"
      by (rule reads_bind_same [OF IH]) (simp add: reads_ret)
    then show ?case using reads_Record_ok [of x False o'] Cons.prems by (auto intro: reads_bind)
  qed
  from reads_new_decoder [OF this, of rest] small show ?thesis
    by (simp add: decode_records_def new_decoder_def advance_def)
qed

section \<open>Two records\<close>

text \<open>A short record, and one with a body of 67 bytes.\<close>

definition short_record :: Record where
  "short_record = Record_new [107] [118] 0 0"

definition long_record :: Record where
  "long_record = Record_new [107] (replicate 60 65) 0 0"

lemma zero_varint: "varintLen 0 = length (encodeVariant 0)"
  by code_simp

lemma short_record_bytes:
  "wRecordBody short_record = [0, 0, 0, 2, 107, 2, 118, 0]" "wRecord short_record = [16, 0, 0, 0, 2, 107, 2, 118, 0]"
  by code_simp+

lemma long_record_bytes:
  "wRecordBody long_record = [0, 0, 0, 2, 107, 120] @ replicate 60 65 @ [0]"
  "wRecord long_record = [134, 1, 0, 0, 0, 2, 107, 120] @ replicate 60 65 @ [0]"
  by code_simp+

lemma short_record_ok: "Record_ok short_record"
  using short_record_bytes
  by (simp add: Record_ok_def Record_fits_def varint_ok_def small_sized zero_varint MaxRequestSize_def
      short_record_def Record_new_def Record_default_def)

lemma long_record_fits: "Record_fits long_record"
  by (simp add: Record_fits_def varint_ok_def small_sized zero_varint long_record_def Record_new_def Record_default_def)

end
