(* ===== verification/Record_Batch.thy ===== *)
theory Record_Batch
  imports Kafka_Record
begin

text \<open>
  Record batches (\<^verbatim>\<open>record_batch.h\<close>, \<^verbatim>\<open>record_batch.cpp\<close>), timestamps (\<^verbatim>\<open>timestamp.cpp\<close>), the choice of a
  compression codec (\<^verbatim>\<open>message.cpp\<close>) and control records (\<^verbatim>\<open>control_record.cpp\<close>).

  The compression libraries are parameters: \<open>deflate c\<close> and \<open>inflate c\<close> give the return code and the output
  of the wrapper for the codec \<open>c\<close>.  A \<open>time_point\<close> is its count of nanoseconds since 1970.  A \<open>get\<close> whose
  return code is dropped leaves \<open>-1\<close> in its integer when it fails.
\<close>

section \<open>Compression codecs\<close>

definition Codec_None :: int8 where "Codec_None = 0"
definition Codec_GZIP :: int8 where "Codec_GZIP = 1"
definition Codec_Snappy :: int8 where "Codec_Snappy = 2"
definition Codec_LZ4 :: int8 where "Codec_LZ4 = 3"
definition Codec_ZSTD :: int8 where "Codec_ZSTD = 4"

lemmas codec_defs = Codec_None_def Codec_GZIP_def Codec_Snappy_def Codec_LZ4_def Codec_ZSTD_def

definition ToString :: "int8 \<Rightarrow> string" where
  "ToString codec =
     (if codec = Codec_None then ''none'' else if codec = Codec_GZIP then ''gzip''
      else if codec = Codec_Snappy then ''snappy'' else if codec = Codec_LZ4 then ''lz4''
      else if codec = Codec_ZSTD then ''zstd'' else ''unknown'')"

definition FromString :: "string \<Rightarrow> int8 \<Rightarrow> bool \<times> int8" where
  "FromString s out =
     (case map_of [(''none'', Codec_None), (''gzip'', Codec_GZIP), (''snappy'', Codec_Snappy),
                   (''lz4'', Codec_LZ4), (''zstd'', Codec_ZSTD)] s of
        Some c \<Rightarrow> (True, c)
      | None \<Rightarrow> (False, out))"

type_synonym codec_lib = "int8 \<Rightarrow> bytes \<Rightarrow> int \<times> bytes"

definition compress :: "codec_lib \<Rightarrow> int8 \<Rightarrow> int32 \<Rightarrow> bytes \<Rightarrow> int \<times> bytes" where
  "compress deflate codec level data =
     (if codec \<in> {Codec_GZIP, Codec_Snappy, Codec_LZ4, Codec_ZSTD} then deflate codec data else (ErrNoError, data))"

definition decompress :: "codec_lib \<Rightarrow> int8 \<Rightarrow> bytes \<Rightarrow> int \<times> bytes" where
  "decompress inflate codec data =
     (if codec \<in> {Codec_GZIP, Codec_Snappy, Codec_LZ4, Codec_ZSTD} then inflate codec data else (ErrNoError, data))"

section \<open>Timestamps\<close>

definition Timestamp_encode :: "int64 \<Rightarrow> unit enc" where
  "Timestamp_encode t =
     (if sint t \<ge> 0 then putInt64 (word_of_int (sint t div 1000000))
      else if t \<noteq> 0 then raise ErrEncodeError
      else putInt64 (- 1))"

definition Timestamp_decode :: "int64 dec" where
  "Timestamp_decode = bind_p getInt64 (\<lambda>millis.
     if sint millis \<ge> 0
     then (let ns = (sint millis div 1000) * 1000000000 + (sint millis mod 1000) * 1000000
           in if ns < 2 ^ 63 then ret (word_of_int ns) else (\<lambda>_. Abort))
     else ret 0)"

section \<open>Record batches\<close>

definition ErrUnsupportedRecordBatchVersion :: int where "ErrUnsupportedRecordBatchVersion = 1031"

record RecordBatch =
  rb_version :: int8
  rb_codec :: int8
  rb_first_offset :: int64
  rb_partition_leader_epoch :: int32
  rb_compression_level :: int32
  rb_last_offset_delta :: int32
  rb_first_timestamp :: int64
  rb_max_timestamp :: int64
  rb_producer_id :: int64
  rb_producer_epoch :: int16
  rb_first_sequence :: int32
  rb_control :: bool
  rb_log_append_time :: bool
  rb_partial_trailing_record :: bool
  rb_is_transactional :: bool
  rb_compressed_records :: bytes
  rb_records_len :: nat
  rb_records :: "Record list"

definition RecordBatch_default :: RecordBatch where
  "RecordBatch_default =
     \<lparr>rb_version = 2, rb_codec = Codec_None, rb_first_offset = 0, rb_partition_leader_epoch = 0,
      rb_compression_level = 0, rb_last_offset_delta = 0, rb_first_timestamp = 0, rb_max_timestamp = 0,
      rb_producer_id = - 1, rb_producer_epoch = - 1, rb_first_sequence = - 1, rb_control = False,
      rb_log_append_time = False, rb_partial_trailing_record = False, rb_is_transactional = False,
      rb_compressed_records = [], rb_records_len = 0, rb_records = []\<rparr>"

definition RecordBatch_new :: "int8 \<Rightarrow> int64 \<Rightarrow> int64 \<Rightarrow> RecordBatch" where
  "RecordBatch_new v first max_time = RecordBatch_default
     \<lparr>rb_version := v, rb_first_timestamp := first, rb_max_timestamp := max_time\<rparr>"

definition last_offset :: "RecordBatch \<Rightarrow> int64" where
  "last_offset b = rb_first_offset b + scast (rb_last_offset_delta b)"

definition emplace :: "Record \<Rightarrow> RecordBatch \<Rightarrow> RecordBatch" where
  "emplace r b = b\<lparr>rb_records := rb_records b @ [r]\<rparr>"

definition compute_attributes :: "RecordBatch \<Rightarrow> int16" where
  "compute_attributes b =
     (scast (rb_codec b) AND 0x07) OR (if rb_control b then 0x20 else 0) OR
     (if rb_log_append_time b then 0x08 else 0) OR (if rb_is_transactional b then 0x10 else 0)"

text \<open>The bytes of the records, and the records with the lengths that encoding leaves in them.\<close>

definition RecordBatch_payload :: "codec_lib \<Rightarrow> RecordBatch \<Rightarrow> (Record list, bytes) outcome" where
  "RecordBatch_payload deflate b =
     (if rb_compressed_records b \<noteq> [] then Ok (rb_compressed_records b) (rb_records b)
      else case encode_records (rb_records b) [] of
             Ok rs raw \<Rightarrow> Ok (snd (compress deflate (rb_codec b) (rb_compression_level b) raw)) rs
           | _ \<Rightarrow> Abort)"

definition RecordBatch_put_rest :: "codec_lib \<Rightarrow> RecordBatch \<Rightarrow> unit enc" where
  "RecordBatch_put_rest deflate b =
     then_p (putInt16 (compute_attributes b))
    (then_p (putInt32 (rb_last_offset_delta b))
    (then_p (ignore_err (Timestamp_encode (rb_first_timestamp b)))
    (then_p (ignore_err (Timestamp_encode (rb_max_timestamp b)))
    (then_p (putInt64 (rb_producer_id b))
    (then_p (putInt16 (rb_producer_epoch b))
    (then_p (putInt32 (rb_first_sequence b))
    (then_p (ignore_err (putArrayLength (size32 (length (rb_records b)))))
       (case RecordBatch_payload deflate b of
          Ok payload _ \<Rightarrow> ignore_err (putRawBytes payload)
        | _ \<Rightarrow> (\<lambda>_. Abort)))))))))"

definition RecordBatch_encode :: "codec_lib \<Rightarrow> RecordBatch \<Rightarrow> unit enc" where
  "RecordBatch_encode deflate b =
     (if rb_version b \<noteq> 2 then raise ErrUnsupportedRecordBatchVersion
      else then_p (putInt64 (rb_first_offset b))
          (then_p (push_pe (LengthField 0 0))
          (then_p (putInt32 (rb_partition_leader_epoch b))
          (then_p (putInt8 (rb_version b))
          (then_p (push_pe (Crc32Field 0 CrcCastagnoli))
          (then_p (RecordBatch_put_rest deflate b)
          (then_p (ignore_err pop_done) (ignore_err pop_done))))))))"

text \<open>\<^verbatim>\<open>encode_records\<close>: the records are encoded once and for all.\<close>

definition RecordBatch_encode_records :: "codec_lib \<Rightarrow> RecordBatch \<Rightarrow> (unit, RecordBatch) outcome" where
  "RecordBatch_encode_records deflate b =
     (case encode_records (rb_records b) [] of
        Ok rs raw \<Rightarrow>
          Ok (b\<lparr>rb_records := rs, rb_records_len := length raw,
                rb_compressed_records := snd (compress deflate (rb_codec b) (rb_compression_level b) raw)\<rparr>) ()
      | _ \<Rightarrow> Abort)"

text \<open>The batch after a pass of \<^verbatim>\<open>encode\<close>.\<close>

definition RecordBatch_encoded :: "codec_lib \<Rightarrow> RecordBatch \<Rightarrow> RecordBatch" where
  "RecordBatch_encoded deflate b =
     (case RecordBatch_payload deflate b of Ok _ rs \<Rightarrow> b\<lparr>rb_records := rs\<rparr> | _ \<Rightarrow> b)"

text \<open>
  The loop of \<^verbatim>\<open>decode\<close>: every round decodes all records from the start of the buffer.  The return code is
  dropped; a \<^verbatim>\<open>PacketError\<close> is no \<^verbatim>\<open>std::runtime_error\<close> and leaves the function.
\<close>

primrec decode_rounds :: "nat \<Rightarrow> bytes \<Rightarrow> Record list \<Rightarrow> (Record list, unit) outcome" where
  "decode_rounds 0 buf rs = Ok () rs"
| "decode_rounds (Suc n) buf rs =
     (case decode_records buf rs of Ok _ rs' \<Rightarrow> decode_rounds n buf rs' | _ \<Rightarrow> Abort)"

definition array_length_or :: "int32 dec" where
  "array_length_or pd = get_or getArrayLength (if is_flexible pd then 0 else - 1) pd"

definition RecordBatch_get_rest :: "int32 \<Rightarrow> RecordBatch \<Rightarrow> (RecordBatch \<times> int32 \<times> bytes) dec" where
  "RecordBatch_get_rest batch_len b =
     bind_p (get_or getInt16 (- 1)) (\<lambda>attributes.
     bind_p (get_or getInt32 (- 1)) (\<lambda>last_offset_delta.
     bind_p (get_or Timestamp_decode 0) (\<lambda>_.
     bind_p (get_or Timestamp_decode 0) (\<lambda>_.
     bind_p (get_or getInt64 (- 1)) (\<lambda>producer_id.
     bind_p (get_or getInt16 (- 1)) (\<lambda>producer_epoch.
     bind_p (get_or getInt32 (- 1)) (\<lambda>first_sequence.
     bind_p array_length_or (\<lambda>num_record.
       if sint batch_len < 49 - 2 ^ 31 then (\<lambda>_. Abort)
       else bind_p (getRawBytes (batch_len - 49)) (\<lambda>rec_buffer.
         ret (b\<lparr>rb_codec := ucast (attributes AND 0x07), rb_control := attributes AND 0x20 \<noteq> 0,
                rb_log_append_time := attributes AND 0x08 \<noteq> 0, rb_is_transactional := attributes AND 0x10 \<noteq> 0,
                rb_last_offset_delta := last_offset_delta, rb_producer_id := producer_id,
                rb_producer_epoch := producer_epoch, rb_first_sequence := first_sequence\<rparr>,
              num_record, rec_buffer))))))))))"

definition RecordBatch_get_records :: "codec_lib \<Rightarrow> int32 \<Rightarrow> bytes \<Rightarrow> RecordBatch \<Rightarrow> RecordBatch dec" where
  "RecordBatch_get_records inflate num_record rec_buffer b =
     (let decompressed = snd (decompress inflate (rb_codec b) rec_buffer);
          rs = (if sint num_record \<ge> 0 then resize_to (nat (sint num_record)) Record_default (rb_records b)
                else rb_records b)
      in case decode_rounds (nat (sint num_record)) decompressed rs of
           Ok _ rs' \<Rightarrow> ret (b\<lparr>rb_records_len := length decompressed, rb_records := rs'\<rparr>)
         | _ \<Rightarrow> (\<lambda>_. Abort))"

definition RecordBatch_decode :: "codec_lib \<Rightarrow> RecordBatch \<Rightarrow> RecordBatch dec" where
  "RecordBatch_decode inflate this =
     bind_p getInt64 (\<lambda>first_offset.
     bind_p getInt32 (\<lambda>batch_len.
     bind_p getInt32 (\<lambda>partition_leader_epoch.
     bind_p getInt8 (\<lambda>version.
       if version \<noteq> 2 then (\<lambda>_. Abort)
       else
         then_p (ignore_err (push_pd (Crc32Field 0 CrcCastagnoli)))
        (bind_p (RecordBatch_get_rest batch_len (this\<lparr>rb_first_offset := first_offset,
             rb_partition_leader_epoch := partition_leader_epoch, rb_version := version\<rparr>))
           (\<lambda>(b, num_record, rec_buffer).
             then_p (ignore_err pop_pd) (RecordBatch_get_records inflate num_record rec_buffer b)))))))"

section \<open>Layout of a batch\<close>

definition timestamp_millis :: "int64 \<Rightarrow> int64" where
  "timestamp_millis t = word_of_int (sint t div 1000000)"

text \<open>What the checksum covers.\<close>

definition wBatchTail :: "bool \<Rightarrow> RecordBatch \<Rightarrow> bytes \<Rightarrow> bytes" where
  "wBatchTail fl b payload =
     be16 (compute_attributes b) @ be32 (rb_last_offset_delta b) @ be64 (timestamp_millis (rb_first_timestamp b)) @
     be64 (timestamp_millis (rb_max_timestamp b)) @ be64 (rb_producer_id b) @ be16 (rb_producer_epoch b) @
     be32 (rb_first_sequence b) @ wLen fl (length (rb_records b)) @ payload"

definition wBatchFrame :: "RecordBatch \<Rightarrow> int32 \<Rightarrow> bytes \<Rightarrow> bytes" where
  "wBatchFrame b crc rest =
     be64 (rb_first_offset b) @ be32 (size32 (9 + length rest)) @ be32 (rb_partition_leader_epoch b) @ be8 2 @
     be32 crc @ rest"

definition batch_payload :: "codec_lib \<Rightarrow> RecordBatch \<Rightarrow> bytes" where
  "batch_payload deflate b =
     (if rb_compressed_records b \<noteq> [] then rb_compressed_records b
      else snd (compress deflate (rb_codec b) (rb_compression_level b) (concat (map wRecord (rb_records b)))))"

definition wRecordBatch :: "bool \<Rightarrow> codec_lib \<Rightarrow> RecordBatch \<Rightarrow> bytes" where
  "wRecordBatch fl deflate b =
     (let rest = wBatchTail fl b (batch_payload deflate b) in wBatchFrame b (Crc32Field_crc CrcCastagnoli rest) rest)"

definition RecordBatch_fits :: "codec_lib \<Rightarrow> RecordBatch \<Rightarrow> bool" where
  "RecordBatch_fits deflate b \<longleftrightarrow> rb_version b = 2 \<and> 0 \<le> sint (rb_first_timestamp b) \<and>
     0 \<le> sint (rb_max_timestamp b) \<and> (\<forall>r \<in> set (rb_records b). Record_ok r) \<and>
     length (rb_records b) < 2 ^ 31 - 1 \<and> length (batch_payload deflate b) < 2 ^ 31"

lemma emits_Timestamp: "0 \<le> sint t \<Longrightarrow> emits fl (Timestamp_encode t) (be64 (timestamp_millis t))"
  by (simp add: Timestamp_encode_def timestamp_millis_def emits_putInt64)

lemma RecordBatch_payload_ok:
  "\<forall>r \<in> set (rb_records b). Record_ok r \<Longrightarrow> RecordBatch_payload deflate b = Ok (batch_payload deflate b)
     (if rb_compressed_records b \<noteq> [] then rb_records b else map Record_stored (rb_records b))"
  by (simp add: RecordBatch_payload_def batch_payload_def encode_records_layout)

lemma emits_RecordBatch_rest:
  assumes "RecordBatch_fits deflate b"
  shows "emits fl (RecordBatch_put_rest deflate b) (wBatchTail fl b (batch_payload deflate b))"
  using assms unfolding RecordBatch_put_rest_def wBatchTail_def RecordBatch_fits_def
  by (intro emits_then emits_putInt16 emits_putInt32 emits_putInt64 emits_ignore_err emits_Timestamp
      emits_putArrayLength) (simp_all add: RecordBatch_payload_ok emits_ignore_err emits_putRawBytes)

theorem emits_RecordBatch:
  assumes "RecordBatch_fits deflate b"
  shows "emits fl (RecordBatch_encode deflate b) (wRecordBatch fl deflate b)"
proof -
  let ?rest = "wBatchTail fl b (batch_payload deflate b)"
  let ?crc = "be32 (Crc32Field_crc CrcCastagnoli ?rest) @ ?rest"
  have crc: "emits fl (then_p (push_pe (Crc32Field 0 CrcCastagnoli))
      (then_p (RecordBatch_put_rest deflate b) (ignore_err pop_done))) ?crc"
    by (rule crcf.emits_framed_ignoring [OF emits_RecordBatch_rest [OF assms]])
  have "emits fl (then_p (putInt32 (rb_partition_leader_epoch b)) (then_p (putInt8 (rb_version b))
      (then_p (push_pe (Crc32Field 0 CrcCastagnoli)) (then_p (RecordBatch_put_rest deflate b) (ignore_err pop_done)))))
      (be32 (rb_partition_leader_epoch b) @ be8 (rb_version b) @ ?crc)"
    by (intro emits_then crc emits_putInt32 emits_putInt8)
  from lenf.emits_framed_ignoring [OF this, of 0 0] emits_putInt64 [of fl "rb_first_offset b"]
  have "emits fl (then_p (putInt64 (rb_first_offset b)) (then_p (push_pe (LengthField 0 0))
      (then_p (then_p (putInt32 (rb_partition_leader_epoch b)) (then_p (putInt8 (rb_version b))
      (then_p (push_pe (Crc32Field 0 CrcCastagnoli)) (then_p (RecordBatch_put_rest deflate b) (ignore_err pop_done)))))
      (ignore_err pop_done)))) (wRecordBatch fl deflate b)"
    using assms by (auto simp: wRecordBatch_def wBatchFrame_def Let_def RecordBatch_fits_def intro: emits_then)
  then show ?thesis using assms by (simp add: RecordBatch_encode_def RecordBatch_fits_def then_p_assoc)
qed

text \<open>
  The second pass, and any later call, starts from the records as the first one left them and writes the same
  bytes.
\<close>

theorem RecordBatch_encoded_same:
  assumes "RecordBatch_fits deflate b"
  shows "wRecordBatch fl deflate (RecordBatch_encoded deflate b) = wRecordBatch fl deflate b"
    "RecordBatch_fits deflate (RecordBatch_encoded deflate b)"
    "RecordBatch_encoded deflate (RecordBatch_encoded deflate b) = RecordBatch_encoded deflate b"
proof -
  have p: "batch_payload deflate (RecordBatch_encoded deflate b) = batch_payload deflate b"
    using assms by (simp add: RecordBatch_encoded_def RecordBatch_payload_ok RecordBatch_fits_def batch_payload_def
        o_def)
  then show "wRecordBatch fl deflate (RecordBatch_encoded deflate b) = wRecordBatch fl deflate b"
    "RecordBatch_fits deflate (RecordBatch_encoded deflate b)"
    using assms Record_ok_stored
    by (auto simp: RecordBatch_encoded_def RecordBatch_payload_ok RecordBatch_fits_def wRecordBatch_def
        wBatchTail_def wBatchFrame_def compute_attributes_def Let_def)
  show "RecordBatch_encoded deflate (RecordBatch_encoded deflate b) = RecordBatch_encoded deflate b"
    using assms Record_ok_stored
    by (auto simp: RecordBatch_encoded_def RecordBatch_payload_ok RecordBatch_fits_def o_def)
qed

section \<open>Reading a batch\<close>

text \<open>
  The batch that \<^verbatim>\<open>decode\<close> leaves in \<open>this\<close>: the two timestamps are read into local copies and dropped.
\<close>

definition RecordBatch_seen :: "RecordBatch \<Rightarrow> RecordBatch \<Rightarrow> RecordBatch" where
  "RecordBatch_seen this b =
     this\<lparr>rb_first_offset := rb_first_offset b, rb_partition_leader_epoch := rb_partition_leader_epoch b,
       rb_version := 2, rb_codec := rb_codec b, rb_control := rb_control b,
       rb_log_append_time := rb_log_append_time b, rb_is_transactional := rb_is_transactional b,
       rb_last_offset_delta := rb_last_offset_delta b, rb_producer_id := rb_producer_id b,
       rb_producer_epoch := rb_producer_epoch b, rb_first_sequence := rb_first_sequence b,
       rb_records_len := length (concat (map wRecord (rb_records b))),
       rb_records := map Record_stored (rb_records b)\<rparr>"

text \<open>A batch whose compressed bytes, if it has any, are those of its records, with a codec that can be undone.\<close>

definition RecordBatch_ok :: "bool \<Rightarrow> codec_lib \<Rightarrow> codec_lib \<Rightarrow> RecordBatch \<Rightarrow> bool" where
  "RecordBatch_ok fl deflate inflate b \<longleftrightarrow> RecordBatch_fits deflate b \<and> len_ok fl (length (rb_records b)) \<and>
     rb_codec b AND 0x07 = rb_codec b \<and> length (batch_payload deflate b) < 2 ^ 30 \<and>
     length (concat (map wRecord (rb_records b))) < 2 ^ 31 \<and>
     snd (decompress inflate (rb_codec b) (batch_payload deflate b)) = concat (map wRecord (rb_records b))"

lemma codec_bits: "ucast ((scast (c :: int8) :: int16) AND 0x07) = c AND 0x07"
proof (rule bit_word_eqI)
  fix n assume "n < LENGTH(8)"
  moreover have "(0x07 :: int16) = mask 3" "(0x07 :: int8) = mask 3" by (simp_all add: mask_eq_exp_minus_1)
  ultimately show "bit (ucast ((scast c :: int16) AND 0x07) :: int8) n = bit (c AND 0x07) n"
    by (cases "n = 7") (auto simp: bit_simps min_def)
qed

lemma attributes_flags:
  "ucast (compute_attributes b AND 0x07) = rb_codec b AND 0x07"
  "compute_attributes b AND 0x20 \<noteq> 0 \<longleftrightarrow> rb_control b"
  "compute_attributes b AND 0x08 \<noteq> 0 \<longleftrightarrow> rb_log_append_time b"
  "compute_attributes b AND 0x10 \<noteq> 0 \<longleftrightarrow> rb_is_transactional b"
  using codec_bits [of "rb_codec b"]
  by (simp_all add: compute_attributes_def and.assoc bit.conj_disj_distrib2)

lemma reads_Timestamp:
  assumes "0 \<le> sint t"
  shows "reads fl (get_or Timestamp_decode 0) (be64 (timestamp_millis t)) (word_of_int (sint t div 1000000 * 1000000))"
proof -
  have "sint t < 2 ^ 63" using sint_less [of t] by simp
  then have m: "sint (timestamp_millis t) = sint t div 1000000" using assms
    using signed_take_bit_int_eq_self [of 63 "sint t div 1000000"] by (simp add: timestamp_millis_def signed_of_int)
  have "x div 1000 * 1000000000 + x mod 1000 * 1000000 = x * 1000000" for x :: int
    using div_mult_mod_eq [of x 1000] by linarith
  then have ns: "sint t div 1000000 div 1000 * 1000000000 + sint t div 1000000 mod 1000 * 1000000 =
      sint t div 1000000 * 1000000" by blast
  have "sint t div 1000000 * 1000000 \<le> sint t" using assms by (simp add: minus_mod_eq_div_mult [symmetric])
  with \<open>sint t < 2 ^ 63\<close> have "sint t div 1000000 * 1000000 < 2 ^ 63" by simp
  then have "reads fl (let ns = (sint (timestamp_millis t) div 1000) * 1000000000 +
        (sint (timestamp_millis t) mod 1000) * 1000000 in
      if ns < 2 ^ 63 then ret (word_of_int ns) else (\<lambda>_. Abort)) [] (word_of_int (sint t div 1000000 * 1000000))"
    by (simp add: m ns reads_ret)
  moreover have "0 \<le> sint t div 1000000" using assms by (simp add: pos_imp_zdiv_nonneg_iff)
  ultimately show ?thesis unfolding Timestamp_decode_def using m
    by (intro reads_get_or reads_bind_same [OF reads_getInt64]) simp
qed

lemma decode_rounds_layout:
  assumes "\<forall>r \<in> set rs. Record_ok r" "length olds = length rs" "length (concat (map wRecord rs)) < 2 ^ 31"
  shows "decode_rounds (length rs) (concat (map wRecord rs)) olds = Ok () (map Record_stored rs)"
proof (cases "rs = []")
  case False
  have step: "decode_records (concat (map wRecord rs)) olds = Ok ErrNoError (map Record_stored rs)"
    if "length olds = length rs" for olds using decode_records_layout assms(1,3) that False by blast
  have "decode_rounds (Suc n) (concat (map wRecord rs)) olds = Ok () (map Record_stored rs)"
    if "length olds = length rs" for n olds
    using that by (induction n arbitrary: olds) (simp_all add: step)
  with assms(2) False show ?thesis by (cases rs) auto
qed (use assms in simp)

lemma reads_array_length_or:
  "len_ok fl n \<Longrightarrow> reads fl array_length_or (wLen fl n) (size32 n)"
  using reads_get_or [OF reads_getArrayLength [of fl n]]
  by (simp add: reads_def array_length_or_def)

lemma reads_RecordBatch_rest:
  assumes "len_ok False (length (rb_records b))" "length payload < 2 ^ 30"
    "0 \<le> sint (rb_first_timestamp b)" "0 \<le> sint (rb_max_timestamp b)"
  shows "reads False (RecordBatch_get_rest (size32 (49 + length payload)) this) (wBatchTail False b payload)
    (this\<lparr>rb_codec := rb_codec b AND 7, rb_control := rb_control b, rb_log_append_time := rb_log_append_time b,
       rb_is_transactional := rb_is_transactional b, rb_last_offset_delta := rb_last_offset_delta b,
       rb_producer_id := rb_producer_id b, rb_producer_epoch := rb_producer_epoch b,
       rb_first_sequence := rb_first_sequence b\<rparr>, size32 (length (rb_records b)), payload)"
proof -
  have s: "sint (size32 (49 + length payload)) = int (49 + length payload)"
    using assms(2) by (intro sint_size32) simp
  then have big: "\<not> sint (size32 (49 + length payload)) < 49 - 2 ^ 31" by simp
  have "reads False (getRawBytes (size32 (49 + length payload) - 49)) payload payload"
    using reads_getRawBytes [of payload False] assms(2) by simp
  note last = reads_last [OF this]
  show ?thesis unfolding RecordBatch_get_rest_def wBatchTail_def if_not_P [OF big]
    using assms
    apply -
    apply (rule reads_conv)
    apply (rule reads_bind, rule reads_get_or, rule reads_getInt16)
    apply (rule reads_bind, rule reads_get_or, rule reads_getInt32)
    apply (rule reads_bind, rule reads_Timestamp, simp)
    apply (rule reads_bind, rule reads_Timestamp, simp)
    apply (rule reads_bind, rule reads_get_or, rule reads_getInt64)
    apply (rule reads_bind, rule reads_get_or, rule reads_getInt16)
    apply (rule reads_bind, rule reads_get_or, rule reads_getInt32)
    apply (rule reads_bind, rule reads_array_length_or, simp)
    apply (rule last)
    apply (simp add: attributes_flags)
    done
qed

text \<open>
  A batch is read whatever checksum stands in front of it, and whatever the rounds over its records end with.
\<close>

definition RecordBatch_header_seen :: "RecordBatch \<Rightarrow> RecordBatch \<Rightarrow> RecordBatch" where
  "RecordBatch_header_seen this b =
     this\<lparr>rb_first_offset := rb_first_offset b, rb_partition_leader_epoch := rb_partition_leader_epoch b,
       rb_version := 2, rb_codec := rb_codec b AND 7, rb_control := rb_control b,
       rb_log_append_time := rb_log_append_time b, rb_is_transactional := rb_is_transactional b,
       rb_last_offset_delta := rb_last_offset_delta b, rb_producer_id := rb_producer_id b,
       rb_producer_epoch := rb_producer_epoch b, rb_first_sequence := rb_first_sequence b\<rparr>"

lemma reads_RecordBatch_frame:
  assumes b: "len_ok False (length (rb_records b))" "0 \<le> sint (rb_first_timestamp b)" "0 \<le> sint (rb_max_timestamp b)"
    and payload: "length payload < 2 ^ 30" "snd (decompress inflate (rb_codec b AND 7) payload) = raw"
    and rounds: "decode_rounds (length (rb_records b)) raw
      (resize_to (length (rb_records b)) Record_default (rb_records this)) = Ok () rs"
  shows "reads False (RecordBatch_decode inflate this) (wBatchFrame b crc (wBatchTail False b payload))
    ((RecordBatch_header_seen this b)\<lparr>rb_records_len := length raw, rb_records := rs\<rparr>)"
proof -
  let ?rs = "rb_records b"
  let ?t0 = "this\<lparr>rb_first_offset := rb_first_offset b, rb_partition_leader_epoch := rb_partition_leader_epoch b,
      rb_version := 2\<rparr>"
  let ?b = "RecordBatch_header_seen this b"
  let ?tail = "wBatchTail False b payload"
  have len: "9 + length ?tail = 49 + length payload" by (simp add: wBatchTail_def wLen_def)
  have n: "nat (sint (size32 (length ?rs))) = length ?rs" "0 \<le> sint (size32 (length ?rs))"
    using sint_len [OF b(1)] by simp_all
  have rest: "reads False (RecordBatch_get_rest (size32 (49 + length payload)) ?t0) ?tail
      (?b, size32 (length ?rs), payload)"
    using reads_RecordBatch_rest [OF b(1) payload(1) b(2,3), of ?t0] by (simp add: RecordBatch_header_seen_def)
  have records: "reads False (RecordBatch_get_records inflate (size32 (length ?rs)) payload ?b) []
      (?b\<lparr>rb_records_len := length raw, rb_records := rs\<rparr>)"
    using n payload(2) rounds
    by (simp add: RecordBatch_get_records_def RecordBatch_header_seen_def Let_def reads_ret)
  have "reads False (then_p (ignore_err (push_pd (Crc32Field 0 CrcCastagnoli)))
      (bind_p (RecordBatch_get_rest (size32 (49 + length payload)) ?t0)
        (\<lambda>(b, num_record, rec_buffer).
          then_p (ignore_err pop_pd) (RecordBatch_get_records inflate num_record rec_buffer b))))
      (be32 crc @ ?tail) (?b\<lparr>rb_records_len := length raw, rb_records := rs\<rparr>)"
    unfolding case_prod_beta
    by (rule reads_crc_dropped [OF rest]) (simp add: records)
  then show ?thesis unfolding RecordBatch_decode_def wBatchFrame_def len
    apply -
    apply (rule reads_bind, rule reads_getInt64)
    apply (rule reads_bind, rule reads_getInt32)
    apply (rule reads_bind, rule reads_getInt32)
    apply (rule reads_bind, rule reads_getInt8)
    apply simp
    done
qed

theorem reads_RecordBatch:
  assumes ok: "RecordBatch_ok False deflate inflate b" and fresh: "rb_records this = []"
  shows "reads False (RecordBatch_decode inflate this) (wBatchFrame b crc (wBatchTail False b (batch_payload deflate b)))
    (RecordBatch_seen this b)"
proof -
  let ?rs = "rb_records b"
  have "decode_rounds (length ?rs) (concat (map wRecord ?rs)) (resize_to (length ?rs) Record_default (rb_records this)) =
      Ok () (map Record_stored ?rs)"
    using ok fresh by (intro decode_rounds_layout) (simp_all add: RecordBatch_ok_def RecordBatch_fits_def)
  from reads_RecordBatch_frame [OF _ _ _ _ _ this, of "batch_payload deflate b" inflate crc] ok show ?thesis
    by (simp add: RecordBatch_ok_def RecordBatch_fits_def RecordBatch_seen_def RecordBatch_header_seen_def)
qed

text \<open>
  A record of 64 to 127 bytes in a batch as the protocol lays it out: \<^verbatim>\<open>decode\<close> reports success, and the
  records behind it are never read.
\<close>

theorem reads_RecordBatch_stops:
  assumes b: "rb_records b = rs @ r # rs'" "len_ok False (length (rb_records b))"
    "0 \<le> sint (rb_first_timestamp b)" "0 \<le> sint (rb_max_timestamp b)" "rb_codec b = Codec_None"
    and rs: "\<forall>x \<in> set rs. Record_ok x" and r: "Record_fits r" "64 \<le> length (wRecordBody r)" "length (wRecordBody r) < 128"
    and small: "length (concat (map wRecord (rb_records b))) < 2 ^ 30" and fresh: "rb_records this = []"
  shows "reads False (RecordBatch_decode inflate this)
    (wBatchFrame b crc (wBatchTail False b (concat (map wRecord (rb_records b)))))
    ((RecordBatch_header_seen this b)\<lparr>rb_records_len := length (concat (map wRecord (rb_records b))),
       rb_records := map Record_stored rs @ Record_stored r # replicate (length rs') Record_default\<rparr>)"
proof -
  let ?raw = "concat (map wRecord (rb_records b))" and ?tail = "replicate (length rs') Record_default"
  have step: "decode_records ?raw (olds @ old # ?tail) = Ok ErrDecodeError (map Record_stored rs @ Record_stored r # ?tail)"
    if "length olds = length rs" for olds old
    using decode_records_refused [OF rs that r, of "concat (map wRecord rs')" old ?tail] small b(1) by simp
  have "decode_rounds (Suc n) ?raw (olds @ old # ?tail) = Ok () (map Record_stored rs @ Record_stored r # ?tail)"
    if "length olds = length rs" for n olds old
    using that by (induction n arbitrary: olds old) (simp_all add: step)
  from this [of "replicate (length rs) Record_default" "length rs + length rs'" Record_default]
  have "decode_rounds (length (rb_records b)) ?raw (resize_to (length (rb_records b)) Record_default (rb_records this)) =
      Ok () (map Record_stored rs @ Record_stored r # ?tail)"
    using b(1) fresh by (simp add: replicate_add replicate_app_Cons_same del: decode_rounds.simps)
  from reads_RecordBatch_frame [OF b(2-4) _ _ this, of ?raw inflate crc] small b(5) show ?thesis
    by (simp add: decompress_def codec_defs)
qed

section \<open>A batch\<close>

lemma short_batch_ok:
  "RecordBatch_ok False deflate inflate (RecordBatch_default\<lparr>rb_records := [short_record]\<rparr>)"
  using short_record_bytes short_record_ok
  by (simp add: RecordBatch_ok_def RecordBatch_fits_def RecordBatch_default_def len_ok_def batch_payload_def
      compress_def decompress_def codec_defs be32_def byte_at_def MaxResponseSize_def)

end
