(* ===== verification/Message_Sets.thy ===== *)
theory Message_Sets
  imports Record_Batch
begin

text \<open>
  Message sets, the format of Kafka before record batches (\<^verbatim>\<open>message.h\<close>, \<^verbatim>\<open>message.cpp\<close>, \<^verbatim>\<open>message_set.h\<close>,
  \<^verbatim>\<open>message_set.cpp\<close>), control records (\<^verbatim>\<open>control_record.cpp\<close>) and \<^verbatim>\<open>Records\<close> (\<^verbatim>\<open>records.h\<close>,
  \<^verbatim>\<open>records.cpp\<close>), which holds one of the two.

  A compressed message carries a message set.  The three decoders call each other; \<open>fuel\<close> bounds the
  nesting and the rounds of the loop together.  \<open>message_set_aborts\<close> shows that the loop never gets
  past its first block, so that two units are enough.
\<close>

datatype Message = Message (msg_codec: int8) (msg_compression_level: int32) (msg_log_append_time: bool)
    (msg_key: bytes) (msg_value: bytes) (msg_message_set: "MessageSet option") (msg_version: int8)
    (msg_timestamp: int64) (msg_compressed_cache: bytes) (msg_compressed_size: int32)
and MessageSet = MessageSet (ms_partial_trailing_message: bool) (ms_overflow_message: bool)
    (ms_messages: "(int64 \<times> Message) list")

type_synonym MessageBlock = "int64 \<times> Message"

definition CompressionLevelDefault :: int32 where "CompressionLevelDefault = - 1000"

definition Message_default :: Message where
  "Message_default = Message Codec_None CompressionLevelDefault False [] [] None 0 0 [] 0"

definition Message_new :: "bytes \<Rightarrow> bytes \<Rightarrow> bool \<Rightarrow> int64 \<Rightarrow> int8 \<Rightarrow> Message" where
  "Message_new key val logAppendTime msgTimestamp version =
     Message Codec_None CompressionLevelDefault logAppendTime key val None version msgTimestamp [] 0"

definition MessageSet_default :: MessageSet where
  "MessageSet_default = MessageSet False False []"

definition MessageBlock_default :: MessageBlock where
  "MessageBlock_default = (0, Message_default)"

section \<open>Encoding\<close>

text \<open>\<open>finally(f)\<close>: \<open>f\<close> runs when the scope is left, with its result dropped.\<close>

definition finally_p :: "('s, 'a) prog \<Rightarrow> ('s, unit) prog \<Rightarrow> ('s, 'a) prog" where
  "finally_p m f = (\<lambda>s. case m s of
       Abort \<Rightarrow> Abort
     | Ok x s' \<Rightarrow> then_p (ignore_err f) (ret x) s'
     | Err e s' \<Rightarrow> then_p (ignore_err f) (raise e) s')"

text \<open>The bytes \<^verbatim>\<open>encode\<close> puts for the value: what an earlier pass left in the cache, or compressed now.\<close>

definition Message_payload :: "codec_lib \<Rightarrow> Message \<Rightarrow> bytes" where
  "Message_payload deflate m =
     (if msg_compressed_cache m \<noteq> [] then msg_compressed_cache m
      else if msg_value m \<noteq> [] \<or> msg_codec m \<noteq> Codec_None
      then snd (compress deflate (msg_codec m) (msg_compression_level m) (msg_value m))
      else [])"

definition Message_attributes :: "Message \<Rightarrow> int8" where
  "Message_attributes m = (msg_codec m AND 0x07) OR (if msg_log_append_time m then 0x08 else 0)"

definition Message_encode :: "codec_lib \<Rightarrow> Message \<Rightarrow> unit enc" where
  "Message_encode deflate m =
     then_p (push_pe (Crc32Field 0 CrcCastagnoli)) (finally_p
      (then_p (putInt8 (msg_version m))
      (then_p (putInt8 (Message_attributes m))
      (then_p (when_p (sint (msg_version m) \<ge> 1) (Timestamp_encode (msg_timestamp m)))
      (then_p (putBytes (msg_key m))
        (if msg_compressed_cache m = [] \<and> Message_payload deflate m = [] \<and> msg_value m \<noteq> [] then raise (- 1)
         else putBytes (Message_payload deflate m))))))
      pop_done)"

text \<open>The message after a pass that got to its value: the cache is filled, or used up.\<close>

fun Message_encoded :: "codec_lib \<Rightarrow> Message \<Rightarrow> Message" where
  "Message_encoded deflate (Message codec level la key val mset version ts cache sz) =
     (if cache \<noteq> [] then Message codec level la key val mset version ts [] sz
      else if val \<noteq> [] \<or> codec \<noteq> Codec_None
      then (let payload = snd (compress deflate codec level val) in
            if payload = [] \<and> val \<noteq> [] then Message codec level la key val mset version ts cache sz
            else Message codec level la key val mset version ts payload (size32 (length payload)))
      else Message codec level la key val mset version ts cache sz)"

definition MessageBlock_encode :: "codec_lib \<Rightarrow> MessageBlock \<Rightarrow> unit enc" where
  "MessageBlock_encode deflate b =
     then_p (putInt64 (fst b))
    (then_p (push_pe (LengthField 0 0))
       (\<lambda>pe. case Message_encode deflate (snd b) pe of
          Abort \<Rightarrow> Abort
        | Ok _ pe' \<Rightarrow> pop_done pe'
        | Err e pe' \<Rightarrow> then_p (ignore_err pop_done) (raise e) pe'))"

definition MessageSet_encode :: "codec_lib \<Rightarrow> MessageSet \<Rightarrow> unit enc" where
  "MessageSet_encode deflate ms = for_each (MessageBlock_encode deflate) (ms_messages ms)"

section \<open>Decoding\<close>

text \<open>\<open>m_message_set->m_messages.clear()\<close> through a null pointer is undefined.\<close>

fun Message_clear :: "Message \<Rightarrow> Message option" where
  "Message_clear (Message codec level la key val None version ts cache sz) = None"
| "Message_clear (Message codec level la key val (Some (MessageSet p ovf msgs)) version ts cache sz) =
     Some (Message codec level la [] [] (Some (MessageSet p ovf [])) version ts [] 0)"

text \<open>The fields that \<^verbatim>\<open>Message::decode\<close> reads between \<open>push\<close> and \<open>pop\<close>.\<close>

definition Message_get_fields :: "Message \<Rightarrow> Message dec" where
  "Message_get_fields this =
     bind_p getInt8 (\<lambda>version.
       if sint version > 1 then raise (- 2)
       else bind_p getInt8 (\<lambda>attribute.
            bind_p (field_if (version = 1) Timestamp_decode (msg_timestamp this)) (\<lambda>timestamp.
            bind_p getBytes (\<lambda>key.
            bind_p getBytes (\<lambda>val.
              ret (Message (attribute AND 0x07) (msg_compression_level this) (attribute AND 0x08 \<noteq> 0) key val
                (msg_message_set this) version timestamp (msg_compressed_cache this) (size32 (length val))))))))"

definition with_set :: "MessageSet option \<Rightarrow> bytes \<Rightarrow> Message \<Rightarrow> Message" where
  "with_set s val m = Message (msg_codec m) (msg_compression_level m) (msg_log_append_time m) (msg_key m) val
     s (msg_version m) (msg_timestamp m) (msg_compressed_cache m) (msg_compressed_size m)"

fun Message_decode :: "nat \<Rightarrow> codec_lib \<Rightarrow> Message \<Rightarrow> Message dec"
and decode_set :: "nat \<Rightarrow> codec_lib \<Rightarrow> bytes \<Rightarrow> (unit, MessageSet option) outcome"
and MessageBlock_decode :: "nat \<Rightarrow> codec_lib \<Rightarrow> MessageBlock \<Rightarrow> (packet_decoder, MessageBlock \<times> int) prog"
and MessageSet_rounds :: "nat \<Rightarrow> codec_lib \<Rightarrow> MessageSet \<Rightarrow> MessageSet dec" where
  "Message_decode 0 inflate this pd = Abort"
| "Message_decode (Suc n) inflate this pd =
     then_p (push_pd (Crc32Field 0 CrcCastagnoli)) (finally_p
       (bind_p (Message_get_fields this) (\<lambda>m.
          if msg_value m = [] \<or> msg_codec m = Codec_None then ret m
          else (let decompressed = snd (decompress inflate (msg_codec m) (msg_value m)) in
                if decompressed = msg_value m then ret m
                else case decode_set n inflate decompressed of
                       Ok s _ \<Rightarrow> ret (with_set s decompressed m)
                     | Err e _ \<Rightarrow> raise e
                     | Abort \<Rightarrow> (\<lambda>_. Abort))))
       pop_pd) pd"
| "decode_set 0 inflate val = Abort"
| "decode_set (Suc n) inflate val =
     (if val = [] then Ok None ()
      else case MessageSet_rounds n inflate MessageSet_default (new_decoder val) of
             Ok s _ \<Rightarrow> Ok (Some s) () | Err e _ \<Rightarrow> Err e () | Abort \<Rightarrow> Abort)"
| "MessageBlock_decode 0 inflate this pd = Abort"
| "MessageBlock_decode (Suc n) inflate this pd =
     (case getInt64 pd of
        Abort \<Rightarrow> Abort
      | Err e pd1 \<Rightarrow> Ok ((- 1, snd this), e) pd1
      | Ok off pd1 \<Rightarrow>
          (case push_pd (LengthField 0 0) pd1 of
             Abort \<Rightarrow> Abort
           | Err e pd2 \<Rightarrow> Ok ((off, snd this), e) pd2
           | Ok _ pd2 \<Rightarrow>
               (case Message_clear (snd this) of
                  None \<Rightarrow> Abort
                | Some m \<Rightarrow>
                    (case Message_decode n inflate m pd2 of
                       Abort \<Rightarrow> Abort
                     | Err e pd3 \<Rightarrow> Ok ((off, m), e) pd3
                     | Ok m' pd3 \<Rightarrow>
                         (case pop_pd pd3 of
                            Abort \<Rightarrow> Abort
                          | Err e pd4 \<Rightarrow> Ok ((off, m'), e) pd4
                          | Ok _ pd4 \<Rightarrow> Ok ((off, m'), ErrNoError) pd4)))))"
| "MessageSet_rounds 0 inflate s pd = Abort"
| "MessageSet_rounds (Suc n) inflate s pd =
     (if remaining pd \<le> 0 then Ok s pd
      else case magic_value pd of
        Abort \<Rightarrow> Abort
      | Err e pd1 \<Rightarrow>
          if e = ErrInsufficientData
          then Ok (MessageSet True (ms_overflow_message s) (ms_messages s)) pd1 else Err e pd1
      | Ok magic pd1 \<Rightarrow>
          if sint magic > 1 then Ok s pd1
          else (case MessageBlock_decode n inflate MessageBlock_default pd1 of
            Abort \<Rightarrow> Abort
          | Err e pd2 \<Rightarrow> Abort
          | Ok (msb, err) pd2 \<Rightarrow>
              if err = 0
              then MessageSet_rounds n inflate (MessageSet (ms_partial_trailing_message s)
                     (ms_overflow_message s) (ms_messages s @ [msb])) pd2
              else if err = ErrInsufficientData
              then (if fst msb = - 1
                    then Ok (MessageSet (ms_partial_trailing_message s) True (ms_messages s)) pd2
                    else Ok (MessageSet True (ms_overflow_message s) (ms_messages s)) pd2)
              else Err err pd2))"

definition MessageSet_decode :: "nat \<Rightarrow> codec_lib \<Rightarrow> MessageSet \<Rightarrow> MessageSet dec" where
  "MessageSet_decode n inflate this = MessageSet_rounds n inflate MessageSet_default"

definition MessageSet_last_offset :: "MessageSet \<Rightarrow> int64" where
  "MessageSet_last_offset s = (if ms_messages s = [] then - 1 else fst (last (ms_messages s)))"

definition MessageSet_clear :: "MessageSet \<Rightarrow> MessageSet" where
  "MessageSet_clear s = MessageSet False False []"

definition emplace_message :: "MessageSet \<Rightarrow> MessageSet" where
  "emplace_message s = MessageSet (ms_partial_trailing_message s) (ms_overflow_message s)
     (ms_messages s @ [MessageBlock_default])"

text \<open>\<^verbatim>\<open>MessageBlock::Messages\<close> moves the messages out of the inner set: the list, and the block left behind.\<close>

definition MessageBlock_Messages :: "MessageBlock \<Rightarrow> MessageBlock list \<times> MessageBlock" where
  "MessageBlock_Messages b =
     (case msg_message_set (snd b) of
        Some (MessageSet p ovf msgs) \<Rightarrow>
          (msgs, (fst b, with_set (Some (MessageSet p ovf [])) (msg_value (snd b)) (snd b)))
      | None \<Rightarrow> ([b], b))"

section \<open>What the message set coder does\<close>

text \<open>
  A block that starts in front of enough bytes is never decoded: the message of a fresh block has no inner
  set, and \<^verbatim>\<open>clear\<close> follows the null pointer.
\<close>

theorem message_set_aborts:
  assumes "remaining pd \<ge> 17" "sint (pd_raw pd ! (pd_offset pd + 16)) \<le> 1" "2 \<le> n"
  shows "MessageSet_decode n inflate this pd = Abort"
proof -
  obtain k where n: "n = Suc (Suc k)" using assms(3) by (metis add_2_eq_Suc le_Suc_ex)
  have "getInt64 pd = Ok (read_be64 pd) (advance 8 pd)" using assms(1) by (simp add: getInt64_def)
  moreover have "remaining (advance 8 pd) \<ge> 4" using assms(1) by (simp add: remaining_def advance_def)
  then obtain pd2 where "push_pd (LengthField 0 0) (advance 8 pd) = Ok () pd2" by (simp add: push_pd_def)
  ultimately have "MessageBlock_decode (Suc k) inflate MessageBlock_default pd = Abort"
    by (simp add: MessageBlock_default_def Message_default_def)
  moreover have "magic_value pd = Ok (pd_raw pd ! (pd_offset pd + 16)) pd"
    using assms(1) by (simp add: magic_value_def magic_offset_def peekInt8_def remaining_def)
  ultimately show ?thesis using assms(1,2) by (simp add: MessageSet_decode_def n)
qed

theorem message_set_decode_short:
  assumes "remaining pd < 17" "0 < n"
  shows "MessageSet_decode n inflate this pd =
    Ok (if remaining pd \<le> 0 then MessageSet_default else MessageSet True False []) pd"
proof -
  obtain k where n: "n = Suc k" using assms(2) by (cases n) auto
  have "magic_value pd = Err ErrInsufficientData pd" if "remaining pd > 0"
    using assms(1) that by (simp add: magic_value_def magic_offset_def peekInt8_def remaining_def)
  then show ?thesis by (simp add: MessageSet_decode_def n MessageSet_default_def)
qed

text \<open>The other direction: the layout of the old format.\<close>

definition wMessageBody :: "bool \<Rightarrow> codec_lib \<Rightarrow> Message \<Rightarrow> bytes" where
  "wMessageBody fl deflate m =
     be8 (msg_version m) @ be8 (Message_attributes m) @
     (if sint (msg_version m) \<ge> 1 then be64 (timestamp_millis (msg_timestamp m)) else []) @
     wBytes fl (msg_key m) @ wBytes fl (Message_payload deflate m)"

definition wMessage :: "bool \<Rightarrow> codec_lib \<Rightarrow> Message \<Rightarrow> bytes" where
  "wMessage fl deflate m =
     be32 (Crc32Field_crc CrcCastagnoli (wMessageBody fl deflate m)) @ wMessageBody fl deflate m"

definition wMessageBlock :: "bool \<Rightarrow> codec_lib \<Rightarrow> MessageBlock \<Rightarrow> bytes" where
  "wMessageBlock fl deflate b =
     be64 (fst b) @ be32 (size32 (length (wMessage fl deflate (snd b)))) @ wMessage fl deflate (snd b)"

definition Message_ok :: "codec_lib \<Rightarrow> Message \<Rightarrow> bool" where
  "Message_ok deflate m \<longleftrightarrow> bytes_ok (msg_key m) \<and> bytes_ok (Message_payload deflate m) \<and>
     (sint (msg_version m) \<ge> 1 \<longrightarrow> 0 \<le> sint (msg_timestamp m)) \<and>
     (msg_value m = [] \<or> Message_payload deflate m \<noteq> [])"

lemma finally_Ok: "p s = Ok () t \<Longrightarrow> f t = Ok () u \<Longrightarrow> finally_p p f s = Ok () u"
  by (simp add: finally_p_def ret_apply)

lemma emits_Message:
  assumes "Message_ok deflate m"
  shows "emits fl (Message_encode deflate m) (wMessage fl deflate m)"
  unfolding Message_encode_def wMessage_def
proof (rule crcf.emits_framed_by [rotated], erule finally_Ok, assumption)
  show "emits fl (then_p (putInt8 (msg_version m)) (then_p (putInt8 (Message_attributes m))
      (then_p (when_p (sint (msg_version m) \<ge> 1) (Timestamp_encode (msg_timestamp m))) (then_p (putBytes (msg_key m))
        (if msg_compressed_cache m = [] \<and> Message_payload deflate m = [] \<and> msg_value m \<noteq> [] then raise (- 1)
         else putBytes (Message_payload deflate m)))))) (wMessageBody fl deflate m)"
    using assms unfolding wMessageBody_def Message_ok_def
    by (intro emits_then emits_putInt8 emits_when emits_Timestamp emits_putBytes) (auto intro: emits_putBytes)
qed

lemma emits_MessageBlock:
  assumes "Message_ok deflate (snd b)"
  shows "emits fl (MessageBlock_encode deflate b) (wMessageBlock fl deflate b)"
  unfolding MessageBlock_encode_def wMessageBlock_def
  by (intro emits_then emits_putInt64 lenf.emits_framed_by [OF emits_Message [OF assms]]) simp

theorem emits_MessageSet:
  "\<forall>b \<in> set (ms_messages s). Message_ok deflate (snd b) \<Longrightarrow>
   emits fl (MessageSet_encode deflate s) (concat (map (wMessageBlock fl deflate) (ms_messages s)))"
  unfolding MessageSet_encode_def by (intro emits_for_each emits_MessageBlock) simp

end
