(* ===== verification/Kafka_Records.thy ===== *)
theory Kafka_Records
  imports Message_Sets
begin

text \<open>
  \<^verbatim>\<open>Records\<close> (\<^verbatim>\<open>records.h\<close>, \<^verbatim>\<open>records.cpp\<close>), the contents of a partition in a produce or fetch message: a
  message set or a record batch, told apart by the magic byte; and control records (\<^verbatim>\<open>control_record.h\<close>,
  \<^verbatim>\<open>control_record.cpp\<close>), whose key and value are packets of their own.

  A method with an out-parameter gives the pair of its return code and that parameter.
\<close>

definition UnknownRecords :: int32 where "UnknownRecords = 0"
definition LegacyRecords :: int32 where "LegacyRecords = 1"
definition DefaultRecords :: int32 where "DefaultRecords = 2"

definition ErrUnknownRecordsType :: int where "ErrUnknownRecordsType = 1059"

lemmas records_type_defs = UnknownRecords_def LegacyRecords_def DefaultRecords_def

section \<open>Control records\<close>

definition ControlRecordAbort :: int32 where "ControlRecordAbort = 0"
definition ControlRecordCommit :: int32 where "ControlRecordCommit = 1"
definition ControlRecordUnknown :: int32 where "ControlRecordUnknown = 2"

lemmas control_defs = ControlRecordAbort_def ControlRecordCommit_def ControlRecordUnknown_def

record ControlRecord =
  cr_version :: int16
  cr_coordinator_epoch :: int32
  cr_type :: int32

text \<open>Programs on two packets at once.\<close>

definition on_key :: "('s, 'a) prog \<Rightarrow> ('s \<times> 't, 'a) prog" where
  "on_key m = (\<lambda>(s, t). case m s of Ok x s' \<Rightarrow> Ok x (s', t) | Err e s' \<Rightarrow> Err e (s', t) | Abort \<Rightarrow> Abort)"

definition on_value :: "('t, 'a) prog \<Rightarrow> ('s \<times> 't, 'a) prog" where
  "on_value m = (\<lambda>(s, t). case m t of Ok x t' \<Rightarrow> Ok x (s, t') | Err e t' \<Rightarrow> Err e (s, t') | Abort \<Rightarrow> Abort)"

definition control_type :: "int16 \<Rightarrow> int32" where
  "control_type t = (if t = 0 then ControlRecordAbort else if t = 1 then ControlRecordCommit else ControlRecordUnknown)"

definition ControlRecord_decode :: "ControlRecord \<Rightarrow> (packet_decoder \<times> packet_decoder, ControlRecord) prog" where
  "ControlRecord_decode this =
     bind_p (err_as ErrDecodeError (on_key getInt16)) (\<lambda>version.
     bind_p (err_as ErrDecodeError (on_key getInt16)) (\<lambda>recordType.
       let this' = this\<lparr>cr_version := version, cr_type := control_type recordType\<rparr> in
       (\<lambda>s. if cr_type this' \<noteq> ControlRecordUnknown \<and> remaining (snd s) > 0
             then bind_p (err_as ErrDecodeError (on_value getInt16)) (\<lambda>valueVersion.
                    if valueVersion \<noteq> version then raise ErrDecodeError
                    else bind_p (err_as ErrDecodeError (on_value getInt32)) (\<lambda>epoch.
                           ret (this'\<lparr>cr_coordinator_epoch := epoch\<rparr>))) s
             else Ok this' s)))"

definition control_code :: "int32 \<Rightarrow> int16" where
  "control_code t = (if t = ControlRecordAbort then 0 else if t = ControlRecordCommit then 1 else 128)"

definition ControlRecord_encode :: "ControlRecord \<Rightarrow> (packet_encoder \<times> packet_encoder, unit) prog" where
  "ControlRecord_encode this =
     then_p (on_key (putInt16 (cr_version this)))
    (then_p (on_key (putInt16 (control_code (cr_type this))))
       (when_p (cr_type this \<noteq> ControlRecordUnknown)
         (then_p (on_value (putInt16 (cr_version this))) (on_value (putInt32 (cr_coordinator_epoch this))))))"

section \<open>Records\<close>

record Records =
  rc_records_type :: int32
  rc_message_set :: "MessageSet option"
  rc_record_batch :: "RecordBatch option"

definition Records_default :: Records where
  "Records_default = \<lparr>rc_records_type = UnknownRecords, rc_message_set = None, rc_record_batch = None\<rparr>"

definition Records_of_set :: "MessageSet \<Rightarrow> Records" where
  "Records_of_set s = \<lparr>rc_records_type = LegacyRecords, rc_message_set = Some s, rc_record_batch = None\<rparr>"

definition Records_of_batch :: "RecordBatch \<Rightarrow> Records" where
  "Records_of_batch b = \<lparr>rc_records_type = DefaultRecords, rc_message_set = None, rc_record_batch = Some b\<rparr>"

text \<open>The message set or the batch that the methods act on.\<close>

definition legacy :: "Records \<Rightarrow> MessageSet option" where
  "legacy r = (if rc_records_type r = LegacyRecords then rc_message_set r else None)"

definition batch :: "Records \<Rightarrow> RecordBatch option" where
  "batch r = (if rc_records_type r = DefaultRecords then rc_record_batch r else None)"

definition Records_encode :: "codec_lib \<Rightarrow> Records \<Rightarrow> unit enc" where
  "Records_encode deflate r =
     (case legacy r of
        Some s \<Rightarrow> MessageSet_encode deflate s
      | None \<Rightarrow> (case batch r of Some b \<Rightarrow> RecordBatch_encode deflate b | None \<Rightarrow> raise (- 1)))"

definition set_type_from_magic :: "Records \<Rightarrow> Records dec" where
  "set_type_from_magic r = bind_p magic_value (\<lambda>magic.
     ret (r\<lparr>rc_records_type := (if sint magic < 2 then LegacyRecords else DefaultRecords)\<rparr>))"

definition Records_decode :: "nat \<Rightarrow> codec_lib \<Rightarrow> Records \<Rightarrow> Records dec" where
  "Records_decode fuel inflate this =
     bind_p (if rc_records_type this = UnknownRecords then set_type_from_magic this else ret this) (\<lambda>r.
       if rc_records_type r = LegacyRecords
       then bind_p (MessageSet_decode fuel inflate MessageSet_default) (\<lambda>s. ret (r\<lparr>rc_message_set := Some s\<rparr>))
       else if rc_records_type r = DefaultRecords
       then bind_p (RecordBatch_decode inflate RecordBatch_default) (\<lambda>b. ret (r\<lparr>rc_record_batch := Some b\<rparr>))
       else raise (- 1))"

definition num_records :: "Records \<Rightarrow> int \<times> int32" where
  "num_records r =
     (case legacy r of
        Some s \<Rightarrow> (0, size32 (length (ms_messages s)))
      | None \<Rightarrow> (case batch r of Some b \<Rightarrow> (0, size32 (length (rb_records b))) | None \<Rightarrow> (- 1, 0)))"

definition is_partial :: "Records \<Rightarrow> int \<times> bool" where
  "is_partial r =
     (case legacy r of
        Some s \<Rightarrow> (0, ms_partial_trailing_message s)
      | None \<Rightarrow> (case batch r of Some b \<Rightarrow> (0, rb_partial_trailing_record b) | None \<Rightarrow> (ErrUnknownRecordsType, False)))"

definition is_control :: "Records \<Rightarrow> int \<times> bool" where
  "is_control r = (case batch r of Some b \<Rightarrow> (0, rb_control b) | None \<Rightarrow> (- 1, False))"

definition is_overflow :: "Records \<Rightarrow> int \<times> bool" where
  "is_overflow r =
     (if rc_records_type r = UnknownRecords then (0, False)
      else if rc_records_type r = LegacyRecords
      then (case rc_message_set r of None \<Rightarrow> (0, False) | Some s \<Rightarrow> (0, ms_overflow_message s))
      else if rc_records_type r = DefaultRecords then (0, False) else (- 1, False))"

definition next_offset :: "Records \<Rightarrow> int \<times> int64" where
  "next_offset r =
     (case batch r of
        Some b \<Rightarrow> (0, last_offset b + 1)
      | None \<Rightarrow> (case legacy r of Some s \<Rightarrow> (0, MessageSet_last_offset s + 1) | None \<Rightarrow> (- 1, 0)))"

definition get_control_record :: "Records \<Rightarrow> ControlRecord \<Rightarrow> (unit, ControlRecord) outcome" where
  "get_control_record r out =
     (case batch r of
        None \<Rightarrow> Err (- 1) ()
      | Some b \<Rightarrow>
          (if rb_records b = [] then Err (- 1) ()
           else case ControlRecord_decode out (new_decoder (rcd_key (hd (rb_records b))),
                       new_decoder (rcd_value (hd (rb_records b)))) of
                  Ok c _ \<Rightarrow> Ok c () | Err e _ \<Rightarrow> Err e () | Abort \<Rightarrow> Abort))"

section \<open>Control records: layout and round trip\<close>

definition wControlKey :: "ControlRecord \<Rightarrow> bytes" where
  "wControlKey c = be16 (cr_version c) @ be16 (control_code (cr_type c))"

definition wControlValue :: "ControlRecord \<Rightarrow> bytes" where
  "wControlValue c =
     (if cr_type c \<noteq> ControlRecordUnknown then be16 (cr_version c) @ be32 (cr_coordinator_epoch c) else [])"

lemma on_steps [simp]:
  "m s = Ok x s' \<Longrightarrow> on_key m (s, t) = Ok x (s', t)" "m t = Ok x t' \<Longrightarrow> on_value m (s, t) = Ok x (s, t')"
  by (simp_all add: on_key_def on_value_def)

text \<open>Both encoders are of the same kind; the key and the value are written in one call each.\<close>

theorem control_record_writes:
  assumes "pe_type k = REAL" "pe_type v = REAL" "length (pe_raw k) < 2 ^ 31" "length (pe_raw v) < 2 ^ 31"
    and "pe_offset k + length (wControlKey c) \<le> length (pe_raw k)"
    and "pe_offset v + length (wControlValue c) \<le> length (pe_raw v)"
  shows "ControlRecord_encode c (k, v) = Ok ()
    (k\<lparr>pe_offset := pe_offset k + length (wControlKey c),
       pe_raw := write_at (pe_offset k) (wControlKey c) (pe_raw k)\<rparr>,
     v\<lparr>pe_offset := pe_offset v + length (wControlValue c),
       pe_raw := write_at (pe_offset v) (wControlValue c) (pe_raw v)\<rparr>)"
proof -
  have key: "emits (m_flexible k \<noteq> 0) (then_p (putInt16 (cr_version c)) (putInt16 (control_code (cr_type c)))) (wControlKey c)"
    unfolding wControlKey_def by (intro emits_then emits_putInt16)
  have val: "emits (m_flexible v \<noteq> 0) (when_p (cr_type c \<noteq> ControlRecordUnknown)
      (then_p (putInt16 (cr_version c)) (putInt32 (cr_coordinator_epoch c)))) (wControlValue c)"
    unfolding wControlValue_def by (intro emits_when emits_then emits_putInt16 emits_putInt32)
  have fst: "then_p (on_key p) (then_p (on_key q) r) (k, v) = r (k', v)" if "then_p p q k = Ok () k'"
    for p q :: "unit enc" and r :: "(packet_encoder \<times> packet_encoder, unit) prog" and k'
    using that by (auto simp: then_p_eq_Ok)
  have snd: "when_p b (then_p (on_value p) (on_value q)) (k', v) = Ok () (k', v')" if "when_p b (then_p p q) v = Ok () v'"
    for b and p q :: "unit enc" and k' :: packet_encoder and v'
    using that by (cases b) (auto simp: when_p_def then_p_eq_Ok ret_apply)
  show ?thesis unfolding ControlRecord_encode_def
    using assms by (subst fst [OF emits_real [OF key]]) (auto intro!: snd emits_real [OF val])
qed

theorem control_record_reads:
  assumes "cr_type c \<in> {ControlRecordAbort, ControlRecordCommit, ControlRecordUnknown}"
  shows "\<exists>ks vs. ControlRecord_decode this (new_decoder (wControlKey c), new_decoder (wControlValue c)) =
    Ok (if cr_type c = ControlRecordUnknown then c\<lparr>cr_coordinator_epoch := cr_coordinator_epoch this\<rparr> else c) (ks, vs)"
proof -
  let ?k = "new_decoder (wControlKey c)" and ?v = "new_decoder (wControlValue c)"
  have kinds: "control_type (control_code (cr_type c)) = cr_type c"
    using assms by (auto simp: control_type_def control_code_def control_defs)
  have k1: "getInt16 ?k = Ok (cr_version c) (advance 2 ?k)"
    using readsD [OF reads_getInt16, of ?k False "cr_version c"]
    by (simp add: new_decoder_def wControlKey_def slice_def be16_def)
  have k2: "getInt16 (advance 2 ?k) = Ok (control_code (cr_type c)) (advance 4 ?k)"
    using readsD [OF reads_getInt16, of "advance 2 ?k" False "control_code (cr_type c)"]
    by (simp add: new_decoder_def wControlKey_def slice_def be16_def)
  have v1: "getInt16 ?v = Ok (cr_version c) (advance 2 ?v)" if "cr_type c \<noteq> ControlRecordUnknown"
    using readsD [OF reads_getInt16, of ?v False "cr_version c"] that
    by (simp add: new_decoder_def wControlValue_def slice_def be16_def)
  have v2: "getInt32 (advance 2 ?v) = Ok (cr_coordinator_epoch c) (advance 6 ?v)" if "cr_type c \<noteq> ControlRecordUnknown"
    using readsD [OF reads_getInt32, of "advance 2 ?v" False "cr_coordinator_epoch c"] that
    by (simp add: new_decoder_def wControlValue_def slice_def be16_def be32_def)
  have "remaining ?v > 0 \<longleftrightarrow> cr_type c \<noteq> ControlRecordUnknown"
    by (simp add: remaining_def new_decoder_def wControlValue_def)
  then show ?thesis using k1 k2 v1 v2
    using kinds by (cases c; cases this; cases "cr_type c = ControlRecordUnknown")
      (simp_all add: ControlRecord_decode_def Let_def ret_apply)
qed

section \<open>Records: what decoding finds\<close>

lemma wBatchFrame_magic: "wBatchFrame b crc rest ! 16 = 2"
  by (simp add: wBatchFrame_def be64_def be32_def be8_def)

theorem records_read_batch:
  assumes ok: "RecordBatch_ok False deflate inflate b" and kind: "rc_records_type this \<in> {UnknownRecords, DefaultRecords}"
  shows "reads False (Records_decode fuel inflate this)
    (wBatchFrame b crc (wBatchTail False b (batch_payload deflate b)))
    (this\<lparr>rc_records_type := DefaultRecords, rc_record_batch := Some (RecordBatch_seen RecordBatch_default b)\<rparr>)"
proof (rule readsI)
  fix pd :: packet_decoder
  let ?bs = "wBatchFrame b crc (wBatchTail False b (batch_payload deflate b))"
  assume pd: "(m_flexible pd \<noteq> 0) = False" "length (pd_raw pd) < 2 ^ 31"
    "pd_offset pd + length ?bs \<le> length (pd_raw pd)" "slice (pd_offset pd) (length ?bs) (pd_raw pd) = ?bs"
  have long: "16 < length ?bs" by (simp add: wBatchFrame_def)
  then have "pd_raw pd ! (pd_offset pd + 16) = 2"
    using slice_nth [OF pd(4) long pd(3)] by (simp add: wBatchFrame_magic)
  then have magic: "magic_value pd = Ok 2 pd"
    using pd(3) long by (simp add: magic_value_def magic_offset_def peekInt8_def)
  have "RecordBatch_decode inflate RecordBatch_default pd = Ok (RecordBatch_seen RecordBatch_default b) (advance (length ?bs) pd)"
    by (rule readsD [OF reads_RecordBatch [OF ok] pd]) (simp add: RecordBatch_default_def)
  then show "Records_decode fuel inflate this pd = Ok (this\<lparr>rc_records_type := DefaultRecords,
      rc_record_batch := Some (RecordBatch_seen RecordBatch_default b)\<rparr>) (advance (length ?bs) pd)"
    using kind magic by (auto simp: Records_decode_def set_type_from_magic_def records_type_defs ret_apply)
qed

theorem records_write_batch:
  "RecordBatch_fits deflate b \<Longrightarrow> emits fl (Records_encode deflate (Records_of_batch b)) (wRecordBatch fl deflate b)"
  using emits_RecordBatch [of deflate b fl]
  by (simp add: Records_encode_def Records_of_batch_def legacy_def batch_def records_type_defs)

end
