(* ===== verification/Decoder_Safety.thy ===== *)
theory Decoder_Safety
  imports Protocol
begin

text \<open>
  Memory safety of decoders on arbitrary bytes.

  \<open>safe F n p\<close>: whatever the packet holds, with its cursor inside the buffer and in one of the formats \<open>F\<close>
  (\<open>True\<close> is the flexible one), \<open>p\<close> returns a value or an error code, never \<open>Abort\<close>, leaves the cursor inside
  the buffer, the buffer as it was and the nesting counter of the flexible format balanced.  \<open>n\<close> is the nesting
  \<open>p\<close> may add; the counter is a \<^verbatim>\<open>uint16_t\<close>.

  \<open>safe_rules\<close> composes the contract over the combinators.  Every reader of \<^verbatim>\<open>packet_decoder\<close> has it in both
  formats, but for the two integer arrays, which have it in the fixed format only.
\<close>

definition inside :: "bool set \<Rightarrow> nat \<Rightarrow> packet_decoder \<Rightarrow> bool" where
  "inside F n pd \<longleftrightarrow> (m_flexible pd \<noteq> 0) \<in> F \<and> pd_offset pd \<le> length (pd_raw pd) \<and> unat (m_flexible pd) + n < 2 ^ 16"

definition same_packet :: "packet_decoder \<Rightarrow> packet_decoder \<Rightarrow> bool" where
  "same_packet pd pd' \<longleftrightarrow> pd_offset pd' \<le> length (pd_raw pd') \<and> pd_raw pd' = pd_raw pd \<and>
     m_flexible pd' = m_flexible pd"

definition stays :: "packet_decoder \<Rightarrow> (packet_decoder, 'a) outcome \<Rightarrow> bool" where
  "stays pd out \<longleftrightarrow> (case out of Ok _ pd' \<Rightarrow> same_packet pd pd' | Err _ pd' \<Rightarrow> same_packet pd pd' | Abort \<Rightarrow> False)"

definition safe :: "bool set \<Rightarrow> nat \<Rightarrow> 'a dec \<Rightarrow> bool" where
  "safe F n p \<longleftrightarrow> (\<forall>pd. inside F n pd \<longrightarrow> stays pd (p pd))"

named_theorems safe_rules \<open>decoders that stay inside their packet\<close>

section \<open>Combinators\<close>

lemma safeI: "(\<And>pd. inside F n pd \<Longrightarrow> stays pd (p pd)) \<Longrightarrow> safe F n p"
  by (simp add: safe_def)

lemma safeD: "safe F n p \<Longrightarrow> inside F n pd \<Longrightarrow> stays pd (p pd)"
  by (simp add: safe_def)

lemma stays_simps [simp]:
  "stays pd (Ok x pd') \<longleftrightarrow> same_packet pd pd'" "stays pd (Err e pd') \<longleftrightarrow> same_packet pd pd'" "\<not> stays pd Abort"
  by (simp_all add: stays_def)

lemma inside_same: "inside F n pd \<Longrightarrow> same_packet pd pd' \<Longrightarrow> inside F n pd'"
  by (auto simp: inside_def same_packet_def)

lemma same_packet_trans: "same_packet pd pd' \<Longrightarrow> same_packet pd' pd'' \<Longrightarrow> same_packet pd pd''"
  by (auto simp: same_packet_def)

lemma stays_trans: "same_packet pd pd' \<Longrightarrow> stays pd' out \<Longrightarrow> stays pd out"
  by (auto simp: stays_def dest: same_packet_trans split: outcome.splits)

lemma same_packet_refl: "inside F n pd \<Longrightarrow> same_packet pd pd"
  by (simp add: inside_def same_packet_def)

lemma safe_ret [safe_rules]: "safe F n (ret x)"
  by (rule safeI) (simp add: ret_apply same_packet_refl)

lemma safe_raise [safe_rules]: "safe F n (raise e)"
  by (rule safeI) (simp add: raise_apply same_packet_refl)

lemma safe_bind [safe_rules]:
  assumes "safe F n m" "\<And>x. safe F n (k x)" shows "safe F n (bind_p m k)"
proof (rule safeI)
  fix pd assume i: "inside F n pd"
  then show "stays pd (bind_p m k pd)"
    using safeD [OF assms(1) i] safeD [OF assms(2) inside_same [OF i]]
    by (cases "m pd") (auto intro: stays_trans)
qed

lemma safe_then [safe_rules]: "safe F n m \<Longrightarrow> safe F n k \<Longrightarrow> safe F n (then_p m k)"
  unfolding then_p_def by (rule safe_bind)

lemma safe_codes [safe_rules]:
  "safe F n m \<Longrightarrow> safe F n (err_as e m)" "safe F n m' \<Longrightarrow> safe F n (ignore_err m')" "safe F n m \<Longrightarrow> safe F n (get_or m d)"
  by (auto simp: safe_def stays_def err_as_def ignore_err_def get_or_def split: outcome.splits)

lemma safe_choice [safe_rules]:
  "(b \<Longrightarrow> safe F n p) \<Longrightarrow> (\<not> b \<Longrightarrow> safe F n q) \<Longrightarrow> safe F n (if b then p else q)"
  "(b \<Longrightarrow> safe F n p') \<Longrightarrow> safe F n (when_p b p')"
  "(b \<Longrightarrow> safe F n p) \<Longrightarrow> safe F n (field_if b p d)"
  by (simp_all add: when_p_def field_if_def safe_ret)

lemma safe_case [safe_rules]:
  "(\<And>a b. safe F n (f a b)) \<Longrightarrow> safe F n (case x of (a, b) \<Rightarrow> f a b)"
  "(y = None \<Longrightarrow> safe F n p) \<Longrightarrow> (\<And>z. y = Some z \<Longrightarrow> safe F n (g z)) \<Longrightarrow> safe F n (case y of None \<Rightarrow> p | Some z \<Rightarrow> g z)"
  by (cases x, simp) (cases y, simp_all)

lemma safe_let [safe_rules]: "safe F n (f x) \<Longrightarrow> safe F n (let y = x in f y)"
  by simp

lemma safe_formats: "safe F' n p \<Longrightarrow> F \<subseteq> F' \<Longrightarrow> n \<le> n' \<Longrightarrow> safe F n' p"
  by (auto simp: safe_def inside_def)

lemma safe_by_flex:
  "(False \<in> F \<Longrightarrow> safe {False} n p) \<Longrightarrow> (True \<in> F \<Longrightarrow> safe {True} n q) \<Longrightarrow> safe F n (by_flex d p q)"
  by (auto simp: safe_def by_flex_def inside_def is_fixed_def)

lemma safe_by_flex_both [safe_rules]: "safe F n p \<Longrightarrow> safe F n q \<Longrightarrow> safe F n (by_flex d p q)"
  by (auto simp: safe_def by_flex_def)

lemma safe_with_flexible [safe_rules]:
  assumes "safe {True} n p" shows "safe F (Suc n) (with_flexible p)"
proof (rule safeI)
  fix pd assume i: "inside F (Suc n) pd"
  then have up: "unat (m_flexible pd + 1) = unat (m_flexible pd) + 1"
    by (simp add: inside_def unat_word_ariths)
  then have nz: "m_flexible pd + 1 \<noteq> 0" by (metis add_is_0 unat_0 zero_neq_one)
  have "inside {True} n (push_flexible pd)" using i nz up by (simp add: inside_def push_flexible_def)
  then show "stays pd (with_flexible p pd)"
    using safeD [OF assms, of "push_flexible pd"] nz
    by (auto simp: with_flexible_def pop_flexible_def same_packet_def push_flexible_def stays_def word_gt_0
        split: outcome.splits)
qed

lemma safe_get_into [safe_rules]:
  assumes "safe F n m" "\<And>o'. safe F n (k o')" shows "safe F n (get_into m upd fail k ob)"
proof (rule safeI)
  fix pd assume i: "inside F n pd"
  then show "stays pd (get_into m upd fail k ob pd)"
    using safeD [OF assms(1) i] safeD [OF assms(2) inside_same [OF i]]
    by (cases "m pd") (auto simp: get_into_def intro: stays_trans)
qed

lemma safe_into [safe_rules]:
  "safe F n (got ob)"
  "(b \<Longrightarrow> safe F n m) \<Longrightarrow> (\<And>o'. safe F n (k o')) \<Longrightarrow> safe F n (get_into_if b m upd fail k ob)"
  by (simp_all add: got_def safe_ret get_into_if_def safe_get_into)

section \<open>Loops\<close>

lemma safe_replicate [safe_rules]: "safe F n m \<Longrightarrow> safe F n (replicate_p k m)"
  by (induction k) (auto intro!: safe_rules)

lemma safe_loop [safe_rules]: "safe F n m \<Longrightarrow> safe F n (loop_p k f m acc)"
  by (induction k arbitrary: acc) (auto intro!: safe_rules)

lemma safe_loops [safe_rules]:
  "safe F n m \<Longrightarrow> safe F n (read_n w m)"
  "safe F n m \<Longrightarrow> 0 \<le> sint w \<Longrightarrow> safe F n (resize_read w m)"
  "safe F n e \<Longrightarrow> safe F n (put_all ins w e acc)"
  by (simp_all add: read_n_def resize_read_def put_all_def safe_replicate safe_loop)

lemma safe_decode_each [safe_rules]: "(\<And>x. safe F n (f x)) \<Longrightarrow> safe F n (decode_each f xs)"
  by (induction xs) (auto intro!: safe_rules)

lemma safe_resize_into [safe_rules]: "(\<And>x. safe F n (f x)) \<Longrightarrow> 0 \<le> sint w \<Longrightarrow> safe F n (resize_into w d old f)"
  by (simp add: resize_into_def safe_decode_each)

section \<open>The readers\<close>

lemma same_packet_advance: "inside F n pd \<Longrightarrow> int k \<le> remaining pd \<Longrightarrow> same_packet pd (advance k pd)"
  by (simp add: inside_def same_packet_def advance_def remaining_def)

lemma stays_fail_at_end [simp]: "stays pd (fail_at_end e pd)"
  by (simp add: fail_at_end_def same_packet_def)

lemmas cursor_rules = same_packet_advance same_packet_refl

lemma safe_ints [safe_rules]:
  "safe F n getInt8" "safe F n getInt16" "safe F n getInt32" "safe F n getInt64" "safe F n getFloat64" "safe F n getKError"
  by (rule safeI; simp add: getInt8_def getInt16_def getInt32_def getInt64_def getFloat64_def getKError_def cursor_rules)+

text \<open>The rounds of the two variable-length readers, which differ in the test at the end only.\<close>

lemma inside_step:
  assumes "inside F n pd" "\<not> length (pd_raw pd) \<le> pd_offset pd"
  shows "inside F n (advance (Suc 0) pd)" "same_packet pd (advance (Suc 0) pd)"
    "j \<le> length (pd_raw pd) \<Longrightarrow> same_packet pd ((advance (Suc 0) pd)\<lparr>pd_offset := j\<rparr>)"
  using assms by (auto simp: inside_def advance_def same_packet_def)

lemma stays_getVariant_loop: "inside F n pd \<Longrightarrow> stays pd (getVariant_loop k ux pd)"
proof (induction k arbitrary: ux pd)
  case 0 then show ?case by (auto simp: inside_def same_packet_def)
next
  case (Suc k)
  show ?case
  proof (cases "length (pd_raw pd) \<le> pd_offset pd")
    case False
    note go = inside_step [OF Suc.prems False]
    note stays_trans [OF go(2) Suc.IH [OF go(1)]]
    then show ?thesis using False go(2,3) by (auto simp: Let_def)
  qed simp
qed

lemma stays_getUVariant_loop: "inside F n pd \<Longrightarrow> stays pd (getUVariant_loop k r pd)"
proof (induction k arbitrary: r pd)
  case 0 then show ?case by (auto simp: inside_def same_packet_def)
next
  case (Suc k)
  show ?case
  proof (cases "length (pd_raw pd) \<le> pd_offset pd")
    case False
    note go = inside_step [OF Suc.prems False]
    note stays_trans [OF go(2) Suc.IH [OF go(1)]]
    then show ?thesis using False go(2,3) by (auto simp: Let_def)
  qed simp
qed

lemma safe_variants [safe_rules]: "safe F n getVariant" "safe F n getUVariant"
  unfolding getVariant_def getUVariant_def
  by (rule safeI, erule stays_getVariant_loop stays_getUVariant_loop)+

lemma safe_fixed_length:
  "safe F n (\<lambda>pd. if remaining pd < 4 then fail_at_end ErrInsufficientData pd
     else (let r = signed_be32 (at_off pd 0) (at_off pd 1) (at_off pd 2) (at_off pd 3); pd' = advance 4 pd
           in if sint r > MaxResponseSize then Err ErrInvalidArrayLength pd' else Ok r pd'))"
  by (rule safeI) (simp add: Let_def cursor_rules)

lemma safe_getArrayLength [safe_rules]: "safe F n getArrayLength"
  unfolding getArrayLength_def by (intro safe_by_flex_both safe_bind safe_variants safe_ret safe_fixed_length)

lemma safe_scalars [safe_rules]: "safe F n getBool" "safe F n getDurationMs"
  unfolding getBool_def getDurationMs_def by (intro safe_rules)+

lemma safe_raw [safe_rules]: "safe F n (getRawBytes w)" "safe F n (getSubset w)" "safe F n (checkStringLength w)"
  by (rule safeI; simp add: getSubset_def getRawBytes_def checkStringLength_def cursor_rules)+

lemma safe_bytes [safe_rules]: "safe F n getBytes" "safe F n getVariantBytes" "safe F n getStringLength" "safe F n skipTaggedField"
  unfolding getBytes_def getVariantBytes_def getStringLength_def skipTaggedField_def by (intro safe_rules)+

lemma safe_skipTags [safe_rules]: "safe F n (skipTags k)"
  by (induction k) (auto intro!: safe_rules)

lemma safe_tags [safe_rules]: "safe F n getEmptyTaggedFieldArray" "safe F n (tags_then x)"
  unfolding getEmptyTaggedFieldArray_def tags_then_def by (intro safe_rules)+

lemma safe_tagLoop: "(\<And>t d. (t, d) \<in> set ds \<Longrightarrow> safe {True} n d) \<Longrightarrow> safe F (Suc n) (tagLoop k ds)"
  by (induction k) (auto intro!: safe_rules dest: map_of_SomeD)

lemma safe_getTaggedFieldArray [safe_rules]:
  "(\<And>t d. (t, d) \<in> set ds \<Longrightarrow> safe {True} n d) \<Longrightarrow> safe F (Suc n) (getTaggedFieldArray ds)"
  unfolding getTaggedFieldArray_def by (intro safe_rules safe_tagLoop) auto

text \<open>A string is taken after its length has been compared with what remains.\<close>

lemma checked_length: "checkStringLength w pd = Ok w' pd' \<Longrightarrow> - 1 \<le> sint w' \<and> sint w' \<le> remaining pd'"
  by (auto simp: checkStringLength_def fail_at_end_def split: if_splits)

lemma getStringLength_bound:
  assumes "getStringLength pd = Ok w pd'" "inside F n pd" shows "- 1 \<le> sint w \<and> sint w \<le> remaining pd'"
  using assms checked_length
  by (auto simp: getStringLength_def by_flex_def bind_p_def split: outcome.splits if_splits)

lemma safe_takeString:
  "safe F n (bind_p getStringLength (\<lambda>w. if w = - 1 then ret [] else takeBytes (nat (sint w))))"
proof (rule safeI)
  fix pd assume i: "inside F n pd"
  show "stays pd (bind_p getStringLength (\<lambda>w. if w = - 1 then ret [] else takeBytes (nat (sint w))) pd)"
  proof (cases "getStringLength pd")
    case (Ok w pd')
    have s: "same_packet pd pd'" using safeD [OF safe_bytes(3) i] Ok by simp
    have "int (nat (sint w)) \<le> remaining pd'"
      using getStringLength_bound [OF Ok i] inside_same [OF i s] by (auto simp: inside_def remaining_def)
    then show ?thesis
      using Ok s same_packet_advance [OF inside_same [OF i s]]
      by (auto simp: ret_apply takeBytes_def intro: same_packet_trans)
  qed (use safeD [OF safe_bytes(3) i] in auto)
qed

lemma safe_strings [safe_rules]: "safe F n getString" "safe F n getNullableString"
  unfolding getString_def getNullableString_def by (intro safe_by_flex_both safe_takeString)+

lemma safe_readStrings: "safe F n (readStrings k)"
  by (induction k) (auto intro!: safe_rules)

lemma safe_getStringArray [safe_rules]: "safe F n getStringArray"
  unfolding getStringArray_def by (intro safe_rules safe_readStrings)

text \<open>\<^verbatim>\<open>peek\<close> and \<^verbatim>\<open>peekInt8\<close> do not move the cursor.\<close>

lemma safe_peek [safe_rules]: "0 \<le> off \<Longrightarrow> 0 \<le> len \<Longrightarrow> safe F n (peek off len)" "safe F n (peekInt8 k)"
  by (rule safeI; simp add: peek_def peekInt8_def same_packet_refl)+

text \<open>The integer arrays: the length is compared with what remains before the loop runs.\<close>

lemma stays_readInts:
  "inside F n pd \<Longrightarrow> 4 * int k \<le> remaining pd \<Longrightarrow> stays pd (readInt32s k pd)"
  "inside F n pd \<Longrightarrow> 8 * int k \<le> remaining pd \<Longrightarrow> stays pd (readInt64s k pd)"
proof -
  have step: "pd_offset pd + j \<le> length (pd_raw pd)" "inside F n (advance j pd)" "same_packet pd (advance j pd)"
    "remaining (advance j pd) = remaining pd - int j" if "inside F n pd" "int j \<le> remaining pd" for j pd
    using that by (auto simp: inside_def advance_def same_packet_def remaining_def)
  have more: "stays pd (bind_p m (\<lambda>xs. ret (x # xs)) pd')" if "same_packet pd pd'" "stays pd' (m pd')"
    for pd pd' :: packet_decoder and m :: "'b list dec" and x
    using that by (cases "m pd'") (auto simp: ret_apply dest: same_packet_trans)
  show "inside F n pd \<Longrightarrow> 4 * int k \<le> remaining pd \<Longrightarrow> stays pd (readInt32s k pd)"
  proof (induction k arbitrary: pd)
    case 0 then show ?case by (simp add: ret_apply same_packet_refl)
  next
    case (Suc k)
    then show ?case using step [of pd 4] by (auto simp: bind_p_Ok intro!: more)
  qed
  show "inside F n pd \<Longrightarrow> 8 * int k \<le> remaining pd \<Longrightarrow> stays pd (readInt64s k pd)"
  proof (induction k arbitrary: pd)
    case 0 then show ?case by (simp add: ret_apply same_packet_refl)
  next
    case (Suc k)
    then show ?case using step [of pd 8] by (auto simp: bind_p_Ok intro!: more)
  qed
qed

lemma fixed_length_bound:
  assumes "getArrayLength pd = Ok w pd'" "inside {False} n pd" shows "sint w \<le> MaxResponseSize"
  using assms by (auto simp: getArrayLength_def by_flex_def is_fixed_def inside_def Let_def fail_at_end_def split: if_splits)

lemma safe_intArrays [safe_rules]: "safe {False} n getInt32Array" "safe {False} n getInt64Array"
proof -
  have counted: "safe {False} n (bind_p getArrayLength (\<lambda>w. if sint w \<le> 0 then ret [] else needElems c w (f w)))"
    if c: "0 \<le> c" "c \<le> 8" and f: "\<And>w pd. inside {False} n pd \<Longrightarrow> 0 < sint w \<Longrightarrow> c * sint w \<le> remaining pd \<Longrightarrow> stays pd (f w pd)"
    for c and f :: "int32 \<Rightarrow> 'b list dec"
  proof (rule safeI)
    fix pd assume i: "inside {False} n pd"
    show "stays pd (bind_p getArrayLength (\<lambda>w. if sint w \<le> 0 then ret [] else needElems c w (f w)) pd)"
    proof (cases "getArrayLength pd")
      case (Ok w pd')
      have s: "same_packet pd pd'" using safeD [OF safe_getArrayLength i] Ok by simp
      have "c * sint w \<le> 8 * MaxResponseSize" if "0 < sint w"
        using fixed_length_bound [OF Ok i] c that by (intro mult_mono) auto
      then have "0 < sint w \<Longrightarrow> c * sint w < 2 ^ 31" by (auto simp: MaxResponseSize_def)
      then show ?thesis
        using Ok s f [OF inside_same [OF i s], of w] by (cases "0 < sint w") (auto simp: ret_apply needElems_def not_less intro: stays_trans)
    qed (use safeD [OF safe_getArrayLength i] in auto)
  qed
  show "safe {False} n getInt64Array" unfolding getInt64Array_def
    by (rule counted) (auto intro!: stays_readInts)
  have "safe {False} n (bind_p getArrayLength (\<lambda>w. if sint w \<le> 0 then ret [] else needElems 4 w (readInt32s (nat (sint w)))))"
    by (rule counted) (auto intro!: stays_readInts)
  then show "safe {False} n getInt32Array" unfolding getInt32Array_def by (intro safe_by_flex) auto
qed

section \<open>The entry point\<close>

lemma inside_new: "n < 2 ^ 16 \<Longrightarrow> False \<in> F \<Longrightarrow> inside F n (new_decoder buf)"
  by (simp add: inside_def new_decoder_def)

theorem decode_version_safe:
  assumes "safe {pb_is_flexible_version (vtable this) v} 100 (dec this v)"
  shows "decode_version buf (body_VDecoder (vtable this) (dec this) this) v \<noteq> Abort"
proof -
  let ?p = "prepare_flexible_decoder (body_VDecoder (vtable this) (dec this) this) v"
  have "safe {False} (Suc 100) ?p"
    using assms safe_with_flexible [of 100 "dec this v" "{False}"] safe_formats [of "{False}" 100 "dec this v" "{False}" "Suc 100"]
    by (cases "pb_is_flexible_version (vtable this) v") (simp_all add: prepare_flexible_decoder_def body_VDecoder_def)
  then have "stays (new_decoder buf) (?p (new_decoder buf))" by (rule safeD) (simp add: inside_new)
  then show ?thesis by (auto simp: decode_version_def split: outcome.splits)
qed

end
