(* ===== verification/Message_Safety.thy ===== *)
theory Message_Safety
  imports Decoder_Safety Group_Messages Session_Messages Txn_Messages Txn_Offset_Messages Acl_Types Acl_Messages Broker_Address Group_Admin_Messages Offset_Messages
begin

text \<open>
  Which message classes can be decoded from arbitrary bytes.  Each decoder is composed from the readers of
  \<open>Decoder_Safety\<close>; \<open>survives\<close> is the result for the entry point \<^verbatim>\<open>versioned_decode\<close>.  The classes that are missing
  resize a vector to the count they read: \<open>null_arrays\<close> shows for seven of them that a null array ends in an exception.
  \<^verbatim>\<open>OffsetFetchRequest\<close> is covered below version 6 only, because in the flexible format \<^verbatim>\<open>getInt32Array\<close> does not
  look at what remains.
\<close>

section \<open>Group Messages\<close>

lemma safe_HeartbeatRequest_decode [safe_rules]: "safe F n (HeartbeatRequest_decode x y)"
  unfolding HeartbeatRequest_decode_def by (intro safe_rules; simp)

lemma safe_HeartbeatResponse_decode [safe_rules]: "safe F n (HeartbeatResponse_decode x y)"
  unfolding HeartbeatResponse_decode_def by (intro safe_rules; simp)

lemma safe_MemberIdentity_decode [safe_rules]: "safe F n (MemberIdentity_decode )"
  unfolding MemberIdentity_decode_def by (intro safe_rules; simp)

lemma safe_MemberResponse_decode [safe_rules]: "safe F n (MemberResponse_decode )"
  unfolding MemberResponse_decode_def by (intro safe_rules; simp)

lemma safe_SyncGroupRequestAssignment_decode [safe_rules]: "safe F n (SyncGroupRequestAssignment_decode )"
  unfolding SyncGroupRequestAssignment_decode_def by (intro safe_rules; simp)

lemma safe_SyncGroupRequest_decode [safe_rules]: "safe F n (SyncGroupRequest_decode x y)"
  unfolding SyncGroupRequest_decode_def by (intro safe_rules; simp)

lemma safe_SyncGroupResponse_decode [safe_rules]: "safe F n (SyncGroupResponse_decode x y)"
  unfolding SyncGroupResponse_decode_def by (intro safe_rules; simp)

lemma safe_GroupProtocol_decode [safe_rules]: "safe F n (GroupProtocol_decode )"
  unfolding GroupProtocol_decode_def by (intro safe_rules; simp)

lemma safe_JoinGroupRequest_get_protocols [safe_rules]: "safe F n (JoinGroupRequest_get_protocols x)"
  unfolding JoinGroupRequest_get_protocols_def by (intro safe_rules; simp)

lemma safe_JoinGroupRequest_decode [safe_rules]: "safe F n (JoinGroupRequest_decode x y)"
  unfolding JoinGroupRequest_decode_def by (intro safe_rules; simp)

lemma safe_GroupMember_decode [safe_rules]: "safe F n (GroupMember_decode x)"
  unfolding GroupMember_decode_def by (intro safe_rules; simp)

section \<open>Session Messages\<close>

lemma safe_FindCoordinatorRequest_decode [safe_rules]: "safe F n (FindCoordinatorRequest_decode x y)"
  unfolding FindCoordinatorRequest_decode_def by (intro safe_rules; simp)

lemma safe_SaslHandshakeRequest_decode [safe_rules]: "safe F n (SaslHandshakeRequest_decode x y)"
  unfolding SaslHandshakeRequest_decode_def by (intro safe_rules; simp)

lemma safe_SaslHandshakeResponse_decode [safe_rules]: "safe F n (SaslHandshakeResponse_decode x y)"
  unfolding SaslHandshakeResponse_decode_def by (intro safe_rules; simp)

lemma safe_SaslAuthenticateRequest_decode [safe_rules]: "safe F n (SaslAuthenticateRequest_decode x y)"
  unfolding SaslAuthenticateRequest_decode_def by (intro safe_rules; simp)

lemma safe_SaslAuthenticateResponse_decode [safe_rules]: "safe F n (SaslAuthenticateResponse_decode x y)"
  unfolding SaslAuthenticateResponse_decode_def by (intro safe_rules; simp)

section \<open>Txn Messages\<close>

lemma safe_AddOffsetsToTxnRequest_decode [safe_rules]: "safe F n (AddOffsetsToTxnRequest_decode x y)"
  unfolding AddOffsetsToTxnRequest_decode_def by (intro safe_rules; simp)

lemma safe_AddOffsetsToTxnResponse_decode [safe_rules]: "safe F n (AddOffsetsToTxnResponse_decode x y)"
  unfolding AddOffsetsToTxnResponse_decode_def by (intro safe_rules; simp)

lemma safe_EndTxnRequest_decode [safe_rules]: "safe F n (EndTxnRequest_decode x y)"
  unfolding EndTxnRequest_decode_def by (intro safe_rules; simp)

lemma safe_EndTxnResponse_decode [safe_rules]: "safe F n (EndTxnResponse_decode x y)"
  unfolding EndTxnResponse_decode_def by (intro safe_rules; simp)

lemma safe_PartitionError_decode [safe_rules]: "safe F n (PartitionError_decode )"
  unfolding PartitionError_decode_def by (intro safe_rules; simp)

lemma safe_AddPartitions_get_topic [safe_rules]: "safe {False} n (AddPartitions_get_topic )"
  unfolding AddPartitions_get_topic_def by (intro safe_rules; simp)

lemma safe_AddPartitionsToTxnRequest_decode [safe_rules]: "safe {False} n (AddPartitionsToTxnRequest_decode x y)"
  unfolding AddPartitionsToTxnRequest_decode_def by (intro safe_rules; simp)

lemma safe_InitProducerIDRequest_decode [safe_rules]: "safe F n (InitProducerIDRequest_decode x y)"
  unfolding InitProducerIDRequest_decode_def by (intro safe_rules; simp)

lemma safe_InitProducerIDResponse_decode [safe_rules]: "safe F n (InitProducerIDResponse_decode x y)"
  unfolding InitProducerIDResponse_decode_def by (intro safe_rules; simp)

section \<open>Txn Offset Messages\<close>

lemma safe_PartitionOffsetMetadata_decode [safe_rules]: "safe F n (PartitionOffsetMetadata_decode x)"
  unfolding PartitionOffsetMetadata_decode_def by (intro safe_rules; simp)

section \<open>Acl Types\<close>

section \<open>Acl Messages\<close>

lemma safe_Resource_decode [safe_rules]: "safe F n (Resource_decode x y)"
  unfolding Resource_decode_def by (intro safe_rules; simp)

lemma safe_Acl_decode [safe_rules]: "safe F n (Acl_decode )"
  unfolding Acl_decode_def by (intro safe_rules; simp)

lemma safe_AclFilter_decode [safe_rules]: "safe F n (AclFilter_decode x y)"
  unfolding AclFilter_decode_def by (intro safe_rules; simp)

lemma safe_DescribeAclsRequest_decode [safe_rules]: "safe F n (DescribeAclsRequest_decode x y)"
  unfolding DescribeAclsRequest_decode_def by (intro safe_rules; simp)

lemma safe_AclCreation_decode [safe_rules]: "safe F n (AclCreation_decode x y)"
  unfolding AclCreation_decode_def by (intro safe_rules; simp)

lemma safe_AclCreationResponse_decode [safe_rules]: "safe F n (AclCreationResponse_decode )"
  unfolding AclCreationResponse_decode_def by (intro safe_rules; simp)

lemma safe_MatchingAcl_decode [safe_rules]: "safe F n (MatchingAcl_decode x y)"
  unfolding MatchingAcl_decode_def by (intro safe_rules; simp)

section \<open>Broker Address\<close>

lemma safe_Broker_decode [safe_rules]: "safe F n (Broker_decode x y)"
  unfolding Broker_decode_def by (intro safe_rules; simp)

section \<open>Group Admin Messages\<close>

lemma safe_DeleteGroupsRequest_decode [safe_rules]: "safe F n (DeleteGroupsRequest_decode x y)"
  unfolding DeleteGroupsRequest_decode_def by (intro safe_rules; simp)

lemma safe_GroupError_get_entry [safe_rules]: "safe F n (GroupError_get_entry )"
  unfolding GroupError_get_entry_def by (intro safe_rules; simp)

lemma safe_DeleteGroupsResponse_decode [safe_rules]: "safe F n (DeleteGroupsResponse_decode x y)"
  unfolding DeleteGroupsResponse_decode_def by (intro safe_rules; simp)

lemma safe_DescribeGroupsRequest_decode [safe_rules]: "safe F n (DescribeGroupsRequest_decode x y)"
  unfolding DescribeGroupsRequest_decode_def by (intro safe_rules; simp)

lemma safe_GroupMemberDescription_decode [safe_rules]: "safe F n (GroupMemberDescription_decode x y)"
  unfolding GroupMemberDescription_decode_def by (intro safe_rules; simp)

lemma safe_GroupDescription_get_member [safe_rules]: "safe F n (GroupDescription_get_member x)"
  unfolding GroupDescription_get_member_def by (intro safe_rules; simp)

lemma safe_GroupDescription_get_members [safe_rules]: "safe F n (GroupDescription_get_members x)"
  unfolding GroupDescription_get_members_def by (intro safe_rules; simp)

lemma safe_GroupDescription_decode [safe_rules]: "safe F n (GroupDescription_decode x y)"
  unfolding GroupDescription_decode_def by (intro safe_rules; simp)

lemma safe_DescribeGroupsResponse_decode [safe_rules]: "safe F n (DescribeGroupsResponse_decode x y)"
  unfolding DescribeGroupsResponse_decode_def by (intro safe_rules; simp)

lemma safe_ListGroupsRequest_decode [safe_rules]: "safe F n (ListGroupsRequest_decode x y)"
  unfolding ListGroupsRequest_decode_def by (intro safe_rules; simp)

lemma safe_ListGroups_get_group [safe_rules]: "safe F n (ListGroups_get_group x)"
  unfolding ListGroups_get_group_def by (intro safe_rules; simp)

lemma safe_ListGroupsResponse_decode [safe_rules]: "safe F n (ListGroupsResponse_decode x y)"
  unfolding ListGroupsResponse_decode_def by (intro safe_rules; simp)

lemma safe_DeleteOffsetsPartitions_get_entry [safe_rules]: "safe {False} n (DeleteOffsetsPartitions_get_entry )"
  unfolding DeleteOffsetsPartitions_get_entry_def by (intro safe_rules; simp)

lemma safe_DeleteOffsets_get_partitions [safe_rules]: "safe {False} n (DeleteOffsets_get_partitions x)"
  unfolding DeleteOffsets_get_partitions_def by (intro safe_rules; simp)

lemma safe_DeleteOffsetsRequest_decode [safe_rules]: "safe {False} n (DeleteOffsetsRequest_decode x y)"
  unfolding DeleteOffsetsRequest_decode_def by (intro safe_rules; simp)

lemma safe_PartitionErrorCode_get_entry [safe_rules]: "safe F n (PartitionErrorCode_get_entry )"
  unfolding PartitionErrorCode_get_entry_def by (intro safe_rules; simp)

lemma safe_TopicErrorCodes_get_entry [safe_rules]: "safe F n (TopicErrorCodes_get_entry )"
  unfolding TopicErrorCodes_get_entry_def by (intro safe_rules; simp)

lemma safe_DeleteOffsetsResponse_decode [safe_rules]: "safe F n (DeleteOffsetsResponse_decode x y)"
  unfolding DeleteOffsetsResponse_decode_def by (intro safe_rules; simp)

section \<open>Offset Messages\<close>

lemma safe_OffsetCommitRequestBlock_decode [safe_rules]: "safe F n (OffsetCommitRequestBlock_decode x y)"
  unfolding OffsetCommitRequestBlock_decode_def by (intro safe_rules; simp)

lemma safe_OffsetCommit_get_partitions [safe_rules]: "safe F n (OffsetCommit_get_partitions x y z)"
  by (induction x arbitrary: y z) (auto intro!: safe_rules)

lemma safe_OffsetCommit_get_topics [safe_rules]: "safe F n (OffsetCommit_get_topics x y z)"
  by (induction x arbitrary: y z) (auto intro!: safe_rules)

lemma safe_OffsetCommitRequest_decode [safe_rules]: "safe F n (OffsetCommitRequest_decode x y)"
  unfolding OffsetCommitRequest_decode_def by (intro safe_rules; simp)

lemma safe_CommitError_get_entry [safe_rules]: "safe F n (CommitError_get_entry )"
  unfolding CommitError_get_entry_def by (intro safe_rules; simp)

lemma safe_CommitErrors_get_entry [safe_rules]: "safe F n (CommitErrors_get_entry )"
  unfolding CommitErrors_get_entry_def by (intro safe_rules; simp)

lemma safe_OffsetCommitResponse_decode [safe_rules]: "safe F n (OffsetCommitResponse_decode x y)"
  unfolding OffsetCommitResponse_decode_def by (intro safe_rules; simp)

lemma safe_FetchPartitions_get_entry [safe_rules]: "safe {False} n (FetchPartitions_get_entry )"
  unfolding FetchPartitions_get_entry_def by (intro safe_rules; simp)

lemma safe_OffsetFetch_get_partitions [safe_rules]: "safe {False} n (OffsetFetch_get_partitions x)"
  unfolding OffsetFetch_get_partitions_def by (intro safe_rules; simp)

lemma safe_OffsetFetchRequest_decode [safe_rules]: "safe {False} n (OffsetFetchRequest_decode x y)"
  unfolding OffsetFetchRequest_decode_def by (intro safe_rules; simp)

lemma safe_OffsetFetchResponseBlock_decode [safe_rules]: "safe F n (OffsetFetchResponseBlock_decode x)"
  unfolding OffsetFetchResponseBlock_decode_def by (intro safe_rules; simp)

lemma safe_FetchedPartition_get_entry [safe_rules]: "safe F n (FetchedPartition_get_entry x)"
  unfolding FetchedPartition_get_entry_def by (intro safe_rules; simp)

lemma safe_FetchedTopic_get_entry [safe_rules]: "safe F n (FetchedTopic_get_entry x)"
  unfolding FetchedTopic_get_entry_def by (intro safe_rules; simp)

lemma safe_OffsetFetchResponse_decode [safe_rules]: "safe F n (OffsetFetchResponse_decode x y)"
  unfolding OffsetFetchResponse_decode_def by (intro safe_rules; simp)

lemma safe_OffsetRequestBlock_decode [safe_rules]: "safe F n (OffsetRequestBlock_decode x y)"
  unfolding OffsetRequestBlock_decode_def by (intro safe_rules; simp)

lemma safe_OffsetPartition_get_entry [safe_rules]: "safe F n (OffsetPartition_get_entry x)"
  unfolding OffsetPartition_get_entry_def by (intro safe_rules; simp)

lemma safe_OffsetTopic_get_entry [safe_rules]: "safe F n (OffsetTopic_get_entry x)"
  unfolding OffsetTopic_get_entry_def by (intro safe_rules; simp)

lemma safe_OffsetRequest_decode [safe_rules]: "safe F n (OffsetRequest_decode x y)"
  unfolding OffsetRequest_decode_def by (intro safe_rules; simp)

lemma safe_OffsetResponseBlock_decode [safe_rules]: "safe {False} n (OffsetResponseBlock_decode x y)"
  unfolding OffsetResponseBlock_decode_def by (intro safe_rules; simp)

lemma safe_OffsetAnswer_get_entry [safe_rules]: "safe {False} n (OffsetAnswer_get_entry x)"
  unfolding OffsetAnswer_get_entry_def by (intro safe_rules; simp)

lemma safe_OffsetAnswers_get_entry [safe_rules]: "safe {False} n (OffsetAnswers_get_entry x)"
  unfolding OffsetAnswers_get_entry_def by (intro safe_rules; simp)

lemma safe_OffsetResponse_decode [safe_rules]: "safe {False} n (OffsetResponse_decode x y)"
  unfolding OffsetResponse_decode_def by (intro safe_rules; simp)
section \<open>Whole messages\<close>

text \<open>
  \<open>survives V vtable dec\<close>: in the versions \<open>V\<close>, \<^verbatim>\<open>versioned_decode\<close> returns on every string of bytes, with a message
  or an error code, whatever the object was before.
\<close>

definition survives :: "int16 set \<Rightarrow> ('m \<Rightarrow> protocol_body) \<Rightarrow> ('m \<Rightarrow> int16 \<Rightarrow> 'm dec) \<Rightarrow> bool" where
  "survives V vtable dec \<longleftrightarrow>
     (\<forall>this buf. \<forall>v \<in> V. decode_version buf (body_VDecoder (vtable this) (dec this) this) v \<noteq> Abort)"

lemma survivesI:
  assumes "\<And>m v. v \<in> V \<Longrightarrow> safe {pb_is_flexible_version (vtable m) v} 100 (dec m v)"
  shows "survives V vtable dec"
  unfolding survives_def by (intro allI ballI decode_version_safe assms)

lemma survivors:
  "survives UNIV HeartbeatRequest_body HeartbeatRequest_decode"
  "survives UNIV HeartbeatResponse_body HeartbeatResponse_decode"
  "survives UNIV SyncGroupRequest_body SyncGroupRequest_decode"
  "survives UNIV SyncGroupResponse_body SyncGroupResponse_decode"
  "survives UNIV JoinGroupRequest_body JoinGroupRequest_decode"
  "survives UNIV FindCoordinatorRequest_body FindCoordinatorRequest_decode"
  "survives UNIV SaslHandshakeRequest_body SaslHandshakeRequest_decode"
  "survives UNIV SaslHandshakeResponse_body SaslHandshakeResponse_decode"
  "survives UNIV SaslAuthenticateRequest_body SaslAuthenticateRequest_decode"
  "survives UNIV SaslAuthenticateResponse_body SaslAuthenticateResponse_decode"
  "survives UNIV AddOffsetsToTxnRequest_body AddOffsetsToTxnRequest_decode"
  "survives UNIV AddOffsetsToTxnResponse_body AddOffsetsToTxnResponse_decode"
  "survives UNIV EndTxnRequest_body EndTxnRequest_decode"
  "survives UNIV EndTxnResponse_body EndTxnResponse_decode"
  "survives UNIV AddPartitionsToTxnRequest_body AddPartitionsToTxnRequest_decode"
  "survives UNIV InitProducerIDRequest_body InitProducerIDRequest_decode"
  "survives UNIV InitProducerIDResponse_body InitProducerIDResponse_decode"
  "survives UNIV DescribeAclsRequest_body DescribeAclsRequest_decode"
  "survives UNIV DeleteGroupsRequest_body DeleteGroupsRequest_decode"
  "survives UNIV DeleteGroupsResponse_body DeleteGroupsResponse_decode"
  "survives UNIV DescribeGroupsRequest_body DescribeGroupsRequest_decode"
  "survives UNIV DescribeGroupsResponse_body DescribeGroupsResponse_decode"
  "survives UNIV ListGroupsRequest_body ListGroupsRequest_decode"
  "survives UNIV ListGroupsResponse_body ListGroupsResponse_decode"
  "survives UNIV DeleteOffsetsRequest_body DeleteOffsetsRequest_decode"
  "survives UNIV DeleteOffsetsResponse_body DeleteOffsetsResponse_decode"
  "survives UNIV OffsetCommitRequest_body OffsetCommitRequest_decode"
  "survives UNIV OffsetCommitResponse_body OffsetCommitResponse_decode"
  "survives {v. sint v < 6} OffsetFetchRequest_body OffsetFetchRequest_decode"
  "survives UNIV OffsetFetchResponse_body OffsetFetchResponse_decode"
  "survives UNIV OffsetRequest_body OffsetRequest_decode"
  "survives UNIV OffsetResponse_body OffsetResponse_decode"
  by (rule survivesI; simp add: safe_rules AddPartitionsToTxnRequest_body_def DeleteOffsetsRequest_body_def OffsetFetchRequest_body_def OffsetResponse_body_def OffsetFetchRequest_is_flexible_version_def)+
text \<open>
  A null array (the count \<open>-1\<close>, \<open>wNull\<close>) in a class that resizes its vector without a look at the count: \<^verbatim>\<open>resize\<close>
  throws \<^verbatim>\<open>std::length_error\<close>, which nothing between the class and the caller of \<^verbatim>\<open>versioned_decode\<close> catches.
\<close>

definition wNull :: bytes where
  "wNull = [255, 255, 255, 255]"

lemma reads_null: "reads False getArrayLength wNull (- 1)"
proof (rule readsI)
  fix pd :: packet_decoder
  assume pd: "(m_flexible pd \<noteq> 0) = False" "pd_offset pd + length wNull \<le> length (pd_raw pd)"
    "slice (pd_offset pd) (length wNull) (pd_raw pd) = wNull"
  have "at_off pd i = wNull ! i" if "i < 4" for i
    using arg_cong [OF pd(3), of "\<lambda>l. l ! i"] pd(2) that by (simp add: slice_def at_off_def wNull_def add.commute)
  from this [of 0] this [of 1] this [of 2] this [of 3]
  show "getArrayLength pd = Ok (- 1) (advance (length wNull) pd)"
    using pd(1,2) by (simp add: getArrayLength_def remaining_def wNull_def signed_be32_def MaxResponseSize_def Let_def)
qed

lemma aborts_null_array:
  "aborts False (bind_p getArrayLength (\<lambda>n. resize_read n m)) wNull"
  "aborts False (bind_p getArrayLength (\<lambda>n. if n = 0 then ret old else resize_read n m)) wNull"
  "aborts False (bind_p (err_as e getArrayLength) (\<lambda>n. resize_read n m)) wNull"
  "aborts False (bind_p (err_as e getArrayLength) (\<lambda>n. resize_into n d old f)) wNull"
  by (rule aborts_after [OF reads_null, where cs = "[]", simplified]
      aborts_after [OF reads_err_as [OF reads_null], where cs = "[]", simplified];
      simp add: resize_read_def resize_into_def aborts_now)+

lemma reads_skip: "reads False (field_if False m old) [] old"
  by (simp add: field_if_def reads_ret)

lemma null_arrays:
  assumes t: "duration_ok t" and s: "string_ok False s" "string_ok False s'" "string_ok False s''"
  shows "aborts False (LeaveGroupRequest_decode lq 3) (wString False s @ wNull)"
    "aborts False (LeaveGroupResponse_decode lr 3) (wDurationMs t @ be16 e @ wNull)"
    "aborts False (JoinGroupResponse_decode jr 1)
       (be16 e @ be32 g @ wString False s @ wString False s' @ wString False s'' @ wNull)"
    "aborts False (CreateAclsRequest_decode cq v) wNull"
    "aborts False (CreateAclsResponse_decode cr v) (wDurationMs t @ wNull)"
    "aborts False (DeleteAclsRequest_decode dq v) wNull"
    "aborts False (DeleteAclsResponse_decode dr v) (wDurationMs t @ wNull)"
proof -
  note d = reads_getDurationMs [OF t]
  note prefix = aborts_after [OF reads_getString [OF s(1)]] aborts_after [OF reads_getKError]
  show "aborts False (LeaveGroupRequest_decode lq 3) (wString False s @ wNull)"
    unfolding LeaveGroupRequest_decode_def
    by (rule prefix) (simp add: field_if_def aborts_bind aborts_null_array)
  show "aborts False (LeaveGroupResponse_decode lr 3) (wDurationMs t @ be16 e @ wNull)"
    unfolding LeaveGroupResponse_decode_def
    using aborts_after [OF d aborts_after [OF reads_getKError aborts_bind [OF aborts_null_array(1)]]]
    by (simp add: field_if_def)
  show "aborts False (JoinGroupResponse_decode jr 1)
      (be16 e @ be32 g @ wString False s @ wString False s' @ wString False s'' @ wNull)"
    unfolding JoinGroupResponse_decode_def JoinGroupResponse_read_members_def
    using s by (simp add: field_if_def)
      (intro aborts_after [OF reads_getKError] aborts_after [OF reads_getInt32] aborts_after [OF reads_getString]
        aborts_bind aborts_null_array)
  show "aborts False (CreateAclsRequest_decode cq v) wNull"
    unfolding CreateAclsRequest_decode_def by (intro aborts_bind aborts_null_array)
  show "aborts False (CreateAclsResponse_decode cr v) (wDurationMs t @ wNull)"
    unfolding CreateAclsResponse_decode_def by (intro aborts_after [OF reads_err_as [OF d]] aborts_bind aborts_null_array)
  show "aborts False (DeleteAclsRequest_decode dq v) wNull"
    unfolding DeleteAclsRequest_decode_def by (intro aborts_bind aborts_null_array)
  show "aborts False (DeleteAclsResponse_decode dr v) (wDurationMs t @ wNull)"
    unfolding DeleteAclsResponse_decode_def by (intro aborts_after [OF reads_err_as [OF d]] aborts_bind aborts_null_array)
qed

end
