(* ===== verification/Sticky_Strategy.thy ===== *)
theory Sticky_Strategy
  imports Balance_Strategy "HOL-Library.Product_Lexorder"
begin

text \<open>
  The sticky strategy of \<^verbatim>\<open>balance_strategy.cpp\<close>, with \<^verbatim>\<open>topic_type.cpp\<close>.

  Maps are sorted association lists, as in the other strategies; \<open>m[k]\<close> of a map of vectors is \<open>entry_of\<close>, \<open>m.at(k)\<close>
  is \<open>map_of\<close>, where \<open>None\<close> is \<^verbatim>\<open>std::out_of_range\<close>.  The four containers that the rebalancing loop passes around by
  reference are the record \<open>assignment\<close>; the two maps of potential partners do not change and stand in front.

  \<^verbatim>\<open>performReassignments\<close> repeats passes over the partitions as long as one of them moved something.  It is a partial
  function: \<open>None\<close> means that it never returns, \<open>Some None\<close> that \<open>at\<close> has thrown.
\<close>

section \<open>Partitions and movements\<close>

datatype topic_t = topic_t (m_topic: bytes) (m_partition: int32)

instantiation topic_t :: linorder
begin

definition less_topic_t :: "topic_t \<Rightarrow> topic_t \<Rightarrow> bool" where
  "less_topic_t a b \<longleftrightarrow>
     m_topic a < m_topic b \<or> (m_topic a = m_topic b \<and> sint (m_partition a) < sint (m_partition b))"

definition less_eq_topic_t :: "topic_t \<Rightarrow> topic_t \<Rightarrow> bool" where
  "less_eq_topic_t a b \<longleftrightarrow> a < b \<or> a = b"

instance
proof
  fix x y z :: topic_t
  show "x < y \<longleftrightarrow> x \<le> y \<and> \<not> y \<le> x" by (auto simp: less_topic_t_def less_eq_topic_t_def)
  show "x \<le> x" by (simp add: less_eq_topic_t_def)
  show "x \<le> y \<Longrightarrow> y \<le> z \<Longrightarrow> x \<le> z" by (auto simp: less_topic_t_def less_eq_topic_t_def)
  show "x \<le> y \<Longrightarrow> y \<le> x \<Longrightarrow> x = y" by (auto simp: less_topic_t_def less_eq_topic_t_def)
  show "x \<le> y \<or> y \<le> x"
    by (cases x; cases y) (auto simp: less_topic_t_def less_eq_topic_t_def not_less_iff_gr_or_eq dest: signed_word_eqI)
qed

end

datatype consumer_movement = consumer_movement (SrcMemberID: bytes) (DstMemberID: bytes)

instantiation consumer_movement :: linorder
begin

definition less_consumer_movement :: "consumer_movement \<Rightarrow> consumer_movement \<Rightarrow> bool" where
  "less_consumer_movement a b \<longleftrightarrow>
     SrcMemberID a < SrcMemberID b \<or> (SrcMemberID a = SrcMemberID b \<and> DstMemberID a < DstMemberID b)"

definition less_eq_consumer_movement :: "consumer_movement \<Rightarrow> consumer_movement \<Rightarrow> bool" where
  "less_eq_consumer_movement a b \<longleftrightarrow> a < b \<or> a = b"

instance
proof
  fix x y z :: consumer_movement
  show "x < y \<longleftrightarrow> x \<le> y \<and> \<not> y \<le> x" by (auto simp: less_consumer_movement_def less_eq_consumer_movement_def)
  show "x \<le> x" by (simp add: less_eq_consumer_movement_def)
  show "x \<le> y \<Longrightarrow> y \<le> z \<Longrightarrow> x \<le> z" by (auto simp: less_consumer_movement_def less_eq_consumer_movement_def)
  show "x \<le> y \<Longrightarrow> y \<le> x \<Longrightarrow> x = y" by (auto simp: less_consumer_movement_def less_eq_consumer_movement_def)
  show "x \<le> y \<or> y \<le> x"
    by (cases x; cases y) (auto simp: less_consumer_movement_def less_eq_consumer_movement_def not_less_iff_gr_or_eq)
qed

end

type_synonym potential_partitions = "(bytes \<times> topic_t list) list"
type_synonym potential_consumers = "(topic_t \<times> bytes list) list"

text \<open>\<open>m[k]\<close> of a map whose values have a default, and of a map of maps.\<close>

definition at_or :: "'v \<Rightarrow> ('k \<times> 'v) list \<Rightarrow> 'k \<Rightarrow> 'v" where
  "at_or d m k = (case map_of m k of Some v \<Rightarrow> v | None \<Rightarrow> d)"

record PartitionMovements =
  PartitionMovementsByTopic :: "(bytes \<times> (consumer_movement \<times> (topic_t \<times> bool) list) list) list"
  Movements :: "(topic_t \<times> consumer_movement) list"

definition no_movements :: PartitionMovements where
  "no_movements = \<lparr>PartitionMovementsByTopic = [], Movements = []\<rparr>"

definition remove_movement_record_of_partition ::
    "topic_t \<Rightarrow> PartitionMovements \<Rightarrow> consumer_movement \<times> PartitionMovements" where
  "remove_movement_record_of_partition part mv =
     (let outPair = at_or (consumer_movement [] []) (Movements mv) part;
          topicMap = at_or [] (PartitionMovementsByTopic mv) (m_topic part);
          parts = AList.delete part (at_or [] topicMap outPair);
          topicMap' = (if parts = [] then AList.delete outPair topicMap else smap_put outPair parts topicMap)
      in (outPair,
          \<lparr>PartitionMovementsByTopic =
             (if topicMap' = [] then AList.delete (m_topic part) (PartitionMovementsByTopic mv)
              else smap_put (m_topic part) topicMap' (PartitionMovementsByTopic mv)),
           Movements = AList.delete part (Movements mv)\<rparr>))"

definition add_partition_movement_record ::
    "topic_t \<Rightarrow> consumer_movement \<Rightarrow> PartitionMovements \<Rightarrow> PartitionMovements" where
  "add_partition_movement_record part pair mv =
     (let topicMap = at_or [] (PartitionMovementsByTopic mv) (m_topic part)
      in \<lparr>PartitionMovementsByTopic =
            smap_put (m_topic part) (smap_put pair (smap_put part True (at_or [] topicMap pair)) topicMap)
              (PartitionMovementsByTopic mv),
          Movements = smap_put part pair (Movements mv)\<rparr>)"

definition move_partition :: "topic_t \<Rightarrow> bytes \<Rightarrow> bytes \<Rightarrow> PartitionMovements \<Rightarrow> PartitionMovements" where
  "move_partition part oldConsumer newConsumer mv =
     (if map_of (Movements mv) part \<noteq> None
      then (let (existingPair, mv') = remove_movement_record_of_partition part mv
            in if SrcMemberID existingPair \<noteq> newConsumer
               then add_partition_movement_record part
                      (consumer_movement (SrcMemberID existingPair) newConsumer) mv'
               else mv')
      else add_partition_movement_record part (consumer_movement oldConsumer newConsumer) mv)"

definition get_the_actual_partition_to_be_moved ::
    "topic_t \<Rightarrow> bytes \<Rightarrow> bytes \<Rightarrow> PartitionMovements \<Rightarrow> topic_t" where
  "get_the_actual_partition_to_be_moved part oldConsumer newConsumer mv =
     (case map_of (PartitionMovementsByTopic mv) (m_topic part) of
        None \<Rightarrow> part
      | Some topicMap \<Rightarrow>
          (let actualOld = (case map_of (Movements mv) part of
                              None \<Rightarrow> oldConsumer | Some pair \<Rightarrow> SrcMemberID pair)
           in case map_of topicMap (consumer_movement newConsumer actualOld) of
                None \<Rightarrow> part
              | Some revMap \<Rightarrow> fst (hd revMap)))"

text \<open>Cycles in the movements of a topic; nothing in the library calls \<^verbatim>\<open>is_sticky\<close>.\<close>

function is_linked :: "bytes \<Rightarrow> bytes \<Rightarrow> consumer_movement list \<Rightarrow> bytes list \<Rightarrow> bytes list \<times> bool" where
  "is_linked src dst pairs currentPath =
     (if src = dst \<or> pairs = [] then (currentPath, False)
      else if consumer_movement src dst \<in> set pairs then (currentPath @ [src, dst], True)
      else case dropWhile (\<lambda>pair. SrcMemberID pair \<noteq> src) pairs of
             [] \<Rightarrow> (currentPath, False)
           | pair # rest \<Rightarrow>
               is_linked (DstMemberID pair) dst (takeWhile (\<lambda>pair. SrcMemberID pair \<noteq> src) pairs @ rest)
                 (currentPath @ [src]))"
  by pat_completeness auto
termination
proof (relation "measure (\<lambda>(_, _, pairs, _). length pairs)")
  fix src dst :: bytes and pairs :: "consumer_movement list" and path pair rest
  assume "dropWhile (\<lambda>pair. SrcMemberID pair \<noteq> src) pairs = pair # rest"
  then have "length (takeWhile (\<lambda>pair. SrcMemberID pair \<noteq> src) pairs @ pair # rest) = length pairs"
    by (metis takeWhile_dropWhile_id)
  then show "((DstMemberID pair, dst, takeWhile (\<lambda>pair. SrcMemberID pair \<noteq> src) pairs @ rest, path @ [src]),
      (src, dst, pairs, path)) \<in> measure (\<lambda>(_, _, pairs, _). length pairs)" by simp
qed simp

declare is_linked.simps [simp del]

definition in_cycles :: "bytes list \<Rightarrow> bytes list list \<Rightarrow> bool" where
  "in_cycles cycle cycles =
     (if length cycle < 2 then False
      else (let superCycle = butlast cycle @ cycle
            in \<exists>foundCycle \<in> set cycles. length foundCycle = length cycle \<and>
                 (\<exists>i \<in> set [0..<Suc (length superCycle - length foundCycle)].
                    take (length foundCycle) (drop i superCycle) = foundCycle)))"

primrec cycles_from :: "nat list \<Rightarrow> consumer_movement list \<Rightarrow> bytes list list \<Rightarrow> bool" where
  "cycles_from [] pairs cycles = False"
| "cycles_from (i # is) pairs cycles =
     (let reducedPairs = take i pairs @ drop (Suc i) pairs;
          (path, linked) = is_linked (DstMemberID (pairs ! i)) (SrcMemberID (pairs ! i)) reducedPairs
                             [SrcMemberID (pairs ! i)]
      in if linked \<and> \<not> in_cycles path cycles
         then (if length path = 3 then True else cycles_from is pairs (cycles @ [path]))
         else cycles_from is pairs cycles)"

definition has_cycles :: "consumer_movement list \<Rightarrow> bool" where
  "has_cycles pairs = cycles_from [0..<length pairs] pairs []"

definition is_sticky :: "PartitionMovements \<Rightarrow> bool" where
  "is_sticky mv = (\<forall>(topic, movements) \<in> set (PartitionMovementsByTopic mv). \<not> has_cycles (map fst movements))"


section \<open>Measuring an assignment\<close>

type_synonym assignments = "(bytes \<times> topic_t list) list"

text \<open>The comparison by the number of partitions and then by name, on identifiers that are in the map.\<close>

definition sortMemberIDsByPartitionAssignments :: "assignments \<Rightarrow> bytes list" where
  "sortMemberIDsByPartitionAssignments assignments =
     sort_key (\<lambda>memberID. (length (entry_of memberID assignments), memberID)) (map fst assignments)"

definition getBalanceScore :: "assignments \<Rightarrow> int" where
  "getBalanceScore assignment =
     sum_list (map (\<lambda>(id1, ps1). sum_list (map (\<lambda>(_, ps). \<bar>int (length ps1) - int (length ps)\<bar>)
       (AList.delete id1 assignment))) assignment)"

text \<open>
  \<^verbatim>\<open>allPartitions_\<close>, and the two nested loops over the members and their potential partitions.  \<open>None\<close> is a failed \<open>at\<close>,
  \<open>Some False\<close> the early return.
\<close>

definition owners :: "assignments \<Rightarrow> (topic_t \<times> bytes) list" where
  "owners currentAssignment =
     fold (\<lambda>(memberID, ps). fold (\<lambda>part. smap_put part memberID) ps) currentAssignment []"

primrec balanced_partitions :: "topic_t list \<Rightarrow> topic_t list \<Rightarrow> (topic_t \<times> bytes) list \<Rightarrow> assignments \<Rightarrow> bool option" where
  "balanced_partitions [] consumerPartitions allPartitions currentAssignment = Some True"
| "balanced_partitions (part # ps) consumerPartitions allPartitions currentAssignment =
     (if part \<in> set consumerPartitions then balanced_partitions ps consumerPartitions allPartitions currentAssignment
      else case map_of allPartitions part of
        None \<Rightarrow> None
      | Some otherConsumer \<Rightarrow>
          (case map_of currentAssignment otherConsumer of
             None \<Rightarrow> None
           | Some qs \<Rightarrow>
               if length consumerPartitions < length qs then Some False
               else balanced_partitions ps consumerPartitions allPartitions currentAssignment))"

primrec balanced_members ::
    "bytes list \<Rightarrow> (topic_t \<times> bytes) list \<Rightarrow> assignments \<Rightarrow> potential_partitions \<Rightarrow> bool option" where
  "balanced_members [] allPartitions currentAssignment allSubscriptions = Some True"
| "balanced_members (memberID # ids) allPartitions currentAssignment allSubscriptions =
     (case (map_of currentAssignment memberID, map_of allSubscriptions memberID) of
        (Some consumerPartitions, Some subscriptions) \<Rightarrow>
          if length consumerPartitions = length subscriptions
          then balanced_members ids allPartitions currentAssignment allSubscriptions
          else (case balanced_partitions subscriptions consumerPartitions allPartitions currentAssignment of
                  Some True \<Rightarrow> balanced_members ids allPartitions currentAssignment allSubscriptions
                | r \<Rightarrow> r)
      | _ \<Rightarrow> None)"

definition isBalanced :: "assignments \<Rightarrow> potential_partitions \<Rightarrow> bool option" where
  "isBalanced currentAssignment allSubscriptions =
     (if currentAssignment = [] then Some True
      else (let sortedCurrentSubscriptions = sortMemberIDsByPartitionAssignments currentAssignment;
                mn = length (entry_of (hd sortedCurrentSubscriptions) currentAssignment);
                mx = length (entry_of (last sortedCurrentSubscriptions) currentAssignment)
            in if int mn \<ge> int mx - 1 then Some True
               else balanced_members sortedCurrentSubscriptions (owners currentAssignment) currentAssignment
                      allSubscriptions))"

definition canTopicPartitionParticipateInReassignment :: "topic_t \<Rightarrow> potential_consumers \<Rightarrow> bool" where
  "canTopicPartitionParticipateInReassignment part partition2AllPotentialConsumers =
     (case map_of partition2AllPotentialConsumers part of None \<Rightarrow> False | Some ms \<Rightarrow> length ms \<ge> 2)"

definition canConsumerParticipateInReassignment ::
    "bytes \<Rightarrow> assignments \<Rightarrow> potential_partitions \<Rightarrow> potential_consumers \<Rightarrow> bool" where
  "canConsumerParticipateInReassignment memberID currentAssignment consumer2AllPotentialPartitions
       partition2AllPotentialConsumers =
     (case map_of currentAssignment memberID of
        None \<Rightarrow> (case map_of consumer2AllPotentialPartitions memberID of None \<Rightarrow> False | Some ps \<Rightarrow> ps \<noteq> [])
      | Some currentPartitions \<Rightarrow>
          (case map_of consumer2AllPotentialPartitions memberID of
             None \<Rightarrow> False
           | Some ps \<Rightarrow>
               length currentPartitions < length ps \<or>
               (\<exists>part \<in> set currentPartitions.
                  canTopicPartitionParticipateInReassignment part partition2AllPotentialConsumers)))"

definition sortPartitionsByPotentialConsumerAssignments :: "potential_consumers \<Rightarrow> topic_t list" where
  "sortPartitionsByPotentialConsumerAssignments partition2AllPotentialConsumers =
     sort_key (\<lambda>part. (length (at_or [] partition2AllPotentialConsumers part), part))
       (map fst partition2AllPotentialConsumers)"

text \<open>\<open>curMembers\<close> counts the elements of the first vector; every other one must have them as often.\<close>

definition same_counts :: "'a list list \<Rightarrow> bool" where
  "same_counts xss =
     (case xss of
        [] \<Rightarrow> True
      | first # others \<Rightarrow>
          (\<forall>cur \<in> set others. length (remdups first) = length cur \<and>
             (\<forall>x \<in> set first. count_list cur x = count_list first x)))"

definition areSubscriptionsIdentical :: "potential_consumers \<Rightarrow> potential_partitions \<Rightarrow> bool" where
  "areSubscriptionsIdentical partition2AllPotentialConsumers consumer2AllPotentialPartitions =
     (same_counts (map snd partition2AllPotentialConsumers) \<and> same_counts (map snd consumer2AllPotentialPartitions))"

section \<open>Assigning and moving partitions\<close>

record assignment =
  currentAssignment :: assignments
  sortedCurrentSubscriptions :: "bytes list"
  currentPartitionConsumer :: "(topic_t \<times> bytes) list"
  movements :: PartitionMovements

definition assignPartition :: "potential_partitions \<Rightarrow> topic_t \<Rightarrow> assignment \<Rightarrow> assignment" where
  "assignPartition consumer2AllPotentialPartitions part st =
     (let st' =
        (case find (\<lambda>memberID. part \<in> set (entry_of memberID consumer2AllPotentialPartitions))
                (sortedCurrentSubscriptions st) of
           None \<Rightarrow> st
         | Some memberID \<Rightarrow>
             st\<lparr>currentAssignment := smap_push memberID [part] (currentAssignment st),
                currentPartitionConsumer := smap_put part memberID (currentPartitionConsumer st)\<rparr>)
      in st'\<lparr>sortedCurrentSubscriptions := sortMemberIDsByPartitionAssignments (currentAssignment st')\<rparr>)"

definition removeTopicPartitionFromMemberAssignments :: "topic_t list \<Rightarrow> topic_t \<Rightarrow> topic_t list" where
  "removeTopicPartitionFromMemberAssignments assignments topic = remove1 topic assignments"

definition memberAssignmentsIncludeTopicPartition :: "topic_t list \<Rightarrow> topic_t \<Rightarrow> bool" where
  "memberAssignmentsIncludeTopicPartition assignments topic \<longleftrightarrow> topic \<in> set assignments"

definition processPartitionMovement :: "topic_t \<Rightarrow> bytes \<Rightarrow> assignment \<Rightarrow> assignment" where
  "processPartitionMovement part newConsumer st =
     (let oldConsumer = at_or [] (currentPartitionConsumer st) part;
          A1 = smap_put oldConsumer
                 (removeTopicPartitionFromMemberAssignments (entry_of oldConsumer (currentAssignment st)) part)
                 (currentAssignment st);
          A2 = smap_push newConsumer [part] A1
      in st\<lparr>currentAssignment := A2,
            sortedCurrentSubscriptions := sortMemberIDsByPartitionAssignments A2,
            currentPartitionConsumer := smap_put part newConsumer (currentPartitionConsumer st),
            movements := move_partition part oldConsumer newConsumer (movements st)\<rparr>)"

definition reassignPartition :: "topic_t \<Rightarrow> bytes \<Rightarrow> assignment \<Rightarrow> assignment" where
  "reassignPartition part newConsumer st =
     (let consumer = at_or [] (currentPartitionConsumer st) part;
          partitionToBeMoved = get_the_actual_partition_to_be_moved part consumer newConsumer (movements st)
      in processPartitionMovement partitionToBeMoved newConsumer st)"

primrec reassign_to_first :: "potential_partitions \<Rightarrow> topic_t \<Rightarrow> bytes list \<Rightarrow> assignment \<Rightarrow> assignment option" where
  "reassign_to_first consumer2AllPotentialPartitions part [] st = Some st"
| "reassign_to_first consumer2AllPotentialPartitions part (anotherConsumer # others) st =
     (case map_of consumer2AllPotentialPartitions anotherConsumer of
        None \<Rightarrow> None
      | Some ps \<Rightarrow>
          if memberAssignmentsIncludeTopicPartition ps part then Some (reassignPartition part anotherConsumer st)
          else reassign_to_first consumer2AllPotentialPartitions part others st)"

definition reassignPartitionToNewConsumer :: "potential_partitions \<Rightarrow> topic_t \<Rightarrow> assignment \<Rightarrow> assignment option" where
  "reassignPartitionToNewConsumer consumer2AllPotentialPartitions part st =
     reassign_to_first consumer2AllPotentialPartitions part (sortedCurrentSubscriptions st) st"

section \<open>The rebalancing loop\<close>

text \<open>\<open>m[k]\<close> as a statement: a missing key is inserted with the default value.\<close>

definition touch :: "'v \<Rightarrow> 'k::linorder \<Rightarrow> ('k \<times> 'v) list \<Rightarrow> ('k \<times> 'v) list" where
  "touch d k m = (if map_of m k = None then smap_put k d m else m)"

text \<open>\<open>currentAssignment[consumer].size() > currentAssignment[other].size() + 1\<close>\<close>

definition touch_both :: "bytes \<Rightarrow> bytes \<Rightarrow> assignment \<Rightarrow> assignment" where
  "touch_both consumer other st = st\<lparr>currentAssignment := touch [] other (touch [] consumer (currentAssignment st))\<rparr>"

definition much_larger :: "bytes \<Rightarrow> bytes \<Rightarrow> assignment \<Rightarrow> bool" where
  "much_larger consumer other st \<longleftrightarrow>
     length (entry_of consumer (currentAssignment st)) > length (entry_of other (currentAssignment st)) + 1"

primrec try_others ::
    "potential_partitions \<Rightarrow> topic_t \<Rightarrow> bytes \<Rightarrow> bytes list \<Rightarrow> assignment \<Rightarrow> (bool \<times> assignment) option" where
  "try_others consumer2AllPotentialPartitions part consumer [] st = Some (False, st)"
| "try_others consumer2AllPotentialPartitions part consumer (otherConsumer # others) st =
     (let st1 = touch_both consumer otherConsumer st
      in if much_larger consumer otherConsumer st1
         then map_option (Pair True) (reassignPartitionToNewConsumer consumer2AllPotentialPartitions part st1)
         else try_others consumer2AllPotentialPartitions part consumer others st1)"

text \<open>One round of the \<^verbatim>\<open>for\<close> loop, behind the test for balance.\<close>

definition reassign_one :: "(topic_t \<times> bytes \<times> int) list \<Rightarrow> potential_partitions \<Rightarrow> potential_consumers \<Rightarrow>
    topic_t \<Rightarrow> assignment \<Rightarrow> (bool \<times> assignment) option" where
  "reassign_one prevAssignment consumer2AllPotentialPartitions partition2AllPotentialConsumers part st =
     (case map_of partition2AllPotentialConsumers part of
        None \<Rightarrow> None
      | Some consumers \<Rightarrow>
          if length consumers \<le> 1 then Some (False, st)
          else (let st0 = st\<lparr>currentPartitionConsumer := touch [] part (currentPartitionConsumer st)\<rparr>;
                    consumer = at_or [] (currentPartitionConsumer st0) part
                in if consumer = [] then Some (False, st0)
                   else case map_of prevAssignment part of
                          Some (prev, _) \<Rightarrow>
                            (let st1 = touch_both consumer prev st0
                             in if much_larger consumer prev st1 then Some (True, reassignPartition part prev st1)
                                else try_others consumer2AllPotentialPartitions part consumer consumers st1)
                        | None \<Rightarrow> try_others consumer2AllPotentialPartitions part consumer consumers st0))"

primrec reassign_pass :: "(topic_t \<times> bytes \<times> int) list \<Rightarrow> potential_partitions \<Rightarrow> potential_consumers \<Rightarrow>
    topic_t list \<Rightarrow> bool \<Rightarrow> assignment \<Rightarrow> (bool \<times> assignment) option" where
  "reassign_pass prevAssignment c2p p2c [] modified st = Some (modified, st)"
| "reassign_pass prevAssignment c2p p2c (part # parts) modified st =
     (case isBalanced (currentAssignment st) c2p of
        None \<Rightarrow> None
      | Some True \<Rightarrow> Some (modified, st)
      | Some False \<Rightarrow>
          (case reassign_one prevAssignment c2p p2c part st of
             None \<Rightarrow> None
           | Some (moved, st') \<Rightarrow> reassign_pass prevAssignment c2p p2c parts (modified \<or> moved) st'))"

partial_function (option) performReassignments :: "topic_t list \<Rightarrow> (topic_t \<times> bytes \<times> int) list \<Rightarrow>
    potential_partitions \<Rightarrow> potential_consumers \<Rightarrow> bool \<Rightarrow> assignment \<Rightarrow> (bool \<times> assignment) option option" where
  "performReassignments reassignablePartitions prevAssignment c2p p2c reassignmentPerformed st =
     (case reassign_pass prevAssignment c2p p2c reassignablePartitions False st of
        None \<Rightarrow> Some None
      | Some (modified, st') \<Rightarrow>
          if modified then performReassignments reassignablePartitions prevAssignment c2p p2c True st'
          else Some (Some (reassignmentPerformed, st')))"

section \<open>The plan\<close>

text \<open>The members that cannot take part are taken out, one after the other.\<close>

definition fix_member :: "potential_partitions \<Rightarrow> potential_consumers \<Rightarrow> bytes \<Rightarrow>
    assignments \<times> assignment \<Rightarrow> assignments \<times> assignment" where
  "fix_member c2p p2c memberID = (\<lambda>(fixedAssignments, st).
     if canConsumerParticipateInReassignment memberID (currentAssignment st) c2p p2c then (fixedAssignments, st)
     else (let A = AList.delete memberID (currentAssignment st)
           in (smap_put memberID (entry_of memberID (currentAssignment st)) fixedAssignments,
               st\<lparr>currentAssignment := A, sortedCurrentSubscriptions := sortMemberIDsByPartitionAssignments A\<rparr>)))"

definition balance_initializing :: "assignment \<Rightarrow> bool" where
  "balance_initializing st \<longleftrightarrow>
     sortedCurrentSubscriptions st = [] \<or>
     map_of (currentAssignment st) (hd (sortedCurrentSubscriptions st)) = Some []"

definition assign_unassigned :: "topic_t list \<Rightarrow> potential_partitions \<Rightarrow> potential_consumers \<Rightarrow> assignment \<Rightarrow> assignment" where
  "assign_unassigned unassignedPartitions c2p p2c st =
     fold (\<lambda>part st. if at_or [] p2c part = [] then st else assignPartition c2p part st) unassignedPartitions st"

definition balance :: "(topic_t \<times> bytes \<times> int) list \<Rightarrow> topic_t list \<Rightarrow> topic_t list \<Rightarrow> potential_partitions \<Rightarrow>
    potential_consumers \<Rightarrow> assignment \<Rightarrow> assignment option option" where
  "balance prevAssignment sortedPartitions unassignedPartitions c2p p2c st0 =
     (let initializing = balance_initializing st0;
          st1 = assign_unassigned unassignedPartitions c2p p2c st0;
          sortedPartitions' =
            filter (\<lambda>part. \<not> (part \<in> set (map fst p2c) \<and> \<not> canTopicPartitionParticipateInReassignment part p2c))
              sortedPartitions;
          (fixedAssignments, st2) = fold (fix_member c2p p2c) (map fst c2p) ([], st1)
      in (case performReassignments sortedPartitions' prevAssignment c2p p2c False st2 of
            None \<Rightarrow> None
          | Some None \<Rightarrow> Some None
          | Some (Some (reassignmentPerformed, st3)) \<Rightarrow>
              (let st4 = (if \<not> initializing \<and> reassignmentPerformed \<and>
                             getBalanceScore (currentAssignment st3) \<ge> getBalanceScore (currentAssignment st2)
                          then st3\<lparr>currentAssignment := currentAssignment st2,
                                   currentPartitionConsumer := currentPartitionConsumer st2\<rparr>
                          else st3)
               in Some (Some (st4\<lparr>currentAssignment :=
                    fold (\<lambda>(id, ass). smap_put id ass) fixedAssignments (currentAssignment st4)\<rparr>)))))"

text \<open>
  \<^verbatim>\<open>prepopulateCurrentAssignments\<close>: \<open>userPartitions\<close> is declared and never filled, so that the loop over it has no round.
\<close>

definition defaultGeneration :: int where "defaultGeneration = - 1"

definition note_consumer :: "bool \<Rightarrow> int \<Rightarrow> bytes \<Rightarrow> topic_t \<Rightarrow>
    (topic_t \<times> (int \<times> bytes) list) list \<Rightarrow> (topic_t \<times> (int \<times> bytes) list) list" where
  "note_consumer hasGen generation memberID part sorted_consumers =
     (let consumers = at_or [] sorted_consumers part;
          consumers' =
            (if consumers = [] then smap_put generation memberID consumers
             else if hasGen
                  then (if map_of consumers generation = None then smap_put generation memberID consumers else consumers)
                  else smap_put defaultGeneration memberID consumers)
      in smap_put part consumers' sorted_consumers)"

definition prepopulateCurrentAssignments :: "members \<Rightarrow> int \<times> assignments \<times> (topic_t \<times> bytes \<times> int) list" where
  "prepopulateCurrentAssignments members =
     (let sorted_consumers =
            fold (\<lambda>(memberID, m_topics) acc.
                    (let userPartitions = []; generation = defaultGeneration; hasGen = False
                     in fold (note_consumer hasGen generation memberID) userPartitions acc)) members [];
          (A, prev) =
            fold (\<lambda>(part, consumers) (A, prev).
                    (let generations = rev (sort (map fst consumers));
                         A' = smap_push (at_or [] consumers (generations ! 0)) [part] A
                     in (A', if length generations > 1
                             then smap_put part (at_or [] consumers (generations ! 1), generations ! 1) prev
                             else prev))) sorted_consumers ([], [])
      in (0, A, prev))"

text \<open>The maps of potential consumers and partitions.\<close>

definition empty_consumers :: "topics \<Rightarrow> potential_consumers" where
  "empty_consumers topics =
     fold (\<lambda>(topic, ps). fold (\<lambda>p. smap_put (topic_t topic p) []) ps) topics []"

definition subscribed_partitions :: "topics \<Rightarrow> bytes list \<Rightarrow> topic_t list" where
  "subscribed_partitions topics m_topics = concat (map (\<lambda>t. map (topic_t t) (entry_of t topics)) m_topics)"

definition potentials :: "members \<Rightarrow> topics \<Rightarrow> potential_partitions \<times> potential_consumers" where
  "potentials members topics =
     fold (\<lambda>(memberID, m_topics) (c2p, p2c).
             (let ps = subscribed_partitions topics m_topics
              in (smap_put memberID ps c2p, fold (\<lambda>tpa. smap_push tpa [memberID]) ps p2c)))
       members ([], empty_consumers topics)"

text \<open>
  Which partitions a member keeps: one whose topic is gone is skipped, one the member does not subscribe to any more
  becomes unassigned.
\<close>

definition keep_partition :: "bytes \<Rightarrow> bytes list \<Rightarrow> potential_consumers \<Rightarrow> topic_t \<Rightarrow>
    topic_t list \<times> topic_t list \<times> topic_t list \<times> (topic_t \<times> bytes) list \<Rightarrow>
    topic_t list \<times> topic_t list \<times> topic_t list \<times> (topic_t \<times> bytes) list" where
  "keep_partition memberID m_topics p2c part = (\<lambda>(keep, unassigned, unvisited, C).
     if map_of p2c part = None then (keep, unassigned, unvisited, C)
     else if m_topic part \<in> set m_topics
          then (keep @ [part], unassigned, remove1 part unvisited, smap_put part memberID C)
          else (keep, unassigned @ [part], remove1 part unvisited, smap_put part memberID C))"

definition keep_partitions :: "members \<Rightarrow> potential_consumers \<Rightarrow> assignments \<Rightarrow>
    assignments \<times> topic_t list \<times> topic_t list \<times> (topic_t \<times> bytes) list" where
  "keep_partitions members p2c A =
     fold (\<lambda>(memberID, ps) (A, unassigned, unvisited, C).
             (let (keep, unassigned', unvisited', C') =
                    fold (keep_partition memberID (entry_of memberID members) p2c) ps ([], unassigned, unvisited, C)
              in (smap_put memberID keep A, unassigned', unvisited', C')))
       A (A, [], map fst p2c, [])"

definition plan_of :: "assignments \<Rightarrow> BalanceStrategyPlan" where
  "plan_of A =
     fold (\<lambda>(memberID, assignments) plan.
             (if assignments = [] then smap_put memberID [] plan
              else fold (\<lambda>part plan. AddToPlan plan memberID (m_topic part) [m_partition part]) assignments plan)) A []"

definition StickyBalanceStrategy_Plan ::
    "members \<Rightarrow> topics \<Rightarrow> BalanceStrategyPlan \<Rightarrow> (int \<times> BalanceStrategyPlan) option option" where
  "StickyBalanceStrategy_Plan members topics plan =
     (if topics = [] then Some (Some (0, []))
      else (let (err, A0, prevAssignment) = prepopulateCurrentAssignments members;
                (c2p, p2c) = potentials members topics;
                A1 = fold (\<lambda>(memberID, _). touch [] memberID) members A0;
                (A, unassigned, unvisited, C) = keep_partitions members p2c A1;
                st = \<lparr>currentAssignment = A, sortedCurrentSubscriptions = sortMemberIDsByPartitionAssignments A,
                      currentPartitionConsumer = C, movements = no_movements\<rparr>
            in map_option (map_option (\<lambda>st'. (0, plan_of (currentAssignment st'))))
                 (balance prevAssignment (sortPartitionsByPotentialConsumerAssignments p2c) (unassigned @ unvisited)
                    c2p p2c st)))"

definition StickyBalanceStrategy_AssignmentData :: "bytes \<Rightarrow> topics \<Rightarrow> int32 \<Rightarrow> int \<times> bytes" where
  "StickyBalanceStrategy_AssignmentData memberID topics generationID = (0, [])"

definition StickyBalanceStrategyName :: string where "StickyBalanceStrategyName = ''sticky''"

end
