(* ===== verification/Sticky_Invariant.thy ===== *)
theory Sticky_Invariant
  imports Sticky_Strategy
begin

text \<open>
  The invariants of the sticky strategy.  \<open>potentials_ok\<close> is what \<open>Plan\<close> establishes for the two maps of potential
  partners, \<open>assigned\<close> relates the containers of an \<open>assignment\<close> to each other, \<open>moved_ok\<close> relates them to the records
  of movements.  Every step of the rebalancing loop keeps them; none of the \<open>at\<close> calls can throw.
\<close>

abbreviation consumers_of :: "potential_consumers \<Rightarrow> topic_t \<Rightarrow> bytes list" where
  "consumers_of p2c p \<equiv> at_or [] p2c p"

abbreviation owner_of :: "assignment \<Rightarrow> topic_t \<Rightarrow> bytes option" where
  "owner_of st \<equiv> map_of (currentPartitionConsumer st)"

abbreviation holds :: "assignment \<Rightarrow> bytes \<Rightarrow> topic_t list" where
  "holds st m \<equiv> entry_of m (currentAssignment st)"

abbreviation active :: "assignment \<Rightarrow> bytes set" where
  "active st \<equiv> fst ` set (currentAssignment st)"

definition potentials_ok :: "potential_partitions \<Rightarrow> potential_consumers \<Rightarrow> bool" where
  "potentials_ok c2p p2c \<longleftrightarrow> smap c2p \<and> smap p2c \<and> [] \<notin> fst ` set c2p \<and>
     (\<forall>m p. p \<in> set (entry_of m c2p) \<longleftrightarrow> m \<in> set (consumers_of p2c p)) \<and>
     (\<forall>p q. p \<in> fst ` set p2c \<longrightarrow> q \<in> fst ` set p2c \<longrightarrow> m_topic p = m_topic q \<longrightarrow>
        set (consumers_of p2c p) = set (consumers_of p2c q))"

definition assigned :: "potential_partitions \<Rightarrow> potential_consumers \<Rightarrow> assignment \<Rightarrow> bool" where
  "assigned c2p p2c st \<longleftrightarrow> smap (currentAssignment st) \<and> active st \<subseteq> fst ` set c2p \<and>
     sortedCurrentSubscriptions st = sortMemberIDsByPartitionAssignments (currentAssignment st) \<and>
     (\<forall>m p. p \<in> set (holds st m) \<longleftrightarrow> m \<in> active st \<and> owner_of st p = Some m) \<and>
     (\<forall>m. distinct (holds st m)) \<and>
     (\<forall>p m. owner_of st p = Some m \<longrightarrow> m \<in> set (consumers_of p2c p)) \<and>
     (\<forall>p. consumers_of p2c p \<noteq> [] \<longrightarrow> owner_of st p \<noteq> None) \<and>
     (\<forall>p. length (consumers_of p2c p) \<ge> 2 \<longrightarrow> set (consumers_of p2c p) \<subseteq> active st)"

definition records_ok :: "PartitionMovements \<Rightarrow> bool" where
  "records_ok mv \<longleftrightarrow> (\<forall>t topicMap pair ps.
     map_of (PartitionMovementsByTopic mv) t = Some topicMap \<longrightarrow> map_of topicMap pair = Some ps \<longrightarrow>
     ps \<noteq> [] \<and> (\<forall>q \<in> fst ` set ps. m_topic q = t \<and> map_of (Movements mv) q = Some pair))"

definition moved_ok :: "assignment \<Rightarrow> bool" where
  "moved_ok st \<longleftrightarrow> records_ok (movements st) \<and>
     (\<forall>p pair. map_of (Movements (movements st)) p = Some pair \<longrightarrow>
        owner_of st p = Some (DstMemberID pair) \<and> SrcMemberID pair \<noteq> DstMemberID pair)"

section \<open>Maps\<close>

lemma at_or_entry: "at_or [] m k = entry_of k m"
  by (simp add: at_or_def entry_of_def)

lemma at_or_Some [simp]: "map_of m k = Some v \<Longrightarrow> at_or d m k = v"
  by (simp add: at_or_def)

lemma smap_delete: "smap m \<Longrightarrow> smap (AList.delete k m)"
  unfolding smap_def AList.delete_eq by (induction m) auto

lemma keys_delete: "fst ` set (AList.delete k m) = fst ` set m - {k}"
  by (auto simp: AList.delete_eq)

lemma smap_entry: "smap m \<Longrightarrow> (k, vs) \<in> set m \<Longrightarrow> entry_of k m = vs"
  by (simp add: entry_of_def map_of_is_SomeI smap_distinct)

lemma map_of_entry: "k \<in> fst ` set m \<Longrightarrow> map_of m k = Some (entry_of k m)"
  by (auto simp: entry_of_def map_of_eq_None_iff split: option.split)

lemma touch_id: "k \<in> fst ` set m \<Longrightarrow> touch d k m = m"
  by (auto simp: touch_def map_of_eq_None_iff)

lemma touch_both_id: "m \<in> active st \<Longrightarrow> m' \<in> active st \<Longrightarrow> touch_both m m' st = st"
  by (simp add: touch_both_def touch_id)

lemma set_sortMembers [simp]: "set (sortMemberIDsByPartitionAssignments A) = fst ` set A"
  by (simp add: sortMemberIDsByPartitionAssignments_def)

text \<open>The first member in the order by load that satisfies \<open>P\<close> has the least load among those.\<close>

lemma sorted_find:
  assumes "find P (sort_key f xs) = Some x" shows "P x \<and> x \<in> set xs \<and> (\<forall>y \<in> set xs. P y \<longrightarrow> f x \<le> f y)"
proof -
  from assms obtain i where i: "i < length (sort_key f xs)" "P (sort_key f xs ! i)" "x = sort_key f xs ! i"
    "\<forall>j < i. \<not> P (sort_key f xs ! j)" by (auto simp: find_Some_iff)
  have "x \<in> set xs" using i(1,3) nth_mem [OF i(1)] by simp
  moreover have "f x \<le> f y" if y: "y \<in> set xs" "P y" for y
  proof -
    from y(1) obtain j where j: "j < length (sort_key f xs)" "sort_key f xs ! j = y"
      by (metis in_set_conv_nth set_sort)
    with y(2) i(4) have "i \<le> j" by (meson not_le)
    then have "map f (sort_key f xs) ! i \<le> map f (sort_key f xs) ! j"
      using j(1) by (intro sorted_nth_mono) simp_all
    then show ?thesis using i j by simp
  qed
  ultimately show ?thesis using i by simp
qed

section \<open>Choosing what to move\<close>

lemma reassign_to_first_find:
  assumes "set ms \<subseteq> fst ` set c2p"
  shows "reassign_to_first c2p p ms st = Some
    (case find (\<lambda>m. p \<in> set (entry_of m c2p)) ms of None \<Rightarrow> st | Some m \<Rightarrow> reassignPartition p m st)"
  using assms
  by (induction ms) (auto simp: map_of_entry memberAssignmentsIncludeTopicPartition_def)

text \<open>\<open>least_loaded\<close>: the member that \<^verbatim>\<open>reassignPartitionToNewConsumer\<close> and \<^verbatim>\<open>assignPartition\<close> pick.\<close>

definition least_loaded :: "potential_consumers \<Rightarrow> assignment \<Rightarrow> topic_t \<Rightarrow> bytes \<Rightarrow> bool" where
  "least_loaded p2c st p n \<longleftrightarrow> n \<in> set (consumers_of p2c p) \<and> n \<in> active st \<and>
     (\<forall>m \<in> set (consumers_of p2c p) \<inter> active st. (length (holds st n), n) \<le> (length (holds st m), m))"

lemma find_least_loaded:
  assumes "potentials_ok c2p p2c" "sortedCurrentSubscriptions st = sortMemberIDsByPartitionAssignments (currentAssignment st)"
    and "set (consumers_of p2c p) \<inter> active st \<noteq> {}"
  obtains n where "find (\<lambda>m. p \<in> set (entry_of m c2p)) (sortedCurrentSubscriptions st) = Some n" "least_loaded p2c st p n"
proof -
  have iff: "p \<in> set (entry_of m c2p) \<longleftrightarrow> m \<in> set (consumers_of p2c p)" for m
    using assms(1) by (simp add: potentials_ok_def)
  let ?P = "\<lambda>m. p \<in> set (entry_of m c2p)"
  show thesis
  proof (cases "find ?P (sortedCurrentSubscriptions st)")
    case None
    then show ?thesis using assms(2,3) iff by (auto simp: find_None_iff)
  next
    case (Some n)
    then have "least_loaded p2c st p n"
      using sorted_find [of ?P "\<lambda>m. (length (holds st m), m)" "map fst (currentAssignment st)" n] assms(2) iff
      unfolding least_loaded_def sortMemberIDsByPartitionAssignments_def by auto
    with Some that show ?thesis by blast
  qed
qed

text \<open>What \<^verbatim>\<open>get_the_actual_partition_to_be_moved\<close> returns.\<close>

lemma actual_partition:
  fixes n :: bytes
  assumes "moved_ok st" "owner_of st p = Some c"
  defines "q \<equiv> get_the_actual_partition_to_be_moved p c n (movements st)"
  shows "q = p \<or> (m_topic q = m_topic p \<and> (\<exists>pair. map_of (Movements (movements st)) q = Some pair \<and> SrcMemberID pair = n))"
proof (cases "map_of (PartitionMovementsByTopic (movements st)) (m_topic p)")
  case (Some topicMap)
  define old where "old = (case map_of (Movements (movements st)) p of None \<Rightarrow> c | Some pair \<Rightarrow> SrcMemberID pair)"
  show ?thesis
  proof (cases "map_of topicMap (consumer_movement n old)")
    case (Some ps)
    have q: "q = fst (hd ps)" using \<open>map_of _ (m_topic p) = _\<close> Some
      by (simp add: q_def get_the_actual_partition_to_be_moved_def old_def)
    have "ps \<noteq> [] \<and> (\<forall>q \<in> fst ` set ps. m_topic q = m_topic p \<and>
        map_of (Movements (movements st)) q = Some (consumer_movement n old))"
      using assms(1) \<open>map_of _ (m_topic p) = _\<close> Some unfolding moved_ok_def records_ok_def by blast
    then show ?thesis using q by auto
  qed (use Some in \<open>simp add: q_def get_the_actual_partition_to_be_moved_def old_def\<close>)
qed (simp add: q_def get_the_actual_partition_to_be_moved_def)


section \<open>A move keeps the invariants\<close>

definition moved_to :: "topic_t \<Rightarrow> bytes \<Rightarrow> assignment \<Rightarrow> assignment \<Rightarrow> bool" where
  "moved_to q n st st' \<longleftrightarrow> owner_of st' = (owner_of st)(q \<mapsto> n) \<and> active st' = active st \<and> n \<in> active st \<and>
     (\<exists>old \<in> active st - {n}. owner_of st q = Some old) \<and>
     (\<forall>old. owner_of st q = Some old \<longrightarrow> (\<forall>m. length (holds st' m) =
        (if m = n then Suc (length (holds st m)) else if m = old then length (holds st m) - 1 else length (holds st m))))"

lemma assigned_move:
  assumes inv: "assigned c2p p2c st" and q: "owner_of st q = Some old" "old \<in> active st"
    and n: "n \<in> active st" "n \<in> set (consumers_of p2c q)" "n \<noteq> old"
  shows "assigned c2p p2c (processPartitionMovement q n st)" "moved_to q n st (processPartitionMovement q n st)"
proof -
  let ?st = "processPartitionMovement q n st"
  have held: "q \<in> set (holds st m) \<longleftrightarrow> m = old" for m
    using inv q unfolding assigned_def by auto
  have A: "currentAssignment ?st =
      smap_push n [q] (smap_put old (remove1 q (holds st old)) (currentAssignment st))"
    and C: "currentPartitionConsumer ?st = smap_put q n (currentPartitionConsumer st)"
    using q(1) by (simp_all add: processPartitionMovement_def Let_def removeTopicPartitionFromMemberAssignments_def)
  have act: "active ?st = active st" using n(1) q(2) by (auto simp: A dom_smap_push set_smap_put)
  have H: "holds ?st m = (if m = n then holds st n @ [q] else if m = old then remove1 q (holds st old) else holds st m)" for m
    using n(3) by (simp add: A entry_of_smap_put)
  have dist: "distinct (holds st m)" for m using inv by (simp add: assigned_def)
  have mem: "p \<in> set (holds ?st m) \<longleftrightarrow> m \<in> active ?st \<and> owner_of ?st p = Some m" for p m
    using inv n held dist q unfolding act H C assigned_def by (auto simp: set_remove1_eq)
  have own: "owner_of ?st p = Some m \<Longrightarrow> m \<in> set (consumers_of p2c p)" for p m
    using inv n(2) unfolding C assigned_def by (auto split: if_splits)
  have "smap (currentAssignment ?st)"
    unfolding A using inv by (simp add: assigned_def smap_smap_push smap_smap_put)
  moreover have "sortedCurrentSubscriptions ?st = sortMemberIDsByPartitionAssignments (currentAssignment ?st)"
    by (simp add: processPartitionMovement_def Let_def)
  moreover have "distinct (holds ?st m)" for m using dist held n(3) by (auto simp: H)
  moreover have "owner_of ?st p \<noteq> None" if "consumers_of p2c p \<noteq> []" for p
    using inv that unfolding C assigned_def by auto
  moreover have "active ?st \<subseteq> fst ` set c2p" "2 \<le> length (consumers_of p2c p) \<Longrightarrow> set (consumers_of p2c p) \<subseteq> active ?st" for p
    unfolding act using inv unfolding assigned_def by blast+
  ultimately show "assigned c2p p2c ?st" using mem own unfolding assigned_def by blast
  have "length (remove1 q (holds st old)) = length (holds st old) - 1" using held by (simp add: length_remove1)
  then show "moved_to q n st ?st"
    unfolding moved_to_def using act q n(1,3) by (auto simp: H C)
qed

lemma records_okD:
  "records_ok mv \<Longrightarrow> map_of (PartitionMovementsByTopic mv) t = Some topicMap \<Longrightarrow> map_of topicMap pair = Some ps \<Longrightarrow>
   ps \<noteq> [] \<and> (\<forall>q \<in> fst ` set ps. m_topic q = t \<and> map_of (Movements mv) q = Some pair)"
  unfolding records_ok_def by blast

lemma records_removed:
  assumes ok: "records_ok mv" and pr: "map_of (Movements mv) q = Some pair"
  defines "mv' \<equiv> snd (remove_movement_record_of_partition q mv)"
  shows "fst (remove_movement_record_of_partition q mv) = pair" "Movements mv' = AList.delete q (Movements mv)" "records_ok mv'"
proof -
  show "fst (remove_movement_record_of_partition q mv) = pair" and M': "Movements mv' = AList.delete q (Movements mv)"
    using pr by (simp_all add: mv'_def remove_movement_record_of_partition_def Let_def)
  define B where "B = PartitionMovementsByTopic mv"
  define old where "old = at_or [] B (m_topic q)"
  define parts where "parts = AList.delete q (at_or [] old pair)"
  define new where "new = (if parts = [] then AList.delete pair old else smap_put pair parts old)"
  have B': "PartitionMovementsByTopic mv' = (if new = [] then AList.delete (m_topic q) B else smap_put (m_topic q) new B)"
    using pr by (simp add: mv'_def remove_movement_record_of_partition_def Let_def B_def old_def parts_def new_def)
  note okD = records_okD [OF ok, folded B_def]
  have rest: "ps \<noteq> [] \<and> (\<forall>q' \<in> fst ` set ps. m_topic q' = t \<and> q' \<noteq> q \<and> map_of (Movements mv) q' = Some pair')"
    if t: "map_of (PartitionMovementsByTopic mv') t = Some topicMap" and ps: "map_of topicMap pair' = Some ps"
    for t topicMap pair' ps
  proof (cases "t = m_topic q")
    case False
    then have "map_of B t = Some topicMap" using t by (auto simp: B' AList.delete_conv split: if_splits)
    from okD [OF this ps] show ?thesis using False by auto
  next
    case True
    then have tm: "topicMap = new" using t by (auto simp: B' AList.delete_conv split: if_splits)
    have oldok: "ps' \<noteq> [] \<and> (\<forall>q' \<in> fst ` set ps'. m_topic q' = t \<and> map_of (Movements mv) q' = Some pair'')"
      if "map_of old pair'' = Some ps'" for pair'' ps'
    proof (cases "map_of B t")
      case None
      then have "old = []" by (simp add: old_def at_or_def True)
      with that show ?thesis by simp
    next
      case (Some tm)
      then have "old = tm" by (simp add: old_def at_or_def True)
      with okD [OF Some] that show ?thesis by blast
    qed
    show ?thesis
    proof (cases "pair' = pair")
      case False
      then have "map_of old pair' = Some ps" using ps tm by (auto simp: new_def AList.delete_conv split: if_splits)
      from oldok [OF this] show ?thesis using pr False by auto
    next
      case True
      then have p: "ps = parts" "parts \<noteq> []" using ps tm by (auto simp: new_def AList.delete_conv split: if_splits)
      have keys: "fst ` set parts = fst ` set (at_or [] old pair) - {q}" by (simp add: parts_def keys_delete)
      have "map_of old pair = Some (at_or [] old pair)"
        using p by (cases "map_of old pair") (auto simp: parts_def at_or_def)
      from oldok [OF this] show ?thesis unfolding p(1) True using p(2) keys by blast
    qed
  qed
  show "records_ok mv'"
    unfolding records_ok_def M' using rest by (fastforce simp: AList.delete_conv)
qed

lemma records_added:
  assumes ok: "records_ok mv" and fresh: "map_of (Movements mv) q = None"
  shows "records_ok (add_partition_movement_record q pair mv)"
proof -
  let ?mv' = "add_partition_movement_record q pair mv"
  define B where "B = PartitionMovementsByTopic mv"
  define old where "old = at_or [] B (m_topic q)"
  define new where "new = smap_put pair (smap_put q True (at_or [] old pair)) old"
  have B': "PartitionMovementsByTopic ?mv' = smap_put (m_topic q) new B"
    and M': "Movements ?mv' = smap_put q pair (Movements mv)"
    by (simp_all add: add_partition_movement_record_def Let_def B_def old_def new_def)
  note okD = records_okD [OF ok, folded B_def]
  have oldok: "ps \<noteq> [] \<and> (\<forall>q' \<in> fst ` set ps. m_topic q' = m_topic q \<and> map_of (Movements mv) q' = Some pair')"
    if "map_of old pair' = Some ps" for pair' ps
    using okD [of "m_topic q" old pair' ps] that by (cases "map_of B (m_topic q)") (simp_all add: old_def at_or_def)
  have rest: "ps \<noteq> [] \<and> (\<forall>q' \<in> fst ` set ps. m_topic q' = t \<and> map_of (Movements ?mv') q' = Some pair')"
    if t: "map_of (PartitionMovementsByTopic ?mv') t = Some topicMap" and ps: "map_of topicMap pair' = Some ps"
    for t topicMap pair' ps
  proof (cases "t = m_topic q")
    case False
    then have "map_of B t = Some topicMap" using t by (simp add: B')
    from okD [OF this ps] show ?thesis using False fresh by (auto simp: M')
  next
    case True
    then have tm: "topicMap = new" using t by (simp add: B')
    show ?thesis
    proof (cases "pair' = pair")
      case False
      then have "map_of old pair' = Some ps" using ps tm by (simp add: new_def)
      from oldok [OF this] show ?thesis using True fresh by (auto simp: M')
    next
      case same: True
      have ps': "ps = smap_put q True (at_or [] old pair)" using ps tm same by (simp add: new_def)
      have "\<forall>q' \<in> fst ` set (at_or [] old pair). m_topic q' = m_topic q \<and> map_of (Movements mv) q' = Some pair"
        using oldok [of pair] by (cases "map_of old pair") (auto simp: at_or_def)
      moreover have "ps \<noteq> []" unfolding ps' using set_smap_put [of q True "at_or [] old pair"] by (metis empty_iff empty_set image_is_empty insertI1)
      ultimately show ?thesis unfolding M' using True same fresh by (auto simp: ps' set_smap_put)
    qed
  qed
  then show ?thesis unfolding records_ok_def by blast
qed

lemma moved_ok_move:
  assumes ok: "moved_ok st" and q: "owner_of st q = Some old" and n: "n \<noteq> old"
  shows "moved_ok (processPartitionMovement q n st)"
proof -
  let ?st = "processPartitionMovement q n st" and ?mv = "movements st"
  have C: "owner_of ?st = (owner_of st)(q \<mapsto> n)" and M: "movements ?st = move_partition q old n ?mv"
    using q by (simp_all add: processPartitionMovement_def Let_def)
  have recs: "records_ok ?mv" and pairs: "\<And>p pair. map_of (Movements ?mv) p = Some pair \<Longrightarrow>
      owner_of st p = Some (DstMemberID pair) \<and> SrcMemberID pair \<noteq> DstMemberID pair"
    using ok by (simp_all add: moved_ok_def)
  show ?thesis
  proof (cases "map_of (Movements ?mv) q")
    case None
    then have "movements ?st = add_partition_movement_record q (consumer_movement old n) ?mv"
      by (simp add: M move_partition_def)
    moreover have "Movements (add_partition_movement_record q (consumer_movement old n) ?mv) =
        smap_put q (consumer_movement old n) (Movements ?mv)"
      by (simp add: add_partition_movement_record_def Let_def)
    ultimately show ?thesis
      unfolding moved_ok_def C using records_added [OF recs None] pairs n by auto
  next
    case (Some pair)
    note rm = records_removed [OF recs Some]
    let ?mv' = "snd (remove_movement_record_of_partition q ?mv)"
    have none: "map_of (Movements ?mv') q = None" by (simp add: rm(2) AList.delete_conv)
    have M': "movements ?st = (if SrcMemberID pair \<noteq> n
        then add_partition_movement_record q (consumer_movement (SrcMemberID pair) n) ?mv' else ?mv')"
      using Some rm(1) by (simp add: M move_partition_def case_prod_unfold)
    have "Movements (add_partition_movement_record q pr ?mv') = smap_put q pr (Movements ?mv')" for pr
      by (simp add: add_partition_movement_record_def Let_def)
    then show ?thesis
      unfolding moved_ok_def C M' using records_added [OF rm(3) none] rm(2,3) pairs n
      by (auto simp: AList.delete_conv split: if_splits)
  qed
qed

section \<open>One round of the loop\<close>

definition sticky_inv :: "potential_partitions \<Rightarrow> potential_consumers \<Rightarrow> assignment \<Rightarrow> bool" where
  "sticky_inv c2p p2c st \<longleftrightarrow> assigned c2p p2c st \<and> moved_ok st"

text \<open>\<open>overfull\<close>: the owner of the partition has at least two partitions more than another consumer of it.\<close>

definition overfull :: "potential_consumers \<Rightarrow> assignment \<Rightarrow> topic_t \<Rightarrow> bool" where
  "overfull p2c st p \<longleftrightarrow>
     (\<exists>c. owner_of st p = Some c \<and> (\<exists>m \<in> set (consumers_of p2c p). much_larger c m st))"

lemma try_others_eq:
  assumes "c \<in> active st" "set ms \<subseteq> active st"
  shows "try_others c2p p c ms st =
    (if \<exists>m \<in> set ms. much_larger c m st then map_option (Pair True) (reassignPartitionToNewConsumer c2p p st)
     else Some (False, st))"
  using assms by (induction ms) (auto simp: touch_both_id Let_def)

lemma consumers_key: "m \<in> set (consumers_of p2c p) \<Longrightarrow> p \<in> fst ` set p2c"
  by (cases "map_of p2c p") (auto simp: at_or_def dest!: map_of_SomeD intro: rev_image_eqI)

lemma consumer_subscribed: "potentials_ok c2p p2c \<Longrightarrow> m \<in> set (consumers_of p2c p) \<Longrightarrow> m \<in> fst ` set c2p \<and> m \<noteq> []"
proof -
  assume pot: "potentials_ok c2p p2c" and m: "m \<in> set (consumers_of p2c p)"
  have "p \<in> set (entry_of m c2p)" using pot m by (simp add: potentials_ok_def)
  then have "m \<in> fst ` set c2p"
    by (cases "map_of c2p m") (auto simp: entry_of_def dest!: map_of_SomeD intro: rev_image_eqI)
  with pot show ?thesis unfolding potentials_ok_def by blast
qed

lemma movable:
  assumes "potentials_ok c2p p2c" "assigned c2p p2c st" "2 \<le> length (consumers_of p2c p)"
  obtains c where "owner_of st p = Some c" "c \<in> set (consumers_of p2c p)" "set (consumers_of p2c p) \<subseteq> active st"
proof -
  have ne: "consumers_of p2c p \<noteq> []" using assms(3) by auto
  have "owner_of st p \<noteq> None" using assms(2) ne unfolding assigned_def by blast
  then obtain c where c: "owner_of st p = Some c" by auto
  have "c \<in> set (consumers_of p2c p)" "set (consumers_of p2c p) \<subseteq> active st"
    using assms(2,3) c unfolding assigned_def by blast+
  with c that show thesis by blast
qed

lemma reassign_one_cases:
  assumes pot: "potentials_ok c2p p2c" and inv: "sticky_inv c2p p2c st" and two: "2 \<le> length (consumers_of p2c p)"
  shows "\<not> overfull p2c st p \<Longrightarrow> reassign_one [] c2p p2c p st = Some (False, st)"
    and "overfull p2c st p \<Longrightarrow> \<exists>c n q. owner_of st p = Some c \<and> least_loaded p2c st p n \<and>
      q = get_the_actual_partition_to_be_moved p c n (movements st) \<and>
      reassign_one [] c2p p2c p st = Some (True, processPartitionMovement q n st) \<and>
      sticky_inv c2p p2c (processPartitionMovement q n st) \<and> moved_to q n st (processPartitionMovement q n st)"
proof -
  have as: "assigned c2p p2c st" and mo: "moved_ok st" using inv by (simp_all add: sticky_inv_def)
  obtain c where c: "owner_of st p = Some c" "c \<in> set (consumers_of p2c p)" and act: "set (consumers_of p2c p) \<subseteq> active st"
    by (rule movable [OF pot as two])
  have cne: "c \<noteq> []" using consumer_subscribed [OF pot c(2)] by blast
  obtain ms where pk: "map_of p2c p = Some ms" using two by (cases "map_of p2c p") (auto simp: at_or_def)
  have ca: "c \<in> active st" using c(2) act by blast
  have one: "reassign_one [] c2p p2c p st =
      (if overfull p2c st p then map_option (Pair True) (reassignPartitionToNewConsumer c2p p st) else Some (False, st))"
  proof -
    have "touch [] p (currentPartitionConsumer st) = currentPartitionConsumer st" using c(1) by (simp add: touch_def)
    then have "reassign_one [] c2p p2c p st = try_others c2p p c ms st"
      using c(1) pk two cne by (simp add: reassign_one_def Let_def)
    moreover have "overfull p2c st p \<longleftrightarrow> (\<exists>m \<in> set ms. much_larger c m st)" using c(1) pk by (simp add: overfull_def)
    ultimately show ?thesis using try_others_eq [OF ca, of ms c2p p] act pk by simp
  qed
  show "\<not> overfull p2c st p \<Longrightarrow> reassign_one [] c2p p2c p st = Some (False, st)" using one by simp
  assume over: "overfull p2c st p"
  then obtain m where m: "m \<in> set (consumers_of p2c p)" "much_larger c m st" using c(1) by (auto simp: overfull_def)
  have sorted: "sortedCurrentSubscriptions st = sortMemberIDsByPartitionAssignments (currentAssignment st)"
    and sub: "active st \<subseteq> fst ` set c2p" using as by (simp_all add: assigned_def)
  have "set (consumers_of p2c p) \<inter> active st \<noteq> {}" using m(1) act by blast
  then obtain n where n: "find (\<lambda>m. p \<in> set (entry_of m c2p)) (sortedCurrentSubscriptions st) = Some n"
    and ll: "least_loaded p2c st p n" using find_least_loaded [OF pot sorted] by blast
  define q where "q = get_the_actual_partition_to_be_moved p c n (movements st)"
  have step: "reassign_one [] c2p p2c p st = Some (True, processPartitionMovement q n st)"
    using one over n c(1) sub reassign_to_first_find [of "sortedCurrentSubscriptions st" c2p p st]
    by (simp add: reassignPartitionToNewConsumer_def reassignPartition_def Let_def q_def sorted)
  have "(length (holds st n), n) \<le> (length (holds st m), m)"
    using ll m(1) act unfolding least_loaded_def by blast
  then have "length (holds st n) \<le> length (holds st m)" by auto
  with m(2) have nc: "n \<noteq> c" by (auto simp: much_larger_def)
  have n_in: "n \<in> set (consumers_of p2c p)" "n \<in> active st" using ll by (simp_all add: least_loaded_def)
  obtain old where q: "owner_of st q = Some old" "old \<in> active st" "n \<in> set (consumers_of p2c q)" "n \<noteq> old"
  proof (cases "q = p")
    case True
    then show ?thesis using that c(1) ca n_in(1) nc by blast
  next
    case False
    with actual_partition [OF mo c(1), of n] obtain pair where pair: "m_topic q = m_topic p"
      "map_of (Movements (movements st)) q = Some pair" "SrcMemberID pair = n" by (auto simp: q_def)
    then have old: "owner_of st q = Some (DstMemberID pair)" "n \<noteq> DstMemberID pair" using mo unfolding moved_ok_def by blast+
    have "DstMemberID pair \<in> set (consumers_of p2c q)" using as old(1) unfolding assigned_def by blast
    moreover have "set (consumers_of p2c q) = set (consumers_of p2c p)"
      using pot pair(1) consumers_key [OF calculation] consumers_key [OF c(2)] unfolding potentials_ok_def by blast
    ultimately show ?thesis using that old n_in(1) act by blast
  qed
  have "sticky_inv c2p p2c (processPartitionMovement q n st)" "moved_to q n st (processPartitionMovement q n st)"
    using assigned_move [OF as q(1,2) n_in(2) q(3,4)] moved_ok_move [OF mo q(1,4)] by (simp_all add: sticky_inv_def)
  with step ll c(1) q_def show "\<exists>c n q. owner_of st p = Some c \<and> least_loaded p2c st p n \<and>
      q = get_the_actual_partition_to_be_moved p c n (movements st) \<and>
      reassign_one [] c2p p2c p st = Some (True, processPartitionMovement q n st) \<and>
      sticky_inv c2p p2c (processPartitionMovement q n st) \<and> moved_to q n st (processPartitionMovement q n st)" by blast
qed

section \<open>The test for balance\<close>

lemma map_of_fold_put: "map_of (fold (\<lambda>part. smap_put part m) ps acc) p = (if p \<in> set ps then Some m else map_of acc p)"
  by (induction ps arbitrary: acc) auto

lemma owners_fold:
  assumes "\<forall>e \<in> set A. p \<in> set (snd e) \<longrightarrow> fst e = m"
    and "(\<exists>e \<in> set A. p \<in> set (snd e)) \<or> map_of acc p = Some m"
  shows "map_of (fold (\<lambda>(memberID, ps). fold (\<lambda>part. smap_put part memberID) ps) A acc) p = Some m"
  using assms by (induction A arbitrary: acc) (auto simp: map_of_fold_put split: if_splits)

lemma owners_of:
  assumes "assigned c2p p2c st" "owner_of st p = Some m" "m \<in> active st"
  shows "map_of (owners (currentAssignment st)) p = Some m"
proof -
  have sm: "smap (currentAssignment st)" and h: "\<And>m p. p \<in> set (holds st m) \<longleftrightarrow> m \<in> active st \<and> owner_of st p = Some m"
    using assms(1) by (simp_all add: assigned_def)
  have "fst e = m" if "e \<in> set (currentAssignment st)" "p \<in> set (snd e)" for e
    using that h [of p "fst e"] smap_entry [OF sm, of "fst e" "snd e"] assms(2) by auto
  moreover have "\<exists>e \<in> set (currentAssignment st). p \<in> set (snd e)"
    using assms(2,3) h [of p m] smap_entry [OF sm, of m] by force
  ultimately show ?thesis unfolding owners_def by (intro owners_fold) auto
qed

lemma balanced_partitions_eq:
  assumes "\<forall>part \<in> set ps. part \<notin> set cp \<longrightarrow> map_of own part = Some (f part) \<and> f part \<in> fst ` set A"
  shows "balanced_partitions ps cp own A = Some (\<forall>part \<in> set ps. part \<notin> set cp \<longrightarrow> length (entry_of (f part) A) \<le> length cp)"
  using assms by (induction ps) (auto simp: map_of_entry not_less)

lemma balanced_members_eq:
  assumes "\<forall>m \<in> set ms. m \<in> fst ` set A \<and> m \<in> fst ` set c2p"
    and "\<forall>m \<in> set ms. \<forall>part \<in> set (entry_of m c2p). part \<notin> set (entry_of m A) \<longrightarrow>
      map_of own part = Some (f part) \<and> f part \<in> fst ` set A"
  shows "balanced_members ms own A c2p = Some (\<forall>m \<in> set ms. length (entry_of m A) = length (entry_of m c2p) \<or>
    (\<forall>part \<in> set (entry_of m c2p). part \<notin> set (entry_of m A) \<longrightarrow> length (entry_of (f part) A) \<le> length (entry_of m A)))"
  using assms
proof (induction ms)
  case (Cons m ms)
  have "balanced_partitions (entry_of m c2p) (entry_of m A) own A = Some (\<forall>part \<in> set (entry_of m c2p).
      part \<notin> set (entry_of m A) \<longrightarrow> length (entry_of (f part) A) \<le> length (entry_of m A))"
    using Cons.prems(2) by (intro balanced_partitions_eq) auto
  then show ?case using Cons by (auto simp: map_of_entry split: bool.split)
qed simp

text \<open>The first and the last member in the order by load.\<close>

lemma sorted_ends:
  assumes "m \<in> fst ` set A"
  shows "length (entry_of (hd (sortMemberIDsByPartitionAssignments A)) A) \<le> length (entry_of m A)"
    and "length (entry_of m A) \<le> length (entry_of (last (sortMemberIDsByPartitionAssignments A)) A)"
proof -
  let ?f = "\<lambda>m. (length (entry_of m A), m)"
  let ?S = "sort_key ?f (map fst A)"
  have m: "m \<in> set ?S" using assms by simp
  then obtain i where i: "i < length ?S" "?S ! i = m" unfolding in_set_conv_nth by blast
  have sorted: "sorted (map ?f ?S)" by (rule sorted_sort_key)
  have l: "0 < length ?S" "length ?S - 1 < length ?S" "i \<le> length ?S - 1" using i(1) by linarith+
  have "map ?f ?S ! 0 \<le> map ?f ?S ! i" "map ?f ?S ! i \<le> map ?f ?S ! (length ?S - 1)"
    using i(1) l by (intro sorted_nth_mono [OF sorted]; simp)+
  then have "?f (?S ! 0) \<le> ?f m" "?f m \<le> ?f (?S ! (length ?S - 1))"
    unfolding nth_map [OF l(1)] nth_map [OF l(2)] nth_map [OF i(1)] i(2) .
  moreover have "?S \<noteq> []" using m by (metis empty_iff list.set(1))
  ultimately show "length (entry_of (hd (sortMemberIDsByPartitionAssignments A)) A) \<le> length (entry_of m A)"
    "length (entry_of m A) \<le> length (entry_of (last (sortMemberIDsByPartitionAssignments A)) A)"
    by (auto simp: sortMemberIDsByPartitionAssignments_def hd_conv_nth last_conv_nth)
qed

lemma held_subscribed:
  assumes "potentials_ok c2p p2c" "assigned c2p p2c st" shows "set (holds st m) \<subseteq> set (entry_of m c2p)"
  using assms unfolding potentials_ok_def assigned_def by blast

lemma isBalanced_total:
  assumes pot: "potentials_ok c2p p2c" and as: "assigned c2p p2c st"
  obtains b where "isBalanced (currentAssignment st) c2p = Some b" "\<And>p. b \<Longrightarrow> \<not> overfull p2c st p"
proof -
  let ?A = "currentAssignment st" and ?size = "\<lambda>m. length (holds st m)"
  have h: "\<And>m p. p \<in> set (holds st m) \<longleftrightarrow> m \<in> active st \<and> owner_of st p = Some m"
    and dist: "\<And>m. distinct (holds st m)" and sub: "active st \<subseteq> fst ` set c2p"
    and consumer: "\<And>p m. owner_of st p = Some m \<Longrightarrow> m \<in> set (consumers_of p2c p)"
    and owned: "\<And>p. consumers_of p2c p \<noteq> [] \<Longrightarrow> owner_of st p \<noteq> None"
    and all_active: "\<And>p. 2 \<le> length (consumers_of p2c p) \<Longrightarrow> set (consumers_of p2c p) \<subseteq> active st"
    using as by (simp_all add: assigned_def)
  have two: "2 \<le> length (consumers_of p2c p)"
    if "m \<in> set (consumers_of p2c p)" "m' \<in> set (consumers_of p2c p)" "m \<noteq> m'" for m m' p
  proof (rule ccontr)
    assume "\<not> 2 \<le> length (consumers_of p2c p)"
    then have "length (consumers_of p2c p) \<le> 1" by simp
    then have "card (set (consumers_of p2c p)) \<le> 1" using card_length le_trans by blast
    with that show False by (metis List.finite_set card_le_Suc0_iff_eq One_nat_def)
  qed
  have other: "\<exists>c. owner_of st p = Some c \<and> c \<in> active st"
    if m: "m \<in> active st" "p \<in> set (entry_of m c2p)" "p \<notin> set (holds st m)" for m p
  proof -
    have mc: "m \<in> set (consumers_of p2c p)" using pot m(2) by (simp add: potentials_ok_def)
    then have "consumers_of p2c p \<noteq> []" by auto
    then obtain c where c: "owner_of st p = Some c" using owned by blast
    have "m \<noteq> c" using h m c by auto
    from all_active [OF two [OF mc consumer [OF c] this]] consumer [OF c] c show ?thesis by blast
  qed
  define own where "own = (\<lambda>p. the (owner_of st p))"
  have own: "map_of (owners ?A) p = Some (own p) \<and> own p \<in> fst ` set ?A"
    if "m \<in> active st" "p \<in> set (entry_of m c2p)" "p \<notin> set (holds st m)" for m p
  proof -
    from other [OF that] obtain c where c: "owner_of st p = Some c" "c \<in> active st" by blast
    have "own p = c" using c(1) by (simp add: own_def)
    with owners_of [OF as c] c(2) show ?thesis by simp
  qed
  define lb where "lb \<longleftrightarrow> (\<forall>m \<in> active st. ?size m = length (entry_of m c2p) \<or>
      (\<forall>part \<in> set (entry_of m c2p). part \<notin> set (holds st m) \<longrightarrow> ?size (own part) \<le> ?size m))"
  have lb: "balanced_members (sortMemberIDsByPartitionAssignments ?A) (owners ?A) ?A c2p = Some lb"
  proof -
    have "\<forall>m \<in> set (sortMemberIDsByPartitionAssignments ?A). m \<in> active st \<and> m \<in> fst ` set c2p" using sub by auto
    moreover have "\<forall>m \<in> set (sortMemberIDsByPartitionAssignments ?A). \<forall>part \<in> set (entry_of m c2p).
        part \<notin> set (holds st m) \<longrightarrow> map_of (owners ?A) part = Some (own part) \<and> own part \<in> active st"
      using own by (simp only: set_sortMembers) blast
    ultimately show ?thesis using balanced_members_eq [of _ ?A c2p "owners ?A" own] by (simp only: lb_def set_sortMembers)
  qed
  have lb_ok: "\<not> overfull p2c st p" if lb for p
  proof
    assume "overfull p2c st p"
    then obtain c m where c: "owner_of st p = Some c" and m: "m \<in> set (consumers_of p2c p)" "much_larger c m st"
      by (auto simp: overfull_def)
    have cm: "c \<noteq> m" using m(2) by (auto simp: much_larger_def)
    note act = all_active [OF two [OF consumer [OF c] m(1) cm]]
    have p: "p \<in> set (entry_of m c2p)" "p \<notin> set (holds st m)"
      using pot m(1) h c cm by (auto simp: potentials_ok_def)
    have "set (holds st m) \<subset> set (entry_of m c2p)" using p held_subscribed [OF pot as] by blast
    then have "card (set (holds st m)) < card (set (entry_of m c2p))" by (intro psubset_card_mono) simp_all
    then have "?size m < length (entry_of m c2p)"
      using distinct_card [OF dist, of m] card_length [of "entry_of m c2p"] by simp
    then have "?size (own p) \<le> ?size m" using \<open>lb\<close> p m(1) act unfolding lb_def by fastforce
    then show False using m(2) c by (simp add: much_larger_def own_def)
  qed
  have ends_ok: "\<not> overfull p2c st p"
    if "int (?size (hd (sortMemberIDsByPartitionAssignments ?A))) \<ge> int (?size (last (sortMemberIDsByPartitionAssignments ?A))) - 1" for p
  proof
    assume "overfull p2c st p"
    then obtain c m where c: "owner_of st p = Some c" and m: "m \<in> set (consumers_of p2c p)" "much_larger c m st"
      by (auto simp: overfull_def)
    have "c \<noteq> m" using m(2) by (auto simp: much_larger_def)
    from all_active [OF two [OF consumer [OF c] m(1) this]] have "c \<in> active st" "m \<in> active st"
      using consumer [OF c] m(1) by blast+
    then show False using sorted_ends [of m ?A] sorted_ends [of c ?A] that m(2) by (simp add: much_larger_def)
  qed
  have empty_ok: "\<not> overfull p2c st p" if "?A = []" for p
    using that by (auto simp: overfull_def much_larger_def)
  consider (empty) "?A = []"
    | (ends) "?A \<noteq> []" "int (?size (hd (sortMemberIDsByPartitionAssignments ?A))) \<ge>
        int (?size (last (sortMemberIDsByPartitionAssignments ?A))) - 1"
    | (members) "?A \<noteq> []" "\<not> int (?size (hd (sortMemberIDsByPartitionAssignments ?A))) \<ge>
        int (?size (last (sortMemberIDsByPartitionAssignments ?A))) - 1" by blast
  then show thesis
  proof cases
    case empty
    then show ?thesis using that [of True] empty_ok by (simp add: isBalanced_def)
  next
    case ends
    then have "isBalanced ?A c2p = Some True" by (simp add: isBalanced_def Let_def)
    then show ?thesis using that [of True] ends_ok [OF ends(2)] by simp
  next
    case members
    then have "isBalanced ?A c2p = Some lb" using lb by (simp add: isBalanced_def Let_def)
    then show ?thesis using that [of lb] lb_ok by simp
  qed
qed

end
