(* ===== verification/Sticky_Loop.thy ===== *)
theory Sticky_Loop
  imports Sticky_Invariant
begin

text \<open>
  The rebalancing loop.  A pass never throws and keeps the invariant; a pass that moves nothing has found no partition
  whose owner has two partitions more than another consumer.  So whenever the loop returns, its result is balanced.
\<close>

text \<open>\<open>keeps\<close>: the members taking part are the same, and the partitions of the others stay.\<close>

definition keeps :: "assignment \<Rightarrow> assignment \<Rightarrow> bool" where
  "keeps st st' \<longleftrightarrow> active st' = active st \<and>
     (\<forall>p m. m \<notin> active st \<longrightarrow> (owner_of st' p = Some m \<longleftrightarrow> owner_of st p = Some m))"

lemma keeps_refl [simp]: "keeps st st"
  by (simp add: keeps_def)

lemma keeps_trans: "keeps st st' \<Longrightarrow> keeps st' st'' \<Longrightarrow> keeps st st''"
  unfolding keeps_def by simp

lemma keeps_moved: "moved_to q n st st' \<Longrightarrow> keeps st st'"
proof -
  assume moved: "moved_to q n st st'"
  then obtain old where "n \<in> active st" "old \<in> active st" "owner_of st q = Some old"
    unfolding moved_to_def by blast
  moreover have "owner_of st' = (owner_of st)(q \<mapsto> n)" "active st' = active st" using moved by (simp_all add: moved_to_def)
  ultimately show ?thesis unfolding keeps_def by (metis map_upd_Some_unfold option.inject)
qed

section \<open>One pass\<close>

lemma reassign_pass_total:
  assumes pot: "potentials_ok c2p p2c" and inv: "sticky_inv c2p p2c st"
    and two: "\<forall>p \<in> set ps. 2 \<le> length (consumers_of p2c p)"
  shows "\<exists>modified' st'. reassign_pass [] c2p p2c ps modified st = Some (modified', st') \<and>
    sticky_inv c2p p2c st' \<and> keeps st st' \<and> (modified \<longrightarrow> modified') \<and>
    (\<not> modified' \<longrightarrow> st' = st \<and> (\<forall>p \<in> set ps. \<not> overfull p2c st p))"
  using inv two
proof (induction ps arbitrary: modified st)
  case (Cons p ps)
  have "assigned c2p p2c st" using Cons.prems(1) by (simp add: sticky_inv_def)
  then obtain b where b: "isBalanced (currentAssignment st) c2p = Some b" "\<And>p. b \<Longrightarrow> \<not> overfull p2c st p"
    using isBalanced_total [OF pot] by blast
  show ?case
  proof (cases b)
    case True
    then show ?thesis using b Cons.prems by simp
  next
    case False
    have two: "2 \<le> length (consumers_of p2c p)" using Cons.prems(2) by simp
    have rest: "\<forall>p \<in> set ps. 2 \<le> length (consumers_of p2c p)" using Cons.prems(2) by simp
    note one = reassign_one_cases [OF pot Cons.prems(1) two]
    show ?thesis
    proof (cases "overfull p2c st p")
      case True
      with one(2) obtain n q where step:
          "reassign_one [] c2p p2c p st = Some (True, processPartitionMovement q n st)"
          "sticky_inv c2p p2c (processPartitionMovement q n st)" "moved_to q n st (processPartitionMovement q n st)" by blast
      from Cons.IH [OF step(2) rest, of True] obtain st' where st':
          "reassign_pass [] c2p p2c ps True (processPartitionMovement q n st) = Some (True, st')"
          "sticky_inv c2p p2c st'" "keeps (processPartitionMovement q n st) st'" by (elim exE conjE) simp
      have "reassign_pass [] c2p p2c (p # ps) modified st = Some (True, st')"
        using b(1) False step(1) st'(1) by simp
      with st'(2) keeps_trans [OF keeps_moved [OF step(3)] st'(3)] show ?thesis by blast
    next
      case no: False
      then have "reassign_pass [] c2p p2c (p # ps) modified st = reassign_pass [] c2p p2c ps modified st"
        using b(1) False one(1) by simp
      with Cons.IH [OF Cons.prems(1) rest, of modified] no show ?thesis by auto
    qed
  qed
qed simp

lemma reassign_pass_balanced:
  assumes pot: "potentials_ok c2p p2c" and inv: "sticky_inv c2p p2c st"
    and two: "\<forall>p \<in> set ps. 2 \<le> length (consumers_of p2c p) \<and> \<not> overfull p2c st p"
  shows "reassign_pass [] c2p p2c ps modified st = Some (modified, st)"
  using two
proof (induction ps)
  case (Cons p ps)
  have "assigned c2p p2c st" using inv by (simp add: sticky_inv_def)
  then obtain b where b: "isBalanced (currentAssignment st) c2p = Some b"
    using isBalanced_total [OF pot] by blast
  show ?case
    using Cons b reassign_one_cases(1) [OF pot inv, of p] by (cases b) simp_all
qed simp

section \<open>The loop\<close>

lemma performReassignments_balanced:
  assumes "potentials_ok c2p p2c" "sticky_inv c2p p2c st"
    and "\<forall>p \<in> set ps. 2 \<le> length (consumers_of p2c p) \<and> \<not> overfull p2c st p"
  shows "performReassignments ps [] c2p p2c performed st = Some (Some (performed, st))"
  using reassign_pass_balanced [OF assms] by (subst performReassignments.simps) simp

lemma performReassignments_result:
  assumes pot: "potentials_ok c2p p2c" and two: "\<forall>p \<in> set ps. 2 \<le> length (consumers_of p2c p)"
    and ret: "performReassignments ps [] c2p p2c performed st = Some r" and inv: "sticky_inv c2p p2c st"
  shows "\<exists>performed' st'. r = Some (performed', st') \<and> sticky_inv c2p p2c st' \<and> keeps st st' \<and>
    (\<forall>p \<in> set ps. \<not> overfull p2c st' p)"
proof -
  define Q where "Q st r \<longleftrightarrow> sticky_inv c2p p2c st \<longrightarrow> (\<exists>performed' st'. r = Some (performed', st') \<and>
      sticky_inv c2p p2c st' \<and> keeps st st' \<and> (\<forall>p \<in> set ps. \<not> overfull p2c st' p))" for st :: assignment and r :: "(bool \<times> assignment) option"
  have "ps = ps \<longrightarrow> ([] :: (topic_t \<times> bytes \<times> int) list) = [] \<longrightarrow> c2p = c2p \<longrightarrow> p2c = p2c \<longrightarrow> Q st r"
  proof (rule performReassignments.raw_induct [where P = "\<lambda>ps' prev c2p' p2c' performed st r.
      ps' = ps \<longrightarrow> prev = [] \<longrightarrow> c2p' = c2p \<longrightarrow> p2c' = p2c \<longrightarrow> Q st r", OF _ ret], intro impI, clarsimp)
    fix rec performed st r
    assume hyp: "\<And>ps' prev c2p' p2c' performed st r. rec ps' prev c2p' p2c' performed st = Some r \<Longrightarrow>
        ps' = ps \<longrightarrow> prev = [] \<longrightarrow> c2p' = c2p \<longrightarrow> p2c' = p2c \<longrightarrow> Q st r"
      and ret: "(case reassign_pass [] c2p p2c ps False st of None \<Rightarrow> Some None
        | Some (modified, st') \<Rightarrow> if modified then rec ps [] c2p p2c True st' else Some (Some (performed, st'))) = Some r"
    show "Q st r"
      unfolding Q_def
    proof
      assume inv: "sticky_inv c2p p2c st"
      from reassign_pass_total [OF pot inv two, of False] obtain modified st' where
        ps: "reassign_pass [] c2p p2c ps False st = Some (modified, st')" "sticky_inv c2p p2c st'" "keeps st st'"
          "\<not> modified \<Longrightarrow> st' = st \<and> (\<forall>p \<in> set ps. \<not> overfull p2c st p)" by blast
      show "\<exists>performed' st'. r = Some (performed', st') \<and> sticky_inv c2p p2c st' \<and> keeps st st' \<and>
          (\<forall>p \<in> set ps. \<not> overfull p2c st' p)"
      proof (cases modified)
        case True
        then have "rec ps [] c2p p2c True st' = Some r" using ret ps(1) by simp
        from hyp [OF this] have "Q st' r" by simp
        with ps(2,3) keeps_trans show ?thesis unfolding Q_def by blast
      next
        case False
        then show ?thesis using ret ps inv by auto
      qed
    qed
  qed
  with inv show ?thesis by (simp add: Q_def)
qed

end
