(* ===== verification/Sticky_Plan.thy ===== *)
theory Sticky_Plan
  imports Sticky_Loop
begin

text \<open>
  The plan of the sticky strategy: what the two maps of potential partners are, what the first assignment of the
  partitions establishes, and what taking out the members that cannot take part keeps.
\<close>

section \<open>The maps of potential partners\<close>

lemma smap_entry_iff: "smap m \<Longrightarrow> (\<exists>vs. (k, vs) \<in> set m \<and> x \<in> set vs) \<longleftrightarrow> x \<in> set (entry_of k m)"
proof (cases "map_of m k")
  case None
  then have "(k, vs) \<notin> set m" for vs by (auto simp: map_of_eq_None_iff intro: rev_image_eqI)
  with None show ?thesis by (simp add: entry_of_def)
next
  case (Some us)
  assume "smap m"
  then have "(k, vs) \<in> set m \<longleftrightarrow> vs = us" for vs
    using Some smap_distinct map_of_eq_Some_iff [of m k vs] by auto
  with Some show ?thesis by (simp add: entry_of_def)
qed

lemma set_subscribed: "p \<in> set (subscribed_partitions topics ts) \<longleftrightarrow>
    m_topic p \<in> set ts \<and> m_partition p \<in> set (entry_of (m_topic p) topics)"
  by (cases p) (auto simp: subscribed_partitions_def)

lemma empty_partitions_fold: "smap acc \<Longrightarrow> smap (fold (\<lambda>p. smap_put (topic_t t p) []) ps acc) \<and>
    fst ` set (fold (\<lambda>p. smap_put (topic_t t p) []) ps acc) = topic_t t ` set ps \<union> fst ` set acc"
  by (induction ps arbitrary: acc) (auto simp: smap_smap_put set_smap_put)

lemma empty_partitions_at: "entry_of q acc = [] \<Longrightarrow> entry_of q (fold (\<lambda>p. smap_put (topic_t t p) []) ps acc) = []"
  by (induction ps arbitrary: acc) (auto simp: entry_of_smap_put)

lemma empty_consumers_fold:
  fixes topics :: topics
  assumes "smap acc" "\<forall>q. entry_of q acc = []"
  defines "r \<equiv> fold (\<lambda>(topic, ps). fold (\<lambda>p. smap_put (topic_t topic p) []) ps) topics acc"
  shows "smap r \<and> (\<forall>q. entry_of q r = []) \<and>
    fst ` set r = {p. \<exists>ps. (m_topic p, ps) \<in> set topics \<and> m_partition p \<in> set ps} \<union> fst ` set acc"
  using assms(1,2) unfolding r_def
proof (induction topics arbitrary: acc)
  case (Cons e topics)
  obtain t ps where e: "e = (t, ps)" by (cases e)
  let ?acc = "fold (\<lambda>p. smap_put (topic_t t p) []) ps acc"
  have "smap ?acc" "\<forall>q. entry_of q ?acc = []" "fst ` set ?acc = topic_t t ` set ps \<union> fst ` set acc"
    using Cons.prems empty_partitions_fold [of acc t ps] empty_partitions_at [of _ acc t ps] by simp_all
  moreover have "topic_t t ` set ps = {p. m_topic p = t \<and> m_partition p \<in> set ps}"
    by (auto simp: image_iff) (metis topic_t.exhaust_sel)
  ultimately show ?case using Cons.IH [of ?acc] by (auto simp: e)
qed simp

lemma empty_consumers_keys:
  assumes "smap topics"
  shows "smap (empty_consumers topics)" "entry_of q (empty_consumers topics) = []"
    "fst ` set (empty_consumers topics) = {p. m_partition p \<in> set (entry_of (m_topic p) topics)}"
  using empty_consumers_fold [of "[] :: potential_consumers" topics] smap_entry_iff [OF assms] by (simp_all add: empty_consumers_def)

lemma push_consumers:
  fixes ps :: "topic_t list" and m :: bytes and acc :: potential_consumers
  assumes "smap acc"
  defines "r \<equiv> fold (\<lambda>tpa. smap_push tpa [m]) ps acc"
  shows "smap r" "fst ` set r = fst ` set acc \<union> set ps"
    "entry_of q r = entry_of q acc @ replicate (count_list ps q) m"
  using assms(1) unfolding r_def
  by (induction ps arbitrary: acc) (auto simp: smap_smap_push dom_smap_push replicate_app_Cons_same)

lemma potentials_pair:
  "potentials members topics =
    (fold (\<lambda>(memberID, m_topics). smap_put memberID (subscribed_partitions topics m_topics)) members [],
     fold (\<lambda>(memberID, m_topics). fold (\<lambda>tpa. smap_push tpa [memberID]) (subscribed_partitions topics m_topics))
       members (empty_consumers topics))"
proof -
  have "fold (\<lambda>(memberID, m_topics) (c2p, p2c).
             (let ps = subscribed_partitions topics m_topics
              in (smap_put memberID ps c2p, fold (\<lambda>tpa. smap_push tpa [memberID]) ps p2c))) members (a, b) =
      (fold (\<lambda>(memberID, m_topics). smap_put memberID (subscribed_partitions topics m_topics)) members a,
       fold (\<lambda>(memberID, m_topics). fold (\<lambda>tpa. smap_push tpa [memberID]) (subscribed_partitions topics m_topics)) members b)"
    for a b
    by (induction members arbitrary: a b) (auto simp: Let_def)
  then show ?thesis by (simp add: potentials_def)
qed

lemma put_members_fold:
  assumes "smap acc" "distinct (map fst members)"
  shows "smap (fold (\<lambda>(memberID, ts). smap_put memberID (f ts)) members acc) \<and>
    fst ` set (fold (\<lambda>(memberID, ts). smap_put memberID (f ts)) members acc) = fst ` set members \<union> fst ` set acc \<and>
    map_of (fold (\<lambda>(memberID, ts). smap_put memberID (f ts)) members acc) m =
      (case map_of members m of None \<Rightarrow> map_of acc m | Some ts \<Rightarrow> Some (f ts))"
  using assms
proof (induction members arbitrary: acc)
  case (Cons e members)
  obtain m' ts where e: "e = (m', ts)" by (cases e)
  have ok: "smap (smap_put m' (f ts) acc)" "distinct (map fst members)" and new: "m' \<notin> fst ` set members"
    using Cons.prems by (simp_all add: e smap_smap_put)
  have "map_of members m' = None" using new by (simp add: map_of_eq_None_iff)
  with Cons.IH [OF ok] new show ?case by (simp add: e set_smap_put split: option.split)
qed simp

lemma consumers_fold:
  fixes acc :: potential_consumers
  assumes "smap acc"
  shows "smap (fold (\<lambda>(memberID, ts). fold (\<lambda>tpa. smap_push tpa [memberID]) (f ts)) members acc) \<and>
    fst ` set (fold (\<lambda>(memberID, ts). fold (\<lambda>tpa. smap_push tpa [memberID]) (f ts)) members acc) =
      fst ` set acc \<union> (\<Union>e \<in> set members. set (f (snd e))) \<and>
    set (entry_of q (fold (\<lambda>(memberID, ts). fold (\<lambda>tpa. smap_push tpa [memberID]) (f ts)) members acc)) =
      set (entry_of q acc) \<union> {m. \<exists>ts. (m, ts) \<in> set members \<and> q \<in> set (f ts)}"
  using assms
proof (induction members arbitrary: acc)
  case (Cons e members)
  obtain m ts where e: "e = (m, ts)" by (cases e)
  note push = push_consumers [OF Cons.prems, where m = m and ps = "f ts"]
  have "set (entry_of q (fold (\<lambda>tpa. smap_push tpa [m]) (f ts) acc)) = set (entry_of q acc) \<union> (if q \<in> set (f ts) then {m} else {})"
    using push(3) [of q] by (auto simp: count_list_0_iff)
  with Cons.IH [OF push(1)] push(2) show ?case by (auto simp: e)
qed simp

lemma potentials_facts:
  assumes "smap members" "smap topics" "potentials members topics = (c2p, p2c)"
  shows "fst ` set c2p = fst ` set members" "fst ` set p2c = {p. m_partition p \<in> set (entry_of (m_topic p) topics)}"
    "smap c2p" "smap p2c"
    "p \<in> set (entry_of m c2p) \<longleftrightarrow> m_topic p \<in> set (entry_of m members) \<and> m_partition p \<in> set (entry_of (m_topic p) topics)"
    "m \<in> set (consumers_of p2c p) \<longleftrightarrow> m_topic p \<in> set (entry_of m members) \<and> m_partition p \<in> set (entry_of (m_topic p) topics)"
proof -
  let ?f = "subscribed_partitions topics"
  have eq: "c2p = fold (\<lambda>(memberID, m_topics). smap_put memberID (?f m_topics)) members []"
    "p2c = fold (\<lambda>(memberID, m_topics). fold (\<lambda>tpa. smap_push tpa [memberID]) (?f m_topics)) members (empty_consumers topics)"
    using assms(3) by (simp_all add: potentials_pair)
  have "smap c2p \<and> fst ` set c2p = fst ` set members \<union> {} \<and>
      map_of c2p m = (case map_of members m of None \<Rightarrow> None | Some ts \<Rightarrow> Some (?f ts))"
    unfolding eq using put_members_fold [OF smap_Nil smap_distinct [OF assms(1)], of ?f m] by (simp split: option.split)
  then have "fst ` set c2p = fst ` set members" "smap c2p" and c: "map_of c2p m = map_option ?f (map_of members m)"
    by (simp_all split: option.split)
  then show "fst ` set c2p = fst ` set members" "smap c2p" by blast+
  from c show "p \<in> set (entry_of m c2p) \<longleftrightarrow> m_topic p \<in> set (entry_of m members) \<and> m_partition p \<in> set (entry_of (m_topic p) topics)"
    by (cases "map_of members m") (simp_all add: entry_of_def set_subscribed)
  have p2c: "smap p2c \<and> fst ` set p2c = fst ` set (empty_consumers topics) \<union> (\<Union>e \<in> set members. set (?f (snd e))) \<and>
      set (entry_of q p2c) = {} \<union> {m. \<exists>ts. (m, ts) \<in> set members \<and> q \<in> set (?f ts)}" for q
    unfolding eq(2) using consumers_fold [OF empty_consumers_keys(1) [OF assms(2)], of ?f members q] empty_consumers_keys(2) [OF assms(2), of q]
    by simp
  then show "smap p2c" by simp
  have "(\<Union>e \<in> set members. set (?f (snd e))) \<subseteq> {p. m_partition p \<in> set (entry_of (m_topic p) topics)}"
    by (simp add: UN_subset_iff subset_iff set_subscribed)
  then show "fst ` set p2c = {p. m_partition p \<in> set (entry_of (m_topic p) topics)}"
    using p2c empty_consumers_keys(3) [OF assms(2)] by (simp add: Un_absorb2)
  have "m \<in> set (consumers_of p2c p) \<longleftrightarrow> (\<exists>ts. (m, ts) \<in> set members \<and> m_topic p \<in> set ts) \<and> m_partition p \<in> set (entry_of (m_topic p) topics)"
    unfolding at_or_entry using p2c [of p] by (simp add: set_subscribed) blast
  with smap_entry_iff [OF assms(1), of m "m_topic p"]
  show "m \<in> set (consumers_of p2c p) \<longleftrightarrow> m_topic p \<in> set (entry_of m members) \<and> m_partition p \<in> set (entry_of (m_topic p) topics)"
    by simp
qed

lemma potentials_are_ok:
  assumes "smap members" "smap topics" "[] \<notin> fst ` set members" "potentials members topics = (c2p, p2c)"
  shows "potentials_ok c2p p2c"
proof -
  note f = potentials_facts [OF assms(1,2,4)]
  have "set (consumers_of p2c p) = set (consumers_of p2c q)"
    if "p \<in> fst ` set p2c" "q \<in> fst ` set p2c" "m_topic p = m_topic q" for p q :: topic_t
    unfolding set_eq_iff f(6) using that f(2) by simp
  moreover have "p \<in> set (entry_of m c2p) \<longleftrightarrow> m \<in> set (consumers_of p2c p)" for m p
    unfolding f(5,6) ..
  ultimately show ?thesis unfolding potentials_ok_def f(1) using f(3,4) assms(3) by blast
qed

section \<open>The first assignment\<close>

definition started :: "potential_partitions \<Rightarrow> potential_consumers \<Rightarrow> assignment \<Rightarrow> bool" where
  "started c2p p2c st \<longleftrightarrow> smap (currentAssignment st) \<and> active st = fst ` set c2p \<and>
     sortedCurrentSubscriptions st = sortMemberIDsByPartitionAssignments (currentAssignment st) \<and>
     (\<forall>m p. p \<in> set (holds st m) \<longleftrightarrow> m \<in> active st \<and> owner_of st p = Some m) \<and>
     (\<forall>m. distinct (holds st m)) \<and>
     (\<forall>p m. owner_of st p = Some m \<longrightarrow> m \<in> set (consumers_of p2c p)) \<and>
     movements st = no_movements"

lemma assignPartition_started:
  assumes pot: "potentials_ok c2p p2c" and st: "started c2p p2c st" and p: "owner_of st p = None" "consumers_of p2c p \<noteq> []"
  obtains n where "least_loaded p2c st p n" "started c2p p2c (assignPartition c2p p st)"
    "owner_of (assignPartition c2p p st) = (owner_of st)(p \<mapsto> n)"
    "\<And>m. holds (assignPartition c2p p st) m = (if m = n then holds st m @ [p] else holds st m)"
proof -
  have sm: "smap (currentAssignment st)" and act: "active st = fst ` set c2p"
    and srt: "sortedCurrentSubscriptions st = sortMemberIDsByPartitionAssignments (currentAssignment st)"
    and h: "\<And>m p. p \<in> set (holds st m) \<longleftrightarrow> m \<in> active st \<and> owner_of st p = Some m"
    and d: "\<And>m. distinct (holds st m)" and c: "\<And>p m. owner_of st p = Some m \<Longrightarrow> m \<in> set (consumers_of p2c p)"
    and mv: "movements st = no_movements"
    using st by (simp_all add: started_def)
  obtain m where m: "m \<in> set (consumers_of p2c p)" using p(2) by (meson list.set_sel(1))
  then have "set (consumers_of p2c p) \<inter> active st \<noteq> {}" using consumer_subscribed [OF pot] act by blast
  then obtain n where n: "find (\<lambda>memberID. p \<in> set (entry_of memberID c2p)) (sortedCurrentSubscriptions st) = Some n"
    and ll: "least_loaded p2c st p n" by (rule find_least_loaded [OF pot srt])
  let ?st = "assignPartition c2p p st"
  have A: "currentAssignment ?st = smap_push n [p] (currentAssignment st)"
    and C: "currentPartitionConsumer ?st = smap_put p n (currentPartitionConsumer st)"
    and S: "sortedCurrentSubscriptions ?st = sortMemberIDsByPartitionAssignments (currentAssignment ?st)"
    and M: "movements ?st = movements st"
    using n by (simp_all add: assignPartition_def)
  have n_in: "n \<in> active st" "n \<in> set (consumers_of p2c p)" using ll by (simp_all add: least_loaded_def)
  have H: "holds ?st m = (if m = n then holds st m @ [p] else holds st m)" for m by (simp add: A)
  have act': "active ?st = active st" using n_in(1) by (auto simp: A dom_smap_push)
  have C': "owner_of ?st = (owner_of st)(p \<mapsto> n)" by (simp add: C)
  have free: "p \<notin> set (holds st m)" for m using h p(1) by simp
  have "q \<in> set (holds ?st m) \<longleftrightarrow> m \<in> active ?st \<and> owner_of ?st q = Some m" for q m
    unfolding H act' C' using h free n_in(1) p(1) by simp
  moreover have "distinct (holds ?st m)" for m using d free by (simp add: H)
  moreover have "owner_of ?st q = Some m \<Longrightarrow> m \<in> set (consumers_of p2c q)" for q m
    unfolding C' using c n_in(2) by (cases "q = p") auto
  moreover have "smap (currentAssignment ?st)" using sm by (simp add: A smap_smap_push)
  ultimately have "started c2p p2c ?st" using act act' S M mv by (simp add: started_def)
  with that [OF ll] C' H show thesis by blast
qed

lemma assign_unassigned_started:
  assumes pot: "potentials_ok c2p p2c" and st: "started c2p p2c st" and ps: "distinct ps" "\<forall>p \<in> set ps. owner_of st p = None"
  shows "started c2p p2c (assign_unassigned ps c2p p2c st) \<and>
    (\<forall>p. owner_of (assign_unassigned ps c2p p2c st) p = None \<longleftrightarrow>
      owner_of st p = None \<and> (p \<in> set ps \<longrightarrow> consumers_of p2c p = []))"
  using st ps
proof (induction ps arbitrary: st)
  case (Cons p ps)
  show ?case
  proof (cases "consumers_of p2c p = []")
    case True
    with Cons show ?thesis by (auto simp: assign_unassigned_def)
  next
    case False
    with Cons.prems obtain n where n: "started c2p p2c (assignPartition c2p p st)"
      "owner_of (assignPartition c2p p st) = (owner_of st)(p \<mapsto> n)"
    proof -
      have "owner_of st p = None" using Cons.prems(3) by simp
      from assignPartition_started [OF pot Cons.prems(1) this False] that show thesis by blast
    qed
    have free: "\<forall>q \<in> set ps. owner_of (assignPartition c2p p st) q = None" "distinct ps"
      using Cons.prems(2,3) by (auto simp: n(2))
    from Cons.IH [OF n(1) free(2,1)] False show ?thesis
      by (auto simp: assign_unassigned_def n(2))
  qed
qed (simp add: assign_unassigned_def)

lemma started_assigned:
  assumes pot: "potentials_ok c2p p2c" and st: "started c2p p2c st" and owned: "\<And>p. consumers_of p2c p \<noteq> [] \<Longrightarrow> owner_of st p \<noteq> None"
  shows "sticky_inv c2p p2c st"
proof -
  have act: "active st = fst ` set c2p" and mv: "movements st = no_movements" using st by (simp_all add: started_def)
  have "moved_ok st" using mv by (simp add: moved_ok_def records_ok_def no_movements_def)
  moreover have "set (consumers_of p2c p) \<subseteq> active st" for p
    unfolding act using consumer_subscribed [OF pot] by blast
  ultimately show ?thesis unfolding sticky_inv_def assigned_def using st owned unfolding started_def by simp
qed

section \<open>The members that cannot take part\<close>

definition parked :: "potential_partitions \<Rightarrow> assignments \<Rightarrow> assignment \<Rightarrow> bool" where
  "parked c2p F st \<longleftrightarrow> fst ` set F = fst ` set c2p - active st \<and> smap F \<and>
     (\<forall>m \<in> fst ` set F. distinct (entry_of m F) \<and> (\<forall>p. p \<in> set (entry_of m F) \<longleftrightarrow> owner_of st p = Some m))"

lemma entry_of_delete: "entry_of k (AList.delete m A) = (if k = m then [] else entry_of k A)"
  by (simp add: entry_of_def AList.delete_conv)

lemma cannot_participate:
  assumes pot: "potentials_ok c2p p2c" and as: "assigned c2p p2c st" and m: "m \<in> active st"
    and no: "\<not> canConsumerParticipateInReassignment m (currentAssignment st) c2p p2c"
    and p: "m \<in> set (consumers_of p2c p)"
  shows "length (consumers_of p2c p) < 2"
proof -
  have sub: "active st \<subseteq> fst ` set c2p" and d: "distinct (holds st m)" using as by (simp_all add: assigned_def)
  have c2p: "map_of c2p m = Some (entry_of m c2p)" using sub m by (intro map_of_entry) blast
  have len: "length (entry_of m c2p) \<le> length (holds st m)"
    and alone: "\<forall>q \<in> set (holds st m). \<not> canTopicPartitionParticipateInReassignment q p2c"
    using no unfolding canConsumerParticipateInReassignment_def map_of_entry [OF m] c2p by auto
  have "card (set (entry_of m c2p)) \<le> card (set (holds st m))"
    using len card_length [of "entry_of m c2p"] distinct_card [OF d] by simp
  then have "set (holds st m) = set (entry_of m c2p)"
    by (intro card_seteq held_subscribed [OF pot as]) simp_all
  moreover have "p \<in> set (entry_of m c2p)" using pot p by (simp add: potentials_ok_def)
  ultimately have "\<not> canTopicPartitionParticipateInReassignment p p2c" using alone by blast
  then show ?thesis
    by (cases "map_of p2c p") (simp_all add: canTopicPartitionParticipateInReassignment_def at_or_def)
qed

lemma fix_member_inv:
  assumes pot: "potentials_ok c2p p2c" and inv: "sticky_inv c2p p2c st" and park: "parked c2p F st" and m: "m \<in> active st"
    and step: "fix_member c2p p2c m (F, st) = (F', st')"
  shows "sticky_inv c2p p2c st' \<and> parked c2p F' st' \<and> active st - {m} \<subseteq> active st'"
proof (cases "canConsumerParticipateInReassignment m (currentAssignment st) c2p p2c")
  case True
  then show ?thesis using assms by (simp add: fix_member_def)
next
  case False
  have as: "assigned c2p p2c st" and mo: "moved_ok st" using inv by (simp_all add: sticky_inv_def)
  have F': "F' = smap_put m (holds st m) F"
    and st': "currentAssignment st' = AList.delete m (currentAssignment st)" "owner_of st' = owner_of st" "movements st' = movements st"
      "sortedCurrentSubscriptions st' = sortMemberIDsByPartitionAssignments (currentAssignment st')"
    using step False by (auto simp: fix_member_def Let_def)
  have act: "active st' = active st - {m}" by (simp add: st' keys_delete)
  have sm: "smap (currentAssignment st)" and sub: "active st \<subseteq> fst ` set c2p"
    and h: "\<And>m p. p \<in> set (holds st m) \<longleftrightarrow> m \<in> active st \<and> owner_of st p = Some m"
    and d: "\<And>m. distinct (holds st m)" and c: "\<And>p m. owner_of st p = Some m \<Longrightarrow> m \<in> set (consumers_of p2c p)"
    and owned: "\<And>p. consumers_of p2c p \<noteq> [] \<Longrightarrow> owner_of st p \<noteq> None"
    and all_active: "\<And>p. 2 \<le> length (consumers_of p2c p) \<Longrightarrow> set (consumers_of p2c p) \<subseteq> active st"
    using as by (simp_all add: assigned_def)
  have H: "holds st' k = (if k = m then [] else holds st k)" for k by (simp add: st' entry_of_delete)
  have "p \<in> set (holds st' k) \<longleftrightarrow> k \<in> active st' \<and> owner_of st' p = Some k" for p k
    unfolding H act st'(2) using h by auto
  moreover have "set (consumers_of p2c p) \<subseteq> active st'" if two: "2 \<le> length (consumers_of p2c p)" for p
  proof -
    have "m \<notin> set (consumers_of p2c p)" using cannot_participate [OF pot as m False, of p] two by auto
    with all_active [OF two] act show ?thesis by blast
  qed
  moreover have "smap (currentAssignment st')" using sm by (simp add: st' smap_delete)
  moreover have "active st' \<subseteq> fst ` set c2p" using sub act by blast
  moreover have "distinct (holds st' k)" for k using d by (simp add: H)
  ultimately have "assigned c2p p2c st'" using c owned st'(2,4) by (simp add: assigned_def)
  moreover have "moved_ok st'" using mo by (simp add: moved_ok_def st')
  moreover have "parked c2p F' st'"
  proof -
    have keys: "fst ` set F = fst ` set c2p - active st" and dF: "smap F"
      and Fe: "\<And>k. k \<in> fst ` set F \<Longrightarrow> distinct (entry_of k F) \<and> (\<forall>p. p \<in> set (entry_of k F) \<longleftrightarrow> owner_of st p = Some k)"
      using park unfolding parked_def by blast+
    have "fst ` set F' = fst ` set c2p - active st'" unfolding F' set_smap_put act using keys sub m by blast
    moreover have "distinct (entry_of k F') \<and> (\<forall>p. p \<in> set (entry_of k F') \<longleftrightarrow> owner_of st' p = Some k)"
      if "k \<in> fst ` set F'" for k
      using that Fe [of k] d h [of _ m] m unfolding F' set_smap_put st'(2) entry_of_smap_put by (cases "k = m") auto
    ultimately show ?thesis using dF by (simp add: parked_def F' smap_smap_put)
  qed
  ultimately show ?thesis using act by (simp add: sticky_inv_def)
qed

lemma fix_members_inv:
  assumes pot: "potentials_ok c2p p2c" and inv: "sticky_inv c2p p2c st" and park: "parked c2p F st"
    and ms: "set ms \<subseteq> active st" "distinct ms" and step: "fold (fix_member c2p p2c) ms (F, st) = (F', st')"
  shows "sticky_inv c2p p2c st' \<and> parked c2p F' st' \<and> active st' \<subseteq> active st \<and>
    (\<forall>m \<in> active st'. holds st' m = holds st m)"
  using inv park ms step
proof (induction ms arbitrary: F st)
  case (Cons m ms)
  obtain F1 st1 where one: "fix_member c2p p2c m (F, st) = (F1, st1)" by fastforce
  have "m \<in> active st" using Cons.prems(3) by simp
  note kept = fix_member_inv [OF pot Cons.prems(1,2) this one]
  have sub: "active st1 \<subseteq> active st" "\<forall>k \<in> active st1. holds st1 k = holds st k"
  proof -
    have "currentAssignment st1 = currentAssignment st \<or> currentAssignment st1 = AList.delete m (currentAssignment st)"
      using one by (auto simp: fix_member_def Let_def split: if_splits)
    then consider "currentAssignment st1 = currentAssignment st" | "currentAssignment st1 = AList.delete m (currentAssignment st)"
      by blast
    then have "active st1 \<subseteq> active st \<and> (\<forall>k \<in> active st1. holds st1 k = holds st k)"
    proof cases
      case 2
      then have "active st1 = active st - {m}" "\<And>k. holds st1 k = (if k = m then [] else holds st k)"
        by (simp_all only: keys_delete entry_of_delete)
      then show ?thesis by simp
    qed simp
    then show "active st1 \<subseteq> active st" "\<forall>k \<in> active st1. holds st1 k = holds st k" by blast+
  qed
  have ms: "set ms \<subseteq> active st1" "distinct ms" using kept Cons.prems(3,4) by auto
  have "fold (fix_member c2p p2c) ms (F1, st1) = (F', st')" using Cons.prems(5) one by simp
  with Cons.IH [OF _ _ ms] kept
  have "sticky_inv c2p p2c st' \<and> parked c2p F' st' \<and> active st' \<subseteq> active st1 \<and> (\<forall>m \<in> active st'. holds st' m = holds st1 m)"
    by blast
  then have r: "sticky_inv c2p p2c st'" "parked c2p F' st'" "active st' \<subseteq> active st1"
    "\<And>m. m \<in> active st' \<Longrightarrow> holds st' m = holds st1 m" by blast+
  have "active st' \<subseteq> active st" using r(3) sub(1) by (rule subset_trans)
  moreover have "holds st' m = holds st m" if "m \<in> active st'" for m
  proof -
    have "m \<in> active st1" using r(3) that ..
    then have "holds st1 m = holds st m" using sub(2) by (simp only: Ball_def)
    with r(4) [OF that] show ?thesis by simp
  qed
  ultimately show ?case using r(1,2) by blast
qed simp

section \<open>What the strategy promises\<close>

text \<open>\<open>fair\<close>: every partition with a consumer is at exactly one, and no consumer has two partitions less than the owner.\<close>

definition fair :: "potential_partitions \<Rightarrow> potential_consumers \<Rightarrow> assignments \<Rightarrow> bool" where
  "fair c2p p2c A \<longleftrightarrow> smap A \<and> fst ` set A = fst ` set c2p \<and> (\<forall>m. distinct (entry_of m A)) \<and>
     (\<forall>m p. p \<in> set (entry_of m A) \<longrightarrow> m \<in> set (consumers_of p2c p)) \<and>
     (\<forall>p. consumers_of p2c p \<noteq> [] \<longrightarrow> (\<exists>!m. p \<in> set (entry_of m A))) \<and>
     (\<forall>m m' p. p \<in> set (entry_of m A) \<longrightarrow> m' \<in> set (consumers_of p2c p) \<longrightarrow>
        length (entry_of m A) \<le> length (entry_of m' A) + 1)"

lemma parked_keeps:
  assumes "parked c2p F st" "keeps st st'" shows "parked c2p F st'"
proof -
  have keys: "fst ` set F = fst ` set c2p - active st" "smap F"
    and Fe: "\<And>k. k \<in> fst ` set F \<Longrightarrow> distinct (entry_of k F) \<and> (\<forall>p. p \<in> set (entry_of k F) \<longleftrightarrow> owner_of st p = Some k)"
    using assms(1) unfolding parked_def by blast+
  have act: "active st' = active st" and own: "\<And>p k. k \<notin> active st \<Longrightarrow> owner_of st' p = Some k \<longleftrightarrow> owner_of st p = Some k"
    using assms(2) unfolding keeps_def by blast+
  have "k \<notin> active st" if "k \<in> fst ` set F" for k using that keys(1) by blast
  with Fe own have "\<forall>k \<in> fst ` set F. distinct (entry_of k F) \<and> (\<forall>p. p \<in> set (entry_of k F) \<longleftrightarrow> owner_of st' p = Some k)"
    by blast
  then show ?thesis unfolding parked_def act using keys by blast
qed

lemma put_parked:
  assumes "distinct (map fst F)" "smap A"
  shows "smap (fold (\<lambda>(id, ass). smap_put id ass) F A)"
    "fst ` set (fold (\<lambda>(id, ass). smap_put id ass) F A) = fst ` set F \<union> fst ` set A"
    "entry_of m (fold (\<lambda>(id, ass). smap_put id ass) F A) = (if m \<in> fst ` set F then entry_of m F else entry_of m A)"
proof -
  note f = put_members_fold [OF assms(2,1), of "\<lambda>x. x"]
  show "smap (fold (\<lambda>(id, ass). smap_put id ass) F A)"
    "fst ` set (fold (\<lambda>(id, ass). smap_put id ass) F A) = fst ` set F \<union> fst ` set A" using f by simp_all
  show "entry_of m (fold (\<lambda>(id, ass). smap_put id ass) F A) = (if m \<in> fst ` set F then entry_of m F else entry_of m A)"
    using f [of m] map_of_eq_None_iff [of F m] by (auto simp: entry_of_def split: option.split)
qed

lemma two_consumers:
  assumes "m \<in> set (consumers_of p2c p)" "m' \<in> set (consumers_of p2c p)" "m \<noteq> m'"
  shows "2 \<le> length (consumers_of p2c p)"
proof -
  have "card {m, m'} \<le> card (set (consumers_of p2c p))" using assms by (intro card_mono) auto
  then show ?thesis using assms(3) card_length [of "consumers_of p2c p"] by simp
qed

lemma fair_result:
  assumes pot: "potentials_ok c2p p2c" and inv: "sticky_inv c2p p2c st" and park: "parked c2p F st"
    and even: "\<And>p. 2 \<le> length (consumers_of p2c p) \<Longrightarrow> \<not> overfull p2c st p"
  shows "fair c2p p2c (fold (\<lambda>(id, ass). smap_put id ass) F (currentAssignment st))"
proof -
  let ?A = "fold (\<lambda>(id, ass). smap_put id ass) F (currentAssignment st)"
  have as: "assigned c2p p2c st" using inv by (simp add: sticky_inv_def)
  have sm: "smap (currentAssignment st)" and sub: "active st \<subseteq> fst ` set c2p"
    and h: "\<And>m p. p \<in> set (holds st m) \<longleftrightarrow> m \<in> active st \<and> owner_of st p = Some m"
    and d: "\<And>m. distinct (holds st m)" and c: "\<And>p m. owner_of st p = Some m \<Longrightarrow> m \<in> set (consumers_of p2c p)"
    and owned: "\<And>p. consumers_of p2c p \<noteq> [] \<Longrightarrow> owner_of st p \<noteq> None"
    and all_active: "\<And>p. 2 \<le> length (consumers_of p2c p) \<Longrightarrow> set (consumers_of p2c p) \<subseteq> active st"
    using as by (simp_all add: assigned_def)
  have keys: "fst ` set F = fst ` set c2p - active st" and F: "smap F"
    and Fe: "\<And>k. k \<in> fst ` set F \<Longrightarrow> distinct (entry_of k F) \<and> (\<forall>p. p \<in> set (entry_of k F) \<longleftrightarrow> owner_of st p = Some k)"
    using park unfolding parked_def by blast+
  note A = put_parked [OF smap_distinct [OF F] sm]
  have dA: "distinct (entry_of m ?A)" for m using A(3) [of m] Fe [of m] d [of m] by simp
  have own: "p \<in> set (entry_of m ?A) \<longleftrightarrow> owner_of st p = Some m" for m p
  proof (cases "m \<in> fst ` set F")
    case True
    then show ?thesis using A(3) [of m] Fe [OF True] by simp
  next
    case False
    then have e: "entry_of m ?A = holds st m" using A(3) [of m] by simp
    have "m \<in> active st" if o: "owner_of st p = Some m"
    proof -
      have "m \<in> fst ` set c2p" using consumer_subscribed [OF pot c [OF o]] ..
      with False show ?thesis unfolding keys by blast
    qed
    then show ?thesis unfolding e h by iprover
  qed
  have "length (entry_of m ?A) \<le> length (entry_of m' ?A) + 1"
    if p: "p \<in> set (entry_of m ?A)" "m' \<in> set (consumers_of p2c p)" for m m' p
  proof (cases "m = m'")
    case False
    have o: "owner_of st p = Some m" using p(1) own by simp
    note two = two_consumers [OF c [OF o] p(2) False]
    have act: "m \<in> active st" "m' \<in> active st" using all_active [OF two] c [OF o] p(2) by blast+
    then have "m \<notin> fst ` set F" "m' \<notin> fst ` set F" using keys by blast+
    then have e: "entry_of m ?A = holds st m" "entry_of m' ?A = holds st m'" using A(3) by simp_all
    have "\<not> much_larger m m' st" using even [OF two] o p(2) unfolding overfull_def by blast
    then show ?thesis unfolding e by (simp add: much_larger_def)
  qed simp
  moreover have "\<exists>!m. p \<in> set (entry_of m ?A)" if "consumers_of p2c p \<noteq> []" for p
    using owned [OF that] unfolding own by auto
  moreover have "fst ` set ?A = fst ` set c2p" unfolding A(2) keys using sub by blast
  moreover have "m \<in> set (consumers_of p2c p)" if "p \<in> set (entry_of m ?A)" for m p using that own c by blast
  ultimately show ?thesis unfolding fair_def using A(1) dA by blast
qed

lemma sorted_reassignable:
  assumes "smap p2c"
  defines "ps \<equiv> filter (\<lambda>part. \<not> (part \<in> set (map fst p2c) \<and> \<not> canTopicPartitionParticipateInReassignment part p2c))
    (sortPartitionsByPotentialConsumerAssignments p2c)"
  shows "p \<in> set ps \<longleftrightarrow> 2 \<le> length (consumers_of p2c p)"
proof -
  have "p \<in> set ps \<longleftrightarrow> p \<in> fst ` set p2c \<and> canTopicPartitionParticipateInReassignment p p2c"
    by (auto simp: ps_def sortPartitionsByPotentialConsumerAssignments_def)
  also have "\<dots> \<longleftrightarrow> 2 \<le> length (consumers_of p2c p)"
    using map_of_eq_None_iff [of p2c p]
    by (cases "map_of p2c p") (auto simp: canTopicPartitionParticipateInReassignment_def at_or_def dest!: map_of_SomeD)
  finally show ?thesis .
qed

text \<open>The state in which \<^verbatim>\<open>Plan\<close> calls \<^verbatim>\<open>balance\<close>: no member has a partition.\<close>

definition unassigned_start :: "potential_partitions \<Rightarrow> potential_consumers \<Rightarrow> assignment \<Rightarrow> bool" where
  "unassigned_start c2p p2c st \<longleftrightarrow> started c2p p2c st \<and> currentPartitionConsumer st = []"

lemma balance_start:
  assumes pot: "potentials_ok c2p p2c" and st: "unassigned_start c2p p2c st"
    and fixed: "fold (fix_member c2p p2c) (map fst c2p) ([], assign_unassigned (map fst p2c) c2p p2c st) = (F, st')"
  shows "sticky_inv c2p p2c st'" "parked c2p F st'" "active st' \<subseteq> fst ` set c2p"
    "m \<in> active st' \<Longrightarrow> holds st' m = holds (assign_unassigned (map fst p2c) c2p p2c st) m"
proof -
  let ?st1 = "assign_unassigned (map fst p2c) c2p p2c st"
  have sp: "smap p2c" "smap c2p" using pot by (simp_all add: potentials_ok_def)
  have st0: "started c2p p2c st" "\<forall>p \<in> set (map fst p2c). owner_of st p = None"
    using st by (simp_all add: unassigned_start_def)
  note all = assign_unassigned_started [OF pot st0(1) smap_distinct [OF sp(1)] st0(2)]
  have "owner_of ?st1 p \<noteq> None" if "consumers_of p2c p \<noteq> []" for p
  proof -
    have "p \<in> set (map fst p2c)" using that consumers_key [of _ p2c p] by (metis list.set_map list.set_sel(1))
    with all that show ?thesis by simp
  qed
  with all have inv: "sticky_inv c2p p2c ?st1" by (intro started_assigned [OF pot]) simp_all
  have act: "active ?st1 = fst ` set c2p" using all by (simp add: started_def)
  have park: "parked c2p [] ?st1" using act by (simp add: parked_def)
  have "set (map fst c2p) \<subseteq> active ?st1" using act by simp
  from fix_members_inv [OF pot inv park this smap_distinct [OF sp(2)] fixed] act
  show "sticky_inv c2p p2c st'" "parked c2p F st'" "active st' \<subseteq> fst ` set c2p"
    "m \<in> active st' \<Longrightarrow> holds st' m = holds ?st1 m" by blast+
qed

lemma balance_initializing_start:
  assumes "unassigned_start c2p p2c st" shows "balance_initializing st"
proof (cases "currentAssignment st = []")
  case True
  with assms show ?thesis by (simp add: balance_initializing_def unassigned_start_def started_def sortMemberIDsByPartitionAssignments_def)
next
  case False
  let ?m = "hd (sortedCurrentSubscriptions st)"
  have S: "set (sortedCurrentSubscriptions st) = active st" using assms by (simp add: unassigned_start_def started_def)
  then have m: "?m \<in> active st" using False by (metis empty_set hd_in_set image_is_empty set_empty)
  have "p \<in> set (holds st ?m) \<longleftrightarrow> ?m \<in> active st \<and> owner_of st p = Some ?m" for p
    using assms unfolding unassigned_start_def started_def by blast
  moreover have "owner_of st p = None" for p using assms by (simp add: unassigned_start_def)
  ultimately have "hd (holds st ?m) \<notin> set (holds st ?m)" by simp
  then have "holds st ?m = []" using hd_in_set by blast
  with map_of_entry [OF m] show ?thesis by (simp add: balance_initializing_def)
qed

lemma balance_fair:
  assumes pot: "potentials_ok c2p p2c" and st: "unassigned_start c2p p2c st"
    and ret: "balance [] (sortPartitionsByPotentialConsumerAssignments p2c) (map fst p2c) c2p p2c st = Some r"
  shows "\<exists>st'. r = Some st' \<and> fair c2p p2c (currentAssignment st')"
proof -
  let ?ps = "filter (\<lambda>part. \<not> (part \<in> set (map fst p2c) \<and> \<not> canTopicPartitionParticipateInReassignment part p2c))
    (sortPartitionsByPotentialConsumerAssignments p2c)"
  obtain F st2 where fixed: "fold (fix_member c2p p2c) (map fst c2p) ([], assign_unassigned (map fst p2c) c2p p2c st) = (F, st2)"
    by fastforce
  note start = balance_start [OF pot st fixed]
  have "smap p2c" using pot by (simp add: potentials_ok_def)
  note ps = sorted_reassignable [OF this]
  have two: "\<forall>p \<in> set ?ps. 2 \<le> length (consumers_of p2c p)" using ps by blast
  have init: "balance_initializing st" by (rule balance_initializing_start [OF st])
  from ret obtain r' where r': "performReassignments ?ps [] c2p p2c False st2 = Some r'"
    unfolding balance_def Let_def fixed by (auto split: option.splits)
  from performReassignments_result [OF pot two r' start(1)] obtain performed st3 where
    st3: "r' = Some (performed, st3)" "sticky_inv c2p p2c st3" "keeps st2 st3" "\<forall>p \<in> set ?ps. \<not> overfull p2c st3 p" by blast
  have "parked c2p F st3" by (rule parked_keeps [OF start(2) st3(3)])
  moreover have "\<not> overfull p2c st3 p" if "2 \<le> length (consumers_of p2c p)" for p using st3(4) ps that by blast
  ultimately have fair: "fair c2p p2c (fold (\<lambda>(id, ass). smap_put id ass) F (currentAssignment st3))"
    by (intro fair_result [OF pot st3(2)])
  have "r = Some (st3\<lparr>currentAssignment := fold (\<lambda>(id, ass). smap_put id ass) F (currentAssignment st3)\<rparr>)"
    using ret r' init unfolding balance_def Let_def fixed st3(1) by simp
  with fair show ?thesis by simp
qed

section \<open>The plan\<close>

lemma prepopulate_nothing: "prepopulateCurrentAssignments members = (0, [], [])"
proof -
  have "fold (\<lambda>(memberID, m_topics) acc. acc) members acc = acc" for acc :: "(topic_t \<times> (int \<times> bytes) list) list"
    by (induction members) auto
  then show ?thesis by (simp add: prepopulateCurrentAssignments_def)
qed

lemma touch_members:
  assumes "smap acc" "\<forall>e \<in> set acc. snd e = []"
  shows "smap (fold (\<lambda>(memberID, ts). touch [] memberID) members acc)"
    "fst ` set (fold (\<lambda>(memberID, ts). touch [] memberID) members acc) = fst ` set members \<union> fst ` set acc"
    "\<forall>e \<in> set (fold (\<lambda>(memberID, ts). touch [] memberID) members acc). snd e = ([] :: topic_t list)"
proof -
  have "smap (fold (\<lambda>(memberID, ts). touch [] memberID) members acc) \<and>
    fst ` set (fold (\<lambda>(memberID, ts). touch [] memberID) members acc) = fst ` set members \<union> fst ` set acc \<and>
    (\<forall>e \<in> set (fold (\<lambda>(memberID, ts). touch [] memberID) members acc). snd e = ([] :: topic_t list))"
    using assms
  proof (induction members arbitrary: acc)
    case (Cons e members)
    obtain m ts where e: "e = (m, ts)" by (cases e)
    have put: "set (smap_put m [] acc) \<subseteq> insert (m, []) (set acc)"
      by (induction m "[] :: topic_t list" acc rule: smap_put.induct) auto
    have "smap (touch [] m acc)" "fst ` set (touch [] m acc) = insert m (fst ` set acc)" "\<forall>e \<in> set (touch [] m acc). snd e = []"
      using Cons.prems put by (auto simp: touch_def smap_smap_put set_smap_put map_of_eq_None_iff)
    with Cons.IH [of "touch [] m acc"] show ?case by (simp add: e)
  qed simp
  then show "smap (fold (\<lambda>(memberID, ts). touch [] memberID) members acc)"
    "fst ` set (fold (\<lambda>(memberID, ts). touch [] memberID) members acc) = fst ` set members \<union> fst ` set acc"
    "\<forall>e \<in> set (fold (\<lambda>(memberID, ts). touch [] memberID) members acc). snd e = ([] :: topic_t list)" by blast+
qed

lemma smap_put_same: "smap m \<Longrightarrow> map_of m k = Some v \<Longrightarrow> smap_put k v m = m"
proof (induction k v m rule: smap_put.induct)
  case (2 k v k' v' m)
  have "k' < k" if "k \<noteq> k'"
  proof -
    have "k \<in> fst ` set m" using 2(3) that by (auto dest: map_of_SomeD intro: rev_image_eqI split: if_splits)
    then show ?thesis using 2(2) by (auto simp: smap_def)
  qed
  with 2 show ?case by (cases "k = k'") (auto simp: smap_def)
qed simp

lemma keep_nothing:
  assumes "smap A" "\<forall>e \<in> set A. snd e = []"
  shows "keep_partitions members p2c A = (A, [], map fst p2c, [])"
proof -
  have "fold (\<lambda>(memberID, ps) (A, unassigned, unvisited, C).
      (let (keep, unassigned', unvisited', C') =
             fold (keep_partition memberID (entry_of memberID members) p2c) ps ([], unassigned, unvisited, C)
       in (smap_put memberID keep A, unassigned', unvisited', C'))) es (A, [], unvisited, []) = (A, [], unvisited, [])"
    if "set es \<subseteq> set A" for es unvisited
    using that
  proof (induction es)
    case (Cons e es)
    obtain m where e: "e = (m, [])" using Cons.prems assms(2) by (cases e) auto
    have "map_of A m = Some []" using Cons.prems assms(1) by (auto simp: e smap_distinct map_of_is_SomeI)
    with Cons show ?case by (simp add: e smap_put_same [OF assms(1)])
  qed simp
  then show ?thesis by (simp add: keep_partitions_def)
qed

definition plan_load :: "BalanceStrategyPlan \<Rightarrow> bytes \<Rightarrow> nat" where
  "plan_load plan m = sum_list (map (\<lambda>e. length (snd e)) (entry_of m plan))"

lemma length_smap_push:
  "smap m \<Longrightarrow> sum_list (map (\<lambda>e. length (snd e)) (smap_push k vs m)) = sum_list (map (\<lambda>e. length (snd e)) m) + length vs"
proof -
  have "smap m \<Longrightarrow> sum_list (map (\<lambda>e. length (snd e)) (smap_put k us m)) + length (entry_of k m) =
      sum_list (map (\<lambda>e. length (snd e)) m) + length us" for us
  proof (induction k us m rule: smap_put.induct)
    case (2 k v k' v' m)
    have "entry_of k ((k', v') # m) = []" if "k < k'"
      using that 2(2) by (auto simp: entry_of_def smap_def split: option.split dest!: map_of_SomeD)
    moreover have "entry_of k ((k', v') # m) = entry_of k m" if "k \<noteq> k'" using that by (simp add: entry_of_def)
    ultimately show ?case using 2 by (auto simp: smap_def entry_of_def)
  qed simp
  from this [of "entry_of k m @ vs"] show "smap m \<Longrightarrow> ?thesis" by (simp add: smap_push_def)
qed

lemma plan_of_partitions:
  fixes ps :: "topic_t list" and plan :: BalanceStrategyPlan
  assumes "smap (entry_of m plan)"
  defines "plan' \<equiv> fold (\<lambda>part plan. AddToPlan plan m (m_topic part) [m_partition part]) ps plan"
  shows "plan_at plan' m t = plan_at plan m t @ map m_partition (filter (\<lambda>p. m_topic p = t) ps)"
    "plan_load plan' m = plan_load plan m + length ps" "smap (entry_of m plan')"
    "k \<noteq> m \<Longrightarrow> entry_of k plan' = entry_of k plan"
  using assms(1) unfolding plan'_def
  by (induction ps arbitrary: plan)
    (auto simp: AddToPlan_def plan_at_def plan_load_def entry_of_smap_put length_smap_push smap_smap_push)

lemma plan_of_entries:
  fixes A :: assignments and plan :: BalanceStrategyPlan
  assumes "distinct (map fst A)" "\<forall>m \<in> fst ` set A. entry_of m plan = []"
  defines "plan' \<equiv> fold (\<lambda>(memberID, assignments) plan.
             (if assignments = [] then smap_put memberID [] plan
              else fold (\<lambda>part plan. AddToPlan plan memberID (m_topic part) [m_partition part]) assignments plan)) A plan"
  shows "(m \<in> fst ` set A \<longrightarrow> plan_at plan' m t = map m_partition (filter (\<lambda>p. m_topic p = t) (entry_of m A)) \<and>
      plan_load plan' m = length (entry_of m A)) \<and> (m \<notin> fst ` set A \<longrightarrow> entry_of m plan' = entry_of m plan)"
  using assms(1,2) unfolding plan'_def
proof (induction A arbitrary: plan)
  case (Cons e A)
  obtain k ps where e: "e = (k, ps)" by (cases e)
  let ?plan = "if ps = [] then smap_put k [] plan
    else fold (\<lambda>part plan. AddToPlan plan k (m_topic part) [m_partition part]) ps plan"
  have free: "entry_of k plan = []" and new: "k \<notin> fst ` set A" and d: "distinct (map fst A)"
    using Cons.prems by (auto simp: e)
  note parts = plan_of_partitions [where m = k and plan = plan and ps = ps, unfolded free, OF smap_Nil]
  have other: "entry_of k' ?plan = entry_of k' plan" if "k' \<noteq> k" for k'
    using that parts(4) by (simp add: entry_of_smap_put)
  have here: "plan_at ?plan k t = map m_partition (filter (\<lambda>p. m_topic p = t) ps)" "plan_load ?plan k = length ps"
    using parts(1,2) free by (auto simp: plan_at_def plan_load_def entry_of_smap_put)
  have rest: "\<forall>m \<in> fst ` set A. entry_of m ?plan = []"
  proof
    fix m assume m: "m \<in> fst ` set A"
    with new have "m \<noteq> k" by blast
    moreover have "entry_of m plan = []" using Cons.prems(2) m by (auto simp: e)
    ultimately show "entry_of m ?plan = []" using trans [OF other [of m]] by blast
  qed
  from Cons.IH [OF d rest] show ?case
  proof (cases "m = k")
    case True
    with Cons.IH [OF d rest] here new show ?thesis
      by (simp add: e plan_at_def plan_load_def) (simp add: entry_of_def)
  next
    case False
    with Cons.IH [OF d rest] other show ?thesis by (simp add: e) (simp add: entry_of_def)
  qed
qed auto

lemma plan_of_assignment:
  assumes "smap A"
  shows "plan_at (plan_of A) m t = map m_partition (filter (\<lambda>p. m_topic p = t) (entry_of m A))"
    "plan_load (plan_of A) m = length (entry_of m A)"
proof -
  have none: "\<forall>m \<in> fst ` set A. entry_of m ([] :: BalanceStrategyPlan) = []" by simp
  have "plan_at (plan_of A) m t = map m_partition (filter (\<lambda>p. m_topic p = t) (entry_of m A)) \<and>
      plan_load (plan_of A) m = length (entry_of m A)"
  proof (cases "m \<in> fst ` set A")
    case True
    then show ?thesis using plan_of_entries [OF smap_distinct [OF assms] none, of m t] by (simp add: plan_of_def)
  next
    case False
    then have "entry_of m A = []" using map_of_eq_None_iff [of A m] by (simp add: entry_of_def)
    with False show ?thesis
      using plan_of_entries [OF smap_distinct [OF assms] none, of m t] by (simp add: plan_of_def plan_at_def plan_load_def)
  qed
  then show "plan_at (plan_of A) m t = map m_partition (filter (\<lambda>p. m_topic p = t) (entry_of m A))"
    "plan_load (plan_of A) m = length (entry_of m A)" by blast+
qed

lemma in_plan: "x \<in> set (map m_partition (filter (\<lambda>p. m_topic p = t) ps)) \<longleftrightarrow> topic_t t x \<in> set ps"
  by (force simp: image_iff)

text \<open>\<open>fair_plan\<close> is the same promise in terms of the plan that the caller gets.\<close>

definition fair_plan :: "members \<Rightarrow> topics \<Rightarrow> BalanceStrategyPlan \<Rightarrow> bool" where
  "fair_plan members topics plan \<longleftrightarrow>
     (\<forall>m t. distinct (plan_at plan m t)) \<and>
     (\<forall>m t p. p \<in> set (plan_at plan m t) \<longrightarrow> t \<in> set (entry_of m members) \<and> p \<in> set (entry_of t topics)) \<and>
     (\<forall>t p. p \<in> set (entry_of t topics) \<longrightarrow> (\<exists>m. t \<in> set (entry_of m members)) \<longrightarrow> (\<exists>!m. p \<in> set (plan_at plan m t))) \<and>
     (\<forall>m m' t. plan_at plan m t \<noteq> [] \<longrightarrow> t \<in> set (entry_of m' members) \<longrightarrow> plan_load plan m \<le> plan_load plan m' + 1)"

lemma fair_plan_of:
  assumes members: "smap members" and topics: "smap topics" and pot: "potentials members topics = (c2p, p2c)"
    and fair: "fair c2p p2c A"
  shows "fair_plan members topics (plan_of A)"
proof -
  have sm: "smap A" and d: "\<And>m. distinct (entry_of m A)"
    and cons: "\<And>m p. p \<in> set (entry_of m A) \<Longrightarrow> m \<in> set (consumers_of p2c p)"
    and ex1: "\<And>p. consumers_of p2c p \<noteq> [] \<Longrightarrow> \<exists>!m. p \<in> set (entry_of m A)"
    and even: "\<And>m m' p. p \<in> set (entry_of m A) \<Longrightarrow> m' \<in> set (consumers_of p2c p) \<Longrightarrow> length (entry_of m A) \<le> length (entry_of m' A) + 1"
    using fair unfolding fair_def by blast+
  note pl = plan_of_assignment [OF sm]
  have p2c: "m \<in> set (consumers_of p2c (topic_t t x)) \<longleftrightarrow> t \<in> set (entry_of m members) \<and> x \<in> set (entry_of t topics)" for m t x
    using potentials_facts(6) [OF members topics pot, of m "topic_t t x"] by simp
  have mem: "x \<in> set (plan_at (plan_of A) m t) \<longleftrightarrow> topic_t t x \<in> set (entry_of m A)" for x m t
    unfolding pl(1) in_plan ..
  have "inj_on m_partition (set (filter (\<lambda>p. m_topic p = t) (entry_of m A)))" for m t
    by (auto simp: inj_on_def topic_t.expand)
  then have "distinct (plan_at (plan_of A) m t)" for m t unfolding pl(1) using d by (simp add: distinct_map)
  moreover have "t \<in> set (entry_of m members) \<and> x \<in> set (entry_of t topics)" if "x \<in> set (plan_at (plan_of A) m t)" for m t x
    using cons that p2c mem by blast
  moreover have "\<exists>!m. x \<in> set (plan_at (plan_of A) m t)"
    if x: "x \<in> set (entry_of t topics)" and m: "t \<in> set (entry_of m members)" for m t x
  proof -
    have "m \<in> set (consumers_of p2c (topic_t t x))" using x m p2c by blast
    then have "consumers_of p2c (topic_t t x) \<noteq> []" by auto
    from ex1 [OF this] show ?thesis unfolding mem .
  qed
  moreover have "plan_load (plan_of A) m \<le> plan_load (plan_of A) m' + 1"
    if ne: "plan_at (plan_of A) m t \<noteq> []" and m': "t \<in> set (entry_of m' members)" for m m' t
  proof -
    have "hd (plan_at (plan_of A) m t) \<in> set (plan_at (plan_of A) m t)" using ne by simp
    then have p: "topic_t t (hd (plan_at (plan_of A) m t)) \<in> set (entry_of m A)" unfolding mem .
    from even [OF p] show ?thesis unfolding pl(2) using m' p2c cons [OF p] by blast
  qed
  ultimately show ?thesis unfolding fair_plan_def by blast
qed

lemma Plan_start:
  assumes members: "smap members" and topics: "smap topics" and named: "[] \<notin> fst ` set members" and ne: "topics \<noteq> []"
  obtains c2p p2c st where "potentials members topics = (c2p, p2c)" "potentials_ok c2p p2c" "unassigned_start c2p p2c st"
    "StickyBalanceStrategy_Plan members topics plan =
      map_option (map_option (\<lambda>st'. (0, plan_of (currentAssignment st'))))
        (balance [] (sortPartitionsByPotentialConsumerAssignments p2c) (map fst p2c) c2p p2c st)"
proof -
  obtain c2p p2c where pot: "potentials members topics = (c2p, p2c)" by fastforce
  note ok = potentials_are_ok [OF members topics named pot]
  define A where "A = fold (\<lambda>(memberID, ts). touch [] memberID) members ([] :: assignments)"
  define st where "st = \<lparr>currentAssignment = A, sortedCurrentSubscriptions = sortMemberIDsByPartitionAssignments A,
    currentPartitionConsumer = [], movements = no_movements\<rparr>"
  note A = touch_members [of "[]" members, folded A_def]
  have "entry_of m A = []" for m using A(3) by (auto simp: entry_of_def split: option.split dest!: map_of_SomeD)
  then have "unassigned_start c2p p2c st"
    using A(1,2) potentials_facts(1) [OF members topics pot] by (simp add: unassigned_start_def started_def st_def)
  moreover have "keep_partitions members p2c A = (A, [], map fst p2c, [])" using A(1,3) by (intro keep_nothing) simp_all
  ultimately show thesis
    using that [OF pot ok] ne pot by (simp add: StickyBalanceStrategy_Plan_def prepopulate_nothing A_def [symmetric] st_def)
qed

lemma Plan_fair:
  assumes "smap members" "smap topics" "[] \<notin> fst ` set members" "StickyBalanceStrategy_Plan members topics plan = Some r"
  shows "\<exists>plan'. r = Some (0, plan') \<and> fair_plan members topics plan'"
proof (cases "topics = []")
  case True
  moreover have "fair_plan members [] []" by (simp add: fair_plan_def)
  ultimately show ?thesis using assms(4) by (auto simp: StickyBalanceStrategy_Plan_def)
next
  case False
  obtain c2p p2c st where pot: "potentials members topics = (c2p, p2c)" "potentials_ok c2p p2c" "unassigned_start c2p p2c st"
    and eq: "StickyBalanceStrategy_Plan members topics plan =
      map_option (map_option (\<lambda>st'. (0, plan_of (currentAssignment st'))))
        (balance [] (sortPartitionsByPotentialConsumerAssignments p2c) (map fst p2c) c2p p2c st)"
    by (rule Plan_start [OF assms(1-3) False, of plan])
  from assms(4) eq obtain r' where r': "balance [] (sortPartitionsByPotentialConsumerAssignments p2c) (map fst p2c) c2p p2c st = Some r'"
    and r: "r = map_option (\<lambda>st'. (0, plan_of (currentAssignment st'))) r'" by auto
  from balance_fair [OF pot(2,3) r'] obtain st' where "r' = Some st'" "fair c2p p2c (currentAssignment st')" by blast
  with r fair_plan_of [OF assms(1,2) pot(1)] show ?thesis by simp
qed

end
