(* ===== verification/Sticky_Termination.thy ===== *)
theory Sticky_Termination
  imports Sticky_Plan
begin

text \<open>
  When the sticky strategy returns.  With equal subscriptions the first assignment is already balanced, so that the loop
  ends after one pass.  When every topic has one partition no move can be redirected to another partition; then every move
  makes the sum of the squares of the loads smaller.
\<close>

section \<open>A pass as a sequence of moves\<close>

lemma reassign_pass_Cons:
  assumes pot: "potentials_ok c2p p2c" and inv: "sticky_inv c2p p2c st"
    and two: "\<forall>q \<in> set (p # ps). 2 \<le> length (consumers_of p2c q)"
  shows "\<not> overfull p2c st p \<Longrightarrow> reassign_pass [] c2p p2c (p # ps) modified st = reassign_pass [] c2p p2c ps modified st"
    and "overfull p2c st p \<Longrightarrow> reassign_one [] c2p p2c p st = Some (True, st') \<Longrightarrow>
      reassign_pass [] c2p p2c (p # ps) modified st = reassign_pass [] c2p p2c ps True st'"
proof -
  have as: "assigned c2p p2c st" using inv by (simp add: sticky_inv_def)
  obtain b where b: "isBalanced (currentAssignment st) c2p = Some b" "\<And>p. b \<Longrightarrow> \<not> overfull p2c st p"
    using isBalanced_total [OF pot as] by blast
  have two': "2 \<le> length (consumers_of p2c p)" using two by simp
  show "reassign_pass [] c2p p2c (p # ps) modified st = reassign_pass [] c2p p2c ps modified st" if "\<not> overfull p2c st p"
  proof (cases b)
    case True
    then have "reassign_pass [] c2p p2c ps modified st = Some (modified, st)" using b two by (intro reassign_pass_balanced [OF pot inv]) simp
    with True b(1) show ?thesis by simp
  next
    case False
    with b(1) reassign_one_cases(1) [OF pot inv two' that] show ?thesis by simp
  qed
  show "reassign_pass [] c2p p2c (p # ps) modified st = reassign_pass [] c2p p2c ps True st'"
    if "overfull p2c st p" "reassign_one [] c2p p2c p st = Some (True, st')"
  proof -
    have "\<not> b" using b(2) that(1) by blast
    with b(1) that(2) show ?thesis by simp
  qed
qed

section \<open>Equal subscriptions\<close>

definition even_load :: "assignment \<Rightarrow> bool" where
  "even_load st \<longleftrightarrow> (\<forall>m \<in> active st. \<forall>m' \<in> active st. length (holds st m) \<le> length (holds st m') + 1)"

lemma assign_unassigned_even:
  assumes pot: "potentials_ok c2p p2c" and all: "\<And>p. consumers_of p2c p \<noteq> [] \<Longrightarrow> set (consumers_of p2c p) = fst ` set c2p"
    and st: "started c2p p2c st" "even_load st" and ps: "distinct ps" "\<forall>p \<in> set ps. owner_of st p = None"
  shows "even_load (assign_unassigned ps c2p p2c st)"
  using st ps
proof (induction ps arbitrary: st)
  case (Cons p ps)
  show ?case
  proof (cases "consumers_of p2c p = []")
    case True
    with Cons show ?thesis by (simp add: assign_unassigned_def)
  next
    case False
    have "owner_of st p = None" using Cons.prems(4) by simp
    from assignPartition_started [OF pot Cons.prems(1) this False] obtain n where
      n: "least_loaded p2c st p n" and st1: "started c2p p2c (assignPartition c2p p st)"
        "owner_of (assignPartition c2p p st) = (owner_of st)(p \<mapsto> n)"
      and H: "\<And>m. holds (assignPartition c2p p st) m = (if m = n then holds st m @ [p] else holds st m)" by blast
    have act: "active st = fst ` set c2p" "active (assignPartition c2p p st) = fst ` set c2p"
      using Cons.prems(1) st1(1) by (simp_all add: started_def)
    have least: "length (holds st n) \<le> length (holds st m)" if "m \<in> active st" for m
    proof -
      have "m \<in> set (consumers_of p2c p) \<inter> active st" using that all [OF False] act(1) by simp
      then have "(length (holds st n), n) \<le> (length (holds st m), m)" using n unfolding least_loaded_def by blast
      then show ?thesis by auto
    qed
    have "length (holds (assignPartition c2p p st) m) \<le> length (holds (assignPartition c2p p st) m') + 1"
      if "m \<in> active st" "m' \<in> active st" for m m'
    proof -
      have "length (holds st m) \<le> length (holds st m') + 1" using Cons.prems(2) that unfolding even_load_def by blast
      with least [OF that(2)] show ?thesis by (auto simp: H)
    qed
    then have even: "even_load (assignPartition c2p p st)" unfolding even_load_def act by (simp only: Ball_def) iprover
    have free: "\<forall>q \<in> set ps. owner_of (assignPartition c2p p st) q = None" "distinct ps"
      using Cons.prems(3,4) by (auto simp: st1(2))
    from Cons.IH [OF st1(1) even free(2,1)] False show ?thesis by (simp add: assign_unassigned_def)
  qed
qed (simp add: assign_unassigned_def)

lemma balance_returns_even:
  assumes pot: "potentials_ok c2p p2c" and all: "\<And>p. consumers_of p2c p \<noteq> [] \<Longrightarrow> set (consumers_of p2c p) = fst ` set c2p"
    and st: "unassigned_start c2p p2c st"
  shows "\<exists>r. balance [] (sortPartitionsByPotentialConsumerAssignments p2c) (map fst p2c) c2p p2c st = Some r"
proof -
  let ?st1 = "assign_unassigned (map fst p2c) c2p p2c st"
  let ?ps = "filter (\<lambda>part. \<not> (part \<in> set (map fst p2c) \<and> \<not> canTopicPartitionParticipateInReassignment part p2c))
    (sortPartitionsByPotentialConsumerAssignments p2c)"
  have sp: "smap p2c" using pot by (simp add: potentials_ok_def)
  have st0: "started c2p p2c st" "\<forall>p \<in> set (map fst p2c). owner_of st p = None"
    using st by (simp_all add: unassigned_start_def)
  have "p \<notin> set (holds st m)" for p m using st unfolding unassigned_start_def started_def by simp
  then have "holds st m = []" for m using hd_in_set by blast
  then have "even_load st" by (simp add: even_load_def)
  then have even: "even_load ?st1" using smap_distinct [OF sp] st0 by (intro assign_unassigned_even [OF pot all]) simp_all
  have act1: "active ?st1 = fst ` set c2p"
    using assign_unassigned_started [OF pot st0(1) smap_distinct [OF sp] st0(2)] by (simp add: started_def)
  obtain F st2 where fixed: "fold (fix_member c2p p2c) (map fst c2p) ([], ?st1) = (F, st2)" by fastforce
  note start = balance_start [OF pot st fixed]
  have as: "assigned c2p p2c st2" using start(1) by (simp add: sticky_inv_def)
  have quiet: "\<not> overfull p2c st2 p" if two: "2 \<le> length (consumers_of p2c p)" for p
  proof
    assume "overfull p2c st2 p"
    then obtain c m where c: "owner_of st2 p = Some c" "m \<in> set (consumers_of p2c p)" "much_larger c m st2"
      by (auto simp: overfull_def)
    obtain c' where "owner_of st2 p = Some c'" "c' \<in> set (consumers_of p2c p)" and sub: "set (consumers_of p2c p) \<subseteq> active st2"
      by (rule movable [OF pot as two])
    then have "c \<in> active st2" "m \<in> active st2" using c(1,2) sub by auto
    then have "c \<in> active ?st1" "m \<in> active ?st1" "holds st2 c = holds ?st1 c" "holds st2 m = holds ?st1 m"
      unfolding act1 using start(3) start(4) [of c] start(4) [of m] by blast+
    then show False using even c(3) unfolding even_load_def much_larger_def by fastforce
  qed
  have "performReassignments ?ps [] c2p p2c False st2 = Some (Some (False, st2))"
    using quiet sorted_reassignable [OF sp] by (intro performReassignments_balanced [OF pot start(1)]) blast
  then show ?thesis unfolding balance_def Let_def fixed by simp
qed

lemma Plan_returns_equal:
  assumes members: "smap members" and topics: "smap topics" and named: "[] \<notin> fst ` set members"
    and eq: "\<And>m m'. m \<in> fst ` set members \<Longrightarrow> m' \<in> fst ` set members \<Longrightarrow>
      set (entry_of m members) = set (entry_of m' members)"
  shows "\<exists>r. StickyBalanceStrategy_Plan members topics plan = Some r"
proof (cases "topics = []")
  case True
  then show ?thesis by (simp add: StickyBalanceStrategy_Plan_def)
next
  case False
  obtain c2p p2c st where pot: "potentials members topics = (c2p, p2c)" "potentials_ok c2p p2c" "unassigned_start c2p p2c st"
    and plan: "StickyBalanceStrategy_Plan members topics plan =
      map_option (map_option (\<lambda>st'. (0, plan_of (currentAssignment st'))))
        (balance [] (sortPartitionsByPotentialConsumerAssignments p2c) (map fst p2c) c2p p2c st)"
    by (rule Plan_start [OF members topics named False, of plan])
  note f = potentials_facts [OF members topics pot(1)]
  have "set (consumers_of p2c p) = fst ` set c2p" if "consumers_of p2c p \<noteq> []" for p
  proof
    show "set (consumers_of p2c p) \<subseteq> fst ` set c2p" using consumer_subscribed [OF pot(2)] by blast
    have "hd (consumers_of p2c p) \<in> set (consumers_of p2c p)" using that by simp
    then have m: "hd (consumers_of p2c p) \<in> fst ` set members"
        "m_topic p \<in> set (entry_of (hd (consumers_of p2c p)) members)" "m_partition p \<in> set (entry_of (m_topic p) topics)"
      using consumer_subscribed [OF pot(2)] f(1,6) by blast+
    show "fst ` set c2p \<subseteq> set (consumers_of p2c p)" unfolding f(1) using eq [OF m(1)] m(2,3) f(6) by blast
  qed
  from balance_returns_even [OF pot(2) this pot(3)] plan show ?thesis by auto
qed

section \<open>One partition per topic\<close>

definition spread :: "assignment \<Rightarrow> nat" where
  "spread st = (\<Sum>m \<in> active st. (length (holds st m))\<^sup>2)"

lemma spread_decreases:
  assumes mv: "moved_to p n st st'" and c: "owner_of st p = Some c" and le: "length (holds st n) + 1 < length (holds st c)"
  shows "spread st' < spread st"
proof -
  have ca: "c \<in> active st" "n \<in> active st" "c \<noteq> n" "active st' = active st" using mv c unfolding moved_to_def by auto
  have L: "length (holds st' m) = (if m = n then Suc (length (holds st m)) else if m = c then length (holds st m) - 1
      else length (holds st m))" for m using mv c unfolding moved_to_def by blast
  let ?R = "active st - {c} - {n}"
  have split: "spread s = (length (holds s c))\<^sup>2 + ((length (holds s n))\<^sup>2 + (\<Sum>m \<in> ?R. (length (holds s m))\<^sup>2))"
    if "active s = active st" for s
    unfolding spread_def that using ca(1-3) by (simp add: sum.remove [of _ c] sum.remove [of _ n])
  have "(\<Sum>m \<in> ?R. (length (holds st' m))\<^sup>2) = (\<Sum>m \<in> ?R. (length (holds st m))\<^sup>2)"
    by (intro sum.cong) (simp_all add: L)
  moreover have "(Suc x)\<^sup>2 + (y - 1)\<^sup>2 < x\<^sup>2 + y\<^sup>2" if "x + 1 < y" for x y :: nat
  proof -
    have "y = x + 2 + (y - x - 2)" using that by simp
    then obtain k where "y = x + 2 + k" by blast
    then show ?thesis by (simp add: power2_eq_square algebra_simps)
  qed
  from this [OF le] have "(length (holds st' n))\<^sup>2 + (length (holds st' c))\<^sup>2 < (length (holds st n))\<^sup>2 + (length (holds st c))\<^sup>2"
    using ca(3) by (simp add: L)
  ultimately show ?thesis using split [of st] split [OF ca(4)] by simp
qed

definition single_partitions :: "potential_consumers \<Rightarrow> bool" where
  "single_partitions p2c \<longleftrightarrow> (\<forall>p \<in> fst ` set p2c. \<forall>q \<in> fst ` set p2c. m_topic p = m_topic q \<longrightarrow> p = q)"

lemma reassign_one_spread:
  assumes pot: "potentials_ok c2p p2c" and single: "single_partitions p2c" and inv: "sticky_inv c2p p2c st"
    and two: "2 \<le> length (consumers_of p2c p)" and over: "overfull p2c st p"
  shows "\<exists>st'. reassign_one [] c2p p2c p st = Some (True, st') \<and> sticky_inv c2p p2c st' \<and> spread st' < spread st"
proof -
  from reassign_one_cases(2) [OF pot inv two over] obtain c n q where c: "owner_of st p = Some c" and n: "least_loaded p2c st p n"
    and q: "q = get_the_actual_partition_to_be_moved p c n (movements st)"
    and step: "reassign_one [] c2p p2c p st = Some (True, processPartitionMovement q n st)"
      "sticky_inv c2p p2c (processPartitionMovement q n st)" "moved_to q n st (processPartitionMovement q n st)" by blast
  have as: "assigned c2p p2c st" and mo: "moved_ok st" using inv by (simp_all add: sticky_inv_def)
  have cons: "p \<in> fst ` set p2c" if "owner_of st p = Some m" for p m
  proof (rule consumers_key)
    show "m \<in> set (consumers_of p2c p)" using as that unfolding assigned_def by blast
  qed
  have "q = p"
  proof (rule ccontr)
    assume "q \<noteq> p"
    with actual_partition [OF mo c, of n] obtain pair where "m_topic q = m_topic p" "map_of (Movements (movements st)) q = Some pair"
      by (auto simp: q)
    then have pair: "m_topic q = m_topic p" "map_of (Movements (movements st)) q = Some pair" by simp_all
    from mo pair(2) have "owner_of st q = Some (DstMemberID pair)" unfolding moved_ok_def by blast
    from single cons [OF this] cons [OF c] pair(1) have "q = p" unfolding single_partitions_def by (simp only: Ball_def)
    with \<open>q \<noteq> p\<close> show False ..
  qed
  obtain m where m: "m \<in> set (consumers_of p2c p)" "much_larger c m st" using over c by (auto simp: overfull_def)
  obtain c' where "set (consumers_of p2c p) \<subseteq> active st" by (rule movable [OF pot as two])
  then have "(length (holds st n), n) \<le> (length (holds st m), m)" using n m(1) unfolding least_loaded_def by blast
  then have "length (holds st n) + 1 < length (holds st c)" using m(2) by (auto simp: much_larger_def)
  from spread_decreases [OF _ c this] step(3) \<open>q = p\<close> have "spread (processPartitionMovement q n st) < spread st" by simp
  with step show ?thesis by blast
qed

lemma reassign_pass_spread:
  assumes pot: "potentials_ok c2p p2c" and single: "single_partitions p2c" and inv: "sticky_inv c2p p2c st"
    and two: "\<forall>q \<in> set ps. 2 \<le> length (consumers_of p2c q)" and pass: "reassign_pass [] c2p p2c ps modified st = Some (modified', st')"
  shows "sticky_inv c2p p2c st' \<and> (modified' = modified \<and> st' = st \<or> modified' \<and> spread st' < spread st)"
  using inv two pass
proof (induction ps arbitrary: modified st)
  case (Cons p ps)
  have two: "2 \<le> length (consumers_of p2c p)" "\<forall>q \<in> set ps. 2 \<le> length (consumers_of p2c q)" using Cons.prems(2) by simp_all
  note cons = reassign_pass_Cons [OF pot Cons.prems(1,2), where modified = modified]
  show ?case
  proof (cases "overfull p2c st p")
    case True
    obtain st1 where st1: "reassign_one [] c2p p2c p st = Some (True, st1)" "sticky_inv c2p p2c st1" "spread st1 < spread st"
      using reassign_one_spread [OF pot single Cons.prems(1) two(1) True] by blast
    have "reassign_pass [] c2p p2c ps True st1 = Some (modified', st')" using cons(2) [OF True st1(1)] Cons.prems(3) by simp
    from Cons.IH [OF st1(2) two(2) this] st1(3) show ?thesis by auto
  next
    case False
    have "reassign_pass [] c2p p2c ps modified st = Some (modified', st')" using cons(1) [OF False] Cons.prems(3) by simp
    from Cons.IH [OF Cons.prems(1) two(2) this] show ?thesis .
  qed
qed simp

lemma performReassignments_returns:
  assumes pot: "potentials_ok c2p p2c" and single: "single_partitions p2c"
    and two: "\<forall>q \<in> set ps. 2 \<le> length (consumers_of p2c q)" and inv: "sticky_inv c2p p2c st"
  shows "\<exists>r. performReassignments ps [] c2p p2c performed st = Some r"
  using inv
proof (induction "spread st" arbitrary: performed st rule: less_induct)
  case less
  obtain modified st' where pass: "reassign_pass [] c2p p2c ps False st = Some (modified, st')"
    using reassign_pass_total [OF pot less.prems two, of False] by blast
  from reassign_pass_spread [OF pot single less.prems two pass]
  have kept: "sticky_inv c2p p2c st'" "modified \<Longrightarrow> spread st' < spread st" by blast+
  show ?case
  proof (cases modified)
    case True
    with less.hyps [OF kept(2) kept(1)] pass show ?thesis by (subst performReassignments.simps) simp
  next
    case False
    with pass show ?thesis by (subst performReassignments.simps) simp
  qed
qed

lemma Plan_returns_single:
  assumes members: "smap members" and topics: "smap topics" and named: "[] \<notin> fst ` set members"
    and single: "\<And>t. length (entry_of t topics) \<le> 1"
  shows "\<exists>r. StickyBalanceStrategy_Plan members topics plan = Some r"
proof (cases "topics = []")
  case True
  then show ?thesis by (simp add: StickyBalanceStrategy_Plan_def)
next
  case False
  obtain c2p p2c st where pot: "potentials members topics = (c2p, p2c)" "potentials_ok c2p p2c" "unassigned_start c2p p2c st"
    and plan: "StickyBalanceStrategy_Plan members topics plan =
      map_option (map_option (\<lambda>st'. (0, plan_of (currentAssignment st'))))
        (balance [] (sortPartitionsByPotentialConsumerAssignments p2c) (map fst p2c) c2p p2c st)"
    by (rule Plan_start [OF members topics named False, of plan])
  note f = potentials_facts [OF members topics pot(1)]
  have "p = q" if "m_partition p \<in> set (entry_of (m_topic p) topics)" "m_partition q \<in> set (entry_of (m_topic q) topics)"
      "m_topic p = m_topic q" for p q
  proof -
    have "m_partition p = m_partition q" using that single [of "m_topic q"] by (cases "entry_of (m_topic q) topics") auto
    with that(3) show ?thesis by (simp add: topic_t.expand)
  qed
  then have sp: "single_partitions p2c" unfolding single_partitions_def f(2) by (intro ballI impI) (simp only: mem_Collect_eq)
  have smp: "smap p2c" using pot(2) by (simp add: potentials_ok_def)
  let ?ps = "filter (\<lambda>part. \<not> (part \<in> set (map fst p2c) \<and> \<not> canTopicPartitionParticipateInReassignment part p2c))
    (sortPartitionsByPotentialConsumerAssignments p2c)"
  obtain F st2 where fixed: "fold (fix_member c2p p2c) (map fst c2p) ([], assign_unassigned (map fst p2c) c2p p2c st) = (F, st2)"
    by fastforce
  note start = balance_start [OF pot(2,3) fixed]
  have "\<forall>q \<in> set ?ps. 2 \<le> length (consumers_of p2c q)" using sorted_reassignable [OF smp] by blast
  then obtain r where "performReassignments ?ps [] c2p p2c False st2 = Some r"
    using performReassignments_returns [OF pot(2) sp _ start(1), of ?ps False] by blast
  then have "balance [] (sortPartitionsByPotentialConsumerAssignments p2c) (map fst p2c) c2p p2c st \<noteq> None"
    unfolding balance_def Let_def fixed by (cases r) auto
  with plan show ?thesis by auto
qed

end
