(* ===== verification/Sticky_Divergence.thy ===== *)
theory Sticky_Divergence
  imports Sticky_Termination
begin

text \<open>
  An input for which the sticky strategy does not return: five members, five topics, 26 partitions.  From the third pass on
  every pass moves the first partition of the first topic from member 0 to member 2 and back.  The second move is meant
  for the other partition of that topic; \<^verbatim>\<open>get_the_actual_partition_to_be_moved\<close> takes the partition that was moved
  the opposite way before, whose move does not relieve the member with too many partitions by the one that was asked for.
  The states of the run are \<open>run_0\<close> (nothing assigned), \<open>run_1\<close> (everything assigned) and the states after each move.
\<close>

definition mem :: "nat \<Rightarrow> bytes" where "mem i = [[48], [49], [50], [51], [52]] ! i"
definition tpc :: "nat \<Rightarrow> bytes" where "tpc i = [[97], [98], [99], [100], [101]] ! i"

definition part :: "nat \<Rightarrow> topic_t" where
  "part i = [topic_t (tpc 0) 0, topic_t (tpc 0) 1, topic_t (tpc 1) 0, topic_t (tpc 1) 1, topic_t (tpc 1) 2, topic_t
    (tpc 1) 3, topic_t (tpc 1) 4, topic_t (tpc 1) 5, topic_t (tpc 1) 6, topic_t (tpc 2) 0, topic_t (tpc 2) 1, topic_t
    (tpc 3) 0, topic_t (tpc 3) 1, topic_t (tpc 3) 2, topic_t (tpc 4) 0, topic_t (tpc 4) 1, topic_t (tpc 4) 2, topic_t
    (tpc 4) 3, topic_t (tpc 4) 4, topic_t (tpc 4) 5, topic_t (tpc 4) 6, topic_t (tpc 4) 7, topic_t (tpc 4) 8, topic_t
    (tpc 4) 9, topic_t (tpc 4) 10, topic_t (tpc 4) 11] ! i"

definition loop_members :: members where
  "loop_members = [(mem 0, [tpc 0, tpc 1]), (mem 1, [tpc 1, tpc 2, tpc 4]), (mem 2, [tpc 0, tpc 3]), (mem 3, [tpc 2, tpc 4]), (mem 4, [tpc 0, tpc 1, tpc 2])]"

definition loop_topics :: topics where
  "loop_topics =
    [(tpc 0, [0, 1]), (tpc 1, [0, 1, 2, 3, 4, 5, 6]), (tpc 2, [0, 1]), (tpc 3, [0, 1, 2]), (tpc 4, [0, 1, 2, 3, 4, 5, 6, 7, 8, 9, 10, 11])]"

definition loop_c2p :: potential_partitions where
  "loop_c2p = [(mem 0, [part 0, part 1, part 2, part 3, part 4, part 5, part 6, part 7, part 8]), (mem 1, [part 2,
    part 3, part 4, part 5, part 6, part 7, part 8, part 9, part 10, part 14, part 15, part 16, part 17, part 18, part
    19, part 20, part 21, part 22, part 23, part 24, part 25]), (mem 2, [part 0, part 1, part 11, part 12, part 13]),
    (mem 3, [part 9, part 10, part 14, part 15, part 16, part 17, part 18, part 19, part 20, part 21, part 22, part
    23, part 24, part 25]), (mem 4, [part 0, part 1, part 2, part 3, part 4, part 5, part 6, part 7, part 8, part 9,
    part 10])]"

definition loop_p2c :: potential_consumers where
  "loop_p2c = [(part 0, [mem 0, mem 2, mem 4]), (part 1, [mem 0, mem 2, mem 4]), (part 2, [mem 0, mem 1, mem 4]),
    (part 3, [mem 0, mem 1, mem 4]), (part 4, [mem 0, mem 1, mem 4]), (part 5, [mem 0, mem 1, mem 4]), (part 6, [mem
    0, mem 1, mem 4]), (part 7, [mem 0, mem 1, mem 4]), (part 8, [mem 0, mem 1, mem 4]), (part 9, [mem 1, mem 3, mem
    4]), (part 10, [mem 1, mem 3, mem 4]), (part 11, [mem 2]), (part 12, [mem 2]), (part 13, [mem 2]), (part 14, [mem
    1, mem 3]), (part 15, [mem 1, mem 3]), (part 16, [mem 1, mem 3]), (part 17, [mem 1, mem 3]), (part 18, [mem 1, mem
    3]), (part 19, [mem 1, mem 3]), (part 20, [mem 1, mem 3]), (part 21, [mem 1, mem 3]), (part 22, [mem 1, mem 3]),
    (part 23, [mem 1, mem 3]), (part 24, [mem 1, mem 3]), (part 25, [mem 1, mem 3])]"

definition run_0 :: assignment where
  "run_0 = \<lparr>currentAssignment = [(mem 0, []), (mem 1, []), (mem 2, []), (mem 3, []), (mem 4, [])],
    sortedCurrentSubscriptions = [mem 0, mem 1, mem 2, mem 3, mem 4],
    currentPartitionConsumer = [],
    movements = \<lparr>PartitionMovementsByTopic = [],
      Movements = []\<rparr>\<rparr>"

definition run_1 :: assignment where
  "run_1 = \<lparr>currentAssignment = [(mem 0, [part 0, part 4, part 7]), (mem 1, [part 2, part 5, part 8, part 15,
    part 17, part 19, part 21, part 23, part 25]), (mem 2, [part 1, part 11, part 12, part 13]), (mem 3, [part 9, part
    10, part 14, part 16, part 18, part 20, part 22, part 24]), (mem 4, [part 3, part 6])],
    sortedCurrentSubscriptions = [mem 4, mem 0, mem 2, mem 3, mem 1],
    currentPartitionConsumer = [(part 0, mem 0), (part 1, mem 2), (part 2, mem 1), (part 3, mem 4), (part 4, mem 0),
      (part 5, mem 1), (part 6, mem 4), (part 7, mem 0), (part 8, mem 1), (part 9, mem 3), (part 10, mem 3), (part 11,
      mem 2), (part 12, mem 2), (part 13, mem 2), (part 14, mem 3), (part 15, mem 1), (part 16, mem 3), (part 17, mem
      1), (part 18, mem 3), (part 19, mem 1), (part 20, mem 3), (part 21, mem 1), (part 22, mem 3), (part 23, mem 1),
      (part 24, mem 3), (part 25, mem 1)],
    movements = \<lparr>PartitionMovementsByTopic = [],
      Movements = []\<rparr>\<rparr>"

definition run_2 :: assignment where
  "run_2 = \<lparr>currentAssignment = [(mem 0, [part 0, part 4, part 7]), (mem 1, [part 2, part 5, part 8, part 15,
    part 17, part 19, part 21, part 23, part 25]), (mem 2, [part 11, part 12, part 13]), (mem 3, [part 9, part 10,
    part 14, part 16, part 18, part 20, part 22, part 24]), (mem 4, [part 3, part 6, part 1])],
    sortedCurrentSubscriptions = [mem 0, mem 2, mem 4, mem 3, mem 1],
    currentPartitionConsumer = [(part 0, mem 0), (part 1, mem 4), (part 2, mem 1), (part 3, mem 4), (part 4, mem 0),
      (part 5, mem 1), (part 6, mem 4), (part 7, mem 0), (part 8, mem 1), (part 9, mem 3), (part 10, mem 3), (part 11,
      mem 2), (part 12, mem 2), (part 13, mem 2), (part 14, mem 3), (part 15, mem 1), (part 16, mem 3), (part 17, mem
      1), (part 18, mem 3), (part 19, mem 1), (part 20, mem 3), (part 21, mem 1), (part 22, mem 3), (part 23, mem 1),
      (part 24, mem 3), (part 25, mem 1)],
    movements = \<lparr>PartitionMovementsByTopic = [(tpc 0, [(consumer_movement (mem 2) (mem 4), [(part 1,
      True)])])],
      Movements = [(part 1, consumer_movement (mem 2) (mem 4))]\<rparr>\<rparr>"

definition run_3 :: assignment where
  "run_3 = \<lparr>currentAssignment = [(mem 0, [part 0, part 4, part 7, part 2]), (mem 1, [part 5, part 8, part 15,
    part 17, part 19, part 21, part 23, part 25]), (mem 2, [part 11, part 12, part 13]), (mem 3, [part 9, part 10,
    part 14, part 16, part 18, part 20, part 22, part 24]), (mem 4, [part 3, part 6, part 1])],
    sortedCurrentSubscriptions = [mem 2, mem 4, mem 0, mem 1, mem 3],
    currentPartitionConsumer = [(part 0, mem 0), (part 1, mem 4), (part 2, mem 0), (part 3, mem 4), (part 4, mem 0),
      (part 5, mem 1), (part 6, mem 4), (part 7, mem 0), (part 8, mem 1), (part 9, mem 3), (part 10, mem 3), (part 11,
      mem 2), (part 12, mem 2), (part 13, mem 2), (part 14, mem 3), (part 15, mem 1), (part 16, mem 3), (part 17, mem
      1), (part 18, mem 3), (part 19, mem 1), (part 20, mem 3), (part 21, mem 1), (part 22, mem 3), (part 23, mem 1),
      (part 24, mem 3), (part 25, mem 1)],
    movements = \<lparr>PartitionMovementsByTopic = [(tpc 0, [(consumer_movement (mem 2) (mem 4), [(part 1, True)])]),
      (tpc 1, [(consumer_movement (mem 1) (mem 0), [(part 2, True)])])],
      Movements = [(part 1, consumer_movement (mem 2) (mem 4)), (part 2, consumer_movement (mem 1) (mem
        0))]\<rparr>\<rparr>"

definition run_4 :: assignment where
  "run_4 = \<lparr>currentAssignment = [(mem 0, [part 0, part 4, part 7, part 2]), (mem 1, [part 8, part 15, part 17,
    part 19, part 21, part 23, part 25]), (mem 2, [part 11, part 12, part 13]), (mem 3, [part 9, part 10, part 14,
    part 16, part 18, part 20, part 22, part 24]), (mem 4, [part 3, part 6, part 1, part 5])],
    sortedCurrentSubscriptions = [mem 2, mem 0, mem 4, mem 1, mem 3],
    currentPartitionConsumer = [(part 0, mem 0), (part 1, mem 4), (part 2, mem 0), (part 3, mem 4), (part 4, mem 0),
      (part 5, mem 4), (part 6, mem 4), (part 7, mem 0), (part 8, mem 1), (part 9, mem 3), (part 10, mem 3), (part 11,
      mem 2), (part 12, mem 2), (part 13, mem 2), (part 14, mem 3), (part 15, mem 1), (part 16, mem 3), (part 17, mem
      1), (part 18, mem 3), (part 19, mem 1), (part 20, mem 3), (part 21, mem 1), (part 22, mem 3), (part 23, mem 1),
      (part 24, mem 3), (part 25, mem 1)],
    movements = \<lparr>PartitionMovementsByTopic = [(tpc 0, [(consumer_movement (mem 2) (mem 4), [(part 1, True)])]),
      (tpc 1, [(consumer_movement (mem 1) (mem 0), [(part 2, True)]), (consumer_movement (mem 1) (mem 4), [(part 5,
      True)])])],
      Movements = [(part 1, consumer_movement (mem 2) (mem 4)), (part 2, consumer_movement (mem 1) (mem 0)), (part 5,
        consumer_movement (mem 1) (mem 4))]\<rparr>\<rparr>"

definition run_5 :: assignment where
  "run_5 = \<lparr>currentAssignment = [(mem 0, [part 0, part 4, part 7, part 2, part 8]), (mem 1, [part 15, part 17,
    part 19, part 21, part 23, part 25]), (mem 2, [part 11, part 12, part 13]), (mem 3, [part 9, part 10, part 14,
    part 16, part 18, part 20, part 22, part 24]), (mem 4, [part 3, part 6, part 1, part 5])],
    sortedCurrentSubscriptions = [mem 2, mem 4, mem 0, mem 1, mem 3],
    currentPartitionConsumer = [(part 0, mem 0), (part 1, mem 4), (part 2, mem 0), (part 3, mem 4), (part 4, mem 0),
      (part 5, mem 4), (part 6, mem 4), (part 7, mem 0), (part 8, mem 0), (part 9, mem 3), (part 10, mem 3), (part 11,
      mem 2), (part 12, mem 2), (part 13, mem 2), (part 14, mem 3), (part 15, mem 1), (part 16, mem 3), (part 17, mem
      1), (part 18, mem 3), (part 19, mem 1), (part 20, mem 3), (part 21, mem 1), (part 22, mem 3), (part 23, mem 1),
      (part 24, mem 3), (part 25, mem 1)],
    movements = \<lparr>PartitionMovementsByTopic = [(tpc 0, [(consumer_movement (mem 2) (mem 4), [(part 1, True)])]),
      (tpc 1, [(consumer_movement (mem 1) (mem 0), [(part 2, True), (part 8, True)]), (consumer_movement (mem 1) (mem
      4), [(part 5, True)])])],
      Movements = [(part 1, consumer_movement (mem 2) (mem 4)), (part 2, consumer_movement (mem 1) (mem 0)), (part 5,
        consumer_movement (mem 1) (mem 4)), (part 8, consumer_movement (mem 1) (mem 0))]\<rparr>\<rparr>"

definition run_6 :: assignment where
  "run_6 = \<lparr>currentAssignment = [(mem 0, [part 0, part 4, part 7, part 2, part 8]), (mem 1, [part 15, part 17,
    part 19, part 21, part 23, part 25]), (mem 2, [part 11, part 12, part 13]), (mem 3, [part 10, part 14, part 16,
    part 18, part 20, part 22, part 24]), (mem 4, [part 3, part 6, part 1, part 5, part 9])],
    sortedCurrentSubscriptions = [mem 2, mem 0, mem 4, mem 1, mem 3],
    currentPartitionConsumer = [(part 0, mem 0), (part 1, mem 4), (part 2, mem 0), (part 3, mem 4), (part 4, mem 0),
      (part 5, mem 4), (part 6, mem 4), (part 7, mem 0), (part 8, mem 0), (part 9, mem 4), (part 10, mem 3), (part 11,
      mem 2), (part 12, mem 2), (part 13, mem 2), (part 14, mem 3), (part 15, mem 1), (part 16, mem 3), (part 17, mem
      1), (part 18, mem 3), (part 19, mem 1), (part 20, mem 3), (part 21, mem 1), (part 22, mem 3), (part 23, mem 1),
      (part 24, mem 3), (part 25, mem 1)],
    movements = \<lparr>PartitionMovementsByTopic = [(tpc 0, [(consumer_movement (mem 2) (mem 4), [(part 1, True)])]),
      (tpc 1, [(consumer_movement (mem 1) (mem 0), [(part 2, True), (part 8, True)]), (consumer_movement (mem 1) (mem
      4), [(part 5, True)])]), (tpc 2, [(consumer_movement (mem 3) (mem 4), [(part 9, True)])])],
      Movements = [(part 1, consumer_movement (mem 2) (mem 4)), (part 2, consumer_movement (mem 1) (mem 0)), (part 5,
        consumer_movement (mem 1) (mem 4)), (part 8, consumer_movement (mem 1) (mem 0)), (part 9, consumer_movement
        (mem 3) (mem 4))]\<rparr>\<rparr>"

definition run_7 :: assignment where
  "run_7 = \<lparr>currentAssignment = [(mem 0, [part 0, part 4, part 7, part 2, part 8]), (mem 1, [part 15, part 17,
    part 19, part 21, part 23, part 25]), (mem 2, [part 11, part 12, part 13]), (mem 3, [part 14, part 16, part 18,
    part 20, part 22, part 24]), (mem 4, [part 3, part 6, part 1, part 5, part 9, part 10])],
    sortedCurrentSubscriptions = [mem 2, mem 0, mem 1, mem 3, mem 4],
    currentPartitionConsumer = [(part 0, mem 0), (part 1, mem 4), (part 2, mem 0), (part 3, mem 4), (part 4, mem 0),
      (part 5, mem 4), (part 6, mem 4), (part 7, mem 0), (part 8, mem 0), (part 9, mem 4), (part 10, mem 4), (part 11,
      mem 2), (part 12, mem 2), (part 13, mem 2), (part 14, mem 3), (part 15, mem 1), (part 16, mem 3), (part 17, mem
      1), (part 18, mem 3), (part 19, mem 1), (part 20, mem 3), (part 21, mem 1), (part 22, mem 3), (part 23, mem 1),
      (part 24, mem 3), (part 25, mem 1)],
    movements = \<lparr>PartitionMovementsByTopic = [(tpc 0, [(consumer_movement (mem 2) (mem 4), [(part 1, True)])]),
      (tpc 1, [(consumer_movement (mem 1) (mem 0), [(part 2, True), (part 8, True)]), (consumer_movement (mem 1) (mem
      4), [(part 5, True)])]), (tpc 2, [(consumer_movement (mem 3) (mem 4), [(part 9, True), (part 10, True)])])],
      Movements = [(part 1, consumer_movement (mem 2) (mem 4)), (part 2, consumer_movement (mem 1) (mem 0)), (part 5,
        consumer_movement (mem 1) (mem 4)), (part 8, consumer_movement (mem 1) (mem 0)), (part 9, consumer_movement
        (mem 3) (mem 4)), (part 10, consumer_movement (mem 3) (mem 4))]\<rparr>\<rparr>"

definition run_8 :: assignment where
  "run_8 = \<lparr>currentAssignment = [(mem 0, [part 4, part 7, part 2, part 8]), (mem 1, [part 15, part 17, part 19,
    part 21, part 23, part 25]), (mem 2, [part 11, part 12, part 13, part 0]), (mem 3, [part 14, part 16, part 18,
    part 20, part 22, part 24]), (mem 4, [part 3, part 6, part 1, part 5, part 9, part 10])],
    sortedCurrentSubscriptions = [mem 0, mem 2, mem 1, mem 3, mem 4],
    currentPartitionConsumer = [(part 0, mem 2), (part 1, mem 4), (part 2, mem 0), (part 3, mem 4), (part 4, mem 0),
      (part 5, mem 4), (part 6, mem 4), (part 7, mem 0), (part 8, mem 0), (part 9, mem 4), (part 10, mem 4), (part 11,
      mem 2), (part 12, mem 2), (part 13, mem 2), (part 14, mem 3), (part 15, mem 1), (part 16, mem 3), (part 17, mem
      1), (part 18, mem 3), (part 19, mem 1), (part 20, mem 3), (part 21, mem 1), (part 22, mem 3), (part 23, mem 1),
      (part 24, mem 3), (part 25, mem 1)],
    movements = \<lparr>PartitionMovementsByTopic = [(tpc 0, [(consumer_movement (mem 0) (mem 2), [(part 0, True)]),
      (consumer_movement (mem 2) (mem 4), [(part 1, True)])]), (tpc 1, [(consumer_movement (mem 1) (mem 0), [(part 2,
      True), (part 8, True)]), (consumer_movement (mem 1) (mem 4), [(part 5, True)])]), (tpc 2, [(consumer_movement
      (mem 3) (mem 4), [(part 9, True), (part 10, True)])])],
      Movements = [(part 0, consumer_movement (mem 0) (mem 2)), (part 1, consumer_movement (mem 2) (mem 4)), (part 2,
        consumer_movement (mem 1) (mem 0)), (part 5, consumer_movement (mem 1) (mem 4)), (part 8, consumer_movement
        (mem 1) (mem 0)), (part 9, consumer_movement (mem 3) (mem 4)), (part 10, consumer_movement (mem 3) (mem
        4))]\<rparr>\<rparr>"

definition run_9 :: assignment where
  "run_9 = \<lparr>currentAssignment = [(mem 0, [part 4, part 7, part 2, part 8, part 0]), (mem 1, [part 15, part 17,
    part 19, part 21, part 23, part 25]), (mem 2, [part 11, part 12, part 13]), (mem 3, [part 14, part 16, part 18,
    part 20, part 22, part 24]), (mem 4, [part 3, part 6, part 1, part 5, part 9, part 10])],
    sortedCurrentSubscriptions = [mem 2, mem 0, mem 1, mem 3, mem 4],
    currentPartitionConsumer = [(part 0, mem 0), (part 1, mem 4), (part 2, mem 0), (part 3, mem 4), (part 4, mem 0),
      (part 5, mem 4), (part 6, mem 4), (part 7, mem 0), (part 8, mem 0), (part 9, mem 4), (part 10, mem 4), (part 11,
      mem 2), (part 12, mem 2), (part 13, mem 2), (part 14, mem 3), (part 15, mem 1), (part 16, mem 3), (part 17, mem
      1), (part 18, mem 3), (part 19, mem 1), (part 20, mem 3), (part 21, mem 1), (part 22, mem 3), (part 23, mem 1),
      (part 24, mem 3), (part 25, mem 1)],
    movements = \<lparr>PartitionMovementsByTopic = [(tpc 0, [(consumer_movement (mem 2) (mem 4), [(part 1, True)])]),
      (tpc 1, [(consumer_movement (mem 1) (mem 0), [(part 2, True), (part 8, True)]), (consumer_movement (mem 1) (mem
      4), [(part 5, True)])]), (tpc 2, [(consumer_movement (mem 3) (mem 4), [(part 9, True), (part 10, True)])])],
      Movements = [(part 1, consumer_movement (mem 2) (mem 4)), (part 2, consumer_movement (mem 1) (mem 0)), (part 5,
        consumer_movement (mem 1) (mem 4)), (part 8, consumer_movement (mem 1) (mem 0)), (part 9, consumer_movement
        (mem 3) (mem 4)), (part 10, consumer_movement (mem 3) (mem 4))]\<rparr>\<rparr>"

definition run_10 :: assignment where
  "run_10 = \<lparr>currentAssignment = [(mem 0, [part 4, part 7, part 2, part 8]), (mem 1, [part 15, part 17, part
    19, part 21, part 23, part 25]), (mem 2, [part 11, part 12, part 13, part 0]), (mem 3, [part 14, part 16, part 18,
    part 20, part 22, part 24]), (mem 4, [part 3, part 6, part 1, part 5, part 9, part 10])],
    sortedCurrentSubscriptions = [mem 0, mem 2, mem 1, mem 3, mem 4],
    currentPartitionConsumer = [(part 0, mem 2), (part 1, mem 4), (part 2, mem 0), (part 3, mem 4), (part 4, mem 0),
      (part 5, mem 4), (part 6, mem 4), (part 7, mem 0), (part 8, mem 0), (part 9, mem 4), (part 10, mem 4), (part 11,
      mem 2), (part 12, mem 2), (part 13, mem 2), (part 14, mem 3), (part 15, mem 1), (part 16, mem 3), (part 17, mem
      1), (part 18, mem 3), (part 19, mem 1), (part 20, mem 3), (part 21, mem 1), (part 22, mem 3), (part 23, mem 1),
      (part 24, mem 3), (part 25, mem 1)],
    movements = \<lparr>PartitionMovementsByTopic = [(tpc 0, [(consumer_movement (mem 0) (mem 2), [(part 0, True)]),
      (consumer_movement (mem 2) (mem 4), [(part 1, True)])]), (tpc 1, [(consumer_movement (mem 1) (mem 0), [(part 2,
      True), (part 8, True)]), (consumer_movement (mem 1) (mem 4), [(part 5, True)])]), (tpc 2, [(consumer_movement
      (mem 3) (mem 4), [(part 9, True), (part 10, True)])])],
      Movements = [(part 0, consumer_movement (mem 0) (mem 2)), (part 1, consumer_movement (mem 2) (mem 4)), (part 2,
        consumer_movement (mem 1) (mem 0)), (part 5, consumer_movement (mem 1) (mem 4)), (part 8, consumer_movement
        (mem 1) (mem 0)), (part 9, consumer_movement (mem 3) (mem 4)), (part 10, consumer_movement (mem 3) (mem
        4))]\<rparr>\<rparr>"

section \<open>Names\<close>

declare One_nat_def [simp del]

lemma mem_sorted: "sorted_wrt (<) [[48], [49], [50], [51], [52 :: 8 word]]"
  by simp

lemma tpc_sorted: "sorted_wrt (<) [[97], [98], [99], [100], [101 :: 8 word]]"
  by simp

lemma by_index:
  assumes "sorted_wrt (<) (xs :: 'a :: linorder list)" "i < length xs" "j < length xs"
  shows "xs ! i < xs ! j \<longleftrightarrow> i < j" "xs ! i = xs ! j \<longleftrightarrow> i = j" "xs ! i \<le> xs ! j \<longleftrightarrow> i \<le> j"
proof -
  have less: "a < b \<Longrightarrow> b < length xs \<Longrightarrow> xs ! a < xs ! b" for a b using assms(1) sorted_wrt_nth_less by blast
  show "xs ! i < xs ! j \<longleftrightarrow> i < j" "xs ! i = xs ! j \<longleftrightarrow> i = j" "xs ! i \<le> xs ! j \<longleftrightarrow> i \<le> j"
    using less [of i j] less [of j i] assms(2,3) by (cases i j rule: linorder_cases; simp add: less_imp_le)+
qed

lemma mem_order [simp]:
  assumes "i < 5" "j < 5"
  shows "mem i < mem j \<longleftrightarrow> i < j" "mem i = mem j \<longleftrightarrow> i = j" "mem i \<le> mem j \<longleftrightarrow> i \<le> j"
  unfolding mem_def using by_index [OF mem_sorted] assms by simp_all

lemma tpc_order [simp]:
  assumes "i < 5" "j < 5"
  shows "tpc i < tpc j \<longleftrightarrow> i < j" "tpc i = tpc j \<longleftrightarrow> i = j" "tpc i \<le> tpc j \<longleftrightarrow> i \<le> j"
  unfolding tpc_def using by_index [OF tpc_sorted] assms by simp_all

lemma part_sorted: "sorted_wrt (<)
    [topic_t (tpc 0) 0, topic_t (tpc 0) 1, topic_t (tpc 1) 0, topic_t (tpc 1) 1, topic_t (tpc 1) 2, topic_t (tpc 1) 3,
      topic_t (tpc 1) 4, topic_t (tpc 1) 5, topic_t (tpc 1) 6, topic_t (tpc 2) 0, topic_t (tpc 2) 1, topic_t (tpc 3)
      0, topic_t (tpc 3) 1, topic_t (tpc 3) 2, topic_t (tpc 4) 0, topic_t (tpc 4) 1, topic_t (tpc 4) 2, topic_t (tpc
      4) 3, topic_t (tpc 4) 4, topic_t (tpc 4) 5, topic_t (tpc 4) 6, topic_t (tpc 4) 7, topic_t (tpc 4) 8, topic_t
      (tpc 4) 9, topic_t (tpc 4) 10, topic_t (tpc 4) 11]"
  by (simp add: less_topic_t_def)

lemma part_order [simp]:
  assumes "i < 26" "j < 26"
  shows "part i < part j \<longleftrightarrow> i < j" "part i = part j \<longleftrightarrow> i = j" "part i \<le> part j \<longleftrightarrow> i \<le> j"
  unfolding part_def using by_index [OF part_sorted] assms by simp_all

lemma part_names:
  "topic_t (tpc 0) 0 = part 0"
  "topic_t (tpc 0) 1 = part 1"
  "topic_t (tpc 1) 0 = part 2"
  "topic_t (tpc 1) 1 = part 3"
  "topic_t (tpc 1) 2 = part 4"
  "topic_t (tpc 1) 3 = part 5"
  "topic_t (tpc 1) 4 = part 6"
  "topic_t (tpc 1) 5 = part 7"
  "topic_t (tpc 1) 6 = part 8"
  "topic_t (tpc 2) 0 = part 9"
  "topic_t (tpc 2) 1 = part 10"
  "topic_t (tpc 3) 0 = part 11"
  "topic_t (tpc 3) 1 = part 12"
  "topic_t (tpc 3) 2 = part 13"
  "topic_t (tpc 4) 0 = part 14"
  "topic_t (tpc 4) 1 = part 15"
  "topic_t (tpc 4) 2 = part 16"
  "topic_t (tpc 4) 3 = part 17"
  "topic_t (tpc 4) 4 = part 18"
  "topic_t (tpc 4) 5 = part 19"
  "topic_t (tpc 4) 6 = part 20"
  "topic_t (tpc 4) 7 = part 21"
  "topic_t (tpc 4) 8 = part 22"
  "topic_t (tpc 4) 9 = part 23"
  "topic_t (tpc 4) 10 = part 24"
  "topic_t (tpc 4) 11 = part 25"
  by (simp_all add: part_def)

lemma part_topics [simp]:
  "m_topic (part 0) = tpc 0"
  "m_topic (part 1) = tpc 0"
  "m_topic (part 2) = tpc 1"
  "m_topic (part 3) = tpc 1"
  "m_topic (part 4) = tpc 1"
  "m_topic (part 5) = tpc 1"
  "m_topic (part 6) = tpc 1"
  "m_topic (part 7) = tpc 1"
  "m_topic (part 8) = tpc 1"
  "m_topic (part 9) = tpc 2"
  "m_topic (part 10) = tpc 2"
  "m_topic (part 11) = tpc 3"
  "m_topic (part 12) = tpc 3"
  "m_topic (part 13) = tpc 3"
  "m_topic (part 14) = tpc 4"
  "m_topic (part 15) = tpc 4"
  "m_topic (part 16) = tpc 4"
  "m_topic (part 17) = tpc 4"
  "m_topic (part 18) = tpc 4"
  "m_topic (part 19) = tpc 4"
  "m_topic (part 20) = tpc 4"
  "m_topic (part 21) = tpc 4"
  "m_topic (part 22) = tpc 4"
  "m_topic (part 23) = tpc 4"
  "m_topic (part 24) = tpc 4"
  "m_topic (part 25) = tpc 4"
  by (simp_all add: part_def)

section \<open>The start\<close>

lemma loop_entries [simp]:
  "entry_of (mem 0) loop_c2p = [part 0, part 1, part 2, part 3, part 4, part 5, part 6, part 7, part 8]"
  "entry_of (mem 1) loop_c2p = [part 2, part 3, part 4, part 5, part 6, part 7, part 8, part 9, part 10, part 14, part
    15, part 16, part 17, part 18, part 19, part 20, part 21, part 22, part 23, part 24, part 25]"
  "entry_of (mem 2) loop_c2p = [part 0, part 1, part 11, part 12, part 13]"
  "entry_of (mem 3) loop_c2p = [part 9, part 10, part 14, part 15, part 16, part 17, part 18, part 19, part 20, part
    21, part 22, part 23, part 24, part 25]"
  "entry_of (mem 4) loop_c2p = [part 0, part 1, part 2, part 3, part 4, part 5, part 6, part 7, part 8, part 9, part
    10]"
  by (simp_all add: loop_c2p_def entry_of_def)

lemma loop_consumers [simp]:
  "at_or [] loop_p2c (part 0) = [mem 0, mem 2, mem 4]"
  "at_or [] loop_p2c (part 1) = [mem 0, mem 2, mem 4]"
  "at_or [] loop_p2c (part 2) = [mem 0, mem 1, mem 4]"
  "at_or [] loop_p2c (part 3) = [mem 0, mem 1, mem 4]"
  "at_or [] loop_p2c (part 4) = [mem 0, mem 1, mem 4]"
  "at_or [] loop_p2c (part 5) = [mem 0, mem 1, mem 4]"
  "at_or [] loop_p2c (part 6) = [mem 0, mem 1, mem 4]"
  "at_or [] loop_p2c (part 7) = [mem 0, mem 1, mem 4]"
  "at_or [] loop_p2c (part 8) = [mem 0, mem 1, mem 4]"
  "at_or [] loop_p2c (part 9) = [mem 1, mem 3, mem 4]"
  "at_or [] loop_p2c (part 10) = [mem 1, mem 3, mem 4]"
  "at_or [] loop_p2c (part 11) = [mem 2]"
  "at_or [] loop_p2c (part 12) = [mem 2]"
  "at_or [] loop_p2c (part 13) = [mem 2]"
  "at_or [] loop_p2c (part 14) = [mem 1, mem 3]"
  "at_or [] loop_p2c (part 15) = [mem 1, mem 3]"
  "at_or [] loop_p2c (part 16) = [mem 1, mem 3]"
  "at_or [] loop_p2c (part 17) = [mem 1, mem 3]"
  "at_or [] loop_p2c (part 18) = [mem 1, mem 3]"
  "at_or [] loop_p2c (part 19) = [mem 1, mem 3]"
  "at_or [] loop_p2c (part 20) = [mem 1, mem 3]"
  "at_or [] loop_p2c (part 21) = [mem 1, mem 3]"
  "at_or [] loop_p2c (part 22) = [mem 1, mem 3]"
  "at_or [] loop_p2c (part 23) = [mem 1, mem 3]"
  "at_or [] loop_p2c (part 24) = [mem 1, mem 3]"
  "at_or [] loop_p2c (part 25) = [mem 1, mem 3]"
  by (simp_all add: loop_p2c_def at_or_def)

lemma loop_potentials: "potentials loop_members loop_topics = (loop_c2p, loop_p2c)"
  by (simp add: potentials_def empty_consumers_def subscribed_partitions_def loop_members_def loop_topics_def
      loop_c2p_def loop_p2c_def part_names entry_of_def smap_push_def Let_def)

lemma loop_maps: "smap loop_members" "smap loop_topics" "[] \<notin> fst ` set loop_members"
  by (simp_all add: smap_def loop_members_def loop_topics_def mem_def)

lemma loop_ok: "potentials_ok loop_c2p loop_p2c"
  by (rule potentials_are_ok [OF loop_maps loop_potentials])

lemma loop_keys: "map fst loop_p2c = [part 0, part 1, part 2, part 3, part 4, part 5, part 6, part 7, part 8, part 9,
  part 10, part 11, part 12, part 13, part 14, part 15, part 16, part 17, part 18, part 19, part 20, part 21, part 22,
  part 23, part 24, part 25]"
  by (simp add: loop_p2c_def)

lemmas loop_eval = entry_of_def [of _ "_ # _"] at_or_def [of _ "_ # _"] at_or_def [of _ "[]"] smap_push_def Let_def sortMemberIDsByPartitionAssignments_def
  sort_key_def

lemma loop_assigned: "assign_unassigned (map fst loop_p2c) loop_c2p loop_p2c run_0 = run_1"
  unfolding loop_keys
  by (simp add: assign_unassigned_def assignPartition_def run_0_def run_1_def loop_eval)

lemma loop_fixed: "fold (fix_member loop_c2p loop_p2c) (map fst loop_c2p) ([], run_1) = ([], run_1)"
  by (simp add: fix_member_def canConsumerParticipateInReassignment_def run_1_def loop_c2p_def)

definition loop_parts :: "topic_t list" where
  "loop_parts = [part 14, part 15, part 16, part 17, part 18, part 19, part 20, part 21, part 22, part 23, part 24,
    part 25, part 0, part 1, part 2, part 3, part 4, part 5, part 6, part 7, part 8, part 9, part 10]"

lemma loop_sorted: "filter (\<lambda>p. \<not> (p \<in> set (map fst loop_p2c) \<and> \<not> canTopicPartitionParticipateInReassignment p loop_p2c))
    (sortPartitionsByPotentialConsumerAssignments loop_p2c) = loop_parts"
proof -
  have "sortPartitionsByPotentialConsumerAssignments loop_p2c = [part 11, part 12, part 13, part 14, part 15, part 16,
    part 17, part 18, part 19, part 20, part 21, part 22, part 23, part 24, part 25, part 0, part 1, part 2, part 3,
    part 4, part 5, part 6, part 7, part 8, part 9, part 10]"
    unfolding sortPartitionsByPotentialConsumerAssignments_def loop_keys by (simp add: sort_key_def)
  then show ?thesis unfolding loop_keys
    by (simp add: loop_parts_def canTopicPartitionParticipateInReassignment_def loop_p2c_def)
qed

section \<open>The moves\<close>

lemma overfull_code: "overfull p2c st p \<longleftrightarrow> (case owner_of st p of None \<Rightarrow> False
    | Some c \<Rightarrow> (\<exists>m \<in> set (consumers_of p2c p). length (holds st m) + 1 < length (holds st c)))"
  by (simp add: overfull_def much_larger_def split: option.split)

lemmas move_eval = reassign_one_def touch_def touch_both_def much_larger_def reassignPartitionToNewConsumer_def
  memberAssignmentsIncludeTopicPartition_def reassignPartition_def processPartitionMovement_def
  removeTopicPartitionFromMemberAssignments_def get_the_actual_partition_to_be_moved_def move_partition_def
  add_partition_movement_record_def remove_movement_record_of_partition_def no_movements_def
  less_consumer_movement_def

lemma mem_named [simp]: "i < 5 \<Longrightarrow> mem i \<noteq> []"
  using nth_mem [of i "[[48], [49], [50], [51], [52 :: 8 word]]"] by (auto simp: mem_def)

lemma move_1: "reassign_one [] loop_c2p loop_p2c (part 1) run_1 = Some (True, run_2)" "overfull loop_p2c run_1 (part 1)"
  by (simp_all add: move_eval run_1_def run_2_def loop_eval loop_p2c_def loop_c2p_def overfull_code)

lemma move_2: "reassign_one [] loop_c2p loop_p2c (part 2) run_2 = Some (True, run_3)" "overfull loop_p2c run_2 (part 2)"
  by (simp_all add: move_eval run_2_def run_3_def loop_eval loop_p2c_def loop_c2p_def overfull_code)

lemma move_3: "reassign_one [] loop_c2p loop_p2c (part 5) run_3 = Some (True, run_4)" "overfull loop_p2c run_3 (part 5)"
  by (simp_all add: move_eval run_3_def run_4_def loop_eval loop_p2c_def loop_c2p_def overfull_code)

lemma move_4: "reassign_one [] loop_c2p loop_p2c (part 8) run_4 = Some (True, run_5)" "overfull loop_p2c run_4 (part 8)"
  by (simp_all add: move_eval run_4_def run_5_def loop_eval loop_p2c_def loop_c2p_def overfull_code)

lemma move_5: "reassign_one [] loop_c2p loop_p2c (part 9) run_5 = Some (True, run_6)" "overfull loop_p2c run_5 (part 9)"
  by (simp_all add: move_eval run_5_def run_6_def loop_eval loop_p2c_def loop_c2p_def overfull_code)

lemma move_6: "reassign_one [] loop_c2p loop_p2c (part 10) run_6 = Some (True, run_7)" "overfull loop_p2c run_6 (part 10)"
  by (simp_all add: move_eval run_6_def run_7_def loop_eval loop_p2c_def loop_c2p_def overfull_code)

lemma move_7: "reassign_one [] loop_c2p loop_p2c (part 0) run_7 = Some (True, run_8)" "overfull loop_p2c run_7 (part 0)"
  by (simp_all add: move_eval run_7_def run_8_def loop_eval loop_p2c_def loop_c2p_def overfull_code)

lemma move_8: "reassign_one [] loop_c2p loop_p2c (part 1) run_8 = Some (True, run_9)" "overfull loop_p2c run_8 (part 1)"
  by (simp_all add: move_eval run_8_def run_9_def loop_eval loop_p2c_def loop_c2p_def overfull_code)

lemma move_9: "reassign_one [] loop_c2p loop_p2c (part 0) run_9 = Some (True, run_10)" "overfull loop_p2c run_9 (part 0)"
  by (simp_all add: move_eval run_9_def run_10_def loop_eval loop_p2c_def loop_c2p_def overfull_code)

lemma move_10: "reassign_one [] loop_c2p loop_p2c (part 1) run_10 = Some (True, run_9)" "overfull loop_p2c run_10 (part 1)"
  by (simp_all add: move_eval run_10_def run_9_def loop_eval loop_p2c_def loop_c2p_def overfull_code)

lemma loop_two: "\<forall>q \<in> set loop_parts. 2 \<le> length (consumers_of loop_p2c q)"
  by (simp add: loop_parts_def)

lemma loop_start: "unassigned_start loop_c2p loop_p2c run_0"
proof -
  have "holds run_0 m = []" for m by (simp add: run_0_def entry_of_def)
  then show ?thesis
    by (simp add: unassigned_start_def started_def smap_def run_0_def loop_c2p_def sortMemberIDsByPartitionAssignments_def
        sort_key_def entry_of_def no_movements_def)
qed

lemma inv_1: "sticky_inv loop_c2p loop_p2c run_1"
  using balance_start(1) [OF loop_ok loop_start] loop_fixed loop_assigned by simp

lemma pass_jump:
  assumes inv: "sticky_inv loop_c2p loop_p2c st" and two: "\<forall>q \<in> set (qs @ p # ps). 2 \<le> length (consumers_of loop_p2c q)"
    and quiet: "\<forall>q \<in> set qs. \<not> overfull loop_p2c st q"
    and move: "reassign_one [] loop_c2p loop_p2c p st = Some (True, st')" "overfull loop_p2c st p"
  shows "sticky_inv loop_c2p loop_p2c st' \<and>
    reassign_pass [] loop_c2p loop_p2c (qs @ p # ps) modified st = reassign_pass [] loop_c2p loop_p2c ps True st'"
  using two quiet
proof (induction qs)
  case Nil
  then have two: "2 \<le> length (consumers_of loop_p2c p)" by simp
  have "sticky_inv loop_c2p loop_p2c st'" using reassign_one_cases(2) [OF loop_ok inv two move(2)] move(1) by auto
  then show ?case using reassign_pass_Cons(2) [OF loop_ok inv _ move(2,1), of ps modified] Nil(1) by simp
next
  case (Cons q qs)
  then show ?case using reassign_pass_Cons(1) [OF loop_ok inv, of q "qs @ p # ps" modified] by simp
qed

lemma pass_1:
  assumes inv: "sticky_inv loop_c2p loop_p2c run_1"
  shows "sticky_inv loop_c2p loop_p2c run_7" "reassign_pass [] loop_c2p loop_p2c loop_parts False run_1 = Some (True, run_7)"
proof -
  have two_1: "\<forall>q \<in> set ([part 14, part 15, part 16, part 17, part 18, part 19, part 20, part 21, part 22,
    part 23, part 24, part 25, part 0] @ part 1 # [part 2, part 3, part 4, part 5, part 6, part 7, part 8, part 9,
    part 10]). 2 \<le> length (consumers_of loop_p2c q)"
    by simp
  have quiet_1: "\<forall>q \<in> set [part 14, part 15, part 16, part 17, part 18, part 19, part 20, part 21, part
    22, part 23, part 24, part 25, part 0]. \<not> overfull loop_p2c run_1 q"
    by (simp add: overfull_code run_1_def loop_eval)
  note jump_1 = pass_jump [OF inv two_1 quiet_1 move_1]
  have two_2: "\<forall>q \<in> set ([] @ part 2 # [part 3, part 4, part 5, part 6, part 7, part 8, part 9, part 10]).
    2 \<le> length (consumers_of loop_p2c q)"
    by simp
  have quiet_2: "\<forall>q \<in> set []. \<not> overfull loop_p2c run_2 q"
    by (simp add: overfull_code run_2_def loop_eval)
  note jump_2 = pass_jump [OF conjunct1 [OF jump_1] two_2 quiet_2 move_2]
  have two_3: "\<forall>q \<in> set ([part 3, part 4] @ part 5 # [part 6, part 7, part 8, part 9, part 10]). 2 \<le>
    length (consumers_of loop_p2c q)"
    by simp
  have quiet_3: "\<forall>q \<in> set [part 3, part 4]. \<not> overfull loop_p2c run_3 q"
    by (simp add: overfull_code run_3_def loop_eval)
  note jump_3 = pass_jump [OF conjunct1 [OF jump_2] two_3 quiet_3 move_3]
  have two_4: "\<forall>q \<in> set ([part 6, part 7] @ part 8 # [part 9, part 10]). 2 \<le> length (consumers_of
    loop_p2c q)"
    by simp
  have quiet_4: "\<forall>q \<in> set [part 6, part 7]. \<not> overfull loop_p2c run_4 q"
    by (simp add: overfull_code run_4_def loop_eval)
  note jump_4 = pass_jump [OF conjunct1 [OF jump_3] two_4 quiet_4 move_4]
  have two_5: "\<forall>q \<in> set ([] @ part 9 # [part 10]). 2 \<le> length (consumers_of loop_p2c q)"
    by simp
  have quiet_5: "\<forall>q \<in> set []. \<not> overfull loop_p2c run_5 q"
    by (simp add: overfull_code run_5_def loop_eval)
  note jump_5 = pass_jump [OF conjunct1 [OF jump_4] two_5 quiet_5 move_5]
  have two_6: "\<forall>q \<in> set ([] @ part 10 # []). 2 \<le> length (consumers_of loop_p2c q)"
    by simp
  have quiet_6: "\<forall>q \<in> set []. \<not> overfull loop_p2c run_6 q"
    by (simp add: overfull_code run_6_def loop_eval)
  note jump_6 = pass_jump [OF conjunct1 [OF jump_5] two_6 quiet_6 move_6]
  have "\<forall>q \<in> set []. 2 \<le> length (consumers_of loop_p2c q) \<and> \<not> overfull loop_p2c run_7 q"
    by (simp add: overfull_code run_7_def loop_eval)
  note rest = reassign_pass_balanced [OF loop_ok conjunct1 [OF jump_6] this]
  show "sticky_inv loop_c2p loop_p2c run_7" by (rule conjunct1 [OF jump_6])
  show "reassign_pass [] loop_c2p loop_p2c loop_parts False run_1 = Some (True, run_7)"
    using jump_1 [THEN conjunct2, of False] jump_2 [THEN conjunct2, of True] jump_3 [THEN conjunct2, of True] jump_4 [THEN conjunct2, of True] jump_5 [THEN conjunct2, of True] jump_6 [THEN conjunct2, of True] rest [of True] by (simp add: loop_parts_def)
qed

lemma pass_2:
  assumes inv: "sticky_inv loop_c2p loop_p2c run_7"
  shows "sticky_inv loop_c2p loop_p2c run_9" "reassign_pass [] loop_c2p loop_p2c loop_parts False run_7 = Some (True, run_9)"
proof -
  have two_7: "\<forall>q \<in> set ([part 14, part 15, part 16, part 17, part 18, part 19, part 20, part 21, part 22,
    part 23, part 24, part 25] @ part 0 # [part 1, part 2, part 3, part 4, part 5, part 6, part 7, part 8, part 9,
    part 10]). 2 \<le> length (consumers_of loop_p2c q)"
    by simp
  have quiet_7: "\<forall>q \<in> set [part 14, part 15, part 16, part 17, part 18, part 19, part 20, part 21, part
    22, part 23, part 24, part 25]. \<not> overfull loop_p2c run_7 q"
    by (simp add: overfull_code run_7_def loop_eval)
  note jump_7 = pass_jump [OF inv two_7 quiet_7 move_7]
  have two_8: "\<forall>q \<in> set ([] @ part 1 # [part 2, part 3, part 4, part 5, part 6, part 7, part 8, part 9,
    part 10]). 2 \<le> length (consumers_of loop_p2c q)"
    by simp
  have quiet_8: "\<forall>q \<in> set []. \<not> overfull loop_p2c run_8 q"
    by (simp add: overfull_code run_8_def loop_eval)
  note jump_8 = pass_jump [OF conjunct1 [OF jump_7] two_8 quiet_8 move_8]
  have "\<forall>q \<in> set [part 2, part 3, part 4, part 5, part 6, part 7, part 8, part 9, part 10]. 2 \<le> length
    (consumers_of loop_p2c q) \<and> \<not> overfull loop_p2c run_9 q"
    by (simp add: overfull_code run_9_def loop_eval)
  note rest = reassign_pass_balanced [OF loop_ok conjunct1 [OF jump_8] this]
  show "sticky_inv loop_c2p loop_p2c run_9" by (rule conjunct1 [OF jump_8])
  show "reassign_pass [] loop_c2p loop_p2c loop_parts False run_7 = Some (True, run_9)"
    using jump_7 [THEN conjunct2, of False] jump_8 [THEN conjunct2, of True] rest [of True] by (simp add: loop_parts_def)
qed

lemma pass_3:
  assumes inv: "sticky_inv loop_c2p loop_p2c run_9"
  shows "sticky_inv loop_c2p loop_p2c run_9" "reassign_pass [] loop_c2p loop_p2c loop_parts False run_9 = Some (True, run_9)"
proof -
  have two_9: "\<forall>q \<in> set ([part 14, part 15, part 16, part 17, part 18, part 19, part 20, part 21, part 22,
    part 23, part 24, part 25] @ part 0 # [part 1, part 2, part 3, part 4, part 5, part 6, part 7, part 8, part 9,
    part 10]). 2 \<le> length (consumers_of loop_p2c q)"
    by simp
  have quiet_9: "\<forall>q \<in> set [part 14, part 15, part 16, part 17, part 18, part 19, part 20, part 21, part
    22, part 23, part 24, part 25]. \<not> overfull loop_p2c run_9 q"
    by (simp add: overfull_code run_9_def loop_eval)
  note jump_9 = pass_jump [OF inv two_9 quiet_9 move_9]
  have two_10: "\<forall>q \<in> set ([] @ part 1 # [part 2, part 3, part 4, part 5, part 6, part 7, part 8, part 9,
    part 10]). 2 \<le> length (consumers_of loop_p2c q)"
    by simp
  have quiet_10: "\<forall>q \<in> set []. \<not> overfull loop_p2c run_10 q"
    by (simp add: overfull_code run_10_def loop_eval)
  note jump_10 = pass_jump [OF conjunct1 [OF jump_9] two_10 quiet_10 move_10]
  have "\<forall>q \<in> set [part 2, part 3, part 4, part 5, part 6, part 7, part 8, part 9, part 10]. 2 \<le> length
    (consumers_of loop_p2c q) \<and> \<not> overfull loop_p2c run_9 q"
    by (simp add: overfull_code run_9_def loop_eval)
  note rest = reassign_pass_balanced [OF loop_ok conjunct1 [OF jump_10] this]
  show "sticky_inv loop_c2p loop_p2c run_9" by (rule conjunct1 [OF jump_10])
  show "reassign_pass [] loop_c2p loop_p2c loop_parts False run_9 = Some (True, run_9)"
    using jump_9 [THEN conjunct2, of False] jump_10 [THEN conjunct2, of True] rest [of True] by (simp add: loop_parts_def)
qed

section \<open>The loop does not end\<close>

lemma performReassignments_stuck:
  assumes "reassign_pass prev c2p p2c ps False st = Some (True, st)"
  shows "performReassignments ps prev c2p p2c performed st = None"
proof (rule ccontr)
  assume "performReassignments ps prev c2p p2c performed st \<noteq> None"
  then obtain r where "performReassignments ps prev c2p p2c performed st = Some r" by blast
  then have "reassign_pass prev c2p p2c ps False st \<noteq> Some (True, st)"
  proof (rule performReassignments.raw_induct [where P = "\<lambda>ps prev c2p p2c performed st r.
      reassign_pass prev c2p p2c ps False st \<noteq> Some (True, st)", rotated])
    fix rec ps prev c2p p2c performed st and r :: "(bool \<times> assignment) option"
    assume hyp: "\<And>ps prev c2p p2c performed st r. rec ps prev c2p p2c performed st = Some r \<Longrightarrow>
        reassign_pass prev c2p p2c ps False st \<noteq> Some (True, st)"
      and ret: "(case reassign_pass prev c2p p2c ps False st of None \<Rightarrow> Some None
        | Some (modified, st') \<Rightarrow> if modified then rec ps prev c2p p2c True st' else Some (Some (performed, st'))) = Some r"
    show "reassign_pass prev c2p p2c ps False st \<noteq> Some (True, st)"
    proof
      assume stuck: "reassign_pass prev c2p p2c ps False st = Some (True, st)"
      with ret have "rec ps prev c2p p2c True st = Some r" by simp
      from hyp [OF this] stuck show False by simp
    qed
  qed
  with assms show False by simp
qed

lemma loop_stuck: "performReassignments loop_parts [] loop_c2p loop_p2c False run_1 = None"
proof -
  note 1 = pass_1 [OF inv_1] note 2 = pass_2 [OF 1(1)] note 3 = pass_3 [OF 2(1)]
  have "performReassignments loop_parts [] loop_c2p loop_p2c True run_7 = None"
    using 2(2) performReassignments_stuck [OF 3(2)] by (subst performReassignments.simps) simp
  with 1(2) show ?thesis by (subst performReassignments.simps) simp
qed

lemma Plan_stuck: "StickyBalanceStrategy_Plan loop_members loop_topics plan = None"
proof -
  have A: "fold (\<lambda>(memberID, ts). touch [] memberID) loop_members [] = currentAssignment run_0"
    by (simp add: loop_members_def touch_def run_0_def)
  have "smap (currentAssignment run_0)" "\<forall>e \<in> set (currentAssignment run_0). snd e = []"
    by (simp_all add: smap_def run_0_def)
  note keep = keep_nothing [OF this, of loop_members loop_p2c]
  have start: "\<lparr>currentAssignment = currentAssignment run_0,
      sortedCurrentSubscriptions = sortMemberIDsByPartitionAssignments (currentAssignment run_0),
      currentPartitionConsumer = [], movements = no_movements\<rparr> = run_0"
    using loop_start unfolding unassigned_start_def started_def by simp
  have "loop_topics \<noteq> []" by (simp add: loop_topics_def)
  moreover have "balance [] (sortPartitionsByPotentialConsumerAssignments loop_p2c) (map fst loop_p2c) loop_c2p loop_p2c run_0 = None"
    unfolding balance_def Let_def loop_assigned loop_fixed loop_sorted using loop_stuck by simp
  ultimately show ?thesis
    by (simp add: StickyBalanceStrategy_Plan_def prepopulate_nothing loop_potentials A keep start)
qed

end
