(* ===== verification/Topic_Messages.thy ===== *)
theory Topic_Messages
  imports Protocol
begin

text \<open>
  Creating and deleting topics, partitions and records: the request and response classes CreateTopics,
      DeleteTopics,
  CreatePartitions and DeleteRecords, with \<^verbatim>\<open>topic_partition.cpp\<close>.

  The class DeleteRecords keeps its entries in an \<^verbatim>\<open>unordered_map\<close> and sorts the keys
      before it writes; the model is the
  map in the order of its keys.
\<close>

section \<open>CreateTopics\<close>

definition ReplicaAssignment_put_entry :: "int \<times> int32 list \<Rightarrow> unit enc" where
  "ReplicaAssignment_put_entry kv =
     then_p (putInt32 (word_of_int (fst kv)))
    (then_p (err_as ErrEncodeError (putInt32Array (snd kv)))
       putEmptyTaggedFieldArray)"

definition ReplicaAssignment_get_entry :: "(int \<times> int32 list) dec" where
  "ReplicaAssignment_get_entry =
     bind_p (err_as ErrDecodeError (bind_p getInt32 (\<lambda>p. ret (sint p)))) (\<lambda>k.
     bind_p (err_as ErrDecodeError getInt32Array) (\<lambda>v.
     bind_p (err_as ErrDecodeError getEmptyTaggedFieldArray) (\<lambda>_.
       ret (k, v))))"

definition wReplicaAssignment_entry :: "bool \<Rightarrow> int \<times> int32 list \<Rightarrow> bytes" where
  "wReplicaAssignment_entry fl kv =
     be32 (word_of_int (fst kv)) @ wInt32Array fl (snd kv) @ wTags fl"

definition ReplicaAssignment_entry_ok :: "bool \<Rightarrow> int \<times> int32 list \<Rightarrow> bool" where
  "ReplicaAssignment_entry_ok fl kv \<longleftrightarrow>
     sint (word_of_int (fst kv) :: int32) = (fst kv) \<and> len_ok fl (length (snd kv))"

lemma emits_ReplicaAssignment_entry [emits_rules]:
  "ReplicaAssignment_entry_ok fl kv \<Longrightarrow> emits fl (ReplicaAssignment_put_entry kv)
      (wReplicaAssignment_entry fl kv)"
  unfolding ReplicaAssignment_put_entry_def wReplicaAssignment_entry_def ReplicaAssignment_entry_ok_def by
      (intro emits_rules; auto)

lemma reads_ReplicaAssignment_entry [reads_rules]:
  assumes "ReplicaAssignment_entry_ok fl kv"
  shows "reads fl (ReplicaAssignment_get_entry) (wReplicaAssignment_entry fl kv) kv"
  unfolding ReplicaAssignment_get_entry_def wReplicaAssignment_entry_def
  by (rule reads_conv, (rule reads_rules | (use assms in \<open>auto simp: ReplicaAssignment_entry_ok_def;
      fail\<close>))+)

definition ConfigEntry_put_entry :: "bytes \<times> bytes \<Rightarrow> unit enc" where
  "ConfigEntry_put_entry kv =
     then_p (err_as ErrEncodeError (putString (fst kv)))
    (then_p (err_as ErrEncodeError (putNullableString (snd kv)))
       putEmptyTaggedFieldArray)"

definition ConfigEntry_get_entry :: "(bytes \<times> bytes) dec" where
  "ConfigEntry_get_entry =
     bind_p (err_as ErrDecodeError getString) (\<lambda>k.
     bind_p (err_as ErrDecodeError getNullableString) (\<lambda>v.
     bind_p (err_as ErrDecodeError getEmptyTaggedFieldArray) (\<lambda>_.
       ret (k, v))))"

definition wConfigEntry_entry :: "bool \<Rightarrow> bytes \<times> bytes \<Rightarrow> bytes" where
  "wConfigEntry_entry fl kv =
     wString fl (fst kv) @ wNullableString fl (snd kv) @ wTags fl"

definition ConfigEntry_entry_ok :: "bool \<Rightarrow> bytes \<times> bytes \<Rightarrow> bool" where
  "ConfigEntry_entry_ok fl kv \<longleftrightarrow>
     string_ok fl (fst kv) \<and> string_ok fl (snd kv)"

lemma emits_ConfigEntry_entry [emits_rules]:
  "ConfigEntry_entry_ok fl kv \<Longrightarrow> emits fl (ConfigEntry_put_entry kv) (wConfigEntry_entry fl kv)"
  unfolding ConfigEntry_put_entry_def wConfigEntry_entry_def ConfigEntry_entry_ok_def by (intro emits_rules;
      auto)

lemma reads_ConfigEntry_entry [reads_rules]:
  assumes "ConfigEntry_entry_ok fl kv"
  shows "reads fl (ConfigEntry_get_entry) (wConfigEntry_entry fl kv) kv"
  unfolding ConfigEntry_get_entry_def wConfigEntry_entry_def
  by (rule reads_conv, (rule reads_rules | (use assms in \<open>auto simp: ConfigEntry_entry_ok_def;
      fail\<close>))+)

record TopicDetail =
  tpd_num_partitions :: int32
  tpd_replication_factor :: int16
  tpd_replica_assignment :: "(int \<times> int32 list) list"
  tpd_config_entries :: "(bytes \<times> bytes) list"

definition TopicDetail_default :: TopicDetail where
  "TopicDetail_default = \<lparr>tpd_num_partitions = 0, tpd_replication_factor = 0, tpd_replica_assignment =
      [], tpd_config_entries = []\<rparr>"

definition TopicDetail_encode :: "TopicDetail \<Rightarrow> unit enc" where
  "TopicDetail_encode x =
     then_p (putInt32 (tpd_num_partitions x))
    (then_p (putInt16 (tpd_replication_factor x))
    (then_p (then_p (err_as ErrEncodeError (putArrayLength (size32 (length (tpd_replica_assignment x)))))
            (for_each ReplicaAssignment_put_entry (tpd_replica_assignment x)))
    (then_p (then_p (err_as ErrEncodeError (putArrayLength (size32 (length (tpd_config_entries x)))))
            (for_each ConfigEntry_put_entry (tpd_config_entries x)))
       putEmptyTaggedFieldArray)))"

definition TopicDetail_decode :: "TopicDetail \<Rightarrow> TopicDetail dec" where
  "TopicDetail_decode this =
     bind_p (err_as ErrDecodeError getInt32) (\<lambda>num_partitions.
     bind_p (err_as ErrDecodeError getInt16) (\<lambda>replication_factor.
     bind_p (bind_p (err_as ErrDecodeError getArrayLength) (\<lambda>n. if 0 < sint n then put_all
         (\<lambda>(k, v). smap_put k v) n ReplicaAssignment_get_entry [] else ret (tpd_replica_assignment
         this))) (\<lambda>replica_assignment.
     bind_p (bind_p (err_as ErrDecodeError getArrayLength) (\<lambda>n. if 0 < sint n then put_all
         (\<lambda>(k, v). smap_put k v) n ConfigEntry_get_entry [] else ret (tpd_config_entries this)))
         (\<lambda>config_entries.
     bind_p getEmptyTaggedFieldArray (\<lambda>_.
       ret \<lparr>tpd_num_partitions = num_partitions, tpd_replication_factor = replication_factor,
           tpd_replica_assignment = replica_assignment, tpd_config_entries = config_entries\<rparr>)))))"

definition wTopicDetail :: "bool \<Rightarrow> TopicDetail \<Rightarrow> bytes" where
  "wTopicDetail fl x =
     be32 (tpd_num_partitions x) @ be16 (tpd_replication_factor x) @
     wArray fl (wReplicaAssignment_entry fl) (tpd_replica_assignment x) @
     wArray fl (wConfigEntry_entry fl) (tpd_config_entries x) @ wTags fl"

definition TopicDetail_ok :: "bool \<Rightarrow> TopicDetail \<Rightarrow> bool" where
  "TopicDetail_ok fl x \<longleftrightarrow>
     len_ok fl (length (tpd_replica_assignment x)) \<and>
     (\<forall>kv \<in> set (tpd_replica_assignment x). ReplicaAssignment_entry_ok fl kv) \<and>
     smap (tpd_replica_assignment x) \<and> len_ok fl (length (tpd_config_entries x)) \<and>
     (\<forall>kv \<in> set (tpd_config_entries x). ConfigEntry_entry_ok fl kv) \<and>
     smap (tpd_config_entries x)"

definition TopicDetail_seen :: "TopicDetail \<Rightarrow> TopicDetail \<Rightarrow> TopicDetail" where
  "TopicDetail_seen this x =
     x\<lparr>tpd_replica_assignment := (if (tpd_replica_assignment x) = [] then (tpd_replica_assignment this)
         else (tpd_replica_assignment x)), tpd_config_entries := (if (tpd_config_entries x) = [] then
         (tpd_config_entries this) else (tpd_config_entries x))\<rparr>"

lemma emits_TopicDetail [emits_rules]:
  "TopicDetail_ok fl x \<Longrightarrow> emits fl (TopicDetail_encode x) (wTopicDetail fl x)"
  unfolding TopicDetail_encode_def wTopicDetail_def TopicDetail_ok_def by (intro emits_rules; auto)

lemma reads_TopicDetail [reads_rules]:
  assumes "TopicDetail_ok fl x"
  shows "reads fl (TopicDetail_decode this) (wTopicDetail fl x) (TopicDetail_seen this x)"
  unfolding TopicDetail_decode_def wTopicDetail_def
  by (rule reads_conv, (rule reads_rules | (use assms in \<open>auto simp: TopicDetail_ok_def
      TopicDetail_seen_def; fail\<close>))+)

definition TopicEntry_put_entry :: "bytes \<times> TopicDetail \<Rightarrow> unit enc" where
  "TopicEntry_put_entry kv =
     then_p (err_as ErrEncodeError (putString (fst kv)))
       (err_as ErrEncodeError (TopicDetail_encode (snd kv)))"

definition TopicEntry_get_entry :: "(bytes \<times> TopicDetail) dec" where
  "TopicEntry_get_entry =
     bind_p (err_as ErrDecodeError getString) (\<lambda>k.
     bind_p (err_as ErrDecodeError (TopicDetail_decode TopicDetail_default)) (\<lambda>v.
       ret (k, v)))"

definition wTopicEntry_entry :: "bool \<Rightarrow> bytes \<times> TopicDetail \<Rightarrow> bytes" where
  "wTopicEntry_entry fl kv =
     wString fl (fst kv) @ wTopicDetail fl (snd kv)"

definition TopicEntry_entry_ok :: "bool \<Rightarrow> bytes \<times> TopicDetail \<Rightarrow> bool" where
  "TopicEntry_entry_ok fl kv \<longleftrightarrow>
     string_ok fl (fst kv) \<and> TopicDetail_ok fl (snd kv)"

definition TopicEntry_entry_seen :: "bytes \<times> TopicDetail \<Rightarrow> bytes \<times> TopicDetail" where
  "TopicEntry_entry_seen kv = (fst kv, (TopicDetail_seen TopicDetail_default (snd kv)))"

lemma fst_TopicEntry_entry_seen [simp]: "fst (TopicEntry_entry_seen kv) = fst kv"
  by (simp add: TopicEntry_entry_seen_def)

lemma emits_TopicEntry_entry [emits_rules]:
  "TopicEntry_entry_ok fl kv \<Longrightarrow> emits fl (TopicEntry_put_entry kv) (wTopicEntry_entry fl kv)"
  unfolding TopicEntry_put_entry_def wTopicEntry_entry_def TopicEntry_entry_ok_def by (intro emits_rules; auto)

lemma reads_TopicEntry_entry [reads_rules]:
  assumes "TopicEntry_entry_ok fl kv"
  shows "reads fl (TopicEntry_get_entry) (wTopicEntry_entry fl kv) (TopicEntry_entry_seen kv)"
  unfolding TopicEntry_get_entry_def wTopicEntry_entry_def
  by (rule reads_conv, (rule reads_rules | (use assms in \<open>auto simp: TopicEntry_entry_ok_def
      TopicEntry_entry_seen_def; fail\<close>))+)

text \<open>
  \<open>m_topic_details[topic].decode(pd, version)\<close>: a topic that comes twice is decoded into the same
      detail, which keeps a map
  that the second one does not carry.
\<close>

definition topic_detail_put :: "bytes \<Rightarrow> TopicDetail \<Rightarrow> (bytes \<times> TopicDetail) list
    \<Rightarrow> (bytes \<times> TopicDetail) list" where
  "topic_detail_put k d m =
     (case map_of m k of
        None \<Rightarrow> smap_put k d m
      | Some old \<Rightarrow> smap_put k (d\<lparr>tpd_replica_assignment :=
          (if tpd_replica_assignment d = [] then tpd_replica_assignment old else tpd_replica_assignment d),
          tpd_config_entries := (if tpd_config_entries d = [] then tpd_config_entries old else
              tpd_config_entries d)\<rparr>) m)"

lemma topic_detail_rebuild: "smap (m @ xs) \<Longrightarrow> fold (\<lambda>(k, d). topic_detail_put k d) xs m
    = m @ xs"
proof (induction xs arbitrary: m)
  case (Cons x xs)
  obtain k v where x: "x = (k, v)" by (cases x)
  have less: "\<forall>k' \<in> fst ` set m. k' < k" using Cons.prems by (auto simp: smap_def x
      sorted_wrt_append)
  then have "map_of m k = None" by (auto simp: map_of_eq_None_iff)
  then have "topic_detail_put k v m = m @ [(k, v)]" using less by (simp add: topic_detail_put_def smap_put_last)
  then show ?case using Cons.IH [of "m @ [(k, v)]"] Cons.prems by (simp add: x)
qed simp

lemma reads_map_topic_detail [reads_rules]:
  assumes "len_ok fl (length xs)" "\<And>x. x \<in> set xs \<Longrightarrow> reads fl m (w x) (g x)" "smap xs"
    and "\<And>x. x \<in> set xs \<Longrightarrow> fst (g x) = fst x"
  shows "reads fl (bind_p (err_as e getArrayLength) (\<lambda>n. put_all (\<lambda>(k, d). topic_detail_put k
      d) n m []))
    (wArray fl w xs) (map g xs)"
proof -
  have keys: "map fst (map g xs) = map fst xs" using assms(4) by (intro map_fst_seen) simp
  have "smap ([] @ map g xs)" using assms(3) unfolding smap_def append_Nil keys .
  from topic_detail_rebuild [OF this] show ?thesis
    using reads_map(2) [of fl xs m w g e "\<lambda>(k, d). topic_detail_put k d" "[]", OF assms(1,2)] by simp
qed

record CreateTopicsRequest =
  ctq_version :: int16
  ctq_topic_details :: "(bytes \<times> TopicDetail) list"
  ctq_timeout :: int64
  ctq_validate_only :: bool

definition CreateTopicsRequest_set_version :: "int16 \<Rightarrow> CreateTopicsRequest \<Rightarrow>
    CreateTopicsRequest" where
  "CreateTopicsRequest_set_version v m = m\<lparr>ctq_version := v\<rparr>"

definition CreateTopicsRequest_encode :: "CreateTopicsRequest \<Rightarrow> unit enc" where
  "CreateTopicsRequest_encode m =
     then_p (then_p (err_as ErrEncodeError (putArrayLength (size32 (length (ctq_topic_details m)))))
            (for_each TopicEntry_put_entry (ctq_topic_details m)))
    (then_p (putDurationMs (ctq_timeout m))
    (then_p (when_p (sint (ctq_version m) \<ge> 1) (putBool (ctq_validate_only m)))
       putEmptyTaggedFieldArray))"

definition CreateTopicsRequest_decode :: "CreateTopicsRequest \<Rightarrow> int16 \<Rightarrow>
    CreateTopicsRequest dec" where
  "CreateTopicsRequest_decode this version =
     bind_p (bind_p (err_as ErrDecodeError getArrayLength) (\<lambda>n. put_all (\<lambda>(k, d).
         topic_detail_put k d) n TopicEntry_get_entry [])) (\<lambda>topic_details.
     bind_p (err_as ErrDecodeError getDurationMs) (\<lambda>timeout.
     bind_p (field_if (sint version \<ge> 1) (err_as ErrDecodeError getBool) (ctq_validate_only this))
         (\<lambda>val.
     bind_p getEmptyTaggedFieldArray (\<lambda>_.
       ret (this\<lparr>ctq_version := (if sint version \<ge> 1 then version else ctq_version this),
         ctq_topic_details := topic_details, ctq_timeout := timeout, ctq_validate_only := val\<rparr>)))))"

definition CreateTopicsRequest_is_flexible_version :: "int16 \<Rightarrow> bool" where
  "CreateTopicsRequest_is_flexible_version ver \<longleftrightarrow> sint ver \<ge> 5"

definition CreateTopicsRequest_required_version :: "int16 \<Rightarrow> KafkaVersion" where
  "CreateTopicsRequest_required_version v =
     (if v = 5 then V2_4_0_0 else if v = 4 then V2_4_0_0 else if v = 3 then V2_0_0_0 else if v = 2
      then V0_11_0_0 else if v = 1 then V0_10_2_0 else if v = 0 then V0_10_1_0 else V2_8_0_0)"

definition CreateTopicsRequest_body :: "CreateTopicsRequest \<Rightarrow> protocol_body" where
  "CreateTopicsRequest_body m =
     \<lparr>pb_key = 19, pb_version = ctq_version m,
      pb_header_version = (if sint (ctq_version m) \<ge> 5 then 2 else 1),
      pb_is_valid_version = (sint (ctq_version m) \<ge> 0 \<and> sint (ctq_version m) \<le> 6),
      pb_is_flexible = CreateTopicsRequest_is_flexible_version (ctq_version m),
      pb_is_flexible_version = CreateTopicsRequest_is_flexible_version,
      pb_required_version = CreateTopicsRequest_required_version (ctq_version m),
      pb_encode = CreateTopicsRequest_encode m\<rparr>"

definition wCreateTopicsRequest :: "CreateTopicsRequest \<Rightarrow> bytes" where
  "wCreateTopicsRequest m =
     (let fl = CreateTopicsRequest_is_flexible_version (ctq_version m) in
     wArray fl (wTopicEntry_entry fl) (ctq_topic_details m) @ wDurationMs (ctq_timeout m) @
     (if sint (ctq_version m) \<ge> 1 then wBool (ctq_validate_only m) else []) @ wTags fl)"

definition CreateTopicsRequest_ok :: "CreateTopicsRequest \<Rightarrow> bool" where
  "CreateTopicsRequest_ok m \<longleftrightarrow>
     (let fl = CreateTopicsRequest_is_flexible_version (ctq_version m) in
     len_ok fl (length (ctq_topic_details m)) \<and>
     (\<forall>kv \<in> set (ctq_topic_details m). TopicEntry_entry_ok fl kv) \<and>
     smap (ctq_topic_details m) \<and> duration_ok (ctq_timeout m))"

definition CreateTopicsRequest_seen :: "CreateTopicsRequest \<Rightarrow> CreateTopicsRequest \<Rightarrow>
    CreateTopicsRequest" where
  "CreateTopicsRequest_seen this m =
     m\<lparr>ctq_version := (if sint (ctq_version m) \<ge> 1 then ctq_version m else ctq_version this),
       ctq_topic_details := (map (TopicEntry_entry_seen) (ctq_topic_details m)), ctq_validate_only := (if sint
       (ctq_version m) \<ge> 1 then (ctq_validate_only m) else (ctq_validate_only this))\<rparr>"

interpretation ctq: protocol_message CreateTopicsRequest_body CreateTopicsRequest_decode wCreateTopicsRequest
  CreateTopicsRequest_ok CreateTopicsRequest_seen
proof
  fix m this :: CreateTopicsRequest
  assume ok: "CreateTopicsRequest_ok m"
  show "emits (pb_is_flexible (CreateTopicsRequest_body m)) (pb_encode (CreateTopicsRequest_body m))
      (wCreateTopicsRequest m)"
    unfolding CreateTopicsRequest_body_def CreateTopicsRequest_encode_def wCreateTopicsRequest_def Let_def
        protocol_body.simps
    by (intro emits_rules; use ok in \<open>auto simp: CreateTopicsRequest_ok_def Let_def \<close>)
  show "reads (pb_is_flexible (CreateTopicsRequest_body m)) (CreateTopicsRequest_decode this (pb_version
      (CreateTopicsRequest_body m)))
      (wCreateTopicsRequest m) (CreateTopicsRequest_seen this m)"
    unfolding CreateTopicsRequest_body_def CreateTopicsRequest_decode_def wCreateTopicsRequest_def Let_def
        protocol_body.simps
    by (rule reads_conv, (rule reads_rules | (use ok in \<open>auto simp: CreateTopicsRequest_ok_def Let_def 
      CreateTopicsRequest_seen_def; fail\<close>))+)
qed (simp_all add: CreateTopicsRequest_body_def wCreateTopicsRequest_def Let_def)

text \<open>The constructor takes the details that are not null.\<close>

definition CreateTopicsRequest_new :: "KafkaVersion \<Rightarrow> int64 \<Rightarrow> bool \<Rightarrow> (bytes
    \<times> TopicDetail option) list \<Rightarrow> CreateTopicsRequest" where
  "CreateTopicsRequest_new version timeout_ms validate topic_details =
     \<lparr>ctq_version = (if version_ge version V2_4_0_0 then 5 else if version_ge version V2_0_0_0 then 3
        else if version_ge version V0_11_0_0 then 2 else if version_ge version V0_10_2_0 then 1 else 0),
      ctq_topic_details = concat (map (\<lambda>(topic, d). case d of None \<Rightarrow> [] | Some detail
          \<Rightarrow> [(topic, detail)]) topic_details),
      ctq_timeout = timeout_ms, ctq_validate_only = validate\<rparr>"

record CreatableTopicConfigs =
  cnf_value :: bytes
  cnf_read_only :: bool
  cnf_config_source :: int8
  cnf_is_sensitive :: bool

definition CreatableTopicConfigs_encode :: "CreatableTopicConfigs \<Rightarrow> unit enc" where
  "CreatableTopicConfigs_encode x =
     then_p (err_as ErrEncodeError (putNullableString (cnf_value x)))
    (then_p (putBool (cnf_read_only x))
    (then_p (putInt8 (cnf_config_source x))
    (then_p (putBool (cnf_is_sensitive x))
       putEmptyTaggedFieldArray)))"

definition CreatableTopicConfigs_decode :: "CreatableTopicConfigs dec" where
  "CreatableTopicConfigs_decode =
     bind_p (err_as ErrDecodeError getNullableString) (\<lambda>value'.
     bind_p (err_as ErrDecodeError getBool) (\<lambda>read_only.
     bind_p (err_as ErrDecodeError getInt8) (\<lambda>config_source.
     bind_p (err_as ErrDecodeError getBool) (\<lambda>is_sensitive.
     bind_p getEmptyTaggedFieldArray (\<lambda>_.
       ret \<lparr>cnf_value = value', cnf_read_only = read_only, cnf_config_source = config_source,
           cnf_is_sensitive = is_sensitive\<rparr>)))))"

definition wCreatableTopicConfigs :: "bool \<Rightarrow> CreatableTopicConfigs \<Rightarrow> bytes" where
  "wCreatableTopicConfigs fl x =
     wNullableString fl (cnf_value x) @ wBool (cnf_read_only x) @ be8 (cnf_config_source x) @
     wBool (cnf_is_sensitive x) @ wTags fl"

definition CreatableTopicConfigs_ok :: "bool \<Rightarrow> CreatableTopicConfigs \<Rightarrow> bool" where
  "CreatableTopicConfigs_ok fl x \<longleftrightarrow>
     string_ok fl (cnf_value x)"

lemma emits_CreatableTopicConfigs [emits_rules]:
  "CreatableTopicConfigs_ok fl x \<Longrightarrow> emits fl (CreatableTopicConfigs_encode x)
      (wCreatableTopicConfigs fl x)"
  unfolding CreatableTopicConfigs_encode_def wCreatableTopicConfigs_def CreatableTopicConfigs_ok_def by (intro
      emits_rules; auto)

lemma reads_CreatableTopicConfigs [reads_rules]:
  assumes "CreatableTopicConfigs_ok fl x"
  shows "reads fl (CreatableTopicConfigs_decode) (wCreatableTopicConfigs fl x) x"
  unfolding CreatableTopicConfigs_decode_def wCreatableTopicConfigs_def
  by (rule reads_conv, (rule reads_rules | (use assms in \<open>auto simp: CreatableTopicConfigs_ok_def;
      fail\<close>))+)

record TopicError =
  ter_err :: int16
  ter_err_msg :: bytes

definition TopicError_default :: TopicError where
  "TopicError_default = \<lparr>ter_err = 0, ter_err_msg = []\<rparr>"

definition TopicError_encode :: "int16 \<Rightarrow> TopicError \<Rightarrow> unit enc" where
  "TopicError_encode version x =
     then_p (putInt16 (ter_err x))
       (when_p (sint version \<ge> 1) (err_as ErrEncodeError (putNullableString (ter_err_msg x))))"

definition TopicError_decode :: "int16 \<Rightarrow> TopicError \<Rightarrow> TopicError dec" where
  "TopicError_decode version this =
     bind_p (err_as ErrDecodeError getInt16) (\<lambda>err.
     bind_p (field_if (sint version \<ge> 1) (err_as ErrDecodeError getNullableString) (ter_err_msg this))
         (\<lambda>err_msg.
       ret \<lparr>ter_err = err, ter_err_msg = err_msg\<rparr>))"

definition wTopicError :: "int16 \<Rightarrow> bool \<Rightarrow> TopicError \<Rightarrow> bytes" where
  "wTopicError version fl x =
     be16 (ter_err x) @ (if sint version \<ge> 1 then wNullableString fl (ter_err_msg x) else [])"

definition TopicError_ok :: "bool \<Rightarrow> TopicError \<Rightarrow> bool" where
  "TopicError_ok fl x \<longleftrightarrow>
     string_ok fl (ter_err_msg x)"

definition TopicError_seen :: "int16 \<Rightarrow> TopicError \<Rightarrow> TopicError \<Rightarrow>
    TopicError" where
  "TopicError_seen version this x =
     x\<lparr>ter_err_msg := (if sint version \<ge> 1 then (ter_err_msg x) else (ter_err_msg this))\<rparr>"

lemma emits_TopicError [emits_rules]:
  "TopicError_ok fl x \<Longrightarrow> emits fl (TopicError_encode version x) (wTopicError version fl x)"
  unfolding TopicError_encode_def wTopicError_def TopicError_ok_def by (intro emits_rules; auto)

lemma reads_TopicError [reads_rules]:
  assumes "TopicError_ok fl x"
  shows "reads fl (TopicError_decode version this) (wTopicError version fl x) (TopicError_seen version this x)"
  unfolding TopicError_decode_def wTopicError_def
  by (rule reads_conv, (rule reads_rules | (use assms in \<open>auto simp: TopicError_ok_def
      TopicError_seen_def; fail\<close>))+)

definition TopicConfig_put_entry :: "bytes \<times> CreatableTopicConfigs \<Rightarrow> unit enc" where
  "TopicConfig_put_entry kv =
     then_p (err_as ErrEncodeError (putString (fst kv)))
       (err_as ErrEncodeError (CreatableTopicConfigs_encode (snd kv)))"

definition TopicConfig_get_entry :: "(bytes \<times> CreatableTopicConfigs) dec" where
  "TopicConfig_get_entry =
     bind_p (err_as ErrDecodeError getString) (\<lambda>k.
     bind_p (err_as ErrDecodeError CreatableTopicConfigs_decode) (\<lambda>v.
       ret (k, v)))"

definition wTopicConfig_entry :: "bool \<Rightarrow> bytes \<times> CreatableTopicConfigs \<Rightarrow> bytes"
    where
  "wTopicConfig_entry fl kv =
     wString fl (fst kv) @ wCreatableTopicConfigs fl (snd kv)"

definition TopicConfig_entry_ok :: "bool \<Rightarrow> bytes \<times> CreatableTopicConfigs \<Rightarrow> bool"
    where
  "TopicConfig_entry_ok fl kv \<longleftrightarrow>
     string_ok fl (fst kv) \<and> CreatableTopicConfigs_ok fl (snd kv)"

lemma emits_TopicConfig_entry [emits_rules]:
  "TopicConfig_entry_ok fl kv \<Longrightarrow> emits fl (TopicConfig_put_entry kv) (wTopicConfig_entry fl kv)"
  unfolding TopicConfig_put_entry_def wTopicConfig_entry_def TopicConfig_entry_ok_def by (intro emits_rules;
      auto)

lemma reads_TopicConfig_entry [reads_rules]:
  assumes "TopicConfig_entry_ok fl kv"
  shows "reads fl (TopicConfig_get_entry) (wTopicConfig_entry fl kv) kv"
  unfolding TopicConfig_get_entry_def wTopicConfig_entry_def
  by (rule reads_conv, (rule reads_rules | (use assms in \<open>auto simp: TopicConfig_entry_ok_def;
      fail\<close>))+)

text \<open>
  The error code of the configuration travels as the tagged field 0.
      \<^verbatim>\<open>getTaggedFieldArray\<close> skips the bytes of a field
  before it runs the decoder of the field, which so reads the two bytes behind it.
\<close>

primrec errorTagLoop :: "nat \<Rightarrow> int16 option \<Rightarrow> int16 option dec" where
  "errorTagLoop 0 code = ret code"
| "errorTagLoop (Suc n) code =
     bind_p skipTaggedField (\<lambda>tag_id.
       if tag_id = 0 then bind_p (with_flexible (err_as ErrDecodeError getInt16)) (\<lambda>e. errorTagLoop n
           (Some e))
       else errorTagLoop n code)"

definition getErrorTag :: "int16 option dec" where
  "getErrorTag = by_flex None (raise ErrTaggedFieldsInNonFlexibleContext)
     (bind_p getUVariant (\<lambda>n. errorTagLoop (unat n) None))"

lemma errorTagLoop_tagLoop:
  "bind_p (errorTagLoop n code) (\<lambda>_. ret ()) =
   tagLoop n [(0, bind_p (err_as ErrDecodeError getInt16) (\<lambda>_. ret ()))]"
proof (induction n arbitrary: code)
  case (Suc n)
  have wf: "bind_p (with_flexible m) (\<lambda>x. l) = then_p (with_flexible (bind_p m (\<lambda>_. ret ())))
      l" for m :: "'a dec" and l :: "unit dec"
    by (auto simp: fun_eq_iff bind_p_def then_p_def with_flexible_def ret_def split: outcome.split)
  have "bind_p (if tag_id = 0 then bind_p (with_flexible (err_as ErrDecodeError getInt16)) (\<lambda>e.
      errorTagLoop n (Some e))
      else errorTagLoop n code) (\<lambda>_. ret ()) =
    (case map_of [(0, bind_p (err_as ErrDecodeError getInt16) (\<lambda>_. ret ()))] tag_id of
       None \<Rightarrow> tagLoop n [(0, bind_p (err_as ErrDecodeError getInt16) (\<lambda>_. ret ()))]
     | Some d \<Rightarrow> then_p (with_flexible d) (tagLoop n [(0, bind_p (err_as ErrDecodeError getInt16)
         (\<lambda>_. ret ()))]))" for tag_id :: uint64
    by (simp add: bind_p_assoc Suc wf)
  then show ?case unfolding errorTagLoop.simps tagLoop.simps bind_p_assoc
    by (simp only:)
qed (simp add: bind_p_def ret_def)

definition wResultTags :: "bool \<Rightarrow> int16 \<Rightarrow> bytes" where
  "wResultTags fl code = (if code = 0 then wTags fl else encodeUVariant 1 @ encodeUVariant 0 @ encodeUVariant 2
      @ be16 code)"

definition putResultTags :: "int16 \<Rightarrow> unit enc" where
  "putResultTags code =
     (if code = 0 then putEmptyTaggedFieldArray
      else then_p (putUVarint 1) (then_p (putUVarint 0) (then_p (putUVarint 2) (putInt16 code))))"

text \<open>Code 0 is the only one that comes back; for another one the two bytes behind the field are
    taken.\<close>

lemma emits_putResultTags [emits_rules]: "fl \<Longrightarrow> emits fl (putResultTags code) (wResultTags fl
    code)"
  unfolding putResultTags_def wResultTags_def
  by (auto intro!: emits_then emits_putUVarint emits_putInt16 emits_putEmptyTaggedFieldArray)

lemma reads_ResultTags [reads_rules]:
  "code = 0 \<Longrightarrow> fl \<Longrightarrow>
   reads fl (bind_p (err_as e getErrorTag) (\<lambda>t. ret (case t of None \<Rightarrow> 0 | Some c
       \<Rightarrow> c))) (wResultTags fl code) code"
proof -
  assume "code = 0" "fl"
  have "reads True getErrorTag [0] None"
    unfolding getErrorTag_def by (rule reads_by_flex) (auto intro!: reads_bind_same [OF reads_uvariant_zero]
        reads_ret)
  from reads_err_as [OF this] \<open>code = 0\<close> \<open>fl\<close> show ?thesis
    by (auto simp: wResultTags_def wTags_def intro!: reads_conv [OF reads_bind_same] reads_ret)
qed

lemma error_tag_reads_behind:
  "getErrorTag (push_flexible (new_decoder (wResultTags True 3 @ be16 41))) =
    Ok (Some 41) ((push_flexible (new_decoder (wResultTags True 3 @ be16 41)))\<lparr>pd_offset := 7\<rparr>)"
  by code_simp

record CreatableTopicResult =
  rst_num_partitions :: int32
  rst_replication_factor :: int16
  rst_configs :: "(bytes \<times> CreatableTopicConfigs) list"
  rst_topic_config_error_code :: int16

definition CreatableTopicResult_encode :: "CreatableTopicResult \<Rightarrow> unit enc" where
  "CreatableTopicResult_encode x =
     then_p (putInt32 (rst_num_partitions x))
    (then_p (putInt16 (rst_replication_factor x))
    (then_p (then_p (err_as ErrEncodeError (putArrayLength (size32 (length (rst_configs x)))))
            (for_each TopicConfig_put_entry (rst_configs x)))
       (putResultTags (rst_topic_config_error_code x))))"

definition CreatableTopicResult_decode :: "CreatableTopicResult dec" where
  "CreatableTopicResult_decode =
     bind_p (err_as ErrDecodeError getInt32) (\<lambda>num_partitions.
     bind_p (err_as ErrDecodeError getInt16) (\<lambda>replication_factor.
     bind_p (bind_p (err_as ErrDecodeError getArrayLength) (\<lambda>n. put_all (\<lambda>(k, v). smap_put k v)
         n TopicConfig_get_entry [])) (\<lambda>configs.
     bind_p (bind_p (err_as ErrDecodeError getErrorTag) (\<lambda>t. ret (case t of None \<Rightarrow> 0 | Some
         c \<Rightarrow> c))) (\<lambda>code.
       ret \<lparr>rst_num_partitions = num_partitions, rst_replication_factor = replication_factor,
           rst_configs = configs, rst_topic_config_error_code = code\<rparr>))))"

definition wCreatableTopicResult :: "bool \<Rightarrow> CreatableTopicResult \<Rightarrow> bytes" where
  "wCreatableTopicResult fl x =
     be32 (rst_num_partitions x) @ be16 (rst_replication_factor x) @
     wArray fl (wTopicConfig_entry fl) (rst_configs x) @ wResultTags fl (rst_topic_config_error_code x)"

definition CreatableTopicResult_ok :: "bool \<Rightarrow> CreatableTopicResult \<Rightarrow> bool" where
  "CreatableTopicResult_ok fl x \<longleftrightarrow>
     len_ok fl (length (rst_configs x)) \<and>
     (\<forall>kv \<in> set (rst_configs x). TopicConfig_entry_ok fl kv) \<and> smap (rst_configs x) \<and>
     (rst_topic_config_error_code x) = 0 \<and> fl"

lemma emits_CreatableTopicResult [emits_rules]:
  "CreatableTopicResult_ok fl x \<Longrightarrow> emits fl (CreatableTopicResult_encode x)
      (wCreatableTopicResult fl x)"
  unfolding CreatableTopicResult_encode_def wCreatableTopicResult_def CreatableTopicResult_ok_def by (intro
      emits_rules; auto)

lemma reads_CreatableTopicResult [reads_rules]:
  assumes "CreatableTopicResult_ok fl x"
  shows "reads fl (CreatableTopicResult_decode) (wCreatableTopicResult fl x) x"
  unfolding CreatableTopicResult_decode_def wCreatableTopicResult_def
  by (rule reads_conv, (rule reads_rules | (use assms in \<open>auto simp: CreatableTopicResult_ok_def;
      fail\<close>))+)

text \<open>
  The errors and the results go through one loop; \<open>encode\<close> looks the result of a topic up,
      \<open>decode\<close> reads a result behind each
  error from version 5 on.
\<close>

record CreateTopicsResponse =
  ctr_version :: int16
  ctr_throttle_time :: int64
  ctr_topic_errors :: "(bytes \<times> TopicError) list"
  ctr_topic_results :: "(bytes \<times> CreatableTopicResult) list"

definition CreateTopicsResponse_set_version :: "int16 \<Rightarrow> CreateTopicsResponse \<Rightarrow>
    CreateTopicsResponse" where
  "CreateTopicsResponse_set_version v m = m\<lparr>ctr_version := v\<rparr>"

definition CreateTopicsResponse_put_topic :: "CreateTopicsResponse \<Rightarrow> bytes \<times> TopicError
    \<Rightarrow> unit enc" where
  "CreateTopicsResponse_put_topic m kv =
     then_p (err_as ErrEncodeError (putString (fst kv)))
    (then_p (err_as ErrEncodeError (TopicError_encode (ctr_version m) (snd kv)))
       (when_p (sint (ctr_version m) \<ge> 5)
          (case map_of (ctr_topic_results m) (fst kv) of
             None \<Rightarrow> raise ErrEncodeError
           | Some r \<Rightarrow> err_as ErrEncodeError (CreatableTopicResult_encode r))))"

definition CreateTopicsResponse_encode :: "CreateTopicsResponse \<Rightarrow> unit enc" where
  "CreateTopicsResponse_encode m =
     then_p (when_p (sint (ctr_version m) \<ge> 2) (putDurationMs (ctr_throttle_time m)))
    (then_p (then_p (err_as ErrEncodeError (putArrayLength (size32 (length (ctr_topic_errors m)))))
       (for_each (CreateTopicsResponse_put_topic m) (ctr_topic_errors m)))
       putEmptyTaggedFieldArray)"

definition CreateTopicsResponse_get_topic :: "int16 \<Rightarrow> (bytes \<times> TopicError \<times>
    CreatableTopicResult option) dec" where
  "CreateTopicsResponse_get_topic version =
     bind_p (err_as ErrDecodeError getString) (\<lambda>topic.
     bind_p (err_as ErrDecodeError (TopicError_decode version TopicError_default)) (\<lambda>topicErr.
     bind_p (field_if (sint version \<ge> 5) (bind_p (err_as ErrDecodeError CreatableTopicResult_decode)
         (\<lambda>r. ret (Some r))) None) (\<lambda>result.
       ret (topic, topicErr, result))))"

definition put_topic_answer :: "bytes \<times> TopicError \<times> CreatableTopicResult option \<Rightarrow>
    (bytes \<times> TopicError) list \<times> (bytes \<times> CreatableTopicResult) list \<Rightarrow>
    (bytes \<times> TopicError) list \<times> (bytes \<times> CreatableTopicResult) list" where
  "put_topic_answer = (\<lambda>(topic, topicErr, result) (errors, results).
     (smap_put topic topicErr errors, case result of None \<Rightarrow> results | Some r \<Rightarrow> smap_put
         topic r results))"

definition CreateTopicsResponse_decode :: "CreateTopicsResponse \<Rightarrow> int16 \<Rightarrow>
    CreateTopicsResponse dec" where
  "CreateTopicsResponse_decode this version =
     bind_p (field_if (sint version \<ge> 2) (err_as ErrDecodeError getDurationMs) (ctr_throttle_time this))
         (\<lambda>throttle_time.
     bind_p (bind_p (err_as ErrDecodeError getArrayLength) (\<lambda>n.
         loop_p (nat (sint n)) put_topic_answer (CreateTopicsResponse_get_topic version)
           ([], if sint version \<ge> 5 then [] else ctr_topic_results this))) (\<lambda>topics.
     bind_p getEmptyTaggedFieldArray (\<lambda>_.
       ret \<lparr>ctr_version = version, ctr_throttle_time = throttle_time, ctr_topic_errors = fst topics,
           ctr_topic_results = snd topics\<rparr>)))"

definition CreateTopicsResponse_is_flexible_version :: "int16 \<Rightarrow> bool" where
  "CreateTopicsResponse_is_flexible_version ver \<longleftrightarrow> sint ver \<ge> 5"

definition CreateTopicsResponse_required_version :: "int16 \<Rightarrow> KafkaVersion" where
  "CreateTopicsResponse_required_version v =
     (if v = 5 then V2_4_0_0 else if v = 4 then V2_4_0_0 else if v = 3 then V2_0_0_0 else if v = 2 then
         V0_11_0_0
      else if v = 1 then V0_10_2_0 else if v = 0 then V0_10_1_0 else V2_8_0_0)"

definition CreateTopicsResponse_body :: "CreateTopicsResponse \<Rightarrow> protocol_body" where
  "CreateTopicsResponse_body m =
     \<lparr>pb_key = 19, pb_version = ctr_version m,
      pb_header_version = (if sint (ctr_version m) \<ge> 5 then 1 else 0),
      pb_is_valid_version = (sint (ctr_version m) \<ge> 0 \<and> sint (ctr_version m) \<le> 6),
      pb_is_flexible = CreateTopicsResponse_is_flexible_version (ctr_version m),
      pb_is_flexible_version = CreateTopicsResponse_is_flexible_version,
      pb_required_version = CreateTopicsResponse_required_version (ctr_version m),
      pb_encode = CreateTopicsResponse_encode m\<rparr>"

definition CreateTopicsResponse_throttle_time :: "CreateTopicsResponse \<Rightarrow> int64" where
  "CreateTopicsResponse_throttle_time m = ctr_throttle_time m"

text \<open>The layout, for a response with a result without an error for every topic.\<close>

definition wTopicAnswer :: "int16 \<Rightarrow> (bytes \<times> CreatableTopicResult) list \<Rightarrow> bool
    \<Rightarrow> bytes \<times> TopicError \<Rightarrow> bytes" where
  "wTopicAnswer version results fl kv =
     wString fl (fst kv) @ wTopicError version fl (snd kv) @
     (if sint version \<ge> 5 then wCreatableTopicResult fl (the (map_of results (fst kv))) else [])"

definition wCreateTopicsResponse :: "CreateTopicsResponse \<Rightarrow> bytes" where
  "wCreateTopicsResponse m =
     (let fl = CreateTopicsResponse_is_flexible_version (ctr_version m) in
     (if sint (ctr_version m) \<ge> 2 then wDurationMs (ctr_throttle_time m) else []) @
     wArray fl (wTopicAnswer (ctr_version m) (ctr_topic_results m) fl) (ctr_topic_errors m) @ wTags fl)"

definition CreateTopicsResponse_ok :: "CreateTopicsResponse \<Rightarrow> bool" where
  "CreateTopicsResponse_ok m \<longleftrightarrow>
     (let fl = CreateTopicsResponse_is_flexible_version (ctr_version m) in
     duration_ok (ctr_throttle_time m) \<and> len_ok fl (length (ctr_topic_errors m)) \<and> smap
         (ctr_topic_errors m) \<and>
     (\<forall>kv \<in> set (ctr_topic_errors m). string_ok fl (fst kv) \<and> TopicError_ok fl (snd kv)) \<and>
     (sint (ctr_version m) \<ge> 5 \<longrightarrow> smap (ctr_topic_results m) \<and>
        map fst (ctr_topic_results m) = map fst (ctr_topic_errors m) \<and>
        (\<forall>kv \<in> set (ctr_topic_results m). CreatableTopicResult_ok fl (snd kv))))"

definition CreateTopicsResponse_seen :: "CreateTopicsResponse \<Rightarrow> CreateTopicsResponse \<Rightarrow>
    CreateTopicsResponse" where
  "CreateTopicsResponse_seen this m =
     m\<lparr>ctr_throttle_time := (if sint (ctr_version m) \<ge> 2 then ctr_throttle_time m else
         ctr_throttle_time this),
       ctr_topic_errors := map (\<lambda>kv. (fst kv, TopicError_seen (ctr_version m) TopicError_default (snd
           kv))) (ctr_topic_errors m),
       ctr_topic_results := (if sint (ctr_version m) \<ge> 5 then ctr_topic_results m else ctr_topic_results
           this)\<rparr>"

lemma result_of_topic:
  assumes "map fst rs = map fst es" "\<forall>kv \<in> set rs. P (snd kv)" "kv \<in> set es"
  shows "\<exists>r. map_of rs (fst kv) = Some r \<and> P r"
proof -
  have "fst kv \<in> set (map fst rs)" using assms(1,3) by simp
  then obtain r where r: "map_of rs (fst kv) = Some r" by (cases "map_of rs (fst kv)") (auto simp:
      map_of_eq_None_iff)
  with bspec [OF assms(2) map_of_SomeD [OF r]] show ?thesis by simp
qed

lemma fold_answers_fixed:
  "fold put_topic_answer (map (\<lambda>kv. (fst kv, g kv, None)) xs) (E, R) = (fold (\<lambda>(k, v). smap_put
      k v) (map (\<lambda>kv. (fst kv, g kv)) xs) E, R)"
  by (induction xs arbitrary: E) (simp_all add: put_topic_answer_def)

lemma fold_answers_flexible:
  "fold put_topic_answer (map (\<lambda>kv. (fst kv, g kv, Some (h (fst kv)))) xs) (E, R) =
    (fold (\<lambda>(k, v). smap_put k v) (map (\<lambda>kv. (fst kv, g kv)) xs) E, fold (\<lambda>(k, v).
        smap_put k v) (map (\<lambda>kv. (fst kv, h (fst kv))) xs) R)"
  by (induction xs arbitrary: E R) (simp_all add: put_topic_answer_def)

lemma smap_map_keys: "smap xs \<Longrightarrow> smap (map (\<lambda>kv. (fst kv, g kv)) xs)"
  by (simp add: smap_def o_def)

lemma lookup_keys: "smap rs \<Longrightarrow> map (\<lambda>k. (k, the (map_of rs k))) (map fst rs) = rs"
proof -
  assume "smap rs"
  then have "(fst kv, the (map_of rs (fst kv))) = kv" if "kv \<in> set rs" for kv
    using that map_of_is_SomeI [OF smap_distinct, of rs "fst kv" "snd kv"] by simp
  then show ?thesis by (simp add: map_idI)
qed

interpretation ctr: protocol_message CreateTopicsResponse_body CreateTopicsResponse_decode wCreateTopicsResponse
  CreateTopicsResponse_ok CreateTopicsResponse_seen
proof
  fix m this :: CreateTopicsResponse
  assume ok: "CreateTopicsResponse_ok m"
  let ?v = "ctr_version m" and ?fl = "CreateTopicsResponse_is_flexible_version (ctr_version m)"
  let ?w = "wTopicAnswer ?v (ctr_topic_results m) ?fl"
  have res: "\<exists>r. map_of (ctr_topic_results m) (fst kv) = Some r \<and> CreatableTopicResult_ok ?fl r"
    if "kv \<in> set (ctr_topic_errors m)" "sint ?v \<ge> 5" for kv
    using ok that by (intro result_of_topic [where es = "ctr_topic_errors m"]) (simp_all add:
        CreateTopicsResponse_ok_def Let_def)
  have put: "emits ?fl (CreateTopicsResponse_put_topic m kv) (?w kv)" if kv: "kv \<in> set (ctr_topic_errors
      m)" for kv
  proof (cases "sint ?v \<ge> 5")
    case True
    obtain r where "map_of (ctr_topic_results m) (fst kv) = Some r" "CreatableTopicResult_ok ?fl r" using res
        [OF kv True] by blast
    then have "CreatableTopicResult_ok ?fl r" and eq: "(case map_of (ctr_topic_results m) (fst kv) of
        None \<Rightarrow> raise ErrEncodeError | Some r \<Rightarrow> err_as ErrEncodeError
            (CreatableTopicResult_encode r)) =
        err_as ErrEncodeError (CreatableTopicResult_encode r)" "the (map_of (ctr_topic_results m) (fst kv)) =
            r" by simp_all
    then show ?thesis using ok kv unfolding CreateTopicsResponse_put_topic_def wTopicAnswer_def eq
      by (intro emits_rules; auto simp: CreateTopicsResponse_ok_def Let_def)
  next
    case False
    then show ?thesis using ok kv unfolding CreateTopicsResponse_put_topic_def wTopicAnswer_def
      by (intro emits_rules; auto simp: CreateTopicsResponse_ok_def Let_def)
  qed
  show "emits (pb_is_flexible (CreateTopicsResponse_body m)) (pb_encode (CreateTopicsResponse_body m))
      (wCreateTopicsResponse m)"
    unfolding CreateTopicsResponse_body_def CreateTopicsResponse_encode_def wCreateTopicsResponse_def Let_def
        protocol_body.simps
    by (intro emits_rules put; use ok in \<open>auto simp: CreateTopicsResponse_ok_def Let_def\<close>)
  define g where "g = (\<lambda>kv :: bytes \<times> TopicError. TopicError_seen ?v TopicError_default (snd
      kv))"
  define h where "h = (\<lambda>k. the (map_of (ctr_topic_results m) k))"
  define ans where "ans = (\<lambda>kv. (fst kv, g kv, if sint ?v \<ge> 5 then Some (h (fst kv)) else None))"
  have get: "reads ?fl (CreateTopicsResponse_get_topic ?v) (?w kv) (ans kv)" if kv: "kv \<in> set
      (ctr_topic_errors m)" for kv
  proof (cases "sint ?v \<ge> 5")
    case True
    obtain r where "map_of (ctr_topic_results m) (fst kv) = Some r" "CreatableTopicResult_ok ?fl r" using res
        [OF kv True] by blast
    then have r: "CreatableTopicResult_ok ?fl r" "the (map_of (ctr_topic_results m) (fst kv)) = r" by simp_all
    show ?thesis unfolding CreateTopicsResponse_get_topic_def wTopicAnswer_def ans_def h_def g_def r(2)
      by (rule reads_conv, (rule reads_rules | (use True ok kv r(1) in \<open>auto simp:
          CreateTopicsResponse_ok_def Let_def; fail\<close>))+)
  next
    case False
    then show ?thesis unfolding CreateTopicsResponse_get_topic_def wTopicAnswer_def ans_def g_def
      by (simp add: field_if_def) (rule reads_conv, (rule reads_rules | (use ok kv in \<open>auto simp:
          CreateTopicsResponse_ok_def Let_def; fail\<close>))+)
  qed
  let ?R = "if sint ?v \<ge> 5 then [] else ctr_topic_results this"
  have n: "nat (sint (size32 (length (ctr_topic_errors m)))) = length (ctr_topic_errors m)"
    using ok sint_len [of ?fl] by (simp add: CreateTopicsResponse_ok_def Let_def)
  have len: "len_ok ?fl (length (ctr_topic_errors m))" and sm: "smap (ctr_topic_errors m)"
    using ok by (simp_all add: CreateTopicsResponse_ok_def Let_def)
  have "fold (\<lambda>(k, v). smap_put k v) (map (\<lambda>kv. (fst kv, g kv)) (ctr_topic_errors m)) [] = map
      (\<lambda>kv. (fst kv, g kv)) (ctr_topic_errors m)"
    using smap_rebuild [of "[]" "map (\<lambda>kv. (fst kv, g kv)) (ctr_topic_errors m)"] smap_map_keys [OF sm,
        of g] by simp
  moreover have "fold (\<lambda>(k, v). smap_put k v) (map (\<lambda>kv. (fst kv, h (fst kv)))
      (ctr_topic_errors m)) [] = ctr_topic_results m"
    if "sint ?v \<ge> 5"
  proof -
    have rs: "smap (ctr_topic_results m)" "map fst (ctr_topic_results m) = map fst (ctr_topic_errors m)"
      using ok that by (simp_all add: CreateTopicsResponse_ok_def Let_def)
    have "map (\<lambda>kv. (fst kv, h (fst kv))) (ctr_topic_errors m) = map (\<lambda>k. (k, h k)) (map fst
        (ctr_topic_errors m))"
      by (simp add: o_def)
    then have "map (\<lambda>kv. (fst kv, h (fst kv))) (ctr_topic_errors m) = ctr_topic_results m"
      unfolding h_def rs(2) [symmetric] lookup_keys [OF rs(1)] .
    then show ?thesis using smap_rebuild [of "[]" "ctr_topic_results m"] rs(1) by simp
  qed
  ultimately have folded: "fold put_topic_answer (map ans (ctr_topic_errors m)) ([], ?R) =
      (map (\<lambda>kv. (fst kv, g kv)) (ctr_topic_errors m), if sint ?v \<ge> 5 then ctr_topic_results m else
          ctr_topic_results this)"
    unfolding ans_def by (cases "sint ?v \<ge> 5") (simp_all add: fold_answers_fixed fold_answers_flexible)
  have loop: "reads ?fl (bind_p (err_as ErrDecodeError getArrayLength) (\<lambda>n. loop_p (nat (sint n))
      put_topic_answer
        (CreateTopicsResponse_get_topic ?v) ([], ?R))) (wArray ?fl ?w (ctr_topic_errors m))
      (map (\<lambda>kv. (fst kv, g kv)) (ctr_topic_errors m), if sint ?v \<ge> 5 then ctr_topic_results m else
          ctr_topic_results this)"
    unfolding wArray_def folded [symmetric]
    by (rule reads_bind [OF reads_err_as [OF reads_getArrayLength [OF len]]])
      (simp add: n reads_loop_seen [where g = ans] get)
  show "reads (pb_is_flexible (CreateTopicsResponse_body m)) (CreateTopicsResponse_decode this (pb_version
      (CreateTopicsResponse_body m)))
      (wCreateTopicsResponse m) (CreateTopicsResponse_seen this m)"
    unfolding CreateTopicsResponse_body_def CreateTopicsResponse_decode_def wCreateTopicsResponse_def Let_def
        protocol_body.simps
    by (rule reads_conv, (rule loop reads_rules | (use ok in \<open>auto simp: CreateTopicsResponse_ok_def
        Let_def
      CreateTopicsResponse_seen_def g_def; fail\<close>))+)
qed (simp_all add: CreateTopicsResponse_body_def wCreateTopicsResponse_def Let_def)

section \<open>DeleteTopics\<close>

record DeleteTopicsRequest =
  dtq_version :: int16
  dtq_topics :: "bytes list"
  dtq_timeout :: int64

definition DeleteTopicsRequest_set_version :: "int16 \<Rightarrow> DeleteTopicsRequest \<Rightarrow>
    DeleteTopicsRequest" where
  "DeleteTopicsRequest_set_version v m = m\<lparr>dtq_version := v\<rparr>"

definition DeleteTopicsRequest_encode :: "DeleteTopicsRequest \<Rightarrow> unit enc" where
  "DeleteTopicsRequest_encode m =
     then_p (err_as ErrEncodeError (putStringArray (dtq_topics m)))
    (then_p (putDurationMs (dtq_timeout m))
       (when_p (sint (dtq_version m) \<ge> 4) putEmptyTaggedFieldArray))"

definition DeleteTopicsRequest_decode :: "DeleteTopicsRequest \<Rightarrow> int16 \<Rightarrow>
    DeleteTopicsRequest dec" where
  "DeleteTopicsRequest_decode this version =
     bind_p (err_as ErrDecodeError getStringArray) (\<lambda>topics.
     bind_p (err_as ErrDecodeError getDurationMs) (\<lambda>timeout.
     bind_p (field_if (sint version \<ge> 4) (err_as ErrDecodeError getEmptyTaggedFieldArray) ()) (\<lambda>_.
       ret \<lparr>dtq_version = version, dtq_topics = topics, dtq_timeout = timeout\<rparr>)))"

definition DeleteTopicsRequest_is_flexible_version :: "int16 \<Rightarrow> bool" where
  "DeleteTopicsRequest_is_flexible_version ver \<longleftrightarrow> sint ver \<ge> 4"

definition DeleteTopicsRequest_required_version :: "int16 \<Rightarrow> KafkaVersion" where
  "DeleteTopicsRequest_required_version v =
     (if v = 4 then V2_4_0_0 else if v = 3 then V2_1_0_0 else if v = 2 then V2_0_0_0 else if v = 1
      then V0_11_0_0 else if v = 0 then V0_10_1_0 else V2_2_0_0)"

definition DeleteTopicsRequest_body :: "DeleteTopicsRequest \<Rightarrow> protocol_body" where
  "DeleteTopicsRequest_body m =
     \<lparr>pb_key = 20, pb_version = dtq_version m,
      pb_header_version = (if sint (dtq_version m) \<ge> 4 then 2 else 1),
      pb_is_valid_version = (sint (dtq_version m) \<ge> 0 \<and> sint (dtq_version m) \<le> 4),
      pb_is_flexible = DeleteTopicsRequest_is_flexible_version (dtq_version m),
      pb_is_flexible_version = DeleteTopicsRequest_is_flexible_version,
      pb_required_version = DeleteTopicsRequest_required_version (dtq_version m),
      pb_encode = DeleteTopicsRequest_encode m\<rparr>"

definition wDeleteTopicsRequest :: "DeleteTopicsRequest \<Rightarrow> bytes" where
  "wDeleteTopicsRequest m =
     (let fl = DeleteTopicsRequest_is_flexible_version (dtq_version m) in
     wStringArray fl (dtq_topics m) @ wDurationMs (dtq_timeout m) @
     (if sint (dtq_version m) \<ge> 4 then wTags fl else []))"

definition DeleteTopicsRequest_ok :: "DeleteTopicsRequest \<Rightarrow> bool" where
  "DeleteTopicsRequest_ok m \<longleftrightarrow>
     (let fl = DeleteTopicsRequest_is_flexible_version (dtq_version m) in
     strings_ok fl (dtq_topics m) \<and> duration_ok (dtq_timeout m))"

definition DeleteTopicsRequest_seen :: "DeleteTopicsRequest \<Rightarrow> DeleteTopicsRequest \<Rightarrow>
    DeleteTopicsRequest" where
  "DeleteTopicsRequest_seen this m =
     m"

interpretation dtq: protocol_message DeleteTopicsRequest_body DeleteTopicsRequest_decode wDeleteTopicsRequest
  DeleteTopicsRequest_ok DeleteTopicsRequest_seen
proof
  fix m this :: DeleteTopicsRequest
  assume ok: "DeleteTopicsRequest_ok m"
  show "emits (pb_is_flexible (DeleteTopicsRequest_body m)) (pb_encode (DeleteTopicsRequest_body m))
      (wDeleteTopicsRequest m)"
    unfolding DeleteTopicsRequest_body_def DeleteTopicsRequest_encode_def wDeleteTopicsRequest_def Let_def
        protocol_body.simps
    by (intro emits_rules; use ok in \<open>auto simp: DeleteTopicsRequest_ok_def Let_def \<close>)
  show "reads (pb_is_flexible (DeleteTopicsRequest_body m)) (DeleteTopicsRequest_decode this (pb_version
      (DeleteTopicsRequest_body m)))
      (wDeleteTopicsRequest m) (DeleteTopicsRequest_seen this m)"
    unfolding DeleteTopicsRequest_body_def DeleteTopicsRequest_decode_def wDeleteTopicsRequest_def Let_def
        protocol_body.simps
    by (rule reads_conv, (rule reads_rules | (use ok in \<open>auto simp: DeleteTopicsRequest_ok_def Let_def 
      DeleteTopicsRequest_seen_def; fail\<close>))+)
qed (simp_all add: DeleteTopicsRequest_body_def wDeleteTopicsRequest_def Let_def)

definition getVersionFromKafkaVersion :: "KafkaVersion \<Rightarrow> int16" where
  "getVersionFromKafkaVersion v =
     (if IsAtLeast v V2_4_0_0 then 4 else if IsAtLeast v V2_1_0_0 then 3 else if IsAtLeast v V2_0_0_0 then 2
      else if IsAtLeast v V0_11_0_0 then 1 else 0)"

definition DeleteTopicsRequest_new :: "KafkaVersion \<Rightarrow> bytes list \<Rightarrow> int64 \<Rightarrow>
    DeleteTopicsRequest" where
  "DeleteTopicsRequest_new version topics timeoutMs =
     \<lparr>dtq_version = getVersionFromKafkaVersion version, dtq_topics = topics, dtq_timeout =
         timeoutMs\<rparr>"

definition TopicErrorCode_put_entry :: "bytes \<times> int16 \<Rightarrow> unit enc" where
  "TopicErrorCode_put_entry kv =
     then_p (err_as ErrEncodeError (putString (fst kv)))
    (then_p (putInt16 (snd kv))
       putEmptyTaggedFieldArray)"

definition TopicErrorCode_get_entry :: "(bytes \<times> int16) dec" where
  "TopicErrorCode_get_entry =
     bind_p (err_as ErrDecodeError getString) (\<lambda>k.
     bind_p (err_as ErrDecodeError getInt16) (\<lambda>v.
     bind_p (err_as ErrDecodeError getEmptyTaggedFieldArray) (\<lambda>_.
       ret (k, v))))"

definition wTopicErrorCode_entry :: "bool \<Rightarrow> bytes \<times> int16 \<Rightarrow> bytes" where
  "wTopicErrorCode_entry fl kv =
     wString fl (fst kv) @ be16 (snd kv) @ wTags fl"

definition TopicErrorCode_entry_ok :: "bool \<Rightarrow> bytes \<times> int16 \<Rightarrow> bool" where
  "TopicErrorCode_entry_ok fl kv \<longleftrightarrow>
     string_ok fl (fst kv)"

lemma emits_TopicErrorCode_entry [emits_rules]:
  "TopicErrorCode_entry_ok fl kv \<Longrightarrow> emits fl (TopicErrorCode_put_entry kv)
      (wTopicErrorCode_entry fl kv)"
  unfolding TopicErrorCode_put_entry_def wTopicErrorCode_entry_def TopicErrorCode_entry_ok_def by (intro
      emits_rules; auto)

lemma reads_TopicErrorCode_entry [reads_rules]:
  assumes "TopicErrorCode_entry_ok fl kv"
  shows "reads fl (TopicErrorCode_get_entry) (wTopicErrorCode_entry fl kv) kv"
  unfolding TopicErrorCode_get_entry_def wTopicErrorCode_entry_def
  by (rule reads_conv, (rule reads_rules | (use assms in \<open>auto simp: TopicErrorCode_entry_ok_def;
      fail\<close>))+)

record DeleteTopicsResponse =
  dtr_version :: int16
  dtr_throttle_time :: int64
  dtr_topic_error_codes :: "(bytes \<times> int16) list"

definition DeleteTopicsResponse_set_version :: "int16 \<Rightarrow> DeleteTopicsResponse \<Rightarrow>
    DeleteTopicsResponse" where
  "DeleteTopicsResponse_set_version v m = m\<lparr>dtr_version := v\<rparr>"

definition DeleteTopicsResponse_encode :: "DeleteTopicsResponse \<Rightarrow> unit enc" where
  "DeleteTopicsResponse_encode m =
     then_p (when_p (sint (dtr_version m) \<ge> 1) (putDurationMs (dtr_throttle_time m)))
    (then_p (then_p (err_as ErrEncodeError (putArrayLength (size32 (length (dtr_topic_error_codes m)))))
            (for_each TopicErrorCode_put_entry (dtr_topic_error_codes m)))
       putEmptyTaggedFieldArray)"

definition DeleteTopicsResponse_decode :: "DeleteTopicsResponse \<Rightarrow> int16 \<Rightarrow>
    DeleteTopicsResponse dec" where
  "DeleteTopicsResponse_decode this version =
     bind_p (field_if (sint version \<ge> 1) (err_as ErrDecodeError getDurationMs) (dtr_throttle_time this))
         (\<lambda>throttle_time.
     bind_p (bind_p (err_as ErrDecodeError getArrayLength) (\<lambda>n. put_all (\<lambda>(k, v). smap_put k v)
         n TopicErrorCode_get_entry [])) (\<lambda>topic_error_codes.
     bind_p (err_as ErrDecodeError getEmptyTaggedFieldArray) (\<lambda>_.
       ret (this\<lparr>dtr_version := (if sint version \<ge> 1 then version else dtr_version this),
         dtr_throttle_time := throttle_time, dtr_topic_error_codes := topic_error_codes\<rparr>))))"

definition DeleteTopicsResponse_is_flexible_version :: "int16 \<Rightarrow> bool" where
  "DeleteTopicsResponse_is_flexible_version ver \<longleftrightarrow> sint ver \<ge> 4"

definition DeleteTopicsResponse_required_version :: "int16 \<Rightarrow> KafkaVersion" where
  "DeleteTopicsResponse_required_version v =
     (if v = 4 then V2_4_0_0 else if v = 3 then V2_1_0_0 else if v = 2 then V2_0_0_0 else if v = 1
      then V0_11_0_0 else if v = 0 then V0_10_1_0 else V2_2_0_0)"

definition DeleteTopicsResponse_body :: "DeleteTopicsResponse \<Rightarrow> protocol_body" where
  "DeleteTopicsResponse_body m =
     \<lparr>pb_key = 20, pb_version = dtr_version m,
      pb_header_version = (if sint (dtr_version m) \<ge> 4 then 1 else 0),
      pb_is_valid_version = (sint (dtr_version m) \<ge> 0 \<and> sint (dtr_version m) \<le> 4),
      pb_is_flexible = DeleteTopicsResponse_is_flexible_version (dtr_version m),
      pb_is_flexible_version = DeleteTopicsResponse_is_flexible_version,
      pb_required_version = DeleteTopicsResponse_required_version (dtr_version m),
      pb_encode = DeleteTopicsResponse_encode m\<rparr>"

definition wDeleteTopicsResponse :: "DeleteTopicsResponse \<Rightarrow> bytes" where
  "wDeleteTopicsResponse m =
     (let fl = DeleteTopicsResponse_is_flexible_version (dtr_version m) in
     (if sint (dtr_version m) \<ge> 1 then wDurationMs (dtr_throttle_time m) else []) @
     wArray fl (wTopicErrorCode_entry fl) (dtr_topic_error_codes m) @ wTags fl)"

definition DeleteTopicsResponse_ok :: "DeleteTopicsResponse \<Rightarrow> bool" where
  "DeleteTopicsResponse_ok m \<longleftrightarrow>
     (let fl = DeleteTopicsResponse_is_flexible_version (dtr_version m) in
     duration_ok (dtr_throttle_time m) \<and> len_ok fl (length (dtr_topic_error_codes m)) \<and>
     (\<forall>kv \<in> set (dtr_topic_error_codes m). TopicErrorCode_entry_ok fl kv) \<and>
     smap (dtr_topic_error_codes m))"

definition DeleteTopicsResponse_seen :: "DeleteTopicsResponse \<Rightarrow> DeleteTopicsResponse \<Rightarrow>
    DeleteTopicsResponse" where
  "DeleteTopicsResponse_seen this m =
     m\<lparr>dtr_version := (if sint (dtr_version m) \<ge> 1 then dtr_version m else dtr_version this),
       dtr_throttle_time := (if sint (dtr_version m) \<ge> 1 then (dtr_throttle_time m) else (dtr_throttle_time
       this))\<rparr>"

interpretation dtr: protocol_message DeleteTopicsResponse_body DeleteTopicsResponse_decode wDeleteTopicsResponse
  DeleteTopicsResponse_ok DeleteTopicsResponse_seen
proof
  fix m this :: DeleteTopicsResponse
  assume ok: "DeleteTopicsResponse_ok m"
  show "emits (pb_is_flexible (DeleteTopicsResponse_body m)) (pb_encode (DeleteTopicsResponse_body m))
      (wDeleteTopicsResponse m)"
    unfolding DeleteTopicsResponse_body_def DeleteTopicsResponse_encode_def wDeleteTopicsResponse_def Let_def
        protocol_body.simps
    by (intro emits_rules; use ok in \<open>auto simp: DeleteTopicsResponse_ok_def Let_def \<close>)
  show "reads (pb_is_flexible (DeleteTopicsResponse_body m)) (DeleteTopicsResponse_decode this (pb_version
      (DeleteTopicsResponse_body m)))
      (wDeleteTopicsResponse m) (DeleteTopicsResponse_seen this m)"
    unfolding DeleteTopicsResponse_body_def DeleteTopicsResponse_decode_def wDeleteTopicsResponse_def Let_def
        protocol_body.simps
    by (rule reads_conv, (rule reads_rules | (use ok in \<open>auto simp: DeleteTopicsResponse_ok_def Let_def 
      DeleteTopicsResponse_seen_def; fail\<close>))+)
qed (simp_all add: DeleteTopicsResponse_body_def wDeleteTopicsResponse_def Let_def)

definition DeleteTopicsResponse_throttle_time :: "DeleteTopicsResponse \<Rightarrow> int64" where
  "DeleteTopicsResponse_throttle_time m = dtr_throttle_time m"

section \<open>CreatePartitions\<close>

text \<open>No assignment is written as the length -1; the length is read as a plain number, so the fixed
    format is needed.\<close>

definition wAssignment :: "bool \<Rightarrow> int32 list list \<Rightarrow> bytes" where
  "wAssignment fl x = (if x = [] then be32 (- 1) else wArray fl (wInt32Array fl) x)"

definition putAssignment :: "int32 list list \<Rightarrow> unit enc" where
  "putAssignment x =
     (if x = [] then putInt32 (- 1)
      else then_p (err_as ErrEncodeError (putArrayLength (size32 (length x)))) (for_each (\<lambda>a. err_as
          ErrEncodeError (putInt32Array a)) x))"

definition getAssignment :: "int32 list list \<Rightarrow> int32 list list dec" where
  "getAssignment old =
     bind_p (err_as ErrDecodeError getInt32) (\<lambda>n.
       if sint n \<le> 0 then ret old else resize_read n (err_as ErrDecodeError getInt32Array))"

definition assignment_ok :: "bool \<Rightarrow> int32 list list \<Rightarrow> bool" where
  "assignment_ok fl x \<longleftrightarrow> \<not> fl \<and> len_ok fl (length x) \<and> (\<forall>a \<in> set
      x. len_ok fl (length a))"

lemma wAssignment_nonempty [simp]: "wAssignment fl x \<noteq> []"
  by (simp add: wAssignment_def)

lemma emits_putAssignment [emits_rules]: "assignment_ok fl x \<Longrightarrow> emits fl (putAssignment x)
    (wAssignment fl x)"
  unfolding putAssignment_def wAssignment_def assignment_ok_def
  by (cases "x = []") (auto intro!: emits_rules)

lemma reads_getAssignment [reads_rules]:
  assumes "assignment_ok fl x" shows "reads fl (getAssignment old) (wAssignment fl x) (if x = [] then old else
      x)"
proof (cases "x = []")
  case True
  then show ?thesis unfolding getAssignment_def wAssignment_def
    by (auto intro!: reads_conv [OF reads_bind_same [OF reads_err_as [OF reads_getInt32]]] reads_ret)
next
  case False
  have len: "len_ok False (length x)" and fl: "fl = False" using assms by (auto simp: assignment_ok_def)
  have n: "sint (size32 (length x)) = int (length x)" by (rule sint_len [OF len])
  have elems: "reads False (resize_read (size32 (length x)) (err_as ErrDecodeError getInt32Array)) (concat (map
      (wInt32Array False) x)) (map (\<lambda>a. a) x)"
    using assms by (intro reads_resize [OF len]) (auto intro!: reads_err_as reads_getInt32Array simp:
        assignment_ok_def fl)
  have "wLen False (length x) = be32 (size32 (length x))" by (simp add: wLen_def)
  then show ?thesis using False elems [unfolded list.map_ident] n unfolding getAssignment_def wAssignment_def
      wArray_def fl
    by (auto intro!: reads_bind [OF reads_err_as [OF reads_getInt32]])
qed

record TopicPartition =
  tpn_count :: int32
  tpn_assignment :: "int32 list list"

definition TopicPartition_default :: TopicPartition where
  "TopicPartition_default = \<lparr>tpn_count = 0, tpn_assignment = []\<rparr>"

definition TopicPartition_encode :: "TopicPartition \<Rightarrow> unit enc" where
  "TopicPartition_encode x =
     then_p (putInt32 (tpn_count x))
       (putAssignment (tpn_assignment x))"

definition TopicPartition_decode :: "TopicPartition \<Rightarrow> TopicPartition dec" where
  "TopicPartition_decode this =
     bind_p (err_as ErrDecodeError getInt32) (\<lambda>count.
     bind_p (getAssignment (tpn_assignment this)) (\<lambda>assignment.
       ret \<lparr>tpn_count = count, tpn_assignment = assignment\<rparr>))"

definition wTopicPartition :: "bool \<Rightarrow> TopicPartition \<Rightarrow> bytes" where
  "wTopicPartition fl x =
     be32 (tpn_count x) @ wAssignment fl (tpn_assignment x)"

definition TopicPartition_ok :: "bool \<Rightarrow> TopicPartition \<Rightarrow> bool" where
  "TopicPartition_ok fl x \<longleftrightarrow>
     assignment_ok fl (tpn_assignment x)"

definition TopicPartition_seen :: "TopicPartition \<Rightarrow> TopicPartition \<Rightarrow> TopicPartition"
    where
  "TopicPartition_seen this x =
     x\<lparr>tpn_assignment := (if (tpn_assignment x) = [] then (tpn_assignment this) else (tpn_assignment
         x))\<rparr>"

lemma emits_TopicPartition [emits_rules]:
  "TopicPartition_ok fl x \<Longrightarrow> emits fl (TopicPartition_encode x) (wTopicPartition fl x)"
  unfolding TopicPartition_encode_def wTopicPartition_def TopicPartition_ok_def by (intro emits_rules; auto)

lemma reads_TopicPartition [reads_rules]:
  assumes "TopicPartition_ok fl x"
  shows "reads fl (TopicPartition_decode this) (wTopicPartition fl x) (TopicPartition_seen this x)"
  unfolding TopicPartition_decode_def wTopicPartition_def
  by (rule reads_conv, (rule reads_rules | (use assms in \<open>auto simp: TopicPartition_ok_def
      TopicPartition_seen_def; fail\<close>))+)

definition PartitionsEntry_put_entry :: "bytes \<times> TopicPartition \<Rightarrow> unit enc" where
  "PartitionsEntry_put_entry kv =
     then_p (err_as ErrEncodeError (putString (fst kv)))
       (err_as ErrEncodeError (TopicPartition_encode (snd kv)))"

definition PartitionsEntry_get_entry :: "(bytes \<times> TopicPartition) dec" where
  "PartitionsEntry_get_entry =
     bind_p (err_as ErrDecodeError getString) (\<lambda>k.
     bind_p (err_as ErrDecodeError (TopicPartition_decode TopicPartition_default)) (\<lambda>v.
       ret (k, v)))"

definition wPartitionsEntry_entry :: "bool \<Rightarrow> bytes \<times> TopicPartition \<Rightarrow> bytes"
    where
  "wPartitionsEntry_entry fl kv =
     wString fl (fst kv) @ wTopicPartition fl (snd kv)"

definition PartitionsEntry_entry_ok :: "bool \<Rightarrow> bytes \<times> TopicPartition \<Rightarrow> bool"
    where
  "PartitionsEntry_entry_ok fl kv \<longleftrightarrow>
     string_ok fl (fst kv) \<and> TopicPartition_ok fl (snd kv)"

definition PartitionsEntry_entry_seen :: "bytes \<times> TopicPartition \<Rightarrow> bytes \<times>
    TopicPartition" where
  "PartitionsEntry_entry_seen kv = (fst kv, (TopicPartition_seen TopicPartition_default (snd kv)))"

lemma fst_PartitionsEntry_entry_seen [simp]: "fst (PartitionsEntry_entry_seen kv) = fst kv"
  by (simp add: PartitionsEntry_entry_seen_def)

lemma emits_PartitionsEntry_entry [emits_rules]:
  "PartitionsEntry_entry_ok fl kv \<Longrightarrow> emits fl (PartitionsEntry_put_entry kv)
      (wPartitionsEntry_entry fl kv)"
  unfolding PartitionsEntry_put_entry_def wPartitionsEntry_entry_def PartitionsEntry_entry_ok_def by (intro
      emits_rules; auto)

lemma reads_PartitionsEntry_entry [reads_rules]:
  assumes "PartitionsEntry_entry_ok fl kv"
  shows "reads fl (PartitionsEntry_get_entry) (wPartitionsEntry_entry fl kv) (PartitionsEntry_entry_seen kv)"
  unfolding PartitionsEntry_get_entry_def wPartitionsEntry_entry_def
  by (rule reads_conv, (rule reads_rules | (use assms in \<open>auto simp: PartitionsEntry_entry_ok_def
      PartitionsEntry_entry_seen_def; fail\<close>))+)

record CreatePartitionsRequest =
  cpq_version :: int16
  cpq_topic_partitions :: "(bytes \<times> TopicPartition) list"
  cpq_timeout :: int64
  cpq_validate_only :: bool

definition CreatePartitionsRequest_set_version :: "int16 \<Rightarrow> CreatePartitionsRequest \<Rightarrow>
    CreatePartitionsRequest" where
  "CreatePartitionsRequest_set_version v m = m\<lparr>cpq_version := v\<rparr>"

definition CreatePartitionsRequest_encode :: "CreatePartitionsRequest \<Rightarrow> unit enc" where
  "CreatePartitionsRequest_encode m =
     then_p (then_p (err_as ErrEncodeError (putArrayLength (size32 (length (cpq_topic_partitions m)))))
            (for_each PartitionsEntry_put_entry (cpq_topic_partitions m)))
    (then_p (putDurationMs (cpq_timeout m))
       (putBool (cpq_validate_only m)))"

definition CreatePartitionsRequest_decode :: "CreatePartitionsRequest \<Rightarrow> int16 \<Rightarrow>
    CreatePartitionsRequest dec" where
  "CreatePartitionsRequest_decode this version =
     bind_p (bind_p (err_as ErrDecodeError getArrayLength) (\<lambda>n. put_all (\<lambda>(k, v). smap_put k v)
         n PartitionsEntry_get_entry [])) (\<lambda>topic_partitions.
     bind_p (err_as ErrDecodeError getDurationMs) (\<lambda>timeout.
     bind_p (err_as ErrDecodeError getBool) (\<lambda>val.
       ret (this\<lparr>cpq_topic_partitions := topic_partitions, cpq_timeout := timeout, cpq_validate_only
         := val\<rparr>))))"

definition CreatePartitionsRequest_required_version :: "int16 \<Rightarrow> KafkaVersion" where
  "CreatePartitionsRequest_required_version v =
     (if v = 1 then V2_0_0_0 else if v = 0 then V1_0_0_0 else V2_0_0_0)"

definition CreatePartitionsRequest_body :: "CreatePartitionsRequest \<Rightarrow> protocol_body" where
  "CreatePartitionsRequest_body m =
     \<lparr>pb_key = 37, pb_version = cpq_version m,
      pb_header_version = 1,
      pb_is_valid_version = (sint (cpq_version m) \<ge> 0 \<and> sint (cpq_version m) \<le> 3),
      pb_is_flexible = False,
      pb_is_flexible_version = (\<lambda>_. False),
      pb_required_version = CreatePartitionsRequest_required_version (cpq_version m),
      pb_encode = CreatePartitionsRequest_encode m\<rparr>"

definition wCreatePartitionsRequest :: "CreatePartitionsRequest \<Rightarrow> bytes" where
  "wCreatePartitionsRequest m =
     (let fl = False in
     wArray fl (wPartitionsEntry_entry fl) (cpq_topic_partitions m) @ wDurationMs (cpq_timeout m) @
     wBool (cpq_validate_only m))"

definition CreatePartitionsRequest_ok :: "CreatePartitionsRequest \<Rightarrow> bool" where
  "CreatePartitionsRequest_ok m \<longleftrightarrow>
     (let fl = False in
     len_ok fl (length (cpq_topic_partitions m)) \<and>
     (\<forall>kv \<in> set (cpq_topic_partitions m). PartitionsEntry_entry_ok fl kv) \<and>
     smap (cpq_topic_partitions m) \<and> duration_ok (cpq_timeout m))"

definition CreatePartitionsRequest_seen :: "CreatePartitionsRequest \<Rightarrow> CreatePartitionsRequest
    \<Rightarrow> CreatePartitionsRequest" where
  "CreatePartitionsRequest_seen this m =
     m\<lparr>cpq_version := cpq_version this, cpq_topic_partitions := (map (PartitionsEntry_entry_seen)
       (cpq_topic_partitions m))\<rparr>"

interpretation cpq: protocol_message CreatePartitionsRequest_body CreatePartitionsRequest_decode
    wCreatePartitionsRequest
  CreatePartitionsRequest_ok CreatePartitionsRequest_seen
proof
  fix m this :: CreatePartitionsRequest
  assume ok: "CreatePartitionsRequest_ok m"
  show "emits (pb_is_flexible (CreatePartitionsRequest_body m)) (pb_encode (CreatePartitionsRequest_body m))
      (wCreatePartitionsRequest m)"
    unfolding CreatePartitionsRequest_body_def CreatePartitionsRequest_encode_def wCreatePartitionsRequest_def
        Let_def protocol_body.simps
    by (intro emits_rules; use ok in \<open>auto simp: CreatePartitionsRequest_ok_def Let_def \<close>)
  show "reads (pb_is_flexible (CreatePartitionsRequest_body m)) (CreatePartitionsRequest_decode this
      (pb_version (CreatePartitionsRequest_body m)))
      (wCreatePartitionsRequest m) (CreatePartitionsRequest_seen this m)"
    unfolding CreatePartitionsRequest_body_def CreatePartitionsRequest_decode_def wCreatePartitionsRequest_def
        Let_def protocol_body.simps
    by (rule reads_conv, (rule reads_rules | (use ok in \<open>auto simp: CreatePartitionsRequest_ok_def
        Let_def 
      CreatePartitionsRequest_seen_def; fail\<close>))+)
qed (simp_all add: CreatePartitionsRequest_body_def wCreatePartitionsRequest_def Let_def)

definition CreatePartitionsRequest_throttle_time :: "CreatePartitionsRequest \<Rightarrow> int64" where
  "CreatePartitionsRequest_throttle_time m = cpq_timeout m"

record TopicPartitionError =
  tpx_err :: int16
  tpx_err_msg :: bytes

definition TopicPartitionError_encode :: "TopicPartitionError \<Rightarrow> unit enc" where
  "TopicPartitionError_encode x =
     then_p (putKError (tpx_err x))
       (err_as ErrEncodeError (putNullableString (tpx_err_msg x)))"

definition TopicPartitionError_decode :: "TopicPartitionError dec" where
  "TopicPartitionError_decode =
     bind_p (err_as ErrEncodeError getKError) (\<lambda>err.
     bind_p (err_as ErrEncodeError getNullableString) (\<lambda>err_msg.
       ret \<lparr>tpx_err = err, tpx_err_msg = err_msg\<rparr>))"

definition wTopicPartitionError :: "bool \<Rightarrow> TopicPartitionError \<Rightarrow> bytes" where
  "wTopicPartitionError fl x =
     be16 (tpx_err x) @ wNullableString fl (tpx_err_msg x)"

definition TopicPartitionError_ok :: "bool \<Rightarrow> TopicPartitionError \<Rightarrow> bool" where
  "TopicPartitionError_ok fl x \<longleftrightarrow>
     string_ok fl (tpx_err_msg x)"

lemma emits_TopicPartitionError [emits_rules]:
  "TopicPartitionError_ok fl x \<Longrightarrow> emits fl (TopicPartitionError_encode x) (wTopicPartitionError
      fl x)"
  unfolding TopicPartitionError_encode_def wTopicPartitionError_def TopicPartitionError_ok_def by (intro
      emits_rules; auto)

lemma reads_TopicPartitionError [reads_rules]:
  assumes "TopicPartitionError_ok fl x"
  shows "reads fl (TopicPartitionError_decode) (wTopicPartitionError fl x) x"
  unfolding TopicPartitionError_decode_def wTopicPartitionError_def
  by (rule reads_conv, (rule reads_rules | (use assms in \<open>auto simp: TopicPartitionError_ok_def;
      fail\<close>))+)

definition TopicPartitionError_error :: "TopicPartitionError \<Rightarrow> bytes" where
  "TopicPartitionError_error e = (if tpx_err_msg e = [] then [] else [32, 45, 32] @ tpx_err_msg e)"

definition PartitionErrorEntry_put_entry :: "bytes \<times> TopicPartitionError \<Rightarrow> unit enc" where
  "PartitionErrorEntry_put_entry kv =
     then_p (err_as ErrEncodeError (putString (fst kv)))
       (err_as ErrEncodeError (TopicPartitionError_encode (snd kv)))"

definition PartitionErrorEntry_get_entry :: "(bytes \<times> TopicPartitionError) dec" where
  "PartitionErrorEntry_get_entry =
     bind_p (err_as ErrDecodeError getString) (\<lambda>k.
     bind_p (err_as ErrDecodeError TopicPartitionError_decode) (\<lambda>v.
       ret (k, v)))"

definition wPartitionErrorEntry_entry :: "bool \<Rightarrow> bytes \<times> TopicPartitionError \<Rightarrow>
    bytes" where
  "wPartitionErrorEntry_entry fl kv =
     wString fl (fst kv) @ wTopicPartitionError fl (snd kv)"

definition PartitionErrorEntry_entry_ok :: "bool \<Rightarrow> bytes \<times> TopicPartitionError \<Rightarrow>
    bool" where
  "PartitionErrorEntry_entry_ok fl kv \<longleftrightarrow>
     string_ok fl (fst kv) \<and> TopicPartitionError_ok fl (snd kv)"

lemma emits_PartitionErrorEntry_entry [emits_rules]:
  "PartitionErrorEntry_entry_ok fl kv \<Longrightarrow> emits fl (PartitionErrorEntry_put_entry kv)
      (wPartitionErrorEntry_entry fl kv)"
  unfolding PartitionErrorEntry_put_entry_def wPartitionErrorEntry_entry_def PartitionErrorEntry_entry_ok_def
      by (intro emits_rules; auto)

lemma reads_PartitionErrorEntry_entry [reads_rules]:
  assumes "PartitionErrorEntry_entry_ok fl kv"
  shows "reads fl (PartitionErrorEntry_get_entry) (wPartitionErrorEntry_entry fl kv) kv"
  unfolding PartitionErrorEntry_get_entry_def wPartitionErrorEntry_entry_def
  by (rule reads_conv, (rule reads_rules | (use assms in \<open>auto simp: PartitionErrorEntry_entry_ok_def;
      fail\<close>))+)

record CreatePartitionsResponse =
  cpr_version :: int16
  cpr_throttle_time :: int64
  cpr_topic_partition_errors :: "(bytes \<times> TopicPartitionError) list"

definition CreatePartitionsResponse_set_version :: "int16 \<Rightarrow> CreatePartitionsResponse \<Rightarrow>
    CreatePartitionsResponse" where
  "CreatePartitionsResponse_set_version v m = m\<lparr>cpr_version := v\<rparr>"

definition CreatePartitionsResponse_encode :: "CreatePartitionsResponse \<Rightarrow> unit enc" where
  "CreatePartitionsResponse_encode m =
     then_p (putDurationMs (cpr_throttle_time m))
       (then_p (err_as ErrEncodeError (putArrayLength (size32 (length (cpr_topic_partition_errors m)))))
            (for_each PartitionErrorEntry_put_entry (cpr_topic_partition_errors m)))"

definition CreatePartitionsResponse_decode :: "CreatePartitionsResponse \<Rightarrow> int16 \<Rightarrow>
    CreatePartitionsResponse dec" where
  "CreatePartitionsResponse_decode this version =
     bind_p (err_as ErrDecodeError getDurationMs) (\<lambda>throttle_time.
     bind_p (bind_p (err_as ErrDecodeError getArrayLength) (\<lambda>n. put_all (\<lambda>(k, v). smap_put k v)
         n PartitionErrorEntry_get_entry [])) (\<lambda>topic_partition_errors.
       ret (this\<lparr>cpr_throttle_time := throttle_time, cpr_topic_partition_errors :=
         topic_partition_errors\<rparr>)))"

definition CreatePartitionsResponse_required_version :: "int16 \<Rightarrow> KafkaVersion" where
  "CreatePartitionsResponse_required_version v =
     (if v = 1 then V2_0_0_0 else if v = 0 then V1_0_0_0 else V2_0_0_0)"

definition CreatePartitionsResponse_body :: "CreatePartitionsResponse \<Rightarrow> protocol_body" where
  "CreatePartitionsResponse_body m =
     \<lparr>pb_key = 37, pb_version = cpr_version m,
      pb_header_version = 0,
      pb_is_valid_version = (sint (cpr_version m) \<ge> 0 \<and> sint (cpr_version m) \<le> 3),
      pb_is_flexible = False,
      pb_is_flexible_version = (\<lambda>_. False),
      pb_required_version = CreatePartitionsResponse_required_version (cpr_version m),
      pb_encode = CreatePartitionsResponse_encode m\<rparr>"

definition wCreatePartitionsResponse :: "CreatePartitionsResponse \<Rightarrow> bytes" where
  "wCreatePartitionsResponse m =
     (let fl = False in
     wDurationMs (cpr_throttle_time m) @
     wArray fl (wPartitionErrorEntry_entry fl) (cpr_topic_partition_errors m))"

definition CreatePartitionsResponse_ok :: "CreatePartitionsResponse \<Rightarrow> bool" where
  "CreatePartitionsResponse_ok m \<longleftrightarrow>
     (let fl = False in
     duration_ok (cpr_throttle_time m) \<and> len_ok fl (length (cpr_topic_partition_errors m)) \<and>
     (\<forall>kv \<in> set (cpr_topic_partition_errors m). PartitionErrorEntry_entry_ok fl kv) \<and>
     smap (cpr_topic_partition_errors m))"

definition CreatePartitionsResponse_seen :: "CreatePartitionsResponse \<Rightarrow> CreatePartitionsResponse
    \<Rightarrow> CreatePartitionsResponse" where
  "CreatePartitionsResponse_seen this m =
     m\<lparr>cpr_version := cpr_version this\<rparr>"

interpretation cpr: protocol_message CreatePartitionsResponse_body CreatePartitionsResponse_decode
    wCreatePartitionsResponse
  CreatePartitionsResponse_ok CreatePartitionsResponse_seen
proof
  fix m this :: CreatePartitionsResponse
  assume ok: "CreatePartitionsResponse_ok m"
  show "emits (pb_is_flexible (CreatePartitionsResponse_body m)) (pb_encode (CreatePartitionsResponse_body m))
      (wCreatePartitionsResponse m)"
    unfolding CreatePartitionsResponse_body_def CreatePartitionsResponse_encode_def
        wCreatePartitionsResponse_def Let_def protocol_body.simps
    by (intro emits_rules; use ok in \<open>auto simp: CreatePartitionsResponse_ok_def Let_def \<close>)
  show "reads (pb_is_flexible (CreatePartitionsResponse_body m)) (CreatePartitionsResponse_decode this
      (pb_version (CreatePartitionsResponse_body m)))
      (wCreatePartitionsResponse m) (CreatePartitionsResponse_seen this m)"
    unfolding CreatePartitionsResponse_body_def CreatePartitionsResponse_decode_def
        wCreatePartitionsResponse_def Let_def protocol_body.simps
    by (rule reads_conv, (rule reads_rules | (use ok in \<open>auto simp: CreatePartitionsResponse_ok_def
        Let_def 
      CreatePartitionsResponse_seen_def; fail\<close>))+)
qed (simp_all add: CreatePartitionsResponse_body_def wCreatePartitionsResponse_def Let_def)

definition CreatePartitionsResponse_throttle_time :: "CreatePartitionsResponse \<Rightarrow> int64" where
  "CreatePartitionsResponse_throttle_time m = cpr_throttle_time m"

section \<open>DeleteRecords\<close>

text \<open>\<open>emplace\<close>: the first of two entries with one key stays.\<close>

definition smap_emplace :: "'k::linorder \<Rightarrow> 'v \<Rightarrow> ('k \<times> 'v) list \<Rightarrow> ('k
    \<times> 'v) list" where
  "smap_emplace k v m = (if map_of m k = None then smap_put k v m else m)"

lemma smap_emplace_rebuild: "smap (m @ xs) \<Longrightarrow> fold (\<lambda>(k, v). smap_emplace k v) xs m = m
    @ xs"
proof (induction xs arbitrary: m)
  case (Cons x xs)
  obtain k v where x: "x = (k, v)" by (cases x)
  have less: "\<forall>k' \<in> fst ` set m. k' < k" using Cons.prems by (auto simp: smap_def x
      sorted_wrt_append)
  then have "map_of m k = None" by (auto simp: map_of_eq_None_iff)
  then have "smap_emplace k v m = m @ [(k, v)]" using less by (simp add: smap_emplace_def smap_put_last)
  then show ?case using Cons.IH [of "m @ [(k, v)]"] Cons.prems by (simp add: x)
qed simp

lemma reads_map_emplace [reads_rules]:
  assumes "len_ok fl (length xs)" "\<And>x. x \<in> set xs \<Longrightarrow> reads fl m (w x) (g x)" "smap xs"
    and "\<And>x. x \<in> set xs \<Longrightarrow> fst (g x) = fst x"
  shows "reads fl (bind_p (err_as e getArrayLength) (\<lambda>n. put_all (\<lambda>(k, v). smap_emplace k v) n
      m [])) (wArray fl w xs) (map g xs)"
proof -
  have keys: "map fst (map g xs) = map fst xs" using assms(4) by (intro map_fst_seen) simp
  have "smap ([] @ map g xs)" using assms(3) unfolding smap_def append_Nil keys .
  from smap_emplace_rebuild [OF this] show ?thesis
    using reads_map(2) [of fl xs m w g e "\<lambda>(k, v). smap_emplace k v" "[]", OF assms(1,2)] by simp
qed

definition PartitionOffset_put_entry :: "int \<times> int64 \<Rightarrow> unit enc" where
  "PartitionOffset_put_entry kv =
     then_p (putInt32 (word_of_int (fst kv)))
       (putInt64 (snd kv))"

definition PartitionOffset_get_entry :: "(int \<times> int64) dec" where
  "PartitionOffset_get_entry =
     bind_p (err_as ErrEncodeError (bind_p getInt32 (\<lambda>p. ret (sint p)))) (\<lambda>k.
     bind_p (err_as ErrEncodeError getInt64) (\<lambda>v.
       ret (k, v)))"

definition wPartitionOffset_entry :: "bool \<Rightarrow> int \<times> int64 \<Rightarrow> bytes" where
  "wPartitionOffset_entry fl kv =
     be32 (word_of_int (fst kv)) @ be64 (snd kv)"

definition PartitionOffset_entry_ok :: "bool \<Rightarrow> int \<times> int64 \<Rightarrow> bool" where
  "PartitionOffset_entry_ok fl kv \<longleftrightarrow>
     sint (word_of_int (fst kv) :: int32) = (fst kv)"

lemma emits_PartitionOffset_entry [emits_rules]:
  "PartitionOffset_entry_ok fl kv \<Longrightarrow> emits fl (PartitionOffset_put_entry kv)
      (wPartitionOffset_entry fl kv)"
  unfolding PartitionOffset_put_entry_def wPartitionOffset_entry_def PartitionOffset_entry_ok_def by (intro
      emits_rules; auto)

lemma reads_PartitionOffset_entry [reads_rules]:
  assumes "PartitionOffset_entry_ok fl kv"
  shows "reads fl (PartitionOffset_get_entry) (wPartitionOffset_entry fl kv) kv"
  unfolding PartitionOffset_get_entry_def wPartitionOffset_entry_def
  by (rule reads_conv, (rule reads_rules | (use assms in \<open>auto simp: PartitionOffset_entry_ok_def;
      fail\<close>))+)

record DeleteRecordsRequestTopic =
  dqt_partition_offsets :: "(int \<times> int64) list"

definition DeleteRecordsRequestTopic_encode :: "DeleteRecordsRequestTopic \<Rightarrow> unit enc" where
  "DeleteRecordsRequestTopic_encode x =
     (then_p (err_as ErrEncodeError (putArrayLength (size32 (length (dqt_partition_offsets x)))))
            (for_each PartitionOffset_put_entry (dqt_partition_offsets x)))"

definition DeleteRecordsRequestTopic_decode :: "DeleteRecordsRequestTopic dec" where
  "DeleteRecordsRequestTopic_decode =
     bind_p (bind_p (err_as ErrEncodeError getArrayLength) (\<lambda>n. put_all (\<lambda>(k, v). smap_emplace
         k v) n PartitionOffset_get_entry [])) (\<lambda>partition_offsets.
       ret \<lparr>dqt_partition_offsets = partition_offsets\<rparr>)"

definition wDeleteRecordsRequestTopic :: "bool \<Rightarrow> DeleteRecordsRequestTopic \<Rightarrow> bytes"
    where
  "wDeleteRecordsRequestTopic fl x =
     wArray fl (wPartitionOffset_entry fl) (dqt_partition_offsets x)"

definition DeleteRecordsRequestTopic_ok :: "bool \<Rightarrow> DeleteRecordsRequestTopic \<Rightarrow> bool"
    where
  "DeleteRecordsRequestTopic_ok fl x \<longleftrightarrow>
     len_ok fl (length (dqt_partition_offsets x)) \<and>
     (\<forall>kv \<in> set (dqt_partition_offsets x). PartitionOffset_entry_ok fl kv) \<and>
     smap (dqt_partition_offsets x)"

lemma emits_DeleteRecordsRequestTopic [emits_rules]:
  "DeleteRecordsRequestTopic_ok fl x \<Longrightarrow> emits fl (DeleteRecordsRequestTopic_encode x)
      (wDeleteRecordsRequestTopic fl x)"
  unfolding DeleteRecordsRequestTopic_encode_def wDeleteRecordsRequestTopic_def
      DeleteRecordsRequestTopic_ok_def by (intro emits_rules; auto)

lemma reads_DeleteRecordsRequestTopic [reads_rules]:
  assumes "DeleteRecordsRequestTopic_ok fl x"
  shows "reads fl (DeleteRecordsRequestTopic_decode) (wDeleteRecordsRequestTopic fl x) x"
  unfolding DeleteRecordsRequestTopic_decode_def wDeleteRecordsRequestTopic_def
  by (rule reads_conv, (rule reads_rules | (use assms in \<open>auto simp: DeleteRecordsRequestTopic_ok_def;
      fail\<close>))+)

definition RecordsTopicEntry_put_entry :: "bytes \<times> DeleteRecordsRequestTopic \<Rightarrow> unit enc"
    where
  "RecordsTopicEntry_put_entry kv =
     then_p (err_as ErrEncodeError (putString (fst kv)))
       (err_as ErrEncodeError (DeleteRecordsRequestTopic_encode (snd kv)))"

definition RecordsTopicEntry_get_entry :: "(bytes \<times> DeleteRecordsRequestTopic) dec" where
  "RecordsTopicEntry_get_entry =
     bind_p (err_as ErrDecodeError getString) (\<lambda>k.
     bind_p (err_as ErrDecodeError DeleteRecordsRequestTopic_decode) (\<lambda>v.
       ret (k, v)))"

definition wRecordsTopicEntry_entry :: "bool \<Rightarrow> bytes \<times> DeleteRecordsRequestTopic
    \<Rightarrow> bytes" where
  "wRecordsTopicEntry_entry fl kv =
     wString fl (fst kv) @ wDeleteRecordsRequestTopic fl (snd kv)"

definition RecordsTopicEntry_entry_ok :: "bool \<Rightarrow> bytes \<times> DeleteRecordsRequestTopic
    \<Rightarrow> bool" where
  "RecordsTopicEntry_entry_ok fl kv \<longleftrightarrow>
     string_ok fl (fst kv) \<and> DeleteRecordsRequestTopic_ok fl (snd kv)"

lemma emits_RecordsTopicEntry_entry [emits_rules]:
  "RecordsTopicEntry_entry_ok fl kv \<Longrightarrow> emits fl (RecordsTopicEntry_put_entry kv)
      (wRecordsTopicEntry_entry fl kv)"
  unfolding RecordsTopicEntry_put_entry_def wRecordsTopicEntry_entry_def RecordsTopicEntry_entry_ok_def by
      (intro emits_rules; auto)

lemma reads_RecordsTopicEntry_entry [reads_rules]:
  assumes "RecordsTopicEntry_entry_ok fl kv"
  shows "reads fl (RecordsTopicEntry_get_entry) (wRecordsTopicEntry_entry fl kv) kv"
  unfolding RecordsTopicEntry_get_entry_def wRecordsTopicEntry_entry_def
  by (rule reads_conv, (rule reads_rules | (use assms in \<open>auto simp: RecordsTopicEntry_entry_ok_def;
      fail\<close>))+)

record DeleteRecordsRequest =
  drq_version :: int16
  drq_topics :: "(bytes \<times> DeleteRecordsRequestTopic) list"
  drq_timeout :: int64

definition DeleteRecordsRequest_set_version :: "int16 \<Rightarrow> DeleteRecordsRequest \<Rightarrow>
    DeleteRecordsRequest" where
  "DeleteRecordsRequest_set_version v m = m\<lparr>drq_version := v\<rparr>"

definition DeleteRecordsRequest_encode :: "DeleteRecordsRequest \<Rightarrow> unit enc" where
  "DeleteRecordsRequest_encode m =
     then_p (then_p (err_as ErrEncodeError (putArrayLength (size32 (length (drq_topics m)))))
            (for_each RecordsTopicEntry_put_entry (drq_topics m)))
       (putDurationMs (drq_timeout m))"

definition DeleteRecordsRequest_decode :: "DeleteRecordsRequest \<Rightarrow> int16 \<Rightarrow>
    DeleteRecordsRequest dec" where
  "DeleteRecordsRequest_decode this version =
     bind_p (bind_p (err_as ErrDecodeError getArrayLength) (\<lambda>n. put_all (\<lambda>(k, v). smap_put k v)
         n RecordsTopicEntry_get_entry [])) (\<lambda>topics.
     bind_p (err_as ErrDecodeError getDurationMs) (\<lambda>timeout.
       ret \<lparr>drq_version = version, drq_topics = topics, drq_timeout = timeout\<rparr>))"

definition DeleteRecordsRequest_required_version :: "int16 \<Rightarrow> KafkaVersion" where
  "DeleteRecordsRequest_required_version v =
     (if v = 1 then V2_0_0_0 else V0_11_0_0)"

definition DeleteRecordsRequest_body :: "DeleteRecordsRequest \<Rightarrow> protocol_body" where
  "DeleteRecordsRequest_body m =
     \<lparr>pb_key = 21, pb_version = drq_version m,
      pb_header_version = 1,
      pb_is_valid_version = (sint (drq_version m) \<ge> 0 \<and> sint (drq_version m) \<le> 2),
      pb_is_flexible = False,
      pb_is_flexible_version = (\<lambda>_. False),
      pb_required_version = DeleteRecordsRequest_required_version (drq_version m),
      pb_encode = DeleteRecordsRequest_encode m\<rparr>"

definition wDeleteRecordsRequest :: "DeleteRecordsRequest \<Rightarrow> bytes" where
  "wDeleteRecordsRequest m =
     (let fl = False in
     wArray fl (wRecordsTopicEntry_entry fl) (drq_topics m) @ wDurationMs (drq_timeout m))"

definition DeleteRecordsRequest_ok :: "DeleteRecordsRequest \<Rightarrow> bool" where
  "DeleteRecordsRequest_ok m \<longleftrightarrow>
     (let fl = False in
     len_ok fl (length (drq_topics m)) \<and>
     (\<forall>kv \<in> set (drq_topics m). RecordsTopicEntry_entry_ok fl kv) \<and>
     smap (drq_topics m) \<and> duration_ok (drq_timeout m))"

definition DeleteRecordsRequest_seen :: "DeleteRecordsRequest \<Rightarrow> DeleteRecordsRequest \<Rightarrow>
    DeleteRecordsRequest" where
  "DeleteRecordsRequest_seen this m =
     m"

interpretation drq: protocol_message DeleteRecordsRequest_body DeleteRecordsRequest_decode wDeleteRecordsRequest
  DeleteRecordsRequest_ok DeleteRecordsRequest_seen
proof
  fix m this :: DeleteRecordsRequest
  assume ok: "DeleteRecordsRequest_ok m"
  show "emits (pb_is_flexible (DeleteRecordsRequest_body m)) (pb_encode (DeleteRecordsRequest_body m))
      (wDeleteRecordsRequest m)"
    unfolding DeleteRecordsRequest_body_def DeleteRecordsRequest_encode_def wDeleteRecordsRequest_def Let_def
        protocol_body.simps
    by (intro emits_rules; use ok in \<open>auto simp: DeleteRecordsRequest_ok_def Let_def \<close>)
  show "reads (pb_is_flexible (DeleteRecordsRequest_body m)) (DeleteRecordsRequest_decode this (pb_version
      (DeleteRecordsRequest_body m)))
      (wDeleteRecordsRequest m) (DeleteRecordsRequest_seen this m)"
    unfolding DeleteRecordsRequest_body_def DeleteRecordsRequest_decode_def wDeleteRecordsRequest_def Let_def
        protocol_body.simps
    by (rule reads_conv, (rule reads_rules | (use ok in \<open>auto simp: DeleteRecordsRequest_ok_def Let_def 
      DeleteRecordsRequest_seen_def; fail\<close>))+)
qed (simp_all add: DeleteRecordsRequest_body_def wDeleteRecordsRequest_def Let_def)

record DeleteRecordsResponsePartition =
  drp_low_watermark :: int64
  drp_err :: int16

definition DeleteRecordsResponsePartition_encode :: "DeleteRecordsResponsePartition \<Rightarrow> unit enc"
    where
  "DeleteRecordsResponsePartition_encode x =
     then_p (putInt64 (drp_low_watermark x))
       (putInt16 (drp_err x))"

definition DeleteRecordsResponsePartition_decode :: "DeleteRecordsResponsePartition dec" where
  "DeleteRecordsResponsePartition_decode =
     bind_p (err_as ErrEncodeError getInt64) (\<lambda>low_watermark.
     bind_p (err_as ErrEncodeError getInt16) (\<lambda>err.
       ret \<lparr>drp_low_watermark = low_watermark, drp_err = err\<rparr>))"

definition wDeleteRecordsResponsePartition :: "bool \<Rightarrow> DeleteRecordsResponsePartition \<Rightarrow>
    bytes" where
  "wDeleteRecordsResponsePartition fl x =
     be64 (drp_low_watermark x) @ be16 (drp_err x)"

definition DeleteRecordsResponsePartition_ok :: "bool \<Rightarrow> DeleteRecordsResponsePartition
    \<Rightarrow> bool" where
  "DeleteRecordsResponsePartition_ok fl x \<longleftrightarrow>
     True"

lemma emits_DeleteRecordsResponsePartition [emits_rules]:
  "DeleteRecordsResponsePartition_ok fl x \<Longrightarrow> emits fl (DeleteRecordsResponsePartition_encode x)
      (wDeleteRecordsResponsePartition fl x)"
  unfolding DeleteRecordsResponsePartition_encode_def wDeleteRecordsResponsePartition_def
      DeleteRecordsResponsePartition_ok_def by (intro emits_rules; auto)

lemma reads_DeleteRecordsResponsePartition [reads_rules]:
  assumes "DeleteRecordsResponsePartition_ok fl x"
  shows "reads fl (DeleteRecordsResponsePartition_decode) (wDeleteRecordsResponsePartition fl x) x"
  unfolding DeleteRecordsResponsePartition_decode_def wDeleteRecordsResponsePartition_def
  by (rule reads_conv, (rule reads_rules | (use assms in \<open>auto simp:
      DeleteRecordsResponsePartition_ok_def; fail\<close>))+)

definition RecordsPartitionEntry_put_entry :: "int \<times> DeleteRecordsResponsePartition \<Rightarrow> unit
    enc" where
  "RecordsPartitionEntry_put_entry kv =
     then_p (putInt32 (word_of_int (fst kv)))
       (err_as ErrEncodeError (DeleteRecordsResponsePartition_encode (snd kv)))"

definition RecordsPartitionEntry_get_entry :: "(int \<times> DeleteRecordsResponsePartition) dec" where
  "RecordsPartitionEntry_get_entry =
     bind_p (err_as ErrEncodeError (bind_p getInt32 (\<lambda>p. ret (sint p)))) (\<lambda>k.
     bind_p (err_as ErrEncodeError DeleteRecordsResponsePartition_decode) (\<lambda>v.
       ret (k, v)))"

definition wRecordsPartitionEntry_entry :: "bool \<Rightarrow> int \<times> DeleteRecordsResponsePartition
    \<Rightarrow> bytes" where
  "wRecordsPartitionEntry_entry fl kv =
     be32 (word_of_int (fst kv)) @ wDeleteRecordsResponsePartition fl (snd kv)"

definition RecordsPartitionEntry_entry_ok :: "bool \<Rightarrow> int \<times> DeleteRecordsResponsePartition
    \<Rightarrow> bool" where
  "RecordsPartitionEntry_entry_ok fl kv \<longleftrightarrow>
     sint (word_of_int (fst kv) :: int32) = (fst kv) \<and> DeleteRecordsResponsePartition_ok fl (snd kv)"

lemma emits_RecordsPartitionEntry_entry [emits_rules]:
  "RecordsPartitionEntry_entry_ok fl kv \<Longrightarrow> emits fl (RecordsPartitionEntry_put_entry kv)
      (wRecordsPartitionEntry_entry fl kv)"
  unfolding RecordsPartitionEntry_put_entry_def wRecordsPartitionEntry_entry_def
      RecordsPartitionEntry_entry_ok_def by (intro emits_rules; auto)

lemma reads_RecordsPartitionEntry_entry [reads_rules]:
  assumes "RecordsPartitionEntry_entry_ok fl kv"
  shows "reads fl (RecordsPartitionEntry_get_entry) (wRecordsPartitionEntry_entry fl kv) kv"
  unfolding RecordsPartitionEntry_get_entry_def wRecordsPartitionEntry_entry_def
  by (rule reads_conv, (rule reads_rules | (use assms in \<open>auto simp: RecordsPartitionEntry_entry_ok_def;
      fail\<close>))+)

record DeleteRecordsResponseTopic =
  dst_partitions :: "(int \<times> DeleteRecordsResponsePartition) list"

definition DeleteRecordsResponseTopic_encode :: "DeleteRecordsResponseTopic \<Rightarrow> unit enc" where
  "DeleteRecordsResponseTopic_encode x =
     (then_p (err_as ErrEncodeError (putArrayLength (size32 (length (dst_partitions x)))))
            (for_each RecordsPartitionEntry_put_entry (dst_partitions x)))"

definition DeleteRecordsResponseTopic_decode :: "DeleteRecordsResponseTopic dec" where
  "DeleteRecordsResponseTopic_decode =
     bind_p (bind_p (err_as ErrEncodeError getArrayLength) (\<lambda>n. put_all (\<lambda>(k, v). smap_put k v)
         n RecordsPartitionEntry_get_entry [])) (\<lambda>partitions.
       ret \<lparr>dst_partitions = partitions\<rparr>)"

definition wDeleteRecordsResponseTopic :: "bool \<Rightarrow> DeleteRecordsResponseTopic \<Rightarrow> bytes"
    where
  "wDeleteRecordsResponseTopic fl x =
     wArray fl (wRecordsPartitionEntry_entry fl) (dst_partitions x)"

definition DeleteRecordsResponseTopic_ok :: "bool \<Rightarrow> DeleteRecordsResponseTopic \<Rightarrow> bool"
    where
  "DeleteRecordsResponseTopic_ok fl x \<longleftrightarrow>
     len_ok fl (length (dst_partitions x)) \<and>
     (\<forall>kv \<in> set (dst_partitions x). RecordsPartitionEntry_entry_ok fl kv) \<and>
     smap (dst_partitions x)"

lemma emits_DeleteRecordsResponseTopic [emits_rules]:
  "DeleteRecordsResponseTopic_ok fl x \<Longrightarrow> emits fl (DeleteRecordsResponseTopic_encode x)
      (wDeleteRecordsResponseTopic fl x)"
  unfolding DeleteRecordsResponseTopic_encode_def wDeleteRecordsResponseTopic_def
      DeleteRecordsResponseTopic_ok_def by (intro emits_rules; auto)

lemma reads_DeleteRecordsResponseTopic [reads_rules]:
  assumes "DeleteRecordsResponseTopic_ok fl x"
  shows "reads fl (DeleteRecordsResponseTopic_decode) (wDeleteRecordsResponseTopic fl x) x"
  unfolding DeleteRecordsResponseTopic_decode_def wDeleteRecordsResponseTopic_def
  by (rule reads_conv, (rule reads_rules | (use assms in \<open>auto simp: DeleteRecordsResponseTopic_ok_def;
      fail\<close>))+)

definition RecordsAnswerEntry_put_entry :: "bytes \<times> DeleteRecordsResponseTopic \<Rightarrow> unit enc"
    where
  "RecordsAnswerEntry_put_entry kv =
     then_p (err_as ErrEncodeError (putString (fst kv)))
       (err_as ErrEncodeError (DeleteRecordsResponseTopic_encode (snd kv)))"

definition RecordsAnswerEntry_get_entry :: "(bytes \<times> DeleteRecordsResponseTopic) dec" where
  "RecordsAnswerEntry_get_entry =
     bind_p (err_as ErrDecodeError getString) (\<lambda>k.
     bind_p (err_as ErrDecodeError DeleteRecordsResponseTopic_decode) (\<lambda>v.
       ret (k, v)))"

definition wRecordsAnswerEntry_entry :: "bool \<Rightarrow> bytes \<times> DeleteRecordsResponseTopic
    \<Rightarrow> bytes" where
  "wRecordsAnswerEntry_entry fl kv =
     wString fl (fst kv) @ wDeleteRecordsResponseTopic fl (snd kv)"

definition RecordsAnswerEntry_entry_ok :: "bool \<Rightarrow> bytes \<times> DeleteRecordsResponseTopic
    \<Rightarrow> bool" where
  "RecordsAnswerEntry_entry_ok fl kv \<longleftrightarrow>
     string_ok fl (fst kv) \<and> DeleteRecordsResponseTopic_ok fl (snd kv)"

lemma emits_RecordsAnswerEntry_entry [emits_rules]:
  "RecordsAnswerEntry_entry_ok fl kv \<Longrightarrow> emits fl (RecordsAnswerEntry_put_entry kv)
      (wRecordsAnswerEntry_entry fl kv)"
  unfolding RecordsAnswerEntry_put_entry_def wRecordsAnswerEntry_entry_def RecordsAnswerEntry_entry_ok_def by
      (intro emits_rules; auto)

lemma reads_RecordsAnswerEntry_entry [reads_rules]:
  assumes "RecordsAnswerEntry_entry_ok fl kv"
  shows "reads fl (RecordsAnswerEntry_get_entry) (wRecordsAnswerEntry_entry fl kv) kv"
  unfolding RecordsAnswerEntry_get_entry_def wRecordsAnswerEntry_entry_def
  by (rule reads_conv, (rule reads_rules | (use assms in \<open>auto simp: RecordsAnswerEntry_entry_ok_def;
      fail\<close>))+)

record DeleteRecordsResponse =
  drr_version :: int16
  drr_throttle_time :: int64
  drr_topics :: "(bytes \<times> DeleteRecordsResponseTopic) list"

definition DeleteRecordsResponse_set_version :: "int16 \<Rightarrow> DeleteRecordsResponse \<Rightarrow>
    DeleteRecordsResponse" where
  "DeleteRecordsResponse_set_version v m = m\<lparr>drr_version := v\<rparr>"

definition DeleteRecordsResponse_encode :: "DeleteRecordsResponse \<Rightarrow> unit enc" where
  "DeleteRecordsResponse_encode m =
     then_p (putDurationMs (drr_throttle_time m))
       (then_p (err_as ErrEncodeError (putArrayLength (size32 (length (drr_topics m)))))
            (for_each RecordsAnswerEntry_put_entry (drr_topics m)))"

definition DeleteRecordsResponse_decode :: "DeleteRecordsResponse \<Rightarrow> int16 \<Rightarrow>
    DeleteRecordsResponse dec" where
  "DeleteRecordsResponse_decode this version =
     bind_p (err_as ErrDecodeError getDurationMs) (\<lambda>throttle_time.
     bind_p (bind_p (err_as ErrDecodeError getArrayLength) (\<lambda>n. put_all (\<lambda>(k, v). smap_put k v)
         n RecordsAnswerEntry_get_entry [])) (\<lambda>topics.
       ret \<lparr>drr_version = version, drr_throttle_time = throttle_time, drr_topics = topics\<rparr>))"

definition DeleteRecordsResponse_required_version :: "int16 \<Rightarrow> KafkaVersion" where
  "DeleteRecordsResponse_required_version v =
     (if v = 1 then V2_0_0_0 else V0_11_0_0)"

definition DeleteRecordsResponse_body :: "DeleteRecordsResponse \<Rightarrow> protocol_body" where
  "DeleteRecordsResponse_body m =
     \<lparr>pb_key = 21, pb_version = drr_version m,
      pb_header_version = 0,
      pb_is_valid_version = (sint (drr_version m) \<ge> 0 \<and> sint (drr_version m) \<le> 2),
      pb_is_flexible = False,
      pb_is_flexible_version = (\<lambda>_. False),
      pb_required_version = DeleteRecordsResponse_required_version (drr_version m),
      pb_encode = DeleteRecordsResponse_encode m\<rparr>"

definition wDeleteRecordsResponse :: "DeleteRecordsResponse \<Rightarrow> bytes" where
  "wDeleteRecordsResponse m =
     (let fl = False in
     wDurationMs (drr_throttle_time m) @ wArray fl (wRecordsAnswerEntry_entry fl) (drr_topics m))"

definition DeleteRecordsResponse_ok :: "DeleteRecordsResponse \<Rightarrow> bool" where
  "DeleteRecordsResponse_ok m \<longleftrightarrow>
     (let fl = False in
     duration_ok (drr_throttle_time m) \<and> len_ok fl (length (drr_topics m)) \<and>
     (\<forall>kv \<in> set (drr_topics m). RecordsAnswerEntry_entry_ok fl kv) \<and> smap (drr_topics m))"

definition DeleteRecordsResponse_seen :: "DeleteRecordsResponse \<Rightarrow> DeleteRecordsResponse
    \<Rightarrow> DeleteRecordsResponse" where
  "DeleteRecordsResponse_seen this m =
     m"

interpretation drr: protocol_message DeleteRecordsResponse_body DeleteRecordsResponse_decode
    wDeleteRecordsResponse
  DeleteRecordsResponse_ok DeleteRecordsResponse_seen
proof
  fix m this :: DeleteRecordsResponse
  assume ok: "DeleteRecordsResponse_ok m"
  show "emits (pb_is_flexible (DeleteRecordsResponse_body m)) (pb_encode (DeleteRecordsResponse_body m))
      (wDeleteRecordsResponse m)"
    unfolding DeleteRecordsResponse_body_def DeleteRecordsResponse_encode_def wDeleteRecordsResponse_def
        Let_def protocol_body.simps
    by (intro emits_rules; use ok in \<open>auto simp: DeleteRecordsResponse_ok_def Let_def \<close>)
  show "reads (pb_is_flexible (DeleteRecordsResponse_body m)) (DeleteRecordsResponse_decode this (pb_version
      (DeleteRecordsResponse_body m)))
      (wDeleteRecordsResponse m) (DeleteRecordsResponse_seen this m)"
    unfolding DeleteRecordsResponse_body_def DeleteRecordsResponse_decode_def wDeleteRecordsResponse_def
        Let_def protocol_body.simps
    by (rule reads_conv, (rule reads_rules | (use ok in \<open>auto simp: DeleteRecordsResponse_ok_def Let_def 
      DeleteRecordsResponse_seen_def; fail\<close>))+)
qed (simp_all add: DeleteRecordsResponse_body_def wDeleteRecordsResponse_def Let_def)

definition DeleteRecordsResponse_throttle_time :: "DeleteRecordsResponse \<Rightarrow> int64" where
  "DeleteRecordsResponse_throttle_time m = drr_throttle_time m"

end
