(* ===== verification/Kafka_Errors.thy ===== *)
theory Kafka_Errors
  imports Packet_Decoder
begin

text \<open>
  The error codes (\<^verbatim>\<open>errors.h\<close>) and their texts (\<^verbatim>\<open>errors.cpp\<close>).  The codes are a table
  from the enumerators to their values; the codes that the other theories use have constants there, which agree with the
  table.
\<close>

definition KError_codes :: "(string \<times> int) list" where
  "KError_codes =
    [(''ErrUnknown'', - 1),
     (''ErrNoError'', 0),
     (''ErrOffsetOutOfRange'', 1),
     (''ErrInvalidMessage'', 2),
     (''ErrUnknownTopicOrPartition'', 3),
     (''ErrInvalidMessageSize'', 4),
     (''ErrLeaderNotAvailable'', 5),
     (''ErrNotLeaderForPartition'', 6),
     (''ErrRequestTimedOut'', 7),
     (''ErrBrokerNotAvailable'', 8),
     (''ErrReplicaNotAvailable'', 9),
     (''ErrMessageSizeTooLarge'', 10),
     (''ErrStaleControllerEpochCode'', 11),
     (''ErrOffsetMetadataTooLarge'', 12),
     (''ErrNetworkException'', 13),
     (''ErrOffsetsLoadInProgress'', 14),
     (''ErrConsumerCoordinatorNotAvailable'', 15),
     (''ErrNotCoordinatorForConsumer'', 16),
     (''ErrInvalidTopic'', 17),
     (''ErrMessageSetSizeTooLarge'', 18),
     (''ErrNotEnoughReplicas'', 19),
     (''ErrNotEnoughReplicasAfterAppend'', 20),
     (''ErrInvalidRequiredAcks'', 21),
     (''ErrIllegalGeneration'', 22),
     (''ErrInconsistentGroupProtocol'', 23),
     (''ErrInvalidGroupId'', 24),
     (''ErrUnknownMemberId'', 25),
     (''ErrInvalidSessionTimeout'', 26),
     (''ErrRebalanceInProgress'', 27),
     (''ErrInvalidCommitOffsetSize'', 28),
     (''ErrTopicAuthorizationFailed'', 29),
     (''ErrGroupAuthorizationFailed'', 30),
     (''ErrClusterAuthorizationFailed'', 31),
     (''ErrInvalidTimestamp'', 32),
     (''ErrUnsupportedSASLMechanism'', 33),
     (''ErrIllegalSASLState'', 34),
     (''ErrUnsupportedVersion'', 35),
     (''ErrTopicAlreadyExists'', 36),
     (''ErrInvalidPartitions'', 37),
     (''ErrInvalidReplicationFactor'', 38),
     (''ErrInvalidReplicaAssignment'', 39),
     (''ErrInvalidConfig'', 40),
     (''ErrNotController'', 41),
     (''ErrInvalidRequest'', 42),
     (''ErrUnsupportedForMessageFormat'', 43),
     (''ErrPolicyViolation'', 44),
     (''ErrOutOfOrderSequenceNumber'', 45),
     (''ErrDuplicateSequenceNumber'', 46),
     (''ErrInvalidProducerEpoch'', 47),
     (''ErrInvalidTxnState'', 48),
     (''ErrInvalidProducerIDMapping'', 49),
     (''ErrInvalidTransactionTimeout'', 50),
     (''ErrConcurrentTransactions'', 51),
     (''ErrTransactionCoordinatorFenced'', 52),
     (''ErrTransactionalIDAuthorizationFailed'', 53),
     (''ErrSecurityDisabled'', 54),
     (''ErrOperationNotAttempted'', 55),
     (''ErrKafkaStorageError'', 56),
     (''ErrLogDirNotFound'', 57),
     (''ErrSASLAuthenticationFailed'', 58),
     (''ErrUnknownProducerID'', 59),
     (''ErrReassignmentInProgress'', 60),
     (''ErrDelegationTokenAuthDisabled'', 61),
     (''ErrDelegationTokenNotFound'', 62),
     (''ErrDelegationTokenOwnerMismatch'', 63),
     (''ErrDelegationTokenRequestNotAllowed'', 64),
     (''ErrDelegationTokenAuthorizationFailed'', 65),
     (''ErrDelegationTokenExpired'', 66),
     (''ErrInvalidPrincipalType'', 67),
     (''ErrNonEmptyGroup'', 68),
     (''ErrGroupIDNotFound'', 69),
     (''ErrFetchSessionIDNotFound'', 70),
     (''ErrInvalidFetchSessionEpoch'', 71),
     (''ErrListenerNotFound'', 72),
     (''ErrTopicDeletionDisabled'', 73),
     (''ErrFencedLeaderEpoch'', 74),
     (''ErrUnknownLeaderEpoch'', 75),
     (''ErrUnsupportedCompressionType'', 76),
     (''ErrStaleBrokerEpoch'', 77),
     (''ErrOffsetNotAvailable'', 78),
     (''ErrMemberIdRequired'', 79),
     (''ErrPreferredLeaderNotAvailable'', 80),
     (''ErrGroupMaxSizeReached'', 81),
     (''ErrFencedInstancedId'', 82),
     (''ErrEligibleLeadersNotAvailable'', 83),
     (''ErrElectionNotNeeded'', 84),
     (''ErrNoReassignmentInProgress'', 85),
     (''ErrGroupSubscribedToTopic'', 86),
     (''ErrInvalidRecord'', 87),
     (''ErrUnstableOffsetCommit'', 88),
     (''ErrThrottlingQuotaExceeded'', 89),
     (''ErrProducerFenced'', 90),
     (''ErrLittleEnd'', 91),
     (''ErrIOEOF'', 1000),
     (''ErrTimedOut'', 1001),
     (''ErrOutOfBrokers'', 1002),
     (''ErrBrokerNotFound'', 1003),
     (''ErrInvalidBrokerId'', 1004),
     (''ErrClosedClient'', 1005),
     (''ErrIncompleteResponse'', 1006),
     (''ErrInvalidPartition'', 1007),
     (''ErrAlreadyConnected'', 1008),
     (''ErrNotConnected'', 1009),
     (''ErrInsufficientData'', 1010),
     (''ErrShuttingDown'', 1011),
     (''ErrMessageTooLarge'', 1012),
     (''ErrConsumerOffsetNotAdvanced'', 1013),
     (''ErrConsumerOffsetUnsupportedVersion'', 1014),
     (''ErrControllerNotAvailable'', 1015),
     (''ErrNoTopicsToUpdateMetadata'', 1016),
     (''ErrUnknownScramMechanism'', 1017),
     (''ErrReassignPartitions'', 1018),
     (''ErrDeleteRecords'', 1019),
     (''ErrCreateACLs'', 1020),
     (''ErrAddPartitionsToTxn'', 1021),
     (''ErrTxnOffsetCommit'', 1022),
     (''ErrTransactionNotReady'', 1023),
     (''ErrNonTransactedProducer'', 1024),
     (''ErrTransitionNotAllowed'', 1025),
     (''ErrCannotTransitionNilError'', 1026),
     (''ErrTxnUnableToParseResponse'', 1027),
     (''ErrTopicUnkonw'', 1028),
     (''ErrTopicNoDetails'', 1029),
     (''ErrProducerRetryBufferOverflow'', 1030),
     (''ErrUnsupportedRecordBatchVersion'', 1031),
     (''ErrVariantOverflow'', 1032),
     (''ErrTaggedFieldsInNonFlexibleContext'', 1033),
     (''ErrInvalidStringLength'', 1034),
     (''ErrUVariantOverflow'', 1035),
     (''ErrInvalidArrayLength'', 1036),
     (''ErrInvalidBool'', 1037),
     (''ErrValidByteSliceLength'', 1038),
     (''ErrNoConfiguredBrokers'', 1039),
     (''ErrHeaderVersionIsOld'', 1040),
     (''ErrPacketDecodingError'', 1041),
     (''ErrInvalidClientID'', 1042),
     (''ErrEncodeError'', 1043),
     (''ErrDecodeError'', 1044),
     (''ErrInvalidConsumer'', 1045),
     (''ErrClosedConsumerGroup'', 1046),
     (''ErrorGroupClosed'', 1047),
     (''ErrTopicsProvided'', 1048),
     (''ErrPacketEncoding'', 1049),
     (''ErrTopicPartitionConsumed'', 1050),
     (''ErrPermitForbidden'', 1051),
     (''ErrMaxMessageBytes'', 1052),
     (''ErrThrottled'', 1053),
     (''ErrAlterClientQuotas'', 1054),
     (''ErrDescribeClientQuotas'', 1055),
     (''ErrClearupError'', 1056),
     (''ErrInvalidCRCTYPE'', 1057),
     (''ErrCRCMismatch'', 1058),
     (''ErrUnknownRecordsType'', 1059),
     (''ErrSyncProducerError'', 1060),
     (''ErrSyncProducerSuccess'', 1061),
     (''ErrStrategyNotFound'', 1062),
     (''ErrCorrelationID'', 1063),
     (''ErrUnknownMessage'', 1064)]"

definition KError_texts :: "(int \<times> string) list" where
  "KError_texts =
    [(0, ''kafka server: Not an error, why are you printing me?''),
     (- 1, ''kafka server: Unexpected (unknown?) server error''),
     (1, ''kafka server: The requested offset is outside the range of offsets maintained by the server for the given topic/partition''),
     (2, ''kafka server: Message contents does not match its CRC''),
     (3, ''kafka server: Request was for a topic or partition that does not exist on this broker''),
     (4, ''kafka server: The message has a negative size''),
     (5, ''kafka server: In the middle of a leadership election, there is currently no leader for this partition and hence it is unavailable for writes''),
     (6, ''kafka server: Tried to send a message to a replica that is not the leader for some partition. Your metadata is out of date''),
     (7, ''kafka server: Request exceeded the user-specified time limit in the request''),
     (8, ''kafka server: Broker not available. Not a client facing error, we should never receive this!!!''),
     (9, ''kafka server: Replica information not available, one or more brokers are down''),
     (10, ''kafka server: Message was too large, server rejected it to avoid allocation error''),
     (11, ''kafka server: StaleControllerEpochCode (internal error code for broker-to-broker communication)''),
     (12, ''kafka server: Specified a string larger than the configured maximum for offset metadata''),
     (13, ''kafka server: The server disconnected before a response was received''),
     (14, ''kafka server: The coordinator is still loading offsets and cannot currently process requests''),
     (15, ''kafka server: The coordinator is not available''),
     (16, ''kafka server: Request was for a consumer group that is not coordinated by this broker''),
     (17, ''kafka server: The request attempted to perform an operation on an invalid topic''),
     (18, ''kafka server: The request included message batch larger than the configured segment size on the server''),
     (19, ''kafka server: Messages are rejected since there are fewer in-sync replicas than required''),
     (20, ''kafka server: Messages are written to the log, but to fewer in-sync replicas than required''),
     (21, ''kafka server: The number of required acks is invalid (should be either -1, 0, or 1)''),
     (22, ''kafka server: The provided generation id is not the current generation''),
     (23, ''kafka server: The provider group protocol type is incompatible with the other members''),
     (24, ''kafka server: The provided group id was empty''),
     (25, ''kafka server: The provided member is not known in the current generation''),
     (26, ''kafka server: The provided session timeout is outside the allowed range''),
     (27, ''kafka server: A rebalance for the group is in progress. Please re-join the group''),
     (28, ''kafka server: The provided commit metadata was too large''),
     (29, ''kafka server: The client is not authorized to access this topic''),
     (30, ''kafka server: The client is not authorized to access this group''),
     (31, ''kafka server: The client is not authorized to send this request type''),
     (32, ''kafka server: The timestamp of the message is out of acceptable range''),
     (33, ''kafka server: The broker does not support the requested SASL mechanism''),
     (34, ''kafka server: Request is not valid given the current SASL state''),
     (35, ''kafka server: The version of API is not supported''),
     (36, ''kafka server: Topic with this name already exists''),
     (37, ''kafka server: Number of partitions is invalid''),
     (38, ''kafka server: Replication-factor is invalid''),
     (39, ''kafka server: Replica assignment is invalid''),
     (40, ''kafka server: Configuration is invalid''),
     (41, ''kafka server: This is not the correct controller for this cluster''),
     (42, ''kafka server: This most likely occurs because of a request being malformed by the client library or the message was sent to an incompatible broker. See the broker logs for more details''),
     (43, ''kafka server: The requested operation is not supported by the message format version''),
     (44, ''kafka server: Request parameters do not satisfy the configured policy''),
     (45, ''kafka server: The broker received an out of order sequence number''),
     (46, ''kafka server: The broker received a duplicate sequence number''),
     (47, ''kafka server: Producer attempted an operation with an old epoch''),
     (48, ''kafka server: The producer attempted a transactional operation in an invalid state''),
     (49, ''kafka server: The producer attempted to use a producer id which is not currently assigned to its transactional id''),
     (50, ''kafka server: The transaction timeout is larger than the maximum value allowed by the broker (as configured by max.transaction.timeout.ms)''),
     (51, ''kafka server: The producer attempted to update a transaction while another concurrent operation on the same transaction was ongoing''),
     (52, ''kafka server: The transaction coordinator sending a WriteTxnMarker is no longer the current coordinator for a given producer''),
     (53, ''kafka server: Transactional ID authorization failed''),
     (54, ''kafka server: Security features are disabled''),
     (55, ''kafka server: The broker did not attempt to execute this operation''),
     (56, ''kafka server: Disk error when trying to access log file on the disk''),
     (57, ''kafka server: The specified log directory is not found in the broker config''),
     (58, ''kafka server: SASL Authentication failed''),
     (59, ''kafka server: The broker could not locate the producer metadata associated with the Producer ID''),
     (60, ''kafka server: A partition reassignment is in progress''),
     (61, ''kafka server: Delegation Token feature is not enabled''),
     (62, ''kafka server: Delegation Token is not found on server''),
     (63, ''kafka server: Specified Principal is not valid Owner/Renewer''),
     (64, ''kafka server: Delegation Token requests are not allowed on PLAINTEXT/1-way SSL channels and on delegation token authenticated channels''),
     (65, ''kafka server: Delegation Token authorization failed''),
     (66, ''kafka server: Delegation Token is expired''),
     (67, ''kafka server: Supplied principalType is not supported''),
     (68, ''kafka server: The group is not empty''),
     (69, ''kafka server: The group id does not exist''),
     (70, ''kafka server: The fetch session ID was not found''),
     (71, ''kafka server: The fetch session epoch is invalid''),
     (72, ''kafka server: There is no listener on the leader broker that matches the listener on which metadata request was processed''),
     (73, ''kafka server: Topic deletion is disabled''),
     (74, ''kafka server: The leader epoch in the request is older than the epoch on the broker''),
     (75, ''kafka server: The leader epoch in the request is newer than the epoch on the broker''),
     (76, ''kafka server: The requesting client does not support the compression type of given partition''),
     (77, ''kafka server: Broker epoch has changed''),
     (78, ''kafka server: The leader high watermark has not caught up from a recent leader election so the offsets cannot be guaranteed to be monotonically increasing''),
     (79, ''kafka server: The group member needs to have a valid member id before actually entering a consumer group''),
     (80, ''kafka server: The preferred leader was not available''),
     (81, ''kafka server: Consumer group The consumer group has reached its max size. already has the configured maximum number of members''),
     (82, ''kafka server: The broker rejected this static consumer since another consumer with the same group.instance.id has registered with a different member.id''),
     (83, ''kafka server: Eligible topic partition leaders are not available''),
     (84, ''kafka server: Leader election not needed for topic partition''),
     (85, ''kafka server: No partition reassignment is in progress''),
     (86, ''kafka server: Deleting offsets of a topic is forbidden while the consumer group is actively subscribed to it''),
     (87, ''kafka server: This record has failed the validation on broker and hence will be rejected''),
     (88, ''kafka server: There are unstable offsets that need to be cleared''),
     (1000, ''kafka: unexpected end of file''),
     (1001, ''kafka: timed out''),
     (1002, ''kafka: client has run out of available brokers to talk to''),
     (1003, ''kafka: broker for ID is not found''),
     (1004, ''kafka: broker ID is invalid''),
     (1005, ''kafka: tried to use a client that was closed''),
     (1006, ''kafka: response did not contain all the expected topic/partition blocks''),
     (1007, ''kafka: partitioner returned an invalid partition index''),
     (1008, ''kafka: broker connection already initiated''),
     (1009, ''kafka: broker not connected''),
     (1010, ''kafka: insufficient data to decode packet, more bytes expected''),
     (1011, ''kafka: message received by producer in process of shutting down''),
     (1012, ''kafka: message is larger than Consumer.Fetch.Max''),
     (1013, ''kafka: consumer offset was not advanced after a RecordBatch''),
     (1014, ''kafka: consumer offset is not supported by the broker''),
     (1015, ''kafka: controller is not available''),
     (1016, ''kafka: no specific topics to update metadata''),
     (1017, ''kafka: unknown SCRAM mechanism provided''),
     (1018, ''kafka: failed to reassign partitions for topic''),
     (1019, ''kafka server: failed to delete records''),
     (1020, ''kafka server: failed to create one or more ACL rules''),
     (1021, ''transaction manager: failed to send partitions to transaction''),
     (1022, ''transaction manager: failed to send offsets to transaction''),
     (1023, ''transaction manager: transaction is not ready''),
     (1024, ''transaction manager: you need to add TransactionalID to producer''),
     (1025, ''transaction manager: invalid transition attempted''),
     (1026, ''transaction manager: cannot transition with a nil error''),
     (1027, ''transaction manager: unable to parse response''),
     (1028, ''kafka: topic is unknown''),
     (1029, ''kafka: topic has no details''),
     (1030, ''kafka: producer retry buffer overflow''),
     (1031, ''kafka server: unsupported record batch version''),
     (1032, ''kafka: variant overflow''),
     (1033, ''kafka: tagged fields are not allowed in non-flexible context''),
     (1034, ''kafka: string length is invalid''),
     (1035, ''kafka: uvariant overflow''),
     (1036, ''kafka: array length is invalid''),
     (1037, ''kafka: bool is invalid''),
     (1038, ''kafka: byte slice length is invalid''),
     (1039, ''kafka:You must provide at least one broker address''),
     (1040, ''kafka:Producing headers requires Kafka at least v0.11''),
     (1041, ''kafka: packet decoding error''),
     (1042, ''ClientID value is not valid for Kafka versions before 1.0.0''),
     (1043, ''kafka: encode error''),
     (1044, ''kafka: decode error''),
     (1059, ''kafka: unknown records type''),
     (1064, ''kafka: unknown protocol message key''),
     (1046, ''kafka: consumer group is closed''),
     (1047, ''kafka: consumer group is closed''),
     (1048, ''kafka: topics are provided''),
     (1049, ''kafka: packet encoding error''),
     (1050, ''kafka: topic partition is consumed''),
     (1051, ''kafka: permit forbidden''),
     (1052, ''kafka: Attempt to produce message larger than configured Producer.MaxMessageBytes''),
     (1053, ''kafka: Throttled''),
     (1054, ''kafka: AlterClientQuotas''),
     (1055, ''kafka: DescribeClientQuotas''),
     (1056, ''kafka: ClearupError''),
     (1057, ''kafka: InvalidCRCTYPE''),
     (1058, ''kafka: CRCMismatch''),
     (1045, ''kafka: InvalidConsumer''),
     (1060, ''kafka: SyncProducerError''),
     (1061, ''kafka: SyncProducerSuccess''),
     (1062, ''kafka: unable to find selected strategy''),
     (1063, ''kafka: mismatch CorrelationID'')]"

definition KErrorToString :: "int16 \<Rightarrow> string" where
  "KErrorToString err = (case map_of KError_texts (sint err) of Some text \<Rightarrow> text | None \<Rightarrow> ''Unknown error'')"

definition IsKError :: "int16 \<Rightarrow> bool" where
  "IsKError err \<longleftrightarrow> sint err < 91"

text \<open>The limit in \<open>IsKError\<close> is the enumerator behind the codes of the server.\<close>

lemma little_end: "map_of KError_codes ''ErrLittleEnd'' = Some 91"
  by code_simp

lemma text_keys: "map fst KError_texts =
  [0, - 1, 1, 2, 3, 4, 5, 6, 7, 8, 9, 10, 11, 12, 13, 14, 15, 16, 17, 18, 19, 20, 21, 22, 23, 24, 25, 26, 27, 28,
   29, 30, 31, 32, 33, 34, 35, 36, 37, 38, 39, 40, 41, 42, 43, 44, 45, 46, 47, 48, 49, 50, 51, 52, 53, 54, 55, 56, 57,
   58, 59, 60, 61, 62, 63, 64, 65, 66, 67, 68, 69, 70, 71, 72, 73, 74, 75, 76, 77, 78, 79, 80, 81, 82, 83, 84, 85, 86,
   87, 88, 1000, 1001, 1002, 1003, 1004, 1005, 1006, 1007, 1008, 1009, 1010, 1011, 1012, 1013, 1014, 1015, 1016, 1017,
   1018, 1019, 1020, 1021, 1022, 1023, 1024, 1025, 1026, 1027, 1028, 1029, 1030, 1031, 1032, 1033, 1034, 1035, 1036,
   1037, 1038, 1039, 1040, 1041, 1042, 1043, 1044, 1059, 1064, 1046, 1047, 1048, 1049, 1050, 1051, 1052, 1053, 1054,
   1055, 1056, 1057, 1058, 1045, 1060, 1061, 1062, 1063]"
  unfolding KError_texts_def by (simp only: list.map fst_conv)

lemma code_values: "map snd KError_codes =
  [- 1, 0, 1, 2, 3, 4, 5, 6, 7, 8, 9, 10, 11, 12, 13, 14, 15, 16, 17, 18, 19, 20, 21, 22, 23, 24, 25, 26, 27, 28,
   29, 30, 31, 32, 33, 34, 35, 36, 37, 38, 39, 40, 41, 42, 43, 44, 45, 46, 47, 48, 49, 50, 51, 52, 53, 54, 55, 56, 57,
   58, 59, 60, 61, 62, 63, 64, 65, 66, 67, 68, 69, 70, 71, 72, 73, 74, 75, 76, 77, 78, 79, 80, 81, 82, 83, 84, 85, 86,
   87, 88, 89, 90, 91, 1000, 1001, 1002, 1003, 1004, 1005, 1006, 1007, 1008, 1009, 1010, 1011, 1012, 1013, 1014, 1015,
   1016, 1017, 1018, 1019, 1020, 1021, 1022, 1023, 1024, 1025, 1026, 1027, 1028, 1029, 1030, 1031, 1032, 1033, 1034,
   1035, 1036, 1037, 1038, 1039, 1040, 1041, 1042, 1043, 1044, 1045, 1046, 1047, 1048, 1049, 1050, 1051, 1052, 1053,
   1054, 1055, 1056, 1057, 1058, 1059, 1060, 1061, 1062, 1063, 1064]"
  unfolding KError_codes_def by (simp only: list.map snd_conv)

lemma codes_distinct: "distinct (map snd KError_codes)"
  unfolding code_values by code_simp

lemma codes_are_int16: "c \<in> set (map snd KError_codes) \<Longrightarrow> sint (word_of_int c :: int16) = c"
proof -
  have "list_all (\<lambda>c. - 1 \<le> c \<and> c < 2000) (map snd KError_codes)" unfolding code_values by code_simp
  moreover assume "c \<in> set (map snd KError_codes)"
  ultimately have "- 1 \<le> c" "c < 2000" by (auto simp only: list_all_iff)
  then show ?thesis by (simp add: sint_sbintrunc' signed_take_bit_int_eq_self)
qed

text \<open>Two codes of the server have no text; every other enumerator has one of its own.\<close>

lemma codes_without_text: "filter (\<lambda>c. c \<notin> set (map fst KError_texts)) (map snd KError_codes) = [89, 90, 91]"
  unfolding text_keys code_values by code_simp

lemma text_of_code: "KErrorToString err = ''Unknown error'' \<longleftrightarrow> sint err \<notin> set (map fst KError_texts)"
proof -
  have "list_all (\<lambda>(c, t). t \<noteq> ''Unknown error'') KError_texts" by code_simp
  then have named: "t \<noteq> ''Unknown error''" if "map_of KError_texts (sint err) = Some t" for t
    using map_of_SomeD [OF that] by (auto simp only: list_all_iff prod.case)
  then show ?thesis
  proof (cases "map_of KError_texts (sint err)")
    case None
    then have "sint err \<notin> fst ` set KError_texts" by (simp only: map_of_eq_None_iff simp_thms)
    then show ?thesis unfolding KErrorToString_def None by simp
  next
    case (Some t)
    then have "sint err \<in> fst ` set KError_texts" using map_of_eq_None_iff [of KError_texts "sint err"] by simp
    then show ?thesis using Some named [OF Some] by (simp add: KErrorToString_def)
  qed
qed

lemma constants_agree:
  "(''ErrNoError'', ErrNoError) \<in> set KError_codes \<and>
   (''ErrInsufficientData'', ErrInsufficientData) \<in> set KError_codes \<and>
   (''ErrVariantOverflow'', ErrVariantOverflow) \<in> set KError_codes \<and>
   (''ErrTaggedFieldsInNonFlexibleContext'', ErrTaggedFieldsInNonFlexibleContext) \<in> set KError_codes \<and>
   (''ErrInvalidStringLength'', ErrInvalidStringLength) \<in> set KError_codes \<and>
   (''ErrUVariantOverflow'', ErrUVariantOverflow) \<in> set KError_codes \<and>
   (''ErrInvalidArrayLength'', ErrInvalidArrayLength) \<in> set KError_codes \<and>
   (''ErrInvalidBool'', ErrInvalidBool) \<in> set KError_codes \<and>
   (''ErrValidByteSliceLength'', ErrValidByteSliceLength) \<in> set KError_codes \<and>
   (''ErrPacketDecodingError'', ErrPacketDecodingError) \<in> set KError_codes \<and>
   (''ErrEncodeError'', ErrEncodeError) \<in> set KError_codes \<and>
   (''ErrDecodeError'', ErrDecodeError) \<in> set KError_codes \<and>
   (''ErrCRCMismatch'', ErrCRCMismatch) \<in> set KError_codes"
  unfolding KError_codes_def kerror_defs by simp

end
