(* ===== verification/Config_Messages.thy ===== *)
theory Config_Messages
  imports Topic_Messages Kafka_Errors
begin

text \<open>
  The configuration of topics and brokers: the request and response classes DescribeConfigs, AlterConfigs and
  IncrementalAlterConfigs.

  The enumerations \<^verbatim>\<open>ConfigResourceType\<close>, \<^verbatim>\<open>ConfigSource\<close> and
  \<^verbatim>\<open>IncrementalAlterConfigsOperation\<close> have the underlying type
      \<^verbatim>\<open>int8_t\<close> and take any value that
  arrives; they are bytes here.
\<close>

section \<open>DescribeConfigs\<close>

definition SourceUnknown :: int8 where "SourceUnknown = 0"

definition SourceDefault :: int8 where "SourceDefault = 5"

text \<open>
  No names are written as the length -1; the reader skips the names at -1 and throws at any other negative
      length.  The
  request has no flexible version.
\<close>

definition wConfigNames :: "bool \<Rightarrow> bytes list \<Rightarrow> bytes" where
  "wConfigNames fl x = (if x = [] then be32 (- 1) else wArray fl (wString fl) x)"

definition putConfigNames :: "bytes list \<Rightarrow> unit enc" where
  "putConfigNames x = (if x = [] then putInt32 (- 1) else err_as ErrEncodeError (putStringArray x))"

definition getConfigNames :: "bytes list dec" where
  "getConfigNames =
     bind_p (err_as ErrDecodeError getArrayLength) (\<lambda>n.
       if n = - 1 then ret [] else resize_read n (err_as ErrDecodeError getString))"

definition config_names_ok :: "bool \<Rightarrow> bytes list \<Rightarrow> bool" where
  "config_names_ok fl x \<longleftrightarrow> \<not> fl \<and> len_ok fl (length x) \<and> (\<forall>s \<in>
      set x. string_ok fl s)"

lemma emits_putConfigNames [emits_rules]: "config_names_ok fl x \<Longrightarrow> emits fl (putConfigNames x)
    (wConfigNames fl x)"
proof -
  assume ok: "config_names_ok fl x"
  then have "emits False (putStringArray x) (wStringArray False x)" and "fl = False"
    by (cases fl; simp add: config_names_ok_def emits_putStringArray_fixed)+
  then show ?thesis unfolding putConfigNames_def wConfigNames_def
    by (auto simp: wArray_def wStringArray_def intro: emits_err_as emits_putInt32)
qed

lemma reads_getArrayLength_null: "reads False getArrayLength (be32 (- 1)) (- 1)"
  unfolding getArrayLength_def
proof (rule reads_by_flex, simp, rule readsI)
  fix pd :: packet_decoder
  assume pd: "pd_offset pd + length (be32 (- 1)) \<le> length (pd_raw pd)"
    "slice (pd_offset pd) (length (be32 (- 1))) (pd_raw pd) = be32 (- 1)"
  have at: "at_off pd 0 = byte_at 24 (- 1 :: int32)" "at_off pd 1 = byte_at 16 (- 1 :: int32)"
      "at_off pd 2 = byte_at 8 (- 1 :: int32)" "at_off pd 3 = byte_at 0 (- 1 :: int32)"
    using be32_at_off [of pd "- 1"] pd by auto
  have "signed_be32 (byte_at 24 (- 1 :: int32)) (byte_at 16 (- 1 :: int32)) (byte_at 8 (- 1 :: int32)) (byte_at
      0 (- 1 :: int32)) = - 1" by code_simp
  with pd slice_remaining [of pd 4]
  show "(if remaining pd < 4 then fail_at_end ErrInsufficientData pd
         else let r = signed_be32 (at_off pd 0) (at_off pd 1) (at_off pd 2) (at_off pd 3); pd' = advance 4 pd
               in if sint r > MaxResponseSize then Err ErrInvalidArrayLength pd' else Ok r pd') =
      Ok (- 1) (advance (length (be32 (- 1))) pd)"
    unfolding at by (simp add: Let_def MaxResponseSize_def)
qed

lemma reads_getConfigNames [reads_rules]:
  assumes "config_names_ok fl x" shows "reads fl getConfigNames (wConfigNames fl x) x"
proof (cases "x = []")
  case True
  then show ?thesis using assms unfolding getConfigNames_def wConfigNames_def config_names_ok_def
    by (auto intro!: reads_bind_same [OF reads_err_as [OF reads_getArrayLength_null]] reads_ret)
next
  case False
  have len: "len_ok fl (length x)" using assms unfolding config_names_ok_def by blast
  have "sint (size32 (length x)) = int (length x)" by (rule sint_len [OF len])
  then have "size32 (length x) \<noteq> - 1" by auto
  moreover have "reads fl (resize_read (size32 (length x)) (err_as ErrDecodeError getString)) (concat (map
      (wString fl) x)) (map (\<lambda>s. s) x)"
    using assms by (intro reads_resize [OF len]) (auto intro!: reads_err_as reads_getString simp:
        config_names_ok_def)
  ultimately show ?thesis using False unfolding getConfigNames_def wConfigNames_def wArray_def
    by (auto intro!: reads_bind [OF reads_err_as [OF reads_getArrayLength [OF len]]])
qed

record ConfigResource =
  cfr_type :: int8
  cfr_name :: bytes
  cfr_config_names :: "bytes list"

definition ConfigResource_encode :: "ConfigResource \<Rightarrow> unit enc" where
  "ConfigResource_encode x =
     then_p (putInt8 (cfr_type x))
    (then_p (err_as ErrEncodeError (putString (cfr_name x)))
       (putConfigNames (cfr_config_names x)))"

definition ConfigResource_decode :: "ConfigResource dec" where
  "ConfigResource_decode =
     bind_p (err_as ErrDecodeError getInt8) (\<lambda>t.
     bind_p (err_as ErrDecodeError getString) (\<lambda>nm.
     bind_p getConfigNames (\<lambda>config_names.
       ret \<lparr>cfr_type = t, cfr_name = nm, cfr_config_names = config_names\<rparr>)))"

definition wConfigResource :: "bool \<Rightarrow> ConfigResource \<Rightarrow> bytes" where
  "wConfigResource fl x =
     be8 (cfr_type x) @ wString fl (cfr_name x) @ wConfigNames fl (cfr_config_names x)"

definition ConfigResource_ok :: "bool \<Rightarrow> ConfigResource \<Rightarrow> bool" where
  "ConfigResource_ok fl x \<longleftrightarrow>
     string_ok fl (cfr_name x) \<and> config_names_ok fl (cfr_config_names x)"

lemma emits_ConfigResource [emits_rules]:
  "ConfigResource_ok fl x \<Longrightarrow> emits fl (ConfigResource_encode x) (wConfigResource fl x)"
  unfolding ConfigResource_encode_def wConfigResource_def ConfigResource_ok_def by (intro emits_rules; auto)

lemma reads_ConfigResource [reads_rules]:
  assumes "ConfigResource_ok fl x"
  shows "reads fl (ConfigResource_decode) (wConfigResource fl x) x"
  unfolding ConfigResource_decode_def wConfigResource_def
  by (rule reads_conv, (rule reads_rules | (use assms in \<open>auto simp: ConfigResource_ok_def;
      fail\<close>))+)

record DescribeConfigsRequest =
  dcf_version :: int16
  dcf_resources :: "ConfigResource list"
  dcf_include_synonyms :: bool

definition DescribeConfigsRequest_set_version :: "int16 \<Rightarrow> DescribeConfigsRequest \<Rightarrow>
    DescribeConfigsRequest" where
  "DescribeConfigsRequest_set_version v m = m\<lparr>dcf_version := v\<rparr>"

definition DescribeConfigsRequest_encode :: "DescribeConfigsRequest \<Rightarrow> unit enc" where
  "DescribeConfigsRequest_encode m =
     then_p (then_p (err_as ErrEncodeError (putArrayLength (size32 (length (dcf_resources m)))))
            (for_each (\<lambda>e. (err_as ErrEncodeError (ConfigResource_encode e))) (dcf_resources m)))
       (when_p (sint (dcf_version m) \<ge> 1) (putBool (dcf_include_synonyms m)))"

definition DescribeConfigsRequest_decode :: "DescribeConfigsRequest \<Rightarrow> int16 \<Rightarrow>
    DescribeConfigsRequest dec" where
  "DescribeConfigsRequest_decode this version =
     bind_p (bind_p (err_as ErrDecodeError getArrayLength) (\<lambda>n. resize_read n (err_as ErrDecodeError
         ConfigResource_decode))) (\<lambda>resources.
     bind_p (field_if (sint version \<ge> 1) (err_as ErrDecodeError getBool) (dcf_include_synonyms this))
         (\<lambda>b.
       ret \<lparr>dcf_version = version, dcf_resources = resources, dcf_include_synonyms = b\<rparr>))"

definition DescribeConfigsRequest_required_version :: "int16 \<Rightarrow> KafkaVersion" where
  "DescribeConfigsRequest_required_version v =
     (if v = 2 then V2_0_0_0 else if v = 1 then V1_1_0_0 else if v = 0 then V0_11_0_0 else V2_0_0_0)"

definition DescribeConfigsRequest_body :: "DescribeConfigsRequest \<Rightarrow> protocol_body" where
  "DescribeConfigsRequest_body m =
     \<lparr>pb_key = 32, pb_version = dcf_version m,
      pb_header_version = 1,
      pb_is_valid_version = (sint (dcf_version m) \<ge> 0 \<and> sint (dcf_version m) \<le> 4),
      pb_is_flexible = False,
      pb_is_flexible_version = (\<lambda>_. False),
      pb_required_version = DescribeConfigsRequest_required_version (dcf_version m),
      pb_encode = DescribeConfigsRequest_encode m\<rparr>"

definition wDescribeConfigsRequest :: "DescribeConfigsRequest \<Rightarrow> bytes" where
  "wDescribeConfigsRequest m =
     (let fl = False in
     wArray fl (wConfigResource fl) (dcf_resources m) @
     (if sint (dcf_version m) \<ge> 1 then wBool (dcf_include_synonyms m) else []))"

definition DescribeConfigsRequest_ok :: "DescribeConfigsRequest \<Rightarrow> bool" where
  "DescribeConfigsRequest_ok m \<longleftrightarrow>
     (let fl = False in
     len_ok fl (length (dcf_resources m)) \<and>
     (\<forall>e \<in> set (dcf_resources m). ConfigResource_ok fl e))"

definition DescribeConfigsRequest_seen :: "DescribeConfigsRequest \<Rightarrow> DescribeConfigsRequest
    \<Rightarrow> DescribeConfigsRequest" where
  "DescribeConfigsRequest_seen this m =
     m\<lparr>dcf_include_synonyms := (if sint (dcf_version m) \<ge> 1 then (dcf_include_synonyms m) else
       (dcf_include_synonyms this))\<rparr>"

interpretation dcf: protocol_message DescribeConfigsRequest_body DescribeConfigsRequest_decode
    wDescribeConfigsRequest
  DescribeConfigsRequest_ok DescribeConfigsRequest_seen
proof
  fix m this :: DescribeConfigsRequest
  assume ok: "DescribeConfigsRequest_ok m"
  show "emits (pb_is_flexible (DescribeConfigsRequest_body m)) (pb_encode (DescribeConfigsRequest_body m))
      (wDescribeConfigsRequest m)"
    unfolding DescribeConfigsRequest_body_def DescribeConfigsRequest_encode_def wDescribeConfigsRequest_def
        Let_def protocol_body.simps
    by (intro emits_rules; use ok in \<open>auto simp: DescribeConfigsRequest_ok_def Let_def \<close>)
  show "reads (pb_is_flexible (DescribeConfigsRequest_body m)) (DescribeConfigsRequest_decode this (pb_version
      (DescribeConfigsRequest_body m)))
      (wDescribeConfigsRequest m) (DescribeConfigsRequest_seen this m)"
    unfolding DescribeConfigsRequest_body_def DescribeConfigsRequest_decode_def wDescribeConfigsRequest_def
        Let_def protocol_body.simps
    by (rule reads_conv, (rule reads_rules | (use ok in \<open>auto simp: DescribeConfigsRequest_ok_def Let_def 
      DescribeConfigsRequest_seen_def; fail\<close>))+)
qed (simp_all add: DescribeConfigsRequest_body_def wDescribeConfigsRequest_def Let_def)

record ConfigSynonym =
  syn_config_name :: bytes
  syn_config_value :: bytes
  syn_source :: int8

definition ConfigSynonym_encode :: "ConfigSynonym \<Rightarrow> unit enc" where
  "ConfigSynonym_encode x =
     then_p (err_as ErrEncodeError (putString (syn_config_name x)))
    (then_p (err_as ErrEncodeError (putString (syn_config_value x)))
       (putInt8 (syn_source x)))"

definition ConfigSynonym_decode :: "ConfigSynonym dec" where
  "ConfigSynonym_decode =
     bind_p (err_as ErrDecodeError getString) (\<lambda>config_name.
     bind_p (err_as ErrDecodeError getString) (\<lambda>config_value.
     bind_p (err_as ErrDecodeError getInt8) (\<lambda>source.
       ret \<lparr>syn_config_name = config_name, syn_config_value = config_value, syn_source =
           source\<rparr>)))"

definition wConfigSynonym :: "bool \<Rightarrow> ConfigSynonym \<Rightarrow> bytes" where
  "wConfigSynonym fl x =
     wString fl (syn_config_name x) @ wString fl (syn_config_value x) @ be8 (syn_source x)"

definition ConfigSynonym_ok :: "bool \<Rightarrow> ConfigSynonym \<Rightarrow> bool" where
  "ConfigSynonym_ok fl x \<longleftrightarrow>
     string_ok fl (syn_config_name x) \<and> string_ok fl (syn_config_value x)"

lemma emits_ConfigSynonym [emits_rules]:
  "ConfigSynonym_ok fl x \<Longrightarrow> emits fl (ConfigSynonym_encode x) (wConfigSynonym fl x)"
  unfolding ConfigSynonym_encode_def wConfigSynonym_def ConfigSynonym_ok_def by (intro emits_rules; auto)

lemma reads_ConfigSynonym [reads_rules]:
  assumes "ConfigSynonym_ok fl x"
  shows "reads fl (ConfigSynonym_decode) (wConfigSynonym fl x) x"
  unfolding ConfigSynonym_decode_def wConfigSynonym_def
  by (rule reads_conv, (rule reads_rules | (use assms in \<open>auto simp: ConfigSynonym_ok_def;
      fail\<close>))+)

text \<open>
  Version 0 carries the default flag and derives the source from it, later versions carry the source and derive
      the flag.
  The synonyms are pointers to objects of their own; the model is the list of the objects.
\<close>

record ConfigEntry =
  dce_name :: bytes
  dce_value :: bytes
  dce_read_only :: bool
  dce_default :: bool
  dce_sensitive :: bool
  dce_source :: int8
  dce_synonyms :: "ConfigSynonym list"

definition ConfigEntry_default :: ConfigEntry where
  "ConfigEntry_default = \<lparr>dce_name = [], dce_value = [], dce_read_only = False, dce_default = False,
      dce_sensitive = False,
     dce_source = 0, dce_synonyms = []\<rparr>"

definition ConfigEntry_encode :: "int16 \<Rightarrow> ConfigEntry \<Rightarrow> unit enc" where
  "ConfigEntry_encode version x =
     then_p (err_as ErrEncodeError (putString (dce_name x)))
    (then_p (err_as ErrEncodeError (putString (dce_value x)))
    (then_p (putBool (dce_read_only x))
       (if version = 0 then then_p (putBool (dce_default x)) (putBool (dce_sensitive x))
        else then_p (putInt8 (dce_source x))
         (then_p (putBool (dce_sensitive x))
         (then_p (err_as ErrEncodeError (putArrayLength (size32 (length (dce_synonyms x)))))
            (for_each (\<lambda>s. err_as ErrEncodeError (ConfigSynonym_encode s)) (dce_synonyms x)))))))"

definition ConfigEntry_get_source :: "int16 \<Rightarrow> (bool \<times> int8) dec" where
  "ConfigEntry_get_source version =
     (if version = 0
      then bind_p (err_as ErrDecodeError getBool) (\<lambda>d. ret (d, if d then SourceDefault else
          SourceUnknown))
      else bind_p (err_as ErrDecodeError getInt8) (\<lambda>src. ret (src = SourceDefault, src)))"

definition ConfigEntry_decode :: "int16 \<Rightarrow> ConfigEntry \<Rightarrow> ConfigEntry dec" where
  "ConfigEntry_decode version this =
     bind_p (err_as ErrDecodeError getString) (\<lambda>nm.
     bind_p (err_as ErrDecodeError getString) (\<lambda>val.
     bind_p (err_as ErrDecodeError getBool) (\<lambda>read_only.
     bind_p (ConfigEntry_get_source version) (\<lambda>ds.
     bind_p (err_as ErrDecodeError getBool) (\<lambda>sensitive.
     bind_p (field_if (sint version > 0) (bind_p (err_as ErrDecodeError getArrayLength) (\<lambda>n.
         resize_read n (err_as ErrDecodeError ConfigSynonym_decode))) (dce_synonyms this)) (\<lambda>synonyms.
       ret \<lparr>dce_name = nm, dce_value = val, dce_read_only = read_only, dce_default = fst ds,
           dce_sensitive = sensitive,
         dce_source = snd ds, dce_synonyms = synonyms\<rparr>))))))"

definition wConfigEntry :: "int16 \<Rightarrow> bool \<Rightarrow> ConfigEntry \<Rightarrow> bytes" where
  "wConfigEntry version fl x =
     wString fl (dce_name x) @ wString fl (dce_value x) @ wBool (dce_read_only x) @
     (if version = 0 then wBool (dce_default x) @ wBool (dce_sensitive x)
      else be8 (dce_source x) @ wBool (dce_sensitive x) @ wArray fl (wConfigSynonym fl) (dce_synonyms x))"

definition ConfigEntry_ok :: "bool \<Rightarrow> ConfigEntry \<Rightarrow> bool" where
  "ConfigEntry_ok fl x \<longleftrightarrow>
     string_ok fl (dce_name x) \<and> string_ok fl (dce_value x) \<and> len_ok fl (length (dce_synonyms x))
         \<and>
     (\<forall>s \<in> set (dce_synonyms x). ConfigSynonym_ok fl s)"

definition ConfigEntry_seen :: "int16 \<Rightarrow> ConfigEntry \<Rightarrow> ConfigEntry \<Rightarrow>
    ConfigEntry" where
  "ConfigEntry_seen version this x =
     (if version = 0
      then x\<lparr>dce_source := (if dce_default x then SourceDefault else SourceUnknown), dce_synonyms :=
          dce_synonyms this\<rparr>
      else x\<lparr>dce_default := (dce_source x = SourceDefault)\<rparr>)"

lemma emits_ConfigEntry [emits_rules]:
  "ConfigEntry_ok fl x \<Longrightarrow> emits fl (ConfigEntry_encode version x) (wConfigEntry version fl x)"
  unfolding ConfigEntry_encode_def wConfigEntry_def ConfigEntry_ok_def
  by (cases "version = 0") (simp_all only: if_True if_False, (intro emits_rules; auto)+)

lemma reads_ConfigEntry [reads_rules]:
  assumes "ConfigEntry_ok fl x" "sint version \<ge> 0"
  shows "reads fl (ConfigEntry_decode version this) (wConfigEntry version fl x) (ConfigEntry_seen version this
      x)"
proof (cases "version = 0")
  case True
  then show ?thesis
    unfolding ConfigEntry_decode_def wConfigEntry_def ConfigEntry_get_source_def bind_p_assoc
    by (simp add: field_if_def) (rule reads_conv, (rule reads_rules | (use assms in \<open>auto simp:
        ConfigEntry_ok_def
      ConfigEntry_seen_def; fail\<close>))+)
next
  case False
  then have "sint version \<noteq> 0" using signed_word_eqI [of version 0] by auto
  then have "sint version > 0" using assms(2) by simp
  with False show ?thesis
    unfolding ConfigEntry_decode_def wConfigEntry_def ConfigEntry_get_source_def bind_p_assoc
    by (simp add: field_if_def) (rule reads_conv, (rule reads_rules | (use assms in \<open>auto simp:
        ConfigEntry_ok_def
      ConfigEntry_seen_def; fail\<close>))+)
qed

record ResourceResponse =
  rre_code :: int16
  rre_message :: bytes
  rre_type :: int8
  rre_name :: bytes
  rre_configs :: "ConfigEntry list"

definition ResourceResponse_default :: ResourceResponse where
  "ResourceResponse_default = \<lparr>rre_code = 0, rre_message = [], rre_type = 0, rre_name = [], rre_configs
      = []\<rparr>"

definition ResourceResponse_encode :: "int16 \<Rightarrow> ResourceResponse \<Rightarrow> unit enc" where
  "ResourceResponse_encode version x =
     then_p (putInt16 (rre_code x))
    (then_p (err_as ErrEncodeError (putString (rre_message x)))
    (then_p (putInt8 (rre_type x))
    (then_p (err_as ErrEncodeError (putString (rre_name x)))
       (then_p (err_as ErrEncodeError (putArrayLength (size32 (length (rre_configs x)))))
            (for_each (\<lambda>e. (err_as ErrEncodeError (ConfigEntry_encode version e))) (rre_configs x))))))"

definition ResourceResponse_decode :: "int16 \<Rightarrow> ResourceResponse dec" where
  "ResourceResponse_decode version =
     bind_p (err_as ErrDecodeError getInt16) (\<lambda>code.
     bind_p (err_as ErrDecodeError getString) (\<lambda>message.
     bind_p (err_as ErrDecodeError getInt8) (\<lambda>t.
     bind_p (err_as ErrDecodeError getString) (\<lambda>nm.
     bind_p (bind_p (err_as ErrDecodeError getArrayLength) (\<lambda>n. resize_read n (err_as ErrDecodeError
         (ConfigEntry_decode version ConfigEntry_default)))) (\<lambda>configs.
       ret \<lparr>rre_code = code, rre_message = message, rre_type = t, rre_name = nm, rre_configs =
           configs\<rparr>)))))"

definition wResourceResponse :: "int16 \<Rightarrow> bool \<Rightarrow> ResourceResponse \<Rightarrow> bytes"
    where
  "wResourceResponse version fl x =
     be16 (rre_code x) @ wString fl (rre_message x) @ be8 (rre_type x) @ wString fl (rre_name x) @
     wArray fl (wConfigEntry version fl) (rre_configs x)"

definition ResourceResponse_ok :: "bool \<Rightarrow> ResourceResponse \<Rightarrow> bool" where
  "ResourceResponse_ok fl x \<longleftrightarrow>
     string_ok fl (rre_message x) \<and> string_ok fl (rre_name x) \<and>
     len_ok fl (length (rre_configs x)) \<and> (\<forall>e \<in> set (rre_configs x). ConfigEntry_ok fl e)"

definition ResourceResponse_seen :: "int16 \<Rightarrow> ResourceResponse \<Rightarrow> ResourceResponse" where
  "ResourceResponse_seen version x =
     x\<lparr>rre_configs := map (ConfigEntry_seen version ConfigEntry_default) (rre_configs x)\<rparr>"

lemma emits_ResourceResponse [emits_rules]:
  "ResourceResponse_ok fl x \<Longrightarrow> emits fl (ResourceResponse_encode version x) (wResourceResponse
      version fl x)"
  unfolding ResourceResponse_encode_def wResourceResponse_def ResourceResponse_ok_def by (intro emits_rules;
      auto)

lemma reads_ResourceResponse [reads_rules]:
  assumes "ResourceResponse_ok fl x" "sint version \<ge> 0"
  shows "reads fl (ResourceResponse_decode version) (wResourceResponse version fl x) (ResourceResponse_seen
      version x)"
  unfolding ResourceResponse_decode_def wResourceResponse_def
  by (rule reads_conv, (rule reads_rules | (use assms in \<open>auto simp: ResourceResponse_ok_def
      ResourceResponse_seen_def; fail\<close>))+)

record DescribeConfigsResponse =
  dcz_version :: int16
  dcz_throttle_time :: int64
  dcz_resources :: "ResourceResponse list"

definition DescribeConfigsResponse_set_version :: "int16 \<Rightarrow> DescribeConfigsResponse \<Rightarrow>
    DescribeConfigsResponse" where
  "DescribeConfigsResponse_set_version v m = m\<lparr>dcz_version := v\<rparr>"

definition DescribeConfigsResponse_encode :: "DescribeConfigsResponse \<Rightarrow> unit enc" where
  "DescribeConfigsResponse_encode m =
     then_p (putDurationMs (dcz_throttle_time m))
       (then_p (err_as ErrEncodeError (putArrayLength (size32 (length (dcz_resources m)))))
            (for_each (\<lambda>e. (err_as ErrEncodeError (ResourceResponse_encode (dcz_version m) e)))
                (dcz_resources m)))"

definition DescribeConfigsResponse_decode :: "DescribeConfigsResponse \<Rightarrow> int16 \<Rightarrow>
    DescribeConfigsResponse dec" where
  "DescribeConfigsResponse_decode this version =
     bind_p (err_as ErrDecodeError getDurationMs) (\<lambda>throttle_time.
     bind_p (bind_p (err_as ErrDecodeError getArrayLength) (\<lambda>n. resize_read n (err_as ErrDecodeError
         (ResourceResponse_decode version)))) (\<lambda>resources.
       ret \<lparr>dcz_version = version, dcz_throttle_time = throttle_time, dcz_resources =
         resources\<rparr>))"

definition DescribeConfigsResponse_required_version :: "int16 \<Rightarrow> KafkaVersion" where
  "DescribeConfigsResponse_required_version v =
     (if v = 2 then V2_0_0_0 else if v = 1 then V1_1_0_0 else if v = 0 then V0_11_0_0 else V2_0_0_0)"

definition DescribeConfigsResponse_body :: "DescribeConfigsResponse \<Rightarrow> protocol_body" where
  "DescribeConfigsResponse_body m =
     \<lparr>pb_key = 32, pb_version = dcz_version m,
      pb_header_version = 0,
      pb_is_valid_version = (sint (dcz_version m) \<ge> 0 \<and> sint (dcz_version m) \<le> 4),
      pb_is_flexible = False,
      pb_is_flexible_version = (\<lambda>_. False),
      pb_required_version = DescribeConfigsResponse_required_version (dcz_version m),
      pb_encode = DescribeConfigsResponse_encode m\<rparr>"

definition wDescribeConfigsResponse :: "DescribeConfigsResponse \<Rightarrow> bytes" where
  "wDescribeConfigsResponse m =
     (let fl = False in
     wDurationMs (dcz_throttle_time m) @ wArray fl (wResourceResponse (dcz_version m) fl) (dcz_resources m))"

definition DescribeConfigsResponse_ok :: "DescribeConfigsResponse \<Rightarrow> bool" where
  "DescribeConfigsResponse_ok m \<longleftrightarrow>
     (let fl = False in
     duration_ok (dcz_throttle_time m) \<and> len_ok fl (length (dcz_resources m)) \<and>
     (\<forall>e \<in> set (dcz_resources m). ResourceResponse_ok fl e) \<and> sint (dcz_version m) \<ge> 0)"

definition DescribeConfigsResponse_seen :: "DescribeConfigsResponse \<Rightarrow> DescribeConfigsResponse
    \<Rightarrow> DescribeConfigsResponse" where
  "DescribeConfigsResponse_seen this m =
     m\<lparr>dcz_resources := map (ResourceResponse_seen (dcz_version m)) (dcz_resources m)\<rparr>"

interpretation dcz: protocol_message DescribeConfigsResponse_body DescribeConfigsResponse_decode
    wDescribeConfigsResponse
  DescribeConfigsResponse_ok DescribeConfigsResponse_seen
proof
  fix m this :: DescribeConfigsResponse
  assume ok: "DescribeConfigsResponse_ok m"
  show "emits (pb_is_flexible (DescribeConfigsResponse_body m)) (pb_encode (DescribeConfigsResponse_body m))
      (wDescribeConfigsResponse m)"
    unfolding DescribeConfigsResponse_body_def DescribeConfigsResponse_encode_def wDescribeConfigsResponse_def
        Let_def protocol_body.simps
    by (intro emits_rules; use ok in \<open>auto simp: DescribeConfigsResponse_ok_def Let_def \<close>)
  show "reads (pb_is_flexible (DescribeConfigsResponse_body m)) (DescribeConfigsResponse_decode this
      (pb_version (DescribeConfigsResponse_body m)))
      (wDescribeConfigsResponse m) (DescribeConfigsResponse_seen this m)"
    unfolding DescribeConfigsResponse_body_def DescribeConfigsResponse_decode_def wDescribeConfigsResponse_def
        Let_def protocol_body.simps
    by (rule reads_conv, (rule reads_rules | (use ok in \<open>auto simp: DescribeConfigsResponse_ok_def
        Let_def 
      DescribeConfigsResponse_seen_def; fail\<close>))+)
qed (simp_all add: DescribeConfigsResponse_body_def wDescribeConfigsResponse_def Let_def)

definition DescribeConfigsResponse_throttle_time :: "DescribeConfigsResponse \<Rightarrow> int64" where
  "DescribeConfigsResponse_throttle_time m = dcz_throttle_time m"

section \<open>AlterConfigs\<close>

definition AlterConfigEntry_put_entry :: "bytes \<times> bytes \<Rightarrow> unit enc" where
  "AlterConfigEntry_put_entry kv =
     then_p (err_as ErrEncodeError (putString (fst kv)))
       (err_as ErrEncodeError (putNullableString (snd kv)))"

definition AlterConfigEntry_get_entry :: "(bytes \<times> bytes) dec" where
  "AlterConfigEntry_get_entry =
     bind_p (err_as ErrDecodeError getString) (\<lambda>k.
     bind_p (err_as ErrDecodeError getNullableString) (\<lambda>v.
       ret (k, v)))"

definition wAlterConfigEntry_entry :: "bool \<Rightarrow> bytes \<times> bytes \<Rightarrow> bytes" where
  "wAlterConfigEntry_entry fl kv =
     wString fl (fst kv) @ wNullableString fl (snd kv)"

definition AlterConfigEntry_entry_ok :: "bool \<Rightarrow> bytes \<times> bytes \<Rightarrow> bool" where
  "AlterConfigEntry_entry_ok fl kv \<longleftrightarrow>
     string_ok fl (fst kv) \<and> string_ok fl (snd kv)"

lemma emits_AlterConfigEntry_entry [emits_rules]:
  "AlterConfigEntry_entry_ok fl kv \<Longrightarrow> emits fl (AlterConfigEntry_put_entry kv)
      (wAlterConfigEntry_entry fl kv)"
  unfolding AlterConfigEntry_put_entry_def wAlterConfigEntry_entry_def AlterConfigEntry_entry_ok_def by (intro
      emits_rules; auto)

lemma reads_AlterConfigEntry_entry [reads_rules]:
  assumes "AlterConfigEntry_entry_ok fl kv"
  shows "reads fl (AlterConfigEntry_get_entry) (wAlterConfigEntry_entry fl kv) kv"
  unfolding AlterConfigEntry_get_entry_def wAlterConfigEntry_entry_def
  by (rule reads_conv, (rule reads_rules | (use assms in \<open>auto simp: AlterConfigEntry_entry_ok_def;
      fail\<close>))+)

record AlterConfigsResource =
  acr_type :: int8
  acr_name :: bytes
  acr_config_entries :: "(bytes \<times> bytes) list"

definition AlterConfigsResource_default :: AlterConfigsResource where
  "AlterConfigsResource_default = \<lparr>acr_type = 0, acr_name = [], acr_config_entries = []\<rparr>"

definition AlterConfigsResource_encode :: "AlterConfigsResource \<Rightarrow> unit enc" where
  "AlterConfigsResource_encode x =
     then_p (putInt8 (acr_type x))
    (then_p (err_as ErrEncodeError (putString (acr_name x)))
       (then_p (err_as ErrEncodeError (putArrayLength (size32 (length (acr_config_entries x)))))
            (for_each AlterConfigEntry_put_entry (acr_config_entries x))))"

definition AlterConfigsResource_decode :: "AlterConfigsResource \<Rightarrow> AlterConfigsResource dec" where
  "AlterConfigsResource_decode this =
     bind_p (err_as ErrDecodeError getInt8) (\<lambda>t.
     bind_p (err_as ErrDecodeError getString) (\<lambda>nm.
     bind_p (bind_p (err_as ErrDecodeError getArrayLength) (\<lambda>n. if 0 < sint n then put_all
         (\<lambda>(k, v). smap_put k v) n AlterConfigEntry_get_entry [] else ret (acr_config_entries this)))
         (\<lambda>config_entries.
       ret \<lparr>acr_type = t, acr_name = nm, acr_config_entries = config_entries\<rparr>)))"

definition wAlterConfigsResource :: "bool \<Rightarrow> AlterConfigsResource \<Rightarrow> bytes" where
  "wAlterConfigsResource fl x =
     be8 (acr_type x) @ wString fl (acr_name x) @
     wArray fl (wAlterConfigEntry_entry fl) (acr_config_entries x)"

definition AlterConfigsResource_ok :: "bool \<Rightarrow> AlterConfigsResource \<Rightarrow> bool" where
  "AlterConfigsResource_ok fl x \<longleftrightarrow>
     string_ok fl (acr_name x) \<and> len_ok fl (length (acr_config_entries x)) \<and>
     (\<forall>kv \<in> set (acr_config_entries x). AlterConfigEntry_entry_ok fl kv) \<and>
     smap (acr_config_entries x)"

definition AlterConfigsResource_seen :: "AlterConfigsResource \<Rightarrow> AlterConfigsResource \<Rightarrow>
    AlterConfigsResource" where
  "AlterConfigsResource_seen this x =
     x\<lparr>acr_config_entries := (if (acr_config_entries x) = [] then (acr_config_entries this) else
         (acr_config_entries x))\<rparr>"

lemma emits_AlterConfigsResource [emits_rules]:
  "AlterConfigsResource_ok fl x \<Longrightarrow> emits fl (AlterConfigsResource_encode x)
      (wAlterConfigsResource fl x)"
  unfolding AlterConfigsResource_encode_def wAlterConfigsResource_def AlterConfigsResource_ok_def by (intro
      emits_rules; auto)

lemma reads_AlterConfigsResource [reads_rules]:
  assumes "AlterConfigsResource_ok fl x"
  shows "reads fl (AlterConfigsResource_decode this) (wAlterConfigsResource fl x) (AlterConfigsResource_seen
      this x)"
  unfolding AlterConfigsResource_decode_def wAlterConfigsResource_def
  by (rule reads_conv, (rule reads_rules | (use assms in \<open>auto simp: AlterConfigsResource_ok_def
      AlterConfigsResource_seen_def; fail\<close>))+)

text \<open>\<open>decode\<close> leaves the version alone and reads into the resources that are there.\<close>

record AlterConfigsRequest =
  acq_version :: int16
  acq_resources :: "AlterConfigsResource list"
  acq_validate_only :: bool

definition AlterConfigsRequest_set_version :: "int16 \<Rightarrow> AlterConfigsRequest \<Rightarrow>
    AlterConfigsRequest" where
  "AlterConfigsRequest_set_version v m = m\<lparr>acq_version := v\<rparr>"

definition AlterConfigsRequest_encode :: "AlterConfigsRequest \<Rightarrow> unit enc" where
  "AlterConfigsRequest_encode m =
     then_p (then_p (err_as ErrEncodeError (putArrayLength (size32 (length (acq_resources m)))))
            (for_each (\<lambda>e. (err_as ErrEncodeError (AlterConfigsResource_encode e))) (acq_resources m)))
       (putBool (acq_validate_only m))"

definition AlterConfigsRequest_decode :: "AlterConfigsRequest \<Rightarrow> int16 \<Rightarrow>
    AlterConfigsRequest dec" where
  "AlterConfigsRequest_decode this version =
     bind_p (bind_p (err_as ErrDecodeError getArrayLength) (\<lambda>n. resize_into n
         AlterConfigsResource_default (acq_resources this) (\<lambda>old. (err_as ErrDecodeError
         (AlterConfigsResource_decode old))))) (\<lambda>resources.
     bind_p (err_as ErrDecodeError getBool) (\<lambda>b.
       ret (this\<lparr>acq_resources := resources, acq_validate_only := b\<rparr>)))"

definition AlterConfigsRequest_required_version :: "int16 \<Rightarrow> KafkaVersion" where
  "AlterConfigsRequest_required_version v =
     (if v = 1 then V2_0_0_0 else if v = 0 then V0_11_0_0 else V2_0_0_0)"

definition AlterConfigsRequest_body :: "AlterConfigsRequest \<Rightarrow> protocol_body" where
  "AlterConfigsRequest_body m =
     \<lparr>pb_key = 33, pb_version = acq_version m,
      pb_header_version = 1,
      pb_is_valid_version = (sint (acq_version m) \<ge> 0 \<and> sint (acq_version m) \<le> 1),
      pb_is_flexible = False,
      pb_is_flexible_version = (\<lambda>_. False),
      pb_required_version = AlterConfigsRequest_required_version (acq_version m),
      pb_encode = AlterConfigsRequest_encode m\<rparr>"

definition wAlterConfigsRequest :: "AlterConfigsRequest \<Rightarrow> bytes" where
  "wAlterConfigsRequest m =
     (let fl = False in
     wArray fl (wAlterConfigsResource fl) (acq_resources m) @ wBool (acq_validate_only m))"

definition AlterConfigsRequest_ok :: "AlterConfigsRequest \<Rightarrow> bool" where
  "AlterConfigsRequest_ok m \<longleftrightarrow>
     (let fl = False in
     len_ok fl (length (acq_resources m)) \<and>
     (\<forall>e \<in> set (acq_resources m). AlterConfigsResource_ok fl e))"

definition AlterConfigsRequest_seen :: "AlterConfigsRequest \<Rightarrow> AlterConfigsRequest \<Rightarrow>
    AlterConfigsRequest" where
  "AlterConfigsRequest_seen this m =
     m\<lparr>acq_version := acq_version this, acq_resources := map2 (AlterConfigsResource_seen) (resize_to
       (length (acq_resources m)) AlterConfigsResource_default (acq_resources this)) (acq_resources m)\<rparr>"

interpretation acq: protocol_message AlterConfigsRequest_body AlterConfigsRequest_decode wAlterConfigsRequest
  AlterConfigsRequest_ok AlterConfigsRequest_seen
proof
  fix m this :: AlterConfigsRequest
  assume ok: "AlterConfigsRequest_ok m"
  show "emits (pb_is_flexible (AlterConfigsRequest_body m)) (pb_encode (AlterConfigsRequest_body m))
      (wAlterConfigsRequest m)"
    unfolding AlterConfigsRequest_body_def AlterConfigsRequest_encode_def wAlterConfigsRequest_def Let_def
        protocol_body.simps
    by (intro emits_rules; use ok in \<open>auto simp: AlterConfigsRequest_ok_def Let_def \<close>)
  show "reads (pb_is_flexible (AlterConfigsRequest_body m)) (AlterConfigsRequest_decode this (pb_version
      (AlterConfigsRequest_body m)))
      (wAlterConfigsRequest m) (AlterConfigsRequest_seen this m)"
    unfolding AlterConfigsRequest_body_def AlterConfigsRequest_decode_def wAlterConfigsRequest_def Let_def
        protocol_body.simps
    by (rule reads_conv, (rule reads_rules | (use ok in \<open>auto simp: AlterConfigsRequest_ok_def Let_def 
      AlterConfigsRequest_seen_def; fail\<close>))+)
qed (simp_all add: AlterConfigsRequest_body_def wAlterConfigsRequest_def Let_def)

record AlterConfigError =
  ace_err :: int16
  ace_err_msg :: bytes

definition AlterConfigError_Error :: "AlterConfigError \<Rightarrow> bytes" where
  "AlterConfigError_Error e =
     map of_char (KErrorToString (ace_err e)) @ (if ace_err_msg e = [] then [] else [32, 45, 32] @ ace_err_msg
         e)"

text \<open>The message is written as a string and read as a nullable one, which takes every string.\<close>

lemma reads_nullable_of_string: "string_ok fl s \<Longrightarrow> reads fl getNullableString (wString fl s) s"
  unfolding getNullableString_def using reads_body_wString [of fl s] by (intro reads_by_flex) simp_all

lemma reads_nullable_string [reads_rules]:
  "string_ok fl s \<Longrightarrow> reads fl (err_as e getNullableString) (wString fl s) s"
  by (rule reads_err_as [OF reads_nullable_of_string])

record AlterConfigsResourceResponse =
  arz_code :: int16
  arz_message :: bytes
  arz_type :: int8
  arz_name :: bytes

definition AlterConfigsResourceResponse_encode :: "AlterConfigsResourceResponse \<Rightarrow> unit enc" where
  "AlterConfigsResourceResponse_encode x =
     then_p (putInt16 (arz_code x))
    (then_p (err_as ErrEncodeError (putString (arz_message x)))
    (then_p (putInt8 (arz_type x))
    (then_p (err_as ErrEncodeError (putString (arz_name x)))
       putEmptyTaggedFieldArray)))"

definition AlterConfigsResourceResponse_decode :: "AlterConfigsResourceResponse dec" where
  "AlterConfigsResourceResponse_decode =
     bind_p (err_as ErrDecodeError getInt16) (\<lambda>code.
     bind_p (err_as ErrDecodeError getNullableString) (\<lambda>message.
     bind_p (err_as ErrDecodeError getInt8) (\<lambda>t.
     bind_p (err_as ErrDecodeError getString) (\<lambda>nm.
     bind_p getEmptyTaggedFieldArray (\<lambda>_.
       ret \<lparr>arz_code = code, arz_message = message, arz_type = t, arz_name = nm\<rparr>)))))"

definition wAlterConfigsResourceResponse :: "bool \<Rightarrow> AlterConfigsResourceResponse \<Rightarrow>
    bytes" where
  "wAlterConfigsResourceResponse fl x =
     be16 (arz_code x) @ wString fl (arz_message x) @ be8 (arz_type x) @ wString fl (arz_name x) @ wTags fl"

definition AlterConfigsResourceResponse_ok :: "bool \<Rightarrow> AlterConfigsResourceResponse \<Rightarrow>
    bool" where
  "AlterConfigsResourceResponse_ok fl x \<longleftrightarrow>
     string_ok fl (arz_message x) \<and> string_ok fl (arz_name x)"

lemma emits_AlterConfigsResourceResponse [emits_rules]:
  "AlterConfigsResourceResponse_ok fl x \<Longrightarrow> emits fl (AlterConfigsResourceResponse_encode x)
      (wAlterConfigsResourceResponse fl x)"
  unfolding AlterConfigsResourceResponse_encode_def wAlterConfigsResourceResponse_def
      AlterConfigsResourceResponse_ok_def by (intro emits_rules; auto)

lemma reads_AlterConfigsResourceResponse [reads_rules]:
  assumes "AlterConfigsResourceResponse_ok fl x"
  shows "reads fl (AlterConfigsResourceResponse_decode) (wAlterConfigsResourceResponse fl x) x"
  unfolding AlterConfigsResourceResponse_decode_def wAlterConfigsResourceResponse_def
  by (rule reads_conv, (rule reads_rules | (use assms in \<open>auto simp: AlterConfigsResourceResponse_ok_def;
      fail\<close>))+)

record AlterConfigsResponse =
  acz_version :: int16
  acz_throttle_time :: int64
  acz_resources :: "AlterConfigsResourceResponse list"

definition AlterConfigsResponse_set_version :: "int16 \<Rightarrow> AlterConfigsResponse \<Rightarrow>
    AlterConfigsResponse" where
  "AlterConfigsResponse_set_version v m = m\<lparr>acz_version := v\<rparr>"

definition AlterConfigsResponse_encode :: "AlterConfigsResponse \<Rightarrow> unit enc" where
  "AlterConfigsResponse_encode m =
     then_p (putDurationMs (acz_throttle_time m))
       (then_p (err_as ErrEncodeError (putArrayLength (size32 (length (acz_resources m)))))
            (for_each (\<lambda>e. (err_as ErrEncodeError (AlterConfigsResourceResponse_encode e)))
                (acz_resources m)))"

definition AlterConfigsResponse_decode :: "AlterConfigsResponse \<Rightarrow> int16 \<Rightarrow>
    AlterConfigsResponse dec" where
  "AlterConfigsResponse_decode this version =
     bind_p (err_as ErrDecodeError getDurationMs) (\<lambda>throttle_time.
     bind_p (bind_p (err_as ErrDecodeError getArrayLength) (\<lambda>n. resize_read n (err_as ErrDecodeError
         AlterConfigsResourceResponse_decode))) (\<lambda>resources.
       ret (this\<lparr>acz_throttle_time := throttle_time, acz_resources := resources\<rparr>)))"

definition AlterConfigsResponse_required_version :: "int16 \<Rightarrow> KafkaVersion" where
  "AlterConfigsResponse_required_version v =
     (if v = 1 then V2_0_0_0 else if v = 0 then V0_11_0_0 else V2_0_0_0)"

definition AlterConfigsResponse_body :: "AlterConfigsResponse \<Rightarrow> protocol_body" where
  "AlterConfigsResponse_body m =
     \<lparr>pb_key = 33, pb_version = acz_version m,
      pb_header_version = 0,
      pb_is_valid_version = (sint (acz_version m) \<ge> 0 \<and> sint (acz_version m) \<le> 1),
      pb_is_flexible = False,
      pb_is_flexible_version = (\<lambda>_. False),
      pb_required_version = AlterConfigsResponse_required_version (acz_version m),
      pb_encode = AlterConfigsResponse_encode m\<rparr>"

definition wAlterConfigsResponse :: "AlterConfigsResponse \<Rightarrow> bytes" where
  "wAlterConfigsResponse m =
     (let fl = False in
     wDurationMs (acz_throttle_time m) @ wArray fl (wAlterConfigsResourceResponse fl) (acz_resources m))"

definition AlterConfigsResponse_ok :: "AlterConfigsResponse \<Rightarrow> bool" where
  "AlterConfigsResponse_ok m \<longleftrightarrow>
     (let fl = False in
     duration_ok (acz_throttle_time m) \<and> len_ok fl (length (acz_resources m)) \<and>
     (\<forall>e \<in> set (acz_resources m). AlterConfigsResourceResponse_ok fl e))"

definition AlterConfigsResponse_seen :: "AlterConfigsResponse \<Rightarrow> AlterConfigsResponse \<Rightarrow>
    AlterConfigsResponse" where
  "AlterConfigsResponse_seen this m =
     m\<lparr>acz_version := acz_version this\<rparr>"

interpretation acz: protocol_message AlterConfigsResponse_body AlterConfigsResponse_decode wAlterConfigsResponse
  AlterConfigsResponse_ok AlterConfigsResponse_seen
proof
  fix m this :: AlterConfigsResponse
  assume ok: "AlterConfigsResponse_ok m"
  show "emits (pb_is_flexible (AlterConfigsResponse_body m)) (pb_encode (AlterConfigsResponse_body m))
      (wAlterConfigsResponse m)"
    unfolding AlterConfigsResponse_body_def AlterConfigsResponse_encode_def wAlterConfigsResponse_def Let_def
        protocol_body.simps
    by (intro emits_rules; use ok in \<open>auto simp: AlterConfigsResponse_ok_def Let_def \<close>)
  show "reads (pb_is_flexible (AlterConfigsResponse_body m)) (AlterConfigsResponse_decode this (pb_version
      (AlterConfigsResponse_body m)))
      (wAlterConfigsResponse m) (AlterConfigsResponse_seen this m)"
    unfolding AlterConfigsResponse_body_def AlterConfigsResponse_decode_def wAlterConfigsResponse_def Let_def
        protocol_body.simps
    by (rule reads_conv, (rule reads_rules | (use ok in \<open>auto simp: AlterConfigsResponse_ok_def Let_def 
      AlterConfigsResponse_seen_def; fail\<close>))+)
qed (simp_all add: AlterConfigsResponse_body_def wAlterConfigsResponse_def Let_def)

definition AlterConfigsResponse_throttle_time :: "AlterConfigsResponse \<Rightarrow> int64" where
  "AlterConfigsResponse_throttle_time m = acz_throttle_time m"

section \<open>IncrementalAlterConfigs\<close>

record IncrementalAlterConfigsEntry =
  ice_operation :: int8
  ice_value :: bytes

definition IncrementalAlterConfigsEntry_encode :: "IncrementalAlterConfigsEntry \<Rightarrow> unit enc" where
  "IncrementalAlterConfigsEntry_encode x =
     then_p (putInt8 (ice_operation x))
    (then_p (putNullableString (ice_value x))
       putEmptyTaggedFieldArray)"

definition IncrementalAlterConfigsEntry_decode :: "IncrementalAlterConfigsEntry dec" where
  "IncrementalAlterConfigsEntry_decode =
     bind_p getInt8 (\<lambda>oper.
     bind_p getNullableString (\<lambda>val.
     bind_p getEmptyTaggedFieldArray (\<lambda>_.
       ret \<lparr>ice_operation = oper, ice_value = val\<rparr>)))"

definition wIncrementalAlterConfigsEntry :: "bool \<Rightarrow> IncrementalAlterConfigsEntry \<Rightarrow>
    bytes" where
  "wIncrementalAlterConfigsEntry fl x =
     be8 (ice_operation x) @ wNullableString fl (ice_value x) @ wTags fl"

definition IncrementalAlterConfigsEntry_ok :: "bool \<Rightarrow> IncrementalAlterConfigsEntry \<Rightarrow>
    bool" where
  "IncrementalAlterConfigsEntry_ok fl x \<longleftrightarrow>
     string_ok fl (ice_value x)"

lemma emits_IncrementalAlterConfigsEntry [emits_rules]:
  "IncrementalAlterConfigsEntry_ok fl x \<Longrightarrow> emits fl (IncrementalAlterConfigsEntry_encode x)
      (wIncrementalAlterConfigsEntry fl x)"
  unfolding IncrementalAlterConfigsEntry_encode_def wIncrementalAlterConfigsEntry_def
      IncrementalAlterConfigsEntry_ok_def by (intro emits_rules; auto)

lemma reads_IncrementalAlterConfigsEntry [reads_rules]:
  assumes "IncrementalAlterConfigsEntry_ok fl x"
  shows "reads fl (IncrementalAlterConfigsEntry_decode) (wIncrementalAlterConfigsEntry fl x) x"
  unfolding IncrementalAlterConfigsEntry_decode_def wIncrementalAlterConfigsEntry_def
  by (rule reads_conv, (rule reads_rules | (use assms in \<open>auto simp: IncrementalAlterConfigsEntry_ok_def;
      fail\<close>))+)

lemma reads_map_emplace_plain [reads_rules]:
  assumes "len_ok fl (length xs)" "\<And>x. x \<in> set xs \<Longrightarrow> reads fl m (w x) (g x)" "smap xs"
    and "\<And>x. x \<in> set xs \<Longrightarrow> fst (g x) = fst x"
  shows "reads fl (bind_p getArrayLength (\<lambda>n. put_all (\<lambda>(k, v). smap_emplace k v) n m []))
      (wArray fl w xs) (map g xs)"
proof -
  have keys: "map fst (map g xs) = map fst xs" using assms(4) by (intro map_fst_seen) simp
  have "smap ([] @ map g xs)" using assms(3) unfolding smap_def append_Nil keys .
  from smap_emplace_rebuild [OF this] show ?thesis
    using reads_map(1) [of fl xs m w g "\<lambda>(k, v). smap_emplace k v" "[]", OF assms(1,2)] by simp
qed

definition IncrementalEntry_put_entry :: "bytes \<times> IncrementalAlterConfigsEntry \<Rightarrow> unit enc"
    where
  "IncrementalEntry_put_entry kv =
     then_p (putString (fst kv))
       (IncrementalAlterConfigsEntry_encode (snd kv))"

definition IncrementalEntry_get_entry :: "(bytes \<times> IncrementalAlterConfigsEntry) dec" where
  "IncrementalEntry_get_entry =
     bind_p getString (\<lambda>k.
     bind_p IncrementalAlterConfigsEntry_decode (\<lambda>v.
       ret (k, v)))"

definition wIncrementalEntry_entry :: "bool \<Rightarrow> bytes \<times> IncrementalAlterConfigsEntry
    \<Rightarrow> bytes" where
  "wIncrementalEntry_entry fl kv =
     wString fl (fst kv) @ wIncrementalAlterConfigsEntry fl (snd kv)"

definition IncrementalEntry_entry_ok :: "bool \<Rightarrow> bytes \<times> IncrementalAlterConfigsEntry
    \<Rightarrow> bool" where
  "IncrementalEntry_entry_ok fl kv \<longleftrightarrow>
     string_ok fl (fst kv) \<and> IncrementalAlterConfigsEntry_ok fl (snd kv)"

lemma emits_IncrementalEntry_entry [emits_rules]:
  "IncrementalEntry_entry_ok fl kv \<Longrightarrow> emits fl (IncrementalEntry_put_entry kv)
      (wIncrementalEntry_entry fl kv)"
  unfolding IncrementalEntry_put_entry_def wIncrementalEntry_entry_def IncrementalEntry_entry_ok_def by (intro
      emits_rules; auto)

lemma reads_IncrementalEntry_entry [reads_rules]:
  assumes "IncrementalEntry_entry_ok fl kv"
  shows "reads fl (IncrementalEntry_get_entry) (wIncrementalEntry_entry fl kv) kv"
  unfolding IncrementalEntry_get_entry_def wIncrementalEntry_entry_def
  by (rule reads_conv, (rule reads_rules | (use assms in \<open>auto simp: IncrementalEntry_entry_ok_def;
      fail\<close>))+)

record IncrementalAlterConfigsResource =
  icr_type :: int8
  icr_name :: bytes
  icr_config_entries :: "(bytes \<times> IncrementalAlterConfigsEntry) list"

definition IncrementalAlterConfigsResource_encode :: "IncrementalAlterConfigsResource \<Rightarrow> unit enc"
    where
  "IncrementalAlterConfigsResource_encode x =
     then_p (putInt8 (icr_type x))
    (then_p (putString (icr_name x))
    (then_p (then_p (putArrayLength (size32 (length (icr_config_entries x))))
            (for_each IncrementalEntry_put_entry (icr_config_entries x)))
       putEmptyTaggedFieldArray))"

definition IncrementalAlterConfigsResource_decode :: "IncrementalAlterConfigsResource dec" where
  "IncrementalAlterConfigsResource_decode =
     bind_p getInt8 (\<lambda>t.
     bind_p getString (\<lambda>nm.
     bind_p (bind_p getArrayLength (\<lambda>n. put_all (\<lambda>(k, v). smap_emplace k v) n
         IncrementalEntry_get_entry [])) (\<lambda>config_entries.
     bind_p getEmptyTaggedFieldArray (\<lambda>_.
       ret \<lparr>icr_type = t, icr_name = nm, icr_config_entries = config_entries\<rparr>))))"

definition wIncrementalAlterConfigsResource :: "bool \<Rightarrow> IncrementalAlterConfigsResource
    \<Rightarrow> bytes" where
  "wIncrementalAlterConfigsResource fl x =
     be8 (icr_type x) @ wString fl (icr_name x) @
     wArray fl (wIncrementalEntry_entry fl) (icr_config_entries x) @ wTags fl"

definition IncrementalAlterConfigsResource_ok :: "bool \<Rightarrow> IncrementalAlterConfigsResource
    \<Rightarrow> bool" where
  "IncrementalAlterConfigsResource_ok fl x \<longleftrightarrow>
     string_ok fl (icr_name x) \<and> len_ok fl (length (icr_config_entries x)) \<and>
     (\<forall>kv \<in> set (icr_config_entries x). IncrementalEntry_entry_ok fl kv) \<and>
     smap (icr_config_entries x)"

lemma emits_IncrementalAlterConfigsResource [emits_rules]:
  "IncrementalAlterConfigsResource_ok fl x \<Longrightarrow> emits fl (IncrementalAlterConfigsResource_encode
      x) (wIncrementalAlterConfigsResource fl x)"
  unfolding IncrementalAlterConfigsResource_encode_def wIncrementalAlterConfigsResource_def
      IncrementalAlterConfigsResource_ok_def by (intro emits_rules; auto)

lemma reads_IncrementalAlterConfigsResource [reads_rules]:
  assumes "IncrementalAlterConfigsResource_ok fl x"
  shows "reads fl (IncrementalAlterConfigsResource_decode) (wIncrementalAlterConfigsResource fl x) x"
  unfolding IncrementalAlterConfigsResource_decode_def wIncrementalAlterConfigsResource_def
  by (rule reads_conv, (rule reads_rules | (use assms in \<open>auto simp:
      IncrementalAlterConfigsResource_ok_def; fail\<close>))+)

text \<open>\<open>reserve\<close> of a negative count throws, like \<open>resize\<close>.\<close>

record IncrementalAlterConfigsRequest =
  icq_version :: int16
  icq_resources :: "IncrementalAlterConfigsResource list"
  icq_validate_only :: bool

definition IncrementalAlterConfigsRequest_set_version :: "int16 \<Rightarrow> IncrementalAlterConfigsRequest
    \<Rightarrow> IncrementalAlterConfigsRequest" where
  "IncrementalAlterConfigsRequest_set_version v m = m\<lparr>icq_version := v\<rparr>"

definition IncrementalAlterConfigsRequest_encode :: "IncrementalAlterConfigsRequest \<Rightarrow> unit enc"
    where
  "IncrementalAlterConfigsRequest_encode m =
     then_p (then_p (putArrayLength (size32 (length (icq_resources m))))
            (for_each IncrementalAlterConfigsResource_encode (icq_resources m)))
    (then_p (putBool (icq_validate_only m))
       putEmptyTaggedFieldArray)"

definition IncrementalAlterConfigsRequest_decode :: "IncrementalAlterConfigsRequest \<Rightarrow> int16
    \<Rightarrow> IncrementalAlterConfigsRequest dec" where
  "IncrementalAlterConfigsRequest_decode this version =
     bind_p (bind_p getArrayLength (\<lambda>n. resize_read n IncrementalAlterConfigsResource_decode))
         (\<lambda>resources.
     bind_p getBool (\<lambda>b.
     bind_p getEmptyTaggedFieldArray (\<lambda>_.
       ret \<lparr>icq_version = version, icq_resources = resources, icq_validate_only = b\<rparr>)))"

definition IncrementalAlterConfigsRequest_is_flexible_version :: "int16 \<Rightarrow> bool" where
  "IncrementalAlterConfigsRequest_is_flexible_version ver \<longleftrightarrow> sint ver \<ge> 1"

definition IncrementalAlterConfigsRequest_required_version :: "int16 \<Rightarrow> KafkaVersion" where
  "IncrementalAlterConfigsRequest_required_version v =
     (if v = 1 then V2_4_0_0 else V2_3_0_0)"

definition IncrementalAlterConfigsRequest_body :: "IncrementalAlterConfigsRequest \<Rightarrow> protocol_body"
    where
  "IncrementalAlterConfigsRequest_body m =
     \<lparr>pb_key = 44, pb_version = icq_version m,
      pb_header_version = (if sint (icq_version m) \<ge> 1 then 2 else 1),
      pb_is_valid_version = (sint (icq_version m) \<ge> 0 \<and> sint (icq_version m) \<le> 1),
      pb_is_flexible = IncrementalAlterConfigsRequest_is_flexible_version (icq_version m),
      pb_is_flexible_version = IncrementalAlterConfigsRequest_is_flexible_version,
      pb_required_version = IncrementalAlterConfigsRequest_required_version (icq_version m),
      pb_encode = IncrementalAlterConfigsRequest_encode m\<rparr>"

definition wIncrementalAlterConfigsRequest :: "IncrementalAlterConfigsRequest \<Rightarrow> bytes" where
  "wIncrementalAlterConfigsRequest m =
     (let fl = IncrementalAlterConfigsRequest_is_flexible_version (icq_version m) in
     wArray fl (wIncrementalAlterConfigsResource fl) (icq_resources m) @ wBool (icq_validate_only m) @
     wTags fl)"

definition IncrementalAlterConfigsRequest_ok :: "IncrementalAlterConfigsRequest \<Rightarrow> bool" where
  "IncrementalAlterConfigsRequest_ok m \<longleftrightarrow>
     (let fl = IncrementalAlterConfigsRequest_is_flexible_version (icq_version m) in
     len_ok fl (length (icq_resources m)) \<and>
     (\<forall>e \<in> set (icq_resources m). IncrementalAlterConfigsResource_ok fl e))"

definition IncrementalAlterConfigsRequest_seen :: "IncrementalAlterConfigsRequest \<Rightarrow>
    IncrementalAlterConfigsRequest \<Rightarrow> IncrementalAlterConfigsRequest" where
  "IncrementalAlterConfigsRequest_seen this m =
     m"

interpretation icq: protocol_message IncrementalAlterConfigsRequest_body IncrementalAlterConfigsRequest_decode
    wIncrementalAlterConfigsRequest
  IncrementalAlterConfigsRequest_ok IncrementalAlterConfigsRequest_seen
proof
  fix m this :: IncrementalAlterConfigsRequest
  assume ok: "IncrementalAlterConfigsRequest_ok m"
  show "emits (pb_is_flexible (IncrementalAlterConfigsRequest_body m)) (pb_encode
      (IncrementalAlterConfigsRequest_body m)) (wIncrementalAlterConfigsRequest m)"
    unfolding IncrementalAlterConfigsRequest_body_def IncrementalAlterConfigsRequest_encode_def
        wIncrementalAlterConfigsRequest_def Let_def protocol_body.simps
    by (intro emits_rules; use ok in \<open>auto simp: IncrementalAlterConfigsRequest_ok_def Let_def \<close>)
  show "reads (pb_is_flexible (IncrementalAlterConfigsRequest_body m)) (IncrementalAlterConfigsRequest_decode
      this (pb_version (IncrementalAlterConfigsRequest_body m)))
      (wIncrementalAlterConfigsRequest m) (IncrementalAlterConfigsRequest_seen this m)"
    unfolding IncrementalAlterConfigsRequest_body_def IncrementalAlterConfigsRequest_decode_def
        wIncrementalAlterConfigsRequest_def Let_def protocol_body.simps
    by (rule reads_conv, (rule reads_rules | (use ok in \<open>auto simp: IncrementalAlterConfigsRequest_ok_def
        Let_def 
      IncrementalAlterConfigsRequest_seen_def; fail\<close>))+)
qed (simp_all add: IncrementalAlterConfigsRequest_body_def wIncrementalAlterConfigsRequest_def Let_def)

record IncrementalAlterConfigsResponse =
  icz_version :: int16
  icz_throttle_time :: int64
  icz_resources :: "AlterConfigsResourceResponse list"

definition IncrementalAlterConfigsResponse_set_version :: "int16 \<Rightarrow> IncrementalAlterConfigsResponse
    \<Rightarrow> IncrementalAlterConfigsResponse" where
  "IncrementalAlterConfigsResponse_set_version v m = m\<lparr>icz_version := v\<rparr>"

definition IncrementalAlterConfigsResponse_encode :: "IncrementalAlterConfigsResponse \<Rightarrow> unit enc"
    where
  "IncrementalAlterConfigsResponse_encode m =
     then_p (putDurationMs (icz_throttle_time m))
    (then_p (then_p (putArrayLength (size32 (length (icz_resources m))))
            (for_each AlterConfigsResourceResponse_encode (icz_resources m)))
       (when_p (sint (icz_version m) \<ge> 1) putEmptyTaggedFieldArray))"

definition IncrementalAlterConfigsResponse_decode :: "IncrementalAlterConfigsResponse \<Rightarrow> int16
    \<Rightarrow> IncrementalAlterConfigsResponse dec" where
  "IncrementalAlterConfigsResponse_decode this version =
     bind_p getDurationMs (\<lambda>throttle_time.
     bind_p (bind_p getArrayLength (\<lambda>n. resize_read n AlterConfigsResourceResponse_decode))
         (\<lambda>resources.
     bind_p (field_if (sint version \<ge> 1) getEmptyTaggedFieldArray ()) (\<lambda>_.
       ret \<lparr>icz_version = version, icz_throttle_time = throttle_time, icz_resources =
         resources\<rparr>)))"

definition IncrementalAlterConfigsResponse_is_flexible_version :: "int16 \<Rightarrow> bool" where
  "IncrementalAlterConfigsResponse_is_flexible_version ver \<longleftrightarrow> sint ver \<ge> 1"

definition IncrementalAlterConfigsResponse_required_version :: "int16 \<Rightarrow> KafkaVersion" where
  "IncrementalAlterConfigsResponse_required_version v =
     (if v = 1 then V2_4_0_0 else V2_3_0_0)"

definition IncrementalAlterConfigsResponse_body :: "IncrementalAlterConfigsResponse \<Rightarrow>
    protocol_body" where
  "IncrementalAlterConfigsResponse_body m =
     \<lparr>pb_key = 44, pb_version = icz_version m,
      pb_header_version = (if sint (icz_version m) \<ge> 1 then 1 else 0),
      pb_is_valid_version = (sint (icz_version m) \<ge> 0 \<and> sint (icz_version m) \<le> 1),
      pb_is_flexible = IncrementalAlterConfigsResponse_is_flexible_version (icz_version m),
      pb_is_flexible_version = IncrementalAlterConfigsResponse_is_flexible_version,
      pb_required_version = IncrementalAlterConfigsResponse_required_version (icz_version m),
      pb_encode = IncrementalAlterConfigsResponse_encode m\<rparr>"

definition wIncrementalAlterConfigsResponse :: "IncrementalAlterConfigsResponse \<Rightarrow> bytes" where
  "wIncrementalAlterConfigsResponse m =
     (let fl = IncrementalAlterConfigsResponse_is_flexible_version (icz_version m) in
     wDurationMs (icz_throttle_time m) @ wArray fl (wAlterConfigsResourceResponse fl) (icz_resources m) @
     (if sint (icz_version m) \<ge> 1 then wTags fl else []))"

definition IncrementalAlterConfigsResponse_ok :: "IncrementalAlterConfigsResponse \<Rightarrow> bool" where
  "IncrementalAlterConfigsResponse_ok m \<longleftrightarrow>
     (let fl = IncrementalAlterConfigsResponse_is_flexible_version (icz_version m) in
     duration_ok (icz_throttle_time m) \<and> len_ok fl (length (icz_resources m)) \<and>
     (\<forall>e \<in> set (icz_resources m). AlterConfigsResourceResponse_ok fl e))"

definition IncrementalAlterConfigsResponse_seen :: "IncrementalAlterConfigsResponse \<Rightarrow>
    IncrementalAlterConfigsResponse \<Rightarrow> IncrementalAlterConfigsResponse" where
  "IncrementalAlterConfigsResponse_seen this m =
     m"

interpretation icz: protocol_message IncrementalAlterConfigsResponse_body
    IncrementalAlterConfigsResponse_decode wIncrementalAlterConfigsResponse
  IncrementalAlterConfigsResponse_ok IncrementalAlterConfigsResponse_seen
proof
  fix m this :: IncrementalAlterConfigsResponse
  assume ok: "IncrementalAlterConfigsResponse_ok m"
  show "emits (pb_is_flexible (IncrementalAlterConfigsResponse_body m)) (pb_encode
      (IncrementalAlterConfigsResponse_body m)) (wIncrementalAlterConfigsResponse m)"
    unfolding IncrementalAlterConfigsResponse_body_def IncrementalAlterConfigsResponse_encode_def
        wIncrementalAlterConfigsResponse_def Let_def protocol_body.simps
    by (intro emits_rules; use ok in \<open>auto simp: IncrementalAlterConfigsResponse_ok_def Let_def \<close>)
  show "reads (pb_is_flexible (IncrementalAlterConfigsResponse_body m)) (IncrementalAlterConfigsResponse_decode
      this (pb_version (IncrementalAlterConfigsResponse_body m)))
      (wIncrementalAlterConfigsResponse m) (IncrementalAlterConfigsResponse_seen this m)"
    unfolding IncrementalAlterConfigsResponse_body_def IncrementalAlterConfigsResponse_decode_def
        wIncrementalAlterConfigsResponse_def Let_def protocol_body.simps
    by (rule reads_conv, (rule reads_rules | (use ok in \<open>auto simp:
        IncrementalAlterConfigsResponse_ok_def Let_def 
      IncrementalAlterConfigsResponse_seen_def; fail\<close>))+)
qed (simp_all add: IncrementalAlterConfigsResponse_body_def wIncrementalAlterConfigsResponse_def Let_def)

definition IncrementalAlterConfigsResponse_throttle_time :: "IncrementalAlterConfigsResponse \<Rightarrow>
    int64" where
  "IncrementalAlterConfigsResponse_throttle_time m = icz_throttle_time m"

end
