(* ===== verification/Quota_Messages.thy ===== *)
theory Quota_Messages
  imports Config_Messages
begin

text \<open>
  Client quotas: the request and response classes DescribeClientQuotas and AlterClientQuotas.  A quota is a
  \<^verbatim>\<open>double\<close>, of which the model keeps the bits.

  \<^verbatim>\<open>DescribeClientQuotasRequest::decode\<close> tests the return code of a component the wrong
      way round, so a request
  with a component that can be read is refused (\<open>describe_quotas_refused\<close>).
\<close>

section \<open>Components\<close>

definition QuotaMatchExact :: int8 where "QuotaMatchExact = 0"

definition QuotaMatchDefault :: int8 where "QuotaMatchDefault = 1"

definition QuotaMatchAny :: int8 where "QuotaMatchAny = 2"

text \<open>The match type does not travel: an empty name is read as the default.\<close>

record QuotaEntityComponent =
  qec_entity_type :: bytes
  qec_match_type :: int8
  qec_name :: bytes

definition QuotaEntityComponent_default :: QuotaEntityComponent where
  "QuotaEntityComponent_default = \<lparr>qec_entity_type = [], qec_match_type = 0, qec_name = []\<rparr>"

definition QuotaEntityComponent_encode :: "QuotaEntityComponent \<Rightarrow> unit enc" where
  "QuotaEntityComponent_encode x =
     then_p (err_as ErrEncodeError (putString (qec_entity_type x)))
    (then_p (if qec_match_type x = QuotaMatchDefault then err_as ErrEncodeError (putNullableString [])
       else err_as ErrEncodeError (putString (qec_name x)))
       putEmptyTaggedFieldArray)"

definition QuotaEntityComponent_decode :: "QuotaEntityComponent dec" where
  "QuotaEntityComponent_decode =
     bind_p (err_as ErrDecodeError getString) (\<lambda>entity_type.
     bind_p (err_as ErrDecodeError getNullableString) (\<lambda>nm.
     bind_p (err_as ErrDecodeError getEmptyTaggedFieldArray) (\<lambda>_.
       ret \<lparr>qec_entity_type = entity_type, qec_match_type = (if nm = [] then QuotaMatchDefault else
           QuotaMatchExact),
         qec_name = nm\<rparr>)))"

definition wQuotaName :: "bool \<Rightarrow> bool \<Rightarrow> bytes \<Rightarrow> bytes" where
  "wQuotaName fl null nm = (if null then wNullableString fl [] else wString fl nm)"

definition wQuotaEntityComponent :: "bool \<Rightarrow> QuotaEntityComponent \<Rightarrow> bytes" where
  "wQuotaEntityComponent fl x =
     wString fl (qec_entity_type x) @ wQuotaName fl (qec_match_type x = QuotaMatchDefault) (qec_name x) @ wTags
         fl"

definition QuotaEntityComponent_ok :: "bool \<Rightarrow> QuotaEntityComponent \<Rightarrow> bool" where
  "QuotaEntityComponent_ok fl x \<longleftrightarrow> string_ok fl (qec_entity_type x) \<and> string_ok fl
      (qec_name x)"

definition QuotaEntityComponent_seen :: "QuotaEntityComponent \<Rightarrow> QuotaEntityComponent" where
  "QuotaEntityComponent_seen x =
     (if qec_match_type x = QuotaMatchDefault \<or> qec_name x = []
      then x\<lparr>qec_match_type := QuotaMatchDefault, qec_name := []\<rparr> else x\<lparr>qec_match_type :=
          QuotaMatchExact\<rparr>)"

lemma emits_QuotaName [emits_rules]:
  "string_ok fl nm \<Longrightarrow> emits fl (if null then err_as e (putNullableString []) else err_as e
      (putString nm)) (wQuotaName fl null nm)"
  unfolding wQuotaName_def by (auto intro!: emits_rules simp: string_ok_def)

lemma reads_QuotaName [reads_rules]:
  "string_ok fl nm \<Longrightarrow> reads fl (err_as e getNullableString) (wQuotaName fl null nm) (if null
      then [] else nm)"
  unfolding wQuotaName_def
  by (auto intro!: reads_err_as reads_nullable_of_string reads_getNullableString simp: string_ok_def)

lemma emits_QuotaEntityComponent [emits_rules]:
  "QuotaEntityComponent_ok fl x \<Longrightarrow> emits fl (QuotaEntityComponent_encode x)
      (wQuotaEntityComponent fl x)"
  unfolding QuotaEntityComponent_encode_def wQuotaEntityComponent_def QuotaEntityComponent_ok_def
  by (intro emits_rules; auto)

lemma reads_QuotaEntityComponent [reads_rules]:
  assumes "QuotaEntityComponent_ok fl x"
  shows "reads fl QuotaEntityComponent_decode (wQuotaEntityComponent fl x) (QuotaEntityComponent_seen x)"
  unfolding QuotaEntityComponent_decode_def wQuotaEntityComponent_def
  by (rule reads_conv, (rule reads_rules | (use assms in \<open>auto simp: QuotaEntityComponent_ok_def
    QuotaEntityComponent_seen_def; fail\<close>))+)

text \<open>A filter is decoded in place; \<open>decode\<close> says whether it came to the end.\<close>

record QuotaFilterComponent =
  qfc_entity_type :: bytes
  qfc_match_type :: int8
  qfc_match :: bytes

definition QuotaFilterComponent_default :: QuotaFilterComponent where
  "QuotaFilterComponent_default = \<lparr>qfc_entity_type = [], qfc_match_type = 0, qfc_match = []\<rparr>"

definition QuotaFilterComponent_encode :: "QuotaFilterComponent \<Rightarrow> unit enc" where
  "QuotaFilterComponent_encode x =
     then_p (err_as ErrEncodeError (putString (qfc_entity_type x)))
    (then_p (putInt8 (qfc_match_type x))
    (then_p (if qfc_match_type x = QuotaMatchAny \<or> qfc_match_type x = QuotaMatchDefault
       then err_as ErrEncodeError (putNullableString []) else err_as ErrEncodeError (putString (qfc_match x)))
       putEmptyTaggedFieldArray))"

definition QuotaFilterComponent_decode :: "QuotaFilterComponent \<Rightarrow> (QuotaFilterComponent \<times>
    bool) dec" where
  "QuotaFilterComponent_decode =
     get_into getString (\<lambda>v x. x\<lparr>qfc_entity_type := v\<rparr>) (\<lambda>x. x)
    (get_into getInt8 (\<lambda>v x. x\<lparr>qfc_match_type := v\<rparr>) (\<lambda>x. x)
    (get_into getNullableString (\<lambda>v x. x\<lparr>qfc_match := v\<rparr>) (\<lambda>x. x)
    (get_into getEmptyTaggedFieldArray (\<lambda>_ x. x) (\<lambda>x. x) got)))"

definition wQuotaFilterComponent :: "bool \<Rightarrow> QuotaFilterComponent \<Rightarrow> bytes" where
  "wQuotaFilterComponent fl x =
     wString fl (qfc_entity_type x) @ be8 (qfc_match_type x) @ wQuotaName fl (qfc_match_type x = QuotaMatchAny
         \<or> qfc_match_type x = QuotaMatchDefault) (qfc_match x) @ wTags fl"

definition QuotaFilterComponent_ok :: "bool \<Rightarrow> QuotaFilterComponent \<Rightarrow> bool" where
  "QuotaFilterComponent_ok fl x \<longleftrightarrow>
     string_ok fl (qfc_entity_type x) \<and> string_ok fl (qfc_match x)"

definition QuotaFilterComponent_seen :: "QuotaFilterComponent \<Rightarrow> QuotaFilterComponent \<Rightarrow>
    QuotaFilterComponent" where
  "QuotaFilterComponent_seen this x =
     x\<lparr>qfc_match := (if qfc_match_type x = QuotaMatchAny \<or> qfc_match_type x = QuotaMatchDefault then
         [] else qfc_match x)\<rparr>"

lemma reads_QuotaName_plain [reads_rules]:
  "string_ok fl nm \<Longrightarrow> reads fl getNullableString (wQuotaName fl null nm) (if null then [] else
      nm)"
  unfolding wQuotaName_def by (auto intro!: reads_nullable_of_string reads_getNullableString simp:
      string_ok_def)

lemma emits_QuotaFilterComponent [emits_rules]:
  "QuotaFilterComponent_ok fl x \<Longrightarrow> emits fl (QuotaFilterComponent_encode x)
      (wQuotaFilterComponent fl x)"
  unfolding QuotaFilterComponent_encode_def wQuotaFilterComponent_def QuotaFilterComponent_ok_def by (intro
      emits_rules; auto)

lemma reads_QuotaFilterComponent [reads_rules]:
  assumes "QuotaFilterComponent_ok fl x"
  shows "reads fl (QuotaFilterComponent_decode this) (wQuotaFilterComponent fl x) (QuotaFilterComponent_seen
      this x, True)"
  unfolding QuotaFilterComponent_decode_def wQuotaFilterComponent_def
  by (rule reads_conv, (rule into_rules reads_rules | (use assms in \<open>auto simp:
      QuotaFilterComponent_ok_def QuotaFilterComponent_seen_def; fail\<close>))+)

section \<open>DescribeClientQuotas\<close>

text \<open>\<open>if (!m_components[i].decode(pd, version)) return ErrDecodeError;\<close>, where
    \<open>decode\<close> returns 0 on success\<close>

definition DescribeClientQuotas_get_component :: "QuotaFilterComponent dec" where
  "DescribeClientQuotas_get_component =
     bind_p (QuotaFilterComponent_decode QuotaFilterComponent_default) (\<lambda>(c, ok). if ok then raise
         ErrDecodeError else ret c)"

record DescribeClientQuotasRequest =
  qdq_version :: int16
  qdq_components :: "QuotaFilterComponent list"
  qdq_strict :: bool

definition DescribeClientQuotasRequest_set_version :: "int16 \<Rightarrow> DescribeClientQuotasRequest
    \<Rightarrow> DescribeClientQuotasRequest" where
  "DescribeClientQuotasRequest_set_version v m = m\<lparr>qdq_version := v\<rparr>"

definition DescribeClientQuotasRequest_encode :: "DescribeClientQuotasRequest \<Rightarrow> unit enc" where
  "DescribeClientQuotasRequest_encode m =
     then_p (then_p (err_as ErrEncodeError (putArrayLength (size32 (length (qdq_components m)))))
            (for_each (\<lambda>c. err_as ErrEncodeError (QuotaFilterComponent_encode c)) (qdq_components m)))
    (then_p (putBool (qdq_strict m))
       putEmptyTaggedFieldArray)"

definition DescribeClientQuotasRequest_decode :: "DescribeClientQuotasRequest \<Rightarrow> int16 \<Rightarrow>
    DescribeClientQuotasRequest dec" where
  "DescribeClientQuotasRequest_decode this version =
     bind_p (bind_p (err_as ErrDecodeError getArrayLength) (\<lambda>n. read_n n
         DescribeClientQuotas_get_component)) (\<lambda>components.
     bind_p (err_as ErrDecodeError getBool) (\<lambda>b.
     bind_p (err_as ErrDecodeError getEmptyTaggedFieldArray) (\<lambda>_.
       ret \<lparr>qdq_version = version, qdq_components = components, qdq_strict = b\<rparr>)))"

definition DescribeClientQuotasRequest_is_flexible_version :: "int16 \<Rightarrow> bool" where
  "DescribeClientQuotasRequest_is_flexible_version ver \<longleftrightarrow> sint ver \<ge> 1"

definition DescribeClientQuotasRequest_required_version :: "int16 \<Rightarrow> KafkaVersion" where
  "DescribeClientQuotasRequest_required_version v =
     (if v = 1 then V2_8_0_0 else if v = 0 then V2_6_0_0 else V2_8_0_0)"

definition DescribeClientQuotasRequest_body :: "DescribeClientQuotasRequest \<Rightarrow> protocol_body" where
  "DescribeClientQuotasRequest_body m =
     \<lparr>pb_key = 48, pb_version = qdq_version m,
      pb_header_version = (if sint (qdq_version m) \<ge> 1 then 2 else 1),
      pb_is_valid_version = (sint (qdq_version m) \<ge> 0 \<and> sint (qdq_version m) \<le> 1),
      pb_is_flexible = DescribeClientQuotasRequest_is_flexible_version (qdq_version m),
      pb_is_flexible_version = DescribeClientQuotasRequest_is_flexible_version,
      pb_required_version = DescribeClientQuotasRequest_required_version (qdq_version m),
      pb_encode = DescribeClientQuotasRequest_encode m\<rparr>"

definition wDescribeClientQuotasRequest :: "DescribeClientQuotasRequest \<Rightarrow> bytes" where
  "wDescribeClientQuotasRequest m =
     (let fl = DescribeClientQuotasRequest_is_flexible_version (qdq_version m) in
     wArray fl (wQuotaFilterComponent fl) (qdq_components m) @ wBool (qdq_strict m) @ wTags fl)"

definition DescribeClientQuotasRequest_ok :: "DescribeClientQuotasRequest \<Rightarrow> bool" where
  "DescribeClientQuotasRequest_ok m \<longleftrightarrow>
     (qdq_components m) = []"

definition DescribeClientQuotasRequest_seen :: "DescribeClientQuotasRequest \<Rightarrow>
    DescribeClientQuotasRequest \<Rightarrow> DescribeClientQuotasRequest" where
  "DescribeClientQuotasRequest_seen this m =
     m"

text \<open>Only a request without components is read back.\<close>

lemma len_ok_empty: "len_ok fl 0"
  by (simp add: len_ok_def MaxResponseSize_def be32_def byte_at_def)

lemma reads_no_components: "x = [] \<Longrightarrow> len_ok fl 0 \<Longrightarrow>
  reads fl (bind_p (err_as ErrDecodeError getArrayLength) (\<lambda>n. read_n n m)) (wArray fl w x) x"
  using reads_getArrayLength [of fl 0] unfolding wArray_def
  by (auto simp: read_n_def intro!: reads_bind_same [OF reads_err_as] reads_ret)

interpretation qdq: protocol_message DescribeClientQuotasRequest_body DescribeClientQuotasRequest_decode
    wDescribeClientQuotasRequest
  DescribeClientQuotasRequest_ok DescribeClientQuotasRequest_seen
proof
  fix m this :: DescribeClientQuotasRequest
  assume ok: "DescribeClientQuotasRequest_ok m"
  show "emits (pb_is_flexible (DescribeClientQuotasRequest_body m)) (pb_encode
      (DescribeClientQuotasRequest_body m)) (wDescribeClientQuotasRequest m)"
    unfolding DescribeClientQuotasRequest_body_def DescribeClientQuotasRequest_encode_def
        wDescribeClientQuotasRequest_def Let_def protocol_body.simps
    by (intro emits_rules; use ok in \<open>auto simp: DescribeClientQuotasRequest_ok_def Let_def
        len_ok_empty\<close>)
  show "reads (pb_is_flexible (DescribeClientQuotasRequest_body m)) (DescribeClientQuotasRequest_decode this
      (pb_version (DescribeClientQuotasRequest_body m)))
      (wDescribeClientQuotasRequest m) (DescribeClientQuotasRequest_seen this m)"
    unfolding DescribeClientQuotasRequest_body_def DescribeClientQuotasRequest_decode_def
        wDescribeClientQuotasRequest_def Let_def protocol_body.simps
    by (rule reads_conv, (rule reads_rules reads_no_components | (use ok in \<open>auto simp:
        DescribeClientQuotasRequest_ok_def Let_def len_ok_empty
      DescribeClientQuotasRequest_seen_def; fail\<close>))+)
qed (simp_all add: DescribeClientQuotasRequest_body_def wDescribeClientQuotasRequest_def Let_def)

definition DescribeClientQuotasRequest_new :: "KafkaVersion \<Rightarrow> QuotaFilterComponent list
    \<Rightarrow> bool \<Rightarrow> DescribeClientQuotasRequest" where
  "DescribeClientQuotasRequest_new version components strict =
     \<lparr>qdq_version = (if IsAtLeast version V2_8_0_0 then 1 else 0), qdq_components = components,
         qdq_strict = strict\<rparr>"

text \<open>A request with components is written, and refused when it is read.\<close>

definition DescribeClientQuotasRequest_fits :: "DescribeClientQuotasRequest \<Rightarrow> bool" where
  "DescribeClientQuotasRequest_fits m \<longleftrightarrow>
     (let fl = DescribeClientQuotasRequest_is_flexible_version (qdq_version m) in
     len_ok fl (length (qdq_components m)) \<and> (\<forall>c \<in> set (qdq_components m).
         QuotaFilterComponent_ok fl c))"

lemma describe_quotas_writes:
  assumes "DescribeClientQuotasRequest_fits m"
  shows "emits (pb_is_flexible (DescribeClientQuotasRequest_body m)) (pb_encode
      (DescribeClientQuotasRequest_body m))
    (wDescribeClientQuotasRequest m)"
  unfolding DescribeClientQuotasRequest_body_def DescribeClientQuotasRequest_encode_def
      wDescribeClientQuotasRequest_def Let_def
    protocol_body.simps
  by (intro emits_rules; use assms in \<open>auto simp: DescribeClientQuotasRequest_fits_def Let_def\<close>)

lemma refuses_quota_component:
  assumes "QuotaFilterComponent_ok fl c"
  shows "refuses fl DescribeClientQuotas_get_component (wQuotaFilterComponent fl c) ErrDecodeError"
  unfolding DescribeClientQuotas_get_component_def
  by (rule refuses_after_last [OF reads_QuotaFilterComponent [OF assms]]) (simp add: refuses_raise)

lemma describe_quotas_refused:
  assumes fits: "DescribeClientQuotasRequest_fits m" and some: "qdq_components m \<noteq> []"
    and small: "length (wDescribeClientQuotasRequest m) < 2 ^ 31"
  shows "decode_version (wDescribeClientQuotasRequest m)
    (body_VDecoder (DescribeClientQuotasRequest_body this) (DescribeClientQuotasRequest_decode this) this)
        (qdq_version m) =
    Err ErrDecodeError ()"
proof (rule decode_refuses [OF _ _ small])
  let ?fl = "DescribeClientQuotasRequest_is_flexible_version (qdq_version m)"
  obtain c cs where c: "qdq_components m = c # cs" using some by (cases "qdq_components m") auto
  note ok = fits [unfolded DescribeClientQuotasRequest_fits_def Let_def c]
  have "nat (sint (size32 (length (qdq_components m)))) = Suc (length ([] :: QuotaFilterComponent list) +
      length cs)"
    using ok sint_len [of ?fl "length (qdq_components m)"] by (simp add: c)
  moreover have "refuses ?fl (replicate_p (Suc (length ([] :: QuotaFilterComponent list) + length cs))
      DescribeClientQuotas_get_component)
      (concat (map (wQuotaFilterComponent ?fl) []) @ wQuotaFilterComponent ?fl c @ concat (map
          (wQuotaFilterComponent ?fl) cs)) ErrDecodeError"
    by (rule refuses_replicate [where g = id]) (use ok refuses_quota_component in auto)
  ultimately have "refuses ?fl (read_n (size32 (length (qdq_components m))) DescribeClientQuotas_get_component)
      (concat (map (wQuotaFilterComponent ?fl) (qdq_components m))) ErrDecodeError"
    by (simp add: read_n_def c)
  then have array: "refuses ?fl (bind_p (err_as ErrDecodeError getArrayLength) (\<lambda>n. read_n n
      DescribeClientQuotas_get_component))
      (wArray ?fl (wQuotaFilterComponent ?fl) (qdq_components m)) ErrDecodeError"
    unfolding wArray_def using ok c
    by (intro refuses_after [OF reads_err_as [OF reads_getArrayLength]]) simp_all
  have "refuses ?fl (DescribeClientQuotasRequest_decode this (qdq_version m)) (wDescribeClientQuotasRequest m)
      ErrDecodeError"
    unfolding DescribeClientQuotasRequest_decode_def wDescribeClientQuotasRequest_def Let_def
    by (intro refuses_bind refuses_more array)
  then show "refuses False (prepare_flexible_decoder (body_VDecoder (DescribeClientQuotasRequest_body this)
      (DescribeClientQuotasRequest_decode this) this) (qdq_version m)) (wDescribeClientQuotasRequest m)
          ErrDecodeError"
    by (cases ?fl) (auto simp: prepare_flexible_decoder_def body_VDecoder_def
        DescribeClientQuotasRequest_body_def
        intro: refuses_with_flexible)
  show "wDescribeClientQuotasRequest m \<noteq> []" by (simp add: wDescribeClientQuotasRequest_def Let_def)
qed

definition QuotaValue_put_entry :: "bytes \<times> int64 \<Rightarrow> unit enc" where
  "QuotaValue_put_entry kv =
     then_p (err_as ErrEncodeError (putString (fst kv)))
    (then_p (putFloat64 (snd kv))
       putEmptyTaggedFieldArray)"

definition QuotaValue_get_entry :: "(bytes \<times> int64) dec" where
  "QuotaValue_get_entry =
     bind_p (err_as ErrDecodeError getString) (\<lambda>k.
     bind_p (err_as ErrDecodeError getFloat64) (\<lambda>v.
     bind_p (err_as ErrDecodeError getEmptyTaggedFieldArray) (\<lambda>_.
       ret (k, v))))"

definition wQuotaValue_entry :: "bool \<Rightarrow> bytes \<times> int64 \<Rightarrow> bytes" where
  "wQuotaValue_entry fl kv =
     wString fl (fst kv) @ be64 (snd kv) @ wTags fl"

definition QuotaValue_entry_ok :: "bool \<Rightarrow> bytes \<times> int64 \<Rightarrow> bool" where
  "QuotaValue_entry_ok fl kv \<longleftrightarrow>
     string_ok fl (fst kv)"

lemma emits_QuotaValue_entry [emits_rules]:
  "QuotaValue_entry_ok fl kv \<Longrightarrow> emits fl (QuotaValue_put_entry kv) (wQuotaValue_entry fl kv)"
  unfolding QuotaValue_put_entry_def wQuotaValue_entry_def QuotaValue_entry_ok_def by (intro emits_rules; auto)

lemma reads_QuotaValue_entry [reads_rules]:
  assumes "QuotaValue_entry_ok fl kv"
  shows "reads fl (QuotaValue_get_entry) (wQuotaValue_entry fl kv) kv"
  unfolding QuotaValue_get_entry_def wQuotaValue_entry_def
  by (rule reads_conv, (rule reads_rules | (use assms in \<open>auto simp: QuotaValue_entry_ok_def;
      fail\<close>))+)

record DescribeClientQuotasEntry =
  qde_entity :: "QuotaEntityComponent list"
  qde_values :: "(bytes \<times> int64) list"

definition DescribeClientQuotasEntry_encode :: "DescribeClientQuotasEntry \<Rightarrow> unit enc" where
  "DescribeClientQuotasEntry_encode x =
     then_p (then_p (err_as ErrEncodeError (putArrayLength (size32 (length (qde_entity x)))))
            (for_each (\<lambda>e. (err_as ErrEncodeError (QuotaEntityComponent_encode e))) (qde_entity x)))
    (then_p (then_p (err_as ErrEncodeError (putArrayLength (size32 (length (qde_values x)))))
            (for_each QuotaValue_put_entry (qde_values x)))
       putEmptyTaggedFieldArray)"

definition DescribeClientQuotasEntry_decode :: "DescribeClientQuotasEntry dec" where
  "DescribeClientQuotasEntry_decode =
     bind_p (bind_p (err_as ErrDecodeError getArrayLength) (\<lambda>n. read_n n (err_as ErrDecodeError
         QuotaEntityComponent_decode))) (\<lambda>entity.
     bind_p (bind_p (err_as ErrDecodeError getArrayLength) (\<lambda>n. put_all (\<lambda>(k, v). smap_put k v)
         n QuotaValue_get_entry [])) (\<lambda>values.
     bind_p (err_as ErrDecodeError getEmptyTaggedFieldArray) (\<lambda>_.
       ret \<lparr>qde_entity = entity, qde_values = values\<rparr>)))"

definition wDescribeClientQuotasEntry :: "bool \<Rightarrow> DescribeClientQuotasEntry \<Rightarrow> bytes"
    where
  "wDescribeClientQuotasEntry fl x =
     wArray fl (wQuotaEntityComponent fl) (qde_entity x) @ wArray fl (wQuotaValue_entry fl) (qde_values x) @
     wTags fl"

definition DescribeClientQuotasEntry_ok :: "bool \<Rightarrow> DescribeClientQuotasEntry \<Rightarrow> bool"
    where
  "DescribeClientQuotasEntry_ok fl x \<longleftrightarrow>
     len_ok fl (length (qde_entity x)) \<and>
     (\<forall>e \<in> set (qde_entity x). QuotaEntityComponent_ok fl e) \<and>
     len_ok fl (length (qde_values x)) \<and>
     (\<forall>kv \<in> set (qde_values x). QuotaValue_entry_ok fl kv) \<and> smap (qde_values x)"

definition DescribeClientQuotasEntry_seen :: "DescribeClientQuotasEntry \<Rightarrow>
    DescribeClientQuotasEntry" where
  "DescribeClientQuotasEntry_seen x =
     x\<lparr>qde_entity := map (QuotaEntityComponent_seen) (qde_entity x)\<rparr>"

lemma emits_DescribeClientQuotasEntry [emits_rules]:
  "DescribeClientQuotasEntry_ok fl x \<Longrightarrow> emits fl (DescribeClientQuotasEntry_encode x)
      (wDescribeClientQuotasEntry fl x)"
  unfolding DescribeClientQuotasEntry_encode_def wDescribeClientQuotasEntry_def
      DescribeClientQuotasEntry_ok_def by (intro emits_rules; auto)

lemma reads_DescribeClientQuotasEntry [reads_rules]:
  assumes "DescribeClientQuotasEntry_ok fl x"
  shows "reads fl (DescribeClientQuotasEntry_decode) (wDescribeClientQuotasEntry fl x)
      (DescribeClientQuotasEntry_seen x)"
  unfolding DescribeClientQuotasEntry_decode_def wDescribeClientQuotasEntry_def
  by (rule reads_conv, (rule reads_rules | (use assms in \<open>auto simp: DescribeClientQuotasEntry_ok_def
      DescribeClientQuotasEntry_seen_def; fail\<close>))+)

text \<open>The tagged fields are read from version 1 on, the flexible versions.\<close>

lemma reads_tags_if [reads_rules]:
  "fl = b \<Longrightarrow> reads fl (field_if b (err_as e getEmptyTaggedFieldArray) ()) (wTags fl) ()"
  using reads_err_as [OF reads_getEmptyTaggedFieldArray [of fl]] by (auto simp: field_if_def wTags_def intro:
      reads_ret)

record DescribeClientQuotasResponse =
  qdz_version :: int16
  qdz_throttle_time :: int64
  qdz_code :: int16
  qdz_message :: bytes
  qdz_entries :: "DescribeClientQuotasEntry list"

definition DescribeClientQuotasResponse_set_version :: "int16 \<Rightarrow> DescribeClientQuotasResponse
    \<Rightarrow> DescribeClientQuotasResponse" where
  "DescribeClientQuotasResponse_set_version v m = m\<lparr>qdz_version := v\<rparr>"

definition DescribeClientQuotasResponse_encode :: "DescribeClientQuotasResponse \<Rightarrow> unit enc" where
  "DescribeClientQuotasResponse_encode m =
     then_p (putDurationMs (qdz_throttle_time m))
    (then_p (putInt16 (qdz_code m))
    (then_p (err_as ErrEncodeError (putNullableString (qdz_message m)))
    (then_p (then_p (err_as ErrEncodeError (putArrayLength (size32 (length (qdz_entries m)))))
            (for_each (\<lambda>e. (err_as ErrEncodeError (DescribeClientQuotasEntry_encode e))) (qdz_entries
                m)))
       putEmptyTaggedFieldArray)))"

definition DescribeClientQuotasResponse_decode :: "DescribeClientQuotasResponse \<Rightarrow> int16
    \<Rightarrow> DescribeClientQuotasResponse dec" where
  "DescribeClientQuotasResponse_decode this version =
     bind_p (err_as ErrDecodeError (bind_p getInt32 (\<lambda>t. ret (scast t)))) (\<lambda>throttle_time.
     bind_p (err_as ErrDecodeError getInt16) (\<lambda>code.
     bind_p (err_as ErrDecodeError getNullableString) (\<lambda>message.
     bind_p (bind_p (err_as ErrDecodeError getArrayLength) (\<lambda>n. read_n n (err_as ErrDecodeError
         DescribeClientQuotasEntry_decode))) (\<lambda>entries.
     bind_p (field_if (sint version \<ge> 1) (err_as ErrDecodeError getEmptyTaggedFieldArray) ()) (\<lambda>_.
       ret \<lparr>qdz_version = version, qdz_throttle_time = throttle_time, qdz_code = code, qdz_message =
         message, qdz_entries = entries\<rparr>)))))"

definition DescribeClientQuotasResponse_is_flexible_version :: "int16 \<Rightarrow> bool" where
  "DescribeClientQuotasResponse_is_flexible_version ver \<longleftrightarrow> sint ver \<ge> 1"

definition DescribeClientQuotasResponse_required_version :: "int16 \<Rightarrow> KafkaVersion" where
  "DescribeClientQuotasResponse_required_version v =
     (if v = 1 then V2_8_0_0 else if v = 0 then V2_6_0_0 else V2_8_0_0)"

definition DescribeClientQuotasResponse_body :: "DescribeClientQuotasResponse \<Rightarrow> protocol_body" where
  "DescribeClientQuotasResponse_body m =
     \<lparr>pb_key = 48, pb_version = qdz_version m,
      pb_header_version = (if sint (qdz_version m) \<ge> 1 then 1 else 0),
      pb_is_valid_version = (sint (qdz_version m) \<ge> 0 \<and> sint (qdz_version m) \<le> 1),
      pb_is_flexible = DescribeClientQuotasResponse_is_flexible_version (qdz_version m),
      pb_is_flexible_version = DescribeClientQuotasResponse_is_flexible_version,
      pb_required_version = DescribeClientQuotasResponse_required_version (qdz_version m),
      pb_encode = DescribeClientQuotasResponse_encode m\<rparr>"

definition wDescribeClientQuotasResponse :: "DescribeClientQuotasResponse \<Rightarrow> bytes" where
  "wDescribeClientQuotasResponse m =
     (let fl = DescribeClientQuotasResponse_is_flexible_version (qdz_version m) in
     wDurationMs (qdz_throttle_time m) @ be16 (qdz_code m) @ wNullableString fl (qdz_message m) @
     wArray fl (wDescribeClientQuotasEntry fl) (qdz_entries m) @ wTags fl)"

definition DescribeClientQuotasResponse_ok :: "DescribeClientQuotasResponse \<Rightarrow> bool" where
  "DescribeClientQuotasResponse_ok m \<longleftrightarrow>
     (let fl = DescribeClientQuotasResponse_is_flexible_version (qdz_version m) in
     duration_ok (qdz_throttle_time m) \<and> string_ok fl (qdz_message m) \<and>
     len_ok fl (length (qdz_entries m)) \<and>
     (\<forall>e \<in> set (qdz_entries m). DescribeClientQuotasEntry_ok fl e))"

definition DescribeClientQuotasResponse_seen :: "DescribeClientQuotasResponse \<Rightarrow>
    DescribeClientQuotasResponse \<Rightarrow> DescribeClientQuotasResponse" where
  "DescribeClientQuotasResponse_seen this m =
     m\<lparr>qdz_entries := map (DescribeClientQuotasEntry_seen) (qdz_entries m)\<rparr>"

lemma reads_throttle_int32: "duration_ok x \<Longrightarrow> reads fl (err_as e (bind_p getInt32 (\<lambda>t.
    ret (scast t)))) (wDurationMs x) x"
  using reads_err_as [OF reads_getDurationMs [of x fl]] by (simp add: getDurationMs_def)

interpretation qdz: protocol_message DescribeClientQuotasResponse_body DescribeClientQuotasResponse_decode
    wDescribeClientQuotasResponse
  DescribeClientQuotasResponse_ok DescribeClientQuotasResponse_seen
proof
  fix m this :: DescribeClientQuotasResponse
  assume ok: "DescribeClientQuotasResponse_ok m"
  show "emits (pb_is_flexible (DescribeClientQuotasResponse_body m)) (pb_encode
      (DescribeClientQuotasResponse_body m)) (wDescribeClientQuotasResponse m)"
    unfolding DescribeClientQuotasResponse_body_def DescribeClientQuotasResponse_encode_def
        wDescribeClientQuotasResponse_def Let_def protocol_body.simps
    by (intro emits_rules; use ok in \<open>auto simp: DescribeClientQuotasResponse_ok_def Let_def
        DescribeClientQuotasResponse_is_flexible_version_def\<close>)
  show "reads (pb_is_flexible (DescribeClientQuotasResponse_body m)) (DescribeClientQuotasResponse_decode this
      (pb_version (DescribeClientQuotasResponse_body m)))
      (wDescribeClientQuotasResponse m) (DescribeClientQuotasResponse_seen this m)"
    unfolding DescribeClientQuotasResponse_body_def DescribeClientQuotasResponse_decode_def
        wDescribeClientQuotasResponse_def Let_def protocol_body.simps
    by (rule reads_conv, (rule reads_rules reads_throttle_int32 | (use ok in \<open>auto simp:
        DescribeClientQuotasResponse_ok_def Let_def DescribeClientQuotasResponse_is_flexible_version_def
      DescribeClientQuotasResponse_seen_def; fail\<close>))+)
qed (simp_all add: DescribeClientQuotasResponse_body_def wDescribeClientQuotasResponse_def Let_def)

definition DescribeClientQuotasResponse_throttle_time :: "DescribeClientQuotasResponse \<Rightarrow> int64"
    where
  "DescribeClientQuotasResponse_throttle_time m = qdz_throttle_time m"

section \<open>AlterClientQuotas\<close>

record ClientQuotasOp =
  qop_key :: bytes
  qop_value :: int64
  qop_remove :: bool

definition ClientQuotasOp_encode :: "ClientQuotasOp \<Rightarrow> unit enc" where
  "ClientQuotasOp_encode x =
     then_p (err_as ErrEncodeError (putString (qop_key x)))
    (then_p (putFloat64 (qop_value x))
       (putBool (qop_remove x)))"

definition ClientQuotasOp_decode :: "ClientQuotasOp dec" where
  "ClientQuotasOp_decode =
     bind_p (err_as ErrEncodeError getString) (\<lambda>key.
     bind_p (err_as ErrEncodeError getFloat64) (\<lambda>val.
     bind_p (err_as ErrEncodeError getBool) (\<lambda>remove.
       ret \<lparr>qop_key = key, qop_value = val, qop_remove = remove\<rparr>)))"

definition wClientQuotasOp :: "bool \<Rightarrow> ClientQuotasOp \<Rightarrow> bytes" where
  "wClientQuotasOp fl x =
     wString fl (qop_key x) @ be64 (qop_value x) @ wBool (qop_remove x)"

definition ClientQuotasOp_ok :: "bool \<Rightarrow> ClientQuotasOp \<Rightarrow> bool" where
  "ClientQuotasOp_ok fl x \<longleftrightarrow>
     string_ok fl (qop_key x)"

lemma emits_ClientQuotasOp [emits_rules]:
  "ClientQuotasOp_ok fl x \<Longrightarrow> emits fl (ClientQuotasOp_encode x) (wClientQuotasOp fl x)"
  unfolding ClientQuotasOp_encode_def wClientQuotasOp_def ClientQuotasOp_ok_def by (intro emits_rules; auto)

lemma reads_ClientQuotasOp [reads_rules]:
  assumes "ClientQuotasOp_ok fl x"
  shows "reads fl (ClientQuotasOp_decode) (wClientQuotasOp fl x) x"
  unfolding ClientQuotasOp_decode_def wClientQuotasOp_def
  by (rule reads_conv, (rule reads_rules | (use assms in \<open>auto simp: ClientQuotasOp_ok_def;
      fail\<close>))+)

record AlterClientQuotasEntry =
  qae_entity :: "QuotaEntityComponent list"
  qae_ops :: "ClientQuotasOp list"

definition AlterClientQuotasEntry_encode :: "AlterClientQuotasEntry \<Rightarrow> unit enc" where
  "AlterClientQuotasEntry_encode x =
     then_p (then_p (err_as ErrEncodeError (putArrayLength (size32 (length (qae_entity x)))))
            (for_each (\<lambda>e. (err_as ErrEncodeError (QuotaEntityComponent_encode e))) (qae_entity x)))
       (then_p (err_as ErrEncodeError (putArrayLength (size32 (length (qae_ops x)))))
            (for_each (\<lambda>e. (err_as ErrEncodeError (ClientQuotasOp_encode e))) (qae_ops x)))"

definition AlterClientQuotasEntry_decode :: "AlterClientQuotasEntry dec" where
  "AlterClientQuotasEntry_decode =
     bind_p (bind_p (err_as ErrEncodeError getArrayLength) (\<lambda>n. read_n n (err_as ErrEncodeError
         QuotaEntityComponent_decode))) (\<lambda>entity.
     bind_p (bind_p (err_as ErrEncodeError getArrayLength) (\<lambda>n. read_n n (err_as ErrEncodeError
         ClientQuotasOp_decode))) (\<lambda>ops.
       ret \<lparr>qae_entity = entity, qae_ops = ops\<rparr>))"

definition wAlterClientQuotasEntry :: "bool \<Rightarrow> AlterClientQuotasEntry \<Rightarrow> bytes" where
  "wAlterClientQuotasEntry fl x =
     wArray fl (wQuotaEntityComponent fl) (qae_entity x) @ wArray fl (wClientQuotasOp fl) (qae_ops x)"

definition AlterClientQuotasEntry_ok :: "bool \<Rightarrow> AlterClientQuotasEntry \<Rightarrow> bool" where
  "AlterClientQuotasEntry_ok fl x \<longleftrightarrow>
     len_ok fl (length (qae_entity x)) \<and>
     (\<forall>e \<in> set (qae_entity x). QuotaEntityComponent_ok fl e) \<and>
     len_ok fl (length (qae_ops x)) \<and> (\<forall>e \<in> set (qae_ops x). ClientQuotasOp_ok fl e)"

definition AlterClientQuotasEntry_seen :: "AlterClientQuotasEntry \<Rightarrow> AlterClientQuotasEntry" where
  "AlterClientQuotasEntry_seen x =
     x\<lparr>qae_entity := map (QuotaEntityComponent_seen) (qae_entity x)\<rparr>"

lemma emits_AlterClientQuotasEntry [emits_rules]:
  "AlterClientQuotasEntry_ok fl x \<Longrightarrow> emits fl (AlterClientQuotasEntry_encode x)
      (wAlterClientQuotasEntry fl x)"
  unfolding AlterClientQuotasEntry_encode_def wAlterClientQuotasEntry_def AlterClientQuotasEntry_ok_def by
      (intro emits_rules; auto)

lemma reads_AlterClientQuotasEntry [reads_rules]:
  assumes "AlterClientQuotasEntry_ok fl x"
  shows "reads fl (AlterClientQuotasEntry_decode) (wAlterClientQuotasEntry fl x) (AlterClientQuotasEntry_seen
      x)"
  unfolding AlterClientQuotasEntry_decode_def wAlterClientQuotasEntry_def
  by (rule reads_conv, (rule reads_rules | (use assms in \<open>auto simp: AlterClientQuotasEntry_ok_def
      AlterClientQuotasEntry_seen_def; fail\<close>))+)

record AlterClientQuotasRequest =
  qaq_version :: int16
  qaq_entries :: "AlterClientQuotasEntry list"
  qaq_validate_only :: bool

definition AlterClientQuotasRequest_set_version :: "int16 \<Rightarrow> AlterClientQuotasRequest \<Rightarrow>
    AlterClientQuotasRequest" where
  "AlterClientQuotasRequest_set_version v m = m\<lparr>qaq_version := v\<rparr>"

definition AlterClientQuotasRequest_encode :: "AlterClientQuotasRequest \<Rightarrow> unit enc" where
  "AlterClientQuotasRequest_encode m =
     then_p (then_p (err_as ErrEncodeError (putArrayLength (size32 (length (qaq_entries m)))))
            (for_each (\<lambda>e. (err_as ErrEncodeError (AlterClientQuotasEntry_encode e))) (qaq_entries m)))
       (putBool (qaq_validate_only m))"

definition AlterClientQuotasRequest_decode :: "AlterClientQuotasRequest \<Rightarrow> int16 \<Rightarrow>
    AlterClientQuotasRequest dec" where
  "AlterClientQuotasRequest_decode this version =
     bind_p (bind_p (err_as ErrDecodeError getArrayLength) (\<lambda>n. read_n n (err_as ErrDecodeError
         AlterClientQuotasEntry_decode))) (\<lambda>entries.
     bind_p (err_as ErrDecodeError getBool) (\<lambda>b.
       ret (this\<lparr>qaq_entries := entries, qaq_validate_only := b\<rparr>)))"

definition AlterClientQuotasRequest_required_version :: "int16 \<Rightarrow> KafkaVersion" where
  "AlterClientQuotasRequest_required_version v =
     (V2_6_0_0)"

definition AlterClientQuotasRequest_body :: "AlterClientQuotasRequest \<Rightarrow> protocol_body" where
  "AlterClientQuotasRequest_body m =
     \<lparr>pb_key = 49, pb_version = qaq_version m,
      pb_header_version = 1,
      pb_is_valid_version = (sint (qaq_version m) \<ge> 0 \<and> sint (qaq_version m) \<le> 0),
      pb_is_flexible = False,
      pb_is_flexible_version = (\<lambda>_. False),
      pb_required_version = AlterClientQuotasRequest_required_version (qaq_version m),
      pb_encode = AlterClientQuotasRequest_encode m\<rparr>"

definition wAlterClientQuotasRequest :: "AlterClientQuotasRequest \<Rightarrow> bytes" where
  "wAlterClientQuotasRequest m =
     (let fl = False in
     wArray fl (wAlterClientQuotasEntry fl) (qaq_entries m) @ wBool (qaq_validate_only m))"

definition AlterClientQuotasRequest_ok :: "AlterClientQuotasRequest \<Rightarrow> bool" where
  "AlterClientQuotasRequest_ok m \<longleftrightarrow>
     (let fl = False in
     len_ok fl (length (qaq_entries m)) \<and>
     (\<forall>e \<in> set (qaq_entries m). AlterClientQuotasEntry_ok fl e))"

definition AlterClientQuotasRequest_seen :: "AlterClientQuotasRequest \<Rightarrow> AlterClientQuotasRequest
    \<Rightarrow> AlterClientQuotasRequest" where
  "AlterClientQuotasRequest_seen this m =
     m\<lparr>qaq_version := qaq_version this, qaq_entries := map (AlterClientQuotasEntry_seen) (qaq_entries
       m)\<rparr>"

interpretation qaq: protocol_message AlterClientQuotasRequest_body AlterClientQuotasRequest_decode
    wAlterClientQuotasRequest
  AlterClientQuotasRequest_ok AlterClientQuotasRequest_seen
proof
  fix m this :: AlterClientQuotasRequest
  assume ok: "AlterClientQuotasRequest_ok m"
  show "emits (pb_is_flexible (AlterClientQuotasRequest_body m)) (pb_encode (AlterClientQuotasRequest_body m))
      (wAlterClientQuotasRequest m)"
    unfolding AlterClientQuotasRequest_body_def AlterClientQuotasRequest_encode_def
        wAlterClientQuotasRequest_def Let_def protocol_body.simps
    by (intro emits_rules; use ok in \<open>auto simp: AlterClientQuotasRequest_ok_def Let_def \<close>)
  show "reads (pb_is_flexible (AlterClientQuotasRequest_body m)) (AlterClientQuotasRequest_decode this
      (pb_version (AlterClientQuotasRequest_body m)))
      (wAlterClientQuotasRequest m) (AlterClientQuotasRequest_seen this m)"
    unfolding AlterClientQuotasRequest_body_def AlterClientQuotasRequest_decode_def
        wAlterClientQuotasRequest_def Let_def protocol_body.simps
    by (rule reads_conv, (rule reads_rules | (use ok in \<open>auto simp: AlterClientQuotasRequest_ok_def
        Let_def 
      AlterClientQuotasRequest_seen_def; fail\<close>))+)
qed (simp_all add: AlterClientQuotasRequest_body_def wAlterClientQuotasRequest_def Let_def)

text \<open>The entry of a response is a message class too, with key and version 0, and is used as an element
    only.\<close>

record AlterClientQuotasEntryResponse =
  qer_code :: int16
  qer_message :: bytes
  qer_entity :: "QuotaEntityComponent list"

definition AlterClientQuotasEntryResponse_encode :: "AlterClientQuotasEntryResponse \<Rightarrow> unit enc"
    where
  "AlterClientQuotasEntryResponse_encode x =
     then_p (putKError (qer_code x))
    (then_p (putNullableString (qer_message x))
       (then_p (putArrayLength (size32 (length (qer_entity x))))
            (for_each QuotaEntityComponent_encode (qer_entity x))))"

definition AlterClientQuotasEntryResponse_decode :: "AlterClientQuotasEntryResponse dec" where
  "AlterClientQuotasEntryResponse_decode =
     bind_p getKError (\<lambda>code.
     bind_p getNullableString (\<lambda>message.
     bind_p (bind_p getArrayLength (\<lambda>n. read_n n QuotaEntityComponent_decode)) (\<lambda>entity.
       ret \<lparr>qer_code = code, qer_message = message, qer_entity = entity\<rparr>)))"

definition wAlterClientQuotasEntryResponse :: "bool \<Rightarrow> AlterClientQuotasEntryResponse \<Rightarrow>
    bytes" where
  "wAlterClientQuotasEntryResponse fl x =
     be16 (qer_code x) @ wNullableString fl (qer_message x) @
     wArray fl (wQuotaEntityComponent fl) (qer_entity x)"

definition AlterClientQuotasEntryResponse_ok :: "bool \<Rightarrow> AlterClientQuotasEntryResponse
    \<Rightarrow> bool" where
  "AlterClientQuotasEntryResponse_ok fl x \<longleftrightarrow>
     string_ok fl (qer_message x) \<and> len_ok fl (length (qer_entity x)) \<and>
     (\<forall>e \<in> set (qer_entity x). QuotaEntityComponent_ok fl e)"

definition AlterClientQuotasEntryResponse_seen :: "AlterClientQuotasEntryResponse \<Rightarrow>
    AlterClientQuotasEntryResponse" where
  "AlterClientQuotasEntryResponse_seen x =
     x\<lparr>qer_entity := map (QuotaEntityComponent_seen) (qer_entity x)\<rparr>"

lemma emits_AlterClientQuotasEntryResponse [emits_rules]:
  "AlterClientQuotasEntryResponse_ok fl x \<Longrightarrow> emits fl (AlterClientQuotasEntryResponse_encode x)
      (wAlterClientQuotasEntryResponse fl x)"
  unfolding AlterClientQuotasEntryResponse_encode_def wAlterClientQuotasEntryResponse_def
      AlterClientQuotasEntryResponse_ok_def by (intro emits_rules; auto)

lemma reads_AlterClientQuotasEntryResponse [reads_rules]:
  assumes "AlterClientQuotasEntryResponse_ok fl x"
  shows "reads fl (AlterClientQuotasEntryResponse_decode) (wAlterClientQuotasEntryResponse fl x)
      (AlterClientQuotasEntryResponse_seen x)"
  unfolding AlterClientQuotasEntryResponse_decode_def wAlterClientQuotasEntryResponse_def
  by (rule reads_conv, (rule reads_rules | (use assms in \<open>auto simp:
      AlterClientQuotasEntryResponse_ok_def AlterClientQuotasEntryResponse_seen_def; fail\<close>))+)

record AlterClientQuotasResponse =
  qaz_version :: int16
  qaz_throttle_time :: int64
  qaz_entries :: "AlterClientQuotasEntryResponse list"

definition AlterClientQuotasResponse_set_version :: "int16 \<Rightarrow> AlterClientQuotasResponse
    \<Rightarrow> AlterClientQuotasResponse" where
  "AlterClientQuotasResponse_set_version v m = m\<lparr>qaz_version := v\<rparr>"

definition AlterClientQuotasResponse_encode :: "AlterClientQuotasResponse \<Rightarrow> unit enc" where
  "AlterClientQuotasResponse_encode m =
     then_p (putDurationMs (qaz_throttle_time m))
       (then_p (putArrayLength (size32 (length (qaz_entries m))))
            (for_each AlterClientQuotasEntryResponse_encode (qaz_entries m)))"

definition AlterClientQuotasResponse_decode :: "AlterClientQuotasResponse \<Rightarrow> int16 \<Rightarrow>
    AlterClientQuotasResponse dec" where
  "AlterClientQuotasResponse_decode this version =
     bind_p getDurationMs (\<lambda>throttle_time.
     bind_p (bind_p getArrayLength (\<lambda>n. read_n n AlterClientQuotasEntryResponse_decode))
         (\<lambda>entries.
       ret (this\<lparr>qaz_throttle_time := throttle_time, qaz_entries := entries\<rparr>)))"

definition AlterClientQuotasResponse_required_version :: "int16 \<Rightarrow> KafkaVersion" where
  "AlterClientQuotasResponse_required_version v =
     (V2_6_0_0)"

definition AlterClientQuotasResponse_body :: "AlterClientQuotasResponse \<Rightarrow> protocol_body" where
  "AlterClientQuotasResponse_body m =
     \<lparr>pb_key = 49, pb_version = qaz_version m,
      pb_header_version = 0,
      pb_is_valid_version = (sint (qaz_version m) \<ge> 0 \<and> sint (qaz_version m) \<le> 0),
      pb_is_flexible = False,
      pb_is_flexible_version = (\<lambda>_. False),
      pb_required_version = AlterClientQuotasResponse_required_version (qaz_version m),
      pb_encode = AlterClientQuotasResponse_encode m\<rparr>"

definition wAlterClientQuotasResponse :: "AlterClientQuotasResponse \<Rightarrow> bytes" where
  "wAlterClientQuotasResponse m =
     (let fl = False in
     wDurationMs (qaz_throttle_time m) @ wArray fl (wAlterClientQuotasEntryResponse fl) (qaz_entries m))"

definition AlterClientQuotasResponse_ok :: "AlterClientQuotasResponse \<Rightarrow> bool" where
  "AlterClientQuotasResponse_ok m \<longleftrightarrow>
     (let fl = False in
     duration_ok (qaz_throttle_time m) \<and> len_ok fl (length (qaz_entries m)) \<and>
     (\<forall>e \<in> set (qaz_entries m). AlterClientQuotasEntryResponse_ok fl e))"

definition AlterClientQuotasResponse_seen :: "AlterClientQuotasResponse \<Rightarrow> AlterClientQuotasResponse
    \<Rightarrow> AlterClientQuotasResponse" where
  "AlterClientQuotasResponse_seen this m =
     m\<lparr>qaz_version := qaz_version this, qaz_entries := map (AlterClientQuotasEntryResponse_seen)
       (qaz_entries m)\<rparr>"

interpretation qaz: protocol_message AlterClientQuotasResponse_body AlterClientQuotasResponse_decode
    wAlterClientQuotasResponse
  AlterClientQuotasResponse_ok AlterClientQuotasResponse_seen
proof
  fix m this :: AlterClientQuotasResponse
  assume ok: "AlterClientQuotasResponse_ok m"
  show "emits (pb_is_flexible (AlterClientQuotasResponse_body m)) (pb_encode (AlterClientQuotasResponse_body
      m)) (wAlterClientQuotasResponse m)"
    unfolding AlterClientQuotasResponse_body_def AlterClientQuotasResponse_encode_def
        wAlterClientQuotasResponse_def Let_def protocol_body.simps
    by (intro emits_rules; use ok in \<open>auto simp: AlterClientQuotasResponse_ok_def Let_def \<close>)
  show "reads (pb_is_flexible (AlterClientQuotasResponse_body m)) (AlterClientQuotasResponse_decode this
      (pb_version (AlterClientQuotasResponse_body m)))
      (wAlterClientQuotasResponse m) (AlterClientQuotasResponse_seen this m)"
    unfolding AlterClientQuotasResponse_body_def AlterClientQuotasResponse_decode_def
        wAlterClientQuotasResponse_def Let_def protocol_body.simps
    by (rule reads_conv, (rule reads_rules | (use ok in \<open>auto simp: AlterClientQuotasResponse_ok_def
        Let_def 
      AlterClientQuotasResponse_seen_def; fail\<close>))+)
qed (simp_all add: AlterClientQuotasResponse_body_def wAlterClientQuotasResponse_def Let_def)

definition AlterClientQuotasResponse_throttle_time :: "AlterClientQuotasResponse \<Rightarrow> int64" where
  "AlterClientQuotasResponse_throttle_time m = qaz_throttle_time m"

end
