(* ===== verification/Scram_Messages.thy ===== *)
theory Scram_Messages
  imports Quota_Messages
begin

text \<open>
  SCRAM credentials: \<^verbatim>\<open>scram_formatter.cpp\<close> and the request and response classes
  DescribeUserScramCredentials and AlterUserScramCredentials.

  \<^item> \<open>hmac\<close> is \<^verbatim>\<open>HMAC\<close> of OpenSSL with the digest of the mechanism;
      it is a parameter.  What the
    lemmas need of it, the length of its result, is a hypothesis.

  \<^item> \<open>SaltedPassword\<close> is compared with the definition of the salted password in RFC 5802,
      the exclusive or of the
    iterated authentication codes.

  \<^item> \<open>AlterUserScramCredentialsRequest::encode\<close> takes the return code of
      \<open>SaltedPassword\<close>, which is 0, for a failure:
    no request with an upsertion is ever encoded (\<open>scram_upsertions_never_encoded\<close>).
\<close>

section \<open>ScramFormatter\<close>

definition SCRAM_MECHANISM_SHA_256 :: int8 where "SCRAM_MECHANISM_SHA_256 = 1"

definition SCRAM_MECHANISM_SHA_512 :: int8 where "SCRAM_MECHANISM_SHA_512 = 2"

definition ErrUnknownScramMechanism :: int where "ErrUnknownScramMechanism = 1017"

type_synonym hmac = "int8 \<Rightarrow> bytes \<Rightarrow> bytes \<Rightarrow> bytes"

text \<open>\<^verbatim>\<open>getDigest\<close> throws for any other mechanism.\<close>

definition getDigest :: "int8 \<Rightarrow> int8 option" where
  "getDigest mech = (if mech = SCRAM_MECHANISM_SHA_256 \<or> mech = SCRAM_MECHANISM_SHA_512 then Some mech else
      None)"

text \<open>The return code, and the output as it is left.\<close>

definition Hmac :: "hmac \<Rightarrow> int8 \<Rightarrow> bytes \<Rightarrow> bytes \<Rightarrow> bytes
    \<Rightarrow> int \<times> bytes" where
  "Hmac hmac mech key data output =
     (case getDigest mech of Some md \<Rightarrow> (ErrNoError, hmac md key data) | None \<Rightarrow>
         (ErrUnknownScramMechanism, output))"

definition ComputeMac :: "hmac \<Rightarrow> int8 \<Rightarrow> bytes \<Rightarrow> bytes \<Rightarrow> bytes"
    where
  "ComputeMac hmac mech key data = snd (Hmac hmac mech key data [])"

text \<open>
  A byte behind the end of the second string is taken as 0, which is what
      \<^verbatim>\<open>std::string\<close> has there in the first
  place; no call goes further.
\<close>

definition XorInPlace :: "bytes \<Rightarrow> bytes \<Rightarrow> bytes" where
  "XorInPlace result second =
     map (\<lambda>i. xor (result ! i) (if i < length second then second ! i else 0)) [0..<length result]"

text \<open>The loop over the iterations 2, 3, \dots\<close>

primrec saltedLoop :: "hmac \<Rightarrow> int8 \<Rightarrow> bytes \<Rightarrow> nat \<Rightarrow> bytes
    \<Rightarrow> bytes \<Rightarrow> bytes" where
  "saltedLoop hmac mech password 0 prev output = output"
| "saltedLoop hmac mech password (Suc n) prev output =
     (let ui = ComputeMac hmac mech password prev
      in saltedLoop hmac mech password n ui (XorInPlace output ui))"

text \<open>\<open>None\<close> stands for \<^verbatim>\<open>std::invalid_argument\<close>.\<close>

definition SaltedPassword :: "hmac \<Rightarrow> int8 \<Rightarrow> bytes \<Rightarrow> bytes \<Rightarrow> int
    \<Rightarrow> (int \<times> bytes) option" where
  "SaltedPassword hmac mech password salt iterations =
     (if iterations < 1 then None
      else let u1 = ComputeMac hmac mech password (salt @ [0, 0, 0, 1])
           in Some (ErrNoError, saltedLoop hmac mech password (nat (iterations - 1)) u1 u1))"

text \<open>The codes of RFC 5802, and the salted password byte by byte.\<close>

primrec scramU :: "hmac \<Rightarrow> int8 \<Rightarrow> bytes \<Rightarrow> bytes \<Rightarrow> nat
    \<Rightarrow> bytes" where
  "scramU hmac mech password salt 0 = hmac mech password (salt @ [0, 0, 0, 1])"
| "scramU hmac mech password salt (Suc n) = hmac mech password (scramU hmac mech password salt n)"

definition known_mechanism :: "int8 \<Rightarrow> bool" where
  "known_mechanism mech \<longleftrightarrow> mech = SCRAM_MECHANISM_SHA_256 \<or> mech =
      SCRAM_MECHANISM_SHA_512"

lemma ComputeMac_known: "known_mechanism mech \<Longrightarrow> ComputeMac hmac mech key data = hmac mech key
    data"
  by (auto simp: ComputeMac_def Hmac_def getDigest_def known_mechanism_def)

lemma length_XorInPlace [simp]: "length (XorInPlace r s) = length r"
  by (simp add: XorInPlace_def)

lemma nth_XorInPlace: "i < length r \<Longrightarrow> length s = length r \<Longrightarrow> XorInPlace r s ! i
    = xor (r ! i) (s ! i)"
  by (simp add: XorInPlace_def)

lemma saltedLoop_bytes:
  assumes known: "known_mechanism mech" and len: "\<And>key data. length (hmac mech key data) = L"
  shows "length acc = L \<Longrightarrow> length (saltedLoop hmac mech password n (scramU hmac mech password
      salt k) acc) = L \<and>
    (\<forall>i < L. saltedLoop hmac mech password n (scramU hmac mech password salt k) acc ! i =
      fold (\<lambda>j b. xor b (scramU hmac mech password salt j ! i)) [Suc k..<Suc k + n] (acc ! i))"
proof (induction n arbitrary: k acc)
  case (Suc n)
  let ?u = "scramU hmac mech password salt (Suc k)"
  have u: "ComputeMac hmac mech password (scramU hmac mech password salt k) = ?u" "length ?u = L"
    using ComputeMac_known [OF known, of hmac] len by simp_all
  have step: "saltedLoop hmac mech password (Suc n) (scramU hmac mech password salt k) acc =
      saltedLoop hmac mech password n ?u (XorInPlace acc ?u)"
    by (simp only: saltedLoop.simps Let_def u(1))
  have range: "[Suc k..<Suc k + Suc n] = Suc k # [Suc (Suc k)..<Suc (Suc k) + n]" by (simp add: upt_rec)
  show ?case unfolding step range
    using Suc.IH [of "XorInPlace acc ?u" "Suc k"] Suc.prems u(2) by (simp add: nth_XorInPlace del: scramU.simps)
qed simp

theorem SaltedPassword_bytes:
  assumes "known_mechanism mech" "\<And>key data. length (hmac mech key data) = L" "1 \<le> iterations"
  shows "\<exists>salted. SaltedPassword hmac mech password salt iterations = Some (ErrNoError, salted) \<and>
      length salted = L \<and>
    (\<forall>i < L. salted ! i = fold (\<lambda>j b. xor b (scramU hmac mech password salt j ! i)) [1..<nat
        iterations]
       (scramU hmac mech password salt 0 ! i))"
proof -
  have u0: "ComputeMac hmac mech password (salt @ [0, 0, 0, 1]) = scramU hmac mech password salt 0"
    using ComputeMac_known [OF assms(1)] by simp
  have "Suc 0 + nat (iterations - 1) = nat iterations" using assms(3) by simp
  then have n: "[1..<nat iterations] = [Suc 0..<Suc 0 + nat (iterations - 1)]" by (simp only: One_nat_def)
  have "length (scramU hmac mech password salt 0) = L" using assms(2) by simp
  from saltedLoop_bytes [where hmac = hmac and k = 0 and acc = "scramU hmac mech password salt 0", OF
      assms(1,2) this]
  show ?thesis unfolding SaltedPassword_def Let_def u0 n using assms(3) by (simp del: upt_Suc scramU.simps)
qed

text \<open>An unknown mechanism is not reported: the salted password is empty.\<close>

lemma SaltedPassword_unknown:
  assumes "\<not> known_mechanism mech" "1 \<le> iterations"
  shows "SaltedPassword hmac mech password salt iterations = Some (ErrNoError, [])"
proof -
  have mac: "ComputeMac hmac mech key data = []" for key data
    using assms(1) by (simp add: ComputeMac_def Hmac_def getDigest_def known_mechanism_def)
  have "saltedLoop hmac mech password n prev [] = []" for n prev
    by (induction n arbitrary: prev) (simp_all add: XorInPlace_def)
  then show ?thesis using assms(2) by (simp add: SaltedPassword_def Let_def mac)
qed

section \<open>AlterUserScramCredentials\<close>

record AlterUserScramCredentialsDelete =
  usd_name :: bytes
  usd_mechanism :: int8

definition AlterUserScramCredentialsDelete_encode :: "AlterUserScramCredentialsDelete \<Rightarrow> unit enc"
    where
  "AlterUserScramCredentialsDelete_encode x =
     then_p (err_as ErrEncodeError (putString (usd_name x)))
    (then_p (putInt8 (usd_mechanism x))
       putEmptyTaggedFieldArray)"

definition AlterUserScramCredentialsDelete_decode :: "AlterUserScramCredentialsDelete dec" where
  "AlterUserScramCredentialsDelete_decode =
     bind_p (err_as ErrDecodeError getString) (\<lambda>nm.
     bind_p (err_as ErrDecodeError getInt8) (\<lambda>mechanism.
     bind_p (err_as ErrDecodeError getEmptyTaggedFieldArray) (\<lambda>_.
       ret \<lparr>usd_name = nm, usd_mechanism = mechanism\<rparr>)))"

definition wAlterUserScramCredentialsDelete :: "bool \<Rightarrow> AlterUserScramCredentialsDelete
    \<Rightarrow> bytes" where
  "wAlterUserScramCredentialsDelete fl x =
     wString fl (usd_name x) @ be8 (usd_mechanism x) @ wTags fl"

definition AlterUserScramCredentialsDelete_ok :: "bool \<Rightarrow> AlterUserScramCredentialsDelete
    \<Rightarrow> bool" where
  "AlterUserScramCredentialsDelete_ok fl x \<longleftrightarrow>
     string_ok fl (usd_name x)"

lemma emits_AlterUserScramCredentialsDelete [emits_rules]:
  "AlterUserScramCredentialsDelete_ok fl x \<Longrightarrow> emits fl (AlterUserScramCredentialsDelete_encode
      x) (wAlterUserScramCredentialsDelete fl x)"
  unfolding AlterUserScramCredentialsDelete_encode_def wAlterUserScramCredentialsDelete_def
      AlterUserScramCredentialsDelete_ok_def by (intro emits_rules; auto)

lemma reads_AlterUserScramCredentialsDelete [reads_rules]:
  assumes "AlterUserScramCredentialsDelete_ok fl x"
  shows "reads fl (AlterUserScramCredentialsDelete_decode) (wAlterUserScramCredentialsDelete fl x) x"
  unfolding AlterUserScramCredentialsDelete_decode_def wAlterUserScramCredentialsDelete_def
  by (rule reads_conv, (rule reads_rules | (use assms in \<open>auto simp:
      AlterUserScramCredentialsDelete_ok_def; fail\<close>))+)

text \<open>The password is not read; it stays what it was in the object.\<close>

record AlterUserScramCredentialsUpsert =
  usu_name :: bytes
  usu_mechanism :: int8
  usu_iterations :: int32
  usu_salt :: bytes
  usu_salted_password :: bytes
  usu_password :: bytes

definition AlterUserScramCredentialsUpsert_default :: AlterUserScramCredentialsUpsert where
  "AlterUserScramCredentialsUpsert_default = \<lparr>usu_name = [], usu_mechanism = 0, usu_iterations = 0,
      usu_salt = [],
     usu_salted_password = [], usu_password = []\<rparr>"

text \<open>\<open>if (!formatter.SaltedPassword(...)) return ErrEncodeError;\<close>\<close>

definition AlterUserScramCredentialsUpsert_encode :: "hmac \<Rightarrow> AlterUserScramCredentialsUpsert
    \<Rightarrow> unit enc" where
  "AlterUserScramCredentialsUpsert_encode hmac u =
     then_p (err_as ErrEncodeError (putString (usu_name u)))
    (then_p (putInt8 (usu_mechanism u))
    (then_p (putInt32 (usu_iterations u))
    (then_p (err_as ErrEncodeError (putBytes (usu_salt u)))
       (case SaltedPassword hmac (usu_mechanism u) (usu_password u) (usu_salt u) (sint (usu_iterations u)) of
          None \<Rightarrow> (\<lambda>_. Abort)
        | Some (code, salted) \<Rightarrow>
            if code = 0 then raise ErrEncodeError
            else then_p (err_as ErrEncodeError (putBytes salted)) putEmptyTaggedFieldArray))))"

definition AlterUserScramCredentialsUpsert_decode :: "AlterUserScramCredentialsUpsert \<Rightarrow>
    AlterUserScramCredentialsUpsert dec" where
  "AlterUserScramCredentialsUpsert_decode this =
     bind_p (err_as ErrDecodeError getString) (\<lambda>nm.
     bind_p (err_as ErrDecodeError getInt8) (\<lambda>mechanism.
     bind_p (err_as ErrDecodeError getInt32) (\<lambda>iterations.
     bind_p (err_as ErrDecodeError getBytes) (\<lambda>salt.
     bind_p (err_as ErrDecodeError getBytes) (\<lambda>salted_password.
     bind_p (err_as ErrDecodeError getEmptyTaggedFieldArray) (\<lambda>_.
       ret \<lparr>usu_name = nm, usu_mechanism = mechanism, usu_iterations = iterations, usu_salt = salt,
         usu_salted_password = salted_password, usu_password = usu_password this\<rparr>))))))"

definition wAlterUserScramCredentialsUpsert :: "bool \<Rightarrow> AlterUserScramCredentialsUpsert
    \<Rightarrow> bytes" where
  "wAlterUserScramCredentialsUpsert fl x =
     wString fl (usu_name x) @ be8 (usu_mechanism x) @ be32 (usu_iterations x) @ wBytes fl (usu_salt x) @
     wBytes fl (usu_salted_password x) @ wTags fl"

definition AlterUserScramCredentialsUpsert_ok :: "bool \<Rightarrow> AlterUserScramCredentialsUpsert
    \<Rightarrow> bool" where
  "AlterUserScramCredentialsUpsert_ok fl x \<longleftrightarrow>
     string_ok fl (usu_name x) \<and> bytes_ok (usu_salt x) \<and> bytes_ok (usu_salted_password x)"

definition AlterUserScramCredentialsUpsert_seen :: "AlterUserScramCredentialsUpsert \<Rightarrow>
    AlterUserScramCredentialsUpsert \<Rightarrow>
    AlterUserScramCredentialsUpsert" where
  "AlterUserScramCredentialsUpsert_seen this x = x\<lparr>usu_password := usu_password this\<rparr>"

lemma reads_AlterUserScramCredentialsUpsert [reads_rules]:
  assumes "AlterUserScramCredentialsUpsert_ok fl x"
  shows "reads fl (AlterUserScramCredentialsUpsert_decode this) (wAlterUserScramCredentialsUpsert fl x)
    (AlterUserScramCredentialsUpsert_seen this x)"
  unfolding AlterUserScramCredentialsUpsert_decode_def wAlterUserScramCredentialsUpsert_def
  by (rule reads_conv, (rule reads_rules | (use assms in \<open>auto simp:
      AlterUserScramCredentialsUpsert_ok_def
    AlterUserScramCredentialsUpsert_seen_def; fail\<close>))+)

text \<open>Programs that do not come to an end without an error.\<close>

definition never_ok :: "('s, 'a) prog \<Rightarrow> bool" where
  "never_ok p \<longleftrightarrow> (\<forall>s x s'. p s \<noteq> Ok x s')"

lemma never_ok_then: "never_ok q \<Longrightarrow> never_ok (then_p p q)" "never_ok p \<Longrightarrow>
    never_ok (then_p p q)"
  by (auto simp: never_ok_def then_p_def bind_p_def split: outcome.split)

lemma never_ok_err_as: "never_ok p \<Longrightarrow> never_ok (err_as e p)"
  by (auto simp: never_ok_def err_as_def split: outcome.split)

lemma never_ok_for_each: "x \<in> set xs \<Longrightarrow> never_ok (f x) \<Longrightarrow> never_ok (for_each
    f xs)"
  by (induction xs) (auto intro: never_ok_then)

lemma upsertion_never_encoded: "never_ok (AlterUserScramCredentialsUpsert_encode hmac u)"
  unfolding AlterUserScramCredentialsUpsert_encode_def
  by (intro never_ok_then(1)) (auto simp: never_ok_def SaltedPassword_def Let_def ErrNoError_def raise_def)

record AlterUserScramCredentialsRequest =
  usq_version :: int16
  usq_deletions :: "AlterUserScramCredentialsDelete list"
  usq_upsertions :: "AlterUserScramCredentialsUpsert list"

definition AlterUserScramCredentialsRequest_set_version :: "int16 \<Rightarrow>
    AlterUserScramCredentialsRequest \<Rightarrow> AlterUserScramCredentialsRequest" where
  "AlterUserScramCredentialsRequest_set_version v m = m\<lparr>usq_version := v\<rparr>"

definition AlterUserScramCredentialsRequest_encode :: "hmac \<Rightarrow> AlterUserScramCredentialsRequest
    \<Rightarrow> unit enc" where
  "AlterUserScramCredentialsRequest_encode hmac m =
     then_p (then_p (err_as ErrEncodeError (putArrayLength (size32 (length (usq_deletions m)))))
            (for_each (\<lambda>e. (err_as ErrEncodeError (AlterUserScramCredentialsDelete_encode e)))
                (usq_deletions m)))
    (then_p (then_p (err_as ErrEncodeError (putArrayLength (size32 (length (usq_upsertions m)))))
            (for_each (AlterUserScramCredentialsUpsert_encode hmac) (usq_upsertions m)))
       putEmptyTaggedFieldArray)"

definition AlterUserScramCredentialsRequest_decode :: "AlterUserScramCredentialsRequest \<Rightarrow> int16
    \<Rightarrow> AlterUserScramCredentialsRequest dec" where
  "AlterUserScramCredentialsRequest_decode this version =
     bind_p (bind_p (err_as ErrDecodeError getArrayLength) (\<lambda>n. resize_read n (err_as ErrDecodeError
         AlterUserScramCredentialsDelete_decode))) (\<lambda>deletions.
     bind_p (bind_p (err_as ErrDecodeError getArrayLength) (\<lambda>n. resize_into n
         AlterUserScramCredentialsUpsert_default (usq_upsertions this) AlterUserScramCredentialsUpsert_decode))
         (\<lambda>upsertions.
     bind_p getEmptyTaggedFieldArray (\<lambda>_.
       ret (this\<lparr>usq_deletions := deletions, usq_upsertions := upsertions\<rparr>))))"

definition AlterUserScramCredentialsRequest_is_flexible_version :: "int16 \<Rightarrow> bool" where
  "AlterUserScramCredentialsRequest_is_flexible_version ver \<longleftrightarrow> sint ver \<ge> 0"

definition AlterUserScramCredentialsRequest_required_version :: "int16 \<Rightarrow> KafkaVersion" where
  "AlterUserScramCredentialsRequest_required_version v =
     (V2_7_0_0)"

definition AlterUserScramCredentialsRequest_body :: "hmac \<Rightarrow> AlterUserScramCredentialsRequest
    \<Rightarrow> protocol_body" where
  "AlterUserScramCredentialsRequest_body hmac m =
     \<lparr>pb_key = 51, pb_version = usq_version m,
      pb_header_version = 2,
      pb_is_valid_version = (sint (usq_version m) \<ge> 0 \<and> sint (usq_version m) \<le> 1),
      pb_is_flexible = AlterUserScramCredentialsRequest_is_flexible_version (usq_version m),
      pb_is_flexible_version = AlterUserScramCredentialsRequest_is_flexible_version,
      pb_required_version = AlterUserScramCredentialsRequest_required_version (usq_version m),
      pb_encode = AlterUserScramCredentialsRequest_encode hmac m\<rparr>"

definition wAlterUserScramCredentialsRequest :: "AlterUserScramCredentialsRequest \<Rightarrow> bytes" where
  "wAlterUserScramCredentialsRequest m =
     (let fl = AlterUserScramCredentialsRequest_is_flexible_version (usq_version m) in
     wArray fl (wAlterUserScramCredentialsDelete fl) (usq_deletions m) @
     wArray fl (wAlterUserScramCredentialsUpsert fl) (usq_upsertions m) @ wTags fl)"

definition AlterUserScramCredentialsRequest_ok :: "AlterUserScramCredentialsRequest \<Rightarrow> bool" where
  "AlterUserScramCredentialsRequest_ok m \<longleftrightarrow>
     (let fl = AlterUserScramCredentialsRequest_is_flexible_version (usq_version m) in
     len_ok fl (length (usq_deletions m)) \<and>
     (\<forall>e \<in> set (usq_deletions m). AlterUserScramCredentialsDelete_ok fl e) \<and>
     len_ok fl (length (usq_upsertions m)) \<and> (\<forall>u \<in> set (usq_upsertions m).
         AlterUserScramCredentialsUpsert_ok fl u))"

definition AlterUserScramCredentialsRequest_seen :: "AlterUserScramCredentialsRequest \<Rightarrow>
    AlterUserScramCredentialsRequest \<Rightarrow> AlterUserScramCredentialsRequest" where
  "AlterUserScramCredentialsRequest_seen this m =
     m\<lparr>usq_version := usq_version this, usq_upsertions := map2 AlterUserScramCredentialsUpsert_seen
       (resize_to (length (usq_upsertions m)) AlterUserScramCredentialsUpsert_default (usq_upsertions this))
       (usq_upsertions m)\<rparr>"


text \<open>What another client encoded is read back; the fields that are in the packet, that is.\<close>

lemma reads_AlterUserScramCredentialsRequest:
  assumes ok: "AlterUserScramCredentialsRequest_ok m"
  shows "reads (AlterUserScramCredentialsRequest_is_flexible_version (usq_version m))
    (AlterUserScramCredentialsRequest_decode this (usq_version m)) (wAlterUserScramCredentialsRequest m)
    (AlterUserScramCredentialsRequest_seen this m)"
  unfolding AlterUserScramCredentialsRequest_decode_def wAlterUserScramCredentialsRequest_def Let_def
  by (rule reads_conv, (rule reads_rules | (use ok in \<open>auto simp: AlterUserScramCredentialsRequest_ok_def
      Let_def
    AlterUserScramCredentialsRequest_seen_def; fail\<close>))+)

text \<open>Only requests without upsertions are encoded.\<close>

definition AlterUserScramCredentialsRequest_plain :: "AlterUserScramCredentialsRequest \<Rightarrow> bool" where
  "AlterUserScramCredentialsRequest_plain m \<longleftrightarrow> AlterUserScramCredentialsRequest_ok m \<and>
      usq_upsertions m = []"

interpretation usq: protocol_message "AlterUserScramCredentialsRequest_body hmac"
    AlterUserScramCredentialsRequest_decode
  wAlterUserScramCredentialsRequest AlterUserScramCredentialsRequest_plain AlterUserScramCredentialsRequest_seen
  for hmac :: hmac
proof
  fix m this :: AlterUserScramCredentialsRequest
  assume "AlterUserScramCredentialsRequest_plain m"
  then have ok: "AlterUserScramCredentialsRequest_ok m" and no: "usq_upsertions m = []"
    by (simp_all add: AlterUserScramCredentialsRequest_plain_def)
  show "emits (pb_is_flexible (AlterUserScramCredentialsRequest_body hmac m)) (pb_encode
      (AlterUserScramCredentialsRequest_body hmac m))
      (wAlterUserScramCredentialsRequest m)"
    unfolding AlterUserScramCredentialsRequest_body_def AlterUserScramCredentialsRequest_encode_def
      wAlterUserScramCredentialsRequest_def Let_def protocol_body.simps
    by (intro emits_rules; use ok no in \<open>auto simp: AlterUserScramCredentialsRequest_ok_def
        Let_def\<close>)
  show "reads (pb_is_flexible (AlterUserScramCredentialsRequest_body hmac m))
      (AlterUserScramCredentialsRequest_decode this (pb_version (AlterUserScramCredentialsRequest_body hmac m)))
      (wAlterUserScramCredentialsRequest m) (AlterUserScramCredentialsRequest_seen this m)"
    using reads_AlterUserScramCredentialsRequest [OF ok] by (simp add:
        AlterUserScramCredentialsRequest_body_def)
qed (simp_all add: AlterUserScramCredentialsRequest_body_def wAlterUserScramCredentialsRequest_def Let_def)

lemma scram_upsertions_never_encoded:
  assumes "usq_upsertions m \<noteq> []" shows "never_ok (AlterUserScramCredentialsRequest_encode hmac m)"
proof -
  obtain u where "u \<in> set (usq_upsertions m)" using assms by (cases "usq_upsertions m") auto
  then have "never_ok (for_each (AlterUserScramCredentialsUpsert_encode hmac) (usq_upsertions m))"
    using upsertion_never_encoded by (rule never_ok_for_each)
  then show ?thesis unfolding AlterUserScramCredentialsRequest_encode_def by (intro never_ok_then)
qed

record AlterUserScramCredentialsResult =
  usr_user :: bytes
  usr_code :: int16
  usr_message :: bytes

definition AlterUserScramCredentialsResult_encode :: "AlterUserScramCredentialsResult \<Rightarrow> unit enc"
    where
  "AlterUserScramCredentialsResult_encode x =
     then_p (err_as ErrEncodeError (putString (usr_user x)))
    (then_p (putKError (usr_code x))
    (then_p (err_as ErrEncodeError (putNullableString (usr_message x)))
       putEmptyTaggedFieldArray))"

definition AlterUserScramCredentialsResult_decode :: "AlterUserScramCredentialsResult dec" where
  "AlterUserScramCredentialsResult_decode =
     bind_p (err_as ErrEncodeError getString) (\<lambda>user.
     bind_p (err_as ErrEncodeError getKError) (\<lambda>code.
     bind_p (err_as ErrEncodeError getNullableString) (\<lambda>message.
     bind_p (err_as ErrEncodeError getEmptyTaggedFieldArray) (\<lambda>_.
       ret \<lparr>usr_user = user, usr_code = code, usr_message = message\<rparr>))))"

definition wAlterUserScramCredentialsResult :: "bool \<Rightarrow> AlterUserScramCredentialsResult
    \<Rightarrow> bytes" where
  "wAlterUserScramCredentialsResult fl x =
     wString fl (usr_user x) @ be16 (usr_code x) @ wNullableString fl (usr_message x) @ wTags fl"

definition AlterUserScramCredentialsResult_ok :: "bool \<Rightarrow> AlterUserScramCredentialsResult
    \<Rightarrow> bool" where
  "AlterUserScramCredentialsResult_ok fl x \<longleftrightarrow>
     string_ok fl (usr_user x) \<and> string_ok fl (usr_message x)"

lemma emits_AlterUserScramCredentialsResult [emits_rules]:
  "AlterUserScramCredentialsResult_ok fl x \<Longrightarrow> emits fl (AlterUserScramCredentialsResult_encode
      x) (wAlterUserScramCredentialsResult fl x)"
  unfolding AlterUserScramCredentialsResult_encode_def wAlterUserScramCredentialsResult_def
      AlterUserScramCredentialsResult_ok_def by (intro emits_rules; auto)

lemma reads_AlterUserScramCredentialsResult [reads_rules]:
  assumes "AlterUserScramCredentialsResult_ok fl x"
  shows "reads fl (AlterUserScramCredentialsResult_decode) (wAlterUserScramCredentialsResult fl x) x"
  unfolding AlterUserScramCredentialsResult_decode_def wAlterUserScramCredentialsResult_def
  by (rule reads_conv, (rule reads_rules | (use assms in \<open>auto simp:
      AlterUserScramCredentialsResult_ok_def; fail\<close>))+)

text \<open>An empty array leaves the results alone.\<close>

definition getScramResults :: "AlterUserScramCredentialsResult list \<Rightarrow>
    AlterUserScramCredentialsResult list dec" where
  "getScramResults old =
     bind_p (err_as ErrEncodeError getArrayLength) (\<lambda>n.
       if 0 < sint n then read_n n AlterUserScramCredentialsResult_decode else ret old)"

lemma reads_getScramResults [reads_rules]:
  assumes "len_ok fl (length xs)" "\<forall>x \<in> set xs. AlterUserScramCredentialsResult_ok fl x"
  shows "reads fl (getScramResults old) (wArray fl (wAlterUserScramCredentialsResult fl) xs) (if xs = [] then
      old else xs)"
proof -
  have n: "sint (size32 (length xs)) = int (length xs)" by (rule sint_len [OF assms(1)])
  have "reads fl (read_n (size32 (length xs)) AlterUserScramCredentialsResult_decode)
      (concat (map (wAlterUserScramCredentialsResult fl) xs)) (map (\<lambda>x. x) xs)"
    using assms by (intro reads_read_n reads_AlterUserScramCredentialsResult) auto
  then show ?thesis unfolding getScramResults_def wArray_def
    by (intro reads_bind [OF reads_err_as [OF reads_getArrayLength [OF assms(1)]]]) (auto simp: n intro:
        reads_ret)
qed

record AlterUserScramCredentialsResponse =
  usa_version :: int16
  usa_throttle_time :: int64
  usa_results :: "AlterUserScramCredentialsResult list"

definition AlterUserScramCredentialsResponse_set_version :: "int16 \<Rightarrow>
    AlterUserScramCredentialsResponse \<Rightarrow> AlterUserScramCredentialsResponse" where
  "AlterUserScramCredentialsResponse_set_version v m = m\<lparr>usa_version := v\<rparr>"

definition AlterUserScramCredentialsResponse_encode :: "AlterUserScramCredentialsResponse \<Rightarrow> unit
    enc" where
  "AlterUserScramCredentialsResponse_encode m =
     then_p (putDurationMs (usa_throttle_time m))
    (then_p (then_p (err_as ErrEncodeError (putArrayLength (size32 (length (usa_results m)))))
            (for_each AlterUserScramCredentialsResult_encode (usa_results m)))
       putEmptyTaggedFieldArray)"

definition AlterUserScramCredentialsResponse_decode :: "AlterUserScramCredentialsResponse \<Rightarrow> int16
    \<Rightarrow> AlterUserScramCredentialsResponse dec" where
  "AlterUserScramCredentialsResponse_decode this version =
     bind_p (err_as ErrEncodeError getDurationMs) (\<lambda>throttle_time.
     bind_p (getScramResults (usa_results this)) (\<lambda>results.
     bind_p getEmptyTaggedFieldArray (\<lambda>_.
       ret (this\<lparr>usa_throttle_time := throttle_time, usa_results := results\<rparr>))))"

definition AlterUserScramCredentialsResponse_is_flexible_version :: "int16 \<Rightarrow> bool" where
  "AlterUserScramCredentialsResponse_is_flexible_version ver \<longleftrightarrow> sint ver \<ge> 0"

definition AlterUserScramCredentialsResponse_required_version :: "int16 \<Rightarrow> KafkaVersion" where
  "AlterUserScramCredentialsResponse_required_version v =
     (V2_7_0_0)"

definition AlterUserScramCredentialsResponse_body :: "AlterUserScramCredentialsResponse \<Rightarrow>
    protocol_body" where
  "AlterUserScramCredentialsResponse_body m =
     \<lparr>pb_key = 51, pb_version = usa_version m,
      pb_header_version = 2,
      pb_is_valid_version = (sint (usa_version m) \<ge> 0 \<and> sint (usa_version m) \<le> 1),
      pb_is_flexible = AlterUserScramCredentialsResponse_is_flexible_version (usa_version m),
      pb_is_flexible_version = AlterUserScramCredentialsResponse_is_flexible_version,
      pb_required_version = AlterUserScramCredentialsResponse_required_version (usa_version m),
      pb_encode = AlterUserScramCredentialsResponse_encode m\<rparr>"

definition wAlterUserScramCredentialsResponse :: "AlterUserScramCredentialsResponse \<Rightarrow> bytes" where
  "wAlterUserScramCredentialsResponse m =
     (let fl = AlterUserScramCredentialsResponse_is_flexible_version (usa_version m) in
     wDurationMs (usa_throttle_time m) @ wArray fl (wAlterUserScramCredentialsResult fl) (usa_results m) @
     wTags fl)"

definition AlterUserScramCredentialsResponse_ok :: "AlterUserScramCredentialsResponse \<Rightarrow> bool" where
  "AlterUserScramCredentialsResponse_ok m \<longleftrightarrow>
     (let fl = AlterUserScramCredentialsResponse_is_flexible_version (usa_version m) in
     duration_ok (usa_throttle_time m) \<and>
     len_ok fl (length (usa_results m)) \<and> (\<forall>e \<in> set (usa_results m).
         AlterUserScramCredentialsResult_ok fl e))"

definition AlterUserScramCredentialsResponse_seen :: "AlterUserScramCredentialsResponse \<Rightarrow>
    AlterUserScramCredentialsResponse \<Rightarrow> AlterUserScramCredentialsResponse" where
  "AlterUserScramCredentialsResponse_seen this m =
     m\<lparr>usa_version := usa_version this, usa_results := if (usa_results m) = [] then (usa_results this)
       else (usa_results m)\<rparr>"

interpretation usa: protocol_message AlterUserScramCredentialsResponse_body
    AlterUserScramCredentialsResponse_decode wAlterUserScramCredentialsResponse
  AlterUserScramCredentialsResponse_ok AlterUserScramCredentialsResponse_seen
proof
  fix m this :: AlterUserScramCredentialsResponse
  assume ok: "AlterUserScramCredentialsResponse_ok m"
  show "emits (pb_is_flexible (AlterUserScramCredentialsResponse_body m)) (pb_encode
      (AlterUserScramCredentialsResponse_body m)) (wAlterUserScramCredentialsResponse m)"
    unfolding AlterUserScramCredentialsResponse_body_def AlterUserScramCredentialsResponse_encode_def
        wAlterUserScramCredentialsResponse_def Let_def protocol_body.simps
    by (intro emits_rules; use ok in \<open>auto simp: AlterUserScramCredentialsResponse_ok_def Let_def
        \<close>)
  show "reads (pb_is_flexible (AlterUserScramCredentialsResponse_body m))
      (AlterUserScramCredentialsResponse_decode this (pb_version (AlterUserScramCredentialsResponse_body m)))
      (wAlterUserScramCredentialsResponse m) (AlterUserScramCredentialsResponse_seen this m)"
    unfolding AlterUserScramCredentialsResponse_body_def AlterUserScramCredentialsResponse_decode_def
        wAlterUserScramCredentialsResponse_def Let_def protocol_body.simps
    by (rule reads_conv, (rule reads_rules | (use ok in \<open>auto simp:
        AlterUserScramCredentialsResponse_ok_def Let_def 
      AlterUserScramCredentialsResponse_seen_def; fail\<close>))+)
qed (simp_all add: AlterUserScramCredentialsResponse_body_def wAlterUserScramCredentialsResponse_def Let_def)

definition AlterUserScramCredentialsResponse_throttle_time :: "AlterUserScramCredentialsResponse \<Rightarrow>
    int64" where
  "AlterUserScramCredentialsResponse_throttle_time m = usa_throttle_time m"

section \<open>DescribeUserScramCredentials\<close>

record DescribeUserScramCredentialsRequestUser =
  udu_name :: bytes

definition DescribeUserScramCredentialsRequestUser_encode :: "DescribeUserScramCredentialsRequestUser
    \<Rightarrow> unit enc" where
  "DescribeUserScramCredentialsRequestUser_encode x =
     then_p (err_as ErrEncodeError (putString (udu_name x)))
       putEmptyTaggedFieldArray"

definition DescribeUserScramCredentialsRequestUser_decode :: "DescribeUserScramCredentialsRequestUser dec" where
  "DescribeUserScramCredentialsRequestUser_decode =
     bind_p (err_as ErrDecodeError getString) (\<lambda>nm.
     bind_p (err_as ErrDecodeError getEmptyTaggedFieldArray) (\<lambda>_.
       ret \<lparr>udu_name = nm\<rparr>))"

definition wDescribeUserScramCredentialsRequestUser :: "bool \<Rightarrow>
    DescribeUserScramCredentialsRequestUser \<Rightarrow> bytes" where
  "wDescribeUserScramCredentialsRequestUser fl x =
     wString fl (udu_name x) @ wTags fl"

definition DescribeUserScramCredentialsRequestUser_ok :: "bool \<Rightarrow>
    DescribeUserScramCredentialsRequestUser \<Rightarrow> bool" where
  "DescribeUserScramCredentialsRequestUser_ok fl x \<longleftrightarrow>
     string_ok fl (udu_name x)"

lemma emits_DescribeUserScramCredentialsRequestUser [emits_rules]:
  "DescribeUserScramCredentialsRequestUser_ok fl x \<Longrightarrow> emits fl
      (DescribeUserScramCredentialsRequestUser_encode x) (wDescribeUserScramCredentialsRequestUser fl x)"
  unfolding DescribeUserScramCredentialsRequestUser_encode_def wDescribeUserScramCredentialsRequestUser_def
      DescribeUserScramCredentialsRequestUser_ok_def by (intro emits_rules; auto)

lemma reads_DescribeUserScramCredentialsRequestUser [reads_rules]:
  assumes "DescribeUserScramCredentialsRequestUser_ok fl x"
  shows "reads fl (DescribeUserScramCredentialsRequestUser_decode) (wDescribeUserScramCredentialsRequestUser fl
      x) x"
  unfolding DescribeUserScramCredentialsRequestUser_decode_def wDescribeUserScramCredentialsRequestUser_def
  by (rule reads_conv, (rule reads_rules | (use assms in \<open>auto simp:
      DescribeUserScramCredentialsRequestUser_ok_def; fail\<close>))+)

text \<open>A null array is read as an empty one.\<close>

lemma reads_resize_null [reads_rules]:
  assumes "len_ok fl (length xs)" "\<And>x. x \<in> set xs \<Longrightarrow> reads fl m (w x) (g x)"
  shows "reads fl (bind_p (err_as e getArrayLength) (\<lambda>n. resize_read (if n = - 1 then 0 else n) m))
      (wArray fl w xs) (map g xs)"
proof -
  have "sint (size32 (length xs)) = int (length xs)" by (rule sint_len [OF assms(1)])
  then have "size32 (length xs) \<noteq> - 1" by auto
  then show ?thesis unfolding wArray_def
    by (intro reads_bind [OF reads_err_as [OF reads_getArrayLength [OF assms(1)]]])
      (simp only: if_False reads_resize [OF assms])
qed

record DescribeUserScramCredentialsRequest =
  udq_version :: int16
  udq_describe_users :: "DescribeUserScramCredentialsRequestUser list"

definition DescribeUserScramCredentialsRequest_set_version :: "int16 \<Rightarrow>
    DescribeUserScramCredentialsRequest \<Rightarrow> DescribeUserScramCredentialsRequest" where
  "DescribeUserScramCredentialsRequest_set_version v m = m\<lparr>udq_version := v\<rparr>"

definition DescribeUserScramCredentialsRequest_encode :: "DescribeUserScramCredentialsRequest \<Rightarrow>
    unit enc" where
  "DescribeUserScramCredentialsRequest_encode m =
     then_p (then_p (err_as ErrEncodeError (putArrayLength (size32 (length (udq_describe_users m)))))
            (for_each DescribeUserScramCredentialsRequestUser_encode (udq_describe_users m)))
       putEmptyTaggedFieldArray"

definition DescribeUserScramCredentialsRequest_decode :: "DescribeUserScramCredentialsRequest \<Rightarrow>
    int16 \<Rightarrow> DescribeUserScramCredentialsRequest dec" where
  "DescribeUserScramCredentialsRequest_decode this version =
     bind_p (bind_p (err_as ErrDecodeError getArrayLength) (\<lambda>n. resize_read (if n = - 1 then 0 else n)
         DescribeUserScramCredentialsRequestUser_decode)) (\<lambda>describe_users.
     bind_p (err_as ErrDecodeError getEmptyTaggedFieldArray) (\<lambda>_.
       ret \<lparr>udq_version = version, udq_describe_users = describe_users\<rparr>))"

definition DescribeUserScramCredentialsRequest_is_flexible_version :: "int16 \<Rightarrow> bool" where
  "DescribeUserScramCredentialsRequest_is_flexible_version ver \<longleftrightarrow> sint ver \<ge> 0"

definition DescribeUserScramCredentialsRequest_required_version :: "int16 \<Rightarrow> KafkaVersion" where
  "DescribeUserScramCredentialsRequest_required_version v =
     (V2_7_0_0)"

definition DescribeUserScramCredentialsRequest_body :: "DescribeUserScramCredentialsRequest \<Rightarrow>
    protocol_body" where
  "DescribeUserScramCredentialsRequest_body m =
     \<lparr>pb_key = 50, pb_version = udq_version m,
      pb_header_version = 2,
      pb_is_valid_version = (sint (udq_version m) \<ge> 0 \<and> sint (udq_version m) \<le> 1),
      pb_is_flexible = DescribeUserScramCredentialsRequest_is_flexible_version (udq_version m),
      pb_is_flexible_version = DescribeUserScramCredentialsRequest_is_flexible_version,
      pb_required_version = DescribeUserScramCredentialsRequest_required_version (udq_version m),
      pb_encode = DescribeUserScramCredentialsRequest_encode m\<rparr>"

definition wDescribeUserScramCredentialsRequest :: "DescribeUserScramCredentialsRequest \<Rightarrow> bytes"
    where
  "wDescribeUserScramCredentialsRequest m =
     (let fl = DescribeUserScramCredentialsRequest_is_flexible_version (udq_version m) in
     wArray fl (wDescribeUserScramCredentialsRequestUser fl) (udq_describe_users m) @ wTags fl)"

definition DescribeUserScramCredentialsRequest_ok :: "DescribeUserScramCredentialsRequest \<Rightarrow> bool"
    where
  "DescribeUserScramCredentialsRequest_ok m \<longleftrightarrow>
     (let fl = DescribeUserScramCredentialsRequest_is_flexible_version (udq_version m) in
     len_ok fl (length (udq_describe_users m)) \<and> (\<forall>e \<in> set (udq_describe_users m).
         DescribeUserScramCredentialsRequestUser_ok fl e))"

definition DescribeUserScramCredentialsRequest_seen :: "DescribeUserScramCredentialsRequest \<Rightarrow>
    DescribeUserScramCredentialsRequest \<Rightarrow> DescribeUserScramCredentialsRequest" where
  "DescribeUserScramCredentialsRequest_seen this m =
     m"

interpretation udq: protocol_message DescribeUserScramCredentialsRequest_body
    DescribeUserScramCredentialsRequest_decode wDescribeUserScramCredentialsRequest
  DescribeUserScramCredentialsRequest_ok DescribeUserScramCredentialsRequest_seen
proof
  fix m this :: DescribeUserScramCredentialsRequest
  assume ok: "DescribeUserScramCredentialsRequest_ok m"
  show "emits (pb_is_flexible (DescribeUserScramCredentialsRequest_body m)) (pb_encode
      (DescribeUserScramCredentialsRequest_body m)) (wDescribeUserScramCredentialsRequest m)"
    unfolding DescribeUserScramCredentialsRequest_body_def DescribeUserScramCredentialsRequest_encode_def
        wDescribeUserScramCredentialsRequest_def Let_def protocol_body.simps
    by (intro emits_rules; use ok in \<open>auto simp: DescribeUserScramCredentialsRequest_ok_def Let_def
        \<close>)
  show "reads (pb_is_flexible (DescribeUserScramCredentialsRequest_body m))
      (DescribeUserScramCredentialsRequest_decode this (pb_version (DescribeUserScramCredentialsRequest_body
      m)))
      (wDescribeUserScramCredentialsRequest m) (DescribeUserScramCredentialsRequest_seen this m)"
    unfolding DescribeUserScramCredentialsRequest_body_def DescribeUserScramCredentialsRequest_decode_def
        wDescribeUserScramCredentialsRequest_def Let_def protocol_body.simps
    by (rule reads_conv, (rule reads_rules | (use ok in \<open>auto simp:
        DescribeUserScramCredentialsRequest_ok_def Let_def 
      DescribeUserScramCredentialsRequest_seen_def; fail\<close>))+)
qed (simp_all add: DescribeUserScramCredentialsRequest_body_def wDescribeUserScramCredentialsRequest_def
    Let_def)

record UserScramCredentialsResponseInfo =
  uci_mechanism :: int8
  uci_iterations :: int32

definition UserScramCredentialsResponseInfo_encode :: "UserScramCredentialsResponseInfo \<Rightarrow> unit enc"
    where
  "UserScramCredentialsResponseInfo_encode x =
     then_p (putInt8 (uci_mechanism x))
    (then_p (putInt32 (uci_iterations x))
       putEmptyTaggedFieldArray)"

definition UserScramCredentialsResponseInfo_decode :: "UserScramCredentialsResponseInfo dec" where
  "UserScramCredentialsResponseInfo_decode =
     bind_p (err_as ErrDecodeError getInt8) (\<lambda>mechanism.
     bind_p (err_as ErrDecodeError getInt32) (\<lambda>iterations.
     bind_p (err_as ErrDecodeError getEmptyTaggedFieldArray) (\<lambda>_.
       ret \<lparr>uci_mechanism = mechanism, uci_iterations = iterations\<rparr>)))"

definition wUserScramCredentialsResponseInfo :: "bool \<Rightarrow> UserScramCredentialsResponseInfo
    \<Rightarrow> bytes" where
  "wUserScramCredentialsResponseInfo fl x =
     be8 (uci_mechanism x) @ be32 (uci_iterations x) @ wTags fl"

definition UserScramCredentialsResponseInfo_ok :: "bool \<Rightarrow> UserScramCredentialsResponseInfo
    \<Rightarrow> bool" where
  "UserScramCredentialsResponseInfo_ok fl x \<longleftrightarrow>
     True"

lemma emits_UserScramCredentialsResponseInfo [emits_rules]:
  "UserScramCredentialsResponseInfo_ok fl x \<Longrightarrow> emits fl (UserScramCredentialsResponseInfo_encode
      x) (wUserScramCredentialsResponseInfo fl x)"
  unfolding UserScramCredentialsResponseInfo_encode_def wUserScramCredentialsResponseInfo_def
      UserScramCredentialsResponseInfo_ok_def by (intro emits_rules; auto)

lemma reads_UserScramCredentialsResponseInfo [reads_rules]:
  assumes "UserScramCredentialsResponseInfo_ok fl x"
  shows "reads fl (UserScramCredentialsResponseInfo_decode) (wUserScramCredentialsResponseInfo fl x) x"
  unfolding UserScramCredentialsResponseInfo_decode_def wUserScramCredentialsResponseInfo_def
  by (rule reads_conv, (rule reads_rules | (use assms in \<open>auto simp:
      UserScramCredentialsResponseInfo_ok_def; fail\<close>))+)

record DescribeUserScramCredentialsResult =
  udr_user :: bytes
  udr_code :: int16
  udr_message :: bytes
  udr_credential_infos :: "UserScramCredentialsResponseInfo list"

definition DescribeUserScramCredentialsResult_encode :: "DescribeUserScramCredentialsResult \<Rightarrow> unit
    enc" where
  "DescribeUserScramCredentialsResult_encode x =
     then_p (err_as ErrEncodeError (putString (udr_user x)))
    (then_p (putKError (udr_code x))
    (then_p (err_as ErrEncodeError (putNullableString (udr_message x)))
    (then_p (then_p (err_as ErrEncodeError (putArrayLength (size32 (length (udr_credential_infos x)))))
            (for_each UserScramCredentialsResponseInfo_encode (udr_credential_infos x)))
       putEmptyTaggedFieldArray)))"

definition DescribeUserScramCredentialsResult_decode :: "DescribeUserScramCredentialsResult dec" where
  "DescribeUserScramCredentialsResult_decode =
     bind_p (err_as ErrDecodeError getString) (\<lambda>user.
     bind_p (err_as ErrDecodeError getKError) (\<lambda>code.
     bind_p (err_as ErrDecodeError getNullableString) (\<lambda>message.
     bind_p (bind_p (err_as ErrDecodeError getArrayLength) (\<lambda>n. resize_read n
         UserScramCredentialsResponseInfo_decode)) (\<lambda>credential_infos.
     bind_p (err_as ErrDecodeError getEmptyTaggedFieldArray) (\<lambda>_.
       ret \<lparr>udr_user = user, udr_code = code, udr_message = message, udr_credential_infos =
           credential_infos\<rparr>)))))"

definition wDescribeUserScramCredentialsResult :: "bool \<Rightarrow> DescribeUserScramCredentialsResult
    \<Rightarrow> bytes" where
  "wDescribeUserScramCredentialsResult fl x =
     wString fl (udr_user x) @ be16 (udr_code x) @ wNullableString fl (udr_message x) @
     wArray fl (wUserScramCredentialsResponseInfo fl) (udr_credential_infos x) @ wTags fl"

definition DescribeUserScramCredentialsResult_ok :: "bool \<Rightarrow> DescribeUserScramCredentialsResult
    \<Rightarrow> bool" where
  "DescribeUserScramCredentialsResult_ok fl x \<longleftrightarrow>
     string_ok fl (udr_user x) \<and> string_ok fl (udr_message x) \<and>
     len_ok fl (length (udr_credential_infos x)) \<and>
     (\<forall>e \<in> set (udr_credential_infos x). UserScramCredentialsResponseInfo_ok fl e)"

lemma emits_DescribeUserScramCredentialsResult [emits_rules]:
  "DescribeUserScramCredentialsResult_ok fl x \<Longrightarrow> emits fl
      (DescribeUserScramCredentialsResult_encode x) (wDescribeUserScramCredentialsResult fl x)"
  unfolding DescribeUserScramCredentialsResult_encode_def wDescribeUserScramCredentialsResult_def
      DescribeUserScramCredentialsResult_ok_def by (intro emits_rules; auto)

lemma reads_DescribeUserScramCredentialsResult [reads_rules]:
  assumes "DescribeUserScramCredentialsResult_ok fl x"
  shows "reads fl (DescribeUserScramCredentialsResult_decode) (wDescribeUserScramCredentialsResult fl x) x"
  unfolding DescribeUserScramCredentialsResult_decode_def wDescribeUserScramCredentialsResult_def
  by (rule reads_conv, (rule reads_rules | (use assms in \<open>auto simp:
      DescribeUserScramCredentialsResult_ok_def; fail\<close>))+)

record DescribeUserScramCredentialsResponse =
  uda_version :: int16
  uda_throttle_time :: int64
  uda_code :: int16
  uda_message :: bytes
  uda_results :: "DescribeUserScramCredentialsResult list"

definition DescribeUserScramCredentialsResponse_set_version :: "int16 \<Rightarrow>
    DescribeUserScramCredentialsResponse \<Rightarrow> DescribeUserScramCredentialsResponse" where
  "DescribeUserScramCredentialsResponse_set_version v m = m\<lparr>uda_version := v\<rparr>"

definition DescribeUserScramCredentialsResponse_encode :: "DescribeUserScramCredentialsResponse \<Rightarrow>
    unit enc" where
  "DescribeUserScramCredentialsResponse_encode m =
     then_p (putDurationMs (uda_throttle_time m))
    (then_p (putKError (uda_code m))
    (then_p (err_as ErrEncodeError (putNullableString (uda_message m)))
    (then_p (then_p (err_as ErrEncodeError (putArrayLength (size32 (length (uda_results m)))))
            (for_each DescribeUserScramCredentialsResult_encode (uda_results m)))
       putEmptyTaggedFieldArray)))"

definition DescribeUserScramCredentialsResponse_decode :: "DescribeUserScramCredentialsResponse \<Rightarrow>
    int16 \<Rightarrow> DescribeUserScramCredentialsResponse dec" where
  "DescribeUserScramCredentialsResponse_decode this version =
     bind_p (err_as ErrDecodeError getDurationMs) (\<lambda>throttle_time.
     bind_p (err_as ErrDecodeError getKError) (\<lambda>code.
     bind_p (err_as ErrDecodeError getNullableString) (\<lambda>message.
     bind_p (bind_p (err_as ErrDecodeError getArrayLength) (\<lambda>n. resize_read n
         DescribeUserScramCredentialsResult_decode)) (\<lambda>results.
     bind_p (err_as ErrDecodeError getEmptyTaggedFieldArray) (\<lambda>_.
       ret \<lparr>uda_version = version, uda_throttle_time = throttle_time, uda_code = code, uda_message =
         message, uda_results = results\<rparr>)))))"

definition DescribeUserScramCredentialsResponse_is_flexible_version :: "int16 \<Rightarrow> bool" where
  "DescribeUserScramCredentialsResponse_is_flexible_version ver \<longleftrightarrow> sint ver \<ge> 0"

definition DescribeUserScramCredentialsResponse_required_version :: "int16 \<Rightarrow> KafkaVersion" where
  "DescribeUserScramCredentialsResponse_required_version v =
     (V2_7_0_0)"

definition DescribeUserScramCredentialsResponse_body :: "DescribeUserScramCredentialsResponse \<Rightarrow>
    protocol_body" where
  "DescribeUserScramCredentialsResponse_body m =
     \<lparr>pb_key = 50, pb_version = uda_version m,
      pb_header_version = 2,
      pb_is_valid_version = (sint (uda_version m) \<ge> 0 \<and> sint (uda_version m) \<le> 1),
      pb_is_flexible = DescribeUserScramCredentialsResponse_is_flexible_version (uda_version m),
      pb_is_flexible_version = DescribeUserScramCredentialsResponse_is_flexible_version,
      pb_required_version = DescribeUserScramCredentialsResponse_required_version (uda_version m),
      pb_encode = DescribeUserScramCredentialsResponse_encode m\<rparr>"

definition wDescribeUserScramCredentialsResponse :: "DescribeUserScramCredentialsResponse \<Rightarrow> bytes"
    where
  "wDescribeUserScramCredentialsResponse m =
     (let fl = DescribeUserScramCredentialsResponse_is_flexible_version (uda_version m) in
     wDurationMs (uda_throttle_time m) @ be16 (uda_code m) @ wNullableString fl (uda_message m) @
     wArray fl (wDescribeUserScramCredentialsResult fl) (uda_results m) @ wTags fl)"

definition DescribeUserScramCredentialsResponse_ok :: "DescribeUserScramCredentialsResponse \<Rightarrow> bool"
    where
  "DescribeUserScramCredentialsResponse_ok m \<longleftrightarrow>
     (let fl = DescribeUserScramCredentialsResponse_is_flexible_version (uda_version m) in
     duration_ok (uda_throttle_time m) \<and> string_ok fl (uda_message m) \<and>
     len_ok fl (length (uda_results m)) \<and>
     (\<forall>e \<in> set (uda_results m). DescribeUserScramCredentialsResult_ok fl e))"

definition DescribeUserScramCredentialsResponse_seen :: "DescribeUserScramCredentialsResponse \<Rightarrow>
    DescribeUserScramCredentialsResponse \<Rightarrow> DescribeUserScramCredentialsResponse" where
  "DescribeUserScramCredentialsResponse_seen this m =
     m"

interpretation uda: protocol_message DescribeUserScramCredentialsResponse_body
    DescribeUserScramCredentialsResponse_decode wDescribeUserScramCredentialsResponse
  DescribeUserScramCredentialsResponse_ok DescribeUserScramCredentialsResponse_seen
proof
  fix m this :: DescribeUserScramCredentialsResponse
  assume ok: "DescribeUserScramCredentialsResponse_ok m"
  show "emits (pb_is_flexible (DescribeUserScramCredentialsResponse_body m)) (pb_encode
      (DescribeUserScramCredentialsResponse_body m)) (wDescribeUserScramCredentialsResponse m)"
    unfolding DescribeUserScramCredentialsResponse_body_def DescribeUserScramCredentialsResponse_encode_def
        wDescribeUserScramCredentialsResponse_def Let_def protocol_body.simps
    by (intro emits_rules; use ok in \<open>auto simp: DescribeUserScramCredentialsResponse_ok_def Let_def
        \<close>)
  show "reads (pb_is_flexible (DescribeUserScramCredentialsResponse_body m))
      (DescribeUserScramCredentialsResponse_decode this (pb_version (DescribeUserScramCredentialsResponse_body
      m)))
      (wDescribeUserScramCredentialsResponse m) (DescribeUserScramCredentialsResponse_seen this m)"
    unfolding DescribeUserScramCredentialsResponse_body_def DescribeUserScramCredentialsResponse_decode_def
        wDescribeUserScramCredentialsResponse_def Let_def protocol_body.simps
    by (rule reads_conv, (rule reads_rules | (use ok in \<open>auto simp:
        DescribeUserScramCredentialsResponse_ok_def Let_def 
      DescribeUserScramCredentialsResponse_seen_def; fail\<close>))+)
qed (simp_all add: DescribeUserScramCredentialsResponse_body_def wDescribeUserScramCredentialsResponse_def
    Let_def)

definition DescribeUserScramCredentialsResponse_throttle_time :: "DescribeUserScramCredentialsResponse
    \<Rightarrow> int64" where
  "DescribeUserScramCredentialsResponse_throttle_time m = uda_throttle_time m"

end
