(* ===== verification/Cluster_Messages.thy ===== *)
theory Cluster_Messages
  imports Scram_Messages
begin

text \<open>
  Replicas and leaders: the request and response classes AlterPartitionReassignments,
      ListPartitionReassignments,
  ElectLeaders and DescribeLogDirs.

  An \<^verbatim>\<open>unordered_map\<close> is an association list in the order in which the container yields
      its entries.
\<close>

section \<open>Shared readers\<close>

text \<open>A duration written and read as a 32-bit number of milliseconds.\<close>

definition putMillis32 :: "int64 \<Rightarrow> unit enc" where
  "putMillis32 ms = putInt32 (ucast ms)"

definition getMillis32 :: "int64 dec" where
  "getMillis32 = bind_p getInt32 (\<lambda>t. ret (scast t))"

lemma emits_putMillis32 [emits_rules]: "emits fl (putMillis32 ms) (wDurationMs ms)"
  unfolding putMillis32_def wDurationMs_def by (rule emits_putInt32)

lemma reads_getMillis32 [reads_rules]: "duration_ok ms \<Longrightarrow> reads fl getMillis32 (wDurationMs ms)
    ms"
  using reads_getDurationMs [of ms fl] by (simp add: getDurationMs_def getMillis32_def)

text \<open>A vector of 32-bit numbers read element by element; a negative length throws.\<close>

definition getInt32s :: "int32 list dec" where
  "getInt32s = bind_p getArrayLength (\<lambda>n. resize_read n getInt32)"

definition getInt32s_or :: "int \<Rightarrow> int32 list dec" where
  "getInt32s_or e = bind_p (err_as e getArrayLength) (\<lambda>n. resize_read n (err_as e getInt32))"

lemma reads_getInt32s [reads_rules]: "len_ok fl (length xs) \<Longrightarrow> reads fl getInt32s (wInt32Array
    fl xs) xs"
proof -
  assume len: "len_ok fl (length xs)"
  have "reads fl (resize_read (size32 (length xs)) getInt32) (concat (map be32 xs)) (map (\<lambda>x. x) xs)"
    using len by (rule reads_resize) (rule reads_getInt32)
  then show ?thesis unfolding getInt32s_def wInt32Array_def
    by (intro reads_bind [OF reads_getArrayLength [OF len]]) simp
qed

lemma reads_getInt32s_or [reads_rules]: "len_ok fl (length xs) \<Longrightarrow> reads fl (getInt32s_or e)
    (wInt32Array fl xs) xs"
proof -
  assume len: "len_ok fl (length xs)"
  have "reads fl (resize_read (size32 (length xs)) (err_as e getInt32)) (concat (map be32 xs)) (map
      (\<lambda>x. x) xs)"
    using len by (rule reads_resize) (rule reads_err_as [OF reads_getInt32])
  then show ?thesis unfolding getInt32s_or_def wInt32Array_def
    by (intro reads_bind [OF reads_err_as [OF reads_getArrayLength [OF len]]]) simp
qed

lemma emits_null_length: "emits fl (putArrayLength (- 1)) (if fl then [0] else be32 (- 1))"
proof -
  have c: "emits True (putCompactLength (- 1)) [0]"
    using emits_putUVarint [of True 0] by (simp add: putCompactLength_def encodeUVariant_0)
  have "counts fl (by_flex () (if sint (- 1 :: int32) > 2 ^ 31 - 1 then raise (- 1) else count 4)
      (putCompactLength (- 1)))
      (length (if fl then [0] else be32 (- 1)))"
    using c counts_count [of False 4] by (intro counts_by_flex) (auto simp: emits_iff)
  moreover have "stores fl (by_flex () (putInt32 (- 1)) (putCompactLength (- 1))) (if fl then [0] else be32 (-
      1))"
    using c emits_putInt32 [of False "- 1"] by (intro stores_by_flex) (auto simp: emits_iff)
  ultimately show ?thesis unfolding putArrayLength_def by (rule emits_by_mode)
qed

lemma reads_nullable_int32s [reads_rules]:
  assumes "len_ok fl (length xs)" shows "reads fl getInt32Array (wNullableInt32Array fl xs) xs"
proof (cases "xs = []")
  case True
  show ?thesis unfolding getInt32Array_def wNullableInt32Array_def using True
    by (intro reads_by_flex) (auto intro!: reads_bind_same [OF reads_uvariant_zero] reads_bind_same [OF
        reads_getArrayLength_null] reads_ret)
qed (simp add: wNullableInt32Array_def reads_getInt32Array assms)

text \<open>\<open>m[topic]\<close> of the map that is there, which is not cleared.\<close>

lemma reads_merge_into [reads_rules]:
  assumes "len_ok fl (length xs)" "\<And>x. x \<in> set xs \<Longrightarrow> reads fl m (w x) x"
  shows "reads fl (bind_p (err_as e getArrayLength) (\<lambda>n. put_all (\<lambda>(k, vs). smap_merge k vs) n
      m old)) (wArray fl w xs)
    (fold (\<lambda>(k, vs). smap_merge k vs) xs old)"
  using reads_map(2) [of fl xs m w "\<lambda>x. x" e "\<lambda>(k, vs). smap_merge k vs" old, OF assms] by simp

text \<open>\<open>reserve\<close> of a negative count throws.\<close>

definition reserved :: "int32 \<Rightarrow> 'a dec \<Rightarrow> 'a dec" where
  "reserved n m = (if sint n < 0 then (\<lambda>_. Abort) else m)"

lemma reserved_len: "len_ok fl n \<Longrightarrow> reserved (size32 n) m = m"
  using sint_len [of fl n] by (simp add: reserved_def)

lemma reads_reserved:
  assumes "reads fl (bind_p (err_as e getArrayLength) m) (wArray fl w xs) v" "len_ok fl (length xs)"
  shows "reads fl (bind_p (err_as e getArrayLength) (\<lambda>n. reserved n (m n))) (wArray fl w xs) v"
proof (rule readsI)
  fix pd :: packet_decoder
  assume pd: "(m_flexible pd \<noteq> 0) = fl" "length (pd_raw pd) < 2 ^ 31"
    "pd_offset pd + length (wArray fl w xs) \<le> length (pd_raw pd)"
    "slice (pd_offset pd) (length (wArray fl w xs)) (pd_raw pd) = wArray fl w xs"
  have "err_as e getArrayLength pd = Ok (size32 (length xs)) (advance (length (wLen fl (length xs))) pd)"
    using pd slice_append_left [OF pd(4) [unfolded wArray_def]]
    by (intro readsD [OF reads_err_as [OF reads_getArrayLength [OF assms(2)]]]) (auto simp: wArray_def)
  then show "bind_p (err_as e getArrayLength) (\<lambda>n. reserved n (m n)) pd = Ok v (advance (length (wArray
      fl w xs)) pd)"
    using readsD [OF assms(1) pd] by (simp add: bind_p_def reserved_len [OF assms(2)])
qed

section \<open>AlterPartitionReassignments\<close>

record AlterPartitionReassignmentsBlock =
  prb_replicas :: "int32 list"

definition AlterPartitionReassignmentsBlock_encode :: "AlterPartitionReassignmentsBlock \<Rightarrow> unit enc"
    where
  "AlterPartitionReassignmentsBlock_encode x =
     then_p (err_as ErrEncodeError (putNullableInt32Array (prb_replicas x)))
       putEmptyTaggedFieldArray"

definition AlterPartitionReassignmentsBlock_decode :: "AlterPartitionReassignmentsBlock dec" where
  "AlterPartitionReassignmentsBlock_decode =
     bind_p (err_as ErrEncodeError getInt32Array) (\<lambda>replicas.
     bind_p getEmptyTaggedFieldArray (\<lambda>_.
       ret \<lparr>prb_replicas = replicas\<rparr>))"

definition wAlterPartitionReassignmentsBlock :: "bool \<Rightarrow> AlterPartitionReassignmentsBlock
    \<Rightarrow> bytes" where
  "wAlterPartitionReassignmentsBlock fl x =
     wNullableInt32Array fl (prb_replicas x) @ wTags fl"

definition AlterPartitionReassignmentsBlock_ok :: "bool \<Rightarrow> AlterPartitionReassignmentsBlock
    \<Rightarrow> bool" where
  "AlterPartitionReassignmentsBlock_ok fl x \<longleftrightarrow>
     len_ok fl (length (prb_replicas x))"

lemma emits_AlterPartitionReassignmentsBlock [emits_rules]:
  "AlterPartitionReassignmentsBlock_ok fl x \<Longrightarrow> emits fl (AlterPartitionReassignmentsBlock_encode
      x) (wAlterPartitionReassignmentsBlock fl x)"
  unfolding AlterPartitionReassignmentsBlock_encode_def wAlterPartitionReassignmentsBlock_def
      AlterPartitionReassignmentsBlock_ok_def by (intro emits_rules; auto)

lemma reads_AlterPartitionReassignmentsBlock [reads_rules]:
  assumes "AlterPartitionReassignmentsBlock_ok fl x"
  shows "reads fl (AlterPartitionReassignmentsBlock_decode) (wAlterPartitionReassignmentsBlock fl x) x"
  unfolding AlterPartitionReassignmentsBlock_decode_def wAlterPartitionReassignmentsBlock_def
  by (rule reads_conv, (rule reads_rules | (use assms in \<open>auto simp:
      AlterPartitionReassignmentsBlock_ok_def; fail\<close>))+)

definition ReassignedPartition_put_entry :: "int \<times> AlterPartitionReassignmentsBlock \<Rightarrow> unit
    enc" where
  "ReassignedPartition_put_entry kv =
     then_p (putInt32 (word_of_int (fst kv)))
       (err_as ErrEncodeError (AlterPartitionReassignmentsBlock_encode (snd kv)))"

definition ReassignedPartition_get_entry :: "(int \<times> AlterPartitionReassignmentsBlock) dec" where
  "ReassignedPartition_get_entry =
     bind_p (err_as ErrDecodeError (bind_p getInt32 (\<lambda>p. ret (sint p)))) (\<lambda>k.
     bind_p (err_as ErrDecodeError AlterPartitionReassignmentsBlock_decode) (\<lambda>v.
       ret (k, v)))"

definition wReassignedPartition_entry :: "bool \<Rightarrow> int \<times> AlterPartitionReassignmentsBlock
    \<Rightarrow> bytes" where
  "wReassignedPartition_entry fl kv =
     be32 (word_of_int (fst kv)) @ wAlterPartitionReassignmentsBlock fl (snd kv)"

definition ReassignedPartition_entry_ok :: "bool \<Rightarrow> int \<times> AlterPartitionReassignmentsBlock
    \<Rightarrow> bool" where
  "ReassignedPartition_entry_ok fl kv \<longleftrightarrow>
     sint (word_of_int (fst kv) :: int32) = (fst kv) \<and> AlterPartitionReassignmentsBlock_ok fl (snd kv)"

lemma emits_ReassignedPartition_entry [emits_rules]:
  "ReassignedPartition_entry_ok fl kv \<Longrightarrow> emits fl (ReassignedPartition_put_entry kv)
      (wReassignedPartition_entry fl kv)"
  unfolding ReassignedPartition_put_entry_def wReassignedPartition_entry_def ReassignedPartition_entry_ok_def
      by (intro emits_rules; auto)

lemma reads_ReassignedPartition_entry [reads_rules]:
  assumes "ReassignedPartition_entry_ok fl kv"
  shows "reads fl (ReassignedPartition_get_entry) (wReassignedPartition_entry fl kv) kv"
  unfolding ReassignedPartition_get_entry_def wReassignedPartition_entry_def
  by (rule reads_conv, (rule reads_rules | (use assms in \<open>auto simp: ReassignedPartition_entry_ok_def;
      fail\<close>))+)

definition ReassignedTopic_put_entry :: "bytes \<times> (int \<times> AlterPartitionReassignmentsBlock) list
    \<Rightarrow> unit enc" where
  "ReassignedTopic_put_entry kv =
     then_p (err_as ErrEncodeError (putString (fst kv)))
    (then_p (then_p (err_as ErrEncodeError (putArrayLength (size32 (length (snd kv)))))
            (for_each ReassignedPartition_put_entry (snd kv)))
       putEmptyTaggedFieldArray)"

definition ReassignedTopic_get_entry :: "(bytes \<times> (int \<times> AlterPartitionReassignmentsBlock) list)
    dec" where
  "ReassignedTopic_get_entry =
     bind_p (err_as ErrDecodeError getString) (\<lambda>k.
     bind_p (bind_p (err_as ErrDecodeError getArrayLength) (\<lambda>n. put_all (\<lambda>(k, v). smap_put k v)
         n ReassignedPartition_get_entry [])) (\<lambda>v.
     bind_p (err_as ErrDecodeError getEmptyTaggedFieldArray) (\<lambda>_.
       ret (k, v))))"

definition wReassignedTopic_entry :: "bool \<Rightarrow> bytes \<times> (int \<times>
    AlterPartitionReassignmentsBlock) list \<Rightarrow> bytes" where
  "wReassignedTopic_entry fl kv =
     wString fl (fst kv) @ wArray fl (wReassignedPartition_entry fl) (snd kv) @ wTags fl"

definition ReassignedTopic_entry_ok :: "bool \<Rightarrow> bytes \<times> (int \<times>
    AlterPartitionReassignmentsBlock) list \<Rightarrow> bool" where
  "ReassignedTopic_entry_ok fl kv \<longleftrightarrow>
     string_ok fl (fst kv) \<and> len_ok fl (length (snd kv)) \<and>
     (\<forall>kv \<in> set (snd kv). ReassignedPartition_entry_ok fl kv) \<and> smap (snd kv)"

lemma ReassignedTopic_entry_ok_smap [dest]: "ReassignedTopic_entry_ok fl kv \<Longrightarrow> smap (snd kv)"
  by (simp add: ReassignedTopic_entry_ok_def)

lemma emits_ReassignedTopic_entry [emits_rules]:
  "ReassignedTopic_entry_ok fl kv \<Longrightarrow> emits fl (ReassignedTopic_put_entry kv)
      (wReassignedTopic_entry fl kv)"
  unfolding ReassignedTopic_put_entry_def wReassignedTopic_entry_def ReassignedTopic_entry_ok_def by (intro
      emits_rules; auto)

lemma reads_ReassignedTopic_entry [reads_rules]:
  assumes "ReassignedTopic_entry_ok fl kv"
  shows "reads fl (ReassignedTopic_get_entry) (wReassignedTopic_entry fl kv) kv"
  unfolding ReassignedTopic_get_entry_def wReassignedTopic_entry_def
  by (rule reads_conv, (rule reads_rules | (use assms in \<open>auto simp: ReassignedTopic_entry_ok_def;
      fail\<close>))+)

record AlterPartitionReassignmentsRequest =
  paq_version :: int16
  paq_timeout :: int64
  paq_blocks :: "(bytes \<times> (int \<times> AlterPartitionReassignmentsBlock) list) list"

definition AlterPartitionReassignmentsRequest_set_version :: "int16 \<Rightarrow>
    AlterPartitionReassignmentsRequest \<Rightarrow> AlterPartitionReassignmentsRequest" where
  "AlterPartitionReassignmentsRequest_set_version v m = m\<lparr>paq_version := v\<rparr>"

definition AlterPartitionReassignmentsRequest_encode :: "AlterPartitionReassignmentsRequest \<Rightarrow> unit
    enc" where
  "AlterPartitionReassignmentsRequest_encode m =
     then_p (putMillis32 (paq_timeout m))
    (then_p (then_p (err_as ErrEncodeError (putArrayLength (size32 (length (paq_blocks m)))))
            (for_each ReassignedTopic_put_entry (paq_blocks m)))
       putEmptyTaggedFieldArray)"

definition AlterPartitionReassignmentsRequest_decode :: "AlterPartitionReassignmentsRequest \<Rightarrow> int16
    \<Rightarrow> AlterPartitionReassignmentsRequest dec" where
  "AlterPartitionReassignmentsRequest_decode this version =
     bind_p (err_as ErrDecodeError getMillis32) (\<lambda>timeout.
     bind_p (bind_p (err_as ErrDecodeError getArrayLength) (\<lambda>n. put_all (\<lambda>(k, vs). smap_merge k
         vs) n ReassignedTopic_get_entry (paq_blocks this))) (\<lambda>blocks.
     bind_p getEmptyTaggedFieldArray (\<lambda>_.
       ret \<lparr>paq_version = version, paq_timeout = timeout, paq_blocks = blocks\<rparr>)))"

definition AlterPartitionReassignmentsRequest_is_flexible_version :: "int16 \<Rightarrow> bool" where
  "AlterPartitionReassignmentsRequest_is_flexible_version ver \<longleftrightarrow> sint ver \<ge> 0"

definition AlterPartitionReassignmentsRequest_required_version :: "int16 \<Rightarrow> KafkaVersion" where
  "AlterPartitionReassignmentsRequest_required_version v =
     (V2_4_0_0)"

definition AlterPartitionReassignmentsRequest_body :: "AlterPartitionReassignmentsRequest \<Rightarrow>
    protocol_body" where
  "AlterPartitionReassignmentsRequest_body m =
     \<lparr>pb_key = 45, pb_version = paq_version m,
      pb_header_version = 2,
      pb_is_valid_version = (sint (paq_version m) \<ge> 0 \<and> sint (paq_version m) \<le> 0),
      pb_is_flexible = AlterPartitionReassignmentsRequest_is_flexible_version (paq_version m),
      pb_is_flexible_version = AlterPartitionReassignmentsRequest_is_flexible_version,
      pb_required_version = AlterPartitionReassignmentsRequest_required_version (paq_version m),
      pb_encode = AlterPartitionReassignmentsRequest_encode m\<rparr>"

definition wAlterPartitionReassignmentsRequest :: "AlterPartitionReassignmentsRequest \<Rightarrow> bytes" where
  "wAlterPartitionReassignmentsRequest m =
     (let fl = AlterPartitionReassignmentsRequest_is_flexible_version (paq_version m) in
     wDurationMs (paq_timeout m) @ wArray fl (wReassignedTopic_entry fl) (paq_blocks m) @ wTags fl)"

definition AlterPartitionReassignmentsRequest_ok :: "AlterPartitionReassignmentsRequest \<Rightarrow> bool"
    where
  "AlterPartitionReassignmentsRequest_ok m \<longleftrightarrow>
     (let fl = AlterPartitionReassignmentsRequest_is_flexible_version (paq_version m) in
     duration_ok (paq_timeout m) \<and>
     len_ok fl (length (paq_blocks m)) \<and> (\<forall>kv \<in> set (paq_blocks m). ReassignedTopic_entry_ok
         fl kv))"

definition AlterPartitionReassignmentsRequest_seen :: "AlterPartitionReassignmentsRequest \<Rightarrow>
    AlterPartitionReassignmentsRequest \<Rightarrow> AlterPartitionReassignmentsRequest" where
  "AlterPartitionReassignmentsRequest_seen this m =
     m\<lparr>paq_blocks := fold (\<lambda>(k, vs). smap_merge k vs) (paq_blocks m) (paq_blocks this)\<rparr>"

interpretation paq: protocol_message AlterPartitionReassignmentsRequest_body
    AlterPartitionReassignmentsRequest_decode wAlterPartitionReassignmentsRequest
  AlterPartitionReassignmentsRequest_ok AlterPartitionReassignmentsRequest_seen
proof
  fix m this :: AlterPartitionReassignmentsRequest
  assume ok: "AlterPartitionReassignmentsRequest_ok m"
  show "emits (pb_is_flexible (AlterPartitionReassignmentsRequest_body m)) (pb_encode
      (AlterPartitionReassignmentsRequest_body m)) (wAlterPartitionReassignmentsRequest m)"
    unfolding AlterPartitionReassignmentsRequest_body_def AlterPartitionReassignmentsRequest_encode_def
        wAlterPartitionReassignmentsRequest_def Let_def protocol_body.simps
    by (intro emits_rules; use ok in \<open>auto simp: AlterPartitionReassignmentsRequest_ok_def Let_def
        \<close>)
  show "reads (pb_is_flexible (AlterPartitionReassignmentsRequest_body m))
      (AlterPartitionReassignmentsRequest_decode this (pb_version (AlterPartitionReassignmentsRequest_body m)))
      (wAlterPartitionReassignmentsRequest m) (AlterPartitionReassignmentsRequest_seen this m)"
    unfolding AlterPartitionReassignmentsRequest_body_def AlterPartitionReassignmentsRequest_decode_def
        wAlterPartitionReassignmentsRequest_def Let_def protocol_body.simps
    by (rule reads_conv, (rule reads_rules | (use ok in \<open>auto simp:
        AlterPartitionReassignmentsRequest_ok_def Let_def 
      AlterPartitionReassignmentsRequest_seen_def; fail\<close>))+)
qed (simp_all add: AlterPartitionReassignmentsRequest_body_def wAlterPartitionReassignmentsRequest_def Let_def)

definition AlterPartitionReassignmentsRequest_add_block :: "bytes \<Rightarrow> int \<Rightarrow> int32 list
    \<Rightarrow>
    AlterPartitionReassignmentsRequest \<Rightarrow> AlterPartitionReassignmentsRequest" where
  "AlterPartitionReassignmentsRequest_add_block topic partitionID replicas m =
     m\<lparr>paq_blocks := smap_merge topic [(partitionID, \<lparr>prb_replicas = replicas\<rparr>)]
         (paq_blocks m)\<rparr>"

definition AlterPartitionReassignmentsRequest_throttle_time :: "AlterPartitionReassignmentsRequest
    \<Rightarrow> int64" where
  "AlterPartitionReassignmentsRequest_throttle_time m = paq_timeout m"

text \<open>Into an object without blocks the request is read as it was written.\<close>

lemma alter_reassignments_fresh:
  assumes "AlterPartitionReassignmentsRequest_ok m" "smap (paq_blocks m)" "paq_blocks this = []"
  shows "AlterPartitionReassignmentsRequest_seen this m = m"
proof -
  have "\<forall>x \<in> set (paq_blocks m). smap (snd x)"
    using assms(1) by (auto simp: AlterPartitionReassignmentsRequest_ok_def ReassignedTopic_entry_ok_def
        Let_def)
  then show ?thesis using smap_merge_rebuild [of "[]" "paq_blocks m"] assms(2,3)
    by (simp add: AlterPartitionReassignmentsRequest_seen_def)
qed

record AlterPartitionReassignmentsErrorBlock =
  peb_code :: int16
  peb_message :: bytes

definition AlterPartitionReassignmentsErrorBlock_encode :: "AlterPartitionReassignmentsErrorBlock \<Rightarrow>
    unit enc" where
  "AlterPartitionReassignmentsErrorBlock_encode x =
     then_p (putKError (peb_code x))
    (then_p (err_as ErrEncodeError (putNullableString (peb_message x)))
       putEmptyTaggedFieldArray)"

definition AlterPartitionReassignmentsErrorBlock_decode :: "AlterPartitionReassignmentsErrorBlock dec" where
  "AlterPartitionReassignmentsErrorBlock_decode =
     bind_p (err_as ErrEncodeError getKError) (\<lambda>code.
     bind_p (err_as ErrEncodeError getNullableString) (\<lambda>message.
     bind_p getEmptyTaggedFieldArray (\<lambda>_.
       ret \<lparr>peb_code = code, peb_message = message\<rparr>)))"

definition wAlterPartitionReassignmentsErrorBlock :: "bool \<Rightarrow> AlterPartitionReassignmentsErrorBlock
    \<Rightarrow> bytes" where
  "wAlterPartitionReassignmentsErrorBlock fl x =
     be16 (peb_code x) @ wNullableString fl (peb_message x) @ wTags fl"

definition AlterPartitionReassignmentsErrorBlock_ok :: "bool \<Rightarrow>
    AlterPartitionReassignmentsErrorBlock \<Rightarrow> bool" where
  "AlterPartitionReassignmentsErrorBlock_ok fl x \<longleftrightarrow>
     string_ok fl (peb_message x)"

lemma emits_AlterPartitionReassignmentsErrorBlock [emits_rules]:
  "AlterPartitionReassignmentsErrorBlock_ok fl x \<Longrightarrow> emits fl
      (AlterPartitionReassignmentsErrorBlock_encode x) (wAlterPartitionReassignmentsErrorBlock fl x)"
  unfolding AlterPartitionReassignmentsErrorBlock_encode_def wAlterPartitionReassignmentsErrorBlock_def
      AlterPartitionReassignmentsErrorBlock_ok_def by (intro emits_rules; auto)

lemma reads_AlterPartitionReassignmentsErrorBlock [reads_rules]:
  assumes "AlterPartitionReassignmentsErrorBlock_ok fl x"
  shows "reads fl (AlterPartitionReassignmentsErrorBlock_decode) (wAlterPartitionReassignmentsErrorBlock fl x)
      x"
  unfolding AlterPartitionReassignmentsErrorBlock_decode_def wAlterPartitionReassignmentsErrorBlock_def
  by (rule reads_conv, (rule reads_rules | (use assms in \<open>auto simp:
      AlterPartitionReassignmentsErrorBlock_ok_def; fail\<close>))+)

definition ReassignErrorPartition_put_entry :: "int \<times> AlterPartitionReassignmentsErrorBlock
    \<Rightarrow> unit enc" where
  "ReassignErrorPartition_put_entry kv =
     then_p (putInt32 (word_of_int (fst kv)))
       (err_as ErrEncodeError (AlterPartitionReassignmentsErrorBlock_encode (snd kv)))"

definition ReassignErrorPartition_get_entry :: "(int \<times> AlterPartitionReassignmentsErrorBlock) dec" where
  "ReassignErrorPartition_get_entry =
     bind_p (err_as ErrDecodeError (bind_p getInt32 (\<lambda>p. ret (sint p)))) (\<lambda>k.
     bind_p (err_as ErrDecodeError AlterPartitionReassignmentsErrorBlock_decode) (\<lambda>v.
       ret (k, v)))"

definition wReassignErrorPartition_entry :: "bool \<Rightarrow> int \<times>
    AlterPartitionReassignmentsErrorBlock \<Rightarrow> bytes" where
  "wReassignErrorPartition_entry fl kv =
     be32 (word_of_int (fst kv)) @ wAlterPartitionReassignmentsErrorBlock fl (snd kv)"

definition ReassignErrorPartition_entry_ok :: "bool \<Rightarrow> int \<times>
    AlterPartitionReassignmentsErrorBlock \<Rightarrow> bool" where
  "ReassignErrorPartition_entry_ok fl kv \<longleftrightarrow>
     sint (word_of_int (fst kv) :: int32) = (fst kv) \<and>
     AlterPartitionReassignmentsErrorBlock_ok fl (snd kv)"

lemma emits_ReassignErrorPartition_entry [emits_rules]:
  "ReassignErrorPartition_entry_ok fl kv \<Longrightarrow> emits fl (ReassignErrorPartition_put_entry kv)
      (wReassignErrorPartition_entry fl kv)"
  unfolding ReassignErrorPartition_put_entry_def wReassignErrorPartition_entry_def
      ReassignErrorPartition_entry_ok_def by (intro emits_rules; auto)

lemma reads_ReassignErrorPartition_entry [reads_rules]:
  assumes "ReassignErrorPartition_entry_ok fl kv"
  shows "reads fl (ReassignErrorPartition_get_entry) (wReassignErrorPartition_entry fl kv) kv"
  unfolding ReassignErrorPartition_get_entry_def wReassignErrorPartition_entry_def
  by (rule reads_conv, (rule reads_rules | (use assms in \<open>auto simp: ReassignErrorPartition_entry_ok_def;
      fail\<close>))+)

definition ReassignErrorTopic_put_entry :: "bytes \<times> (int \<times> AlterPartitionReassignmentsErrorBlock)
    list \<Rightarrow> unit enc" where
  "ReassignErrorTopic_put_entry kv =
     then_p (err_as ErrEncodeError (putString (fst kv)))
    (then_p (then_p (err_as ErrEncodeError (putArrayLength (size32 (length (snd kv)))))
            (for_each ReassignErrorPartition_put_entry (snd kv)))
       putEmptyTaggedFieldArray)"

definition ReassignErrorTopic_get_entry :: "(bytes \<times> (int \<times>
    AlterPartitionReassignmentsErrorBlock) list) dec" where
  "ReassignErrorTopic_get_entry =
     bind_p (err_as ErrDecodeError getString) (\<lambda>k.
     bind_p (bind_p (err_as ErrDecodeError getArrayLength) (\<lambda>n. put_all (\<lambda>(k, v). smap_put k v)
         n ReassignErrorPartition_get_entry [])) (\<lambda>v.
     bind_p (err_as ErrDecodeError getEmptyTaggedFieldArray) (\<lambda>_.
       ret (k, v))))"

definition wReassignErrorTopic_entry :: "bool \<Rightarrow> bytes \<times> (int \<times>
    AlterPartitionReassignmentsErrorBlock) list \<Rightarrow> bytes" where
  "wReassignErrorTopic_entry fl kv =
     wString fl (fst kv) @ wArray fl (wReassignErrorPartition_entry fl) (snd kv) @ wTags fl"

definition ReassignErrorTopic_entry_ok :: "bool \<Rightarrow> bytes \<times> (int \<times>
    AlterPartitionReassignmentsErrorBlock) list \<Rightarrow> bool" where
  "ReassignErrorTopic_entry_ok fl kv \<longleftrightarrow>
     string_ok fl (fst kv) \<and> len_ok fl (length (snd kv)) \<and>
     (\<forall>kv \<in> set (snd kv). ReassignErrorPartition_entry_ok fl kv) \<and> smap (snd kv)"

lemma ReassignErrorTopic_entry_ok_smap [dest]: "ReassignErrorTopic_entry_ok fl kv \<Longrightarrow> smap (snd
    kv)"
  by (simp add: ReassignErrorTopic_entry_ok_def)

lemma emits_ReassignErrorTopic_entry [emits_rules]:
  "ReassignErrorTopic_entry_ok fl kv \<Longrightarrow> emits fl (ReassignErrorTopic_put_entry kv)
      (wReassignErrorTopic_entry fl kv)"
  unfolding ReassignErrorTopic_put_entry_def wReassignErrorTopic_entry_def ReassignErrorTopic_entry_ok_def by
      (intro emits_rules; auto)

lemma reads_ReassignErrorTopic_entry [reads_rules]:
  assumes "ReassignErrorTopic_entry_ok fl kv"
  shows "reads fl (ReassignErrorTopic_get_entry) (wReassignErrorTopic_entry fl kv) kv"
  unfolding ReassignErrorTopic_get_entry_def wReassignErrorTopic_entry_def
  by (rule reads_conv, (rule reads_rules | (use assms in \<open>auto simp: ReassignErrorTopic_entry_ok_def;
      fail\<close>))+)

record AlterPartitionReassignmentsResponse =
  paz_version :: int16
  paz_throttle_time :: int64
  paz_code :: int16
  paz_message :: bytes
  paz_errors :: "(bytes \<times> (int \<times> AlterPartitionReassignmentsErrorBlock) list) list"

definition AlterPartitionReassignmentsResponse_set_version :: "int16 \<Rightarrow>
    AlterPartitionReassignmentsResponse \<Rightarrow> AlterPartitionReassignmentsResponse" where
  "AlterPartitionReassignmentsResponse_set_version v m = m\<lparr>paz_version := v\<rparr>"

definition AlterPartitionReassignmentsResponse_encode :: "AlterPartitionReassignmentsResponse \<Rightarrow>
    unit enc" where
  "AlterPartitionReassignmentsResponse_encode m =
     then_p (putDurationMs (paz_throttle_time m))
    (then_p (putKError (paz_code m))
    (then_p (err_as ErrEncodeError (putNullableString (paz_message m)))
    (then_p (then_p (err_as ErrEncodeError (putArrayLength (size32 (length (paz_errors m)))))
            (for_each ReassignErrorTopic_put_entry (paz_errors m)))
       putEmptyTaggedFieldArray)))"

definition AlterPartitionReassignmentsResponse_decode :: "AlterPartitionReassignmentsResponse \<Rightarrow>
    int16 \<Rightarrow> AlterPartitionReassignmentsResponse dec" where
  "AlterPartitionReassignmentsResponse_decode this version =
     bind_p (err_as ErrDecodeError getDurationMs) (\<lambda>throttle_time.
     bind_p (err_as ErrDecodeError getKError) (\<lambda>code.
     bind_p (err_as ErrDecodeError getNullableString) (\<lambda>message.
     bind_p (bind_p (err_as ErrDecodeError getArrayLength) (\<lambda>n. put_all (\<lambda>(k, vs). smap_merge k
         vs) n ReassignErrorTopic_get_entry (paz_errors this))) (\<lambda>errors.
     bind_p getEmptyTaggedFieldArray (\<lambda>_.
       ret \<lparr>paz_version = version, paz_throttle_time = throttle_time, paz_code = code, paz_message =
         message, paz_errors = errors\<rparr>)))))"

definition AlterPartitionReassignmentsResponse_is_flexible_version :: "int16 \<Rightarrow> bool" where
  "AlterPartitionReassignmentsResponse_is_flexible_version ver \<longleftrightarrow> sint ver \<ge> 0"

definition AlterPartitionReassignmentsResponse_required_version :: "int16 \<Rightarrow> KafkaVersion" where
  "AlterPartitionReassignmentsResponse_required_version v =
     (V2_4_0_0)"

definition AlterPartitionReassignmentsResponse_body :: "AlterPartitionReassignmentsResponse \<Rightarrow>
    protocol_body" where
  "AlterPartitionReassignmentsResponse_body m =
     \<lparr>pb_key = 45, pb_version = paz_version m,
      pb_header_version = 1,
      pb_is_valid_version = (sint (paz_version m) \<ge> 0 \<and> sint (paz_version m) \<le> 0),
      pb_is_flexible = AlterPartitionReassignmentsResponse_is_flexible_version (paz_version m),
      pb_is_flexible_version = AlterPartitionReassignmentsResponse_is_flexible_version,
      pb_required_version = AlterPartitionReassignmentsResponse_required_version (paz_version m),
      pb_encode = AlterPartitionReassignmentsResponse_encode m\<rparr>"

definition wAlterPartitionReassignmentsResponse :: "AlterPartitionReassignmentsResponse \<Rightarrow> bytes"
    where
  "wAlterPartitionReassignmentsResponse m =
     (let fl = AlterPartitionReassignmentsResponse_is_flexible_version (paz_version m) in
     wDurationMs (paz_throttle_time m) @ be16 (paz_code m) @ wNullableString fl (paz_message m) @
     wArray fl (wReassignErrorTopic_entry fl) (paz_errors m) @ wTags fl)"

definition AlterPartitionReassignmentsResponse_ok :: "AlterPartitionReassignmentsResponse \<Rightarrow> bool"
    where
  "AlterPartitionReassignmentsResponse_ok m \<longleftrightarrow>
     (let fl = AlterPartitionReassignmentsResponse_is_flexible_version (paz_version m) in
     duration_ok (paz_throttle_time m) \<and> string_ok fl (paz_message m) \<and>
     len_ok fl (length (paz_errors m)) \<and> (\<forall>kv \<in> set (paz_errors m).
         ReassignErrorTopic_entry_ok fl kv))"

definition AlterPartitionReassignmentsResponse_seen :: "AlterPartitionReassignmentsResponse \<Rightarrow>
    AlterPartitionReassignmentsResponse \<Rightarrow> AlterPartitionReassignmentsResponse" where
  "AlterPartitionReassignmentsResponse_seen this m =
     m\<lparr>paz_errors := fold (\<lambda>(k, vs). smap_merge k vs) (paz_errors m) (paz_errors this)\<rparr>"

interpretation paz: protocol_message AlterPartitionReassignmentsResponse_body
    AlterPartitionReassignmentsResponse_decode wAlterPartitionReassignmentsResponse
  AlterPartitionReassignmentsResponse_ok AlterPartitionReassignmentsResponse_seen
proof
  fix m this :: AlterPartitionReassignmentsResponse
  assume ok: "AlterPartitionReassignmentsResponse_ok m"
  show "emits (pb_is_flexible (AlterPartitionReassignmentsResponse_body m)) (pb_encode
      (AlterPartitionReassignmentsResponse_body m)) (wAlterPartitionReassignmentsResponse m)"
    unfolding AlterPartitionReassignmentsResponse_body_def AlterPartitionReassignmentsResponse_encode_def
        wAlterPartitionReassignmentsResponse_def Let_def protocol_body.simps
    by (intro emits_rules; use ok in \<open>auto simp: AlterPartitionReassignmentsResponse_ok_def Let_def
        \<close>)
  show "reads (pb_is_flexible (AlterPartitionReassignmentsResponse_body m))
      (AlterPartitionReassignmentsResponse_decode this (pb_version (AlterPartitionReassignmentsResponse_body
      m)))
      (wAlterPartitionReassignmentsResponse m) (AlterPartitionReassignmentsResponse_seen this m)"
    unfolding AlterPartitionReassignmentsResponse_body_def AlterPartitionReassignmentsResponse_decode_def
        wAlterPartitionReassignmentsResponse_def Let_def protocol_body.simps
    by (rule reads_conv, (rule reads_rules | (use ok in \<open>auto simp:
        AlterPartitionReassignmentsResponse_ok_def Let_def 
      AlterPartitionReassignmentsResponse_seen_def; fail\<close>))+)
qed (simp_all add: AlterPartitionReassignmentsResponse_body_def wAlterPartitionReassignmentsResponse_def
    Let_def)

definition AlterPartitionReassignmentsResponse_throttle_time :: "AlterPartitionReassignmentsResponse
    \<Rightarrow> int64" where
  "AlterPartitionReassignmentsResponse_throttle_time m = paz_throttle_time m"

definition AlterPartitionReassignmentsResponse_add_error :: "bytes \<Rightarrow> int \<Rightarrow> int16
    \<Rightarrow> bytes \<Rightarrow>
    AlterPartitionReassignmentsResponse \<Rightarrow> AlterPartitionReassignmentsResponse" where
  "AlterPartitionReassignmentsResponse_add_error topic pid kerror message m =
     m\<lparr>paz_errors := smap_merge topic [(pid, \<lparr>peb_code = kerror, peb_message = message\<rparr>)]
         (paz_errors m)\<rparr>"

section \<open>ListPartitionReassignments\<close>

definition ListedPartitions_put_entry :: "bytes \<times> int32 list \<Rightarrow> unit enc" where
  "ListedPartitions_put_entry kv =
     then_p (putString (fst kv))
    (then_p (putInt32Array (snd kv))
       putEmptyTaggedFieldArray)"

definition ListedPartitions_get_entry :: "(bytes \<times> int32 list) dec" where
  "ListedPartitions_get_entry =
     bind_p getString (\<lambda>k.
     bind_p getInt32s (\<lambda>v.
     bind_p getEmptyTaggedFieldArray (\<lambda>_.
       ret (k, v))))"

definition wListedPartitions_entry :: "bool \<Rightarrow> bytes \<times> int32 list \<Rightarrow> bytes" where
  "wListedPartitions_entry fl kv =
     wString fl (fst kv) @ wInt32Array fl (snd kv) @ wTags fl"

definition ListedPartitions_entry_ok :: "bool \<Rightarrow> bytes \<times> int32 list \<Rightarrow> bool" where
  "ListedPartitions_entry_ok fl kv \<longleftrightarrow>
     string_ok fl (fst kv) \<and> len_ok fl (length (snd kv))"

lemma emits_ListedPartitions_entry [emits_rules]:
  "ListedPartitions_entry_ok fl kv \<Longrightarrow> emits fl (ListedPartitions_put_entry kv)
      (wListedPartitions_entry fl kv)"
  unfolding ListedPartitions_put_entry_def wListedPartitions_entry_def ListedPartitions_entry_ok_def by (intro
      emits_rules; auto)

lemma reads_ListedPartitions_entry [reads_rules]:
  assumes "ListedPartitions_entry_ok fl kv"
  shows "reads fl (ListedPartitions_get_entry) (wListedPartitions_entry fl kv) kv"
  unfolding ListedPartitions_get_entry_def wListedPartitions_entry_def
  by (rule reads_conv, (rule reads_rules | (use assms in \<open>auto simp: ListedPartitions_entry_ok_def;
      fail\<close>))+)

text \<open>\<open>reserve\<close> is called for a positive count only.\<close>

record ListPartitionReassignmentsRequest =
  plq_version :: int16
  plq_timeout :: int64
  plq_blocks :: "(bytes \<times> int32 list) list"

definition ListPartitionReassignmentsRequest_set_version :: "int16 \<Rightarrow>
    ListPartitionReassignmentsRequest \<Rightarrow> ListPartitionReassignmentsRequest" where
  "ListPartitionReassignmentsRequest_set_version v m = m\<lparr>plq_version := v\<rparr>"

definition ListPartitionReassignmentsRequest_encode :: "ListPartitionReassignmentsRequest \<Rightarrow> unit
    enc" where
  "ListPartitionReassignmentsRequest_encode m =
     then_p (putMillis32 (plq_timeout m))
    (then_p (then_p (putArrayLength (size32 (length (plq_blocks m))))
            (for_each ListedPartitions_put_entry (plq_blocks m)))
       putEmptyTaggedFieldArray)"

definition ListPartitionReassignmentsRequest_decode :: "ListPartitionReassignmentsRequest \<Rightarrow> int16
    \<Rightarrow> ListPartitionReassignmentsRequest dec" where
  "ListPartitionReassignmentsRequest_decode this version =
     bind_p getMillis32 (\<lambda>timeout.
     bind_p (bind_p getArrayLength (\<lambda>n. put_all (\<lambda>(k, v). AList.update k v) n
         ListedPartitions_get_entry [])) (\<lambda>blocks.
     bind_p getEmptyTaggedFieldArray (\<lambda>_.
       ret \<lparr>plq_version = version, plq_timeout = timeout, plq_blocks = blocks\<rparr>)))"

definition ListPartitionReassignmentsRequest_is_flexible_version :: "int16 \<Rightarrow> bool" where
  "ListPartitionReassignmentsRequest_is_flexible_version ver \<longleftrightarrow> True"

definition ListPartitionReassignmentsRequest_required_version :: "int16 \<Rightarrow> KafkaVersion" where
  "ListPartitionReassignmentsRequest_required_version v =
     (V2_4_0_0)"

definition ListPartitionReassignmentsRequest_body :: "ListPartitionReassignmentsRequest \<Rightarrow>
    protocol_body" where
  "ListPartitionReassignmentsRequest_body m =
     \<lparr>pb_key = 46, pb_version = plq_version m,
      pb_header_version = 2,
      pb_is_valid_version = (sint (plq_version m) \<ge> 0 \<and> sint (plq_version m) \<le> 1),
      pb_is_flexible = ListPartitionReassignmentsRequest_is_flexible_version (plq_version m),
      pb_is_flexible_version = ListPartitionReassignmentsRequest_is_flexible_version,
      pb_required_version = ListPartitionReassignmentsRequest_required_version (plq_version m),
      pb_encode = ListPartitionReassignmentsRequest_encode m\<rparr>"

definition wListPartitionReassignmentsRequest :: "ListPartitionReassignmentsRequest \<Rightarrow> bytes" where
  "wListPartitionReassignmentsRequest m =
     (let fl = ListPartitionReassignmentsRequest_is_flexible_version (plq_version m) in
     wDurationMs (plq_timeout m) @ wArray fl (wListedPartitions_entry fl) (plq_blocks m) @ wTags fl)"

definition ListPartitionReassignmentsRequest_ok :: "ListPartitionReassignmentsRequest \<Rightarrow> bool" where
  "ListPartitionReassignmentsRequest_ok m \<longleftrightarrow>
     (let fl = ListPartitionReassignmentsRequest_is_flexible_version (plq_version m) in
     duration_ok (plq_timeout m) \<and> len_ok fl (length (plq_blocks m)) \<and>
     (\<forall>kv \<in> set (plq_blocks m). ListedPartitions_entry_ok fl kv) \<and>
     distinct (map fst (plq_blocks m)))"

definition ListPartitionReassignmentsRequest_seen :: "ListPartitionReassignmentsRequest \<Rightarrow>
    ListPartitionReassignmentsRequest \<Rightarrow> ListPartitionReassignmentsRequest" where
  "ListPartitionReassignmentsRequest_seen this m =
     m"

interpretation plq: protocol_message ListPartitionReassignmentsRequest_body
    ListPartitionReassignmentsRequest_decode wListPartitionReassignmentsRequest
  ListPartitionReassignmentsRequest_ok ListPartitionReassignmentsRequest_seen
proof
  fix m this :: ListPartitionReassignmentsRequest
  assume ok: "ListPartitionReassignmentsRequest_ok m"
  show "emits (pb_is_flexible (ListPartitionReassignmentsRequest_body m)) (pb_encode
      (ListPartitionReassignmentsRequest_body m)) (wListPartitionReassignmentsRequest m)"
    unfolding ListPartitionReassignmentsRequest_body_def ListPartitionReassignmentsRequest_encode_def
        wListPartitionReassignmentsRequest_def Let_def protocol_body.simps
    by (intro emits_rules; use ok in \<open>auto simp: ListPartitionReassignmentsRequest_ok_def Let_def
        \<close>)
  show "reads (pb_is_flexible (ListPartitionReassignmentsRequest_body m))
      (ListPartitionReassignmentsRequest_decode this (pb_version (ListPartitionReassignmentsRequest_body m)))
      (wListPartitionReassignmentsRequest m) (ListPartitionReassignmentsRequest_seen this m)"
    unfolding ListPartitionReassignmentsRequest_body_def ListPartitionReassignmentsRequest_decode_def
        wListPartitionReassignmentsRequest_def Let_def protocol_body.simps
    by (rule reads_conv, (rule reads_rules | (use ok in \<open>auto simp:
        ListPartitionReassignmentsRequest_ok_def Let_def 
      ListPartitionReassignmentsRequest_seen_def; fail\<close>))+)
qed (simp_all add: ListPartitionReassignmentsRequest_body_def wListPartitionReassignmentsRequest_def Let_def)

definition ListPartitionReassignmentsRequest_add_block :: "bytes \<Rightarrow> int32 list \<Rightarrow>
    ListPartitionReassignmentsRequest \<Rightarrow> ListPartitionReassignmentsRequest" where
  "ListPartitionReassignmentsRequest_add_block topic partitionIDs m = m\<lparr>plq_blocks := AList.update topic
      partitionIDs (plq_blocks m)\<rparr>"

record PartitionReplicaReassignmentsStatus =
  pls_replicas :: "int32 list"
  pls_adding_replicas :: "int32 list"
  pls_removing_replicas :: "int32 list"

definition PartitionReplicaReassignmentsStatus_encode :: "PartitionReplicaReassignmentsStatus \<Rightarrow>
    unit enc" where
  "PartitionReplicaReassignmentsStatus_encode x =
     then_p (putInt32Array (pls_replicas x))
    (then_p (putInt32Array (pls_adding_replicas x))
    (then_p (putInt32Array (pls_removing_replicas x))
       putEmptyTaggedFieldArray))"

definition PartitionReplicaReassignmentsStatus_decode :: "PartitionReplicaReassignmentsStatus dec" where
  "PartitionReplicaReassignmentsStatus_decode =
     bind_p getInt32Array (\<lambda>replicas.
     bind_p getInt32Array (\<lambda>adding_replicas.
     bind_p getInt32Array (\<lambda>removing_replicas.
     bind_p getEmptyTaggedFieldArray (\<lambda>_.
       ret \<lparr>pls_replicas = replicas, pls_adding_replicas = adding_replicas, pls_removing_replicas =
           removing_replicas\<rparr>))))"

definition wPartitionReplicaReassignmentsStatus :: "bool \<Rightarrow> PartitionReplicaReassignmentsStatus
    \<Rightarrow> bytes" where
  "wPartitionReplicaReassignmentsStatus fl x =
     wInt32Array fl (pls_replicas x) @ wInt32Array fl (pls_adding_replicas x) @
     wInt32Array fl (pls_removing_replicas x) @ wTags fl"

definition PartitionReplicaReassignmentsStatus_ok :: "bool \<Rightarrow> PartitionReplicaReassignmentsStatus
    \<Rightarrow> bool" where
  "PartitionReplicaReassignmentsStatus_ok fl x \<longleftrightarrow>
     len_ok fl (length (pls_replicas x)) \<and> len_ok fl (length (pls_adding_replicas x)) \<and>
     len_ok fl (length (pls_removing_replicas x))"

lemma emits_PartitionReplicaReassignmentsStatus [emits_rules]:
  "PartitionReplicaReassignmentsStatus_ok fl x \<Longrightarrow> emits fl
      (PartitionReplicaReassignmentsStatus_encode x) (wPartitionReplicaReassignmentsStatus fl x)"
  unfolding PartitionReplicaReassignmentsStatus_encode_def wPartitionReplicaReassignmentsStatus_def
      PartitionReplicaReassignmentsStatus_ok_def by (intro emits_rules; auto)

lemma reads_PartitionReplicaReassignmentsStatus [reads_rules]:
  assumes "PartitionReplicaReassignmentsStatus_ok fl x"
  shows "reads fl (PartitionReplicaReassignmentsStatus_decode) (wPartitionReplicaReassignmentsStatus fl x) x"
  unfolding PartitionReplicaReassignmentsStatus_decode_def wPartitionReplicaReassignmentsStatus_def
  by (rule reads_conv, (rule reads_rules | (use assms in \<open>auto simp:
      PartitionReplicaReassignmentsStatus_ok_def; fail\<close>))+)

definition StatusPartition_put_entry :: "int \<times> PartitionReplicaReassignmentsStatus \<Rightarrow> unit
    enc" where
  "StatusPartition_put_entry kv =
     then_p (putInt32 (word_of_int (fst kv)))
       (PartitionReplicaReassignmentsStatus_encode (snd kv))"

definition StatusPartition_get_entry :: "(int \<times> PartitionReplicaReassignmentsStatus) dec" where
  "StatusPartition_get_entry =
     bind_p (bind_p getInt32 (\<lambda>p. ret (sint p))) (\<lambda>k.
     bind_p PartitionReplicaReassignmentsStatus_decode (\<lambda>v.
       ret (k, v)))"

definition wStatusPartition_entry :: "bool \<Rightarrow> int \<times> PartitionReplicaReassignmentsStatus
    \<Rightarrow> bytes" where
  "wStatusPartition_entry fl kv =
     be32 (word_of_int (fst kv)) @ wPartitionReplicaReassignmentsStatus fl (snd kv)"

definition StatusPartition_entry_ok :: "bool \<Rightarrow> int \<times> PartitionReplicaReassignmentsStatus
    \<Rightarrow> bool" where
  "StatusPartition_entry_ok fl kv \<longleftrightarrow>
     sint (word_of_int (fst kv) :: int32) = (fst kv) \<and> PartitionReplicaReassignmentsStatus_ok fl (snd kv)"

lemma emits_StatusPartition_entry [emits_rules]:
  "StatusPartition_entry_ok fl kv \<Longrightarrow> emits fl (StatusPartition_put_entry kv)
      (wStatusPartition_entry fl kv)"
  unfolding StatusPartition_put_entry_def wStatusPartition_entry_def StatusPartition_entry_ok_def by (intro
      emits_rules; auto)

lemma reads_StatusPartition_entry [reads_rules]:
  assumes "StatusPartition_entry_ok fl kv"
  shows "reads fl (StatusPartition_get_entry) (wStatusPartition_entry fl kv) kv"
  unfolding StatusPartition_get_entry_def wStatusPartition_entry_def
  by (rule reads_conv, (rule reads_rules | (use assms in \<open>auto simp: StatusPartition_entry_ok_def;
      fail\<close>))+)

definition StatusTopic_put_entry :: "bytes \<times> (int \<times> PartitionReplicaReassignmentsStatus) list
    \<Rightarrow> unit enc" where
  "StatusTopic_put_entry kv =
     then_p (putString (fst kv))
    (then_p (then_p (putArrayLength (size32 (length (snd kv))))
            (for_each StatusPartition_put_entry (snd kv)))
       putEmptyTaggedFieldArray)"

definition StatusTopic_get_entry :: "(bytes \<times> (int \<times> PartitionReplicaReassignmentsStatus) list)
    dec" where
  "StatusTopic_get_entry =
     bind_p getString (\<lambda>k.
     bind_p (bind_p getArrayLength (\<lambda>n. put_all (\<lambda>(k, v). smap_put k v) n
         StatusPartition_get_entry [])) (\<lambda>v.
     bind_p getEmptyTaggedFieldArray (\<lambda>_.
       ret (k, v))))"

definition wStatusTopic_entry :: "bool \<Rightarrow> bytes \<times> (int \<times>
    PartitionReplicaReassignmentsStatus) list \<Rightarrow> bytes" where
  "wStatusTopic_entry fl kv =
     wString fl (fst kv) @ wArray fl (wStatusPartition_entry fl) (snd kv) @ wTags fl"

definition StatusTopic_entry_ok :: "bool \<Rightarrow> bytes \<times> (int \<times>
    PartitionReplicaReassignmentsStatus) list \<Rightarrow> bool" where
  "StatusTopic_entry_ok fl kv \<longleftrightarrow>
     string_ok fl (fst kv) \<and> len_ok fl (length (snd kv)) \<and>
     (\<forall>kv \<in> set (snd kv). StatusPartition_entry_ok fl kv) \<and> smap (snd kv)"

lemma StatusTopic_entry_ok_smap [dest]: "StatusTopic_entry_ok fl kv \<Longrightarrow> smap (snd kv)"
  by (simp add: StatusTopic_entry_ok_def)

lemma emits_StatusTopic_entry [emits_rules]:
  "StatusTopic_entry_ok fl kv \<Longrightarrow> emits fl (StatusTopic_put_entry kv) (wStatusTopic_entry fl kv)"
  unfolding StatusTopic_put_entry_def wStatusTopic_entry_def StatusTopic_entry_ok_def by (intro emits_rules;
      auto)

lemma reads_StatusTopic_entry [reads_rules]:
  assumes "StatusTopic_entry_ok fl kv"
  shows "reads fl (StatusTopic_get_entry) (wStatusTopic_entry fl kv) kv"
  unfolding StatusTopic_get_entry_def wStatusTopic_entry_def
  by (rule reads_conv, (rule reads_rules | (use assms in \<open>auto simp: StatusTopic_entry_ok_def;
      fail\<close>))+)

record ListPartitionReassignmentsResponse =
  plz_version :: int16
  plz_throttle_time :: int64
  plz_err :: int16
  plz_message :: bytes
  plz_topic_status :: "(bytes \<times> (int \<times> PartitionReplicaReassignmentsStatus) list) list"

definition ListPartitionReassignmentsResponse_set_version :: "int16 \<Rightarrow>
    ListPartitionReassignmentsResponse \<Rightarrow> ListPartitionReassignmentsResponse" where
  "ListPartitionReassignmentsResponse_set_version v m = m\<lparr>plz_version := v\<rparr>"

definition ListPartitionReassignmentsResponse_encode :: "ListPartitionReassignmentsResponse \<Rightarrow> unit
    enc" where
  "ListPartitionReassignmentsResponse_encode m =
     then_p (putDurationMs (plz_throttle_time m))
    (then_p (putKError (plz_err m))
    (then_p (putNullableString (plz_message m))
    (then_p (then_p (putArrayLength (size32 (length (plz_topic_status m))))
            (for_each StatusTopic_put_entry (plz_topic_status m)))
       putEmptyTaggedFieldArray)))"

definition ListPartitionReassignmentsResponse_decode :: "ListPartitionReassignmentsResponse \<Rightarrow> int16
    \<Rightarrow> ListPartitionReassignmentsResponse dec" where
  "ListPartitionReassignmentsResponse_decode this version =
     bind_p getDurationMs (\<lambda>throttle_time.
     bind_p getKError (\<lambda>err.
     bind_p getNullableString (\<lambda>message.
     bind_p (bind_p getArrayLength (\<lambda>n. put_all (\<lambda>(k, vs). smap_merge k vs) n
         StatusTopic_get_entry [])) (\<lambda>topic_status.
     bind_p getEmptyTaggedFieldArray (\<lambda>_.
       ret \<lparr>plz_version = version, plz_throttle_time = throttle_time, plz_err = err, plz_message =
         message, plz_topic_status = topic_status\<rparr>)))))"

definition ListPartitionReassignmentsResponse_is_flexible_version :: "int16 \<Rightarrow> bool" where
  "ListPartitionReassignmentsResponse_is_flexible_version ver \<longleftrightarrow> True"

definition ListPartitionReassignmentsResponse_required_version :: "int16 \<Rightarrow> KafkaVersion" where
  "ListPartitionReassignmentsResponse_required_version v =
     (V2_4_0_0)"

definition ListPartitionReassignmentsResponse_body :: "ListPartitionReassignmentsResponse \<Rightarrow>
    protocol_body" where
  "ListPartitionReassignmentsResponse_body m =
     \<lparr>pb_key = 46, pb_version = plz_version m,
      pb_header_version = 1,
      pb_is_valid_version = (sint (plz_version m) \<ge> 0 \<and> sint (plz_version m) \<le> 1),
      pb_is_flexible = ListPartitionReassignmentsResponse_is_flexible_version (plz_version m),
      pb_is_flexible_version = ListPartitionReassignmentsResponse_is_flexible_version,
      pb_required_version = ListPartitionReassignmentsResponse_required_version (plz_version m),
      pb_encode = ListPartitionReassignmentsResponse_encode m\<rparr>"

definition wListPartitionReassignmentsResponse :: "ListPartitionReassignmentsResponse \<Rightarrow> bytes" where
  "wListPartitionReassignmentsResponse m =
     (let fl = ListPartitionReassignmentsResponse_is_flexible_version (plz_version m) in
     wDurationMs (plz_throttle_time m) @ be16 (plz_err m) @ wNullableString fl (plz_message m) @
     wArray fl (wStatusTopic_entry fl) (plz_topic_status m) @ wTags fl)"

definition ListPartitionReassignmentsResponse_ok :: "ListPartitionReassignmentsResponse \<Rightarrow> bool"
    where
  "ListPartitionReassignmentsResponse_ok m \<longleftrightarrow>
     (let fl = ListPartitionReassignmentsResponse_is_flexible_version (plz_version m) in
     duration_ok (plz_throttle_time m) \<and> string_ok fl (plz_message m) \<and>
     len_ok fl (length (plz_topic_status m)) \<and>
     (\<forall>kv \<in> set (plz_topic_status m). StatusTopic_entry_ok fl kv) \<and> smap (plz_topic_status m))"

definition ListPartitionReassignmentsResponse_seen :: "ListPartitionReassignmentsResponse \<Rightarrow>
    ListPartitionReassignmentsResponse \<Rightarrow> ListPartitionReassignmentsResponse" where
  "ListPartitionReassignmentsResponse_seen this m =
     m"

interpretation plz: protocol_message ListPartitionReassignmentsResponse_body
    ListPartitionReassignmentsResponse_decode wListPartitionReassignmentsResponse
  ListPartitionReassignmentsResponse_ok ListPartitionReassignmentsResponse_seen
proof
  fix m this :: ListPartitionReassignmentsResponse
  assume ok: "ListPartitionReassignmentsResponse_ok m"
  show "emits (pb_is_flexible (ListPartitionReassignmentsResponse_body m)) (pb_encode
      (ListPartitionReassignmentsResponse_body m)) (wListPartitionReassignmentsResponse m)"
    unfolding ListPartitionReassignmentsResponse_body_def ListPartitionReassignmentsResponse_encode_def
        wListPartitionReassignmentsResponse_def Let_def protocol_body.simps
    by (intro emits_rules; use ok in \<open>auto simp: ListPartitionReassignmentsResponse_ok_def Let_def
        \<close>)
  show "reads (pb_is_flexible (ListPartitionReassignmentsResponse_body m))
      (ListPartitionReassignmentsResponse_decode this (pb_version (ListPartitionReassignmentsResponse_body m)))
      (wListPartitionReassignmentsResponse m) (ListPartitionReassignmentsResponse_seen this m)"
    unfolding ListPartitionReassignmentsResponse_body_def ListPartitionReassignmentsResponse_decode_def
        wListPartitionReassignmentsResponse_def Let_def protocol_body.simps
    by (rule reads_conv, (rule reads_rules | (use ok in \<open>auto simp:
        ListPartitionReassignmentsResponse_ok_def Let_def 
      ListPartitionReassignmentsResponse_seen_def; fail\<close>))+)
qed (simp_all add: ListPartitionReassignmentsResponse_body_def wListPartitionReassignmentsResponse_def Let_def)

definition ListPartitionReassignmentsResponse_throttle_time :: "ListPartitionReassignmentsResponse
    \<Rightarrow> int64" where
  "ListPartitionReassignmentsResponse_throttle_time m = plz_throttle_time m"

definition ListPartitionReassignmentsResponse_add_block :: "bytes \<Rightarrow> int \<Rightarrow> int32 list
    \<Rightarrow> int32 list \<Rightarrow>
    int32 list \<Rightarrow> ListPartitionReassignmentsResponse \<Rightarrow>
        ListPartitionReassignmentsResponse" where
  "ListPartitionReassignmentsResponse_add_block topic pid replicas addingReplicas removingReplicas m =
     m\<lparr>plz_topic_status := smap_merge topic [(pid, \<lparr>pls_replicas = replicas, pls_adding_replicas
         = addingReplicas,
       pls_removing_replicas = removingReplicas\<rparr>)] (plz_topic_status m)\<rparr>"

section \<open>ElectLeaders\<close>

definition ElectedPartitions_put_entry :: "bytes \<times> int32 list \<Rightarrow> unit enc" where
  "ElectedPartitions_put_entry kv =
     then_p (err_as ErrEncodeError (putString (fst kv)))
    (then_p (err_as ErrEncodeError (putInt32Array (snd kv)))
       putEmptyTaggedFieldArray)"

definition ElectedPartitions_get_entry :: "(bytes \<times> int32 list) dec" where
  "ElectedPartitions_get_entry =
     bind_p (err_as ErrDecodeError getString) (\<lambda>k.
     bind_p (getInt32s_or ErrDecodeError) (\<lambda>v.
     bind_p (err_as ErrDecodeError getEmptyTaggedFieldArray) (\<lambda>_.
       ret (k, v))))"

definition wElectedPartitions_entry :: "bool \<Rightarrow> bytes \<times> int32 list \<Rightarrow> bytes" where
  "wElectedPartitions_entry fl kv =
     wString fl (fst kv) @ wInt32Array fl (snd kv) @ wTags fl"

definition ElectedPartitions_entry_ok :: "bool \<Rightarrow> bytes \<times> int32 list \<Rightarrow> bool" where
  "ElectedPartitions_entry_ok fl kv \<longleftrightarrow>
     string_ok fl (fst kv) \<and> len_ok fl (length (snd kv))"

lemma emits_ElectedPartitions_entry [emits_rules]:
  "ElectedPartitions_entry_ok fl kv \<Longrightarrow> emits fl (ElectedPartitions_put_entry kv)
      (wElectedPartitions_entry fl kv)"
  unfolding ElectedPartitions_put_entry_def wElectedPartitions_entry_def ElectedPartitions_entry_ok_def by
      (intro emits_rules; auto)

lemma reads_ElectedPartitions_entry [reads_rules]:
  assumes "ElectedPartitions_entry_ok fl kv"
  shows "reads fl (ElectedPartitions_get_entry) (wElectedPartitions_entry fl kv) kv"
  unfolding ElectedPartitions_get_entry_def wElectedPartitions_entry_def
  by (rule reads_conv, (rule reads_rules | (use assms in \<open>auto simp: ElectedPartitions_entry_ok_def;
      fail\<close>))+)

record ElectLeadersRequest =
  elq_version :: int16
  elq_type :: int8
  elq_topic_partitions :: "(bytes \<times> int32 list) list"
  elq_timeout :: int64

definition ElectLeadersRequest_set_version :: "int16 \<Rightarrow> ElectLeadersRequest \<Rightarrow>
    ElectLeadersRequest" where
  "ElectLeadersRequest_set_version v m = m\<lparr>elq_version := v\<rparr>"

definition ElectLeadersRequest_encode :: "ElectLeadersRequest \<Rightarrow> unit enc" where
  "ElectLeadersRequest_encode m =
     then_p (when_p (sint (elq_version m) > 0) (putInt8 (elq_type m)))
    (then_p (then_p (err_as ErrEncodeError (putArrayLength (size32 (length (elq_topic_partitions m)))))
            (for_each ElectedPartitions_put_entry (elq_topic_partitions m)))
    (then_p (putDurationMs (elq_timeout m))
       putEmptyTaggedFieldArray))"

definition ElectLeadersRequest_decode :: "ElectLeadersRequest \<Rightarrow> int16 \<Rightarrow>
    ElectLeadersRequest dec" where
  "ElectLeadersRequest_decode this version =
     bind_p (field_if (sint version > 0) (err_as ErrDecodeError getInt8) (elq_type this)) (\<lambda>t.
     bind_p (bind_p (err_as ErrDecodeError getArrayLength) (\<lambda>n. put_all (\<lambda>(k, v). AList.update
         k v) n ElectedPartitions_get_entry [])) (\<lambda>topic_partitions.
     bind_p (err_as ErrDecodeError getDurationMs) (\<lambda>timeout.
     bind_p (err_as ErrDecodeError getEmptyTaggedFieldArray) (\<lambda>_.
       ret \<lparr>elq_version = version, elq_type = t, elq_topic_partitions = topic_partitions,
         elq_timeout = timeout\<rparr>))))"

definition ElectLeadersRequest_is_flexible_version :: "int16 \<Rightarrow> bool" where
  "ElectLeadersRequest_is_flexible_version ver \<longleftrightarrow> sint ver \<ge> 2"

definition ElectLeadersRequest_required_version :: "int16 \<Rightarrow> KafkaVersion" where
  "ElectLeadersRequest_required_version v =
     (if v = 2 then V2_4_0_0 else if v = 1 then V0_11_0_0 else if v = 0 then V0_10_0_0 else V2_4_0_0)"

definition ElectLeadersRequest_body :: "ElectLeadersRequest \<Rightarrow> protocol_body" where
  "ElectLeadersRequest_body m =
     \<lparr>pb_key = 43, pb_version = elq_version m,
      pb_header_version = 2,
      pb_is_valid_version = (sint (elq_version m) \<ge> 0 \<and> sint (elq_version m) \<le> 2),
      pb_is_flexible = ElectLeadersRequest_is_flexible_version (elq_version m),
      pb_is_flexible_version = ElectLeadersRequest_is_flexible_version,
      pb_required_version = ElectLeadersRequest_required_version (elq_version m),
      pb_encode = ElectLeadersRequest_encode m\<rparr>"

definition wElectLeadersRequest :: "ElectLeadersRequest \<Rightarrow> bytes" where
  "wElectLeadersRequest m =
     (let fl = ElectLeadersRequest_is_flexible_version (elq_version m) in
     (if sint (elq_version m) > 0 then be8 (elq_type m) else []) @
     wArray fl (wElectedPartitions_entry fl) (elq_topic_partitions m) @ wDurationMs (elq_timeout m) @ wTags fl)"

definition ElectLeadersRequest_ok :: "ElectLeadersRequest \<Rightarrow> bool" where
  "ElectLeadersRequest_ok m \<longleftrightarrow>
     (let fl = ElectLeadersRequest_is_flexible_version (elq_version m) in
     len_ok fl (length (elq_topic_partitions m)) \<and>
     (\<forall>kv \<in> set (elq_topic_partitions m). ElectedPartitions_entry_ok fl kv) \<and>
     distinct (map fst (elq_topic_partitions m)) \<and> duration_ok (elq_timeout m))"

definition ElectLeadersRequest_seen :: "ElectLeadersRequest \<Rightarrow> ElectLeadersRequest \<Rightarrow>
    ElectLeadersRequest" where
  "ElectLeadersRequest_seen this m =
     m\<lparr>elq_type := (if sint (elq_version m) > 0 then (elq_type m) else (elq_type this))\<rparr>"

interpretation elq: protocol_message ElectLeadersRequest_body ElectLeadersRequest_decode wElectLeadersRequest
  ElectLeadersRequest_ok ElectLeadersRequest_seen
proof
  fix m this :: ElectLeadersRequest
  assume ok: "ElectLeadersRequest_ok m"
  show "emits (pb_is_flexible (ElectLeadersRequest_body m)) (pb_encode (ElectLeadersRequest_body m))
      (wElectLeadersRequest m)"
    unfolding ElectLeadersRequest_body_def ElectLeadersRequest_encode_def wElectLeadersRequest_def Let_def
        protocol_body.simps
    by (intro emits_rules; use ok in \<open>auto simp: ElectLeadersRequest_ok_def Let_def \<close>)
  show "reads (pb_is_flexible (ElectLeadersRequest_body m)) (ElectLeadersRequest_decode this (pb_version
      (ElectLeadersRequest_body m)))
      (wElectLeadersRequest m) (ElectLeadersRequest_seen this m)"
    unfolding ElectLeadersRequest_body_def ElectLeadersRequest_decode_def wElectLeadersRequest_def Let_def
        protocol_body.simps
    by (rule reads_conv, (rule reads_rules | (use ok in \<open>auto simp: ElectLeadersRequest_ok_def Let_def 
      ElectLeadersRequest_seen_def; fail\<close>))+)
qed (simp_all add: ElectLeadersRequest_body_def wElectLeadersRequest_def Let_def)

record PartitionResult =
  elp_code :: int16
  elp_message :: bytes

definition PartitionResult_encode :: "PartitionResult \<Rightarrow> unit enc" where
  "PartitionResult_encode x =
     then_p (putKError (elp_code x))
    (then_p (err_as ErrEncodeError (putNullableString (elp_message x)))
       putEmptyTaggedFieldArray)"

definition PartitionResult_decode :: "PartitionResult dec" where
  "PartitionResult_decode =
     bind_p (err_as ErrEncodeError getKError) (\<lambda>code.
     bind_p (err_as ErrEncodeError getNullableString) (\<lambda>message.
     bind_p (err_as ErrEncodeError getEmptyTaggedFieldArray) (\<lambda>_.
       ret \<lparr>elp_code = code, elp_message = message\<rparr>)))"

definition wPartitionResult :: "bool \<Rightarrow> PartitionResult \<Rightarrow> bytes" where
  "wPartitionResult fl x =
     be16 (elp_code x) @ wNullableString fl (elp_message x) @ wTags fl"

definition PartitionResult_ok :: "bool \<Rightarrow> PartitionResult \<Rightarrow> bool" where
  "PartitionResult_ok fl x \<longleftrightarrow>
     string_ok fl (elp_message x)"

lemma emits_PartitionResult [emits_rules]:
  "PartitionResult_ok fl x \<Longrightarrow> emits fl (PartitionResult_encode x) (wPartitionResult fl x)"
  unfolding PartitionResult_encode_def wPartitionResult_def PartitionResult_ok_def by (intro emits_rules; auto)

lemma reads_PartitionResult [reads_rules]:
  assumes "PartitionResult_ok fl x"
  shows "reads fl (PartitionResult_decode) (wPartitionResult fl x) x"
  unfolding PartitionResult_decode_def wPartitionResult_def
  by (rule reads_conv, (rule reads_rules | (use assms in \<open>auto simp: PartitionResult_ok_def;
      fail\<close>))+)

definition ElectedPartition_put_entry :: "int \<times> PartitionResult \<Rightarrow> unit enc" where
  "ElectedPartition_put_entry kv =
     then_p (putInt32 (word_of_int (fst kv)))
       (err_as ErrEncodeError (PartitionResult_encode (snd kv)))"

definition ElectedPartition_get_entry :: "(int \<times> PartitionResult) dec" where
  "ElectedPartition_get_entry =
     bind_p (err_as ErrDecodeError (bind_p getInt32 (\<lambda>p. ret (sint p)))) (\<lambda>k.
     bind_p (err_as ErrDecodeError PartitionResult_decode) (\<lambda>v.
       ret (k, v)))"

definition wElectedPartition_entry :: "bool \<Rightarrow> int \<times> PartitionResult \<Rightarrow> bytes"
    where
  "wElectedPartition_entry fl kv =
     be32 (word_of_int (fst kv)) @ wPartitionResult fl (snd kv)"

definition ElectedPartition_entry_ok :: "bool \<Rightarrow> int \<times> PartitionResult \<Rightarrow> bool"
    where
  "ElectedPartition_entry_ok fl kv \<longleftrightarrow>
     sint (word_of_int (fst kv) :: int32) = (fst kv) \<and> PartitionResult_ok fl (snd kv)"

lemma emits_ElectedPartition_entry [emits_rules]:
  "ElectedPartition_entry_ok fl kv \<Longrightarrow> emits fl (ElectedPartition_put_entry kv)
      (wElectedPartition_entry fl kv)"
  unfolding ElectedPartition_put_entry_def wElectedPartition_entry_def ElectedPartition_entry_ok_def by (intro
      emits_rules; auto)

lemma reads_ElectedPartition_entry [reads_rules]:
  assumes "ElectedPartition_entry_ok fl kv"
  shows "reads fl (ElectedPartition_get_entry) (wElectedPartition_entry fl kv) kv"
  unfolding ElectedPartition_get_entry_def wElectedPartition_entry_def
  by (rule reads_conv, (rule reads_rules | (use assms in \<open>auto simp: ElectedPartition_entry_ok_def;
      fail\<close>))+)

definition ElectedTopic_put_entry :: "bytes \<times> (int \<times> PartitionResult) list \<Rightarrow> unit
    enc" where
  "ElectedTopic_put_entry kv =
     then_p (err_as ErrEncodeError (putString (fst kv)))
    (then_p (then_p (err_as ErrEncodeError (putArrayLength (size32 (length (snd kv)))))
            (for_each ElectedPartition_put_entry (snd kv)))
       putEmptyTaggedFieldArray)"

definition ElectedTopic_get_entry :: "(bytes \<times> (int \<times> PartitionResult) list) dec" where
  "ElectedTopic_get_entry =
     bind_p (err_as ErrDecodeError getString) (\<lambda>k.
     bind_p (bind_p (err_as ErrDecodeError getArrayLength) (\<lambda>n. put_all (\<lambda>(k, v). smap_put k v)
         n ElectedPartition_get_entry [])) (\<lambda>v.
     bind_p (err_as ErrDecodeError getEmptyTaggedFieldArray) (\<lambda>_.
       ret (k, v))))"

definition wElectedTopic_entry :: "bool \<Rightarrow> bytes \<times> (int \<times> PartitionResult) list
    \<Rightarrow> bytes" where
  "wElectedTopic_entry fl kv =
     wString fl (fst kv) @ wArray fl (wElectedPartition_entry fl) (snd kv) @ wTags fl"

definition ElectedTopic_entry_ok :: "bool \<Rightarrow> bytes \<times> (int \<times> PartitionResult) list
    \<Rightarrow> bool" where
  "ElectedTopic_entry_ok fl kv \<longleftrightarrow>
     string_ok fl (fst kv) \<and> len_ok fl (length (snd kv)) \<and>
     (\<forall>kv \<in> set (snd kv). ElectedPartition_entry_ok fl kv) \<and> smap (snd kv)"

lemma ElectedTopic_entry_ok_smap [dest]: "ElectedTopic_entry_ok fl kv \<Longrightarrow> smap (snd kv)"
  by (simp add: ElectedTopic_entry_ok_def)

lemma emits_ElectedTopic_entry [emits_rules]:
  "ElectedTopic_entry_ok fl kv \<Longrightarrow> emits fl (ElectedTopic_put_entry kv) (wElectedTopic_entry fl
      kv)"
  unfolding ElectedTopic_put_entry_def wElectedTopic_entry_def ElectedTopic_entry_ok_def by (intro emits_rules;
      auto)

lemma reads_ElectedTopic_entry [reads_rules]:
  assumes "ElectedTopic_entry_ok fl kv"
  shows "reads fl (ElectedTopic_get_entry) (wElectedTopic_entry fl kv) kv"
  unfolding ElectedTopic_get_entry_def wElectedTopic_entry_def
  by (rule reads_conv, (rule reads_rules | (use assms in \<open>auto simp: ElectedTopic_entry_ok_def;
      fail\<close>))+)

record ElectLeadersResponse =
  elz_version :: int16
  elz_throttle_time :: int64
  elz_code :: int16
  elz_replica_election_results :: "(bytes \<times> (int \<times> PartitionResult) list) list"

definition ElectLeadersResponse_set_version :: "int16 \<Rightarrow> ElectLeadersResponse \<Rightarrow>
    ElectLeadersResponse" where
  "ElectLeadersResponse_set_version v m = m\<lparr>elz_version := v\<rparr>"

definition ElectLeadersResponse_encode :: "ElectLeadersResponse \<Rightarrow> unit enc" where
  "ElectLeadersResponse_encode m =
     then_p (putDurationMs (elz_throttle_time m))
    (then_p (when_p (sint (elz_version m) > 0) (putKError (elz_code m)))
    (then_p (then_p (err_as ErrEncodeError (putArrayLength (size32 (length (elz_replica_election_results m)))))
            (for_each ElectedTopic_put_entry (elz_replica_election_results m)))
       putEmptyTaggedFieldArray))"

definition ElectLeadersResponse_decode :: "ElectLeadersResponse \<Rightarrow> int16 \<Rightarrow>
    ElectLeadersResponse dec" where
  "ElectLeadersResponse_decode this version =
     bind_p (err_as ErrDecodeError getDurationMs) (\<lambda>throttle_time.
     bind_p (field_if (sint version > 0) (err_as ErrDecodeError getKError) (elz_code this)) (\<lambda>code.
     bind_p (bind_p (err_as ErrDecodeError getArrayLength) (\<lambda>n. reserved n (put_all (\<lambda>(k, vs).
         alist_merge smap_put k vs) n ElectedTopic_get_entry []))) (\<lambda>replica_election_results.
     bind_p (err_as ErrDecodeError getEmptyTaggedFieldArray) (\<lambda>_.
       ret \<lparr>elz_version = version, elz_throttle_time = throttle_time, elz_code = code,
         elz_replica_election_results = replica_election_results\<rparr>))))"

definition ElectLeadersResponse_is_flexible_version :: "int16 \<Rightarrow> bool" where
  "ElectLeadersResponse_is_flexible_version ver \<longleftrightarrow> sint ver \<ge> 2"

definition ElectLeadersResponse_required_version :: "int16 \<Rightarrow> KafkaVersion" where
  "ElectLeadersResponse_required_version v =
     (if v = 2 then V2_4_0_0 else if v = 1 then V0_11_0_0 else if v = 0 then V0_10_0_0 else V2_4_0_0)"

definition ElectLeadersResponse_body :: "ElectLeadersResponse \<Rightarrow> protocol_body" where
  "ElectLeadersResponse_body m =
     \<lparr>pb_key = 43, pb_version = elz_version m,
      pb_header_version = 1,
      pb_is_valid_version = (sint (elz_version m) \<ge> 0 \<and> sint (elz_version m) \<le> 2),
      pb_is_flexible = ElectLeadersResponse_is_flexible_version (elz_version m),
      pb_is_flexible_version = ElectLeadersResponse_is_flexible_version,
      pb_required_version = ElectLeadersResponse_required_version (elz_version m),
      pb_encode = ElectLeadersResponse_encode m\<rparr>"

definition wElectLeadersResponse :: "ElectLeadersResponse \<Rightarrow> bytes" where
  "wElectLeadersResponse m =
     (let fl = ElectLeadersResponse_is_flexible_version (elz_version m) in
     wDurationMs (elz_throttle_time m) @ (if sint (elz_version m) > 0 then be16 (elz_code m) else []) @
     wArray fl (wElectedTopic_entry fl) (elz_replica_election_results m) @ wTags fl)"

definition ElectLeadersResponse_ok :: "ElectLeadersResponse \<Rightarrow> bool" where
  "ElectLeadersResponse_ok m \<longleftrightarrow>
     (let fl = ElectLeadersResponse_is_flexible_version (elz_version m) in
     duration_ok (elz_throttle_time m) \<and>
     len_ok fl (length (elz_replica_election_results m)) \<and> (\<forall>kv \<in> set
         (elz_replica_election_results m). ElectedTopic_entry_ok fl kv) \<and> distinct (map fst
         (elz_replica_election_results m)))"

definition ElectLeadersResponse_seen :: "ElectLeadersResponse \<Rightarrow> ElectLeadersResponse \<Rightarrow>
    ElectLeadersResponse" where
  "ElectLeadersResponse_seen this m =
     m\<lparr>elz_code := (if sint (elz_version m) > 0 then (elz_code m) else (elz_code this))\<rparr>"

lemma reads_elected:
  assumes "len_ok fl (length xs)" "\<forall>kv \<in> set xs. ElectedTopic_entry_ok fl kv" "distinct (map fst
      xs)"
  shows "reads fl (bind_p (err_as e getArrayLength) (\<lambda>n. reserved n (put_all (\<lambda>(k, vs).
      alist_merge smap_put k vs) n
    ElectedTopic_get_entry []))) (wArray fl (wElectedTopic_entry fl) xs) xs"
proof (rule reads_reserved [OF _ assms(1)])
  have "reads fl (bind_p (err_as e getArrayLength) (\<lambda>n. put_all (\<lambda>(k, vs). alist_merge smap_put
      k vs) n
      ElectedTopic_get_entry [])) (wArray fl (wElectedTopic_entry fl) xs) (map (\<lambda>x. x) xs)"
    using assms by (intro reads_map_alist_smap(2) reads_ElectedTopic_entry) auto
  then show "reads fl (bind_p (err_as e getArrayLength) (\<lambda>n. put_all (\<lambda>(k, vs). alist_merge
      smap_put k vs) n
      ElectedTopic_get_entry [])) (wArray fl (wElectedTopic_entry fl) xs) xs" by simp
qed

interpretation elz: protocol_message ElectLeadersResponse_body ElectLeadersResponse_decode wElectLeadersResponse
  ElectLeadersResponse_ok ElectLeadersResponse_seen
proof
  fix m this :: ElectLeadersResponse
  assume ok: "ElectLeadersResponse_ok m"
  show "emits (pb_is_flexible (ElectLeadersResponse_body m)) (pb_encode (ElectLeadersResponse_body m))
      (wElectLeadersResponse m)"
    unfolding ElectLeadersResponse_body_def ElectLeadersResponse_encode_def wElectLeadersResponse_def Let_def
        protocol_body.simps
    by (intro emits_rules; use ok in \<open>auto simp: ElectLeadersResponse_ok_def Let_def \<close>)
  show "reads (pb_is_flexible (ElectLeadersResponse_body m)) (ElectLeadersResponse_decode this (pb_version
      (ElectLeadersResponse_body m)))
      (wElectLeadersResponse m) (ElectLeadersResponse_seen this m)"
    unfolding ElectLeadersResponse_body_def ElectLeadersResponse_decode_def wElectLeadersResponse_def Let_def
        protocol_body.simps
    by (rule reads_conv, (rule reads_rules reads_elected | (use ok in \<open>auto simp:
        ElectLeadersResponse_ok_def Let_def 
      ElectLeadersResponse_seen_def; fail\<close>))+)
qed (simp_all add: ElectLeadersResponse_body_def wElectLeadersResponse_def Let_def)

definition ElectLeadersResponse_throttle_time :: "ElectLeadersResponse \<Rightarrow> int64" where
  "ElectLeadersResponse_throttle_time m = elz_throttle_time m"

section \<open>DescribeLogDirs\<close>

record DescribeLogDirsRequestTopic =
  ldt_topic :: bytes
  ldt_partition_ids :: "int32 list"

definition DescribeLogDirsRequestTopic_encode :: "DescribeLogDirsRequestTopic \<Rightarrow> unit enc" where
  "DescribeLogDirsRequestTopic_encode x =
     then_p (err_as ErrEncodeError (putString (ldt_topic x)))
    (then_p (err_as ErrEncodeError (putInt32Array (ldt_partition_ids x)))
       putEmptyTaggedFieldArray)"

definition DescribeLogDirsRequestTopic_decode :: "DescribeLogDirsRequestTopic dec" where
  "DescribeLogDirsRequestTopic_decode =
     bind_p (err_as ErrDecodeError getString) (\<lambda>topic.
     bind_p (err_as ErrDecodeError getInt32Array) (\<lambda>partition_ids.
     bind_p (err_as ErrDecodeError getEmptyTaggedFieldArray) (\<lambda>_.
       ret \<lparr>ldt_topic = topic, ldt_partition_ids = partition_ids\<rparr>)))"

definition wDescribeLogDirsRequestTopic :: "bool \<Rightarrow> DescribeLogDirsRequestTopic \<Rightarrow> bytes"
    where
  "wDescribeLogDirsRequestTopic fl x =
     wString fl (ldt_topic x) @ wInt32Array fl (ldt_partition_ids x) @ wTags fl"

definition DescribeLogDirsRequestTopic_ok :: "bool \<Rightarrow> DescribeLogDirsRequestTopic \<Rightarrow>
    bool" where
  "DescribeLogDirsRequestTopic_ok fl x \<longleftrightarrow>
     string_ok fl (ldt_topic x) \<and> len_ok fl (length (ldt_partition_ids x))"

lemma emits_DescribeLogDirsRequestTopic [emits_rules]:
  "DescribeLogDirsRequestTopic_ok fl x \<Longrightarrow> emits fl (DescribeLogDirsRequestTopic_encode x)
      (wDescribeLogDirsRequestTopic fl x)"
  unfolding DescribeLogDirsRequestTopic_encode_def wDescribeLogDirsRequestTopic_def
      DescribeLogDirsRequestTopic_ok_def by (intro emits_rules; auto)

lemma reads_DescribeLogDirsRequestTopic [reads_rules]:
  assumes "DescribeLogDirsRequestTopic_ok fl x"
  shows "reads fl (DescribeLogDirsRequestTopic_decode) (wDescribeLogDirsRequestTopic fl x) x"
  unfolding DescribeLogDirsRequestTopic_decode_def wDescribeLogDirsRequestTopic_def
  by (rule reads_conv, (rule reads_rules | (use assms in \<open>auto simp: DescribeLogDirsRequestTopic_ok_def;
      fail\<close>))+)

text \<open>No topics, which stands for all of them, are written as a null array.\<close>

definition wTopicsOrAll :: "bool \<Rightarrow> DescribeLogDirsRequestTopic list \<Rightarrow> bytes" where
  "wTopicsOrAll fl xs =
     (if xs = [] then if fl then [0] else be32 (- 1) else wArray fl (wDescribeLogDirsRequestTopic fl) xs)"

definition putTopicsOrAll :: "DescribeLogDirsRequestTopic list \<Rightarrow> unit enc" where
  "putTopicsOrAll xs =
     then_p (err_as ErrEncodeError (putArrayLength (if size32 (length xs) = 0 then - 1 else size32 (length
         xs))))
       (for_each DescribeLogDirsRequestTopic_encode xs)"

definition getTopicsOrAll :: "DescribeLogDirsRequestTopic list dec" where
  "getTopicsOrAll =
     bind_p (err_as ErrDecodeError getArrayLength) (\<lambda>n.
       resize_read (if n = - 1 then 0 else n) DescribeLogDirsRequestTopic_decode)"

lemma wTopicsOrAll_nonempty [simp]: "wTopicsOrAll fl xs \<noteq> []"
  by (simp add: wTopicsOrAll_def be32_def)

lemma emits_putTopicsOrAll [emits_rules]:
  assumes "len_ok fl (length xs)" "\<forall>x \<in> set xs. DescribeLogDirsRequestTopic_ok fl x"
  shows "emits fl (putTopicsOrAll xs) (wTopicsOrAll fl xs)"
proof (cases "xs = []")
  case True
  have "emits fl (then_p (err_as ErrEncodeError (putArrayLength (- 1))) (ret ())) ((if fl then [0] else be32 (-
      1)) @ [])"
    by (intro emits_then emits_err_as emits_null_length emits_ret)
  then show ?thesis using True by (simp add: putTopicsOrAll_def wTopicsOrAll_def)
next
  case False
  have "sint (size32 (length xs)) = int (length xs)" by (rule sint_len [OF assms(1)])
  then have n: "size32 (length xs) \<noteq> 0" using False by auto
  show ?thesis unfolding putTopicsOrAll_def wTopicsOrAll_def wArray_def using False n assms
    by (auto intro!: emits_then emits_err_as emits_putArrayLength_ok emits_for_each
        emits_DescribeLogDirsRequestTopic)
qed

lemma reads_getTopicsOrAll [reads_rules]:
  assumes "len_ok fl (length xs)" "\<forall>x \<in> set xs. DescribeLogDirsRequestTopic_ok fl x"
  shows "reads fl getTopicsOrAll (wTopicsOrAll fl xs) xs"
proof (cases "xs = []")
  case True
  have "reads True getArrayLength [0] 0" unfolding getArrayLength_def
    by (rule reads_by_flex) (auto intro!: reads_bind_same [OF reads_uvariant_zero] reads_ret)
  with True reads_getArrayLength_null show ?thesis unfolding getTopicsOrAll_def wTopicsOrAll_def
    by (cases fl) (auto simp: resize_read_def intro!: reads_bind_same [OF reads_err_as] reads_ret)
next
  case False
  have "reads fl getTopicsOrAll (wArray fl (wDescribeLogDirsRequestTopic fl) xs) (map (\<lambda>x. x) xs)"
    unfolding getTopicsOrAll_def using assms by (intro reads_resize_null reads_DescribeLogDirsRequestTopic) auto
  then show ?thesis using False by (simp add: wTopicsOrAll_def)
qed

record DescribeLogDirsRequest =
  ldq_version :: int16
  ldq_describe_topics :: "DescribeLogDirsRequestTopic list"

definition DescribeLogDirsRequest_set_version :: "int16 \<Rightarrow> DescribeLogDirsRequest \<Rightarrow>
    DescribeLogDirsRequest" where
  "DescribeLogDirsRequest_set_version v m = m\<lparr>ldq_version := v\<rparr>"

definition DescribeLogDirsRequest_encode :: "DescribeLogDirsRequest \<Rightarrow> unit enc" where
  "DescribeLogDirsRequest_encode m =
     then_p (putTopicsOrAll (ldq_describe_topics m))
       putEmptyTaggedFieldArray"

definition DescribeLogDirsRequest_decode :: "DescribeLogDirsRequest \<Rightarrow> int16 \<Rightarrow>
    DescribeLogDirsRequest dec" where
  "DescribeLogDirsRequest_decode this version =
     bind_p getTopicsOrAll (\<lambda>describe_topics.
     bind_p (err_as ErrDecodeError getEmptyTaggedFieldArray) (\<lambda>_.
       ret \<lparr>ldq_version = version, ldq_describe_topics = describe_topics\<rparr>))"

definition DescribeLogDirsRequest_is_flexible_version :: "int16 \<Rightarrow> bool" where
  "DescribeLogDirsRequest_is_flexible_version ver \<longleftrightarrow> sint ver \<ge> 2"

definition DescribeLogDirsRequest_required_version :: "int16 \<Rightarrow> KafkaVersion" where
  "DescribeLogDirsRequest_required_version v =
     (if v = 4 then V3_3_0_0 else if v = 3 then V3_2_0_0 else if v = 2 then V2_6_0_0 else if v = 1
      then V2_0_0_0 else V1_0_0_0)"

definition DescribeLogDirsRequest_body :: "DescribeLogDirsRequest \<Rightarrow> protocol_body" where
  "DescribeLogDirsRequest_body m =
     \<lparr>pb_key = 35, pb_version = ldq_version m,
      pb_header_version = (if sint (ldq_version m) \<ge> 2 then 2 else 1),
      pb_is_valid_version = (sint (ldq_version m) \<ge> 0 \<and> sint (ldq_version m) \<le> 4),
      pb_is_flexible = DescribeLogDirsRequest_is_flexible_version (ldq_version m),
      pb_is_flexible_version = DescribeLogDirsRequest_is_flexible_version,
      pb_required_version = DescribeLogDirsRequest_required_version (ldq_version m),
      pb_encode = DescribeLogDirsRequest_encode m\<rparr>"

definition wDescribeLogDirsRequest :: "DescribeLogDirsRequest \<Rightarrow> bytes" where
  "wDescribeLogDirsRequest m =
     (let fl = DescribeLogDirsRequest_is_flexible_version (ldq_version m) in
     wTopicsOrAll fl (ldq_describe_topics m) @ wTags fl)"

definition DescribeLogDirsRequest_ok :: "DescribeLogDirsRequest \<Rightarrow> bool" where
  "DescribeLogDirsRequest_ok m \<longleftrightarrow>
     (let fl = DescribeLogDirsRequest_is_flexible_version (ldq_version m) in
     len_ok fl (length (ldq_describe_topics m)) \<and> (\<forall>t \<in> set (ldq_describe_topics m).
         DescribeLogDirsRequestTopic_ok fl t))"

definition DescribeLogDirsRequest_seen :: "DescribeLogDirsRequest \<Rightarrow> DescribeLogDirsRequest
    \<Rightarrow> DescribeLogDirsRequest" where
  "DescribeLogDirsRequest_seen this m =
     m"

interpretation ldq: protocol_message DescribeLogDirsRequest_body DescribeLogDirsRequest_decode
    wDescribeLogDirsRequest
  DescribeLogDirsRequest_ok DescribeLogDirsRequest_seen
proof
  fix m this :: DescribeLogDirsRequest
  assume ok: "DescribeLogDirsRequest_ok m"
  show "emits (pb_is_flexible (DescribeLogDirsRequest_body m)) (pb_encode (DescribeLogDirsRequest_body m))
      (wDescribeLogDirsRequest m)"
    unfolding DescribeLogDirsRequest_body_def DescribeLogDirsRequest_encode_def wDescribeLogDirsRequest_def
        Let_def protocol_body.simps
    by (intro emits_rules; use ok in \<open>auto simp: DescribeLogDirsRequest_ok_def Let_def \<close>)
  show "reads (pb_is_flexible (DescribeLogDirsRequest_body m)) (DescribeLogDirsRequest_decode this (pb_version
      (DescribeLogDirsRequest_body m)))
      (wDescribeLogDirsRequest m) (DescribeLogDirsRequest_seen this m)"
    unfolding DescribeLogDirsRequest_body_def DescribeLogDirsRequest_decode_def wDescribeLogDirsRequest_def
        Let_def protocol_body.simps
    by (rule reads_conv, (rule reads_rules | (use ok in \<open>auto simp: DescribeLogDirsRequest_ok_def Let_def 
      DescribeLogDirsRequest_seen_def; fail\<close>))+)
qed (simp_all add: DescribeLogDirsRequest_body_def wDescribeLogDirsRequest_def Let_def)

text \<open>A partition has tagged fields from version 2 on, which are the flexible versions.\<close>

record DescribeLogDirsResponsePartition =
  ldp_partition_id :: int32
  ldp_size :: int64
  ldp_offset_lag :: int64
  ldp_is_temporary :: bool

definition DescribeLogDirsResponsePartition_encode :: "int16 \<Rightarrow> DescribeLogDirsResponsePartition
    \<Rightarrow> unit enc" where
  "DescribeLogDirsResponsePartition_encode version x =
     then_p (putInt32 (ldp_partition_id x))
    (then_p (putInt64 (ldp_size x))
    (then_p (putInt64 (ldp_offset_lag x))
    (then_p (putBool (ldp_is_temporary x))
       (when_p (sint version \<ge> 2) putEmptyTaggedFieldArray))))"

definition DescribeLogDirsResponsePartition_decode :: "int16 \<Rightarrow> DescribeLogDirsResponsePartition
    dec" where
  "DescribeLogDirsResponsePartition_decode version =
     bind_p (err_as ErrDecodeError getInt32) (\<lambda>partition_id.
     bind_p (err_as ErrDecodeError getInt64) (\<lambda>sz.
     bind_p (err_as ErrDecodeError getInt64) (\<lambda>offset_lag.
     bind_p (err_as ErrDecodeError getBool) (\<lambda>is_temporary.
     bind_p (err_as ErrDecodeError getEmptyTaggedFieldArray) (\<lambda>_.
       ret \<lparr>ldp_partition_id = partition_id, ldp_size = sz, ldp_offset_lag = offset_lag,
           ldp_is_temporary = is_temporary\<rparr>)))))"

definition wDescribeLogDirsResponsePartition :: "int16 \<Rightarrow> bool \<Rightarrow>
    DescribeLogDirsResponsePartition \<Rightarrow> bytes" where
  "wDescribeLogDirsResponsePartition version fl x =
     be32 (ldp_partition_id x) @ be64 (ldp_size x) @ be64 (ldp_offset_lag x) @ wBool (ldp_is_temporary x) @
     wTags fl"

definition DescribeLogDirsResponsePartition_ok :: "bool \<Rightarrow> DescribeLogDirsResponsePartition
    \<Rightarrow> bool" where
  "DescribeLogDirsResponsePartition_ok fl x \<longleftrightarrow>
     True"

lemma emits_tags_if [emits_rules]: "(fl \<longrightarrow> b) \<Longrightarrow> emits fl (when_p b
    putEmptyTaggedFieldArray) (wTags fl)"
  using emits_putEmptyTaggedFieldArray [of fl] by (auto simp: when_p_def wTags_def intro: emits_ret)

lemma emits_DescribeLogDirsResponsePartition [emits_rules]:
  "DescribeLogDirsResponsePartition_ok fl x \<Longrightarrow> (fl \<longrightarrow> sint version \<ge> 2)
      \<Longrightarrow> emits fl (DescribeLogDirsResponsePartition_encode version x)
      (wDescribeLogDirsResponsePartition version fl x)"
  unfolding DescribeLogDirsResponsePartition_encode_def wDescribeLogDirsResponsePartition_def
      DescribeLogDirsResponsePartition_ok_def by (intro emits_rules; auto)

lemma reads_DescribeLogDirsResponsePartition [reads_rules]:
  assumes "DescribeLogDirsResponsePartition_ok fl x"
  shows "reads fl (DescribeLogDirsResponsePartition_decode version) (wDescribeLogDirsResponsePartition version
      fl x) x"
  unfolding DescribeLogDirsResponsePartition_decode_def wDescribeLogDirsResponsePartition_def
  by (rule reads_conv, (rule reads_rules | (use assms in \<open>auto simp:
      DescribeLogDirsResponsePartition_ok_def; fail\<close>))+)

record DescribeLogDirsResponseTopic =
  ldo_topic :: bytes
  ldo_partitions :: "DescribeLogDirsResponsePartition list"

definition DescribeLogDirsResponseTopic_encode :: "int16 \<Rightarrow> DescribeLogDirsResponseTopic
    \<Rightarrow> unit enc" where
  "DescribeLogDirsResponseTopic_encode version x =
     then_p (err_as ErrEncodeError (putString (ldo_topic x)))
    (then_p (then_p (err_as ErrEncodeError (putArrayLength (size32 (length (ldo_partitions x)))))
            (for_each (\<lambda>e. (err_as ErrEncodeError (DescribeLogDirsResponsePartition_encode version e)))
                (ldo_partitions x)))
       putEmptyTaggedFieldArray)"

definition DescribeLogDirsResponseTopic_decode :: "int16 \<Rightarrow> DescribeLogDirsResponseTopic dec" where
  "DescribeLogDirsResponseTopic_decode version =
     bind_p (err_as ErrDecodeError getString) (\<lambda>topic.
     bind_p (bind_p (err_as ErrDecodeError getArrayLength) (\<lambda>n. resize_read n (err_as ErrDecodeError
         (DescribeLogDirsResponsePartition_decode version)))) (\<lambda>partitions.
     bind_p (err_as ErrDecodeError getEmptyTaggedFieldArray) (\<lambda>_.
       ret \<lparr>ldo_topic = topic, ldo_partitions = partitions\<rparr>)))"

definition wDescribeLogDirsResponseTopic :: "int16 \<Rightarrow> bool \<Rightarrow>
    DescribeLogDirsResponseTopic \<Rightarrow> bytes" where
  "wDescribeLogDirsResponseTopic version fl x =
     wString fl (ldo_topic x) @ wArray fl (wDescribeLogDirsResponsePartition version fl) (ldo_partitions x) @
     wTags fl"

definition DescribeLogDirsResponseTopic_ok :: "bool \<Rightarrow> DescribeLogDirsResponseTopic \<Rightarrow>
    bool" where
  "DescribeLogDirsResponseTopic_ok fl x \<longleftrightarrow>
     string_ok fl (ldo_topic x) \<and> len_ok fl (length (ldo_partitions x)) \<and>
     (\<forall>e \<in> set (ldo_partitions x). DescribeLogDirsResponsePartition_ok fl e)"

lemma emits_DescribeLogDirsResponseTopic [emits_rules]:
  "DescribeLogDirsResponseTopic_ok fl x \<Longrightarrow> (fl \<longrightarrow> sint version \<ge> 2)
      \<Longrightarrow> emits fl (DescribeLogDirsResponseTopic_encode version x) (wDescribeLogDirsResponseTopic
      version fl x)"
  unfolding DescribeLogDirsResponseTopic_encode_def wDescribeLogDirsResponseTopic_def
      DescribeLogDirsResponseTopic_ok_def by (intro emits_rules; auto)

lemma reads_DescribeLogDirsResponseTopic [reads_rules]:
  assumes "DescribeLogDirsResponseTopic_ok fl x"
  shows "reads fl (DescribeLogDirsResponseTopic_decode version) (wDescribeLogDirsResponseTopic version fl x) x"
  unfolding DescribeLogDirsResponseTopic_decode_def wDescribeLogDirsResponseTopic_def
  by (rule reads_conv, (rule reads_rules | (use assms in \<open>auto simp: DescribeLogDirsResponseTopic_ok_def;
      fail\<close>))+)

record DescribeLogDirsResponseDirMetadata =
  ldd_code :: int16
  ldd_path :: bytes
  ldd_topics :: "DescribeLogDirsResponseTopic list"
  ldd_total_bytes :: int64
  ldd_usable_bytes :: int64

definition DescribeLogDirsResponseDirMetadata_default :: DescribeLogDirsResponseDirMetadata where
  "DescribeLogDirsResponseDirMetadata_default = \<lparr>ldd_code = 0, ldd_path = [], ldd_topics = [],
      ldd_total_bytes = 0, ldd_usable_bytes = 0\<rparr>"

definition DescribeLogDirsResponseDirMetadata_encode :: "int16 \<Rightarrow> DescribeLogDirsResponseDirMetadata
    \<Rightarrow> unit enc" where
  "DescribeLogDirsResponseDirMetadata_encode version x =
     then_p (putKError (ldd_code x))
    (then_p (err_as ErrEncodeError (putString (ldd_path x)))
    (then_p (then_p (err_as ErrEncodeError (putArrayLength (size32 (length (ldd_topics x)))))
            (for_each (\<lambda>e. (err_as ErrEncodeError (DescribeLogDirsResponseTopic_encode version e)))
                (ldd_topics x)))
    (then_p (when_p (sint version \<ge> 4) (putInt64 (ldd_total_bytes x)))
    (then_p (when_p (sint version \<ge> 4) (putInt64 (ldd_usable_bytes x)))
       putEmptyTaggedFieldArray))))"

definition DescribeLogDirsResponseDirMetadata_decode :: "int16 \<Rightarrow> DescribeLogDirsResponseDirMetadata
    \<Rightarrow> DescribeLogDirsResponseDirMetadata dec" where
  "DescribeLogDirsResponseDirMetadata_decode version this =
     bind_p (err_as ErrDecodeError getKError) (\<lambda>code.
     bind_p (err_as ErrDecodeError getString) (\<lambda>path.
     bind_p (bind_p (err_as ErrDecodeError getArrayLength) (\<lambda>n. resize_read n (err_as ErrDecodeError
         (DescribeLogDirsResponseTopic_decode version)))) (\<lambda>topics.
     bind_p (field_if (sint version \<ge> 4) (err_as ErrDecodeError getInt64) (ldd_total_bytes this))
         (\<lambda>total_bytes.
     bind_p (field_if (sint version \<ge> 4) (err_as ErrDecodeError getInt64) (ldd_usable_bytes this))
         (\<lambda>usable_bytes.
     bind_p (err_as ErrDecodeError getEmptyTaggedFieldArray) (\<lambda>_.
       ret \<lparr>ldd_code = code, ldd_path = path, ldd_topics = topics, ldd_total_bytes = total_bytes,
           ldd_usable_bytes = usable_bytes\<rparr>))))))"

definition wDescribeLogDirsResponseDirMetadata :: "int16 \<Rightarrow> bool \<Rightarrow>
    DescribeLogDirsResponseDirMetadata \<Rightarrow> bytes" where
  "wDescribeLogDirsResponseDirMetadata version fl x =
     be16 (ldd_code x) @ wString fl (ldd_path x) @
     wArray fl (wDescribeLogDirsResponseTopic version fl) (ldd_topics x) @
     (if sint version \<ge> 4 then be64 (ldd_total_bytes x) else []) @
     (if sint version \<ge> 4 then be64 (ldd_usable_bytes x) else []) @ wTags fl"

definition DescribeLogDirsResponseDirMetadata_ok :: "bool \<Rightarrow> DescribeLogDirsResponseDirMetadata
    \<Rightarrow> bool" where
  "DescribeLogDirsResponseDirMetadata_ok fl x \<longleftrightarrow>
     string_ok fl (ldd_path x) \<and> len_ok fl (length (ldd_topics x)) \<and>
     (\<forall>e \<in> set (ldd_topics x). DescribeLogDirsResponseTopic_ok fl e)"

definition DescribeLogDirsResponseDirMetadata_seen :: "int16 \<Rightarrow> DescribeLogDirsResponseDirMetadata
    \<Rightarrow> DescribeLogDirsResponseDirMetadata \<Rightarrow> DescribeLogDirsResponseDirMetadata" where
  "DescribeLogDirsResponseDirMetadata_seen version this x =
     x\<lparr>ldd_total_bytes := (if sint version \<ge> 4 then (ldd_total_bytes x) else (ldd_total_bytes
         this)), ldd_usable_bytes := (if sint version \<ge> 4 then (ldd_usable_bytes x) else (ldd_usable_bytes
         this))\<rparr>"

lemma emits_DescribeLogDirsResponseDirMetadata [emits_rules]:
  "DescribeLogDirsResponseDirMetadata_ok fl x \<Longrightarrow> (fl \<longrightarrow> sint version \<ge> 2)
      \<Longrightarrow> emits fl (DescribeLogDirsResponseDirMetadata_encode version x)
      (wDescribeLogDirsResponseDirMetadata version fl x)"
  unfolding DescribeLogDirsResponseDirMetadata_encode_def wDescribeLogDirsResponseDirMetadata_def
      DescribeLogDirsResponseDirMetadata_ok_def by (intro emits_rules; auto)

lemma reads_DescribeLogDirsResponseDirMetadata [reads_rules]:
  assumes "DescribeLogDirsResponseDirMetadata_ok fl x"
  shows "reads fl (DescribeLogDirsResponseDirMetadata_decode version this) (wDescribeLogDirsResponseDirMetadata
      version fl x) (DescribeLogDirsResponseDirMetadata_seen version this x)"
  unfolding DescribeLogDirsResponseDirMetadata_decode_def wDescribeLogDirsResponseDirMetadata_def
  by (rule reads_conv, (rule reads_rules | (use assms in \<open>auto simp:
      DescribeLogDirsResponseDirMetadata_ok_def DescribeLogDirsResponseDirMetadata_seen_def; fail\<close>))+)

record DescribeLogDirsResponse =
  ldz_version :: int16
  ldz_throttle_time :: int64
  ldz_code :: int16
  ldz_log_dirs :: "DescribeLogDirsResponseDirMetadata list"

definition DescribeLogDirsResponse_set_version :: "int16 \<Rightarrow> DescribeLogDirsResponse \<Rightarrow>
    DescribeLogDirsResponse" where
  "DescribeLogDirsResponse_set_version v m = m\<lparr>ldz_version := v\<rparr>"

definition DescribeLogDirsResponse_encode :: "DescribeLogDirsResponse \<Rightarrow> unit enc" where
  "DescribeLogDirsResponse_encode m =
     then_p (putDurationMs (ldz_throttle_time m))
    (then_p (when_p (sint (ldz_version m) \<ge> 3) (putKError (ldz_code m)))
    (then_p (then_p (err_as ErrEncodeError (putArrayLength (size32 (length (ldz_log_dirs m)))))
            (for_each (\<lambda>e. (err_as ErrEncodeError (DescribeLogDirsResponseDirMetadata_encode
                (ldz_version m) e))) (ldz_log_dirs m)))
       putEmptyTaggedFieldArray))"

definition DescribeLogDirsResponse_decode :: "DescribeLogDirsResponse \<Rightarrow> int16 \<Rightarrow>
    DescribeLogDirsResponse dec" where
  "DescribeLogDirsResponse_decode this version =
     bind_p (err_as ErrDecodeError getDurationMs) (\<lambda>throttle_time.
     bind_p (field_if (sint version \<ge> 3) (err_as ErrDecodeError getKError) (ldz_code this)) (\<lambda>code.
     bind_p (bind_p (err_as ErrDecodeError getArrayLength) (\<lambda>n. resize_into n
         DescribeLogDirsResponseDirMetadata_default (ldz_log_dirs this) (\<lambda>old. (err_as ErrDecodeError
         (DescribeLogDirsResponseDirMetadata_decode version old))))) (\<lambda>log_dirs.
     bind_p (err_as ErrDecodeError getEmptyTaggedFieldArray) (\<lambda>_.
       ret \<lparr>ldz_version = version, ldz_throttle_time = throttle_time, ldz_code = code, ldz_log_dirs
         = log_dirs\<rparr>))))"

definition DescribeLogDirsResponse_is_flexible_version :: "int16 \<Rightarrow> bool" where
  "DescribeLogDirsResponse_is_flexible_version ver \<longleftrightarrow> sint ver \<ge> 2"

definition DescribeLogDirsResponse_required_version :: "int16 \<Rightarrow> KafkaVersion" where
  "DescribeLogDirsResponse_required_version v =
     (if v = 4 then V3_3_0_0 else if v = 3 then V3_2_0_0 else if v = 2 then V2_6_0_0 else if v = 1
      then V2_0_0_0 else V1_0_0_0)"

definition DescribeLogDirsResponse_body :: "DescribeLogDirsResponse \<Rightarrow> protocol_body" where
  "DescribeLogDirsResponse_body m =
     \<lparr>pb_key = 35, pb_version = ldz_version m,
      pb_header_version = (if sint (ldz_version m) \<ge> 2 then 1 else 0),
      pb_is_valid_version = (sint (ldz_version m) \<ge> 0 \<and> sint (ldz_version m) \<le> 4),
      pb_is_flexible = DescribeLogDirsResponse_is_flexible_version (ldz_version m),
      pb_is_flexible_version = DescribeLogDirsResponse_is_flexible_version,
      pb_required_version = DescribeLogDirsResponse_required_version (ldz_version m),
      pb_encode = DescribeLogDirsResponse_encode m\<rparr>"

definition wDescribeLogDirsResponse :: "DescribeLogDirsResponse \<Rightarrow> bytes" where
  "wDescribeLogDirsResponse m =
     (let fl = DescribeLogDirsResponse_is_flexible_version (ldz_version m) in
     wDurationMs (ldz_throttle_time m) @ (if sint (ldz_version m) \<ge> 3 then be16 (ldz_code m) else []) @
     wArray fl (wDescribeLogDirsResponseDirMetadata (ldz_version m) fl) (ldz_log_dirs m) @ wTags fl)"

definition DescribeLogDirsResponse_ok :: "DescribeLogDirsResponse \<Rightarrow> bool" where
  "DescribeLogDirsResponse_ok m \<longleftrightarrow>
     (let fl = DescribeLogDirsResponse_is_flexible_version (ldz_version m) in
     duration_ok (ldz_throttle_time m) \<and> len_ok fl (length (ldz_log_dirs m)) \<and>
     (\<forall>e \<in> set (ldz_log_dirs m). DescribeLogDirsResponseDirMetadata_ok fl e))"

definition DescribeLogDirsResponse_seen :: "DescribeLogDirsResponse \<Rightarrow> DescribeLogDirsResponse
    \<Rightarrow> DescribeLogDirsResponse" where
  "DescribeLogDirsResponse_seen this m =
     m\<lparr>ldz_code := (if sint (ldz_version m) \<ge> 3 then (ldz_code m) else (ldz_code this)),
       ldz_log_dirs := map2 (DescribeLogDirsResponseDirMetadata_seen (ldz_version m)) (resize_to (length
       (ldz_log_dirs m)) DescribeLogDirsResponseDirMetadata_default (ldz_log_dirs this)) (ldz_log_dirs
       m)\<rparr>"

interpretation ldz: protocol_message DescribeLogDirsResponse_body DescribeLogDirsResponse_decode
    wDescribeLogDirsResponse
  DescribeLogDirsResponse_ok DescribeLogDirsResponse_seen
proof
  fix m this :: DescribeLogDirsResponse
  assume ok: "DescribeLogDirsResponse_ok m"
  show "emits (pb_is_flexible (DescribeLogDirsResponse_body m)) (pb_encode (DescribeLogDirsResponse_body m))
      (wDescribeLogDirsResponse m)"
    unfolding DescribeLogDirsResponse_body_def DescribeLogDirsResponse_encode_def wDescribeLogDirsResponse_def
        Let_def protocol_body.simps
    by (intro emits_rules; use ok in \<open>auto simp: DescribeLogDirsResponse_ok_def Let_def
        DescribeLogDirsResponse_is_flexible_version_def\<close>)
  show "reads (pb_is_flexible (DescribeLogDirsResponse_body m)) (DescribeLogDirsResponse_decode this
      (pb_version (DescribeLogDirsResponse_body m)))
      (wDescribeLogDirsResponse m) (DescribeLogDirsResponse_seen this m)"
    unfolding DescribeLogDirsResponse_body_def DescribeLogDirsResponse_decode_def wDescribeLogDirsResponse_def
        Let_def protocol_body.simps
    by (rule reads_conv, (rule reads_rules | (use ok in \<open>auto simp: DescribeLogDirsResponse_ok_def
        Let_def DescribeLogDirsResponse_is_flexible_version_def
      DescribeLogDirsResponse_seen_def; fail\<close>))+)
qed (simp_all add: DescribeLogDirsResponse_body_def wDescribeLogDirsResponse_def Let_def)

definition DescribeLogDirsResponse_throttle_time :: "DescribeLogDirsResponse \<Rightarrow> int64" where
  "DescribeLogDirsResponse_throttle_time m = ldz_throttle_time m"

end
