(* ===== verification/Further_Facts.thy ===== *)
theory Further_Facts
  imports Group_Messages Session_Messages Co_Async Co_Sync Co_Task Transaction_Safety Partitioner Balance_Strategy Acl_Messages Acl_Types Broker_Address Group_Admin_Messages Offset_Messages Kafka_Record Record_Batch Message_Sets Kafka_Records Decoder_Safety Message_Safety Sticky_Divergence Topic_Messages Config_Messages Quota_Messages Kafka_Errors Scram_Messages Cluster_Messages
begin

text \<open>
  Facts on single classes and primitive operations, beside the properties of the root theory.
\<close>


section \<open>Helper facts\<close>

lemmas body_defs = HeartbeatRequest_body_def JoinGroupRequest_body_def LeaveGroupRequest_body_def SyncGroupRequest_body_def
  InitProducerIDRequest_body_def HeartbeatResponse_body_def JoinGroupResponse_body_def LeaveGroupResponse_body_def
  SyncGroupResponse_body_def InitProducerIDResponse_body_def

lemmas flexible_defs = HeartbeatRequest_is_flexible_version_def JoinGroupRequest_is_flexible_version_def
  LeaveGroupRequest_is_flexible_version_def SyncGroupRequest_is_flexible_version_def
  InitProducerIDRequest_is_flexible_version_def HeartbeatResponse_is_flexible_version_def
  JoinGroupResponse_is_flexible_version_def LeaveGroupResponse_is_flexible_version_def
  SyncGroupResponse_is_flexible_version_def InitProducerIDResponse_is_flexible_version_def

text \<open>The count 200 in the fixed format: four bytes, of which the last has its top bit set.\<close>

lemma array_length_200_written:
  "encode \<lparr>ie_is_flexible = None, ie_encode = putArrayLength 200\<rparr> [] = Ok () [0, 0, 0, 200]"
proof -
  have "emits False (putArrayLength 200) [0, 0, 0, 200]"
    using emits_putArrayLength [of 200 False] by (simp add: wLen_def be32_def byte_at_def)
  then show ?thesis
    using encode_emits [of "\<lparr>ie_is_flexible = None, ie_encode = putArrayLength 200\<rparr>" "[0, 0, 0, 200]" "[]"]
    by (simp add: prepare_flexible_encoder_def MaxRequestSize_def)
qed

lemma array_length_200_read:
  "getArrayLength (new_decoder [0, 0, 0, 200]) = Ok (- 56) (advance 4 (new_decoder [0, 0, 0, 200]))"
  by (simp add: getArrayLength_def new_decoder_def remaining_def at_off_def signed_be32_def advance_def MaxResponseSize_def Let_def)

text \<open>
  A JoinGroupResponse is encoded to its layout and decoded back; without members the decoding object
  keeps the ones it had, and below version 5 the instance ids come back empty.
\<close>

theorem join_group_response_roundtrip:
  assumes "JoinGroupResponse_ok m" "int (length (wJoinGroupResponse m)) \<le> MaxRequestSize"
  shows "encode (body_IEncoder (JoinGroupResponse_body m)) [] = Ok () (wJoinGroupResponse m) \<and>
    decode_version (wJoinGroupResponse m) (body_VDecoder (JoinGroupResponse_body this) (JoinGroupResponse_decode this) this) (jgr_version m) =
      Ok (JoinGroupResponse_seen this m) ()"
  using jgr.transfer [OF assms, of this] by (simp add: JoinGroupResponse_body_def)

theorem join_group_response_roundtrip_witness:
  "decode_version (wJoinGroupResponse \<lparr>jgr_version = 2, jgr_throttle_time = 5, jgr_err = 0, jgr_generation_id = 3, jgr_group_protocol = [114], jgr_leader_id = [97], jgr_member_id = [97], jgr_members = [\<lparr>gm_member_id = [97], gm_group_instance_id = [], gm_metadata = [1, 2]\<rparr>]\<rparr>) (body_VDecoder (JoinGroupResponse_body \<lparr>jgr_version = 0, jgr_throttle_time = 0, jgr_err = 0, jgr_generation_id = 0, jgr_group_protocol = [], jgr_leader_id = [], jgr_member_id = [], jgr_members = []\<rparr>) (JoinGroupResponse_decode \<lparr>jgr_version = 0, jgr_throttle_time = 0, jgr_err = 0, jgr_generation_id = 0, jgr_group_protocol = [], jgr_leader_id = [], jgr_member_id = [], jgr_members = []\<rparr>) \<lparr>jgr_version = 0, jgr_throttle_time = 0, jgr_err = 0, jgr_generation_id = 0, jgr_group_protocol = [], jgr_leader_id = [], jgr_member_id = [], jgr_members = []\<rparr>) (jgr_version \<lparr>jgr_version = 2, jgr_throttle_time = 5, jgr_err = 0, jgr_generation_id = 3, jgr_group_protocol = [114], jgr_leader_id = [97], jgr_member_id = [97], jgr_members = [\<lparr>gm_member_id = [97], gm_group_instance_id = [], gm_metadata = [1, 2]\<rparr>]\<rparr>) =
     Ok (JoinGroupResponse_seen \<lparr>jgr_version = 0, jgr_throttle_time = 0, jgr_err = 0, jgr_generation_id = 0, jgr_group_protocol = [], jgr_leader_id = [], jgr_member_id = [], jgr_members = []\<rparr> \<lparr>jgr_version = 2, jgr_throttle_time = 5, jgr_err = 0, jgr_generation_id = 3, jgr_group_protocol = [114], jgr_leader_id = [97], jgr_member_id = [97], jgr_members = [\<lparr>gm_member_id = [97], gm_group_instance_id = [], gm_metadata = [1, 2]\<rparr>]\<rparr>) ()"
proof -
  let ?m = "\<lparr>jgr_version = 2, jgr_throttle_time = 5, jgr_err = 0, jgr_generation_id = 3, jgr_group_protocol = [114], jgr_leader_id = [97], jgr_member_id = [97], jgr_members = [\<lparr>gm_member_id = [97], gm_group_instance_id = [], gm_metadata = [1, 2]\<rparr>]\<rparr>"
  have "JoinGroupResponse_ok ?m" "int (length (wJoinGroupResponse ?m)) \<le> MaxRequestSize"
    by (simp_all add: JoinGroupResponse_ok_def wJoinGroupResponse_def Let_def string_ok_def bytes_ok_def len_ok_def duration_ok_def MaxRequestSize_def
        MaxResponseSize_def wString_def wNullableString_def wBytes_def wLen_def wArray_def wTags_def wDurationMs_def
        be16_def be32_def be64_def byte_at_def JoinGroupResponse_is_flexible_version_def GroupMember_ok_def wGroupMember_def)
  from join_group_response_roundtrip [OF this, of "\<lparr>jgr_version = 0, jgr_throttle_time = 0, jgr_err = 0, jgr_generation_id = 0, jgr_group_protocol = [], jgr_leader_id = [], jgr_member_id = [], jgr_members = []\<rparr>"] show ?thesis by blast
qed

text \<open>
  An AddPartitionsToTxnRequest with distinct topics is encoded to its layout, and decoding rebuilds
  the map of topics to partitions.
\<close>

theorem add_partitions_request_roundtrip:
  assumes "AddPartitionsToTxnRequest_ok m" "int (length (wAddPartitionsToTxnRequest m)) \<le> MaxRequestSize"
  shows "encode (body_IEncoder (AddPartitionsToTxnRequest_body m)) [] = Ok () (wAddPartitionsToTxnRequest m) \<and>
    decode_version (wAddPartitionsToTxnRequest m) (body_VDecoder (AddPartitionsToTxnRequest_body this) (AddPartitionsToTxnRequest_decode this) this) (apq_version m) =
      Ok (AddPartitionsToTxnRequest_seen this m) ()"
  using apq.transfer [OF assms, of this] by (simp add: AddPartitionsToTxnRequest_body_def)

theorem add_partitions_request_roundtrip_witness:
  "decode_version (wAddPartitionsToTxnRequest \<lparr>apq_version = 1, apq_transactional_id = [116], apq_producer_id = 9, apq_producer_epoch = 1, apq_topic_partitions = [([97], [0, 1]), ([98], [2])]\<rparr>) (body_VDecoder (AddPartitionsToTxnRequest_body \<lparr>apq_version = 0, apq_transactional_id = [], apq_producer_id = 0, apq_producer_epoch = 0, apq_topic_partitions = []\<rparr>) (AddPartitionsToTxnRequest_decode \<lparr>apq_version = 0, apq_transactional_id = [], apq_producer_id = 0, apq_producer_epoch = 0, apq_topic_partitions = []\<rparr>) \<lparr>apq_version = 0, apq_transactional_id = [], apq_producer_id = 0, apq_producer_epoch = 0, apq_topic_partitions = []\<rparr>) (apq_version \<lparr>apq_version = 1, apq_transactional_id = [116], apq_producer_id = 9, apq_producer_epoch = 1, apq_topic_partitions = [([97], [0, 1]), ([98], [2])]\<rparr>) =
     Ok (AddPartitionsToTxnRequest_seen \<lparr>apq_version = 0, apq_transactional_id = [], apq_producer_id = 0, apq_producer_epoch = 0, apq_topic_partitions = []\<rparr> \<lparr>apq_version = 1, apq_transactional_id = [116], apq_producer_id = 9, apq_producer_epoch = 1, apq_topic_partitions = [([97], [0, 1]), ([98], [2])]\<rparr>) ()"
proof -
  let ?m = "\<lparr>apq_version = 1, apq_transactional_id = [116], apq_producer_id = 9, apq_producer_epoch = 1, apq_topic_partitions = [([97], [0, 1]), ([98], [2])]\<rparr>"
  have "AddPartitionsToTxnRequest_ok ?m" "int (length (wAddPartitionsToTxnRequest ?m)) \<le> MaxRequestSize"
    by (simp_all add: AddPartitionsToTxnRequest_ok_def wAddPartitionsToTxnRequest_def Let_def string_ok_def bytes_ok_def len_ok_def duration_ok_def MaxRequestSize_def
        MaxResponseSize_def wString_def wNullableString_def wBytes_def wLen_def wArray_def wTags_def wDurationMs_def
        be16_def be32_def be64_def byte_at_def wInt32Array_def)
  from add_partitions_request_roundtrip [OF this, of "\<lparr>apq_version = 0, apq_transactional_id = [], apq_producer_id = 0, apq_producer_epoch = 0, apq_topic_partitions = []\<rparr>"] show ?thesis by blast
qed

text \<open>
  An AddPartitionsToTxnResponse is encoded to its layout and decoded back to the same ordered map of
  topics to partition errors.
\<close>

theorem add_partitions_response_roundtrip:
  assumes "AddPartitionsToTxnResponse_ok m" "int (length (wAddPartitionsToTxnResponse m)) \<le> MaxRequestSize"
  shows "encode (body_IEncoder (AddPartitionsToTxnResponse_body m)) [] = Ok () (wAddPartitionsToTxnResponse m) \<and>
    decode_version (wAddPartitionsToTxnResponse m) (body_VDecoder (AddPartitionsToTxnResponse_body this) (AddPartitionsToTxnResponse_decode this) this) (apr_version m) =
      Ok (AddPartitionsToTxnResponse_seen this m) ()"
  using apr.transfer [OF assms, of this] by (simp add: AddPartitionsToTxnResponse_body_def)

theorem add_partitions_response_roundtrip_witness:
  "decode_version (wAddPartitionsToTxnResponse \<lparr>apr_version = 1, apr_throttle_time = 5, apr_errors = [([97], [\<lparr>pte_partition = 0, pte_err = 3\<rparr>]), ([98], [])]\<rparr>) (body_VDecoder (AddPartitionsToTxnResponse_body \<lparr>apr_version = 0, apr_throttle_time = 0, apr_errors = []\<rparr>) (AddPartitionsToTxnResponse_decode \<lparr>apr_version = 0, apr_throttle_time = 0, apr_errors = []\<rparr>) \<lparr>apr_version = 0, apr_throttle_time = 0, apr_errors = []\<rparr>) (apr_version \<lparr>apr_version = 1, apr_throttle_time = 5, apr_errors = [([97], [\<lparr>pte_partition = 0, pte_err = 3\<rparr>]), ([98], [])]\<rparr>) =
     Ok (AddPartitionsToTxnResponse_seen \<lparr>apr_version = 0, apr_throttle_time = 0, apr_errors = []\<rparr> \<lparr>apr_version = 1, apr_throttle_time = 5, apr_errors = [([97], [\<lparr>pte_partition = 0, pte_err = 3\<rparr>]), ([98], [])]\<rparr>) ()"
proof -
  let ?m = "\<lparr>apr_version = 1, apr_throttle_time = 5, apr_errors = [([97], [\<lparr>pte_partition = 0, pte_err = 3\<rparr>]), ([98], [])]\<rparr>"
  have "AddPartitionsToTxnResponse_ok ?m" "int (length (wAddPartitionsToTxnResponse ?m)) \<le> MaxRequestSize"
    by (simp_all add: AddPartitionsToTxnResponse_ok_def wAddPartitionsToTxnResponse_def Let_def string_ok_def bytes_ok_def len_ok_def duration_ok_def MaxRequestSize_def
        MaxResponseSize_def wString_def wNullableString_def wBytes_def wLen_def wArray_def wTags_def wDurationMs_def
        be16_def be32_def be64_def byte_at_def smap_def wTopicErrors_def wPartitionError_def)
  from add_partitions_response_roundtrip [OF this, of "\<lparr>apr_version = 0, apr_throttle_time = 0, apr_errors = []\<rparr>"] show ?thesis by blast
qed

text \<open>
  An InitProducerIDRequest is encoded to its layout in the fixed and the flexible versions and decoded
  back; before version 3 the producer id and epoch are not carried.
\<close>

theorem init_producer_id_request_roundtrip:
  assumes "InitProducerIDRequest_ok m" "int (length (wInitProducerIDRequest m)) \<le> MaxRequestSize"
  shows "encode (body_IEncoder (InitProducerIDRequest_body m)) [] = Ok () (wInitProducerIDRequest m) \<and>
    decode_version (wInitProducerIDRequest m) (body_VDecoder (InitProducerIDRequest_body this) (InitProducerIDRequest_decode this) this) (ipq_version m) =
      Ok (InitProducerIDRequest_seen this m) ()"
  using ipq.transfer [OF assms, of this] by (simp add: InitProducerIDRequest_body_def)

theorem init_producer_id_request_roundtrip_witness:
  "decode_version (wInitProducerIDRequest \<lparr>ipq_version = 1, ipq_transactional_id = [116], ipq_transaction_timeout = 60000, ipq_producer_id = 0, ipq_producer_epoch = 0\<rparr>) (body_VDecoder (InitProducerIDRequest_body \<lparr>ipq_version = 0, ipq_transactional_id = [], ipq_transaction_timeout = 0, ipq_producer_id = 1, ipq_producer_epoch = 1\<rparr>) (InitProducerIDRequest_decode \<lparr>ipq_version = 0, ipq_transactional_id = [], ipq_transaction_timeout = 0, ipq_producer_id = 1, ipq_producer_epoch = 1\<rparr>) \<lparr>ipq_version = 0, ipq_transactional_id = [], ipq_transaction_timeout = 0, ipq_producer_id = 1, ipq_producer_epoch = 1\<rparr>) (ipq_version \<lparr>ipq_version = 1, ipq_transactional_id = [116], ipq_transaction_timeout = 60000, ipq_producer_id = 0, ipq_producer_epoch = 0\<rparr>) =
     Ok (InitProducerIDRequest_seen \<lparr>ipq_version = 0, ipq_transactional_id = [], ipq_transaction_timeout = 0, ipq_producer_id = 1, ipq_producer_epoch = 1\<rparr> \<lparr>ipq_version = 1, ipq_transactional_id = [116], ipq_transaction_timeout = 60000, ipq_producer_id = 0, ipq_producer_epoch = 0\<rparr>) ()"
proof -
  let ?m = "\<lparr>ipq_version = 1, ipq_transactional_id = [116], ipq_transaction_timeout = 60000, ipq_producer_id = 0, ipq_producer_epoch = 0\<rparr>"
  have "InitProducerIDRequest_ok ?m" "int (length (wInitProducerIDRequest ?m)) \<le> MaxRequestSize"
    by (simp_all add: InitProducerIDRequest_ok_def wInitProducerIDRequest_def Let_def string_ok_def bytes_ok_def len_ok_def duration_ok_def MaxRequestSize_def
        MaxResponseSize_def wString_def wNullableString_def wBytes_def wLen_def wArray_def wTags_def wDurationMs_def
        be16_def be32_def be64_def byte_at_def InitProducerIDRequest_is_flexible_version_def)
  from init_producer_id_request_roundtrip [OF this, of "\<lparr>ipq_version = 0, ipq_transactional_id = [], ipq_transaction_timeout = 0, ipq_producer_id = 1, ipq_producer_epoch = 1\<rparr>"] show ?thesis by blast
qed

text \<open>
  ResponseHeader::decode reads length and correlation id (and skips the tagged fields from header
  version 1 on) when the length lies between 5 and MaxResponseSize, and returns -1 otherwise.
\<close>

theorem response_header_decoded:
  assumes "length (wResponseHeader version h @ rest) < 2 ^ 31"
  shows "ResponseHeader_decode version (new_decoder (wResponseHeader version h @ rest)) =
    (if 4 < sint (rh_length h) \<and> sint (rh_length h) \<le> MaxResponseSize
     then Ok h (advance (length (wResponseHeader version h)) (new_decoder (wResponseHeader version h @ rest)))
     else Err (- 1) (advance 4 (new_decoder (wResponseHeader version h @ rest))))"
  using response_header_ok [OF _ _ assms] response_header_bad [OF _ assms] by auto

theorem response_header_decoded_witness:
  "ResponseHeader_decode 0 (new_decoder (wResponseHeader 0 \<lparr>rh_length = 4, rh_correlation_id = 9\<rparr> @ [])) =
     Err (- 1) (advance 4 (new_decoder (wResponseHeader 0 \<lparr>rh_length = 4, rh_correlation_id = 9\<rparr> @ [])))"
  using response_header_decoded [of 0 "\<lparr>rh_length = 4, rh_correlation_id = 9\<rparr>" "[]"]
  by (simp add: wResponseHeader_def wTags_def be32_def)

text \<open>
  getUVariant, in front of the bytes encodeUVariant writes for a value below 2^63, returns that value
  and stops right behind them.
\<close>

theorem uvarint_roundtrip:
  assumes "unat x < 2 ^ 63" "length (pre @ encodeUVariant x @ rest) < 2 ^ 31"
  shows "getUVariant \<lparr>m_flexible = f, pd_offset = length pre, pd_raw = pre @ encodeUVariant x @ rest, pd_stack = st\<rparr> =
    Ok x \<lparr>m_flexible = f, pd_offset = length pre + length (encodeUVariant x),
          pd_raw = pre @ encodeUVariant x @ rest, pd_stack = st\<rparr>"
  using assms by (intro reads_at [OF reads_getUVariant refl])

theorem uvarint_roundtrip_witness:
  "getUVariant \<lparr>m_flexible = 0, pd_offset = length [9 :: byte], pd_raw = [9] @ encodeUVariant 300 @ [], pd_stack = []\<rparr> =
    Ok 300 \<lparr>m_flexible = 0, pd_offset = length [9 :: byte] + length (encodeUVariant 300), pd_raw = [9] @ encodeUVariant 300 @ [], pd_stack = []\<rparr>"
  by (rule uvarint_roundtrip) (simp_all add: encodeUVariant.simps)

text \<open>
  A value of 2^63 or more, which encodeUVariant writes in ten bytes, is refused by getUVariant with
  ErrUVariantOverflow and the cursor is put back.
\<close>

theorem uvarint_overflow:
  assumes "2 ^ 63 \<le> unat x" "length (encodeUVariant x) \<le> length raw" "slice 0 (length (encodeUVariant x)) raw = encodeUVariant x"
  shows "getUVariant \<lparr>m_flexible = fl, pd_offset = 0, pd_raw = raw, pd_stack = st\<rparr> =
    Err ErrUVariantOverflow \<lparr>m_flexible = fl, pd_offset = 0, pd_raw = raw, pd_stack = st\<rparr>"
  by (rule getUVariant_overflow [OF assms])

theorem uvarint_overflow_witness:
  "getUVariant \<lparr>m_flexible = 0, pd_offset = 0, pd_raw = encodeUVariant (2 ^ 63), pd_stack = []\<rparr> =
    Err ErrUVariantOverflow \<lparr>m_flexible = 0, pd_offset = 0, pd_raw = encodeUVariant (2 ^ 63), pd_stack = []\<rparr>"
  by (rule uvarint_overflow [of "2 ^ 63"]) (simp_all add: slice_def)

text \<open>
  For a positive value whose zig-zag image needs one more 7-bit group than the value, the sizing pass
  (varintLen) counts one byte less than the writer stores.
\<close>

theorem varint_sizing_short:
  assumes "128 ^ Suc k \<le> 2 * sint x" "sint x < 128 ^ Suc k"
  shows "length (encodeVariant x) = varintLen x + 1"
  by (rule varintLen_short [OF assms])

theorem varint_sizing_short_witness: "length (encodeVariant 100) = varintLen 100 + 1"
  by (rule varint_sizing_short [of 0]) simp_all

text \<open>
  VariantLengthField::variantSize does not return for a negative length, which getVariant can hand it
  from the wire.
\<close>

theorem variantSize_diverges:
  assumes "sint v < 0" shows "variantSize v = None"
  by (rule variantSize_negative [OF assms])

theorem variantSize_diverges_witness: "variantSize (- 5) = None"
  by (rule variantSize_diverges) simp

text \<open>
  In the fixed format getArrayLength sign-extends the bytes of the count: the count 200 that
  putArrayLength writes comes back as -56.
\<close>

theorem array_length_sign_extended:
  "encode \<lparr>ie_is_flexible = None, ie_encode = putArrayLength 200\<rparr> [] = Ok () [0, 0, 0, 200] \<and>
   getArrayLength (new_decoder [0, 0, 0, 200]) = Ok (- 56) (advance 4 (new_decoder [0, 0, 0, 200]))"
  by (rule conjI [OF array_length_200_written array_length_200_read])

text \<open>
  A string that fits the length field of the format is written by putString and read back by
  getString, in the fixed and in the flexible format, through the entry points of the codec.
\<close>

theorem string_codec:
  assumes "string_ok fl s" "int (length (wString fl s)) \<le> MaxRequestSize"
  shows "encode \<lparr>ie_is_flexible = Some fl, ie_encode = putString s\<rparr> [] = Ok () (wString fl s) \<and>
    decode_version (wString fl s) \<lparr>vd_is_flexible_version = Some (\<lambda>_. fl), vd_decode = (\<lambda>_. getString), vd_this = t\<rparr> version =
      Ok s ()"
  using codec_through_entry [OF emits_putString [OF assms(1)] reads_getString [OF assms(1)] assms(2), of t version] by simp

theorem string_codec_witness:
  "decode_version (wString False [104, 105]) \<lparr>vd_is_flexible_version = Some (\<lambda>_. False), vd_decode = (\<lambda>_. getString), vd_this = []\<rparr> 0 =
    Ok [104, 105] ()"
  using string_codec [of False "[104, 105]" "[]" 0] by (simp add: string_ok_def wString_def MaxRequestSize_def)

text \<open>
  RestrictApiVersion picks, when the range the broker advertises reaches down to the client version,
  the largest version that both sides support.
\<close>

theorem api_version_negotiated:
  assumes "map_of ranges (pb_key pb) = Some (lo, hi)" "sint lo \<le> sint hi" "sint lo \<le> sint (pb_version pb)"
  shows "sint lo \<le> sint (RestrictApiVersion pb ranges) \<and> sint (RestrictApiVersion pb ranges) \<le> sint hi \<and>
    sint (RestrictApiVersion pb ranges) \<le> sint (pb_version pb) \<and>
    (\<forall>v. sint v \<le> sint hi \<longrightarrow> sint v \<le> sint (pb_version pb) \<longrightarrow> sint v \<le> sint (RestrictApiVersion pb ranges))"
  using RestrictApiVersion_range [OF assms] by blast

theorem api_version_negotiated_witness:
  "sint (RestrictApiVersion (HeartbeatRequest_body \<lparr>hbq_version = 4, hbq_group_id = [], hbq_generation_id = 0, hbq_member_id = [],
     hbq_group_instance_id = []\<rparr>) [(12, 0, 3)]) \<le> sint (3 :: int16)"
  using api_version_negotiated [of "[(12, 0, 3)]" "HeartbeatRequest_body \<lparr>hbq_version = 4, hbq_group_id = [], hbq_generation_id = 0,
    hbq_member_id = [], hbq_group_instance_id = []\<rparr>" 0 3] by (auto simp: HeartbeatRequest_body_def)

text \<open>
  The request version a constructor picks for the configured broker requires no newer broker, from 1.0
  on.
\<close>

theorem constructed_version_supported:
  assumes "V1_0_0_0 \<le> v"
  shows "AddPartitionsToTxnRequest_required_version (AddPartitionsToTxnRequest_new v) \<le> v \<and>
    InitProducerIDRequest_required_version (InitProducerIDRequest_new v) \<le> v \<and>
    FindCoordinatorRequest_required_version (FindCoordinatorRequest_new v) \<le> v \<and>
    SaslAuthenticateRequest_required_version (SaslAuthenticateRequest_new v) \<le> v"
  using old_versions_le [OF assms] assms
  by (auto simp: AddPartitionsToTxnRequest_new_def AddPartitionsToTxnRequest_required_version_def
      InitProducerIDRequest_new_def InitProducerIDRequest_required_version_def FindCoordinatorRequest_new_def
      FindCoordinatorRequest_required_version_def SaslAuthenticateRequest_new_def SaslAuthenticateRequest_required_version_def)

theorem constructed_version_supported_witness:
  "InitProducerIDRequest_required_version (InitProducerIDRequest_new V2_5_0_0) \<le> V2_5_0_0"
  using constructed_version_supported [of V2_5_0_0] by (simp add: KafkaVersion_le_iff V1_0_0_0_def V2_5_0_0_def)

text \<open>
  In every modelled class the header version announces the tagged fields of the header exactly in the
  flexible versions.
\<close>

theorem header_version_matches_format:
  "((sint (pb_header_version (HeartbeatRequest_body a)) \<ge> 2) = pb_is_flexible (HeartbeatRequest_body a)) \<and>
   ((sint (pb_header_version (JoinGroupRequest_body b)) \<ge> 2) = pb_is_flexible (JoinGroupRequest_body b)) \<and>
   ((sint (pb_header_version (LeaveGroupRequest_body c)) \<ge> 2) = pb_is_flexible (LeaveGroupRequest_body c)) \<and>
   ((sint (pb_header_version (SyncGroupRequest_body d)) \<ge> 2) = pb_is_flexible (SyncGroupRequest_body d)) \<and>
   ((sint (pb_header_version (InitProducerIDRequest_body e)) \<ge> 2) = pb_is_flexible (InitProducerIDRequest_body e)) \<and>
   ((sint (pb_header_version (HeartbeatResponse_body f)) \<ge> 1) = pb_is_flexible (HeartbeatResponse_body f)) \<and>
   ((sint (pb_header_version (JoinGroupResponse_body g)) \<ge> 1) = pb_is_flexible (JoinGroupResponse_body g)) \<and>
   ((sint (pb_header_version (LeaveGroupResponse_body h)) \<ge> 1) = pb_is_flexible (LeaveGroupResponse_body h)) \<and>
   ((sint (pb_header_version (SyncGroupResponse_body i)) \<ge> 1) = pb_is_flexible (SyncGroupResponse_body i)) \<and>
   ((sint (pb_header_version (InitProducerIDResponse_body j)) \<ge> 1) = pb_is_flexible (InitProducerIDResponse_body j))"
  by (intro conjI) (simp_all add: body_defs flexible_defs)

text \<open>
  KafkaVersion::IsAtLeast is the lexicographic order of the four version numbers.
\<close>

theorem version_order:
  "IsAtLeast (KafkaVersion a b c d) (KafkaVersion a' b' c' d') \<longleftrightarrow>
     a > a' \<or> a = a' \<and> (b > b' \<or> b = b' \<and> (c > c' \<or> c = c' \<and> d \<ge> d'))"
  by (simp add: KafkaVersion_le_iff)

text \<open>
  KafkaVersion::operator>= says yes to every version with the same major number, also to newer ones,
  where IsAtLeast says no.
\<close>

theorem version_operator_not_order:
  "version_ge (KafkaVersion a b c d) (KafkaVersion a b' c' d') \<and>
   \<not> (IsAtLeast V2_1_0_0 V2_7_0_0) \<and> version_ge V2_1_0_0 V2_7_0_0"
  by (simp add: kafka_version_defs KafkaVersion_le_iff)

text \<open>
  ParseKafkaVersion reads back what KafkaVersion::String prints: the four-part form of 0.x and the
  three-part form of later versions whose last number is 0.
\<close>

theorem version_text_roundtrip:
  assumes "a \<noteq> 0 \<Longrightarrow> d = 0"
  shows "ParseKafkaVersion (version_String (KafkaVersion a b c d)) = KafkaVersion a b c d"
  by (rule ParseKafkaVersion_String) (rule assms)

theorem version_text_roundtrip_witness:
  "ParseKafkaVersion (version_String (KafkaVersion 2 7 1 0)) = KafkaVersion 2 7 1 0"
  by (rule version_text_roundtrip) simp

text \<open>
  queue::pop_front returns nullptr on an empty ring and otherwise unlinks the first node, which is
  left linked to itself; other nodes are left alone.
\<close>

theorem queue_pop_front:
  assumes "ring h q xs"
  shows "case xs of
      [] \<Rightarrow> pop_front q h = (None, h)
    | x # xs' \<Rightarrow> \<exists>h'. pop_front q h = (Some x, h') \<and> ring h' q xs' \<and> q_empty x h' \<and> same_outside (set (q # xs)) h h'"
  by (rule pop_front_ring [OF assms])

theorem queue_pop_front_witness:
  "\<exists>h'. pop_front 0 \<lparr>m_prev = \<lambda>a. 1 - a, m_next = \<lambda>a. 1 - a\<rparr> = (Some 1, h') \<and> ring h' 0 []"
  using queue_pop_front [of "\<lparr>m_prev = \<lambda>a. 1 - a, m_next = \<lambda>a. 1 - a\<rparr>" 0 "[1]"] by (auto simp: ring_def)

text \<open>
  queue::move_to hands the whole list to an empty queue in order and leaves the source empty; on an
  empty source it returns false and changes nothing.
\<close>

theorem queue_move_to:
  assumes "ring h q xs" "q_empty p h" "p \<notin> set (q # xs)"
  shows "if xs = [] then move_to q p h = Some (False, h)
    else \<exists>h'. move_to q p h = Some (True, h') \<and> ring h' p xs \<and> q_empty q h' \<and> same_outside (set (p # q # xs)) h h'"
  by (rule move_to_ring [OF assms])

theorem queue_move_to_witness:
  "\<exists>h'. move_to 0 2 \<lparr>m_prev = \<lambda>a. if a < 2 then 1 - a else a, m_next = \<lambda>a. if a < 2 then 1 - a else a\<rparr> = Some (True, h') \<and>
     ring h' 2 [1]"
  using queue_move_to [of "\<lparr>m_prev = \<lambda>a. if a < 2 then 1 - a else a, m_next = \<lambda>a. if a < 2 then 1 - a else a\<rparr>" 0 "[1]" 2]
  by (auto simp: ring_def q_empty_def)

text \<open>
  Unlocking guard::co_mutex hands it to the task that has waited longest, without a moment in which it
  is free, and frees it when nobody waits.
\<close>

theorem mutex_handoff:
  assumes "mutex_step\<^sup>*\<^sup>* mutex_init m" "t \<in> mx_holders m"
  shows "mx_holders (mutex_unlock t m) = (case mx_waiter m of [] \<Rightarrow> {} | u # _ \<Rightarrow> {u}) \<and>
    mx_waiter (mutex_unlock t m) = tl (mx_waiter m) \<and> (mx_flag (mutex_unlock t m) \<longleftrightarrow> mx_waiter m \<noteq> [])"
  using mutex_unlock_handoff [OF mxinv.reachable [OF assms(1)] assms(2)] by blast

theorem mutex_handoff_witness: "mx_holders (mutex_unlock 1 (mutex_lock 2 (mutex_lock 1 mutex_init))) = {2}"
proof -
  let ?m = "mutex_lock 2 (mutex_lock 1 mutex_init)"
  have "mutex_step mutex_init (mutex_lock 1 mutex_init)" by (rule lock) (simp_all add: mutex_init_def)
  moreover have "mutex_step (mutex_lock 1 mutex_init) ?m" by (rule lock) (simp_all add: mutex_init_def mutex_lock_def guard_suspend_def)
  ultimately have "mutex_step\<^sup>*\<^sup>* mutex_init ?m" by (meson converse_rtranclp_into_rtranclp r_into_rtranclp)
  from mutex_handoff [OF this, of 1] show ?thesis by (simp add: mutex_init_def mutex_lock_def guard_suspend_def)
qed

text \<open>
  The unguarded co_channel pops without looking again after it was woken: a value taken by try_get
  between set and the next loop leaves the woken get to pop an empty std::queue.
\<close>

theorem channel_value_stolen:
  "(lchan_step True)\<^sup>*\<^sup>* lchan_init stolen_run \<and> ch_bad (lc_chan stolen_run)"
  by (rule conjI [OF stolen_run_reachable stolen_run_bad])

text \<open>
  co_task::unload removes the finished coroutine from the table and continues the one that waits
  longest, but its wait() returns 0 instead of the identifier: co_event::resume overwrites the
  reserved value with its default argument.
\<close>

theorem task_wait_loses_id:
  assumes "task_inv (tr_task (w_rest w))" "map_of (tk_promises (tr_task (w_rest w))) p = Some i"
    and "waiting w q ((e, c) # cs)"
  shows "\<exists>w'. unload k q p w = map_option (Pair (int_of_id i)) (k c 0 w') \<and> waiting w' q cs \<and>
    task_inv (tr_task (w_rest w')) \<and>
    map_of (tk_promises (tr_task (w_rest w'))) = (map_of (tk_promises (tr_task (w_rest w))))(p := None)"
  by (rule unload_wakes [OF assms])

theorem task_wait_loses_id_witness:
  "\<exists>w'. unload (\<lambda>c v w. if c = 7 \<and> v = 0 then Some w else None) 0 5 (\<lparr>w_heap = \<lparr>m_prev = \<lambda>a. 1 - a, m_next = \<lambda>a. 1 - a\<rparr>, w_events = \<lambda>_. \<lparr>ev_caller = Some 7, ev_status = CORO_SUSPEND, ev_tid = 0, ev_reserved = 0\<rparr>, w_rest = \<lparr>tr_task = \<lparr>tk_promises = [(5, 4)], tk_ids = {4}, tk_id = 4\<rparr>, tr_promise = \<lambda>_. \<lparr>pr_link = None, pr_tid = 3, pr_status = CORO_RUNNING, pr_type = CORO_NONE\<rparr>, tr_destroying = 0\<rparr>\<rparr>) = Some (4, w') \<and>
     map_of (tk_promises (tr_task (w_rest w'))) = Map.empty"
  using task_wait_loses_id [of "\<lparr>w_heap = \<lparr>m_prev = \<lambda>a. 1 - a, m_next = \<lambda>a. 1 - a\<rparr>, w_events = \<lambda>_. \<lparr>ev_caller = Some 7, ev_status = CORO_SUSPEND, ev_tid = 0, ev_reserved = 0\<rparr>, w_rest = \<lparr>tr_task = \<lparr>tk_promises = [(5, 4)], tk_ids = {4}, tk_id = 4\<rparr>, tr_promise = \<lambda>_. \<lparr>pr_link = None, pr_tid = 3, pr_status = CORO_RUNNING, pr_type = CORO_NONE\<rparr>, tr_destroying = 0\<rparr>\<rparr>" 5 4 0 1 7 "[]" "\<lambda>c v w. if c = 7 \<and> v = 0 then Some w else None"]
  by (auto simp: task_inv_def TASK_ID_MAX_def waiting_def ring_def int_of_id_def)

text \<open>
  A failed AddOffsetsToTxn call is reported as a success when the coordinator can be refreshed
  afterwards, since the refresh overwrites the error and the untouched response carries none.
\<close>

theorem txn_failed_call_success:
  assumes "cl_TransactionCoordinator c (m_transactional_id t) w = ((0, Some b), w1)"
    "cl_AddOffsetsToTxn c b (AddOffsetsToTxnRequest_at (cl_conf c) g t) w1 = ((err, r), w2)" "err \<noteq> 0" "aor_err r = 0"
    "cl_Close c b w2 = (u, w3)" "cl_RefreshTransactionCoordinator c (m_transactional_id t) w3 = (0, w4)"
  shows "publish_offsets_to_txn_add_offset c g (t, w) = Ok (Result False 0) (t, w4)"
  by (rule add_offset_failed_call [OF assms])

theorem txn_failed_call_success_witness:
  "publish_offsets_to_txn_add_offset (sample_client 0 1000) [103] (sample_txn InTransaction 0 [] [], ()) =
     Ok (Result False 0) (sample_txn InTransaction 0 [] [], ())"
  by (rule txn_failed_call_success [where b = 1 and err = 1000 and
        r = "\<lparr>aor_version = 0, aor_throttle_time = 0, aor_err = 0\<rparr>"]) (simp_all add: sample_client_def)

text \<open>
  Decoding a TxnOffsetCommitResponse that carries an error code for a partition indexes a vector that
  was only reserved: as soon as one topic has a partition, decode_version on the bytes that encode
  writes is undefined.
\<close>

theorem txn_offset_response_aborts:
  assumes "duration_ok (tor_throttle_time m)" "len_ok False (length (tor_topics m))"
    "\<forall>kv \<in> set (tor_topics m). string_ok False (fst kv) \<and> len_ok False (length (snd kv))"
    "\<exists>kv \<in> set (tor_topics m). snd kv \<noteq> []" "length (wTxnOffsetCommitResponse m) < 2 ^ 31"
  shows "decode_version (wTxnOffsetCommitResponse m)
    (body_VDecoder (TxnOffsetCommitResponse_body this) (TxnOffsetCommitResponse_decode this) this) version = Abort"
proof (rule decode_version_aborts)
  show "aborts False (TxnOffsetCommitResponse_decode this version) (wTxnOffsetCommitResponse m)"
    by (rule aborts_TxnOffsetCommitResponse [OF assms(1-4)])
  show "wTxnOffsetCommitResponse m \<noteq> []" by (simp add: wTxnOffsetCommitResponse_def)
qed (use assms(5) in \<open>simp_all add: TxnOffsetCommitResponse_body_def\<close>)

theorem txn_offset_response_aborts_witness:
  "decode_version (wTxnOffsetCommitResponse \<lparr>tor_version = 0, tor_throttle_time = 0, tor_topics = [([97], [\<lparr>pte_partition = 0, pte_err = 0\<rparr>])]\<rparr>)
     (body_VDecoder (TxnOffsetCommitResponse_body \<lparr>tor_version = 0, tor_throttle_time = 0, tor_topics = []\<rparr>)
       (TxnOffsetCommitResponse_decode \<lparr>tor_version = 0, tor_throttle_time = 0, tor_topics = []\<rparr>) \<lparr>tor_version = 0, tor_throttle_time = 0, tor_topics = []\<rparr>) 0 = Abort"
  by (rule txn_offset_response_aborts) (simp_all add: duration_ok_def len_ok_def string_ok_def MaxResponseSize_def
      wTxnOffsetCommitResponse_def wTxnOffsetErrors_def wArray_def wLen_def wString_def wDurationMs_def
      wPartitionError_def be16_def be32_def byte_at_def)

text \<open>
  A round robin partitioner spreads consecutive messages over the partitions in turn: the i-th message
  to a topic of n partitions goes to partition i mod n.
\<close>

theorem round_robin_partitions:
  assumes "0 < sint n"
  shows "\<exists>p'. send_all dist (map (\<lambda>m. (m, n)) ms) (NewRoundRobinPartitioner :: ('g, 'h) Partitioner) =
    Ok (map (\<lambda>i. word_of_int (int i mod sint n)) [0..<length ms]) p'"
  using round_robin_from [OF assms, of 0] assms by (simp add: NewRoundRobinPartitioner_def)

theorem round_robin_partitions_witness:
  "\<exists>p'. send_all (\<lambda>a b g. (a, g)) (map (\<lambda>m. (m, 2)) (replicate 3 \<lparr>pm_partition = 0, pm_key = []\<rparr>))
     (NewRoundRobinPartitioner :: (unit, unit) Partitioner) = Ok [0, 1, 0] p'"
  using round_robin_partitions [of 2 "\<lambda>a b g. (a, g)" "replicate 3 \<lparr>pm_partition = 0, pm_key = []\<rparr>"] by (simp add: upt_rec)

text \<open>
  A 32-bit FNV-1a hash that is saved with MarshalBinary in the middle of a message and restored with
  UnmarshalBinary into another object is accepted, and its final value is that of the whole message;
  the state of a CRC32 object is restored likewise.
\<close>

theorem fnv_resume:
  assumes "FNV32a_UnmarshalBinary (FNV32a_MarshalBinary (FNV32a_Update xs (FNV32a_Reset h))) h' = (ok, r)"
    and "CRC32_UnmarshalBinary hdl (CRC32_MarshalBinary hdl (CRC32_Update hdl xs (CRC32_Reset c))) c' = (ok', r')"
  shows "ok \<and> FNV32a_Final (FNV32a_Update ys r) = FNV32a_Final (FNV32a_Update (xs @ ys) (FNV32a_Reset h)) \<and>
    ok' \<and> CRC32_Final (CRC32_Update hdl ys r') = Checksum (xs @ ys) hdl"
  using fnv32a.resume [OF assms(1), of ys] fnv32a.digest_any [of "xs @ ys" h] crc32.resume [OF assms(2), of ys]
    crc32.digest_any [of hdl "xs @ ys" c]
  by (simp add: Checksum_def CRC32_Final_def CRC32_Update_def CRC32_Reset_def)

theorem fnv_resume_witness:
  "FNV32a_Final (FNV32a_Update [98] (FNV32a_Update [97] (FNV32a_Reset 0))) =
   FNV32a_Final (FNV32a_Update [97, 98] (FNV32a_Reset 0))"
proof -
  have "FNV32a_UnmarshalBinary (FNV32a_MarshalBinary (FNV32a_Update [97] (FNV32a_Reset 0))) 5 =
      (True, FNV32a_Update [97] (FNV32a_Reset 0))" by (rule fnv32a.unmarshal)
  moreover have "CRC32_UnmarshalBinary [] (CRC32_MarshalBinary [] (CRC32_Update [] [97] (CRC32_Reset 0))) 0 =
      (True, CRC32_Update [] [97] (CRC32_Reset 0))" by (rule crc32.unmarshal)
  ultimately show ?thesis using fnv_resume [where ys = "[98]"] by fastforce
qed

text \<open>
  The round robin strategy hands out only partitions that exist, only to members that asked for their
  topic, and no partition more often than it is listed, for any members and topics.
\<close>

theorem round_robin_plan_safe:
  assumes "finite ids"
  shows "(\<forall>m t p. p \<in> set (plan_at (snd (RoundRobinBalancer_Plan members topics [])) m t) \<longrightarrow>
      (\<exists>ps. (t, ps) \<in> set topics \<and> p \<in> set ps) \<and> m \<in> subscribers members t) \<and>
    (\<Sum>m \<in> ids. count_list (plan_at (snd (RoundRobinBalancer_Plan members topics [])) m t) p) \<le>
      count_list (topic_partitions topics) (t, p)"
  using RoundRobin_sound RoundRobin_once [OF assms] by blast

theorem round_robin_plan_safe_witness:
  "(\<Sum>m \<in> {[97], [98]}. count_list (plan_at (snd (RoundRobinBalancer_Plan [([97], [[116]]), ([98], [[117]])]
     [([116], [0])] [])) m [116]) 0) \<le> count_list (topic_partitions [([116], [0])]) ([116], 0)"
  using round_robin_plan_safe [of "{[97], [98]}"] by blast

end
