(* ===== verification/Spec2Isabelle.thy ===== *)
theory Spec2Isabelle
  imports Further_Facts
begin

text \<open>
  Verification of coev: a C++20 coroutine library (under \<^verbatim>\<open>src/src/coev\<close>) and the Kafka client built on it (under
  \<^verbatim>\<open>src/src/coev_kafka\<close>).

  \<^bold>\<open>The program.\<close>  Three parts are modelled.

  The codec of the Kafka client turns messages into bytes and back.  A message class has one \<^verbatim>\<open>encode\<close> method that
  runs twice over a \<^verbatim>\<open>packet_encoder\<close>: as PREP it only counts bytes, as REAL it writes into a buffer of the counted
  size.  Its \<^verbatim>\<open>decode\<close> method runs over a \<^verbatim>\<open>packet_decoder\<close>, a cursor on the received bytes.  Both sides know a fixed
  and a flexible format (a nesting counter, \<^verbatim>\<open>flexible_type\<close>) and push fields: places in the buffer that are filled
  in or checked when they are popped (lengths, checksums).  \<^verbatim>\<open>encoder_decoder.cpp\<close> holds the entry points,
  \<^verbatim>\<open>request.cpp\<close> and \<^verbatim>\<open>response_header.cpp\<close> the frames around a message.

  The runtime suspends and resumes coroutines.  A coroutine waits on a \<^verbatim>\<open>co_event\<close>, a node of the intrusive list of a
  \<^verbatim>\<open>co_async\<close>; the status word of the event decides between the awaiting and the resuming thread.  Mutex, channel, wait
  group and task table are built from these queues.

  Above the codec the client decides.  A transactional producer keeps the state of its transaction in a
  \<^verbatim>\<open>TransactionManager\<close> that talks to the coordinator through brokers; a partitioner picks the partition of a message;
  a balance strategy assigns the partitions of a consumer group to its members.

  \<^bold>\<open>The theories.\<close>
  \<^item> \<open>Prelude\<close>: outcomes of a call (\<open>Ok\<close>, \<open>Err\<close> with the code, \<open>Abort\<close> for a failed assertion or undefined behaviour),
    the program combinators, big-endian bytes.
  \<^item> \<open>Flexible_Type\<close>, \<open>Varint\<close>, \<open>Crc32\<close>: \<^verbatim>\<open>flexible_type.cpp\<close>, the variable-length integers of \<^verbatim>\<open>packet_encoder.cpp\<close>,
    \<^verbatim>\<open>packet_decoder.cpp\<close> and \<^verbatim>\<open>variant_length_field.cpp\<close>, and the checksums of \<^verbatim>\<open>crc32_field.cpp\<close> and
    \<^verbatim>\<open>utils/hash/crc32.cpp\<close>.
  \<^item> \<open>Packet_Encoder\<close>, \<open>Packet_Decoder\<close>: all methods of the two classes, branch by branch, with the push fields.
  \<^item> \<open>Codec\<close>: the contracts \<open>emits\<close> (both passes of a writer produce the same given bytes) and \<open>reads\<close> (a reader in front
    of the bytes returns the value and stops behind them), and that every writer and reader keeps its contract for the
    layouts \<open>wString\<close>, \<open>wBytes\<close>, ... of the protocol.
  \<^item> \<open>Push_Field\<close>: what happens between \<^verbatim>\<open>push\<close> and \<^verbatim>\<open>pop\<close>; the locale \<open>fixed_push_field\<close> is interpreted for the length and
    the checksum field.
  \<^item> \<open>Kafka_Version\<close>, \<open>Encoder_Decoder\<close>: \<^verbatim>\<open>version.cpp\<close>; \<^verbatim>\<open>encoder_decoder.cpp\<close>, \<^verbatim>\<open>request.cpp\<close>, \<^verbatim>\<open>response_header.cpp\<close>.
  \<^item> \<open>Protocol\<close>: the locale \<open>protocol_message\<close>, the contract of a message class, and what follows from it once for all
    classes; \<^verbatim>\<open>RestrictApiVersion\<close>.
  \<^item> \<open>Group_Messages\<close>, \<open>Txn_Messages\<close>, \<open>Session_Messages\<close>: twenty-one message classes, each with its record, its methods and
    an interpretation of \<open>protocol_message\<close>.  A record has the fields of the class (\<open>m_group_id\<close> of \<^verbatim>\<open>HeartbeatRequest\<close> is
    \<open>hbq_group_id\<close>), \<open>X_body\<close> the virtual methods, \<open>wX\<close> the layout, \<open>X_ok\<close> which messages fit it, \<open>X_seen this m\<close> the
    object \<open>this\<close> after it decoded \<open>m\<close>.
  \<^item> \<open>Acl_Types\<close>, \<open>Acl_Messages\<close>, \<open>Broker_Address\<close>, \<open>Group_Admin_Messages\<close>, \<open>Offset_Messages\<close>: twenty-two more classes in
    the same way, the enumerations of \<^verbatim>\<open>acl_types.cpp\<close>, and \<^verbatim>\<open>Broker::encode\<close> and \<^verbatim>\<open>decode\<close>.
  \<^item> \<open>Kafka_Record\<close>, \<open>Record_Batch\<close>, \<open>Message_Sets\<close>, \<open>Kafka_Records\<close>: \<^verbatim>\<open>record.cpp\<close>, \<^verbatim>\<open>record_batch.cpp\<close> with
    \<^verbatim>\<open>timestamp.cpp\<close>, \<^verbatim>\<open>message.cpp\<close> with \<^verbatim>\<open>message_set.cpp\<close>, and \<^verbatim>\<open>records.cpp\<close> with \<^verbatim>\<open>control_record.cpp\<close>.  The
    compression library is a parameter: a function for each direction.  The decoders of message sets call each other
    with fuel; two units are enough, because the first block already fails.
  \<^item> \<open>Decoder_Safety\<close>, \<open>Message_Safety\<close>: the contract \<open>safe\<close> of a decoder on arbitrary bytes, for every reader and, composed
    from them, for the message classes.
  \<^item> \<open>Intrusive_Queue\<close>: \<^verbatim>\<open>queue.h\<close> and \<^verbatim>\<open>queue.cpp\<close> on a heap of links; the locale \<open>fifo_queue\<close> is what a client needs of it.
  \<^item> \<open>Co_Event\<close>: \<^verbatim>\<open>co_event.cpp\<close>, as whole methods and as two interleaved threads of atomic accesses.
  \<^item> \<open>Co_Async\<close>: \<^verbatim>\<open>co_async.cpp\<close> and \<^verbatim>\<open>local_resume.cpp\<close>; the code of a continued coroutine is a parameter.
  \<^item> \<open>Co_Sync\<close>: the critical sections of \<^verbatim>\<open>guard::co_async\<close> and, as step relations, \<^verbatim>\<open>co_mutex.cpp\<close>, \<^verbatim>\<open>co_channel.h\<close> and
    \<^verbatim>\<open>co_waitgroup.cpp\<close>; the locale \<open>inductive_invariant\<close> is interpreted for each.
  \<^item> \<open>Co_Task\<close>: \<^verbatim>\<open>co_task.cpp\<close>.

  \<^item> \<open>Txn_Offset_Messages\<close>: the offset commit of a transaction, two classes that drop most return codes.
  \<^item> \<open>Decimal\<close>: \<^verbatim>\<open>std::to_string\<close> and the keys made of a name and a number.
  \<^item> \<open>Txn_Status\<close>, \<open>Transaction_Manager\<close>, \<open>Transaction_Safety\<close>: \<^verbatim>\<open>transaction_manager.h\<close>, \<^verbatim>\<open>transaction_manager.cpp\<close> and the
    parts of \<^verbatim>\<open>async_producer.cpp\<close> that drive it.  The status flags are related to a state machine of eight states; the
    locales \<open>txn_preorder\<close> and \<open>txn_relation\<close> carry a relation on managers through every coroutine.  What the cluster
    answers is a record of functions of the outside world, over which all theorems quantify.
  \<^item> \<open>Hashes\<close>: the hash objects of \<^verbatim>\<open>utils/hash\<close>; the locale \<open>hasher\<close> is interpreted for the seven classes.
  \<^item> \<open>Partitioner\<close>: \<^verbatim>\<open>partitioner.cpp\<close>, with the generator of the standard library as a parameter.
  \<^item> \<open>Balance_Strategy\<close>: the range and the round robin strategy of \<^verbatim>\<open>balance_strategy.cpp\<close>.
  \<^item> \<open>Sticky_Strategy\<close>: the sticky strategy of the same file, with \<^verbatim>\<open>topic_type.cpp\<close>.  \<open>Sticky_Invariant\<close> holds what every
    operation keeps (a partition has one owner, who subscribes to its topic), \<open>Sticky_Loop\<close> the loops of the plan,
    \<open>Sticky_Plan\<close> that the plan hands out every partition once, \<open>Sticky_Termination\<close> when the plan returns, and
    \<open>Sticky_Divergence\<close> an input for which it does not.
  \<^item> \<open>Kafka_Errors\<close>: the enumeration of \<^verbatim>\<open>errors.h\<close> and the texts of \<^verbatim>\<open>errors.cpp\<close>.
  \<^item> \<open>Topic_Messages\<close>, \<open>Config_Messages\<close>, \<open>Quota_Messages\<close>, \<open>Scram_Messages\<close>, \<open>Cluster_Messages\<close>: the messages of the
    administration client, thirty more classes in the same way, with \<^verbatim>\<open>topic_partition.cpp\<close> and \<^verbatim>\<open>scram_formatter.cpp\<close>
    (\<^verbatim>\<open>HMAC\<close> of OpenSSL is a parameter).
  \<^item> \<open>Further_Facts\<close>: facts on single classes, beside the properties of this theory.

  \<^bold>\<open>What is shown\<close> (in this theory).  Messages survive the round trip through the entry points, in every version and
  both formats, with the bytes of the protocol layout in between; too long messages and trailing bytes are refused;
  no string of bytes makes the decoder of most classes fail otherwise than with an error code;
  frames carry the length of what is behind them and headers are checked; record batches survive the round trip; a checksum guards the bytes read under it
  and the table-driven checksum is the bitwise one.  The primitive types read back what they write, with the bounds
  where they do not.  Versions are ordered, printed and parsed, and negotiation picks the best common one.  The
  intrusive list refines a sequence.  An event continues its coroutine exactly once in every interleaving and always
  completes.  Mutex, channel and wait group keep their promises in every interleaving, and task identifiers are
  unique.  A transaction manager refines its state machine, stays in a fatal error, and numbers the messages of each
  partition without gaps.  Partitions are in range, equal keys go to equal partitions, and the range and round robin
  assignments are complete, free of duplicates and balanced under the stated conditions.  The sticky assignment hands out every
  partition once to a subscriber, returns when all members have the same subscriptions and when no topic has more than one
  partition, and runs for ever on an input that is given.  Where the code falls short of this, the theorem says so and names the case.

  \<^bold>\<open>Machine arithmetic, bounds, loops.\<close>  Integers are words of their width; \<open>int\<close> overflow, an access outside a buffer
  and a failed assertion are \<open>Abort\<close> (\<open>None\<close> in the runtime).  Packets are below \<open>2 ^ 31\<close> bytes, which the size limits
  of the client guarantee.  The varint readers do ten rounds at most.  \<^verbatim>\<open>Retry\<close> makes at most \<open>attempts + 1\<close> attempts and is total.  Loops without a bound in the code
  (\<open>variantSize\<close>, \<open>co_async_resume_all\<close>, \<open>local_resume\<close>, \<open>increase_loop\<close>) are partial functions, and where they end this
  is proved.  Interleavings are sequentially consistent; everything under a \<^verbatim>\<open>std::mutex\<close> is one step.

  \<^bold>\<open>Not modelled.\<close>  Sockets, timers and the event loop (calls into libev); broker connections, metadata refresh,
  producers, consumers, the consumer group and the administration client, which drive those; the message
  classes ApiVersions, ConsumerMetadata, FindCoordinatorResponse, Metadata, Produce and Fetch, and \<^verbatim>\<open>request_decode.cpp\<close>,
  which chooses among all classes; the user data of group members; compression, SASL mechanisms, TLS; the HTTP, MySQL, Redis,
  DNS and ZooKeeper modules.  A message object after a failed \<^verbatim>\<open>decode\<close> is not described: only the error code is.
  Logging has no effect in the model.  A transaction manager is used by one coroutine at a time: nothing else changes it
  while a coroutine of it waits for the network.
\<close>

text \<open>
  C1. Whatever calls the application and the producer make on a new transaction manager and whatever
  the cluster answers, the manager is in one of eight states, it got there along the edges of the
  state machine of a transactional producer, an error is recorded exactly in the two error states, and
  no partition is both pending and part of the transaction.
\<close>

theorem txn_refines_state_machine:
  assumes "(txn_step c)\<^sup>*\<^sup>* (TransactionManager_new conf, w) (t, w')"
  shows "\<exists>st. txn_edge\<^sup>*\<^sup>* Uninitialized st \<and> m_status t = txn_flags st \<and> (in_error st \<longleftrightarrow> m_last_error t \<noteq> 0) \<and>
    set (m_pending_partitions_in_current_txn t) \<inter> set (m_partitions_in_current_txn t) = {}"
proof -
  have "refines_txn (TransactionManager_new conf) t" using txn_run_refines [OF assms] by simp
  with inv_at_new [of conf] show ?thesis unfolding refines_txn_def inv_at_def by blast
qed

theorem txn_refines_state_machine_witness:
  "\<exists>st. txn_edge\<^sup>*\<^sup>* Uninitialized st \<and>
     m_status (snd (maybe_transition_to_error_state 90 (TransactionManager_new
       \<lparr>cf_Version = V2_0_0_0, cf_Idempotent = True, cf_Transaction_ID = [116], cf_Transaction_Timeout = 0,
        cf_Retry_Max = 3, cf_Retry_Backoff = 0, cf_Retry_BackoffFunc = None\<rparr>))) = txn_flags st"
proof -
  let ?t = "TransactionManager_new \<lparr>cf_Version = V2_0_0_0, cf_Idempotent = True, cf_Transaction_ID = [116],
    cf_Transaction_Timeout = 0, cf_Retry_Max = 3, cf_Retry_Backoff = 0, cf_Retry_BackoffFunc = None\<rparr>"
  have "(txn_step (undefined :: unit Client))\<^sup>*\<^sup>* (?t, ()) (snd (maybe_transition_to_error_state 90 ?t), ())"
    by (intro r_into_rtranclp step_error)
  from txn_refines_state_machine [OF this] show ?thesis by blast
qed

text \<open>
  C2. The range strategy assigns every partition of a topic that exists and has subscribers exactly
  once: the subscribers, in the order of their ids, get consecutive slices that together are the list
  of partitions and whose lengths differ by at most one, and members that did not ask for the topic
  get nothing.
\<close>

theorem range_plan_exact:
  assumes "map_of topics t = Some partitions" "subscribers members t \<noteq> {}"
  shows "let ids = sorted_list_of_set (subscribers members t);
             got = (\<lambda>m. plan_at (snd (range_Plan members topics)) m t)
         in concat (map got ids) = partitions \<and>
            (\<forall>i < length ids. length (got (ids ! i)) = length partitions div length ids +
               (if i < length partitions mod length ids then 1 else 0)) \<and>
            (\<forall>m. m \<notin> subscribers members t \<longrightarrow> got m = [])"
proof -
  let ?ids = "sorted_list_of_set (subscribers members t)"
  note slices = range_Plan_slices [OF assms]
  have "length (plan_at (snd (range_Plan members topics)) (?ids ! i) t) = length partitions div length ?ids +
      (if i < length partitions mod length ?ids then 1 else 0)" if "i < length ?ids" for i
    using arg_cong [OF slices(1), of "\<lambda>xs. xs ! i"] that by (simp add: length_range_slice)
  then show ?thesis using slices concat_range_slices [OF slices(2), of partitions] by (simp add: Let_def)
qed

theorem range_plan_exact_witness:
  "plan_at (snd (range_Plan [([97], [[116]]), ([98], [[116]])] [([116], [0, 1, 2])])) [97] [116] = [0, 1]"
proof -
  let ?ms = "[([97], [[116]]), ([98], [[116]])] :: members" and ?ts = "[([116], [0, 1, 2])] :: topics"
  have s: "subscribers ?ms [116] = {[97], [98]}" by (auto simp: subscribers_def)
  have l: "sorted_list_of_set {[97], [98 :: byte]} = [[97], [98]]" by (simp add: word_less_def)
  have "length (plan_at (snd (range_Plan ?ms ?ts)) [97] [116]) = 2 \<and>
      plan_at (snd (range_Plan ?ms ?ts)) [97] [116] @ plan_at (snd (range_Plan ?ms ?ts)) [98] [116] = [0, 1, 2]"
    using range_plan_exact [of ?ts "[116]" "[0, 1, 2]" ?ms] by (auto simp: s l Let_def All_less_Suc div_Suc mod_Suc)
  then show "plan_at (snd (range_Plan ?ms ?ts)) [97] [116] = [0, 1]" by (auto simp: append_eq_Cons_conv)
qed

text \<open>
  C3. Whenever the sticky strategy returns it reports success, and its plan gives every partition that
  somebody subscribes to to exactly one of its subscribers; no subscriber of a topic has two
  partitions less than a member that was given a partition of it. No at() on the way throws.
\<close>

theorem sticky_plan_fair:
  assumes "smap members" "smap topics" "[] \<notin> fst ` set members"
    and "StickyBalanceStrategy_Plan members topics plan = Some r"
  shows "\<exists>plan'. r = Some (0, plan') \<and> fair_plan members topics plan'"
  using assms by (rule Plan_fair)

theorem sticky_plan_fair_witness:
  "\<exists>plan'. StickyBalanceStrategy_Plan [([1], [[7]]), ([2], [[7]])] [([7], [0, 1, 2])] [] = Some (Some (0, plan')) \<and>
    fair_plan [([1], [[7]]), ([2], [[7]])] [([7], [0, 1, 2])] plan'"
proof -
  let ?ms = "[([1], [[7]]), ([2], [[7]])] :: members" and ?ts = "[([7], [0, 1, 2])] :: topics"
  have ok: "smap ?ms" "smap ?ts" "[] \<notin> fst ` set ?ms" by (simp_all add: smap_def)
  have "set (entry_of m ?ms) = set (entry_of m' ?ms)" if "m \<in> fst ` set ?ms" "m' \<in> fst ` set ?ms" for m m'
    using that by (auto simp: entry_of_def)
  from Plan_returns_equal [OF ok this, of "[]"] obtain r where r: "StickyBalanceStrategy_Plan ?ms ?ts [] = Some r" by blast
  from sticky_plan_fair [OF ok r] r show ?thesis by auto
qed

text \<open>
  C4. The sticky strategy returns when all members subscribe to the same topics and when no topic has
  more than one partition.
\<close>

theorem sticky_plan_returns:
  assumes "smap members" "smap topics" "[] \<notin> fst ` set members"
    and "(\<forall>m \<in> fst ` set members. \<forall>m' \<in> fst ` set members. set (entry_of m members) = set (entry_of m' members)) \<or>
      (\<forall>t. length (entry_of t topics) \<le> 1)"
  shows "\<exists>plan'. StickyBalanceStrategy_Plan members topics plan = Some (Some (0, plan'))"
proof -
  obtain r where r: "StickyBalanceStrategy_Plan members topics plan = Some r"
    using assms(4) Plan_returns_equal [OF assms(1-3)] Plan_returns_single [OF assms(1-3)] by blast
  from Plan_fair [OF assms(1-3) r] r show ?thesis by auto
qed

theorem sticky_plan_returns_witness:
  "\<exists>plan'. StickyBalanceStrategy_Plan [([1], [[7], [8]]), ([2], [[8], [9]])] [([7], [0]), ([8], [3]), ([9], [1])] [] =
    Some (Some (0, plan'))"
  by (rule sticky_plan_returns) (auto simp: smap_def entry_of_def)

text \<open>
  C5. A SyncGroupRequest that fits the layout is encoded in both passes to exactly its protocol
  layout, and decode_version turns those bytes back into the message; fields the version does not
  carry keep the values of the decoding object.
\<close>

theorem sync_group_request_roundtrip:
  assumes "SyncGroupRequest_ok m" "int (length (wSyncGroupRequest m)) \<le> MaxRequestSize"
  shows "encode (body_IEncoder (SyncGroupRequest_body m)) [] = Ok () (wSyncGroupRequest m) \<and>
    decode_version (wSyncGroupRequest m) (body_VDecoder (SyncGroupRequest_body this) (SyncGroupRequest_decode this) this) (sgq_version m) =
      Ok (SyncGroupRequest_seen this m) ()"
  using sgq.transfer [OF assms, of this] by (simp add: SyncGroupRequest_body_def)

theorem sync_group_request_roundtrip_witness:
  "decode_version (wSyncGroupRequest \<lparr>sgq_version = 3, sgq_group_id = [103], sgq_generation_id = 7, sgq_member_id = [109, 49], sgq_group_instance_id = [], sgq_group_assignments = [\<lparr>sga_member_id = [109, 49], sga_assignment = [1, 2, 3]\<rparr>]\<rparr>) (body_VDecoder (SyncGroupRequest_body \<lparr>sgq_version = 0, sgq_group_id = [], sgq_generation_id = 0, sgq_member_id = [], sgq_group_instance_id = [], sgq_group_assignments = []\<rparr>) (SyncGroupRequest_decode \<lparr>sgq_version = 0, sgq_group_id = [], sgq_generation_id = 0, sgq_member_id = [], sgq_group_instance_id = [], sgq_group_assignments = []\<rparr>) \<lparr>sgq_version = 0, sgq_group_id = [], sgq_generation_id = 0, sgq_member_id = [], sgq_group_instance_id = [], sgq_group_assignments = []\<rparr>) (sgq_version \<lparr>sgq_version = 3, sgq_group_id = [103], sgq_generation_id = 7, sgq_member_id = [109, 49], sgq_group_instance_id = [], sgq_group_assignments = [\<lparr>sga_member_id = [109, 49], sga_assignment = [1, 2, 3]\<rparr>]\<rparr>) =
     Ok (SyncGroupRequest_seen \<lparr>sgq_version = 0, sgq_group_id = [], sgq_generation_id = 0, sgq_member_id = [], sgq_group_instance_id = [], sgq_group_assignments = []\<rparr> \<lparr>sgq_version = 3, sgq_group_id = [103], sgq_generation_id = 7, sgq_member_id = [109, 49], sgq_group_instance_id = [], sgq_group_assignments = [\<lparr>sga_member_id = [109, 49], sga_assignment = [1, 2, 3]\<rparr>]\<rparr>) ()"
proof -
  let ?m = "\<lparr>sgq_version = 3, sgq_group_id = [103], sgq_generation_id = 7, sgq_member_id = [109, 49], sgq_group_instance_id = [], sgq_group_assignments = [\<lparr>sga_member_id = [109, 49], sga_assignment = [1, 2, 3]\<rparr>]\<rparr>"
  have "SyncGroupRequest_ok ?m" "int (length (wSyncGroupRequest ?m)) \<le> MaxRequestSize"
    by (simp_all add: SyncGroupRequest_ok_def wSyncGroupRequest_def Let_def string_ok_def bytes_ok_def len_ok_def duration_ok_def MaxRequestSize_def
        MaxResponseSize_def wString_def wNullableString_def wBytes_def wLen_def wArray_def wTags_def wDurationMs_def
        be16_def be32_def be64_def byte_at_def SyncGroupRequest_is_flexible_version_def SyncGroupRequestAssignment_ok_def wSyncGroupRequestAssignment_def)
  from sync_group_request_roundtrip [OF this, of "\<lparr>sgq_version = 0, sgq_group_id = [], sgq_generation_id = 0, sgq_member_id = [], sgq_group_instance_id = [], sgq_group_assignments = []\<rparr>"] show ?thesis by blast
qed

text \<open>
  C6. In every interleaving of co_await and resume(x) on a co_event no assertion fails, the awaiting
  coroutine continues at most once, and if it has finished it saw the value x.
\<close>

theorem event_exactly_once:
  assumes "(event_step c x)\<^sup>*\<^sup>* (event_start ev) s"
  shows "\<not> es_failed s \<and> es_continued s \<le> 1 \<and> (\<forall>v. es_await s = A_done v \<longrightarrow> v = x \<and> es_continued s = 1)"
  using event_inv_once [OF event_inv_reachable [OF assms]] .

theorem event_exactly_once_witness:
  "\<not> es_failed (event_start \<lparr>ev_caller = None, ev_status = CORO_INIT, ev_tid = 0, ev_reserved = 0\<rparr>)"
  using event_exactly_once [of 1 5 "\<lparr>ev_caller = None, ev_status = CORO_INIT, ev_tid = 0, ev_reserved = 0\<rparr>"
      "event_start \<lparr>ev_caller = None, ev_status = CORO_INIT, ev_tid = 0, ev_reserved = 0\<rparr>"] by blast

text \<open>
  C7. A record batch whose records keep their length byte is written, in both passes, to the layout of
  the protocol with its length and checksum, and read back from it; the reader restores everything but
  the two timestamps, and it does so whatever checksum the bytes carry.
\<close>

theorem record_batch_roundtrip:
  assumes "RecordBatch_ok False deflate inflate b" "rb_records this = []"
  shows "emits False (RecordBatch_encode deflate b) (wRecordBatch False deflate b) \<and>
    reads False (RecordBatch_decode inflate this) (wBatchFrame b crc (wBatchTail False b (batch_payload deflate b)))
      (RecordBatch_seen this b)"
  using emits_RecordBatch reads_RecordBatch [OF assms] assms(1) by (auto simp: RecordBatch_ok_def)

theorem record_batch_roundtrip_witness:
  "reads False (RecordBatch_decode (\<lambda>_ bs. (0, bs)) RecordBatch_default)
     (wBatchFrame (RecordBatch_default\<lparr>rb_records := [short_record]\<rparr>) 7
       (wBatchTail False (RecordBatch_default\<lparr>rb_records := [short_record]\<rparr>)
         (batch_payload (\<lambda>_ bs. (0, bs)) (RecordBatch_default\<lparr>rb_records := [short_record]\<rparr>))))
     (RecordBatch_seen RecordBatch_default (RecordBatch_default\<lparr>rb_records := [short_record]\<rparr>))"
  using record_batch_roundtrip [OF short_batch_ok, of RecordBatch_default] by (simp add: RecordBatch_default_def)


text \<open>
  C9. In every interleaving of lock, try_lock and unlock of guard::co_mutex at most one task holds the
  mutex, the flag says whether one does, and nobody waits for a free mutex.
\<close>

theorem mutex_exclusion:
  assumes "mutex_step\<^sup>*\<^sup>* mutex_init m"
  shows "(\<forall>t \<in> mx_holders m. \<forall>u \<in> mx_holders m. t = u) \<and> (mx_flag m \<longleftrightarrow> mx_holders m \<noteq> {}) \<and>
    (mx_waiter m \<noteq> [] \<longrightarrow> mx_holders m \<noteq> {})"
  using mxinv.reachable [OF assms] by (auto simp: mutex_inv_def split: if_splits)

theorem mutex_exclusion_witness: "mx_flag (mutex_lock 1 mutex_init) \<longleftrightarrow> mx_holders (mutex_lock 1 mutex_init) \<noteq> {}"
proof -
  have "mutex_step mutex_init (mutex_lock 1 mutex_init)" by (rule lock) (simp_all add: mutex_init_def)
  from mutex_exclusion [OF r_into_rtranclp [of mutex_step, OF this]] show ?thesis by blast
qed

text \<open>
  C10. Request::encode of a SyncGroupRequest writes the length prefix of everything behind it, the
  request header of the header version and the body, in both passes, and encode appends exactly those
  bytes.
\<close>

theorem request_frame:
  assumes "SyncGroupRequest_ok m" "length (rq_client_id r) < 2 ^ 31" "rq_body r = SyncGroupRequest_body m"
    and "int (length (wRequest r (wSyncGroupRequest m))) \<le> MaxRequestSize"
  shows "encode (Request_IEncoder r) out = Ok () (out @ wRequest r (wSyncGroupRequest m))"
  by (rule sgq.encode_request [OF assms])

theorem request_frame_witness:
  "encode (Request_IEncoder \<lparr>rq_correlation_id = 1, rq_client_id = [99], rq_body = SyncGroupRequest_body \<lparr>sgq_version = 0, sgq_group_id = [], sgq_generation_id = 0, sgq_member_id = [], sgq_group_instance_id = [], sgq_group_assignments = []\<rparr>\<rparr>) [] =
     Ok () (wRequest \<lparr>rq_correlation_id = 1, rq_client_id = [99], rq_body = SyncGroupRequest_body \<lparr>sgq_version = 0, sgq_group_id = [], sgq_generation_id = 0, sgq_member_id = [], sgq_group_instance_id = [], sgq_group_assignments = []\<rparr>\<rparr>
       (wSyncGroupRequest \<lparr>sgq_version = 0, sgq_group_id = [], sgq_generation_id = 0, sgq_member_id = [], sgq_group_instance_id = [], sgq_group_assignments = []\<rparr>))"
proof -
  let ?m = "\<lparr>sgq_version = 0, sgq_group_id = [], sgq_generation_id = 0, sgq_member_id = [], sgq_group_instance_id = [], sgq_group_assignments = []\<rparr>"
  let ?r = "\<lparr>rq_correlation_id = 1, rq_client_id = [99], rq_body = SyncGroupRequest_body ?m\<rparr>"
  have "SyncGroupRequest_ok ?m" "length (rq_client_id ?r) < 2 ^ 31" "rq_body ?r = SyncGroupRequest_body ?m"
    "int (length (wRequest ?r (wSyncGroupRequest ?m))) \<le> MaxRequestSize"
    by (simp_all add: SyncGroupRequest_ok_def wSyncGroupRequest_def Let_def string_ok_def len_ok_def MaxRequestSize_def
        MaxResponseSize_def wString_def wLen_def wArray_def wTags_def be16_def be32_def byte_at_def
        wRequest_def wRequestHeader_def SyncGroupRequest_is_flexible_version_def SyncGroupRequest_body_def)
  from request_frame [OF this, of "[]"] show ?thesis by simp
qed

text \<open>
  C11. A body read between push and pop of a Crc32Field is accepted exactly when the stored checksum
  is the checksum of the bytes it consumed; any other checksum gives ErrCRCMismatch.
\<close>

theorem crc_checked:
  assumes "reads fl d bs v" "(m_flexible pd \<noteq> 0) = fl" "length (pd_raw pd) < 2 ^ 31"
    and "pd_offset pd + 4 + length bs \<le> length (pd_raw pd)"
    and "slice (pd_offset pd) (4 + length bs) (pd_raw pd) = be32 c @ bs"
  shows "crc_guarded poly d pd =
    (if c = Crc32Field_crc poly bs then Ok v (advance (4 + length bs) pd)
     else Err ErrCRCMismatch (advance (4 + length bs) pd))"
  by (rule crc_guarded_apply [OF assms])

theorem crc_checked_witness:
  "crc_guarded CrcIEEE getInt8 (new_decoder (be32 (Crc32Field_crc CrcIEEE [5]) @ [5])) =
     Ok 5 (advance 5 (new_decoder (be32 (Crc32Field_crc CrcIEEE [5]) @ [5])))"
proof -
  have "reads False getInt8 [5] 5" using reads_getInt8 [of False 5] by (simp add: be8_def byte_at_def)
  from crc_checked [OF this, of "new_decoder (be32 (Crc32Field_crc CrcIEEE [5]) @ [5])" "Crc32Field_crc CrcIEEE [5]" CrcIEEE]
  show ?thesis by (simp add: new_decoder_def slice_def)
qed

text \<open>
  C12. Messages with the same non-empty key go to the same partition: the partition that a hash
  partitioner picks depends on the key, the number of partitions and the way it was built, not on the
  messages that were sent before, nor on the generator behind it.
\<close>

theorem hash_partition_consistent:
  assumes "resets ops" "pm_key m \<noteq> []" "pm_key m' = pm_key m"
    and "send_all dist before (HashPartitioner f ops hs ra hu) = Ok rs p" "partition_msg dist m n p = Ok r q"
    and "send_all dist' before' (HashPartitioner f' ops hs' ra hu) = Ok rs' p'" "partition_msg dist' m' n p' = Ok r' q'"
  shows "r = r'"
proof -
  obtain f1 h1 where p: "p = HashPartitioner f1 ops h1 ra hu" using send_all_kind [OF assms(4)] by blast
  obtain f2 h2 where p': "p' = HashPartitioner f2 ops h2 ra hu" using send_all_kind [OF assms(6)] by blast
  show ?thesis by (rule keyed_partition [OF assms(1-3) assms(5) [unfolded p] assms(7) [unfolded p']])
qed

theorem hash_partition_consistent_witness:
  "\<exists>r q q'. partition_msg (\<lambda>a b g. (a, g)) \<lparr>pm_partition = 0, pm_key = [107]\<rparr> 3 (NewHashPartitioner ()) = Ok r q \<and>
     partition_msg (\<lambda>a b g. (a, g)) \<lparr>pm_partition = 1, pm_key = [107]\<rparr> 3 q = Ok r q'"
proof -
  let ?d = "\<lambda>(a :: int32) (b :: int32) (g :: unit). (a, g)"
  let ?m = "\<lparr>pm_partition = 0, pm_key = [107]\<rparr>" and ?m' = "\<lparr>pm_partition = 1, pm_key = [107]\<rparr>"
  let ?p = "HashPartitioner (RandomPartitioner ()) fnv32a_ops offset32 False False"
  have d: "dist_in_range ?d" by (simp add: dist_in_range_def)
  obtain r q where 1: "partition_msg ?d ?m 3 ?p = Ok r q" "chooses q" using partition_msg_in_range [OF d, of 3 ?p ?m] by auto
  obtain r' q' where 2: "partition_msg ?d ?m' 3 q = Ok r' q'" using partition_msg_in_range [OF d _ 1(2), of 3 ?m'] by auto
  have "send_all ?d [(?m, 3)] ?p = Ok [r] q" using 1(1) by (simp add: bind_p_def ret_apply)
  from hash_partition_consistent [OF resets_ops(1) _ _ _ 1(1) this 2, of "[]"] 1 2 show ?thesis
    by (auto simp: NewHashPartitioner_def NewRandomPartitioner_def)
qed

text \<open>
  C13. Sequence numbers are handed out per topic and partition: in any interleaving of calls on a
  manager without numbers, the i-th call gets the number of earlier calls for the same topic and
  partition.
\<close>

theorem txn_sequence_numbers:
  assumes "m_sequence_numbers t = []" "\<forall>tp \<in> set calls. 0 \<le> sint (snd tp)" "length calls < 2 ^ 31"
  shows "\<exists>t'. draw_sequences calls t =
    Ok (map (\<lambda>i. of_nat (count_list (take i calls) (calls ! i))) [0..<length calls]) t'"
  using draw_sequences_from [of calls t "\<lambda>_. 0"] assms by (simp add: seq_at_def)

theorem txn_sequence_numbers_witness:
  "\<exists>t'. draw_sequences [([97], 1), ([97], 11), ([97], 1)] (sample_txn InTransaction 0 [] []) = Ok [0, 0, 1] t'"
  using txn_sequence_numbers [of "sample_txn InTransaction 0 [] []" "[([97], 1), ([97], 11), ([97], 1)]"]
  by (simp add: upt_rec sample_txn_def)

text \<open>
  C14. In every interleaving of set, get and try_get of guard::co_channel no value is lost, duplicated
  or reordered, no task waits while values are there, and no empty queue is popped.
\<close>

theorem channel_conserves:
  assumes "chan_step\<^sup>*\<^sup>* chan_init c"
  shows "ch_sent c = map snd (ch_got c) @ ch_data c \<and> (ch_waiter c \<noteq> [] \<longrightarrow> ch_data c = []) \<and> \<not> ch_bad c"
  using chinv.reachable [OF assms] by (simp add: chan_inv_def)

theorem channel_conserves_witness: "ch_sent (chan_set (5 :: int) chan_init) = map snd (ch_got (chan_set 5 chan_init)) @ ch_data (chan_set 5 chan_init)"
  using channel_conserves [OF r_into_rtranclp [of chan_step, OF put [of chan_init 5]]] by blast

text \<open>
  C15. Every partitioner that does not leave the choice to the caller returns, for a topic with at
  least one partition, a partition number from 0 to one less than the number of partitions, whatever
  key and hash function, and stays such a partitioner.
\<close>

theorem partition_in_range:
  assumes "dist_in_range dist" "0 < sint num_partitions" "chooses p"
  shows "\<exists>r p'. partition_msg dist msg num_partitions p = Ok r p' \<and> 0 \<le> sint r \<and> sint r < sint num_partitions \<and> chooses p'"
  using partition_msg_in_range [OF assms, of msg] unfolding in_range_def by blast

theorem partition_in_range_witness:
  "\<exists>r p'. partition_msg (\<lambda>a b g. (a, g)) \<lparr>pm_partition = 0, pm_key = [107]\<rparr> 3 (NewHashPartitioner ()) = Ok r p' \<and>
     0 \<le> sint r \<and> sint r < 3"
proof -
  have "dist_in_range (\<lambda>a b (g :: unit). (a, g))" by (simp add: dist_in_range_def)
  moreover have "chooses (NewHashPartitioner ())" by (simp add: NewHashPartitioner_def NewRandomPartitioner_def)
  ultimately show ?thesis using partition_in_range [where num_partitions = 3 and msg = "\<lparr>pm_partition = 0, pm_key = [107]\<rparr>"]
    by fastforce
qed

text \<open>
  C16. When every member asked for every topic, the round robin strategy deals the sorted partitions
  out in turn: the j-th member gets exactly those at positions j modulo the number of members, so that
  the numbers of partitions differ by at most one.
\<close>

theorem round_robin_plan_balanced:
  assumes "members \<noteq> []" "topics \<noteq> []" "smap members" "\<forall>e \<in> set members. fst ` set topics \<subseteq> set (snd e)" "j < length members"
  shows "plan_at (snd (RoundRobinBalancer_Plan members topics [])) (fst (members ! j)) t =
      [snd (topic_partitions topics ! k). k \<leftarrow> [0..<length (topic_partitions topics)],
         k mod length members = j \<and> fst (topic_partitions topics ! k) = t] \<and>
    plan_size (snd (RoundRobinBalancer_Plan members topics [])) (fst (members ! j)) =
      length (topic_partitions topics) div length members +
      (if j < length (topic_partitions topics) mod length members then 1 else 0)"
  using RoundRobin_uniform [OF assms(1-4)] assms(5) by blast

theorem round_robin_plan_balanced_witness:
  "plan_size (snd (RoundRobinBalancer_Plan [([97], [[116]]), ([98], [[116]])] [([116], [0, 1, 2])] [])) [97] = 2"
  using round_robin_plan_balanced [of "[([97], [[116]]), ([98], [[116]])]" "[([116], [0, 1, 2])]" 0]
  by (simp add: smap_def word_less_def length_topic_partitions div_Suc mod_Suc)

text \<open>
  C17. A JoinGroupRequest with protocols in the map or in the ordered list (not both; at least one in
  a flexible version) is encoded to its layout, and decoding fills both the map and the list with
  them.
\<close>

theorem join_group_request_roundtrip:
  assumes "JoinGroupRequest_ok m" "int (length (wJoinGroupRequest m)) \<le> MaxRequestSize"
  shows "encode (body_IEncoder (JoinGroupRequest_body m)) [] = Ok () (wJoinGroupRequest m) \<and>
    decode_version (wJoinGroupRequest m) (body_VDecoder (JoinGroupRequest_body this) (JoinGroupRequest_decode this) this) (jgq_version m) =
      Ok (JoinGroupRequest_seen this m) ()"
  using jgq.transfer [OF assms, of this] by (simp add: JoinGroupRequest_body_def)

theorem join_group_request_roundtrip_witness:
  "decode_version (wJoinGroupRequest \<lparr>jgq_version = 1, jgq_group_id = [103], jgq_session_timeout = 10, jgq_rebalance_timeout = 20, jgq_member_id = [], jgq_group_instance_id = [], jgq_protocol_type = [99], jgq_group_protocols = [], jgq_ordered_group_protocols = [\<lparr>gp_name = [114], gp_metadata = [1]\<rparr>]\<rparr>) (body_VDecoder (JoinGroupRequest_body \<lparr>jgq_version = 0, jgq_group_id = [], jgq_session_timeout = 0, jgq_rebalance_timeout = 0, jgq_member_id = [], jgq_group_instance_id = [], jgq_protocol_type = [], jgq_group_protocols = [], jgq_ordered_group_protocols = []\<rparr>) (JoinGroupRequest_decode \<lparr>jgq_version = 0, jgq_group_id = [], jgq_session_timeout = 0, jgq_rebalance_timeout = 0, jgq_member_id = [], jgq_group_instance_id = [], jgq_protocol_type = [], jgq_group_protocols = [], jgq_ordered_group_protocols = []\<rparr>) \<lparr>jgq_version = 0, jgq_group_id = [], jgq_session_timeout = 0, jgq_rebalance_timeout = 0, jgq_member_id = [], jgq_group_instance_id = [], jgq_protocol_type = [], jgq_group_protocols = [], jgq_ordered_group_protocols = []\<rparr>) (jgq_version \<lparr>jgq_version = 1, jgq_group_id = [103], jgq_session_timeout = 10, jgq_rebalance_timeout = 20, jgq_member_id = [], jgq_group_instance_id = [], jgq_protocol_type = [99], jgq_group_protocols = [], jgq_ordered_group_protocols = [\<lparr>gp_name = [114], gp_metadata = [1]\<rparr>]\<rparr>) =
     Ok (JoinGroupRequest_seen \<lparr>jgq_version = 0, jgq_group_id = [], jgq_session_timeout = 0, jgq_rebalance_timeout = 0, jgq_member_id = [], jgq_group_instance_id = [], jgq_protocol_type = [], jgq_group_protocols = [], jgq_ordered_group_protocols = []\<rparr> \<lparr>jgq_version = 1, jgq_group_id = [103], jgq_session_timeout = 10, jgq_rebalance_timeout = 20, jgq_member_id = [], jgq_group_instance_id = [], jgq_protocol_type = [99], jgq_group_protocols = [], jgq_ordered_group_protocols = [\<lparr>gp_name = [114], gp_metadata = [1]\<rparr>]\<rparr>) ()"
proof -
  let ?m = "\<lparr>jgq_version = 1, jgq_group_id = [103], jgq_session_timeout = 10, jgq_rebalance_timeout = 20, jgq_member_id = [], jgq_group_instance_id = [], jgq_protocol_type = [99], jgq_group_protocols = [], jgq_ordered_group_protocols = [\<lparr>gp_name = [114], gp_metadata = [1]\<rparr>]\<rparr>"
  have "JoinGroupRequest_ok ?m" "int (length (wJoinGroupRequest ?m)) \<le> MaxRequestSize"
    by (simp_all add: JoinGroupRequest_ok_def wJoinGroupRequest_def Let_def string_ok_def bytes_ok_def len_ok_def duration_ok_def MaxRequestSize_def
        MaxResponseSize_def wString_def wNullableString_def wBytes_def wLen_def wArray_def wTags_def wDurationMs_def
        be16_def be32_def be64_def byte_at_def JoinGroupRequest_is_flexible_version_def JoinGroupRequest_protocols_def GroupProtocol_ok_def wGroupProtocol_def)
  from join_group_request_roundtrip [OF this, of "\<lparr>jgq_version = 0, jgq_group_id = [], jgq_session_timeout = 0, jgq_rebalance_timeout = 0, jgq_member_id = [], jgq_group_instance_id = [], jgq_protocol_type = [], jgq_group_protocols = [], jgq_ordered_group_protocols = []\<rparr>"] show ?thesis by blast
qed

text \<open>
  C18. encode refuses a message whose layout is longer than MaxRequestSize with ErrEncodeError and
  leaves the output string as it was.
\<close>

theorem oversized_refused:
  assumes "SyncGroupResponse_ok m" "int (length (wSyncGroupResponse m)) > MaxRequestSize"
    "length (wSyncGroupResponse m) < 2 ^ 64"
  shows "encode (body_IEncoder (SyncGroupResponse_body m)) out = Err ErrEncodeError out"
  by (rule sgr.encode_oversized [OF assms])

theorem oversized_refused_witness:
  "encode (body_IEncoder (SyncGroupResponse_body \<lparr>sgr_version = 0, sgr_throttle_time = 0, sgr_err = 0,
     sgr_member_assignment = replicate 110000000 0\<rparr>)) [7] = Err ErrEncodeError [7]"
proof -
  let ?m = "\<lparr>sgr_version = 0, sgr_throttle_time = 0, sgr_err = 0, sgr_member_assignment = replicate 110000000 0\<rparr> :: SyncGroupResponse"
  have *: "length (wSyncGroupResponse ?m) = 110000006"
    by (simp add: wSyncGroupResponse_def Let_def wBytes_def wTags_def SyncGroupResponse_is_flexible_version_def be16_def be32_def)
  have "SyncGroupResponse_ok ?m" by (simp add: SyncGroupResponse_ok_def duration_ok_def bytes_ok_def)
  then show ?thesis by (rule oversized_refused) (simp_all only: * MaxRequestSize_def, simp_all)
qed

text \<open>
  C19. decode_version refuses a complete LeaveGroupResponse that is followed by further bytes with
  ErrDecodeError.
\<close>

theorem trailing_bytes_refused:
  assumes "LeaveGroupResponse_ok m" "rest \<noteq> []" "length (wLeaveGroupResponse m @ rest) < 2 ^ 31"
  shows "decode_version (wLeaveGroupResponse m @ rest)
      (body_VDecoder (LeaveGroupResponse_body this) (LeaveGroupResponse_decode this) this) (lgr_version m) =
    Err ErrDecodeError ()"
  using lgr.decode_trailing [OF assms, of this] by (simp add: LeaveGroupResponse_body_def)

theorem trailing_bytes_refused_witness:
  "decode_version (wLeaveGroupResponse \<lparr>lgr_version = 1, lgr_throttle_time = 3, lgr_err = 0, lgr_member_responses = []\<rparr> @ [0])
     (body_VDecoder (LeaveGroupResponse_body \<lparr>lgr_version = 0, lgr_throttle_time = 0, lgr_err = 0, lgr_member_responses = []\<rparr>)
       (LeaveGroupResponse_decode \<lparr>lgr_version = 0, lgr_throttle_time = 0, lgr_err = 0, lgr_member_responses = []\<rparr>)
       \<lparr>lgr_version = 0, lgr_throttle_time = 0, lgr_err = 0, lgr_member_responses = []\<rparr>) 1 = Err ErrDecodeError ()"
proof -
  let ?m = "\<lparr>lgr_version = 1, lgr_throttle_time = 3, lgr_err = 0, lgr_member_responses = []\<rparr>"
  have "LeaveGroupResponse_ok ?m" "[0] \<noteq> ([] :: bytes)" "length (wLeaveGroupResponse ?m @ [0]) < 2 ^ 31"
    by (simp_all add: LeaveGroupResponse_ok_def wLeaveGroupResponse_def Let_def duration_ok_def len_ok_def wTags_def
        wDurationMs_def be16_def be32_def byte_at_def MaxResponseSize_def LeaveGroupResponse_is_flexible_version_def)
  from trailing_bytes_refused [OF this, of "\<lparr>lgr_version = 0, lgr_throttle_time = 0, lgr_err = 0, lgr_member_responses = []\<rparr>"]
  show ?thesis by simp
qed

text \<open>
  C20. A flexible JoinGroupRequest without protocols is encoded with its trailing tagged fields, but
  decode returns before reading them, so decode_version refuses the bytes the encoder wrote.
\<close>

theorem empty_join_request_refused:
  assumes "no_protocols m" "int (length (wJoinGroupRequest m)) \<le> MaxRequestSize"
  shows "encode (body_IEncoder (JoinGroupRequest_body m)) [] = Ok () (wJoinGroupRequest m) \<and>
    decode_version (wJoinGroupRequest m) (body_VDecoder (JoinGroupRequest_body this) (JoinGroupRequest_decode this) this) 6 =
      Err ErrDecodeError ()"
  using no_protocols_encode [OF assms, of "[]"] no_protocols_decode [OF assms(1)] assms(2)
  by (simp add: MaxRequestSize_def)

theorem empty_join_request_refused_witness:
  "decode_version (wJoinGroupRequest \<lparr>jgq_version = 6, jgq_group_id = [103], jgq_session_timeout = 1, jgq_rebalance_timeout = 1, jgq_member_id = [], jgq_group_instance_id = [], jgq_protocol_type = [99], jgq_group_protocols = [], jgq_ordered_group_protocols = []\<rparr>) (body_VDecoder (JoinGroupRequest_body \<lparr>jgq_version = 0, jgq_group_id = [], jgq_session_timeout = 0, jgq_rebalance_timeout = 0, jgq_member_id = [], jgq_group_instance_id = [], jgq_protocol_type = [], jgq_group_protocols = [], jgq_ordered_group_protocols = []\<rparr>) (JoinGroupRequest_decode \<lparr>jgq_version = 0, jgq_group_id = [], jgq_session_timeout = 0, jgq_rebalance_timeout = 0, jgq_member_id = [], jgq_group_instance_id = [], jgq_protocol_type = [], jgq_group_protocols = [], jgq_ordered_group_protocols = []\<rparr>) \<lparr>jgq_version = 0, jgq_group_id = [], jgq_session_timeout = 0, jgq_rebalance_timeout = 0, jgq_member_id = [], jgq_group_instance_id = [], jgq_protocol_type = [], jgq_group_protocols = [], jgq_ordered_group_protocols = []\<rparr>) 6 =
     Err ErrDecodeError ()"
proof -
  let ?m = "\<lparr>jgq_version = 6, jgq_group_id = [103], jgq_session_timeout = 1, jgq_rebalance_timeout = 1, jgq_member_id = [], jgq_group_instance_id = [], jgq_protocol_type = [99], jgq_group_protocols = [], jgq_ordered_group_protocols = []\<rparr>"
  have "no_protocols ?m" by (simp add: no_protocols_def string_ok_def)
  moreover have "int (length (wJoinGroupRequest ?m)) \<le> MaxRequestSize"
    by (simp add: wJoinGroupRequest_def Let_def wString_def wNullableString_def wTags_def wArray_def wLen_def wCompact_def
        JoinGroupRequest_is_flexible_version_def JoinGroupRequest_protocols_def encodeUVariant.simps be32_def MaxRequestSize_def)
  ultimately show ?thesis using empty_join_request_refused [of ?m "\<lparr>jgq_version = 0, jgq_group_id = [], jgq_session_timeout = 0, jgq_rebalance_timeout = 0, jgq_member_id = [], jgq_group_instance_id = [], jgq_protocol_type = [], jgq_group_protocols = [], jgq_ordered_group_protocols = []\<rparr>"] by blast
qed

text \<open>
  C21. The table-driven Castagnoli checksum is the bitwise CRC with the reflected polynomial
  0x82F63B78.
\<close>

theorem crc_table_correct: "crc_castagnoli crc bs = crc_reference 0x82F63B78 crc bs"
  by (rule crc_castagnoli_reference)

text \<open>
  C22. getVariant, in front of the zig-zag bytes of a value between -2^62 and 2^62, returns that value
  and stops right behind them.
\<close>

theorem varint_roundtrip:
  assumes "- (2 ^ 62) \<le> sint x" "sint x < 2 ^ 62" "length (pre @ encodeVariant x @ rest) < 2 ^ 31"
  shows "getVariant \<lparr>m_flexible = f, pd_offset = length pre, pd_raw = pre @ encodeVariant x @ rest, pd_stack = st\<rparr> =
    Ok x \<lparr>m_flexible = f, pd_offset = length pre + length (encodeVariant x),
          pd_raw = pre @ encodeVariant x @ rest, pd_stack = st\<rparr>"
  using assms by (intro reads_at [OF reads_getVariant refl])

theorem varint_roundtrip_witness:
  "getVariant \<lparr>m_flexible = 0, pd_offset = length ([] :: bytes), pd_raw = [] @ encodeVariant (- 3) @ [], pd_stack = []\<rparr> =
    Ok (- 3) \<lparr>m_flexible = 0, pd_offset = length ([] :: bytes) + length (encodeVariant (- 3)), pd_raw = [] @ encodeVariant (- 3) @ [], pd_stack = []\<rparr>"
  by (rule varint_roundtrip) (simp_all add: encodeVariant_def zigzagEncode_def encodeUVariant.simps)

text \<open>
  C23. queue::push_back on a well-formed ring appends the node, trips no assertion and leaves the
  links of all other nodes alone.
\<close>

theorem queue_push_back:
  assumes "ring h q xs" "n \<notin> set (q # xs)"
  shows "\<exists>h'. push_back q n h = Some h' \<and> ring h' q (xs @ [n]) \<and> same_outside (set (q # n # xs)) h h'"
  by (rule push_back_ring [OF assms])

theorem queue_push_back_witness:
  "\<exists>h'. push_back 0 1 \<lparr>m_prev = \<lambda>a. a, m_next = \<lambda>a. a\<rparr> = Some h' \<and> ring h' 0 [1]"
  using queue_push_back [of "\<lparr>m_prev = \<lambda>a. a, m_next = \<lambda>a. a\<rparr>" 0 "[]" 1] by (auto simp: ring_def)

text \<open>
  C24. Nodes pushed at the back of an empty queue are popped from its front in the same order, and
  then the queue is empty.
\<close>

theorem queue_fifo:
  assumes "ring h q []" "distinct ns" "list_all (\<lambda>n. n \<noteq> q) ns"
  shows "\<exists>h'. push_list push_back q ns h = Some h' \<and>
    (\<exists>h''. pop_list pop_front q (length ns) h' = (map Some ns, h'') \<and> pop_front q h'' = (None, h''))"
  by (rule iq.fifo [OF assms])

theorem queue_fifo_witness:
  "\<exists>h'. push_list push_back 0 [1, 2, 3] \<lparr>m_prev = \<lambda>a. a, m_next = \<lambda>a. a\<rparr> = Some h' \<and>
    (\<exists>h''. pop_list pop_front 0 (length [1, 2, 3 :: nat]) h' = (map Some [1, 2, 3], h'') \<and> pop_front 0 h'' = (None, h''))"
  by (rule queue_fifo) (simp_all add: ring_def)

text \<open>
  C25. Every run of the two threads ends after at most ten accesses, and a state without further step
  is one where resume has returned and the coroutine has continued exactly once with the value.
\<close>

theorem event_completes:
  assumes "(event_step c x ^^ n) (event_start ev) s"
  shows "n \<le> 10 \<and> ((\<forall>s'. \<not> event_step c x s s') \<longrightarrow>
    es_await s = A_done x \<and> es_resume s = R_done \<and> es_continued s = 1 \<and> \<not> es_failed s)"
  using event_run_bound [OF assms] event_stuck [OF event_inv_reachable [OF relpowp_imp_rtranclp [OF assms]]] by auto

theorem event_completes_witness:
  "(1 :: nat) \<le> 10 \<and> \<not> (\<forall>s'. \<not> event_step 1 5 ((event_start \<lparr>ev_caller = None, ev_status = CORO_INIT, ev_tid = 0, ev_reserved = 0\<rparr>)\<lparr>es_await := A_store\<rparr>) s')"
proof -
  let ?s = "event_start \<lparr>ev_caller = None, ev_status = CORO_INIT, ev_tid = 0, ev_reserved = 0\<rparr>"
  have "event_step 1 5 ?s (?s\<lparr>es_await := A_store\<rparr>)"
    unfolding event_step_def by (rule disjI1, rule ready_no) (simp_all add: event_start_def await_ready_def)
  then have "(event_step 1 5 ^^ 1) ?s (?s\<lparr>es_await := A_store\<rparr>)" by (simp only: relpowp_1)
  from event_completes [OF this] show ?thesis by (auto simp: event_start_def)
qed





text \<open>
  C28. co_task::load ends its identifier loop, links the promise to the table under an identifier that
  no running coroutine has, keeps the table well formed, and only then continues the coroutine.
\<close>

theorem task_ids_unique:
  assumes "task_inv (tr_task (w_rest w))" "int (card (tk_ids (tr_task (w_rest w)))) < TASK_ID_MAX div 2"
    "p \<notin> fst ` set (tk_promises (tr_task (w_rest w)))"
    "pr_tid (tr_promise (w_rest w) p) = tid" "pr_link (tr_promise (w_rest w) p) = None"
  shows "\<exists>k w'. load run self tid p w = map_option (Pair (int_of_id k)) (task_finally run p w') \<and>
    task_inv (tr_task (w_rest w')) \<and> k \<notin> snd ` set (tk_promises (tr_task (w_rest w))) \<and>
    map_of (tk_promises (tr_task (w_rest w'))) = (map_of (tk_promises (tr_task (w_rest w))))(p \<mapsto> k)"
  by (rule task_insert_fresh [OF assms, of self]) (fastforce simp: load_def)

theorem task_ids_unique_witness:
  "\<exists>k w'. load (\<lambda>_. Some) 9 3 5 (\<lparr>w_heap = \<lparr>m_prev = \<lambda>a. 1 - a, m_next = \<lambda>a. 1 - a\<rparr>, w_events = \<lambda>_. \<lparr>ev_caller = Some 7, ev_status = CORO_SUSPEND, ev_tid = 0, ev_reserved = 0\<rparr>, w_rest = \<lparr>tr_task = \<lparr>tk_promises = [], tk_ids = {}, tk_id = 0\<rparr>, tr_promise = \<lambda>_. \<lparr>pr_link = None, pr_tid = 3, pr_status = CORO_RUNNING, pr_type = CORO_NONE\<rparr>, tr_destroying = 0\<rparr>\<rparr>) = Some (int_of_id k, w') \<and> map_of (tk_promises (tr_task (w_rest w'))) = [5 \<mapsto> k]"
  using task_ids_unique [of "\<lparr>w_heap = \<lparr>m_prev = \<lambda>a. 1 - a, m_next = \<lambda>a. 1 - a\<rparr>, w_events = \<lambda>_. \<lparr>ev_caller = Some 7, ev_status = CORO_SUSPEND, ev_tid = 0, ev_reserved = 0\<rparr>, w_rest = \<lparr>tr_task = \<lparr>tk_promises = [], tk_ids = {}, tk_id = 0\<rparr>, tr_promise = \<lambda>_. \<lparr>pr_link = None, pr_tid = 3, pr_status = CORO_RUNNING, pr_type = CORO_NONE\<rparr>, tr_destroying = 0\<rparr>\<rparr>" 5 3 "\<lambda>_. Some" 9]
  by (auto simp: task_inv_def TASK_ID_MAX_def task_finally_def Let_def)

text \<open>
  C29. After a fatal error nothing brings a transaction manager back: in every later run the status
  stays FatalError with an error recorded, begin_txn is refused, and both commit and abort return the
  recorded error.
\<close>

theorem txn_fatal_absorbing:
  assumes "inv_at FatalError t" "is_transactional t'" "(txn_step c)\<^sup>*\<^sup>* (t, w) (t', w')"
  shows "m_status t' = txn_flags FatalError \<and> m_last_error t' \<noteq> 0 \<and> begin_txn t' = (ErrTransitionNotAllowed, t') \<and>
    (\<forall>commit. finish_transaction c commit (t', w') = Ok (m_last_error t') (t', w'))"
proof -
  have "refines_txn t t'" using txn_run_refines [OF assms(3)] by simp
  then have at: "inv_at FatalError t'" using assms(1) fatal_absorbing unfolding refines_txn_def by blast
  then have "finish_transaction c commit (t', w') = Ok (m_last_error t') (t', w')" for commit
    by (cases commit) (simp_all add: finish_transaction_def bind_p_def this_mgr_def ret_apply current_txn_status_def
        inv_at_def in_error_def)
  with at begin_refused [OF at _ assms(2)] show ?thesis by (simp add: inv_at_def in_error_def)
qed

theorem txn_fatal_absorbing_witness:
  fixes c :: "unit Client"
  shows "m_last_error (bump_epoch (sample_txn FatalError 90 [] [])) \<noteq> 0"
proof -
  let ?t = "sample_txn FatalError 90 [] []"
  have "inv_at FatalError ?t" "is_transactional (bump_epoch ?t)"
    by (simp_all add: sample_txn_def inv_at_def in_error_def is_transactional_def bump_epoch_def)
  moreover have "(txn_step c)\<^sup>*\<^sup>* (?t, ()) (bump_epoch ?t, ())" by (intro r_into_rtranclp step_bump)
  ultimately show ?thesis using txn_fatal_absorbing [of ?t "bump_epoch ?t" c "()" "()"] by blast
qed

text \<open>
  C30. When the coordinator is reached and its reply acknowledges every pending partition without
  error, publish_txn_partitions returns success after one attempt, moves all pending partitions into
  the transaction and leaves the state of the manager as it was.
\<close>

theorem txn_publish_partitions:
  assumes "inv_at st t" "\<not> in_error st" "m_pending_partitions_in_current_txn t \<noteq> []" "0 \<le> cf_Retry_Max (cl_conf c)"
    and "cl_TransactionCoordinator c (m_transactional_id t) w = ((0, Some b), w1)"
    and "cl_AddPartitionsToTxn c b (AddPartitionsToTxnRequest_at (cl_conf c) t) w1 = ((0, Some r), w2)"
    and "\<forall>x \<in> set (topic_errors (apr_errors r)). sint (pte_err (snd x)) = ErrNoError"
    and "set (m_pending_partitions_in_current_txn t) =
      (\<lambda>(tp, e). (tp, pte_partition e)) ` set (topic_errors (apr_errors r))"
  shows "\<exists>t'. publish_txn_partitions c (t, w) = Ok 0 (t', w2) \<and> inv_at st t' \<and>
    m_pending_partitions_in_current_txn t' = [] \<and>
    set (m_partitions_in_current_txn t') =
      set (m_partitions_in_current_txn t) \<union> set (m_pending_partitions_in_current_txn t)"
  using publish_accepted [OF assms(2,1,3-8)] .

theorem txn_publish_partitions_witness:
  "\<exists>t'. publish_txn_partitions (sample_client 0 0)
     (sample_txn InTransaction 0 [([97], 0)] [], ()) = Ok 0 (t', ()) \<and> m_pending_partitions_in_current_txn t' = []"
proof -
  let ?c = "sample_client 0 0" and ?t = "sample_txn InTransaction 0 [([97], 0)] []"
  have "inv_at InTransaction ?t" by (simp add: sample_txn_def inv_at_def in_error_def)
  from txn_publish_partitions [OF this, of ?c "()" 1 "()"
      "\<lparr>apr_version = 0, apr_throttle_time = 0, apr_errors = [([97], [\<lparr>pte_partition = 0, pte_err = 0\<rparr>])]\<rparr>" "()"]
  show ?thesis by (fastforce simp: sample_txn_def sample_client_def in_error_def topic_errors_def ErrNoError_def)
qed









text \<open>
  C36. Seven message classes resize a vector to the count they have just read: a null array (count -1)
  in an otherwise well-formed packet ends in std::length_error instead of an error code. Three of
  them: the members of a LeaveGroupResponse and of a JoinGroupResponse, and the bindings of a
  CreateAclsRequest.
\<close>

theorem null_array_aborts:
  assumes "duration_ok t" "string_ok False s"
  shows "decode_version (wDurationMs t @ be16 e @ wNull) (body_VDecoder (LeaveGroupResponse_body lr) (LeaveGroupResponse_decode lr) lr) 3 = Abort \<and>
    decode_version (be16 e @ be32 g @ wString False s @ wString False s @ wString False s @ wNull)
      (body_VDecoder (JoinGroupResponse_body jr) (JoinGroupResponse_decode jr) jr) 1 = Abort \<and>
    decode_version wNull (body_VDecoder (CreateAclsRequest_body cq) (CreateAclsRequest_decode cq) cq) v = Abort"
proof -
  have "length (wString False s) < 2 ^ 16" using assms(2) by (simp add: wString_def string_ok_def)
  then show ?thesis
    using null_arrays [OF assms assms(2) assms(2)]
    by (intro conjI decode_version_aborts) (simp_all add: wNull_def wDurationMs_def be32_def be16_def LeaveGroupResponse_body_def
      LeaveGroupResponse_is_flexible_version_def JoinGroupResponse_body_def JoinGroupResponse_is_flexible_version_def
      CreateAclsRequest_body_def)
qed

theorem null_array_aborts_witness:
  "decode_version [0, 0, 0, 0, 0, 0, 255, 255, 255, 255]
     (body_VDecoder (LeaveGroupResponse_body \<lparr>lgr_version = 0, lgr_throttle_time = 0, lgr_err = 0, lgr_member_responses = []\<rparr>) (LeaveGroupResponse_decode \<lparr>lgr_version = 0, lgr_throttle_time = 0, lgr_err = 0, lgr_member_responses = []\<rparr>) \<lparr>lgr_version = 0, lgr_throttle_time = 0, lgr_err = 0, lgr_member_responses = []\<rparr>) 3 = Abort"
  using null_array_aborts [of 0 "[]" 0 "\<lparr>lgr_version = 0, lgr_throttle_time = 0, lgr_err = 0, lgr_member_responses = []\<rparr>"]
  by (simp add: duration_ok_def string_ok_def wDurationMs_def be32_def be16_def byte_at_def wNull_def)

text \<open>
  C37. A record with a body of 64 to 127 bytes is damaged by encode: one byte is reserved for its
  length, two are written, and the second one replaces the attributes of the record.
\<close>

theorem record_length_overwrites:
  assumes "Record_fits r" "64 \<le> length (wRecordBody r)" "length (wRecordBody r) < 128"
  shows "\<exists>r'. encode_object Record_encode r out =
    Ok r' (out @ encodeVariant (size64 (length (wRecordBody r))) @ tl (wRecordBody r))"
  using encode_record_overwrites [OF assms] by blast

theorem record_length_overwrites_witness:
  "\<exists>r'. encode_object Record_encode long_record [] = Ok r' ([134, 1, 0, 0, 2, 107, 120] @ replicate 60 65 @ [0])"
proof -
  have "encodeVariant 67 = [134, 1]" by code_simp
  then show ?thesis using record_length_overwrites [OF long_record_fits, of "[]"] long_record_bytes(1) by simp
qed

text \<open>
  C38. A batch in which the protocol layout of a record of 64 to 127 bytes occurs is reported as read
  without an error, but the records behind that one are left default constructed.
\<close>

theorem record_batch_stops:
  assumes "rb_records b = rs @ r # rs'" "len_ok False (length (rb_records b))"
    "0 \<le> sint (rb_first_timestamp b)" "0 \<le> sint (rb_max_timestamp b)" "rb_codec b = Codec_None"
    "\<forall>x \<in> set rs. Record_ok x" "Record_fits r" "64 \<le> length (wRecordBody r)" "length (wRecordBody r) < 128"
    "length (concat (map wRecord (rb_records b))) < 2 ^ 30" "rb_records this = []"
  shows "\<exists>b'. reads False (RecordBatch_decode inflate this)
      (wBatchFrame b crc (wBatchTail False b (concat (map wRecord (rb_records b))))) b' \<and>
    rb_records b' = map Record_stored rs @ Record_stored r # replicate (length rs') Record_default"
  by (rule exI, rule conjI, rule reads_RecordBatch_stops [OF assms]) simp

theorem record_batch_stops_witness:
  "\<exists>b'. reads False (RecordBatch_decode (\<lambda>_ bs. (0, bs)) RecordBatch_default)
      (wBatchFrame (RecordBatch_default\<lparr>rb_records := [short_record, long_record, short_record]\<rparr>) 0
        (wBatchTail False (RecordBatch_default\<lparr>rb_records := [short_record, long_record, short_record]\<rparr>)
          (concat (map wRecord [short_record, long_record, short_record])))) b' \<and>
    rb_records b' = [Record_stored short_record, Record_stored long_record, Record_default]"
  using record_batch_stops [of "RecordBatch_default\<lparr>rb_records := [short_record, long_record, short_record]\<rparr>"
      "[short_record]" long_record "[short_record]" RecordBatch_default "(\<lambda>_ bs. (0, bs))" 0]
    short_record_ok long_record_fits short_record_bytes long_record_bytes
  by (simp add: RecordBatch_default_def len_ok_def be32_def byte_at_def MaxResponseSize_def)

text \<open>
  C39. MessageSet::decode never gets past its first block: as soon as seventeen bytes with a magic
  byte of 0 or 1 are there, MessageBlock::decode calls Message::clear, which goes through a null
  pointer.
\<close>

theorem message_set_decode_aborts:
  assumes "17 \<le> remaining pd" "sint (pd_raw pd ! (pd_offset pd + 16)) \<le> 1" "2 \<le> n"
  shows "MessageSet_decode n inflate this pd = Abort"
  using assms by (rule message_set_aborts)

theorem message_set_decode_aborts_witness:
  "MessageSet_decode 2 (\<lambda>_ bs. (0, bs)) MessageSet_default (new_decoder (replicate 17 0)) = Abort"
  using message_set_decode_aborts [of "new_decoder (replicate 17 0)" 2 "(\<lambda>_ bs. (0, bs))" MessageSet_default]
  by (simp add: new_decoder_def remaining_def del: replicate.simps)


end
